(* ===== verification/L2_Prelude.thy ===== *)
theory L2_Prelude
  imports Main "HOL-Library.Word"
begin

text \<open>
  Shared vocabulary of the development: the C integer types the sources use, the outcome type
  of code that can stop the process or read outside a buffer, the linear insertion that the
  intrusive linked lists of Layer 2 all use, and arithmetic on sequence numbers.

  A value of type \<open>'a c_result\<close> is \<open>Inl\<close> of the way the C code goes wrong, or \<open>Inr\<close> of what it
  computes. A pointer and a size are one \<open>byte list\<close>: the size is the length of the list.
\<close>

unbundle bit_operations_syntax

named_theorems c_result_simps \<open>simplification of outcomes\<close>
named_theorems stat_frame \<open>fields that statistics updates leave alone\<close>

type_synonym byte = "8 word"
type_synonym u32 = "32 word"
type_synonym u64 = "64 word"

datatype c_fault =
    OutOfBounds   \<comment> \<open>a read or write outside the bytes of a buffer\<close>
  | NullDeref     \<comment> \<open>a NULL pointer, or one already freed, is used\<close>
  | AssertFail    \<comment> \<open>\<^verbatim>\<open>DevAssert\<close> or \<^verbatim>\<open>AssertFatal\<close> stops the process\<close>
  | ProcessExit   \<comment> \<open>\<^verbatim>\<open>exit(1)\<close>\<close>
  | DivZero       \<comment> \<open>a remainder modulo zero\<close>
  | NoReturn      \<comment> \<open>a loop that never ends\<close>

type_synonym 'a c_result = "c_fault + 'a"

definition c_bind :: "'a c_result \<Rightarrow> ('a \<Rightarrow> 'b c_result) \<Rightarrow> 'b c_result" where
  "c_bind m f = (case m of Inl e \<Rightarrow> Inl e | Inr x \<Rightarrow> f x)"

lemma c_bind_simps [simp, c_result_simps]:
  "c_bind (Inl e) f = Inl e"
  "c_bind (Inr x) f = f x"
  by (simp_all add: c_bind_def)

lemma c_bind_cong [fundef_cong]:
  "m = m' \<Longrightarrow> (\<And>x. m' = Inr x \<Longrightarrow> f x = g x) \<Longrightarrow> c_bind m f = c_bind m' g"
  by (cases m') simp_all

lemma c_bind_assoc: "c_bind (c_bind m f) g = c_bind m (\<lambda>x. c_bind (f x) g)"
  by (cases m) simp_all

lemma c_bind_eq_Inr_conv: "c_bind m f = Inr y \<longleftrightarrow> (\<exists>x. m = Inr x \<and> f x = Inr y)"
  by (cases m) simp_all

definition c_check :: "c_fault \<Rightarrow> bool \<Rightarrow> unit c_result" where
  "c_check e b = (if b then Inr () else Inl e)"

lemma c_check_simps [simp, c_result_simps]:
  "b \<Longrightarrow> c_check e b = Inr ()"
  "\<not> b \<Longrightarrow> c_check e b = Inl e"
  by (simp_all add: c_check_def)

text \<open>The value behind a pointer that may be NULL.\<close>

definition deref :: "'a option \<Rightarrow> 'a c_result" where
  "deref p = (case p of None \<Rightarrow> Inl NullDeref | Some x \<Rightarrow> Inr x)"

lemma deref_simps [simp]: "deref None = Inl NullDeref" "deref (Some x) = Inr x"
  by (simp_all add: deref_def)

text \<open>A byte of a buffer, read through a pointer.\<close>

definition rd :: "byte list \<Rightarrow> nat \<Rightarrow> byte c_result" where
  "rd buf i = (if i < length buf then Inr (buf ! i) else Inl OutOfBounds)"

lemma rd_in [simp]: "i < length buf \<Longrightarrow> rd buf i = Inr (buf ! i)"
  by (simp add: rd_def)

lemma rd_out [simp]: "length buf \<le> i \<Longrightarrow> rd buf i = Inl OutOfBounds"
  by (simp add: rd_def)

text \<open>
  \<^verbatim>\<open>memcpy\<close> out of and into a buffer, at an offset and for a size that are C integers: a negative
  size is a huge \<^verbatim>\<open>size_t\<close>.
\<close>

definition buf_read :: "byte list \<Rightarrow> int \<Rightarrow> int \<Rightarrow> byte list c_result" where
  "buf_read src off n =
     (if 0 \<le> off \<and> 0 \<le> n \<and> off + n \<le> int (length src) then Inr (take (nat n) (drop (nat off) src))
      else Inl OutOfBounds)"

definition buf_write :: "byte list \<Rightarrow> int \<Rightarrow> byte list \<Rightarrow> byte list c_result" where
  "buf_write dst off src =
     (if 0 \<le> off \<and> off + int (length src) \<le> int (length dst)
      then Inr (take (nat off) dst @ src @ drop (nat off + length src) dst)
      else Inl OutOfBounds)"

text \<open>The remainder of C truncates: its sign is that of the dividend.\<close>

definition c_rem :: "int \<Rightarrow> int \<Rightarrow> int" where
  "c_rem a b = sgn a * (\<bar>a\<bar> mod \<bar>b\<bar>)"

lemma c_rem_nonneg [simp]: "0 \<le> a \<Longrightarrow> 0 < b \<Longrightarrow> c_rem a b = a mod b"
  by (cases "a = 0") (simp_all add: c_rem_def)

lemma map_sum_eq_InrE:
  assumes "map_sum id f r = Inr y"
  obtains x where "r = Inr x" "f x = y"
  using assms by (cases r) auto

subsection \<open>Insertion in a linked list\<close>

text \<open>
  Every ordered list of Layer 2 is kept by the same loop: walk while the stop test fails, link
  the new cell before the first cell where it holds, or at the end.
\<close>

fun insert_before :: "('a \<Rightarrow> bool) \<Rightarrow> 'a \<Rightarrow> 'a list \<Rightarrow> 'a list" where
  "insert_before stop x [] = [x]"
| "insert_before stop x (c # cs) = (if stop c then x # c # cs else c # insert_before stop x cs)"

lemma set_insert_before [simp]: "set (insert_before stop x cs) = insert x (set cs)"
  by (induction cs) auto

lemma length_insert_before [simp]: "length (insert_before stop x cs) = Suc (length cs)"
  by (induction cs) auto

lemma insert_before_append:
  "\<exists>ps qs. cs = ps @ qs \<and> insert_before stop x cs = ps @ x # qs"
proof (induction cs)
  case Nil
  show ?case by simp
next
  case (Cons c cs)
  then obtain ps qs where "cs = ps @ qs" and "insert_before stop x cs = ps @ x # qs" by blast
  then show ?case
    by (cases "stop c") (force intro: exI [of _ "[]"], force intro: exI [of _ "c # ps"])
qed

text \<open>
  The interface of an ordered list: \<open>key\<close> is what the list is ordered by, \<open>ins\<close> the loop. The
  provider shows that \<open>ins\<close> is the loop with a stop test that is \<open>key x < key c\<close> on the cells
  of the list; the client gets the facts about order and content.
\<close>

locale ordered_list =
  fixes key :: "'a \<Rightarrow> 'k::linorder"
    and ins :: "'a list \<Rightarrow> 'a \<Rightarrow> 'a list"
    and ok :: "'a \<Rightarrow> 'a list \<Rightarrow> bool"
  assumes ins_eq: "ok x cs \<Longrightarrow> ins cs x = insert_before (\<lambda>c. key x < key c) x cs"
begin

lemma sorted_ins:
  assumes "ok x cs" and "sorted (map key cs)"
  shows "sorted (map key (ins cs x))"
proof -
  have "sorted (map key (insert_before (\<lambda>c. key x < key c) x cs))"
    using assms(2) by (induction cs) auto
  with assms(1) show ?thesis by (simp add: ins_eq)
qed

lemma set_ins: "ok x cs \<Longrightarrow> set (ins cs x) = insert x (set cs)"
  by (simp add: ins_eq)

lemma length_ins: "ok x cs \<Longrightarrow> length (ins cs x) = Suc (length cs)"
  by (simp add: ins_eq)

lemma strict_ins:
  assumes "ok x cs" and "sorted_wrt (\<lambda>a b. key a < key b) cs" and "key x \<notin> key ` set cs"
  shows "sorted_wrt (\<lambda>a b. key a < key b) (ins cs x)"
proof -
  have "sorted_wrt (\<lambda>a b. key a < key b) (insert_before (\<lambda>c. key x < key c) x cs)"
    using assms(2,3)
  proof (induction cs)
    case (Cons c cs)
    then have ih: "sorted_wrt (\<lambda>a b. key a < key b) (insert_before (\<lambda>c. key x < key c) x cs)"
      by simp
    show ?case
    proof (cases "key x < key c")
      case True
      with Cons.prems show ?thesis by auto
    next
      case False
      with Cons.prems(2) have "key c < key x" by auto
      with False ih Cons.prems(1) show ?thesis by simp
    qed
  qed simp
  with assms(1) show ?thesis by (simp add: ins_eq)
qed

lemma ins_split:
  assumes "ok x cs" and "sorted (map key cs)"
  obtains ps qs where "cs = ps @ qs" and "ins cs x = ps @ x # qs"
    and "\<forall>c \<in> set ps. key c \<le> key x" and "\<forall>c \<in> set qs. key x < key c"
proof -
  have "\<exists>ps qs. cs = ps @ qs \<and> insert_before (\<lambda>c. key x < key c) x cs = ps @ x # qs \<and>
      (\<forall>c \<in> set ps. key c \<le> key x) \<and> (\<forall>c \<in> set qs. key x < key c)"
    using assms(2)
  proof (induction cs)
    case (Cons c cs)
    show ?case
    proof (cases "key x < key c")
      case True
      with Cons.prems have "\<forall>d \<in> set (c # cs). key x < key d" by force
      with True show ?thesis by (intro exI [of _ "[]"] exI [of _ "c # cs"]) simp
    next
      case False
      from Cons obtain ps qs where "cs = ps @ qs" "insert_before (\<lambda>c. key x < key c) x cs = ps @ x # qs"
        "\<forall>c \<in> set ps. key c \<le> key x" "\<forall>c \<in> set qs. key x < key c" by auto
      with False show ?thesis by (intro exI [of _ "c # ps"] exI [of _ qs]) simp
    qed
  qed simp
  with assms(1) that show thesis by (auto simp: ins_eq)
qed

lemma mem_order:
  assumes "ok x cs" and "sorted_wrt (\<lambda>a b. key a < key b) cs" and "\<forall>c \<in> set cs. key x < key c"
  shows "ins cs x = x # cs"
  using assms by (cases cs) (simp_all add: ins_eq)

end

subsection \<open>Runs of a receiver\<close>

text \<open>
  A receiver takes events one by one and hands items up. \<open>run_steps\<close> is the sequence of its calls:
  the items of all calls in order, or the first fault.
\<close>

fun run_steps :: "('s \<Rightarrow> 'e \<Rightarrow> ('s \<times> 'd list) c_result) \<Rightarrow> 's \<Rightarrow> 'e list \<Rightarrow> ('s \<times> 'd list) c_result" where
  "run_steps step s [] = Inr (s, [])"
| "run_steps step s (ev # evs) =
     c_bind (step s ev) (\<lambda>(s1, ds1).
     c_bind (run_steps step s1 evs) (\<lambda>(s2, ds2). Inr (s2, ds1 @ ds2)))"

lemma run_steps_ConsE:
  assumes "run_steps step s (ev # evs) = Inr (s', ds)"
  obtains s1 ds1 ds2 where "step s ev = Inr (s1, ds1)" and "run_steps step s1 evs = Inr (s', ds2)"
    and "ds = ds1 @ ds2"
  using assms by (auto simp: c_bind_eq_Inr_conv split: prod.splits)

lemma run_steps_append:
  "run_steps step s (as @ bs) =
     c_bind (run_steps step s as) (\<lambda>(s1, ds1).
     c_bind (run_steps step s1 bs) (\<lambda>(s2, ds2). Inr (s2, ds1 @ ds2)))"
proof (induction as arbitrary: s)
  case Nil
  show ?case by (cases "run_steps step s bs") auto
next
  case (Cons a as)
  show ?case
    by (cases "step s a") (auto simp: Cons.IH c_bind_def split: sum.splits)
qed

text \<open>
  The contract of a component that never fails: from a good state a good event leads to a good state,
  and what comes out satisfies \<open>out_ok\<close>. The client gets the same for every run.
\<close>

locale safe_machine =
  fixes step :: "'s \<Rightarrow> 'e \<Rightarrow> ('s \<times> 'd list) c_result"
    and inv :: "'s \<Rightarrow> bool"
    and ev_ok :: "'e \<Rightarrow> bool"
    and out_ok :: "'d \<Rightarrow> bool"
  assumes step_ok: "inv s \<Longrightarrow> ev_ok ev \<Longrightarrow>
    \<exists>s' ds. step s ev = Inr (s', ds) \<and> inv s' \<and> (\<forall>d \<in> set ds. out_ok d)"
begin

theorem run_ok:
  "inv s \<Longrightarrow> \<forall>ev \<in> set evs. ev_ok ev \<Longrightarrow>
   \<exists>s' ds. run_steps step s evs = Inr (s', ds) \<and> inv s' \<and> (\<forall>d \<in> set ds. out_ok d)"
proof (induction evs arbitrary: s)
  case (Cons ev evs)
  have ev: "ev_ok ev" "\<forall>ev \<in> set evs. ev_ok ev" using Cons.prems(2) by simp_all
  from step_ok [OF Cons.prems(1) ev(1)] obtain s1 ds1
    where st: "step s ev = Inr (s1, ds1)" "inv s1" "\<forall>d \<in> set ds1. out_ok d" by blast
  from Cons.IH [OF st(2) ev(2)] obtain s2 ds2
    where "run_steps step s1 evs = Inr (s2, ds2)" "inv s2" "\<forall>d \<in> set ds2. out_ok d" by blast
  with st show ?case by auto
qed simp

end

text \<open>
  A machine that can stop, and where it can: \<open>stops s ev f\<close> are the states, events and faults that are known.
\<close>

locale fault_machine =
  fixes step :: "'s \<Rightarrow> 'e \<Rightarrow> ('s \<times> 'd list) c_result"
    and inv :: "'s \<Rightarrow> bool"
    and stops :: "'s \<Rightarrow> 'e \<Rightarrow> c_fault \<Rightarrow> bool"
  assumes step_cases: "inv s \<Longrightarrow> (\<exists>s' ds. step s ev = Inr (s', ds) \<and> inv s') \<or> (\<exists>f. step s ev = Inl f \<and> stops s ev f)"
begin

theorem run_cases:
  "inv s \<Longrightarrow> (\<exists>s' ds. run_steps step s evs = Inr (s', ds) \<and> inv s') \<or>
     (\<exists>pre ev post s1 ds f. evs = pre @ ev # post \<and> run_steps step s pre = Inr (s1, ds) \<and> inv s1 \<and> stops s1 ev f \<and>
        run_steps step s evs = Inl f)"
proof (induction evs arbitrary: s)
  case (Cons ev evs)
  from step_cases [OF Cons.prems, of ev] show ?case
  proof (elim disjE exE conjE)
    fix s1 ds1 assume st: "step s ev = Inr (s1, ds1)" "inv s1"
    from Cons.IH [OF st(2)] show ?thesis
    proof (elim disjE exE conjE)
      fix s' ds assume "run_steps step s1 evs = Inr (s', ds)" "inv s'"
      then show ?thesis by (simp add: st(1))
    next
      fix pre ev' post s2 ds f
      assume r: "evs = pre @ ev' # post" "run_steps step s1 pre = Inr (s2, ds)" "inv s2" "stops s2 ev' f" "run_steps step s1 evs = Inl f"
      have "ev # evs = (ev # pre) @ ev' # post" "run_steps step s (ev # pre) = Inr (s2, ds1 @ ds)" "run_steps step s (ev # evs) = Inl f"
        using r by (simp_all add: st(1))
      then show ?thesis using r(3,4) by blast
    qed
  next
    fix f assume st: "step s ev = Inl f" "stops s ev f"
    have "ev # evs = [] @ ev # evs" "run_steps step s [] = Inr (s, [])" "run_steps step s (ev # evs) = Inl f" by (simp_all add: st(1))
    then show ?thesis using Cons.prems st(2) by blast
  qed
qed simp

end

text \<open>
  Two machines with the same events: an implementation and the machine that says what it should do. Related
  states stay related, the items are the same, and so is the fault when there is one.
\<close>

definition c_rel :: "('a \<Rightarrow> 'b \<Rightarrow> bool) \<Rightarrow> 'a c_result \<Rightarrow> 'b c_result \<Rightarrow> bool" where
  "c_rel r x y \<longleftrightarrow> (case x of Inl f \<Rightarrow> y = Inl f | Inr a \<Rightarrow> (case y of Inl _ \<Rightarrow> False | Inr b \<Rightarrow> r a b))"

lemma c_rel_simps [simp]:
  "c_rel r (Inl f) y \<longleftrightarrow> y = Inl f" "c_rel r (Inr a) (Inr b) \<longleftrightarrow> r a b" "\<not> c_rel r (Inr a) (Inl f)"
  by (simp_all add: c_rel_def)

lemma c_rel_InrD: "c_rel r (Inr a) y \<Longrightarrow> \<exists>b. y = Inr b \<and> r a b"
  by (cases y) auto

locale simulation =
  fixes step :: "'s \<Rightarrow> 'e \<Rightarrow> ('s \<times> 'd list) c_result"
    and spec :: "'a \<Rightarrow> 'e \<Rightarrow> ('a \<times> 'd list) c_result"
    and rel :: "'s \<Rightarrow> 'a \<Rightarrow> bool"
  assumes step_sim: "rel s a \<Longrightarrow> c_rel (\<lambda>(s', ds) (a', ds'). rel s' a' \<and> ds = ds') (step s ev) (spec a ev)"
begin

theorem run_sim: "rel s a \<Longrightarrow> c_rel (\<lambda>(s', ds) (a', ds'). rel s' a' \<and> ds = ds') (run_steps step s evs) (run_steps spec a evs)"
proof (induction evs arbitrary: s a)
  case (Cons ev evs)
  note 1 = step_sim [OF Cons.prems, of ev]
  show ?case
  proof (cases "step s ev")
    case (Inl f)
    with 1 show ?thesis by simp
  next
    case (Inr r)
    then obtain s1 ds where s1: "step s ev = Inr (s1, ds)" by (cases r) simp
    with 1 obtain a1 where a1: "spec a ev = Inr (a1, ds)" "rel s1 a1" by (auto dest: c_rel_InrD)
    from Cons.IH [OF a1(2)] show ?thesis
      by (cases "run_steps step s1 evs") (auto simp: s1 a1(1) dest!: c_rel_InrD)
  qed
qed simp

corollary run_outputs: "rel s a \<Longrightarrow> map_sum id snd (run_steps step s evs) = map_sum id snd (run_steps spec a evs)"
  using run_sim [of s a evs] by (cases "run_steps step s evs") (auto dest!: c_rel_InrD)

end

text \<open>
  The contract of a receiver that delivers by sequence number: \<open>pos\<close> is the next number to deliver,
  \<open>key\<close> the number of an item, \<open>held\<close> what it stores, and \<open>bad\<close> the items after which the numbers
  wrap around. Each step keeps the invariant and delivers increasing numbers between the old and
  the new position, as long as no item that it delivers is bad; nothing held is lost.
\<close>

locale counted_receiver =
  fixes step :: "'s \<Rightarrow> 'e \<Rightarrow> ('s \<times> 'd list) c_result"
    and inv :: "'s \<Rightarrow> bool"
    and pos :: "'s \<Rightarrow> 'k::linorder"
    and key :: "'d \<Rightarrow> 'k"
    and held :: "'s \<Rightarrow> 'd set"
    and bad :: "'d \<Rightarrow> bool"
  assumes step_held: "step s ev = Inr (s', ds) \<Longrightarrow> held s \<subseteq> held s' \<union> set ds"
    and step_order: "inv s \<Longrightarrow> step s ev = Inr (s', ds) \<Longrightarrow> \<forall>d \<in> set ds. \<not> bad d \<Longrightarrow>
      inv s' \<and> sorted_wrt (<) (map key ds) \<and> (\<forall>d \<in> set ds. pos s \<le> key d \<and> key d < pos s') \<and> pos s \<le> pos s'"
begin

lemma run_held: "run_steps step s evs = Inr (s', ds) \<Longrightarrow> held s \<subseteq> held s' \<union> set ds"
proof (induction evs arbitrary: s ds)
  case (Cons ev evs)
  then show ?case
    by (elim run_steps_ConsE) (use step_held in \<open>fastforce dest: Cons.IH\<close>)
qed simp

theorem run_order:
  assumes "run_steps step s evs = Inr (s', ds)" and "inv s" and "\<forall>d \<in> set ds. \<not> bad d"
  shows "inv s' \<and> sorted_wrt (<) (map key ds) \<and> (\<forall>d \<in> set ds. pos s \<le> key d \<and> key d < pos s') \<and>
         pos s \<le> pos s'"
  using assms
proof (induction evs arbitrary: s ds)
  case (Cons ev evs)
  from Cons.prems(1) obtain s1 ds1 ds2 where st: "step s ev = Inr (s1, ds1)"
    and rn: "run_steps step s1 evs = Inr (s', ds2)" and ds: "ds = ds1 @ ds2"
    by (elim run_steps_ConsE)
  have ok: "\<forall>d \<in> set ds1. \<not> bad d" "\<forall>d \<in> set ds2. \<not> bad d" using Cons.prems(3) ds by auto
  note o1 = step_order [OF Cons.prems(2) st ok(1)]
  note r = Cons.IH [OF rn conjunct1 [OF o1] ok(2)]
  from r o1 have "\<forall>a \<in> set ds1. \<forall>b \<in> set ds2. key a < key b" by fastforce
  with r o1 show ?case by (force simp: ds sorted_wrt_append)
qed simp

end

end
