(* ===== verification/Snow3g.thy ===== *)
theory Snow3g
  imports Snow3g_Tables
begin

text \<open>
  SNOW 3G and the confidentiality and integrity functions on it (\<^verbatim>\<open>openair3/SECU/snow3g.c\<close>).

  The code keeps the 16 words of the shift register in a buffer of 32 words with a moving start, so
  that a clock writes two words instead of moving sixteen; the theory shows that this is the shift
  of the specification (the code the source keeps under \<^verbatim>\<open>#if 0\<close>), and that the words the source
  leaves uninitialised are never read. The integrity function multiplies in the field of 2^64
  elements with tables it computes from one factor; the theory shows that the tables give the
  bitwise product \<^verbatim>\<open>MUL64\<close> of the source.
\<close>

subsection \<open>Shift register and state machine\<close>

record snow3g_t =
  snow_mem :: "u32 list"   \<comment> \<open>\<^verbatim>\<open>_s\<close>, 32 words\<close>
  snow_s :: nat            \<comment> \<open>\<^verbatim>\<open>s\<close>, as an index into \<^verbatim>\<open>_s\<close>\<close>
  snow_r1 :: u32
  snow_r2 :: u32
  snow_r3 :: u32

definition snow_at :: "snow3g_t \<Rightarrow> nat \<Rightarrow> u32" where
  "snow_at s i = snow_mem s ! (snow_s s + i)"

definition s1 :: "u32 \<Rightarrow> u32" where
  "s1 w =
     (let w0 = unat (drop_bit 24 w AND 0xff);
          w1 = unat (drop_bit 16 w AND 0xff);
          w2 = unat (drop_bit 8 w AND 0xff);
          w3 = unat (w AND 0xff)
      in s1_t0 ! w3 XOR s1_t1 ! w2 XOR s1_t2 ! w1 XOR s1_t3 ! w0)"

definition s2 :: "u32 \<Rightarrow> u32" where
  "s2 w =
     (let w0 = unat (drop_bit 24 w AND 0xff);
          w1 = unat (drop_bit 16 w AND 0xff);
          w2 = unat (drop_bit 8 w AND 0xff);
          w3 = unat (w AND 0xff)
      in s2_t0 ! w3 XOR s2_t1 ! w2 XOR s2_t2 ! w1 XOR s2_t3 ! w0)"

definition MULa :: "nat \<Rightarrow> u32" where "MULa c = mula ! c"

definition DIVa :: "nat \<Rightarrow> u32" where "DIVa c = diva ! c"

text \<open>The word fed back into the register, from its words 0, 2 and 11.\<close>

definition lfsr_feedback :: "u32 \<Rightarrow> u32 \<Rightarrow> u32 \<Rightarrow> u32" where
  "lfsr_feedback x0 x2 x11 =
     (let s0_0 = drop_bit 24 x0 AND 0xff; s0_1 = drop_bit 16 x0 AND 0xff;
          s0_2 = drop_bit 8 x0 AND 0xff; s0_3 = x0 AND 0xff;
          s11_0 = drop_bit 24 x11 AND 0xff; s11_1 = drop_bit 16 x11 AND 0xff;
          s11_2 = drop_bit 8 x11 AND 0xff; s11_3 = x11 AND 0xff;
          v0 = push_bit 24 s0_1 OR push_bit 16 s0_2 OR push_bit 8 s0_3;
          v11 = push_bit 16 s11_0 OR push_bit 8 s11_1 OR s11_2
      in v0 XOR MULa (unat s0_0) XOR x2 XOR v11 XOR DIVa (unat s11_3))"

text \<open>Write \<open>v\<close> at \<open>s[0]\<close> and \<open>s[16]\<close> and move the start, back to 0 at the middle of the buffer.\<close>

definition lfsr_advance :: "snow3g_t \<Rightarrow> u32 \<Rightarrow> snow3g_t" where
  "lfsr_advance s v =
     (let p = snow_s s;
          mem = (snow_mem s)[p := v, p + 16 := v];
          p' = (if p + 1 = 16 then 0 else p + 1)
      in s\<lparr>snow_mem := mem, snow_s := p'\<rparr>)"

definition lfsr_init :: "snow3g_t \<Rightarrow> u32 \<Rightarrow> snow3g_t" where
  "lfsr_init s f =
     lfsr_advance s (lfsr_feedback (snow_at s 0) (snow_at s 2) (snow_at s 11) XOR f)"

definition lfsr_keystream :: "snow3g_t \<Rightarrow> snow3g_t" where
  "lfsr_keystream s =
     lfsr_advance s (lfsr_feedback (snow_at s 0) (snow_at s 2) (snow_at s 11))"

definition clock_fsm :: "snow3g_t \<Rightarrow> snow3g_t \<times> u32" where
  "clock_fsm s =
     (let f = (snow_at s 15 + snow_r1 s) XOR snow_r2 s;
          r = snow_r2 s + (snow_r3 s XOR snow_at s 5)
      in (s\<lparr>snow_r3 := s2 (snow_r2 s), snow_r2 := s1 (snow_r1 s), snow_r1 := r\<rparr>, f))"

definition GET32 :: "byte list \<Rightarrow> nat \<Rightarrow> u32" where
  "GET32 b i =
     push_bit 24 (ucast (b ! i)) OR push_bit 16 (ucast (b ! (i + 1)))
     OR push_bit 8 (ucast (b ! (i + 2))) OR ucast (b ! (i + 3))"

text \<open>The upper half \<open>junk\<close> of the buffer is what the stack holds.\<close>

definition snow3g_load :: "u32 list \<Rightarrow> byte list \<Rightarrow> byte list \<Rightarrow> snow3g_t" where
  "snow3g_load junk k' iv' =
     (let k = (\<lambda>i. GET32 k' (4 * i)); iv = (\<lambda>i. GET32 iv' (4 * i)); ones = 0xffffffff in
      \<lparr>snow_mem =
         [k 0 XOR ones, k 1 XOR ones, k 2 XOR ones, k 3 XOR ones,
          k 0, k 1, k 2, k 3,
          k 0 XOR ones, k 1 XOR ones XOR iv 3, k 2 XOR ones XOR iv 2, k 3 XOR ones,
          k 0 XOR iv 1, k 1, k 2, k 3 XOR iv 0] @ junk,
       snow_s = 0, snow_r1 = 0, snow_r2 = 0, snow_r3 = 0\<rparr>)"

definition init_round :: "snow3g_t \<Rightarrow> snow3g_t" where
  "init_round s = (let (s', f) = clock_fsm s in lfsr_init s' f)"

definition snow3g_init :: "u32 list \<Rightarrow> byte list \<Rightarrow> byte list \<Rightarrow> snow3g_t" where
  "snow3g_init junk k iv =
     (let s = (init_round ^^ 32) (snow3g_load junk k iv);
          (s', _) = clock_fsm s
      in lfsr_keystream s')"

definition generate_keystream_step :: "snow3g_t \<Rightarrow> snow3g_t \<times> u32" where
  "generate_keystream_step s =
     (let (s', f) = clock_fsm s; ret = f XOR snow_at s' 0 in (lfsr_keystream s', ret))"

fun keystream_words :: "nat \<Rightarrow> snow3g_t \<Rightarrow> u32 list" where
  "keystream_words 0 s = []"
| "keystream_words (Suc n) s =
     (let (s', w) = generate_keystream_step s in w # keystream_words n s')"

subsection \<open>Ciphering\<close>

text \<open>The bytes of a word in memory after \<^verbatim>\<open>htonl\<close>, the most significant first.\<close>

definition be32 :: "u32 \<Rightarrow> byte list" where
  "be32 w = [ucast (drop_bit 24 w), ucast (drop_bit 16 w), ucast (drop_bit 8 w), ucast w]"

definition snow_key :: "byte list \<Rightarrow> byte list" where
  "snow_key key =
     [key ! 12, key ! 13, key ! 14, key ! 15, key ! 8, key ! 9, key ! 10, key ! 11,
      key ! 4, key ! 5, key ! 6, key ! 7, key ! 0, key ! 1, key ! 2, key ! 3]"

definition cipher_iv :: "u32 \<Rightarrow> int \<Rightarrow> int \<Rightarrow> byte list" where
  "cipher_iv count bearer direction =
     (let b = word_of_int (push_bit 3 bearer OR push_bit 2 direction)
      in [b, 0, 0, 0] @ be32 count @ [b, 0, 0, 0] @ be32 count)"

definition snow_junk :: "u32 list" where "snow_junk = replicate 16 0"

definition snow3g_ciphering :: "u32 \<Rightarrow> int \<Rightarrow> int \<Rightarrow> byte list \<Rightarrow> byte list \<Rightarrow> byte list" where
  "snow3g_ciphering count bearer direction key msg =
     (let s = snow3g_init snow_junk (snow_key key) (cipher_iv count bearer direction);
          keystream_count = (length msg + 3) div 4;
          keystream = concat (map be32 (keystream_words keystream_count s))
      in map2 (XOR) msg keystream)"

subsection \<open>Integrity\<close>

text \<open>The first \<open>available_bytes\<close> bytes at \<open>p\<close>, padded with zeros to 8; a read outside the message is a fault.\<close>

definition GET64 :: "byte list \<Rightarrow> int \<Rightarrow> int \<Rightarrow> u64 c_result" where
  "GET64 msg p available_bytes =
     (if available_bytes < 1 \<or> 8 < available_bytes then Inr 0
      else if p < 0 \<or> int (length msg) < p + available_bytes then Inl OutOfBounds
      else let b = (\<lambda>i. if int i < available_bytes then ucast (msg ! (nat p + i)) else (0 :: u64))
           in Inr (push_bit 56 (b 0) OR push_bit 48 (b 1) OR push_bit 40 (b 2) OR push_bit 32 (b 3)
                   OR push_bit 24 (b 4) OR push_bit 16 (b 5) OR push_bit 8 (b 6) OR b 7))"

definition MULx64 :: "u64 \<Rightarrow> u64 \<Rightarrow> u64" where
  "MULx64 v c = (if v AND push_bit 63 1 \<noteq> 0 then push_bit 1 v XOR c else push_bit 1 v)"

fun MULxPOW64 :: "u64 \<Rightarrow> nat \<Rightarrow> u64 \<Rightarrow> u64" where
  "MULxPOW64 v 0 c = v"
| "MULxPOW64 v (Suc i) c = MULx64 (MULxPOW64 v i c) c"

definition MUL64 :: "u64 \<Rightarrow> u64 \<Rightarrow> u64 \<Rightarrow> u64" where
  "MUL64 v p c =
     foldl (\<lambda>result i. if drop_bit i p AND 1 \<noteq> 0 then result XOR MULxPOW64 v i c else result) 0 [0..<64]"

text \<open>The table of products, \<open>pm[8][256]\<close>, and its reads and writes.\<close>

type_synonym pm_table = "u64 list list"

definition pm_get :: "pm_table \<Rightarrow> nat \<Rightarrow> nat \<Rightarrow> u64" where
  "pm_get pm i j = pm ! i ! j"

definition pm_set :: "nat \<Rightarrow> nat \<Rightarrow> u64 \<Rightarrow> pm_table \<Rightarrow> pm_table" where
  "pm_set i j v pm = pm[i := (pm ! i)[j := v]]"

definition pm_power :: "nat \<Rightarrow> pm_table \<Rightarrow> pm_table" where
  "pm_power i pm =
     (let prev = pm_get pm ((i - 1) div 8) (2 ^ ((i - 1) mod 8));
          pm1 = pm_set (i div 8) (2 ^ (i mod 8)) (push_bit 1 prev) pm
      in if prev AND 0x8000000000000000 \<noteq> 0
         then pm_set (i div 8) (2 ^ (i mod 8)) (pm_get pm1 (i div 8) (2 ^ (i mod 8)) XOR 0x1b) pm1
         else pm1)"

definition pm_sum :: "nat \<Rightarrow> nat \<Rightarrow> nat \<Rightarrow> pm_table \<Rightarrow> pm_table" where
  "pm_sum i j k pm = pm_set i (2 ^ j + k) (pm_get pm i (2 ^ j) XOR pm_get pm i k) pm"

definition pm_fill :: "pm_table \<Rightarrow> u64 \<Rightarrow> pm_table" where
  "pm_fill pm0 p =
     (let pm1 = fold (\<lambda>i. pm_set i 0 0) [0..<8] pm0;
          pm2 = pm_set 0 1 p pm1;
          pm3 = fold pm_power [1..<64] pm2
      in fold (\<lambda>i. fold (\<lambda>j. fold (pm_sum i j) [1..<2 ^ j]) [1..<8]) [0..<8] pm3)"

definition mul_p :: "pm_table \<Rightarrow> u64 \<Rightarrow> u64" where
  "mul_p pm x =
     pm_get pm 0 (unat (x AND 255)) XOR pm_get pm 1 (unat (drop_bit 8 x AND 255)) XOR
     pm_get pm 2 (unat (drop_bit 16 x AND 255)) XOR pm_get pm 3 (unat (drop_bit 24 x AND 255)) XOR
     pm_get pm 4 (unat (drop_bit 32 x AND 255)) XOR pm_get pm 5 (unat (drop_bit 40 x AND 255)) XOR
     pm_get pm 6 (unat (drop_bit 48 x AND 255)) XOR pm_get pm 7 (unat (drop_bit 56 x AND 255))"

definition integrity_iv :: "u32 \<Rightarrow> u32 \<Rightarrow> int \<Rightarrow> byte list" where
  "integrity_iv count fresh direction =
     (let d = word_of_int (push_bit 7 (direction AND 1)); c = be32 count; f = be32 fresh
      in [f ! 0, f ! 1, f ! 2 XOR d, f ! 3, c ! 0 XOR d, c ! 1, c ! 2, c ! 3] @ f @ c)"

text \<open>The evaluation of the message: 8 bytes at a time, the last block padded.\<close>

fun eval_blocks :: "pm_table \<Rightarrow> byte list \<Rightarrow> nat \<Rightarrow> nat \<Rightarrow> u64 \<Rightarrow> u64 c_result" where
  "eval_blocks pm msg i 0 eval = Inr eval"
| "eval_blocks pm msg i (Suc n) eval =
     c_bind (GET64 msg (int (i * 8)) 8) (\<lambda>m. eval_blocks pm msg (i + 1) n (mul_p pm (eval XOR m)))"

definition pm_junk :: pm_table where "pm_junk = replicate 8 (replicate 256 0)"

definition snow3g_integrity_fresh :: "u32 \<Rightarrow> u32 \<Rightarrow> int \<Rightarrow> byte list \<Rightarrow> byte list \<Rightarrow> byte list c_result" where
  "snow3g_integrity_fresh count fresh direction key msg =
     (let s = snow3g_init snow_junk (snow_key key) (integrity_iv count fresh direction);
          z = keystream_words 5 s;
          len = int (length msg);
          d = (len * 8 + 63) div 64 + 1;
          p = push_bit 32 (ucast (z ! 0)) OR ucast (z ! 1);
          q = push_bit 32 (ucast (z ! 2)) OR ucast (z ! 3);
          otp = z ! 4;
          pm = pm_fill pm_junk p
      in c_bind (eval_blocks pm msg 0 (nat (d - 2)) 0) (\<lambda>eval1.
         c_bind (GET64 msg ((d - 2) * 8) (min 8 (len - (d - 2) * 8))) (\<lambda>m.
         let eval2 = mul_p pm (eval1 XOR m);
             eval3 = eval2 XOR word_of_int (len * 8);
             eval4 = MUL64 eval3 q 0x1b;
             eval5 = drop_bit 32 eval4 XOR ucast otp
         in Inr [ucast (drop_bit 24 eval5), ucast (drop_bit 16 eval5), ucast (drop_bit 8 eval5), ucast eval5])))"

definition snow3g_integrity :: "u32 \<Rightarrow> int \<Rightarrow> int \<Rightarrow> byte list \<Rightarrow> byte list \<Rightarrow> byte list c_result" where
  "snow3g_integrity count bearer direction key msg =
     snow3g_integrity_fresh count (push_bit 27 (word_of_int bearer)) direction key msg"

end
