(* ===== verification/Snow3g_Props.thy ===== *)
theory Snow3g_Props
  imports Snow3g
begin

text \<open>
  What the optimised code of \<^verbatim>\<open>snow3g.c\<close> computes: the shift register in a double buffer is the
  register of the specification, the product tables give the bitwise product, ciphering twice with
  the same parameters is the identity, and the integrity function is the evaluation of the padded
  message as the specification of UIA2 writes it.
\<close>

subsection \<open>The register\<close>

definition snow_ok :: "snow3g_t \<Rightarrow> bool" where
  "snow_ok s \<longleftrightarrow> length (snow_mem s) = 32 \<and> snow_s s < 16 \<and>
     (\<forall>i < snow_s s. snow_mem s ! i = snow_mem s ! (i + 16))"

definition snow_reg :: "snow3g_t \<Rightarrow> u32 list" where
  "snow_reg s = map (snow_at s) [0..<16]"

lemma length_snow_reg [simp]: "length (snow_reg s) = 16"
  by (simp add: snow_reg_def)

lemma snow_at_reg: "i < 16 \<Longrightarrow> snow_at s i = snow_reg s ! i"
  by (simp add: snow_reg_def)

lemma advance_ok: "snow_ok s \<Longrightarrow> snow_ok (lfsr_advance s v)"
  by (auto simp: snow_ok_def lfsr_advance_def Let_def nth_list_update less_Suc_eq split: if_splits)

lemma advance_reg:
  assumes "snow_ok s"
  shows "snow_reg (lfsr_advance s v) = tl (snow_reg s) @ [v]"
proof (rule nth_equalityI)
  fix i assume "i < length (snow_reg (lfsr_advance s v))"
  then have i: "i < 16" by simp
  note ok = assms [unfolded snow_ok_def]
  show "snow_reg (lfsr_advance s v) ! i = (tl (snow_reg s) @ [v]) ! i"
  proof (cases "snow_s s = 15")
    case True
    with ok i show ?thesis
      by (cases "i = 15")
        (auto simp: snow_reg_def snow_at_def lfsr_advance_def Let_def nth_append nth_tl nth_list_update
          less_Suc_eq eval_nat_numeral)
  next
    case False
    with ok i show ?thesis
      by (cases "i = 15")
        (auto simp: snow_reg_def snow_at_def lfsr_advance_def Let_def nth_append nth_tl nth_list_update)
  qed
qed simp

text \<open>
  The machine of the specification: a register of 16 words that shifts, and three registers of the
  state machine.
\<close>

record snow_ref =
  ref_reg :: "u32 list"
  ref_r1 :: u32
  ref_r2 :: u32
  ref_r3 :: u32

definition snow_abs :: "snow3g_t \<Rightarrow> snow_ref" where
  "snow_abs s = \<lparr>ref_reg = snow_reg s, ref_r1 = snow_r1 s, ref_r2 = snow_r2 s, ref_r3 = snow_r3 s\<rparr>"

definition ref_shift :: "snow_ref \<Rightarrow> u32 \<Rightarrow> snow_ref" where
  "ref_shift t f =
     t\<lparr>ref_reg := tl (ref_reg t) @ [lfsr_feedback (ref_reg t ! 0) (ref_reg t ! 2) (ref_reg t ! 11) XOR f]\<rparr>"

definition ref_fsm :: "snow_ref \<Rightarrow> snow_ref \<times> u32" where
  "ref_fsm t =
     (t\<lparr>ref_r1 := ref_r2 t + (ref_r3 t XOR ref_reg t ! 5), ref_r2 := s1 (ref_r1 t), ref_r3 := s2 (ref_r2 t)\<rparr>,
      (ref_reg t ! 15 + ref_r1 t) XOR ref_r2 t)"

definition ref_round :: "snow_ref \<Rightarrow> snow_ref" where
  "ref_round t = ref_shift (fst (ref_fsm t)) (snd (ref_fsm t))"

definition ref_load :: "byte list \<Rightarrow> byte list \<Rightarrow> snow_ref" where
  "ref_load k iv = snow_abs (snow3g_load [] k iv)"

definition ref_init :: "byte list \<Rightarrow> byte list \<Rightarrow> snow_ref" where
  "ref_init k iv = ref_shift (fst (ref_fsm ((ref_round ^^ 32) (ref_load k iv)))) 0"

fun ref_keystream :: "nat \<Rightarrow> snow_ref \<Rightarrow> u32 list" where
  "ref_keystream 0 t = []"
| "ref_keystream (Suc n) t =
     (snd (ref_fsm t) XOR ref_reg t ! 0) # ref_keystream n (ref_shift (fst (ref_fsm t)) 0)"

lemma clock_fsm_abs: "snow_abs (fst (clock_fsm s)) = fst (ref_fsm (snow_abs s))"
  "snd (clock_fsm s) = snd (ref_fsm (snow_abs s))" "snow_ok (fst (clock_fsm s)) = snow_ok s"
  by (simp_all add: clock_fsm_def ref_fsm_def snow_abs_def snow_at_reg snow_ok_def Let_def)
    (simp_all add: snow_reg_def snow_at_def)

lemma clock_fsm_reg: "snow_reg (fst (clock_fsm s)) = snow_reg s"
  by (simp add: clock_fsm_def Let_def snow_reg_def snow_at_def)

lemma lfsr_init_abs:
  assumes "snow_ok s"
  shows "snow_abs (lfsr_init s f) = ref_shift (snow_abs s) f" "snow_ok (lfsr_init s f)"
proof -
  have regs: "snow_r1 (lfsr_advance s v) = snow_r1 s" "snow_r2 (lfsr_advance s v) = snow_r2 s"
    "snow_r3 (lfsr_advance s v) = snow_r3 s" for v
    by (simp_all add: lfsr_advance_def Let_def)
  show "snow_abs (lfsr_init s f) = ref_shift (snow_abs s) f" "snow_ok (lfsr_init s f)"
    using advance_reg [OF assms] advance_ok [OF assms]
    by (simp_all add: lfsr_init_def ref_shift_def snow_abs_def regs snow_at_reg)
qed

lemma lfsr_keystream_init: "lfsr_keystream s = lfsr_init s 0"
  by (simp add: lfsr_keystream_def lfsr_init_def)

lemma init_round_abs:
  assumes "snow_ok s"
  shows "snow_abs (init_round s) = ref_round (snow_abs s)" "snow_ok (init_round s)"
  using lfsr_init_abs [of "fst (clock_fsm s)" "snd (clock_fsm s)"] assms
  by (simp_all add: init_round_def ref_round_def clock_fsm_abs split_beta)

lemma init_rounds_abs:
  assumes "snow_ok s"
  shows "snow_abs ((init_round ^^ n) s) = (ref_round ^^ n) (snow_abs s) \<and> snow_ok ((init_round ^^ n) s)"
  by (induction n) (use assms init_round_abs in simp_all)

lemma load_abs:
  assumes "length junk = 16"
  shows "snow_ok (snow3g_load junk k iv)" "snow_abs (snow3g_load junk k iv) = ref_load k iv"
  using assms
  by (simp_all add: snow_ok_def snow3g_load_def Let_def ref_load_def snow_abs_def snow_reg_def snow_at_def
      upt_rec nth_append)

lemma init_abs:
  assumes "length junk = 16"
  shows "snow_ok (snow3g_init junk k iv)" "snow_abs (snow3g_init junk k iv) = ref_init k iv"
proof -
  let ?s = "(init_round ^^ 32) (snow3g_load junk k iv)"
  note i = init_rounds_abs [OF load_abs(1) [OF assms], of 32 k iv, unfolded load_abs(2) [OF assms]]
  have e: "snow3g_init junk k iv = lfsr_init (fst (clock_fsm ?s)) 0"
    by (simp add: snow3g_init_def Let_def split_beta lfsr_keystream_init)
  show "snow_ok (snow3g_init junk k iv)" "snow_abs (snow3g_init junk k iv) = ref_init k iv"
    unfolding e ref_init_def using i lfsr_init_abs [of "fst (clock_fsm ?s)" 0]
    by (simp_all add: clock_fsm_abs)
qed

lemma keystream_abs: "snow_ok s \<Longrightarrow> keystream_words n s = ref_keystream n (snow_abs s)"
proof (induction n arbitrary: s)
  case (Suc n)
  have "snow_at (fst (clock_fsm s)) 0 = ref_reg (snow_abs s) ! 0"
    by (simp add: snow_at_reg clock_fsm_reg snow_abs_def)
  with Suc lfsr_init_abs [of "fst (clock_fsm s)" 0] show ?case
    by (simp add: generate_keystream_step_def split_beta Let_def lfsr_keystream_init clock_fsm_abs)
qed simp

text \<open>C29: the double-buffered shift register of \<^verbatim>\<open>snow3g.c\<close> refines the register of the specification:
  whatever the uninitialised half of the buffer holds, the keystream of any length is that of the
  machine that shifts sixteen words at every clock.\<close>

theorem snow3g_register_refines:
  assumes "length junk = 16"
  shows "keystream_words n (snow3g_init junk k iv) = ref_keystream n (ref_init k iv)"
  using keystream_abs [OF init_abs(1) [OF assms]] init_abs(2) [OF assms] by simp

theorem snow3g_register_refines_witness:
  "keystream_words 40 (snow3g_init (replicate 16 0xdeadbeef) (replicate 16 1) (replicate 16 2)) =
   ref_keystream 40 (ref_init (replicate 16 1) (replicate 16 2))"
  by (rule snow3g_register_refines) simp

subsection \<open>Ciphering\<close>

lemma length_keystream_words [simp]: "length (keystream_words n s) = n"
  by (induction n arbitrary: s) (simp_all add: split_beta Let_def)

lemma length_be32s [simp]: "length (concat (map be32 ws)) = 4 * length ws"
  by (induction ws) (simp_all add: be32_def)

lemma map2_xor_xor: "length m \<le> length ks \<Longrightarrow> map2 (XOR) (map2 (XOR) m ks) ks = m" for m ks :: "byte list"
  by (induction m ks rule: list_induct2') (simp_all add: xor.assoc)

lemma keystream_enough: "n \<le> 4 * ((n + 3) div 4)" for n :: nat
  by presburger

lemma length_snow3g_ciphering [simp]: "length (snow3g_ciphering c b d k m) = length m"
  using keystream_enough [of "length m"]
  by (simp add: snow3g_ciphering_def Let_def min_absorb1)

lemma snow3g_twice: "snow3g_ciphering c b d k (snow3g_ciphering c b d k m) = m"
proof -
  let ?ks = "concat (map be32 (keystream_words ((length m + 3) div 4)
       (snow3g_init snow_junk (snow_key k) (cipher_iv c b d))))"
  have e: "snow3g_ciphering c b d k m' = map2 (XOR) m' ?ks" if "length m' = length m" for m'
    using that by (simp add: snow3g_ciphering_def Let_def)
  have "length m \<le> length ?ks" using keystream_enough by simp
  then have "map2 (XOR) (map2 (XOR) m ?ks) ?ks = m" by (rule map2_xor_xor)
  moreover have "length (map2 (XOR) m ?ks) = length m" using keystream_enough [of "length m"] by simp
  ultimately show ?thesis using e [of m] e [of "map2 (XOR) m ?ks"] by simp
qed

subsection \<open>Sums of words without carry\<close>

fun xsum :: "u64 list \<Rightarrow> u64" where
  "xsum [] = 0"
| "xsum (x # xs) = x XOR xsum xs"

lemma xsum_append [simp]: "xsum (xs @ ys) = xsum xs XOR xsum ys"
  by (induction xs) (simp_all add: xor.assoc)

lemma xsum_zero: "\<forall>x \<in> set xs. f x = 0 \<Longrightarrow> xsum (map f xs) = 0"
  by (induction xs) auto

lemma xsum_xor: "xsum (map (\<lambda>i. f i XOR g i) xs) = xsum (map f xs) XOR xsum (map g xs)"
  by (induction xs) (simp_all add: ac_simps)

lemma xsum_single:
  "distinct xs \<Longrightarrow> j \<in> set xs \<Longrightarrow> xsum (map (\<lambda>i. if i = j then c else 0) xs) = c"
proof (induction xs)
  case (Cons x xs)
  then show ?case using xsum_zero [of xs "\<lambda>i. if i = j then c else 0"] by (cases "x = j") auto
qed simp

lemma xsum_swap:
  "xsum (map (\<lambda>i. xsum (map (f i) ys)) xs) = xsum (map (\<lambda>j. xsum (map (\<lambda>i. f i j) xs)) ys)"
  by (induction xs) (simp_all add: xsum_xor xsum_zero)

lemma xsum_linear:
  assumes "h 0 = 0" and "\<And>a b. h (a XOR b) = h a XOR h b"
  shows "h (xsum xs) = xsum (map h xs)"
  by (induction xs) (simp_all add: assms)

subsection \<open>Multiplication in the field\<close>

lemma top_bit: "v AND 9223372036854775808 = 0 \<longleftrightarrow> \<not> bit v 63" for v :: u64
  using and_exp_eq_0_iff_not_bit [of v 63] by simp

lemma MULx64_alt: "MULx64 v c = (if bit v 63 then push_bit 1 v XOR c else push_bit 1 v)"
  by (simp add: MULx64_def top_bit)

lemma MULx64_linear: "MULx64 (a XOR b) c = MULx64 a c XOR MULx64 b c"
  unfolding MULx64_alt by (rule bit_word_eqI) (auto simp: bit_simps)

lemma MULx64_zero [simp]: "MULx64 0 c = 0"
  by (simp add: MULx64_def)

lemma MULxPOW64_linear: "MULxPOW64 (a XOR b) i c = MULxPOW64 a i c XOR MULxPOW64 b i c"
  by (induction i) (simp_all add: MULx64_linear)

lemma MULxPOW64_zero [simp]: "MULxPOW64 0 i c = 0"
  by (induction i) simp_all

lemma MULxPOW64_add: "MULxPOW64 (MULxPOW64 v j c) i c = MULxPOW64 v (i + j) c"
  by (induction i) simp_all

lemma MULxPOW64_one: "i < 64 \<Longrightarrow> MULxPOW64 1 i c = push_bit i 1"
proof (induction i)
  case (Suc i)
  then have "\<not> bit (push_bit i 1 :: u64) 63" by (simp add: bit_simps)
  with Suc show ?case by (simp add: MULx64_alt)
qed simp

lemma foldl_xor:
  "foldl (\<lambda>r i. if P i then r XOR f i else r) a xs = a XOR xsum (map (\<lambda>i. if P i then f i else 0) xs)"
  by (induction xs arbitrary: a) (simp_all add: xor.assoc)

lemma low_bit: "(drop_bit i p AND 1 \<noteq> 0) = bit p i" for p :: u64
  by (simp add: and_one_eq odd_iff_mod_2_eq_one bit_iff_odd_drop_bit)

text \<open>The contribution of the set bits of \<open>p\<close>.\<close>

definition bit_sum :: "u64 \<Rightarrow> (nat \<Rightarrow> u64) \<Rightarrow> u64" where
  "bit_sum p f = xsum (map (\<lambda>i. if bit p i then f i else 0) [0..<64])"

lemma MUL64_alt: "MUL64 v p c = bit_sum p (\<lambda>i. MULxPOW64 v i c)"
  unfolding MUL64_def foldl_xor low_bit bit_sum_def by simp

lemma word_bit_sum: "v = bit_sum v (\<lambda>j. push_bit j 1)"
proof -
  have "bit (xsum (map (\<lambda>i. if bit v i then push_bit i 1 else 0) [0..<n])) m \<longleftrightarrow> m < n \<and> bit v m"
    if "n \<le> 64" for n m
    using that by (induction n) (auto simp: bit_simps less_Suc_eq dest: bit_imp_le_length)
  from this [of 64] show ?thesis
    unfolding bit_sum_def by (intro bit_word_eqI) simp
qed

lemma bit_sum_cong: "(\<And>i. i < 64 \<Longrightarrow> f i = g i) \<Longrightarrow> bit_sum p f = bit_sum p g"
  unfolding bit_sum_def by (intro arg_cong [where f = xsum] map_cong) auto

lemma bit_sum_linear:
  assumes "h 0 = 0" and "\<And>a b. h (a XOR b) = h a XOR h b"
  shows "h (bit_sum p f) = bit_sum p (\<lambda>i. h (f i))"
  unfolding bit_sum_def xsum_linear [of h, OF assms]
  by (simp add: comp_def if_distrib assms(1) cong: if_cong)

lemma bit_sum_swap: "bit_sum p (\<lambda>i. bit_sum v (f i)) = bit_sum v (\<lambda>j. bit_sum p (\<lambda>i. f i j))"
proof -
  have "bit_sum p (\<lambda>i. bit_sum v (f i)) =
      xsum (map (\<lambda>i. xsum (map (\<lambda>j. if bit p i \<and> bit v j then f i j else 0) [0..<64])) [0..<64])"
    unfolding bit_sum_def by (intro arg_cong [where f = xsum] map_cong) (auto simp: xsum_zero)
  also have "\<dots> = xsum (map (\<lambda>j. xsum (map (\<lambda>i. if bit p i \<and> bit v j then f i j else 0) [0..<64])) [0..<64])"
    by (rule xsum_swap)
  also have "\<dots> = bit_sum v (\<lambda>j. bit_sum p (\<lambda>i. f i j))"
    unfolding bit_sum_def by (intro arg_cong [where f = xsum] map_cong) (auto simp: xsum_zero)
  finally show ?thesis .
qed

lemma MULxPOW64_bits: "MULxPOW64 v i c = bit_sum v (\<lambda>j. MULxPOW64 1 (i + j) c)"
proof -
  have "MULxPOW64 v i c = MULxPOW64 (bit_sum v (\<lambda>j. push_bit j 1)) i c"
    using word_bit_sum [of v] by simp
  also have "\<dots> = bit_sum v (\<lambda>j. MULxPOW64 (push_bit j 1) i c)"
    by (rule bit_sum_linear) (simp_all add: MULxPOW64_linear)
  also have "\<dots> = bit_sum v (\<lambda>j. MULxPOW64 1 (i + j) c)"
    by (rule bit_sum_cong) (metis MULxPOW64_add MULxPOW64_one)
  finally show ?thesis .
qed

lemma MUL64_commute: "MUL64 v p c = MUL64 p v c"
proof -
  have "MUL64 v p c = bit_sum p (\<lambda>i. bit_sum v (\<lambda>j. MULxPOW64 1 (i + j) c))" for v p
    unfolding MUL64_alt by (rule bit_sum_cong) (rule MULxPOW64_bits)
  then show ?thesis using bit_sum_swap [of p v "\<lambda>i j. MULxPOW64 1 (i + j) c"] by (simp add: add.commute)
qed

subsection \<open>The product tables\<close>

definition pm_shape :: "pm_table \<Rightarrow> bool" where
  "pm_shape pm \<longleftrightarrow> length pm = 8 \<and> (\<forall>row \<in> set pm. length row = 256)"

lemma pm_shape_set [simp]: "pm_shape pm \<Longrightarrow> pm_shape (pm_set i j v pm)"
proof (cases "i < length pm")
  case True
  moreover assume "pm_shape pm"
  ultimately show ?thesis
    by (auto simp: pm_shape_def pm_set_def dest!: subsetD [OF set_update_subset_insert] intro: nth_mem)
qed (simp add: pm_set_def list_update_beyond)

lemma pm_shapeD: "pm_shape pm \<Longrightarrow> i < 8 \<Longrightarrow> length (pm ! i) = 256" "pm_shape pm \<Longrightarrow> length pm = 8"
  by (simp_all add: pm_shape_def)

lemma pm_get_set:
  "pm_shape pm \<Longrightarrow> i < 8 \<Longrightarrow> j < 256 \<Longrightarrow>
   pm_get (pm_set i j v pm) i' j' = (if i' = i \<and> j' = j then v else pm_get pm i' j')"
  by (cases "i' = i") (auto simp: pm_get_def pm_set_def pm_shapeD)

text \<open>The rows after the first loop: at the powers of two, the factor times powers of \<open>x\<close>.\<close>

definition pm_powers :: "u64 \<Rightarrow> nat \<Rightarrow> pm_table \<Rightarrow> bool" where
  "pm_powers p n pm \<longleftrightarrow> pm_shape pm \<and> (\<forall>i < 8. pm_get pm i 0 = 0) \<and>
     (\<forall>m < n. pm_get pm (m div 8) (2 ^ (m mod 8)) = MULxPOW64 p m 0x1b)"

lemma pow_256: "(2 :: nat) ^ (i mod 8) < 256"
proof -
  have "(2 :: nat) ^ (i mod 8) < 2 ^ 8" by (rule power_strict_increasing) simp_all
  then show ?thesis by simp
qed

lemma pm_cell_eq: "(m div 8 = n div 8 \<and> (2 :: nat) ^ (m mod 8) = 2 ^ (n mod 8)) \<longleftrightarrow> m = n" for m n :: nat
  by (metis div_mult_mod_eq power_inject_exp one_less_numeral_iff semiring_norm(76))

lemma pm_power_step:
  assumes "pm_powers p n pm" and "0 < n" and "n < 64"
  shows "pm_powers p (Suc n) (pm_power n pm)"
proof -
  let ?prev = "pm_get pm ((n - 1) div 8) (2 ^ ((n - 1) mod 8))"
  have prev: "?prev = MULxPOW64 p (n - 1) 0x1b" using assms(1,2) by (simp add: pm_powers_def)
  have sh: "pm_shape pm" using assms(1) by (simp add: pm_powers_def)
  have n8: "n div 8 < 8" using assms(3) by simp
  have e: "pm_power n pm = pm_set (n div 8) (2 ^ (n mod 8)) (MULx64 ?prev 0x1b) pm \<or>
     pm_power n pm = pm_set (n div 8) (2 ^ (n mod 8)) (MULx64 ?prev 0x1b)
        (pm_set (n div 8) (2 ^ (n mod 8)) (push_bit 1 ?prev) pm)"
    by (simp add: pm_power_def Let_def MULx64_alt top_bit pm_get_set [OF sh n8 pow_256])
  have "MULx64 ?prev 0x1b = MULxPOW64 p n 0x1b"
    unfolding prev using assms(2) by (cases n) simp_all
  then have g: "pm_get (pm_power n pm) i j =
      (if i = n div 8 \<and> j = 2 ^ (n mod 8) then MULxPOW64 p n 0x1b else pm_get pm i j)" for i j
    using e by (auto simp: pm_get_set [OF _ n8 pow_256] sh)
  have "pm_shape (pm_power n pm)" using e sh by auto
  then show ?thesis
    using assms(1) pm_cell_eq by (simp add: pm_powers_def g less_Suc_eq)
qed

lemma pm_powers_loop:
  assumes "pm_powers p 1 pm" and "1 \<le> n" and "n \<le> 64"
  shows "pm_powers p n (fold pm_power [1..<n] pm)"
  using assms(2,3)
proof (induction n rule: nat_induct_at_least)
  case (Suc n)
  then show ?case using pm_power_step by simp
qed (use assms(1) in simp)

text \<open>The second loop works on each row alone.\<close>

definition row_sum :: "nat \<Rightarrow> nat \<Rightarrow> u64 list \<Rightarrow> u64 list" where
  "row_sum j k row = row[2 ^ j + k := row ! (2 ^ j) XOR row ! k]"

lemma pm_sum_row: "pm_sum i j k pm = pm[i := row_sum j k (pm ! i)]"
  by (simp add: pm_sum_def pm_set_def pm_get_def row_sum_def)

lemma fold_update:
  assumes "i < length xs" and "\<And>k ys. i < length ys \<Longrightarrow> f k ys = ys[i := g k (ys ! i)]"
  shows "fold f ks xs = xs[i := fold g ks (xs ! i)]"
  using assms(1)
proof (induction ks arbitrary: xs)
  case (Cons k ks)
  then show ?case by (simp add: assms(2))
qed simp

definition row_fill :: "u64 list \<Rightarrow> u64 list" where
  "row_fill = fold (\<lambda>j. fold (row_sum j) [1..<2 ^ j]) [1..<8]"

lemma fold_rows:
  assumes "n \<le> length pm"
  shows "fold (\<lambda>i. fold (\<lambda>j. fold (pm_sum i j) [1..<2 ^ j]) [1..<8]) [0..<n] pm
         = map row_fill (take n pm) @ drop n pm"
  using assms
proof (induction n)
  case (Suc n)
  let ?pm = "map row_fill (take n pm) @ drop n pm"
  have "fold (pm_sum n j) ks qs = qs[n := fold (row_sum j) ks (qs ! n)]" if "n < length qs" for j ks and qs :: pm_table
    by (rule fold_update [OF that]) (rule pm_sum_row)
  then have "fold (\<lambda>j. fold (pm_sum n j) [1..<2 ^ j]) [1..<8] ?pm = ?pm[n := row_fill (?pm ! n)]"
    unfolding row_fill_def
    by (intro fold_update [where g = "\<lambda>j. fold (row_sum j) [1..<2 ^ j]"]) (use Suc.prems in simp_all)
  also have "\<dots> = map row_fill (take (Suc n) pm) @ drop (Suc n) pm"
    using Suc.prems by (simp add: nth_append list_update_append take_Suc_conv_app_nth Cons_nth_drop_Suc [symmetric])
  finally show ?case using Suc by simp
qed simp

text \<open>A row that is right below \<open>n\<close>: entry \<open>x\<close> is the sum of the entries at the bits of \<open>x\<close>.\<close>

definition row_entry :: "(nat \<Rightarrow> u64) \<Rightarrow> nat \<Rightarrow> u64" where
  "row_entry f x = xsum (map (\<lambda>b. if bit x b then f b else 0) [0..<8])"

definition row_ok :: "(nat \<Rightarrow> u64) \<Rightarrow> nat \<Rightarrow> u64 list \<Rightarrow> bool" where
  "row_ok f n row \<longleftrightarrow> length row = 256 \<and> (\<forall>b < 8. row ! (2 ^ b) = f b) \<and> (\<forall>x < n. row ! x = row_entry f x)"

lemma bit_pow_plus: "k < 2 ^ j \<Longrightarrow> bit (2 ^ j + k) b \<longleftrightarrow> b = j \<or> bit k b" for k j b :: nat
proof -
  assume k: "k < 2 ^ j"
  then have "2 ^ j AND k = 0"
    by (intro bit_eqI) (auto simp: bit_and_iff bit_exp_iff, simp add: bit_iff_odd)
  then have "2 ^ j + k = (2 ^ j OR k)" by (rule disjunctive_add_eq_or)
  then show ?thesis by (auto simp: bit_simps)
qed

lemma not_bit_small: "k < 2 ^ j \<Longrightarrow> \<not> bit k j" for k j :: nat
  by (simp add: bit_iff_odd)

lemma row_entry_plus:
  assumes "k < 2 ^ j" and "j < 8"
  shows "row_entry f (2 ^ j + k) = f j XOR row_entry f k"
proof -
  have "(\<lambda>b. if bit (2 ^ j + k) b then f b else 0) = (\<lambda>b. (if b = j then f j else 0) XOR (if bit k b then f b else 0))"
    using assms not_bit_small [OF assms(1)] by (auto simp: bit_pow_plus)
  then show ?thesis
    using assms(2) by (simp only: row_entry_def xsum_xor) (simp add: xsum_single)
qed

lemma row_entry_0 [simp]: "row_entry f 0 = 0"
  by (simp add: row_entry_def xsum_zero)

lemma pow2_between: "(2 :: nat) ^ j < x \<Longrightarrow> x < 2 ^ Suc j \<Longrightarrow> x \<noteq> 2 ^ b"
  by (metis not_less_eq power_strict_increasing_iff one_less_numeral_iff semiring_norm(76))

lemma row_sum_step:
  assumes "row_ok f (2 ^ j + k) row" and "0 < k" and "k < 2 ^ j" and "j < 8"
  shows "row_ok f (2 ^ j + Suc k) (row_sum j k row)"
proof -
  have "(2 :: nat) ^ Suc j \<le> 2 ^ 8" using assms(4) by (intro power_increasing) simp_all
  then have "2 ^ j + k < 256" using assms(3) by simp
  moreover have "\<forall>b. 2 ^ b \<noteq> 2 ^ j + k" 
    using pow2_between [of j "2 ^ j + k"] assms(2,3) by (auto dest: sym)
  moreover have "row ! (2 ^ j) XOR row ! k = row_entry f (2 ^ j + k)"
    using assms row_entry_plus [OF assms(3,4), of f] row_entry_plus [of 0 j f] by (simp add: row_ok_def)
  ultimately show ?thesis
    using assms(1) by (auto simp: row_ok_def row_sum_def nth_list_update less_Suc_eq)
qed

lemma row_sum_loop:
  assumes "row_ok f (2 ^ j) row" and "j < 8" and "1 \<le> n" and "n \<le> 2 ^ j"
  shows "row_ok f (2 ^ j + n) (fold (row_sum j) [1..<n] row)"
  using assms(3,4)
proof (induction n rule: nat_induct_at_least)
  case base
  have "row ! (2 ^ j) = row_entry f (2 ^ j)"
    using assms(1,2) row_entry_plus [of 0 j f] by (simp add: row_ok_def)
  with assms(1) show ?case by (auto simp: row_ok_def less_Suc_eq)
next
  case (Suc n)
  then show ?case using row_sum_step [OF _ _ _ assms(2), of f n] by simp
qed

lemma row_fill_ok:
  assumes "row_ok f 2 row"
  shows "row_ok f 256 (row_fill row)"
proof -
  have "row_ok f (2 ^ n) (fold (\<lambda>j. fold (row_sum j) [1..<2 ^ j]) [1..<n] row)" if "1 \<le> n" "n \<le> 8" for n
    using that
  proof (induction n rule: nat_induct_at_least)
    case (Suc n)
    then show ?case using row_sum_loop [of f n _ "2 ^ n"] by (simp add: mult_2)
  qed (use assms in simp)
  from this [of 8] show ?thesis by (simp add: row_fill_def)
qed

lemma pm_start:
  assumes "pm_shape pm0"
  shows "pm_powers p 1 (pm_set 0 1 p (fold (\<lambda>i. pm_set i 0 0) [0..<8] pm0))"
proof -
  have "pm_shape (fold (\<lambda>i. pm_set i 0 0) [0..<n] pm0) \<and>
        (\<forall>i < n. pm_get (fold (\<lambda>i. pm_set i 0 0) [0..<n] pm0) i 0 = 0)" if "n \<le> 8" for n
    using that by (induction n) (simp_all add: assms pm_get_set less_Suc_eq)
  from this [of 8] show ?thesis by (simp add: pm_powers_def pm_get_set)
qed

lemma pm_fill_entry:
  assumes "pm_shape pm0" and "i < 8" and "x < 256"
  shows "pm_get (pm_fill pm0 p) i x = row_entry (\<lambda>b. MULxPOW64 p (8 * i + b) 0x1b) x"
proof -
  define pm3 where "pm3 = fold pm_power [1..<64] (pm_set 0 1 p (fold (\<lambda>i. pm_set i 0 0) [0..<8] pm0))"
  have pw: "pm_powers p 64 pm3"
    unfolding pm3_def by (rule pm_powers_loop [OF pm_start [OF assms(1)]]) simp_all
  then have sh: "length pm3 = 8" "length (pm3 ! i) = 256" using assms(2) by (simp_all add: pm_powers_def pm_shapeD)
  have "pm3 ! i ! (2 ^ b) = MULxPOW64 p (8 * i + b) 0x1b" if "b < 8" for b
  proof -
    have "8 * i + b < 64" "(8 * i + b) div 8 = i" "(8 * i + b) mod 8 = b" using that assms(2) by simp_all
    with pw show ?thesis unfolding pm_powers_def pm_get_def by metis
  qed
  note pows = this and this [of 0]
  moreover have "pm3 ! i ! 0 = 0" using pw assms(2) by (simp add: pm_powers_def pm_get_def)
  moreover have "row_entry f 1 = f 0" for f using row_entry_plus [of 0 0 f] by simp
  ultimately have "row_ok (\<lambda>b. MULxPOW64 p (8 * i + b) 0x1b) 2 (pm3 ! i)"
    using sh by (auto simp: row_ok_def less_2_cases_iff)
  note row_fill_ok [OF this]
  moreover have "pm_fill pm0 p = map row_fill pm3"
    unfolding pm_fill_def Let_def pm3_def [symmetric] using fold_rows [of 8 pm3] sh by simp
  ultimately show ?thesis using assms(2,3) sh by (simp add: row_ok_def pm_get_def)
qed

lemma byte_bit: "b < 8 \<Longrightarrow> bit (unat (drop_bit n x AND 255)) b = bit x (n + b)" for x :: u64
proof -
  assume "b < 8"
  moreover have m: "(255 :: u64) = mask 8" by (simp add: mask_eq_exp_minus_1)
  ultimately show ?thesis unfolding m by (simp add: bit_unsigned_iff bit_simps add.commute)
qed

lemma byte_less: "unat (y AND 255) < 256" for y :: u64
proof -
  have "y AND 255 \<le> 255" by (rule word_and_le1)
  then show ?thesis by (simp add: word_le_nat_alt)
qed

lemma upt_split64:
  "[0..<64] = [0..<8] @ [8..<16] @ [16..<24] @ [24..<32] @ [32..<40] @ [40..<48] @ [48..<56] @ [56..<64 :: nat]"
  by (simp add: upt_rec)

lemma mul_p_fill_eq:
  assumes "pm_shape pm0"
  shows "mul_p (pm_fill pm0 p) x = MUL64 x p 0x1b"
proof -
  have cell: "pm_get (pm_fill pm0 p) i (unat (drop_bit (8 * i) x AND 255)) =
      xsum (map (\<lambda>b. if bit x b then MULxPOW64 p b 0x1b else 0) [8 * i..<8 * i + 8])" if "i < 8" for i
  proof -
    have "[8 * i..<8 * i + 8] = map (\<lambda>b. b + 8 * i) [0..<8]" by (simp add: map_add_upt add.commute)
    then show ?thesis
      unfolding pm_fill_entry [OF assms that byte_less] row_entry_def
      by (intro arg_cong [where f = xsum]) (auto simp: byte_bit add.commute)
  qed
  have "bit_sum x (\<lambda>b. MULxPOW64 p b 0x1b) = mul_p (pm_fill pm0 p) x"
    using cell [of 0] cell [of 1] cell [of 2] cell [of 3] cell [of 4] cell [of 5] cell [of 6] cell [of 7]
    by (simp add: mul_p_def bit_sum_def upt_split64 xor.assoc)
  then show ?thesis by (simp add: MUL64_alt [symmetric] MUL64_commute)
qed

lemma pm_junk_shape: "pm_shape pm_junk"
  by (simp add: pm_shape_def pm_junk_def)

lemmas mul_p_fill = mul_p_fill_eq [OF pm_junk_shape]

text \<open>C28: the product tables of the integrity function are right: for every factor \<open>p\<close> and whatever the
  stack held before, a product read from the eight tables of 256 words that \<^verbatim>\<open>_snow3g_integrity\<close>
  computes equals the bit-by-bit product \<^verbatim>\<open>MUL64\<close> in the field.\<close>

theorem snow3g_table_product:
  assumes "pm_shape pm0"
  shows "mul_p (pm_fill pm0 p) x = MUL64 x p 0x1b"
  using assms by (rule mul_p_fill_eq)

theorem snow3g_table_product_witness:
  "mul_p (pm_fill pm_junk 0xfedcba9876543210) 0x8000000000000001 = MUL64 0x8000000000000001 0xfedcba9876543210 0x1b"
  by (rule snow3g_table_product [OF pm_junk_shape])

subsection \<open>The integrity function\<close>

text \<open>
  UIA2 as its specification writes it: the message in blocks of 64 bits, the last one padded with
  zeros, evaluated as a polynomial at \<open>P\<close>; the length; a product with \<open>Q\<close>; a one-time pad.
\<close>

definition block64 :: "byte list \<Rightarrow> nat \<Rightarrow> u64" where
  "block64 msg k =
     (let b = (\<lambda>i. ucast ((drop (8 * k) msg @ replicate 8 0) ! i) :: u64)
      in push_bit 56 (b 0) OR push_bit 48 (b 1) OR push_bit 40 (b 2) OR push_bit 32 (b 3)
         OR push_bit 24 (b 4) OR push_bit 16 (b 5) OR push_bit 8 (b 6) OR b 7)"

definition uia2 :: "u32 \<Rightarrow> u32 \<Rightarrow> int \<Rightarrow> byte list \<Rightarrow> byte list \<Rightarrow> byte list" where
  "uia2 count fresh direction key msg =
     (let z = ref_keystream 5 (ref_init (snow_key key) (integrity_iv count fresh direction));
          P = push_bit 32 (ucast (z ! 0)) OR ucast (z ! 1);
          Q = push_bit 32 (ucast (z ! 2)) OR ucast (z ! 3);
          eval = foldl (\<lambda>e m. MUL64 (e XOR m) P 0x1b) 0 (map (block64 msg) [0..<(length msg + 7) div 8]);
          final = MUL64 (eval XOR of_nat (8 * length msg)) Q 0x1b;
          mac = drop_bit 32 final XOR ucast (z ! 4)
      in [ucast (drop_bit 24 mac), ucast (drop_bit 16 mac), ucast (drop_bit 8 mac), ucast mac])"

lemma GET64_block:
  assumes "int (8 * k) < int (length msg)" and "n = min 8 (int (length msg) - int (8 * k))"
  shows "GET64 msg (int (8 * k)) n = Inr (block64 msg k)"
proof -
  have cell: "(if int i < n then ucast (msg ! (nat (int (8 * k)) + i)) else 0) =
      (ucast ((drop (8 * k) msg @ replicate 8 0) ! i) :: u64)" if "i < 8" for i
    using assms that by (auto simp: nth_append min_def nat_mult_distrib)
  have "1 \<le> n" "n \<le> 8" "int (8 * k) + n \<le> int (length msg)" using assms by auto
  then show ?thesis
    unfolding GET64_def block64_def Let_def
    using cell [of 0] cell [of 1] cell [of 2] cell [of 3] cell [of 4] cell [of 5] cell [of 6] cell [of 7]
    by simp
qed

lemma eval_blocks_eq:
  assumes "8 * (i + n) < length msg"
  shows "eval_blocks pm msg i n e =
     Inr (foldl (\<lambda>e m. mul_p pm (e XOR m)) e (map (block64 msg) [i..<i + n]))"
  using assms
proof (induction n arbitrary: i e)
  case (Suc n)
  have "GET64 msg (int (i * 8)) 8 = Inr (block64 msg i)"
    using GET64_block [of i msg 8] Suc.prems by (simp add: mult.commute)
  with Suc.IH [of "i + 1"] Suc.prems show ?case by (simp add: upt_conv_Cons del: upt_Suc)
qed simp

lemma keystream_junk: "keystream_words n (snow3g_init snow_junk k iv) = ref_keystream n (ref_init k iv)"
  using keystream_abs [OF init_abs(1)] init_abs(2) by (simp add: snow_junk_def)

lemma block_count:
  assumes "0 < (n :: nat)"
  obtains m where "(n + 7) div 8 = Suc m" and "(int n * 8 + 63) div 64 = int m + 1"
    and "8 * m < n"
proof
  let ?m = "(n - 1) div 8"
  show "(n + 7) div 8 = Suc ?m" "(int n * 8 + 63) div 64 = int ?m + 1" "8 * ?m < n"
    using assms by (simp_all add: zdiv_int)
qed

lemma integrity_spec:
  assumes "msg \<noteq> []"
  shows "snow3g_integrity_fresh count fresh direction key msg = Inr (uia2 count fresh direction key msg)"
proof -
  obtain m where m: "(length msg + 7) div 8 = Suc m" "(int (length msg) * 8 + 63) div 64 = int m + 1"
    "8 * m < length msg"
    using assms by (rule block_count [of "length msg", OF length_greater_0_conv [THEN iffD2]])
  have "GET64 msg (int m * 8) (min 8 (int (length msg) - int m * 8)) = Inr (block64 msg m)"
    using GET64_block [of m msg] m(3) by (simp add: mult.commute)
  then show ?thesis
    using eval_blocks_eq [of 0 m msg] m(3) mul_p_fill
    by (simp only: snow3g_integrity_fresh_def uia2_def Let_def m(1,2) keystream_junk)
      (simp add: mult.commute)
qed

text \<open>C30: the integrity function computes UIA2 as specified, with the register that shifts, the bitwise
  product and the padded blocks, on every message that is not empty; on the empty message
  \<^verbatim>\<open>_snow3g_integrity\<close> reads the 8 bytes before the message.\<close>

theorem snow3g_integrity_correct:
  "snow3g_integrity count bearer direction key msg =
     (if msg = [] then Inl OutOfBounds
      else Inr (uia2 count (push_bit 27 (word_of_int bearer)) direction key msg))"
proof (cases "msg = []")
  case True
  then show ?thesis by (simp add: snow3g_integrity_def snow3g_integrity_fresh_def Let_def GET64_def)
next
  case False
  then show ?thesis by (simp add: snow3g_integrity_def integrity_spec)
qed

end
