(* ===== verification/Secu.thy ===== *)
theory Secu
  imports Snow3g_Props
begin

text \<open>
  The stream security functions shared by PDCP and NAS (\<^verbatim>\<open>openair3/SECU\<close>: \<^verbatim>\<open>secu_defs.c\<close>,
  \<^verbatim>\<open>nas_stream_eea0/1/2.c\<close>, \<^verbatim>\<open>nas_stream_eia1/2.c\<close>, \<^verbatim>\<open>aes_128_ctr.c\<close>, \<^verbatim>\<open>aes_128_cbc_cmac.c\<close>).
  SNOW 3G is the model of \<^verbatim>\<open>snow3g.c\<close>; AES is OpenSSL's and is the argument of type \<open>crypto\<close>:
  AES-128 in CTR mode, of a key, a 16-byte initial counter block and the data, and the AES-128 CMAC
  of a key and the data. A length in bits is a \<open>nat\<close>: it is \<open>8\<close> times a length of at most a PDU.
\<close>

record crypto =
  evp_aes_128_ctr :: "byte list \<Rightarrow> byte list \<Rightarrow> byte list \<Rightarrow> byte list"
  evp_aes_128_cmac :: "byte list \<Rightarrow> byte list \<Rightarrow> byte list"

text \<open>What the code relies on: CTR mode adds a keystream that depends on the key and the counter
  block only, and a CMAC has 16 bytes.\<close>

definition crypto_ok :: "crypto \<Rightarrow> bool" where
  "crypto_ok cr \<longleftrightarrow>
     (\<exists>ks. (\<forall>key iv n. length (ks key iv n) = n) \<and>
           (\<forall>key iv m. evp_aes_128_ctr cr key iv m = map2 (XOR) m (ks key iv (length m)))) \<and>
     (\<forall>key m. length (evp_aes_128_cmac cr key m) = 16)"

subsection \<open>AES\<close>

text \<open>The initial vectors are bit fields in a little-endian structure: two bits of padding, the
  direction in one bit and the bearer in five.\<close>

definition iv_byte :: "int \<Rightarrow> int \<Rightarrow> byte" where
  "iv_byte bearer direction =
     push_bit 3 (word_of_int bearer AND 0x1f) OR push_bit 2 (word_of_int direction AND 1)"

definition iv16 :: "u32 \<Rightarrow> int \<Rightarrow> int \<Rightarrow> byte list" where
  "iv16 count bearer direction = be32 count @ [iv_byte bearer direction] @ replicate 11 0"

definition iv8 :: "u32 \<Rightarrow> int \<Rightarrow> int \<Rightarrow> byte list" where
  "iv8 count bearer direction = be32 count @ [iv_byte bearer direction] @ replicate 3 0"

definition aes_128_ctr :: "crypto \<Rightarrow> byte list \<Rightarrow> byte list \<Rightarrow> byte list \<Rightarrow> nat \<Rightarrow> byte list c_result" where
  "aes_128_ctr cr key iv msg len_out =
     (let out = evp_aes_128_ctr cr key iv msg
      in c_bind (c_check AssertFail (\<not> length out > len_out)) (\<lambda>_. Inr out))"

definition cipher_aes_128_cbc_cmac :: "crypto \<Rightarrow> byte list \<Rightarrow> byte list \<Rightarrow> byte list \<Rightarrow> byte list" where
  "cipher_aes_128_cbc_cmac cr key iv msg = evp_aes_128_cmac cr key (iv @ msg)"

subsection \<open>Stream functions\<close>

record nas_stream_cipher_t =
  nsc_context :: "byte list"
  nsc_count :: u32
  nsc_bearer :: byte
  nsc_direction :: byte
  nsc_message :: "byte list"
  nsc_blength :: nat

definition nas_stream_encrypt_eea0 :: "nas_stream_cipher_t \<Rightarrow> byte list c_result" where
  "nas_stream_encrypt_eea0 c =
     (let n = (nsc_blength c + 7) div 8
      in c_bind (c_check OutOfBounds (n \<le> length (nsc_message c))) (\<lambda>_. Inr (take n (nsc_message c))))"

definition nas_stream_encrypt_eea1 :: "nas_stream_cipher_t \<Rightarrow> byte list c_result" where
  "nas_stream_encrypt_eea1 c =
     (let n = nsc_blength c div 8
      in c_bind (c_check OutOfBounds (n \<le> length (nsc_message c))) (\<lambda>_.
         Inr (snow3g_ciphering (nsc_count c) (uint (nsc_bearer c)) (uint (nsc_direction c)) (nsc_context c)
               (take n (nsc_message c)))))"

definition nas_stream_encrypt_eea2 :: "crypto \<Rightarrow> nas_stream_cipher_t \<Rightarrow> byte list c_result" where
  "nas_stream_encrypt_eea2 cr c =
     c_bind (c_check AssertFail (nsc_bearer c < 32)) (\<lambda>_.
     c_bind (c_check AssertFail (nsc_direction c < 2)) (\<lambda>_.
     c_bind (c_check AssertFail (nsc_blength c > 7)) (\<lambda>_.
     c_bind (c_check AssertFail (nsc_blength c mod 8 = 0)) (\<lambda>_.
     let n = nsc_blength c div 8 in
     c_bind (c_check OutOfBounds (n \<le> length (nsc_message c))) (\<lambda>_.
     aes_128_ctr cr (nsc_context c)
       (iv16 (nsc_count c) (uint (nsc_bearer c)) (uint (nsc_direction c))) (take n (nsc_message c)) n)))))"

definition nas_stream_encrypt_eia1 :: "nas_stream_cipher_t \<Rightarrow> byte list c_result" where
  "nas_stream_encrypt_eia1 c =
     (let n = nsc_blength c div 8
      in c_bind (c_check OutOfBounds (n \<le> length (nsc_message c))) (\<lambda>_.
         snow3g_integrity (nsc_count c) (uint (nsc_bearer c)) (uint (nsc_direction c)) (nsc_context c)
           (take n (nsc_message c))))"

definition nas_stream_encrypt_eia2 :: "crypto \<Rightarrow> nas_stream_cipher_t \<Rightarrow> byte list c_result" where
  "nas_stream_encrypt_eia2 cr c =
     c_bind (c_check AssertFail (nsc_bearer c < 32)) (\<lambda>_.
     c_bind (c_check AssertFail (nsc_blength c mod 8 = 0)) (\<lambda>_.
     let n = nsc_blength c div 8 in
     c_bind (c_check OutOfBounds (n \<le> length (nsc_message c))) (\<lambda>_.
     Inr (take 4 (cipher_aes_128_cbc_cmac cr (nsc_context c)
       (iv8 (nsc_count c) (uint (nsc_bearer c)) (uint (nsc_direction c))) (take n (nsc_message c)))))))"

text \<open>The dispatchers; \<open>out\<close> is what the output buffer held, which EIA0 leaves alone.\<close>

definition stream_compute_integrity ::
  "crypto \<Rightarrow> int \<Rightarrow> nas_stream_cipher_t \<Rightarrow> byte list \<Rightarrow> byte list c_result" where
  "stream_compute_integrity cr alg c out =
     (if alg = 0 then Inr out
      else if alg = 1 then nas_stream_encrypt_eia1 c
      else if alg = 2 then nas_stream_encrypt_eia2 cr c
      else Inl AssertFail)"

definition stream_compute_encrypt :: "crypto \<Rightarrow> int \<Rightarrow> nas_stream_cipher_t \<Rightarrow> byte list c_result" where
  "stream_compute_encrypt cr alg c =
     (if alg = 0 then nas_stream_encrypt_eea0 c
      else if alg = 1 then nas_stream_encrypt_eea1 c
      else if alg = 2 then nas_stream_encrypt_eea2 cr c
      else Inl AssertFail)"

subsection \<open>Properties\<close>

lemma aes_ctr_facts:
  assumes "crypto_ok cr"
  shows "length (evp_aes_128_ctr cr key iv m) = length m"
    and "evp_aes_128_ctr cr key iv (evp_aes_128_ctr cr key iv m) = m"
proof -
  obtain ks where ks: "\<forall>key iv n. length (ks key iv n) = n"
      "\<forall>key iv m. evp_aes_128_ctr cr key iv m = map2 (XOR) m (ks key iv (length m))"
    using assms by (auto simp: crypto_ok_def)
  then show "length (evp_aes_128_ctr cr key iv m) = length m"
    and "evp_aes_128_ctr cr key iv (evp_aes_128_ctr cr key iv m) = m"
    using map2_xor_xor [of m "ks key iv (length m)"] by simp_all
qed

lemma cmac_length: "crypto_ok cr \<Longrightarrow> length (evp_aes_128_cmac cr key m) = 16"
  by (simp add: crypto_ok_def)

definition stream_input :: "nas_stream_cipher_t \<Rightarrow> bool" where
  "stream_input c \<longleftrightarrow> nsc_blength c = 8 * length (nsc_message c) \<and> nsc_message c \<noteq> [] \<and>
     nsc_bearer c < 32 \<and> nsc_direction c < 2"

lemma stream_encrypt_twice:
  assumes "crypto_ok cr" and "stream_input c" and "alg = 0 \<or> alg = 1 \<or> alg = 2"
  shows "\<exists>out. stream_compute_encrypt cr alg c = Inr out \<and> length out = length (nsc_message c) \<and>
               stream_compute_encrypt cr alg (c\<lparr>nsc_message := out\<rparr>) = Inr (nsc_message c)"
proof -
  have "7 < 8 * length (nsc_message c)" using assms(2) by (cases "nsc_message c") (simp_all add: stream_input_def)
  then show ?thesis
    using assms aes_ctr_facts [OF assms(1)]
    by (auto simp: stream_input_def stream_compute_encrypt_def nas_stream_encrypt_eea0_def
        nas_stream_encrypt_eea1_def nas_stream_encrypt_eea2_def aes_128_ctr_def Let_def snow3g_twice)
qed

text \<open>C31: ciphering with any supported algorithm (EEA0, SNOW 3G, AES) on whole bytes never faults, keeps
  the length, and is undone by a second call with the same context, COUNT, bearer and direction.\<close>

theorem stream_encrypt_involution:
  assumes "crypto_ok cr" and "stream_input c" and "alg = 0 \<or> alg = 1 \<or> alg = 2"
  shows "\<exists>out. stream_compute_encrypt cr alg c = Inr out \<and> length out = length (nsc_message c) \<and>
               stream_compute_encrypt cr alg (c\<lparr>nsc_message := out\<rparr>) = Inr (nsc_message c)"
  using assms by (rule stream_encrypt_twice)

text \<open>A concrete instance of the AES functions: a constant keystream and a constant MAC.\<close>

definition pad_crypto :: crypto where
  "pad_crypto = \<lparr>evp_aes_128_ctr = (\<lambda>_ _ m. map2 (XOR) m (replicate (length m) 0x5a)),
                 evp_aes_128_cmac = (\<lambda>_ _. replicate 16 7)\<rparr>"

lemma pad_crypto_ok: "crypto_ok pad_crypto"
  unfolding crypto_ok_def pad_crypto_def
  by (intro conjI exI [of _ "\<lambda>_ _ n. replicate n 0x5a"]) simp_all

theorem stream_encrypt_involution_witness:
  "\<exists>out. stream_compute_encrypt pad_crypto 2 \<lparr>nsc_context = replicate 16 3, nsc_count = 9, nsc_bearer = 4,
      nsc_direction = 1, nsc_message = [1, 2, 3], nsc_blength = 24\<rparr> = Inr out \<and> length out = 3 \<and>
    stream_compute_encrypt pad_crypto 2 \<lparr>nsc_context = replicate 16 3, nsc_count = 9, nsc_bearer = 4,
      nsc_direction = 1, nsc_message = out, nsc_blength = 24\<rparr> = Inr [1, 2, 3]"
  using stream_encrypt_involution [OF pad_crypto_ok, of "\<lparr>nsc_context = replicate 16 3, nsc_count = 9,
      nsc_bearer = 4, nsc_direction = 1, nsc_message = [1, 2, 3], nsc_blength = 24\<rparr>" 2]
  by (simp add: stream_input_def numeral_3_eq_3)

end
