(* ===== verification/Secu_Contexts.thy ===== *)
theory Secu_Contexts
  imports Secu
begin

text \<open>
  The contexts of the stream security functions and the container that NAS keeps them in (\<^verbatim>\<open>secu_defs.c\<close> and the
  functions \<^verbatim>\<open>stream_*_init_*\<close> and \<^verbatim>\<open>stream_*_free_*\<close> of the algorithms). A context is the key that was copied into it,
  a NULL pointer is \<open>None\<close>. The context of EIA2 also holds objects of OpenSSL, which only serve the computation of the
  CMAC with that key.
\<close>

type_synonym stream_security_context_t = "byte list option"

record stream_security_container_t =
  ssc_integrity_algorithm :: int
  ssc_ciphering_algorithm :: int
  ssc_ciphering_context :: stream_security_context_t
  ssc_integrity_context :: stream_security_context_t

subsection \<open>Contexts\<close>

definition copy_key :: "byte list \<Rightarrow> stream_security_context_t c_result" where
  "copy_key key = c_bind (c_check OutOfBounds (16 \<le> length key)) (\<lambda>_. Inr (Some (take 16 key)))"

definition stream_ciphering_init_eea1 :: "byte list \<Rightarrow> stream_security_context_t c_result" where
  "stream_ciphering_init_eea1 key = copy_key key"

definition stream_ciphering_init_eea2 :: "byte list \<Rightarrow> stream_security_context_t c_result" where
  "stream_ciphering_init_eea2 key = copy_key key"

definition stream_integrity_init_eia1 :: "byte list \<Rightarrow> stream_security_context_t c_result" where
  "stream_integrity_init_eia1 key = copy_key key"

definition init_aes_128_cbc_cmac :: "byte list \<Rightarrow> byte list c_result" where
  "init_aes_128_cbc_cmac key = c_bind (c_check OutOfBounds (16 \<le> length key)) (\<lambda>_. Inr (take 16 key))"

definition stream_integrity_init_eia2 :: "byte list \<Rightarrow> stream_security_context_t c_result" where
  "stream_integrity_init_eia2 key = c_bind (init_aes_128_cbc_cmac key) (\<lambda>ctx. Inr (Some ctx))"

definition stream_integrity_init :: "int \<Rightarrow> byte list \<Rightarrow> stream_security_context_t c_result" where
  "stream_integrity_init alg key =
     (if alg = 0 then Inr None
      else if alg = 1 then stream_integrity_init_eia1 key
      else if alg = 2 then stream_integrity_init_eia2 key
      else Inl AssertFail)"

definition stream_ciphering_init :: "int \<Rightarrow> byte list \<Rightarrow> stream_security_context_t c_result" where
  "stream_ciphering_init alg key =
     (if alg = 0 then Inr None
      else if alg = 1 then stream_ciphering_init_eea1 key
      else if alg = 2 then stream_ciphering_init_eea2 key
      else Inl AssertFail)"

text \<open>To free NULL does nothing, but the context of EIA2 is asserted not to be NULL.\<close>

definition free_aes_128_cbc_cmac :: "stream_security_context_t \<Rightarrow> unit c_result" where
  "free_aes_128_cbc_cmac ctx = c_check AssertFail (ctx \<noteq> None)"

definition stream_integrity_free :: "int \<Rightarrow> stream_security_context_t \<Rightarrow> unit c_result" where
  "stream_integrity_free alg ctx =
     (if alg = 0 \<or> alg = 1 then Inr ()
      else if alg = 2 then free_aes_128_cbc_cmac ctx
      else Inl AssertFail)"

definition stream_ciphering_free :: "int \<Rightarrow> stream_security_context_t \<Rightarrow> unit c_result" where
  "stream_ciphering_free alg ctx = c_check AssertFail (alg = 0 \<or> alg = 1 \<or> alg = 2)"

subsection \<open>The container\<close>

definition stream_security_container_init ::
  "int \<Rightarrow> int \<Rightarrow> byte list \<Rightarrow> byte list \<Rightarrow> stream_security_container_t c_result" where
  "stream_security_container_init calg ialg ckey ikey =
     c_bind (stream_integrity_init ialg ikey) (\<lambda>ictx.
     c_bind (stream_ciphering_init calg ckey) (\<lambda>cctx.
     Inr \<lparr>ssc_integrity_algorithm = ialg, ssc_ciphering_algorithm = calg,
          ssc_ciphering_context = cctx, ssc_integrity_context = ictx\<rparr>))"

definition stream_security_container_delete :: "stream_security_container_t option \<Rightarrow> unit c_result" where
  "stream_security_container_delete container =
     (case container of
        None \<Rightarrow> Inr ()
      | Some c \<Rightarrow>
          c_bind (stream_integrity_free (ssc_integrity_algorithm c) (ssc_integrity_context c)) (\<lambda>_.
          stream_ciphering_free (ssc_ciphering_algorithm c) (ssc_ciphering_context c)))"

text \<open>A container as \<^verbatim>\<open>stream_security_container_init\<close> makes it.\<close>

definition container_ok :: "stream_security_container_t \<Rightarrow> bool" where
  "container_ok c \<longleftrightarrow>
     ssc_integrity_algorithm c \<in> {0, 1, 2} \<and> ssc_ciphering_algorithm c \<in> {0, 1, 2} \<and>
     (ssc_integrity_context c = None \<longleftrightarrow> ssc_integrity_algorithm c = 0) \<and>
     (ssc_ciphering_context c = None \<longleftrightarrow> ssc_ciphering_algorithm c = 0)"

lemmas stream_init_defs =
  stream_integrity_init_def stream_ciphering_init_def stream_ciphering_init_eea1_def stream_ciphering_init_eea2_def
  stream_integrity_init_eia1_def stream_integrity_init_eia2_def init_aes_128_cbc_cmac_def copy_key_def

lemma container_init_ok:
  "stream_security_container_init calg ialg ckey ikey = Inr c \<Longrightarrow>
   container_ok c \<and> ssc_integrity_algorithm c = ialg \<and> ssc_ciphering_algorithm c = calg \<and>
   (ialg \<noteq> 0 \<longrightarrow> ssc_integrity_context c = Some (take 16 ikey)) \<and>
   (calg \<noteq> 0 \<longrightarrow> ssc_ciphering_context c = Some (take 16 ckey))"
  by (auto simp: stream_security_container_init_def container_ok_def stream_init_defs c_bind_eq_Inr_conv
      split: if_splits)

lemma container_init_cases:
  assumes "16 \<le> length ckey" and "16 \<le> length ikey"
  shows "(\<exists>c. stream_security_container_init calg ialg ckey ikey = Inr c) \<longleftrightarrow>
           ialg \<in> {0, 1, 2} \<and> calg \<in> {0, 1, 2}"
  using assms by (auto simp: stream_security_container_init_def stream_init_defs)

lemma container_delete_ok:
  "container_ok c \<Longrightarrow> stream_security_container_delete (Some c) = Inr ()"
  by (auto simp: stream_security_container_delete_def container_ok_def stream_integrity_free_def
      stream_ciphering_free_def free_aes_128_cbc_cmac_def)

end
