(* ===== verification/Rlc_Pdu.thy ===== *)
theory Rlc_Pdu
  imports L2_Prelude "HOL-Library.While_Combinator" "HOL-Library.Product_Lexorder"
begin

text \<open>
  Received PDUs and the PDU header codec of the RLC layer (\<^verbatim>\<open>nr_rlc_pdu.c\<close>): the ordered list of
  received segments, and the bit reader and bit writer of the headers.

  The reader and the writer are shown against one reference, the string of bits of a byte list, most
  significant bit of each byte first. The writer shifts every byte it fills to the left, so the bytes
  already in the destination do not show in what it writes.
\<close>

subsection \<open>Received PDUs\<close>

record nr_rlc_pdu =
  pdu_sn :: int
  pdu_data :: "byte list option"   \<comment> \<open>\<open>None\<close>: \<^verbatim>\<open>data\<close> is \<^verbatim>\<open>NULL\<close>, the segment is processed\<close>
  pdu_size :: int
  pdu_so :: int
  pdu_is_first :: bool
  pdu_is_last :: bool

definition nr_rlc_new_pdu :: "int \<Rightarrow> int \<Rightarrow> bool \<Rightarrow> bool \<Rightarrow> byte list \<Rightarrow> nr_rlc_pdu" where
  "nr_rlc_new_pdu sn so is_first is_last data =
     \<lparr>pdu_sn = sn, pdu_data = Some data, pdu_size = int (length data), pdu_so = so,
      pdu_is_first = is_first, pdu_is_last = is_last\<rparr>"

lemma nr_rlc_new_pdu_simps [simp]:
  "pdu_sn (nr_rlc_new_pdu sn so f l d) = sn"
  "pdu_data (nr_rlc_new_pdu sn so f l d) = Some d"
  "pdu_size (nr_rlc_new_pdu sn so f l d) = int (length d)"
  "pdu_so (nr_rlc_new_pdu sn so f l d) = so"
  "pdu_is_first (nr_rlc_new_pdu sn so f l d) = f"
  "pdu_is_last (nr_rlc_new_pdu sn so f l d) = l"
  by (simp_all add: nr_rlc_new_pdu_def)

text \<open>The list is ordered by \<^verbatim>\<open>sn\<close>, then by \<^verbatim>\<open>so\<close>; a new cell goes behind the cells equal to it.\<close>

definition nr_rlc_pdu_list_add ::
  "(int \<Rightarrow> int \<Rightarrow> int) \<Rightarrow> nr_rlc_pdu list \<Rightarrow> nr_rlc_pdu \<Rightarrow> nr_rlc_pdu list" where
  "nr_rlc_pdu_list_add sn_compare cs pdu =
     insert_before (\<lambda>cur. sn_compare (pdu_sn cur) (pdu_sn pdu) > 0 \<or>
                          (pdu_sn cur = pdu_sn pdu \<and> pdu_so cur > pdu_so pdu)) pdu cs"

text \<open>
  Sequence numbers are compared by their distance from a base. The code computes that distance with
  a correction for negative values and the remainder of C; on numbers of the modulus it is the
  mathematical remainder.
\<close>

definition sn_distance :: "int \<Rightarrow> int \<Rightarrow> int \<Rightarrow> int" where
  "sn_distance modulus base a =
     (let r = a - base; r = (if r < 0 then r + modulus else r) in c_rem r modulus)"

lemma sn_distance_mod: "0 < m \<Longrightarrow> - m \<le> a - b \<Longrightarrow> sn_distance m b a = (a - b) mod m"
  by (simp add: sn_distance_def Let_def)

lemma sn_distance_range: "0 < m \<Longrightarrow> - m \<le> a - b \<Longrightarrow> 0 \<le> sn_distance m b a \<and> sn_distance m b a < m"
  by (simp add: sn_distance_mod)

lemma mod_diff_inj:
  fixes a b c m :: int
  assumes "0 \<le> a" "a < m" "0 \<le> c" "c < m" and "(a - b) mod m = (c - b) mod m"
  shows "a = c"
proof -
  have "(a - b + b) mod m = (c - b + b) mod m" using assms(5) by (rule mod_add_cong) simp
  with assms show ?thesis by simp
qed

definition rlc_sn_ok :: "int \<Rightarrow> int \<Rightarrow> bool" where
  "rlc_sn_ok m sn \<longleftrightarrow> 0 \<le> sn \<and> sn < m"

interpretation rlc_rx_order: ordered_list
  "\<lambda>p :: nr_rlc_pdu. (sn_distance m b (pdu_sn p), pdu_so p)"
  "nr_rlc_pdu_list_add (\<lambda>x y. sn_distance m b x - sn_distance m b y)"
  "\<lambda>(p :: nr_rlc_pdu) cs. 0 < m \<and> b \<le> m \<and> rlc_sn_ok m (pdu_sn p) \<and> (\<forall>c \<in> set cs. rlc_sn_ok m (pdu_sn c))"
  for m b :: int
proof
  fix x :: nr_rlc_pdu and cs :: "nr_rlc_pdu list"
  assume ok: "0 < m \<and> b \<le> m \<and> rlc_sn_ok m (pdu_sn x) \<and> (\<forall>c \<in> set cs. rlc_sn_ok m (pdu_sn c))"
  have cong: "insert_before s x cs = insert_before t x cs" if "\<forall>c \<in> set cs. s c = t c" for s t and cs :: "nr_rlc_pdu list"
    using that by (induction cs) simp_all
  show "nr_rlc_pdu_list_add (\<lambda>x y. sn_distance m b x - sn_distance m b y) cs x =
        insert_before (\<lambda>c. (sn_distance m b (pdu_sn x), pdu_so x) < (sn_distance m b (pdu_sn c), pdu_so c)) x cs"
    unfolding nr_rlc_pdu_list_add_def
  proof (rule cong, rule ballI)
    fix c assume "c \<in> set cs"
    then have "sn_distance m b (pdu_sn x) = sn_distance m b (pdu_sn c) \<longleftrightarrow> pdu_sn x = pdu_sn c"
      using ok mod_diff_inj [of "pdu_sn x" m "pdu_sn c" b] by (auto simp: rlc_sn_ok_def sn_distance_mod)
    then show "(sn_distance m b (pdu_sn c) - sn_distance m b (pdu_sn x) > 0 \<or>
                (pdu_sn c = pdu_sn x \<and> pdu_so c > pdu_so x)) =
               ((sn_distance m b (pdu_sn x), pdu_so x) < (sn_distance m b (pdu_sn c), pdu_so c))"
      by (auto simp: less_prod_def')
  qed
qed

subsection \<open>Search around the sequence numbers\<close>

text \<open>
  The loops that go from a sequence number to the next until a test fails: they end when it fails for one,
  and stop at the first such number in cyclic order. If the test holds for all they do not end.
\<close>

lemma mod_Suc_dist:
  fixes s t m :: int
  assumes "0 < m" "(t - s) mod m \<noteq> 0"
  shows "(t - (s + 1) mod m) mod m = (t - s) mod m - 1"
proof -
  have "(t - (s + 1) mod m) mod m = ((t - s) mod m - 1) mod m" by (simp add: mod_simps algebra_simps)
  also have "\<dots> = (t - s) mod m - 1"
    using assms pos_mod_bound [of m "t - s"] pos_mod_sign [of m "t - s"] by (intro mod_pos_pos_trivial) linarith+
  finally show ?thesis .
qed

lemma mod_dist_diff:
  fixes x s t m :: int
  assumes "0 < m" "(x - s) mod m \<le> (t - s) mod m"
  shows "(t - x) mod m = (t - s) mod m - (x - s) mod m"
proof -
  have "(t - x) mod m = ((t - s) mod m - (x - s) mod m) mod m" by (simp add: mod_simps)
  also have "\<dots> = (t - s) mod m - (x - s) mod m"
    using assms pos_mod_bound [of m "t - s"] pos_mod_sign [of m "x - s"] by (intro mod_pos_pos_trivial) linarith+
  finally show ?thesis .
qed

lemma cyclic_search:
  assumes m: "0 < m" and s: "rlc_sn_ok m s" and t: "rlc_sn_ok m t" "\<not> P t"
  shows "\<exists>r. while_option P (\<lambda>x. c_rem (x + 1) m) s = Some r \<and> rlc_sn_ok m r \<and> \<not> P r \<and>
    (r - s) mod m \<le> (t - s) mod m \<and> (\<forall>k. 0 \<le> k \<and> k < (r - s) mod m \<longrightarrow> P ((s + k) mod m))"
proof -
  let ?c = "\<lambda>x. c_rem (x + 1) m"
  let ?I = "\<lambda>x. rlc_sn_ok m x \<and> (x - s) mod m \<le> (t - s) mod m \<and>
      (\<forall>k. 0 \<le> k \<and> k < (x - s) mod m \<longrightarrow> P ((s + k) mod m))"
  have step: "?I (?c x) \<and> nat ((t - ?c x) mod m) < nat ((t - x) mod m)"
    if I: "?I x" and b: "P x" for x
  proof -
    have x: "0 \<le> x" "x < m" using I by (simp_all add: rlc_sn_ok_def)
    have c: "?c x = (x + 1) mod m" using x m by simp
    have ne: "(t - x) mod m \<noteq> 0"
    proof
      assume "(t - x) mod m = 0"
      then have "(t - 0) mod m = (x - 0) mod m" by (simp add: mod_eq_dvd_iff mod_0_imp_dvd)
      with x t(1) have "t = x" by (simp add: rlc_sn_ok_def)
      with b t(2) show False by simp
    qed
    have pos: "0 < (t - x) mod m" using ne m pos_mod_sign [of m "t - x"] by linarith
    have sum: "(x - s) mod m + (t - x) mod m = (t - s) mod m"
      using mod_dist_diff [OF m, of x s t] I by simp
    have nx: "((x + 1) mod m - s) mod m = (x - s) mod m + 1"
    proof -
      have "((x + 1) mod m - s) mod m = ((x - s) mod m + 1) mod m" by (simp add: mod_simps algebra_simps)
      moreover have "(x - s) mod m + 1 < m \<or> (x - s) mod m + 1 \<le> (t - s) mod m" using sum pos by linarith
      ultimately show ?thesis using m pos_mod_bound [of m "t - s"] pos_mod_sign [of m "x - s"]
        by (smt (verit) mod_pos_pos_trivial)
    qed
    have xs: "(s + (x - s) mod m) mod m = x" using x by (simp add: mod_simps)
    have "P ((s + k) mod m)" if "0 \<le> k" "k < (x - s) mod m + 1" for k
    proof (cases "k = (x - s) mod m")
      case True
      then show ?thesis using xs b by simp
    qed (use that I in simp)
    moreover have "nat ((t - (x + 1) mod m) mod m) < nat ((t - x) mod m)"
      using mod_Suc_dist [OF m ne] pos by simp
    ultimately show ?thesis unfolding c nx using m sum pos by (simp add: rlc_sn_ok_def)
  qed
  have I0: "?I s" using s m by (auto simp: rlc_sn_ok_def)
  obtain r where w: "while_option (P) ?c s = Some r"
    using measure_while_option_Some [of ?I "P" ?c "\<lambda>x. nat ((t - x) mod m)", OF step I0] by blast
  have "?I r" by (rule while_option_rule [where P = ?I, OF _ w I0]) (use step in blast)
  moreover have "\<not> P r" using w by (rule while_option_stop)
  ultimately show ?thesis using w by blast
qed

lemma cyclic_search_none:
  assumes m: "0 < m" and s: "rlc_sn_ok m s" and all: "\<forall>t. rlc_sn_ok m t \<longrightarrow> P t"
  shows "while_option P (\<lambda>x. c_rem (x + 1) m) s = None"
proof (cases "while_option P (\<lambda>x. c_rem (x + 1) m) s")
  case (Some t)
  have "rlc_sn_ok m t"
    by (rule while_option_rule [where P = "rlc_sn_ok m", OF _ Some]) (use m s in \<open>simp_all add: rlc_sn_ok_def\<close>)
  with all while_option_stop [OF Some] show ?thesis by blast
qed

subsection \<open>Strings of bits\<close>

definition byte_bits :: "byte \<Rightarrow> bool list" where
  "byte_bits x = map (bit x) (rev [0..<8])"

definition bits_of :: "byte list \<Rightarrow> bool list" where
  "bits_of buf = concat (map byte_bits buf)"

definition num_bits :: "int \<Rightarrow> nat \<Rightarrow> bool list" where
  "num_bits v n = map (bit v) (rev [0..<n])"

definition bits_num :: "bool list \<Rightarrow> int" where
  "bits_num bs = foldl (\<lambda>v b. 2 * v + of_bool b) 0 bs"

lemma length_byte_bits [simp]: "length (byte_bits x) = 8"
  by (simp add: byte_bits_def)

lemma length_num_bits [simp]: "length (num_bits v n) = n"
  by (simp add: num_bits_def)

lemma bits_of_simps [simp]:
  "bits_of [] = []"
  "bits_of (x # xs) = byte_bits x @ bits_of xs"
  "bits_of (xs @ ys) = bits_of xs @ bits_of ys"
  by (simp_all add: bits_of_def)

lemma length_bits_of [simp]: "length (bits_of buf) = 8 * length buf"
  by (induction buf) simp_all

lemma byte_bits_nth: "i < 8 \<Longrightarrow> byte_bits x ! i = bit x (7 - i)"
  by (simp add: byte_bits_def rev_nth)

lemma byte_bits_inj: "byte_bits x = byte_bits y \<Longrightarrow> x = y"
proof (rule bit_word_eqI)
  fix n assume eq: "byte_bits x = byte_bits y" and "n < LENGTH(8)"
  then have n: "n < 8" by simp
  have "byte_bits x ! (7 - n) = byte_bits y ! (7 - n)" by (simp add: eq)
  with n show "bit x n = bit y n" by (simp add: byte_bits_nth)
qed

lemma bits_of_inj: "bits_of xs = bits_of ys \<Longrightarrow> xs = ys"
proof (induction xs arbitrary: ys)
  case Nil
  then show ?case by (cases ys) (auto dest: arg_cong [of _ _ length])
next
  case (Cons x xs)
  then show ?case
    by (cases ys) (auto dest: byte_bits_inj dest: arg_cong [of _ _ length] simp: append_eq_append_conv)
qed

lemma bits_of_nth: "i < 8 * length buf \<Longrightarrow> bits_of buf ! i = bit (buf ! (i div 8)) (7 - i mod 8)"
proof (induction buf arbitrary: i)
  case (Cons x buf)
  show ?case
  proof (cases "i < 8")
    case True
    then show ?thesis by (simp add: nth_append byte_bits_nth)
  next
    case False
    then have "i div 8 = Suc ((i - 8) div 8)" and "i mod 8 = (i - 8) mod 8"
      by (simp_all add: le_div_geq le_mod_geq)
    with False Cons show ?thesis by (simp add: nth_append)
  qed
qed simp

lemma bits_of_take: "bits_of (take k buf) = take (8 * k) (bits_of buf)"
proof (induction buf arbitrary: k)
  case (Cons x buf)
  then show ?case by (cases k) (simp_all add: take_Cons')
qed simp

lemma bits_num_snoc: "bits_num (bs @ [b]) = 2 * bits_num bs + of_bool b"
  by (simp add: bits_num_def)

lemma num_bits_Suc: "num_bits v (Suc n) = bit v n # num_bits v n"
  by (simp add: num_bits_def)

lemma foldl_bits: "foldl (\<lambda>v b. 2 * v + of_bool b) a bs = a * 2 ^ length bs + bits_num bs" for a :: int
proof (induction bs rule: rev_induct)
  case Nil
  show ?case by (simp add: bits_num_def)
next
  case (snoc b bs)
  then show ?case by (simp add: bits_num_snoc algebra_simps)
qed

lemma bits_num_Cons: "bits_num (b # bs) = of_bool b * 2 ^ length bs + bits_num bs"
  using foldl_bits [of "of_bool b" bs] by (simp add: bits_num_def [of "b # bs"])

lemma bits_num_num_bits: "bits_num (num_bits v n) = take_bit n v"
proof (induction n)
  case 0
  show ?case by (simp add: num_bits_def bits_num_def)
next
  case (Suc n)
  then show ?case by (simp add: num_bits_Suc bits_num_Cons take_bit_Suc_from_most)
qed

lemma bits_num_bounds: "0 \<le> bits_num bs \<and> bits_num bs < 2 ^ length bs"
  by (induction bs) (simp_all add: bits_num_Cons, simp add: bits_num_def)

subsection \<open>PDU decoder\<close>

record nr_rlc_pdu_decoder =
  dec_error :: bool
  dec_byte :: nat
  dec_bit :: nat
  dec_buffer :: "byte list"

definition nr_rlc_pdu_decoder_init :: "byte list \<Rightarrow> nr_rlc_pdu_decoder" where
  "nr_rlc_pdu_decoder_init buf = \<lparr>dec_error = False, dec_byte = 0, dec_bit = 0, dec_buffer = buf\<rparr>"

definition get_bit :: "nr_rlc_pdu_decoder \<Rightarrow> int \<times> nr_rlc_pdu_decoder" where
  "get_bit d =
     (if dec_byte d \<ge> length (dec_buffer d) then (0, d\<lparr>dec_error := True\<rparr>)
      else let ret = of_bool (bit (dec_buffer d ! dec_byte d) (7 - dec_bit d));
               d = d\<lparr>dec_bit := dec_bit d + 1\<rparr>;
               d = (if dec_bit d = 8 then d\<lparr>dec_bit := 0, dec_byte := dec_byte d + 1\<rparr> else d)
           in (ret, d))"

fun get_bits_loop :: "nat \<Rightarrow> int \<Rightarrow> nr_rlc_pdu_decoder \<Rightarrow> int \<times> nr_rlc_pdu_decoder" where
  "get_bits_loop 0 ret d = (ret, d)"
| "get_bits_loop (Suc n) ret d =
     (let ret = push_bit 1 ret; (b, d) = get_bit d; ret = ret OR b
      in if dec_error d then (- 1, d) else get_bits_loop n ret d)"

definition nr_rlc_pdu_decoder_get_bits :: "nr_rlc_pdu_decoder \<Rightarrow> nat \<Rightarrow> (int \<times> nr_rlc_pdu_decoder) c_result" where
  "nr_rlc_pdu_decoder_get_bits d count =
     c_bind (c_check ProcessExit (count \<le> 31)) (\<lambda>_. Inr (get_bits_loop count 0 d))"

text \<open>The position of a decoder in the string of bits, and the decoder at a position.\<close>

definition dec_pos :: "nr_rlc_pdu_decoder \<Rightarrow> nat" where
  "dec_pos d = 8 * dec_byte d + dec_bit d"

definition dec_at :: "byte list \<Rightarrow> nat \<Rightarrow> nr_rlc_pdu_decoder" where
  "dec_at buf p = \<lparr>dec_error = False, dec_byte = p div 8, dec_bit = p mod 8, dec_buffer = buf\<rparr>"

lemma dec_at_simps [simp]:
  "dec_error (dec_at buf p) = False" "dec_byte (dec_at buf p) = p div 8" "dec_bit (dec_at buf p) = p mod 8"
  "dec_buffer (dec_at buf p) = buf" "dec_pos (dec_at buf p) = p"
  by (simp_all add: dec_at_def dec_pos_def)

lemma decoder_init_at: "nr_rlc_pdu_decoder_init buf = dec_at buf 0"
  by (simp add: nr_rlc_pdu_decoder_init_def dec_at_def)

lemma get_bit_at:
  assumes "p < 8 * length buf"
  shows "get_bit (dec_at buf p) = (of_bool (bits_of buf ! p), dec_at buf (Suc p))"
proof -
  from assms have "p div 8 < length buf" by simp
  then show ?thesis
    using assms by (auto simp: get_bit_def Let_def bits_of_nth dec_at_def div_Suc mod_Suc)
qed

lemma get_bit_past: "8 * length buf \<le> p \<Longrightarrow> get_bit (dec_at buf p) = (0, (dec_at buf p)\<lparr>dec_error := True\<rparr>)"
  by (auto simp: get_bit_def)

lemma push_or_bit: "v * 2 OR of_bool b = 2 * v + of_bool b" for v :: int
  by (cases b) (simp_all add: or_one_eq mult.commute)

lemma get_bits_loop_at:
  "p + n \<le> 8 * length buf \<Longrightarrow>
   get_bits_loop n v (dec_at buf p) =
     (foldl (\<lambda>v b. 2 * v + of_bool b) v (take n (drop p (bits_of buf))), dec_at buf (p + n))"
proof (induction n arbitrary: v p)
  case (Suc n)
  then have "take (Suc n) (drop p (bits_of buf)) = bits_of buf ! p # take n (drop (Suc p) (bits_of buf))"
    by (metis Cons_nth_drop_Suc add_lessD1 length_bits_of less_add_Suc1 less_le_trans take_Suc_Cons add_Suc_right)
  with Suc show ?case by (simp only: get_bits_loop.simps get_bit_at) (simp add: push_or_bit del: of_bool_eq_iff)
qed simp

lemma get_bits_loop_past:
  "8 * length buf < p + n \<Longrightarrow> p \<le> 8 * length buf \<Longrightarrow>
   \<exists>d. get_bits_loop n v (dec_at buf p) = (- 1, d) \<and> dec_error d"
proof (induction n arbitrary: v p)
  case (Suc n)
  show ?case
  proof (cases "p < 8 * length buf")
    case True
    with Suc show ?thesis by (simp add: get_bit_at push_or_bit)
  next
    case False
    then show ?thesis by (simp add: get_bit_past)
  qed
qed simp

text \<open>The decoder reads the next bits as a number, or reports an error and returns -1.\<close>

lemma get_bits_at:
  assumes "p + n \<le> 8 * length buf" and "n \<le> 31"
  shows "nr_rlc_pdu_decoder_get_bits (dec_at buf p) n =
           Inr (bits_num (take n (drop p (bits_of buf))), dec_at buf (p + n))"
  using assms by (simp add: nr_rlc_pdu_decoder_get_bits_def get_bits_loop_at bits_num_def)

lemma get_bits_past:
  assumes "8 * length buf < p + n" and "p \<le> 8 * length buf" and "n \<le> 31"
  obtains d where "nr_rlc_pdu_decoder_get_bits (dec_at buf p) n = Inr (- 1, d)" and "dec_error d"
  using get_bits_loop_past [OF assms(1,2)] assms(3) by (auto simp: nr_rlc_pdu_decoder_get_bits_def)

text \<open>
  Reading with the check of the macro \<^verbatim>\<open>R\<close> of the entities: \<open>None\<close> is the jump to \<^verbatim>\<open>err\<close>.
\<close>

definition decode_bits :: "nr_rlc_pdu_decoder \<Rightarrow> int \<Rightarrow> (int \<Rightarrow> nr_rlc_pdu_decoder \<Rightarrow> 'a option c_result) \<Rightarrow> 'a option c_result" where
  "decode_bits d n f =
     c_bind (nr_rlc_pdu_decoder_get_bits d (nat n)) (\<lambda>(v, d). if dec_error d then Inr None else f v d)"

lemma decode_bits_at:
  assumes "p \<le> 8 * length buf" and "n \<le> 31"
  shows "decode_bits (dec_at buf p) (int n) f =
     (if p + n \<le> 8 * length buf then f (bits_num (take n (drop p (bits_of buf)))) (dec_at buf (p + n)) else Inr None)"
proof (cases "p + n \<le> 8 * length buf")
  case True
  with assms show ?thesis by (simp add: decode_bits_def get_bits_at)
next
  case False
  with assms obtain d where "nr_rlc_pdu_decoder_get_bits (dec_at buf p) n = Inr (- 1, d)" and "dec_error d"
    by (metis get_bits_past not_le)
  with False show ?thesis by (simp add: decode_bits_def)
qed

lemma bits_num_take_bounds: "0 \<le> bits_num (take n bs) \<and> bits_num (take n bs) < 2 ^ n"
proof -
  have "bits_num (take n bs) < 2 ^ length (take n bs)" using bits_num_bounds by blast
  also have "(2 :: int) ^ length (take n bs) \<le> 2 ^ n" by (intro power_increasing) simp_all
  finally show ?thesis using bits_num_bounds by blast
qed

lemma take_app: "length xs = n \<Longrightarrow> take n (xs @ ys) = xs" and drop_app: "length xs = n \<Longrightarrow> drop n (xs @ ys) = ys"
  by simp_all

lemma bits_num_flags: "bits_num [\<not> f, \<not> l] = of_bool (\<not> f) * 2 + of_bool (\<not> l)"
  by (simp add: bits_num_def)

lemma flags_and:
  "((of_bool (\<not> f) * 2 + of_bool (\<not> l) :: int) AND 2 = 0) = f"
  "((of_bool (\<not> f) * 2 + of_bool (\<not> l) :: int) AND 1 = 0) = l"
  by (cases f; cases l; simp)+

subsection \<open>PDU encoder\<close>

record nr_rlc_pdu_encoder =
  enc_byte :: nat
  enc_bit :: nat
  enc_buffer :: "byte list"

definition nr_rlc_pdu_encoder_init :: "byte list \<Rightarrow> nr_rlc_pdu_encoder" where
  "nr_rlc_pdu_encoder_init buf = \<lparr>enc_byte = 0, enc_bit = 0, enc_buffer = buf\<rparr>"

definition put_bit :: "nr_rlc_pdu_encoder \<Rightarrow> bool \<Rightarrow> nr_rlc_pdu_encoder c_result" where
  "put_bit e b =
     c_bind (c_check ProcessExit (enc_byte e \<noteq> length (enc_buffer e))) (\<lambda>_.
     c_bind (rd (enc_buffer e) (enc_byte e)) (\<lambda>x.
     let x = push_bit 1 x; x = (if b then x OR 1 else x);
         e = e\<lparr>enc_buffer := (enc_buffer e)[enc_byte e := x], enc_bit := enc_bit e + 1\<rparr>
     in Inr (if enc_bit e = 8 then e\<lparr>enc_bit := 0, enc_byte := enc_byte e + 1\<rparr> else e)))"

fun put_bits_list :: "nr_rlc_pdu_encoder \<Rightarrow> bool list \<Rightarrow> nr_rlc_pdu_encoder c_result" where
  "put_bits_list e [] = Inr e"
| "put_bits_list e (b # bs) = c_bind (put_bit e b) (\<lambda>e. put_bits_list e bs)"

text \<open>The loop tests \<open>value & x\<close> for \<open>x = 1 << (count - 1)\<close> down to 1: the bits \<open>num_bits value count\<close>.\<close>

definition nr_rlc_pdu_encoder_put_bits :: "nr_rlc_pdu_encoder \<Rightarrow> int \<Rightarrow> nat \<Rightarrow> nr_rlc_pdu_encoder c_result" where
  "nr_rlc_pdu_encoder_put_bits e value count =
     c_bind (c_check ProcessExit (count \<le> 31)) (\<lambda>_. put_bits_list e (num_bits value count))"

text \<open>
  What an encoder holds: \<open>ws\<close> are the bits written so far. The full bytes hold them; the byte that is
  being filled holds the rest in its low bits. The bytes behind are those of the buffer before.
\<close>

definition enc_holds :: "byte list \<Rightarrow> bool list \<Rightarrow> nr_rlc_pdu_encoder \<Rightarrow> bool" where
  "enc_holds buf ws e \<longleftrightarrow>
     length (enc_buffer e) = length buf \<and> length ws = 8 * enc_byte e + enc_bit e \<and> enc_bit e < 8 \<and>
     enc_byte e \<le> length buf \<and> (enc_byte e = length buf \<longrightarrow> enc_bit e = 0) \<and>
     bits_of (take (enc_byte e) (enc_buffer e)) = take (8 * enc_byte e) ws \<and>
     (\<forall>i < enc_bit e. bit (enc_buffer e ! enc_byte e) i = ws ! (length ws - 1 - i)) \<and>
     drop (enc_byte e + of_bool (0 < enc_bit e)) (enc_buffer e) =
       drop (enc_byte e + of_bool (0 < enc_bit e)) buf"

lemma enc_holds_init: "enc_holds buf [] (nr_rlc_pdu_encoder_init buf)"
  by (simp add: enc_holds_def nr_rlc_pdu_encoder_init_def)

lemma bit_put: "bit (if b then push_bit 1 x OR 1 else push_bit 1 x) i \<longleftrightarrow>
    (i < 8 \<and> (if i = 0 then b else bit x (i - 1)))" for x :: byte
  using bit_double_iff [of x i]
  by (auto simp: bit_simps mult.commute [of x 2] dest: bit_imp_le_length)

lemma put_bit_holds:
  assumes h: "enc_holds buf ws e" and room: "length ws < 8 * length buf"
  obtains e' where "put_bit e b = Inr e'" and "enc_holds buf (ws @ [b]) e'"
proof -
  define k j x where "k = enc_byte e" and "j = enc_bit e" and "x = enc_buffer e ! k"
  define y where "y = (if b then push_bit 1 x OR 1 else push_bit 1 x)"
  define e1 where "e1 = e\<lparr>enc_buffer := (enc_buffer e)[k := y], enc_bit := j + 1\<rparr>"
  define e' where "e' = (if j + 1 = 8 then e1\<lparr>enc_bit := 0, enc_byte := k + 1\<rparr> else e1)"
  have k: "k < length buf" and j: "j < 8" and len: "length ws = 8 * k + j"
    and lb: "length (enc_buffer e) = length buf"
    using h room by (auto simp: enc_holds_def k_def j_def)
  have low: "\<forall>i < j. bit x i = ws ! (length ws - 1 - i)"
    and full: "bits_of (take k (enc_buffer e)) = take (8 * k) ws"
    and tl: "drop (k + of_bool (0 < j)) (enc_buffer e) = drop (k + of_bool (0 < j)) buf"
    using h by (auto simp: enc_holds_def k_def j_def x_def)
  have rest: "drop (Suc k) (enc_buffer e) = drop (Suc k) buf"
    using arg_cong [OF tl, of "drop (1 - of_bool (0 < j))"] by (cases "0 < j") simp_all
  have y: "bit y i \<longleftrightarrow> i < 8 \<and> (if i = 0 then b else bit x (i - 1))" for i
    unfolding y_def by (rule bit_put)
  have low': "bit y i = (ws @ [b]) ! (length (ws @ [b]) - 1 - i)" if "i < Suc j" for i
    using that j low len by (cases i) (auto simp: y nth_append)
  have "put_bit e b = Inr e'"
    using k lb by (simp add: put_bit_def Let_def e'_def e1_def y_def x_def k_def j_def)
  moreover have "enc_holds buf (ws @ [b]) e'"
  proof (cases "j + 1 = 8")
    case False
    with j k len lb full rest low' show ?thesis
      by (simp add: enc_holds_def e'_def e1_def k_def [symmetric])
  next
    case True
    have "byte_bits y = drop (8 * k) ws @ [b]"
    proof (rule nth_equalityI)
      fix i assume "i < length (byte_bits y)"
      then have i: "i < 8" by simp
      then have "byte_bits y ! i = (ws @ [b]) ! (length (ws @ [b]) - 1 - (7 - i))"
        using low' [of "7 - i"] True by (simp add: byte_bits_nth)
      with i True len show "byte_bits y ! i = (drop (8 * k) ws @ [b]) ! i"
        by (auto simp: nth_append)
    qed (use True len in simp)
    moreover have "take (Suc k) ((enc_buffer e)[k := y]) = take k (enc_buffer e) @ [y]"
      using k lb by (simp add: take_Suc_conv_app_nth)
    ultimately show ?thesis
      using k lb len full rest True
      by (simp add: enc_holds_def e'_def e1_def)
  qed
  ultimately show thesis by (rule that)
qed

lemma put_bits_list_holds:
  assumes "enc_holds buf ws e" and "length ws + length bs \<le> 8 * length buf"
  obtains e' where "put_bits_list e bs = Inr e'" and "enc_holds buf (ws @ bs) e'"
proof -
  have "\<exists>e'. put_bits_list e bs = Inr e' \<and> enc_holds buf (ws @ bs) e'" using assms
  proof (induction bs arbitrary: ws e)
    case (Cons b bs)
    then have room: "length ws < 8 * length buf" by simp
    obtain e1 where "put_bit e b = Inr e1" and "enc_holds buf (ws @ [b]) e1"
      by (rule put_bit_holds [OF Cons.prems(1) room])
    with Cons.IH [of "ws @ [b]" e1] Cons.prems show ?case by simp
  qed simp
  with that show thesis by blast
qed

lemma put_bits_holds:
  assumes "enc_holds buf ws e" and "length ws + n \<le> 8 * length buf" and "n \<le> 31"
  obtains e' where "nr_rlc_pdu_encoder_put_bits e v n = Inr e'" and "enc_holds buf (ws @ num_bits v n) e'"
  using put_bits_list_holds [OF assms(1), of "num_bits v n"] assms(2,3)
  by (auto simp: nr_rlc_pdu_encoder_put_bits_def)

text \<open>At a byte boundary the buffer is exactly the written bits, then the old bytes.\<close>

lemma enc_holds_aligned:
  assumes "enc_holds buf ws e" and "length ws = 8 * n"
  shows "enc_byte e = n" "enc_bit e = 0" "n \<le> length buf" "length (enc_buffer e) = length buf"
    "bits_of (take n (enc_buffer e)) = ws" "drop n (enc_buffer e) = drop n buf"
proof -
  from assms have "8 * enc_byte e + enc_bit e = 8 * n" and "enc_bit e < 8" by (simp_all add: enc_holds_def)
  then show "enc_byte e = n" "enc_bit e = 0" by presburger+
  with assms show "n \<le> length buf" "length (enc_buffer e) = length buf"
    "bits_of (take n (enc_buffer e)) = ws" "drop n (enc_buffer e) = drop n buf"
    by (auto simp: enc_holds_def)
qed

lemma num_bits_flag: "num_bits (1 - of_bool b) 1 = [\<not> b]"
  by (cases b) (simp_all add: num_bits_def)

text \<open>A sequence of fields, each a value and a number of bits.\<close>

fun put_fields :: "nr_rlc_pdu_encoder \<Rightarrow> (int \<times> nat) list \<Rightarrow> nr_rlc_pdu_encoder c_result" where
  "put_fields e [] = Inr e"
| "put_fields e ((v, n) # fs) = c_bind (nr_rlc_pdu_encoder_put_bits e v n) (\<lambda>e. put_fields e fs)"

lemma put_fields_append: "put_fields e (fs @ gs) = c_bind (put_fields e fs) (\<lambda>e. put_fields e gs)"
  by (induction e fs rule: put_fields.induct) (simp_all add: c_bind_assoc cong: c_bind_cong)

definition field_bits :: "(int \<times> nat) list \<Rightarrow> bool list" where
  "field_bits fs = concat (map (\<lambda>(v, n). num_bits v n) fs)"

lemma field_bits_simps [simp]:
  "field_bits [] = []" "field_bits ((v, n) # fs) = num_bits v n @ field_bits fs"
  "field_bits (fs @ gs) = field_bits fs @ field_bits gs"
  by (simp_all add: field_bits_def)

lemma put_fields_holds:
  assumes "enc_holds buf ws e" and "length ws + length (field_bits fs) \<le> 8 * length buf" and "\<forall>(v, n) \<in> set fs. n \<le> 31"
  obtains e' where "put_fields e fs = Inr e'" and "enc_holds buf (ws @ field_bits fs) e'"
proof -
  have "\<exists>e'. put_fields e fs = Inr e' \<and> enc_holds buf (ws @ field_bits fs) e'" using assms
  proof (induction fs arbitrary: ws e)
    case (Cons f fs)
    obtain v n where f: "f = (v, n)" by (cases f)
    have room: "length ws + n \<le> 8 * length buf" and n: "n \<le> 31" using Cons.prems f by auto
    obtain e1 where e1: "nr_rlc_pdu_encoder_put_bits e v n = Inr e1" "enc_holds buf (ws @ num_bits v n) e1"
      by (rule put_bits_holds [OF Cons.prems(1) room n])
    with Cons.IH [OF e1(2)] Cons.prems f show ?case by auto
  qed simp
  with that show thesis by blast
qed

end
