(* ===== verification/Time_Stat.thy ===== *)
theory Time_Stat
  imports L2_Prelude
begin

text \<open>
  The sliding average of \<^verbatim>\<open>common/utils/time_stat.c\<close>, which the RLC entities use for the time an SDU
  waits: a ring of dated values that forgets the values older than \<^verbatim>\<open>duration\<close> and doubles when it is
  full. It is shown to be a queue: adding drops the old values at the front and appends the new one,
  also when the ring grows, and \<^verbatim>\<open>accumulated_value\<close> is the sum of the values of the queue.

  The cells that \<^verbatim>\<open>calloc\<close> and \<^verbatim>\<open>realloc\<close> give are written as zero here; no operation reads one
  before it is written.
\<close>

type_synonym time_value = "u64 \<times> u64"   \<comment> \<open>\<^verbatim>\<open>time\<close>, \<^verbatim>\<open>value\<close>, in microseconds\<close>

record time_average =
  ta_duration :: u64
  ta_head :: int
  ta_tail :: nat
  ta_buffer :: "time_value list"
  ta_maxsize :: nat
  ta_size :: nat
  ta_accumulated_value :: u64

definition time_average_new :: "u64 \<Rightarrow> nat \<Rightarrow> time_average c_result" where
  "time_average_new duration initial_size =
     c_bind (c_check ProcessExit (int initial_size AND (int initial_size - 1) = 0)) (\<lambda>_.
     Inr \<lparr>ta_duration = duration, ta_head = int initial_size - 1, ta_tail = 0,
          ta_buffer = replicate initial_size (0, 0), ta_maxsize = initial_size, ta_size = 0,
          ta_accumulated_value = 0\<rparr>)"

definition time_average_reset :: "time_average \<Rightarrow> time_average" where
  "time_average_reset t =
     t\<lparr>ta_head := int (ta_maxsize t) - 1, ta_tail := 0, ta_size := 0, ta_accumulated_value := 0\<rparr>"

function remove_old :: "time_average \<Rightarrow> u64 \<Rightarrow> time_average" where
  "remove_old t now =
     (if ta_size t \<noteq> 0 \<and> fst (ta_buffer t ! ta_tail t) < now - ta_duration t
      then remove_old
             (t\<lparr>ta_accumulated_value := ta_accumulated_value t - snd (ta_buffer t ! ta_tail t),
                ta_size := ta_size t - 1, ta_tail := (ta_tail t + 1) mod ta_maxsize t\<rparr>) now
      else t)"
  by pat_completeness auto
termination by (relation "measure (\<lambda>(t, _). ta_size t)") auto

declare remove_old.simps [simp del]

definition time_average_grow :: "time_average \<Rightarrow> time_average" where
  "time_average_grow t =
     (let sz = ta_size t; buf = ta_buffer t @ replicate sz (0, 0); n = nat (ta_head t + 1)
      in if ta_head t < int (ta_tail t)
         then t\<lparr>ta_maxsize := 2 * sz, ta_buffer := take sz buf @ take n buf @ drop (sz + n) buf,
                ta_head := ta_head t + int sz\<rparr>
         else t\<lparr>ta_maxsize := 2 * sz, ta_buffer := buf\<rparr>)"

definition time_average_add :: "time_average \<Rightarrow> u64 \<Rightarrow> u64 \<Rightarrow> time_average" where
  "time_average_add t now v =
     (let t = remove_old t now;
          t = (if ta_size t = ta_maxsize t then time_average_grow t else t);
          h = c_rem (ta_head t + 1) (int (ta_maxsize t))
      in t\<lparr>ta_head := h, ta_buffer := (ta_buffer t)[nat h := (now, v)], ta_size := ta_size t + 1,
           ta_accumulated_value := ta_accumulated_value t + v\<rparr>)"

text \<open>The average as numerator and denominator: the code divides them in floating point.\<close>

definition time_average_get_average :: "time_average \<Rightarrow> u64 \<Rightarrow> (u64 \<times> nat) \<times> time_average" where
  "time_average_get_average t now =
     (let t = remove_old t now
      in if ta_size t = 0 then ((0, 1), t) else ((ta_accumulated_value t, ta_size t), t))"

subsection \<open>The ring is a queue\<close>

definition ta_items :: "time_average \<Rightarrow> time_value list" where
  "ta_items t = map (\<lambda>i. ta_buffer t ! ((ta_tail t + i) mod ta_maxsize t)) [0..<ta_size t]"

definition ta_ok :: "time_average \<Rightarrow> bool" where
  "ta_ok t \<longleftrightarrow>
     0 < ta_maxsize t \<and> length (ta_buffer t) = ta_maxsize t \<and> ta_size t \<le> ta_maxsize t \<and>
     ta_tail t < ta_maxsize t \<and>
     ta_head t = int ((ta_tail t + ta_size t + ta_maxsize t - 1) mod ta_maxsize t) \<and>
     ta_accumulated_value t = sum_list (map snd (ta_items t))"

definition ta_fresh :: "u64 \<Rightarrow> u64 \<Rightarrow> time_value list \<Rightarrow> time_value list" where
  "ta_fresh duration now = dropWhile (\<lambda>(tm, _). tm < now - duration)"

lemma time_average_new_ok:
  "time_average_new duration (2 ^ k) = Inr t \<Longrightarrow> ta_ok t \<and> ta_items t = [] \<and> ta_duration t = duration"
  by (auto simp: time_average_new_def c_bind_eq_Inr_conv ta_ok_def ta_items_def of_nat_diff c_check_def
      split: if_splits)

lemma ta_items_Cons:
  assumes "ta_ok t" "ta_size t = Suc n"
  shows "ta_items t = ta_buffer t ! ta_tail t #
    ta_items (t\<lparr>ta_accumulated_value := a, ta_size := n, ta_tail := (ta_tail t + 1) mod ta_maxsize t\<rparr>)"
proof -
  have "[0..<Suc n] = 0 # map Suc [0..<n]" by (simp add: map_Suc_upt upt_conv_Cons)
  with assms show ?thesis
    by (simp add: ta_items_def ta_ok_def mod_add_left_eq mod_simps del: upt_Suc)
qed

lemma remove_old_queue:
  "ta_ok t \<Longrightarrow> ta_ok (remove_old t now) \<and> ta_duration (remove_old t now) = ta_duration t \<and>
     ta_items (remove_old t now) = ta_fresh (ta_duration t) now (ta_items t)"
proof (induction t now rule: remove_old.induct)
  case (1 t now)
  show ?case
  proof (cases "ta_size t")
    case 0
    then show ?thesis using 1 by (subst remove_old.simps, subst remove_old.simps, subst remove_old.simps)
        (simp add: ta_items_def ta_fresh_def)
  next
    case (Suc n)
    define t1 where "t1 = t\<lparr>ta_accumulated_value := ta_accumulated_value t - snd (ta_buffer t ! ta_tail t),
      ta_size := n, ta_tail := (ta_tail t + 1) mod ta_maxsize t\<rparr>"
    have items: "ta_items t = ta_buffer t ! ta_tail t # ta_items t1"
      unfolding t1_def using "1.prems" Suc by (rule ta_items_Cons)
    show ?thesis
    proof (cases "fst (ta_buffer t ! ta_tail t) < now - ta_duration t")
      case True
      have acc: "ta_accumulated_value t1 = sum_list (map snd (ta_items t1))"
      proof -
        have "ta_accumulated_value t = snd (ta_buffer t ! ta_tail t) + sum_list (map snd (ta_items t1))"
          using "1.prems" items by (simp add: ta_ok_def)
        moreover have "ta_accumulated_value t1 = ta_accumulated_value t - snd (ta_buffer t ! ta_tail t)"
          by (simp add: t1_def)
        ultimately show ?thesis by simp
      qed
      have "((ta_tail t + 1) mod ta_maxsize t + n + ta_maxsize t - 1) mod ta_maxsize t =
            (ta_tail t + Suc n + ta_maxsize t - 1) mod ta_maxsize t"
      proof (cases "Suc (ta_tail t) = ta_maxsize t")
        case True
        then show ?thesis
          using mod_add_self2 [of "n + ta_tail t" "Suc (ta_tail t)"] by (simp add: add_ac flip: True)
      qed (use "1.prems" in \<open>simp add: ta_ok_def\<close>)
      with "1.prems" Suc acc have ok: "ta_ok t1" by (simp add: ta_ok_def t1_def)
      have "remove_old t now = remove_old t1 now"
        using True Suc by (subst remove_old.simps) (simp add: t1_def)
      moreover have "ta_ok (remove_old t1 now) \<and> ta_duration (remove_old t1 now) = ta_duration t1 \<and>
          ta_items (remove_old t1 now) = ta_fresh (ta_duration t1) now (ta_items t1)"
        using "1.IH" True Suc ok by (simp add: t1_def)
      ultimately show ?thesis using True by (simp add: items ta_fresh_def split_beta t1_def)
    next
      case False
      then have "remove_old t now = t" by (subst remove_old.simps) simp
      with False "1.prems" show ?thesis by (simp add: items ta_fresh_def split_beta)
    qed
  qed
qed

lemma ta_items_nth:
  "i < ta_size t \<Longrightarrow> ta_items t ! i = ta_buffer t ! ((ta_tail t + i) mod ta_maxsize t)"
  by (simp add: ta_items_def)

lemma length_ta_items [simp]: "length (ta_items t) = ta_size t"
  by (simp add: ta_items_def)

lemma time_average_grow_frame:
  "ta_size (time_average_grow t) = ta_size t" "ta_tail (time_average_grow t) = ta_tail t"
  "ta_duration (time_average_grow t) = ta_duration t"
  "ta_accumulated_value (time_average_grow t) = ta_accumulated_value t"
  "ta_maxsize (time_average_grow t) = 2 * ta_size t"
  by (simp_all add: time_average_grow_def Let_def)

lemma time_average_grow_buffer:
  assumes "ta_ok t" "ta_size t = ta_maxsize t"
  shows "ta_buffer (time_average_grow t) =
           ta_buffer t @ take (ta_tail t) (ta_buffer t) @ replicate (ta_size t - ta_tail t) (0, 0)"
    and "ta_head (time_average_grow t) = int (ta_tail t + ta_size t - 1)"
proof -
  have len: "length (ta_buffer t) = ta_size t" "ta_tail t < ta_size t"
    using assms by (simp_all add: ta_ok_def)
  have "(ta_tail t + ta_size t + ta_size t - 1) mod ta_size t = (if ta_tail t = 0 then ta_size t - 1 else ta_tail t - 1)"
  proof (cases "ta_tail t")
    case 0
    with len show ?thesis by (simp add: mod_if)
  next
    case (Suc k)
    have "(Suc k + ta_size t + ta_size t - 1) mod ta_size t = k mod ta_size t" by simp
    with len Suc show ?thesis by simp
  qed
  then have head: "ta_head t = int (if ta_tail t = 0 then ta_size t - 1 else ta_tail t - 1)"
    using assms by (simp add: ta_ok_def)
  show "ta_buffer (time_average_grow t) =
          ta_buffer t @ take (ta_tail t) (ta_buffer t) @ replicate (ta_size t - ta_tail t) (0, 0)"
    and "ta_head (time_average_grow t) = int (ta_tail t + ta_size t - 1)"
    using head len by (auto simp: time_average_grow_def Let_def of_nat_diff)
qed

lemma time_average_grow_queue:
  assumes ok: "ta_ok t" and full: "ta_size t = ta_maxsize t"
  shows "ta_ok (time_average_grow t) \<and> ta_items (time_average_grow t) = ta_items t"
proof -
  let ?g = "time_average_grow t"
  have len: "length (ta_buffer t) = ta_size t" "ta_tail t < ta_size t" using assms by (simp_all add: ta_ok_def)
  have items: "ta_items ?g = ta_items t"
  proof (rule nth_equalityI)
    fix i assume "i < length (ta_items ?g)"
    then have i: "i < ta_size t" by (simp add: time_average_grow_frame)
    then have "ta_items ?g ! i = ta_buffer ?g ! (ta_tail t + i)"
      using len by (simp add: ta_items_nth time_average_grow_frame)
    also have "\<dots> = ta_buffer t ! ((ta_tail t + i) mod ta_size t)"
    proof (cases "ta_tail t + i < ta_size t")
      case False
      then have "ta_tail t + i - ta_size t < ta_tail t" using i len by simp
      with False i len show ?thesis
        by (simp add: time_average_grow_buffer [OF ok full] nth_append mod_if)
    qed (use len in \<open>simp add: time_average_grow_buffer [OF ok full] nth_append\<close>)
    finally show "ta_items ?g ! i = ta_items t ! i" using i full by (simp add: ta_items_nth)
  qed (simp add: time_average_grow_frame)
  have "(ta_tail t + ta_size t + 2 * ta_size t - 1) mod (2 * ta_size t) = ta_tail t + ta_size t - 1"
    using len by (simp add: mod_if add.commute)
  with ok full items show ?thesis
    by (simp add: ta_ok_def time_average_grow_frame time_average_grow_buffer [OF ok full] del: One_nat_def)
qed

text \<open>Adding to a ring that has room.\<close>

lemma time_average_push_queue:
  assumes ok: "ta_ok t" and room: "ta_size t < ta_maxsize t" and h: "h = c_rem (ta_head t + 1) (int (ta_maxsize t))"
    and t': "t' = t\<lparr>ta_head := h, ta_buffer := (ta_buffer t)[nat h := x], ta_size := ta_size t + 1,
                  ta_accumulated_value := ta_accumulated_value t + snd x\<rparr>"
  shows "ta_ok t' \<and> ta_items t' = ta_items t @ [x]"
proof -
  let ?m = "ta_maxsize t" and ?p = "(ta_tail t + ta_size t) mod ta_maxsize t"
  have m: "0 < ?m" "length (ta_buffer t) = ?m" using ok by (simp_all add: ta_ok_def)
  have "h = int (Suc ((ta_tail t + ta_size t + ?m - 1) mod ?m) mod ?m)"
    using ok m by (simp add: h ta_ok_def zmod_int add.commute)
  also have "Suc ((ta_tail t + ta_size t + ?m - 1) mod ?m) mod ?m = ?p"
    using m by (simp add: mod_Suc_eq)
  finally have h': "h = int ?p" .
  have ne: "?p \<noteq> (ta_tail t + i) mod ?m" if "i < ta_size t" for i
  proof
    assume "?p = (ta_tail t + i) mod ?m"
    then have "?m dvd (ta_tail t + ta_size t) - (ta_tail t + i)"
      using that by (simp only: mod_eq_dvd_iff_nat [symmetric] add_le_cancel_left less_imp_le)
    with that room show False by (auto dest: dvd_imp_le)
  qed
  have items: "ta_items t' = ta_items t @ [x]"
    using ne m by (auto simp: t' ta_items_def h' intro!: nth_list_update_neq)
  have "(ta_tail t + (ta_size t + 1) + ?m - 1) mod ?m = ?p" by simp
  with ok room items m show ?thesis by (simp add: ta_ok_def t' h' add_ac)
qed

theorem time_average_add_queue:
  assumes "ta_ok t"
  shows "ta_ok (time_average_add t now v) \<and>
         ta_items (time_average_add t now v) = ta_fresh (ta_duration t) now (ta_items t) @ [(now, v)]"
proof -
  define t1 where "t1 = remove_old t now"
  define t2 where "t2 = (if ta_size t1 = ta_maxsize t1 then time_average_grow t1 else t1)"
  note r = remove_old_queue [OF assms, of now, folded t1_def]
  have ok2: "ta_ok t2" "ta_items t2 = ta_items t1"
    using r time_average_grow_queue [of t1] by (auto simp: t2_def)
  have "0 < ta_maxsize t1" using r by (simp add: ta_ok_def)
  then have "ta_size t2 < ta_maxsize t2"
    using r by (auto simp: t2_def time_average_grow_frame ta_ok_def)
  note p = time_average_push_queue [OF ok2(1) this refl refl, of "(now, v)"]
  then show ?thesis
    using r ok2 by (simp add: time_average_add_def Let_def t2_def [symmetric] t1_def [symmetric])
qed

subsection \<open>What the average is the average of\<close>

definition ta_run :: "time_average \<Rightarrow> time_value list \<Rightarrow> time_average" where
  "ta_run t xs = foldl (\<lambda>t (now, v). time_average_add t now v) t xs"

lemma fresh_sorted:
  "sorted (map fst xs) \<Longrightarrow> ta_fresh d now xs = filter (\<lambda>(tm, _). now - d \<le> tm) xs"
proof (induction xs)
  case (Cons x xs)
  show ?case
  proof (cases "fst x < now - d")
    case False
    with Cons.prems have "\<forall>y \<in> set xs. now - d \<le> fst y" by auto
    with False show ?thesis by (auto simp: ta_fresh_def split_beta intro!: filter_True [symmetric])
  qed (use Cons in \<open>auto simp: ta_fresh_def split_beta\<close>)
qed (simp add: ta_fresh_def)

lemma minus_mono: "d \<le> a \<Longrightarrow> a \<le> b \<Longrightarrow> a - d \<le> b - d" for a b d :: u64
  by (simp add: word_le_nat_alt unat_sub)

lemma ta_add_duration: "ta_ok t \<Longrightarrow> ta_duration (time_average_add t now v) = ta_duration t"
  using remove_old_queue [of t now]
  by (simp add: time_average_add_def Let_def time_average_grow_frame)

lemma ta_run_queue:
  assumes "ta_ok t" "ta_items t = []"
    and "sorted (map fst xs @ [now])" and "\<forall>x \<in> set xs. ta_duration t \<le> fst x"
  shows "ta_ok (ta_run t xs) \<and> ta_duration (ta_run t xs) = ta_duration t \<and>
         ta_fresh (ta_duration t) now (ta_items (ta_run t xs)) =
           filter (\<lambda>(tm, _). now - ta_duration t \<le> tm) xs"
  using assms(3,4)
proof (induction xs arbitrary: now rule: rev_induct)
  case Nil
  with assms show ?case by (simp add: ta_run_def ta_fresh_def)
next
  case (snoc x xs)
  obtain tm v where x: "x = (tm, v)" by fastforce
  let ?d = "ta_duration t" and ?t = "ta_run t xs"
  have run: "ta_run t (xs @ [x]) = time_average_add ?t tm v" by (simp add: ta_run_def x)
  from snoc.prems have "sorted (map fst xs @ [tm])" and le: "tm \<le> now" "?d \<le> tm"
    by (auto simp: sorted_append x)
  note ih = snoc.IH [OF this(1)] and srt = this(1)
  with snoc.prems have ok: "ta_ok ?t" "ta_duration ?t = ?d"
    and fr: "ta_fresh ?d tm (ta_items ?t) = filter (\<lambda>(s, _). tm - ?d \<le> s) xs" by auto
  have items: "ta_items (ta_run t (xs @ [x])) = filter (\<lambda>(s, _). tm - ?d \<le> s) xs @ [x]"
    unfolding run using time_average_add_queue [OF ok(1)] ok(2) fr by (simp add: x)
  have "sorted (map fst (filter (\<lambda>(s, _). tm - ?d \<le> s) xs @ [x]))"
    using srt sorted_filter [of fst xs] by (auto simp: sorted_append x)
  then have "ta_fresh ?d now (ta_items (ta_run t (xs @ [x]))) =
      filter (\<lambda>(s, _). now - ?d \<le> s) (filter (\<lambda>(s, _). tm - ?d \<le> s) xs @ [x])"
    unfolding items by (rule fresh_sorted)
  also have "\<dots> = filter (\<lambda>(s, _). now - ?d \<le> s) (xs @ [x])"
    using minus_mono [OF le(2,1)] by (auto intro!: filter_cong)
  finally show ?case
    using time_average_add_queue [OF ok(1)] ta_add_duration [OF ok(1)] ok(2) by (simp add: run)
qed

text \<open>C35: for values that are added in the order of their times, none of them later than now and none earlier than the
  duration (the times are those of a clock that does not go back), the average that RLC reports is the quotient of the sum
  and the number of exactly those values whose time is within the duration before now, however often the ring had to wrap
  or grow.
\<close>

theorem time_average_is_window_average:
  assumes "time_average_new duration (2 ^ k) = Inr t"
    and "sorted (map fst xs @ [now])" and "\<forall>x \<in> set xs. duration \<le> fst x"
    and "ws = filter (\<lambda>(tm, _). now - duration \<le> tm) xs"
  shows "fst (time_average_get_average (ta_run t xs) now) =
           (if ws = [] then (0, 1) else (sum_list (map snd ws), length ws))"
proof -
  from time_average_new_ok [OF assms(1)] have t: "ta_ok t" "ta_items t = []" "ta_duration t = duration" by auto
  let ?r = "remove_old (ta_run t xs) now"
  from ta_run_queue [OF t(1,2) assms(2)] assms(3,4) t(3)
  have run: "ta_ok (ta_run t xs)" "ta_duration (ta_run t xs) = duration"
    "ta_fresh duration now (ta_items (ta_run t xs)) = ws" by auto
  from remove_old_queue [OF run(1), of now] run have "ta_ok ?r" "ta_items ?r = ws" by auto
  then have "ta_accumulated_value ?r = sum_list (map snd ws)" "ta_size ?r = length ws"
    by (auto simp: ta_ok_def simp flip: length_ta_items)
  then show ?thesis by (simp add: time_average_get_average_def Let_def)
qed

lemma time_average_is_window_average_witness:
  "fst (time_average_get_average
         (ta_run (projr (time_average_new 100 (2 ^ 1))) [(150, 7), (200, 1), (210, 2), (220, 6)]) 300) = (9, 3)"
proof -
  have "sorted (map fst [(150, 7), (200, 1), (210, 2), (220, 6 :: u64)] @ [300 :: u64])" by simp
  moreover have "time_average_new 100 (2 ^ 1) = Inr (projr (time_average_new 100 (2 ^ 1)))" by code_simp
  ultimately show ?thesis
    by (subst time_average_is_window_average [OF _ _ _ refl]) (assumption | simp)+
qed

end
