(* ===== verification/Rlc_Sdu.thy ===== *)
theory Rlc_Sdu
  imports L2_Prelude Time_Stat
begin

text \<open>
  SDUs waiting for transmission (\<^verbatim>\<open>nr_rlc_sdu.c\<close>) and what the three kinds of RLC entity share
  (\<^verbatim>\<open>nr_rlc_entity.h\<close>): the statistics, the buffer status and the average of the waiting time.

  Segments of one SDU point to one \<^verbatim>\<open>nr_rlc_sdu_t\<close>. A segment of the model holds a copy of it; where
  the code changes it through one segment while another is alive, the model changes both.
\<close>

definition NR_SDU_MAX :: int where
  "NR_SDU_MAX = 16000"

record nr_rlc_sdu =
  sdu_sn :: int
  sdu_upper_layer_id :: int
  sdu_data :: "byte list"
  sdu_size :: int
  sdu_retx_count :: int
  sdu_ref_count :: int
  sdu_free_count :: int
  sdu_time_of_arrival :: u64

record nr_rlc_sdu_segment =
  seg_sdu :: nr_rlc_sdu
  seg_size :: int
  seg_so :: int
  seg_is_first :: bool
  seg_is_last :: bool

definition nr_rlc_new_sdu :: "byte list \<Rightarrow> int \<Rightarrow> nr_rlc_sdu_segment" where
  "nr_rlc_new_sdu buffer upper_layer_id =
     (let sdu = \<lparr>sdu_sn = - 1, sdu_upper_layer_id = upper_layer_id, sdu_data = buffer,
                 sdu_size = int (length buffer), sdu_retx_count = - 1, sdu_ref_count = 1,
                 sdu_free_count = 0, sdu_time_of_arrival = 0\<rparr>
      in \<lparr>seg_sdu = sdu, seg_size = int (length buffer), seg_so = 0, seg_is_first = True, seg_is_last = True\<rparr>)"

text \<open>Freeing a segment: the SDU it points to afterwards, or \<open>None\<close> when that is freed too.\<close>

definition nr_rlc_free_sdu_segment :: "nr_rlc_sdu \<Rightarrow> nr_rlc_sdu option" where
  "nr_rlc_free_sdu_segment sdu =
     (let sdu = sdu\<lparr>sdu_free_count := sdu_free_count sdu + 1\<rparr>
      in if sdu_free_count sdu = sdu_ref_count sdu then None else Some sdu)"

text \<open>Appending keeps \<^verbatim>\<open>list\<close> and \<^verbatim>\<open>end\<close> together: \<^verbatim>\<open>end\<close> is the last cell of the list.\<close>

definition nr_rlc_sdu_segment_list_append :: "nr_rlc_sdu_segment list \<Rightarrow> nr_rlc_sdu_segment \<Rightarrow> nr_rlc_sdu_segment list" where
  "nr_rlc_sdu_segment_list_append segs sdu = segs @ [sdu]"

subsection \<open>What the entities share\<close>

datatype nr_rlc_mode = NR_RLC_AM | NR_RLC_UM | NR_RLC_TM

record nr_rlc_statistics =
  mode :: nr_rlc_mode
  txpdu_pkts :: u32
  txpdu_bytes :: u32
  txpdu_wt_ms :: u32
  txpdu_dd_pkts :: u32
  txpdu_dd_bytes :: u32
  txpdu_retx_pkts :: u32
  txpdu_retx_bytes :: u32
  txpdu_segmented :: u32
  txpdu_status_pkts :: u32
  txpdu_status_bytes :: u32
  txbuf_occ_bytes :: u32
  txbuf_occ_pkts :: u32
  rxpdu_pkts :: u32
  rxpdu_bytes :: u32
  rxpdu_dup_pkts :: u32
  rxpdu_dup_bytes :: u32
  rxpdu_dd_pkts :: u32
  rxpdu_dd_bytes :: u32
  rxpdu_ow_pkts :: u32
  rxpdu_ow_bytes :: u32
  rxpdu_status_pkts :: u32
  rxpdu_status_bytes :: u32
  rxbuf_occ_bytes :: u32
  rxbuf_occ_pkts :: u32
  txsdu_pkts :: u32
  txsdu_bytes :: u64
  txsdu_avg_time_to_tx :: "u64 \<times> nat"
  txsdu_wt_us :: u32
  rxsdu_pkts :: u32
  rxsdu_bytes :: u64
  rxsdu_dd_pkts :: u32
  rxsdu_dd_bytes :: u32

definition nr_rlc_statistics_zero :: "nr_rlc_mode \<Rightarrow> nr_rlc_statistics" where
  "nr_rlc_statistics_zero md =
     \<lparr>mode = md, txpdu_pkts = 0, txpdu_bytes = 0, txpdu_wt_ms = 0, txpdu_dd_pkts = 0,
      txpdu_dd_bytes = 0, txpdu_retx_pkts = 0, txpdu_retx_bytes = 0, txpdu_segmented = 0,
      txpdu_status_pkts = 0, txpdu_status_bytes = 0, txbuf_occ_bytes = 0, txbuf_occ_pkts = 0,
      rxpdu_pkts = 0, rxpdu_bytes = 0, rxpdu_dup_pkts = 0, rxpdu_dup_bytes = 0, rxpdu_dd_pkts = 0,
      rxpdu_dd_bytes = 0, rxpdu_ow_pkts = 0, rxpdu_ow_bytes = 0, rxpdu_status_pkts = 0,
      rxpdu_status_bytes = 0, rxbuf_occ_bytes = 0, rxbuf_occ_pkts = 0, txsdu_pkts = 0,
      txsdu_bytes = 0, txsdu_avg_time_to_tx = (0, 1), txsdu_wt_us = 0, rxsdu_pkts = 0,
      rxsdu_bytes = 0, rxsdu_dd_pkts = 0, rxsdu_dd_bytes = 0\<rparr>"

record nr_rlc_entity_buffer_status =
  bs_status_size :: int
  bs_tx_size :: int
  bs_retx_size :: int

record nr_rlc_entity =
  bstatus :: nr_rlc_entity_buffer_status
  stats :: nr_rlc_statistics
  avg_time_to_tx :: time_average
  avg_time_is_on :: bool

text \<open>The common part after \<^verbatim>\<open>calloc\<close> and the assignments of the three constructors.\<close>

definition nr_rlc_entity_init :: "nr_rlc_mode \<Rightarrow> time_average \<Rightarrow> nr_rlc_entity" where
  "nr_rlc_entity_init md avg =
     \<lparr>bstatus = \<lparr>bs_status_size = 0, bs_tx_size = 0, bs_retx_size = 0\<rparr>,
      stats = nr_rlc_statistics_zero md, avg_time_to_tx = avg, avg_time_is_on = False\<rparr>"

definition upd_stats :: "(nr_rlc_statistics \<Rightarrow> nr_rlc_statistics) \<Rightarrow> nr_rlc_entity \<Rightarrow> nr_rlc_entity" where
  "upd_stats f c = c\<lparr>stats := f (stats c)\<rparr>"

definition add_tx_size :: "int \<Rightarrow> nr_rlc_entity \<Rightarrow> nr_rlc_entity" where
  "add_tx_size n c = c\<lparr>bstatus := (bstatus c)\<lparr>bs_tx_size := bs_tx_size (bstatus c) + n\<rparr>\<rparr>"

lemma upd_stats_frame [simp]:
  "bstatus (upd_stats f c) = bstatus c" "avg_time_is_on (upd_stats f c) = avg_time_is_on c"
  "avg_time_to_tx (upd_stats f c) = avg_time_to_tx c" "stats (upd_stats f c) = f (stats c)"
  by (simp_all add: upd_stats_def)

lemma add_tx_size_frame [simp]:
  "bs_tx_size (bstatus (add_tx_size n c)) = bs_tx_size (bstatus c) + n"
  "bs_status_size (bstatus (add_tx_size n c)) = bs_status_size (bstatus c)"
  "bs_retx_size (bstatus (add_tx_size n c)) = bs_retx_size (bstatus c)"
  "avg_time_is_on (add_tx_size n c) = avg_time_is_on c"
  "avg_time_to_tx (add_tx_size n c) = avg_time_to_tx c" "stats (add_tx_size n c) = stats c"
  by (simp_all add: add_tx_size_def)

text \<open>
  The waiting time of an SDU, measured when it is handed to MAC: \<open>now\<close> is what
  \<^verbatim>\<open>time_average_now\<close> reads from the clock.
\<close>

definition record_waited_time :: "u64 \<Rightarrow> nr_rlc_sdu \<Rightarrow> nr_rlc_entity \<Rightarrow> nr_rlc_entity" where
  "record_waited_time now sdu c =
     (if avg_time_is_on c
      then c\<lparr>avg_time_to_tx := time_average_add (avg_time_to_tx c) now (now - sdu_time_of_arrival sdu)\<rparr>
      else c)"

lemma record_waited_time_frame [simp]:
  "bstatus (record_waited_time now sdu c) = bstatus c" "stats (record_waited_time now sdu c) = stats c"
  "avg_time_is_on (record_waited_time now sdu c) = avg_time_is_on c"
  by (simp_all add: record_waited_time_def)

definition set_time_of_arrival :: "u64 \<Rightarrow> nr_rlc_entity \<Rightarrow> nr_rlc_sdu_segment \<Rightarrow> nr_rlc_sdu_segment" where
  "set_time_of_arrival now c seg =
     (if avg_time_is_on c then seg\<lparr>seg_sdu := (seg_sdu seg)\<lparr>sdu_time_of_arrival := now\<rparr>\<rparr> else seg)"

text \<open>
  The statistics on request (\<^verbatim>\<open>nr_rlc_entity_get_stats\<close>): \<open>head\<close> is the SDU at the head of the
  line. Reading the average also drops its old values.
\<close>

definition nr_rlc_entity_get_stats :: "u64 \<Rightarrow> nr_rlc_sdu option \<Rightarrow> nr_rlc_entity \<Rightarrow> nr_rlc_statistics \<times> nr_rlc_entity" where
  "nr_rlc_entity_get_stats now head c =
     (let out = (stats c)\<lparr>txsdu_wt_us :=
            (case head of Some sdu \<Rightarrow> ucast (now - sdu_time_of_arrival sdu) | None \<Rightarrow> 0)\<rparr>
      in if avg_time_is_on c
         then let (avg, t) = time_average_get_average (avg_time_to_tx c) now
              in (out\<lparr>txsdu_avg_time_to_tx := avg\<rparr>, c\<lparr>avg_time_to_tx := t\<rparr>)
         else (out\<lparr>txsdu_avg_time_to_tx := (0, 1)\<rparr>, c))"

end
