(* ===== verification/Rlc_Um.thy ===== *)
theory Rlc_Um
  imports Rlc_Pdu Rlc_Sdu "HOL-Library.While_Combinator"
begin

text \<open>
  The unacknowledged mode RLC entity (\<^verbatim>\<open>nr_rlc_entity_um.c\<close>). The transmitter cuts the SDU at the head
  of its list into segments that fit the grants of MAC; the receiver keeps the segments of the SDUs
  in the reassembly window ordered by sequence number and offset, and delivers an SDU as soon as its
  segments cover it. What \<^verbatim>\<open>deliver_sdu\<close> is called with is returned as a list of SDUs.

  The loop that looks for the first SDU not delivered may run forever on a list with every sequence
  number delivered: it is the while combinator, and not returning is \<open>NoReturn\<close>.
\<close>

record nr_rlc_entity_um =
  um_common :: nr_rlc_entity
  um_t_reassembly :: int
  um_sn_field_length :: int
  um_sn_modulus :: int
  um_window_size :: int
  um_rx_next_highest :: int
  um_rx_next_reassembly :: int
  um_rx_timer_trigger :: int
  um_tx_next :: int
  um_t_current :: u64
  um_t_log_buffer_full :: u64
  um_sdu_rejected :: int
  um_t_reassembly_start :: u64
  um_rx_list :: "nr_rlc_pdu list"
  um_rx_size :: int
  um_rx_maxsize :: int
  um_tx_list :: "nr_rlc_sdu_segment list"
  um_tx_size :: int
  um_tx_maxsize :: int

definition um_stats :: "(nr_rlc_statistics \<Rightarrow> nr_rlc_statistics) \<Rightarrow> nr_rlc_entity_um \<Rightarrow> nr_rlc_entity_um" where
  "um_stats f e = e\<lparr>um_common := upd_stats f (um_common e)\<rparr>"

definition new_nr_rlc_entity_um :: "int \<Rightarrow> int \<Rightarrow> int \<Rightarrow> int \<Rightarrow> nr_rlc_entity_um c_result" where
  "new_nr_rlc_entity_um rx_maxsize tx_maxsize t_reassembly sn_field_length =
     c_bind (c_check AssertFail (sn_field_length = 6 \<or> sn_field_length = 12)) (\<lambda>_.
     c_bind (time_average_new 100000 1024) (\<lambda>avg.
     Inr \<lparr>um_common = nr_rlc_entity_init NR_RLC_UM avg, um_t_reassembly = t_reassembly,
          um_sn_field_length = sn_field_length, um_sn_modulus = 2 ^ nat sn_field_length,
          um_window_size = 2 ^ nat sn_field_length div 2, um_rx_next_highest = 0,
          um_rx_next_reassembly = 0, um_rx_timer_trigger = 0, um_tx_next = 0, um_t_current = 0,
          um_t_log_buffer_full = 0, um_sdu_rejected = 0, um_t_reassembly_start = 0, um_rx_list = [],
          um_rx_size = 0, um_rx_maxsize = rx_maxsize, um_tx_list = [], um_tx_size = 0,
          um_tx_maxsize = tx_maxsize\<rparr>))"

text \<open>Reconfiguration changes the length of the SN field, not the modulus nor the window.\<close>

definition nr_rlc_entity_um_reconfigure :: "nr_rlc_entity_um \<Rightarrow> int \<Rightarrow> int option \<Rightarrow> nr_rlc_entity_um" where
  "nr_rlc_entity_um_reconfigure e t_reassembly sn_field_length =
     (let e = e\<lparr>um_t_reassembly := t_reassembly\<rparr>
      in case sn_field_length of None \<Rightarrow> e | Some n \<Rightarrow> e\<lparr>um_sn_field_length := n\<rparr>)"

definition um_compute_pdu_header_size :: "nr_rlc_entity_um \<Rightarrow> nr_rlc_sdu_segment \<Rightarrow> int" where
  "um_compute_pdu_header_size e sdu =
     1 + (if \<not> (seg_is_first sdu \<and> seg_is_last sdu) \<and> um_sn_field_length e = 12 then 1 else 0)
       + (if \<not> seg_is_first sdu then 2 else 0)"

subsection \<open>PDU RX functions\<close>

definition um_modulus_rx :: "nr_rlc_entity_um \<Rightarrow> int \<Rightarrow> int" where
  "um_modulus_rx e a = sn_distance (um_sn_modulus e) (um_rx_next_highest e - um_window_size e) a"

definition um_sn_compare_rx :: "nr_rlc_entity_um \<Rightarrow> int \<Rightarrow> int \<Rightarrow> int" where
  "um_sn_compare_rx e a b = um_modulus_rx e a - um_modulus_rx e b"

text \<open>The cells from the first one of an SDU on.\<close>

definition from_sn :: "int \<Rightarrow> nr_rlc_pdu list \<Rightarrow> nr_rlc_pdu list" where
  "from_sn sn cs = dropWhile (\<lambda>l. pdu_sn l \<noteq> sn) cs"

fun sdu_full_loop :: "int \<Rightarrow> int \<Rightarrow> nr_rlc_pdu list \<Rightarrow> bool" where
  "sdu_full_loop sn last_byte [] = False"
| "sdu_full_loop sn last_byte (l # ls) =
     (if pdu_sn l \<noteq> sn then False
      else if pdu_so l > last_byte + 1 then False
      else if pdu_is_last l then True
      else sdu_full_loop sn (max last_byte (pdu_so l + pdu_size l - 1)) ls)"

fun sdu_missing_loop :: "int \<Rightarrow> int \<Rightarrow> nr_rlc_pdu list \<Rightarrow> bool" where
  "sdu_missing_loop sn last_byte [] = False"
| "sdu_missing_loop sn last_byte (l # ls) =
     (if pdu_sn l \<noteq> sn then False
      else if pdu_so l > last_byte + 1 then True
      else sdu_missing_loop sn (max last_byte (pdu_so l + pdu_size l - 1)) ls)"

definition sdu_full :: "nr_rlc_pdu list \<Rightarrow> int \<Rightarrow> bool" where
  "sdu_full rx_list sn =
     (case from_sn sn rx_list of
        [] \<Rightarrow> False
      | l # ls \<Rightarrow> if pdu_data l = None then False else sdu_full_loop sn (- 1) (l # ls))"

definition sdu_delivered :: "nr_rlc_pdu list \<Rightarrow> int \<Rightarrow> bool" where
  "sdu_delivered rx_list sn = (case from_sn sn rx_list of [] \<Rightarrow> False | l # ls \<Rightarrow> pdu_data l = None)"

definition sdu_has_missing_bytes :: "nr_rlc_pdu list \<Rightarrow> int \<Rightarrow> bool" where
  "sdu_has_missing_bytes rx_list sn =
     (case from_sn sn rx_list of
        [] \<Rightarrow> False
      | l # ls \<Rightarrow> if pdu_data l = None then False else sdu_missing_loop sn (- 1) (l # ls))"

text \<open>
  The copy loop of \<^verbatim>\<open>reassemble_and_deliver\<close>: the bytes gathered so far, whose number is \<open>so\<close>, the flag
  \<open>bad_sdu\<close>, and what is left of \<^verbatim>\<open>rx_size\<close>. Each segment that is visited loses its data. The array
  \<^verbatim>\<open>sdu\<close> has \<open>NR_SDU_MAX\<close> bytes, and it is filled from its start without a hole.
\<close>

fun reassemble_loop ::
  "int \<Rightarrow> byte list \<Rightarrow> bool \<Rightarrow> int \<Rightarrow> nr_rlc_pdu list \<Rightarrow> (byte list \<times> bool \<times> int \<times> nr_rlc_pdu list) c_result" where
  "reassemble_loop sn sdu bad_sdu rx_size [] = Inr (sdu, bad_sdu, rx_size, [])"
| "reassemble_loop sn sdu bad_sdu rx_size (pdu # ps) =
     (if pdu_sn pdu \<noteq> sn then Inr (sdu, bad_sdu, rx_size, pdu # ps)
      else let so = int (length sdu);
               bad_sdu = (bad_sdu \<or> pdu_so pdu > so);
               len = pdu_size pdu - (so - pdu_so pdu);
               bad_sdu = (bad_sdu \<or> so + len > NR_SDU_MAX)
           in c_bind (if \<not> bad_sdu \<and> len > 0
                      then (case pdu_data pdu of
                              None \<Rightarrow> Inl NullDeref
                            | Some data \<Rightarrow> c_bind (buf_read data (so - pdu_so pdu) len) (\<lambda>bs. Inr (sdu @ bs)))
                      else Inr sdu) (\<lambda>sdu.
              c_bind (reassemble_loop sn sdu bad_sdu (rx_size - pdu_size pdu) ps) (\<lambda>(sdu, bad_sdu, rx_size, ps).
              Inr (sdu, bad_sdu, rx_size, pdu\<lparr>pdu_data := None, pdu_size := 0\<rparr> # ps))))"

definition um_reassemble_and_deliver :: "nr_rlc_entity_um \<Rightarrow> int \<Rightarrow> (nr_rlc_entity_um \<times> byte list list) c_result" where
  "um_reassemble_and_deliver e sn =
     (let before = takeWhile (\<lambda>l. pdu_sn l \<noteq> sn) (um_rx_list e)
      in c_bind (c_check NullDeref (from_sn sn (um_rx_list e) \<noteq> [])) (\<lambda>_.
         c_bind (reassemble_loop sn [] False (um_rx_size e) (from_sn sn (um_rx_list e)))
           (\<lambda>(sdu, bad_sdu, rx_size, ps).
         let e = e\<lparr>um_rx_list := before @ ps, um_rx_size := rx_size\<rparr>
         in Inr (if bad_sdu then (e, [])
                 else (um_stats (\<lambda>s. s\<lparr>txsdu_pkts := txsdu_pkts s + 1,
                                      txsdu_bytes := txsdu_bytes s + of_nat (length sdu)\<rparr>) e, [sdu])))))"

definition skip_delivered :: "int \<Rightarrow> nr_rlc_pdu list \<Rightarrow> int \<Rightarrow> int c_result" where
  "skip_delivered sn_modulus rx_list sn =
     (case while_option (sdu_delivered rx_list) (\<lambda>s. c_rem (s + 1) sn_modulus) sn of
        None \<Rightarrow> Inl NoReturn | Some s \<Rightarrow> Inr s)"

function um_discard_out_of_window :: "nr_rlc_entity_um \<Rightarrow> nr_rlc_entity_um" where
  "um_discard_out_of_window e =
     (case um_rx_list e of
        [] \<Rightarrow> e
      | p # ps \<Rightarrow>
          if um_sn_compare_rx e (pdu_sn p) (um_rx_next_highest e) \<ge> 0
          then um_discard_out_of_window
                 (um_stats (\<lambda>s. s\<lparr>rxpdu_dd_pkts := rxpdu_dd_pkts s + 1,
                                 rxpdu_dd_bytes := rxpdu_dd_bytes s + of_int (pdu_size p),
                                 rxpdu_ow_pkts := rxpdu_ow_pkts s + 1,
                                 rxpdu_ow_bytes := rxpdu_ow_bytes s + of_int (pdu_size p)\<rparr>)
                    (e\<lparr>um_rx_size := um_rx_size e - pdu_size p, um_rx_list := ps\<rparr>))
          else e)"
  by pat_completeness auto
termination by (relation "measure (\<lambda>e. length (um_rx_list e))") (auto simp: um_stats_def)

declare um_discard_out_of_window.simps [simp del]

definition um_start_t_reassembly :: "nr_rlc_entity_um \<Rightarrow> nr_rlc_entity_um" where
  "um_start_t_reassembly e =
     e\<lparr>um_t_reassembly_start := um_t_current e, um_rx_timer_trigger := um_rx_next_highest e\<rparr>"

definition um_reception_timer :: "nr_rlc_entity_um \<Rightarrow> nr_rlc_entity_um" where
  "um_reception_timer e =
     (let next1 = c_rem (um_rx_next_reassembly e + 1) (um_sn_modulus e);
          e = (if um_t_reassembly_start e \<noteq> 0 \<and>
                  (um_sn_compare_rx e (um_rx_timer_trigger e) (um_rx_next_reassembly e) \<le> 0 \<or>
                   um_sn_compare_rx e (um_rx_timer_trigger e) (um_rx_next_highest e) > 0 \<or>
                   (um_rx_next_highest e = next1 \<and>
                    \<not> sdu_has_missing_bytes (um_rx_list e) (um_rx_next_reassembly e)))
               then e\<lparr>um_t_reassembly_start := 0\<rparr> else e)
      in if um_t_reassembly_start e = 0 \<and>
            (um_sn_compare_rx e (um_rx_next_highest e) next1 > 0 \<or>
             (um_rx_next_highest e = next1 \<and>
              sdu_has_missing_bytes (um_rx_list e) (um_rx_next_reassembly e)))
         then um_start_t_reassembly e else e)"

definition um_reception_actions :: "nr_rlc_entity_um \<Rightarrow> int \<Rightarrow> (nr_rlc_entity_um \<times> byte list list) c_result" where
  "um_reception_actions e x =
     c_bind
       (if sdu_full (um_rx_list e) x
        then c_bind (um_reassemble_and_deliver e x) (\<lambda>(e, out).
             if x = um_rx_next_reassembly e
             then c_bind (skip_delivered (um_sn_modulus e) (um_rx_list e) (um_rx_next_reassembly e)) (\<lambda>r.
                  Inr (e\<lparr>um_rx_next_reassembly := r\<rparr>, out))
             else Inr (e, out))
        else if um_sn_compare_rx e x (um_rx_next_highest e) \<ge> 0
        then let e = e\<lparr>um_rx_next_highest := c_rem (x + 1) (um_sn_modulus e)\<rparr>;
                 e = um_discard_out_of_window e
             in if um_sn_compare_rx e (um_rx_next_reassembly e) (um_rx_next_highest e) \<ge> 0
                then let r = c_rem (um_rx_next_highest e - um_window_size e + um_sn_modulus e) (um_sn_modulus e)
                     in c_bind (skip_delivered (um_sn_modulus e) (um_rx_list e) r) (\<lambda>r.
                        Inr (e\<lparr>um_rx_next_reassembly := r\<rparr>, []))
                else Inr (e, [])
        else Inr (e, []))
       (\<lambda>(e, out). Inr (um_reception_timer e, out))"

definition um_discard_pdu :: "nr_rlc_entity_um \<Rightarrow> nat \<Rightarrow> nr_rlc_entity_um" where
  "um_discard_pdu e n =
     um_stats (\<lambda>s. s\<lparr>rxpdu_dd_pkts := rxpdu_dd_pkts s + 1, rxpdu_dd_bytes := rxpdu_dd_bytes s + of_nat n\<rparr>) e"

text \<open>
  The header of a received PDU: \<open>None\<close> is the jump to \<^verbatim>\<open>err\<close>, otherwise the segmentation flags, the SN
  and SO (when present) and the number of header bytes.
\<close>

definition um_decode_header :: "int \<Rightarrow> byte list \<Rightarrow> (bool \<times> bool \<times> int \<times> int \<times> nat) option c_result" where
  "um_decode_header sn_field_length buffer =
     decode_bits (nr_rlc_pdu_decoder_init buffer) 2 (\<lambda>si d.
     let is_first = (si AND 2 = 0); is_last = (si AND 1 = 0)
     in if is_first \<and> is_last then Inr (Some (is_first, is_last, 0, 0, dec_byte d))
        else let sn_so = (\<lambda>d.
               decode_bits d sn_field_length (\<lambda>sn d.
               if is_first then Inr (Some (is_first, is_last, sn, 0, dec_byte d))
               else decode_bits d 16 (\<lambda>so d. Inr (Some (is_first, is_last, sn, so, dec_byte d)))))
             in if sn_field_length = 12 then decode_bits d 2 (\<lambda>_. sn_so) else sn_so d)"

definition um_store_pdu :: "nr_rlc_entity_um \<Rightarrow> byte list \<Rightarrow> int \<Rightarrow> int \<Rightarrow> bool \<Rightarrow> bool \<Rightarrow> nat \<Rightarrow>
    (nr_rlc_entity_um \<times> byte list list) c_result" where
  "um_store_pdu e buffer sn so is_first is_last header =
     (let data_size = int (length buffer) - int header
      in if data_size \<le> 0 then Inr (um_discard_pdu e (length buffer), [])
         else if um_rx_size e + data_size > um_rx_maxsize e then Inr (um_discard_pdu e (length buffer), [])
         else if um_sn_compare_rx e sn (um_rx_next_reassembly e) < 0 then Inr (um_discard_pdu e (length buffer), [])
         else let pdu = nr_rlc_new_pdu sn so is_first is_last (drop header buffer);
                  e = e\<lparr>um_rx_size := um_rx_size e + data_size,
                        um_rx_list := nr_rlc_pdu_list_add (um_sn_compare_rx e) (um_rx_list e) pdu\<rparr>
              in um_reception_actions e (pdu_sn pdu))"

definition nr_rlc_entity_um_recv_pdu :: "nr_rlc_entity_um \<Rightarrow> byte list \<Rightarrow> (nr_rlc_entity_um \<times> byte list list) c_result" where
  "nr_rlc_entity_um_recv_pdu e buffer =
     (let n = length buffer;
          e = um_stats (\<lambda>s. s\<lparr>rxpdu_pkts := rxpdu_pkts s + 1, rxpdu_bytes := rxpdu_bytes s + of_nat n\<rparr>) e
      in c_bind (um_decode_header (um_sn_field_length e) buffer) (\<lambda>h.
         case h of
           None \<Rightarrow> Inr (um_discard_pdu e n, [])
         | Some (is_first, is_last, sn, so, header) \<Rightarrow>
             if is_first \<and> is_last
             then if n < 2 then Inr (um_discard_pdu e n, [])
                  else Inr (um_stats (\<lambda>s. s\<lparr>txsdu_pkts := txsdu_pkts s + 1,
                                          txsdu_bytes := txsdu_bytes s + of_nat (n - 1)\<rparr>) e,
                            [drop 1 buffer])
             else if \<not> is_first \<and> so = 0 then Inr (um_discard_pdu e n, [])
             else um_store_pdu e buffer sn so is_first is_last header))"

subsection \<open>TX functions\<close>

definition um_serialize_sdu :: "nr_rlc_entity_um \<Rightarrow> nr_rlc_sdu_segment \<Rightarrow> byte list \<Rightarrow> (int \<times> byte list) c_result" where
  "um_serialize_sdu e sdu buffer =
     c_bind (nr_rlc_pdu_encoder_put_bits (nr_rlc_pdu_encoder_init buffer) (1 - of_bool (seg_is_first sdu)) 1) (\<lambda>enc.
     c_bind (nr_rlc_pdu_encoder_put_bits enc (1 - of_bool (seg_is_last sdu)) 1) (\<lambda>enc.
     c_bind (if seg_is_first sdu \<and> seg_is_last sdu then nr_rlc_pdu_encoder_put_bits enc 0 6
             else c_bind (if um_sn_field_length e = 12 then nr_rlc_pdu_encoder_put_bits enc 0 2 else Inr enc) (\<lambda>enc.
                  nr_rlc_pdu_encoder_put_bits enc (sdu_sn (seg_sdu sdu)) (nat (um_sn_field_length e)))) (\<lambda>enc.
     c_bind (if \<not> seg_is_first sdu then nr_rlc_pdu_encoder_put_bits enc (seg_so sdu) 16 else Inr enc) (\<lambda>enc.
     c_bind (buf_read (sdu_data (seg_sdu sdu)) (seg_so sdu) (seg_size sdu)) (\<lambda>data.
     c_bind (buf_write (enc_buffer enc) (int (enc_byte enc)) data) (\<lambda>buffer.
     Inr (int (enc_byte enc) + seg_size sdu, buffer)))))))"

text \<open>The cut segment, the segment for the rest (\<open>None\<close> when a PDU has no room) and the entity.\<close>

definition um_resegment :: "nr_rlc_sdu_segment \<Rightarrow> nr_rlc_entity_um \<Rightarrow> int \<Rightarrow>
    nr_rlc_sdu_segment \<times> nr_rlc_sdu_segment option \<times> nr_rlc_entity_um" where
  "um_resegment sdu e pdu_len =
     (let sdu = sdu\<lparr>seg_sdu := (seg_sdu sdu)\<lparr>sdu_ref_count := sdu_ref_count (seg_sdu sdu) + 1\<rparr>\<rparr>;
          pdu_header_size = um_compute_pdu_header_size e (sdu\<lparr>seg_is_last := False\<rparr>)
      in if pdu_header_size + 1 > pdu_len then (sdu, None, e)
         else let over_size = pdu_header_size + seg_size sdu - pdu_len;
                  cut = sdu\<lparr>seg_size := seg_size sdu - over_size, seg_is_last := False\<rparr>;
                  nxt = sdu\<lparr>seg_size := over_size, seg_so := seg_so cut + seg_size cut, seg_is_first := False\<rparr>
              in (cut, Some nxt, um_stats (\<lambda>s. s\<lparr>txpdu_segmented := txpdu_segmented s + 1\<rparr>) e))"

text \<open>
  The end of \<^verbatim>\<open>generate_tx_pdu\<close>, once the segment to send is known. When the SDU was cut, the head of
  the list points to the same SDU: freeing the sent segment counts there too, and must not free it.
\<close>

definition um_send_segment :: "u64 \<Rightarrow> nr_rlc_entity_um \<Rightarrow> nr_rlc_sdu_segment \<Rightarrow> bool \<Rightarrow> byte list \<Rightarrow>
    (int \<times> byte list \<times> nr_rlc_entity_um) c_result" where
  "um_send_segment now e sdu segmented buffer =
     (let e = (if \<not> seg_is_first sdu \<and> seg_is_last sdu
               then e\<lparr>um_tx_next := c_rem (um_tx_next e + 1) (um_sn_modulus e)\<rparr> else e)
      in c_bind (um_serialize_sdu e sdu buffer) (\<lambda>(ret, buf).
         let e = e\<lparr>um_tx_size := um_tx_size e - seg_size sdu\<rparr>;
             e = um_stats (\<lambda>s. s\<lparr>txpdu_pkts := txpdu_pkts s + 1,
                                txpdu_bytes := txpdu_bytes s + of_nat (length buffer)\<rparr>) e;
             e = e\<lparr>um_common := record_waited_time now (seg_sdu sdu) (um_common e)\<rparr>
         in case (nr_rlc_free_sdu_segment (seg_sdu sdu), segmented) of
              (_, False) \<Rightarrow> Inr (ret, buf, e)
            | (None, True) \<Rightarrow> Inl NullDeref
            | (Some shared, True) \<Rightarrow>
                (case um_tx_list e of
                   [] \<Rightarrow> Inr (ret, buf, e)
                 | h # t \<Rightarrow> Inr (ret, buf, e\<lparr>um_tx_list := h\<lparr>seg_sdu := shared\<rparr> # t\<rparr>))))"

definition um_generate_tx_pdu :: "u64 \<Rightarrow> nr_rlc_entity_um \<Rightarrow> byte list \<Rightarrow> (int \<times> byte list \<times> nr_rlc_entity_um) c_result" where
  "um_generate_tx_pdu now e buffer =
     (case um_tx_list e of
        [] \<Rightarrow> Inr (0, buffer, e)
      | sdu # rest \<Rightarrow>
          let sz = int (length buffer); pdu_header_size = um_compute_pdu_header_size e sdu
          in if pdu_header_size + 1 > sz then Inr (0, buffer, e)
             else let sdu = sdu\<lparr>seg_sdu := (seg_sdu sdu)\<lparr>sdu_sn := um_tx_next e\<rparr>\<rparr>;
                      pdu_len = pdu_header_size + seg_size sdu;
                      e = e\<lparr>um_tx_list := rest, um_common := add_tx_size (- pdu_len) (um_common e)\<rparr>
                  in if pdu_len > sz
                     then (case um_resegment sdu e sz of
                             (_, None, e) \<Rightarrow> Inr (0, buffer, e)
                           | (sdu, Some next_sdu, e) \<Rightarrow>
                               let e = e\<lparr>um_tx_list := next_sdu # rest\<rparr>;
                                   e = um_stats (\<lambda>s. s\<lparr>txpdu_segmented := txpdu_segmented s + 1\<rparr>) e;
                                   e = e\<lparr>um_common := add_tx_size (um_compute_pdu_header_size e next_sdu
                                                                     + seg_size next_sdu) (um_common e)\<rparr>
                               in um_send_segment now e sdu True buffer)
                     else um_send_segment now e sdu False buffer)"

definition nr_rlc_entity_um_buffer_status :: "nr_rlc_entity_um \<Rightarrow> nr_rlc_entity_buffer_status" where
  "nr_rlc_entity_um_buffer_status e =
     \<lparr>bs_status_size = 0, bs_tx_size = bs_tx_size (bstatus (um_common e)), bs_retx_size = 0\<rparr>"

definition nr_rlc_entity_um_generate_pdu :: "u64 \<Rightarrow> nr_rlc_entity_um \<Rightarrow> byte list \<Rightarrow> (int \<times> byte list \<times> nr_rlc_entity_um) c_result" where
  "nr_rlc_entity_um_generate_pdu now e buffer = um_generate_tx_pdu now e buffer"

subsection \<open>SDU RX functions\<close>

definition nr_rlc_entity_um_recv_sdu :: "u64 \<Rightarrow> nr_rlc_entity_um \<Rightarrow> byte list \<Rightarrow> int \<Rightarrow> nr_rlc_entity_um c_result" where
  "nr_rlc_entity_um_recv_sdu now e buffer sdu_id =
     (let n = int (length buffer);
          e = um_stats (\<lambda>s. s\<lparr>rxsdu_pkts := rxsdu_pkts s + 1, rxsdu_bytes := rxsdu_bytes s + of_int n\<rparr>) e
      in c_bind (c_check ProcessExit (n \<le> NR_SDU_MAX)) (\<lambda>_.
         let e = (if um_sdu_rejected e \<noteq> 0 \<and> um_t_current e > um_t_log_buffer_full e + 1000
                  then e\<lparr>um_sdu_rejected := 0, um_t_log_buffer_full := um_t_current e\<rparr> else e)
         in if um_tx_size e + n > um_tx_maxsize e
            then Inr (um_stats (\<lambda>s. s\<lparr>rxsdu_dd_pkts := rxsdu_dd_pkts s + 1, rxsdu_dd_bytes := rxsdu_dd_bytes s + of_int n\<rparr>)
                        (e\<lparr>um_sdu_rejected := um_sdu_rejected e + 1\<rparr>))
            else let sdu = nr_rlc_new_sdu buffer sdu_id;
                     common = add_tx_size (um_compute_pdu_header_size e sdu + seg_size sdu) (um_common e);
                     sdu = set_time_of_arrival now common sdu
                 in Inr (e\<lparr>um_tx_size := um_tx_size e + n,
                           um_tx_list := nr_rlc_sdu_segment_list_append (um_tx_list e) sdu,
                           um_common := common\<rparr>)))"

subsection \<open>Time\<close>

function um_discard_old :: "nr_rlc_entity_um \<Rightarrow> nr_rlc_entity_um" where
  "um_discard_old e =
     (case um_rx_list e of
        [] \<Rightarrow> e
      | p # ps \<Rightarrow>
          if um_sn_compare_rx e (pdu_sn p) (um_rx_next_reassembly e) < 0
          then um_discard_old
                 (um_stats (\<lambda>s. s\<lparr>rxpdu_dd_pkts := rxpdu_dd_pkts s + 1,
                                 rxpdu_dd_bytes := rxpdu_dd_bytes s + of_int (pdu_size p)\<rparr>)
                    (e\<lparr>um_rx_list := ps\<rparr>))
          else e)"
  by pat_completeness auto
termination by (relation "measure (\<lambda>e. length (um_rx_list e))") (auto simp: um_stats_def)

declare um_discard_old.simps [simp del]

definition um_check_t_reassembly :: "nr_rlc_entity_um \<Rightarrow> nr_rlc_entity_um c_result" where
  "um_check_t_reassembly e =
     (if um_t_reassembly_start e = 0 \<or>
         um_t_current e \<le> um_t_reassembly_start e + of_int (um_t_reassembly e)
      then Inr e
      else let e = e\<lparr>um_t_reassembly_start := 0\<rparr>
           in c_bind (skip_delivered (um_sn_modulus e) (um_rx_list e) (um_rx_timer_trigger e)) (\<lambda>r.
              let e = um_discard_old (e\<lparr>um_rx_next_reassembly := r\<rparr>)
              in Inr (if um_sn_compare_rx e (um_rx_next_highest e)
                           (c_rem (um_rx_next_reassembly e + 1) (um_sn_modulus e)) > 0 \<or>
                         (um_rx_next_highest e = um_rx_next_reassembly e + 1 \<and>
                          sdu_has_missing_bytes (um_rx_list e) (um_rx_next_reassembly e))
                      then um_start_t_reassembly e else e)))"

definition nr_rlc_entity_um_set_time :: "nr_rlc_entity_um \<Rightarrow> u64 \<Rightarrow> nr_rlc_entity_um c_result" where
  "nr_rlc_entity_um_set_time e now = um_check_t_reassembly (e\<lparr>um_t_current := now\<rparr>)"

subsection \<open>Discard, re-establishment, delete\<close>

definition nr_rlc_entity_um_discard_sdu :: "nr_rlc_entity_um \<Rightarrow> int \<Rightarrow> nr_rlc_entity_um" where
  "nr_rlc_entity_um_discard_sdu e sdu_id =
     (let before = takeWhile (\<lambda>s. sdu_upper_layer_id (seg_sdu s) \<noteq> sdu_id) (um_tx_list e)
      in case dropWhile (\<lambda>s. sdu_upper_layer_id (seg_sdu s) \<noteq> sdu_id) (um_tx_list e) of
           [] \<Rightarrow> e
         | cur # rest \<Rightarrow>
             if \<not> seg_is_first cur \<or> \<not> seg_is_last cur then e
             else e\<lparr>um_tx_list := before @ rest,
                    um_common := add_tx_size (- (um_compute_pdu_header_size e cur + seg_size cur)) (um_common e)\<rparr>)"

definition um_clear_entity :: "nr_rlc_entity_um \<Rightarrow> nr_rlc_entity_um" where
  "um_clear_entity e =
     e\<lparr>um_rx_next_highest := 0, um_rx_next_reassembly := 0, um_rx_timer_trigger := 0, um_tx_next := 0,
       um_t_current := 0, um_t_log_buffer_full := 0, um_sdu_rejected := 0, um_t_reassembly_start := 0,
       um_rx_list := [], um_rx_size := 0, um_tx_list := [], um_tx_size := 0,
       um_common := (um_common e)\<lparr>bstatus := (bstatus (um_common e))\<lparr>bs_tx_size := 0\<rparr>\<rparr>\<rparr>"

definition nr_rlc_entity_um_reestablishment :: "nr_rlc_entity_um \<Rightarrow> nr_rlc_entity_um" where
  "nr_rlc_entity_um_reestablishment e = um_clear_entity e"

definition nr_rlc_entity_um_available_tx_space :: "nr_rlc_entity_um \<Rightarrow> int" where
  "nr_rlc_entity_um_available_tx_space e = um_tx_maxsize e - um_tx_size e"

definition nr_rlc_entity_um_tx_list_occupancy :: "nr_rlc_entity_um \<Rightarrow> int" where
  "nr_rlc_entity_um_tx_list_occupancy e = um_tx_size e"

end
