(* ===== verification/Rlc_Um_Rx.thy ===== *)
theory Rlc_Um_Rx
  imports Rlc_Um
begin

text \<open>
  The receiver of the unacknowledged mode: its invariant, that no sequence of bytes from the other
  side can make it fail or loop, and that it delivers nothing but SDUs that were sent.
\<close>

subsection \<open>Segments of an SDU\<close>

definition cell_ok :: "nr_rlc_pdu \<Rightarrow> bool" where
  "cell_ok p \<longleftrightarrow>
     (case pdu_data p of None \<Rightarrow> pdu_size p = 0 | Some d \<Rightarrow> pdu_size p = int (length d)) \<and>
     0 \<le> pdu_so p \<and> (pdu_is_first p \<longleftrightarrow> pdu_so p = 0) \<and> \<not> (pdu_is_first p \<and> pdu_is_last p)"

definition clear_cell :: "nr_rlc_pdu \<Rightarrow> nr_rlc_pdu" where
  "clear_cell p = p\<lparr>pdu_data := None, pdu_size := 0\<rparr>"

definition clear_sn :: "int \<Rightarrow> nr_rlc_pdu list \<Rightarrow> nr_rlc_pdu list" where
  "clear_sn sn cs = map (\<lambda>p. if pdu_sn p = sn then clear_cell p else p) cs"

definition rx_bytes :: "nr_rlc_pdu list \<Rightarrow> int" where
  "rx_bytes cs = sum_list (map pdu_size cs)"

lemma clear_cell_simps [simp]:
  "pdu_sn (clear_cell p) = pdu_sn p" "pdu_so (clear_cell p) = pdu_so p"
  "pdu_data (clear_cell p) = None" "pdu_size (clear_cell p) = 0"
  "pdu_is_first (clear_cell p) = pdu_is_first p" "pdu_is_last (clear_cell p) = pdu_is_last p"
  by (simp_all add: clear_cell_def)

lemma cell_ok_clear [simp]: "cell_ok p \<Longrightarrow> cell_ok (clear_cell p)"
  by (simp add: cell_ok_def)

lemma cell_ok_size: "cell_ok p \<Longrightarrow> 0 \<le> pdu_size p"
  by (auto simp: cell_ok_def split: option.splits)

lemma rx_bytes_simps [simp]:
  "rx_bytes [] = 0" "rx_bytes (p # ps) = pdu_size p + rx_bytes ps" "rx_bytes (ps @ qs) = rx_bytes ps + rx_bytes qs"
  by (simp_all add: rx_bytes_def)

lemma rx_bytes_nonneg: "\<forall>p \<in> set cs. cell_ok p \<Longrightarrow> 0 \<le> rx_bytes cs"
  by (induction cs) (auto dest: cell_ok_size)

text \<open>The copy loop always succeeds on such cells, and clears the cells of the SDU.\<close>

lemma reassemble_loop_total:
  assumes "\<forall>p \<in> set cs. cell_ok p"
  shows "\<exists>sdu' bad'. reassemble_loop sn sdu bad n cs =
     Inr (sdu', bad', n - rx_bytes (takeWhile (\<lambda>p. pdu_sn p = sn) cs),
          map clear_cell (takeWhile (\<lambda>p. pdu_sn p = sn) cs) @ dropWhile (\<lambda>p. pdu_sn p = sn) cs)"
  using assms
proof (induction cs arbitrary: sdu bad n)
  case (Cons p cs)
  show ?case
  proof (cases "pdu_sn p = sn")
    case True
    let ?so = "int (length sdu)"
    let ?len = "pdu_size p - (?so - pdu_so p)"
    let ?bad = "(bad \<or> pdu_so p > ?so) \<or> ?so + ?len > NR_SDU_MAX"
    define step where "step = (if \<not> ?bad \<and> ?len > 0
      then (case pdu_data p of None \<Rightarrow> Inl NullDeref
            | Some data \<Rightarrow> c_bind (buf_read data (?so - pdu_so p) ?len) (\<lambda>bs. Inr (sdu @ bs))) else Inr sdu)"
    have "\<exists>sdu1. step = Inr sdu1"
      using Cons.prems by (auto simp: step_def cell_ok_def buf_read_def split: option.splits)
    then obtain sdu1 where "step = Inr sdu1" ..
    with Cons.IH [of sdu1 ?bad "n - pdu_size p"] Cons.prems True show ?thesis
      by (auto simp: Let_def step_def clear_cell_def)
  qed simp
qed simp

subsection \<open>Segments that come from an SDU\<close>

definition segment_of :: "byte list \<Rightarrow> nr_rlc_pdu \<Rightarrow> bool" where
  "segment_of s p \<longleftrightarrow>
     0 \<le> pdu_so p \<and> 0 < pdu_size p \<and> pdu_so p + pdu_size p \<le> int (length s) \<and>
     pdu_data p = Some (take (nat (pdu_size p)) (drop (nat (pdu_so p)) s)) \<and>
     (pdu_is_last p \<longleftrightarrow> pdu_so p + pdu_size p = int (length s))"

lemma segment_extends:
  assumes "segment_of s p" and "k \<le> length s" and "pdu_so p \<le> int k" and "int k < pdu_so p + pdu_size p"
  shows "c_bind (buf_read (the (pdu_data p)) (int k - pdu_so p) (pdu_size p - (int k - pdu_so p))) (\<lambda>bs. Inr (take k s @ bs)) =
         Inr (take (nat (pdu_so p + pdu_size p)) s)"
proof -
  define a n where "a = nat (pdu_so p)" and "n = nat (pdu_size p)"
  have an: "pdu_so p = int a" "pdu_size p = int n" using assms(1) by (auto simp: a_def n_def segment_of_def)
  with assms have k: "a \<le> k" "k < a + n" "a + n \<le> length s" and d: "pdu_data p = Some (take n (drop a s))"
    by (auto simp: segment_of_def)
  have ints: "int k - int a = int (k - a)" "int n - (int k - int a) = int (a + n - k)"
    using k by linarith+
  have "take (a + n - k) (drop (k - a) (take n (drop a s))) = take (a + n - k) (drop k s)"
    using k by (simp add: drop_take add.commute)
  moreover have "int (k - a) + int (a + n - k) \<le> int (length (take n (drop a s)))" using k by simp
  ultimately have rd: "buf_read (take n (drop a s)) (int k - int a) (int n - (int k - int a)) =
      Inr (take (a + n - k) (drop k s))"
    unfolding ints(2) unfolding ints(1) by (simp only: buf_read_def nat_int of_nat_0_le_iff simp_thms if_True)
  have "take k s @ take (a + n - k) (drop k s) = take (a + n) s"
    using k by (simp add: take_add [symmetric])
  with rd show ?thesis using k by (simp add: an d nat_add_distrib)
qed

text \<open>
  When the segments cover the SDU, the copy loop gathers exactly the SDU: \<open>k\<close> bytes of it are there
  already, and the cells to come cover the rest.
\<close>

lemma reassemble_loop_segments:
  assumes "\<forall>p \<in> set cs. pdu_sn p = sn \<longrightarrow> segment_of s p" and "int (length s) \<le> NR_SDU_MAX"
    and "k \<le> length s" and "sdu_full_loop sn (int k - 1) cs \<or> k = length s"
  shows "\<exists>n' cs'. reassemble_loop sn (take k s) False n cs = Inr (s, False, n', cs')"
  using assms(1,3,4)
proof (induction cs arbitrary: k n)
  case (Cons p cs)
  show ?case
  proof (cases "pdu_sn p = sn")
    case True
    with Cons.prems(1) have seg: "segment_of s p" by simp
    let ?m = "nat (pdu_so p + pdu_size p)"
    from seg have pos: "0 \<le> pdu_so p" "0 < pdu_size p" "int ?m = pdu_so p + pdu_size p" "?m \<le> length s"
      by (auto simp: segment_of_def)
    from Cons.prems True pos have so: "pdu_so p \<le> int k" by (auto split: if_splits)
    define k' where "k' = max k ?m"
    have len: "min (length s) k = k" using Cons.prems(2) by simp
    have step: "(if pdu_size p - (int k - pdu_so p) > 0
        then (case pdu_data p of None \<Rightarrow> Inl NullDeref
              | Some data \<Rightarrow> c_bind (buf_read data (int k - pdu_so p) (pdu_size p - (int k - pdu_so p)))
                  (\<lambda>bs. Inr (take k s @ bs))) else Inr (take k s)) = Inr (take k' s)"
    proof (cases "int k < pdu_so p + pdu_size p")
      case True
      then have "k' = ?m" using pos by (simp add: k'_def)
      with True segment_extends [OF seg Cons.prems(2) so True] seg show ?thesis by (simp add: segment_of_def)
    next
      case False
      then have "k' = k" using pos by (simp add: k'_def)
      with False show ?thesis by simp
    qed
    have "sdu_full_loop sn (int k' - 1) cs \<or> k' = length s"
      using Cons.prems(3) True pos seg Cons.prems(2)
      by (auto simp: k'_def max_def segment_of_def split: if_splits)
    moreover have "k' \<le> length s" using Cons.prems(2) pos by (simp add: k'_def)
    ultimately have "\<exists>n' cs'. reassemble_loop sn (take k' s) False (n - pdu_size p) cs = Inr (s, False, n', cs')"
      using Cons.IH Cons.prems(1) by simp
    then obtain n' cs' where "reassemble_loop sn (take k' s) False (n - pdu_size p) cs = Inr (s, False, n', cs')"
      by blast
    moreover have "\<not> (int k + (pdu_size p - (int k - pdu_so p)) > NR_SDU_MAX)" using pos assms(2) by linarith
    ultimately show ?thesis using True so step by (simp add: Let_def len)
  next
    case False
    with Cons.prems show ?thesis by simp
  qed
qed simp

subsection \<open>The list as groups of segments\<close>

definition seg_group :: "int \<Rightarrow> nr_rlc_pdu list \<Rightarrow> nr_rlc_pdu list" where
  "seg_group sn cs = filter (\<lambda>p. pdu_sn p = sn) cs"

lemma sdu_full_loop_takeWhile:
  "sdu_full_loop sn b cs = sdu_full_loop sn b (takeWhile (\<lambda>p. pdu_sn p = sn) cs)"
  by (induction cs arbitrary: b) simp_all

lemma from_sn_Nil: "from_sn sn cs = [] \<longleftrightarrow> seg_group sn cs = []"
  by (auto simp: from_sn_def seg_group_def filter_empty_conv dropWhile_eq_Nil_conv)

lemma from_sn_hd: "from_sn sn cs = l # ls \<Longrightarrow> seg_group sn cs = l # seg_group sn ls \<and> pdu_sn l = sn"
  by (induction cs) (auto simp: from_sn_def seg_group_def split: if_splits)

lemma sdu_delivered_group: "sdu_delivered cs sn \<longleftrightarrow> seg_group sn cs \<noteq> [] \<and> pdu_data (hd (seg_group sn cs)) = None"
  by (auto simp: sdu_delivered_def from_sn_Nil dest: from_sn_hd split: list.splits)

lemma group_simps [simp]:
  "seg_group sn [] = []" "seg_group sn (p # ps) = (if pdu_sn p = sn then p # seg_group sn ps else seg_group sn ps)"
  "seg_group sn (ps @ qs) = seg_group sn ps @ seg_group sn qs"
  by (simp_all add: seg_group_def)

lemma set_group: "set (seg_group sn cs) = {p \<in> set cs. pdu_sn p = sn}"
  by (auto simp: seg_group_def)

lemma group_clear_sn: "seg_group sn' (clear_sn sn cs) = (if sn' = sn then map clear_cell (seg_group sn cs) else seg_group sn' cs)"
  by (induction cs) (auto simp: clear_sn_def)

lemma hd_map_group: "seg_group sn cs \<noteq> [] \<Longrightarrow> pdu_data (hd (map clear_cell (seg_group sn cs))) = None"
  by (cases "seg_group sn cs") simp_all

lemma sdu_delivered_clear:
  "sdu_delivered (clear_sn sn cs) sn' \<longleftrightarrow> (sn' = sn \<and> seg_group sn cs \<noteq> []) \<or> (sn' \<noteq> sn \<and> sdu_delivered cs sn')"
  by (auto simp: sdu_delivered_group group_clear_sn hd_map_group)

text \<open>
  A list ordered by the distance of the sequence numbers is one run of cells per sequence number:
  \<open>d\<close> is the distance, injective on the numbers in the list.
\<close>

definition grouped :: "nr_rlc_pdu list \<Rightarrow> bool" where
  "grouped cs \<longleftrightarrow> (\<forall>sn. takeWhile (\<lambda>p. pdu_sn p = sn) (from_sn sn cs) = seg_group sn cs)"

lemma grouped_sorted:
  fixes d :: "int \<Rightarrow> int"
  assumes "sorted (map (\<lambda>p. (d (pdu_sn p), pdu_so p)) cs)" and "inj_on d (pdu_sn ` set cs)"
  shows "grouped cs"
  unfolding grouped_def
proof
  fix sn
  show "takeWhile (\<lambda>p. pdu_sn p = sn) (from_sn sn cs) = seg_group sn cs" using assms
  proof (induction cs)
    case (Cons c cs)
    show ?case
    proof (cases "pdu_sn c = sn")
      case True
      have ih: "takeWhile (\<lambda>p. pdu_sn p = sn) (from_sn sn cs) = seg_group sn cs" using Cons by (auto intro: inj_on_subset)
      show ?thesis
      proof (cases cs)
        case (Cons b bs)
        show ?thesis
        proof (cases "pdu_sn b = sn")
          case True2: True
          with True ih Cons show ?thesis by (simp add: from_sn_def)
        next
          case False
          have "d (pdu_sn b) \<noteq> d sn"
            using False True Cons Cons.prems(2) by (auto simp: inj_on_def)
          moreover have "d sn \<le> d (pdu_sn b)" "\<forall>p \<in> set bs. d (pdu_sn b) \<le> d (pdu_sn p)"
            using Cons.prems(1) True Cons by auto
          ultimately have "seg_group sn cs = []" using False Cons by (auto simp: seg_group_def filter_empty_conv)
          with True False Cons show ?thesis by (simp add: from_sn_def)
        qed
      qed (use True in \<open>simp add: from_sn_def\<close>)
    next
      case False
      then show ?thesis using Cons by (auto simp: from_sn_def intro: inj_on_subset)
    qed
  qed (simp add: from_sn_def)
qed

lemma sdu_full_group:
  "grouped cs \<Longrightarrow> sdu_full cs sn \<longleftrightarrow>
     seg_group sn cs \<noteq> [] \<and> pdu_data (hd (seg_group sn cs)) \<noteq> None \<and> sdu_full_loop sn (- 1) (seg_group sn cs)"
  using sdu_full_loop_takeWhile [of sn "- 1" "from_sn sn cs"] from_sn_hd [of sn cs]
  by (auto simp: sdu_full_def from_sn_Nil grouped_def split: list.split)

lemma grouped_split:
  assumes "grouped cs" and "seg_group sn cs \<noteq> []"
  obtains as bs where "cs = as @ seg_group sn cs @ bs" and "from_sn sn cs = seg_group sn cs @ bs"
    and "takeWhile (\<lambda>l. pdu_sn l \<noteq> sn) cs = as" and "seg_group sn as = []" and "seg_group sn bs = []"
proof
  let ?as = "takeWhile (\<lambda>l. pdu_sn l \<noteq> sn) cs" and ?bs = "dropWhile (\<lambda>p. pdu_sn p = sn) (from_sn sn cs)"
  have g: "takeWhile (\<lambda>p. pdu_sn p = sn) (from_sn sn cs) = seg_group sn cs" using assms(1) by (simp add: grouped_def)
  show f: "from_sn sn cs = seg_group sn cs @ ?bs"
    by (metis g takeWhile_dropWhile_id)
  show c: "cs = ?as @ seg_group sn cs @ ?bs"
    by (metis f from_sn_def takeWhile_dropWhile_id)
  show as: "seg_group sn ?as = []" by (auto simp: seg_group_def filter_empty_conv dest: set_takeWhileD)
  have "seg_group sn cs = seg_group sn ?as @ seg_group sn (seg_group sn cs) @ seg_group sn ?bs"
    using c by (metis group_simps(3))
  then show "seg_group sn ?bs = []" using as by (simp add: seg_group_def)
qed simp

lemma clear_sn_split:
  "seg_group sn as = [] \<Longrightarrow> seg_group sn bs = [] \<Longrightarrow> \<forall>p \<in> set gs. pdu_sn p = sn \<Longrightarrow>
   clear_sn sn (as @ gs @ bs) = as @ map clear_cell gs @ bs"
  by (auto simp: clear_sn_def seg_group_def filter_empty_conv intro!: map_idI)

lemma um_reassemble_total:
  assumes cells: "\<forall>p \<in> set (um_rx_list e). cell_ok p" and "grouped (um_rx_list e)" and ne: "seg_group sn (um_rx_list e) \<noteq> []"
  shows "\<exists>c out. um_reassemble_and_deliver e sn =
     Inr (e\<lparr>um_rx_list := clear_sn sn (um_rx_list e), um_rx_size := um_rx_size e - rx_bytes (seg_group sn (um_rx_list e)),
           um_common := c\<rparr>, out) \<and> bstatus c = bstatus (um_common e)"
proof -
  let ?cs = "um_rx_list e" and ?g = "seg_group sn (um_rx_list e)"
  obtain as bs where c: "?cs = as @ ?g @ bs" and f: "from_sn sn ?cs = ?g @ bs"
    and t: "takeWhile (\<lambda>l. pdu_sn l \<noteq> sn) ?cs = as" and as: "seg_group sn as = []" and bs: "seg_group sn bs = []"
    by (rule grouped_split [OF assms(2,3)])
  have "\<forall>p \<in> set (from_sn sn ?cs). cell_ok p" using cells by (auto simp: from_sn_def dest: set_dropWhileD)
  from reassemble_loop_total [OF this, of sn "[]" False "um_rx_size e"]
  obtain sdu bad where r: "reassemble_loop sn [] False (um_rx_size e) (from_sn sn ?cs) =
      Inr (sdu, bad, um_rx_size e - rx_bytes (takeWhile (\<lambda>p. pdu_sn p = sn) (from_sn sn ?cs)),
        map clear_cell (takeWhile (\<lambda>p. pdu_sn p = sn) (from_sn sn ?cs)) @ dropWhile (\<lambda>p. pdu_sn p = sn) (from_sn sn ?cs))"
    by blast
  have tw: "takeWhile (\<lambda>p. pdu_sn p = sn) (from_sn sn ?cs) = ?g" using assms(2) by (simp add: grouped_def)
  have dw: "dropWhile (\<lambda>p. pdu_sn p = sn) (from_sn sn ?cs) = bs"
    using f tw by (metis append_same_eq takeWhile_dropWhile_id same_append_eq)
  have cl: "as @ map clear_cell ?g @ bs = clear_sn sn ?cs"
    by (subst (2) c, subst clear_sn_split [OF as bs]) (auto simp: set_group)
  show ?thesis
  proof (cases bad)
    case True
    with r ne show ?thesis
      by (intro exI [of _ "um_common e"]) (simp add: um_reassemble_and_deliver_def from_sn_Nil tw dw t cl Let_def)
  next
    case False
    with r ne show ?thesis
      by (auto simp: um_reassemble_and_deliver_def from_sn_Nil tw dw t cl Let_def um_stats_def)
  qed
qed

text \<open>The search for the first SDU not delivered ends when there is one, at such an SDU.\<close>

lemma skip_delivered_total:
  assumes m: "0 < m" and s: "rlc_sn_ok m s" and t: "rlc_sn_ok m t" "\<not> sdu_delivered cs t"
  obtains r where "skip_delivered m cs s = Inr r" and "rlc_sn_ok m r" and "\<not> sdu_delivered cs r"
    and "(r - s) mod m \<le> (t - s) mod m" and "\<forall>k. 0 \<le> k \<and> k < (r - s) mod m \<longrightarrow> sdu_delivered cs ((s + k) mod m)"
  using cyclic_search [where P = "sdu_delivered cs", OF m s t] that by (auto simp: skip_delivered_def)

subsection \<open>The reassembly window\<close>

text \<open>Distances are taken from the lower edge of the window, whose upper edge is \<open>h\<close>.\<close>

definition win_dist :: "int \<Rightarrow> int \<Rightarrow> int \<Rightarrow> int" where
  "win_dist w h a = sn_distance (2 * w) (h - w) a"

definition win_key :: "int \<Rightarrow> int \<Rightarrow> nr_rlc_pdu \<Rightarrow> int \<times> int" where
  "win_key w h p = (win_dist w h (pdu_sn p), pdu_so p)"

definition rx_win :: "int \<Rightarrow> int \<Rightarrow> nr_rlc_pdu list \<Rightarrow> bool" where
  "rx_win w h cs \<longleftrightarrow> sorted (map (win_key w h) cs) \<and>
     (\<forall>p \<in> set cs. rlc_sn_ok (2 * w) (pdu_sn p) \<and> win_dist w h (pdu_sn p) < w)"

lemma win_dist_mod: "0 < w \<Longrightarrow> rlc_sn_ok (2 * w) h \<Longrightarrow> 0 \<le> a \<Longrightarrow> win_dist w h a = (a - h + w) mod (2 * w)"
  by (simp add: win_dist_def sn_distance_mod rlc_sn_ok_def algebra_simps)

lemma win_dist_range:
  "0 < w \<Longrightarrow> rlc_sn_ok (2 * w) h \<Longrightarrow> 0 \<le> a \<Longrightarrow> 0 \<le> win_dist w h a \<and> win_dist w h a < 2 * w"
  by (simp add: win_dist_mod)

lemma win_dist_h: "0 < w \<Longrightarrow> rlc_sn_ok (2 * w) h \<Longrightarrow> win_dist w h h = w"
  by (simp add: win_dist_mod rlc_sn_ok_def)

lemma win_dist_inj:
  assumes "0 < w" "rlc_sn_ok (2 * w) h" "rlc_sn_ok (2 * w) a" "rlc_sn_ok (2 * w) b" "win_dist w h a = win_dist w h b"
  shows "a = b"
proof (rule mod_diff_inj [of _ "2 * w" _ "h - w"])
  show "(a - (h - w)) mod (2 * w) = (b - (h - w)) mod (2 * w)"
    using assms by (simp add: win_dist_mod rlc_sn_ok_def algebra_simps)
qed (use assms in \<open>simp_all add: rlc_sn_ok_def\<close>)

lemma inj_on_win_dist:
  "0 < w \<Longrightarrow> rlc_sn_ok (2 * w) h \<Longrightarrow> \<forall>p \<in> set cs. rlc_sn_ok (2 * w) (pdu_sn p) \<Longrightarrow>
   inj_on (win_dist w h) (pdu_sn ` set cs)"
  by (rule inj_onI) (auto dest: win_dist_inj)

lemma rx_win_grouped:
  "0 < w \<Longrightarrow> rlc_sn_ok (2 * w) h \<Longrightarrow> sorted (map (win_key w h) cs) \<Longrightarrow>
   \<forall>p \<in> set cs. rlc_sn_ok (2 * w) (pdu_sn p) \<Longrightarrow> grouped cs"
  by (rule grouped_sorted [of "win_dist w h"]) (simp_all add: inj_on_win_dist win_key_def [abs_def])

lemma rx_win_h_absent: "0 < w \<Longrightarrow> rlc_sn_ok (2 * w) h \<Longrightarrow> rx_win w h cs \<Longrightarrow> \<not> sdu_delivered cs h"
  by (auto simp: sdu_delivered_group seg_group_def filter_empty_conv rx_win_def win_dist_h)

text \<open>Moving the upper edge behind a number \<open>x\<close> that is not in the window.\<close>

lemma win_dist_shift:
  assumes w: "0 < w" and h: "rlc_sn_ok (2 * w) h" and x: "rlc_sn_ok (2 * w) x" "w \<le> win_dist w h x" and a: "0 \<le> a"
  shows "win_dist w ((x + 1) mod (2 * w)) a =
    (let s = win_dist w h x - w + 1 in if win_dist w h a < s then win_dist w h a - s + 2 * w else win_dist w h a - s)"
proof -
  let ?m = "2 * w" and ?h = "(x + 1) mod (2 * w)" and ?s = "win_dist w h x - w + 1"
  have h': "rlc_sn_ok ?m ?h" using w by (simp add: rlc_sn_ok_def)
  have da: "0 \<le> win_dist w h a" "win_dist w h a < ?m" using win_dist_range [OF w h a] by simp_all
  have dx: "win_dist w h x < ?m" using win_dist_range [OF w h] x(1) by (simp add: rlc_sn_ok_def)
  have x0: "0 \<le> x" using x(1) by (simp add: rlc_sn_ok_def)
  have "win_dist w ?h a = (a + w - (x + 1)) mod ?m"
    using mod_diff_right_eq [of "a + w" "x + 1" ?m] unfolding win_dist_mod [OF w h' a]
    by (simp only: diff_add_eq)
  also have "\<dots> = ((a - h + w) mod ?m - (x - h + w) mod ?m + (w - 1)) mod ?m"
  proof -
    have "((a - h + w) mod ?m - (x - h + w) mod ?m + (w - 1)) mod ?m = (a - h + w - (x - h + w) + (w - 1)) mod ?m"
      by (metis mod_diff_eq mod_add_left_eq)
    then show ?thesis by (simp add: algebra_simps)
  qed
  also have "\<dots> = (win_dist w h a - ?s) mod ?m"
    unfolding win_dist_mod [OF w h a, symmetric] win_dist_mod [OF w h x0, symmetric]
    by (rule arg_cong [of _ _ "\<lambda>y. y mod ?m"]) simp
  also have "\<dots> = (if win_dist w h a < ?s then win_dist w h a - ?s + ?m else win_dist w h a - ?s)"
  proof (cases "win_dist w h a < ?s")
    case True
    have "(win_dist w h a - ?s) mod ?m = (win_dist w h a - ?s + ?m) mod ?m"
      by (rule mod_add_self2 [symmetric])
    also have "\<dots> = win_dist w h a - ?s + ?m" using True da dx x(2) by (intro mod_pos_pos_trivial) linarith+
    finally show ?thesis using True by simp
  qed (use da dx x(2) in \<open>simp add: mod_pos_pos_trivial\<close>)
  finally show ?thesis by (simp add: Let_def)
qed

lemma dropWhile_sorted:
  fixes f :: "'a \<Rightarrow> int \<times> int"
  shows "sorted (map f cs) \<Longrightarrow> dropWhile (\<lambda>p. fst (f p) < s) cs = filter (\<lambda>p. s \<le> fst (f p)) cs"
proof (induction cs)
  case (Cons c cs)
  show ?case
  proof (cases "fst (f c) < s")
    case False
    with Cons.prems have "\<forall>p \<in> set cs. s \<le> fst (f p)" by (force simp: less_eq_prod_def)
    with False show ?thesis by (auto intro!: filter_True [symmetric])
  qed (use Cons in auto)
qed simp

lemma rx_win_shift:
  assumes w: "0 < w" and h: "rlc_sn_ok (2 * w) h" and x: "rlc_sn_ok (2 * w) x" "w \<le> win_dist w h x"
    and srt: "sorted (map (win_key w h) cs)"
    and cs: "\<forall>p \<in> set cs. rlc_sn_ok (2 * w) (pdu_sn p) \<and> win_dist w h (pdu_sn p) \<le> win_dist w h x"
      "\<forall>p \<in> set cs. pdu_sn p = x \<or> win_dist w h (pdu_sn p) < w"
  shows "dropWhile (\<lambda>p. w \<le> win_dist w ((x + 1) mod (2 * w)) (pdu_sn p)) cs =
           filter (\<lambda>p. win_dist w h x - w < win_dist w h (pdu_sn p)) cs"
    and "rx_win w ((x + 1) mod (2 * w)) (filter (\<lambda>p. win_dist w h x - w < win_dist w h (pdu_sn p)) cs)"
proof -
  let ?h = "(x + 1) mod (2 * w)" and ?s = "win_dist w h x - w + 1"
  have dx: "win_dist w h x < 2 * w" using win_dist_range [OF w h] x(1) by (simp add: rlc_sn_ok_def)
  have sh: "win_dist w ?h (pdu_sn p) =
      (if win_dist w h (pdu_sn p) < ?s then win_dist w h (pdu_sn p) - ?s + 2 * w else win_dist w h (pdu_sn p) - ?s)"
    if "p \<in> set cs" for p
    using win_dist_shift [OF w h x, of "pdu_sn p"] cs(1) that by (simp add: Let_def rlc_sn_ok_def)
  have pos: "0 \<le> win_dist w h (pdu_sn p)" if "p \<in> set cs" for p
    using win_dist_range [OF w h, of "pdu_sn p"] cs(1) that by (simp add: rlc_sn_ok_def)
  have out: "w \<le> win_dist w ?h (pdu_sn p) \<longleftrightarrow> win_dist w h (pdu_sn p) < ?s" if "p \<in> set cs" for p
    using sh [OF that] pos [OF that] cs that dx by auto
  have "dropWhile (\<lambda>p. w \<le> win_dist w ?h (pdu_sn p)) cs = dropWhile (\<lambda>p. fst (win_key w h p) < ?s) cs"
    by (rule dropWhile_cong) (simp_all add: out win_key_def)
  also have "\<dots> = filter (\<lambda>p. ?s \<le> fst (win_key w h p)) cs" by (rule dropWhile_sorted [OF srt])
  also have "\<dots> = filter (\<lambda>p. win_dist w h x - w < win_dist w h (pdu_sn p)) cs"
    by (rule filter_cong) (auto simp: win_key_def)
  finally show "dropWhile (\<lambda>p. w \<le> win_dist w ?h (pdu_sn p)) cs =
      filter (\<lambda>p. win_dist w h x - w < win_dist w h (pdu_sn p)) cs" .
  let ?cs = "filter (\<lambda>p. win_dist w h x - w < win_dist w h (pdu_sn p)) cs"
  have key: "win_key w ?h p = (fst (win_key w h p) - ?s, snd (win_key w h p))" if "p \<in> set ?cs" for p
    using sh that by (auto simp: win_key_def)
  have "sorted (map (win_key w h) ?cs)" using srt by (rule sorted_filter)
  then have "sorted (map (win_key w ?h) ?cs)"
    unfolding sorted_map by (rule sorted_wrt_mono_rel [rotated]) (auto simp: key less_eq_prod_def)
  then show "rx_win w ?h ?cs"
    using cs sh dx by (auto simp: rx_win_def)
qed

subsection \<open>The invariant of the receiver\<close>

text \<open>If a segment of an SDU is processed, its first cell is, and that starts the SDU.\<close>

definition delivered_first :: "nr_rlc_pdu list \<Rightarrow> bool" where
  "delivered_first cs \<longleftrightarrow>
     (\<forall>p \<in> set cs. pdu_data p = None \<longrightarrow>
        pdu_data (hd (seg_group (pdu_sn p) cs)) = None \<and> pdu_so (hd (seg_group (pdu_sn p) cs)) = 0)"

definition um_cfg :: "nr_rlc_entity_um \<Rightarrow> bool" where
  "um_cfg e \<longleftrightarrow> (um_sn_field_length e = 6 \<or> um_sn_field_length e = 12) \<and>
     um_sn_modulus e = 2 ^ nat (um_sn_field_length e) \<and> um_window_size e = um_sn_modulus e div 2"

definition um_rx_inv :: "nr_rlc_entity_um \<Rightarrow> bool" where
  "um_rx_inv e \<longleftrightarrow> um_cfg e \<and>
     rlc_sn_ok (um_sn_modulus e) (um_rx_next_highest e) \<and> rlc_sn_ok (um_sn_modulus e) (um_rx_next_reassembly e) \<and>
     rlc_sn_ok (um_sn_modulus e) (um_rx_timer_trigger e) \<and>
     rx_win (um_window_size e) (um_rx_next_highest e) (um_rx_list e) \<and>
     (\<forall>p \<in> set (um_rx_list e). cell_ok p) \<and> delivered_first (um_rx_list e) \<and>
     rx_bytes (um_rx_list e) \<le> um_rx_size e \<and> um_rx_size e \<le> um_rx_maxsize e"

lemma um_cfgD:
  assumes "um_cfg e"
  shows "0 < um_window_size e" "um_sn_modulus e = 2 * um_window_size e" "0 < um_sn_modulus e"
  using assms by (auto simp: um_cfg_def)

lemma um_cfg_frame [simp]:
  "um_cfg (e\<lparr>um_common := a0\<rparr>) = um_cfg e"
  "um_cfg (e\<lparr>um_rx_next_highest := a1\<rparr>) = um_cfg e"
  "um_cfg (e\<lparr>um_rx_next_reassembly := a2\<rparr>) = um_cfg e"
  "um_cfg (e\<lparr>um_rx_timer_trigger := a3\<rparr>) = um_cfg e"
  "um_cfg (e\<lparr>um_tx_next := a4\<rparr>) = um_cfg e"
  "um_cfg (e\<lparr>um_t_current := a5\<rparr>) = um_cfg e"
  "um_cfg (e\<lparr>um_t_log_buffer_full := a6\<rparr>) = um_cfg e"
  "um_cfg (e\<lparr>um_sdu_rejected := a7\<rparr>) = um_cfg e"
  "um_cfg (e\<lparr>um_t_reassembly_start := a8\<rparr>) = um_cfg e"
  "um_cfg (e\<lparr>um_rx_list := a9\<rparr>) = um_cfg e"
  "um_cfg (e\<lparr>um_rx_size := a10\<rparr>) = um_cfg e"
  "um_cfg (e\<lparr>um_tx_list := a11\<rparr>) = um_cfg e"
  "um_cfg (e\<lparr>um_tx_size := a12\<rparr>) = um_cfg e"
  by (simp_all add: um_cfg_def)

lemma um_sn_compare_rx_win:
  "um_cfg e \<Longrightarrow> um_sn_compare_rx e a b =
     win_dist (um_window_size e) (um_rx_next_highest e) a - win_dist (um_window_size e) (um_rx_next_highest e) b"
  by (simp add: um_sn_compare_rx_def um_modulus_rx_def win_dist_def um_cfgD)

lemma um_sn_compare_rx_frame [simp]:
  "um_sn_compare_rx (e\<lparr>um_common := c\<rparr>) = um_sn_compare_rx e"
  "um_sn_compare_rx (e\<lparr>um_rx_size := n\<rparr>) = um_sn_compare_rx e"
  "um_sn_compare_rx (e\<lparr>um_rx_list := cs\<rparr>) = um_sn_compare_rx e"
  "um_sn_compare_rx (e\<lparr>um_rx_next_reassembly := r\<rparr>) = um_sn_compare_rx e"
  "um_sn_compare_rx (e\<lparr>um_t_reassembly_start := t\<rparr>) = um_sn_compare_rx e"
  by (simp_all add: um_sn_compare_rx_def um_modulus_rx_def fun_eq_iff)

lemma um_discard_out_of_window_eq:
  "\<exists>c. um_discard_out_of_window e =
     e\<lparr>um_rx_list := dropWhile (\<lambda>p. um_sn_compare_rx e (pdu_sn p) (um_rx_next_highest e) \<ge> 0) (um_rx_list e),
       um_rx_size := um_rx_size e - rx_bytes (takeWhile (\<lambda>p. um_sn_compare_rx e (pdu_sn p) (um_rx_next_highest e) \<ge> 0) (um_rx_list e)),
       um_common := c\<rparr> \<and> bstatus c = bstatus (um_common e)"
proof (induction e rule: um_discard_out_of_window.induct)
  case (1 e)
  show ?case
  proof (cases "um_rx_list e")
    case Nil
    then show ?thesis
      by (subst um_discard_out_of_window.simps) (auto intro!: exI [of _ "um_common e"])
  next
    case (Cons p ps)
    show ?thesis
    proof (cases "um_sn_compare_rx e (pdu_sn p) (um_rx_next_highest e) \<ge> 0")
      case True
      note ih = "1.IH" [OF Cons True]
      show ?thesis
        using ih True Cons
        by (subst um_discard_out_of_window.simps) (auto simp: um_stats_def diff_diff_eq)
    next
      case False
      with Cons show ?thesis
        by (subst um_discard_out_of_window.simps) (auto intro!: exI [of _ "um_common e"])
    qed
  qed
qed

lemma delivered_first_clear: 
  assumes "delivered_first cs" and "\<forall>p \<in> set (seg_group sn cs). 0 \<le> pdu_so p" and "pdu_so (hd (seg_group sn cs)) = 0"
  shows "delivered_first (clear_sn sn cs)"
  unfolding delivered_first_def
proof (intro ballI impI)
  fix p assume p: "p \<in> set (clear_sn sn cs)" "pdu_data p = None"
  then obtain q where q: "q \<in> set cs" "p = (if pdu_sn q = sn then clear_cell q else q)"
    by (auto simp: clear_sn_def)
  show "pdu_data (hd (seg_group (pdu_sn p) (clear_sn sn cs))) = None \<and>
        pdu_so (hd (seg_group (pdu_sn p) (clear_sn sn cs))) = 0"
  proof (cases "pdu_sn q = sn")
    case True
    then have ne: "seg_group sn cs \<noteq> []" using q by (auto simp: seg_group_def filter_empty_conv)
    then have "hd (map clear_cell (seg_group sn cs)) = clear_cell (hd (seg_group sn cs))" by (simp add: hd_map)
    then show ?thesis using True q assms(3) by (simp add: group_clear_sn)
  next
    case False
    then show ?thesis using q p assms(1) by (simp add: group_clear_sn delivered_first_def)
  qed
qed

lemma delivered_first_filter:
  assumes "delivered_first cs"
  shows "delivered_first (filter (\<lambda>p. P (pdu_sn p)) cs)"
proof -
  have "seg_group (pdu_sn p) (filter (\<lambda>p. P (pdu_sn p)) cs) = seg_group (pdu_sn p) cs" if "P (pdu_sn p)" for p :: nr_rlc_pdu
    using that by (auto simp: seg_group_def intro!: filter_cong)
  with assms show ?thesis by (simp add: delivered_first_def)
qed

lemma rx_bytes_filter_le: "\<forall>p \<in> set cs. cell_ok p \<Longrightarrow> rx_bytes (filter P cs) \<le> rx_bytes cs"
  by (induction cs) (auto dest!: cell_ok_size)

lemma rx_bytes_clear_sn: "rx_bytes (clear_sn sn cs) = rx_bytes cs - rx_bytes (seg_group sn cs)"
  by (induction cs) (auto simp: clear_sn_def)

text \<open>The state between the insertion of a segment of SDU \<open>x\<close> and the end of the reception actions.\<close>

definition um_rx_mid :: "nr_rlc_entity_um \<Rightarrow> int \<Rightarrow> bool" where
  "um_rx_mid e x \<longleftrightarrow> um_cfg e \<and>
     rlc_sn_ok (um_sn_modulus e) (um_rx_next_highest e) \<and> rlc_sn_ok (um_sn_modulus e) (um_rx_next_reassembly e) \<and>
     rlc_sn_ok (um_sn_modulus e) (um_rx_timer_trigger e) \<and>
     sorted (map (win_key (um_window_size e) (um_rx_next_highest e)) (um_rx_list e)) \<and>
     (\<forall>p \<in> set (um_rx_list e). cell_ok p \<and> rlc_sn_ok (um_sn_modulus e) (pdu_sn p) \<and>
        (pdu_sn p = x \<or> win_dist (um_window_size e) (um_rx_next_highest e) (pdu_sn p) < um_window_size e)) \<and>
     rlc_sn_ok (um_sn_modulus e) x \<and> delivered_first (um_rx_list e) \<and>
     (sdu_full (um_rx_list e) x \<longrightarrow> win_dist (um_window_size e) (um_rx_next_highest e) x < um_window_size e) \<and>
     rx_bytes (um_rx_list e) \<le> um_rx_size e \<and> um_rx_size e \<le> um_rx_maxsize e"

definition um_insert :: "nr_rlc_entity_um \<Rightarrow> nr_rlc_pdu \<Rightarrow> nr_rlc_entity_um" where
  "um_insert e p = e\<lparr>um_rx_size := um_rx_size e + pdu_size p,
     um_rx_list := nr_rlc_pdu_list_add (um_sn_compare_rx e) (um_rx_list e) p\<rparr>"

lemma um_insert_split:
  assumes inv: "um_rx_inv e" and x: "rlc_sn_ok (um_sn_modulus e) (pdu_sn p)"
  obtains ps qs where "um_rx_list e = ps @ qs" and "um_rx_list (um_insert e p) = ps @ p # qs"
    and "\<forall>c \<in> set qs. win_key (um_window_size e) (um_rx_next_highest e) p < win_key (um_window_size e) (um_rx_next_highest e) c"
    and "sorted (map (win_key (um_window_size e) (um_rx_next_highest e)) (um_rx_list (um_insert e p)))"
proof -
  let ?w = "um_window_size e" and ?h = "um_rx_next_highest e" and ?cs = "um_rx_list e"
  have w: "0 < ?w" and M: "um_sn_modulus e = 2 * ?w" using inv by (simp_all add: um_rx_inv_def um_cfgD)
  have key: "win_key ?w ?h = (\<lambda>p. (sn_distance (2 * ?w) (?h - ?w) (pdu_sn p), pdu_so p))"
    by (simp add: win_key_def win_dist_def fun_eq_iff)
  have cmp: "um_sn_compare_rx e = (\<lambda>a b. sn_distance (2 * ?w) (?h - ?w) a - sn_distance (2 * ?w) (?h - ?w) b)"
    by (simp add: um_sn_compare_rx_def um_modulus_rx_def M fun_eq_iff)
  have ok: "0 < 2 * ?w \<and> ?h - ?w \<le> 2 * ?w \<and> rlc_sn_ok (2 * ?w) (pdu_sn p) \<and> (\<forall>c \<in> set ?cs. rlc_sn_ok (2 * ?w) (pdu_sn c))"
    using inv x w M by (auto simp: um_rx_inv_def rx_win_def rlc_sn_ok_def)
  have srt: "sorted (map (win_key ?w ?h) ?cs)" using inv by (simp add: um_rx_inv_def rx_win_def)
  have ins: "um_rx_list (um_insert e p) =
      nr_rlc_pdu_list_add (\<lambda>a b. sn_distance (2 * ?w) (?h - ?w) a - sn_distance (2 * ?w) (?h - ?w) b) ?cs p"
    by (simp add: um_insert_def cmp)
  note srt' = srt [unfolded key]
  have s': "sorted (map (win_key ?w ?h) (um_rx_list (um_insert e p)))"
    unfolding ins key by (rule rlc_rx_order.sorted_ins [OF ok srt'])
  obtain ps qs where sp: "?cs = ps @ qs"
    "nr_rlc_pdu_list_add (\<lambda>a b. sn_distance (2 * ?w) (?h - ?w) a - sn_distance (2 * ?w) (?h - ?w) b) ?cs p = ps @ p # qs"
    "\<forall>c \<in> set qs. (sn_distance (2 * ?w) (?h - ?w) (pdu_sn p), pdu_so p) < (sn_distance (2 * ?w) (?h - ?w) (pdu_sn c), pdu_so c)"
    by (rule rlc_rx_order.ins_split [OF ok srt'])
  show thesis
  proof (rule that)
    show "?cs = ps @ qs" by (rule sp(1))
    show "um_rx_list (um_insert e p) = ps @ p # qs" unfolding ins by (rule sp(2))
    show "\<forall>c \<in> set qs. win_key ?w ?h p < win_key ?w ?h c" unfolding key by (rule sp(3))
    show "sorted (map (win_key ?w ?h) (um_rx_list (um_insert e p)))" by (rule s')
  qed
qed

lemma um_insert_fields [simp]:
  "um_sn_modulus (um_insert e p) = um_sn_modulus e" "um_window_size (um_insert e p) = um_window_size e"
  "um_rx_next_highest (um_insert e p) = um_rx_next_highest e" "um_rx_maxsize (um_insert e p) = um_rx_maxsize e"
  "um_rx_next_reassembly (um_insert e p) = um_rx_next_reassembly e" "um_rx_timer_trigger (um_insert e p) = um_rx_timer_trigger e"
  "um_rx_size (um_insert e p) = um_rx_size e + pdu_size p" "um_cfg (um_insert e p) = um_cfg e"
  by (simp_all add: um_insert_def)

text \<open>A new segment that does not belong to an SDU in the list does not complete one.\<close>

lemma single_not_full: "cell_ok p \<Longrightarrow> \<not> sdu_full_loop sn (- 1) [p]"
  by (auto simp: cell_ok_def)

lemma um_insert_mid:
  assumes inv: "um_rx_inv e" and x: "rlc_sn_ok (um_sn_modulus e) (pdu_sn p)"
    and p: "cell_ok p" "pdu_data p \<noteq> None" and room: "um_rx_size e + pdu_size p \<le> um_rx_maxsize e"
  shows "um_rx_mid (um_insert e p) (pdu_sn p)"
proof -
  let ?w = "um_window_size e" and ?h = "um_rx_next_highest e" and ?cs = "um_rx_list e" and ?L = "um_rx_list (um_insert e p)"
  obtain ps qs where cs: "?cs = ps @ qs" and L: "?L = ps @ p # qs"
    and after: "\<forall>c \<in> set qs. win_key ?w ?h p < win_key ?w ?h c" and srt: "sorted (map (win_key ?w ?h) ?L)"
    by (rule um_insert_split [OF inv x])
  have w: "0 < ?w" and M: "um_sn_modulus e = 2 * ?w" using inv by (simp_all add: um_rx_inv_def um_cfgD)
  have cells: "\<forall>q \<in> set ?cs. rlc_sn_ok (um_sn_modulus e) (pdu_sn q) \<and> win_dist ?w ?h (pdu_sn q) < ?w \<and> cell_ok q"
    using inv M by (auto simp: um_rx_inv_def rx_win_def)
  have del: "delivered_first ?L" unfolding delivered_first_def
  proof (intro ballI impI)
    fix q assume q: "q \<in> set ?L" "pdu_data q = None"
    with L cs p(2) have qc: "q \<in> set ?cs" by auto
    then have f: "pdu_data (hd (seg_group (pdu_sn q) ?cs)) = None" "pdu_so (hd (seg_group (pdu_sn q) ?cs)) = 0"
      using inv q(2) by (auto simp: um_rx_inv_def delivered_first_def)
    have "hd (seg_group (pdu_sn q) ?L) = hd (seg_group (pdu_sn q) ?cs)"
    proof (cases "pdu_sn p = pdu_sn q \<and> seg_group (pdu_sn q) ps = []")
      case True
      then have g: "seg_group (pdu_sn q) ?cs = seg_group (pdu_sn q) qs" by (simp add: cs)
      have ne: "seg_group (pdu_sn q) qs \<noteq> []"
      proof -
        have "q \<in> set (seg_group (pdu_sn q) ?cs)" using qc by (simp add: set_group)
        then show ?thesis unfolding g by auto
      qed
      define c0 where "c0 = hd (seg_group (pdu_sn q) qs)"
      have "c0 \<in> set qs" "pdu_sn c0 = pdu_sn q"
        using hd_in_set [OF ne] by (auto simp: c0_def set_group)
      then have "pdu_so p < pdu_so c0" using after True by (auto simp: win_key_def less_prod_def')
      with f(2) p(1) show ?thesis by (simp add: g c0_def cell_ok_def)
    qed (auto simp: L cs hd_append)
    with f show "pdu_data (hd (seg_group (pdu_sn q) ?L)) = None \<and> pdu_so (hd (seg_group (pdu_sn q) ?L)) = 0" by simp
  qed
  have ok: "\<forall>q \<in> set ?L. cell_ok q \<and> rlc_sn_ok (um_sn_modulus e) (pdu_sn q) \<and>
      (pdu_sn q = pdu_sn p \<or> win_dist ?w ?h (pdu_sn q) < ?w)"
    using cells x p(1) by (auto simp: L cs)
  have h: "rlc_sn_ok (2 * ?w) ?h" using inv M by (simp add: um_rx_inv_def)
  have "grouped ?L" by (rule rx_win_grouped [OF w h srt]) (use ok M in auto)
  then have "win_dist ?w ?h (pdu_sn p) < ?w" if "sdu_full ?L (pdu_sn p)"
  proof -
    have "seg_group (pdu_sn p) ?cs \<noteq> []"
    proof
      assume "seg_group (pdu_sn p) ?cs = []"
      then have "seg_group (pdu_sn p) ?L = [p]" by (simp add: L cs)
      with that \<open>grouped ?L\<close> single_not_full [OF p(1), of "pdu_sn p"] show False
        by (simp only: sdu_full_group) simp
    qed
    then show ?thesis using cells by (auto simp: seg_group_def filter_empty_conv)
  qed
  moreover have "rx_bytes ?L \<le> um_rx_size (um_insert e p)" using inv by (simp add: L cs um_rx_inv_def)
  ultimately show ?thesis
    using inv ok srt del room x by (simp add: um_rx_mid_def um_rx_inv_def)
qed

lemma um_reception_timer_inv: "um_rx_inv e \<Longrightarrow> um_rx_inv (um_reception_timer e)"
  by (auto simp: um_reception_timer_def um_start_t_reassembly_def um_rx_inv_def Let_def)

lemma ball_clear_sn: "(\<forall>p \<in> set (clear_sn sn cs). P (pdu_sn p)) = (\<forall>p \<in> set cs. P (pdu_sn p))"
  by (induction cs) (auto simp: clear_sn_def)

lemma rx_win_clear [simp]: "rx_win w h (clear_sn sn cs) = rx_win w h cs"
proof -
  have "map (win_key w h) (clear_sn sn cs) = map (win_key w h) cs"
    by (auto simp: clear_sn_def win_key_def)
  then show ?thesis
    using ball_clear_sn [of sn cs "\<lambda>a. rlc_sn_ok (2 * w) a \<and> win_dist w h a < w"] by (simp add: rx_win_def)
qed

subsection \<open>The receiver never fails\<close>

definition um_tx_same :: "nr_rlc_entity_um \<Rightarrow> nr_rlc_entity_um \<Rightarrow> bool" where
  "um_tx_same e e' \<longleftrightarrow> um_tx_list e' = um_tx_list e \<and> um_tx_size e' = um_tx_size e \<and>
     um_tx_maxsize e' = um_tx_maxsize e \<and> um_tx_next e' = um_tx_next e \<and>
     um_sn_modulus e' = um_sn_modulus e \<and> um_sn_field_length e' = um_sn_field_length e \<and>
     bstatus (um_common e') = bstatus (um_common e)"

lemma um_tx_same_trans: "um_tx_same a b \<Longrightarrow> um_tx_same b c \<Longrightarrow> um_tx_same a c"
  by (simp add: um_tx_same_def)

lemma um_reception_timer_tx: "um_tx_same e (um_reception_timer e)"
  by (simp add: um_tx_same_def um_reception_timer_def um_start_t_reassembly_def Let_def)

lemma um_rx_mid_grouped: "um_rx_mid e x \<Longrightarrow> grouped (um_rx_list e)"
  by (rule rx_win_grouped [of "um_window_size e" "um_rx_next_highest e"]) (auto simp: um_rx_mid_def um_cfgD)

lemma full_first_so:
  assumes "\<forall>p \<in> set cs. cell_ok p" "grouped cs" "sdu_full cs sn"
  shows "seg_group sn cs \<noteq> []" "pdu_so (hd (seg_group sn cs)) = 0"
proof -
  from assms show ne: "seg_group sn cs \<noteq> []" by (simp add: sdu_full_group)
  then obtain p ps where g: "seg_group sn cs = p # ps" by (cases "seg_group sn cs") auto
  then have p: "p \<in> set cs" "pdu_sn p = sn" using set_group [of sn cs] by auto
  have "sdu_full_loop sn (- 1) (p # ps)" using assms(3) sdu_full_group [OF assms(2), of sn] unfolding g by blast
  then have "\<not> pdu_so p > 0" using p(2) by (simp split: if_splits)
  moreover have "0 \<le> pdu_so p" using assms(1) p(1) by (simp add: cell_ok_def)
  ultimately show "pdu_so (hd (seg_group sn cs)) = 0" by (simp add: g)
qed

lemma um_reception_full:
  assumes mid: "um_rx_mid e x" and full: "sdu_full (um_rx_list e) x"
  shows "\<exists>c out. um_reassemble_and_deliver e x =
      Inr (e\<lparr>um_rx_list := clear_sn x (um_rx_list e), um_rx_size := um_rx_size e - rx_bytes (seg_group x (um_rx_list e)),
            um_common := c\<rparr>, out) \<and> bstatus c = bstatus (um_common e)"
    and "um_rx_inv (e\<lparr>um_rx_list := clear_sn x (um_rx_list e),
            um_rx_size := um_rx_size e - rx_bytes (seg_group x (um_rx_list e)), um_common := c\<rparr>)"
proof -
  have cells: "\<forall>p \<in> set (um_rx_list e). cell_ok p" using mid by (simp add: um_rx_mid_def)
  note g = um_rx_mid_grouped [OF mid]
  note first = full_first_so [OF cells g full]
  show "\<exists>c out. um_reassemble_and_deliver e x =
      Inr (e\<lparr>um_rx_list := clear_sn x (um_rx_list e), um_rx_size := um_rx_size e - rx_bytes (seg_group x (um_rx_list e)),
            um_common := c\<rparr>, out) \<and> bstatus c = bstatus (um_common e)"
    by (rule um_reassemble_total [OF cells g first(1)])
  have win: "rx_win (um_window_size e) (um_rx_next_highest e) (um_rx_list e)"
    using mid full by (auto simp: um_rx_mid_def rx_win_def um_cfgD)
  have del: "delivered_first (clear_sn x (um_rx_list e))"
    using mid first cells by (intro delivered_first_clear) (auto simp: um_rx_mid_def set_group cell_ok_def)
  have cells': "\<forall>p \<in> set (clear_sn x (um_rx_list e)). cell_ok p" using cells by (auto simp: clear_sn_def)
  have "0 \<le> rx_bytes (seg_group x (um_rx_list e))" using cells by (intro rx_bytes_nonneg) (auto simp: set_group)
  then show "um_rx_inv (e\<lparr>um_rx_list := clear_sn x (um_rx_list e),
            um_rx_size := um_rx_size e - rx_bytes (seg_group x (um_rx_list e)), um_common := c\<rparr>)"
    using mid win del cells' by (simp add: um_rx_mid_def um_rx_inv_def rx_bytes_clear_sn)
qed

text \<open>Moving the window: what is left of the list, and the invariant.\<close>

lemma um_reception_shift:
  assumes mid: "um_rx_mid e x" and beyond: "um_sn_compare_rx e x (um_rx_next_highest e) \<ge> 0"
  defines "e1 \<equiv> e\<lparr>um_rx_next_highest := c_rem (x + 1) (um_sn_modulus e)\<rparr>"
  shows "um_rx_inv (um_discard_out_of_window e1) \<and> um_tx_same e (um_discard_out_of_window e1) \<and>
     um_rx_next_highest (um_discard_out_of_window e1) = (x + 1) mod um_sn_modulus e \<and>
     um_rx_next_reassembly (um_discard_out_of_window e1) = um_rx_next_reassembly e \<and>
     um_rx_maxsize (um_discard_out_of_window e1) = um_rx_maxsize e \<and>
     um_rx_size (um_discard_out_of_window e1) - rx_bytes (um_rx_list (um_discard_out_of_window e1)) = um_rx_size e - rx_bytes (um_rx_list e) \<and>
     um_rx_list (um_discard_out_of_window e1) =
       filter (\<lambda>p. win_dist (um_window_size e) (um_rx_next_highest e) x - um_window_size e
                    < win_dist (um_window_size e) (um_rx_next_highest e) (pdu_sn p)) (um_rx_list e)"
proof -
  let ?w = "um_window_size e" and ?h = "um_rx_next_highest e" and ?cs = "um_rx_list e"
  have w: "0 < ?w" and M: "um_sn_modulus e = 2 * ?w" and cfg: "um_cfg e" using mid by (simp_all add: um_rx_mid_def um_cfgD)
  have h: "rlc_sn_ok (2 * ?w) ?h" and x: "rlc_sn_ok (2 * ?w) x" using mid M by (simp_all add: um_rx_mid_def)
  have xd: "?w \<le> win_dist ?w ?h x" using beyond win_dist_h [OF w h] by (simp add: um_sn_compare_rx_win [OF cfg])
  have srt: "sorted (map (win_key ?w ?h) ?cs)" using mid by (simp add: um_rx_mid_def)
  have c1: "\<forall>p \<in> set ?cs. rlc_sn_ok (2 * ?w) (pdu_sn p) \<and> win_dist ?w ?h (pdu_sn p) \<le> win_dist ?w ?h x"
    and c2: "\<forall>p \<in> set ?cs. pdu_sn p = x \<or> win_dist ?w ?h (pdu_sn p) < ?w"
    using mid M xd by (auto simp: um_rx_mid_def)
  note shift = rx_win_shift [OF w h x xd srt c1 c2]
  have hn: "c_rem (x + 1) (um_sn_modulus e) = (x + 1) mod (2 * ?w)" using x w M by (simp add: rlc_sn_ok_def)
  have h': "rlc_sn_ok (2 * ?w) ((x + 1) mod (2 * ?w))" using w by (simp add: rlc_sn_ok_def)
  have cfg1: "um_cfg e1" using cfg by (simp add: e1_def)
  let ?P = "\<lambda>p. um_sn_compare_rx e1 (pdu_sn p) (um_rx_next_highest e1) \<ge> 0"
  have P: "?P = (\<lambda>p. ?w \<le> win_dist ?w ((x + 1) mod (2 * ?w)) (pdu_sn p))"
    by (simp add: um_sn_compare_rx_win [OF cfg1] fun_eq_iff) (simp add: e1_def hn win_dist_h [OF w h'])
  have l1: "um_rx_list e1 = ?cs" by (simp add: e1_def)
  obtain c where d: "um_discard_out_of_window e1 = e1\<lparr>um_rx_list := dropWhile ?P ?cs,
      um_rx_size := um_rx_size e1 - rx_bytes (takeWhile ?P ?cs), um_common := c\<rparr>" "bstatus c = bstatus (um_common e1)"
    using um_discard_out_of_window_eq [of e1] unfolding l1 by blast
  let ?f = "filter (\<lambda>p. win_dist ?w ?h x - ?w < win_dist ?w ?h (pdu_sn p)) ?cs"
  have dw: "dropWhile ?P ?cs = ?f" unfolding P by (rule shift(1))
  define T where "T = rx_bytes (takeWhile ?P ?cs)"
  have sz: "rx_bytes ?cs = T + rx_bytes ?f"
    unfolding T_def by (metis dw rx_bytes_simps(3) takeWhile_dropWhile_id)
  have cells: "\<forall>p \<in> set ?cs. cell_ok p" using mid by (simp add: um_rx_mid_def)
  then have "0 \<le> T" unfolding T_def by (intro rx_bytes_nonneg) (auto dest: set_takeWhileD)
  moreover have "delivered_first ?f"
    by (rule delivered_first_filter) (use mid in \<open>simp add: um_rx_mid_def\<close>)
  ultimately have "um_rx_inv (um_discard_out_of_window e1)"
    using mid shift(2) cells h' sz M unfolding d(1) dw T_def [symmetric]
    by (simp add: um_rx_mid_def um_rx_inv_def e1_def hn [unfolded M])
  then show ?thesis unfolding d(1) dw T_def [symmetric] using d(2) M sz by (simp add: e1_def um_tx_same_def hn [unfolded M])
qed

lemma um_reception_timer_fields [simp]:
  "um_rx_list (um_reception_timer e) = um_rx_list e" "um_rx_next_highest (um_reception_timer e) = um_rx_next_highest e"
  "um_rx_next_reassembly (um_reception_timer e) = um_rx_next_reassembly e"
  "um_rx_size (um_reception_timer e) = um_rx_size e" "um_rx_maxsize (um_reception_timer e) = um_rx_maxsize e"
  by (simp_all add: um_reception_timer_def um_start_t_reassembly_def Let_def)

lemma um_skip_ok:
  assumes inv: "um_rx_inv e" and s: "rlc_sn_ok (um_sn_modulus e) s"
  obtains r where "skip_delivered (um_sn_modulus e) (um_rx_list e) s = Inr r" and "um_rx_inv (e\<lparr>um_rx_next_reassembly := r\<rparr>)"
proof -
  have c: "um_cfg e" and h: "rlc_sn_ok (um_sn_modulus e) (um_rx_next_highest e)" using inv by (simp_all add: um_rx_inv_def)
  have nd: "\<not> sdu_delivered (um_rx_list e) (um_rx_next_highest e)"
    using inv um_cfgD [OF c] by (intro rx_win_h_absent [of "um_window_size e"]) (auto simp: um_rx_inv_def)
  obtain r where "skip_delivered (um_sn_modulus e) (um_rx_list e) s = Inr r" "rlc_sn_ok (um_sn_modulus e) r"
    by (rule skip_delivered_total [OF um_cfgD(3) [OF c] s h nd])
  then show thesis using inv that by (simp add: um_rx_inv_def)
qed

text \<open>The three ways through the reception actions.\<close>

lemma um_actions_full:
  assumes mid: "um_rx_mid e x" and full: "sdu_full (um_rx_list e) x"
  obtains e' out e1 where "um_reception_actions e x = Inr (e', out)" and "um_reassemble_and_deliver e x = Inr (e1, out)"
    and "um_rx_inv e'" and "um_tx_same e e'" and "um_rx_list e' = clear_sn x (um_rx_list e)"
    and "um_rx_next_highest e' = um_rx_next_highest e" and "um_rx_maxsize e' = um_rx_maxsize e"
    and "um_rx_size e' - rx_bytes (um_rx_list e') = um_rx_size e - rx_bytes (um_rx_list e)"
    and "um_rx_next_reassembly e \<noteq> x \<longrightarrow> um_rx_next_reassembly e' = um_rx_next_reassembly e"
    and "um_rx_next_reassembly e = x \<longrightarrow>
           skip_delivered (um_sn_modulus e) (clear_sn x (um_rx_list e)) x = Inr (um_rx_next_reassembly e')"
proof -
  from um_reception_full(1) [OF mid full] obtain c out where
    d: "um_reassemble_and_deliver e x = Inr (e\<lparr>um_rx_list := clear_sn x (um_rx_list e),
      um_rx_size := um_rx_size e - rx_bytes (seg_group x (um_rx_list e)), um_common := c\<rparr>, out)"
    and c: "bstatus c = bstatus (um_common e)" by blast
  define e1 where "e1 = e\<lparr>um_rx_list := clear_sn x (um_rx_list e),
      um_rx_size := um_rx_size e - rx_bytes (seg_group x (um_rx_list e)), um_common := c\<rparr>"
  have i1: "um_rx_inv e1" unfolding e1_def by (rule um_reception_full(2) [OF mid full])
  have f1: "um_tx_same e e1" "um_rx_list e1 = clear_sn x (um_rx_list e)" "um_rx_next_highest e1 = um_rx_next_highest e"
    "um_rx_next_reassembly e1 = um_rx_next_reassembly e" "um_sn_modulus e1 = um_sn_modulus e"
    "um_rx_maxsize e1 = um_rx_maxsize e" "um_rx_size e1 = um_rx_size e - rx_bytes (seg_group x (um_rx_list e))"
    using c by (simp_all add: e1_def um_tx_same_def)
  have re: "rlc_sn_ok (um_sn_modulus e1) (um_rx_next_reassembly e1)" using i1 by (simp add: um_rx_inv_def)
  obtain r where r: "skip_delivered (um_sn_modulus e1) (um_rx_list e1) (um_rx_next_reassembly e1) = Inr r"
    "um_rx_inv (e1\<lparr>um_rx_next_reassembly := r\<rparr>)" by (rule um_skip_ok [OF i1 re])
  define e2 where "e2 = (if x = um_rx_next_reassembly e1 then e1\<lparr>um_rx_next_reassembly := r\<rparr> else e1)"
  have act: "um_reception_actions e x = Inr (um_reception_timer e2, out)"
    using full d r(1) by (simp add: um_reception_actions_def e1_def [symmetric] e2_def)
  have i2: "um_rx_inv e2" using i1 r(2) by (simp add: e2_def)
  have t2: "um_tx_same e e2" using f1(1) by (simp add: e2_def um_tx_same_def)
  show thesis
  proof (rule that [OF act d um_reception_timer_inv [OF i2]])
    show "um_tx_same e (um_reception_timer e2)" by (rule um_tx_same_trans [OF t2 um_reception_timer_tx])
  qed (use f1 r(1) in \<open>auto simp: e2_def rx_bytes_clear_sn\<close>)
qed

lemma um_actions_shift:
  assumes mid: "um_rx_mid e x" and "\<not> sdu_full (um_rx_list e) x" and beyond: "um_sn_compare_rx e x (um_rx_next_highest e) \<ge> 0"
  obtains e' where "um_reception_actions e x = Inr (e', [])"
    and "um_rx_inv e'" and "um_tx_same e e'" and "um_rx_next_highest e' = (x + 1) mod um_sn_modulus e"
    and "um_rx_maxsize e' = um_rx_maxsize e"
    and "um_rx_size e' - rx_bytes (um_rx_list e') = um_rx_size e - rx_bytes (um_rx_list e)"
    and "um_rx_list e' = filter (\<lambda>p. win_dist (um_window_size e) (um_rx_next_highest e) x - um_window_size e
                    < win_dist (um_window_size e) (um_rx_next_highest e) (pdu_sn p)) (um_rx_list e)"
    and "win_dist (um_window_size e) ((x + 1) mod um_sn_modulus e) (um_rx_next_reassembly e) < um_window_size e \<longrightarrow>
           um_rx_next_reassembly e' = um_rx_next_reassembly e"
proof -
  define e2 where "e2 = um_discard_out_of_window (e\<lparr>um_rx_next_highest := c_rem (x + 1) (um_sn_modulus e)\<rparr>)"
  note sh = um_reception_shift [OF mid beyond, folded e2_def]
  then have i2: "um_rx_inv e2" and t2: "um_tx_same e e2"
    and sl: "um_rx_size e2 - rx_bytes (um_rx_list e2) = um_rx_size e - rx_bytes (um_rx_list e)" by blast+
  have c2: "um_cfg e2" using i2 by (simp add: um_rx_inv_def)
  have M: "um_sn_modulus e2 = um_sn_modulus e" using t2 by (simp add: um_tx_same_def)
  have W: "um_window_size e2 = um_window_size e"
    using mid c2 M um_cfgD(2) [of e] um_cfgD(2) [of e2] by (simp add: um_rx_mid_def)
  have "rlc_sn_ok (um_sn_modulus e2) (c_rem (um_rx_next_highest e2 - um_window_size e2 + um_sn_modulus e2) (um_sn_modulus e2))"
    using i2 um_cfgD [OF c2] by (simp add: um_rx_inv_def rlc_sn_ok_def)
  from um_skip_ok [OF i2 this] obtain r where r: "skip_delivered (um_sn_modulus e2) (um_rx_list e2)
      (c_rem (um_rx_next_highest e2 - um_window_size e2 + um_sn_modulus e2) (um_sn_modulus e2)) = Inr r"
    "um_rx_inv (e2\<lparr>um_rx_next_reassembly := r\<rparr>)" by blast
  define e3 where "e3 = (if um_sn_compare_rx e2 (um_rx_next_reassembly e2) (um_rx_next_highest e2) \<ge> 0
    then e2\<lparr>um_rx_next_reassembly := r\<rparr> else e2)"
  have act: "um_reception_actions e x = Inr (um_reception_timer e3, [])"
    using assms(2) beyond r(1) by (simp add: um_reception_actions_def e2_def [symmetric] Let_def e3_def)
  have i3: "um_rx_inv e3" using i2 r(2) by (simp add: e3_def)
  have t3: "um_tx_same e e3" using t2 by (simp add: e3_def um_tx_same_def)
  have h2: "win_dist (um_window_size e2) (um_rx_next_highest e2) (um_rx_next_highest e2) = um_window_size e2"
    using i2 um_cfgD [OF c2] by (intro win_dist_h) (auto simp: um_rx_inv_def)
  show thesis
  proof (rule that [OF act um_reception_timer_inv [OF i3]])
    show "um_tx_same e (um_reception_timer e3)" by (rule um_tx_same_trans [OF t3 um_reception_timer_tx])
    show "um_rx_size (um_reception_timer e3) - rx_bytes (um_rx_list (um_reception_timer e3)) = um_rx_size e - rx_bytes (um_rx_list e)"
      using sl by (simp add: e3_def)
  qed (use sh h2 W in \<open>simp_all add: e3_def um_sn_compare_rx_win [OF c2]\<close>)
qed

lemma um_actions_stay:
  assumes mid: "um_rx_mid e x" and "\<not> sdu_full (um_rx_list e) x" and "\<not> um_sn_compare_rx e x (um_rx_next_highest e) \<ge> 0"
  shows "um_reception_actions e x = Inr (um_reception_timer e, [])" and "um_rx_inv (um_reception_timer e)"
proof -
  have cfg: "um_cfg e" using mid by (simp add: um_rx_mid_def)
  have "rx_win (um_window_size e) (um_rx_next_highest e) (um_rx_list e)"
    using assms um_cfgD [OF cfg] by (auto simp: um_rx_mid_def rx_win_def um_sn_compare_rx_win win_dist_h)
  then have "um_rx_inv e" using mid by (simp add: um_rx_mid_def um_rx_inv_def)
  then show "um_rx_inv (um_reception_timer e)" by (rule um_reception_timer_inv)
  show "um_reception_actions e x = Inr (um_reception_timer e, [])"
    using assms(2,3) by (simp add: um_reception_actions_def)
qed

subsection \<open>Headers\<close>

lemmas um_decode_bits_lit =
  decode_bits_at [of _ _ 2, simplified] decode_bits_at [of _ _ 6, simplified]
  decode_bits_at [of _ _ 12, simplified] decode_bits_at [of _ _ 16, simplified]

text \<open>The header decoder is total; what it returns is in range.\<close>

lemma um_decode_header_total:
  assumes "len = 6 \<or> len = 12"
  shows "um_decode_header len buf = Inr None \<or>
    (\<exists>f l sn so h. um_decode_header len buf = Inr (Some (f, l, sn, so, h)) \<and> rlc_sn_ok (2 ^ nat len) sn \<and>
       0 \<le> so \<and> (f \<longrightarrow> so = 0) \<and> (\<not> (f \<and> l) \<longrightarrow> h \<le> length buf))"
proof -
  note b6 = bits_num_take_bounds [of 6, simplified] and b12 = bits_num_take_bounds [of 12, simplified]
    and b16 = bits_num_take_bounds [of 16]
  from assms show ?thesis
  proof
    assume "len = 6"
    then show ?thesis
      by (auto simp: um_decode_header_def decoder_init_at um_decode_bits_lit Let_def rlc_sn_ok_def b6 b16)
  next
    assume "len = 12"
    then show ?thesis
      by (auto simp: um_decode_header_def decoder_init_at um_decode_bits_lit Let_def rlc_sn_ok_def b12 b16)
  qed
qed

end
