(* ===== verification/Rlc_Um_Safe.thy ===== *)
theory Rlc_Um_Safe
  imports Rlc_Um_Rx
begin

text \<open>
  Runs of the unacknowledged mode receiver: received PDUs and ticks of the clock in any order. No run
  fails, and when the PDUs carry pieces of SDUs, whatever is lost, repeated or reordered, only those
  SDUs come out.
\<close>

subsection \<open>One PDU\<close>

definition um_src_ok :: "(int \<Rightarrow> byte list) \<Rightarrow> nr_rlc_entity_um \<Rightarrow> bool" where
  "um_src_ok src e \<longleftrightarrow>
     (\<forall>p \<in> set (um_rx_list e). pdu_data p \<noteq> None \<longrightarrow> segment_of (src (pdu_sn p)) p) \<and>
     (\<forall>sn. int (length (src sn)) \<le> NR_SDU_MAX)"

lemma um_reassemble_src:
  assumes mid: "um_rx_mid e x" and full: "sdu_full (um_rx_list e) x" and src: "um_src_ok src e"
    and r: "um_reassemble_and_deliver e x = Inr (e1, out)"
  shows "out = [src x]"
proof -
  let ?cs = "um_rx_list e"
  note g = um_rx_mid_grouped [OF mid]
  have cells: "\<forall>p \<in> set ?cs. cell_ok p" using mid by (simp add: um_rx_mid_def)
  note first = full_first_so [OF cells g full]
  have hd: "hd (seg_group x ?cs) \<in> set ?cs" "pdu_sn (hd (seg_group x ?cs)) = x" "pdu_data (hd (seg_group x ?cs)) \<noteq> None"
    using hd_in_set [OF first(1)] full sdu_full_group [OF g] by (auto simp: set_group)
  have dat: "pdu_data p \<noteq> None" if "p \<in> set ?cs" "pdu_sn p = x" for p
    using mid that hd(3) by (auto simp: um_rx_mid_def delivered_first_def)
  have "\<forall>p \<in> set (from_sn x ?cs). pdu_sn p = x \<longrightarrow> segment_of (src x) p"
    using src dat by (force simp: um_src_ok_def from_sn_def dest: set_dropWhileD)
  moreover have "sdu_full_loop x (int 0 - 1) (from_sn x ?cs)"
    using full by (auto simp: sdu_full_def split: list.splits if_splits)
  moreover have "int (length (src x)) \<le> NR_SDU_MAX" using src by (simp add: um_src_ok_def)
  ultimately obtain n' cs' where "reassemble_loop x (take 0 (src x)) False (um_rx_size e) (from_sn x ?cs) = Inr (src x, False, n', cs')"
    using reassemble_loop_segments [of "from_sn x ?cs" x "src x" 0 "um_rx_size e"] by auto
  with r first(1) show ?thesis
    by (auto simp: um_reassemble_and_deliver_def Let_def from_sn_Nil)
qed

lemma um_src_ok_clear:
  assumes "um_src_ok src e" "um_rx_list e' = clear_sn x (um_rx_list e)"
  shows "um_src_ok src e'"
  using assms by (auto simp: um_src_ok_def clear_sn_def)

lemma um_src_ok_subset:
  "um_src_ok src e \<Longrightarrow> set (um_rx_list e') \<subseteq> set (um_rx_list e) \<Longrightarrow> um_src_ok src e'"
  by (auto simp: um_src_ok_def)

text \<open>What storing a segment does, on every path.\<close>

lemma um_actions_total:
  assumes mid: "um_rx_mid e x"
  obtains e' out where "um_reception_actions e x = Inr (e', out)" and "um_rx_inv e'" and "um_tx_same e e'"
    and "\<forall>src. um_src_ok src e \<longrightarrow> um_src_ok src e' \<and> out = (if sdu_full (um_rx_list e) x then [src x] else [])"
proof (cases "sdu_full (um_rx_list e) x")
  case full: True
  obtain e' out e1 where a: "um_reception_actions e x = Inr (e', out)" "um_reassemble_and_deliver e x = Inr (e1, out)"
    "um_rx_inv e'" "um_tx_same e e'" "um_rx_list e' = clear_sn x (um_rx_list e)"
    by (rule um_actions_full [OF mid full])
  have "\<forall>src. um_src_ok src e \<longrightarrow> um_src_ok src e' \<and> out = (if sdu_full (um_rx_list e) x then [src x] else [])"
    using um_reassemble_src [OF mid full _ a(2)] um_src_ok_clear [OF _ a(5)] full by simp
  with a show thesis by (intro that)
next
  case nf: False
  show thesis
  proof (cases "um_sn_compare_rx e x (um_rx_next_highest e) \<ge> 0")
    case True
    obtain e' where a: "um_reception_actions e x = Inr (e', [])" "um_rx_inv e'" "um_tx_same e e'"
      and l: "um_rx_list e' = filter (\<lambda>p. win_dist (um_window_size e) (um_rx_next_highest e) x - um_window_size e
                    < win_dist (um_window_size e) (um_rx_next_highest e) (pdu_sn p)) (um_rx_list e)"
      by (rule um_actions_shift [OF mid nf True])
    have "\<forall>src. um_src_ok src e \<longrightarrow> um_src_ok src e' \<and> [] = (if sdu_full (um_rx_list e) x then [src x] else [])"
      using um_src_ok_subset [of _ e e'] nf by (auto simp: l)
    with a show thesis by (intro that)
  next
    case False
    have "\<forall>src. um_src_ok src e \<longrightarrow>
        um_src_ok src (um_reception_timer e) \<and> [] = (if sdu_full (um_rx_list e) x then [src x] else [])"
      using um_src_ok_subset [of _ e "um_reception_timer e"] nf by simp
    with um_actions_stay [OF mid nf False] um_reception_timer_tx show thesis by (intro that)
  qed
qed

text \<open>
  The bytes of a PDU come from SDUs: a whole SDU is one of \<open>whole\<close>, a segment with number \<open>sn\<close> is a
  piece of \<open>src sn\<close>. Bytes that are no PDU are allowed too.
\<close>

definition um_genuine :: "byte list set \<Rightarrow> (int \<Rightarrow> byte list) \<Rightarrow> int \<Rightarrow> byte list \<Rightarrow> bool" where
  "um_genuine whole src len buf \<longleftrightarrow>
     (case um_decode_header len buf of
        Inr (Some (f, l, sn, so, h)) \<Rightarrow>
          if f \<and> l then 1 < length buf \<longrightarrow> drop 1 buf \<in> whole
          else h < length buf \<and> (f \<or> so \<noteq> 0) \<longrightarrow> segment_of (src sn) (nr_rlc_new_pdu sn so f l (drop h buf))
      | _ \<Rightarrow> True)"

lemma um_rx_inv_common [simp]: "um_rx_inv (e\<lparr>um_common := c\<rparr>) = um_rx_inv e"
  by (simp add: um_rx_inv_def)

lemma um_store_pdu_insert:
  "h < length buf \<Longrightarrow> um_rx_size e + (int (length buf) - int h) \<le> um_rx_maxsize e \<Longrightarrow>
   \<not> um_sn_compare_rx e sn (um_rx_next_reassembly e) < 0 \<Longrightarrow>
   um_store_pdu e buf sn so f l h =
     um_reception_actions (um_insert e (nr_rlc_new_pdu sn so f l (drop h buf))) sn"
  by (simp add: um_store_pdu_def um_insert_def Let_def of_nat_diff)

lemma um_insert_tx: "um_tx_same e (um_insert e p)"
  by (simp add: um_insert_def um_tx_same_def)

lemma um_insert_src:
  assumes "um_rx_inv e" "rlc_sn_ok (um_sn_modulus e) (pdu_sn p)" "um_src_ok src e" "segment_of (src (pdu_sn p)) p"
  shows "um_src_ok src (um_insert e p)"
proof -
  obtain ps qs where "um_rx_list e = ps @ qs" "um_rx_list (um_insert e p) = ps @ p # qs"
    by (rule um_insert_split [OF assms(1,2)])
  with assms show ?thesis by (auto simp: um_src_ok_def)
qed

lemma um_store_pdu_total:
  assumes inv: "um_rx_inv e" and sn: "rlc_sn_ok (um_sn_modulus e) sn"
    and so: "0 \<le> so" "f \<longleftrightarrow> so = 0" "\<not> (f \<and> l)" and h: "h \<le> length buf"
  obtains e' out where "um_store_pdu e buf sn so f l h = Inr (e', out)" and "um_rx_inv e'" and "um_tx_same e e'"
    and "\<forall>src. um_src_ok src e \<longrightarrow> (h < length buf \<longrightarrow> segment_of (src sn) (nr_rlc_new_pdu sn so f l (drop h buf))) \<longrightarrow>
           um_src_ok src e' \<and> set out \<subseteq> {src sn}"
proof (cases "h < length buf \<and> um_rx_size e + (int (length buf) - int h) \<le> um_rx_maxsize e \<and>
    \<not> um_sn_compare_rx e sn (um_rx_next_reassembly e) < 0")
  case True
  define p where "p = nr_rlc_new_pdu sn so f l (drop h buf)"
  have "cell_ok p" "pdu_data p \<noteq> None" "pdu_sn p = sn" using so by (auto simp: p_def cell_ok_def)
  moreover have "um_rx_size e + pdu_size p \<le> um_rx_maxsize e" using True by (simp add: p_def of_nat_diff)
  ultimately have mid: "um_rx_mid (um_insert e p) sn" using um_insert_mid [OF inv] sn by metis
  obtain e' out where a: "um_reception_actions (um_insert e p) sn = Inr (e', out)" "um_rx_inv e'" "um_tx_same (um_insert e p) e'"
    and o: "\<forall>src. um_src_ok src (um_insert e p) \<longrightarrow>
      um_src_ok src e' \<and> out = (if sdu_full (um_rx_list (um_insert e p)) sn then [src sn] else [])"
    by (rule um_actions_total [OF mid])
  show thesis
  proof (rule that [OF _ a(2)])
    show "um_store_pdu e buf sn so f l h = Inr (e', out)" using True a(1) um_store_pdu_insert [of h buf e sn so f l] by (simp add: p_def)
    show "um_tx_same e e'" by (rule um_tx_same_trans [OF um_insert_tx a(3)])
    have "um_src_ok src (um_insert e p)"
      if "um_src_ok src e" "h < length buf \<longrightarrow> segment_of (src sn) (nr_rlc_new_pdu sn so f l (drop h buf))" for src
      using um_insert_src [OF inv, of p src] sn that True by (simp add: p_def)
    with o show "\<forall>src. um_src_ok src e \<longrightarrow> (h < length buf \<longrightarrow> segment_of (src sn) (nr_rlc_new_pdu sn so f l (drop h buf))) \<longrightarrow>
        um_src_ok src e' \<and> set out \<subseteq> {src sn}" by (metis empty_subsetI list.set(1,2) order_refl)
  qed
next
  case False
  have "um_store_pdu e buf sn so f l h = Inr (um_discard_pdu e (length buf), [])"
    using False h by (auto simp: um_store_pdu_def Let_def)
  then show thesis
    by (rule that) (use inv in \<open>simp_all add: um_discard_pdu_def um_stats_def um_tx_same_def um_src_ok_def\<close>)
qed

theorem um_recv_pdu_total:
  assumes inv: "um_rx_inv e"
  obtains e' out where "nr_rlc_entity_um_recv_pdu e buf = Inr (e', out)" and "um_rx_inv e'" and "um_tx_same e e'"
    and "\<forall>whole src. um_src_ok src e \<longrightarrow> um_genuine whole src (um_sn_field_length e) buf \<longrightarrow>
           um_src_ok src e' \<and> set out \<subseteq> whole \<union> range src"
proof -
  let ?len = "um_sn_field_length e"
  define e1 where "e1 = um_stats (\<lambda>s. s\<lparr>rxpdu_pkts := rxpdu_pkts s + 1, rxpdu_bytes := rxpdu_bytes s + of_nat (length buf)\<rparr>) e"
  have e1: "um_rx_inv e1" "um_tx_same e e1" "um_rx_list e1 = um_rx_list e" "um_sn_field_length e1 = ?len" "um_sn_modulus e1 = um_sn_modulus e"
    using inv by (simp_all add: e1_def um_stats_def um_tx_same_def)
  have src1: "um_src_ok src e1 = um_src_ok src e" for src by (simp add: um_src_ok_def e1(3))
  have len: "?len = 6 \<or> ?len = 12" and M: "um_sn_modulus e = 2 ^ nat ?len" using inv by (auto simp: um_rx_inv_def um_cfg_def)
  have disc: "um_rx_inv (um_discard_pdu e1 n)" "um_tx_same e (um_discard_pdu e1 n)" "um_src_ok src (um_discard_pdu e1 n) = um_src_ok src e" for n src
    using e1 by (simp_all add: um_discard_pdu_def um_stats_def um_tx_same_def um_src_ok_def)
  from um_decode_header_total [OF len, of buf] show thesis
  proof
    assume "um_decode_header ?len buf = Inr None"
    then have "nr_rlc_entity_um_recv_pdu e buf = Inr (um_discard_pdu e1 (length buf), [])"
      by (simp add: nr_rlc_entity_um_recv_pdu_def Let_def e1_def [symmetric] e1(4))
    then show thesis by (rule that) (use disc in simp_all)
  next
    assume "\<exists>f l sn so h. um_decode_header ?len buf = Inr (Some (f, l, sn, so, h)) \<and> rlc_sn_ok (2 ^ nat ?len) sn \<and>
       0 \<le> so \<and> (f \<longrightarrow> so = 0) \<and> (\<not> (f \<and> l) \<longrightarrow> h \<le> length buf)"
    then obtain f l sn so h where d: "um_decode_header ?len buf = Inr (Some (f, l, sn, so, h))" and sn: "rlc_sn_ok (um_sn_modulus e1) sn"
      and so: "0 \<le> so" "f \<longrightarrow> so = 0" and h: "\<not> (f \<and> l) \<longrightarrow> h \<le> length buf" unfolding e1(5) M by blast
    have r: "nr_rlc_entity_um_recv_pdu e buf =
      (if f \<and> l then if length buf < 2 then Inr (um_discard_pdu e1 (length buf), [])
         else Inr (um_stats (\<lambda>s. s\<lparr>txsdu_pkts := txsdu_pkts s + 1, txsdu_bytes := txsdu_bytes s + of_nat (length buf - 1)\<rparr>) e1, [drop 1 buf])
       else if \<not> f \<and> so = 0 then Inr (um_discard_pdu e1 (length buf), []) else um_store_pdu e1 buf sn so f l h)"
      using d by (simp add: nr_rlc_entity_um_recv_pdu_def Let_def e1_def [symmetric] e1(4))
    consider "f" "l" "length buf < 2" | "f" "l" "\<not> length buf < 2" | "\<not> (f \<and> l)" "\<not> f" "so = 0" | "\<not> (f \<and> l)" "f \<longleftrightarrow> so = 0"
      using so by blast
    then show thesis
    proof cases
      case 1
      with r have "nr_rlc_entity_um_recv_pdu e buf = Inr (um_discard_pdu e1 (length buf), [])" by simp
      then show thesis by (rule that) (use disc in simp_all)
    next
      case 3
      with r have "nr_rlc_entity_um_recv_pdu e buf = Inr (um_discard_pdu e1 (length buf), [])" by simp
      then show thesis by (rule that) (use disc in simp_all)
    next
      case 2
      with r have "nr_rlc_entity_um_recv_pdu e buf = Inr (um_stats (\<lambda>s. s\<lparr>txsdu_pkts := txsdu_pkts s + 1,
        txsdu_bytes := txsdu_bytes s + of_nat (length buf - 1)\<rparr>) e1, [drop 1 buf])" by simp
      then show thesis
        by (rule that) (use e1 2 d src1 in \<open>auto simp: um_stats_def um_tx_same_def um_genuine_def um_src_ok_def\<close>)
    next
      case 4
      with h have h': "h \<le> length buf" by simp
      obtain e' out where s: "um_store_pdu e1 buf sn so f l h = Inr (e', out)" "um_rx_inv e'" "um_tx_same e1 e'"
        and o: "\<forall>src. um_src_ok src e1 \<longrightarrow> (h < length buf \<longrightarrow> segment_of (src sn) (nr_rlc_new_pdu sn so f l (drop h buf))) \<longrightarrow>
           um_src_ok src e' \<and> set out \<subseteq> {src sn}"
        by (rule um_store_pdu_total [OF e1(1) sn so(1) 4(2,1) h'])
      show thesis
      proof (rule that [OF _ s(2)])
        show "nr_rlc_entity_um_recv_pdu e buf = Inr (e', out)" using r s(1) 4 by auto
        show "um_tx_same e e'" by (rule um_tx_same_trans [OF e1(2) s(3)])
        show "\<forall>whole src. um_src_ok src e \<longrightarrow> um_genuine whole src ?len buf \<longrightarrow>
            um_src_ok src e' \<and> set out \<subseteq> whole \<union> range src"
        proof (intro allI impI)
          fix whole src assume "um_src_ok src e" "um_genuine whole src ?len buf"
          with o d 4 have "um_src_ok src e' \<and> set out \<subseteq> {src sn}"
            by (auto simp: src1 um_genuine_def)
          then show "um_src_ok src e' \<and> set out \<subseteq> whole \<union> range src" by auto
        qed
      qed
    qed
  qed
qed

subsection \<open>Time\<close>

lemma um_discard_old_eq:
  "\<exists>c. um_discard_old e =
     e\<lparr>um_rx_list := dropWhile (\<lambda>p. um_sn_compare_rx e (pdu_sn p) (um_rx_next_reassembly e) < 0) (um_rx_list e),
       um_common := c\<rparr> \<and> bstatus c = bstatus (um_common e)"
proof (induction e rule: um_discard_old.induct)
  case (1 e)
  show ?case
  proof (cases "um_rx_list e")
    case Nil
    then show ?thesis
      by (subst um_discard_old.simps) (auto intro!: exI [of _ "um_common e"])
  next
    case (Cons p ps)
    show ?thesis
    proof (cases "um_sn_compare_rx e (pdu_sn p) (um_rx_next_reassembly e) < 0")
      case True
      show ?thesis
        using "1.IH" [OF Cons True] True Cons by (subst um_discard_old.simps) (auto simp: um_stats_def)
    next
      case False
      with Cons show ?thesis
        by (subst um_discard_old.simps) (auto intro!: exI [of _ "um_common e"])
    qed
  qed
qed

lemma rx_win_filter: "rx_win w h cs \<Longrightarrow> rx_win w h (filter P cs)"
  by (auto simp: rx_win_def intro: sorted_filter)

lemma um_discard_old_inv:
  assumes inv: "um_rx_inv e"
  shows "um_rx_inv (um_discard_old e)" "um_tx_same e (um_discard_old e)"
    "set (um_rx_list (um_discard_old e)) \<subseteq> set (um_rx_list e)" "um_rx_size (um_discard_old e) = um_rx_size e"
proof -
  let ?w = "um_window_size e" and ?h = "um_rx_next_highest e" and ?r = "um_rx_next_reassembly e"
  have cfg: "um_cfg e" and win: "rx_win ?w ?h (um_rx_list e)" using inv by (simp_all add: um_rx_inv_def)
  obtain c where d: "um_discard_old e = e\<lparr>um_rx_list := dropWhile (\<lambda>p. um_sn_compare_rx e (pdu_sn p) ?r < 0) (um_rx_list e),
      um_common := c\<rparr>" "bstatus c = bstatus (um_common e)"
    using um_discard_old_eq [of e] by blast
  have P: "(\<lambda>p. um_sn_compare_rx e (pdu_sn p) ?r < 0) = (\<lambda>p. fst (win_key ?w ?h p) < win_dist ?w ?h ?r)"
    by (auto simp: um_sn_compare_rx_win [OF cfg] win_key_def)
  have dw: "dropWhile (\<lambda>p. um_sn_compare_rx e (pdu_sn p) ?r < 0) (um_rx_list e) =
      filter (\<lambda>p. win_dist ?w ?h ?r \<le> win_dist ?w ?h (pdu_sn p)) (um_rx_list e)"
    unfolding P using win dropWhile_sorted [of "win_key ?w ?h"] by (simp add: rx_win_def win_key_def)
  have "rx_bytes (filter (\<lambda>p. win_dist ?w ?h ?r \<le> win_dist ?w ?h (pdu_sn p)) (um_rx_list e)) \<le> um_rx_size e"
    using rx_bytes_filter_le [of "um_rx_list e"] inv by (meson order_trans um_rx_inv_def)
  moreover have "delivered_first (filter (\<lambda>p. win_dist ?w ?h ?r \<le> win_dist ?w ?h (pdu_sn p)) (um_rx_list e))"
    by (rule delivered_first_filter) (use inv in \<open>simp add: um_rx_inv_def\<close>)
  ultimately show "um_rx_inv (um_discard_old e)"
    using inv rx_win_filter [OF win] unfolding d(1) dw by (simp add: um_rx_inv_def)
  show "um_tx_same e (um_discard_old e)" "set (um_rx_list (um_discard_old e)) \<subseteq> set (um_rx_list e)"
    "um_rx_size (um_discard_old e) = um_rx_size e"
    unfolding d(1) dw using d(2) by (auto simp: um_tx_same_def)
qed

lemma um_rx_inv_time [simp]:
  "um_rx_inv (e\<lparr>um_t_current := t\<rparr>) = um_rx_inv e" "um_rx_inv (e\<lparr>um_t_reassembly_start := t\<rparr>) = um_rx_inv e"
  by (simp_all add: um_rx_inv_def)

lemma um_start_t_reassembly_inv: "um_rx_inv e \<Longrightarrow> um_rx_inv (um_start_t_reassembly e)"
  by (simp add: um_start_t_reassembly_def um_rx_inv_def)

theorem um_set_time_total:
  assumes inv: "um_rx_inv e"
  obtains e' where "nr_rlc_entity_um_set_time e now = Inr e'" and "um_rx_inv e'" and "um_tx_same e e'"
    and "set (um_rx_list e') \<subseteq> set (um_rx_list e)" and "um_rx_size e' = um_rx_size e"
proof -
  define e1 where "e1 = e\<lparr>um_t_current := now\<rparr>"
  have i1: "um_rx_inv e1" and s1: "um_tx_same e e1" "um_rx_list e1 = um_rx_list e" "um_rx_size e1 = um_rx_size e"
    using inv by (simp_all add: e1_def um_tx_same_def)
  show thesis
  proof (cases "um_t_reassembly_start e1 = 0 \<or> um_t_current e1 \<le> um_t_reassembly_start e1 + of_int (um_t_reassembly e1)")
    case True
    then have "nr_rlc_entity_um_set_time e now = Inr e1"
      by (simp add: nr_rlc_entity_um_set_time_def um_check_t_reassembly_def e1_def)
    then show thesis by (rule that [OF _ i1]) (use s1 in simp_all)
  next
    case False
    define e2 where "e2 = e1\<lparr>um_t_reassembly_start := 0\<rparr>"
    have i2: "um_rx_inv e2" and s2: "um_tx_same e e2" "um_rx_list e2 = um_rx_list e" "um_rx_size e2 = um_rx_size e"
      using i1 s1 by (simp_all add: e2_def um_tx_same_def)
    have tr: "rlc_sn_ok (um_sn_modulus e2) (um_rx_timer_trigger e2)" using i2 by (simp add: um_rx_inv_def)
    obtain r where r: "skip_delivered (um_sn_modulus e2) (um_rx_list e2) (um_rx_timer_trigger e2) = Inr r"
      "um_rx_inv (e2\<lparr>um_rx_next_reassembly := r\<rparr>)" by (rule um_skip_ok [OF i2 tr])
    define e3 where "e3 = um_discard_old (e2\<lparr>um_rx_next_reassembly := r\<rparr>)"
    note o = um_discard_old_inv [OF r(2), folded e3_def]
    have t3: "um_tx_same e e3" using s2 o(2) by (simp add: um_tx_same_def)
    define e4 where "e4 = (if um_sn_compare_rx e3 (um_rx_next_highest e3) (c_rem (um_rx_next_reassembly e3 + 1) (um_sn_modulus e3)) > 0 \<or>
        (um_rx_next_highest e3 = um_rx_next_reassembly e3 + 1 \<and> sdu_has_missing_bytes (um_rx_list e3) (um_rx_next_reassembly e3))
      then um_start_t_reassembly e3 else e3)"
    have "nr_rlc_entity_um_set_time e now = Inr e4"
      using False r(1)
      by (simp add: nr_rlc_entity_um_set_time_def um_check_t_reassembly_def e1_def [symmetric] e2_def [symmetric] Let_def
          e3_def [symmetric] e4_def)
    moreover have "um_rx_inv e4" using o(1) um_start_t_reassembly_inv by (simp add: e4_def)
    moreover have "um_tx_same e e4" using t3 by (simp add: e4_def um_start_t_reassembly_def um_tx_same_def)
    moreover have "set (um_rx_list e4) \<subseteq> set (um_rx_list e)" "um_rx_size e4 = um_rx_size e"
      using o(3,4) s2 by (simp_all add: e4_def um_start_t_reassembly_def)
    ultimately show thesis by (rule that)
  qed
qed

end
