(* ===== verification/Rlc_Um_Tx.thy ===== *)
theory Rlc_Um_Tx
  imports Rlc_Um_Safe
begin

text \<open>
  The transmitter of the unacknowledged mode: the layout of the PDUs it writes, which the header decoder
  of the receiver reads back, its invariant with the exact buffer status, and what a grant does.
\<close>

subsection \<open>The PDU of a segment\<close>

definition um_header_bits :: "int \<Rightarrow> bool \<Rightarrow> bool \<Rightarrow> int \<Rightarrow> int \<Rightarrow> bool list" where
  "um_header_bits len f l sn so =
     [\<not> f, \<not> l] @ (if f \<and> l then num_bits 0 6
                  else (if len = 12 then num_bits 0 2 else []) @ num_bits sn (nat len)) @
     (if f then [] else num_bits so 16)"

lemma length_um_header_bits:
  "len = 6 \<or> len = 12 \<Longrightarrow> length (um_header_bits len f l sn so) =
     8 * (1 + (if \<not> (f \<and> l) \<and> len = 12 then 1 else 0) + (if f then 0 else 2))"
  by (auto simp: um_header_bits_def)

definition um_header_size :: "int \<Rightarrow> bool \<Rightarrow> bool \<Rightarrow> nat" where
  "um_header_size len f l = 1 + (if \<not> (f \<and> l) \<and> len = 12 then 1 else 0) + (if f then 0 else 2)"

lemma um_compute_pdu_header_size_eq:
  "um_compute_pdu_header_size e s = int (um_header_size (um_sn_field_length e) (seg_is_first s) (seg_is_last s))"
  by (simp add: um_compute_pdu_header_size_def um_header_size_def)

lemma length_um_header: "len = 6 \<or> len = 12 \<Longrightarrow> length (um_header_bits len f l sn so) = 8 * um_header_size len f l"
  by (simp add: length_um_header_bits um_header_size_def)

lemma um_header_put:
  assumes len: "len = 6 \<or> len = 12" and room: "um_header_size len f l \<le> length buf"
  shows "\<exists>enc. c_bind (nr_rlc_pdu_encoder_put_bits (nr_rlc_pdu_encoder_init buf) (1 - of_bool f) 1) (\<lambda>enc.
     c_bind (nr_rlc_pdu_encoder_put_bits enc (1 - of_bool l) 1) (\<lambda>enc.
     c_bind (if f \<and> l then nr_rlc_pdu_encoder_put_bits enc 0 6
             else c_bind (if len = 12 then nr_rlc_pdu_encoder_put_bits enc 0 2 else Inr enc) (\<lambda>enc.
                  nr_rlc_pdu_encoder_put_bits enc sn (nat len))) (\<lambda>enc.
     if \<not> f then nr_rlc_pdu_encoder_put_bits enc so 16 else Inr enc))) = Inr enc \<and>
     enc_holds buf (um_header_bits len f l sn so) enc"
proof -
  have tot: "length (um_header_bits len f l sn so) \<le> 8 * length buf" using room length_um_header [OF len] by simp
  have l1: "length [] + 1 \<le> 8 * length buf" and l2: "length [\<not> f] + 1 \<le> 8 * length buf"
    using tot by (auto simp: um_header_bits_def)
  obtain e1 where e1: "nr_rlc_pdu_encoder_put_bits (nr_rlc_pdu_encoder_init buf) (1 - of_bool f) 1 = Inr e1"
    "enc_holds buf ([] @ num_bits (1 - of_bool f) 1) e1"
    by (rule put_bits_holds [OF enc_holds_init l1]) simp
  then have h1: "enc_holds buf [\<not> f] e1" by (simp only: num_bits_flag append_Nil)
  obtain e2 where e2: "nr_rlc_pdu_encoder_put_bits e1 (1 - of_bool l) 1 = Inr e2"
    "enc_holds buf ([\<not> f] @ num_bits (1 - of_bool l) 1) e2"
    by (rule put_bits_holds [OF h1 l2]) simp
  then have h2: "enc_holds buf [\<not> f, \<not> l] e2" by (simp only: num_bits_flag append_Cons append_Nil)
  let ?mid = "if f \<and> l then nr_rlc_pdu_encoder_put_bits e2 0 6
             else c_bind (if len = 12 then nr_rlc_pdu_encoder_put_bits e2 0 2 else Inr e2) (\<lambda>enc.
                  nr_rlc_pdu_encoder_put_bits enc sn (nat len))"
  let ?mb = "[\<not> f, \<not> l] @ (if f \<and> l then num_bits 0 6
                  else (if len = 12 then num_bits 0 2 else []) @ num_bits sn (nat len))"
  have "\<exists>e3. ?mid = Inr e3 \<and> enc_holds buf ?mb e3"
  proof (cases "f \<and> l")
    case True
    then have "length [\<not> f, \<not> l] + 6 \<le> 8 * length buf" using tot by (simp add: um_header_bits_def)
    from put_bits_holds [OF h2 this, of 0] obtain e3 where
      "nr_rlc_pdu_encoder_put_bits e2 0 6 = Inr e3" "enc_holds buf ([\<not> f, \<not> l] @ num_bits 0 6) e3" by auto
    with True show ?thesis by simp
  next
    case False
    show ?thesis
    proof (cases "len = 12")
      case True
      with False have r: "length [\<not> f, \<not> l] + 2 \<le> 8 * length buf" using tot by (auto simp: um_header_bits_def split: if_splits)
      from put_bits_holds [OF h2 r, of 0] obtain e3 where
        e3: "nr_rlc_pdu_encoder_put_bits e2 0 2 = Inr e3" "enc_holds buf ([\<not> f, \<not> l] @ num_bits 0 2) e3" by auto
      have r3: "length ([\<not> f, \<not> l] @ num_bits 0 2) + 12 \<le> 8 * length buf" using tot True False by (auto simp: um_header_bits_def split: if_splits)
      from put_bits_holds [OF e3(2) r3, of sn] obtain e4 where
        "nr_rlc_pdu_encoder_put_bits e3 sn 12 = Inr e4" "enc_holds buf (([\<not> f, \<not> l] @ num_bits 0 2) @ num_bits sn 12) e4" by auto
      with e3 True False show ?thesis by auto
    next
      case F2: False
      with len have "len = 6" by simp
      with False have r: "length [\<not> f, \<not> l] + 6 \<le> 8 * length buf" using tot by (auto simp: um_header_bits_def split: if_splits)
      from put_bits_holds [OF h2 r, of sn] obtain e3 where
        "nr_rlc_pdu_encoder_put_bits e2 sn 6 = Inr e3" "enc_holds buf ([\<not> f, \<not> l] @ num_bits sn 6) e3" by auto
      with \<open>len = 6\<close> False show ?thesis by auto
    qed
  qed
  then obtain e3 where e3: "?mid = Inr e3" "enc_holds buf ?mb e3" by blast
  have "\<exists>e4. (if \<not> f then nr_rlc_pdu_encoder_put_bits e3 so 16 else Inr e3) = Inr e4 \<and>
      enc_holds buf (um_header_bits len f l sn so) e4"
  proof (cases f)
    case True
    with e3 show ?thesis by (simp add: um_header_bits_def)
  next
    case False
    then have r: "length ?mb + 16 \<le> 8 * length buf" using tot by (simp add: um_header_bits_def)
    from put_bits_holds [OF e3(2) r, of so] obtain e4 where
      "nr_rlc_pdu_encoder_put_bits e3 so 16 = Inr e4" "enc_holds buf (?mb @ num_bits so 16) e4" by auto
    with False show ?thesis by (simp add: um_header_bits_def)
  qed
  then show ?thesis using e1(1) e2(1) e3(1) by simp
qed

lemma take_drop_segment: "0 \<le> a \<Longrightarrow> 0 \<le> n \<Longrightarrow> a + n \<le> int (length d) \<Longrightarrow>
    buf_read d a n = Inr (take (nat n) (drop (nat a) d))"
  by (simp add: buf_read_def)

text \<open>The PDU is the header, then the bytes of the segment; the rest of the buffer is left alone.\<close>

lemma um_serialize_sdu_layout:
  fixes s :: nr_rlc_sdu_segment
  assumes len: "um_sn_field_length e = 6 \<or> um_sn_field_length e = 12"
    and seg: "0 \<le> seg_so s" "0 \<le> seg_size s" "seg_so s + seg_size s \<le> int (length (sdu_data (seg_sdu s)))"
    and room: "um_compute_pdu_header_size e s + seg_size s \<le> int (length buf)"
  obtains hd where "um_serialize_sdu e s buf =
      Inr (um_compute_pdu_header_size e s + seg_size s,
           hd @ take (nat (seg_size s)) (drop (nat (seg_so s)) (sdu_data (seg_sdu s))) @
           drop (nat (um_compute_pdu_header_size e s + seg_size s)) buf)"
    and "bits_of hd = um_header_bits (um_sn_field_length e) (seg_is_first s) (seg_is_last s) (sdu_sn (seg_sdu s)) (seg_so s)"
proof -
  let ?len = "um_sn_field_length e" and ?f = "seg_is_first s" and ?l = "seg_is_last s"
  define hb where "hb = um_header_bits ?len ?f ?l (sdu_sn (seg_sdu s)) (seg_so s)"
  define n where "n = um_header_size ?len ?f ?l"
  have hs: "um_compute_pdu_header_size e s = int n" by (simp add: um_compute_pdu_header_size_eq n_def)
  define m where "m = nat (seg_size s)"
  have m: "seg_size s = int m" using seg by (simp add: m_def)
  have nb: "n + m \<le> length buf" using room by (simp add: hs m)
  have "n \<le> length buf" using nb by simp
  from um_header_put [OF len, of ?f ?l buf "sdu_sn (seg_sdu s)" "seg_so s", folded n_def hb_def, OF this] obtain enc where
    put: "c_bind (nr_rlc_pdu_encoder_put_bits (nr_rlc_pdu_encoder_init buf) (1 - of_bool ?f) 1) (\<lambda>enc.
     c_bind (nr_rlc_pdu_encoder_put_bits enc (1 - of_bool ?l) 1) (\<lambda>enc.
     c_bind (if ?f \<and> ?l then nr_rlc_pdu_encoder_put_bits enc 0 6
             else c_bind (if ?len = 12 then nr_rlc_pdu_encoder_put_bits enc 0 2 else Inr enc) (\<lambda>enc.
                  nr_rlc_pdu_encoder_put_bits enc (sdu_sn (seg_sdu s)) (nat ?len))) (\<lambda>enc.
     if \<not> ?f then nr_rlc_pdu_encoder_put_bits enc (seg_so s) 16 else Inr enc))) = Inr enc"
    and holds: "enc_holds buf hb enc" by blast
  have lhb: "length hb = 8 * n" using length_um_header [OF len] by (simp add: hb_def n_def)
  note al = enc_holds_aligned [OF holds lhb]
  define d where "d = take m (drop (nat (seg_so s)) (sdu_data (seg_sdu s)))"
  have ld: "length d = m" using seg by (simp add: d_def m)
  have rd: "buf_read (sdu_data (seg_sdu s)) (seg_so s) (int m) = Inr d"
    using seg take_drop_segment [of "seg_so s" "int m"] by (simp add: d_def m)
  have wr: "buf_write (enc_buffer enc) (int n) d = Inr (take n (enc_buffer enc) @ d @ drop (n + m) buf)"
  proof -
    have "drop (n + m) (enc_buffer enc) = drop m (drop n (enc_buffer enc))" by (simp add: add.commute)
    also have "\<dots> = drop (n + m) buf" by (simp add: al(6) add.commute)
    finally show ?thesis using nb ld al(4) by (simp add: buf_write_def)
  qed
  have "um_serialize_sdu e s buf = c_bind (Inr enc) (\<lambda>enc.
     c_bind (buf_read (sdu_data (seg_sdu s)) (seg_so s) (seg_size s)) (\<lambda>data.
     c_bind (buf_write (enc_buffer enc) (int (enc_byte enc)) data) (\<lambda>buffer.
     Inr (int (enc_byte enc) + seg_size s, buffer))))"
    unfolding um_serialize_sdu_def put [symmetric] c_bind_assoc by simp
  then have "um_serialize_sdu e s buf = Inr (um_compute_pdu_header_size e s + seg_size s,
           take n (enc_buffer enc) @ take (nat (seg_size s)) (drop (nat (seg_so s)) (sdu_data (seg_sdu s))) @
           drop (nat (um_compute_pdu_header_size e s + seg_size s)) buf)"
    by (simp add: m rd wr [unfolded d_def] al(1) hs d_def nat_add_distrib)
  then show thesis using al(5) by (rule that [unfolded hb_def [symmetric]])
qed

subsection \<open>The receiver reads the header back\<close>

theorem um_header_roundtrip:
  assumes len: "len = 6 \<or> len = 12" and hdr: "bits_of hdr = um_header_bits len f l sn so"
    and sn: "rlc_sn_ok (2 ^ nat len) sn" and so: "0 \<le> so" "so < 2 ^ 16"
  shows "um_decode_header len (hdr @ dat) = Inr (Some (f, l, if f \<and> l then 0 else sn, if f then 0 else so,
           if f \<and> l then 0 else um_header_size len f l))"
proof -
  define buf where "buf = hdr @ dat"
  have lh: "8 * length hdr = 8 * um_header_size len f l" using length_um_header [OF len] by (metis hdr length_bits_of)
  have bits: "bits_of buf = um_header_bits len f l sn so @ bits_of dat" and lb: "length hdr \<le> length buf" by (simp_all add: hdr buf_def)
  have tb: "take_bit (nat len) sn = sn" "take_bit 16 so = so"
    using sn so by (simp_all add: rlc_sn_ok_def take_bit_int_eq_self)
  have si: "bits_num (take 2 (bits_of buf)) = of_bool (\<not> f) * 2 + of_bool (\<not> l)"
    by (simp add: bits um_header_bits_def bits_num_flags [symmetric])
  have room: "2 \<le> 8 * length buf" using lh lb by (simp add: um_header_size_def)
  from len have "um_decode_header len buf = Inr (Some (f, l, if f \<and> l then 0 else sn, if f then 0 else so,
           if f \<and> l then 0 else um_header_size len f l))"
  proof
    assume l6: "len = 6"
    have "bits_num (take 6 (drop 2 (bits_of buf))) = sn" if "\<not> (f \<and> l)"
      using that tb l6 by (auto simp: bits um_header_bits_def take_app bits_num_num_bits)
    moreover have "bits_num (take 16 (drop 8 (bits_of buf))) = so" if "\<not> f"
      using that tb l6 by (auto simp: bits um_header_bits_def take_app drop_app bits_num_num_bits numeral_eq_Suc)
    ultimately show ?thesis
      using lh lb room si l6
      by (cases f; cases l)
        (simp_all add: um_decode_header_def decoder_init_at um_decode_bits_lit Let_def um_header_size_def numeral_2_eq_2)
  next
    assume l12: "len = 12"
    have four: "(4 :: nat) = Suc (Suc (Suc (Suc 0)))" by simp
    have "bits_num (take 12 (drop 4 (bits_of buf))) = sn" if "\<not> (f \<and> l)"
      using that tb l12 by (auto simp: bits um_header_bits_def take_app drop_app bits_num_num_bits numeral_eq_Suc)
    moreover have "bits_num (take 16 (drop 16 (bits_of buf))) = so" if "\<not> f"
      using that tb l12 by (auto simp: bits um_header_bits_def take_app drop_app bits_num_num_bits numeral_eq_Suc)
    ultimately show ?thesis
      using lh lb room si l12
      by (cases f; cases l)
        (simp_all add: um_decode_header_def decoder_init_at um_decode_bits_lit Let_def um_header_size_def numeral_2_eq_2 four)
  qed
  then show ?thesis by (simp add: buf_def)
qed

subsection \<open>The invariant of the transmitter\<close>

text \<open>
  Every segment in the list reaches to the end of its SDU, only the one at the head can lack a
  start, and each is the only one alive of its SDU. The buffer status is exactly what the PDUs of the
  list take when each is sent in one piece.
\<close>

definition um_seg_ok :: "nr_rlc_sdu_segment \<Rightarrow> bool" where
  "um_seg_ok s \<longleftrightarrow>
     0 \<le> seg_so s \<and> 0 \<le> seg_size s \<and> seg_so s + seg_size s = int (length (sdu_data (seg_sdu s))) \<and>
     int (length (sdu_data (seg_sdu s))) \<le> NR_SDU_MAX \<and> seg_is_last s \<and> (seg_is_first s \<longleftrightarrow> seg_so s = 0) \<and>
     (\<not> seg_is_first s \<longrightarrow> 0 < seg_size s) \<and> sdu_ref_count (seg_sdu s) = sdu_free_count (seg_sdu s) + 1"

definition um_pending :: "nr_rlc_entity_um \<Rightarrow> int" where
  "um_pending e = sum_list (map (\<lambda>s. um_compute_pdu_header_size e s + seg_size s) (um_tx_list e))"

definition um_tx_inv :: "nr_rlc_entity_um \<Rightarrow> bool" where
  "um_tx_inv e \<longleftrightarrow> um_cfg e \<and> rlc_sn_ok (um_sn_modulus e) (um_tx_next e) \<and>
     (\<forall>s \<in> set (um_tx_list e). um_seg_ok s) \<and> (\<forall>s \<in> set (tl (um_tx_list e)). seg_is_first s) \<and>
     bs_tx_size (bstatus (um_common e)) = um_pending e \<and>
     sum_list (map seg_size (um_tx_list e)) \<le> um_tx_size e \<and> um_tx_size e \<le> um_tx_maxsize e"

lemma um_header_size_frame [simp]:
  "um_compute_pdu_header_size (e\<lparr>um_common := c\<rparr>) = um_compute_pdu_header_size e"
  "um_compute_pdu_header_size (e\<lparr>um_tx_list := l\<rparr>) = um_compute_pdu_header_size e"
  "um_compute_pdu_header_size (e\<lparr>um_tx_size := n\<rparr>) = um_compute_pdu_header_size e"
  "um_compute_pdu_header_size (e\<lparr>um_tx_next := n\<rparr>) = um_compute_pdu_header_size e"
  "um_compute_pdu_header_size (e\<lparr>um_sdu_rejected := n\<rparr>) = um_compute_pdu_header_size e"
  "um_compute_pdu_header_size (e\<lparr>um_t_log_buffer_full := t\<rparr>) = um_compute_pdu_header_size e"
  by (simp_all add: um_compute_pdu_header_size_def fun_eq_iff)

lemma um_header_size_sdu [simp]:
  "um_compute_pdu_header_size e (s\<lparr>seg_sdu := d\<rparr>) = um_compute_pdu_header_size e s"
  by (simp add: um_compute_pdu_header_size_def)

lemma um_header_size_bounds: "1 \<le> um_compute_pdu_header_size e s" "um_compute_pdu_header_size e s \<le> 4"
  by (simp_all add: um_compute_pdu_header_size_def)

text \<open>The state after a segment is sent: \<open>rest\<close> is what is left of the list.\<close>

lemma um_send_segment_eq:
  assumes cfg: "um_cfg e"
    and seg: "0 \<le> seg_so s" "0 \<le> seg_size s" "seg_so s + seg_size s \<le> int (length (sdu_data (seg_sdu s)))"
    and room: "um_compute_pdu_header_size e s + seg_size s \<le> int (length buf)"
    and alive: "segmented \<Longrightarrow> sdu_ref_count (seg_sdu s) \<noteq> sdu_free_count (seg_sdu s) + 1"
  obtains hdr c where "um_send_segment now e s segmented buf =
      Inr (um_compute_pdu_header_size e s + seg_size s,
           (hdr @ take (nat (seg_size s)) (drop (nat (seg_so s)) (sdu_data (seg_sdu s)))) @
             drop (nat (um_compute_pdu_header_size e s + seg_size s)) buf,
           e\<lparr>um_tx_next := (if \<not> seg_is_first s \<and> seg_is_last s then c_rem (um_tx_next e + 1) (um_sn_modulus e) else um_tx_next e),
             um_tx_size := um_tx_size e - seg_size s, um_common := c,
             um_tx_list := (if segmented then (case um_tx_list e of [] \<Rightarrow> [] | h # t \<Rightarrow>
                 h\<lparr>seg_sdu := (seg_sdu s)\<lparr>sdu_free_count := sdu_free_count (seg_sdu s) + 1\<rparr>\<rparr> # t) else um_tx_list e)\<rparr>)"
    and "bits_of hdr = um_header_bits (um_sn_field_length e) (seg_is_first s) (seg_is_last s) (sdu_sn (seg_sdu s)) (seg_so s)"
    and "bstatus c = bstatus (um_common e)"
proof -
  define e1 where "e1 = (if \<not> seg_is_first s \<and> seg_is_last s
    then e\<lparr>um_tx_next := c_rem (um_tx_next e + 1) (um_sn_modulus e)\<rparr> else e)"
  have e1: "um_compute_pdu_header_size e1 = um_compute_pdu_header_size e" "um_sn_field_length e1 = um_sn_field_length e"
    "um_tx_list e1 = um_tx_list e" "um_common e1 = um_common e" by (simp_all add: e1_def)
  have len: "um_sn_field_length e1 = 6 \<or> um_sn_field_length e1 = 12" using cfg by (auto simp: um_cfg_def e1(2))
  have room1: "um_compute_pdu_header_size e1 s + seg_size s \<le> int (length buf)" using room by (simp add: e1)
  obtain hdr where h: "um_serialize_sdu e1 s buf =
      Inr (um_compute_pdu_header_size e1 s + seg_size s,
           hdr @ take (nat (seg_size s)) (drop (nat (seg_so s)) (sdu_data (seg_sdu s))) @
           drop (nat (um_compute_pdu_header_size e1 s + seg_size s)) buf)"
    and hb: "bits_of hdr = um_header_bits (um_sn_field_length e1) (seg_is_first s) (seg_is_last s) (sdu_sn (seg_sdu s)) (seg_so s)"
    by (rule um_serialize_sdu_layout [OF len seg room1])
  define c where "c = record_waited_time now (seg_sdu s) (upd_stats (\<lambda>st. st\<lparr>txpdu_pkts := txpdu_pkts st + 1,
      txpdu_bytes := txpdu_bytes st + of_nat (length buf)\<rparr>) (um_common e))"
  have fr: "segmented \<Longrightarrow> nr_rlc_free_sdu_segment (seg_sdu s) =
      Some ((seg_sdu s)\<lparr>sdu_free_count := sdu_free_count (seg_sdu s) + 1\<rparr>)"
    using alive by (auto simp: nr_rlc_free_sdu_segment_def)
  show thesis
  proof (rule that [of hdr c])
    show "bstatus c = bstatus (um_common e)" by (simp add: c_def)
    show "bits_of hdr = um_header_bits (um_sn_field_length e) (seg_is_first s) (seg_is_last s) (sdu_sn (seg_sdu s)) (seg_so s)"
      using hb by (simp add: e1)
  next
    have "um_send_segment now e s segmented buf =
      (let e = e1\<lparr>um_tx_size := um_tx_size e1 - seg_size s, um_common := c\<rparr>;
           ret = um_compute_pdu_header_size e1 s + seg_size s;
           b = hdr @ take (nat (seg_size s)) (drop (nat (seg_so s)) (sdu_data (seg_sdu s))) @ drop (nat ret) buf
       in if segmented then (case um_tx_list e of [] \<Rightarrow> Inr (ret, b, e)
            | h # t \<Rightarrow> Inr (ret, b, e\<lparr>um_tx_list := h\<lparr>seg_sdu := (seg_sdu s)\<lparr>sdu_free_count := sdu_free_count (seg_sdu s) + 1\<rparr>\<rparr> # t\<rparr>))
          else Inr (ret, b, e))"
      using h fr by (cases segmented; cases "um_tx_list e")
        (simp_all add: um_send_segment_def Let_def e1_def [symmetric] um_stats_def c_def e1 split: option.split)
    then show "um_send_segment now e s segmented buf =
      Inr (um_compute_pdu_header_size e s + seg_size s,
           (hdr @ take (nat (seg_size s)) (drop (nat (seg_so s)) (sdu_data (seg_sdu s)))) @
             drop (nat (um_compute_pdu_header_size e s + seg_size s)) buf,
           e\<lparr>um_tx_next := (if \<not> seg_is_first s \<and> seg_is_last s then c_rem (um_tx_next e + 1) (um_sn_modulus e) else um_tx_next e),
             um_tx_size := um_tx_size e - seg_size s, um_common := c,
             um_tx_list := (if segmented then (case um_tx_list e of [] \<Rightarrow> [] | h # t \<Rightarrow>
                 h\<lparr>seg_sdu := (seg_sdu s)\<lparr>sdu_free_count := sdu_free_count (seg_sdu s) + 1\<rparr>\<rparr> # t) else um_tx_list e)\<rparr>)"
      by (cases segmented; cases "um_tx_list e") (simp_all add: Let_def e1_def)
  qed
qed

subsection \<open>What a grant does\<close>

definition um_rx_same :: "nr_rlc_entity_um \<Rightarrow> nr_rlc_entity_um \<Rightarrow> bool" where
  "um_rx_same e e' \<longleftrightarrow> um_sn_field_length e' = um_sn_field_length e \<and> um_sn_modulus e' = um_sn_modulus e \<and>
     um_window_size e' = um_window_size e \<and> um_rx_next_highest e' = um_rx_next_highest e \<and>
     um_rx_next_reassembly e' = um_rx_next_reassembly e \<and> um_rx_timer_trigger e' = um_rx_timer_trigger e \<and>
     um_rx_list e' = um_rx_list e \<and> um_rx_size e' = um_rx_size e \<and> um_rx_maxsize e' = um_rx_maxsize e \<and>
     um_t_current e' = um_t_current e \<and> um_t_reassembly_start e' = um_t_reassembly_start e"

lemma um_rx_sameD:
  assumes "um_rx_same e e'"
  shows "um_rx_inv e' = um_rx_inv e" "um_src_ok src e' = um_src_ok src e" "um_sn_field_length e' = um_sn_field_length e"
  using assms by (simp_all add: um_rx_same_def um_rx_inv_def um_cfg_def um_src_ok_def)

definition seg_bytes :: "nr_rlc_sdu_segment \<Rightarrow> nat \<Rightarrow> byte list" where
  "seg_bytes s n = take n (drop (nat (seg_so s)) (sdu_data (seg_sdu s)))"

lemma length_seg_bytes: "um_seg_ok s \<Longrightarrow> int n \<le> seg_size s \<Longrightarrow> length (seg_bytes s n) = n"
  by (auto simp: seg_bytes_def um_seg_ok_def min_def)

text \<open>
  A segment of \<open>n\<close> bytes of the head \<open>s\<close> is sent: either all that is left of it (\<open>l\<close>), or a part, and
  then the rest of the SDU is the new head.
\<close>

definition um_sent :: "nr_rlc_entity_um \<Rightarrow> nr_rlc_sdu_segment \<Rightarrow> nr_rlc_sdu_segment list \<Rightarrow> nat \<Rightarrow> bool \<Rightarrow> nr_rlc_entity_um \<Rightarrow> bool" where
  "um_sent e s rest n l e' \<longleftrightarrow>
     (if l then int n = seg_size s \<and> um_tx_list e' = rest \<and>
              um_tx_next e' = (if seg_is_first s then um_tx_next e else (um_tx_next e + 1) mod um_sn_modulus e)
      else 0 < n \<and> int n < seg_size s \<and> um_tx_next e' = um_tx_next e \<and>
           (\<exists>s2. um_tx_list e' = s2 # rest \<and> sdu_data (seg_sdu s2) = sdu_data (seg_sdu s) \<and>
                 seg_so s2 = seg_so s + int n \<and> seg_size s2 = seg_size s - int n))"

lemma um_send_whole:
  assumes inv: "um_tx_inv e" and list: "um_tx_list e = s # rest"
    and room: "um_compute_pdu_header_size e s + seg_size s \<le> int (length buf)"
    and some: "\<not> um_compute_pdu_header_size e s + 1 > int (length buf)"
  obtains hdr e' where "um_generate_tx_pdu now e buf =
       Inr (int (length hdr + nat (seg_size s)), (hdr @ seg_bytes s (nat (seg_size s))) @ drop (length hdr + nat (seg_size s)) buf, e')"
    and "bits_of hdr = um_header_bits (um_sn_field_length e) (seg_is_first s) True (um_tx_next e) (seg_so s)"
    and "um_tx_inv e'" and "um_sent e s rest (nat (seg_size s)) True e'" and "um_rx_same e e'"
proof -
  have cfg: "um_cfg e" and ok: "um_seg_ok s" using inv list by (simp_all add: um_tx_inv_def)
  define s1 where "s1 = s\<lparr>seg_sdu := (seg_sdu s)\<lparr>sdu_sn := um_tx_next e\<rparr>\<rparr>"
  define e1 where "e1 = e\<lparr>um_tx_list := rest,
      um_common := add_tx_size (- (um_compute_pdu_header_size e s + seg_size s)) (um_common e)\<rparr>"
  have gen: "um_generate_tx_pdu now e buf = um_send_segment now e1 s1 False buf"
    using list room some by (simp add: um_generate_tx_pdu_def Let_def s1_def e1_def)
  have s1: "seg_so s1 = seg_so s" "seg_size s1 = seg_size s" "sdu_data (seg_sdu s1) = sdu_data (seg_sdu s)"
    "seg_is_first s1 = seg_is_first s" "seg_is_last s1" "sdu_sn (seg_sdu s1) = um_tx_next e"
    "um_compute_pdu_header_size e1 s1 = um_compute_pdu_header_size e s"
    using ok by (simp_all add: s1_def e1_def um_seg_ok_def)
  have c1: "um_cfg e1" using cfg by (simp add: e1_def)
  have sg: "0 \<le> seg_so s1" "0 \<le> seg_size s1" "seg_so s1 + seg_size s1 \<le> int (length (sdu_data (seg_sdu s1)))"
    "um_compute_pdu_header_size e1 s1 + seg_size s1 \<le> int (length buf)"
    using ok room by (simp_all add: s1 um_seg_ok_def)
  obtain hdr c where snd: "um_send_segment now e1 s1 False buf =
      Inr (um_compute_pdu_header_size e1 s1 + seg_size s1,
           (hdr @ take (nat (seg_size s1)) (drop (nat (seg_so s1)) (sdu_data (seg_sdu s1)))) @
             drop (nat (um_compute_pdu_header_size e1 s1 + seg_size s1)) buf,
           e1\<lparr>um_tx_next := (if \<not> seg_is_first s1 \<and> seg_is_last s1 then c_rem (um_tx_next e1 + 1) (um_sn_modulus e1) else um_tx_next e1),
             um_tx_size := um_tx_size e1 - seg_size s1, um_common := c,
             um_tx_list := (if False then (case um_tx_list e1 of [] \<Rightarrow> [] | h # t \<Rightarrow>
                 h\<lparr>seg_sdu := (seg_sdu s1)\<lparr>sdu_free_count := sdu_free_count (seg_sdu s1) + 1\<rparr>\<rparr> # t) else um_tx_list e1)\<rparr>)"
    and hb: "bits_of hdr = um_header_bits (um_sn_field_length e1) (seg_is_first s1) (seg_is_last s1) (sdu_sn (seg_sdu s1)) (seg_so s1)"
    and c: "bstatus c = bstatus (um_common e1)"
    by (rule um_send_segment_eq [where segmented = False and now = now, OF c1 sg FalseE])
  have len: "um_sn_field_length e = 6 \<or> um_sn_field_length e = 12" using cfg by (auto simp: um_cfg_def)
  have "8 * length hdr = 8 * um_header_size (um_sn_field_length e) (seg_is_first s) True"
    using hb length_um_header [OF len] length_bits_of [of hdr] by (simp add: s1 e1_def)
  then have lh: "um_compute_pdu_header_size e s = int (length hdr)"
    using ok by (simp add: um_compute_pdu_header_size_eq um_seg_ok_def)
  define e' where "e' = e1\<lparr>um_tx_next := (if seg_is_first s then um_tx_next e else (um_tx_next e + 1) mod um_sn_modulus e),
      um_tx_size := um_tx_size e - seg_size s, um_common := c\<rparr>"
  have nx: "0 \<le> um_tx_next e" using inv by (simp add: um_tx_inv_def rlc_sn_ok_def)
  have M: "0 < um_sn_modulus e" by (rule um_cfgD(3) [OF cfg])
  show thesis
  proof (rule that [of hdr e'])
    show "um_generate_tx_pdu now e buf =
       Inr (int (length hdr + nat (seg_size s)), (hdr @ seg_bytes s (nat (seg_size s))) @ drop (length hdr + nat (seg_size s)) buf, e')"
      using sg(2) nx M unfolding gen snd s1(7) s1(2) lh
      by (simp add: s1 seg_bytes_def nat_add_distrib e'_def e1_def)
    show "bits_of hdr = um_header_bits (um_sn_field_length e) (seg_is_first s) True (um_tx_next e) (seg_so s)"
      using hb by (simp add: s1 e1_def)
    show "um_sent e s rest (nat (seg_size s)) True e'" using sg(2) by (simp add: um_sent_def e'_def e1_def s1)
    show "um_rx_same e e'" by (simp add: e'_def e1_def um_rx_same_def)
    have "\<forall>x \<in> set (tl rest). seg_is_first x" using inv list by (cases rest) (simp_all add: um_tx_inv_def)
    moreover have "um_pending e = um_compute_pdu_header_size e s + seg_size s + um_pending e'"
      by (simp add: um_pending_def list e'_def e1_def)
    ultimately show "um_tx_inv e'"
      using inv list c M sg(2) s1(2) by (auto simp: um_tx_inv_def e'_def e1_def rlc_sn_ok_def)
  qed
qed

text \<open>The head does not fit, and there is room for a part of it.\<close>

lemma um_send_part:
  assumes inv: "um_tx_inv e" and list: "um_tx_list e = s # rest"
    and big: "um_compute_pdu_header_size e s + seg_size s > int (length buf)"
    and room: "um_compute_pdu_header_size e (s\<lparr>seg_is_last := False\<rparr>) + 1 \<le> int (length buf)"
  obtains hdr n e' where "um_generate_tx_pdu now e buf =
       Inr (int (length hdr + n), (hdr @ seg_bytes s n) @ drop (length hdr + n) buf, e')"
    and "bits_of hdr = um_header_bits (um_sn_field_length e) (seg_is_first s) False (um_tx_next e) (seg_so s)"
    and "um_tx_inv e'" and "um_sent e s rest n False e'" and "um_rx_same e e'"
    and "length hdr + n \<le> length buf"
proof -
  have cfg: "um_cfg e" and ok: "um_seg_ok s" using inv list by (simp_all add: um_tx_inv_def)
  have M: "0 < um_sn_modulus e" by (rule um_cfgD(3) [OF cfg])
  let ?h0 = "um_compute_pdu_header_size e s" and ?h1 = "um_compute_pdu_header_size e (s\<lparr>seg_is_last := False\<rparr>)"
  have h01: "?h0 \<le> ?h1" by (simp add: um_compute_pdu_header_size_def)
  define n where "n = nat (int (length buf) - ?h1)"
  have n: "int n = int (length buf) - ?h1" "0 < n" using room by (simp_all add: n_def)
  have nlt: "int n < seg_size s" using n big h01 by simp
  define d where "d = (seg_sdu s)\<lparr>sdu_sn := um_tx_next e, sdu_ref_count := sdu_ref_count (seg_sdu s) + 1\<rparr>"
  define s1 where "s1 = s\<lparr>seg_sdu := d, seg_size := int n, seg_is_last := False\<rparr>"
  define s2 where "s2 = s\<lparr>seg_sdu := d, seg_size := seg_size s - int n, seg_so := seg_so s + int n, seg_is_first := False\<rparr>"
  define c1 where "c1 = upd_stats (\<lambda>st. st\<lparr>txpdu_segmented := txpdu_segmented st + 1\<rparr>)
     (upd_stats (\<lambda>st. st\<lparr>txpdu_segmented := txpdu_segmented st + 1\<rparr>) (add_tx_size (- (?h0 + seg_size s)) (um_common e)))"
  define e1 where "e1 = e\<lparr>um_tx_list := s2 # rest,
      um_common := add_tx_size (um_compute_pdu_header_size e s2 + seg_size s2) c1\<rparr>"
  have "\<not> ?h0 + 1 > int (length buf)" using h01 room by simp
  moreover have "um_compute_pdu_header_size e (s\<lparr>seg_sdu := x, seg_is_last := False\<rparr>) = ?h1" for x
    by (simp add: um_compute_pdu_header_size_def)
  moreover have "?h1 = int (length buf) - int n" using n(1) by simp
  ultimately have gen: "um_generate_tx_pdu now e buf = um_send_segment now e1 s1 True buf"
    using list big n(2)
    by (simp add: add_diff_eq diff_diff_eq2 um_generate_tx_pdu_def um_resegment_def Let_def um_stats_def s1_def s2_def d_def e1_def c1_def)
  have c: "um_cfg e1" using cfg by (simp add: e1_def)
  have h1: "um_compute_pdu_header_size e1 s1 = ?h1" by (simp add: e1_def s1_def um_compute_pdu_header_size_def)
  have sg: "0 \<le> seg_so s1" "0 \<le> seg_size s1" "seg_so s1 + seg_size s1 \<le> int (length (sdu_data (seg_sdu s1)))"
    "um_compute_pdu_header_size e1 s1 + seg_size s1 \<le> int (length buf)"
    unfolding h1 using ok nlt n(1) by (simp_all add: s1_def d_def um_seg_ok_def)
  have alive: "sdu_ref_count (seg_sdu s1) \<noteq> sdu_free_count (seg_sdu s1) + 1" using ok by (simp add: s1_def d_def um_seg_ok_def)
  obtain hdr cc where snd: "um_send_segment now e1 s1 True buf =
      Inr (um_compute_pdu_header_size e1 s1 + seg_size s1,
           (hdr @ take (nat (seg_size s1)) (drop (nat (seg_so s1)) (sdu_data (seg_sdu s1)))) @
             drop (nat (um_compute_pdu_header_size e1 s1 + seg_size s1)) buf,
           e1\<lparr>um_tx_next := (if \<not> seg_is_first s1 \<and> seg_is_last s1 then c_rem (um_tx_next e1 + 1) (um_sn_modulus e1) else um_tx_next e1),
             um_tx_size := um_tx_size e1 - seg_size s1, um_common := cc,
             um_tx_list := (if True then (case um_tx_list e1 of [] \<Rightarrow> [] | h # t \<Rightarrow>
                 h\<lparr>seg_sdu := (seg_sdu s1)\<lparr>sdu_free_count := sdu_free_count (seg_sdu s1) + 1\<rparr>\<rparr> # t) else um_tx_list e1)\<rparr>)"
    and hb: "bits_of hdr = um_header_bits (um_sn_field_length e1) (seg_is_first s1) (seg_is_last s1) (sdu_sn (seg_sdu s1)) (seg_so s1)"
    and cc: "bstatus cc = bstatus (um_common e1)"
    by (rule um_send_segment_eq [where segmented = True and now = now, OF c sg alive])
  have len: "um_sn_field_length e = 6 \<or> um_sn_field_length e = 12" using cfg by (auto simp: um_cfg_def)
  have "8 * length hdr = 8 * um_header_size (um_sn_field_length e) (seg_is_first s) False"
    using hb length_um_header [OF len] length_bits_of [of hdr] by (simp add: s1_def e1_def)
  then have lh: "?h1 = int (length hdr)" by (simp add: um_compute_pdu_header_size_eq)
  define s3 where "s3 = s2\<lparr>seg_sdu := d\<lparr>sdu_free_count := sdu_free_count d + 1\<rparr>\<rparr>"
  define e' where "e' = e1\<lparr>um_tx_size := um_tx_size e - int n, um_common := cc, um_tx_list := s3 # rest\<rparr>"
  have h3: "um_compute_pdu_header_size e s3 = um_compute_pdu_header_size e s2" by (simp add: s3_def)
  have z: "seg_size s3 = seg_size s - int n" "seg_size s2 = seg_size s - int n" by (simp_all add: s3_def s2_def)
  show thesis
  proof (rule that [of hdr n e'])
    show "um_generate_tx_pdu now e buf = Inr (int (length hdr + n), (hdr @ seg_bytes s n) @ drop (length hdr + n) buf, e')"
    proof -
      have "nat (int (length hdr) + int n) = length hdr + n" by simp
      then show ?thesis
        unfolding gen snd h1 lh by (simp add: seg_bytes_def e'_def e1_def s1_def s3_def d_def)
    qed
    show "bits_of hdr = um_header_bits (um_sn_field_length e) (seg_is_first s) False (um_tx_next e) (seg_so s)"
      using hb by (simp add: s1_def d_def e1_def)
    show "length hdr + n \<le> length buf" using n(1) lh by simp
    show "um_sent e s rest n False e'" using nlt n(2) by (simp add: um_sent_def e'_def e1_def s3_def s2_def d_def)
    show "um_rx_same e e'" by (simp add: e'_def e1_def um_rx_same_def)
    have "um_seg_ok s3" using ok nlt n(2) by (simp add: um_seg_ok_def s3_def s2_def d_def)
    moreover have "bs_tx_size (bstatus (um_common e')) = um_pending e'"
      using inv list cc by (simp add: e'_def e1_def um_pending_def h3 z um_tx_inv_def c1_def)
    moreover have "\<forall>x \<in> set (tl (um_tx_list e')). seg_is_first x" using inv list by (simp add: um_tx_inv_def e'_def)
    moreover have "um_cfg e'" using c by (simp add: e'_def)
    ultimately show "um_tx_inv e'"
      using inv list nlt n(2) by (auto simp: um_tx_inv_def e'_def e1_def z)
  qed
qed

lemma um_send_nothing:
  "um_tx_list e = [] \<or> um_compute_pdu_header_size e (hd (um_tx_list e)) + 1 > int (length buf) \<Longrightarrow>
   um_generate_tx_pdu now e buf = Inr (0, buf, e)"
  by (auto simp: um_generate_tx_pdu_def split: list.split)

text \<open>
  The head does not fit, its header as a whole SDU leaves room for a byte, its header as a segment
  does not: the code takes the SDU off the list before it finds out, and the SDU is gone.
\<close>

lemma um_send_lost:
  assumes inv: "um_tx_inv e" and list: "um_tx_list e = s # rest"
    and big: "um_compute_pdu_header_size e s + seg_size s > int (length buf)"
    and some: "um_compute_pdu_header_size e s + 1 \<le> int (length buf)"
    and small: "\<not> um_compute_pdu_header_size e (s\<lparr>seg_is_last := False\<rparr>) + 1 \<le> int (length buf)"
  obtains e' where "um_generate_tx_pdu now e buf = Inr (0, buf, e')" and "um_tx_inv e'" and "um_rx_same e e'"
    and "um_tx_list e' = rest" and "um_tx_size e' = um_tx_size e" and "um_sn_field_length e = 12" and "length buf = 2"
proof -
  have cfg: "um_cfg e" and ok: "um_seg_ok s" using inv list by (simp_all add: um_tx_inv_def)
  define e' where "e' = e\<lparr>um_tx_list := rest,
      um_common := add_tx_size (- (um_compute_pdu_header_size e s + seg_size s)) (um_common e)\<rparr>"
  have "um_compute_pdu_header_size e (s\<lparr>seg_sdu := x, seg_is_last := False\<rparr>) =
      um_compute_pdu_header_size e (s\<lparr>seg_is_last := False\<rparr>)" for x
    by (simp add: um_compute_pdu_header_size_def)
  then have "um_generate_tx_pdu now e buf = Inr (0, buf, e')"
    using list big some small by (simp add: um_generate_tx_pdu_def um_resegment_def Let_def e'_def)
  moreover have "um_tx_inv e'"
  proof -
    have "\<forall>x \<in> set (tl rest). seg_is_first x" using inv list by (cases rest) (simp_all add: um_tx_inv_def)
    moreover have "um_pending e = um_compute_pdu_header_size e s + seg_size s + um_pending e'"
      by (simp add: um_pending_def list e'_def)
    moreover have "0 \<le> seg_size s" using ok by (simp add: um_seg_ok_def)
    ultimately show ?thesis using inv list by (auto simp: um_tx_inv_def e'_def)
  qed
  moreover have "um_rx_same e e'" by (simp add: um_rx_same_def e'_def)
  moreover have "um_sn_field_length e = 12" "length buf = 2"
    using some small ok by (auto simp: um_compute_pdu_header_size_def um_seg_ok_def split: if_splits)
  moreover have "um_tx_list e' = rest" "um_tx_size e' = um_tx_size e" by (simp_all add: e'_def)
  ultimately show thesis by (intro that [of e'])
qed

theorem um_generate_total:
  assumes inv: "um_tx_inv e"
  obtains ret out e' where "nr_rlc_entity_um_generate_pdu now e buf = Inr (ret, out, e')" and "um_tx_inv e'"
    and "um_rx_same e e'" and "0 \<le> ret" and "ret \<le> int (length buf)" and "length out = length buf"
proof (cases "um_tx_list e = [] \<or> um_compute_pdu_header_size e (hd (um_tx_list e)) + 1 > int (length buf)")
  case True
  from um_send_nothing [OF this] show thesis
    by (intro that [of 0 buf e]) (use inv in \<open>simp_all add: nr_rlc_entity_um_generate_pdu_def um_rx_same_def\<close>)
next
  case False
  then obtain s rest where list: "um_tx_list e = s # rest" by (cases "um_tx_list e") auto
  have ok: "um_seg_ok s" using inv list by (simp add: um_tx_inv_def)
  have some: "um_compute_pdu_header_size e s + 1 \<le> int (length buf)" using False list by simp
  note bytes = length_seg_bytes [OF ok]
  note def = nr_rlc_entity_um_generate_pdu_def
  consider (whole) "um_compute_pdu_header_size e s + seg_size s \<le> int (length buf)"
    | (part) "um_compute_pdu_header_size e s + seg_size s > int (length buf)"
        "um_compute_pdu_header_size e (s\<lparr>seg_is_last := False\<rparr>) + 1 \<le> int (length buf)"
    | (lost) "um_compute_pdu_header_size e s + seg_size s > int (length buf)"
        "\<not> um_compute_pdu_header_size e (s\<lparr>seg_is_last := False\<rparr>) + 1 \<le> int (length buf)" by linarith
  then show thesis
  proof cases
    case whole
    have some': "\<not> um_compute_pdu_header_size e s + 1 > int (length buf)" using some by simp
    obtain hdr e' where g: "um_generate_tx_pdu now e buf =
       Inr (int (length hdr + nat (seg_size s)), (hdr @ seg_bytes s (nat (seg_size s))) @ drop (length hdr + nat (seg_size s)) buf, e')"
      and hb: "bits_of hdr = um_header_bits (um_sn_field_length e) (seg_is_first s) True (um_tx_next e) (seg_so s)"
      and i: "um_tx_inv e'" "um_rx_same e e'"
      by (rule um_send_whole [OF inv list whole some'])
    have "um_compute_pdu_header_size e s = int (length hdr)"
      using hb length_bits_of [of hdr] length_um_header [of "um_sn_field_length e"] ok inv
      by (auto simp: um_compute_pdu_header_size_eq um_seg_ok_def um_tx_inv_def um_cfg_def)
    then have "int (length hdr + nat (seg_size s)) \<le> int (length buf)" "length (seg_bytes s (nat (seg_size s))) = nat (seg_size s)"
      using whole ok bytes [of "nat (seg_size s)"] by (simp_all add: um_seg_ok_def)
    then have "length hdr + nat (seg_size s) \<le> length buf" "length (seg_bytes s (nat (seg_size s))) = nat (seg_size s)"
      by (simp_all only: of_nat_le_iff)
    with i whole \<open>um_compute_pdu_header_size e s = int (length hdr)\<close> show thesis
      by (intro that [OF g [folded def]]) simp_all
  next
    case part
    obtain hdr n e' where g: "um_generate_tx_pdu now e buf =
       Inr (int (length hdr + n), (hdr @ seg_bytes s n) @ drop (length hdr + n) buf, e')"
      and i: "um_tx_inv e'" "um_sent e s rest n False e'" "um_rx_same e e'" and fit: "length hdr + n \<le> length buf"
      by (rule um_send_part [OF inv list part])
    have "length (seg_bytes s n) = n" using bytes i(2) by (simp add: um_sent_def)
    with i fit show thesis by (intro that [OF g [folded def]]) simp_all
  next
    case lost
    obtain e' where "um_generate_tx_pdu now e buf = Inr (0, buf, e')" "um_tx_inv e'" "um_rx_same e e'"
      by (rule um_send_lost [OF inv list lost(1) some lost(2)])
    then show thesis by (intro that [of 0 buf e']) (simp_all add: def)
  qed
qed

subsection \<open>The other operations\<close>

lemma um_recv_sdu_total:
  assumes inv: "um_tx_inv e" and fits: "int (length buf) \<le> NR_SDU_MAX"
  obtains e' where "nr_rlc_entity_um_recv_sdu now e buf sdu_id = Inr e'" and "um_tx_inv e'" and "um_rx_same e e'"
    and "um_tx_next e' = um_tx_next e" and "um_tx_maxsize e' = um_tx_maxsize e"
    and "um_tx_size e' = um_tx_size e + (if um_tx_size e + int (length buf) > um_tx_maxsize e then 0 else int (length buf))"
    and "(\<forall>s \<in> set (um_tx_list e). seg_is_first s) \<longrightarrow> (\<forall>s \<in> set (um_tx_list e'). seg_is_first s)"
    and "map (sdu_data \<circ> seg_sdu) (um_tx_list e') = map (sdu_data \<circ> seg_sdu) (um_tx_list e) @
           (if um_tx_size e + int (length buf) > um_tx_maxsize e then [] else [buf])"
proof -
  define e1 where "e1 = um_stats (\<lambda>s. s\<lparr>rxsdu_pkts := rxsdu_pkts s + 1, rxsdu_bytes := rxsdu_bytes s + of_int (int (length buf))\<rparr>) e"
  define e2 where "e2 = (if um_sdu_rejected e1 \<noteq> 0 \<and> um_t_current e1 > um_t_log_buffer_full e1 + 1000
                  then e1\<lparr>um_sdu_rejected := 0, um_t_log_buffer_full := um_t_current e1\<rparr> else e1)"
  have e2: "um_tx_list e2 = um_tx_list e" "um_tx_size e2 = um_tx_size e" "um_tx_maxsize e2 = um_tx_maxsize e"
    "um_compute_pdu_header_size e2 = um_compute_pdu_header_size e" "um_cfg e2 = um_cfg e" "um_rx_same e e2"
    "um_tx_next e2 = um_tx_next e" "um_sn_modulus e2 = um_sn_modulus e" "bstatus (um_common e2) = bstatus (um_common e)"
    by (simp_all add: e2_def e1_def um_stats_def um_rx_same_def um_cfg_def)
  show thesis
  proof (cases "um_tx_size e + int (length buf) > um_tx_maxsize e")
    case True
    define e' where "e' = um_stats (\<lambda>s. s\<lparr>rxsdu_dd_pkts := rxsdu_dd_pkts s + 1, rxsdu_dd_bytes := rxsdu_dd_bytes s + of_int (int (length buf))\<rparr>)
                        (e2\<lparr>um_sdu_rejected := um_sdu_rejected e2 + 1\<rparr>)"
    have r: "nr_rlc_entity_um_recv_sdu now e buf sdu_id = Inr e'"
      using fits True unfolding nr_rlc_entity_um_recv_sdu_def Let_def e1_def [symmetric] e2_def [symmetric] e'_def
      by (simp add: e2)
    have "um_pending e' = um_pending e" by (simp add: um_pending_def e'_def um_stats_def e2)
    then have "um_tx_inv e'" using inv by (simp add: um_tx_inv_def e'_def um_stats_def e2)
    moreover have "um_rx_same e e'" using e2(6) by (simp add: um_rx_same_def e'_def um_stats_def)
    ultimately show thesis using True by (intro that [OF r]) (simp_all add: e'_def um_stats_def e2)
  next
    case False
    define s0 where "s0 = nr_rlc_new_sdu buf sdu_id"
    define c where "c = add_tx_size (um_compute_pdu_header_size e s0 + seg_size s0) (um_common e2)"
    define s where "s = set_time_of_arrival now c s0"
    define e' where "e' = e2\<lparr>um_tx_size := um_tx_size e + int (length buf), um_tx_list := um_tx_list e @ [s], um_common := c\<rparr>"
    have r: "nr_rlc_entity_um_recv_sdu now e buf sdu_id = Inr e'"
      using fits False
      unfolding nr_rlc_entity_um_recv_sdu_def Let_def e1_def [symmetric] e2_def [symmetric] e2(4) s0_def [symmetric]
        c_def [symmetric] s_def [symmetric] nr_rlc_sdu_segment_list_append_def e'_def
      by (simp add: e2)
    have s: "um_seg_ok s" "seg_is_first s" "seg_size s = int (length buf)" "sdu_data (seg_sdu s) = buf"
      "um_compute_pdu_header_size e s = um_compute_pdu_header_size e s0" "seg_size s0 = int (length buf)"
      using fits by (simp_all add: s_def s0_def set_time_of_arrival_def nr_rlc_new_sdu_def um_seg_ok_def Let_def
          um_compute_pdu_header_size_def)
    have "um_pending e' = um_pending e + (um_compute_pdu_header_size e s + seg_size s)"
      by (simp add: um_pending_def e'_def e2)
    moreover have "\<forall>x \<in> set (tl (um_tx_list e @ [s])). seg_is_first x"
      using inv s(2) by (cases "um_tx_list e") (auto simp: um_tx_inv_def)
    ultimately have "um_tx_inv e'"
      using inv s False by (auto simp: um_tx_inv_def e'_def e2 c_def)
    moreover have "um_rx_same e e'" using e2(6) by (simp add: um_rx_same_def e'_def)
    ultimately show thesis using False s(2,4) by (intro that [OF r]) (simp_all add: e'_def e2)
  qed
qed

lemma um_discard_sdu_inv:
  assumes inv: "um_tx_inv e"
  shows "um_tx_inv (nr_rlc_entity_um_discard_sdu e sdu_id)" "um_rx_same e (nr_rlc_entity_um_discard_sdu e sdu_id)"
proof -
  let ?P = "\<lambda>s. sdu_upper_layer_id (seg_sdu s) \<noteq> sdu_id"
  let ?b = "takeWhile ?P (um_tx_list e)"
  show "um_rx_same e (nr_rlc_entity_um_discard_sdu e sdu_id)"
    by (simp add: nr_rlc_entity_um_discard_sdu_def Let_def um_rx_same_def split: list.split)
  show "um_tx_inv (nr_rlc_entity_um_discard_sdu e sdu_id)"
  proof (cases "dropWhile ?P (um_tx_list e)")
    case Nil
    show ?thesis unfolding nr_rlc_entity_um_discard_sdu_def Let_def Nil by (simp add: inv)
  next
    case (Cons cur rest)
    have list: "um_tx_list e = ?b @ cur # rest" using takeWhile_dropWhile_id [of ?P "um_tx_list e"] Cons by simp
    define b where "b = ?b"
    have list: "um_tx_list e = b @ cur # rest" using list by (simp add: b_def)
    show ?thesis
    proof (cases "seg_is_first cur \<and> seg_is_last cur")
      case True
      define e' where "e' = e\<lparr>um_tx_list := b @ rest,
        um_common := add_tx_size (- (um_compute_pdu_header_size e cur + seg_size cur)) (um_common e)\<rparr>"
      have "nr_rlc_entity_um_discard_sdu e sdu_id = e'"
        using Cons True by (simp add: nr_rlc_entity_um_discard_sdu_def Let_def e'_def b_def)
      moreover have "um_tx_inv e'"
      proof -
        have "0 \<le> seg_size cur" using inv by (auto simp: um_tx_inv_def list um_seg_ok_def)
        moreover have "\<forall>x \<in> set (tl (b @ rest)). seg_is_first x"
          using inv list by (cases b; cases rest) (auto simp: um_tx_inv_def)
        moreover have "um_pending e = um_pending e' + (um_compute_pdu_header_size e cur + seg_size cur)"
          by (simp add: um_pending_def list e'_def)
        ultimately show ?thesis using inv by (auto simp: um_tx_inv_def list e'_def)
      qed
      ultimately show ?thesis by simp
    next
      case False
      with inv show ?thesis unfolding nr_rlc_entity_um_discard_sdu_def Let_def Cons by auto
    qed
  qed
qed

definition um_inv :: "nr_rlc_entity_um \<Rightarrow> bool" where
  "um_inv e \<longleftrightarrow> um_rx_inv e \<and> um_tx_inv e"

lemma um_reestablish_inv:
  assumes "um_inv e"
  shows "um_inv (nr_rlc_entity_um_reestablishment e)"
proof -
  have "0 \<le> rx_bytes (um_rx_list e)" using assms by (intro rx_bytes_nonneg) (simp add: um_inv_def um_rx_inv_def)
  moreover have "0 \<le> sum_list (map seg_size (um_tx_list e))"
    using assms by (intro sum_list_nonneg) (auto simp: um_inv_def um_tx_inv_def um_seg_ok_def)
  moreover have "0 < um_sn_modulus e" using assms by (intro um_cfgD(3)) (simp add: um_inv_def um_rx_inv_def)
  ultimately show ?thesis
    using assms by (simp add: um_inv_def nr_rlc_entity_um_reestablishment_def um_clear_entity_def um_rx_inv_def um_tx_inv_def
        um_pending_def rlc_sn_ok_def rx_win_def delivered_first_def)
qed

lemma new_um_inv:
  assumes "new_nr_rlc_entity_um rx_max tx_max t len = Inr e" "0 \<le> rx_max" "0 \<le> tx_max"
  shows "um_inv e"
proof -
  have "len = 6 \<or> len = 12"
    using assms(1) by (auto simp: new_nr_rlc_entity_um_def c_bind_eq_Inr_conv c_check_def split: if_splits)
  then show ?thesis
    using assms by (auto simp: new_nr_rlc_entity_um_def c_bind_eq_Inr_conv um_inv_def um_rx_inv_def um_tx_inv_def um_cfg_def
        rlc_sn_ok_def rx_win_def delivered_first_def um_pending_def nr_rlc_entity_init_def)
qed

lemma um_tx_same_inv: "um_tx_same e e' \<Longrightarrow> um_rx_inv e' \<Longrightarrow> um_tx_inv e \<Longrightarrow> um_tx_inv e'"
proof -
  assume s: "um_tx_same e e'" and r: "um_rx_inv e'" and t: "um_tx_inv e"
  have "um_compute_pdu_header_size e' = um_compute_pdu_header_size e"
    using s by (simp add: um_compute_pdu_header_size_def um_tx_same_def fun_eq_iff)
  then have "um_pending e' = um_pending e" using s by (simp add: um_pending_def um_tx_same_def)
  with s r t show "um_tx_inv e'" by (simp add: um_tx_inv_def um_tx_same_def um_rx_inv_def)
qed

end
