(* ===== verification/Rlc_Um_Link.thy ===== *)
theory Rlc_Um_Link
  imports Rlc_Um_Tx
begin

text \<open>
  The unacknowledged mode as a whole: runs of all calls on one entity, and a transmitter and a receiver
  joined by a link.
\<close>

subsection \<open>Runs of an entity\<close>

datatype um_event =
    UmSdu u64 "byte list" int    \<comment> \<open>\<^verbatim>\<open>recv_sdu\<close>, with the clock of the statistics\<close>
  | UmGrant u64 "byte list"      \<comment> \<open>\<^verbatim>\<open>generate_pdu\<close> into a buffer\<close>
  | UmPdu "byte list"            \<comment> \<open>\<^verbatim>\<open>recv_pdu\<close>\<close>
  | UmTick u64                   \<comment> \<open>\<^verbatim>\<open>set_time\<close>\<close>
  | UmDiscard int                \<comment> \<open>\<^verbatim>\<open>discard_sdu\<close>\<close>
  | UmReestablish                \<comment> \<open>\<^verbatim>\<open>reestablishment\<close>\<close>

datatype um_output = UmDeliver "byte list" | UmSend "byte list"

fun um_step :: "nr_rlc_entity_um \<Rightarrow> um_event \<Rightarrow> (nr_rlc_entity_um \<times> um_output list) c_result" where
  "um_step e (UmSdu now buf sdu_id) = c_bind (nr_rlc_entity_um_recv_sdu now e buf sdu_id) (\<lambda>e. Inr (e, []))"
| "um_step e (UmGrant now buf) =
     c_bind (nr_rlc_entity_um_generate_pdu now e buf) (\<lambda>(n, out, e). Inr (e, if n = 0 then [] else [UmSend (take (nat n) out)]))"
| "um_step e (UmPdu buf) = c_bind (nr_rlc_entity_um_recv_pdu e buf) (\<lambda>(e, out). Inr (e, map UmDeliver out))"
| "um_step e (UmTick now) = c_bind (nr_rlc_entity_um_set_time e now) (\<lambda>e. Inr (e, []))"
| "um_step e (UmDiscard sdu_id) = Inr (nr_rlc_entity_um_discard_sdu e sdu_id, [])"
| "um_step e UmReestablish = Inr (nr_rlc_entity_um_reestablishment e, [])"

fun um_event_ok :: "byte list set \<Rightarrow> (int \<Rightarrow> byte list) \<Rightarrow> int \<Rightarrow> um_event \<Rightarrow> bool" where
  "um_event_ok whole src len (UmSdu _ buf _) \<longleftrightarrow> int (length buf) \<le> NR_SDU_MAX"
| "um_event_ok whole src len (UmPdu buf) \<longleftrightarrow> um_genuine whole src len buf"
| "um_event_ok whole src len _ \<longleftrightarrow> True"

fun um_output_ok :: "byte list set \<Rightarrow> (int \<Rightarrow> byte list) \<Rightarrow> um_output \<Rightarrow> bool" where
  "um_output_ok whole src (UmDeliver s) \<longleftrightarrow> s \<in> whole \<union> range src"
| "um_output_ok whole src (UmSend _) \<longleftrightarrow> True"

lemma um_src_ok_Nil: "um_rx_list e' = [] \<Longrightarrow> um_src_ok src e \<Longrightarrow> um_src_ok src e'"
  by (simp add: um_src_ok_def)

text \<open>
  One call: it returns, and what is stored and delivered are pieces of the SDUs that the bytes come from.
\<close>

fun um_sized :: "um_event \<Rightarrow> bool" where
  "um_sized (UmSdu _ buf _) \<longleftrightarrow> int (length buf) \<le> NR_SDU_MAX"
| "um_sized _ \<longleftrightarrow> True"

lemma um_step_total:
  assumes inv: "um_inv e" and sized: "um_sized ev"
  shows "\<exists>e' ds. um_step e ev = Inr (e', ds) \<and> um_inv e' \<and> um_sn_field_length e' = um_sn_field_length e \<and>
    (\<forall>whole src. um_src_ok src e \<longrightarrow> um_event_ok whole src (um_sn_field_length e) ev \<longrightarrow>
       um_src_ok src e' \<and> (\<forall>d \<in> set ds. um_output_ok whole src d))"
proof -
  let ?len = "um_sn_field_length e"
  have r: "um_rx_inv e" and t: "um_tx_inv e" using inv by (simp_all add: um_inv_def)
  have quiet: "\<exists>e' ds. um_step e ev = Inr (e', ds) \<and> um_inv e' \<and> um_sn_field_length e' = ?len \<and>
      (\<forall>whole src. um_src_ok src e \<longrightarrow> um_event_ok whole src ?len ev \<longrightarrow>
         um_src_ok src e' \<and> (\<forall>d \<in> set ds. um_output_ok whole src d))"
    if "um_step e ev = Inr (e', ds)" "um_inv e'" "um_sn_field_length e' = ?len" "set (um_rx_list e') \<subseteq> set (um_rx_list e)"
      "\<forall>d \<in> set ds. \<exists>b. d = UmSend b" for e' ds
  proof -
    have "um_src_ok src e'" if "um_src_ok src e" for src by (rule um_src_ok_subset [OF that \<open>set (um_rx_list e') \<subseteq> _\<close>])
    moreover have "\<forall>d \<in> set ds. um_output_ok whole src d" for whole src using that(5) by fastforce
    ultimately show ?thesis using that(1-3) by blast
  qed
  have rx: "um_inv e' \<and> um_sn_field_length e' = ?len \<and> set (um_rx_list e') \<subseteq> set (um_rx_list e)"
    if "um_rx_same e e'" "um_tx_inv e'" for e'
    using um_rx_sameD [OF that(1)] that r by (simp add: um_inv_def um_rx_same_def)
  show ?thesis
  proof (cases ev)
    case (UmSdu now buf sdu_id)
    then have "int (length buf) \<le> NR_SDU_MAX" using sized by simp
    then obtain e' where "nr_rlc_entity_um_recv_sdu now e buf sdu_id = Inr e'" "um_tx_inv e'" "um_rx_same e e'"
      by (rule um_recv_sdu_total [OF t])
    then show ?thesis using rx UmSdu by (intro quiet [of e' "[]"]) simp_all
  next
    case (UmGrant now buf)
    from um_generate_total [OF t, of now buf] obtain n out e' where
      "nr_rlc_entity_um_generate_pdu now e buf = Inr (n, out, e')" "um_tx_inv e'" "um_rx_same e e'" by blast
    then show ?thesis using rx UmGrant by (intro quiet [of e' "if n = 0 then [] else [UmSend (take (nat n) out)]"]) simp_all
  next
    case (UmPdu buf)
    from um_recv_pdu_total [OF r, of buf] obtain e' out where p: "nr_rlc_entity_um_recv_pdu e buf = Inr (e', out)"
      "um_rx_inv e'" "um_tx_same e e'" "\<forall>whole src. um_src_ok src e \<longrightarrow> um_genuine whole src ?len buf \<longrightarrow>
           um_src_ok src e' \<and> set out \<subseteq> whole \<union> range src" by blast
    have "um_inv e'" using um_tx_same_inv [OF p(3,2) t] p(2) by (simp add: um_inv_def)
    moreover have "um_sn_field_length e' = ?len" using p(3) by (simp add: um_tx_same_def)
    moreover have "um_step e ev = Inr (e', map UmDeliver out)" using UmPdu p(1) by simp
    moreover have "\<forall>whole src. um_src_ok src e \<longrightarrow> um_event_ok whole src ?len ev \<longrightarrow>
        um_src_ok src e' \<and> (\<forall>d \<in> set (map UmDeliver out). um_output_ok whole src d)"
      using p(4) UmPdu by auto
    ultimately show ?thesis by blast
  next
    case (UmTick now)
    from um_set_time_total [OF r, of now] obtain e' where p: "nr_rlc_entity_um_set_time e now = Inr e'" "um_rx_inv e'"
      "um_tx_same e e'" "set (um_rx_list e') \<subseteq> set (um_rx_list e)" by blast
    then show ?thesis
      using um_tx_same_inv [OF p(3,2) t] UmTick by (intro quiet [of e' "[]"]) (simp_all add: um_inv_def um_tx_same_def)
  next
    case (UmDiscard sdu_id)
    then show ?thesis
      using rx [OF um_discard_sdu_inv(2,1) [OF t]] by (intro quiet [of "nr_rlc_entity_um_discard_sdu e sdu_id" "[]"]) simp_all
  next
    case UmReestablish
    have "um_rx_list (nr_rlc_entity_um_reestablishment e) = []" "um_sn_field_length (nr_rlc_entity_um_reestablishment e) = ?len"
      by (simp_all add: nr_rlc_entity_um_reestablishment_def um_clear_entity_def)
    then show ?thesis
      using UmReestablish um_reestablish_inv inv by (intro quiet [of "nr_rlc_entity_um_reestablishment e" "[]"]) simp_all
  qed
qed

lemma um_event_ok_sized: "um_event_ok whole src len ev \<Longrightarrow> um_sized ev"
  by (cases ev) simp_all

interpretation um_src: safe_machine um_step
  "\<lambda>e. um_inv e \<and> um_src_ok src e \<and> um_sn_field_length e = len"
  "um_event_ok whole src len" "um_output_ok whole src"
  for whole src len
  using um_step_total um_event_ok_sized by unfold_locales metis

text \<open>
  The SDUs behind a run: at each call a function \<open>src\<close> says which SDU a sequence number stands for. It may change from
  one call to the next, as numbers are used again, but not for a number of which a segment is still stored.
\<close>

definition um_pieces_of :: "(int \<Rightarrow> byte list) \<Rightarrow> nr_rlc_entity_um \<Rightarrow> bool" where
  "um_pieces_of src e \<longleftrightarrow> (\<forall>p \<in> set (um_rx_list e). pdu_data p \<noteq> None \<longrightarrow> segment_of (src (pdu_sn p)) p)"

fun um_sources_ok :: "byte list set \<Rightarrow> nr_rlc_entity_um \<Rightarrow> (int \<Rightarrow> byte list) list \<Rightarrow> um_event list \<Rightarrow> bool" where
  "um_sources_ok whole e [] evs \<longleftrightarrow> evs = []"
| "um_sources_ok whole e (src # srcs) [] \<longleftrightarrow> False"
| "um_sources_ok whole e (src # srcs) (ev # evs) \<longleftrightarrow>
     um_pieces_of src e \<and> um_event_ok whole src (um_sn_field_length e) ev \<and>
     (case um_step e ev of Inl _ \<Rightarrow> True | Inr (e', _) \<Rightarrow> um_sources_ok whole e' srcs evs)"

lemma um_run_total:
  assumes "um_inv e" and "\<forall>ev \<in> set evs. um_sized ev"
  shows "\<exists>e' outs. run_steps um_step e evs = Inr (e', outs) \<and> um_inv e' \<and>
    (\<forall>whole srcs. um_sources_ok whole e srcs evs \<longrightarrow> (\<forall>src \<in> set srcs. \<forall>sn. int (length (src sn)) \<le> NR_SDU_MAX) \<longrightarrow>
       (\<forall>s. UmDeliver s \<in> set outs \<longrightarrow> s \<in> whole \<or> (\<exists>src \<in> set srcs. s \<in> range src)))"
  using assms
proof (induction evs arbitrary: e)
  case (Cons ev evs)
  have sized: "um_sized ev" "\<forall>ev \<in> set evs. um_sized ev" using Cons.prems(2) by simp_all
  obtain e1 ds where st: "um_step e ev = Inr (e1, ds)" "um_inv e1"
    and src: "\<And>whole src. um_src_ok src e \<Longrightarrow> um_event_ok whole src (um_sn_field_length e) ev \<Longrightarrow> \<forall>d \<in> set ds. um_output_ok whole src d"
    using um_step_total [OF Cons.prems(1) sized(1)] by blast
  obtain e2 outs where r: "run_steps um_step e1 evs = Inr (e2, outs)" "um_inv e2"
    and rest: "\<And>whole srcs s. um_sources_ok whole e1 srcs evs \<Longrightarrow> \<forall>src \<in> set srcs. \<forall>sn. int (length (src sn)) \<le> NR_SDU_MAX \<Longrightarrow>
       UmDeliver s \<in> set outs \<Longrightarrow> s \<in> whole \<or> (\<exists>src \<in> set srcs. s \<in> range src)"
    using Cons.IH [OF st(2) sized(2)] by blast
  have "s \<in> whole \<or> (\<exists>src \<in> set srcs. s \<in> range src)"
    if ok: "um_sources_ok whole e srcs (ev # evs)" and len: "\<forall>src \<in> set srcs. \<forall>sn. int (length (src sn)) \<le> NR_SDU_MAX"
      and s: "UmDeliver s \<in> set (ds @ outs)" for whole srcs s
  proof (cases srcs)
    case (Cons src srcs')
    then have "um_src_ok src e" using ok len by (auto simp: um_src_ok_def um_pieces_of_def)
    then have now: "\<forall>d \<in> set ds. um_output_ok whole src d" by (rule src) (use ok Cons in simp)
    have later: "um_sources_ok whole e1 srcs' evs" using ok Cons st(1) by simp
    show ?thesis
    proof (cases "UmDeliver s \<in> set ds")
      case True
      with now have "um_output_ok whole src (UmDeliver s)" by blast
      then show ?thesis using Cons by auto
    next
      case False
      then show ?thesis using rest [OF later] len s Cons by auto
    qed
  qed (use ok in simp)
  then show ?case using st(1) r by (intro exI [of _ e2] exI [of _ "ds @ outs"]) simp
qed simp

text \<open>C13: whatever sequence of calls an unacknowledged mode entity sees after its creation, it returns: SDUs of any
  size up to the maximum, grants of any size, any bytes from the other side, time, discards and re-establishment, in
  any order. The buffer status then is the exact number of bytes that the pending PDUs take. And when the bytes that
  arrive are PDUs of SDUs, lost, repeated and reordered in any way, mixed with bytes that are no PDU, only whole SDUs that
  were sent are delivered, as long as no sequence number is used for another SDU while a segment with this number is still
  stored (\<open>um_sources_ok\<close>: the SDU that a number stands for may change at every call, but not under a stored segment).
\<close>

theorem rlc_um_safe:
  assumes "new_nr_rlc_entity_um rx_max tx_max t_reassembly len = Inr e0" and "0 \<le> rx_max" and "0 \<le> tx_max"
    and "\<forall>ev \<in> set evs. um_sized ev"
  shows "\<exists>e outs. run_steps um_step e0 evs = Inr (e, outs) \<and>
    bs_tx_size (nr_rlc_entity_um_buffer_status e) =
      (\<Sum>s \<leftarrow> um_tx_list e. um_compute_pdu_header_size e s + seg_size s) \<and>
    0 \<le> nr_rlc_entity_um_available_tx_space e \<and>
    (\<forall>whole srcs. um_sources_ok whole e0 srcs evs \<longrightarrow> (\<forall>src \<in> set srcs. \<forall>sn. int (length (src sn)) \<le> NR_SDU_MAX) \<longrightarrow>
       (\<forall>s. UmDeliver s \<in> set outs \<longrightarrow> s \<in> whole \<or> (\<exists>src \<in> set srcs. s \<in> range src)))"
proof -
  have "um_inv e0" by (rule new_um_inv [OF assms(1-3)])
  from um_run_total [OF this assms(4)] obtain e outs where run: "run_steps um_step e0 evs = Inr (e, outs)" "um_inv e"
    and out: "\<forall>whole srcs. um_sources_ok whole e0 srcs evs \<longrightarrow> (\<forall>src \<in> set srcs. \<forall>sn. int (length (src sn)) \<le> NR_SDU_MAX) \<longrightarrow>
       (\<forall>s. UmDeliver s \<in> set outs \<longrightarrow> s \<in> whole \<or> (\<exists>src \<in> set srcs. s \<in> range src))" by blast
  then have "bs_tx_size (nr_rlc_entity_um_buffer_status e) =
      (\<Sum>s \<leftarrow> um_tx_list e. um_compute_pdu_header_size e s + seg_size s)" "0 \<le> nr_rlc_entity_um_available_tx_space e"
    by (simp_all add: nr_rlc_entity_um_buffer_status_def nr_rlc_entity_um_available_tx_space_def um_inv_def um_tx_inv_def um_pending_def)
  with run(1) out show ?thesis by blast
qed

lemma new_um_projr: "len = 6 \<or> len = 12 \<Longrightarrow>
    new_nr_rlc_entity_um rx_max tx_max t len = Inr (projr (new_nr_rlc_entity_um rx_max tx_max t len))"
  by (auto simp: new_nr_rlc_entity_um_def time_average_new_def)

text \<open>
  The witness: number 2 stands for one SDU, which arrives in three segments, out of order, and after a
  re-establishment for another one; in between come a whole SDU, and an SDU to send. All three SDUs are delivered.
\<close>

definition reused_numbers :: "(int \<Rightarrow> byte list) list" where
  "reused_numbers = replicate 6 (\<lambda>sn. [1, 2, 3, 4, 5]) @ replicate 3 (\<lambda>sn. if sn = 2 then [6, 7, 8] else [])"

definition reused_events :: "um_event list" where
  "reused_events = [UmPdu [66, 1, 2], UmTick 1, UmPdu [130, 0, 4, 5], UmPdu [0, 9], UmPdu [194, 0, 2, 3, 4], UmReestablish,
     UmPdu [66, 6], UmSdu 0 [1, 2, 3] 7, UmPdu [130, 0, 1, 7, 8]]"

lemma reused_numbers_ok:
  "um_sources_ok {[9]} (projr (new_nr_rlc_entity_um 100 100 35 6)) reused_numbers reused_events"
  "\<forall>ev \<in> set reused_events. um_sized ev"
  by code_simp+

lemma reused_numbers_delivered:
  "map_sum (\<lambda>x. x) snd (run_steps um_step (projr (new_nr_rlc_entity_um 100 100 35 6)) reused_events) =
     Inr [UmDeliver [9], UmDeliver [1, 2, 3, 4, 5], UmDeliver [6, 7, 8]]"
  by code_simp

lemma reused_numbers_sized: "\<forall>src \<in> set reused_numbers. \<forall>sn. int (length (src sn)) \<le> NR_SDU_MAX"
  by (auto simp: reused_numbers_def NR_SDU_MAX_def)

theorem rlc_um_safe_witness:
  "\<exists>e outs. run_steps um_step (projr (new_nr_rlc_entity_um 100 100 35 6)) reused_events = Inr (e, outs) \<and>
     bs_tx_size (nr_rlc_entity_um_buffer_status e) = (\<Sum>s \<leftarrow> um_tx_list e. um_compute_pdu_header_size e s + seg_size s) \<and>
     0 \<le> nr_rlc_entity_um_available_tx_space e \<and>
     (\<forall>s. UmDeliver s \<in> set outs \<longrightarrow> s = [9] \<or> (\<exists>src \<in> set reused_numbers. s \<in> range src))"
proof -
  obtain e outs where r: "run_steps um_step (projr (new_nr_rlc_entity_um 100 100 35 6)) reused_events = Inr (e, outs)"
    "bs_tx_size (nr_rlc_entity_um_buffer_status e) = (\<Sum>s \<leftarrow> um_tx_list e. um_compute_pdu_header_size e s + seg_size s)"
    "0 \<le> nr_rlc_entity_um_available_tx_space e"
    and out: "\<forall>whole srcs. um_sources_ok whole (projr (new_nr_rlc_entity_um 100 100 35 6)) srcs reused_events \<longrightarrow>
      (\<forall>src \<in> set srcs. \<forall>sn. int (length (src sn)) \<le> NR_SDU_MAX) \<longrightarrow>
      (\<forall>s. UmDeliver s \<in> set outs \<longrightarrow> s \<in> whole \<or> (\<exists>src \<in> set srcs. s \<in> range src))"
    using rlc_um_safe [OF new_um_projr [of 6 100 100 35], of reused_events] reused_numbers_ok(2) by auto
  have "\<forall>s. UmDeliver s \<in> set outs \<longrightarrow> s \<in> {[9]} \<or> (\<exists>src \<in> set reused_numbers. s \<in> range src)"
    using out reused_numbers_ok(1) reused_numbers_sized by blast
  with r show ?thesis by auto
qed

text \<open>
  What the condition excludes: the first half of an SDU is stored, the rest and a whole cycle of numbers are lost, and the
  second half of the next SDU with the same number completes it to an SDU that was never sent.
\<close>

lemma um_reused_number_mixes:
  "map_sum (\<lambda>x. x) snd (run_steps um_step (projr (new_nr_rlc_entity_um 100 100 35 6)) [UmPdu [66, 1, 2], UmPdu [130, 0, 2, 8, 9]]) =
     Inr [UmDeliver [1, 2, 8, 9]]"
  by code_simp

subsection \<open>A receiver in step with its transmitter\<close>

fun covers :: "int \<Rightarrow> int \<Rightarrow> nr_rlc_pdu list \<Rightarrow> bool" where
  "covers a b [] \<longleftrightarrow> a = b"
| "covers a b (p # ps) \<longleftrightarrow> pdu_so p = a \<and> 0 < pdu_size p \<and> \<not> pdu_is_last p \<and> covers (a + pdu_size p) b ps"

lemma covers_mono: "covers a b ps \<Longrightarrow> a \<le> b"
  by (induction ps arbitrary: a) force+

lemma covers_below: "covers a b ps \<Longrightarrow> p \<in> set ps \<Longrightarrow> pdu_so p < b"
  by (induction ps arbitrary: a) (auto dest: covers_mono)

lemma covers_append:
  "covers a b ps \<Longrightarrow> pdu_so p = b \<Longrightarrow> 0 < pdu_size p \<Longrightarrow> \<not> pdu_is_last p \<Longrightarrow> covers a (b + pdu_size p) (ps @ [p])"
  by (induction ps arbitrary: a) auto

lemma covers_full:
  "covers a b ps \<Longrightarrow> \<forall>q \<in> set ps. pdu_sn q = x \<Longrightarrow> sdu_full_loop x (a - 1) (ps @ qs) = sdu_full_loop x (b - 1) qs"
proof (induction ps arbitrary: a)
  case (Cons p ps)
  have "max (a - 1) (a + pdu_size p - 1) = a + pdu_size p - 1" using Cons.prems(1) by simp
  then show ?case using Cons.IH [of "a + pdu_size p"] Cons.prems by simp
qed simp

text \<open>
  \<open>k\<close> bytes of the SDU \<open>d\<close> with number \<open>x\<close> have arrived, everything before it is delivered, and
  nothing of what follows has come.
\<close>

definition um_sync :: "nr_rlc_entity_um \<Rightarrow> int \<Rightarrow> byte list \<Rightarrow> nat \<Rightarrow> bool" where
  "um_sync e x d k \<longleftrightarrow> um_rx_inv e \<and> um_rx_next_reassembly e = x \<and>
     um_rx_next_highest e = (if k = 0 then x else (x + 1) mod um_sn_modulus e) \<and>
     covers 0 (int k) (seg_group x (um_rx_list e)) \<and>
     (\<forall>p \<in> set (um_rx_list e). if pdu_sn p = x then segment_of d p else pdu_data p = None) \<and>
     um_rx_size e = rx_bytes (um_rx_list e)"

lemma um_syncD:
  assumes "um_sync e x d k"
  shows "um_rx_inv e" "um_cfg e" "um_rx_next_reassembly e = x"
    "um_rx_next_highest e = (if k = 0 then x else (x + 1) mod um_sn_modulus e)"
    "\<forall>p \<in> set (um_rx_list e). pdu_data p \<noteq> None \<longrightarrow> segment_of d p"
proof -
  show inv: "um_rx_inv e" using assms by (simp add: um_sync_def)
  then show "um_cfg e" by (simp add: um_rx_inv_def)
  show "um_rx_next_reassembly e = x" "um_rx_next_highest e = (if k = 0 then x else (x + 1) mod um_sn_modulus e)"
    using assms by (simp_all add: um_sync_def)
  have "\<forall>p \<in> set (um_rx_list e). if pdu_sn p = x then segment_of d p else pdu_data p = None"
    using assms by (simp add: um_sync_def)
  then show "\<forall>p \<in> set (um_rx_list e). pdu_data p \<noteq> None \<longrightarrow> segment_of d p" by metis
qed

lemma covers_rx_bytes: "covers a b ps \<Longrightarrow> rx_bytes ps = b - a"
  by (induction ps arbitrary: a) force+

lemma rx_bytes_sync:
  assumes "\<forall>p \<in> set cs. cell_ok p" "\<forall>p \<in> set cs. pdu_sn p \<noteq> x \<longrightarrow> pdu_data p = None"
  shows "rx_bytes cs = rx_bytes (seg_group x cs)"
  using assms by (induction cs) (auto simp: cell_ok_def)

lemma um_sync_insert:
  assumes sync: "um_sync e x d k" and kn: "k + n \<le> length d" "0 < n" and len: "int (length d) \<le> um_rx_maxsize e"
    and p: "p = nr_rlc_new_pdu x (int k) (k = 0) (k + n = length d) (take n (drop k d))" and nw: "\<not> (k = 0 \<and> k + n = length d)"
  shows "um_rx_mid (um_insert e p) x"
    and "um_rx_size e + int n \<le> um_rx_maxsize e"
    and "seg_group x (um_rx_list (um_insert e p)) = seg_group x (um_rx_list e) @ [p]"
    and "set (um_rx_list (um_insert e p)) = insert p (set (um_rx_list e))"
    and "segment_of d p" and "um_rx_size (um_insert e p) = rx_bytes (um_rx_list (um_insert e p))"
proof -
  have inv: "um_rx_inv e" and sz: "um_rx_size e = rx_bytes (um_rx_list e)" using sync by (simp_all add: um_sync_def)
  have sn: "rlc_sn_ok (um_sn_modulus e) (pdu_sn p)" using sync by (auto simp: um_sync_def um_rx_inv_def p)
  have cell: "cell_ok p" "pdu_data p \<noteq> None" "pdu_size p = int n" "pdu_sn p = x" "pdu_so p = int k"
    using kn nw by (auto simp: p cell_ok_def)
  show seg: "segment_of d p" using kn by (auto simp: p segment_of_def)
  have "rx_bytes (um_rx_list e) = int k"
    using rx_bytes_sync [of "um_rx_list e" x] covers_rx_bytes [of 0 "int k" "seg_group x (um_rx_list e)"] sync
    by (auto simp: um_sync_def um_rx_inv_def)
  then show room: "um_rx_size e + int n \<le> um_rx_maxsize e" using sz kn len by simp
  show "um_rx_mid (um_insert e p) x"
    using um_insert_mid [OF inv sn cell(1,2)] room cell(3,4) by simp
  obtain ps qs where cs: "um_rx_list e = ps @ qs" and L: "um_rx_list (um_insert e p) = ps @ p # qs"
    and after: "\<forall>c \<in> set qs. win_key (um_window_size e) (um_rx_next_highest e) p < win_key (um_window_size e) (um_rx_next_highest e) c"
    by (rule um_insert_split [OF inv sn])
  have cov: "covers 0 (int k) (seg_group x ps @ seg_group x qs)" using sync by (simp add: um_sync_def cs)
  have "seg_group x qs = []"
  proof (rule ccontr)
    assume "seg_group x qs \<noteq> []"
    then obtain c where c: "c \<in> set qs" "pdu_sn c = x" by (auto simp: seg_group_def filter_empty_conv)
    then have "pdu_so c < int k" using covers_below [OF cov] by (auto simp: seg_group_def)
    moreover have "int k < pdu_so c" using after c cell(4,5) by (auto simp: win_key_def less_prod_def')
    ultimately show False by simp
  qed
  then show "seg_group x (um_rx_list (um_insert e p)) = seg_group x (um_rx_list e) @ [p]"
    by (simp add: L cs cell(4))
  show "set (um_rx_list (um_insert e p)) = insert p (set (um_rx_list e))" by (auto simp: L cs)
  show "um_rx_size (um_insert e p) = rx_bytes (um_rx_list (um_insert e p))" using sz by (simp add: L cs)
qed

lemma um_sync_not_old:
  assumes "um_sync e x d k"
  shows "\<not> um_sn_compare_rx e x (um_rx_next_reassembly e) < 0"
  using assms by (simp add: um_sync_def um_sn_compare_rx_def)

lemma win_dist_prev:
  assumes "0 < w" "rlc_sn_ok (2 * w) x"
  shows "win_dist w ((x + 1) mod (2 * w)) x = w - 1"
proof -
  have "win_dist w ((x + 1) mod (2 * w)) x = (x - (x + 1) mod (2 * w) + w) mod (2 * w)"
    using assms by (simp add: win_dist_mod rlc_sn_ok_def)
  also have "\<dots> = (w - 1) mod (2 * w)"
  proof -
    have "(x - (x + 1) mod (2 * w) + w) mod (2 * w) = (x - (x + 1) + w) mod (2 * w)"
      by (metis mod_add_left_eq mod_diff_right_eq)
    then show ?thesis by simp
  qed
  finally show ?thesis using assms(1) by simp
qed

lemma um_sync_full:
  assumes sync: "um_sync e x d k" and kn: "k + n \<le> length d" "0 < n" and len: "int (length d) \<le> um_rx_maxsize e"
    and p: "p = nr_rlc_new_pdu x (int k) (k = 0) (k + n = length d) (take n (drop k d))" and nw: "\<not> (k = 0 \<and> k + n = length d)"
  shows "sdu_full (um_rx_list (um_insert e p)) x \<longleftrightarrow> k + n = length d"
proof -
  note ins = um_sync_insert [OF sync kn len p nw]
  let ?L = "um_rx_list (um_insert e p)" and ?g = "seg_group x (um_rx_list e)"
  have cov: "covers 0 (int k) ?g" using sync by (simp add: um_sync_def)
  have "sdu_full_loop x (0 - 1) (?g @ [p]) = sdu_full_loop x (int k - 1) [p]"
    by (rule covers_full [OF cov]) (simp add: set_group)
  also have "\<dots> \<longleftrightarrow> k + n = length d" by (simp add: p)
  finally have loop: "sdu_full_loop x (- 1) (?g @ [p]) \<longleftrightarrow> k + n = length d" by simp
  have "hd (?g @ [p]) \<in> set ?L" using ins(3) by (metis hd_in_set append_is_Nil_conv not_Cons_self2 set_group mem_Collect_eq)
  moreover have "pdu_sn (hd (?g @ [p])) = x"
  proof -
    have "hd (?g @ [p]) \<in> set (seg_group x ?L)" using ins(3) by (metis hd_in_set append_is_Nil_conv not_Cons_self2)
    then show ?thesis by (simp add: set_group)
  qed
  moreover have "\<forall>q \<in> set ?L. pdu_sn q = x \<longrightarrow> segment_of d q" using sync ins(4,5) by (auto simp: um_sync_def)
  ultimately have "pdu_data (hd (?g @ [p])) \<noteq> None" by (auto simp: segment_of_def)
  with loop show ?thesis unfolding sdu_full_group [OF um_rx_mid_grouped [OF ins(1)]] ins(3) by simp
qed

lemma um_sync_more:
  assumes sync: "um_sync e x d k" and kn: "k + n < length d" "0 < n" and len: "int (length d) \<le> um_rx_maxsize e"
    and p: "p = nr_rlc_new_pdu x (int k) (k = 0) False (take n (drop k d))"
  obtains e' where "um_reception_actions (um_insert e p) x = Inr (e', [])" and "um_sync e' x d (k + n)"
    and "um_tx_same e e'" and "um_rx_maxsize e' = um_rx_maxsize e"
proof -
  let ?i = "um_insert e p" and ?w = "um_window_size e"
  have kn': "k + n \<le> length d" and p': "p = nr_rlc_new_pdu x (int k) (k = 0) (k + n = length d) (take n (drop k d))"
    and nw: "\<not> (k = 0 \<and> k + n = length d)" using kn p by simp_all
  note ins = um_sync_insert [OF sync kn' kn(2) len p' nw] and full = um_sync_full [OF sync kn' kn(2) len p' nw]
  have nf: "\<not> sdu_full (um_rx_list ?i) x" using full kn by simp
  have inv: "um_rx_inv e" and cfg: "um_cfg e" using um_syncD [OF sync] by blast+
  have w: "0 < ?w" and M: "um_sn_modulus e = 2 * ?w" by (rule um_cfgD [OF cfg])+
  have x: "rlc_sn_ok (2 * ?w) x" using sync M by (auto simp: um_sync_def um_rx_inv_def)
  have h: "rlc_sn_ok (2 * ?w) (um_rx_next_highest e)" using inv M by (simp add: um_rx_inv_def)
  have cov: "covers 0 (int (k + n)) (seg_group x (um_rx_list ?i))"
    using covers_append [of 0 "int k" "seg_group x (um_rx_list e)" p] sync kn unfolding ins(3) by (simp add: um_sync_def p)
  have cells: "\<forall>q \<in> set (um_rx_list ?i). if pdu_sn q = x then segment_of d q else pdu_data q = None"
    using sync ins(4,5) by (auto simp: um_sync_def p)
  have cmp: "um_sn_compare_rx ?i x (um_rx_next_highest ?i) = win_dist ?w (um_rx_next_highest e) x - ?w"
    using um_sn_compare_rx_win [of ?i] cfg win_dist_h [OF w h] by simp
  show thesis
  proof (cases "k = 0")
    case True
    then have hx: "um_rx_next_highest e = x" using sync by (simp add: um_sync_def)
    have beyond: "um_sn_compare_rx ?i x (um_rx_next_highest ?i) \<ge> 0" using cmp win_dist_h [OF w x] by (simp add: hx)
    obtain e' where a: "um_reception_actions ?i x = Inr (e', [])" "um_rx_inv e'" "um_tx_same ?i e'"
      "um_rx_next_highest e' = (x + 1) mod um_sn_modulus ?i" "um_rx_maxsize e' = um_rx_maxsize ?i"
      "um_rx_size e' - rx_bytes (um_rx_list e') = um_rx_size ?i - rx_bytes (um_rx_list ?i)"
      "um_rx_list e' = filter (\<lambda>q. win_dist (um_window_size ?i) (um_rx_next_highest ?i) x - um_window_size ?i
         < win_dist (um_window_size ?i) (um_rx_next_highest ?i) (pdu_sn q)) (um_rx_list ?i)"
      "win_dist (um_window_size ?i) ((x + 1) mod um_sn_modulus ?i) (um_rx_next_reassembly ?i) < um_window_size ?i \<longrightarrow>
           um_rx_next_reassembly e' = um_rx_next_reassembly ?i"
      by (rule um_actions_shift [OF ins(1) nf beyond])
    have re: "um_rx_next_reassembly e' = x" using a(8) win_dist_prev [OF w x] sync M by (simp add: um_sync_def)
    have g: "seg_group x (um_rx_list e') = seg_group x (um_rx_list ?i)"
      using win_dist_h [OF w x] w by (auto simp: a(7) hx seg_group_def intro!: filter_cong)
    have tx: "um_tx_same e e'" by (rule um_tx_same_trans [OF um_insert_tx a(3)])
    then have M': "um_sn_modulus e' = um_sn_modulus e" by (simp add: um_tx_same_def)
    have "um_sync e' x d (k + n)"
      using a(2,4) re g cov cells kn M' ins(6) a(6) by (auto simp: um_sync_def a(7))
    then show thesis by (rule that [OF a(1) _ tx]) (simp add: a(5))
  next
    case False
    then have hx: "um_rx_next_highest e = (x + 1) mod (2 * ?w)" using sync M by (simp add: um_sync_def)
    have "\<not> um_sn_compare_rx ?i x (um_rx_next_highest ?i) \<ge> 0" using cmp win_dist_prev [OF w x] by (simp add: hx)
    note st = um_actions_stay [OF ins(1) nf this]
    have tx: "um_tx_same e (um_reception_timer ?i)" by (rule um_tx_same_trans [OF um_insert_tx um_reception_timer_tx])
    then have "um_sync (um_reception_timer ?i) x d (k + n)"
      using st(2) cov cells sync ins(6) False by (simp add: um_sync_def um_tx_same_def)
    then show thesis by (rule that [OF st(1) _ tx]) simp
  qed
qed

lemma um_sync_last:
  assumes sync: "um_sync e x d k" and kn: "k + n = length d" "0 < n" "0 < k" and len: "int (length d) \<le> um_rx_maxsize e"
    and p: "p = nr_rlc_new_pdu x (int k) False True (take n (drop k d))" and max: "int (length d) \<le> NR_SDU_MAX"
  obtains e' where "um_reception_actions (um_insert e p) x = Inr (e', [d])" and "\<forall>d'. um_sync e' ((x + 1) mod um_sn_modulus e) d' 0"
    and "um_tx_same e e'" and "um_rx_maxsize e' = um_rx_maxsize e"
proof -
  let ?i = "um_insert e p" and ?w = "um_window_size e" and ?x' = "(x + 1) mod um_sn_modulus e"
  have kn': "k + n \<le> length d" and p': "p = nr_rlc_new_pdu x (int k) (k = 0) (k + n = length d) (take n (drop k d))"
    and nw: "\<not> (k = 0 \<and> k + n = length d)" using kn p by simp_all
  note ins = um_sync_insert [OF sync kn' kn(2) len p' nw] and full = um_sync_full [OF sync kn' kn(2) len p' nw]
  have f: "sdu_full (um_rx_list ?i) x" using full kn by simp
  have cfg: "um_cfg e" and re: "um_rx_next_reassembly e = x" and hx: "um_rx_next_highest e = ?x'"
    using um_syncD [OF sync] kn by simp_all
  have w: "0 < ?w" and M: "um_sn_modulus e = 2 * ?w" "0 < um_sn_modulus e" by (rule um_cfgD [OF cfg])+
  have x: "rlc_sn_ok (um_sn_modulus e) x" using sync by (auto simp: um_sync_def um_rx_inv_def)
  obtain e' out e1 where a: "um_reception_actions ?i x = Inr (e', out)" "um_reassemble_and_deliver ?i x = Inr (e1, out)"
    "um_rx_inv e'" "um_tx_same ?i e'" "um_rx_list e' = clear_sn x (um_rx_list ?i)"
    "um_rx_next_highest e' = um_rx_next_highest ?i" "um_rx_maxsize e' = um_rx_maxsize ?i"
    "um_rx_size e' - rx_bytes (um_rx_list e') = um_rx_size ?i - rx_bytes (um_rx_list ?i)"
    "um_rx_next_reassembly ?i = x \<longrightarrow>
       skip_delivered (um_sn_modulus ?i) (clear_sn x (um_rx_list ?i)) x = Inr (um_rx_next_reassembly e')"
    by (rule um_actions_full [OF ins(1) f])
  have "um_src_ok (\<lambda>_. d) ?i" using um_syncD(5) [OF sync] ins(4,5) max by (simp add: um_src_ok_def)
  then have out: "out = [d]" using um_reassemble_src [OF ins(1) f _ a(2)] by blast
  have tx: "um_tx_same e e'" by (rule um_tx_same_trans [OF um_insert_tx a(4)])
  then have M': "um_sn_modulus e' = um_sn_modulus e" by (simp add: um_tx_same_def)
  have W': "um_window_size e' = ?w" using a(3) M M' um_cfgD(2) [of e'] by (simp add: um_rx_inv_def)
  have x': "rlc_sn_ok (um_sn_modulus e) ?x'" using M by (simp add: rlc_sn_ok_def)
  have win: "rx_win ?w ?x' (um_rx_list e')" using a(3,6) hx W' by (simp add: um_rx_inv_def)
  have abs: "\<not> sdu_delivered (um_rx_list e') ?x'" using rx_win_h_absent [OF w _ win] x' M by simp
  have nog: "seg_group ?x' (um_rx_list e') = []"
    using win win_dist_h [OF w] x' M by (auto simp: rx_win_def seg_group_def filter_empty_conv)
  have del: "sdu_delivered (um_rx_list e') x"
    using ins(3) by (auto simp: a(5) sdu_delivered_clear)
  have "um_rx_next_reassembly e' = ?x'"
  proof -
    obtain r where r: "skip_delivered (um_sn_modulus e) (um_rx_list e') x = Inr r" "rlc_sn_ok (um_sn_modulus e) r"
      "\<not> sdu_delivered (um_rx_list e') r" "(r - x) mod um_sn_modulus e \<le> (?x' - x) mod um_sn_modulus e"
      by (rule skip_delivered_total [OF M(2) x x' abs])
    have r': "r = um_rx_next_reassembly e'" using a(9) re r(1) by (simp add: a(5))
    have "r \<noteq> x" using del r(3) by auto
    then have "(r - x) mod um_sn_modulus e \<noteq> (x - x) mod um_sn_modulus e"
      using mod_diff_inj [of r "um_sn_modulus e" x x] r(2) x by (auto simp: rlc_sn_ok_def)
    moreover have "(?x' - x) mod um_sn_modulus e = 1"
    proof -
      have "(?x' - x) mod um_sn_modulus e = (x + 1 - x) mod um_sn_modulus e" by (rule mod_diff_left_eq)
      then show ?thesis using M w by simp
    qed
    ultimately have "(r - x) mod um_sn_modulus e = (?x' - x) mod um_sn_modulus e"
      using r(4) pos_mod_sign [OF M(2), of "r - x"] by simp
    then show ?thesis using mod_diff_inj [of r "um_sn_modulus e" ?x' x] r(2) x' r' by (auto simp: rlc_sn_ok_def)
  qed
  moreover have "\<forall>q \<in> set (um_rx_list e'). pdu_data q = None"
    using sync ins(4) by (auto simp: a(5) clear_sn_def um_sync_def p)
  ultimately have "\<forall>d'. um_sync e' ?x' d' 0"
    using a(3,6,8) hx nog ins(6) M' by (auto simp: um_sync_def seg_group_def filter_empty_conv)
  then show thesis using a(1,7) out tx by (intro that [of e']) simp_all
qed

subsection \<open>A transmitter and a receiver\<close>

text \<open>
  A grant at the transmitter, and the PDU it makes, if any, at the receiver: the new states and what
  is delivered. \<open>um_link\<close> serves a list of grants; nothing is lost.
\<close>

definition um_link_step :: "u64 \<Rightarrow> nr_rlc_entity_um \<Rightarrow> nr_rlc_entity_um \<Rightarrow> byte list \<Rightarrow>
    (nr_rlc_entity_um \<times> nr_rlc_entity_um \<times> byte list list) c_result" where
  "um_link_step now tx rx grant =
     c_bind (nr_rlc_entity_um_generate_pdu now tx grant) (\<lambda>(n, out, tx).
     if n = 0 then Inr (tx, rx, [])
     else c_bind (nr_rlc_entity_um_recv_pdu rx (take (nat n) out)) (\<lambda>(rx, ds). Inr (tx, rx, ds)))"

fun um_link :: "u64 \<Rightarrow> nr_rlc_entity_um \<Rightarrow> nr_rlc_entity_um \<Rightarrow> byte list list \<Rightarrow>
    (nr_rlc_entity_um \<times> nr_rlc_entity_um \<times> byte list list) c_result" where
  "um_link now tx rx [] = Inr (tx, rx, [])"
| "um_link now tx rx (g # gs) =
     c_bind (um_link_step now tx rx g) (\<lambda>(tx, rx, ds).
     c_bind (um_link now tx rx gs) (\<lambda>(tx, rx, ds'). Inr (tx, rx, ds @ ds')))"

definition um_sdus :: "nr_rlc_entity_um \<Rightarrow> byte list list" where
  "um_sdus e = map (sdu_data \<circ> seg_sdu) (um_tx_list e)"

definition um_linked :: "nr_rlc_entity_um \<Rightarrow> nr_rlc_entity_um \<Rightarrow> bool" where
  "um_linked tx rx \<longleftrightarrow> um_tx_inv tx \<and> um_sn_field_length rx = um_sn_field_length tx \<and> [] \<notin> set (um_sdus tx) \<and>
     NR_SDU_MAX \<le> um_rx_maxsize rx \<and>
     (case um_tx_list tx of [] \<Rightarrow> um_sync rx (um_tx_next tx) [] 0
      | s # _ \<Rightarrow> um_sync rx (um_tx_next tx) (sdu_data (seg_sdu s)) (nat (seg_so s)))"

lemma um_sync_common [simp]: "um_sync (e\<lparr>um_common := c\<rparr>) x d k = um_sync e x d k"
  by (simp add: um_sync_def)

lemma um_sync_0: "um_sync e x d 0 \<Longrightarrow> um_sync e x d' 0"
proof -
  assume s: "um_sync e x d 0"
  have "seg_group x (um_rx_list e) = []"
  proof (cases "seg_group x (um_rx_list e)")
    case (Cons p ps)
    then have "covers (pdu_size p) 0 ps" "0 < pdu_size p" using s by (auto simp: um_sync_def)
    then show ?thesis using covers_mono by fastforce
  qed simp
  then have "\<forall>p \<in> set (um_rx_list e). pdu_sn p \<noteq> x" by (auto simp: seg_group_def filter_empty_conv)
  with s show ?thesis by (auto simp: um_sync_def)
qed

lemma um_recv_whole:
  assumes "um_decode_header (um_sn_field_length e) (hdr @ dat) = Inr (Some (True, True, sn, so, h))"
    and "length hdr = 1" "dat \<noteq> []"
  shows "\<exists>c. nr_rlc_entity_um_recv_pdu e (hdr @ dat) = Inr (e\<lparr>um_common := c\<rparr>, [dat])"
proof -
  have "\<not> length (hdr @ dat) < 2" using assms(2,3) by (cases dat) auto
  moreover have "drop 1 (hdr @ dat) = dat" using assms(2) by simp
  ultimately show ?thesis
    using assms(1) by (auto simp: nr_rlc_entity_um_recv_pdu_def Let_def um_stats_def)
qed

lemma um_recv_segment:
  assumes "um_decode_header (um_sn_field_length e) (hdr @ dat) = Inr (Some (f, l, sn, so, length hdr))"
    and "\<not> (f \<and> l)" "f \<or> so \<noteq> 0" "dat \<noteq> []" "um_rx_size e + int (length dat) \<le> um_rx_maxsize e"
    and "\<not> um_sn_compare_rx e sn (um_rx_next_reassembly e) < 0"
  obtains c where "nr_rlc_entity_um_recv_pdu e (hdr @ dat) =
    um_reception_actions (um_insert (e\<lparr>um_common := c\<rparr>) (nr_rlc_new_pdu sn so f l dat)) sn"
proof -
  define c where "c = upd_stats (\<lambda>s. s\<lparr>rxpdu_pkts := rxpdu_pkts s + 1,
      rxpdu_bytes := rxpdu_bytes s + of_nat (length (hdr @ dat))\<rparr>) (um_common e)"
  have "nr_rlc_entity_um_recv_pdu e (hdr @ dat) = um_store_pdu (e\<lparr>um_common := c\<rparr>) (hdr @ dat) sn so f l (length hdr)"
    using assms(1-3) by (auto simp: nr_rlc_entity_um_recv_pdu_def Let_def um_stats_def c_def)
  also have "\<dots> = um_reception_actions (um_insert (e\<lparr>um_common := c\<rparr>) (nr_rlc_new_pdu sn so f l dat)) sn"
    using um_store_pdu_insert [of "length hdr" "hdr @ dat" "e\<lparr>um_common := c\<rparr>" sn so f l] assms(4-6) by simp
  finally show thesis by (rule that)
qed

text \<open>One segment goes over.\<close>

lemma um_sync_recv:
  assumes sync: "um_sync rx x d k" and kn: "k + n \<le> length d" "0 < n" and max: "int (length d) \<le> NR_SDU_MAX"
    and room: "NR_SDU_MAX \<le> um_rx_maxsize rx" and l: "l \<longleftrightarrow> k + n = length d"
    and hb: "bits_of hdr = um_header_bits (um_sn_field_length rx) (k = 0) l x (int k)"
  obtains rx' where "nr_rlc_entity_um_recv_pdu rx (hdr @ take n (drop k d)) = Inr (rx', if l then [d] else [])"
    and "um_sn_field_length rx' = um_sn_field_length rx" and "um_rx_maxsize rx' = um_rx_maxsize rx"
    and "if l then \<forall>d'. um_sync rx' (if k = 0 then x else (x + 1) mod um_sn_modulus rx) d' 0 else um_sync rx' x d (k + n)"
proof -
  let ?dat = "take n (drop k d)"
  have cfg: "um_cfg rx" and inv: "um_rx_inv rx" and re: "um_rx_next_reassembly rx = x" using um_syncD [OF sync] by blast+
  have len: "um_sn_field_length rx = 6 \<or> um_sn_field_length rx = 12" and M: "um_sn_modulus rx = 2 ^ nat (um_sn_field_length rx)"
    using cfg by (auto simp: um_cfg_def)
  have sn: "rlc_sn_ok (2 ^ nat (um_sn_field_length rx)) x" using inv re by (auto simp: um_rx_inv_def M)
  have "int k < 2 ^ 16" using kn max by (simp add: NR_SDU_MAX_def)
  note dec = um_header_roundtrip [OF len hb sn _ this, of ?dat, simplified]
  have lh: "length hdr = um_header_size (um_sn_field_length rx) (k = 0) l"
    using length_um_header [OF len] length_bits_of [of hdr] hb by simp
  have ld: "length ?dat = n" using kn by simp
  then have ne: "?dat \<noteq> []" using kn by auto
  show thesis
  proof (cases "k = 0 \<and> l")
    case True
    then have d: "?dat = d" and h1: "length hdr = 1" using l lh by (simp_all add: um_header_size_def)
    from um_recv_whole [of rx hdr ?dat] dec True h1 ne d obtain c where
      "nr_rlc_entity_um_recv_pdu rx (hdr @ ?dat) = Inr (rx\<lparr>um_common := c\<rparr>, [d])" by auto
    then show thesis
      using True sync um_sync_0 by (intro that [of "rx\<lparr>um_common := c\<rparr>"]) auto
  next
    case False
    have dec': "um_decode_header (um_sn_field_length rx) (hdr @ ?dat) = Inr (Some (k = 0, l, x, int k, length hdr))"
      using dec False lh by auto
    have fit: "um_rx_size rx + int (length ?dat) \<le> um_rx_maxsize rx"
      using um_sync_insert(2) [OF sync kn _ refl] max room False l unfolding ld by linarith
    have nw: "\<not> (k = 0 \<and> l)" "k = 0 \<or> int k \<noteq> 0" using False by auto
    obtain c where r: "nr_rlc_entity_um_recv_pdu rx (hdr @ ?dat) =
        um_reception_actions (um_insert (rx\<lparr>um_common := c\<rparr>) (nr_rlc_new_pdu x (int k) (k = 0) l ?dat)) x"
      by (rule um_recv_segment [OF dec' nw ne fit um_sync_not_old [OF sync]])
    let ?rx = "rx\<lparr>um_common := c\<rparr>"
    have sync1: "um_sync ?rx x d k" using sync by simp
    have len1: "int (length d) \<le> um_rx_maxsize ?rx" using max room by simp
    show thesis
    proof (cases l)
      case True
      have k: "k + n = length d" "0 < n" "0 < k" using True False l kn by auto
      have p: "nr_rlc_new_pdu x (int k) (k = 0) l ?dat = nr_rlc_new_pdu x (int k) False True ?dat" using True k by simp
      obtain rx' where "um_reception_actions (um_insert ?rx (nr_rlc_new_pdu x (int k) (k = 0) l ?dat)) x = Inr (rx', [d])"
        "\<forall>d'. um_sync rx' ((x + 1) mod um_sn_modulus ?rx) d' 0" "um_tx_same ?rx rx'" "um_rx_maxsize rx' = um_rx_maxsize ?rx"
        by (rule um_sync_last [OF sync1 k len1 p max])
      then show thesis using True k r by (intro that [of rx']) (simp_all add: um_tx_same_def)
    next
      case nl: False
      have k: "k + n < length d" using nl l kn by simp
      have p: "nr_rlc_new_pdu x (int k) (k = 0) l ?dat = nr_rlc_new_pdu x (int k) (k = 0) False ?dat" using nl by simp
      obtain rx' where "um_reception_actions (um_insert ?rx (nr_rlc_new_pdu x (int k) (k = 0) l ?dat)) x = Inr (rx', [])"
        "um_sync rx' x d (k + n)" "um_tx_same ?rx rx'" "um_rx_maxsize rx' = um_rx_maxsize ?rx"
        by (rule um_sync_more [OF sync1 k kn(2) len1 p])
      then show thesis using nl r by (intro that [of rx']) (simp_all add: um_tx_same_def)
    qed
  qed
qed

definition um_bytes_left :: "nr_rlc_entity_um \<Rightarrow> nat" where
  "um_bytes_left e = (\<Sum>s \<leftarrow> um_tx_list e. nat (seg_size s))"

lemma um_link_stepI:
  assumes "um_generate_tx_pdu now tx grant = Inr (int m, out, tx')" and "0 < m" and "take m out = pdu"
    and "nr_rlc_entity_um_recv_pdu rx pdu = Inr (rx', ds)"
  shows "um_link_step now tx rx grant = Inr (tx', rx', ds)"
  using assms by (simp add: um_link_step_def nr_rlc_entity_um_generate_pdu_def)

text \<open>
  A grant of two bytes, with sequence numbers of 12 bits, can lose the SDU at the head (the theory
  \<^verbatim>\<open>Rlc_Um_Props\<close> shows it); no other grant does, however small. Grants of five bytes always move bytes.
\<close>

definition um_lossless_grant :: "int \<Rightarrow> byte list \<Rightarrow> bool" where
  "um_lossless_grant len grant \<longleftrightarrow> \<not> (len = 12 \<and> length grant = 2)"

definition um_moving :: "byte list list \<Rightarrow> nat" where
  "um_moving grants = length (filter (\<lambda>g. 5 \<le> length g) grants)"

lemma um_moving_simps [simp]:
  "um_moving [] = 0" "um_moving (g # gs) = (if 5 \<le> length g then Suc (um_moving gs) else um_moving gs)"
  by (simp_all add: um_moving_def)

lemma um_moving_replicate [simp]: "um_moving (replicate n g) = (if 5 \<le> length g then n else 0)"
  by (simp add: um_moving_def filter_replicate)

lemma um_part_room:
  assumes "um_sn_field_length e = 6 \<or> um_sn_field_length e = 12" and "um_lossless_grant (um_sn_field_length e) grant"
    and "seg_is_last s" and "um_compute_pdu_header_size e s + 1 \<le> int (length grant)"
  shows "um_compute_pdu_header_size e (s\<lparr>seg_is_last := False\<rparr>) + 1 \<le> int (length grant)"
  using assms by (auto simp: um_compute_pdu_header_size_def um_lossless_grant_def split: if_splits)

lemma um_linked_step:
  assumes lk: "um_linked tx rx" and g: "um_lossless_grant (um_sn_field_length tx) grant"
  obtains tx' rx' ds where "um_link_step now tx rx grant = Inr (tx', rx', ds)" and "um_linked tx' rx'"
    and "um_sdus tx = ds @ um_sdus tx'" and "um_sn_field_length tx' = um_sn_field_length tx"
    and "um_bytes_left tx' \<le> um_bytes_left tx"
    and "um_tx_list tx \<noteq> [] \<longrightarrow> 5 \<le> length grant \<longrightarrow> um_bytes_left tx' < um_bytes_left tx"
proof (cases "um_tx_list tx = [] \<or> um_compute_pdu_header_size tx (hd (um_tx_list tx)) + 1 > int (length grant)")
  case True
  then have "um_link_step now tx rx grant = Inr (tx, rx, [])"
    using um_send_nothing [of tx grant now] by (simp add: um_link_step_def nr_rlc_entity_um_generate_pdu_def)
  moreover have "um_tx_list tx \<noteq> [] \<longrightarrow> \<not> 5 \<le> length grant"
  proof -
    have "um_compute_pdu_header_size tx (hd (um_tx_list tx)) \<le> 4" by (rule um_header_size_bounds(2))
    then show ?thesis using True by linarith
  qed
  ultimately show thesis using lk by (intro that [of tx rx "[]"]) simp_all
next
  case room: False
  then obtain s rest where Cons: "um_tx_list tx = s # rest" by (cases "um_tx_list tx") auto
  have inv: "um_tx_inv tx" and fl: "um_sn_field_length rx = um_sn_field_length tx" and ne: "[] \<notin> set (um_sdus tx)"
    and mx: "NR_SDU_MAX \<le> um_rx_maxsize rx" and sync: "um_sync rx (um_tx_next tx) (sdu_data (seg_sdu s)) (nat (seg_so s))"
    using lk Cons by (simp_all add: um_linked_def)
  let ?d = "sdu_data (seg_sdu s)" and ?k = "nat (seg_so s)" and ?x = "um_tx_next tx"
  have ok: "um_seg_ok s" using inv Cons by (simp add: um_tx_inv_def)
  have first: "\<forall>r \<in> set rest. seg_is_first r \<and> um_seg_ok r" using inv Cons by (auto simp: um_tx_inv_def)
  have k: "int ?k = seg_so s" "seg_is_first s \<longleftrightarrow> ?k = 0" "int (length ?d) = seg_so s + seg_size s" "int (length ?d) \<le> NR_SDU_MAX"
    using ok by (auto simp: um_seg_ok_def)
  have pos: "0 < seg_size s"
  proof (cases "seg_is_first s")
    case True
    have "?d \<noteq> []" using ne Cons by (auto simp: um_sdus_def)
    then have "0 < length ?d" by simp
    moreover have "seg_so s = 0" using ok True by (simp add: um_seg_ok_def)
    ultimately show ?thesis using k(3) by linarith
  qed (use ok in \<open>simp add: um_seg_ok_def\<close>)
  have MM: "um_sn_modulus rx = um_sn_modulus tx"
    using um_syncD(2) [OF sync] inv fl by (simp add: um_cfg_def um_tx_inv_def)
  have hd: "um_compute_pdu_header_size tx s + 1 \<le> int (length grant)" using room Cons by simp
  have hd': "um_compute_pdu_header_size tx (s\<lparr>seg_is_last := False\<rparr>) + 1 \<le> int (length grant)"
    using um_part_room [OF _ g _ hd] inv ok by (auto simp: um_tx_inv_def um_cfg_def um_seg_ok_def)
  obtain hdr n l tx' where gen: "um_generate_tx_pdu now tx grant =
       Inr (int (length hdr + n), (hdr @ seg_bytes s n) @ drop (length hdr + n) grant, tx')"
    and hb: "bits_of hdr = um_header_bits (um_sn_field_length tx) (seg_is_first s) l ?x (seg_so s)"
    and i': "um_tx_inv tx'" and sent: "um_sent tx s rest n l tx'" and same: "um_rx_same tx tx'"
  proof (cases "um_compute_pdu_header_size tx s + seg_size s \<le> int (length grant)")
    case True
    have "\<not> um_compute_pdu_header_size tx s + 1 > int (length grant)" using hd by simp
    from um_send_whole [OF inv Cons True this] that show thesis by metis
  next
    case False
    then have "um_compute_pdu_header_size tx s + seg_size s > int (length grant)" by simp
    from um_send_part [OF inv Cons this hd'] that show thesis by metis
  qed
  have n: "0 < n" "?k + n \<le> length ?d" "l \<longleftrightarrow> ?k + n = length ?d"
    using sent pos k by (auto simp: um_sent_def split: if_splits)
  have fits: "int n \<le> seg_size s" using n k by linarith
  have hb': "bits_of hdr = um_header_bits (um_sn_field_length rx) (?k = 0) l ?x (int ?k)" using hb k fl by simp
  obtain rx' where r: "nr_rlc_entity_um_recv_pdu rx (hdr @ take n (drop ?k ?d)) = Inr (rx', if l then [?d] else [])"
    "um_sn_field_length rx' = um_sn_field_length rx" "um_rx_maxsize rx' = um_rx_maxsize rx"
    "if l then \<forall>d'. um_sync rx' (if ?k = 0 then ?x else (?x + 1) mod um_sn_modulus rx) d' 0 else um_sync rx' ?x ?d (?k + n)"
    by (rule um_sync_recv [OF sync n(2,1) k(4) mx n(3) hb'])
  have step: "um_link_step now tx rx grant = Inr (tx', rx', if l then [?d] else [])"
  proof -
    have "length (hdr @ seg_bytes s n) = length hdr + n" using length_seg_bytes [OF ok fits] by simp
    then have cut: "take (length hdr + n) ((hdr @ seg_bytes s n) @ drop (length hdr + n) grant) = hdr @ seg_bytes s n"
      by (metis append_eq_conv_conj)
    show ?thesis
      by (rule um_link_stepI [OF gen _ cut]) (use n(1) r(1) in \<open>simp_all add: seg_bytes_def\<close>)
  qed
  have fl': "um_sn_field_length tx' = um_sn_field_length tx" using same by (simp add: um_rx_same_def)
  show thesis
  proof (cases l)
    case True
    have tx': "um_tx_list tx' = rest" "um_tx_next tx' = (if ?k = 0 then ?x else (?x + 1) mod um_sn_modulus tx)" "int n = seg_size s"
      using sent True k by (auto simp: um_sent_def)
    have "um_linked tx' rx'"
      using i' fl fl' r(2,3,4) mx True tx' ne first MM by (auto simp: um_linked_def um_sdus_def Cons um_seg_ok_def split: list.split)
    then show thesis
      using step True tx' Cons pos by (intro that [of tx' rx' "[?d]"]) (simp_all add: um_sdus_def um_bytes_left_def fl')
  next
    case False
    then obtain s2 where s2: "um_tx_list tx' = s2 # rest" "sdu_data (seg_sdu s2) = ?d" "seg_so s2 = seg_so s + int n"
      "seg_size s2 = seg_size s - int n" "um_tx_next tx' = ?x" using sent by (auto simp: um_sent_def)
    have "nat (seg_so s2) = ?k + n" using s2(3) k(1) by linarith
    then have "um_linked tx' rx'"
      using i' fl fl' r(2,3,4) mx False s2 ne by (auto simp: um_linked_def um_sdus_def Cons)
    moreover have "nat (seg_size s2) < nat (seg_size s)" using s2(4) n(1) pos by linarith
    ultimately show thesis
      using step False s2 Cons by (intro that [of tx' rx' "[]"]) (simp_all add: um_sdus_def um_bytes_left_def fl')
  qed
qed

lemma um_link_run:
  assumes "um_linked tx rx" and "\<forall>g \<in> set gs. um_lossless_grant (um_sn_field_length tx) g"
  shows "\<exists>tx' rx' ds. um_link now tx rx gs = Inr (tx', rx', ds) \<and> um_linked tx' rx' \<and>
    um_sdus tx = ds @ um_sdus tx' \<and> (um_tx_list tx' \<noteq> [] \<longrightarrow> um_bytes_left tx' + um_moving gs \<le> um_bytes_left tx)"
  using assms
proof (induction gs arbitrary: tx rx)
  case (Cons g gs)
  then have "um_lossless_grant (um_sn_field_length tx) g" by simp
  then obtain tx1 rx1 ds1 where st: "um_link_step now tx rx g = Inr (tx1, rx1, ds1)" "um_linked tx1 rx1"
    "um_sdus tx = ds1 @ um_sdus tx1" "um_sn_field_length tx1 = um_sn_field_length tx" "um_bytes_left tx1 \<le> um_bytes_left tx"
    "um_tx_list tx \<noteq> [] \<longrightarrow> 5 \<le> length g \<longrightarrow> um_bytes_left tx1 < um_bytes_left tx"
    by (rule um_linked_step [OF Cons.prems(1)])
  from Cons.IH [OF st(2)] Cons.prems(2) st(4) obtain tx2 rx2 ds2 where
    r: "um_link now tx1 rx1 gs = Inr (tx2, rx2, ds2)" "um_linked tx2 rx2" "um_sdus tx1 = ds2 @ um_sdus tx2"
    "um_tx_list tx2 \<noteq> [] \<longrightarrow> um_bytes_left tx2 + um_moving gs \<le> um_bytes_left tx1" by auto
  have ne: "um_tx_list tx2 \<noteq> [] \<Longrightarrow> um_tx_list tx \<noteq> []" using st(3) r(3) by (auto simp: um_sdus_def)
  have "um_tx_list tx2 \<noteq> [] \<longrightarrow> um_bytes_left tx2 + um_moving (g # gs) \<le> um_bytes_left tx"
    using ne r(4) st(5,6) by auto
  with st(1,3) r(1-3) show ?case by simp
qed simp

fun um_submit :: "u64 \<Rightarrow> nr_rlc_entity_um \<Rightarrow> byte list list \<Rightarrow> nr_rlc_entity_um c_result" where
  "um_submit now e [] = Inr e"
| "um_submit now e (s # ss) = c_bind (nr_rlc_entity_um_recv_sdu now e s 0) (\<lambda>e. um_submit now e ss)"

definition total_bytes :: "byte list list \<Rightarrow> nat" where
  "total_bytes ss = (\<Sum>s \<leftarrow> ss. length s)"

lemma um_submit_ok:
  assumes "um_tx_inv e" "\<forall>s \<in> set (um_tx_list e). seg_is_first s" "\<forall>s \<in> set ss. int (length s) \<le> NR_SDU_MAX"
    "um_tx_size e + int (total_bytes ss) \<le> um_tx_maxsize e"
  shows "\<exists>e'. um_submit now e ss = Inr e' \<and> um_tx_inv e' \<and> (\<forall>s \<in> set (um_tx_list e'). seg_is_first s) \<and> um_rx_same e e' \<and>
    um_tx_next e' = um_tx_next e \<and> um_sdus e' = um_sdus e @ ss"
  using assms
proof (induction ss arbitrary: e)
  case Nil
  then show ?case by (simp add: um_rx_same_def)
next
  case (Cons s ss)
  have sz: "int (length s) \<le> NR_SDU_MAX" and fit: "\<not> um_tx_size e + int (length s) > um_tx_maxsize e"
    using Cons.prems by (simp_all add: total_bytes_def)
  obtain e1 where e1: "nr_rlc_entity_um_recv_sdu now e s 0 = Inr e1" "um_tx_inv e1" "um_rx_same e e1" "um_tx_next e1 = um_tx_next e"
    "um_tx_maxsize e1 = um_tx_maxsize e"
    "um_tx_size e1 = um_tx_size e + (if um_tx_size e + int (length s) > um_tx_maxsize e then 0 else int (length s))"
    "(\<forall>s \<in> set (um_tx_list e). seg_is_first s) \<longrightarrow> (\<forall>s \<in> set (um_tx_list e1). seg_is_first s)"
    "map (sdu_data \<circ> seg_sdu) (um_tx_list e1) = map (sdu_data \<circ> seg_sdu) (um_tx_list e) @
       (if um_tx_size e + int (length s) > um_tx_maxsize e then [] else [s])"
    by (rule um_recv_sdu_total [OF Cons.prems(1) sz])
  have "um_tx_size e1 + int (total_bytes ss) \<le> um_tx_maxsize e1" using Cons.prems(4) e1(5,6) fit by (simp add: total_bytes_def)
  then obtain e' where r: "um_submit now e1 ss = Inr e'" "um_tx_inv e'" "\<forall>s \<in> set (um_tx_list e'). seg_is_first s"
    "um_rx_same e1 e'" "um_tx_next e' = um_tx_next e1" "um_sdus e' = um_sdus e1 @ ss"
    using Cons.IH [OF e1(2)] e1(7) Cons.prems(2,3) by auto
  moreover have "um_rx_same e e'" using e1(3) r(4) by (simp add: um_rx_same_def)
  ultimately show ?case using e1 fit by (simp add: um_sdus_def)
qed

lemma um_bytes_left_le: "um_tx_inv e \<Longrightarrow> um_bytes_left e \<le> total_bytes (um_sdus e)"
proof -
  assume "um_tx_inv e"
  then have "\<forall>s \<in> set (um_tx_list e). nat (seg_size s) \<le> length (sdu_data (seg_sdu s))"
    by (auto simp: um_tx_inv_def um_seg_ok_def)
  then show ?thesis
    unfolding um_bytes_left_def total_bytes_def um_sdus_def by (induction "um_tx_list e") (auto intro: sum_list_mono)
qed

lemma um_link_all:
  assumes "new_nr_rlc_entity_um rxm txm t len = Inr tx0" and "new_nr_rlc_entity_um rxm' txm' t' len = Inr rx0"
    and "0 \<le> rxm" and "0 \<le> txm'" and "NR_SDU_MAX \<le> rxm'"
    and "\<forall>s \<in> set sdus. s \<noteq> [] \<and> int (length s) \<le> NR_SDU_MAX" and "int (total_bytes sdus) \<le> txm"
    and "\<forall>g \<in> set grants. um_lossless_grant len g"
  shows "\<exists>tx1 tx rx ds. um_submit now tx0 sdus = Inr tx1 \<and> um_link now tx1 rx0 grants = Inr (tx, rx, ds) \<and>
    ds @ um_sdus tx = sdus \<and> (total_bytes sdus \<le> um_moving grants \<longrightarrow> ds = sdus)"
proof -
  have txm: "0 \<le> txm" using assms(7) by simp
  have tx0: "um_inv tx0" by (rule new_um_inv [OF assms(1,3) txm])
  have rxm': "0 \<le> rxm'" using assms(5) by (simp add: NR_SDU_MAX_def)
  have rx0: "um_rx_inv rx0" using new_um_inv [OF assms(2) rxm' assms(4)] by (simp add: um_inv_def)
  have t: "um_tx_list tx0 = []" "um_tx_size tx0 = 0" "um_tx_maxsize tx0 = txm" "um_tx_next tx0 = 0" "um_sn_field_length tx0 = len"
    using assms(1) by (auto simp: new_nr_rlc_entity_um_def c_bind_eq_Inr_conv)
  have r: "um_sn_field_length rx0 = len" "um_rx_maxsize rx0 = rxm'" "\<And>d. um_sync rx0 0 d 0"
    using assms(2) rx0 by (auto simp: new_nr_rlc_entity_um_def c_bind_eq_Inr_conv um_sync_def)
  have "\<exists>e'. um_submit now tx0 sdus = Inr e' \<and> um_tx_inv e' \<and> (\<forall>s \<in> set (um_tx_list e'). seg_is_first s) \<and> um_rx_same tx0 e' \<and>
      um_tx_next e' = um_tx_next tx0 \<and> um_sdus e' = um_sdus tx0 @ sdus"
    by (rule um_submit_ok) (use tx0 t assms(6,7) in \<open>auto simp: um_inv_def\<close>)
  then obtain tx1 where s: "um_submit now tx0 sdus = Inr tx1" "um_tx_inv tx1" "\<forall>s \<in> set (um_tx_list tx1). seg_is_first s"
    "um_sn_field_length tx1 = len" "um_tx_next tx1 = 0" "um_sdus tx1 = sdus"
    using t by (auto simp: um_rx_same_def um_sdus_def)
  have so: "\<forall>s \<in> set (um_tx_list tx1). seg_so s = 0"
    using s(2,3) by (auto simp: um_tx_inv_def um_seg_ok_def)
  have ne: "[] \<notin> set (um_sdus tx1)" using s(6) assms(6) by auto
  have "um_linked tx1 rx0"
  proof (cases "um_tx_list tx1")
    case Nil
    then show ?thesis using s(2,4,5) r ne assms(5) unfolding um_linked_def by simp
  next
    case (Cons a as)
    then have "seg_so a = 0" using so by simp
    then show ?thesis using Cons s(2,4,5) r ne assms(5) unfolding um_linked_def by simp
  qed
  moreover have "\<forall>g \<in> set grants. um_lossless_grant (um_sn_field_length tx1) g" using assms(8) s(4) by simp
  ultimately have "\<exists>tx rx ds. um_link now tx1 rx0 grants = Inr (tx, rx, ds) \<and> um_linked tx rx \<and>
    um_sdus tx1 = ds @ um_sdus tx \<and> (um_tx_list tx \<noteq> [] \<longrightarrow> um_bytes_left tx + um_moving grants \<le> um_bytes_left tx1)"
    by (rule um_link_run)
  then obtain tx rx ds where
    l: "um_link now tx1 rx0 grants = Inr (tx, rx, ds)" "um_linked tx rx" "um_sdus tx1 = ds @ um_sdus tx"
    "um_tx_list tx \<noteq> [] \<longrightarrow> um_bytes_left tx + um_moving grants \<le> um_bytes_left tx1" by blast
  have "ds = sdus" if enough: "total_bytes sdus \<le> um_moving grants"
  proof (cases "um_tx_list tx")
    case Nil
    then show ?thesis using l(3) s(6) by (simp add: um_sdus_def)
  next
    case (Cons a as)
    have "um_bytes_left tx1 \<le> total_bytes sdus" using um_bytes_left_le [OF s(2)] s(6) by simp
    then have "um_bytes_left tx = 0" using l(4) Cons enough by simp
    moreover have "um_tx_inv tx" "sdu_data (seg_sdu a) \<noteq> []" using l(2) Cons by (auto simp: um_linked_def um_sdus_def)
    ultimately have "0 < seg_size a" "nat (seg_size a) = 0"
      using Cons by (auto simp: um_bytes_left_def um_tx_inv_def um_seg_ok_def)
    then show ?thesis by simp
  qed
  then show ?thesis using s(1,6) l(1,3) by auto
qed

text \<open>C10: SDUs that an unacknowledged mode entity accepts arrive at its peer. The transmitter cuts them as the
  grants require, of any sizes (but two bytes with 12-bit sequence numbers, which can lose an SDU), sequence
  numbers wrap around, and the peer delivers exactly the SDUs, complete and in order: what is delivered and what is
  still pending is at any time the list of SDUs submitted, and after as many grants of five bytes or more as there
  are bytes, among any others, nothing is pending.
\<close>

theorem rlc_um_link_delivers:
  assumes "new_nr_rlc_entity_um rxm txm t len = Inr tx0" and "new_nr_rlc_entity_um rxm' txm' t' len = Inr rx0"
    and "0 \<le> rxm" and "0 \<le> txm'" and "NR_SDU_MAX \<le> rxm'"
    and "\<forall>s \<in> set sdus. s \<noteq> [] \<and> int (length s) \<le> NR_SDU_MAX" and "int (total_bytes sdus) \<le> txm"
    and "\<forall>g \<in> set grants. um_lossless_grant len g"
  shows "\<exists>tx1 tx rx ds. um_submit now tx0 sdus = Inr tx1 \<and> um_link now tx1 rx0 grants = Inr (tx, rx, ds) \<and>
    ds @ um_sdus tx = sdus \<and> (total_bytes sdus \<le> um_moving grants \<longrightarrow> ds = sdus)"
  by (rule um_link_all [OF assms])

theorem rlc_um_link_delivers_witness:
  "\<exists>tx1 tx rx ds. um_submit 0 (projr (new_nr_rlc_entity_um 100 100 35 12)) [[1, 2, 3, 4, 5, 6, 7], [8, 9]] = Inr tx1 \<and>
     um_link 0 tx1 (projr (new_nr_rlc_entity_um 100000 100 35 12)) ([[0], [0, 0, 0], [0, 0, 0, 0]] @ replicate 9 [0, 0, 0, 0, 0]) =
       Inr (tx, rx, ds) \<and>
     ds @ um_sdus tx = [[1, 2, 3, 4, 5, 6, 7], [8, 9]] \<and> ds = [[1, 2, 3, 4, 5, 6, 7], [8, 9]]"
proof -
  have new: "new_nr_rlc_entity_um 100 100 35 12 = Inr (projr (new_nr_rlc_entity_um 100 100 35 12))"
    "new_nr_rlc_entity_um 100000 100 35 12 = Inr (projr (new_nr_rlc_entity_um 100000 100 35 12))" by (rule new_um_projr, simp)+
  show ?thesis
    using rlc_um_link_delivers [OF new, where sdus = "[[1, 2, 3, 4, 5, 6, 7], [8, 9]]" and now = 0 and
        grants = "[[0], [0, 0, 0], [0, 0, 0, 0]] @ replicate 9 [0, 0, 0, 0, 0]"]
    by (simp add: NR_SDU_MAX_def total_bytes_def um_lossless_grant_def del: um_link.simps um_submit.simps)
qed

end
