(* ===== verification/Rlc_Um_Props.thy ===== *)
theory Rlc_Um_Props
  imports Rlc_Um_Link
begin

text \<open>
  Properties of single operations of the unacknowledged mode entity: the PDU format, the bounds of what
  a grant is filled with, the loop over delivered SDUs, and four places where the accounting or the
  handling of small grants loses something.
\<close>

text \<open>C33: the PDU that is written for a segment is read back by the other side: the header of the PDU,
  decoded, gives the segmentation flags, the sequence number (unless the PDU is a whole SDU), the offset
  and where the data starts; and the data are the bytes of the segment. The bytes of the buffer behind the
  PDU are not touched.
\<close>

theorem rlc_um_pdu_roundtrip:
  fixes s :: nr_rlc_sdu_segment
  assumes "um_sn_field_length e = 6 \<or> um_sn_field_length e = 12"
    and "0 \<le> seg_so s" and "0 \<le> seg_size s" and "seg_so s + seg_size s \<le> int (length (sdu_data (seg_sdu s)))"
    and "seg_so s < 2 ^ 16" and "rlc_sn_ok (2 ^ nat (um_sn_field_length e)) (sdu_sn (seg_sdu s))"
    and "um_compute_pdu_header_size e s + seg_size s \<le> int (length buf)"
  shows "\<exists>pdu. um_serialize_sdu e s buf = Inr (int (length pdu), pdu @ drop (length pdu) buf) \<and>
    um_decode_header (um_sn_field_length e) pdu =
      Inr (Some (seg_is_first s, seg_is_last s, if seg_is_first s \<and> seg_is_last s then 0 else sdu_sn (seg_sdu s),
                 if seg_is_first s then 0 else seg_so s,
                 if seg_is_first s \<and> seg_is_last s then 0 else nat (um_compute_pdu_header_size e s))) \<and>
    drop (nat (um_compute_pdu_header_size e s)) pdu = take (nat (seg_size s)) (drop (nat (seg_so s)) (sdu_data (seg_sdu s)))"
proof -
  let ?d = "take (nat (seg_size s)) (drop (nat (seg_so s)) (sdu_data (seg_sdu s)))" and ?len = "um_sn_field_length e"
  obtain hdr where ser: "um_serialize_sdu e s buf =
      Inr (um_compute_pdu_header_size e s + seg_size s, hdr @ ?d @ drop (nat (um_compute_pdu_header_size e s + seg_size s)) buf)"
    and hb: "bits_of hdr = um_header_bits ?len (seg_is_first s) (seg_is_last s) (sdu_sn (seg_sdu s)) (seg_so s)"
    by (rule um_serialize_sdu_layout [OF assms(1-4,7)])
  have "8 * length hdr = 8 * um_header_size ?len (seg_is_first s) (seg_is_last s)"
    using length_um_header [OF assms(1)] by (metis hb length_bits_of)
  then have lh: "um_compute_pdu_header_size e s = int (length hdr)" "um_header_size ?len (seg_is_first s) (seg_is_last s) = length hdr"
    by (simp_all add: um_compute_pdu_header_size_eq)
  have ld: "int (length ?d) = seg_size s" using assms(2-4) by simp
  have n: "um_compute_pdu_header_size e s + seg_size s = int (length (hdr @ ?d))" using lh(1) ld by simp
  have "um_serialize_sdu e s buf = Inr (int (length (hdr @ ?d)), (hdr @ ?d) @ drop (length (hdr @ ?d)) buf)"
    unfolding ser n nat_int by simp
  moreover have "um_decode_header ?len (hdr @ ?d) =
      Inr (Some (seg_is_first s, seg_is_last s, if seg_is_first s \<and> seg_is_last s then 0 else sdu_sn (seg_sdu s),
                 if seg_is_first s then 0 else seg_so s,
                 if seg_is_first s \<and> seg_is_last s then 0 else nat (um_compute_pdu_header_size e s)))"
    using um_header_roundtrip [OF assms(1) hb assms(6,2,5), of ?d] lh by simp
  moreover have "drop (nat (um_compute_pdu_header_size e s)) (hdr @ ?d) = ?d" using lh(1) by simp
  ultimately show ?thesis by (intro exI [of _ "hdr @ ?d"]) (simp only: simp_thms)
qed

theorem rlc_um_pdu_roundtrip_witness:
  "\<exists>pdu. um_serialize_sdu (projr (new_nr_rlc_entity_um 100 100 35 12))
       \<lparr>seg_sdu = \<lparr>sdu_sn = 513, sdu_upper_layer_id = 7, sdu_data = [1, 2, 3, 4, 5], sdu_size = 5, sdu_retx_count = - 1,
          sdu_ref_count = 1, sdu_free_count = 0, sdu_time_of_arrival = 0\<rparr>,
        seg_size = 3, seg_so = 2, seg_is_first = False, seg_is_last = True\<rparr> [0, 0, 0, 0, 0, 0, 0, 255] =
       Inr (int (length pdu), pdu @ drop (length pdu) [0, 0, 0, 0, 0, 0, 0, 255]) \<and>
     um_decode_header 12 pdu = Inr (Some (False, True, 513, 2, 4)) \<and> drop 4 pdu = [3, 4, 5]"
  using rlc_um_pdu_roundtrip [of "projr (new_nr_rlc_entity_um 100 100 35 12)"
      "\<lparr>seg_sdu = \<lparr>sdu_sn = 513, sdu_upper_layer_id = 7, sdu_data = [1, 2, 3, 4, 5], sdu_size = 5, sdu_retx_count = - 1,
          sdu_ref_count = 1, sdu_free_count = 0, sdu_time_of_arrival = 0\<rparr>,
        seg_size = 3, seg_so = 2, seg_is_first = False, seg_is_last = True\<rparr>" "[0, 0, 0, 0, 0, 0, 0, 255]"]
  by (simp add: new_nr_rlc_entity_um_def time_average_new_def um_compute_pdu_header_size_def rlc_sn_ok_def del: replicate.simps)

subsection \<open>Bounds and termination\<close>

text \<open>What is written for a grant fits it, whatever has happened to the entity before: the number
  returned is between 0 and the size of the grant, the buffer keeps its size, and the next sequence number
  stays below the modulus.
\<close>

theorem rlc_um_generate_bounds:
  assumes "new_nr_rlc_entity_um rx_max tx_max t_reassembly len = Inr e0" and "0 \<le> rx_max" and "0 \<le> tx_max"
    and "\<forall>sn. int (length (src sn)) \<le> NR_SDU_MAX" and "\<forall>ev \<in> set evs. um_event_ok whole src len ev"
    and "run_steps um_step e0 evs = Inr (e, outs)"
  shows "\<exists>ret out e'. nr_rlc_entity_um_generate_pdu now e grant = Inr (ret, out, e') \<and>
    0 \<le> ret \<and> ret \<le> int (length grant) \<and> length out = length grant \<and>
    0 \<le> um_tx_next e' \<and> um_tx_next e' < um_sn_modulus e'"
proof -
  have "um_inv e0" by (rule new_um_inv [OF assms(1-3)])
  moreover have "um_src_ok src e0 \<and> um_sn_field_length e0 = len"
    using assms(1,4) by (auto simp: new_nr_rlc_entity_um_def c_bind_eq_Inr_conv um_src_ok_def)
  ultimately have "um_inv e" using um_src.run_ok [of e0 src len evs whole] assms(5,6) by auto
  then have "um_tx_inv e" by (simp add: um_inv_def)
  from um_generate_total [OF this, of now grant] obtain ret out e' where
    "nr_rlc_entity_um_generate_pdu now e grant = Inr (ret, out, e')" "um_tx_inv e'" "0 \<le> ret" "ret \<le> int (length grant)"
    "length out = length grant" by blast
  then show ?thesis by (auto simp: um_tx_inv_def rlc_sn_ok_def)
qed

theorem rlc_um_generate_bounds_witness:
  "\<exists>ret out e'. nr_rlc_entity_um_generate_pdu 0
       (fst (projr (run_steps um_step (projr (new_nr_rlc_entity_um 100 100 35 6)) [UmSdu 0 [1, 2, 3] 7]))) [0, 0, 0] = Inr (ret, out, e') \<and>
     0 \<le> ret \<and> ret \<le> int (length [0, 0, 0 :: byte]) \<and> length out = length [0, 0, 0 :: byte] \<and>
     0 \<le> um_tx_next e' \<and> um_tx_next e' < um_sn_modulus e'"
  by (rule rlc_um_generate_bounds [OF new_um_projr [of 6 100 100 35], where src = "\<lambda>_. []" and whole = "{}" and evs = "[UmSdu 0 [1, 2, 3] 7]"
        and outs = "[]"]) (simp add: NR_SDU_MAX_def | code_simp)+

text \<open>In every state of the receiver an SDU counts as delivered when one of its cells has lost its data.\<close>

lemma um_delivered_cell:
  assumes "um_rx_inv e"
  shows "sdu_delivered (um_rx_list e) x \<longleftrightarrow> (\<exists>p \<in> set (um_rx_list e). pdu_sn p = x \<and> pdu_data p = None)"
proof -
  let ?cs = "um_rx_list e"
  have first: "pdu_data (hd (seg_group (pdu_sn p) ?cs)) = None" if "p \<in> set ?cs" "pdu_data p = None" for p
    using assms that by (auto simp: um_rx_inv_def delivered_first_def)
  have "hd (seg_group x ?cs) \<in> set ?cs \<and> pdu_sn (hd (seg_group x ?cs)) = x" if "seg_group x ?cs \<noteq> []"
    using hd_in_set [OF that] by (auto simp: set_group)
  moreover have "seg_group x ?cs \<noteq> []" if "p \<in> set ?cs" "pdu_sn p = x" for p
    using that by (auto simp: seg_group_def filter_empty_conv)
  ultimately show ?thesis using first unfolding sdu_delivered_group by metis
qed

lemma um_delivered_window:
  assumes inv: "um_rx_inv e" and s: "rlc_sn_ok (um_sn_modulus e) s" and d: "sdu_delivered (um_rx_list e) s"
  shows "(um_rx_next_highest e - s) mod um_sn_modulus e \<le> um_window_size e"
proof -
  let ?w = "um_window_size e" and ?h = "um_rx_next_highest e"
  have cfg: "um_cfg e" using inv by (simp add: um_rx_inv_def)
  have w: "0 < ?w" and M: "um_sn_modulus e = 2 * ?w" by (rule um_cfgD [OF cfg])+
  have h: "rlc_sn_ok (2 * ?w) ?h" using inv M by (simp add: um_rx_inv_def)
  have "win_dist ?w ?h s < ?w" using d inv by (auto simp: um_delivered_cell [OF inv] um_rx_inv_def rx_win_def)
  moreover have "win_dist ?w ?h s = (s - ?h + ?w) mod (2 * ?w)" using s by (intro win_dist_mod [OF w h]) (simp add: rlc_sn_ok_def)
  ultimately have lt: "(s - ?h + ?w) mod (2 * ?w) < ?w" by simp
  define y where "y = (s - ?h + ?w) mod (2 * ?w)"
  have y: "0 \<le> y" "y < ?w" using lt w by (simp_all add: y_def)
  have "(?h - s) mod (2 * ?w) = (?w - (s - ?h + ?w)) mod (2 * ?w)" by simp
  also have "\<dots> = (?w - y) mod (2 * ?w)" unfolding y_def by (simp add: mod_diff_right_eq)
  also have "\<dots> = ?w - y" using y w by simp
  finally show ?thesis using y M by simp
qed

text \<open>C34: in every state an unacknowledged mode entity can reach, the loop that looks for the first SDU not yet delivered
  (in \<^verbatim>\<open>reception_actions\<close> and in \<^verbatim>\<open>check_t_reassembly\<close>) ends, from wherever it starts, after at most a
  window of steps. It stops at a number \<open>r\<close> of which no stored segment belongs to a delivered SDU (one whose data are
  freed), and every number it passed over is that of a delivered SDU.
\<close>

theorem rlc_um_skip_delivered_terminates:
  assumes "new_nr_rlc_entity_um rx_max tx_max t_reassembly len = Inr e0" and "0 \<le> rx_max" and "0 \<le> tx_max"
    and "\<forall>ev \<in> set evs. um_sized ev" and "run_steps um_step e0 evs = Inr (e, outs)" and "rlc_sn_ok (um_sn_modulus e) s"
  shows "\<exists>r. skip_delivered (um_sn_modulus e) (um_rx_list e) s = Inr r \<and> rlc_sn_ok (um_sn_modulus e) r \<and>
    (r - s) mod um_sn_modulus e \<le> um_window_size e \<and>
    (\<forall>p \<in> set (um_rx_list e). pdu_sn p = r \<longrightarrow> pdu_data p \<noteq> None) \<and>
    (\<forall>k. 0 \<le> k \<and> k < (r - s) mod um_sn_modulus e \<longrightarrow>
       (\<exists>p \<in> set (um_rx_list e). pdu_sn p = (s + k) mod um_sn_modulus e \<and> pdu_data p = None))"
proof -
  have "um_inv e" using um_run_total [OF new_um_inv [OF assms(1-3)] assms(4)] assms(5) by auto
  then have inv: "um_rx_inv e" by (simp add: um_inv_def)
  let ?M = "um_sn_modulus e" and ?h = "um_rx_next_highest e"
  have cfg: "um_cfg e" and h: "rlc_sn_ok ?M ?h" using inv by (simp_all add: um_rx_inv_def)
  have M: "0 < ?M" and w: "0 < um_window_size e" by (rule um_cfgD [OF cfg])+
  have "\<not> sdu_delivered (um_rx_list e) ?h"
    using inv um_cfgD [OF cfg] by (intro rx_win_h_absent [of "um_window_size e"]) (auto simp: um_rx_inv_def)
  from skip_delivered_total [OF M assms(6) h this] obtain r where
    r: "skip_delivered ?M (um_rx_list e) s = Inr r" "rlc_sn_ok ?M r" "\<not> sdu_delivered (um_rx_list e) r"
      "(r - s) mod ?M \<le> (?h - s) mod ?M" "\<forall>k. 0 \<le> k \<and> k < (r - s) mod ?M \<longrightarrow> sdu_delivered (um_rx_list e) ((s + k) mod ?M)"
    by blast
  have "(r - s) mod ?M \<le> um_window_size e"
  proof (cases "0 < (r - s) mod ?M")
    case True
    then have "sdu_delivered (um_rx_list e) ((s + 0) mod ?M)" using r(5) by blast
    moreover have "(s + 0) mod ?M = s" using assms(6) by (simp add: rlc_sn_ok_def)
    ultimately show ?thesis using um_delivered_window [OF inv assms(6)] r(4) by simp
  next
    case False
    then show ?thesis using w by linarith
  qed
  with r(1,2,3,5) show ?thesis unfolding um_delivered_cell [OF inv] by (intro exI [of _ r]) simp
qed

text \<open>SDUs 1 and 2 are delivered while 0 is missing: the loop passes over both.\<close>

theorem rlc_um_skip_delivered_terminates_witness:
  "let e = fst (projr (run_steps um_step (projr (new_nr_rlc_entity_um 100 100 35 6))
       [UmPdu [65, 1], UmPdu [129, 0, 1, 2], UmPdu [66, 3], UmPdu [130, 0, 1, 4]]))
   in um_sn_modulus e = 64 \<and> skip_delivered 64 (um_rx_list e) 1 = Inr 3 \<and>
      (\<exists>r. skip_delivered 64 (um_rx_list e) 1 = Inr r \<and> rlc_sn_ok 64 r \<and> (r - 1) mod 64 \<le> um_window_size e \<and>
         (\<forall>p \<in> set (um_rx_list e). pdu_sn p = r \<longrightarrow> pdu_data p \<noteq> None) \<and>
         (\<forall>k. 0 \<le> k \<and> k < (r - 1) mod 64 \<longrightarrow> (\<exists>p \<in> set (um_rx_list e). pdu_sn p = (1 + k) mod 64 \<and> pdu_data p = None)))"
proof -
  let ?evs = "[UmPdu [65, 1], UmPdu [129, 0, 1, 2], UmPdu [66, 3], UmPdu [130, 0, 1, 4]]"
  let ?run = "run_steps um_step (projr (new_nr_rlc_entity_um 100 100 35 6)) ?evs"
  let ?e = "fst (projr ?run)"
  have run: "?run = Inr (?e, [UmDeliver [1, 2], UmDeliver [3, 4]])" by code_simp
  have ev: "um_sn_modulus ?e = 64" "skip_delivered 64 (um_rx_list ?e) 1 = Inr 3" by code_simp+
  have "\<exists>r. skip_delivered (um_sn_modulus ?e) (um_rx_list ?e) 1 = Inr r \<and> rlc_sn_ok (um_sn_modulus ?e) r \<and>
    (r - 1) mod um_sn_modulus ?e \<le> um_window_size ?e \<and>
    (\<forall>p \<in> set (um_rx_list ?e). pdu_sn p = r \<longrightarrow> pdu_data p \<noteq> None) \<and>
    (\<forall>k. 0 \<le> k \<and> k < (r - 1) mod um_sn_modulus ?e \<longrightarrow>
       (\<exists>p \<in> set (um_rx_list ?e). pdu_sn p = (1 + k) mod um_sn_modulus ?e \<and> pdu_data p = None))"
    by (rule rlc_um_skip_delivered_terminates [OF new_um_projr [of 6 100 100 35] _ _ _ run])
      (simp_all only: ev(1), simp_all add: rlc_sn_ok_def)
  then show ?thesis using ev unfolding Let_def ev(1) by blast
qed

subsection \<open>What is lost\<close>

text \<open>C36: with 12-bit sequence numbers, a grant of two bytes takes a whole SDU of at least two bytes
  off the list and sends nothing: the check for room counts the header of a whole SDU, and the header
  of the first segment is one byte longer. The SDU is lost, and the space it took is not given back.
\<close>

theorem rlc_um_small_grant_loses_sdu:
  assumes "um_tx_inv e" and "um_tx_list e = s # rest" and "seg_is_first s" and "um_sn_field_length e = 12"
    and "1 < seg_size s" and "length grant = 2"
  shows "\<exists>e'. nr_rlc_entity_um_generate_pdu now e grant = Inr (0, grant, e') \<and> um_tx_list e' = rest \<and>
    um_tx_size e' = um_tx_size e \<and> um_tx_inv e'"
proof -
  have "seg_is_last s" using assms(1,2) by (simp add: um_tx_inv_def um_seg_ok_def)
  then have h: "um_compute_pdu_header_size e s = 1" "um_compute_pdu_header_size e (s\<lparr>seg_is_last := False\<rparr>) = 2"
    using assms(3,4) by (simp_all add: um_compute_pdu_header_size_def)
  show ?thesis
    by (rule um_send_lost [OF assms(1,2), of grant now])
      (use h assms(5,6) in \<open>auto simp: nr_rlc_entity_um_generate_pdu_def\<close>)
qed

theorem rlc_um_small_grant_loses_sdu_witness:
  "\<exists>e'. nr_rlc_entity_um_generate_pdu 0 (projr (nr_rlc_entity_um_recv_sdu 0 (projr (new_nr_rlc_entity_um 100 100 35 12)) [1, 2, 3] 7)) [0, 0] =
      Inr (0, [0, 0], e') \<and> um_tx_list e' = [] \<and> um_tx_size e' = 3 \<and> um_tx_inv e'"
proof -
  let ?new = "projr (new_nr_rlc_entity_um 100 100 35 12)"
  let ?e = "projr (nr_rlc_entity_um_recv_sdu 0 ?new [1, 2, 3] 7)"
  have n: "new_nr_rlc_entity_um 100 100 35 12 = Inr ?new" by (rule new_um_projr) simp
  have "um_tx_inv ?new" using new_um_inv [OF n] by (simp add: um_inv_def)
  then have inv: "um_tx_inv ?e"
    by (rule um_recv_sdu_total [of ?new "[1, 2, 3]" 0 7]) (simp_all add: NR_SDU_MAX_def)
  have list: "um_tx_list ?e = [nr_rlc_new_sdu [1, 2, 3] 7]" and size: "um_tx_size ?e = 3" and len: "um_sn_field_length ?e = 12"
    by code_simp+
  show ?thesis
    using rlc_um_small_grant_loses_sdu [OF inv list _ len, of "[0, 0]" 0] size by (simp add: nr_rlc_new_sdu_def)
qed

text \<open>An SDU that is discarded before it is sent keeps its space: after \<open>k\<close> times an SDU was submitted
  and discarded the list is empty, and the space left is smaller by all their bytes.
\<close>

theorem rlc_um_discard_leaks_space:
  assumes "um_tx_inv e" and "um_tx_list e = []" and "int (length s) \<le> NR_SDU_MAX"
    and "int k * int (length s) \<le> nr_rlc_entity_um_available_tx_space e"
  shows "\<exists>e'. run_steps um_step e (concat (replicate k [UmSdu now s sdu_id, UmDiscard sdu_id])) = Inr (e', []) \<and>
    um_tx_list e' = [] \<and>
    nr_rlc_entity_um_available_tx_space e' = nr_rlc_entity_um_available_tx_space e - int k * int (length s)"
  using assms
proof (induction k arbitrary: e)
  case (Suc k)
  have fit: "\<not> um_tx_size e + int (length s) > um_tx_maxsize e"
    using Suc.prems(4) by (simp add: nr_rlc_entity_um_available_tx_space_def distrib_right)
      (smt (verit) mult_nonneg_nonneg of_nat_0_le_iff)
  obtain e1 where r: "nr_rlc_entity_um_recv_sdu now e s sdu_id = Inr e1" "um_tx_inv e1" "um_tx_maxsize e1 = um_tx_maxsize e"
    "um_tx_size e1 = um_tx_size e + int (length s)"
    by (rule um_recv_sdu_total [OF Suc.prems(1,3), of now sdu_id]) (use fit in auto)
  have l1: "\<exists>c. um_tx_list e1 = [c] \<and> sdu_upper_layer_id (seg_sdu c) = sdu_id \<and> seg_is_first c \<and> seg_is_last c"
    using r(1) fit Suc.prems(2,3)
    by (auto simp: nr_rlc_entity_um_recv_sdu_def Let_def um_stats_def nr_rlc_new_sdu_def nr_rlc_sdu_segment_list_append_def
        set_time_of_arrival_def split: if_splits)
  define e2 where "e2 = nr_rlc_entity_um_discard_sdu e1 sdu_id"
  have e2: "um_tx_list e2 = []" "um_tx_inv e2" "um_tx_size e2 = um_tx_size e1" "um_tx_maxsize e2 = um_tx_maxsize e1"
    using l1 um_discard_sdu_inv(1) [OF r(2)] by (auto simp: e2_def nr_rlc_entity_um_discard_sdu_def)
  have sp: "nr_rlc_entity_um_available_tx_space e2 = nr_rlc_entity_um_available_tx_space e - int (length s)"
    using e2(3,4) r(3,4) by (simp add: nr_rlc_entity_um_available_tx_space_def)
  have "int k * int (length s) \<le> nr_rlc_entity_um_available_tx_space e2"
    using Suc.prems(4) sp by (simp add: distrib_right)
  from Suc.IH [OF e2(2,1) Suc.prems(3) this] obtain e' where
    "run_steps um_step e2 (concat (replicate k [UmSdu now s sdu_id, UmDiscard sdu_id])) = Inr (e', [])"
    "um_tx_list e' = []" "nr_rlc_entity_um_available_tx_space e' = nr_rlc_entity_um_available_tx_space e2 - int k * int (length s)"
    by blast
  then show ?case using r(1) sp by (simp add: distrib_right flip: e2_def)
qed simp

theorem rlc_um_discard_leaks_space_witness:
  "\<exists>e'. run_steps um_step (projr (new_nr_rlc_entity_um 10 10 35 6)) (concat (replicate 2 [UmSdu 0 [1, 2, 3, 4, 5] 7, UmDiscard 7])) =
      Inr (e', []) \<and> um_tx_list e' = [] \<and> nr_rlc_entity_um_available_tx_space e' = 0"
proof -
  have n: "new_nr_rlc_entity_um 10 10 35 6 = Inr (projr (new_nr_rlc_entity_um 10 10 35 6))" by (rule new_um_projr) simp
  have "um_tx_inv (projr (new_nr_rlc_entity_um 10 10 35 6))" using new_um_inv [OF n] by (simp add: um_inv_def)
  moreover have "um_tx_list (projr (new_nr_rlc_entity_um 10 10 35 6)) = []"
    "nr_rlc_entity_um_available_tx_space (projr (new_nr_rlc_entity_um 10 10 35 6)) = 10" by code_simp+
  ultimately show ?thesis
    using rlc_um_discard_leaks_space [of "projr (new_nr_rlc_entity_um 10 10 35 6)" "[1, 2, 3, 4, 5]" 2 0 7] by (simp add: NR_SDU_MAX_def)
qed

text \<open>When t-Reassembly expires, the segments of the SDUs that are given up are dropped, and their
  bytes stay counted in the size of the receive buffer: \<^verbatim>\<open>set_time\<close> never changes that size.
\<close>

theorem rlc_um_timer_leaks_space:
  assumes "new_nr_rlc_entity_um rx_max tx_max t_reassembly len = Inr e0" and "0 \<le> rx_max" and "0 \<le> tx_max"
    and "\<forall>ev \<in> set evs. um_event_ok UNIV (\<lambda>_. sdu) len ev" and "int (length sdu) \<le> NR_SDU_MAX"
    and "run_steps um_step e0 evs = Inr (e, outs)"
  shows "\<exists>e'. nr_rlc_entity_um_set_time e now = Inr e' \<and> um_rx_size e' = um_rx_size e \<and>
    set (um_rx_list e') \<subseteq> set (um_rx_list e)"
proof -
  have "um_inv e0" by (rule new_um_inv [OF assms(1-3)])
  moreover have "um_src_ok (\<lambda>_. sdu) e0 \<and> um_sn_field_length e0 = len"
    using assms(1,5) by (auto simp: new_nr_rlc_entity_um_def c_bind_eq_Inr_conv um_src_ok_def)
  ultimately have "um_rx_inv e" using um_src.run_ok [of e0 "\<lambda>_. sdu" len evs UNIV] assms(4,6) by (auto simp: um_inv_def)
  from um_set_time_total [OF this, of now] show ?thesis by blast
qed

theorem rlc_um_timer_leaks_space_witness:
  "\<exists>e'. nr_rlc_entity_um_set_time
       (fst (projr (run_steps um_step (projr (new_nr_rlc_entity_um 100 100 35 6)) [UmTick 1, UmPdu [66, 1, 2]]))) 100 = Inr e' \<and>
     um_rx_size e' = 2 \<and> um_rx_list e' = []"
proof -
  let ?run = "run_steps um_step (projr (new_nr_rlc_entity_um 100 100 35 6)) [UmTick 1, UmPdu [66, 1, 2]]"
  have run: "?run = Inr (fst (projr ?run), [])" and sz: "um_rx_size (fst (projr ?run)) = 2"
    and gone: "um_rx_list (projr (nr_rlc_entity_um_set_time (fst (projr ?run)) 100)) = []" by code_simp+
  have "\<exists>e'. nr_rlc_entity_um_set_time (fst (projr ?run)) 100 = Inr e' \<and> um_rx_size e' = um_rx_size (fst (projr ?run)) \<and>
      set (um_rx_list e') \<subseteq> set (um_rx_list (fst (projr ?run)))"
    by (rule rlc_um_timer_leaks_space [OF new_um_projr [of 6 100 100 35], where sdu = "[1, 2, 3]" and outs = "[]", OF _ _ _ _ _ run])
      (simp add: NR_SDU_MAX_def | code_simp)+
  with sz gone show ?thesis by (metis sum.sel(2))
qed

end
