(* ===== verification/Rlc_Rx_Manager.thy ===== *)
theory Rlc_Rx_Manager
  imports Rlc_Pdu
begin

text \<open>
  The reception window of the acknowledged mode (\<^verbatim>\<open>nr_rlc_rx_manager.c\<close>): an array with one slot for each
  sequence number of the window, used as a ring. A slot holds the segments received for its sequence
  number, ordered by offset. Every number has a slot, so a number outside the window shares the slot
  of one inside.
\<close>

record nr_rlc_rx_manager =
  rm_rx_list :: "nr_rlc_pdu list list"
  rm_size :: int
  rm_start :: int
  rm_sn_start :: int

definition nr_rlc_new_rx_manager :: "int \<Rightarrow> nr_rlc_rx_manager" where
  "nr_rlc_new_rx_manager n = \<lparr>rm_rx_list = replicate (nat n) [], rm_size = n, rm_start = 0, rm_sn_start = 0\<rparr>"

definition nr_rlc_clear_rx_manager :: "nr_rlc_rx_manager \<Rightarrow> nr_rlc_rx_manager" where
  "nr_rlc_clear_rx_manager m =
     m\<lparr>rm_rx_list := map (\<lambda>_. []) (rm_rx_list m), rm_start := 0, rm_sn_start := 0\<rparr>"

definition get_pos :: "nr_rlc_rx_manager \<Rightarrow> int \<Rightarrow> int" where
  "get_pos m sn = c_rem (rm_start m + (sn - rm_sn_start m + rm_size m * 2)) (rm_size m)"

text \<open>An access to the array through the position of a sequence number.\<close>

definition rm_slot :: "nr_rlc_rx_manager \<Rightarrow> int \<Rightarrow> nat c_result" where
  "rm_slot m sn =
     (let pos = get_pos m sn
      in if 0 \<le> pos \<and> pos < int (length (rm_rx_list m)) then Inr (nat pos) else Inl OutOfBounds)"

definition nr_rlc_rx_manager_get_pdu_from_sn :: "nr_rlc_rx_manager \<Rightarrow> int \<Rightarrow> nr_rlc_pdu list c_result" where
  "nr_rlc_rx_manager_get_pdu_from_sn m sn = c_bind (rm_slot m sn) (\<lambda>pos. Inr (rm_rx_list m ! pos))"

text \<open>Assigning to the slot of a sequence number.\<close>

definition rm_put :: "nr_rlc_rx_manager \<Rightarrow> int \<Rightarrow> nr_rlc_pdu list \<Rightarrow> nr_rlc_rx_manager c_result" where
  "rm_put m sn cells = c_bind (rm_slot m sn) (\<lambda>pos. Inr (m\<lparr>rm_rx_list := (rm_rx_list m)[pos := cells]\<rparr>))"

definition nr_rlc_rx_manager_clear_pdu :: "nr_rlc_rx_manager \<Rightarrow> int \<Rightarrow> nr_rlc_rx_manager c_result" where
  "nr_rlc_rx_manager_clear_pdu m sn = rm_put m sn []"

definition nr_rlc_rx_manager_advance :: "nr_rlc_rx_manager \<Rightarrow> int \<Rightarrow> nr_rlc_rx_manager" where
  "nr_rlc_rx_manager_advance m count = m\<lparr>rm_start := c_rem (rm_start m + count) (rm_size m)\<rparr>"

definition nr_rlc_rx_manager_set_start :: "nr_rlc_rx_manager \<Rightarrow> int \<Rightarrow> nr_rlc_rx_manager" where
  "nr_rlc_rx_manager_set_start m sn_start = m\<lparr>rm_sn_start := sn_start\<rparr>"

definition nr_rlc_rx_manager_add_pdu :: "nr_rlc_rx_manager \<Rightarrow> nr_rlc_pdu \<Rightarrow> nr_rlc_rx_manager c_result" where
  "nr_rlc_rx_manager_add_pdu m pdu =
     c_bind (nr_rlc_rx_manager_get_pdu_from_sn m (pdu_sn pdu)) (\<lambda>cells.
     rm_put m (pdu_sn pdu) (insert_before (\<lambda>cur. pdu_so cur > pdu_so pdu) pdu cells))"

subsection \<open>The ring as a map from sequence numbers\<close>

text \<open>
  \<open>w\<close> is the size of the window and \<open>2 * w\<close> the modulus of the sequence numbers; \<open>s\<close> is the first number
  of the window.
\<close>

definition rm_ok :: "int \<Rightarrow> int \<Rightarrow> nr_rlc_rx_manager \<Rightarrow> bool" where
  "rm_ok w s m \<longleftrightarrow> 0 < w \<and> rm_size m = w \<and> length (rm_rx_list m) = nat w \<and> 0 \<le> rm_start m \<and> rm_start m < w \<and>
     rm_sn_start m = s \<and> rlc_sn_ok (2 * w) s"

definition rm_idx :: "nr_rlc_rx_manager \<Rightarrow> int \<Rightarrow> nat" where
  "rm_idx m sn = nat ((rm_start m - rm_sn_start m + sn) mod rm_size m)"

definition rm_at :: "nr_rlc_rx_manager \<Rightarrow> int \<Rightarrow> nr_rlc_pdu list" where
  "rm_at m sn = rm_rx_list m ! rm_idx m sn"

lemma rm_idx_less: "rm_ok w s m \<Longrightarrow> rm_idx m sn < length (rm_rx_list m)"
  by (simp add: rm_ok_def rm_idx_def nat_less_iff)

lemma rm_idx_eq: "rm_ok w s m \<Longrightarrow> rm_idx m a = rm_idx m b \<longleftrightarrow> (a - b) mod w = 0"
proof -
  assume ok: "rm_ok w s m"
  then have w: "0 < w" by (simp add: rm_ok_def)
  let ?c = "rm_start m - rm_sn_start m"
  have "(?c + a) mod w = (?c + b) mod w \<longleftrightarrow> w dvd (?c + a) - (?c + b)" by (rule mod_eq_dvd_iff)
  also have "(?c + a) - (?c + b) = a - b" by simp
  finally show ?thesis using ok w by (simp add: rm_idx_def rm_ok_def dvd_eq_mod_eq_0 nat_eq_iff)
qed

lemma rm_slot_ok:
  assumes ok: "rm_ok w s m" and sn: "rlc_sn_ok (2 * w) sn"
  shows "rm_slot m sn = Inr (rm_idx m sn)"
proof -
  have w: "0 < w" "rm_size m = w" "length (rm_rx_list m) = nat w" using ok by (simp_all add: rm_ok_def)
  have "0 \<le> rm_start m + (sn - rm_sn_start m + w * 2)" using ok sn by (simp add: rm_ok_def rlc_sn_ok_def)
  then have "get_pos m sn = (rm_start m + (sn - rm_sn_start m + w * 2)) mod w" using w by (simp add: get_pos_def)
  also have "rm_start m + (sn - rm_sn_start m + w * 2) = (rm_start m - rm_sn_start m + sn) + 2 * w" by simp
  also have "\<dots> mod w = (rm_start m - rm_sn_start m + sn) mod w" by simp
  finally have "get_pos m sn = (rm_start m - rm_sn_start m + sn) mod w" .
  then show ?thesis using w by (simp add: rm_slot_def Let_def rm_idx_def)
qed

lemma rm_get_ok:
  "rm_ok w s m \<Longrightarrow> rlc_sn_ok (2 * w) sn \<Longrightarrow> nr_rlc_rx_manager_get_pdu_from_sn m sn = Inr (rm_at m sn)"
  by (simp add: nr_rlc_rx_manager_get_pdu_from_sn_def rm_slot_ok rm_at_def)

definition rm_upd :: "nr_rlc_rx_manager \<Rightarrow> int \<Rightarrow> nr_rlc_pdu list \<Rightarrow> nr_rlc_rx_manager" where
  "rm_upd m sn cells = m\<lparr>rm_rx_list := (rm_rx_list m)[rm_idx m sn := cells]\<rparr>"

lemma rm_put_ok: "rm_ok w s m \<Longrightarrow> rlc_sn_ok (2 * w) sn \<Longrightarrow> rm_put m sn cells = Inr (rm_upd m sn cells)"
  by (simp add: rm_put_def rm_slot_ok rm_upd_def)

lemma rm_upd_ok: "rm_ok w s m \<Longrightarrow> rm_ok w s (rm_upd m sn cells)"
  by (simp add: rm_ok_def rm_upd_def)

lemma rm_idx_upd [simp]: "rm_idx (rm_upd m sn cells) = rm_idx m"
  by (simp add: rm_upd_def rm_idx_def fun_eq_iff)

lemma rm_at_upd:
  assumes ok: "rm_ok w s m"
  shows "rm_at (rm_upd m sn cells) sn' = (if (sn' - sn) mod w = 0 then cells else rm_at m sn')"
proof -
  have l: "rm_rx_list (rm_upd m sn cells) = (rm_rx_list m)[rm_idx m sn := cells]" by (simp add: rm_upd_def)
  have "rm_at (rm_upd m sn cells) sn' = (if rm_idx m sn' = rm_idx m sn then cells else rm_at m sn')"
    unfolding rm_at_def l rm_idx_upd using rm_idx_less [OF ok, of sn] by (simp add: nth_list_update)
  then show ?thesis unfolding rm_idx_eq [OF ok] .
qed

lemma rm_add_ok:
  "rm_ok w s m \<Longrightarrow> rlc_sn_ok (2 * w) (pdu_sn p) \<Longrightarrow>
   nr_rlc_rx_manager_add_pdu m p =
     Inr (rm_upd m (pdu_sn p) (insert_before (\<lambda>c. pdu_so c > pdu_so p) p (rm_at m (pdu_sn p))))"
  by (simp add: nr_rlc_rx_manager_add_pdu_def rm_get_ok rm_put_ok)

text \<open>Moving the window does not move the content: each number keeps its slot.\<close>

lemma rm_advance_ok:
  assumes ok: "rm_ok w s m" and c: "0 \<le> c" and s': "s' = (s + c) mod (2 * w)"
  defines "m' \<equiv> nr_rlc_rx_manager_set_start (nr_rlc_rx_manager_advance m c) s'"
  shows "rm_ok w s' m'" and "rm_at m' sn = rm_at m sn"
proof -
  have w: "0 < w" "rm_size m = w" "0 \<le> rm_start m" "rm_sn_start m = s" using ok by (simp_all add: rm_ok_def)
  have st: "rm_start m' = (rm_start m + c) mod w" "rm_sn_start m' = s'" "rm_rx_list m' = rm_rx_list m" "rm_size m' = w"
    using w c by (simp_all add: m'_def nr_rlc_rx_manager_set_start_def nr_rlc_rx_manager_advance_def)
  show "rm_ok w s' m'" using ok st w by (simp add: rm_ok_def s' rlc_sn_ok_def)
  have "s' mod w = (s + c) mod w" by (simp add: s' mod_mod_cancel)
  then have "(rm_start m' - rm_sn_start m' + sn) mod w = ((rm_start m + c) - (s + c) + sn) mod w"
    unfolding st by (intro mod_add_cong mod_diff_cong) simp_all
  then show "rm_at m' sn = rm_at m sn" using w st by (simp add: rm_at_def rm_idx_def)
qed

lemma rm_new_ok: "0 < w \<Longrightarrow> rm_ok w 0 (nr_rlc_new_rx_manager w) \<and> rm_at (nr_rlc_new_rx_manager w) sn = []"
  using rm_idx_less [of w 0 "nr_rlc_new_rx_manager w" sn]
  by (auto simp: rm_ok_def rm_at_def nr_rlc_new_rx_manager_def rlc_sn_ok_def)

lemma rm_clear_ok: "rm_ok w s m \<Longrightarrow> rm_ok w 0 (nr_rlc_clear_rx_manager m) \<and> rm_at (nr_rlc_clear_rx_manager m) sn = []"
  using rm_idx_less [of w 0 "nr_rlc_clear_rx_manager m" sn]
  by (auto simp: rm_ok_def rm_at_def nr_rlc_clear_rx_manager_def rlc_sn_ok_def)

end
