(* ===== verification/Rlc_Am.thy ===== *)
theory Rlc_Am
  imports Rlc_Rx_Manager Rlc_Sdu "HOL-Library.While_Combinator"
begin

text \<open>
  The acknowledged mode RLC entity (\<^verbatim>\<open>nr_rlc_entity_am.c\<close>).

  The segments of one SDU can be in three lists at the same time (to send, sent and waiting for an
  acknowledgment, to send again) and share the SDU, with its sequence number, retransmission count and
  the two counters that decide when it is freed. So the SDUs are in a store, a map from addresses, and
  a segment holds the address; an address that is not in the store is a pointer to freed memory. The
  end pointers of the lists are the last elements.

  What the callbacks get is returned in order: \<^verbatim>\<open>deliver_sdu\<close>, \<^verbatim>\<open>sdu_successful_delivery\<close> and
  \<^verbatim>\<open>max_retx_reached\<close>. Loops of the code that may run forever are while combinators, and not returning is
  \<open>NoReturn\<close>.
\<close>

record am_segment =
  as_sdu :: nat
  as_size :: int
  as_so :: int
  as_is_first :: bool
  as_is_last :: bool

datatype am_output =
    AmDeliver "byte list"   \<comment> \<open>\<^verbatim>\<open>deliver_sdu\<close>\<close>
  | AmAcked int             \<comment> \<open>\<^verbatim>\<open>sdu_successful_delivery\<close>\<close>
  | AmMaxRetx               \<comment> \<open>\<^verbatim>\<open>max_retx_reached\<close>\<close>

record nr_rlc_entity_am =
  am_common :: nr_rlc_entity
  am_t_poll_retransmit :: int
  am_t_reassembly :: int
  am_t_status_prohibit :: int
  am_poll_pdu :: int
  am_poll_byte :: int
  am_max_retx_threshold :: int
  am_sn_field_length :: int
  am_sn_modulus :: int
  am_window_size :: int
  am_rx_next :: int
  am_rx_next_status_trigger :: int
  am_rx_highest_status :: int
  am_rx_next_highest :: int
  am_status_triggered :: bool
  am_tx_next :: int
  am_tx_next_ack :: int
  am_poll_sn :: int
  am_pdu_without_poll :: int
  am_byte_without_poll :: int
  am_force_poll :: bool
  am_t_current :: u64
  am_t_log_buffer_full :: u64
  am_sdu_rejected :: int
  am_t_poll_retransmit_start :: u64
  am_t_reassembly_start :: u64
  am_t_status_prohibit_start :: u64
  am_rx :: nr_rlc_rx_manager
  am_rx_size :: int
  am_rx_maxsize :: int
  am_tx_list :: "am_segment list"
  am_tx_size :: int
  am_tx_maxsize :: int
  am_wait_list :: "am_segment list"
  am_retransmit_list :: "am_segment list"
  am_store :: "nat \<rightharpoonup> nr_rlc_sdu"   \<comment> \<open>the allocated SDUs\<close>
  am_fresh :: nat                     \<comment> \<open>the address of the next allocation\<close>

definition am_stats :: "(nr_rlc_statistics \<Rightarrow> nr_rlc_statistics) \<Rightarrow> nr_rlc_entity_am \<Rightarrow> nr_rlc_entity_am" where
  "am_stats f e = e\<lparr>am_common := upd_stats f (am_common e)\<rparr>"

definition am_add_tx_size :: "int \<Rightarrow> nr_rlc_entity_am \<Rightarrow> nr_rlc_entity_am" where
  "am_add_tx_size n e = e\<lparr>am_common := add_tx_size n (am_common e)\<rparr>"

definition am_add_retx_size :: "int \<Rightarrow> nr_rlc_entity_am \<Rightarrow> nr_rlc_entity_am" where
  "am_add_retx_size n e =
     e\<lparr>am_common := (am_common e)\<lparr>bstatus := (bstatus (am_common e))\<lparr>bs_retx_size := bs_retx_size (bstatus (am_common e)) + n\<rparr>\<rparr>\<rparr>"

definition new_nr_rlc_entity_am ::
  "int \<Rightarrow> int \<Rightarrow> int \<Rightarrow> int \<Rightarrow> int \<Rightarrow> int \<Rightarrow> int \<Rightarrow> int \<Rightarrow> int \<Rightarrow> nr_rlc_entity_am c_result" where
  "new_nr_rlc_entity_am rx_maxsize tx_maxsize t_poll_retransmit t_reassembly t_status_prohibit
       poll_pdu poll_byte max_retx_threshold sn_field_length =
     c_bind (c_check AssertFail (sn_field_length = 12 \<or> sn_field_length = 18)) (\<lambda>_.
     c_bind (time_average_new 100000 1024) (\<lambda>avg.
     Inr \<lparr>am_common = nr_rlc_entity_init NR_RLC_AM avg, am_t_poll_retransmit = t_poll_retransmit,
          am_t_reassembly = t_reassembly, am_t_status_prohibit = t_status_prohibit, am_poll_pdu = poll_pdu,
          am_poll_byte = poll_byte, am_max_retx_threshold = max_retx_threshold,
          am_sn_field_length = sn_field_length, am_sn_modulus = 2 ^ nat sn_field_length,
          am_window_size = 2 ^ nat sn_field_length div 2, am_rx_next = 0, am_rx_next_status_trigger = 0,
          am_rx_highest_status = 0, am_rx_next_highest = 0, am_status_triggered = False, am_tx_next = 0,
          am_tx_next_ack = 0, am_poll_sn = 0, am_pdu_without_poll = 0, am_byte_without_poll = 0,
          am_force_poll = False, am_t_current = 0, am_t_log_buffer_full = 0, am_sdu_rejected = 0,
          am_t_poll_retransmit_start = 0, am_t_reassembly_start = 0, am_t_status_prohibit_start = 0,
          am_rx = nr_rlc_new_rx_manager (2 ^ nat (sn_field_length - 1)), am_rx_size = 0,
          am_rx_maxsize = rx_maxsize * 5, am_tx_list = [], am_tx_size = 0, am_tx_maxsize = tx_maxsize * 5,
          am_wait_list = [], am_retransmit_list = [], am_store = Map.empty, am_fresh = 0\<rparr>))"

definition nr_rlc_entity_am_reconfigure ::
  "nr_rlc_entity_am \<Rightarrow> int \<Rightarrow> int \<Rightarrow> int \<Rightarrow> int \<Rightarrow> int \<Rightarrow> int \<Rightarrow> int option \<Rightarrow> nr_rlc_entity_am" where
  "nr_rlc_entity_am_reconfigure e t_poll_retransmit t_reassembly t_status_prohibit poll_pdu poll_byte
       max_retx_threshold sn_field_length =
     (let e = e\<lparr>am_t_poll_retransmit := t_poll_retransmit, am_t_reassembly := t_reassembly,
                am_t_status_prohibit := t_status_prohibit, am_poll_pdu := poll_pdu, am_poll_byte := poll_byte,
                am_max_retx_threshold := max_retx_threshold\<rparr>
      in case sn_field_length of None \<Rightarrow> e | Some n \<Rightarrow> e\<lparr>am_sn_field_length := n\<rparr>)"

definition am_compute_pdu_header_size :: "nr_rlc_entity_am \<Rightarrow> am_segment \<Rightarrow> int" where
  "am_compute_pdu_header_size e sdu =
     2 + (if am_sn_field_length e = 18 then 1 else 0) + (if \<not> as_is_first sdu then 2 else 0)"

text \<open>The SDU that a segment points to.\<close>

definition am_sdu :: "nr_rlc_entity_am \<Rightarrow> am_segment \<Rightarrow> nr_rlc_sdu c_result" where
  "am_sdu e s = (case am_store e (as_sdu s) of Some d \<Rightarrow> Inr d | None \<Rightarrow> Inl NullDeref)"

definition am_put_sdu :: "nr_rlc_entity_am \<Rightarrow> am_segment \<Rightarrow> nr_rlc_sdu \<Rightarrow> nr_rlc_entity_am" where
  "am_put_sdu e s d = e\<lparr>am_store := (am_store e)(as_sdu s \<mapsto> d)\<rparr>"

text \<open>\<^verbatim>\<open>nr_rlc_free_sdu_segment\<close>: the result says whether the SDU is freed too.\<close>

definition am_free_sdu_segment :: "nr_rlc_entity_am \<Rightarrow> am_segment \<Rightarrow> (bool \<times> nr_rlc_entity_am) c_result" where
  "am_free_sdu_segment e s =
     c_bind (am_sdu e s) (\<lambda>d.
     let d = d\<lparr>sdu_free_count := sdu_free_count d + 1\<rparr>
     in if sdu_free_count d = sdu_ref_count d then Inr (True, e\<lparr>am_store := (am_store e)(as_sdu s := None)\<rparr>)
        else Inr (False, am_put_sdu e s d))"

subsection \<open>Sequence numbers\<close>

definition am_modulus_rx :: "nr_rlc_entity_am \<Rightarrow> int \<Rightarrow> int" where
  "am_modulus_rx e a = (let r = a - am_rx_next e in if r < 0 then r + am_sn_modulus e else r)"

definition am_modulus_tx :: "nr_rlc_entity_am \<Rightarrow> int \<Rightarrow> int" where
  "am_modulus_tx e a = (let r = a - am_tx_next_ack e in if r < 0 then r + am_sn_modulus e else r)"

definition am_sn_in_recv_window :: "nr_rlc_entity_am \<Rightarrow> int \<Rightarrow> bool" where
  "am_sn_in_recv_window e sn \<longleftrightarrow> am_modulus_rx e sn < am_window_size e"

definition am_sn_compare_rx :: "nr_rlc_entity_am \<Rightarrow> int \<Rightarrow> int \<Rightarrow> int" where
  "am_sn_compare_rx e a b = am_modulus_rx e a - am_modulus_rx e b"

definition am_sn_compare_tx :: "nr_rlc_entity_am \<Rightarrow> int \<Rightarrow> int \<Rightarrow> int" where
  "am_sn_compare_tx e a b = am_modulus_tx e a - am_modulus_tx e b"

definition am_inc :: "nr_rlc_entity_am \<Rightarrow> int \<Rightarrow> int" where
  "am_inc e sn = c_rem (sn + 1) (am_sn_modulus e)"

fun nr_rlc_tx_sdu_segment_list_add :: "nr_rlc_entity_am \<Rightarrow> am_segment list \<Rightarrow> am_segment \<Rightarrow> am_segment list c_result" where
  "nr_rlc_tx_sdu_segment_list_add e [] s = Inr [s]"
| "nr_rlc_tx_sdu_segment_list_add e (cur # cs) s =
     c_bind (am_sdu e cur) (\<lambda>dc. c_bind (am_sdu e s) (\<lambda>d.
     if am_sn_compare_tx e (sdu_sn dc) (sdu_sn d) > 0 \<or> (sdu_sn dc = sdu_sn d \<and> as_so cur > as_so s)
     then Inr (s # cur # cs)
     else c_bind (nr_rlc_tx_sdu_segment_list_add e cs s) (\<lambda>l. Inr (cur # l))))"

subsection \<open>PDU RX functions\<close>

fun segment_received_loop :: "nr_rlc_pdu list \<Rightarrow> int \<Rightarrow> int \<Rightarrow> bool" where
  "segment_received_loop [] so n = (n \<le> 0)"
| "segment_received_loop (l # ls) so n =
     (if n \<le> 0 then True
      else if pdu_so l \<le> so \<and> so < pdu_so l + pdu_size l
      then let covered = pdu_size l - (so - pdu_so l) in segment_received_loop ls (so + covered) (n - covered)
      else if pdu_so l \<le> so + n - 1 \<and> so + n - 1 < pdu_so l + pdu_size l
      then segment_received_loop ls so (n - (n - (pdu_so l - so)))
      else segment_received_loop ls so n)"

definition segment_already_received :: "nr_rlc_entity_am \<Rightarrow> int \<Rightarrow> int \<Rightarrow> int \<Rightarrow> bool c_result" where
  "segment_already_received e sn so n =
     c_bind (nr_rlc_rx_manager_get_pdu_from_sn (am_rx e) sn) (\<lambda>l. Inr (segment_received_loop l so n))"

fun am_sdu_full_loop :: "int \<Rightarrow> nr_rlc_pdu list \<Rightarrow> bool" where
  "am_sdu_full_loop last_byte [] = False"
| "am_sdu_full_loop last_byte (l # ls) =
     (if pdu_so l > last_byte + 1 then False
      else if pdu_is_last l then True
      else am_sdu_full_loop (max last_byte (pdu_so l + pdu_size l - 1)) ls)"

fun am_sdu_missing_loop :: "int \<Rightarrow> nr_rlc_pdu list \<Rightarrow> bool" where
  "am_sdu_missing_loop last_byte [] = False"
| "am_sdu_missing_loop last_byte (l # ls) =
     (if pdu_so l > last_byte + 1 then True
      else am_sdu_missing_loop (max last_byte (pdu_so l + pdu_size l - 1)) ls)"

definition cells_processed :: "nr_rlc_pdu list \<Rightarrow> bool" where
  "cells_processed cells = (case cells of [] \<Rightarrow> False | l # _ \<Rightarrow> pdu_data l = None)"

definition am_sdu_full :: "nr_rlc_entity_am \<Rightarrow> int \<Rightarrow> bool c_result" where
  "am_sdu_full e sn =
     c_bind (nr_rlc_rx_manager_get_pdu_from_sn (am_rx e) sn) (\<lambda>l.
     Inr (if cells_processed l then False else am_sdu_full_loop (- 1) l))"

definition am_sdu_delivered :: "nr_rlc_entity_am \<Rightarrow> int \<Rightarrow> bool c_result" where
  "am_sdu_delivered e sn = c_bind (nr_rlc_rx_manager_get_pdu_from_sn (am_rx e) sn) (\<lambda>l. Inr (cells_processed l))"

definition am_sdu_has_missing_bytes :: "nr_rlc_entity_am \<Rightarrow> int \<Rightarrow> bool c_result" where
  "am_sdu_has_missing_bytes e sn =
     c_bind (nr_rlc_rx_manager_get_pdu_from_sn (am_rx e) sn) (\<lambda>l.
     Inr (if cells_processed l then False else am_sdu_missing_loop (- 1) l))"

text \<open>The copy loop: as in the unacknowledged mode, but a segment keeps its size.\<close>

fun am_reassemble_loop ::
  "byte list \<Rightarrow> bool \<Rightarrow> int \<Rightarrow> nr_rlc_pdu list \<Rightarrow> (byte list \<times> bool \<times> int \<times> nr_rlc_pdu list) c_result" where
  "am_reassemble_loop sdu bad_sdu rx_size [] = Inr (sdu, bad_sdu, rx_size, [])"
| "am_reassemble_loop sdu bad_sdu rx_size (pdu # ps) =
     (let so = int (length sdu);
          bad_sdu = (bad_sdu \<or> pdu_so pdu > so);
          len = pdu_size pdu - (so - pdu_so pdu);
          bad_sdu = (bad_sdu \<or> so + len > NR_SDU_MAX)
      in c_bind (if \<not> bad_sdu \<and> len > 0
                 then (case pdu_data pdu of
                         None \<Rightarrow> Inl NullDeref
                       | Some data \<Rightarrow> c_bind (buf_read data (so - pdu_so pdu) len) (\<lambda>bs. Inr (sdu @ bs)))
                 else Inr sdu) (\<lambda>sdu.
         c_bind (am_reassemble_loop sdu bad_sdu (rx_size - pdu_size pdu) ps) (\<lambda>(sdu, bad_sdu, rx_size, ps).
         Inr (sdu, bad_sdu, rx_size, pdu\<lparr>pdu_data := None\<rparr> # ps))))"

definition am_reassemble_and_deliver :: "nr_rlc_entity_am \<Rightarrow> int \<Rightarrow> (nr_rlc_entity_am \<times> byte list list) c_result" where
  "am_reassemble_and_deliver e sn =
     c_bind (nr_rlc_rx_manager_get_pdu_from_sn (am_rx e) sn) (\<lambda>cells.
     c_bind (am_reassemble_loop [] False (am_rx_size e) cells) (\<lambda>(sdu, bad_sdu, rx_size, cells).
     c_bind (rm_put (am_rx e) sn cells) (\<lambda>rx.
     let e = e\<lparr>am_rx := rx, am_rx_size := rx_size\<rparr>
     in if bad_sdu then Inr (e, [])
        else Inr (am_stats (\<lambda>s. s\<lparr>txsdu_pkts := txsdu_pkts s + 1\<rparr>) e, [sdu]))))"

text \<open>The loops over delivered SDUs.\<close>

definition c_true :: "bool c_result \<Rightarrow> bool" where
  "c_true m = (case m of Inr b \<Rightarrow> b | Inl _ \<Rightarrow> False)"

definition am_skip_delivered :: "nr_rlc_entity_am \<Rightarrow> int \<Rightarrow> int c_result" where
  "am_skip_delivered e sn =
     (case while_option (\<lambda>s. c_true (am_sdu_delivered e s)) (am_inc e) sn of
        None \<Rightarrow> Inl NoReturn
      | Some s \<Rightarrow> c_bind (am_sdu_delivered e s) (\<lambda>_. Inr s))"

definition am_free_delivered :: "nr_rlc_entity_am \<Rightarrow> (nr_rlc_rx_manager \<times> int \<times> int) c_result" where
  "am_free_delivered e =
     (case while_option
             (\<lambda>(rx, sn, count). case nr_rlc_rx_manager_get_pdu_from_sn rx sn of Inr l \<Rightarrow> cells_processed l | Inl _ \<Rightarrow> False)
             (\<lambda>(rx, sn, count). (projr (nr_rlc_rx_manager_clear_pdu rx sn), am_inc e sn, count + 1))
             (am_rx e, am_rx_next e, 0) of
        None \<Rightarrow> Inl NoReturn
      | Some (rx, sn, count) \<Rightarrow> c_bind (nr_rlc_rx_manager_get_pdu_from_sn rx sn) (\<lambda>_. Inr (rx, sn, count)))"

definition am_start_t_reassembly :: "nr_rlc_entity_am \<Rightarrow> nr_rlc_entity_am" where
  "am_start_t_reassembly e =
     e\<lparr>am_t_reassembly_start := am_t_current e, am_rx_next_status_trigger := am_rx_next_highest e\<rparr>"

definition am_reception_timer :: "nr_rlc_entity_am \<Rightarrow> nr_rlc_entity_am c_result" where
  "am_reception_timer e =
     c_bind (am_sdu_has_missing_bytes e (am_rx_next e)) (\<lambda>missing.
     let next1 = am_inc e (am_rx_next e);
         e = (if am_t_reassembly_start e \<noteq> 0 \<and>
                 (am_rx_next_status_trigger e = am_rx_next e \<or>
                  (am_rx_next_status_trigger e = next1 \<and> \<not> missing) \<or>
                  (\<not> am_sn_in_recv_window e (am_rx_next_status_trigger e) \<and>
                   am_rx_next_status_trigger e \<noteq> c_rem (am_rx_next e + am_window_size e) (am_sn_modulus e)))
              then e\<lparr>am_t_reassembly_start := 0\<rparr> else e)
     in Inr (if am_t_reassembly_start e = 0 \<and>
                (am_sn_compare_rx e (am_rx_next_highest e) next1 > 0 \<or>
                 (am_rx_next_highest e = next1 \<and> missing))
             then am_start_t_reassembly e else e))"

definition am_reception_actions :: "nr_rlc_entity_am \<Rightarrow> int \<Rightarrow> (nr_rlc_entity_am \<times> byte list list) c_result" where
  "am_reception_actions e x =
     (let e = (if am_sn_compare_rx e x (am_rx_next_highest e) \<ge> 0
               then e\<lparr>am_rx_next_highest := am_inc e x\<rparr> else e)
      in c_bind (am_sdu_full e x) (\<lambda>full.
         c_bind
           (if full
            then c_bind (am_reassemble_and_deliver e x) (\<lambda>(e, out).
                 c_bind (if x = am_rx_highest_status e
                         then c_bind (am_skip_delivered e (am_rx_highest_status e)) (\<lambda>s.
                              Inr (e\<lparr>am_rx_highest_status := s\<rparr>))
                         else Inr e) (\<lambda>e.
                 c_bind (if x = am_rx_next e
                         then c_bind (am_free_delivered e) (\<lambda>(rx, rx_next, count).
                              Inr (e\<lparr>am_rx_next := rx_next,
                                     am_rx := nr_rlc_rx_manager_set_start (nr_rlc_rx_manager_advance rx count) rx_next\<rparr>))
                         else Inr e) (\<lambda>e.
                 Inr (e, out))))
            else Inr (e, []))
           (\<lambda>(e, out). c_bind (am_reception_timer e) (\<lambda>e. Inr (e, out)))))"

definition so_overlap :: "int \<Rightarrow> int \<Rightarrow> int \<Rightarrow> int \<Rightarrow> bool" where
  "so_overlap s1 e1 s2 e2 = (if s1 < s2 then e1 = - 1 \<or> e1 \<ge> s2 else e2 = - 1 \<or> s1 \<le> e2)"

subsection \<open>Control PDUs\<close>

text \<open>The start of a control PDU: \<open>ack_sn\<close> and \<open>e1\<close>.\<close>

definition am_decode_status :: "int \<Rightarrow> byte list \<Rightarrow> (int \<times> bool \<times> nr_rlc_pdu_decoder) option c_result" where
  "am_decode_status len buffer =
     decode_bits (nr_rlc_pdu_decoder_init buffer) 1 (\<lambda>_ d.
     decode_bits d 3 (\<lambda>cpt d.
     if cpt \<noteq> 0 then Inr None
     else decode_bits d len (\<lambda>ack_sn d.
          decode_bits d 1 (\<lambda>e1 d.
          decode_bits d (if len = 18 then 1 else 7) (\<lambda>_ d.
          Inr (Some (ack_sn, e1 \<noteq> 0, d)))))))"

record am_nack =
  nk_sn :: int
  nk_so_start :: int
  nk_so_end :: int
  nk_range :: int

text \<open>A block of NACK information and the \<open>e1\<close> bit that tells whether another one follows.\<close>

definition am_decode_nack :: "int \<Rightarrow> nr_rlc_pdu_decoder \<Rightarrow> (am_nack \<times> bool \<times> nr_rlc_pdu_decoder) option c_result" where
  "am_decode_nack len d =
     decode_bits d len (\<lambda>nack_sn d.
     decode_bits d 1 (\<lambda>e1 d.
     decode_bits d 1 (\<lambda>e2 d.
     decode_bits d 1 (\<lambda>e3 d.
     decode_bits d (if len = 18 then 3 else 1) (\<lambda>_ d.
     let rng = (\<lambda>so_start so_end d.
           let so_end = (if so_end = 0xffff then - 1 else so_end)
           in if e3 \<noteq> 0
              then decode_bits d 8 (\<lambda>range d.
                     Inr (Some (\<lparr>nk_sn = nack_sn, nk_so_start = so_start, nk_so_end = so_end, nk_range = range\<rparr>, e1 \<noteq> 0, d)))
              else Inr (Some (\<lparr>nk_sn = nack_sn, nk_so_start = so_start, nk_so_end = so_end, nk_range = 1\<rparr>, e1 \<noteq> 0, d)))
     in if e2 \<noteq> 0
        then decode_bits d 16 (\<lambda>so_start d. decode_bits d 16 (\<lambda>so_end d. rng so_start so_end d))
        else rng 0 0xffff d)))))"

text \<open>The part of a NACK of several SNs that concerns one of them: SN, start and end.\<close>

definition nack_part :: "nr_rlc_entity_am \<Rightarrow> am_nack \<Rightarrow> nat \<Rightarrow> int \<times> int \<times> int" where
  "nack_part e n i =
     (c_rem (nk_sn n + int i) (am_sn_modulus e), if i = 0 then nk_so_start n else 0,
      if int i = nk_range n - 1 then nk_so_end n else - 1)"

definition nack_parts :: "nr_rlc_entity_am \<Rightarrow> am_nack \<Rightarrow> (int \<times> int \<times> int) list" where
  "nack_parts e n = map (nack_part e n) [0..<nat (nk_range n)]"

text \<open>
  The check of one SN in the validating loop. \<open>prev_nack_sn\<close> and \<open>prev_so_end\<close> are set in the second
  loop only: here they are \<open>-1\<close> and \<open>0\<close> all the time.
\<close>

definition nack_valid :: "nr_rlc_entity_am \<Rightarrow> int \<Rightarrow> int \<Rightarrow> int \<Rightarrow> int \<times> int \<times> int \<Rightarrow> bool" where
  "nack_valid e ack_sn prev_nack_sn prev_so_end = (\<lambda>(cur_nack_sn, cur_so_start, cur_so_end).
     (prev_nack_sn \<noteq> - 1 \<longrightarrow>
        \<not> (let cmp = am_sn_compare_tx e cur_nack_sn prev_nack_sn
           in cmp < 0 \<or> (cmp = 0 \<and> (prev_so_end = - 1 \<or> cur_so_start \<le> prev_so_end)))) \<and>
     \<not> am_sn_compare_tx e cur_nack_sn ack_sn > 0)"

text \<open>
  The validating loop: the NACKs of the PDU, or \<open>None\<close>. Every round reads at least two bytes; the
  argument bounds the number of rounds, and \<open>NoReturn\<close> would mean that it was too small.
\<close>

fun am_read_nacks :: "nat \<Rightarrow> nr_rlc_entity_am \<Rightarrow> int \<Rightarrow> nr_rlc_pdu_decoder \<Rightarrow> am_nack list option c_result" where
  "am_read_nacks 0 e ack_sn d = Inl NoReturn"
| "am_read_nacks (Suc k) e ack_sn d =
     c_bind (am_decode_nack (am_sn_field_length e) d) (\<lambda>r.
     case r of
       None \<Rightarrow> Inr None
     | Some (n, e1, d) \<Rightarrow>
         if \<not> list_all (nack_valid e ack_sn (- 1) 0) (nack_parts e n) then Inr None
         else if \<not> e1 then Inr (Some [n])
         else c_bind (am_read_nacks k e ack_sn d) (\<lambda>ns. Inr (map_option (\<lambda>ns. n # ns) ns)))"

text \<open>
  The state of the second loop. The wait list is \<open>ct_kept @ ct_wait @ ct_tail\<close>: what was looked at and
  stays, what is to be looked at (\<^verbatim>\<open>cur_wait_list\<close>), and what \<^verbatim>\<open>cur_wait_list = NULL\<close> cuts off from the rest of
  the work. \<open>ct_new\<close> is the new retransmit list, \<open>ct_retx\<close> is \<^verbatim>\<open>cur_retransmit_list\<close>.
\<close>

record am_ctl =
  ct_e :: nr_rlc_entity_am
  ct_kept :: "am_segment list"
  ct_wait :: "am_segment list"
  ct_tail :: "am_segment list"
  ct_new :: "am_segment list"
  ct_retx :: "am_segment list"
  ct_out :: "am_output list"

text \<open>A segment is acknowledged: it is freed, and with its last segment the SDU.\<close>

definition am_ack_segment :: "am_segment \<Rightarrow> am_ctl \<Rightarrow> am_ctl c_result" where
  "am_ack_segment s c =
     c_bind (am_sdu (ct_e c) s) (\<lambda>d.
     c_bind (am_free_sdu_segment (ct_e c) s) (\<lambda>(freed, e).
     Inr (if freed
          then c\<lparr>ct_e := am_stats (\<lambda>st. st\<lparr>txsdu_bytes := txsdu_bytes st + of_int (sdu_size d)\<rparr>)
                          (e\<lparr>am_tx_size := am_tx_size e - sdu_size d\<rparr>),
                 ct_out := ct_out c @ [AmAcked (sdu_upper_layer_id d)]\<rparr>
          else c\<lparr>ct_e := e\<rparr>)))"

text \<open>A segment of the wait list has to be sent again.\<close>

definition am_nack_segment :: "am_segment \<Rightarrow> am_ctl \<Rightarrow> am_ctl c_result" where
  "am_nack_segment s c =
     c_bind (am_sdu (ct_e c) s) (\<lambda>d.
     let d = d\<lparr>sdu_retx_count := sdu_retx_count d + 1\<rparr>;
         e = am_add_retx_size (am_compute_pdu_header_size (ct_e c) s + as_size s) (am_put_sdu (ct_e c) s d)
     in Inr (c\<lparr>ct_e := e, ct_new := ct_new c @ [s],
               ct_out := ct_out c @ (if sdu_retx_count d \<ge> am_max_retx_threshold e * sdu_ref_count d then [AmMaxRetx] else [])\<rparr>))"

text \<open>
  One round at \<^verbatim>\<open>process_next_pdu\<close> for a NACK of \<open>nack_sn\<close> from \<open>so_start\<close> to \<open>so_end\<close>. The result says how
  it goes on: another round, \<^verbatim>\<open>done_nack\<close> or \<^verbatim>\<open>lists_over\<close>.
\<close>

datatype ctl_next = NextPdu | DoneNack | ListsOver

definition process_wait_list_head ::
  "int \<Rightarrow> int \<times> int \<times> int \<Rightarrow> am_segment \<Rightarrow> am_segment list \<Rightarrow> am_ctl \<Rightarrow> (ctl_next \<times> am_ctl) c_result" where
  "process_wait_list_head ack_sn = (\<lambda>(nack_sn, so_start, so_end) s ws c.
     c_bind (am_sdu (ct_e c) s) (\<lambda>d.
     let cmp = am_sn_compare_tx (ct_e c) (sdu_sn d) nack_sn;
         cmp_ack = am_sn_compare_tx (ct_e c) (sdu_sn d) ack_sn
     in if sdu_sn d = nack_sn \<and> so_overlap so_start so_end (as_so s) (as_so s + as_size s - 1)
        then c_bind (am_nack_segment s (c\<lparr>ct_wait := ws\<rparr>)) (\<lambda>c. Inr (NextPdu, c))
        else if cmp > 0 \<or> (cmp = 0 \<and> as_so s > so_start) then Inr (DoneNack, c)
        else if cmp_ack < 0 then c_bind (am_ack_segment s (c\<lparr>ct_wait := ws\<rparr>)) (\<lambda>c. Inr (NextPdu, c))
        else if cmp_ack > 0 then Inr (NextPdu, c\<lparr>ct_wait := [], ct_tail := s # ws\<rparr>)
        else Inr (NextPdu, c\<lparr>ct_kept := ct_kept c @ [s], ct_wait := ws\<rparr>)))"

text \<open>
  When the wait list is over and the segment cannot be classified, the code links the rest of the
  retransmit list behind the new one without moving \<^verbatim>\<open>new_retransmit_list\<close>; the assignment after the loops
  to \<^verbatim>\<open>new_retransmit_list->next\<close> then cuts it off again. So the rest is lost.
\<close>

definition process_retransmit_list_head ::
  "int \<Rightarrow> int \<times> int \<times> int \<Rightarrow> am_segment \<Rightarrow> am_segment list \<Rightarrow> am_ctl \<Rightarrow> (ctl_next \<times> am_ctl) c_result" where
  "process_retransmit_list_head ack_sn = (\<lambda>(nack_sn, so_start, so_end) s rs c.
     c_bind (am_sdu (ct_e c) s) (\<lambda>d.
     let cmp = am_sn_compare_tx (ct_e c) (sdu_sn d) nack_sn;
         cmp_ack = am_sn_compare_tx (ct_e c) (sdu_sn d) ack_sn
     in if sdu_sn d = nack_sn \<and> so_overlap so_start so_end (as_so s) (as_so s + as_size s - 1)
        then Inr (NextPdu, c\<lparr>ct_new := ct_new c @ [s], ct_retx := rs\<rparr>)
        else if cmp > 0 \<or> (cmp = 0 \<and> as_so s > so_start) then Inr (DoneNack, c)
        else if cmp_ack < 0
        then c_bind (am_ack_segment s (c\<lparr>ct_e := am_add_retx_size (- (am_compute_pdu_header_size (ct_e c) s + as_size s)) (ct_e c),
                                         ct_retx := rs\<rparr>)) (\<lambda>c. Inr (NextPdu, c))
        else if ct_wait c = [] then Inr (ListsOver, c\<lparr>ct_retx := []\<rparr>)
        else Inr (NextPdu, c\<lparr>ct_new := ct_new c @ [s], ct_retx := rs\<rparr>)))"

definition process_next_pdu :: "int \<Rightarrow> int \<times> int \<times> int \<Rightarrow> am_ctl \<Rightarrow> (ctl_next \<times> am_ctl) c_result" where
  "process_next_pdu ack_sn nack c =
     (case (ct_wait c, ct_retx c) of
        ([], []) \<Rightarrow> Inr (ListsOver, c)
      | ([], r # rs) \<Rightarrow> process_retransmit_list_head ack_sn nack r rs c
      | (w # ws, []) \<Rightarrow> process_wait_list_head ack_sn nack w ws c
      | (w # ws, r # rs) \<Rightarrow>
          c_bind (am_sdu (ct_e c) w) (\<lambda>dw. c_bind (am_sdu (ct_e c) r) (\<lambda>dr.
          let cmp = am_sn_compare_tx (ct_e c) (sdu_sn dw) (sdu_sn dr)
          in if cmp < 0 \<or> (cmp = 0 \<and> as_so w < as_so r) then process_wait_list_head ack_sn nack w ws c
             else process_retransmit_list_head ack_sn nack r rs c)))"

text \<open>
  The rounds for one SN. Every round shortens a list, so there are at most as many as segments: the
  argument \<open>k\<close> is that number.
\<close>

fun process_nack :: "nat \<Rightarrow> int \<Rightarrow> int \<times> int \<times> int \<Rightarrow> am_ctl \<Rightarrow> (bool \<times> am_ctl) c_result" where
  "process_nack 0 ack_sn nack c = Inl NoReturn"
| "process_nack (Suc k) ack_sn nack c =
     c_bind (process_next_pdu ack_sn nack c) (\<lambda>(nx, c).
     case nx of
       NextPdu \<Rightarrow> process_nack k ack_sn nack c
     | DoneNack \<Rightarrow> Inr (False, c)
     | ListsOver \<Rightarrow> Inr (True, c))"

fun process_nack_parts :: "int \<Rightarrow> (int \<times> int \<times> int) list \<Rightarrow> am_ctl \<Rightarrow> am_ctl c_result" where
  "process_nack_parts ack_sn [] c = Inr c"
| "process_nack_parts ack_sn (p # ps) c =
     c_bind (process_nack (Suc (length (ct_wait c) + length (ct_retx c))) ack_sn p c) (\<lambda>(over, c).
     if over then Inr c else process_nack_parts ack_sn ps c)"

definition stop_poll_timer_if :: "bool \<Rightarrow> nr_rlc_entity_am \<Rightarrow> nr_rlc_entity_am" where
  "stop_poll_timer_if b e = (if b then e\<lparr>am_t_poll_retransmit_start := 0\<rparr> else e)"

fun process_nacks :: "int \<Rightarrow> am_nack list \<Rightarrow> am_ctl \<Rightarrow> am_ctl c_result" where
  "process_nacks ack_sn [] c = Inr c"
| "process_nacks ack_sn (n # ns) c =
     c_bind (process_nack_parts ack_sn (nack_parts (ct_e c) n) c) (\<lambda>c.
     let e = ct_e c
     in process_nacks ack_sn ns (c\<lparr>ct_e := stop_poll_timer_if
          (am_sn_compare_tx e (nk_sn n) (am_poll_sn e) \<le> 0 \<and>
           am_sn_compare_tx e (am_poll_sn e) (c_rem (nk_sn n + nk_range n) (am_sn_modulus e)) < 0) e\<rparr>))"

text \<open>The two loops after the NACKs.\<close>

fun ack_wait_list :: "int \<Rightarrow> am_segment list \<Rightarrow> am_ctl \<Rightarrow> am_ctl c_result" where
  "ack_wait_list ack_sn [] c = Inr (c\<lparr>ct_wait := []\<rparr>)"
| "ack_wait_list ack_sn (s # ws) c =
     c_bind (am_sdu (ct_e c) s) (\<lambda>d.
     if am_sn_compare_tx (ct_e c) (sdu_sn d) ack_sn < 0
     then c_bind (am_ack_segment s c) (ack_wait_list ack_sn ws)
     else Inr (c\<lparr>ct_wait := s # ws\<rparr>))"

fun ack_retransmit_list :: "int \<Rightarrow> am_segment list \<Rightarrow> am_ctl \<Rightarrow> am_ctl c_result" where
  "ack_retransmit_list ack_sn [] c = Inr (c\<lparr>ct_retx := []\<rparr>)"
| "ack_retransmit_list ack_sn (s # rs) c =
     c_bind (am_sdu (ct_e c) s) (\<lambda>d.
     if am_sn_compare_tx (ct_e c) (sdu_sn d) ack_sn < 0
     then c_bind (am_ack_segment s (c\<lparr>ct_e := am_add_retx_size (- (am_compute_pdu_header_size (ct_e c) s + as_size s)) (ct_e c)\<rparr>))
            (ack_retransmit_list ack_sn rs)
     else Inr (c\<lparr>ct_retx := s # rs\<rparr>))"

text \<open>\<open>tx_next_ack\<close>: the smallest of \<open>tx_next\<close>, the heads of the two lists and \<open>ack_sn\<close>.\<close>

definition lower_ack :: "nr_rlc_entity_am \<Rightarrow> am_segment list \<Rightarrow> int \<Rightarrow> int c_result" where
  "lower_ack e l sn =
     (case l of
        [] \<Rightarrow> Inr sn
      | s # _ \<Rightarrow> c_bind (am_sdu e s) (\<lambda>d. Inr (if am_sn_compare_tx e (sdu_sn d) sn < 0 then sdu_sn d else sn)))"

definition update_tx_next_ack :: "nr_rlc_entity_am \<Rightarrow> int \<Rightarrow> nr_rlc_entity_am c_result" where
  "update_tx_next_ack e ack_sn =
     c_bind (lower_ack e (am_wait_list e) (am_tx_next e)) (\<lambda>sn.
     c_bind (lower_ack e (am_retransmit_list e) sn) (\<lambda>sn.
     Inr (e\<lparr>am_tx_next_ack := if am_sn_compare_tx e ack_sn sn < 0 then ack_sn else sn\<rparr>)))"

definition process_control_pdu :: "nr_rlc_entity_am \<Rightarrow> byte list \<Rightarrow> (nr_rlc_entity_am \<times> am_output list) c_result" where
  "process_control_pdu e buffer =
     c_bind (am_decode_status (am_sn_field_length e) buffer) (\<lambda>r.
     case r of
       None \<Rightarrow> Inr (e, [])
     | Some (ack_sn, e1, d) \<Rightarrow>
         if am_sn_compare_tx e ack_sn (am_tx_next e) > 0 then Inr (e, [])
         else c_bind (if e1 then am_read_nacks (Suc (length buffer)) e ack_sn d else Inr (Some [])) (\<lambda>ns.
              case ns of
                None \<Rightarrow> Inr (e, [])
              | Some ns \<Rightarrow>
                  let e = stop_poll_timer_if (am_sn_compare_tx e (am_poll_sn e) ack_sn < 0) e;
                      c = \<lparr>ct_e = e, ct_kept = [], ct_wait = am_wait_list e, ct_tail = [], ct_new = [],
                           ct_retx = am_retransmit_list e, ct_out = []\<rparr>
                  in c_bind (process_nacks ack_sn ns c) (\<lambda>c.
                     c_bind (ack_wait_list ack_sn (ct_wait c) c) (\<lambda>c.
                     c_bind (ack_retransmit_list ack_sn (ct_retx c) c) (\<lambda>c.
                     c_bind (update_tx_next_ack ((ct_e c)\<lparr>am_wait_list := ct_kept c @ ct_wait c @ ct_tail c,
                                                          am_retransmit_list := ct_new c @ ct_retx c\<rparr>) ack_sn) (\<lambda>e.
                     Inr (e, ct_out c)))))))"

subsection \<open>Data PDUs\<close>

text \<open>The header of a data PDU. The poll bit is known before an error: it is given with \<open>None\<close> too.\<close>

definition am_poll_bits :: "bool \<Rightarrow> nr_rlc_pdu_decoder \<Rightarrow> int \<Rightarrow> (int \<Rightarrow> nr_rlc_pdu_decoder \<Rightarrow> (bool \<times> 'a option) c_result) \<Rightarrow> (bool \<times> 'a option) c_result" where
  "am_poll_bits p d n f =
     c_bind (nr_rlc_pdu_decoder_get_bits d (nat n)) (\<lambda>(v, d). if dec_error d then Inr (p, None) else f v d)"

definition am_decode_data :: "int \<Rightarrow> nr_rlc_pdu_decoder \<Rightarrow> (bool \<times> (bool \<times> bool \<times> int \<times> int \<times> nat) option) c_result" where
  "am_decode_data len d =
     c_bind (nr_rlc_pdu_decoder_get_bits d 1) (\<lambda>(pv, d).
     let p = (pv \<noteq> 0)
     in if dec_error d then Inr (p, None)
        else am_poll_bits p d 2 (\<lambda>si d.
             let is_first = (si AND 2 = 0); is_last = (si AND 1 = 0);
                 sn_so = (\<lambda>d.
                   am_poll_bits p d len (\<lambda>sn d.
                   if is_first then Inr (p, Some (is_first, is_last, sn, 0, dec_byte d))
                   else am_poll_bits p d 16 (\<lambda>so d.
                        if so = 0 then Inr (p, None) else Inr (p, Some (is_first, is_last, sn, so, dec_byte d)))))
             in if len = 18 then am_poll_bits p d 2 (\<lambda>_. sn_so) else sn_so d))"

definition am_discard_pdu :: "nr_rlc_entity_am \<Rightarrow> bool \<Rightarrow> nat \<Rightarrow> nr_rlc_entity_am" where
  "am_discard_pdu e p n =
     am_stats (\<lambda>s. s\<lparr>rxpdu_dd_pkts := rxpdu_dd_pkts s + 1, rxpdu_dd_bytes := rxpdu_dd_bytes s + of_nat n\<rparr>)
       (if p then e\<lparr>am_status_triggered := True\<rparr> else e)"

definition am_store_pdu :: "nr_rlc_entity_am \<Rightarrow> byte list \<Rightarrow> bool \<Rightarrow> int \<Rightarrow> int \<Rightarrow> bool \<Rightarrow> bool \<Rightarrow> nat \<Rightarrow>
    (nr_rlc_entity_am \<times> byte list list) c_result" where
  "am_store_pdu e buffer p sn so is_first is_last header =
     (let n = length buffer; data_size = int n - int header
      in if data_size \<le> 0 then Inr (am_discard_pdu e p n, [])
         else if am_rx_size e + data_size > am_rx_maxsize e then Inr (am_discard_pdu e p n, [])
         else if \<not> am_sn_in_recv_window e sn
         then Inr (am_discard_pdu (am_stats (\<lambda>s. s\<lparr>rxpdu_ow_pkts := rxpdu_ow_pkts s + 1,
                                                  rxpdu_ow_bytes := rxpdu_ow_bytes s + of_nat n\<rparr>) e) p n, [])
         else c_bind (segment_already_received e sn so data_size) (\<lambda>dup.
              if dup
              then Inr (am_discard_pdu (am_stats (\<lambda>s. s\<lparr>rxpdu_dup_pkts := rxpdu_dup_pkts s + 1,
                                                       rxpdu_dup_bytes := rxpdu_dup_bytes s + of_nat n\<rparr>) e) p n, [])
              else c_bind (nr_rlc_rx_manager_add_pdu (am_rx e) (nr_rlc_new_pdu sn so is_first is_last (drop header buffer))) (\<lambda>rx.
                   c_bind (am_reception_actions (e\<lparr>am_rx_size := am_rx_size e + data_size, am_rx := rx\<rparr>) sn) (\<lambda>(e, out).
                   Inr (if p then e\<lparr>am_status_triggered := True\<rparr> else e, out)))))"

definition nr_rlc_entity_am_recv_pdu :: "nr_rlc_entity_am \<Rightarrow> byte list \<Rightarrow> (nr_rlc_entity_am \<times> am_output list) c_result" where
  "nr_rlc_entity_am_recv_pdu e buffer =
     (let n = length buffer;
          e = am_stats (\<lambda>s. s\<lparr>rxpdu_pkts := rxpdu_pkts s + 1, rxpdu_bytes := rxpdu_bytes s + of_nat n\<rparr>) e
      in c_bind (nr_rlc_pdu_decoder_get_bits (nr_rlc_pdu_decoder_init buffer) 1) (\<lambda>(dc, d).
         if dec_error d then Inr (am_discard_pdu e False n, [])
         else if dc = 0 then process_control_pdu e buffer
         else c_bind (am_decode_data (am_sn_field_length e) d) (\<lambda>(p, h).
              case h of
                None \<Rightarrow> Inr (am_discard_pdu e p n, [])
              | Some (is_first, is_last, sn, so, header) \<Rightarrow>
                  c_bind (am_store_pdu e buffer p sn so is_first is_last header) (\<lambda>(e, out).
                  Inr (e, map AmDeliver out)))))"

end
