(* ===== verification/Rlc_Am_Send.thy ===== *)
theory Rlc_Am_Send
  imports Rlc_Am
begin

text \<open>
  The sending side of the acknowledged mode entity (\<^verbatim>\<open>nr_rlc_entity_am.c\<close> from \<^verbatim>\<open>is_window_stalling\<close> on): status
  reports, retransmissions, new PDUs, SDUs from above, timers and re-establishment. A pointer to a received
  segment is the list of the segments of its slot from that one on, and NULL is the empty list.
\<close>

definition is_window_stalling :: "nr_rlc_entity_am \<Rightarrow> bool" where
  "is_window_stalling e \<longleftrightarrow>
     \<not> (am_sn_compare_tx e (am_tx_next_ack e) (am_tx_next e) \<le> 0 \<and>
        am_sn_compare_tx e (am_tx_next e) (c_rem (am_tx_next_ack e + am_window_size e) (am_sn_modulus e)) < 0)"

definition include_poll :: "nr_rlc_entity_am \<Rightarrow> byte list \<Rightarrow> (nr_rlc_entity_am \<times> byte list) c_result" where
  "include_poll e buffer =
     c_bind (rd buffer 0) (\<lambda>b.
     Inr (e\<lparr>am_pdu_without_poll := 0, am_byte_without_poll := 0,
            am_poll_sn := c_rem (am_tx_next e - 1 + am_sn_modulus e) (am_sn_modulus e),
            am_t_poll_retransmit_start := am_t_current e\<rparr>,
          buffer[0 := b OR 0x40]))"

definition check_poll_after_pdu_assembly :: "nr_rlc_entity_am \<Rightarrow> bool" where
  "check_poll_after_pdu_assembly e \<longleftrightarrow>
     (am_tx_list e = [] \<and> am_retransmit_list e = []) \<or> is_window_stalling e"

definition am_serialize_sdu ::
  "nr_rlc_entity_am \<Rightarrow> am_segment \<Rightarrow> byte list \<Rightarrow> bool \<Rightarrow> (int \<times> byte list \<times> nr_rlc_entity_am) c_result" where
  "am_serialize_sdu e s buffer p =
     c_bind (am_sdu e s) (\<lambda>d.
     c_bind (nr_rlc_pdu_encoder_put_bits (nr_rlc_pdu_encoder_init buffer) 1 1) (\<lambda>enc.
     c_bind (nr_rlc_pdu_encoder_put_bits enc 0 1) (\<lambda>enc.
     c_bind (nr_rlc_pdu_encoder_put_bits enc (1 - of_bool (as_is_first s)) 1) (\<lambda>enc.
     c_bind (nr_rlc_pdu_encoder_put_bits enc (1 - of_bool (as_is_last s)) 1) (\<lambda>enc.
     c_bind (if am_sn_field_length e = 18 then nr_rlc_pdu_encoder_put_bits enc 0 2 else Inr enc) (\<lambda>enc.
     c_bind (nr_rlc_pdu_encoder_put_bits enc (sdu_sn d) (nat (am_sn_field_length e))) (\<lambda>enc.
     c_bind (if \<not> as_is_first s then nr_rlc_pdu_encoder_put_bits enc (as_so s) 16 else Inr enc) (\<lambda>enc.
     c_bind (buf_read (sdu_data d) (as_so s) (as_size s)) (\<lambda>data.
     c_bind (buf_write (enc_buffer enc) (int (enc_byte enc)) data) (\<lambda>buffer.
     c_bind (if p then include_poll e buffer else Inr (e, buffer)) (\<lambda>(e, buffer).
     Inr (int (enc_byte enc) + as_size s, buffer, e))))))))))))"

definition am_resegment :: "am_segment \<Rightarrow> nr_rlc_entity_am \<Rightarrow> int \<Rightarrow> (am_segment \<times> am_segment \<times> nr_rlc_entity_am) c_result" where
  "am_resegment s e pdu_len =
     c_bind (am_sdu e s) (\<lambda>d.
     let e = am_put_sdu e s (d\<lparr>sdu_ref_count := sdu_ref_count d + 1\<rparr>);
         over_size = am_compute_pdu_header_size e s + as_size s - pdu_len;
         cut = s\<lparr>as_size := as_size s - over_size, as_is_last := False\<rparr>;
         nxt = s\<lparr>as_size := over_size, as_so := as_so cut + as_size cut, as_is_first := False\<rparr>
     in Inr (cut, nxt, e))"

subsection \<open>Status reporting\<close>

text \<open>\<^verbatim>\<open>sn_start\<close> is \<open>-1\<close> when there is nothing more to report.\<close>

record missing_data =
  md_sn_start :: int
  md_so_start :: int
  md_sn_end :: int
  md_so_end :: int
  md_next :: "nr_rlc_pdu list"

definition nothing_missing :: missing_data where
  "nothing_missing = \<lparr>md_sn_start = - 1, md_so_start = 0, md_sn_end = 0, md_so_end = 0, md_next = []\<rparr>"

text \<open>The loop over slots up to \<open>last_sn\<close>: the segments of the first slot that is not empty.\<close>

definition search_rx_pdu :: "nr_rlc_entity_am \<Rightarrow> int \<Rightarrow> int \<Rightarrow> nr_rlc_pdu list c_result" where
  "search_rx_pdu e first_sn last_sn =
     (case while_option (\<lambda>sn. sn \<noteq> last_sn \<and> nr_rlc_rx_manager_get_pdu_from_sn (am_rx e) sn = Inr []) (am_inc e) first_sn of
        None \<Rightarrow> Inl NoReturn
      | Some sn \<Rightarrow> nr_rlc_rx_manager_get_pdu_from_sn (am_rx e) sn)"

definition get_first_rx_pdu :: "nr_rlc_entity_am \<Rightarrow> nr_rlc_pdu list c_result" where
  "get_first_rx_pdu e = search_rx_pdu e (am_rx_next e) (am_rx_highest_status e)"

definition get_next_rx_pdu :: "nr_rlc_entity_am \<Rightarrow> nr_rlc_pdu \<Rightarrow> nr_rlc_pdu list \<Rightarrow> nr_rlc_pdu list c_result" where
  "get_next_rx_pdu e cur nexts =
     (if nexts \<noteq> [] then Inr nexts
      else if pdu_sn cur = am_rx_highest_status e then Inr []
      else search_rx_pdu e (am_inc e (pdu_sn cur)) (am_rx_highest_status e))"

definition am_dec :: "nr_rlc_entity_am \<Rightarrow> int \<Rightarrow> int" where
  "am_dec e sn = c_rem (sn - 1 + am_sn_modulus e) (am_sn_modulus e)"

text \<open>The test for the end of the reporting window, before a missing part is reported.\<close>

definition report_if :: "nr_rlc_entity_am \<Rightarrow> int \<Rightarrow> missing_data \<Rightarrow> missing_data" where
  "report_if e sn_start m =
     (if am_sn_compare_rx e (am_rx_highest_status e) sn_start \<le> 0 then nothing_missing else m)"

text \<open>From \<^verbatim>\<open>set_end_different_sdu\<close> on: the missing part ends before \<open>cur\<close>.\<close>

definition set_end_different_sdu :: "nr_rlc_entity_am \<Rightarrow> int \<Rightarrow> int \<Rightarrow> nr_rlc_pdu \<Rightarrow> nr_rlc_pdu list \<Rightarrow> missing_data" where
  "set_end_different_sdu e sn_start so_start cur nexts =
     (let (sn_end, so_end) = (if pdu_is_first cur then (am_dec e (pdu_sn cur), 0xffff) else (pdu_sn cur, pdu_so cur - 1))
      in if am_sn_compare_rx e (am_rx_highest_status e) sn_end \<le> 0
         then \<lparr>md_sn_start = sn_start, md_so_start = so_start, md_sn_end = am_dec e (am_rx_highest_status e),
               md_so_end = 0xffff, md_next = []\<rparr>
         else \<lparr>md_sn_start = sn_start, md_so_start = so_start, md_sn_end = sn_end, md_so_end = so_end,
               md_next = cur # nexts\<rparr>)"

text \<open>
  One round at \<^verbatim>\<open>next_pdu\<close>, with \<open>max_so\<close> and \<open>last_reached\<close>: \<open>Inl\<close> is what is returned, \<open>Inr\<close> the next round.
\<close>

definition next_pdu_step ::
  "nr_rlc_entity_am \<Rightarrow> nr_rlc_pdu \<Rightarrow> nr_rlc_pdu list \<Rightarrow> int \<Rightarrow> bool \<Rightarrow> (missing_data + (nr_rlc_pdu list \<times> int \<times> bool)) c_result" where
  "next_pdu_step e cur nexts max_so last_reached =
     (let sn = pdu_sn cur; max_so = max max_so (pdu_so cur + pdu_size cur - 1);
          last_reached = (last_reached \<or> pdu_is_last cur);
          (sn1, so1) = (if last_reached then (am_inc e sn, 0) else (sn, max_so + 1))
      in c_bind (get_next_rx_pdu e cur nexts) (\<lambda>nx.
         case nx of
           [] \<Rightarrow>
             let (sn_start, so_start) = (if pdu_data cur = None then (am_inc e sn, 0) else (sn1, so1))
             in Inr (Inl (report_if e sn_start
                  \<lparr>md_sn_start = sn_start, md_so_start = so_start, md_sn_end = am_dec e (am_rx_highest_status e),
                   md_so_end = 0xffff, md_next = []\<rparr>))
         | c # cs \<Rightarrow>
             if pdu_sn c = sn \<and> max_so \<ge> pdu_so c - 1 then Inr (Inr (nx, max_so, last_reached))
             else if pdu_sn c = am_inc e sn \<and> last_reached \<and> pdu_is_first c then Inr (Inr (nx, 0, False))
             else if pdu_sn c = sn
             then Inr (Inl (report_if e sn
                    \<lparr>md_sn_start = sn, md_so_start = max_so + 1, md_sn_end = sn, md_so_end = pdu_so c - 1, md_next = nx\<rparr>))
             else Inr (Inl (report_if e sn1 (set_end_different_sdu e sn1 so1 c cs)))))"

text \<open>The rounds: the state is the result of the last one.\<close>

definition next_missing_loop ::
  "nr_rlc_entity_am \<Rightarrow> nr_rlc_pdu list \<Rightarrow> missing_data c_result" where
  "next_missing_loop e cells =
     (case while_option
             (\<lambda>s. case s of Inr (Inr _) \<Rightarrow> True | _ \<Rightarrow> False)
             (\<lambda>s. case s of
                    Inr (Inr (c # cs, max_so, last_reached)) \<Rightarrow> next_pdu_step e c cs max_so last_reached
                  | _ \<Rightarrow> Inl NullDeref)
             (Inr (Inr (cells, 0, False))) of
        None \<Rightarrow> Inl NoReturn
      | Some (Inl f) \<Rightarrow> Inl f
      | Some (Inr (Inl m)) \<Rightarrow> Inr m
      | Some (Inr (Inr _)) \<Rightarrow> Inl NoReturn)"

definition next_missing :: "nr_rlc_entity_am \<Rightarrow> nr_rlc_pdu \<Rightarrow> nr_rlc_pdu list \<Rightarrow> bool \<Rightarrow> missing_data c_result" where
  "next_missing e cur nexts check_head =
     (if check_head \<and> (pdu_sn cur \<noteq> am_rx_next e \<or> \<not> pdu_is_first cur)
      then Inr (report_if e (am_rx_next e) (set_end_different_sdu e (am_rx_next e) 0 cur nexts))
      else next_missing_loop e (cur # nexts))"

definition nack_size :: "nr_rlc_entity_am \<Rightarrow> int \<Rightarrow> int \<Rightarrow> int \<Rightarrow> int \<Rightarrow> int" where
  "nack_size e sn_start so_start sn_end so_end =
     (let nack_length = 2 + (if am_sn_field_length e = 18 then 1 else 0)
      in if sn_start = sn_end
         then if so_start = 0 \<and> so_end = 0xffff then nack_length else nack_length + 4
         else if so_start = 0 \<and> so_end = 0xffff then nack_length + 1 else nack_length + 5)"

text \<open>The state of the encoding: the position of the last \<open>e1\<close> bit and of the last \<open>so_end\<close>.\<close>

record status_enc =
  se_enc :: nr_rlc_pdu_encoder
  se_e1_byte :: nat
  se_e1_bit :: nat
  se_so_end :: "nat option"

definition get_e1_position :: "nr_rlc_entity_am \<Rightarrow> nr_rlc_pdu_encoder \<Rightarrow> nat \<times> nat" where
  "get_e1_position e enc = (if am_sn_field_length e = 18 then (enc_byte enc + 2, 5) else (enc_byte enc + 1, 3))"

definition set_bit_in :: "byte list \<Rightarrow> nat \<Rightarrow> nat \<Rightarrow> byte list c_result" where
  "set_bit_in buffer i b = c_bind (rd buffer i) (\<lambda>x. Inr (buffer[i := x OR push_bit b 1]))"

text \<open>The bits of one block of NACK information.\<close>

definition put_nack ::
  "nr_rlc_entity_am \<Rightarrow> status_enc \<Rightarrow> int \<Rightarrow> int \<Rightarrow> int \<Rightarrow> int \<Rightarrow> int \<Rightarrow> status_enc c_result" where
  "put_nack e st sn_start so_start sn_end so_end cur_sn_count =
     (let e2 = \<not> (so_start = 0 \<and> so_end = 0xffff); e3 = (sn_start \<noteq> sn_end);
          (e1_byte, e1_bit) = get_e1_position e (se_enc st)
      in c_bind (set_bit_in (enc_buffer (se_enc st)) (se_e1_byte st) (se_e1_bit st)) (\<lambda>buf.
         let enc = (se_enc st)\<lparr>enc_buffer := buf\<rparr>
         in c_bind (nr_rlc_pdu_encoder_put_bits enc sn_start (nat (am_sn_field_length e))) (\<lambda>enc.
            c_bind (nr_rlc_pdu_encoder_put_bits enc 0 1) (\<lambda>enc.
            c_bind (nr_rlc_pdu_encoder_put_bits enc (of_bool e2) 1) (\<lambda>enc.
            c_bind (nr_rlc_pdu_encoder_put_bits enc (of_bool e3) 1) (\<lambda>enc.
            c_bind (nr_rlc_pdu_encoder_put_bits enc 0 (if am_sn_field_length e = 18 then 3 else 1)) (\<lambda>enc.
            c_bind (if e2
                    then c_bind (nr_rlc_pdu_encoder_put_bits enc so_start 16) (\<lambda>enc.
                         c_bind (nr_rlc_pdu_encoder_put_bits enc so_end 16) (\<lambda>enc'. Inr (enc', Some (enc_byte enc))))
                    else Inr (enc, None)) (\<lambda>(enc, so_end_address).
            c_bind (if e3 then nr_rlc_pdu_encoder_put_bits enc cur_sn_count 8 else Inr enc) (\<lambda>enc.
            Inr \<lparr>se_enc = enc, se_e1_byte = e1_byte, se_e1_bit = e1_bit, se_so_end = so_end_address\<rparr>)))))))))"

text \<open>
  The loop that cuts a missing part in ranges of at most 255 SNs: the last SN that was put (\<open>-1\<close> if none), and
  whether there was no more room.
\<close>

function generate_missing_loop ::
  "nr_rlc_entity_am \<Rightarrow> missing_data \<Rightarrow> nat \<Rightarrow> int \<Rightarrow> int \<Rightarrow> status_enc \<Rightarrow> (int \<times> bool \<times> status_enc) c_result" where
  "generate_missing_loop e m sn_count sn_start last_nack st =
     (if sn_count = 0 then Inr (last_nack, False, st)
      else let cur_sn_count = min sn_count 255;
               so_start = (if sn_start = md_sn_start m then md_so_start m else 0);
               (sn_end, so_end) = (if cur_sn_count = sn_count then (md_sn_end m, md_so_end m)
                                   else (c_rem (sn_start + 254) (am_sn_modulus e), 0xffff))
           in if int (enc_byte (se_enc st)) + nack_size e sn_start so_start sn_end so_end > int (length (enc_buffer (se_enc st)))
              then Inr (last_nack, True, st)
              else c_bind (put_nack e st sn_start so_start sn_end so_end (int cur_sn_count)) (\<lambda>st.
                   generate_missing_loop e m (sn_count - cur_sn_count)
                     (c_rem (sn_start + int cur_sn_count) (am_sn_modulus e))
                     (if sn_start \<noteq> sn_end then sn_start + int cur_sn_count - 1 else sn_start) st))"
  by pat_completeness auto
termination by (relation "measure (\<lambda>(e, m, n, _). n)") auto

declare generate_missing_loop.simps [simp del]

definition missing_count :: "nr_rlc_entity_am \<Rightarrow> missing_data \<Rightarrow> nat" where
  "missing_count e m = nat (c_rem (md_sn_end m - md_sn_start m + am_sn_modulus e) (am_sn_modulus e) + 1)"

definition generate_missing :: "nr_rlc_entity_am \<Rightarrow> missing_data \<Rightarrow> status_enc \<Rightarrow> (int \<times> bool \<times> status_enc) c_result" where
  "generate_missing e m st = generate_missing_loop e m (missing_count e m) (md_sn_start m) (- 1) st"

text \<open>
  The loop of \<^verbatim>\<open>generate_status\<close> over the missing parts, until there is none or no room: the last SN that was
  reported and the encoder. Every round writes at least two bytes, unless it is the last; \<open>k\<close> bounds
  the number of rounds.
\<close>

fun status_loop :: "nat \<Rightarrow> nr_rlc_entity_am \<Rightarrow> nr_rlc_pdu list \<Rightarrow> bool \<Rightarrow> int \<Rightarrow> status_enc \<Rightarrow> (int \<times> status_enc) c_result" where
  "status_loop k e [] check_head last_nack st = Inr (last_nack, st)"
| "status_loop 0 e (c # cs) check_head last_nack st = Inl NoReturn"
| "status_loop (Suc k) e (c # cs) check_head last_nack st =
     c_bind (next_missing e c cs check_head) (\<lambda>m.
     if md_sn_start m = - 1 then Inr (last_nack, st)
     else c_bind (generate_missing e m st) (\<lambda>(ln, truncated, st).
          c_bind (case se_so_end st of
                    Some i \<Rightarrow>
                      if truncated
                      then c_bind (buf_write (enc_buffer (se_enc st)) (int i) [0xff, 0xff]) (\<lambda>buf.
                           Inr (st\<lparr>se_enc := (se_enc st)\<lparr>enc_buffer := buf\<rparr>\<rparr>))
                      else Inr st
                  | None \<Rightarrow> Inr st) (\<lambda>st.
          status_loop k e (if truncated then [] else md_next m) False (if ln \<noteq> - 1 then ln else last_nack) st)))"

definition put_ack_sn :: "int \<Rightarrow> int \<Rightarrow> byte list \<Rightarrow> byte list" where
  "put_ack_sn len ack_sn buffer =
     (if len = 12
      then buffer[0 := of_int (drop_bit 8 ack_sn), 1 := of_int (ack_sn AND 255)]
      else buffer[0 := of_int (drop_bit 14 ack_sn), 1 := of_int (drop_bit 6 ack_sn AND 255),
                  2 := buffer ! 2 OR of_int (push_bit 2 (ack_sn AND 0x3f))])"

definition generate_status :: "nr_rlc_entity_am \<Rightarrow> byte list \<Rightarrow> (int \<times> byte list \<times> nr_rlc_entity_am) c_result" where
  "generate_status e buffer =
     (if length buffer < 3 then Inr (0, buffer, e)
      else c_bind (nr_rlc_pdu_encoder_put_bits (nr_rlc_pdu_encoder_init buffer) 0 24) (\<lambda>enc.
           c_bind (get_first_rx_pdu e) (\<lambda>cur.
           c_bind (status_loop (length buffer) e cur True (am_dec e (am_rx_next e))
                     \<lparr>se_enc = enc, se_e1_byte = 2, se_e1_bit = (if am_sn_field_length e = 18 then 1 else 7), se_so_end = None\<rparr>)
             (\<lambda>(last_nack, st).
           let n = enc_byte (se_enc st);
               ack_sn = c_rem (last_nack + 1) (am_sn_modulus e)
           in Inr (int n, put_ack_sn (am_sn_field_length e) ack_sn (enc_buffer (se_enc st)),
                   am_stats (\<lambda>s. s\<lparr>txpdu_pkts := txpdu_pkts s + 1, txpdu_bytes := txpdu_bytes s + of_nat n,
                                  txpdu_status_pkts := txpdu_status_pkts s + 1,
                                  txpdu_status_bytes := txpdu_status_bytes s + of_nat n\<rparr>)
                     (e\<lparr>am_status_triggered := False, am_t_status_prohibit_start := am_t_current e\<rparr>))))))"

definition status_to_report :: "nr_rlc_entity_am \<Rightarrow> bool" where
  "status_to_report e \<longleftrightarrow> am_status_triggered e \<and>
     (am_t_status_prohibit_start e = 0 \<or>
      am_t_current e - am_t_status_prohibit_start e > of_int (am_t_status_prohibit e))"

text \<open>The size of a status report: the same loops, without the encoder.\<close>

function missing_size_loop :: "nr_rlc_entity_am \<Rightarrow> missing_data \<Rightarrow> nat \<Rightarrow> int \<Rightarrow> int \<Rightarrow> int \<Rightarrow> int \<Rightarrow> int \<times> int \<times> bool" where
  "missing_size_loop e m sn_count sn_start n maxsize range_count =
     (if sn_count = 0 then (n, range_count, False)
      else let cur_sn_count = min sn_count 255;
               so_start = (if sn_start = md_sn_start m then md_so_start m else 0);
               (sn_end, so_end) = (if cur_sn_count = sn_count then (md_sn_end m, md_so_end m)
                                   else (c_rem (sn_start + 254) (am_sn_modulus e), 0xffff));
               bits = am_sn_field_length e + 3 + (if am_sn_field_length e = 18 then 3 else 1)
           in if n + nack_size e sn_start so_start sn_end so_end > maxsize then (n, range_count, True)
              else missing_size_loop e m (sn_count - cur_sn_count)
                     (c_rem (sn_start + int cur_sn_count) (am_sn_modulus e))
                     (n + (bits + (if so_start = 0 \<and> so_end = 0xffff then 0 else 16 * 2)
                                + (if sn_start = sn_end then 0 else 8)) div 8)
                     maxsize (range_count + 1))"
  by pat_completeness auto
termination by (relation "measure (\<lambda>(e, m, n, _). n)") auto

declare missing_size_loop.simps [simp del]

fun status_size_loop :: "nat \<Rightarrow> nr_rlc_entity_am \<Rightarrow> nr_rlc_pdu list \<Rightarrow> int \<Rightarrow> int \<Rightarrow> int \<Rightarrow> int c_result" where
  "status_size_loop k e [] nack_count n maxsize = Inr n"
| "status_size_loop 0 e (c # cs) nack_count n maxsize = Inl NoReturn"
| "status_size_loop (Suc k) e (c # cs) nack_count n maxsize =
     c_bind (next_missing e c cs (nack_count = 0)) (\<lambda>m.
     if md_sn_start m = - 1 then Inr n
     else let (n, count, truncated) = missing_size_loop e m (missing_count e m) (md_sn_start m) n maxsize 0
          in status_size_loop k e (if truncated then [] else md_next m) (nack_count + count) n maxsize)"

definition status_size :: "nr_rlc_entity_am \<Rightarrow> int \<Rightarrow> int c_result" where
  "status_size e maxsize =
     (if maxsize < 3 then Inr 0
      else c_bind (get_first_rx_pdu e) (\<lambda>cur. status_size_loop (nat maxsize) e cur 0 3 maxsize))"

subsection \<open>PDUs\<close>

text \<open>
  Putting a segment in the wait list: behind the last one if it comes after it, otherwise in order.
\<close>

definition put_in_wait_list :: "nr_rlc_entity_am \<Rightarrow> am_segment \<Rightarrow> nr_rlc_entity_am c_result" where
  "put_in_wait_list e s =
     (if am_wait_list e = [] then Inr (e\<lparr>am_wait_list := [s]\<rparr>)
      else c_bind (am_sdu e s) (\<lambda>d. c_bind (am_sdu e (last (am_wait_list e))) (\<lambda>de.
           let cmp = am_sn_compare_tx e (sdu_sn d) (sdu_sn de)
           in if cmp > 0 \<or> (cmp = 0 \<and> as_so s > as_so (last (am_wait_list e)))
              then Inr (e\<lparr>am_wait_list := am_wait_list e @ [s]\<rparr>)
              else c_bind (nr_rlc_tx_sdu_segment_list_add e (am_wait_list e) s) (\<lambda>l. Inr (e\<lparr>am_wait_list := l\<rparr>)))))"

definition use_force_poll :: "bool \<Rightarrow> nr_rlc_entity_am \<Rightarrow> bool \<times> nr_rlc_entity_am" where
  "use_force_poll p e = (if am_force_poll e then (True, e\<lparr>am_force_poll := False\<rparr>) else (p, e))"

text \<open>\<^verbatim>\<open>generate_retx_pdu\<close>, called with a retransmit list that is not empty.\<close>

definition generate_retx_pdu :: "nr_rlc_entity_am \<Rightarrow> byte list \<Rightarrow> (int \<times> byte list \<times> nr_rlc_entity_am) c_result" where
  "generate_retx_pdu e buffer =
     (case am_retransmit_list e of
        [] \<Rightarrow> Inl NullDeref
      | sdu # rest \<Rightarrow>
          let sz = int (length buffer); pdu_header_size = am_compute_pdu_header_size e sdu
          in if pdu_header_size + 1 > sz then Inr (0, buffer, e)
             else let pdu_len = pdu_header_size + as_size sdu;
                      e = am_add_retx_size (- pdu_len) (e\<lparr>am_retransmit_list := rest\<rparr>)
                  in c_bind (if pdu_len > sz
                             then c_bind (am_resegment sdu e sz) (\<lambda>(sdu, next_sdu, e).
                                  let e = am_add_retx_size (am_compute_pdu_header_size e next_sdu + as_size next_sdu)
                                            (e\<lparr>am_retransmit_list := next_sdu # rest\<rparr>)
                                  in Inr (sdu, am_stats (\<lambda>s. s\<lparr>txpdu_segmented := txpdu_segmented s + 1\<rparr>) e))
                             else Inr (sdu, e)) (\<lambda>(sdu, e).
                     c_bind (put_in_wait_list e sdu) (\<lambda>e.
                     let (p, e) = use_force_poll (check_poll_after_pdu_assembly e) e
                     in c_bind (am_serialize_sdu e sdu buffer p) (\<lambda>(ret_size, buf, e).
                        Inr (ret_size, buf,
                             am_stats (\<lambda>s. s\<lparr>txpdu_pkts := txpdu_pkts s + 1, txpdu_bytes := txpdu_bytes s + of_int ret_size,
                                            txpdu_retx_pkts := txpdu_retx_pkts s + 1,
                                            txpdu_retx_bytes := txpdu_retx_bytes s + of_int ret_size\<rparr>) e)))))"

definition am_assign_sn :: "nr_rlc_entity_am \<Rightarrow> am_segment \<Rightarrow> nr_rlc_entity_am c_result" where
  "am_assign_sn e s =
     c_bind (am_sdu e s) (\<lambda>d.
     Inr (if sdu_sn d = - 1
          then (am_put_sdu e s (d\<lparr>sdu_sn := am_tx_next e\<rparr>))\<lparr>am_tx_next := am_inc e (am_tx_next e)\<rparr>
          else e))"

definition count_poll :: "nr_rlc_entity_am \<Rightarrow> int \<Rightarrow> bool \<times> nr_rlc_entity_am" where
  "count_poll e n =
     (let e = e\<lparr>am_pdu_without_poll := am_pdu_without_poll e + 1, am_byte_without_poll := am_byte_without_poll e + n\<rparr>
      in ((am_poll_pdu e \<noteq> - 1 \<and> am_pdu_without_poll e \<ge> am_poll_pdu e) \<or>
          (am_poll_byte e \<noteq> - 1 \<and> am_byte_without_poll e \<ge> am_poll_byte e) \<or>
          check_poll_after_pdu_assembly e, e))"

definition am_generate_tx_pdu :: "u64 \<Rightarrow> nr_rlc_entity_am \<Rightarrow> byte list \<Rightarrow> (int \<times> byte list \<times> nr_rlc_entity_am) c_result" where
  "am_generate_tx_pdu now e buffer =
     (if is_window_stalling e then Inr (0, buffer, e)
      else case am_tx_list e of
        [] \<Rightarrow> Inr (0, buffer, e)
      | sdu # rest \<Rightarrow>
          let sz = int (length buffer); pdu_header_size = am_compute_pdu_header_size e sdu
          in if pdu_header_size + 1 > sz then Inr (0, buffer, e)
             else let pdu_len = pdu_header_size + as_size sdu;
                      e = am_add_tx_size (- pdu_len) (e\<lparr>am_tx_list := rest\<rparr>)
                  in c_bind (am_assign_sn e sdu) (\<lambda>e.
                     c_bind (if pdu_len > sz
                             then c_bind (am_resegment sdu e sz) (\<lambda>(sdu, next_sdu, e).
                                  let e = am_stats (\<lambda>s. s\<lparr>txpdu_segmented := txpdu_segmented s + 1\<rparr>) (e\<lparr>am_tx_list := next_sdu # rest\<rparr>)
                                  in Inr (sdu, am_add_tx_size (am_compute_pdu_header_size e next_sdu + as_size next_sdu) e))
                             else Inr (sdu, e)) (\<lambda>(sdu, e).
                     c_bind (put_in_wait_list e sdu) (\<lambda>e.
                     let (p, e) = count_poll e (as_size sdu); (p, e) = use_force_poll p e
                     in c_bind (am_serialize_sdu e sdu buffer p) (\<lambda>(ret_size, buf, e).
                        let e = am_stats (\<lambda>s. s\<lparr>txpdu_pkts := txpdu_pkts s + 1, txpdu_bytes := txpdu_bytes s + of_int ret_size\<rparr>) e
                        in c_bind (am_sdu e sdu) (\<lambda>d.
                           Inr (ret_size, buf, e\<lparr>am_common := record_waited_time now d (am_common e)\<rparr>)))))))"

definition nr_rlc_entity_am_buffer_status :: "nr_rlc_entity_am \<Rightarrow> int \<Rightarrow> nr_rlc_entity_buffer_status c_result" where
  "nr_rlc_entity_am_buffer_status e maxsize =
     c_bind (if status_to_report e then status_size e maxsize else Inr 0) (\<lambda>n.
     Inr \<lparr>bs_status_size = n, bs_tx_size = bs_tx_size (bstatus (am_common e)),
          bs_retx_size = bs_retx_size (bstatus (am_common e))\<rparr>)"

definition nr_rlc_entity_am_generate_pdu :: "u64 \<Rightarrow> nr_rlc_entity_am \<Rightarrow> byte list \<Rightarrow> (int \<times> byte list \<times> nr_rlc_entity_am) c_result" where
  "nr_rlc_entity_am_generate_pdu now e buffer =
     c_bind (if status_to_report e then generate_status e buffer else Inr (0, buffer, e)) (\<lambda>(ret, buf, e).
     if ret \<noteq> 0 then Inr (ret, buf, e)
     else c_bind (if am_retransmit_list e \<noteq> [] then generate_retx_pdu e buf else Inr (0, buf, e)) (\<lambda>(ret, buf, e).
          if ret \<noteq> 0 then Inr (ret, buf, e) else am_generate_tx_pdu now e buf))"

subsection \<open>SDU RX functions\<close>

definition nr_rlc_entity_am_recv_sdu :: "u64 \<Rightarrow> nr_rlc_entity_am \<Rightarrow> byte list \<Rightarrow> int \<Rightarrow> nr_rlc_entity_am c_result" where
  "nr_rlc_entity_am_recv_sdu now e buffer sdu_id =
     (let n = int (length buffer); e = am_stats (\<lambda>s. s\<lparr>rxsdu_pkts := rxsdu_pkts s + 1\<rparr>) e
      in c_bind (c_check AssertFail (n \<le> NR_SDU_MAX)) (\<lambda>_.
         let e = (if am_sdu_rejected e \<noteq> 0 \<and> am_t_current e > am_t_log_buffer_full e + 1000
                  then e\<lparr>am_sdu_rejected := 0, am_t_log_buffer_full := am_t_current e\<rparr> else e)
         in if am_tx_size e + n > am_tx_maxsize e
            then Inr (am_stats (\<lambda>s. s\<lparr>txpdu_dd_pkts := txpdu_dd_pkts s + 1, txpdu_dd_bytes := txpdu_dd_bytes s + of_int n\<rparr>)
                        (e\<lparr>am_sdu_rejected := am_sdu_rejected e + 1\<rparr>))
            else let e = am_stats (\<lambda>s. s\<lparr>rxsdu_bytes := rxsdu_bytes s + of_int n\<rparr>) (e\<lparr>am_tx_size := am_tx_size e + n\<rparr>);
                     new = set_time_of_arrival now (am_common e) (nr_rlc_new_sdu buffer sdu_id);
                     s = \<lparr>as_sdu = am_fresh e, as_size = seg_size new, as_so = seg_so new,
                          as_is_first = seg_is_first new, as_is_last = seg_is_last new\<rparr>;
                     e = e\<lparr>am_tx_list := am_tx_list e @ [s], am_store := (am_store e)(am_fresh e \<mapsto> seg_sdu new),
                           am_fresh := am_fresh e + 1\<rparr>
                 in Inr (am_add_tx_size (am_compute_pdu_header_size e s + as_size s) e)))"

subsection \<open>Time\<close>

text \<open>The loop that moves the segments of the SDU at the head of the wait list to the retransmit list.\<close>

fun move_to_retransmit :: "nr_rlc_entity_am \<Rightarrow> int \<Rightarrow> am_segment list \<Rightarrow> nr_rlc_entity_am c_result" where
  "move_to_retransmit e sn [] = Inr (e\<lparr>am_wait_list := []\<rparr>)"
| "move_to_retransmit e sn (cur # ws) =
     c_bind (am_sdu e cur) (\<lambda>d.
     if sdu_sn d \<noteq> sn then Inr (e\<lparr>am_wait_list := cur # ws\<rparr>)
     else let e = am_add_retx_size (am_compute_pdu_header_size e cur + as_size cur) e
          in c_bind (nr_rlc_tx_sdu_segment_list_add e (am_retransmit_list e) cur) (\<lambda>l.
             move_to_retransmit (e\<lparr>am_retransmit_list := l\<rparr>) sn ws))"

definition check_t_poll_retransmit :: "nr_rlc_entity_am \<Rightarrow> (nr_rlc_entity_am \<times> am_output list) c_result" where
  "check_t_poll_retransmit e =
     (if am_t_poll_retransmit_start e = 0 \<or>
         am_t_current e \<le> am_t_poll_retransmit_start e + of_int (am_t_poll_retransmit e)
      then Inr (e, [])
      else let e = e\<lparr>am_t_poll_retransmit_start := 0, am_force_poll := True\<rparr>
           in if \<not> check_poll_after_pdu_assembly e then Inr (e, [])
              else case am_wait_list e of
                     [] \<Rightarrow> Inl NullDeref
                   | cur # _ \<Rightarrow>
                       c_bind (am_sdu e cur) (\<lambda>d.
                       let d = d\<lparr>sdu_retx_count := sdu_retx_count d + 1\<rparr>; e = am_put_sdu e cur d
                       in c_bind (move_to_retransmit e (sdu_sn d) (am_wait_list e)) (\<lambda>e.
                          Inr (e, if sdu_retx_count d \<ge> am_max_retx_threshold e then [AmMaxRetx] else []))))"

definition am_check_t_reassembly :: "nr_rlc_entity_am \<Rightarrow> nr_rlc_entity_am c_result" where
  "am_check_t_reassembly e =
     (if am_t_reassembly_start e = 0 \<or>
         am_t_current e \<le> am_t_reassembly_start e + of_int (am_t_reassembly e)
      then Inr e
      else let e = e\<lparr>am_t_reassembly_start := 0\<rparr>
           in c_bind (am_skip_delivered e (am_rx_next_status_trigger e)) (\<lambda>sn.
              let e = e\<lparr>am_rx_highest_status := sn, am_status_triggered := True\<rparr>; next1 = am_inc e sn
              in c_bind (am_sdu_has_missing_bytes e sn) (\<lambda>missing.
                 Inr (if am_sn_compare_rx e (am_rx_next_highest e) next1 > 0 \<or> (am_rx_next_highest e = next1 \<and> missing)
                      then am_start_t_reassembly e else e))))"

definition nr_rlc_entity_am_set_time :: "nr_rlc_entity_am \<Rightarrow> u64 \<Rightarrow> (nr_rlc_entity_am \<times> am_output list) c_result" where
  "nr_rlc_entity_am_set_time e now =
     c_bind (check_t_poll_retransmit (e\<lparr>am_t_current := now\<rparr>)) (\<lambda>(e, out).
     c_bind (am_check_t_reassembly e) (\<lambda>e. Inr (e, out)))"

subsection \<open>Discard, re-establishment, delete\<close>

text \<open>The loop over the transmit list: what is before the segment with the identity, and the rest.\<close>

fun find_upper_layer_id :: "nr_rlc_entity_am \<Rightarrow> int \<Rightarrow> am_segment list \<Rightarrow> (am_segment list \<times> am_segment list) c_result" where
  "find_upper_layer_id e sdu_id [] = Inr ([], [])"
| "find_upper_layer_id e sdu_id (s # ss) =
     c_bind (am_sdu e s) (\<lambda>d.
     if sdu_upper_layer_id d = sdu_id then Inr ([], s # ss)
     else c_bind (find_upper_layer_id e sdu_id ss) (\<lambda>(before, rest). Inr (s # before, rest)))"

definition nr_rlc_entity_am_discard_sdu :: "nr_rlc_entity_am \<Rightarrow> int \<Rightarrow> nr_rlc_entity_am c_result" where
  "nr_rlc_entity_am_discard_sdu e sdu_id =
     c_bind (find_upper_layer_id e sdu_id (am_tx_list e)) (\<lambda>(before, found).
     case found of
       [] \<Rightarrow> Inr e
     | cur # rest \<Rightarrow>
         if \<not> as_is_first cur \<or> \<not> as_is_last cur then Inr e
         else c_bind (am_sdu e cur) (\<lambda>d.
              let e = am_add_tx_size (- (am_compute_pdu_header_size e cur + as_size cur)) (e\<lparr>am_tx_list := before @ rest\<rparr>);
                  e = e\<lparr>am_tx_size := am_tx_size e - sdu_size d\<rparr>
              in c_bind (am_free_sdu_segment e cur) (\<lambda>(_, e). Inr e)))"

text \<open>\<^verbatim>\<open>nr_rlc_free_sdu_segment_list\<close>\<close>

fun am_free_list :: "nr_rlc_entity_am \<Rightarrow> am_segment list \<Rightarrow> nr_rlc_entity_am c_result" where
  "am_free_list e [] = Inr e"
| "am_free_list e (s # ss) = c_bind (am_free_sdu_segment e s) (\<lambda>(_, e). am_free_list e ss)"

definition am_clear_entity :: "nr_rlc_entity_am \<Rightarrow> nr_rlc_entity_am c_result" where
  "am_clear_entity e =
     (let e = e\<lparr>am_rx_next := 0, am_rx_next_status_trigger := 0, am_rx_highest_status := 0, am_rx_next_highest := 0,
               am_status_triggered := False, am_tx_next := 0, am_tx_next_ack := 0, am_poll_sn := 0,
               am_pdu_without_poll := 0, am_byte_without_poll := 0, am_force_poll := False, am_t_current := 0,
               am_t_log_buffer_full := 0, am_sdu_rejected := 0, am_t_poll_retransmit_start := 0,
               am_t_reassembly_start := 0, am_t_status_prohibit_start := 0,
               am_rx := nr_rlc_clear_rx_manager (am_rx e), am_rx_size := 0\<rparr>
      in c_bind (am_free_list e (am_tx_list e)) (\<lambda>e.
         c_bind (am_free_list e (am_wait_list e)) (\<lambda>e.
         c_bind (am_free_list e (am_retransmit_list e)) (\<lambda>e.
         Inr (e\<lparr>am_tx_list := [], am_tx_size := 0, am_wait_list := [], am_retransmit_list := [],
                am_common := (am_common e)\<lparr>bstatus := (bstatus (am_common e))\<lparr>bs_tx_size := 0, bs_retx_size := 0\<rparr>\<rparr>\<rparr>)))))"

definition nr_rlc_entity_am_reestablishment :: "nr_rlc_entity_am \<Rightarrow> nr_rlc_entity_am c_result" where
  "nr_rlc_entity_am_reestablishment e = am_clear_entity e"

definition nr_rlc_entity_am_available_tx_space :: "nr_rlc_entity_am \<Rightarrow> int" where
  "nr_rlc_entity_am_available_tx_space e = am_tx_maxsize e - am_tx_size e"

definition nr_rlc_entity_am_tx_list_occupancy :: "nr_rlc_entity_am \<Rightarrow> int" where
  "nr_rlc_entity_am_tx_list_occupancy e = am_tx_size e"

end
