(* ===== verification/Rlc_Am_Rx.thy ===== *)
theory Rlc_Am_Rx
  imports Rlc_Am Rlc_Um_Rx
begin

text \<open>
  The receiver of the acknowledged mode: its invariant, that data PDUs and the reassembly timer never make
  it fail, with one exception, a window in which everything but the first SDU has been received, and
  that it delivers every SDU once.
\<close>

subsection \<open>Reassembly\<close>

text \<open>On the segments of one SDU the copy loop is that of the unacknowledged mode.\<close>

lemma am_reassemble_um:
  "\<forall>p \<in> set cs. pdu_sn p = sn \<Longrightarrow>
   reassemble_loop sn sdu bad n cs =
     c_bind (am_reassemble_loop sdu bad n cs) (\<lambda>(a, b, c, ps). Inr (a, b, c, map clear_cell ps))"
proof (induction cs arbitrary: sdu bad n)
  case (Cons p cs)
  let ?so = "int (length sdu)"
  let ?len = "pdu_size p - (?so - pdu_so p)"
  let ?bad = "(bad \<or> pdu_so p > ?so) \<or> ?so + ?len > NR_SDU_MAX"
  define step where "step = (if \<not> ?bad \<and> ?len > 0
    then (case pdu_data p of None \<Rightarrow> Inl NullDeref
          | Some data \<Rightarrow> c_bind (buf_read data (?so - pdu_so p) ?len) (\<lambda>bs. Inr (sdu @ bs))) else Inr sdu)"
  have am: "am_reassemble_loop sdu bad n (p # cs) = c_bind step (\<lambda>sdu.
      c_bind (am_reassemble_loop sdu ?bad (n - pdu_size p) cs) (\<lambda>(sdu, bad_sdu, rx_size, ps).
      Inr (sdu, bad_sdu, rx_size, p\<lparr>pdu_data := None\<rparr> # ps)))"
    by (simp add: step_def Let_def)
  have um: "reassemble_loop sn sdu bad n (p # cs) = c_bind step (\<lambda>sdu.
      c_bind (reassemble_loop sn sdu ?bad (n - pdu_size p) cs) (\<lambda>(sdu, bad_sdu, rx_size, ps).
      Inr (sdu, bad_sdu, rx_size, clear_cell p # ps)))"
    using Cons.prems by (simp add: step_def Let_def clear_cell_def)
  have ih: "reassemble_loop sn sdu ?bad (n - pdu_size p) cs =
      c_bind (am_reassemble_loop sdu ?bad (n - pdu_size p) cs) (\<lambda>(a, b, c, ps). Inr (a, b, c, map clear_cell ps))" for sdu
    using Cons.IH Cons.prems by simp
  show ?case unfolding am um ih
    by (cases step) (auto simp: clear_cell_def c_bind_def split: sum.split prod.split)
qed simp

lemma am_full_um: "\<forall>p \<in> set cs. pdu_sn p = sn \<Longrightarrow> am_sdu_full_loop b cs = sdu_full_loop sn b cs"
  by (induction cs arbitrary: b) simp_all

lemma am_reassemble_cells:
  "am_reassemble_loop sdu bad n cs = Inr (a, b, c, ps) \<Longrightarrow> c = n - rx_bytes cs \<and> ps = map (\<lambda>p. p\<lparr>pdu_data := None\<rparr>) cs"
proof (induction cs arbitrary: sdu bad n ps)
  case (Cons p cs)
  from Cons.prems obtain sdu1 bad1 ps1 where "am_reassemble_loop sdu1 bad1 (n - pdu_size p) cs = Inr (a, b, c, ps1)"
    "ps = p\<lparr>pdu_data := None\<rparr> # ps1"
    by (auto simp: Let_def c_bind_eq_Inr_conv)
  with Cons.IH show ?case by force
qed simp

definition am_cell_ok :: "nr_rlc_pdu \<Rightarrow> bool" where
  "am_cell_ok p \<longleftrightarrow> 0 \<le> pdu_so p \<and> 0 < pdu_size p \<and>
     (case pdu_data p of None \<Rightarrow> True | Some d \<Rightarrow> pdu_size p = int (length d))"

lemma am_reassemble_total:
  "\<forall>p \<in> set cs. am_cell_ok p \<and> pdu_data p \<noteq> None \<Longrightarrow> \<exists>a b c ps. am_reassemble_loop sdu bad n cs = Inr (a, b, c, ps)"
proof (induction cs arbitrary: sdu bad n)
  case (Cons p cs)
  let ?so = "int (length sdu)"
  let ?len = "pdu_size p - (?so - pdu_so p)"
  let ?bad = "(bad \<or> pdu_so p > ?so) \<or> ?so + ?len > NR_SDU_MAX"
  define step where "step = (if \<not> ?bad \<and> ?len > 0
    then (case pdu_data p of None \<Rightarrow> Inl NullDeref
          | Some data \<Rightarrow> c_bind (buf_read data (?so - pdu_so p) ?len) (\<lambda>bs. Inr (sdu @ bs))) else Inr sdu)"
  have "\<exists>sdu1. step = Inr sdu1"
    using Cons.prems by (auto simp: step_def am_cell_ok_def buf_read_def)
  then obtain sdu1 where s: "step = Inr sdu1" ..
  have "\<forall>p \<in> set cs. am_cell_ok p \<and> pdu_data p \<noteq> None" using Cons.prems by simp
  from Cons.IH [OF this, of sdu1 ?bad "n - pdu_size p"] obtain a b c ps where
    "am_reassemble_loop sdu1 ?bad (n - pdu_size p) cs = Inr (a, b, c, ps)" by blast
  moreover have "am_reassemble_loop sdu bad n (p # cs) = c_bind step (\<lambda>sdu.
         c_bind (am_reassemble_loop sdu ?bad (n - pdu_size p) cs) (\<lambda>(sdu, bad_sdu, rx_size, ps).
         Inr (sdu, bad_sdu, rx_size, p\<lparr>pdu_data := None\<rparr> # ps)))"
    by (simp add: step_def Let_def)
  ultimately show ?case using s by simp
qed simp

text \<open>When the segments of an SDU cover it, exactly the SDU is gathered.\<close>

lemma am_reassemble_segments:
  assumes "\<forall>p \<in> set cs. pdu_sn p = sn \<and> segment_of s p" and "int (length s) \<le> NR_SDU_MAX" and "am_sdu_full_loop (- 1) cs"
    and "am_reassemble_loop [] False n cs = Inr (a, b, c, ps)"
  shows "a = s \<and> \<not> b"
proof -
  have sn: "\<forall>p \<in> set cs. pdu_sn p = sn" and seg: "\<forall>p \<in> set cs. pdu_sn p = sn \<longrightarrow> segment_of s p" using assms(1) by simp_all
  from reassemble_loop_segments [OF seg assms(2), of 0 n] obtain n' cs' where
    "reassemble_loop sn [] False n cs = Inr (s, False, n', cs')"
    using assms(3) am_full_um [OF sn] by auto
  then show ?thesis using am_reassemble_um [OF sn, of "[]" False n] assms(4) by simp
qed

subsection \<open>The invariant\<close>

definition am_cfg :: "nr_rlc_entity_am \<Rightarrow> bool" where
  "am_cfg e \<longleftrightarrow> (am_sn_field_length e = 12 \<or> am_sn_field_length e = 18) \<and>
     am_sn_modulus e = 2 ^ nat (am_sn_field_length e) \<and> am_window_size e = am_sn_modulus e div 2"

lemma am_cfgD:
  assumes "am_cfg e"
  shows "am_sn_modulus e = 2 * am_window_size e" "1 < am_window_size e" "0 < am_sn_modulus e"
  using assms by (auto simp: am_cfg_def)

lemma am_cfg_frame [simp]:
  "am_cfg (e\<lparr>am_rx := r\<rparr>) = am_cfg e" "am_cfg (e\<lparr>am_rx_size := n\<rparr>) = am_cfg e" "am_cfg (e\<lparr>am_rx_next := n\<rparr>) = am_cfg e"
  "am_cfg (e\<lparr>am_rx_next_status_trigger := n\<rparr>) = am_cfg e" "am_cfg (e\<lparr>am_rx_highest_status := n\<rparr>) = am_cfg e"
  "am_cfg (e\<lparr>am_rx_next_highest := n\<rparr>) = am_cfg e" "am_cfg (e\<lparr>am_common := c\<rparr>) = am_cfg e"
  "am_cfg (e\<lparr>am_t_reassembly_start := t\<rparr>) = am_cfg e" "am_cfg (e\<lparr>am_status_triggered := b\<rparr>) = am_cfg e"
  "am_cfg (e\<lparr>am_t_current := t\<rparr>) = am_cfg e"
  by (simp_all add: am_cfg_def)

text \<open>The cells at a distance from the first sequence number of the window.\<close>

definition am_cells :: "nr_rlc_entity_am \<Rightarrow> int \<Rightarrow> nr_rlc_pdu list" where
  "am_cells e k = rm_at (am_rx e) (am_rx_next e + k)"

text \<open>
  The slot of the number \<open>sn\<close>: its segments are of that number. Either the SDU was delivered, and then the
  first segment, which starts it, has no data any more; or all segments have their data, and they do not
  yet cover the SDU.
\<close>

definition am_slot_ok :: "int \<Rightarrow> nr_rlc_pdu list \<Rightarrow> bool" where
  "am_slot_ok sn cs \<longleftrightarrow> (\<forall>p \<in> set cs. pdu_sn p = sn \<and> am_cell_ok p) \<and>
     (if cells_processed cs then pdu_so (hd cs) = 0 else \<forall>p \<in> set cs. pdu_data p \<noteq> None)"

definition am_rx_core :: "nr_rlc_entity_am \<Rightarrow> bool" where
  "am_rx_core e \<longleftrightarrow> am_cfg e \<and> rm_ok (am_window_size e) (am_rx_next e) (am_rx e) \<and>
     rlc_sn_ok (am_sn_modulus e) (am_rx_next_status_trigger e) \<and> rlc_sn_ok (am_sn_modulus e) (am_rx_highest_status e) \<and>
     rlc_sn_ok (am_sn_modulus e) (am_rx_next_highest e) \<and>
     (\<forall>k. 0 \<le> k \<and> k < am_window_size e \<longrightarrow> am_slot_ok ((am_rx_next e + k) mod am_sn_modulus e) (am_cells e k))"

definition am_rx_inv :: "nr_rlc_entity_am \<Rightarrow> bool" where
  "am_rx_inv e \<longleftrightarrow> am_rx_core e \<and> \<not> cells_processed (am_cells e 0)"

lemma cells_processed_simps [simp]:
  "\<not> cells_processed []" "cells_processed (p # ps) \<longleftrightarrow> pdu_data p = None"
  by (simp_all add: cells_processed_def)

lemma am_slot_ok_Nil [simp]: "am_slot_ok sn []"
  by (simp add: am_slot_ok_def)

lemma am_rx_coreD:
  assumes "am_rx_core e"
  shows "am_sn_modulus e = 2 * am_window_size e" "1 < am_window_size e" "0 < am_sn_modulus e"
    "rm_ok (am_window_size e) (am_rx_next e) (am_rx e)" "rlc_sn_ok (am_sn_modulus e) (am_rx_next e)"
    "rlc_sn_ok (am_sn_modulus e) (am_rx_next_status_trigger e)" "rlc_sn_ok (am_sn_modulus e) (am_rx_highest_status e)"
    "rlc_sn_ok (am_sn_modulus e) (am_rx_next_highest e)"
  using assms am_cfgD [of e] by (auto simp: am_rx_core_def rm_ok_def)

lemma am_core_slot:
  "am_rx_core e \<Longrightarrow> 0 \<le> k \<Longrightarrow> k < am_window_size e \<Longrightarrow> am_slot_ok ((am_rx_next e + k) mod am_sn_modulus e) (am_cells e k)"
  by (simp add: am_rx_core_def)

text \<open>Distances: every number has one below the modulus, and the slot depends on it modulo the window.\<close>

definition am_dist :: "nr_rlc_entity_am \<Rightarrow> int \<Rightarrow> int" where
  "am_dist e sn = (sn - am_rx_next e) mod am_sn_modulus e"

lemma am_modulus_rx_eq:
  assumes r: "rlc_sn_ok (am_sn_modulus e) (am_rx_next e)" and "rlc_sn_ok (am_sn_modulus e) sn"
  shows "am_modulus_rx e sn = am_dist e sn"
proof -
  show ?thesis
  proof (cases "sn < am_rx_next e")
    case True
    have "(sn - am_rx_next e) mod am_sn_modulus e = (sn - am_rx_next e + am_sn_modulus e) mod am_sn_modulus e" by simp
    also have "\<dots> = sn - am_rx_next e + am_sn_modulus e"
      using True assms(2) r by (intro mod_pos_pos_trivial) (simp_all add: rlc_sn_ok_def)
    finally show ?thesis using True by (simp add: am_dist_def am_modulus_rx_def)
  next
    case False
    then have "(sn - am_rx_next e) mod am_sn_modulus e = sn - am_rx_next e"
      using assms(2) r by (intro mod_pos_pos_trivial) (simp_all add: rlc_sn_ok_def)
    with False show ?thesis by (simp add: am_dist_def am_modulus_rx_def)
  qed
qed

lemma rm_at_mod: "rm_ok w s m \<Longrightarrow> (a - b) mod w = 0 \<Longrightarrow> rm_at m a = rm_at m b"
  using rm_idx_eq [of w s m a b] by (simp add: rm_at_def)

lemma am_cells_at:
  assumes "rm_ok (am_window_size e) (am_rx_next e) (am_rx e)" and "am_sn_modulus e = 2 * am_window_size e"
  shows "rm_at (am_rx e) sn = am_cells e (am_dist e sn)"
proof -
  let ?m = "am_sn_modulus e" and ?w = "am_window_size e"
  let ?x = "sn - am_rx_next e"
  have "sn - (am_rx_next e + am_dist e sn) = ?x - ?x mod ?m" by (simp add: am_dist_def)
  also have "\<dots> = ?w * (2 * (?x div ?m))" by (simp add: minus_mod_eq_mult_div assms(2))
  finally have "(sn - (am_rx_next e + am_dist e sn)) mod ?w = 0" by simp
  then show ?thesis using rm_at_mod [OF assms(1)] by (simp add: am_cells_def)
qed

lemma am_cells_mod:
  assumes "rm_ok (am_window_size e) (am_rx_next e) (am_rx e)"
  shows "am_cells e (k mod am_window_size e) = am_cells e k"
proof -
  let ?w = "am_window_size e"
  have "am_rx_next e + k mod ?w - (am_rx_next e + k) = - (k - k mod ?w)" by simp
  also have "\<dots> = ?w * - (k div ?w)" by (simp add: minus_mod_eq_mult_div)
  finally have "(am_rx_next e + k mod ?w - (am_rx_next e + k)) mod ?w = 0" by (simp only: mod_mult_self1_is_0)
  then show ?thesis using rm_at_mod [OF assms] by (simp add: am_cells_def)
qed

lemma am_dist_range: "0 < am_sn_modulus e \<Longrightarrow> 0 \<le> am_dist e sn \<and> am_dist e sn < am_sn_modulus e"
  by (simp add: am_dist_def)

lemma am_dist_sn: "0 < am_sn_modulus e \<Longrightarrow> rlc_sn_ok (am_sn_modulus e) sn \<Longrightarrow> (am_rx_next e + am_dist e sn) mod am_sn_modulus e = sn"
  by (simp add: am_dist_def mod_simps rlc_sn_ok_def)

lemma am_dist_add: "0 \<le> k \<Longrightarrow> k < am_sn_modulus e \<Longrightarrow> am_dist e ((am_rx_next e + k) mod am_sn_modulus e) = k"
  by (simp add: am_dist_def mod_simps)

text \<open>Reading and assigning a slot.\<close>

lemma am_get_ok:
  assumes "am_rx_core e" and "rlc_sn_ok (am_sn_modulus e) sn"
  shows "nr_rlc_rx_manager_get_pdu_from_sn (am_rx e) sn = Inr (am_cells e (am_dist e sn))"
  using rm_get_ok [OF am_rx_coreD(4) [OF assms(1)]] am_cells_at [OF am_rx_coreD(4,1) [OF assms(1)]] assms(2)
    am_rx_coreD(1) [OF assms(1)] by simp

lemma am_slot_index:
  assumes "am_rx_core e" and "am_dist e x < am_window_size e" and k: "0 \<le> k" "k < am_window_size e"
  shows "(am_rx_next e + k - x) mod am_window_size e = 0 \<longleftrightarrow> k = am_dist e x"
proof -
  let ?w = "am_window_size e" and ?m = "am_sn_modulus e" and ?d = "am_dist e x"
  note c = am_rx_coreD [OF assms(1)]
  have d: "0 \<le> ?d" using am_dist_range c(3) by blast
  have "am_rx_next e + k - x = (k - ?d) + (?d - (x - am_rx_next e))" by simp
  also have "?d - (x - am_rx_next e) = - ((x - am_rx_next e) - (x - am_rx_next e) mod ?m)" by (simp add: am_dist_def)
  also have "\<dots> = ?w * - (2 * ((x - am_rx_next e) div ?m))" by (simp add: minus_mod_eq_mult_div c(1))
  finally have "(am_rx_next e + k - x) mod ?w = (k - ?d) mod ?w" by (simp only: mod_mult_self2)
  moreover have "(k - ?d) mod ?w = 0 \<longleftrightarrow> k = ?d"
  proof
    assume "(k - ?d) mod ?w = 0"
    then have "?w dvd k - ?d" by (rule mod_0_imp_dvd)
    then have "?w dvd k - ?d" "?w dvd ?d - k" by (simp_all add: dvd_diff_commute)
    then show "k = ?d" using k d assms(2) zdvd_imp_le [of ?w "k - ?d"] zdvd_imp_le [of ?w "?d - k"] by linarith
  qed simp
  ultimately show ?thesis by simp
qed

lemma am_slot_upd:
  assumes "am_rx_core e" and "am_dist e x < am_window_size e" and "0 \<le> k" "k < am_window_size e"
  shows "rm_at (rm_upd (am_rx e) x cs) (am_rx_next e + k) = (if k = am_dist e x then cs else am_cells e k)"
  using rm_at_upd [OF am_rx_coreD(4) [OF assms(1)], of x cs "am_rx_next e + k"] am_slot_index [OF assms]
  by (simp add: am_cells_def)

lemma am_put_ok:
  assumes "am_rx_core e" and "rlc_sn_ok (am_sn_modulus e) x"
  shows "rm_put (am_rx e) x cs = Inr (rm_upd (am_rx e) x cs)"
  using rm_put_ok [OF am_rx_coreD(4) [OF assms(1)]] assms(2) am_rx_coreD(1) [OF assms(1)] by simp

text \<open>An update of one slot inside the window keeps the invariant, whatever else changes in the counters.\<close>

lemma am_core_upd:
  assumes "am_rx_core e" and "rlc_sn_ok (am_sn_modulus e) x" and "am_dist e x < am_window_size e"
    and "am_slot_ok x cs"
  shows "am_rx_core (e\<lparr>am_rx := rm_upd (am_rx e) x cs, am_rx_size := n\<rparr>)" (is "am_rx_core ?e")
    and "0 \<le> k \<Longrightarrow> k < am_window_size e \<Longrightarrow>
      am_cells (e\<lparr>am_rx := rm_upd (am_rx e) x cs, am_rx_size := n\<rparr>) k = (if k = am_dist e x then cs else am_cells e k)"
proof -
  note c = am_rx_coreD [OF assms(1)]
  show cells: "am_cells ?e k = (if k = am_dist e x then cs else am_cells e k)"
    if "0 \<le> k" "k < am_window_size e" for k
    using am_slot_upd [OF assms(1,3) that] by (simp add: am_cells_def)
  have "am_slot_ok ((am_rx_next e + k) mod am_sn_modulus e) (am_cells ?e k)"
    if "0 \<le> k" "k < am_window_size e" for k
    using cells [OF that] am_core_slot [OF assms(1) that] am_dist_sn [OF c(3) assms(2)] assms(4) by simp
  then show "am_rx_core ?e"
    using assms(1) rm_upd_ok [OF c(4)] by (simp add: am_rx_core_def)
qed

lemma am_rx_core_frame [simp]:
  "am_rx_core (e\<lparr>am_common := c\<rparr>) = am_rx_core e" "am_rx_core (e\<lparr>am_t_reassembly_start := t\<rparr>) = am_rx_core e"
  "am_rx_core (e\<lparr>am_status_triggered := b\<rparr>) = am_rx_core e" "am_rx_core (e\<lparr>am_rx_size := n\<rparr>) = am_rx_core e"
  "am_rx_core (e\<lparr>am_t_current := t\<rparr>) = am_rx_core e"
  by (simp_all add: am_rx_core_def am_cells_def)

lemma am_cells_frame [simp]:
  "am_cells (e\<lparr>am_common := c\<rparr>) = am_cells e" "am_cells (e\<lparr>am_t_reassembly_start := t\<rparr>) = am_cells e"
  "am_cells (e\<lparr>am_status_triggered := b\<rparr>) = am_cells e" "am_cells (e\<lparr>am_rx_size := n\<rparr>) = am_cells e"
  "am_cells (e\<lparr>am_t_current := t\<rparr>) = am_cells e" "am_cells (e\<lparr>am_rx_next_highest := k\<rparr>) = am_cells e"
  "am_cells (e\<lparr>am_rx_highest_status := k\<rparr>) = am_cells e" "am_cells (e\<lparr>am_rx_next_status_trigger := k\<rparr>) = am_cells e"
  by (simp_all add: am_cells_def fun_eq_iff)

lemma am_dist_frame [simp]:
  "am_dist (e\<lparr>am_common := c\<rparr>) = am_dist e" "am_dist (e\<lparr>am_t_reassembly_start := t\<rparr>) = am_dist e"
  "am_dist (e\<lparr>am_rx_size := n\<rparr>) = am_dist e" "am_dist (e\<lparr>am_rx := r\<rparr>) = am_dist e"
  "am_dist (e\<lparr>am_rx_next_highest := k\<rparr>) = am_dist e" "am_dist (e\<lparr>am_rx_highest_status := k\<rparr>) = am_dist e"
  by (simp_all add: am_dist_def fun_eq_iff)

lemma am_rx_core_numbers:
  "am_rx_core e \<Longrightarrow> rlc_sn_ok (am_sn_modulus e) n \<Longrightarrow> am_rx_core (e\<lparr>am_rx_next_highest := n\<rparr>)"
  "am_rx_core e \<Longrightarrow> rlc_sn_ok (am_sn_modulus e) n \<Longrightarrow> am_rx_core (e\<lparr>am_rx_highest_status := n\<rparr>)"
  "am_rx_core e \<Longrightarrow> rlc_sn_ok (am_sn_modulus e) n \<Longrightarrow> am_rx_core (e\<lparr>am_rx_next_status_trigger := n\<rparr>)"
  by (simp_all add: am_rx_core_def)

lemma am_inc_ok: "am_rx_core e \<Longrightarrow> 0 \<le> sn \<Longrightarrow> am_inc e sn = (sn + 1) mod am_sn_modulus e \<and> rlc_sn_ok (am_sn_modulus e) (am_inc e sn)"
  using am_rx_coreD(3) [of e] by (simp add: am_inc_def rlc_sn_ok_def)

subsection \<open>The loops over delivered SDUs\<close>

lemma am_sdu_delivered_eq:
  "am_rx_core e \<Longrightarrow> rlc_sn_ok (am_sn_modulus e) sn \<Longrightarrow> am_sdu_delivered e sn = Inr (cells_processed (am_cells e (am_dist e sn)))"
  by (simp add: am_sdu_delivered_def am_get_ok)

text \<open>The search for an SDU that is not delivered: it ends if there is one in the window.\<close>

lemma am_skip_delivered_some:
  assumes "am_rx_core e" and "rlc_sn_ok (am_sn_modulus e) sn"
    and "0 \<le> k" "k < am_window_size e" "\<not> cells_processed (am_cells e k)"
  shows "\<exists>s. am_skip_delivered e sn = Inr s \<and> rlc_sn_ok (am_sn_modulus e) s \<and> \<not> cells_processed (am_cells e (am_dist e s))"
proof -
  let ?m = "am_sn_modulus e" and ?P = "\<lambda>s. c_true (am_sdu_delivered e s)"
  note c = am_rx_coreD [OF assms(1)]
  define t where "t = (am_rx_next e + k) mod ?m"
  have t: "rlc_sn_ok ?m t" "am_dist e t = k" using c assms(3,4) am_dist_add [of k e] by (simp_all add: t_def rlc_sn_ok_def)
  then have "\<not> ?P t" using am_sdu_delivered_eq [OF assms(1) t(1)] assms(5) by (simp add: c_true_def)
  from cyclic_search [where P = ?P, OF c(3) assms(2) t(1) this] obtain s where
    s: "while_option ?P (\<lambda>x. c_rem (x + 1) ?m) sn = Some s" "rlc_sn_ok ?m s" "\<not> ?P s" by blast
  moreover have "am_inc e = (\<lambda>x. c_rem (x + 1) ?m)" by (simp add: am_inc_def fun_eq_iff)
  ultimately show ?thesis using am_sdu_delivered_eq [OF assms(1) s(2)] by (auto simp: am_skip_delivered_def c_true_def)
qed

lemma am_skip_delivered_none:
  assumes "am_rx_core e" and "rlc_sn_ok (am_sn_modulus e) sn"
    and all: "\<forall>k. 0 \<le> k \<and> k < am_window_size e \<longrightarrow> cells_processed (am_cells e k)"
  shows "am_skip_delivered e sn = Inl NoReturn"
proof -
  let ?m = "am_sn_modulus e" and ?P = "\<lambda>s. c_true (am_sdu_delivered e s)"
  note c = am_rx_coreD [OF assms(1)]
  have "?P t" if t: "rlc_sn_ok ?m t" for t
  proof -
    have "cells_processed (am_cells e (am_dist e t mod am_window_size e))" using all c(2) by simp
    then show ?thesis using am_sdu_delivered_eq [OF assms(1) t] am_cells_mod [OF c(4)] by (simp add: c_true_def)
  qed
  then have "while_option ?P (\<lambda>x. c_rem (x + 1) ?m) sn = None" using cyclic_search_none [where P = ?P, OF c(3) assms(2)] by blast
  moreover have "am_inc e = (\<lambda>x. c_rem (x + 1) ?m)" by (simp add: am_inc_def fun_eq_iff)
  ultimately show ?thesis by (simp add: am_skip_delivered_def)
qed

text \<open>
  The loop that frees the delivered SDUs at the start of the window. It always ends: a slot that was
  freed stops it when it comes around.
\<close>

definition free_inv :: "nr_rlc_entity_am \<Rightarrow> nr_rlc_rx_manager \<times> int \<times> int \<Rightarrow> bool" where
  "free_inv e = (\<lambda>(rx, sn, c). 0 \<le> c \<and> c \<le> am_window_size e \<and> sn = (am_rx_next e + c) mod am_sn_modulus e \<and>
     rm_ok (am_window_size e) (am_rx_next e) rx \<and>
     (\<forall>k. 0 \<le> k \<and> k < am_window_size e \<longrightarrow> rm_at rx (am_rx_next e + k) = (if k < c then [] else am_cells e k)) \<and>
     (\<forall>k. 0 \<le> k \<and> k < c \<longrightarrow> cells_processed (am_cells e k)))"

lemma free_inv_slot:
  assumes core: "am_rx_core e" and I: "free_inv e (rx, sn, c)"
  shows "rlc_sn_ok (am_sn_modulus e) sn"
    and "nr_rlc_rx_manager_get_pdu_from_sn rx sn = Inr (if c < am_window_size e then am_cells e c else [])"
proof -
  note d = am_rx_coreD [OF core]
  have i: "0 \<le> c" "c \<le> am_window_size e" "sn = (am_rx_next e + c) mod am_sn_modulus e"
    "rm_ok (am_window_size e) (am_rx_next e) rx"
    and sl: "\<And>k. 0 \<le> k \<Longrightarrow> k < am_window_size e \<Longrightarrow> rm_at rx (am_rx_next e + k) = (if k < c then [] else am_cells e k)"
    using I by (simp_all add: free_inv_def)
  show sn: "rlc_sn_ok (am_sn_modulus e) sn" using i(3) d(3) by (simp add: rlc_sn_ok_def)
  let ?e = "e\<lparr>am_rx := rx\<rparr>"
  have dist: "am_dist e sn = c" unfolding i(3) using i(1,2) d(1,2) by (intro am_dist_add) simp_all
  have "rm_at rx sn = rm_at rx (am_rx_next e + c)" using am_cells_at [of ?e sn] i(4) d(1) dist by (simp add: am_cells_def)
  also have "\<dots> = rm_at rx (am_rx_next e + c mod am_window_size e)"
    using am_cells_mod [of ?e c] i(4) by (simp add: am_cells_def)
  also have "\<dots> = (if c < am_window_size e then am_cells e c else [])"
    using sl [of "c mod am_window_size e"] i d by (cases "c < am_window_size e") auto
  finally show "nr_rlc_rx_manager_get_pdu_from_sn rx sn = Inr (if c < am_window_size e then am_cells e c else [])"
    using rm_get_ok [OF i(4), of sn] sn d(1) by simp
qed

lemma free_inv_step:
  assumes core: "am_rx_core e" and I: "free_inv e (rx, sn, c)" and c: "c < am_window_size e" "cells_processed (am_cells e c)"
  shows "free_inv e (projr (nr_rlc_rx_manager_clear_pdu rx sn), am_inc e sn, c + 1)"
proof -
  note d = am_rx_coreD [OF core]
  have i: "0 \<le> c" "sn = (am_rx_next e + c) mod am_sn_modulus e" "rm_ok (am_window_size e) (am_rx_next e) rx"
    and sl: "\<And>k. 0 \<le> k \<Longrightarrow> k < am_window_size e \<Longrightarrow> rm_at rx (am_rx_next e + k) = (if k < c then [] else am_cells e k)"
    and p: "\<And>k. 0 \<le> k \<Longrightarrow> k < c \<Longrightarrow> cells_processed (am_cells e k)"
    using I by (simp_all add: free_inv_def)
  have sn: "rlc_sn_ok (am_sn_modulus e) sn" by (rule free_inv_slot(1) [OF core I])
  have "projr (nr_rlc_rx_manager_clear_pdu rx sn) = rm_upd rx sn []"
    using rm_put_ok [OF i(3)] sn d(1) by (simp add: nr_rlc_rx_manager_clear_pdu_def)
  moreover have "rm_at (rm_upd rx sn []) (am_rx_next e + k) = (if k < c + 1 then [] else am_cells e k)"
    if k: "0 \<le> k" "k < am_window_size e" for k
  proof -
    let ?e = "e\<lparr>am_rx := rx\<rparr>"
    have "am_dist e sn = c" unfolding i(2) using i(1) c d(1,2) by (intro am_dist_add) simp_all
    moreover have "((am_rx_next e + k) - sn) mod am_window_size e = 0 \<longleftrightarrow> k = am_dist e sn"
      using am_slot_index [of e sn k] core c k calculation by simp
    ultimately show ?thesis using rm_at_upd [OF i(3), of sn "[]" "am_rx_next e + k"] sl [OF k] by auto
  qed
  moreover have "cells_processed (am_cells e k)" if "0 \<le> k" "k < c + 1" for k
    using p [of k] that c by (cases "k = c") auto
  moreover have "am_inc e sn = (am_rx_next e + (c + 1)) mod am_sn_modulus e"
    using am_inc_ok [OF core, of sn] sn i(2) by (simp add: rlc_sn_ok_def mod_simps algebra_simps)
  ultimately show ?thesis using i c rm_upd_ok [OF i(3)] by (simp add: free_inv_def)
qed

lemma am_free_delivered_ok:
  assumes core: "am_rx_core e"
  obtains rx c where "am_free_delivered e = Inr (rx, (am_rx_next e + c) mod am_sn_modulus e, c)"
    and "free_inv e (rx, (am_rx_next e + c) mod am_sn_modulus e, c)"
    and "c < am_window_size e \<longrightarrow> \<not> cells_processed (am_cells e c)"
proof -
  let ?b = "\<lambda>(rx, sn, c :: int). case nr_rlc_rx_manager_get_pdu_from_sn rx sn of Inr l \<Rightarrow> cells_processed l | Inl _ \<Rightarrow> False"
  let ?s = "\<lambda>(rx, sn, c :: int). (projr (nr_rlc_rx_manager_clear_pdu rx sn), am_inc e sn, c + 1)"
  note d = am_rx_coreD [OF core]
  have b: "?b (rx, sn, c) \<longleftrightarrow> c < am_window_size e \<and> cells_processed (am_cells e c)" if "free_inv e (rx, sn, c)" for rx sn c
    using free_inv_slot(2) [OF core that] by simp
  have init: "free_inv e (am_rx e, am_rx_next e, 0)"
    using d by (auto simp: free_inv_def rlc_sn_ok_def am_cells_def)
  have step: "free_inv e (?s s) \<and> nat (am_window_size e - snd (snd (?s s))) < nat (am_window_size e - snd (snd s))"
    if I: "free_inv e s" and B: "?b s" for s
  proof -
    obtain rx sn c where s: "s = (rx, sn, c)" by (cases s)
    have c: "c < am_window_size e" "cells_processed (am_cells e c)" using b I B unfolding s by blast+
    then show ?thesis using free_inv_step [OF core I [unfolded s]] by (simp add: s)
  qed
  have "\<exists>t. while_option ?b ?s (am_rx e, am_rx_next e, 0) = Some t"
    by (rule measure_while_option_Some [where f = "\<lambda>s. nat (am_window_size e - snd (snd s))" and P = "free_inv e", OF step init])
  then obtain t where some: "while_option ?b ?s (am_rx e, am_rx_next e, 0) = Some t" ..
  have "free_inv e t" by (rule while_option_rule [where P = "free_inv e", OF _ some init]) (rule conjunct1, rule step)
  then have w: "while_option ?b ?s (am_rx e, am_rx_next e, 0) = Some t" "free_inv e t" "\<not> ?b t"
    using some while_option_stop [OF some] by simp_all
  obtain rx sn c where t: "t = (rx, sn, c)" by (cases t)
  have sn: "sn = (am_rx_next e + c) mod am_sn_modulus e" using w(2) by (simp add: t free_inv_def)
  have "am_free_delivered e = Inr (rx, sn, c)"
    using w free_inv_slot(2) [OF core] by (simp add: am_free_delivered_def t)
  then show thesis using that w b unfolding t sn by blast
qed

subsection \<open>Reception of a segment\<close>

text \<open>What reception leaves alone: the configuration and the sending side.\<close>

definition am_tx_part where
  "am_tx_part e = ((am_t_poll_retransmit e, am_t_status_prohibit e, am_poll_pdu e, am_poll_byte e, am_max_retx_threshold e,
     am_sn_field_length e, am_sn_modulus e, am_window_size e), (am_t_reassembly e, am_rx_maxsize e, am_tx_next e, am_tx_next_ack e, am_poll_sn e, am_pdu_without_poll e,
     am_byte_without_poll e, am_force_poll e, am_t_current e, am_t_poll_retransmit_start e), (am_tx_list e, am_tx_size e, am_tx_maxsize e,
     am_wait_list e, am_retransmit_list e, am_store e, am_fresh e, bstatus (am_common e)))"

lemma am_tx_part_frame [simp]:
  "am_tx_part (am_stats g e) = am_tx_part e" "am_tx_part (e\<lparr>am_rx := r\<rparr>) = am_tx_part e"
  "am_tx_part (e\<lparr>am_rx_size := n\<rparr>) = am_tx_part e" "am_tx_part (e\<lparr>am_rx_next := n\<rparr>) = am_tx_part e"
  "am_tx_part (e\<lparr>am_rx_next_highest := n\<rparr>) = am_tx_part e" "am_tx_part (e\<lparr>am_rx_highest_status := n\<rparr>) = am_tx_part e"
  "am_tx_part (e\<lparr>am_rx_next_status_trigger := n\<rparr>) = am_tx_part e" "am_tx_part (e\<lparr>am_t_reassembly_start := t\<rparr>) = am_tx_part e"
  "am_tx_part (e\<lparr>am_status_triggered := b\<rparr>) = am_tx_part e"
  by (simp_all add: am_tx_part_def am_stats_def upd_stats_def)

lemma am_stats_rx [simp]:
  "am_rx (am_stats g e) = am_rx e" "am_rx_next (am_stats g e) = am_rx_next e" "am_rx_core (am_stats g e) = am_rx_core e"
  "am_cells (am_stats g e) = am_cells e" "am_dist (am_stats g e) = am_dist e" "am_sn_modulus (am_stats g e) = am_sn_modulus e"
  "am_window_size (am_stats g e) = am_window_size e" "am_rx_highest_status (am_stats g e) = am_rx_highest_status e"
  "am_sn_field_length (am_stats g e) = am_sn_field_length e" "am_rx_size (am_stats g e) = am_rx_size e"
  "am_rx_maxsize (am_stats g e) = am_rx_maxsize e" "am_rx_next_highest (am_stats g e) = am_rx_next_highest e"
  "am_rx_next_status_trigger (am_stats g e) = am_rx_next_status_trigger e" "am_t_reassembly_start (am_stats g e) = am_t_reassembly_start e"
  by (simp_all add: am_stats_def)

lemma am_sdu_has_missing_bytes_ok:
  "am_rx_core e \<Longrightarrow> rlc_sn_ok (am_sn_modulus e) sn \<Longrightarrow> \<exists>b. am_sdu_has_missing_bytes e sn = Inr b"
  by (simp add: am_sdu_has_missing_bytes_def am_get_ok)

lemma am_reception_timer_ok:
  assumes "am_rx_core e"
  obtains e' where "am_reception_timer e = Inr e'" and "am_rx_core e'" and "am_rx e' = am_rx e" and "am_rx_next e' = am_rx_next e"
    and "am_tx_part e' = am_tx_part e" and "am_rx_highest_status e' = am_rx_highest_status e" and "am_rx_size e' = am_rx_size e"
proof -
  note c = am_rx_coreD [OF assms]
  from am_sdu_has_missing_bytes_ok [OF assms c(5)] obtain missing where m: "am_sdu_has_missing_bytes e (am_rx_next e) = Inr missing" ..
  define stop where "stop \<longleftrightarrow> am_t_reassembly_start e \<noteq> 0 \<and>
    (am_rx_next_status_trigger e = am_rx_next e \<or>
     (am_rx_next_status_trigger e = am_inc e (am_rx_next e) \<and> \<not> missing) \<or>
     (\<not> am_sn_in_recv_window e (am_rx_next_status_trigger e) \<and>
      am_rx_next_status_trigger e \<noteq> c_rem (am_rx_next e + am_window_size e) (am_sn_modulus e)))"
  define e1 where "e1 = (if stop then e\<lparr>am_t_reassembly_start := 0\<rparr> else e)"
  have e1: "am_rx_core e1" "am_rx e1 = am_rx e" "am_rx_next e1 = am_rx_next e" "am_tx_part e1 = am_tx_part e"
    "am_rx_highest_status e1 = am_rx_highest_status e" "am_rx_size e1 = am_rx_size e"
    using assms by (simp_all add: e1_def)
  have st: "am_rx_core (am_start_t_reassembly e1)"
    using am_rx_core_numbers(3) [of "e1\<lparr>am_t_reassembly_start := am_t_current e1\<rparr>" "am_rx_next_highest e1"]
      e1(1) am_rx_coreD(8) [OF e1(1)] by (simp add: am_start_t_reassembly_def)
  define e2 where "e2 = (if am_t_reassembly_start e1 = 0 \<and>
      (am_sn_compare_rx e1 (am_rx_next_highest e1) (am_inc e (am_rx_next e)) > 0 \<or>
       (am_rx_next_highest e1 = am_inc e (am_rx_next e) \<and> missing)) then am_start_t_reassembly e1 else e1)"
  have "am_reception_timer e = Inr e2"
    unfolding am_reception_timer_def m c_bind_simps Let_def stop_def [symmetric] e1_def [symmetric] e2_def ..
  moreover have "am_rx_core e2" using st e1(1) by (simp add: e2_def)
  moreover have "am_rx e2 = am_rx e" "am_rx_next e2 = am_rx_next e" "am_tx_part e2 = am_tx_part e"
    "am_rx_highest_status e2 = am_rx_highest_status e" "am_rx_size e2 = am_rx_size e"
    using e1 by (simp_all add: e2_def am_start_t_reassembly_def)
  ultimately show thesis by (rule that)
qed

definition am_marks :: "nr_rlc_entity_am \<Rightarrow> int \<times> int \<times> u64" where
  "am_marks e = (am_rx_next_highest e, am_rx_next_status_trigger e, am_t_reassembly_start e)"

lemma am_marks_stats [simp]: "am_marks (am_stats g e) = am_marks e"
  by (simp add: am_marks_def am_stats_def)

text \<open>The SDU is gathered and its segments are marked.\<close>

definition am_mark :: "nr_rlc_pdu list \<Rightarrow> nr_rlc_pdu list" where
  "am_mark cs = map (\<lambda>p. p\<lparr>pdu_data := None\<rparr>) cs"

lemma am_slot_mark:
  assumes "am_slot_ok sn cs" and "\<not> cells_processed cs" and "am_sdu_full_loop (- 1) cs"
  shows "am_slot_ok sn (am_mark cs)" and "cells_processed (am_mark cs)"
proof -
  obtain p ps where cs: "cs = p # ps" using assms(3) by (cases cs) auto
  have p: "am_cell_ok p" using assms(1) by (simp add: cs am_slot_ok_def)
  have "pdu_so p \<le> 0" using assms(3) by (simp add: cs split: if_splits)
  with p have so: "pdu_so p = 0" by (simp add: am_cell_ok_def)
  show "cells_processed (am_mark cs)" by (simp add: am_mark_def cs)
  with so assms(1) show "am_slot_ok sn (am_mark cs)" by (auto simp: am_mark_def am_slot_ok_def am_cell_ok_def cs)
qed

lemma am_reassemble_ok:
  assumes core: "am_rx_core e" and x: "rlc_sn_ok (am_sn_modulus e) x" "am_dist e x < am_window_size e"
    and full: "\<not> cells_processed (am_cells e (am_dist e x))" "am_sdu_full_loop (- 1) (am_cells e (am_dist e x))"
  obtains e' out sdu bad n ps where "am_reassemble_and_deliver e x = Inr (e', out)"
    and "am_reassemble_loop [] False (am_rx_size e) (am_cells e (am_dist e x)) = Inr (sdu, bad, n, ps)"
    and "out = (if bad then [] else [sdu])" and "am_rx_core e'" and "am_rx_next e' = am_rx_next e"
    and "am_rx_highest_status e' = am_rx_highest_status e" and "am_rx_size e' = n" and "am_tx_part e' = am_tx_part e"
    and "am_marks e' = am_marks e"
    and "\<forall>k. 0 \<le> k \<and> k < am_window_size e \<longrightarrow>
      am_cells e' k = (if k = am_dist e x then am_mark (am_cells e (am_dist e x)) else am_cells e k)"
proof -
  let ?cs = "am_cells e (am_dist e x)"
  note c = am_rx_coreD [OF core]
  have d: "0 \<le> am_dist e x" using am_dist_range c(3) by blast
  have slot: "am_slot_ok x ?cs" using am_core_slot [OF core d x(2)] am_dist_sn [OF c(3) x(1)] by simp
  with full(1) have "\<forall>p \<in> set ?cs. am_cell_ok p \<and> pdu_data p \<noteq> None" by (simp add: am_slot_ok_def)
  from am_reassemble_total [OF this] obtain sdu bad n ps where
    r: "am_reassemble_loop [] False (am_rx_size e) ?cs = Inr (sdu, bad, n, ps)" by blast
  have ps: "ps = am_mark ?cs" using am_reassemble_cells [OF r] by (simp add: am_mark_def)
  define e1 where "e1 = e\<lparr>am_rx := rm_upd (am_rx e) x (am_mark ?cs), am_rx_size := n\<rparr>"
  note u = am_core_upd [OF core x am_slot_mark(1) [OF slot full], where n = n, folded e1_def]
  have e1: "am_rx_next e1 = am_rx_next e" "am_rx_highest_status e1 = am_rx_highest_status e" "am_rx_size e1 = n" "am_tx_part e1 = am_tx_part e"
    "am_marks e1 = am_marks e"
    by (simp_all add: e1_def am_marks_def)
  define e2 where "e2 = (if bad then e1 else am_stats (\<lambda>s. s\<lparr>txsdu_pkts := txsdu_pkts s + 1\<rparr>) e1)"
  have "am_reassemble_and_deliver e x = Inr (e2, if bad then [] else [sdu])"
    by (simp add: am_reassemble_and_deliver_def am_get_ok [OF core x(1)] r am_put_ok [OF core x(1)] e1_def e2_def ps)
  moreover have "am_rx_core e2" using u(1) by (simp add: e2_def)
  moreover have "am_rx_next e2 = am_rx_next e" "am_rx_highest_status e2 = am_rx_highest_status e" "am_rx_size e2 = n" "am_tx_part e2 = am_tx_part e"
    "am_marks e2 = am_marks e"
    using e1 by (simp_all add: e2_def)
  moreover have "am_cells e2 k = (if k = am_dist e x then am_mark ?cs else am_cells e k)" if "0 \<le> k" "k < am_window_size e" for k
    using u(2) [OF that] by (cases bad) (simp_all only: e2_def if_True if_False am_stats_rx)
  ultimately show thesis using that r by blast
qed

text \<open>The window moves over the slots that were freed.\<close>

lemma am_advance_ok:
  assumes core: "am_rx_core e" and I: "free_inv e (rx, (am_rx_next e + c) mod am_sn_modulus e, c)"
  defines "e' \<equiv> e\<lparr>am_rx_next := (am_rx_next e + c) mod am_sn_modulus e,
    am_rx := nr_rlc_rx_manager_set_start (nr_rlc_rx_manager_advance rx c) ((am_rx_next e + c) mod am_sn_modulus e)\<rparr>"
  shows "am_rx_core e'"
    and "0 \<le> k \<Longrightarrow> k < am_window_size e \<Longrightarrow> am_cells e' k = (if c + k < am_window_size e then am_cells e (c + k) else [])"
proof -
  let ?w = "am_window_size e" and ?m = "am_sn_modulus e" and ?r = "am_rx_next e"
  note d = am_rx_coreD [OF core]
  have i: "0 \<le> c" "c \<le> ?w" "rm_ok ?w ?r rx"
    and sl: "\<And>k. 0 \<le> k \<Longrightarrow> k < ?w \<Longrightarrow> rm_at rx (?r + k) = (if k < c then [] else am_cells e k)"
    using I by (simp_all add: free_inv_def)
  have adv: "rm_ok ?w (am_rx_next e') (am_rx e')" "rm_at (am_rx e') sn = rm_at rx sn" for sn
    using rm_advance_ok [OF i(3,1), of "(?r + c) mod ?m"] d(1) by (simp_all add: e'_def)
  show cells: "am_cells e' k = (if c + k < ?w then am_cells e (c + k) else [])" if k: "0 \<le> k" "k < ?w" for k
  proof -
    have "((?r + c) mod ?m + k - (?r + c + k)) = - ((?r + c) - (?r + c) mod ?m)" by simp
    also have "\<dots> = ?w * - (2 * ((?r + c) div ?m))" by (simp add: minus_mod_eq_mult_div d(1))
    finally have "((?r + c) mod ?m + k - (?r + c + k)) mod ?w = 0" by (simp only: mod_mult_self1_is_0)
    then have 1: "am_cells e' k = rm_at rx (?r + c + k)"
      using rm_at_mod [OF i(3)] adv(2) by (simp add: am_cells_def e'_def)
    show ?thesis
    proof (cases "c + k < ?w")
      case True
      then show ?thesis using 1 sl [of "c + k"] i k by (simp add: add.assoc)
    next
      case False
      have "(?r + c + k - (?r + (c + k - ?w))) mod ?w = 0" by simp
      then have "rm_at rx (?r + c + k) = rm_at rx (?r + (c + k - ?w))" by (rule rm_at_mod [OF i(3)])
      then show ?thesis using 1 sl [of "c + k - ?w"] False i k by simp
    qed
  qed
  have "am_slot_ok ((am_rx_next e' + k) mod ?m) (am_cells e' k)" if k: "0 \<le> k" "k < ?w" for k
  proof (cases "c + k < ?w")
    case True
    have "(am_rx_next e' + k) mod ?m = (?r + (c + k)) mod ?m" by (simp add: e'_def mod_simps add.assoc)
    then show ?thesis using True cells [OF k] am_core_slot [OF core _ True] i(1) k by simp
  qed (simp add: cells [OF k])
  then show "am_rx_core e'" using core adv(1) by (simp add: am_rx_core_def e'_def)
qed

text \<open>
  What reception does to the slots: the distance \<open>k0\<close> is that of the SDU that is complete, and the window moves by \<open>c\<close>,
  to the first SDU that is not delivered.
\<close>

definition am_marked :: "nr_rlc_entity_am \<Rightarrow> int \<Rightarrow> int \<Rightarrow> nr_rlc_pdu list" where
  "am_marked e k0 k = (if k = k0 then am_mark (am_cells e k0) else am_cells e k)"

definition am_full :: "nr_rlc_entity_am \<Rightarrow> int \<Rightarrow> bool" where
  "am_full e k \<longleftrightarrow> \<not> cells_processed (am_cells e k) \<and> am_sdu_full_loop (- 1) (am_cells e k)"

text \<open>The situation in which the search for the next SDU to report never ends.\<close>

definition am_stuck :: "nr_rlc_entity_am \<Rightarrow> int \<Rightarrow> bool" where
  "am_stuck e x \<longleftrightarrow> x = am_rx_next e \<and> x = am_rx_highest_status e \<and>
     (\<forall>k. 0 < k \<and> k < am_window_size e \<longrightarrow> cells_processed (am_cells e k))"

lemma am_sdu_full_eq:
  "am_rx_core e \<Longrightarrow> rlc_sn_ok (am_sn_modulus e) x \<Longrightarrow> am_sdu_full e x = Inr (am_full e (am_dist e x))"
  by (simp add: am_sdu_full_def am_get_ok am_full_def)

lemma am_dist_next: "am_dist e (am_rx_next e) = 0"
  by (simp add: am_dist_def)

lemma am_new_highest:
  assumes "am_rx_core e" and "rlc_sn_ok (am_sn_modulus e) x"
  defines "e1 \<equiv> (if am_sn_compare_rx e x (am_rx_next_highest e) \<ge> 0 then e\<lparr>am_rx_next_highest := am_inc e x\<rparr> else e)"
  shows "am_rx_core e1" "am_cells e1 = am_cells e" "am_dist e1 = am_dist e" "am_rx_next e1 = am_rx_next e" "am_rx e1 = am_rx e"
    "am_tx_part e1 = am_tx_part e" "am_rx_highest_status e1 = am_rx_highest_status e" "am_rx_size e1 = am_rx_size e"
    "am_sn_modulus e1 = am_sn_modulus e" "am_window_size e1 = am_window_size e"
  using assms(1,2) am_rx_core_numbers(1) [OF assms(1)] am_inc_ok [OF assms(1), of x]
  by (simp_all add: e1_def rlc_sn_ok_def)

lemma am_actions_not_full:
  assumes core: "am_rx_core e" and x: "rlc_sn_ok (am_sn_modulus e) x" and "\<not> am_full e (am_dist e x)"
  obtains e' where "am_reception_actions e x = Inr (e', [])" and "am_rx_core e'" and "am_rx e' = am_rx e"
    and "am_rx_next e' = am_rx_next e" and "am_tx_part e' = am_tx_part e" and "am_rx_highest_status e' = am_rx_highest_status e"
proof -
  define e1 where "e1 = (if am_sn_compare_rx e x (am_rx_next_highest e) \<ge> 0 then e\<lparr>am_rx_next_highest := am_inc e x\<rparr> else e)"
  note h = am_new_highest [OF core x, folded e1_def]
  have "am_sdu_full e1 x = Inr False" using am_sdu_full_eq [OF h(1), of x] x assms(3) h by (simp add: am_full_def)
  moreover obtain e' where "am_reception_timer e1 = Inr e'" "am_rx_core e'" "am_rx e' = am_rx e1" "am_rx_next e' = am_rx_next e1"
    "am_tx_part e' = am_tx_part e1" "am_rx_highest_status e' = am_rx_highest_status e1" by (rule am_reception_timer_ok [OF h(1)])
  ultimately show thesis using that h unfolding am_reception_actions_def Let_def e1_def [symmetric] by simp
qed

text \<open>The two parts that follow a delivery: the highest number to report, and the start of the window.\<close>

lemma am_skip_part:
  assumes core: "am_rx_core e"
    and ex: "x = am_rx_highest_status e \<Longrightarrow> \<exists>k. 0 \<le> k \<and> k < am_window_size e \<and> \<not> cells_processed (am_cells e k)"
  obtains e' where "(if x = am_rx_highest_status e
        then c_bind (am_skip_delivered e (am_rx_highest_status e)) (\<lambda>s. Inr (e\<lparr>am_rx_highest_status := s\<rparr>)) else Inr e) = Inr e'"
    and "am_rx_core e'" and "am_cells e' = am_cells e" and "am_rx_next e' = am_rx_next e" and "am_tx_part e' = am_tx_part e"
    and "am_rx_size e' = am_rx_size e" and "x \<noteq> am_rx_highest_status e \<longrightarrow> am_rx_highest_status e' = am_rx_highest_status e"
proof (cases "x = am_rx_highest_status e")
  case True
  from ex [OF True] obtain k where "0 \<le> k" "k < am_window_size e" "\<not> cells_processed (am_cells e k)" by blast
  from am_skip_delivered_some [OF core am_rx_coreD(7) [OF core] this] obtain s where
    "am_skip_delivered e (am_rx_highest_status e) = Inr s" "rlc_sn_ok (am_sn_modulus e) s" by blast
  then show ?thesis using True that am_rx_core_numbers(2) [OF core] by simp
qed (use core that in simp)

lemma am_advance_part:
  assumes core: "am_rx_core e" and nz: "x \<noteq> am_rx_next e \<Longrightarrow> \<not> cells_processed (am_cells e 0)"
  obtains e' c where "(if x = am_rx_next e
        then c_bind (am_free_delivered e) (\<lambda>(rx, rx_next, count).
             Inr (e\<lparr>am_rx_next := rx_next, am_rx := nr_rlc_rx_manager_set_start (nr_rlc_rx_manager_advance rx count) rx_next\<rparr>))
        else Inr e) = Inr e'" and "am_rx_core e'" and "am_tx_part e' = am_tx_part e" and "0 \<le> c" "c \<le> am_window_size e"
    and "am_rx_next e' = (am_rx_next e + c) mod am_sn_modulus e"
    and "am_rx_size e' = am_rx_size e" and "am_rx_highest_status e' = am_rx_highest_status e" and "am_marks e' = am_marks e"
    and "\<forall>k. 0 \<le> k \<and> k < c \<longrightarrow> cells_processed (am_cells e k)"
    and "c < am_window_size e \<longrightarrow> \<not> cells_processed (am_cells e c)"
    and "\<forall>k. 0 \<le> k \<and> k < am_window_size e \<longrightarrow>
      am_cells e' k = (if c + k < am_window_size e then am_cells e (c + k) else [])"
proof (cases "x = am_rx_next e")
  case True
  obtain rx c where fr: "am_free_delivered e = Inr (rx, (am_rx_next e + c) mod am_sn_modulus e, c)"
    "free_inv e (rx, (am_rx_next e + c) mod am_sn_modulus e, c)" "c < am_window_size e \<longrightarrow> \<not> cells_processed (am_cells e c)"
    by (rule am_free_delivered_ok [OF core])
  define e' where "e' = e\<lparr>am_rx_next := (am_rx_next e + c) mod am_sn_modulus e,
    am_rx := nr_rlc_rx_manager_set_start (nr_rlc_rx_manager_advance rx c) ((am_rx_next e + c) mod am_sn_modulus e)\<rparr>"
  note adv = am_advance_ok [OF core fr(2), folded e'_def]
  have c: "0 \<le> c" "c \<le> am_window_size e" "\<And>k. 0 \<le> k \<Longrightarrow> k < c \<Longrightarrow> cells_processed (am_cells e k)"
    using fr(2) by (simp_all add: free_inv_def)
  show ?thesis
  proof (rule that [of e' c])
    show "(if x = am_rx_next e
        then c_bind (am_free_delivered e) (\<lambda>(rx, rx_next, count).
             Inr (e\<lparr>am_rx_next := rx_next, am_rx := nr_rlc_rx_manager_set_start (nr_rlc_rx_manager_advance rx count) rx_next\<rparr>))
        else Inr e) = Inr e'" using True fr(1) by (simp add: e'_def)
    show "\<forall>k. 0 \<le> k \<and> k < am_window_size e \<longrightarrow>
        am_cells e' k = (if c + k < am_window_size e then am_cells e (c + k) else [])" using adv(2) by simp
  qed (use adv(1) c fr(3) in \<open>simp_all add: e'_def am_marks_def\<close>)
next
  case False
  show ?thesis
    by (rule that [of e 0]) (use False core nz am_rx_coreD(2,5) [OF core] in \<open>auto simp: rlc_sn_ok_def\<close>)
qed

lemma am_dist_0: "am_rx_core e \<Longrightarrow> rlc_sn_ok (am_sn_modulus e) x \<Longrightarrow> am_dist e x = 0 \<longleftrightarrow> x = am_rx_next e"
  using am_dist_sn [OF am_rx_coreD(3), of e x] am_rx_coreD(5) [of e] by (auto simp: rlc_sn_ok_def am_dist_next)

lemma am_actions_full:
  assumes inv: "am_rx_inv e" and x: "rlc_sn_ok (am_sn_modulus e) x" "am_dist e x < am_window_size e" and full: "am_full e (am_dist e x)"
    and ns: "\<not> am_stuck e x"
  obtains e' out sdu bad n ps c where "am_reception_actions e x = Inr (e', out)"
    and "am_reassemble_loop [] False (am_rx_size e) (am_cells e (am_dist e x)) = Inr (sdu, bad, n, ps)"
    and "out = (if bad then [] else [sdu])" and "am_rx_core e'" and "am_tx_part e' = am_tx_part e"
    and "0 \<le> c" "c \<le> am_window_size e" and "am_rx_next e' = (am_rx_next e + c) mod am_sn_modulus e"
    and "am_rx_size e' = n" and "x \<noteq> am_rx_highest_status e \<longrightarrow> am_rx_highest_status e' = am_rx_highest_status e"
    and "\<forall>k. 0 \<le> k \<and> k < c \<longrightarrow> cells_processed (am_marked e (am_dist e x) k)"
    and "c < am_window_size e \<longrightarrow> \<not> cells_processed (am_marked e (am_dist e x) c)"
    and "\<forall>k. 0 \<le> k \<and> k < am_window_size e \<longrightarrow>
      am_cells e' k = (if c + k < am_window_size e then am_marked e (am_dist e x) (c + k) else [])"
proof -
  let ?k0 = "am_dist e x" and ?w = "am_window_size e" and ?m = "am_sn_modulus e"
  have core: "am_rx_core e" and nz: "\<not> cells_processed (am_cells e 0)" using inv by (simp_all add: am_rx_inv_def)
  define e1 where "e1 = (if am_sn_compare_rx e x (am_rx_next_highest e) \<ge> 0 then e\<lparr>am_rx_next_highest := am_inc e x\<rparr> else e)"
  note h = am_new_highest [OF core x(1), folded e1_def]
  have full1: "am_sdu_full e1 x = Inr True" using am_sdu_full_eq [OF h(1), of x] x(1) full h by (simp add: am_full_def)
  obtain e2 out sdu bad n ps where r: "am_reassemble_and_deliver e1 x = Inr (e2, out)"
    "am_reassemble_loop [] False (am_rx_size e) (am_cells e ?k0) = Inr (sdu, bad, n, ps)" "out = (if bad then [] else [sdu])"
    "am_rx_core e2" "am_rx_next e2 = am_rx_next e" "am_rx_highest_status e2 = am_rx_highest_status e" "am_rx_size e2 = n" "am_tx_part e2 = am_tx_part e"
    and "\<forall>k. 0 \<le> k \<and> k < ?w \<longrightarrow> am_cells e2 k = (if k = ?k0 then am_mark (am_cells e ?k0) else am_cells e k)"
    using x full by (auto simp: am_full_def h intro: am_reassemble_ok [OF h(1), of x, unfolded h])
  then have cells2: "am_cells e2 k = am_marked e ?k0 k" if "0 \<le> k" "k < ?w" for k using that by (simp add: am_marked_def)
  have cfg2: "am_sn_modulus e2 = ?m" "am_window_size e2 = ?w" "am_dist e2 = am_dist e"
    using r(5,8) by (simp_all add: am_tx_part_def am_dist_def fun_eq_iff)
  have ex: "\<exists>k. 0 \<le> k \<and> k < am_window_size e2 \<and> \<not> cells_processed (am_cells e2 k)" if hs: "x = am_rx_highest_status e2"
  proof (cases "?k0 = 0")
    case True
    then have "x = am_rx_next e" using am_dist_0 [OF core x(1)] by simp
    with ns hs r(6) have "\<exists>k. 0 < k \<and> k < ?w \<and> \<not> cells_processed (am_cells e k)" by (simp add: am_stuck_def)
    then obtain k where "0 < k" "k < ?w" "\<not> cells_processed (am_cells e k)" by blast
    then show ?thesis using True cells2 [of k] cfg2 by (intro exI [of _ k]) (simp add: am_marked_def)
  next
    case False
    then show ?thesis using cells2 [of 0] nz am_rx_coreD(2) [OF core] cfg2 by (intro exI [of _ 0]) (simp add: am_marked_def)
  qed
  obtain e3 where e3: "(if x = am_rx_highest_status e2
        then c_bind (am_skip_delivered e2 (am_rx_highest_status e2)) (\<lambda>s. Inr (e2\<lparr>am_rx_highest_status := s\<rparr>)) else Inr e2) = Inr e3"
    "am_rx_core e3" "am_cells e3 = am_cells e2" "am_rx_next e3 = am_rx_next e2" "am_tx_part e3 = am_tx_part e2"
    "am_rx_size e3 = am_rx_size e2" "x \<noteq> am_rx_highest_status e2 \<longrightarrow> am_rx_highest_status e3 = am_rx_highest_status e2"
    by (rule am_skip_part [OF r(4) ex])
  have cfg3: "am_sn_modulus e3 = ?m" "am_window_size e3 = ?w" "am_rx_next e3 = am_rx_next e"
    using e3(4,5) r(5,8) by (simp_all add: am_tx_part_def)
  have nz3: "\<not> cells_processed (am_cells e3 0)" if "x \<noteq> am_rx_next e3"
    using that am_dist_0 [OF core x(1)] cfg3 e3(3) cells2 [of 0] nz am_rx_coreD(2) [OF core] by (simp add: am_marked_def)
  obtain e4 c where e4: "(if x = am_rx_next e3
        then c_bind (am_free_delivered e3) (\<lambda>(rx, rx_next, count).
             Inr (e3\<lparr>am_rx_next := rx_next, am_rx := nr_rlc_rx_manager_set_start (nr_rlc_rx_manager_advance rx count) rx_next\<rparr>))
        else Inr e3) = Inr e4" "am_rx_core e4" "am_tx_part e4 = am_tx_part e3" "0 \<le> c" "c \<le> am_window_size e3"
      "am_rx_next e4 = (am_rx_next e3 + c) mod am_sn_modulus e3"
      "am_rx_size e4 = am_rx_size e3" "am_rx_highest_status e4 = am_rx_highest_status e3" "am_marks e4 = am_marks e3"
      "\<forall>k. 0 \<le> k \<and> k < c \<longrightarrow> cells_processed (am_cells e3 k)" "c < am_window_size e3 \<longrightarrow> \<not> cells_processed (am_cells e3 c)"
      "\<forall>k. 0 \<le> k \<and> k < am_window_size e3 \<longrightarrow> am_cells e4 k = (if c + k < am_window_size e3 then am_cells e3 (c + k) else [])"
    by (rule am_advance_part [OF e3(2) nz3])
  have cells3: "am_cells e3 k = am_marked e ?k0 k" if "0 \<le> k" "k < ?w" for k using cells2 [OF that] e3(3) by simp
  obtain e5 where e5: "am_reception_timer e4 = Inr e5" "am_rx_core e5" "am_rx e5 = am_rx e4" "am_rx_next e5 = am_rx_next e4"
    "am_tx_part e5 = am_tx_part e4" "am_rx_highest_status e5 = am_rx_highest_status e4" "am_rx_size e5 = am_rx_size e4" by (rule am_reception_timer_ok [OF e4(2)])
  have "am_reception_actions e x = Inr (e5, out)"
    unfolding am_reception_actions_def Let_def e1_def [symmetric] full1 c_bind_simps if_True r(1) split_conv e3(1) e4(1) e5(1) ..
  moreover have "am_cells e5 = am_cells e4" using e5(3,4) by (simp add: am_cells_def fun_eq_iff)
  moreover have "am_tx_part e5 = am_tx_part e" using e5(5) e4(3) e3(5) r(8) by simp
  moreover have "\<forall>k. 0 \<le> k \<and> k < c \<longrightarrow> cells_processed (am_marked e ?k0 k)"
    using e4(5,10) cells3 cfg3 by auto
  moreover have "c < ?w \<longrightarrow> \<not> cells_processed (am_marked e ?k0 c)" using e4(11) cells3 [of c] e4(4) cfg3 by simp
  moreover have "\<forall>k. 0 \<le> k \<and> k < ?w \<longrightarrow> am_cells e4 k = (if c + k < ?w then am_marked e ?k0 (c + k) else [])"
    using e4(4,12) cells3 cfg3 by simp
  moreover have "c \<le> ?w" "am_rx_next e5 = (am_rx_next e + c) mod ?m" using e5(4) e4(5,6) cfg3 by simp_all
  moreover have "am_rx_size e5 = n" "x \<noteq> am_rx_highest_status e \<longrightarrow> am_rx_highest_status e5 = am_rx_highest_status e"
    using e5(6,7) e4(7,8) e3(6,7) r(6,7) by simp_all
  moreover note \<open>am_cells e5 = am_cells e4\<close> [symmetric]
  ultimately show thesis using r(2,3) e5(2) e4(4) by (intro that [of e5 out sdu bad n ps c]) simp_all
qed

end
