(* ===== verification/Rlc_Am_Store.thy ===== *)
theory Rlc_Am_Store
  imports Rlc_Am_Send Rlc_Am_Rx "HOL-Library.Multiset"
begin

text \<open>
  The SDUs of the sending side and the segments that point to them: every segment of a list points to
  an SDU that is allocated, and the counters of the SDU keep it allocated as long as there is one.
\<close>

subsection \<open>Reference counts\<close>

definition seg_fits :: "nr_rlc_sdu \<Rightarrow> am_segment \<Rightarrow> bool" where
  "seg_fits d s \<longleftrightarrow> 0 \<le> as_so s \<and> 0 \<le> as_size s \<and> as_so s + as_size s \<le> int (length (sdu_data d)) \<and>
     (as_is_first s \<and> as_is_last s \<longrightarrow> sdu_ref_count d - sdu_free_count d = 1)"

definition seg_refs :: "am_segment multiset \<Rightarrow> nat \<Rightarrow> nat" where
  "seg_refs M a = size (filter_mset (\<lambda>s. as_sdu s = a) M)"

definition sdu_live :: "nr_rlc_sdu \<Rightarrow> int" where
  "sdu_live d = sdu_ref_count d - sdu_free_count d"

definition segs_ok :: "(nat \<rightharpoonup> nr_rlc_sdu) \<Rightarrow> am_segment multiset \<Rightarrow> bool" where
  "segs_ok st M \<longleftrightarrow> (\<forall>s \<in># M. \<exists>d. st (as_sdu s) = Some d \<and> seg_fits d s) \<and>
     (\<forall>a d. st a = Some d \<longrightarrow> int (seg_refs M a) \<le> sdu_live d \<and> sdu_size d = int (length (sdu_data d)))"

lemma seg_refs_simps [simp]:
  "seg_refs {#} a = 0" "seg_refs (add_mset s M) a = (if as_sdu s = a then Suc (seg_refs M a) else seg_refs M a)"
  "seg_refs (M + M') a = seg_refs M a + seg_refs M' a"
  by (simp_all add: seg_refs_def)

lemma seg_refs_0: "seg_refs M a = 0 \<longleftrightarrow> (\<forall>s \<in># M. as_sdu s \<noteq> a)"
  by (induction M) auto

lemma segs_okD: "segs_ok st (add_mset s M) \<Longrightarrow> \<exists>d. st (as_sdu s) = Some d \<and> seg_fits d s \<and> sdu_size d = int (length (sdu_data d))"
  by (auto simp: segs_ok_def)

lemma segs_ok_mem: "segs_ok st M \<Longrightarrow> s \<in># M \<Longrightarrow> \<exists>d. st (as_sdu s) = Some d \<and> seg_fits d s \<and> sdu_size d = int (length (sdu_data d))"
  by (auto simp: segs_ok_def)

lemma segs_ok_subset: "segs_ok st (M + M') \<Longrightarrow> segs_ok st M"
  by (force simp: segs_ok_def)

text \<open>Writing an SDU back, with the same data and counters.\<close>

lemma segs_ok_put:
  assumes "segs_ok st M" and "st a = Some d" and "sdu_data d' = sdu_data d" "sdu_size d' = sdu_size d" "sdu_live d' = sdu_live d"
  shows "segs_ok (st(a \<mapsto> d')) M"
  unfolding segs_ok_def
proof (intro conjI ballI allI impI)
  fix s assume "s \<in># M"
  then obtain e where "st (as_sdu s) = Some e" "seg_fits e s" using assms(1) by (auto simp: segs_ok_def)
  then show "\<exists>e. (st(a \<mapsto> d')) (as_sdu s) = Some e \<and> seg_fits e s" using assms(2,3,5) by (auto simp: seg_fits_def sdu_live_def)
next
  fix b e assume "(st(a \<mapsto> d')) b = Some e"
  then show "int (seg_refs M b) \<le> sdu_live e" "sdu_size e = int (length (sdu_data e))"
    using assms by (auto simp: segs_ok_def split: if_splits)
qed

text \<open>Freeing a segment frees the SDU with the last one, and nothing points to it then.\<close>

lemma segs_ok_free:
  assumes ok: "segs_ok st (add_mset s M)" and d: "st (as_sdu s) = Some d"
  shows "sdu_live d = 1 \<Longrightarrow> segs_ok (st(as_sdu s := None)) M"
    and "sdu_live d \<noteq> 1 \<Longrightarrow> segs_ok (st(as_sdu s \<mapsto> d\<lparr>sdu_free_count := sdu_free_count d + 1\<rparr>)) M"
proof -
  have refs: "int (Suc (seg_refs M (as_sdu s))) \<le> sdu_live d" using ok d unfolding segs_ok_def by (metis seg_refs_simps(2))
  have mem: "\<exists>d. st (as_sdu s') = Some d \<and> seg_fits d s'" if "s' \<in># M" for s' using ok that by (auto simp: segs_ok_def)
  have rest: "int (seg_refs M a) \<le> sdu_live e \<and> sdu_size e = int (length (sdu_data e))" if "st a = Some e" for a e
    using ok that by (fastforce simp: segs_ok_def split: if_splits)
  show "segs_ok (st(as_sdu s := None)) M" if "sdu_live d = 1"
  proof -
    have "\<forall>s' \<in># M. as_sdu s' \<noteq> as_sdu s" using refs that seg_refs_0 [of M "as_sdu s"] by simp
    then show ?thesis using mem rest by (auto simp: segs_ok_def)
  qed
  show "segs_ok (st(as_sdu s \<mapsto> d\<lparr>sdu_free_count := sdu_free_count d + 1\<rparr>)) M" if live: "sdu_live d \<noteq> 1"
  proof -
    let ?d = "d\<lparr>sdu_free_count := sdu_free_count d + 1\<rparr>"
    have "\<exists>e. (st(as_sdu s \<mapsto> ?d)) (as_sdu s') = Some e \<and> seg_fits e s'" if "s' \<in># M" for s'
      using mem [OF that] d live by (auto simp: seg_fits_def sdu_live_def)
    moreover have "int (seg_refs M a) \<le> sdu_live e \<and> sdu_size e = int (length (sdu_data e))"
      if "(st(as_sdu s \<mapsto> ?d)) a = Some e" for a e
      using that rest [of a e] rest [OF d] refs by (auto simp: sdu_live_def split: if_splits)
    ultimately show ?thesis by (simp add: segs_ok_def)
  qed
qed

text \<open>Cutting a segment in two adds a reference.\<close>

lemma segs_ok_cut:
  assumes ok: "segs_ok st (add_mset s M)" and d: "st (as_sdu s) = Some d"
    and cut: "as_sdu t = as_sdu s" "as_sdu u = as_sdu s" "seg_fits d t" "seg_fits d u" "\<not> as_is_last t" "\<not> as_is_first u"
  shows "segs_ok (st(as_sdu s \<mapsto> d\<lparr>sdu_ref_count := sdu_ref_count d + 1\<rparr>)) (add_mset t (add_mset u M))"
proof -
  have refs: "int (Suc (seg_refs M (as_sdu s))) \<le> sdu_live d" using ok d unfolding segs_ok_def by (metis seg_refs_simps(2))
  have mem: "\<exists>d. st (as_sdu s') = Some d \<and> seg_fits d s'" if "s' \<in># M" for s' using ok that by (auto simp: segs_ok_def)
  have rest: "int (seg_refs M a) \<le> sdu_live e \<and> sdu_size e = int (length (sdu_data e))" if "st a = Some e" for a e
    using ok that by (fastforce simp: segs_ok_def split: if_splits)
  have fits: "seg_fits (d\<lparr>sdu_ref_count := sdu_ref_count d + 1\<rparr>) s'" if "s' \<in># M" "as_sdu s' = as_sdu s" for s'
  proof -
    have "seg_refs M (as_sdu s) \<noteq> 0" using that seg_refs_0 by blast
    then have "sdu_live d \<noteq> 1" using refs by simp
    then show ?thesis using mem [OF that(1)] that(2) d by (auto simp: seg_fits_def sdu_live_def)
  qed
  let ?d = "d\<lparr>sdu_ref_count := sdu_ref_count d + 1\<rparr>"
  have "\<exists>e. (st(as_sdu s \<mapsto> ?d)) (as_sdu s') = Some e \<and> seg_fits e s'" if "s' \<in># add_mset t (add_mset u M)" for s'
    using that mem [of s'] fits [of s'] cut by (auto simp: seg_fits_def)
  moreover have "int (seg_refs (add_mset t (add_mset u M)) a) \<le> sdu_live e \<and> sdu_size e = int (length (sdu_data e))"
    if "(st(as_sdu s \<mapsto> ?d)) a = Some e" for a e
    using that rest [of a e] rest [OF d] refs cut by (auto simp: sdu_live_def split: if_splits)
  ultimately show ?thesis by (simp add: segs_ok_def)
qed

lemma segs_ok_new:
  assumes "segs_ok st M" and "st a = None" and "as_sdu s = a" and "seg_fits d s" and "sdu_live d = 1" and "sdu_size d = int (length (sdu_data d))"
  shows "segs_ok (st(a \<mapsto> d)) (add_mset s M)"
proof -
  have mem: "\<exists>d. st (as_sdu s') = Some d \<and> seg_fits d s' \<and> as_sdu s' \<noteq> a" if "s' \<in># M" for s'
    using assms(1,2) that by (force simp: segs_ok_def)
  then have "seg_refs M a = 0" using seg_refs_0 by blast
  then show ?thesis using mem assms by (fastforce simp: segs_ok_def)
qed

subsection \<open>The size of the allocated SDUs\<close>

definition store_size :: "(nat \<rightharpoonup> nr_rlc_sdu) \<Rightarrow> int" where
  "store_size st = (\<Sum>a \<in> dom st. sdu_size (the (st a)))"

lemma store_size_put: "finite (dom st) \<Longrightarrow> st a = Some d \<Longrightarrow> sdu_size d' = sdu_size d \<Longrightarrow> store_size (st(a \<mapsto> d')) = store_size st"
proof -
  assume d: "st a = Some d" "sdu_size d' = sdu_size d"
  then have "dom (st(a \<mapsto> d')) = dom st" by auto
  then show ?thesis unfolding store_size_def using d by (intro sum.cong) auto
qed

lemma store_size_new: "finite (dom st) \<Longrightarrow> st a = None \<Longrightarrow> store_size (st(a \<mapsto> d)) = store_size st + sdu_size d"
proof -
  assume f: "finite (dom st)" "st a = None"
  then have "dom (st(a \<mapsto> d)) = insert a (dom st)" "a \<notin> dom st" by auto
  moreover have "(\<Sum>b \<in> dom st. sdu_size (the ((st(a \<mapsto> d)) b))) = store_size st"
    unfolding store_size_def using f by (intro sum.cong) auto
  ultimately show ?thesis using f by (simp add: store_size_def)
qed

lemma store_size_free: "finite (dom st) \<Longrightarrow> st a = Some d \<Longrightarrow> store_size (st(a := None)) = store_size st - sdu_size d"
proof -
  assume f: "finite (dom st)" "st a = Some d"
  have "(\<Sum>b \<in> dom st - {a}. sdu_size (the ((st(a := None)) b))) = (\<Sum>b \<in> dom st - {a}. sdu_size (the (st b)))"
    by (intro sum.cong) auto
  moreover have "store_size st = sdu_size d + (\<Sum>b \<in> dom st - {a}. sdu_size (the (st b)))"
    unfolding store_size_def using f by (subst sum.remove [of _ a]) auto
  ultimately show ?thesis by (simp add: store_size_def)
qed

text \<open>The size of the SDUs that some segment points to.\<close>

definition reach_size :: "(nat \<rightharpoonup> nr_rlc_sdu) \<Rightarrow> am_segment multiset \<Rightarrow> int" where
  "reach_size st M = (\<Sum>a \<in> as_sdu ` set_mset M. sdu_size (the (st a)))"

lemma reach_size_put: "st a = Some d \<Longrightarrow> sdu_size d' = sdu_size d \<Longrightarrow> reach_size (st(a \<mapsto> d')) M = reach_size st M"
  unfolding reach_size_def by (intro sum.cong) auto

lemma segs_ok_size: "segs_ok st M \<Longrightarrow> s \<in># M \<Longrightarrow> 0 \<le> sdu_size (the (st (as_sdu s)))"
  using segs_ok_mem by fastforce

lemma reach_size_mono: "segs_ok st (M + M') \<Longrightarrow> reach_size st M \<le> reach_size st (M + M')"
  unfolding reach_size_def by (intro sum_mono2) (auto intro: segs_ok_size)

lemma reach_size_free:
  assumes ok: "segs_ok st (add_mset s M)" and d: "st (as_sdu s) = Some d"
  shows "sdu_live d = 1 \<Longrightarrow> reach_size (st(as_sdu s := None)) M = reach_size st (add_mset s M) - sdu_size d"
    and "reach_size (st(as_sdu s \<mapsto> d\<lparr>sdu_free_count := sdu_free_count d + 1\<rparr>)) M \<le> reach_size st (add_mset s M)"
proof -
  show "reach_size (st(as_sdu s := None)) M = reach_size st (add_mset s M) - sdu_size d" if "sdu_live d = 1"
  proof -
    have "int (Suc (seg_refs M (as_sdu s))) \<le> sdu_live d" using ok d unfolding segs_ok_def by (metis seg_refs_simps(2))
    then have "\<forall>s' \<in># M. as_sdu s' \<noteq> as_sdu s" using that seg_refs_0 [of M "as_sdu s"] by simp
    then have "as_sdu s \<notin> as_sdu ` set_mset M" by force
    moreover have "(\<Sum>a \<in> as_sdu ` set_mset M. sdu_size (the ((st(as_sdu s := None)) a))) = (\<Sum>a \<in> as_sdu ` set_mset M. sdu_size (the (st a)))"
      using calculation by (intro sum.cong refl) (metis fun_upd_other)
    ultimately show ?thesis using d by (simp add: reach_size_def)
  qed
  show "reach_size (st(as_sdu s \<mapsto> d\<lparr>sdu_free_count := sdu_free_count d + 1\<rparr>)) M \<le> reach_size st (add_mset s M)"
    using reach_size_put [of st "as_sdu s" d "d\<lparr>sdu_free_count := sdu_free_count d + 1\<rparr>" M] d
      reach_size_mono [of st M "{#s#}"] ok by simp
qed

lemma reach_size_new:
  assumes "segs_ok st M" and "st a = None" and "as_sdu s = a"
  shows "reach_size (st(a \<mapsto> d)) (add_mset s M) = reach_size st M + sdu_size d"
proof -
  have "a \<notin> as_sdu ` set_mset M" using segs_ok_mem [OF assms(1)] assms(2) by force
  moreover have "(\<Sum>b \<in> as_sdu ` set_mset M. sdu_size (the ((st(a \<mapsto> d)) b))) = reach_size st M"
    unfolding reach_size_def using calculation by (intro sum.cong) auto
  ultimately show ?thesis using assms(3) by (simp add: reach_size_def)
qed

lemma reach_size_cut: "as_sdu t = as_sdu s \<Longrightarrow> as_sdu u = as_sdu s \<Longrightarrow> reach_size st (add_mset t (add_mset u M)) = reach_size st (add_mset s M)"
  by (simp add: reach_size_def)

end
