(* ===== verification/Rlc_Am_Tx.thy ===== *)
theory Rlc_Am_Tx
  imports Rlc_Am_Store
begin

text \<open>
  The sending side of the acknowledged mode: no operation touches freed memory, the transmit size is between
  the size of the SDUs that the lists reach and that of the allocated ones, and the buffer status is that
  of the pending PDUs.
\<close>

subsection \<open>The invariant\<close>

definition am_mem_ok :: "nr_rlc_entity_am \<Rightarrow> am_segment multiset \<Rightarrow> bool" where
  "am_mem_ok e M \<longleftrightarrow> am_cfg e \<and> segs_ok (am_store e) M \<and> finite (dom (am_store e)) \<and>
     (\<forall>a \<in> dom (am_store e). a < am_fresh e) \<and> reach_size (am_store e) M \<le> am_tx_size e \<and>
     am_tx_size e \<le> store_size (am_store e) \<and> am_tx_size e \<le> am_tx_maxsize e"

definition am_pending :: "nr_rlc_entity_am \<Rightarrow> am_segment list \<Rightarrow> int" where
  "am_pending e l = (\<Sum>s \<leftarrow> l. am_compute_pdu_header_size e s + as_size s)"

definition am_segs :: "nr_rlc_entity_am \<Rightarrow> am_segment multiset" where
  "am_segs e = mset (am_tx_list e) + mset (am_wait_list e) + mset (am_retransmit_list e)"

definition am_bs_ok :: "nr_rlc_entity_am \<Rightarrow> bool" where
  "am_bs_ok e \<longleftrightarrow> bs_tx_size (bstatus (am_common e)) = am_pending e (am_tx_list e) \<and>
     am_pending e (am_retransmit_list e) \<le> bs_retx_size (bstatus (am_common e))"

definition am_tx_inv :: "nr_rlc_entity_am \<Rightarrow> bool" where
  "am_tx_inv e \<longleftrightarrow> am_mem_ok e (am_segs e) \<and> am_bs_ok e"

text \<open>What the sending side leaves alone: the configuration and the receiver.\<close>

definition am_rx_part where
  "am_rx_part e = ((am_rx e, am_rx_size e, am_rx_next e, am_rx_next_status_trigger e, am_rx_highest_status e,
     am_rx_next_highest e, am_t_reassembly_start e), (am_sn_field_length e, am_sn_modulus e, am_window_size e, am_rx_maxsize e,
     am_t_reassembly e, am_tx_maxsize e))"

definition am_lists where
  "am_lists e = (am_tx_list e, am_wait_list e, am_retransmit_list e)"

lemma am_rx_part_frame [simp]:
  "am_rx_part (e\<lparr>am_tx_list := l\<rparr>) = am_rx_part e" "am_rx_part (e\<lparr>am_wait_list := l\<rparr>) = am_rx_part e"
  "am_rx_part (e\<lparr>am_retransmit_list := l\<rparr>) = am_rx_part e" "am_rx_part (e\<lparr>am_tx_size := n\<rparr>) = am_rx_part e"
  "am_rx_part (e\<lparr>am_tx_next := n\<rparr>) = am_rx_part e" "am_rx_part (e\<lparr>am_store := st\<rparr>) = am_rx_part e"
  "am_rx_part (e\<lparr>am_fresh := a\<rparr>) = am_rx_part e" "am_rx_part (e\<lparr>am_force_poll := b\<rparr>) = am_rx_part e"
  "am_rx_part (e\<lparr>am_common := c\<rparr>) = am_rx_part e" "am_rx_part (e\<lparr>am_t_poll_retransmit_start := t\<rparr>) = am_rx_part e"
  by (simp_all add: am_rx_part_def)

lemma am_mem_ok_frame [simp]:
  "am_mem_ok (e\<lparr>am_tx_list := l\<rparr>) M = am_mem_ok e M" "am_mem_ok (e\<lparr>am_wait_list := l\<rparr>) M = am_mem_ok e M"
  "am_mem_ok (e\<lparr>am_retransmit_list := l\<rparr>) M = am_mem_ok e M" "am_mem_ok (e\<lparr>am_tx_next := n\<rparr>) M = am_mem_ok e M"
  "am_mem_ok (e\<lparr>am_common := c\<rparr>) M = am_mem_ok e M"
  by (simp_all add: am_mem_ok_def am_cfg_def)

lemma am_pending_simps [simp]:
  "am_pending e [] = 0" "am_pending e (s # l) = am_compute_pdu_header_size e s + as_size s + am_pending e l"
  "am_pending e (l @ l') = am_pending e l + am_pending e l'"
  by (simp_all add: am_pending_def)

lemma am_header_cong: "am_sn_field_length e' = am_sn_field_length e \<Longrightarrow> am_compute_pdu_header_size e' = am_compute_pdu_header_size e"
  by (simp add: am_compute_pdu_header_size_def fun_eq_iff)

lemma am_pending_cong: "am_rx_part e' = am_rx_part e \<Longrightarrow> am_pending e' = am_pending e"
  using am_header_cong [of e' e] by (simp add: am_pending_def am_rx_part_def fun_eq_iff)

lemma am_header_nonneg: "0 < am_compute_pdu_header_size e s"
  by (simp add: am_compute_pdu_header_size_def)

lemma am_pending_nonneg: "segs_ok st M \<Longrightarrow> set l \<subseteq> set_mset M \<Longrightarrow> 0 \<le> am_pending e l"
proof (induction l)
  case (Cons s l)
  then obtain d where "seg_fits d s" using segs_ok_mem [of st M s] by auto
  with Cons am_header_nonneg [of e s] show ?case by (simp add: seg_fits_def)
qed simp

lemma am_sdu_ok:
  assumes "am_mem_ok e M" and "s \<in># M"
  obtains d where "am_sdu e s = Inr d" and "am_store e (as_sdu s) = Some d" and "seg_fits d s" and "sdu_size d = int (length (sdu_data d))"
  using segs_ok_mem [of "am_store e" M s] assms by (auto simp: am_mem_ok_def am_sdu_def)

lemma am_mem_mono: "am_mem_ok e (M + M') \<Longrightarrow> am_mem_ok e M"
  using segs_ok_subset reach_size_mono [of "am_store e" M M'] by (auto simp: am_mem_ok_def)

lemma am_mem_frame:
  assumes "am_store e' = am_store e" "am_fresh e' = am_fresh e" "am_tx_size e' = am_tx_size e" "am_tx_maxsize e' = am_tx_maxsize e"
    "am_sn_field_length e' = am_sn_field_length e" "am_sn_modulus e' = am_sn_modulus e" "am_window_size e' = am_window_size e"
  shows "am_mem_ok e' M = am_mem_ok e M"
  using assms by (simp add: am_mem_ok_def am_cfg_def)

lemma am_mem_put:
  assumes "am_mem_ok e M" and "am_store e (as_sdu s) = Some d" and "sdu_data d' = sdu_data d" "sdu_size d' = sdu_size d" "sdu_live d' = sdu_live d"
  shows "am_mem_ok (am_put_sdu e s d') M"
  using assms segs_ok_put [of "am_store e" M "as_sdu s" d d'] store_size_put [of "am_store e" "as_sdu s" d d']
    reach_size_put [of "am_store e" "as_sdu s" d d' M]
  by (auto simp: am_mem_ok_def am_put_sdu_def am_cfg_def insert_absorb)

text \<open>What the invariant looks at.\<close>

definition am_tx_view where
  "am_tx_view e = ((am_store e, am_fresh e, am_tx_size e, am_tx_maxsize e), (am_sn_field_length e, am_sn_modulus e, am_window_size e),
     (am_tx_list e, am_wait_list e, am_retransmit_list e, bstatus (am_common e)))"

lemma am_tx_inv_cong: "am_tx_view e' = am_tx_view e \<Longrightarrow> am_tx_inv e' = am_tx_inv e"
  by (simp add: am_tx_view_def am_tx_inv_def am_mem_ok_def am_bs_ok_def am_segs_def am_pending_def am_cfg_def
      am_compute_pdu_header_size_def)

lemma am_tx_part_view: "am_tx_part e' = am_tx_part e \<Longrightarrow> am_tx_view e' = am_tx_view e"
  by (simp add: am_tx_part_def am_tx_view_def)

text \<open>Freeing a segment, with the transmit size as the callers update it.\<close>

lemma am_mem_free:
  assumes ok: "am_mem_ok e (add_mset s M)"
  obtains d freed st where "am_sdu e s = Inr d" and "am_free_sdu_segment e s = Inr (freed, e\<lparr>am_store := st\<rparr>)"
    and "am_mem_ok (e\<lparr>am_store := st, am_tx_size := if freed then am_tx_size e - sdu_size d else am_tx_size e\<rparr>) M"
    and "freed \<longleftrightarrow> sdu_live d = 1" and "seg_fits d s"
proof -
  have "s \<in># add_mset s M" by simp
  from am_sdu_ok [OF ok this] obtain d where d: "am_sdu e s = Inr d" "am_store e (as_sdu s) = Some d" "seg_fits d s"
    "sdu_size d = int (length (sdu_data d))" by blast
  have segs: "segs_ok (am_store e) (add_mset s M)" and f: "finite (dom (am_store e))" using ok by (simp_all add: am_mem_ok_def)
  let ?d = "d\<lparr>sdu_free_count := sdu_free_count d + 1\<rparr>"
  define st where "st = (if sdu_live d = 1 then (am_store e)(as_sdu s := None) else (am_store e)(as_sdu s \<mapsto> ?d))"
  have free: "am_free_sdu_segment e s = Inr (sdu_live d = 1, e\<lparr>am_store := st\<rparr>)"
    by (auto simp: am_free_sdu_segment_def d(1) Let_def st_def sdu_live_def am_put_sdu_def)
  have "segs_ok st M" using segs_ok_free [OF segs d(2)] by (simp add: st_def)
  define tx where "tx = (if sdu_live d = 1 then am_tx_size e - sdu_size d else am_tx_size e)"
  have "tx \<le> store_size st" "reach_size st M \<le> tx" "tx \<le> am_tx_maxsize e"
    using ok d(4) store_size_free [OF f d(2)] store_size_put [OF f d(2), of ?d] reach_size_free [OF segs d(2)]
    by (auto simp: st_def tx_def am_mem_ok_def)
  moreover have "finite (dom st)" "\<forall>a \<in> dom st. a < am_fresh e" using ok d(2) by (auto simp: st_def am_mem_ok_def split: if_splits)
  ultimately have "am_mem_ok (e\<lparr>am_store := st, am_tx_size := tx\<rparr>) M"
    using \<open>segs_ok st M\<close> ok by (simp add: am_mem_ok_def am_cfg_def)
  then show thesis using that d free by (simp add: tx_def)
qed

subsection \<open>Control PDUs\<close>

text \<open>The segments in the lists of the loop, and what they take in the buffer status.\<close>

definition ct_segs :: "am_ctl \<Rightarrow> am_segment multiset" where
  "ct_segs c = mset (am_tx_list (ct_e c)) + mset (ct_kept c) + mset (ct_wait c) + mset (ct_tail c) + mset (ct_new c) + mset (ct_retx c)"

definition ct_ok :: "nr_rlc_entity_am \<Rightarrow> am_ctl \<Rightarrow> bool" where
  "ct_ok e c \<longleftrightarrow> am_mem_ok (ct_e c) (ct_segs c) \<and> am_rx_part (ct_e c) = am_rx_part e \<and>
     am_tx_list (ct_e c) = am_tx_list e \<and> bs_tx_size (bstatus (am_common (ct_e c))) = bs_tx_size (bstatus (am_common e)) \<and>
     am_pending e (ct_new c) + am_pending e (ct_retx c) \<le> bs_retx_size (bstatus (am_common (ct_e c))) \<and>
     (ct_wait c \<noteq> [] \<longrightarrow> ct_tail c = [])"

lemma am_add_retx_frame [simp]:
  "am_store (am_add_retx_size n e) = am_store e" "am_rx_part (am_add_retx_size n e) = am_rx_part e"
  "am_lists (am_add_retx_size n e) = am_lists e" "am_tx_list (am_add_retx_size n e) = am_tx_list e"
  "bs_tx_size (bstatus (am_common (am_add_retx_size n e))) = bs_tx_size (bstatus (am_common e))"
  "bs_retx_size (bstatus (am_common (am_add_retx_size n e))) = bs_retx_size (bstatus (am_common e)) + n"
  "am_mem_ok (am_add_retx_size n e) M = am_mem_ok e M"
  by (simp_all add: am_add_retx_size_def am_rx_part_def am_lists_def am_mem_ok_def am_cfg_def)

lemma am_stats_tx [simp]:
  "am_store (am_stats g e) = am_store e" "am_rx_part (am_stats g e) = am_rx_part e" "am_lists (am_stats g e) = am_lists e"
  "am_tx_list (am_stats g e) = am_tx_list e" "bstatus (am_common (am_stats g e)) = bstatus (am_common e)"
  "am_mem_ok (am_stats g e) M = am_mem_ok e M"
  by (simp_all add: am_stats_def am_rx_part_def am_lists_def am_mem_ok_def am_cfg_def)

lemma am_put_sdu_frame [simp]:
  "am_rx_part (am_put_sdu e s d) = am_rx_part e" "am_lists (am_put_sdu e s d) = am_lists e"
  "am_tx_list (am_put_sdu e s d) = am_tx_list e" "am_common (am_put_sdu e s d) = am_common e"
  "am_fresh (am_put_sdu e s d) = am_fresh e" "am_wait_list (am_put_sdu e s d) = am_wait_list e"
  "am_retransmit_list (am_put_sdu e s d) = am_retransmit_list e" "am_sn_field_length (am_put_sdu e s d) = am_sn_field_length e"
  by (simp_all add: am_put_sdu_def am_rx_part_def am_lists_def)

lemma am_ack_ok:
  assumes "am_mem_ok (ct_e c) (add_mset s M)"
  obtains e' out where "am_ack_segment s c = Inr (c\<lparr>ct_e := e', ct_out := ct_out c @ out\<rparr>)" and "am_mem_ok e' M"
    and "am_rx_part e' = am_rx_part (ct_e c)" and "am_tx_list e' = am_tx_list (ct_e c)"
    and "bstatus (am_common e') = bstatus (am_common (ct_e c))"
proof -
  obtain d freed st where f: "am_sdu (ct_e c) s = Inr d" "am_free_sdu_segment (ct_e c) s = Inr (freed, (ct_e c)\<lparr>am_store := st\<rparr>)"
    "am_mem_ok ((ct_e c)\<lparr>am_store := st, am_tx_size := if freed then am_tx_size (ct_e c) - sdu_size d else am_tx_size (ct_e c)\<rparr>) M"
    by (rule am_mem_free [OF assms])
  define e' where "e' = (if freed
    then am_stats (\<lambda>t. t\<lparr>txsdu_bytes := txsdu_bytes t + of_int (sdu_size d)\<rparr>)
           ((ct_e c)\<lparr>am_store := st, am_tx_size := am_tx_size (ct_e c) - sdu_size d\<rparr>)
    else (ct_e c)\<lparr>am_store := st\<rparr>)"
  define out where "out = (if freed then [AmAcked (sdu_upper_layer_id d)] else [])"
  have "am_ack_segment s c = Inr (c\<lparr>ct_e := e', ct_out := ct_out c @ out\<rparr>)"
    by (simp add: am_ack_segment_def f(1,2) e'_def out_def)
  moreover have "am_mem_ok e' M" using f(3) by (cases freed) (simp add: e'_def, simp add: e'_def am_mem_ok_def am_cfg_def)
  ultimately show thesis by (rule that) (simp_all add: e'_def am_rx_part_def am_stats_def)
qed

lemma am_nack_ok:
  assumes ok: "am_mem_ok (ct_e c) M" and s: "s \<in># M"
  obtains e' out where "am_nack_segment s c = Inr (c\<lparr>ct_e := e', ct_new := ct_new c @ [s], ct_out := ct_out c @ out\<rparr>)" and "am_mem_ok e' M"
    and "am_rx_part e' = am_rx_part (ct_e c)" and "am_tx_list e' = am_tx_list (ct_e c)"
    and "bs_tx_size (bstatus (am_common e')) = bs_tx_size (bstatus (am_common (ct_e c)))"
    and "bs_retx_size (bstatus (am_common e')) = bs_retx_size (bstatus (am_common (ct_e c))) + (am_compute_pdu_header_size (ct_e c) s + as_size s)"
proof -
  obtain d where d: "am_sdu (ct_e c) s = Inr d" "am_store (ct_e c) (as_sdu s) = Some d" by (rule am_sdu_ok [OF ok s])
  define d' where "d' = d\<lparr>sdu_retx_count := sdu_retx_count d + 1\<rparr>"
  define e' where "e' = am_add_retx_size (am_compute_pdu_header_size (ct_e c) s + as_size s) (am_put_sdu (ct_e c) s d')"
  have mem: "am_mem_ok e' M" using am_mem_put [OF ok d(2), of d'] by (simp add: e'_def d'_def sdu_live_def)
  define out where "out = (if sdu_retx_count d' \<ge> am_max_retx_threshold e' * sdu_ref_count d' then [AmMaxRetx] else [])"
  have "am_nack_segment s c = Inr (c\<lparr>ct_e := e', ct_new := ct_new c @ [s], ct_out := ct_out c @ out\<rparr>)"
    by (simp add: am_nack_segment_def d(1) Let_def e'_def d'_def out_def)
  then show thesis using mem by (rule that) (simp_all add: e'_def)
qed

text \<open>One round: the lists keep their segments, apart from those that are freed, and get shorter.\<close>

definition ct_left :: "am_ctl \<Rightarrow> nat" where
  "ct_left c = length (ct_wait c) + length (ct_retx c)"

definition ct_next_ok :: "nr_rlc_entity_am \<Rightarrow> am_ctl \<Rightarrow> ctl_next \<times> am_ctl \<Rightarrow> bool" where
  "ct_next_ok e c = (\<lambda>(nx, c'). ct_ok e c' \<and> (nx = NextPdu \<longrightarrow> ct_left c' < ct_left c))"

lemma am_rx_part_D:
  "am_rx_part e' = am_rx_part e \<Longrightarrow> am_compute_pdu_header_size e' = am_compute_pdu_header_size e \<and> am_pending e' = am_pending e"
  using am_pending_cong [of e' e] am_header_cong [of e' e] by (simp add: am_rx_part_def)

lemma process_wait_list_head_ok:
  assumes ok: "ct_ok e c" and w: "ct_wait c = s # ws"
  shows "\<exists>r. process_wait_list_head ack_sn (nack_sn, so_start, so_end) s ws c = Inr r \<and> ct_next_ok e c r"
proof -
  define M where "M = mset (am_tx_list (ct_e c)) + mset (ct_kept c) + mset ws + mset (ct_tail c) + mset (ct_new c) + mset (ct_retx c)"
  have segs: "ct_segs c = add_mset s M" by (simp add: ct_segs_def w M_def)
  have mem: "am_mem_ok (ct_e c) (add_mset s M)" and o: "am_rx_part (ct_e c) = am_rx_part e" "am_tx_list (ct_e c) = am_tx_list e"
    "bs_tx_size (bstatus (am_common (ct_e c))) = bs_tx_size (bstatus (am_common e))"
    "am_pending e (ct_new c) + am_pending e (ct_retx c) \<le> bs_retx_size (bstatus (am_common (ct_e c)))"
    and t: "ct_tail c = []"
    using ok segs by (simp_all add: ct_ok_def w)
  note h = am_rx_part_D [OF o(1)]
  have sM: "s \<in># add_mset s M" by simp
  obtain d where d: "am_sdu (ct_e c) s = Inr d" by (rule am_sdu_ok [OF mem sM])
  let ?c = "c\<lparr>ct_wait := ws\<rparr>"
  obtain e1 out1 where a: "am_ack_segment s ?c = Inr (?c\<lparr>ct_e := e1, ct_out := ct_out ?c @ out1\<rparr>)" "am_mem_ok e1 M"
    "am_rx_part e1 = am_rx_part (ct_e ?c)" "am_tx_list e1 = am_tx_list (ct_e ?c)" "bstatus (am_common e1) = bstatus (am_common (ct_e ?c))"
    by (rule am_ack_ok [of ?c s M]) (use mem in simp)
  obtain e2 out2 where n: "am_nack_segment s ?c = Inr (?c\<lparr>ct_e := e2, ct_new := ct_new ?c @ [s], ct_out := ct_out ?c @ out2\<rparr>)"
    "am_mem_ok e2 (add_mset s M)" "am_rx_part e2 = am_rx_part (ct_e ?c)" "am_tx_list e2 = am_tx_list (ct_e ?c)"
    "bs_tx_size (bstatus (am_common e2)) = bs_tx_size (bstatus (am_common (ct_e ?c)))"
    "bs_retx_size (bstatus (am_common e2)) = bs_retx_size (bstatus (am_common (ct_e ?c))) + (am_compute_pdu_header_size (ct_e ?c) s + as_size s)"
    by (rule am_nack_ok [of ?c "add_mset s M" s]) (use mem in simp_all)
  have A: "ct_next_ok e c (NextPdu, ?c\<lparr>ct_e := e1, ct_out := ct_out c @ out1\<rparr>)"
    using a o t by (simp add: ct_next_ok_def ct_ok_def ct_segs_def M_def ct_left_def w)
  have N: "ct_next_ok e c (NextPdu, ?c\<lparr>ct_e := e2, ct_new := ct_new c @ [s], ct_out := ct_out c @ out2\<rparr>)"
    using n o t h by (simp add: ct_next_ok_def ct_ok_def ct_segs_def M_def ct_left_def w add_ac)
  have D: "ct_next_ok e c (DoneNack, c)" using ok by (simp add: ct_next_ok_def)
  have T: "ct_next_ok e c (NextPdu, c\<lparr>ct_wait := [], ct_tail := s # ws\<rparr>)"
    using mem o t by (simp add: ct_next_ok_def ct_ok_def ct_segs_def M_def ct_left_def w add_ac)
  have K: "ct_next_ok e c (NextPdu, c\<lparr>ct_kept := ct_kept c @ [s], ct_wait := ws\<rparr>)"
    using mem o t by (simp add: ct_next_ok_def ct_ok_def ct_segs_def M_def ct_left_def w add_ac)
  show ?thesis
    using a(1) n(1) A N D T K by (simp add: process_wait_list_head_def d Let_def)
qed

lemma process_retransmit_list_head_ok:
  assumes ok: "ct_ok e c" and r: "ct_retx c = s # rs"
  shows "\<exists>r. process_retransmit_list_head ack_sn (nack_sn, so_start, so_end) s rs c = Inr r \<and> ct_next_ok e c r"
proof -
  define M where "M = mset (am_tx_list (ct_e c)) + mset (ct_kept c) + mset (ct_wait c) + mset (ct_tail c) + mset (ct_new c) + mset rs"
  have segs: "ct_segs c = add_mset s M" by (simp add: ct_segs_def r M_def)
  have mem: "am_mem_ok (ct_e c) (add_mset s M)" and o: "am_rx_part (ct_e c) = am_rx_part e" "am_tx_list (ct_e c) = am_tx_list e"
    "bs_tx_size (bstatus (am_common (ct_e c))) = bs_tx_size (bstatus (am_common e))"
    "am_pending e (ct_new c) + am_pending e (ct_retx c) \<le> bs_retx_size (bstatus (am_common (ct_e c)))"
    and t: "ct_wait c \<noteq> [] \<longrightarrow> ct_tail c = []"
    using ok segs by (simp_all add: ct_ok_def)
  note h = am_rx_part_D [OF o(1)]
  have sM: "s \<in># add_mset s M" by simp
  obtain d where d: "am_sdu (ct_e c) s = Inr d" by (rule am_sdu_ok [OF mem sM])
  let ?c = "c\<lparr>ct_e := am_add_retx_size (- (am_compute_pdu_header_size (ct_e c) s + as_size s)) (ct_e c), ct_retx := rs\<rparr>"
  obtain e1 out1 where a: "am_ack_segment s ?c = Inr (?c\<lparr>ct_e := e1, ct_out := ct_out ?c @ out1\<rparr>)" "am_mem_ok e1 M"
    "am_rx_part e1 = am_rx_part (ct_e ?c)" "am_tx_list e1 = am_tx_list (ct_e ?c)" "bstatus (am_common e1) = bstatus (am_common (ct_e ?c))"
    by (rule am_ack_ok [of ?c s M]) (use mem in simp)
  have A: "ct_next_ok e c (NextPdu, ?c\<lparr>ct_e := e1, ct_out := ct_out ?c @ out1\<rparr>)"
    using a o t h by (simp add: ct_next_ok_def ct_ok_def ct_segs_def M_def ct_left_def r)
  have N: "ct_next_ok e c (NextPdu, c\<lparr>ct_new := ct_new c @ [s], ct_retx := rs\<rparr>)"
    using mem o t h by (simp add: ct_next_ok_def ct_ok_def ct_segs_def M_def ct_left_def r add_ac)
  have D: "ct_next_ok e c (DoneNack, c)" using ok by (simp add: ct_next_ok_def)
  have "0 \<le> am_pending e (ct_retx c)"
    by (rule am_pending_nonneg [of "am_store (ct_e c)" "ct_segs c"]) (use ok in \<open>auto simp: ct_ok_def am_mem_ok_def ct_segs_def\<close>)
  moreover have "am_mem_ok (ct_e c) (mset (am_tx_list (ct_e c)) + mset (ct_kept c) + mset (ct_wait c) + mset (ct_tail c) + mset (ct_new c))"
    by (rule am_mem_mono [of _ _ "mset (ct_retx c)"]) (use mem segs in \<open>simp add: ct_segs_def add_ac\<close>)
  ultimately have L: "ct_next_ok e c (ListsOver, c\<lparr>ct_retx := []\<rparr>)"
    using o t by (simp add: ct_next_ok_def ct_ok_def ct_segs_def)
  show ?thesis
    using a(1) A N D L by (simp add: process_retransmit_list_head_def d Let_def)
qed

lemma process_next_pdu_ok:
  assumes ok: "ct_ok e c"
  shows "\<exists>r. process_next_pdu ack_sn nack c = Inr r \<and> ct_next_ok e c r"
proof -
  obtain nack_sn so_start so_end where n: "nack = (nack_sn, so_start, so_end)" by (cases nack)
  show ?thesis
  proof (cases "ct_wait c")
    case Nil
    show ?thesis
    proof (cases "ct_retx c")
      case Nil
      then show ?thesis using ok \<open>ct_wait c = []\<close> by (simp add: process_next_pdu_def ct_next_ok_def)
    next
      case (Cons r rs)
      then show ?thesis using process_retransmit_list_head_ok [OF ok Cons] Nil by (simp add: process_next_pdu_def n)
    qed
  next
    case w: (Cons w ws)
    show ?thesis
    proof (cases "ct_retx c")
      case Nil
      then show ?thesis using process_wait_list_head_ok [OF ok w] w by (simp add: process_next_pdu_def n)
    next
      case r: (Cons r rs)
      have mem: "am_mem_ok (ct_e c) (ct_segs c)" using ok by (simp add: ct_ok_def)
      have "w \<in># ct_segs c" "r \<in># ct_segs c" using w r by (simp_all add: ct_segs_def)
      then obtain dw dr where "am_sdu (ct_e c) w = Inr dw" "am_sdu (ct_e c) r = Inr dr"
        using am_sdu_ok [OF mem] by metis
      then show ?thesis
        using process_wait_list_head_ok [OF ok w] process_retransmit_list_head_ok [OF ok r] w r
        by (simp add: process_next_pdu_def n Let_def)
    qed
  qed
qed

text \<open>The rounds for one SN end, and so do the loops over the NACKs.\<close>

lemma process_nack_ok:
  "ct_ok e c \<Longrightarrow> ct_left c < k \<Longrightarrow> \<exists>over c'. process_nack k ack_sn nack c = Inr (over, c') \<and> ct_ok e c'"
proof (induction k arbitrary: c)
  case (Suc k)
  obtain nx c' where p: "process_next_pdu ack_sn nack c = Inr (nx, c')" "ct_next_ok e c (nx, c')"
    using process_next_pdu_ok [OF Suc.prems(1), of ack_sn nack] by force
  then have "ct_ok e c'" "nx = NextPdu \<longrightarrow> ct_left c' < k" using Suc.prems(2) by (auto simp: ct_next_ok_def)
  with Suc.IH [of c'] show ?case by (cases nx) (auto simp: p(1))
qed simp

lemma process_nack_parts_ok: "ct_ok e c \<Longrightarrow> \<exists>c'. process_nack_parts ack_sn ps c = Inr c' \<and> ct_ok e c'"
proof (induction ps arbitrary: c)
  case (Cons p ps)
  obtain over c' where "process_nack (Suc (ct_left c)) ack_sn p c = Inr (over, c')" "ct_ok e c'"
    using process_nack_ok [OF Cons.prems, of "Suc (ct_left c)" ack_sn p] by auto
  with Cons.IH show ?case by (simp add: ct_left_def)
qed simp

lemma stop_poll_frame [simp]:
  "am_mem_ok (stop_poll_timer_if b e) M = am_mem_ok e M" "am_rx_part (stop_poll_timer_if b e) = am_rx_part e"
  "am_tx_list (stop_poll_timer_if b e) = am_tx_list e" "am_common (stop_poll_timer_if b e) = am_common e"
  "am_wait_list (stop_poll_timer_if b e) = am_wait_list e" "am_retransmit_list (stop_poll_timer_if b e) = am_retransmit_list e"
  by (simp_all add: stop_poll_timer_if_def am_mem_ok_def am_cfg_def am_rx_part_def)

lemma ct_ok_stop_poll: "ct_ok e c \<Longrightarrow> ct_ok e (c\<lparr>ct_e := stop_poll_timer_if b (ct_e c)\<rparr>)"
  by (auto simp: ct_ok_def ct_segs_def)

lemma process_nacks_ok: "ct_ok e c \<Longrightarrow> \<exists>c'. process_nacks ack_sn ns c = Inr c' \<and> ct_ok e c'"
proof (induction ns arbitrary: c)
  case (Cons n ns)
  obtain c' where "process_nack_parts ack_sn (nack_parts (ct_e c) n) c = Inr c'" "ct_ok e c'"
    using process_nack_parts_ok [OF Cons.prems] by blast
  with Cons.IH [OF ct_ok_stop_poll] show ?case by (simp add: Let_def)
qed simp

lemma ack_wait_list_ok: "ct_ok e (c\<lparr>ct_wait := l\<rparr>) \<Longrightarrow> \<exists>c'. ack_wait_list ack_sn l c = Inr c' \<and> ct_ok e c'"
proof (induction l arbitrary: c)
  case (Cons s ws)
  let ?M = "mset (am_tx_list (ct_e c)) + mset (ct_kept c) + mset ws + mset (ct_tail c) + mset (ct_new c) + mset (ct_retx c)"
  have mem: "am_mem_ok (ct_e c) (add_mset s ?M)" using Cons.prems by (auto simp: ct_ok_def ct_segs_def)
  obtain d where d: "am_sdu (ct_e c) s = Inr d" by (rule am_sdu_ok [OF mem, of s]) simp
  obtain e1 out1 where a: "am_ack_segment s c = Inr (c\<lparr>ct_e := e1, ct_out := ct_out c @ out1\<rparr>)" "am_mem_ok e1 ?M"
    "am_rx_part e1 = am_rx_part (ct_e c)" "am_tx_list e1 = am_tx_list (ct_e c)" "bstatus (am_common e1) = bstatus (am_common (ct_e c))"
    by (rule am_ack_ok [OF mem])
  have "ct_ok e (c\<lparr>ct_e := e1, ct_out := ct_out c @ out1, ct_wait := ws\<rparr>)"
    using a Cons.prems by (simp add: ct_ok_def ct_segs_def)
  then show ?case using Cons.IH [of "c\<lparr>ct_e := e1, ct_out := ct_out c @ out1\<rparr>"] Cons.prems by (simp add: d a(1))
qed simp

lemma ack_retransmit_list_ok: "ct_ok e (c\<lparr>ct_retx := l\<rparr>) \<Longrightarrow> \<exists>c'. ack_retransmit_list ack_sn l c = Inr c' \<and> ct_ok e c'"
proof (induction l arbitrary: c)
  case (Cons s rs)
  let ?M = "mset (am_tx_list (ct_e c)) + mset (ct_kept c) + mset (ct_wait c) + mset (ct_tail c) + mset (ct_new c) + mset rs"
  let ?c = "c\<lparr>ct_e := am_add_retx_size (- (am_compute_pdu_header_size (ct_e c) s + as_size s)) (ct_e c)\<rparr>"
  have mem: "am_mem_ok (ct_e c) (add_mset s ?M)" and o: "am_rx_part (ct_e c) = am_rx_part e"
    using Cons.prems by (auto simp: ct_ok_def ct_segs_def)
  obtain d where d: "am_sdu (ct_e c) s = Inr d" by (rule am_sdu_ok [OF mem, of s]) simp
  obtain e1 out1 where a: "am_ack_segment s ?c = Inr (?c\<lparr>ct_e := e1, ct_out := ct_out ?c @ out1\<rparr>)" "am_mem_ok e1 ?M"
    "am_rx_part e1 = am_rx_part (ct_e ?c)" "am_tx_list e1 = am_tx_list (ct_e ?c)" "bstatus (am_common e1) = bstatus (am_common (ct_e ?c))"
    by (rule am_ack_ok [of ?c s ?M]) (use mem in simp)
  have "ct_ok e (c\<lparr>ct_e := e1, ct_out := ct_out c @ out1, ct_retx := rs\<rparr>)"
    using a Cons.prems am_rx_part_D [OF o] by (simp add: ct_ok_def ct_segs_def)
  then show ?case using Cons.IH [of "c\<lparr>ct_e := e1, ct_out := ct_out c @ out1\<rparr>"] Cons.prems a(1) by (simp add: d)
qed simp

lemma lower_ack_total:
  assumes "am_mem_ok e M" and "set l \<subseteq> set_mset M"
  shows "\<exists>sn'. lower_ack e l sn = Inr sn'"
proof (cases l)
  case (Cons s l')
  then obtain d where "am_sdu e s = Inr d" using am_sdu_ok [OF assms(1), of s] assms(2) by auto
  then show ?thesis by (simp add: lower_ack_def Cons)
qed (simp add: lower_ack_def)

subsection \<open>Decoding a status PDU\<close>

definition dec_read :: "byte list \<Rightarrow> nat \<Rightarrow> ('a \<times> bool \<times> nr_rlc_pdu_decoder) option c_result \<Rightarrow> bool" where
  "dec_read buf p r \<longleftrightarrow> (case r of Inl _ \<Rightarrow> False | Inr None \<Rightarrow> True
     | Inr (Some (x, e1, d)) \<Rightarrow> \<exists>q. d = dec_at buf q \<and> q \<le> 8 * length buf \<and> p \<le> q)"

lemma dec_read_bits:
  assumes "q \<le> 8 * length buf" and "0 \<le> n" "n \<le> 31"
    and "\<And>v. q + nat n \<le> 8 * length buf \<Longrightarrow> dec_read buf p (f v (dec_at buf (q + nat n)))"
  shows "dec_read buf p (decode_bits (dec_at buf q) n f)"
  using assms decode_bits_at [of q buf "nat n" f] by (simp add: dec_read_def)

lemma dec_read_none: "dec_read buf p (Inr None)"
  by (simp add: dec_read_def)

lemma dec_read_some: "q \<le> 8 * length buf \<Longrightarrow> p \<le> q \<Longrightarrow> dec_read buf p (Inr (Some (x, e1, dec_at buf q)))"
  by (auto simp: dec_read_def)

lemma dec_read_if: "(b \<Longrightarrow> dec_read buf p x) \<Longrightarrow> (\<not> b \<Longrightarrow> dec_read buf p y) \<Longrightarrow> dec_read buf p (if b then x else y)"
  by simp

lemmas dec_read_intros = dec_read_bits dec_read_if dec_read_some dec_read_none

lemma dec_readD:
  assumes "dec_read buf p r"
  shows "r = Inr None \<or> (\<exists>x e1 q. r = Inr (Some (x, e1, dec_at buf q)) \<and> q \<le> 8 * length buf \<and> p \<le> q)"
  using assms by (auto simp: dec_read_def split: sum.splits option.splits)

lemma am_decode_nack_ok:
  assumes "p \<le> 8 * length buf" and "len = 12 \<or> len = 18"
  shows "dec_read buf (p + 16) (am_decode_nack len (dec_at buf p))"
  unfolding am_decode_nack_def Let_def
  by (intro dec_read_intros) (use assms in \<open>auto split: if_splits\<close>)

lemma am_decode_status_ok:
  assumes "len = 12 \<or> len = 18"
  shows "dec_read buf 0 (am_decode_status len buf)"
  unfolding am_decode_status_def decoder_init_at
  by (intro dec_read_intros) (use assms in \<open>auto split: if_splits\<close>)

lemma am_read_nacks_total:
  assumes "am_sn_field_length e = 12 \<or> am_sn_field_length e = 18"
  shows "p \<le> 8 * length buf \<Longrightarrow> 8 * length buf < p + 16 * k \<Longrightarrow> \<exists>r. am_read_nacks k e ack_sn (dec_at buf p) = Inr r"
proof (induction k arbitrary: p)
  case (Suc k)
  consider "am_decode_nack (am_sn_field_length e) (dec_at buf p) = Inr None"
    | n e1 q where "am_decode_nack (am_sn_field_length e) (dec_at buf p) = Inr (Some (n, e1, dec_at buf q))"
        "q \<le> 8 * length buf" "p + 16 \<le> q"
    using dec_readD [OF am_decode_nack_ok [OF Suc.prems(1) assms]] by blast
  then show ?case
  proof cases
    case 2
    with Suc.prems have "8 * length buf < q + 16 * k" by simp
    with Suc.IH [OF 2(2)] show ?thesis by (auto simp: 2(1))
  qed simp
qed simp

subsection \<open>The control PDU\<close>

lemma process_control_pdu_ok:
  assumes inv: "am_tx_inv e"
  shows "\<exists>e' out. process_control_pdu e buffer = Inr (e', out) \<and> am_tx_inv e' \<and> am_rx_part e' = am_rx_part e"
proof -
  have mem: "am_mem_ok e (am_segs e)" and bs: "am_bs_ok e" using inv by (simp_all add: am_tx_inv_def)
  then have len: "am_sn_field_length e = 12 \<or> am_sn_field_length e = 18" by (auto simp: am_mem_ok_def am_cfg_def)
  from dec_readD [OF am_decode_status_ok [OF len, of buffer]] show ?thesis
  proof (elim disjE exE conjE)
    assume "am_decode_status (am_sn_field_length e) buffer = Inr None"
    then show ?thesis using inv by (simp add: process_control_pdu_def)
  next
    fix ack_sn e1 p
    define d where "d = dec_at buffer p"
    assume r: "am_decode_status (am_sn_field_length e) buffer = Inr (Some (ack_sn, e1, dec_at buffer p))" and p: "p \<le> 8 * length buffer"
    obtain ns where ns: "(if e1 then am_read_nacks (Suc (length buffer)) e ack_sn d else Inr (Some [])) = Inr ns"
      using am_read_nacks_total [OF len p, of "Suc (length buffer)" ack_sn] by (cases e1) (auto simp: d_def)
    define e0 where "e0 = stop_poll_timer_if (am_sn_compare_tx e (am_poll_sn e) ack_sn < 0) e"
    let ?c = "\<lparr>ct_e = e0, ct_kept = [], ct_wait = am_wait_list e0, ct_tail = [], ct_new = [], ct_retx = am_retransmit_list e0, ct_out = []\<rparr>"
    show ?thesis
    proof (cases "am_sn_compare_tx e ack_sn (am_tx_next e) > 0 \<or> ns = None")
      case True
      then show ?thesis using inv ns
        by (cases "am_sn_compare_tx e ack_sn (am_tx_next e) > 0")
          (auto simp: process_control_pdu_def r d_def [symmetric] simp del: am_read_nacks.simps split del: if_split)
    next
      case False
      then obtain ns' where ns': "ns = Some ns'" by auto
      have frame: "am_rx_part e0 = am_rx_part e" "am_tx_list e0 = am_tx_list e" "am_common e0 = am_common e"
        "am_wait_list e0 = am_wait_list e" "am_retransmit_list e0 = am_retransmit_list e"
        by (simp_all add: e0_def)
      have mem0: "am_mem_ok e0 (am_segs e)" using mem by (simp add: e0_def)
      have "ct_ok e ?c"
        using mem0 bs frame by (simp add: ct_ok_def ct_segs_def am_segs_def am_bs_ok_def)
      then obtain c1 where c1: "process_nacks ack_sn ns' ?c = Inr c1" "ct_ok e c1" using process_nacks_ok by blast
      obtain c2 where c2: "ack_wait_list ack_sn (ct_wait c1) c1 = Inr c2" "ct_ok e c2"
        using ack_wait_list_ok [where e = e and c = c1 and l = "ct_wait c1"] c1(2) by auto
      obtain c3 where c3: "ack_retransmit_list ack_sn (ct_retx c2) c2 = Inr c3" "ct_ok e c3"
        using ack_retransmit_list_ok [where e = e and c = c2 and l = "ct_retx c2"] c2(2) by auto
      let ?e3 = "(ct_e c3)\<lparr>am_wait_list := ct_kept c3 @ ct_wait c3 @ ct_tail c3, am_retransmit_list := ct_new c3 @ ct_retx c3\<rparr>"
      have mem3: "am_mem_ok ?e3 (am_segs ?e3)"
        using c3(2) by (auto simp: ct_ok_def am_segs_def ct_segs_def am_mem_ok_def am_cfg_def add_ac)
      have part3: "am_rx_part ?e3 = am_rx_part e" using c3(2) by (simp add: ct_ok_def am_rx_part_def)
      have bs3: "am_bs_ok ?e3"
        using c3(2) bs am_rx_part_D [OF part3] by (simp add: ct_ok_def am_bs_ok_def)
      obtain sn1 where sn1: "lower_ack ?e3 (am_wait_list ?e3) (am_tx_next ?e3) = Inr sn1"
        using lower_ack_total [OF mem3, of "am_wait_list ?e3" "am_tx_next ?e3"] by (auto simp: am_segs_def)
      obtain sn2 where sn2: "lower_ack ?e3 (am_retransmit_list ?e3) sn1 = Inr sn2"
        using lower_ack_total [OF mem3, of "am_retransmit_list ?e3" sn1] by (auto simp: am_segs_def)
      define e4 where "e4 = ?e3\<lparr>am_tx_next_ack := if am_sn_compare_tx ?e3 ack_sn sn2 < 0 then ack_sn else sn2\<rparr>"
      have up: "update_tx_next_ack ?e3 ack_sn = Inr e4" unfolding update_tx_next_ack_def sn1 c_bind_simps sn2 e4_def by simp
      have "am_tx_inv e4" "am_rx_part e4 = am_rx_part e"
        using mem3 bs3 part3 am_tx_inv_cong [of e4 ?e3]
        by (simp_all add: e4_def am_tx_inv_def [of ?e3] am_tx_view_def am_rx_part_def)
      moreover have "process_control_pdu e buffer = Inr (e4, ct_out c3)"
        using False ns ns' c1(1) c2(1) c3(1) up frame(4,5)
        by (simp add: process_control_pdu_def r d_def [symmetric] e0_def [symmetric] Let_def del: am_read_nacks.simps split del: if_split)
      ultimately show ?thesis by blast
    qed
  qed
qed

end
