(* ===== verification/Rlc_Am_Recv.thy ===== *)
theory Rlc_Am_Recv
  imports Rlc_Am_Rx
begin

text \<open>
  Receiving data PDUs in the acknowledged mode: every PDU is handled, with one exception, and SDUs are
  delivered once and complete.
\<close>

subsection \<open>Insertion of a segment\<close>

lemma am_rx_inv_frame [simp]:
  "am_rx_inv (am_stats g e) = am_rx_inv e" "am_rx_inv (e\<lparr>am_status_triggered := b\<rparr>) = am_rx_inv e"
  by (simp_all add: am_rx_inv_def)

lemma am_discard_pdu_rx [simp]:
  "am_rx_inv (am_discard_pdu e p n) = am_rx_inv e" "am_cells (am_discard_pdu e p n) = am_cells e"
  "am_rx_next (am_discard_pdu e p n) = am_rx_next e" "am_tx_part (am_discard_pdu e p n) = am_tx_part e"
  "am_rx_highest_status (am_discard_pdu e p n) = am_rx_highest_status e" "am_marks (am_discard_pdu e p n) = am_marks e"
  "am_rx_next_highest (am_discard_pdu e p n) = am_rx_next_highest e" "am_rx_next_status_trigger (am_discard_pdu e p n) = am_rx_next_status_trigger e"
  "am_t_reassembly_start (am_discard_pdu e p n) = am_t_reassembly_start e"
  by (simp_all add: am_discard_pdu_def, simp_all add: am_marks_def)

lemma insert_before_hd: "cs \<noteq> [] \<Longrightarrow> \<not> stop (hd cs) \<Longrightarrow> hd (insert_before stop x cs) = hd cs"
  by (cases cs) simp_all

lemma am_slot_insert:
  assumes "am_slot_ok sn cs" and "pdu_sn p = sn" and "am_cell_ok p" and "pdu_data p \<noteq> None"
  shows "am_slot_ok sn (insert_before (\<lambda>c. pdu_so c > pdu_so p) p cs)"
    and "cells_processed (insert_before (\<lambda>c. pdu_so c > pdu_so p) p cs) \<longleftrightarrow> cells_processed cs"
proof -
  let ?cs = "insert_before (\<lambda>c. pdu_so c > pdu_so p) p cs"
  have p: "0 \<le> pdu_so p" using assms(3) by (simp add: am_cell_ok_def)
  have pr: "cells_processed ?cs \<longleftrightarrow> cells_processed cs"
  proof (cases "cells_processed cs")
    case True
    with assms(1) p show ?thesis by (cases cs) (simp_all add: am_slot_ok_def)
  next
    case False
    with assms(1) have "\<forall>c \<in> set ?cs. pdu_data c \<noteq> None" using assms(4) by (simp add: am_slot_ok_def)
    then have "\<not> cells_processed ?cs" by (cases ?cs) simp_all
    with False show ?thesis by simp
  qed
  then show "cells_processed ?cs \<longleftrightarrow> cells_processed cs" .
  have hd: "pdu_so (hd ?cs) = 0" if "cells_processed cs"
  proof -
    have "cs \<noteq> []" "pdu_so (hd cs) = 0" using assms(1) that by (auto simp: am_slot_ok_def)
    then show ?thesis using insert_before_hd [of cs "\<lambda>c. pdu_so c > pdu_so p" p] p by simp
  qed
  show "am_slot_ok sn ?cs"
  proof (cases "cells_processed cs")
    case True
    then show ?thesis using assms hd by (simp add: am_slot_ok_def pr)
  next
    case False
    then show ?thesis using assms by (simp add: am_slot_ok_def pr)
  qed
qed

definition am_inserted :: "nr_rlc_entity_am \<Rightarrow> int \<Rightarrow> nr_rlc_pdu \<Rightarrow> int \<Rightarrow> nr_rlc_pdu list" where
  "am_inserted e k0 p k = (if k = k0 then insert_before (\<lambda>c. pdu_so c > pdu_so p) p (am_cells e k0) else am_cells e k)"

text \<open>A data PDU is discarded, or its segment is inserted and the reception actions follow.\<close>

lemma am_store_cases:
  assumes inv: "am_rx_inv e" and sn: "rlc_sn_ok (am_sn_modulus e) sn" and so: "0 \<le> so" and h: "h \<le> length buffer"
    and p_def: "p = nr_rlc_new_pdu sn so is_first is_last (drop h buffer)"
  obtains (discard) e' where "am_store_pdu e buffer poll sn so is_first is_last h = Inr (e', [])" and "am_rx_inv e'"
      and "am_cells e' = am_cells e" and "am_rx_next e' = am_rx_next e" and "am_tx_part e' = am_tx_part e"
      and "am_rx_highest_status e' = am_rx_highest_status e" and "am_marks e' = am_marks e"
      and "pdu_size p \<le> 0 \<or> am_rx_size e + pdu_size p > am_rx_maxsize e \<or> am_window_size e \<le> am_dist e sn \<or>
        segment_received_loop (am_cells e (am_dist e sn)) so (pdu_size p)"
  | (insert) e' where "am_store_pdu e buffer poll sn so is_first is_last h =
        c_bind (am_reception_actions e' sn) (\<lambda>(e, out). Inr (if poll then e\<lparr>am_status_triggered := True\<rparr> else e, out))"
      and "am_rx_inv e'" and "am_dist e sn < am_window_size e" and "0 < pdu_size p"
      and "\<not> segment_received_loop (am_cells e (am_dist e sn)) so (pdu_size p)"
      and "\<forall>k. 0 \<le> k \<and> k < am_window_size e \<longrightarrow> am_cells e' k = am_inserted e (am_dist e sn) p k"
      and "am_dist e' = am_dist e" and "am_rx_next e' = am_rx_next e" and "am_tx_part e' = am_tx_part e"
      and "am_rx_highest_status e' = am_rx_highest_status e" and "am_rx_size e' = am_rx_size e + pdu_size p"
      and "am_marks e' = am_marks e"
proof -
  let ?n = "length buffer" and ?cs = "am_cells e (am_dist e sn)"
  let ?size = "int ?n - int h"
  have core: "am_rx_core e" and nz: "\<not> cells_processed (am_cells e 0)" using inv by (simp_all add: am_rx_inv_def)
  note c = am_rx_coreD [OF core]
  have d: "0 \<le> am_dist e sn" using am_dist_range c(3) by blast
  have p: "pdu_sn p = sn" "pdu_so p = so" "pdu_size p = ?size" "pdu_data p = Some (drop h buffer)"
    using h by (simp_all add: p_def nr_rlc_new_pdu_def)
  show thesis
  proof (cases "?size \<le> 0 \<or> am_rx_size e + ?size > am_rx_maxsize e \<or> \<not> am_sn_in_recv_window e sn \<or> segment_received_loop ?cs so ?size")
    case True
    define e' where "e' = (if ?size \<le> 0 \<or> am_rx_size e + ?size > am_rx_maxsize e then am_discard_pdu e poll ?n
      else if \<not> am_sn_in_recv_window e sn
      then am_discard_pdu (am_stats (\<lambda>s. s\<lparr>rxpdu_ow_pkts := rxpdu_ow_pkts s + 1, rxpdu_ow_bytes := rxpdu_ow_bytes s + of_nat ?n\<rparr>) e) poll ?n
      else am_discard_pdu (am_stats (\<lambda>s. s\<lparr>rxpdu_dup_pkts := rxpdu_dup_pkts s + 1, rxpdu_dup_bytes := rxpdu_dup_bytes s + of_nat ?n\<rparr>) e) poll ?n)"
    have "am_store_pdu e buffer poll sn so is_first is_last h = Inr (e', [])"
      using True by (auto simp: am_store_pdu_def Let_def e'_def segment_already_received_def am_get_ok [OF core sn])
    moreover have "pdu_size p \<le> 0 \<or> am_rx_size e + pdu_size p > am_rx_maxsize e \<or> am_window_size e \<le> am_dist e sn \<or>
        segment_received_loop ?cs so (pdu_size p)"
      using True am_modulus_rx_eq [OF c(5) sn] by (auto simp: p am_sn_in_recv_window_def)
    ultimately show thesis by (intro discard [of e']) (use inv in \<open>simp_all add: e'_def am_marks_def\<close>)
  next
    case False
    have w: "am_dist e sn < am_window_size e" using False am_modulus_rx_eq [OF c(5) sn] by (simp add: am_sn_in_recv_window_def)
    let ?cs' = "insert_before (\<lambda>c. pdu_so c > pdu_so p) p ?cs"
    define e1 where "e1 = e\<lparr>am_rx := rm_upd (am_rx e) sn ?cs', am_rx_size := am_rx_size e + ?size\<rparr>"
    have e1_eq: "e\<lparr>am_rx_size := am_rx_size e + ?size, am_rx := rm_upd (am_rx e) sn ?cs'\<rparr> = e1" by (simp add: e1_def)
    have slot: "am_slot_ok sn ?cs" using am_core_slot [OF core d w] am_dist_sn [OF c(3) sn] by simp
    have cell: "am_cell_ok p" using p so False h by (simp add: am_cell_ok_def)
    note ins = am_slot_insert [OF slot p(1) cell, unfolded p(4), simplified]
    note u = am_core_upd [OF core sn w ins(1) [folded p(4)], where n = "am_rx_size e + ?size", folded e1_def]
    have add: "nr_rlc_rx_manager_add_pdu (am_rx e) p = Inr (rm_upd (am_rx e) sn ?cs')"
      using am_get_ok [OF core sn] am_put_ok [OF core sn] p by (simp add: nr_rlc_rx_manager_add_pdu_def)
    have cells: "\<forall>k. 0 \<le> k \<and> k < am_window_size e \<longrightarrow> am_cells e1 k = am_inserted e (am_dist e sn) p k"
      using u(2) by (simp add: am_inserted_def)
    have "\<not> cells_processed (am_cells e1 0)"
      using cells nz c(2) ins(2) by (auto simp: am_inserted_def)
    with u(1) have "am_rx_inv e1" by (simp add: am_rx_inv_def)
    moreover have "am_store_pdu e buffer poll sn so is_first is_last h =
        c_bind (am_reception_actions e1 sn) (\<lambda>(e, out). Inr (if poll then e\<lparr>am_status_triggered := True\<rparr> else e, out))"
      using False add e1_eq
      by (simp add: am_store_pdu_def Let_def segment_already_received_def am_get_ok [OF core sn] p_def [symmetric])
    ultimately show thesis
      by (intro insert [of e1]) (use False w cells p in \<open>simp_all add: e1_def am_marks_def\<close>)
  qed
qed

subsection \<open>The header\<close>

lemma am_poll_bits_at:
  assumes "q \<le> 8 * length buf" and "n \<le> 31"
  shows "am_poll_bits p (dec_at buf q) (int n) f =
     (if q + n \<le> 8 * length buf then f (bits_num (take n (drop q (bits_of buf)))) (dec_at buf (q + n)) else Inr (p, None))"
proof (cases "q + n \<le> 8 * length buf")
  case True
  with assms show ?thesis by (simp add: am_poll_bits_def get_bits_at)
next
  case False
  with assms obtain d where "nr_rlc_pdu_decoder_get_bits (dec_at buf q) n = Inr (- 1, d)" and "dec_error d"
    by (metis get_bits_past not_le)
  with False show ?thesis by (simp add: am_poll_bits_def)
qed

lemmas am_poll_bits_lit =
  am_poll_bits_at [of _ _ 2, simplified] am_poll_bits_at [of _ _ 12, simplified]
  am_poll_bits_at [of _ _ 16, simplified] am_poll_bits_at [of _ _ 18, simplified]

definition am_header_ok :: "int \<Rightarrow> nat \<Rightarrow> (bool \<times> bool \<times> int \<times> int \<times> nat) option \<Rightarrow> bool" where
  "am_header_ok len n h = (case h of None \<Rightarrow> True
     | Some (f, l, sn, so, h) \<Rightarrow> rlc_sn_ok (2 ^ nat len) sn \<and> 0 \<le> so \<and> (f \<longrightarrow> so = 0) \<and> h \<le> n)"

lemma am_decode_data_total:
  assumes "len = 12 \<or> len = 18" and "1 \<le> 8 * length buf"
  shows "\<exists>p h. am_decode_data len (dec_at buf 1) = Inr (p, h) \<and> am_header_ok len (length buf) h"
proof -
  note b12 = bits_num_take_bounds [of 12, simplified] and b18 = bits_num_take_bounds [of 18, simplified]
    and b16 = bits_num_take_bounds [of 16]
  have one: "nr_rlc_pdu_decoder_get_bits (dec_at buf (Suc 0)) (Suc 0) =
      Inr (bits_num (take 1 (drop 1 (bits_of buf))), dec_at buf 2)"
    using get_bits_at [of 1 1 buf] assms(2) by (simp add: numeral_2_eq_2)
  have two: "2 \<le> 8 * length buf" using assms(2) by presburger
  from assms(1) show ?thesis
  proof
    assume "len = 12"
    then show ?thesis
      using two by (auto simp: am_decode_data_def one am_poll_bits_lit Let_def rlc_sn_ok_def am_header_ok_def b12 b16)
  next
    assume "len = 18"
    then show ?thesis
      using two by (auto simp: am_decode_data_def one am_poll_bits_lit Let_def rlc_sn_ok_def am_header_ok_def b18 b16)
  qed
qed

lemma am_first_bit:
  "nr_rlc_pdu_decoder_get_bits (nr_rlc_pdu_decoder_init (b # buf)) 1 = Inr (of_bool (bit b 7), dec_at (b # buf) 1)"
proof -
  have "take 1 (bits_of (b # buf)) = [bit b 7]"
    by (simp add: bits_of_def byte_bits_def numeral_eq_Suc)
  then show ?thesis using get_bits_at [of 0 1 "b # buf"] by (simp add: decoder_init_at bits_num_def)
qed

lemma am_recv_data:
  assumes "am_cfg e" and "bit b 7"
  obtains poll h where "am_decode_data (am_sn_field_length e) (dec_at (b # buf) 1) = Inr (poll, h)"
    and "am_header_ok (am_sn_field_length e) (length (b # buf)) h"
    and "nr_rlc_entity_am_recv_pdu e (b # buf) =
      (let e = am_stats (\<lambda>s. s\<lparr>rxpdu_pkts := rxpdu_pkts s + 1, rxpdu_bytes := rxpdu_bytes s + of_nat (length (b # buf))\<rparr>) e
       in case h of
            None \<Rightarrow> Inr (am_discard_pdu e poll (length (b # buf)), [])
          | Some (is_first, is_last, sn, so, header) \<Rightarrow>
              c_bind (am_store_pdu e (b # buf) poll sn so is_first is_last header) (\<lambda>(e, out). Inr (e, map AmDeliver out)))"
proof -
  from assms(1) have "am_sn_field_length e = 12 \<or> am_sn_field_length e = 18" by (simp add: am_cfg_def)
  from am_decode_data_total [OF this, of "b # buf"] obtain poll h where
    d: "am_decode_data (am_sn_field_length e) (dec_at (b # buf) 1) = Inr (poll, h)"
      "am_header_ok (am_sn_field_length e) (length (b # buf)) h" by auto
  show thesis
    by (rule that [OF d]) (simp add: nr_rlc_entity_am_recv_pdu_def am_first_bit assms(2) d(1) Let_def del: One_nat_def split: option.split)
qed

subsection \<open>Every data PDU is handled, but one\<close>

lemma am_actions_stuck:
  assumes inv: "am_rx_inv e" and x: "rlc_sn_ok (am_sn_modulus e) x" "am_dist e x < am_window_size e" and full: "am_full e (am_dist e x)"
    and stuck: "am_stuck e x"
  shows "am_reception_actions e x = Inl NoReturn"
proof -
  let ?k0 = "am_dist e x"
  have core: "am_rx_core e" using inv by (simp add: am_rx_inv_def)
  have x0: "?k0 = 0" using stuck am_dist_0 [OF core x(1)] by (simp add: am_stuck_def)
  define e1 where "e1 = (if am_sn_compare_rx e x (am_rx_next_highest e) \<ge> 0 then e\<lparr>am_rx_next_highest := am_inc e x\<rparr> else e)"
  note h = am_new_highest [OF core x(1), folded e1_def]
  have full1: "am_sdu_full e1 x = Inr True" using am_sdu_full_eq [OF h(1), of x] x(1) full h by (simp add: am_full_def)
  have pre: "rlc_sn_ok (am_sn_modulus e1) x" "am_dist e1 x < am_window_size e1" "\<not> cells_processed (am_cells e1 (am_dist e1 x))"
    "am_sdu_full_loop (- 1) (am_cells e1 (am_dist e1 x))" using x full by (simp_all add: h am_full_def)
  obtain e2 out sdu bad n ps where r: "am_reassemble_and_deliver e1 x = Inr (e2, out)" "am_rx_core e2"
    "am_rx_highest_status e2 = am_rx_highest_status e1" "am_tx_part e2 = am_tx_part e1"
    and cells2: "\<forall>k. 0 \<le> k \<and> k < am_window_size e1 \<longrightarrow>
      am_cells e2 k = (if k = am_dist e1 x then am_mark (am_cells e1 (am_dist e1 x)) else am_cells e1 k)"
    by (rule am_reassemble_ok [OF h(1) pre])
  have w2: "am_window_size e2 = am_window_size e" using r(4) h(6) by (simp add: am_tx_part_def)
  have "cells_processed (am_mark (am_cells e 0))"
    using full x0 by (cases "am_cells e 0") (simp_all add: am_full_def am_mark_def)
  then have "\<forall>k. 0 \<le> k \<and> k < am_window_size e2 \<longrightarrow> cells_processed (am_cells e2 k)"
    using cells2 stuck unfolding h x0 w2 am_stuck_def by (metis less_le)
  with am_skip_delivered_none [OF r(2) am_rx_coreD(7) [OF r(2)]] have
    "am_skip_delivered e2 (am_rx_highest_status e2) = Inl NoReturn" by blast
  moreover have "x = am_rx_highest_status e2" using stuck r(3) h(7) by (simp add: am_stuck_def)
  ultimately show ?thesis
    unfolding am_reception_actions_def Let_def e1_def [symmetric] full1 c_bind_simps if_True r(1) split_conv by simp
qed

lemma am_stuck_inserted:
  assumes "am_rx_core e" and "am_rx_next e' = am_rx_next e" "am_rx_highest_status e' = am_rx_highest_status e"
    "am_window_size e' = am_window_size e" "rlc_sn_ok (am_sn_modulus e) x"
    and "\<forall>k. 0 \<le> k \<and> k < am_window_size e \<longrightarrow> am_cells e' k = am_inserted e (am_dist e x) p k"
  shows "am_stuck e' x \<longleftrightarrow> am_stuck e x"
  using assms am_dist_0 [OF assms(1,5)] by (auto simp: am_stuck_def am_inserted_def)

lemma am_store_total:
  assumes inv: "am_rx_inv e" and sn: "rlc_sn_ok (am_sn_modulus e) sn" and so: "0 \<le> so" and h: "h \<le> length buffer"
    and ns: "\<not> am_stuck e sn"
  shows "\<exists>e' out. am_store_pdu e buffer poll sn so is_first is_last h = Inr (e', out) \<and> am_rx_inv e' \<and> am_tx_part e' = am_tx_part e"
proof -
  obtain p where p: "p = nr_rlc_new_pdu sn so is_first is_last (drop h buffer)" by blast
  show ?thesis
  proof (cases rule: am_store_cases [OF inv sn so h p, where poll = poll, case_names discard insert])
    case (discard e')
    then show ?thesis by blast
  next
    case (insert e1)
    have core: "am_rx_core e" "am_rx_core e1" using inv insert(2) by (simp_all add: am_rx_inv_def)
    have cfg: "am_sn_modulus e1 = am_sn_modulus e" "am_window_size e1 = am_window_size e" using insert(9) by (simp_all add: am_tx_part_def)
    have ns1: "\<not> am_stuck e1 sn" using am_stuck_inserted [OF core(1) insert(8,10) cfg(2) sn insert(6)] ns by simp
    have sn1: "rlc_sn_ok (am_sn_modulus e1) sn" "am_dist e1 sn < am_window_size e1" using sn insert(3,7) cfg by simp_all
    have "\<exists>e' out. am_reception_actions e1 sn = Inr (e', out) \<and> am_rx_inv e' \<and> am_tx_part e' = am_tx_part e"
    proof (cases "am_full e1 (am_dist e1 sn)")
      case True
      obtain e' out sdu bad n ps c where r: "am_reception_actions e1 sn = Inr (e', out)" "am_rx_core e'" "am_tx_part e' = am_tx_part e1"
        "0 \<le> c" "c < am_window_size e1 \<longrightarrow> \<not> cells_processed (am_marked e1 (am_dist e1 sn) c)"
        "\<forall>k. 0 \<le> k \<and> k < am_window_size e1 \<longrightarrow>
          am_cells e' k = (if c + k < am_window_size e1 then am_marked e1 (am_dist e1 sn) (c + k) else [])"
        by (rule am_actions_full [OF insert(2) sn1 True ns1])
      moreover have "\<not> cells_processed (am_cells e' 0)" using r(4-6) am_rx_coreD(2) [OF core(2)] by simp
      ultimately show ?thesis using insert(9) by (simp add: am_rx_inv_def)
    next
      case False
      obtain e' where "am_reception_actions e1 sn = Inr (e', [])" "am_rx_core e'" "am_rx e' = am_rx e1" "am_rx_next e' = am_rx_next e1"
        "am_tx_part e' = am_tx_part e1" by (rule am_actions_not_full [OF core(2) sn1(1) False])
      then show ?thesis using insert(2,9) by (simp add: am_rx_inv_def am_cells_def)
    qed
    then show ?thesis using insert(1) by auto
  qed
qed

subsection \<open>Every SDU is delivered once\<close>

text \<open>
  SDUs are counted from the start of the connection: \<open>src n\<close> is the SDU number \<open>n\<close>, and its sequence number is \<open>n\<close>
  modulo the number of sequence numbers. \<open>N\<close> is the number of the SDU at the start of the window. The
  SDUs that were delivered are those below \<open>N\<close> and those marked in the window.
\<close>

definition am_given :: "nr_rlc_entity_am \<Rightarrow> int \<Rightarrow> int set" where
  "am_given e N = {n. 0 \<le> n \<and> n < N} \<union> {n. N \<le> n \<and> n < N + am_window_size e \<and> cells_processed (am_cells e (n - N))}"

definition am_window_ok :: "(int \<Rightarrow> byte list) \<Rightarrow> int \<Rightarrow> int \<Rightarrow> nr_rlc_pdu list \<Rightarrow> bool" where
  "am_window_ok src N k cs \<longleftrightarrow>
     \<not> cells_processed cs \<longrightarrow> \<not> am_sdu_full_loop (- 1) cs \<and> (\<forall>p \<in> set cs. segment_of (src (N + k)) p)"

definition am_src_inv :: "(int \<Rightarrow> byte list) \<Rightarrow> int \<Rightarrow> nr_rlc_entity_am \<Rightarrow> bool" where
  "am_src_inv src N e \<longleftrightarrow> am_rx_inv e \<and> 0 \<le> N \<and> am_rx_next e = N mod am_sn_modulus e \<and>
     (\<forall>n. int (length (src n)) \<le> NR_SDU_MAX) \<and>
     (\<forall>k. 0 \<le> k \<and> k < am_window_size e \<longrightarrow> am_window_ok src N k (am_cells e k))"

lemma am_src_inv_frame [simp]:
  "am_src_inv src N (am_stats g e) = am_src_inv src N e" "am_src_inv src N (e\<lparr>am_status_triggered := b\<rparr>) = am_src_inv src N e"
  "am_given (am_stats g e) = am_given e" "am_given (e\<lparr>am_status_triggered := b\<rparr>) = am_given e"
  "am_src_inv src N (am_discard_pdu e poll m) = am_src_inv src N e" "am_given (am_discard_pdu e poll m) = am_given e"
  by (simp_all add: am_src_inv_def am_given_def am_discard_pdu_def am_stats_def fun_eq_iff am_rx_inv_def)

text \<open>The number of a sequence number, near the window.\<close>

lemma am_dist_count:
  assumes "am_rx_core e" and "am_rx_next e = N mod am_sn_modulus e" and "N - am_window_size e \<le> n" "n < N + am_window_size e"
    and "am_dist e (n mod am_sn_modulus e) < am_window_size e"
  shows "n = N + am_dist e (n mod am_sn_modulus e)"
proof -
  note c = am_rx_coreD [OF assms(1)]
  have d: "am_dist e (n mod am_sn_modulus e) = (n - N) mod am_sn_modulus e"
    by (simp add: am_dist_def assms(2) mod_simps)
  show ?thesis
  proof (cases "N \<le> n")
    case True
    then have "(n - N) mod am_sn_modulus e = n - N" using assms(4) c by (intro mod_pos_pos_trivial) simp_all
    then show ?thesis using d by simp
  next
    case False
    have "(n - N) mod am_sn_modulus e = (n - N + am_sn_modulus e) mod am_sn_modulus e" by simp
    also have "\<dots> = n - N + am_sn_modulus e" using False assms(3) c by (intro mod_pos_pos_trivial) simp_all
    finally show ?thesis using d assms(3,5) c(1) by simp
  qed
qed

lemma am_given_step:
  assumes core: "0 < am_window_size e" and w: "am_window_size e' = am_window_size e" and c: "0 \<le> c" "c \<le> am_window_size e"
    and N: "0 \<le> N" and k0: "0 \<le> k0" "k0 < am_window_size e"
    and pr: "\<forall>k. 0 \<le> k \<and> k < am_window_size e \<longrightarrow> cells_processed (f k) = (k = k0 \<or> cells_processed (am_cells e k))"
    and lead: "\<forall>k. 0 \<le> k \<and> k < c \<longrightarrow> cells_processed (f k)"
    and cells: "\<forall>k. 0 \<le> k \<and> k < am_window_size e \<longrightarrow> am_cells e' k = (if c + k < am_window_size e then f (c + k) else [])"
  shows "am_given e' (N + c) = insert (N + k0) (am_given e N)"
proof (rule set_eqI)
  fix n
  let ?w = "am_window_size e"
  show "n \<in> am_given e' (N + c) \<longleftrightarrow> n \<in> insert (N + k0) (am_given e N)"
  proof (cases "N \<le> n \<and> n < N + ?w")
    case True
    have f: "cells_processed (f (n - N)) = (n = N + k0 \<or> cells_processed (am_cells e (n - N)))" using pr True by auto
    show ?thesis
    proof (cases "n < N + c")
      case True': True
      then have "cells_processed (f (n - N))" using lead True by simp
      then show ?thesis using True True' N f by (auto simp: am_given_def)
    next
      case False
      then have "am_cells e' (n - (N + c)) = f (n - N)" using cells True c by simp
      then show ?thesis using True False N w f c by (auto simp: am_given_def)
    qed
  next
    case False
    have "am_cells e' (n - (N + c)) = []" if "N + ?w \<le> n" "n < N + c + ?w" using cells that c by simp
    then show ?thesis using False c N k0 w by (auto simp: am_given_def)
  qed
qed

text \<open>The inserted segment is one of its SDU; the SDU may be complete now.\<close>

lemma am_inserted_processed:
  assumes "am_rx_core e" and "rlc_sn_ok (am_sn_modulus e) sn" "am_dist e sn < am_window_size e" and "am_cell_ok p" "pdu_sn p = sn"
    and "pdu_data p \<noteq> None"
  shows "cells_processed (am_inserted e (am_dist e sn) p k) = cells_processed (am_cells e k)"
proof (cases "k = am_dist e sn")
  case True
  note c = am_rx_coreD [OF assms(1)]
  have "0 \<le> am_dist e sn" using am_dist_range c(3) by blast
  then have "am_slot_ok sn (am_cells e (am_dist e sn))" using am_core_slot [OF assms(1) _ assms(3)] am_dist_sn [OF c(3) assms(2)] by simp
  from am_slot_insert(2) [OF this assms(5,4,6)] show ?thesis using True by (simp add: am_inserted_def)
qed (simp add: am_inserted_def)

text \<open>What the reception of a segment of the SDU \<open>n\<close> does to the count.\<close>

definition am_recv_result :: "(int \<Rightarrow> byte list) \<Rightarrow> int \<Rightarrow> int \<Rightarrow> nr_rlc_entity_am \<Rightarrow> nr_rlc_entity_am \<Rightarrow> byte list list \<Rightarrow> int \<Rightarrow> bool" where
  "am_recv_result src n N e e' out N' \<longleftrightarrow> am_src_inv src N' e' \<and> N \<le> N' \<and> N' \<le> N + am_window_size e \<and> am_tx_part e' = am_tx_part e \<and>
     ((out = [] \<and> am_given e' N' = am_given e N) \<or>
      (out = [src n] \<and> n \<notin> am_given e N \<and> am_given e' N' = insert n (am_given e N)))"

text \<open>The state \<open>e1\<close> in which the segment \<open>p\<close> of the SDU \<open>n\<close> was inserted.\<close>

definition am_took :: "(int \<Rightarrow> byte list) \<Rightarrow> int \<Rightarrow> int \<Rightarrow> nr_rlc_entity_am \<Rightarrow> int \<Rightarrow> nr_rlc_pdu \<Rightarrow> nr_rlc_entity_am \<Rightarrow> bool" where
  "am_took src n N e sn p e1 \<longleftrightarrow> am_rx_inv e1 \<and> am_rx_core e \<and> am_src_inv src N e \<and>
     rlc_sn_ok (am_sn_modulus e) sn \<and> am_dist e sn < am_window_size e \<and> n = N + am_dist e sn \<and>
     (\<forall>k. 0 \<le> k \<and> k < am_window_size e \<longrightarrow> am_cells e1 k = am_inserted e (am_dist e sn) p k) \<and>
     segment_of (src n) p \<and> am_cell_ok p \<and> pdu_sn p = sn \<and>
     am_dist e1 = am_dist e \<and> am_rx_next e1 = am_rx_next e \<and> am_tx_part e1 = am_tx_part e"

lemma am_tookD:
  assumes "am_took src n N e sn p e1"
  shows "am_sn_modulus e1 = am_sn_modulus e" "am_window_size e1 = am_window_size e" "am_rx_core e1" "0 \<le> am_dist e sn"
    and "0 \<le> k \<Longrightarrow> k < am_window_size e \<Longrightarrow> cells_processed (am_cells e1 k) = cells_processed (am_cells e k)"
    and "0 \<le> k \<Longrightarrow> k < am_window_size e \<Longrightarrow> am_window_ok src N k (am_cells e k)"
    and "\<not> cells_processed (am_cells e1 (am_dist e sn)) \<Longrightarrow> \<forall>q \<in> set (am_cells e1 (am_dist e sn)). segment_of (src n) q"
proof -
  note t = assms [unfolded am_took_def]
  show cfg: "am_sn_modulus e1 = am_sn_modulus e" "am_window_size e1 = am_window_size e" using t by (simp_all add: am_tx_part_def)
  show "am_rx_core e1" using t by (simp add: am_rx_inv_def)
  show k0: "0 \<le> am_dist e sn" using t am_dist_range am_rx_coreD(3) [of e] by blast
  have data: "pdu_data p \<noteq> None" using t by (simp add: segment_of_def)
  show pr: "cells_processed (am_cells e1 k) = cells_processed (am_cells e k)" if "0 \<le> k" "k < am_window_size e" for k
    using t that am_inserted_processed [of e sn p k] data by auto
  show wok: "am_window_ok src N k (am_cells e k)" if "0 \<le> k" "k < am_window_size e" for k
    using t that by (simp add: am_src_inv_def)
  show "\<forall>q \<in> set (am_cells e1 (am_dist e sn)). segment_of (src n) q" if "\<not> cells_processed (am_cells e1 (am_dist e sn))"
    using that wok [OF k0] pr [OF k0] t k0 by (auto simp: am_window_ok_def am_inserted_def)
qed

lemma am_actions_src_full:
  assumes took: "am_took src n N e sn p e1" and full: "am_full e1 (am_dist e1 sn)" and ns: "\<not> am_stuck e1 sn"
  shows "\<exists>e' out N'. am_reception_actions e1 sn = Inr (e', out) \<and> am_recv_result src n N e e' out N'"
proof -
  let ?k0 = "am_dist e sn" and ?w = "am_window_size e" and ?m = "am_sn_modulus e"
  note t = took [unfolded am_took_def] and d = am_tookD [OF took]
  have core: "am_rx_core e" using t by simp
  note c = am_rx_coreD [OF core]
  have inv: "am_rx_inv e1" and sn1: "rlc_sn_ok (am_sn_modulus e1) sn" "am_dist e1 sn < am_window_size e1" "am_dist e1 = am_dist e"
    using t d(1,2) by simp_all
  obtain e' out sdu bad n' ps a where r: "am_reception_actions e1 sn = Inr (e', out)"
    "am_reassemble_loop [] False (am_rx_size e1) (am_cells e1 (am_dist e1 sn)) = Inr (sdu, bad, n', ps)"
    "out = (if bad then [] else [sdu])" "am_rx_core e'" "am_tx_part e' = am_tx_part e1" "0 \<le> a" "a \<le> am_window_size e1"
    "am_rx_next e' = (am_rx_next e1 + a) mod am_sn_modulus e1"
    and lead: "\<forall>k. 0 \<le> k \<and> k < a \<longrightarrow> cells_processed (am_marked e1 (am_dist e1 sn) k)"
    and stop: "a < am_window_size e1 \<longrightarrow> \<not> cells_processed (am_marked e1 (am_dist e1 sn) a)"
    and cells': "\<forall>k. 0 \<le> k \<and> k < am_window_size e1 \<longrightarrow>
        am_cells e' k = (if a + k < am_window_size e1 then am_marked e1 (am_dist e1 sn) (a + k) else [])"
    by (rule am_actions_full [OF inv sn1(1,2) full ns])
  have w': "am_window_size e' = ?w" "am_sn_modulus e' = ?m" "am_tx_part e' = am_tx_part e" using r(5) t d(1,2) by (simp_all add: am_tx_part_def)
  have np: "\<not> cells_processed (am_cells e1 ?k0)" and fl: "am_sdu_full_loop (- 1) (am_cells e1 ?k0)"
    using full sn1(3) by (simp_all add: am_full_def)
  have slot: "am_slot_ok sn (am_cells e1 ?k0)" using am_core_slot [OF d(3,4)] sn1 am_dist_sn [OF c(3)] d(1,2) t by simp
  then have "\<forall>q \<in> set (am_cells e1 ?k0). pdu_sn q = sn \<and> segment_of (src n) q" using d(7) [OF np] by (simp add: am_slot_ok_def)
  from am_reassemble_segments [OF this _ fl r(2) [unfolded sn1(3)]] t r(3) have out: "out = [src n]" by (simp add: am_src_inv_def)
  have mk: "cells_processed (am_marked e1 ?k0 k) = (k = ?k0 \<or> cells_processed (am_cells e k))" if "0 \<le> k" "k < ?w" for k
    using that d(5) am_slot_mark(2) [OF slot np fl] by (simp add: am_marked_def)
  have given: "am_given e' (N + a) = insert (N + ?k0) (am_given e N)"
    by (rule am_given_step [where f = "am_marked e1 ?k0"])
      (use c w' r(6,7) d(1,2,4) t mk lead cells' sn1 in \<open>simp_all add: am_src_inv_def\<close>)
  have "am_window_ok src (N + a) k (am_cells e' k)" if k: "0 \<le> k" "k < ?w" for k
  proof (cases "a + k < ?w \<and> a + k \<noteq> ?k0")
    case True
    then have "am_cells e' k = am_cells e (a + k)" using k r(6) cells' t d(1,2) sn1 by (simp add: am_marked_def am_inserted_def)
    then show ?thesis using d(6) [of "a + k"] True k r(6) by (simp add: am_window_ok_def add.assoc)
  next
    case False
    then have "am_cells e' k = [] \<or> cells_processed (am_cells e' k)"
      using k r(6) cells' d(1,2) sn1 mk [of "a + k"] by auto
    then show ?thesis by (auto simp: am_window_ok_def)
  qed
  moreover have "\<not> cells_processed (am_cells e' 0)" using stop cells' d(2) c(2) r(6) by simp
  moreover have "am_rx_next e' = (N + a) mod ?m" using r(8) t d(1) by (simp add: am_src_inv_def mod_simps)
  ultimately have "am_src_inv src (N + a) e'" using r(4,6) t w' by (simp add: am_src_inv_def am_rx_inv_def)
  moreover have "n \<notin> am_given e N" using t d(4,5) np by (simp add: am_given_def)
  ultimately have "am_recv_result src n N e e' out (N + a)"
    using given t w'(3) r(6,7) d(2) out by (simp add: am_recv_result_def)
  then show ?thesis using r(1) by blast
qed

lemma am_actions_src_part:
  assumes took: "am_took src n N e sn p e1" and nf: "\<not> am_full e1 (am_dist e1 sn)"
  shows "\<exists>e' out N'. am_reception_actions e1 sn = Inr (e', out) \<and> am_recv_result src n N e e' out N'"
proof -
  let ?k0 = "am_dist e sn" and ?w = "am_window_size e"
  note t = took [unfolded am_took_def] and d = am_tookD [OF took]
  have core: "am_rx_core e" and sn1: "rlc_sn_ok (am_sn_modulus e1) sn" using t d(1) by simp_all
  obtain e' where r: "am_reception_actions e1 sn = Inr (e', [])" "am_rx_core e'" "am_rx e' = am_rx e1" "am_rx_next e' = am_rx_next e1"
    "am_tx_part e' = am_tx_part e1" by (rule am_actions_not_full [OF d(3) sn1 nf])
  have ce: "am_cells e' = am_cells e1" using r(3,4) by (simp add: am_cells_def fun_eq_iff)
  have w': "am_window_size e' = ?w" "am_sn_modulus e' = am_sn_modulus e" "am_tx_part e' = am_tx_part e" using r(5) t d(1,2) by (simp_all add: am_tx_part_def)
  have "am_window_ok src N k (am_cells e' k)" if k: "0 \<le> k" "k < ?w" for k
  proof (cases "k = ?k0")
    case True
    then show ?thesis using nf d(7) t ce by (auto simp: am_window_ok_def am_full_def)
  next
    case False
    then show ?thesis using d(6) [OF k] t k ce by (simp add: am_inserted_def)
  qed
  moreover have "am_given e' N = am_given e N" using d(5) ce w' by (auto simp: am_given_def)
  moreover have "\<not> cells_processed (am_cells e' 0)" using t ce by (simp only: am_rx_inv_def) simp
  ultimately have "am_recv_result src n N e e' [] N"
    using r t w' am_rx_coreD(2) [OF core] by (simp add: am_recv_result_def am_src_inv_def am_rx_inv_def)
  then show ?thesis using r(1) by blast
qed

text \<open>A PDU that carries a segment of an SDU near the window.\<close>

lemma am_store_src:
  assumes src: "am_src_inv src N e" and n: "N - am_window_size e \<le> n" "n < N + am_window_size e"
    and sn: "sn = n mod am_sn_modulus e" and so: "0 \<le> so" and h: "h \<le> length buffer"
    and p: "p = nr_rlc_new_pdu sn so is_first is_last (drop h buffer)" and seg: "segment_of (src n) p"
  shows "(\<exists>e' out N'. am_store_pdu e buffer poll sn so is_first is_last h = Inr (e', out) \<and> am_recv_result src n N e e' out N') \<or>
    (am_stuck e sn \<and> am_store_pdu e buffer poll sn so is_first is_last h = Inl NoReturn)"
proof -
  have inv: "am_rx_inv e" and core: "am_rx_core e" using src by (simp_all add: am_src_inv_def am_rx_inv_def)
  note c = am_rx_coreD [OF core]
  have sn_ok: "rlc_sn_ok (am_sn_modulus e) sn" using sn c(3) by (simp add: rlc_sn_ok_def)
  show ?thesis
  proof (cases rule: am_store_cases [OF inv sn_ok so h p, where poll = poll, case_names discard insert])
    case (discard e')
    then have "am_recv_result src n N e e' [] N"
      using src c(2) by (auto simp: am_recv_result_def am_src_inv_def am_given_def am_tx_part_def)
    with discard(1) show ?thesis by blast
  next
    case (insert e1)
    have cell: "am_cell_ok p" "pdu_sn p = sn" using p so insert(4) h by (simp_all add: am_cell_ok_def nr_rlc_new_pdu_def)
    have "n = N + am_dist e sn" using am_dist_count [OF core _ n] src insert(3) sn by (simp add: am_src_inv_def)
    then have took: "am_took src n N e sn p e1" using insert core src sn_ok seg cell by (simp add: am_took_def)
    have st1: "am_stuck e1 sn = am_stuck e sn" by (rule am_stuck_inserted [OF core insert(8,10) am_tookD(2) [OF took] sn_ok insert(6)])
    have sn1: "rlc_sn_ok (am_sn_modulus e1) sn" "am_dist e1 sn < am_window_size e1"
      using sn_ok insert(3,7) am_tookD(1,2) [OF took] by simp_all
    show ?thesis
    proof (cases "am_stuck e1 sn \<and> am_full e1 (am_dist e1 sn)")
      case True
      then have "am_reception_actions e1 sn = Inl NoReturn" using am_actions_stuck [OF insert(2) sn1] by blast
      then show ?thesis using insert(1) True st1 by simp
    next
      case False
      then obtain e' out N' where "am_reception_actions e1 sn = Inr (e', out)" "am_recv_result src n N e e' out N'"
        using am_actions_src_full [OF took] am_actions_src_part [OF took] insert(7) by metis
      then show ?thesis using insert(1)
        by (intro disjI1 exI [of _ "if poll then e'\<lparr>am_status_triggered := True\<rparr> else e'"] exI [of _ out] exI [of _ N']) (simp add: am_recv_result_def)
    qed
  qed
qed

end
