(* ===== verification/Rlc_Am_Emit.thy ===== *)
theory Rlc_Am_Emit
  imports Rlc_Am_Tx Rlc_Am_Recv
begin

text \<open>
  The data PDUs of the acknowledged mode: their layout, the receiver reads back the header that the sender
  writes, and sending keeps the invariant of the sending side.
\<close>

subsection \<open>The layout of a data PDU\<close>

definition am_fields :: "int \<Rightarrow> bool \<Rightarrow> bool \<Rightarrow> bool \<Rightarrow> int \<Rightarrow> int \<Rightarrow> (int \<times> nat) list" where
  "am_fields len p f l sn so =
     [(1, 1), (of_bool p, 1), (1 - of_bool f, 1), (1 - of_bool l, 1)] @ (if len = 18 then [(0, 2)] else []) @
     [(sn, nat len)] @ (if \<not> f then [(so, 16)] else [])"

definition am_header_size :: "int \<Rightarrow> bool \<Rightarrow> nat" where
  "am_header_size len f = 2 + (if len = 18 then 1 else 0) + (if \<not> f then 2 else 0)"

lemma am_compute_header_size: "am_compute_pdu_header_size e s = int (am_header_size (am_sn_field_length e) (as_is_first s))"
  by (simp add: am_compute_pdu_header_size_def am_header_size_def)

lemma length_am_fields:
  "len = 12 \<or> len = 18 \<Longrightarrow> length (field_bits (am_fields len p f l sn so)) = 8 * am_header_size len f"
  by (auto simp: am_fields_def am_header_size_def)

lemma am_fields_small: "len = 12 \<or> len = 18 \<Longrightarrow> \<forall>(v, n) \<in> set (am_fields len p f l sn so). n \<le> 31"
  by (auto simp: am_fields_def)

lemma am_serialize_fields:
  "am_serialize_sdu e s buffer p =
     c_bind (am_sdu e s) (\<lambda>d.
     c_bind (put_fields (nr_rlc_pdu_encoder_init buffer)
              (am_fields (am_sn_field_length e) False (as_is_first s) (as_is_last s) (sdu_sn d) (as_so s))) (\<lambda>enc.
     c_bind (buf_read (sdu_data d) (as_so s) (as_size s)) (\<lambda>data.
     c_bind (buf_write (enc_buffer enc) (int (enc_byte enc)) data) (\<lambda>buffer.
     c_bind (if p then include_poll e buffer else Inr (e, buffer)) (\<lambda>(e, buffer).
     Inr (int (enc_byte enc) + as_size s, buffer, e))))))"
  by (simp add: am_serialize_sdu_def am_fields_def c_bind_assoc cong: c_bind_cong split: if_split)

text \<open>The poll bit is put into a header that has none.\<close>

lemma byte_bits_poll: "byte_bits (x OR 0x40) = (byte_bits x)[1 := True]"
  by (simp add: byte_bits_def numeral_eq_Suc bit_simps)

lemma field_bits_poll:
  assumes "bits_of h = field_bits (am_fields len False f l sn so)" and "h \<noteq> []"
  shows "bits_of (h[0 := h ! 0 OR 0x40]) = field_bits (am_fields len True f l sn so)"
proof -
  obtain x h' where h: "h = x # h'" using assms(2) by (cases h) simp_all
  have "bits_of (h[0 := h ! 0 OR 0x40]) = (bits_of h)[1 := True]"
    by (simp add: h byte_bits_poll list_update_append1 del: One_nat_def)
  also have "\<dots> = field_bits (am_fields len True f l sn so)"
    unfolding assms(1) by (simp add: am_fields_def num_bits_def)
  finally show ?thesis .
qed

lemma am_serialize_layout:
  assumes len: "am_sn_field_length e = 12 \<or> am_sn_field_length e = 18" and d: "am_sdu e s = Inr d"
    and inside: "0 \<le> as_so s" "0 \<le> as_size s" "as_so s + as_size s \<le> int (length (sdu_data d))"
    and room: "am_compute_pdu_header_size e s + as_size s \<le> int (length buf)"
  obtains hdr e' where "am_serialize_sdu e s buf p = Inr (am_compute_pdu_header_size e s + as_size s,
       hdr @ take (nat (as_size s)) (drop (nat (as_so s)) (sdu_data d)) @ drop (nat (am_compute_pdu_header_size e s + as_size s)) buf, e')"
    and "bits_of hdr = field_bits (am_fields (am_sn_field_length e) p (as_is_first s) (as_is_last s) (sdu_sn d) (as_so s))"
    and "am_tx_view e' = am_tx_view e" and "am_rx_part e' = am_rx_part e"
proof -
  let ?len = "am_sn_field_length e" and ?f = "as_is_first s" and ?l = "as_is_last s"
  define n where "n = am_header_size ?len ?f"
  define m where "m = nat (as_size s)"
  define fs where "fs = am_fields ?len False ?f ?l (sdu_sn d) (as_so s)"
  have seg: "0 \<le> as_so s" "as_size s = int m" "as_so s + int m \<le> int (length (sdu_data d))"
    using inside by (simp_all add: m_def)
  have hs: "am_compute_pdu_header_size e s = int n" by (simp add: am_compute_header_size n_def)
  have nb: "n + m \<le> length buf" using room by (simp add: hs seg(2))
  have lfs: "length (field_bits fs) = 8 * n" by (simp add: fs_def n_def length_am_fields [OF len])
  have npos: "0 < n" by (simp add: n_def am_header_size_def)
  obtain enc where enc: "put_fields (nr_rlc_pdu_encoder_init buf) fs = Inr enc" "enc_holds buf (field_bits fs) enc"
    by (rule put_fields_holds [OF enc_holds_init [of buf], of fs]) (use lfs nb am_fields_small [OF len] in \<open>simp_all add: fs_def\<close>)
  note al = enc_holds_aligned [OF enc(2) lfs]
  define dat where "dat = take m (drop (nat (as_so s)) (sdu_data d))"
  have ld: "length dat = m" using seg by (simp add: dat_def)
  have rdd: "buf_read (sdu_data d) (as_so s) (int m) = Inr dat"
    using seg by (simp add: buf_read_def dat_def)
  have "drop (n + m) (enc_buffer enc) = drop m (drop n (enc_buffer enc))" by (simp add: add.commute)
  then have "drop (n + m) (enc_buffer enc) = drop (n + m) buf" by (simp add: al(6) add.commute)
  then have wr: "buf_write (enc_buffer enc) (int n) dat = Inr (take n (enc_buffer enc) @ dat @ drop (n + m) buf)"
    using nb ld al(4) by (simp add: buf_write_def)
  define h0 where "h0 = take n (enc_buffer enc)"
  have h0: "bits_of h0 = field_bits fs" "h0 \<noteq> []" using al npos nb by (auto simp: h0_def)
  define hdr where "hdr = (if p then h0[0 := h0 ! 0 OR 0x40] else h0)"
  define e' where "e' = (if p then e\<lparr>am_pdu_without_poll := 0, am_byte_without_poll := 0,
            am_poll_sn := c_rem (am_tx_next e - 1 + am_sn_modulus e) (am_sn_modulus e), am_t_poll_retransmit_start := am_t_current e\<rparr> else e)"
  have poll: "include_poll e (h0 @ xs) = Inr (e', h0[0 := h0 ! 0 OR 0x40] @ xs)" if p for xs
    using that h0(2) by (simp add: include_poll_def e'_def nth_append list_update_append1)
  have "am_serialize_sdu e s buf p = Inr (int n + int m, hdr @ dat @ drop (n + m) buf, e')"
    unfolding am_serialize_fields d c_bind_simps fs_def [symmetric] enc(1) seg(2) rdd al(1) wr h0_def [symmetric]
    using poll by (cases p) (simp_all add: hdr_def e'_def)
  moreover have "bits_of hdr = field_bits (am_fields ?len p ?f ?l (sdu_sn d) (as_so s))"
    using field_bits_poll [of h0 ?len ?f ?l "sdu_sn d" "as_so s"] h0 by (cases p) (simp_all add: hdr_def fs_def)
  moreover have "am_tx_view e' = am_tx_view e" "am_rx_part e' = am_rx_part e"
    by (simp_all add: e'_def am_tx_view_def am_rx_part_def)
  moreover have "nat (am_compute_pdu_header_size e s + as_size s) = n + m" by (simp add: hs seg(2))
  ultimately show thesis by (intro that [of hdr e']) (simp_all add: hs seg(2) dat_def)
qed

subsection \<open>The receiver reads the header back\<close>

lemma am_header_read:
  assumes len: "len = 12 \<or> len = 18" and hdr: "bits_of hdr = field_bits (am_fields len p f l sn so)"
    and sn: "rlc_sn_ok (2 ^ nat len) sn" and so: "f \<and> so = 0 \<or> \<not> f \<and> 0 < so \<and> so < 2 ^ 16"
  shows "nr_rlc_pdu_decoder_get_bits (nr_rlc_pdu_decoder_init (hdr @ dat)) 1 = Inr (1, dec_at (hdr @ dat) 1) \<and>
    am_decode_data len (dec_at (hdr @ dat) 1) = Inr (p, Some (f, l, sn, so, am_header_size len f))"
proof -
  define buf where "buf = hdr @ dat"
  have lh: "length hdr = am_header_size len f" using length_am_fields [OF len, of p f l sn so] hdr by (metis length_bits_of mult_cancel1 zero_neq_numeral)
  have bits: "bits_of buf = field_bits (am_fields len p f l sn so) @ bits_of dat" and lb: "am_header_size len f \<le> length buf"
    by (simp_all add: hdr buf_def lh)
  have tb: "take_bit (nat len) sn = sn" "take_bit 16 so = so"
    using sn so by (auto simp: rlc_sn_ok_def take_bit_int_eq_self)
  have flag: "num_bits (1 - of_bool b) (Suc 0) = [\<not> b]" "num_bits (of_bool b) (Suc 0) = [b]" "num_bits 1 (Suc 0) = [True]" for b
    by (simp_all add: num_bits_def)
  have two: "2 \<le> length buf" using lb by (simp add: am_header_size_def)
  have g0: "nr_rlc_pdu_decoder_get_bits (dec_at buf 0) 1 = Inr (1, dec_at buf 1)"
    using get_bits_at [of 0 1 buf] two by (simp add: bits am_fields_def flag bits_num_def)
  have g1: "nr_rlc_pdu_decoder_get_bits (dec_at buf (Suc 0)) (Suc 0) = Inr (of_bool p, dec_at buf 2)"
    using get_bits_at [of 1 1 buf] two by (simp add: bits am_fields_def flag bits_num_def numeral_2_eq_2)
  have si: "bits_num (take 2 (drop 2 (bits_of buf))) = of_bool (\<not> f) * 2 + of_bool (\<not> l)"
    by (simp add: bits am_fields_def flag bits_num_flags [symmetric] numeral_2_eq_2)
  from len have "am_decode_data len (dec_at buf 1) = Inr (p, Some (f, l, sn, so, am_header_size len f))"
  proof
    assume l12: "len = 12"
    have "bits_num (take 12 (drop 4 (bits_of buf))) = sn"
      using tb l12 by (simp add: bits am_fields_def flag take_app drop_app bits_num_num_bits numeral_eq_Suc)
    moreover have "bits_num (take 16 (drop 16 (bits_of buf))) = so" if "\<not> f"
      using that tb l12 by (simp add: bits am_fields_def flag take_app drop_app bits_num_num_bits numeral_eq_Suc)
    ultimately show ?thesis
      using lb two si l12 so
      by (cases f; cases l; cases p)
        (auto simp: am_decode_data_def g1 am_poll_bits_lit Let_def am_header_size_def)
  next
    assume l18: "len = 18"
    have "bits_num (take 18 (drop 6 (bits_of buf))) = sn"
      using tb l18 by (simp add: bits am_fields_def flag take_app drop_app bits_num_num_bits numeral_eq_Suc)
    moreover have "bits_num (take 16 (drop 24 (bits_of buf))) = so" if "\<not> f"
      using that tb l18 by (simp add: bits am_fields_def flag take_app drop_app bits_num_num_bits numeral_eq_Suc)
    ultimately show ?thesis
      using lb two si l18 so
      by (cases f; cases l; cases p)
        (auto simp: am_decode_data_def g1 am_poll_bits_lit Let_def am_header_size_def)
  qed
  with g0 show ?thesis by (simp add: buf_def decoder_init_at)
qed

subsection \<open>Sending keeps the invariant\<close>

lemma am_list_add_ok:
  assumes "am_mem_ok e M" and "set l \<subseteq> set_mset M" and "s \<in># M"
  shows "\<exists>l'. nr_rlc_tx_sdu_segment_list_add e l s = Inr l' \<and> mset l' = add_mset s (mset l)"
  using assms(2)
proof (induction l)
  case (Cons c cs)
  then have "c \<in># M" by simp
  then obtain dc where "am_sdu e c = Inr dc" by (rule am_sdu_ok [OF assms(1)])
  moreover obtain d where "am_sdu e s = Inr d" by (rule am_sdu_ok [OF assms(1,3)])
  ultimately show ?case using Cons by auto
qed simp

lemma put_in_wait_list_ok:
  assumes mem: "am_mem_ok e M" and w: "set (am_wait_list e) \<subseteq> set_mset M" and s: "s \<in># M"
  obtains l where "put_in_wait_list e s = Inr (e\<lparr>am_wait_list := l\<rparr>)" and "mset l = add_mset s (mset (am_wait_list e))"
proof (cases "am_wait_list e = []")
  case False
  then have "last (am_wait_list e) \<in># M" using w by auto
  then obtain de where "am_sdu e (last (am_wait_list e)) = Inr de" by (rule am_sdu_ok [OF mem])
  moreover obtain d where "am_sdu e s = Inr d" by (rule am_sdu_ok [OF mem s])
  moreover obtain l where l: "nr_rlc_tx_sdu_segment_list_add e (am_wait_list e) s = Inr l" "mset l = add_mset s (mset (am_wait_list e))"
    using am_list_add_ok [OF mem w s] by blast
  moreover define b where "b \<longleftrightarrow> (let cmp = am_sn_compare_tx e (sdu_sn d) (sdu_sn de)
    in cmp > 0 \<or> (cmp = 0 \<and> as_so s > as_so (last (am_wait_list e))))"
  ultimately have "put_in_wait_list e s = Inr (e\<lparr>am_wait_list := if b then am_wait_list e @ [s] else l\<rparr>)"
    using False by (simp add: put_in_wait_list_def Let_def)
  then show thesis by (rule that) (simp add: l(2))
next
  case True
  then show thesis by (intro that [of "[s]"]) (simp_all add: put_in_wait_list_def)
qed

text \<open>A segment that is cut fits, and so does the rest.\<close>

lemma am_resegment_ok:
  assumes mem: "am_mem_ok e (add_mset s M)" and sz: "am_compute_pdu_header_size e s < sz" "sz < am_compute_pdu_header_size e s + as_size s"
  obtains t u e' where "am_resegment s e sz = Inr (t, u, e')" and "am_mem_ok e' (add_mset t (add_mset u M))"
    and "am_compute_pdu_header_size e t + as_size t = sz" and "am_rx_part e' = am_rx_part e" and "am_lists e' = am_lists e"
    and "am_common e' = am_common e"
proof -
  obtain d where d: "am_sdu e s = Inr d" "am_store e (as_sdu s) = Some d" "seg_fits d s"
    by (rule am_sdu_ok [OF mem, of s]) simp
  define h where "h = am_compute_pdu_header_size e s"
  define over where "over = h + as_size s - sz"
  define t where "t = s\<lparr>as_size := as_size s - over, as_is_last := False\<rparr>"
  define u where "u = s\<lparr>as_size := over, as_so := as_so t + as_size t, as_is_first := False\<rparr>"
  let ?d = "d\<lparr>sdu_ref_count := sdu_ref_count d + 1\<rparr>"
  define e' where "e' = am_put_sdu e s ?d"
  have b: "0 < over" "over < as_size s" using sz by (simp_all add: over_def h_def)
  have hd: "am_compute_pdu_header_size e' x = am_compute_pdu_header_size e x" for x
    by (simp add: am_compute_pdu_header_size_def e'_def)
  have "am_compute_pdu_header_size e t = h" by (simp add: am_compute_pdu_header_size_def t_def h_def)
  then have size: "am_compute_pdu_header_size e t + as_size t = sz" by (simp add: t_def over_def)
  have ok: "segs_ok (am_store e) (add_mset s M)" using mem by (simp add: am_mem_ok_def)
  have fits: "seg_fits d t" "seg_fits d u" using d(3) b by (auto simp: seg_fits_def t_def u_def)
  have "segs_ok (am_store e') (add_mset t (add_mset u M))"
    using segs_ok_cut [OF ok d(2), of t u] fits by (simp add: e'_def am_put_sdu_def t_def u_def)
  moreover have "am_store e' = (am_store e)(as_sdu s \<mapsto> ?d)" "am_fresh e' = am_fresh e" "am_tx_size e' = am_tx_size e"
    "am_tx_maxsize e' = am_tx_maxsize e" "am_cfg e' = am_cfg e" "as_sdu t = as_sdu s" "as_sdu u = as_sdu s"
    by (simp_all add: e'_def am_put_sdu_def am_cfg_def t_def u_def)
  ultimately have mem': "am_mem_ok e' (add_mset t (add_mset u M))"
    using mem d(2) store_size_put [of "am_store e" "as_sdu s" d ?d]
      reach_size_put [of "am_store e" "as_sdu s" d ?d "add_mset s M"] reach_size_cut [of t s u "am_store e'" M]
    by (auto simp: am_mem_ok_def insert_absorb)
  have "am_resegment s e sz = Inr (t, u, e')"
    by (simp add: am_resegment_def d(1) Let_def t_def u_def over_def h_def e'_def hd [unfolded e'_def])
  then show thesis using mem' size by (rule that) (simp_all add: e'_def)
qed

text \<open>What the two functions that send have in common: a segment \<open>t\<close> that fits and is in no list any more.\<close>

definition am_taken :: "nr_rlc_entity_am \<Rightarrow> am_segment \<Rightarrow> bool" where
  "am_taken e t \<longleftrightarrow> am_mem_ok e (add_mset t (am_segs e)) \<and> am_bs_ok e"

lemma am_taken_wait:
  assumes "am_taken e t"
  obtains e' where "put_in_wait_list e t = Inr e'" and "am_tx_inv e'" and "t \<in># am_segs e'" and "am_rx_part e' = am_rx_part e"
    and "am_tx_list e' = am_tx_list e"
proof -
  have mem: "am_mem_ok e (add_mset t (am_segs e))" and bs: "am_bs_ok e" using assms by (simp_all add: am_taken_def)
  obtain l where l: "put_in_wait_list e t = Inr (e\<lparr>am_wait_list := l\<rparr>)" "mset l = add_mset t (mset (am_wait_list e))"
    by (rule put_in_wait_list_ok [OF mem, of t]) (auto simp: am_segs_def)
  let ?e = "e\<lparr>am_wait_list := l\<rparr>"
  have "am_segs ?e = add_mset t (am_segs e)" by (simp add: am_segs_def l(2))
  moreover have "am_pending ?e = am_pending e" by (rule am_pending_cong) (simp add: am_rx_part_def)
  ultimately have "am_tx_inv ?e" using mem bs by (simp add: am_tx_inv_def am_bs_ok_def am_mem_ok_def am_cfg_def)
  with l(1) show thesis by (rule that) (simp_all add: \<open>am_segs ?e = _\<close> am_rx_part_def)
qed

lemma am_serialize_ok:
  assumes "am_tx_inv e" and "t \<in># am_segs e" and "am_compute_pdu_header_size e t + as_size t \<le> int (length buf)"
  obtains buf' e' where "am_serialize_sdu e t buf p = Inr (am_compute_pdu_header_size e t + as_size t, buf', e')"
    and "length buf' = length buf" and "am_tx_view e' = am_tx_view e" and "am_rx_part e' = am_rx_part e"
proof -
  have mem: "am_mem_ok e (am_segs e)" using assms(1) by (simp add: am_tx_inv_def)
  obtain d where d: "am_sdu e t = Inr d" "seg_fits d t" by (rule am_sdu_ok [OF mem assms(2)])
  have len: "am_sn_field_length e = 12 \<or> am_sn_field_length e = 18" using mem by (auto simp: am_mem_ok_def am_cfg_def)
  have inside: "0 \<le> as_so t" "0 \<le> as_size t" "as_so t + as_size t \<le> int (length (sdu_data d))" using d(2) by (simp_all add: seg_fits_def)
  obtain hdr e' where l: "am_serialize_sdu e t buf p = Inr (am_compute_pdu_header_size e t + as_size t,
       hdr @ take (nat (as_size t)) (drop (nat (as_so t)) (sdu_data d)) @ drop (nat (am_compute_pdu_header_size e t + as_size t)) buf, e')"
    "bits_of hdr = field_bits (am_fields (am_sn_field_length e) p (as_is_first t) (as_is_last t) (sdu_sn d) (as_so t))"
    "am_tx_view e' = am_tx_view e" "am_rx_part e' = am_rx_part e"
    by (rule am_serialize_layout [OF len d(1) inside assms(3)])
  have "8 * length hdr = 8 * am_header_size (am_sn_field_length e) (as_is_first t)"
    using l(2) length_am_fields [OF len] by (metis length_bits_of)
  then have "length hdr = am_header_size (am_sn_field_length e) (as_is_first t)" by simp
  then show thesis using d(2) assms(3)
    by (intro that [OF l(1) _ l(3,4)]) (auto simp: seg_fits_def am_compute_header_size)
qed

lemma use_force_poll_view:
  obtains p' e' where "use_force_poll p e = (p', e')" and "am_tx_view e' = am_tx_view e" and "am_rx_part e' = am_rx_part e"
  by (cases "am_force_poll e") (auto simp: use_force_poll_def am_tx_view_def am_rx_part_def)

lemma am_stats_view: "am_tx_view (am_stats g e) = am_tx_view e"
  by (simp add: am_tx_view_def am_stats_def)

lemma am_view_segs:
  "am_tx_view e' = am_tx_view e \<Longrightarrow> am_segs e' = am_segs e \<and> am_compute_pdu_header_size e' = am_compute_pdu_header_size e"
  using am_header_cong [of e' e] by (simp add: am_tx_view_def am_segs_def)

lemma generate_retx_pdu_ok:
  assumes inv: "am_tx_inv e" and ne: "am_retransmit_list e \<noteq> []"
  shows "\<exists>n buf' e'. generate_retx_pdu e buf = Inr (n, buf', e') \<and> am_tx_inv e' \<and> am_rx_part e' = am_rx_part e \<and>
    0 \<le> n \<and> n \<le> int (length buf) \<and> length buf' = length buf"
proof -
  obtain s rest where r: "am_retransmit_list e = s # rest" using ne by (cases "am_retransmit_list e") auto
  let ?sz = "int (length buf)" and ?h = "am_compute_pdu_header_size e s"
  show ?thesis
  proof (cases "?h + 1 > ?sz")
    case True
    then show ?thesis using inv by (simp add: generate_retx_pdu_def r Let_def)
  next
    case False
    have mem: "am_mem_ok e (am_segs e)" and bs: "am_bs_ok e" using inv by (simp_all add: am_tx_inv_def)
    define e1 where "e1 = am_add_retx_size (- (?h + as_size s)) (e\<lparr>am_retransmit_list := rest\<rparr>)"
    have hd: "am_compute_pdu_header_size e1 = am_compute_pdu_header_size e" "am_pending e1 = am_pending e"
      and part1: "am_rx_part e1 = am_rx_part e"
      using am_rx_part_D [of e1 e] by (simp_all add: e1_def)
    have "am_segs e = add_mset s (am_segs e1)"
      by (simp add: am_segs_def r e1_def am_add_retx_size_def)
    moreover have "am_mem_ok e1 M = am_mem_ok e M" for M
      by (simp add: e1_def)
    ultimately have mem1: "am_mem_ok e1 (add_mset s (am_segs e1))" using mem by simp
    have bs1: "am_bs_ok e1" using bs unfolding am_bs_ok_def hd(2) by (simp add: e1_def r am_add_retx_size_def)
    define step where "step = (if ?h + as_size s > ?sz
         then c_bind (am_resegment s e1 ?sz) (\<lambda>(sdu, next_sdu, e).
              let e = am_add_retx_size (am_compute_pdu_header_size e next_sdu + as_size next_sdu)
                        (e\<lparr>am_retransmit_list := next_sdu # rest\<rparr>)
              in Inr (sdu, am_stats (\<lambda>s. s\<lparr>txpdu_segmented := txpdu_segmented s + 1\<rparr>) e))
         else Inr (s, e1))"
    have "\<exists>t e2. step = Inr (t, e2) \<and> am_taken e2 t \<and> am_rx_part e2 = am_rx_part e \<and> am_compute_pdu_header_size e2 t + as_size t \<le> ?sz"
    proof (cases "?h + as_size s > ?sz")
      case True
      obtain t u e' where c: "am_resegment s e1 ?sz = Inr (t, u, e')" "am_mem_ok e' (add_mset t (add_mset u (am_segs e1)))"
        "am_compute_pdu_header_size e1 t + as_size t = ?sz" "am_rx_part e' = am_rx_part e1" "am_lists e' = am_lists e1" "am_common e' = am_common e1"
        by (rule am_resegment_ok [OF mem1, of ?sz]) (use False True hd in simp_all)
      define e2 where "e2 = am_stats (\<lambda>s. s\<lparr>txpdu_segmented := txpdu_segmented s + 1\<rparr>)
        (am_add_retx_size (am_compute_pdu_header_size e' u + as_size u) (e'\<lparr>am_retransmit_list := u # rest\<rparr>))"
      have rest1: "am_retransmit_list e1 = rest" by (simp add: e1_def am_add_retx_size_def)
      have part2: "am_rx_part e2 = am_rx_part e1" using c(4) by (simp add: e2_def)
      note h2 = am_rx_part_D [OF part2] and h' = am_rx_part_D [OF c(4)]
      have "am_segs e2 = add_mset u (am_segs e1)"
        using c(5) rest1 by (simp add: am_segs_def e2_def am_lists_def am_stats_def am_add_retx_size_def)
      moreover have "am_mem_ok e2 M = am_mem_ok e' M" for M by (simp add: e2_def)
      moreover have "am_bs_ok e2"
        using bs1 c(5,6) rest1 h2 h' by (simp add: am_bs_ok_def e2_def am_lists_def am_stats_def am_add_retx_size_def)
      ultimately have "am_taken e2 t" using c(2) by (simp add: am_taken_def)
      moreover have "step = Inr (t, e2)" using True by (simp add: step_def c(1) e2_def Let_def)
      ultimately show ?thesis using part1 part2 h2 c(3) by simp
    next
      case False
      then show ?thesis using mem1 bs1 part1 hd by (simp add: step_def am_taken_def)
    qed
    then obtain t e2 where s2: "step = Inr (t, e2)" "am_taken e2 t" "am_rx_part e2 = am_rx_part e"
      "am_compute_pdu_header_size e2 t + as_size t \<le> ?sz" by blast
    obtain e3 where s3: "put_in_wait_list e2 t = Inr e3" "am_tx_inv e3" "t \<in># am_segs e3" "am_rx_part e3 = am_rx_part e2"
      by (rule am_taken_wait [OF s2(2)])
    obtain p e4 where s4: "use_force_poll (check_poll_after_pdu_assembly e3) e3 = (p, e4)" "am_tx_view e4 = am_tx_view e3" "am_rx_part e4 = am_rx_part e3"
      by (rule use_force_poll_view)
    have inv4: "am_tx_inv e4" "t \<in># am_segs e4" and h4: "am_compute_pdu_header_size e4 t + as_size t \<le> ?sz"
      using s3 s4 s2(4) am_tx_inv_cong [OF s4(2)] am_view_segs [OF s4(2)] am_rx_part_D [OF s3(4)] by simp_all
    obtain buf' e5 where s5: "am_serialize_sdu e4 t buf p = Inr (am_compute_pdu_header_size e4 t + as_size t, buf', e5)"
      "length buf' = length buf" "am_tx_view e5 = am_tx_view e4" "am_rx_part e5 = am_rx_part e4"
      by (rule am_serialize_ok [OF inv4 h4])
    have "am_mem_ok e4 (am_segs e4)" using inv4 by (simp add: am_tx_inv_def)
    then obtain dt where "seg_fits dt t" using am_sdu_ok inv4(2) by metis
    then have n: "0 \<le> am_compute_pdu_header_size e4 t + as_size t" using am_header_nonneg [of e4 t] by (simp add: seg_fits_def)
    have gen: "generate_retx_pdu e buf = c_bind step (\<lambda>(sdu, e).
       c_bind (put_in_wait_list e sdu) (\<lambda>e.
       let (p, e) = use_force_poll (check_poll_after_pdu_assembly e) e
       in c_bind (am_serialize_sdu e sdu buf p) (\<lambda>(ret_size, buf, e).
          Inr (ret_size, buf,
               am_stats (\<lambda>s. s\<lparr>txpdu_pkts := txpdu_pkts s + 1, txpdu_bytes := txpdu_bytes s + of_int ret_size,
                              txpdu_retx_pkts := txpdu_retx_pkts s + 1,
                              txpdu_retx_bytes := txpdu_retx_bytes s + of_int ret_size\<rparr>) e))))"
      using False by (simp add: generate_retx_pdu_def r Let_def step_def e1_def)
    show ?thesis
      unfolding gen s2(1) c_bind_simps prod.case s3(1) s4(1) Let_def s5(1)
      using inv4 h4 n s5 s4 s3 s2 by (auto simp: am_tx_inv_cong [OF am_stats_view] am_tx_inv_cong [OF s5(3)])
  qed
qed

lemma am_assign_sn_ok:
  assumes mem: "am_mem_ok e M" and s: "s \<in># M"
  obtains e' where "am_assign_sn e s = Inr e'" and "am_mem_ok e' M" and "am_lists e' = am_lists e" and "am_common e' = am_common e"
    and "am_rx_part e' = am_rx_part e"
proof -
  obtain d where d: "am_sdu e s = Inr d" "am_store e (as_sdu s) = Some d" by (rule am_sdu_ok [OF mem s])
  define e' where "e' = (if sdu_sn d = - 1 then (am_put_sdu e s (d\<lparr>sdu_sn := am_tx_next e\<rparr>))\<lparr>am_tx_next := am_inc e (am_tx_next e)\<rparr> else e)"
  have "am_assign_sn e s = Inr e'" by (simp add: am_assign_sn_def d(1) e'_def)
  moreover have "am_mem_ok e' M"
    using mem am_mem_put [OF mem d(2), of "d\<lparr>sdu_sn := am_tx_next e\<rparr>"] by (simp add: e'_def sdu_live_def)
  ultimately show thesis by (rule that) (simp_all add: e'_def am_lists_def)
qed

lemma count_poll_view:
  obtains p e' where "count_poll e n = (p, e')" and "am_tx_view e' = am_tx_view e" and "am_rx_part e' = am_rx_part e"
  by (simp add: count_poll_def Let_def am_tx_view_def am_rx_part_def)

lemma am_generate_tx_pdu_ok:
  assumes inv: "am_tx_inv e"
  shows "\<exists>n buf' e'. am_generate_tx_pdu now e buf = Inr (n, buf', e') \<and> am_tx_inv e' \<and> am_rx_part e' = am_rx_part e \<and>
    0 \<le> n \<and> n \<le> int (length buf) \<and> length buf' = length buf"
proof (cases "is_window_stalling e \<or> am_tx_list e = []")
  case True
  then show ?thesis using inv by (auto simp: am_generate_tx_pdu_def)
next
  case F: False
  then obtain s rest where r: "am_tx_list e = s # rest" by (cases "am_tx_list e") auto
  let ?sz = "int (length buf)" and ?h = "am_compute_pdu_header_size e s"
  show ?thesis
  proof (cases "?h + 1 > ?sz")
    case True
    then show ?thesis using inv F by (simp add: am_generate_tx_pdu_def r Let_def)
  next
    case False
    have mem: "am_mem_ok e (am_segs e)" and bs: "am_bs_ok e" using inv by (simp_all add: am_tx_inv_def)
    define e0 where "e0 = am_add_tx_size (- (?h + as_size s)) (e\<lparr>am_tx_list := rest\<rparr>)"
    have part0: "am_rx_part e0 = am_rx_part e" by (simp add: e0_def am_add_tx_size_def)
    have "am_mem_ok e0 (am_segs e)" using mem by (simp add: e0_def am_add_tx_size_def)
    moreover have "s \<in># am_segs e" by (simp add: am_segs_def r)
    ultimately obtain e1 where as1: "am_assign_sn e0 s = Inr e1" "am_mem_ok e1 (am_segs e)" "am_lists e1 = am_lists e0" "am_common e1 = am_common e0"
      "am_rx_part e1 = am_rx_part e0"
      by (rule am_assign_sn_ok)
    have l1: "am_tx_list e1 = rest" "am_wait_list e1 = am_wait_list e" "am_retransmit_list e1 = am_retransmit_list e"
      using as1(3) by (simp_all add: e0_def am_add_tx_size_def am_lists_def)
    have part1: "am_rx_part e1 = am_rx_part e" using as1(5) part0 by simp
    note hd = am_rx_part_D [OF part1]
    have "am_segs e = add_mset s (am_segs e1)" by (simp add: am_segs_def r l1)
    with as1(2) have mem1: "am_mem_ok e1 (add_mset s (am_segs e1))" by simp
    have bs1: "am_bs_ok e1"
      using bs hd as1(4) by (simp add: am_bs_ok_def l1 r e0_def am_add_tx_size_def add_tx_size_def)
    define step where "step = (if ?h + as_size s > ?sz
         then c_bind (am_resegment s e1 ?sz) (\<lambda>(sdu, next_sdu, e).
              let e = am_stats (\<lambda>s. s\<lparr>txpdu_segmented := txpdu_segmented s + 1\<rparr>) (e\<lparr>am_tx_list := next_sdu # rest\<rparr>)
              in Inr (sdu, am_add_tx_size (am_compute_pdu_header_size e next_sdu + as_size next_sdu) e))
         else Inr (s, e1))"
    have "\<exists>t e2. step = Inr (t, e2) \<and> am_taken e2 t \<and> am_rx_part e2 = am_rx_part e \<and> am_compute_pdu_header_size e2 t + as_size t \<le> ?sz"
    proof (cases "?h + as_size s > ?sz")
      case True
      obtain t u e' where c: "am_resegment s e1 ?sz = Inr (t, u, e')" "am_mem_ok e' (add_mset t (add_mset u (am_segs e1)))"
        "am_compute_pdu_header_size e1 t + as_size t = ?sz" "am_rx_part e' = am_rx_part e1" "am_lists e' = am_lists e1" "am_common e' = am_common e1"
        by (rule am_resegment_ok [OF mem1, of ?sz]) (use False True hd in simp_all)
      define e2a where "e2a = am_stats (\<lambda>s. s\<lparr>txpdu_segmented := txpdu_segmented s + 1\<rparr>) (e'\<lparr>am_tx_list := u # rest\<rparr>)"
      define e2 where "e2 = am_add_tx_size (am_compute_pdu_header_size e2a u + as_size u) e2a"
      have part2: "am_rx_part e2a = am_rx_part e1" "am_rx_part e2 = am_rx_part e1"
        using c(4) by (simp_all add: e2_def e2a_def am_add_tx_size_def)
      note h2 = am_rx_part_D [OF part2(1)] am_rx_part_D [OF part2(2)]
      have "am_segs e2 = add_mset u (am_segs e1)"
        using c(5) l1 by (simp add: am_segs_def e2_def e2a_def am_lists_def am_stats_def am_add_tx_size_def)
      moreover have "am_mem_ok e2 M = am_mem_ok e' M" for M by (simp add: e2_def e2a_def am_add_tx_size_def)
      moreover have "am_bs_ok e2"
        using bs1 c(5,6) l1 h2 by (simp add: am_bs_ok_def e2_def e2a_def am_lists_def am_stats_def am_add_tx_size_def add_tx_size_def)
      ultimately have "am_taken e2 t" using c(2) by (simp add: am_taken_def)
      moreover have "step = Inr (t, e2)" using True by (simp add: step_def c(1) e2_def e2a_def Let_def)
      ultimately show ?thesis using part1 part2 h2 c(3) by simp
    next
      case False
      then show ?thesis using mem1 bs1 part1 hd by (simp add: step_def am_taken_def)
    qed
    then obtain t e2 where s2: "step = Inr (t, e2)" "am_taken e2 t" "am_rx_part e2 = am_rx_part e"
      "am_compute_pdu_header_size e2 t + as_size t \<le> ?sz" by blast
    obtain e3 where s3: "put_in_wait_list e2 t = Inr e3" "am_tx_inv e3" "t \<in># am_segs e3" "am_rx_part e3 = am_rx_part e2"
      by (rule am_taken_wait [OF s2(2)])
    obtain p0 e4a where s4a: "count_poll e3 (as_size t) = (p0, e4a)" "am_tx_view e4a = am_tx_view e3" "am_rx_part e4a = am_rx_part e3"
      by (rule count_poll_view)
    obtain p e4 where s4b: "use_force_poll p0 e4a = (p, e4)" "am_tx_view e4 = am_tx_view e4a" "am_rx_part e4 = am_rx_part e4a"
      by (rule use_force_poll_view)
    have s4: "am_tx_view e4 = am_tx_view e3" "am_rx_part e4 = am_rx_part e3" using s4a s4b by simp_all
    have inv4: "am_tx_inv e4" "t \<in># am_segs e4" and h4: "am_compute_pdu_header_size e4 t + as_size t \<le> ?sz"
      using s3 s2(4) am_tx_inv_cong [OF s4(1)] am_view_segs [OF s4(1)] am_rx_part_D [OF s3(4)] by simp_all
    obtain buf' e5 where s5: "am_serialize_sdu e4 t buf p = Inr (am_compute_pdu_header_size e4 t + as_size t, buf', e5)"
      "length buf' = length buf" "am_tx_view e5 = am_tx_view e4" "am_rx_part e5 = am_rx_part e4"
      by (rule am_serialize_ok [OF inv4 h4])
    have "am_mem_ok e4 (am_segs e4)" using inv4 by (simp add: am_tx_inv_def)
    then obtain dt where dt: "am_sdu e4 t = Inr dt" "seg_fits dt t" using am_sdu_ok inv4(2) by metis
    then have n: "0 \<le> am_compute_pdu_header_size e4 t + as_size t" using am_header_nonneg [of e4 t] by (simp add: seg_fits_def)
    define e6 where "e6 = am_stats (\<lambda>s. s\<lparr>txpdu_pkts := txpdu_pkts s + 1,
       txpdu_bytes := txpdu_bytes s + of_int (am_compute_pdu_header_size e4 t + as_size t)\<rparr>) e5"
    have d6: "am_sdu e6 t = Inr dt" using dt(1) s5(3) by (simp add: am_sdu_def e6_def am_tx_view_def)
    define e7 where "e7 = e6\<lparr>am_common := record_waited_time now dt (am_common e6)\<rparr>"
    have "am_tx_view e7 = am_tx_view e5" "am_rx_part e7 = am_rx_part e5"
      by (simp_all add: e7_def e6_def am_tx_view_def am_stats_def)
    then have inv7: "am_tx_inv e7" "am_rx_part e7 = am_rx_part e"
      using inv4(1) s5 s4 s3 s2 am_tx_inv_cong [of e7 e4] by simp_all
    have gen: "am_generate_tx_pdu now e buf = c_bind step (\<lambda>(sdu, e).
       c_bind (put_in_wait_list e sdu) (\<lambda>e.
       let (p, e) = count_poll e (as_size sdu); (p, e) = use_force_poll p e
       in c_bind (am_serialize_sdu e sdu buf p) (\<lambda>(ret_size, buf, e).
          let e = am_stats (\<lambda>s. s\<lparr>txpdu_pkts := txpdu_pkts s + 1, txpdu_bytes := txpdu_bytes s + of_int ret_size\<rparr>) e
          in c_bind (am_sdu e sdu) (\<lambda>d.
             Inr (ret_size, buf, e\<lparr>am_common := record_waited_time now d (am_common e)\<rparr>)))))"
      using F False as1(1) by (simp add: am_generate_tx_pdu_def r Let_def step_def e0_def)
    have "am_generate_tx_pdu now e buf = Inr (am_compute_pdu_header_size e4 t + as_size t, buf', e7)"
      unfolding gen s2(1) c_bind_simps prod.case s3(1) s4a(1) s4b(1) Let_def s5(1) e6_def [symmetric] d6 e7_def by simp
    then show ?thesis using inv7 h4 n s5(2) by auto
  qed
qed

end
