(* ===== verification/Rlc_Am_Ops.thy ===== *)
theory Rlc_Am_Ops
  imports Rlc_Am_Emit
begin

text \<open>
  The other operations of the sending side of the acknowledged mode: SDUs from above, the poll timer, discard
  and re-establishment.
\<close>

subsection \<open>SDUs from above\<close>

lemma am_new_sdu_ok:
  assumes mem: "am_mem_ok e M" and room: "am_tx_size e + sdu_size d \<le> am_tx_maxsize e"
    and s: "as_sdu s = am_fresh e" "seg_fits d s" and d: "sdu_live d = 1" "sdu_size d = int (length (sdu_data d))"
  shows "am_mem_ok (e\<lparr>am_tx_size := am_tx_size e + sdu_size d, am_store := (am_store e)(am_fresh e \<mapsto> d), am_fresh := am_fresh e + 1\<rparr>)
    (add_mset s M)"
proof -
  have "am_fresh e \<notin> dom (am_store e)" using mem by (auto simp: am_mem_ok_def)
  then have none: "am_store e (am_fresh e) = None" by auto
  have ok: "segs_ok (am_store e) M" and f: "finite (dom (am_store e))" using mem by (simp_all add: am_mem_ok_def)
  have "\<forall>a \<in> dom (am_store e). a < am_fresh e" using mem unfolding am_mem_ok_def by blast
  then have "\<forall>a \<in> dom (am_store e). a < am_fresh e + 1" by (simp add: less_SucI)
  then show ?thesis
    using mem room segs_ok_new [OF ok none s(1,2) d] store_size_new [OF f none] reach_size_new [OF ok none s(1)]
    by (simp add: am_mem_ok_def am_cfg_def)
qed

lemma nr_rlc_entity_am_recv_sdu_ok:
  assumes inv: "am_tx_inv e"
  shows "int (length buf) \<le> NR_SDU_MAX \<Longrightarrow>
      \<exists>e'. nr_rlc_entity_am_recv_sdu now e buf sdu_id = Inr e' \<and> am_tx_inv e' \<and> am_rx_part e' = am_rx_part e"
    and "NR_SDU_MAX < int (length buf) \<Longrightarrow> nr_rlc_entity_am_recv_sdu now e buf sdu_id = Inl AssertFail"
proof -
  show "nr_rlc_entity_am_recv_sdu now e buf sdu_id = Inl AssertFail" if "NR_SDU_MAX < int (length buf)"
    using that by (simp add: nr_rlc_entity_am_recv_sdu_def Let_def)
  assume n: "int (length buf) \<le> NR_SDU_MAX"
  define e1 where "e1 = am_stats (\<lambda>s. s\<lparr>rxsdu_pkts := rxsdu_pkts s + 1\<rparr>) e"
  define e2 where "e2 = (if am_sdu_rejected e1 \<noteq> 0 \<and> am_t_current e1 > am_t_log_buffer_full e1 + 1000
                  then e1\<lparr>am_sdu_rejected := 0, am_t_log_buffer_full := am_t_current e1\<rparr> else e1)"
  have v2: "am_tx_view e2 = am_tx_view e" "am_rx_part e2 = am_rx_part e"
    by (simp_all add: e2_def e1_def am_tx_view_def am_rx_part_def am_stats_def)
  have inv2: "am_tx_inv e2" using inv am_tx_inv_cong [OF v2(1)] by simp
  show "\<exists>e'. nr_rlc_entity_am_recv_sdu now e buf sdu_id = Inr e' \<and> am_tx_inv e' \<and> am_rx_part e' = am_rx_part e"
  proof (cases "am_tx_size e2 + int (length buf) > am_tx_maxsize e2")
    case True
    define e' where "e' = am_stats (\<lambda>s. s\<lparr>txpdu_dd_pkts := txpdu_dd_pkts s + 1, txpdu_dd_bytes := txpdu_dd_bytes s + of_int (int (length buf))\<rparr>)
                        (e2\<lparr>am_sdu_rejected := am_sdu_rejected e2 + 1\<rparr>)"
    have "am_tx_view e' = am_tx_view e2" "am_rx_part e' = am_rx_part e2"
      by (simp_all add: e'_def am_tx_view_def am_rx_part_def am_stats_def)
    then have "am_tx_inv e'" "am_rx_part e' = am_rx_part e" using inv2 am_tx_inv_cong [of e' e2] v2 by simp_all
    moreover have "nr_rlc_entity_am_recv_sdu now e buf sdu_id = Inr e'"
      using n True unfolding nr_rlc_entity_am_recv_sdu_def Let_def e1_def [symmetric] e2_def [symmetric] by (simp add: e'_def)
    ultimately show ?thesis by blast
  next
    case False
    define e3 where "e3 = am_stats (\<lambda>s. s\<lparr>rxsdu_bytes := rxsdu_bytes s + of_int (int (length buf))\<rparr>) (e2\<lparr>am_tx_size := am_tx_size e2 + int (length buf)\<rparr>)"
    define new where "new = set_time_of_arrival now (am_common e3) (nr_rlc_new_sdu buf sdu_id)"
    define s where "s = \<lparr>as_sdu = am_fresh e3, as_size = seg_size new, as_so = seg_so new,
                          as_is_first = seg_is_first new, as_is_last = seg_is_last new\<rparr>"
    define e4 where "e4 = e3\<lparr>am_tx_list := am_tx_list e3 @ [s], am_store := (am_store e3)(am_fresh e3 \<mapsto> seg_sdu new), am_fresh := am_fresh e3 + 1\<rparr>"
    define e5 where "e5 = am_add_tx_size (am_compute_pdu_header_size e4 s + as_size s) e4"
    have res: "nr_rlc_entity_am_recv_sdu now e buf sdu_id = Inr e5"
      using n False unfolding nr_rlc_entity_am_recv_sdu_def Let_def e1_def [symmetric] e2_def [symmetric]
      by (simp add: e5_def e4_def s_def new_def e3_def)
    have new: "seg_size new = int (length buf)" "seg_so new = 0" "seg_is_first new" "seg_is_last new"
      "sdu_size (seg_sdu new) = int (length buf)" "sdu_data (seg_sdu new) = buf" "sdu_live (seg_sdu new) = 1"
      by (simp_all add: new_def set_time_of_arrival_def nr_rlc_new_sdu_def Let_def sdu_live_def)
    have fits: "seg_fits (seg_sdu new) s" using new by (simp add: seg_fits_def s_def sdu_live_def)
    have mem2: "am_mem_ok e2 (am_segs e2)" and bs2: "am_bs_ok e2" using inv2 by (simp_all add: am_tx_inv_def)
    have f3: "am_fresh e3 = am_fresh e2" "am_store e3 = am_store e2" "am_lists e3 = am_lists e2" "am_tx_size e3 = am_tx_size e2 + int (length buf)"
      "bstatus (am_common e3) = bstatus (am_common e2)" "am_rx_part e3 = am_rx_part e2"
      by (simp_all add: e3_def am_stats_def am_lists_def)
    have sdu: "as_sdu s = am_fresh e2" by (simp add: s_def f3)
    have part: "am_rx_part e5 = am_rx_part e2" by (simp add: e5_def e4_def am_add_tx_size_def f3)
    have segs: "am_segs e5 = add_mset s (am_segs e2)"
      using f3(3) by (simp add: am_segs_def e5_def e4_def am_add_tx_size_def am_lists_def)
    have "am_mem_ok e5 (add_mset s (am_segs e2))"
      using am_new_sdu_ok [OF mem2 _ sdu fits] False new
      by (simp add: e5_def e4_def am_add_tx_size_def f3 am_mem_ok_def am_cfg_def e3_def am_stats_def)
    moreover have "am_bs_ok e5"
      using bs2 f3(3,5) am_rx_part_D [OF part] am_header_cong [of e4 e2] f3(6)
      by (simp add: am_bs_ok_def e5_def e4_def am_add_tx_size_def add_tx_size_def am_lists_def am_rx_part_def)
    ultimately have "am_tx_inv e5" by (simp add: am_tx_inv_def segs)
    then show ?thesis using res part v2(2) by simp
  qed
qed

subsection \<open>The poll timer\<close>

lemma am_pending_mset: "mset l = mset l' \<Longrightarrow> am_pending e l = am_pending e l'"
proof -
  assume "mset l = mset l'"
  then have "sum_mset (image_mset (\<lambda>s. am_compute_pdu_header_size e s + as_size s) (mset l)) =
    sum_mset (image_mset (\<lambda>s. am_compute_pdu_header_size e s + as_size s) (mset l'))" by simp
  then show ?thesis by (simp only: am_pending_def mset_map [symmetric] sum_mset_sum_list)
qed

lemma move_to_retransmit_ok:
  assumes "am_mem_ok e (mset (am_tx_list e) + mset l + mset (am_retransmit_list e))" and "am_bs_ok e"
  shows "\<exists>e'. move_to_retransmit e sn l = Inr e' \<and> am_tx_inv e' \<and> am_rx_part e' = am_rx_part e \<and> am_t_current e' = am_t_current e"
  using assms
proof (induction l arbitrary: e)
  case Nil
  have "am_pending (e\<lparr>am_wait_list := []\<rparr>) = am_pending e" by (rule am_pending_cong) simp
  then show ?case using Nil by (simp add: am_tx_inv_def am_segs_def am_bs_ok_def)
next
  case (Cons s ws)
  let ?M = "mset (am_tx_list e) + mset (s # ws) + mset (am_retransmit_list e)"
  obtain d where d: "am_sdu e s = Inr d" by (rule am_sdu_ok [OF Cons.prems(1), of s]) simp
  show ?case
  proof (cases "sdu_sn d = sn")
    case False
    have "am_pending (e\<lparr>am_wait_list := s # ws\<rparr>) = am_pending e" by (rule am_pending_cong) simp
    then show ?thesis using Cons.prems False by (simp add: d am_tx_inv_def am_segs_def am_bs_ok_def)
  next
    case True
    define e1 where "e1 = am_add_retx_size (am_compute_pdu_header_size e s + as_size s) e"
    have mem1: "am_mem_ok e1 ?M" and part1: "am_rx_part e1 = am_rx_part e" and l1: "am_tx_list e1 = am_tx_list e"
      "am_retransmit_list e1 = am_retransmit_list e"
      using Cons.prems(1) by (simp_all add: e1_def am_add_retx_size_def)
    obtain l where l: "nr_rlc_tx_sdu_segment_list_add e1 (am_retransmit_list e1) s = Inr l" "mset l = mset (s # am_retransmit_list e1)"
      using am_list_add_ok [OF mem1, of "am_retransmit_list e1" s] l1 by auto
    define e2 where "e2 = e1\<lparr>am_retransmit_list := l\<rparr>"
    have part2: "am_rx_part e2 = am_rx_part e" by (simp add: e2_def part1)
    have "am_mem_ok e2 (mset (am_tx_list e2) + mset ws + mset (am_retransmit_list e2))"
      using mem1 l1 l(2) by (simp add: e2_def)
    moreover have "am_bs_ok e2"
      using Cons.prems(2) am_pending_mset [OF l(2), of e] am_rx_part_D [OF part2] l1 by (simp add: am_bs_ok_def e2_def e1_def)
    ultimately obtain e' where "move_to_retransmit e2 sn ws = Inr e'" "am_tx_inv e'" "am_rx_part e' = am_rx_part e2" "am_t_current e' = am_t_current e2"
      using Cons.IH by blast
    moreover have "am_t_current e2 = am_t_current e" by (simp add: e2_def e1_def am_add_retx_size_def)
    ultimately show ?thesis using l(1) True part2 by (simp add: d e1_def e2_def Let_def)
  qed
qed

text \<open>The timer has expired, and everything that was sent is acknowledged, but the code looks at the wait list.\<close>

definition am_poll_stuck :: "nr_rlc_entity_am \<Rightarrow> bool" where
  "am_poll_stuck e \<longleftrightarrow> am_t_poll_retransmit_start e \<noteq> 0 \<and>
     am_t_current e > am_t_poll_retransmit_start e + of_int (am_t_poll_retransmit e) \<and>
     check_poll_after_pdu_assembly e \<and> am_wait_list e = []"

lemma check_t_poll_retransmit_ok:
  assumes inv: "am_tx_inv e"
  shows "\<not> am_poll_stuck e \<Longrightarrow>
      \<exists>e' out. check_t_poll_retransmit e = Inr (e', out) \<and> am_tx_inv e' \<and> am_rx_part e' = am_rx_part e \<and> am_t_current e' = am_t_current e"
    and "am_poll_stuck e \<Longrightarrow> check_t_poll_retransmit e = Inl NullDeref"
proof -
  let ?e1 = "e\<lparr>am_t_poll_retransmit_start := 0, am_force_poll := True\<rparr>"
  have chk: "check_poll_after_pdu_assembly ?e1 = check_poll_after_pdu_assembly e"
    by (simp add: check_poll_after_pdu_assembly_def is_window_stalling_def am_sn_compare_tx_def am_modulus_tx_def Let_def)
  show "check_t_poll_retransmit e = Inl NullDeref" if "am_poll_stuck e"
    using that chk by (auto simp: check_t_poll_retransmit_def am_poll_stuck_def Let_def)
  assume ns: "\<not> am_poll_stuck e"
  have inv1: "am_tx_inv ?e1" using inv am_tx_inv_cong [of ?e1 e] by (simp add: am_tx_view_def)
  show "\<exists>e' out. check_t_poll_retransmit e = Inr (e', out) \<and> am_tx_inv e' \<and> am_rx_part e' = am_rx_part e \<and> am_t_current e' = am_t_current e"
  proof (cases "am_t_poll_retransmit_start e = 0 \<or> am_t_current e \<le> am_t_poll_retransmit_start e + of_int (am_t_poll_retransmit e)")
    case True
    then show ?thesis using inv by (simp add: check_t_poll_retransmit_def)
  next
    case late: False
    show ?thesis
    proof (cases "check_poll_after_pdu_assembly ?e1")
      case False
      then show ?thesis using late inv1 by (simp add: check_t_poll_retransmit_def Let_def)
    next
      case True
      then obtain s ws where w: "am_wait_list e = s # ws"
        using ns late chk by (cases "am_wait_list e") (auto simp: am_poll_stuck_def)
      have mem: "am_mem_ok ?e1 (am_segs ?e1)" and bs: "am_bs_ok ?e1" using inv1 by (simp_all add: am_tx_inv_def)
      obtain d where d: "am_sdu ?e1 s = Inr d" "am_store ?e1 (as_sdu s) = Some d"
        by (rule am_sdu_ok [OF mem, of s]) (simp add: am_segs_def w)
      define d' where "d' = d\<lparr>sdu_retx_count := sdu_retx_count d + 1\<rparr>"
      define e2 where "e2 = am_put_sdu ?e1 s d'"
      have part2: "am_rx_part e2 = am_rx_part e" and l2: "am_lists e2 = am_lists e" "am_t_current e2 = am_t_current e"
        by (simp_all add: e2_def am_lists_def am_put_sdu_def)
      have "am_segs ?e1 = mset (am_tx_list e2) + mset (s # ws) + mset (am_retransmit_list e2)"
        using l2(1) by (simp add: am_segs_def am_lists_def w)
      then have "am_mem_ok e2 (mset (am_tx_list e2) + mset (s # ws) + mset (am_retransmit_list e2))"
        using am_mem_put [OF mem d(2), of d'] by (simp add: e2_def d'_def sdu_live_def)
      moreover have "am_bs_ok e2"
        using bs am_rx_part_D [OF part2] am_rx_part_D [of ?e1 e] by (simp add: am_bs_ok_def e2_def)
      ultimately obtain e3 where "move_to_retransmit e2 (sdu_sn d') (s # ws) = Inr e3" "am_tx_inv e3" "am_rx_part e3 = am_rx_part e2"
        "am_t_current e3 = am_t_current e2"
        using move_to_retransmit_ok by blast
      then show ?thesis
        using late True part2 l2 w d(1) by (simp add: check_t_poll_retransmit_def Let_def d'_def e2_def del: move_to_retransmit.simps)
    qed
  qed
qed

subsection \<open>Discard\<close>

lemma find_upper_layer_id_ok:
  assumes "am_mem_ok e M" and "set l \<subseteq> set_mset M"
  shows "\<exists>before found. find_upper_layer_id e i l = Inr (before, found) \<and> l = before @ found"
  using assms(2)
proof (induction l)
  case (Cons s ss)
  then obtain d where "am_sdu e s = Inr d" using am_sdu_ok [OF assms(1), of s] by auto
  with Cons show ?case by auto
qed simp

lemma am_free_size:
  assumes "am_free_sdu_segment e s = Inr (b, e\<lparr>am_store := st\<rparr>)"
  shows "am_free_sdu_segment (e\<lparr>am_tx_size := n\<rparr>) s = Inr (b, e\<lparr>am_tx_size := n, am_store := st\<rparr>)"
proof -
  have "am_sdu (e\<lparr>am_tx_size := n\<rparr>) s = am_sdu e s" by (simp add: am_sdu_def)
  moreover obtain d where "am_sdu e s = Inr d" using assms by (cases "am_sdu e s") (simp_all add: am_free_sdu_segment_def)
  moreover have "a = st" if "e\<lparr>am_store := a\<rparr> = e\<lparr>am_store := st\<rparr>" for a
    using arg_cong [OF that, of am_store] by simp
  ultimately show ?thesis
    using assms by (auto simp: am_free_sdu_segment_def am_put_sdu_def Let_def split: if_splits)
qed

lemma nr_rlc_entity_am_discard_sdu_ok:
  assumes inv: "am_tx_inv e"
  shows "\<exists>e'. nr_rlc_entity_am_discard_sdu e i = Inr e' \<and> am_tx_inv e' \<and> am_rx_part e' = am_rx_part e"
proof -
  have mem: "am_mem_ok e (am_segs e)" and bs: "am_bs_ok e" using inv by (simp_all add: am_tx_inv_def)
  have "set (am_tx_list e) \<subseteq> set_mset (am_segs e)" by (auto simp: am_segs_def)
  from find_upper_layer_id_ok [OF mem this, of i]
  obtain before found where f: "find_upper_layer_id e i (am_tx_list e) = Inr (before, found)" "am_tx_list e = before @ found" by blast
  show ?thesis
  proof (cases "found = [] \<or> \<not> as_is_first (hd found) \<or> \<not> as_is_last (hd found)")
    case True
    then show ?thesis using inv f(1) by (cases found) (auto simp: nr_rlc_entity_am_discard_sdu_def)
  next
    case False
    then obtain s rest where s: "found = s # rest" "as_is_first s" "as_is_last s" by (cases found) auto
    define e1 where "e1 = am_add_tx_size (- (am_compute_pdu_header_size e s + as_size s)) (e\<lparr>am_tx_list := before @ rest\<rparr>)"
    have "am_segs e = add_mset s (am_segs e1)"
      by (simp add: am_segs_def e1_def am_add_tx_size_def f(2) s(1))
    then have mem1: "am_mem_ok e1 (add_mset s (am_segs e1))" using mem by (simp add: e1_def am_add_tx_size_def)
    obtain d freed st where fr: "am_sdu e1 s = Inr d" "am_free_sdu_segment e1 s = Inr (freed, e1\<lparr>am_store := st\<rparr>)"
      "am_mem_ok (e1\<lparr>am_store := st, am_tx_size := if freed then am_tx_size e1 - sdu_size d else am_tx_size e1\<rparr>) (am_segs e1)"
      "freed \<longleftrightarrow> sdu_live d = 1" "seg_fits d s"
      by (rule am_mem_free [OF mem1])
    have freed: freed using fr(4,5) s by (simp add: seg_fits_def sdu_live_def)
    define e2 where "e2 = e1\<lparr>am_store := st, am_tx_size := am_tx_size e1 - sdu_size d\<rparr>"
    let ?x = "e1\<lparr>am_tx_size := am_tx_size e1 - sdu_size d\<rparr>"
    have "am_sdu ?x s = Inr d" using fr(1) by (simp add: am_sdu_def)
    moreover have "am_free_sdu_segment ?x s = Inr (freed, ?x\<lparr>am_store := st\<rparr>)"
      using am_free_size [OF fr(2)] by simp
    moreover have "am_sdu e s = Inr d" using fr(1) by (simp add: am_sdu_def e1_def am_add_tx_size_def)
    ultimately have "nr_rlc_entity_am_discard_sdu e i = Inr e2"
      using s by (simp add: nr_rlc_entity_am_discard_sdu_def f(1) Let_def e1_def e2_def)
    moreover have part: "am_rx_part e2 = am_rx_part e" by (simp add: e2_def e1_def am_add_tx_size_def)
    moreover have "am_segs e2 = am_segs e1" by (simp add: e2_def am_segs_def)
    moreover have "am_bs_ok e2"
      using bs am_rx_part_D [OF part] by (simp add: am_bs_ok_def e2_def e1_def am_add_tx_size_def add_tx_size_def f(2) s(1))
    ultimately show ?thesis using fr(3) freed by (simp add: am_tx_inv_def e2_def)
  qed
qed

subsection \<open>Re-establishment\<close>

text \<open>\<^verbatim>\<open>clear_entity\<close> frees the lists and sets the transmit size to 0: lost SDUs stay allocated.\<close>

definition am_nosize_ok :: "nr_rlc_entity_am \<Rightarrow> am_segment multiset \<Rightarrow> bool" where
  "am_nosize_ok e M \<longleftrightarrow> am_cfg e \<and> segs_ok (am_store e) M \<and> finite (dom (am_store e)) \<and> (\<forall>a \<in> dom (am_store e). a < am_fresh e)"

lemma am_free_list_ok:
  "am_nosize_ok e (mset l + M) \<Longrightarrow> \<exists>st. am_free_list e l = Inr (e\<lparr>am_store := st\<rparr>) \<and> am_nosize_ok (e\<lparr>am_store := st\<rparr>) M"
proof (induction l arbitrary: e)
  case (Cons s l)
  have ok: "segs_ok (am_store e) (add_mset s (mset l + M))" using Cons.prems by (simp add: am_nosize_ok_def)
  then obtain d where d: "am_store e (as_sdu s) = Some d" by (auto simp: segs_ok_def)
  then have sdu: "am_sdu e s = Inr d" by (simp add: am_sdu_def)
  define st where "st = (if sdu_live d = 1 then (am_store e)(as_sdu s := None)
    else (am_store e)(as_sdu s \<mapsto> d\<lparr>sdu_free_count := sdu_free_count d + 1\<rparr>))"
  have "segs_ok st (mset l + M)" using segs_ok_free [OF ok d] by (simp add: st_def)
  then have "am_nosize_ok (e\<lparr>am_store := st\<rparr>) (mset l + M)"
    using Cons.prems d by (auto simp: am_nosize_ok_def am_cfg_def st_def split: if_splits)
  moreover have "\<exists>b. am_free_sdu_segment e s = Inr (b, e\<lparr>am_store := st\<rparr>)"
    by (auto simp: am_free_sdu_segment_def sdu Let_def st_def sdu_live_def am_put_sdu_def)
  ultimately show ?case using Cons.IH [of "e\<lparr>am_store := st\<rparr>"] by auto
next
  case Nil
  then show ?case by (intro exI [of _ "am_store e"]) simp
qed

lemma segs_ok_store_size: "segs_ok st M \<Longrightarrow> 0 \<le> store_size st"
  unfolding store_size_def segs_ok_def by (intro sum_nonneg) fastforce

lemma am_clear_entity_ok:
  assumes inv: "am_tx_inv e" and max: "0 \<le> am_tx_maxsize e"
  obtains e' where "am_clear_entity e = Inr e'" and "am_tx_inv e'" and "am_segs e' = {#}"
    and "am_rx e' = nr_rlc_clear_rx_manager (am_rx e)" and "am_rx_next e' = 0" "am_rx_highest_status e' = 0"
    and "am_rx_next_highest e' = 0" "am_rx_next_status_trigger e' = 0" "am_t_reassembly_start e' = 0" "am_rx_size e' = 0"
    and "am_sn_field_length e' = am_sn_field_length e" "am_sn_modulus e' = am_sn_modulus e" "am_window_size e' = am_window_size e"
    and "am_tx_maxsize e' = am_tx_maxsize e"
proof -
  define e1 where "e1 = e\<lparr>am_rx_next := 0, am_rx_next_status_trigger := 0, am_rx_highest_status := 0, am_rx_next_highest := 0,
               am_status_triggered := False, am_tx_next := 0, am_tx_next_ack := 0, am_poll_sn := 0,
               am_pdu_without_poll := 0, am_byte_without_poll := 0, am_force_poll := False, am_t_current := 0,
               am_t_log_buffer_full := 0, am_sdu_rejected := 0, am_t_poll_retransmit_start := 0,
               am_t_reassembly_start := 0, am_t_status_prohibit_start := 0,
               am_rx := nr_rlc_clear_rx_manager (am_rx e), am_rx_size := 0\<rparr>"
  have l1: "am_tx_list e1 = am_tx_list e" "am_wait_list e1 = am_wait_list e" "am_retransmit_list e1 = am_retransmit_list e"
    by (simp_all add: e1_def)
  have "am_nosize_ok e1 (mset (am_tx_list e) + (mset (am_wait_list e) + mset (am_retransmit_list e)))"
    using inv by (simp add: am_tx_inv_def am_mem_ok_def am_nosize_ok_def am_cfg_def am_segs_def e1_def add.assoc)
  then obtain st1 where s1: "am_free_list e1 (am_tx_list e) = Inr (e1\<lparr>am_store := st1\<rparr>)"
    "am_nosize_ok (e1\<lparr>am_store := st1\<rparr>) (mset (am_wait_list e) + mset (am_retransmit_list e))"
    using am_free_list_ok by blast
  obtain st2 where s2: "am_free_list (e1\<lparr>am_store := st1\<rparr>) (am_wait_list e) = Inr (e1\<lparr>am_store := st2\<rparr>)"
    "am_nosize_ok (e1\<lparr>am_store := st2\<rparr>) (mset (am_retransmit_list e) + {#})"
    using am_free_list_ok [OF s1(2)] by auto
  obtain st3 where s3: "am_free_list (e1\<lparr>am_store := st2\<rparr>) (am_retransmit_list e) = Inr (e1\<lparr>am_store := st3\<rparr>)"
    "am_nosize_ok (e1\<lparr>am_store := st3\<rparr>) {#}"
    using am_free_list_ok [OF s2(2)] by auto
  define e4 where "e4 = e1\<lparr>am_store := st3, am_tx_list := [], am_tx_size := 0, am_wait_list := [], am_retransmit_list := [],
                am_common := (am_common e1)\<lparr>bstatus := (bstatus (am_common e1))\<lparr>bs_tx_size := 0, bs_retx_size := 0\<rparr>\<rparr>\<rparr>"
  have "am_clear_entity e = Inr e4"
    unfolding am_clear_entity_def Let_def e1_def [symmetric] by (simp add: l1 s1(1) s2(1) s3(1) e4_def)
  moreover have "am_tx_inv e4"
    using s3(2) max segs_ok_store_size [of st3 "{#}"]
    by (simp add: am_tx_inv_def am_mem_ok_def am_nosize_ok_def am_segs_def am_bs_ok_def am_cfg_def e4_def reach_size_def) (simp add: e1_def)
  ultimately show thesis by (rule that) (simp_all add: e4_def am_segs_def e1_def)
qed

end
