(* ===== verification/Rlc_Am_Order.thy ===== *)
theory Rlc_Am_Order
  imports Rlc_Am_Recv Rlc_Am_Send
begin

text \<open>
  The order of the receiver's numbers: \<open>rx_next \<le> rx_highest_status \<le> rx_next_highest \<le> rx_next + window\<close>, as
  distances from \<open>rx_next\<close>. The status report relies on it.
\<close>

definition am_ord_rx :: "nr_rlc_entity_am \<Rightarrow> bool" where
  "am_ord_rx e \<longleftrightarrow>
     (let nh = am_dist e (am_rx_next_highest e); hs = am_dist e (am_rx_highest_status e)
      in nh \<le> am_window_size e \<and> (0 < nh \<longrightarrow> am_cells e (nh - 1) \<noteq> []) \<and>
         (\<forall>k. nh \<le> k \<and> k < am_window_size e \<longrightarrow> am_cells e k = []) \<and>
         hs \<le> nh \<and> (hs < am_window_size e \<longrightarrow> \<not> cells_processed (am_cells e hs)))"

definition am_ord_timer :: "nr_rlc_entity_am \<Rightarrow> bool" where
  "am_ord_timer e \<longleftrightarrow> am_t_reassembly_start e \<noteq> 0 \<longrightarrow>
     0 < am_dist e (am_rx_next_status_trigger e) \<and> am_dist e (am_rx_next_status_trigger e) \<le> am_dist e (am_rx_next_highest e)"

definition am_ord :: "nr_rlc_entity_am \<Rightarrow> bool" where
  "am_ord e \<longleftrightarrow> am_ord_rx e \<and> am_ord_timer e"

lemma am_dist_shift:
  "am_rx_next e' = (am_rx_next e + c) mod am_sn_modulus e \<Longrightarrow> am_sn_modulus e' = am_sn_modulus e \<Longrightarrow>
   am_dist e' y = (am_dist e y - c) mod am_sn_modulus e"
  by (simp add: am_dist_def mod_simps algebra_simps)

lemma am_dist_inc:
  assumes "am_rx_core e" and "rlc_sn_ok (am_sn_modulus e) x" and "am_dist e x + 1 < am_sn_modulus e"
  shows "am_dist e (am_inc e x) = am_dist e x + 1"
proof -
  note c = am_rx_coreD [OF assms(1)]
  have "am_dist e (am_inc e x) = (am_dist e x + 1) mod am_sn_modulus e"
    using am_inc_ok [OF assms(1), of x] assms(2) by (simp add: rlc_sn_ok_def am_dist_def mod_simps algebra_simps)
  also have "\<dots> = am_dist e x + 1" using am_dist_range [OF c(3), of x] assms(3) by (intro mod_pos_pos_trivial) simp_all
  finally show ?thesis .
qed

lemma am_compare_rx_eq:
  assumes "am_rx_core e" and "rlc_sn_ok (am_sn_modulus e) a" and "rlc_sn_ok (am_sn_modulus e) b"
  shows "am_sn_compare_rx e a b = am_dist e a - am_dist e b"
  using am_modulus_rx_eq [OF am_rx_coreD(5) [OF assms(1)]] assms by (simp add: am_sn_compare_rx_def)

lemma am_next_plus:
  assumes "am_rx_core e" and "rlc_sn_ok (am_sn_modulus e) y"
  shows "y = c_rem (am_rx_next e + am_window_size e) (am_sn_modulus e) \<longleftrightarrow> am_dist e y = am_window_size e"
proof -
  note c = am_rx_coreD [OF assms(1)]
  have "c_rem (am_rx_next e + am_window_size e) (am_sn_modulus e) = (am_rx_next e + am_window_size e) mod am_sn_modulus e"
    using c by (intro c_rem_nonneg) (simp_all add: rlc_sn_ok_def)
  moreover have "am_dist e ((am_rx_next e + am_window_size e) mod am_sn_modulus e) = am_window_size e"
    using c by (intro am_dist_add) simp_all
  ultimately show ?thesis using am_dist_sn [OF c(3) assms(2)] by auto
qed

lemma am_start_ord: "am_ord_rx e \<Longrightarrow> 0 < am_dist e (am_rx_next_highest e) \<Longrightarrow> am_ord (am_start_t_reassembly e)"
  by (simp add: am_ord_def am_ord_rx_def am_ord_timer_def am_start_t_reassembly_def am_dist_def am_cells_def)

text \<open>The timer of the reception actions.\<close>

lemma am_timer_ord:
  assumes core: "am_rx_core e" and ord: "am_ord_rx e"
    and pre: "am_t_reassembly_start e \<noteq> 0 \<longrightarrow>
      am_dist e (am_rx_next_status_trigger e) \<le> am_dist e (am_rx_next_highest e) \<or> am_window_size e < am_dist e (am_rx_next_status_trigger e)"
    and run: "am_reception_timer e = Inr e'"
  shows "am_ord e'"
proof -
  note c = am_rx_coreD [OF core]
  let ?tr = "am_rx_next_status_trigger e" and ?n1 = "am_inc e (am_rx_next e)"
  from am_sdu_has_missing_bytes_ok [OF core c(5)] obtain missing where m: "am_sdu_has_missing_bytes e (am_rx_next e) = Inr missing" ..
  define stop where "stop \<longleftrightarrow> am_t_reassembly_start e \<noteq> 0 \<and>
    (?tr = am_rx_next e \<or> (?tr = ?n1 \<and> \<not> missing) \<or>
     (\<not> am_sn_in_recv_window e ?tr \<and> ?tr \<noteq> c_rem (am_rx_next e + am_window_size e) (am_sn_modulus e)))"
  define e1 where "e1 = (if stop then e\<lparr>am_t_reassembly_start := 0\<rparr> else e)"
  have win: "am_sn_in_recv_window e ?tr \<longleftrightarrow> am_dist e ?tr < am_window_size e"
    by (simp add: am_sn_in_recv_window_def am_modulus_rx_eq [OF c(5,6)])
  have 1: "am_dist e ?n1 = 1" using am_dist_inc [OF core c(5)] c(1,2) by (simp add: am_dist_next)
  have "am_ord_timer e1"
    using pre am_dist_range [OF c(3), of ?tr] am_dist_0 [OF core c(6)] am_next_plus [OF core c(6)]
    by (auto simp: am_ord_timer_def e1_def stop_def win)
  moreover have o1: "am_ord_rx e1" using ord by (simp add: am_ord_rx_def e1_def)
  moreover have "am_reception_timer e = Inr (if am_t_reassembly_start e1 = 0 \<and>
      (am_sn_compare_rx e1 (am_rx_next_highest e1) ?n1 > 0 \<or> (am_rx_next_highest e1 = ?n1 \<and> missing)) then am_start_t_reassembly e1 else e1)"
    unfolding am_reception_timer_def m c_bind_simps Let_def stop_def [symmetric] e1_def [symmetric] ..
  moreover have "am_ord (am_start_t_reassembly e1)"
    if "am_sn_compare_rx e1 (am_rx_next_highest e1) ?n1 > 0 \<or> (am_rx_next_highest e1 = ?n1 \<and> missing)"
  proof -
    have "am_sn_compare_rx e1 (am_rx_next_highest e1) ?n1 = am_dist e (am_rx_next_highest e) - 1"
      using am_compare_rx_eq [of e1 "am_rx_next_highest e1" ?n1] core am_inc_ok [OF core, of "am_rx_next e"] c(5,8) 1
      by (simp add: e1_def rlc_sn_ok_def)
    then have "0 < am_dist e (am_rx_next_highest e)" using that 1 by (auto simp: e1_def split: if_splits)
    then show ?thesis using am_start_ord [OF o1] by (simp add: e1_def)
  qed
  ultimately show ?thesis using run by (auto simp: am_ord_def split: if_splits)
qed

text \<open>The highest number received, when a segment of \<open>x\<close> was inserted.\<close>

definition am_ord_inserted :: "nr_rlc_entity_am \<Rightarrow> int \<Rightarrow> bool" where
  "am_ord_inserted e x \<longleftrightarrow>
     (let nh = am_dist e (am_rx_next_highest e); hs = am_dist e (am_rx_highest_status e); d = am_dist e x
      in nh \<le> am_window_size e \<and> d < am_window_size e \<and> am_cells e d \<noteq> [] \<and> (0 < nh \<longrightarrow> am_cells e (nh - 1) \<noteq> []) \<and>
         (\<forall>k. nh \<le> k \<and> k < am_window_size e \<and> k \<noteq> d \<longrightarrow> am_cells e k = []) \<and>
         hs \<le> nh \<and> (hs < am_window_size e \<longrightarrow> \<not> cells_processed (am_cells e hs)))"

lemma am_new_highest_ord:
  assumes core: "am_rx_core e" and x: "rlc_sn_ok (am_sn_modulus e) x" and ord: "am_ord_inserted e x" and t: "am_ord_timer e"
  defines "e1 \<equiv> (if am_sn_compare_rx e x (am_rx_next_highest e) \<ge> 0 then e\<lparr>am_rx_next_highest := am_inc e x\<rparr> else e)"
  shows "am_ord_rx e1" and "am_ord_timer e1" and "am_dist e x < am_dist e (am_rx_next_highest e1)"
proof -
  note c = am_rx_coreD [OF core]
  have d: "0 \<le> am_dist e x" "am_dist e x < am_window_size e" using ord am_dist_range [OF c(3)] by (simp_all add: am_ord_inserted_def Let_def)
  have inc: "am_dist e (am_inc e x) = am_dist e x + 1" using d(2) c(1,2) by (intro am_dist_inc [OF core x]) simp
  have cmp: "am_sn_compare_rx e x (am_rx_next_highest e) \<ge> 0 \<longleftrightarrow> am_dist e (am_rx_next_highest e) \<le> am_dist e x"
    using am_compare_rx_eq [OF core x c(8)] by simp
  show nh: "am_dist e x < am_dist e (am_rx_next_highest e1)" using inc by (simp add: e1_def cmp)
  show "am_ord_timer e1" using t inc by (auto simp: am_ord_timer_def e1_def cmp)
  show "am_ord_rx e1"
  proof (cases "am_dist e (am_rx_next_highest e) \<le> am_dist e x")
    case True
    then have e1: "e1 = e\<lparr>am_rx_next_highest := am_inc e x\<rparr>" by (simp add: e1_def cmp)
    show ?thesis using ord d True inc by (auto simp: am_ord_rx_def am_ord_inserted_def Let_def e1)
  next
    case False
    then have "e1 = e" by (simp add: e1_def cmp)
    then show ?thesis using ord False by (auto simp: am_ord_rx_def am_ord_inserted_def Let_def)
  qed
qed

text \<open>The search for the SDU to report next stops at the first that is not delivered.\<close>

lemma am_skip_delivered_first:
  assumes core: "am_rx_core e" and sn: "rlc_sn_ok (am_sn_modulus e) sn" and run: "am_skip_delivered e sn = Inr s"
    and t: "am_dist e sn \<le> k" "k < am_sn_modulus e" "\<not> cells_processed (am_cells e k)"
  shows "rlc_sn_ok (am_sn_modulus e) s" and "\<not> cells_processed (am_cells e (am_dist e s))"
    and "am_dist e sn \<le> am_dist e s" and "am_dist e s \<le> k"
proof -
  let ?m = "am_sn_modulus e" and ?P = "\<lambda>s. c_true (am_sdu_delivered e s)"
  note c = am_rx_coreD [OF core]
  define y where "y = (am_rx_next e + k) mod ?m"
  have k0: "0 \<le> k" using t(1) am_dist_range [OF c(3), of sn] by simp
  have y: "rlc_sn_ok ?m y" "am_dist e y = k" using c t(2) k0 am_dist_add [of k e] by (simp_all add: y_def rlc_sn_ok_def)
  then have "\<not> ?P y" using am_sdu_delivered_eq [OF core y(1)] t(3) by (simp add: c_true_def)
  from cyclic_search [where P = ?P, OF c(3) sn y(1) this] obtain r where
    r: "while_option ?P (\<lambda>x. c_rem (x + 1) ?m) sn = Some r" "rlc_sn_ok ?m r" "\<not> ?P r" "(r - sn) mod ?m \<le> (y - sn) mod ?m" by blast
  have "am_inc e = (\<lambda>x. c_rem (x + 1) ?m)" by (simp add: am_inc_def fun_eq_iff)
  with run r(1,2) have s: "s = r" by (simp add: am_skip_delivered_def am_sdu_delivered_eq [OF core])
  show "rlc_sn_ok ?m s" "\<not> cells_processed (am_cells e (am_dist e s))"
    using r(2,3) am_sdu_delivered_eq [OF core r(2)] by (simp_all add: s c_true_def)
  have "(am_dist e y - am_dist e sn) mod ?m = (y - sn) mod ?m" by (simp add: am_dist_def mod_simps)
  moreover have "(am_dist e y - am_dist e sn) mod ?m = k - am_dist e sn"
    using y(2) t am_dist_range [OF c(3), of sn] by (intro mod_pos_pos_trivial [THEN trans]) simp_all
  ultimately have le: "(r - sn) mod ?m \<le> k - am_dist e sn" using r(4) by simp
  have "am_dist e r = (am_dist e sn + (r - sn) mod ?m) mod ?m" by (simp add: am_dist_def mod_simps)
  also have "\<dots> = am_dist e sn + (r - sn) mod ?m"
    using le t(2) am_dist_range [OF c(3), of sn] c(3) by (intro mod_pos_pos_trivial) simp_all
  finally show "am_dist e sn \<le> am_dist e s" "am_dist e s \<le> k" using le c(3) s by simp_all
qed

text \<open>The numbers after a delivery, before and after the window moves.\<close>

lemma am_ord_rx_cong:
  assumes "am_rx_next e' = am_rx_next e" "am_tx_part e' = am_tx_part e" "am_marks e' = am_marks e"
  shows "am_dist e' = am_dist e" "am_window_size e' = am_window_size e" "am_sn_modulus e' = am_sn_modulus e"
    "am_rx_next_highest e' = am_rx_next_highest e" "am_rx_next_status_trigger e' = am_rx_next_status_trigger e"
    "am_t_reassembly_start e' = am_t_reassembly_start e"
  using assms by (simp_all add: am_tx_part_def am_marks_def am_dist_def fun_eq_iff)

lemma am_ord_shift:
  assumes core: "am_rx_core e" and ord: "am_ord_rx e" and t: "am_ord_timer e" and same: "am_tx_part e' = am_tx_part e" "am_marks e' = am_marks e"
    "am_rx_highest_status e' = am_rx_highest_status e"
    and next_: "am_rx_next e' = (am_rx_next e + c) mod am_sn_modulus e" and c: "0 \<le> c" "c \<le> am_window_size e"
    and lead: "\<forall>k. 0 \<le> k \<and> k < c \<longrightarrow> cells_processed (am_cells e k)"
    and cells: "\<forall>k. 0 \<le> k \<and> k < am_window_size e \<longrightarrow> am_cells e' k = (if c + k < am_window_size e then am_cells e (c + k) else [])"
  shows "am_ord_rx e'"
    and "am_t_reassembly_start e' \<noteq> 0 \<longrightarrow> am_dist e' (am_rx_next_status_trigger e') \<le> am_dist e' (am_rx_next_highest e') \<or>
      am_window_size e' < am_dist e' (am_rx_next_status_trigger e')"
proof -
  let ?nh = "am_dist e (am_rx_next_highest e)" and ?hs = "am_dist e (am_rx_highest_status e)" and ?w = "am_window_size e"
  let ?tr = "am_dist e (am_rx_next_status_trigger e)"
  note d = am_rx_coreD [OF core]
  have cfg: "am_window_size e' = ?w" "am_sn_modulus e' = am_sn_modulus e" using same by (simp_all add: am_tx_part_def)
  have sh: "am_dist e' y = (am_dist e y - c) mod am_sn_modulus e" for y using am_dist_shift [OF next_ cfg(2)] .
  have o: "?nh \<le> ?w" "0 < ?nh \<longrightarrow> am_cells e (?nh - 1) \<noteq> []" "\<forall>k. ?nh \<le> k \<and> k < ?w \<longrightarrow> am_cells e k = []" "?hs \<le> ?nh"
    "?hs < ?w \<longrightarrow> \<not> cells_processed (am_cells e ?hs)" using ord by (simp_all add: am_ord_rx_def Let_def)
  have r: "0 \<le> ?nh" "0 \<le> ?hs" "0 \<le> ?tr" "?tr < am_sn_modulus e" using am_dist_range [OF d(3)] by simp_all
  have chs: "c \<le> ?hs"
  proof (rule ccontr)
    assume "\<not> c \<le> ?hs"
    then have "cells_processed (am_cells e ?hs)" "?hs < ?w" using lead r c by simp_all
    with o(5) show False by simp
  qed
  have nh': "am_dist e' (am_rx_next_highest e') = ?nh - c" "am_dist e' (am_rx_highest_status e') = ?hs - c"
    using sh chs o(1,4) c d(1,2) same by (simp_all add: am_marks_def)
  have "am_cells e' (?nh - c - 1) = am_cells e (?nh - 1)" if "0 < ?nh - c" using that o(1) c cells by simp
  moreover have "am_cells e' k = []" if "?nh - c \<le> k" "k < ?w" for k using that o(3) c cells chs o(4) by simp
  moreover have "\<not> cells_processed (am_cells e' (?hs - c))" if "?hs - c < ?w"
    using that cells c chs o(5) by simp
  ultimately show "am_ord_rx e'" using nh' o c by (simp add: am_ord_rx_def Let_def cfg)
  show "am_t_reassembly_start e' \<noteq> 0 \<longrightarrow> am_dist e' (am_rx_next_status_trigger e') \<le> am_dist e' (am_rx_next_highest e') \<or>
      am_window_size e' < am_dist e' (am_rx_next_status_trigger e')"
  proof (intro impI)
    assume "am_t_reassembly_start e' \<noteq> 0"
    then have tr: "0 < ?tr" "?tr \<le> ?nh" using t same by (simp_all add: am_ord_timer_def am_marks_def)
    have e': "am_rx_next_status_trigger e' = am_rx_next_status_trigger e" using same by (simp add: am_marks_def)
    show "am_dist e' (am_rx_next_status_trigger e') \<le> am_dist e' (am_rx_next_highest e') \<or>
      am_window_size e' < am_dist e' (am_rx_next_status_trigger e')"
    proof (cases "c \<le> ?tr")
      case True
      then have "(?tr - c) mod am_sn_modulus e = ?tr - c" using r c(1) by (intro mod_pos_pos_trivial) simp_all
      then show ?thesis using tr nh' sh e' by simp
    next
      case False
      have "(?tr - c) mod am_sn_modulus e = (?tr - c + am_sn_modulus e) mod am_sn_modulus e" by simp
      also have "\<dots> = ?tr - c + am_sn_modulus e" using False c d(1) tr by (intro mod_pos_pos_trivial) simp_all
      finally show ?thesis using tr c d(1) sh e' cfg by simp
    qed
  qed
qed

lemma am_skip_ord:
  assumes core: "am_rx_core e" and nh: "am_dist e (am_rx_next_highest e) \<le> am_window_size e" "am_dist e x < am_dist e (am_rx_next_highest e)"
    and empty: "\<forall>k. am_dist e (am_rx_next_highest e) \<le> k \<and> k < am_window_size e \<longrightarrow> am_cells e k = []"
    and first: "am_dist e x \<noteq> 0 \<longrightarrow> \<not> cells_processed (am_cells e 0)" and x: "x = am_rx_highest_status e"
    and run: "am_skip_delivered e x = Inr s"
  shows "rlc_sn_ok (am_sn_modulus e) s" and "\<not> cells_processed (am_cells e (am_dist e s))"
    and "am_dist e s \<le> am_dist e (am_rx_next_highest e)"
proof -
  let ?nh = "am_dist e (am_rx_next_highest e)"
  note c = am_rx_coreD [OF core]
  have sn: "rlc_sn_ok (am_sn_modulus e) x" using c(7) x by simp
  have "\<exists>k. am_dist e x \<le> k \<and> k \<le> ?nh \<and> \<not> cells_processed (am_cells e k)"
  proof (cases "?nh < am_window_size e")
    case True
    then have "am_cells e ?nh = []" using empty by simp
    then show ?thesis using nh by (intro exI [of _ ?nh]) simp
  next
    case False
    then have w: "?nh = am_window_size e" using nh(1) by simp
    have wrap: "am_cells e (am_window_size e) = am_cells e 0" using am_cells_mod [OF c(4), of "am_window_size e"] by simp
    show ?thesis
    proof (cases "am_dist e x = 0")
      case False
      then show ?thesis using first wrap nh w by (intro exI [of _ "am_window_size e"]) simp
    next
      case True
      have "\<not> (\<forall>k. 0 \<le> k \<and> k < am_window_size e \<longrightarrow> cells_processed (am_cells e k))"
        using am_skip_delivered_none [OF core sn] run by auto
      then show ?thesis using True w by auto
    qed
  qed
  then obtain k where "am_dist e x \<le> k" "k \<le> ?nh" "\<not> cells_processed (am_cells e k)" by blast
  moreover have "?nh < am_sn_modulus e" using am_dist_range [OF c(3)] by simp
  ultimately show "rlc_sn_ok (am_sn_modulus e) s" "\<not> cells_processed (am_cells e (am_dist e s))" "am_dist e s \<le> ?nh"
    using am_skip_delivered_first [OF core sn run, of k] by auto
qed

lemma am_actions_ord:
  assumes inv: "am_rx_inv e" and x: "rlc_sn_ok (am_sn_modulus e) x" and ord: "am_ord_inserted e x" and t: "am_ord_timer e"
    and run: "am_reception_actions e x = Inr (e', out)"
  shows "am_ord e'"
proof -
  have core: "am_rx_core e" and nz: "\<not> cells_processed (am_cells e 0)" using inv by (simp_all add: am_rx_inv_def)
  define e1 where "e1 = (if am_sn_compare_rx e x (am_rx_next_highest e) \<ge> 0 then e\<lparr>am_rx_next_highest := am_inc e x\<rparr> else e)"
  note h = am_new_highest [OF core x, folded e1_def] and o1 = am_new_highest_ord [OF core x ord t, folded e1_def]
  have xw: "am_dist e x < am_window_size e" using ord by (simp add: am_ord_inserted_def Let_def)
  have pre1: "am_t_reassembly_start e1 \<noteq> 0 \<longrightarrow> am_dist e1 (am_rx_next_status_trigger e1) \<le> am_dist e1 (am_rx_next_highest e1) \<or>
      am_window_size e1 < am_dist e1 (am_rx_next_status_trigger e1)" using o1(2) by (simp add: am_ord_timer_def)
  have sfull: "am_sdu_full e1 x = Inr (am_full e (am_dist e x))" using am_sdu_full_eq [OF h(1), of x] x h by (simp add: am_full_def)
  show ?thesis
  proof (cases "am_full e (am_dist e x)")
    case False
    then have "am_reception_timer e1 = Inr e'"
      using run sfull unfolding am_reception_actions_def Let_def e1_def [symmetric] by (auto simp: c_bind_eq_Inr_conv)
    then show ?thesis by (rule am_timer_ord [OF h(1) o1(1) pre1])
  next
    case True
    have pre: "rlc_sn_ok (am_sn_modulus e1) x" "am_dist e1 x < am_window_size e1" "\<not> cells_processed (am_cells e1 (am_dist e1 x))"
      "am_sdu_full_loop (- 1) (am_cells e1 (am_dist e1 x))" using x xw True by (simp_all add: h am_full_def)
    obtain e2 out2 sdu bad n ps where r: "am_reassemble_and_deliver e1 x = Inr (e2, out2)" "am_rx_core e2" "am_rx_next e2 = am_rx_next e1"
      "am_rx_highest_status e2 = am_rx_highest_status e1" "am_tx_part e2 = am_tx_part e1" "am_marks e2 = am_marks e1"
      and cells2: "\<forall>k. 0 \<le> k \<and> k < am_window_size e1 \<longrightarrow>
        am_cells e2 k = (if k = am_dist e1 x then am_mark (am_cells e1 (am_dist e1 x)) else am_cells e1 k)"
      by (rule am_reassemble_ok [OF h(1) pre])
    note s2 = am_ord_rx_cong [OF r(3,5,6)]
    obtain e3 e4 where e3: "(if x = am_rx_highest_status e2
        then c_bind (am_skip_delivered e2 (am_rx_highest_status e2)) (\<lambda>s. Inr (e2\<lparr>am_rx_highest_status := s\<rparr>)) else Inr e2) = Inr e3"
      and e4: "(if x = am_rx_next e3
        then c_bind (am_free_delivered e3) (\<lambda>(rx, rx_next, count).
             Inr (e3\<lparr>am_rx_next := rx_next, am_rx := nr_rlc_rx_manager_set_start (nr_rlc_rx_manager_advance rx count) rx_next\<rparr>))
        else Inr e3) = Inr e4" and e5: "am_reception_timer e4 = Inr e'"
      using run True sfull unfolding am_reception_actions_def Let_def e1_def [symmetric]
      by (simp add: c_bind_eq_Inr_conv r(1)) (elim exE conjE; blast)
    let ?nh = "am_dist e2 (am_rx_next_highest e2)" and ?w = "am_window_size e2"
    have em: "am_cells e2 k = [] \<longleftrightarrow> am_cells e1 k = []" if "0 \<le> k" "k < ?w" for k
      using cells2 that s2(2) by (cases "k = am_dist e1 x") (simp_all add: am_mark_def)
    have nh: "0 \<le> ?nh" using am_dist_range [OF am_rx_coreD(3) [OF r(2)]] by simp
    have o: "?nh \<le> ?w" "am_dist e2 x < ?nh" "0 < ?nh \<longrightarrow> am_cells e2 (?nh - 1) \<noteq> []"
      "\<forall>k. ?nh \<le> k \<and> k < ?w \<longrightarrow> am_cells e2 k = []" "am_dist e2 (am_rx_highest_status e2) \<le> ?nh"
      using o1(1,3) em [of "?nh - 1"] em nh s2 r(4) h(3) by (simp_all add: am_ord_rx_def Let_def)
    have "am_ord_rx e3 \<and> am_rx_core e3 \<and> am_cells e3 = am_cells e2 \<and> am_rx_next e3 = am_rx_next e2 \<and> am_tx_part e3 = am_tx_part e2 \<and> am_marks e3 = am_marks e2"
    proof (cases "x = am_rx_highest_status e2")
      case hs: True
      have first: "am_dist e2 x \<noteq> 0 \<longrightarrow> \<not> cells_processed (am_cells e2 0)"
        using cells2 nz am_rx_coreD(2) [OF core] h s2 by simp
      obtain s where s: "am_skip_delivered e2 x = Inr s" "e3 = e2\<lparr>am_rx_highest_status := s\<rparr>"
        using e3 hs by (auto simp: c_bind_eq_Inr_conv)
      note k = am_skip_ord [OF r(2) o(1,2,4) first hs s(1)]
      show ?thesis using k o am_rx_core_numbers(2) [OF r(2) k(1)] by (simp add: s(2) am_ord_rx_def Let_def am_marks_def)
    next
      case False
      then have "am_dist e2 (am_rx_highest_status e2) \<noteq> am_dist e2 x"
        using am_dist_sn [OF am_rx_coreD(3,7) [OF r(2)]] am_dist_sn [OF am_rx_coreD(3) [OF r(2)], of x] pre(1) s2(3) by metis
      then have "am_dist e2 (am_rx_highest_status e2) < ?w \<longrightarrow> \<not> cells_processed (am_cells e2 (am_dist e2 (am_rx_highest_status e2)))"
        using o1(1) am_dist_range [OF am_rx_coreD(3) [OF core]] cells2 h(3) s2 r(4) by (simp add: am_ord_rx_def Let_def)
      then show ?thesis using False e3 o r(2) by (simp add: am_ord_rx_def Let_def)
    qed
    then have o3: "am_ord_rx e3" "am_rx_core e3" "am_cells e3 = am_cells e2" "am_rx_next e3 = am_rx_next e2" "am_tx_part e3 = am_tx_part e2"
      "am_marks e3 = am_marks e2" by simp_all
    have t3: "am_ord_timer e3" using o1(2) s2 am_ord_rx_cong [OF o3(4-6)] by (simp add: am_ord_timer_def)
    have nz3: "\<not> cells_processed (am_cells e3 0)" if "x \<noteq> am_rx_next e3"
      using that cells2 nz am_rx_coreD(2) [OF core] h o3(3,4) r(3) am_dist_0 [OF core x] by simp
    obtain e4' d where f: "(if x = am_rx_next e3
        then c_bind (am_free_delivered e3) (\<lambda>(rx, rx_next, count).
             Inr (e3\<lparr>am_rx_next := rx_next, am_rx := nr_rlc_rx_manager_set_start (nr_rlc_rx_manager_advance rx count) rx_next\<rparr>))
        else Inr e3) = Inr e4'" "am_rx_core e4'" "am_tx_part e4' = am_tx_part e3" "0 \<le> d" "d \<le> am_window_size e3"
      "am_rx_next e4' = (am_rx_next e3 + d) mod am_sn_modulus e3" "am_rx_highest_status e4' = am_rx_highest_status e3"
      "am_marks e4' = am_marks e3" "\<forall>k. 0 \<le> k \<and> k < d \<longrightarrow> cells_processed (am_cells e3 k)"
      "\<forall>k. 0 \<le> k \<and> k < am_window_size e3 \<longrightarrow> am_cells e4' k = (if d + k < am_window_size e3 then am_cells e3 (d + k) else [])"
      by (rule am_advance_part [OF o3(2) nz3])
    have "e4' = e4" using f(1) e4 by simp
    then show ?thesis using am_timer_ord [OF f(2) _ _ e5 [folded \<open>e4' = e4\<close>]] am_ord_shift [OF o3(2,1) t3 f(3,8,7,6,4,5,9,10)] by blast
  qed
qed

lemma am_ord_frame [simp]:
  "am_ord (e\<lparr>am_status_triggered := b\<rparr>) = am_ord e" "am_ord (am_stats g e) = am_ord e"
  by (simp_all add: am_ord_def am_ord_rx_def am_ord_timer_def am_stats_def am_dist_def am_cells_def)

lemma am_store_ord:
  assumes inv: "am_rx_inv e" and sn: "rlc_sn_ok (am_sn_modulus e) sn" and so: "0 \<le> so" and h: "h \<le> length buffer"
    and ord: "am_ord e" and run: "am_store_pdu e buffer poll sn so is_first is_last h = Inr (e', out)"
  shows "am_ord e'"
proof -
  obtain p where p: "p = nr_rlc_new_pdu sn so is_first is_last (drop h buffer)" by blast
  have core: "am_rx_core e" using inv by (simp add: am_rx_inv_def)
  show ?thesis
  proof (cases rule: am_store_cases [OF inv sn so h p, where poll = poll, case_names discard insert])
    case (discard e1)
    then have "e1 = e'" using run by simp
    then show ?thesis using ord discard am_ord_rx_cong [OF discard(4,5,7)] by (simp add: am_ord_def am_ord_rx_def am_ord_timer_def)
  next
    case (insert e1)
    note c = am_ord_rx_cong [OF insert(8,9,12)]
    have cell: "am_cell_ok p" "pdu_sn p = sn" "pdu_data p \<noteq> None" using p so insert(4) h by (simp_all add: am_cell_ok_def nr_rlc_new_pdu_def)
    have nb: "insert_before f y l \<noteq> []" for f :: "nr_rlc_pdu \<Rightarrow> bool" and y l by (cases l) simp_all
    have cells: "am_cells e1 k = am_inserted e (am_dist e sn) p k" if "0 \<le> k" "k < am_window_size e" for k using insert(6) that by simp
    let ?nh = "am_dist e (am_rx_next_highest e)" and ?hs = "am_dist e (am_rx_highest_status e)" and ?w = "am_window_size e"
    have o: "?nh \<le> ?w" "0 < ?nh \<longrightarrow> am_cells e (?nh - 1) \<noteq> []" "\<forall>k. ?nh \<le> k \<and> k < ?w \<longrightarrow> am_cells e k = []" "?hs \<le> ?nh"
      "?hs < ?w \<longrightarrow> \<not> cells_processed (am_cells e ?hs)" using ord by (simp_all add: am_ord_def am_ord_rx_def Let_def)
    have r: "0 \<le> ?nh" "0 \<le> ?hs" "0 \<le> am_dist e sn" using am_dist_range [OF am_rx_coreD(3) [OF core]] by simp_all
    have "am_cells e1 (am_dist e sn) \<noteq> []" using cells [OF r(3) insert(3)] nb by (simp add: am_inserted_def)
    moreover have "am_cells e1 (?nh - 1) \<noteq> []" if "0 < ?nh" using that o(1,2) cells [of "?nh - 1"] nb by (auto simp: am_inserted_def)
    moreover have "am_cells e1 k = []" if "?nh \<le> k" "k < ?w" "k \<noteq> am_dist e sn" for k
      using that o(3) cells [of k] r by (simp add: am_inserted_def)
    moreover have "\<not> cells_processed (am_cells e1 ?hs)" if "?hs < ?w"
      using that o(5) cells [OF r(2) that] am_inserted_processed [OF core sn insert(3) cell] by simp
    ultimately have "am_ord_inserted e1 sn" using o insert(3,10) by (simp add: am_ord_inserted_def Let_def c)
    moreover have "am_ord_timer e1" using ord by (simp add: am_ord_def am_ord_timer_def c)
    moreover obtain e2 where "am_reception_actions e1 sn = Inr (e2, out)" "e' = (if poll then e2\<lparr>am_status_triggered := True\<rparr> else e2)"
      using run insert(1) by (auto simp: c_bind_eq_Inr_conv)
    ultimately show ?thesis using am_actions_ord [OF insert(2)] sn c(3) by simp
  qed
qed

text \<open>The timer that triggers a status report.\<close>

lemma am_check_t_reassembly_ok:
  assumes inv: "am_rx_inv e" and ord: "am_ord e"
  obtains e' where "am_check_t_reassembly e = Inr e'" and "am_rx_inv e'" and "am_ord e'" and "am_tx_part e' = am_tx_part e"
    and "am_cells e' = am_cells e" and "am_rx_next e' = am_rx_next e"
proof (cases "am_t_reassembly_start e = 0 \<or> am_t_current e \<le> am_t_reassembly_start e + of_int (am_t_reassembly e)")
  case True
  then show thesis using inv ord by (intro that [of e]) (simp_all add: am_check_t_reassembly_def)
next
  case False
  let ?tr = "am_rx_next_status_trigger e" and ?nh = "am_dist e (am_rx_next_highest e)" and ?w = "am_window_size e"
  define e0 where "e0 = e\<lparr>am_t_reassembly_start := 0\<rparr>"
  have core: "am_rx_core e" "am_rx_core e0" and nz: "\<not> cells_processed (am_cells e 0)" using inv by (simp_all add: am_rx_inv_def e0_def)
  note c = am_rx_coreD [OF core(1)]
  have same: "am_dist e0 = am_dist e" "am_cells e0 = am_cells e" "am_sn_modulus e0 = am_sn_modulus e" "am_window_size e0 = ?w" by (simp_all add: e0_def)
  have o: "?nh \<le> ?w" "0 < ?nh \<longrightarrow> am_cells e (?nh - 1) \<noteq> []" "\<forall>k. ?nh \<le> k \<and> k < ?w \<longrightarrow> am_cells e k = []"
    using ord by (simp_all add: am_ord_def am_ord_rx_def Let_def)
  have tr: "0 < am_dist e ?tr" "am_dist e ?tr \<le> ?nh" using ord False by (simp_all add: am_ord_def am_ord_timer_def)
  have "am_cells e ?w = am_cells e 0" using am_cells_mod [OF c(4), of ?w] by simp
  then have k: "\<not> cells_processed (am_cells e ?nh)" using o(1,3) nz am_dist_range [OF c(3)] by (cases "?nh < ?w") auto
  obtain s where s: "am_skip_delivered e0 ?tr = Inr s"
    using am_skip_delivered_some [OF core(2), of ?tr 0] c(2,6) nz by (auto simp: same)
  have sk: "rlc_sn_ok (am_sn_modulus e) s" "\<not> cells_processed (am_cells e (am_dist e s))" "am_dist e s \<le> ?nh"
    using am_skip_delivered_first [OF core(2) _ s, of ?nh] c(6) tr(2) k am_dist_range [OF c(3)] by (simp_all add: same)
  define e1 where "e1 = e0\<lparr>am_rx_highest_status := s, am_status_triggered := True\<rparr>"
  have core1: "am_rx_core e1" using am_rx_core_numbers(2) [OF core(2), of s] sk(1) by (simp add: e1_def same)
  have same1: "am_dist e1 = am_dist e" "am_cells e1 = am_cells e" "am_sn_modulus e1 = am_sn_modulus e" "am_window_size e1 = ?w"
    "am_rx_next_highest e1 = am_rx_next_highest e" "am_rx_next e1 = am_rx_next e" "am_tx_part e1 = am_tx_part e" "am_rx_highest_status e1 = s"
    "am_t_reassembly_start e1 = 0" by (simp_all add: e1_def e0_def am_dist_def fun_eq_iff)
  have o1: "am_ord_rx e1" using o sk by (simp add: am_ord_rx_def Let_def same1)
  obtain missing where m: "am_sdu_has_missing_bytes e1 s = Inr missing" using am_sdu_has_missing_bytes_ok [OF core1] sk(1) by (auto simp: same1)
  define b where "b \<longleftrightarrow> am_sn_compare_rx e1 (am_rx_next_highest e) (am_inc e1 s) > 0 \<or> (am_rx_next_highest e = am_inc e1 s \<and> missing)"
  define e2 where "e2 = (if b then am_start_t_reassembly e1 else e1)"
  have e0: "am_rx_next_status_trigger e0 = ?tr" "am_rx_next_highest e0 = am_rx_next_highest e" by (simp_all add: e0_def)
  have d1: "am_dist e (am_inc e1 s) = am_dist e s + 1"
    using am_dist_inc [OF core1, of s] sk o(1) c(1,2) by (simp add: same1)
  have "0 < ?nh" if b
    using that d1 am_compare_rx_eq [OF core1, of "am_rx_next_highest e" "am_inc e1 s"] am_inc_ok [OF core1, of s] c(8) sk(1)
      am_dist_range [OF c(3), of s] by (auto simp: b_def same1 rlc_sn_ok_def)
  then have "am_ord e2" using o1 am_start_ord [OF o1] by (simp add: e2_def same1 am_ord_def am_ord_timer_def)
  moreover have "am_rx_core e2" using core1 am_rx_core_numbers(3) [of "e1\<lparr>am_t_reassembly_start := am_t_current e1\<rparr>" "am_rx_next_highest e1"] c(8)
    by (simp add: e2_def am_start_t_reassembly_def same1)
  moreover have "am_cells e2 = am_cells e1" "am_rx_next e2 = am_rx_next e1" "am_tx_part e2 = am_tx_part e1"
    by (simp_all add: e2_def am_start_t_reassembly_def)
  moreover have "am_check_t_reassembly e = Inr e2"
    using False s m unfolding am_check_t_reassembly_def Let_def e0_def [symmetric] by (simp add: e0 e1_def [symmetric] b_def [symmetric] e2_def)
  ultimately show thesis using that [of e2] nz same1 by (simp add: am_rx_inv_def)
qed

end
