(* ===== verification/Rlc_Am_Status.thy ===== *)
theory Rlc_Am_Status
  imports Rlc_Am_Order
begin

text \<open>
  The status reports of the acknowledged mode: the search for missing parts ends, and the report fits in
  its buffer.
\<close>

subsection \<open>The search for missing parts\<close>

text \<open>The distance of \<open>rx_highest_status\<close>, and a pointer to a received segment up to there.\<close>

definition am_hs :: "nr_rlc_entity_am \<Rightarrow> int" where
  "am_hs e = am_dist e (am_rx_highest_status e)"

definition am_ptr_at :: "nr_rlc_entity_am \<Rightarrow> int \<Rightarrow> nr_rlc_pdu list \<Rightarrow> bool" where
  "am_ptr_at e k l \<longleftrightarrow> l \<noteq> [] \<and> 0 \<le> k \<and> k < am_window_size e \<and> k \<le> am_hs e \<and> (\<exists>pre. am_cells e k = pre @ l)"

definition am_ptr :: "nr_rlc_entity_am \<Rightarrow> nr_rlc_pdu list \<Rightarrow> bool" where
  "am_ptr e l \<longleftrightarrow> l = [] \<or> (\<exists>k. am_ptr_at e k l)"

lemma am_ptr_sn:
  assumes "am_rx_core e" and "am_ptr_at e k (c # cs)"
  shows "pdu_sn c = (am_rx_next e + k) mod am_sn_modulus e" and "rlc_sn_ok (am_sn_modulus e) (pdu_sn c)" and "am_dist e (pdu_sn c) = k"
proof -
  note r = am_rx_coreD [OF assms(1)]
  obtain pre where p: "am_cells e k = pre @ c # cs" and k: "0 \<le> k" "k < am_window_size e" using assms(2) by (auto simp: am_ptr_at_def)
  from am_core_slot [OF assms(1) k] p show sn: "pdu_sn c = (am_rx_next e + k) mod am_sn_modulus e" by (simp add: am_slot_ok_def)
  show "rlc_sn_ok (am_sn_modulus e) (pdu_sn c)" using r by (simp add: sn rlc_sn_ok_def)
  show "am_dist e (pdu_sn c) = k" unfolding sn using k r by (intro am_dist_add) simp_all
qed

lemma am_hs_range:
  assumes "am_rx_core e" and "am_ord e"
  shows "0 \<le> am_hs e" "am_hs e \<le> am_window_size e" "am_hs e = am_window_size e \<Longrightarrow> am_cells e (am_window_size e - 1) \<noteq> []"
  using assms am_dist_range [OF am_rx_coreD(3) [OF assms(1)]] am_rx_coreD(2) [OF assms(1)]
  by (auto simp: am_hs_def am_ord_def am_ord_rx_def Let_def)

text \<open>The search over slots.\<close>

lemma search_rx_pdu_ok:
  assumes core: "am_rx_core e" and f: "rlc_sn_ok (am_sn_modulus e) first" "am_dist e first \<le> am_hs e"
  obtains j where "search_rx_pdu e first (am_rx_highest_status e) = Inr (am_cells e j)" and "am_dist e first \<le> j" and "j \<le> am_hs e"
    and "\<forall>i. am_dist e first \<le> i \<and> i < j \<longrightarrow> am_cells e i = []"
proof -
  let ?m = "am_sn_modulus e" and ?hs = "am_rx_highest_status e"
  let ?P = "\<lambda>sn. sn \<noteq> ?hs \<and> nr_rlc_rx_manager_get_pdu_from_sn (am_rx e) sn = Inr []"
  note c = am_rx_coreD [OF core]
  have "\<not> ?P ?hs" by simp
  from cyclic_search [where P = ?P, OF c(3) f(1) c(7) this] obtain r where
    r: "while_option ?P (\<lambda>x. c_rem (x + 1) ?m) first = Some r" "rlc_sn_ok ?m r"
      "(r - first) mod ?m \<le> (?hs - first) mod ?m" "\<forall>k. 0 \<le> k \<and> k < (r - first) mod ?m \<longrightarrow> ?P ((first + k) mod ?m)" by blast
  have d: "(?hs - first) mod ?m = am_hs e - am_dist e first"
    using mod_dist_diff [OF c(3), of first "am_rx_next e" ?hs] f(2) by (simp add: am_dist_def am_hs_def)
  define q where "q = (r - first) mod ?m"
  have q: "0 \<le> q" "q \<le> am_hs e - am_dist e first" using r(3) d c(3) by (simp_all add: q_def)
  have shift: "am_dist e ((first + k) mod ?m) = am_dist e first + k" if "0 \<le> k" "k \<le> q" for k
  proof -
    have "am_dist e ((first + k) mod ?m) = (am_dist e first + k) mod ?m" by (simp add: am_dist_def mod_simps algebra_simps)
    moreover have "am_hs e < ?m" using am_dist_range [OF c(3)] by (simp add: am_hs_def)
    ultimately show ?thesis using that q am_dist_range [OF c(3), of first] by simp
  qed
  have "(first + q) mod ?m = r" using r(2) by (simp add: q_def mod_simps rlc_sn_ok_def)
  then have dr: "am_dist e r = am_dist e first + q" using shift [of q] q by simp
  have inc: "am_inc e = (\<lambda>x. c_rem (x + 1) ?m)" by (simp add: am_inc_def fun_eq_iff)
  have "search_rx_pdu e first ?hs = Inr (am_cells e (am_dist e r))"
    by (simp add: search_rx_pdu_def inc r(1) am_get_ok [OF core r(2)])
  moreover have "am_cells e i = []" if i: "am_dist e first \<le> i" "i < am_dist e r" for i
  proof -
    let ?x = "(first + (i - am_dist e first)) mod ?m"
    have "?P ?x" using r(4) i dr by (simp add: q_def)
    moreover have "am_dist e ?x = i" using shift [of "i - am_dist e first"] i dr by simp
    moreover have "rlc_sn_ok ?m ?x" using c(3) by (simp add: rlc_sn_ok_def)
    ultimately show ?thesis using am_get_ok [OF core, of ?x] by simp
  qed
  ultimately show thesis using dr q by (intro that [of "am_dist e r"]) auto
qed

text \<open>
  The next segment: of the same number, or of one behind. The slot of a \<open>rx_highest_status\<close> at the end of the
  window is that of \<open>rx_next\<close>; it is reached from the last number of the window only.
\<close>

lemma get_next_rx_pdu_ok:
  assumes core: "am_rx_core e" and ord: "am_ord e" and p: "am_ptr_at e k (c # cs)"
  obtains l where "get_next_rx_pdu e c cs = Inr l" and "l = [] \<or>
      (l = cs \<and> am_ptr_at e k l) \<or> (\<exists>j. k < j \<and> am_ptr_at e j l) \<or> (k = am_window_size e - 1 \<and> am_ptr_at e 0 l)"
proof (cases "cs = []")
  case False
  then have "am_ptr_at e k cs" using p by (auto simp: am_ptr_at_def intro: exI [of _ "_ @ [c]"])
  then show thesis using False by (intro that [of cs]) (simp_all add: get_next_rx_pdu_def)
next
  case True
  note r = am_rx_coreD [OF core] and sn = am_ptr_sn [OF core p] and hs = am_hs_range [OF core ord]
  show thesis
  proof (cases "pdu_sn c = am_rx_highest_status e")
    case True
    then show thesis using \<open>cs = []\<close> by (intro that [of "[]"]) (simp_all add: get_next_rx_pdu_def)
  next
    case False
    have k: "0 \<le> k" "k < am_window_size e" "k \<le> am_hs e" using p by (simp_all add: am_ptr_at_def)
    have "k \<noteq> am_hs e" using False sn am_dist_sn [OF r(3,7)] by (auto simp: am_hs_def)
    then have lt: "k < am_hs e" using k by simp
    have inc: "am_dist e (am_inc e (pdu_sn c)) = k + 1" using am_dist_inc [OF core sn(2)] sn(3) k r(1) by simp
    have "rlc_sn_ok (am_sn_modulus e) (am_inc e (pdu_sn c))" using am_inc_ok [OF core] sn(2) by (simp add: rlc_sn_ok_def)
    moreover have "am_dist e (am_inc e (pdu_sn c)) \<le> am_hs e" using inc lt by simp
    ultimately obtain j where s: "search_rx_pdu e (am_inc e (pdu_sn c)) (am_rx_highest_status e) = Inr (am_cells e j)"
      "am_dist e (am_inc e (pdu_sn c)) \<le> j" "j \<le> am_hs e" "\<forall>i. am_dist e (am_inc e (pdu_sn c)) \<le> i \<and> i < j \<longrightarrow> am_cells e i = []"
      by (rule search_rx_pdu_ok [OF core])
    note j = s [unfolded inc]
    have get: "get_next_rx_pdu e c cs = Inr (am_cells e j)" using \<open>cs = []\<close> False j(1) by (simp add: get_next_rx_pdu_def)
    show thesis
    proof (cases "j < am_window_size e")
      case True
      then have "am_cells e j = [] \<or> am_ptr_at e j (am_cells e j)" using j(2,3) k by (auto simp: am_ptr_at_def)
      then show thesis using j(2) by (intro that [OF get]) auto
    next
      case False
      then have jw: "j = am_window_size e" "am_hs e = am_window_size e" using j(3) hs(2) by simp_all
      have "k = am_window_size e - 1" using j(4) [rule_format, of "am_window_size e - 1"] hs(3) [OF jw(2)] jw(1) k by linarith
      moreover have "am_cells e j = am_cells e 0" using am_cells_mod [OF r(4), of j] by (simp add: jw)
      moreover have "am_cells e 0 = [] \<or> am_ptr_at e 0 (am_cells e 0)" using r(2) hs(1) by (auto simp: am_ptr_at_def)
      ultimately show thesis by (intro that [OF get]) auto
    qed
  qed
qed

text \<open>What a search returns: nothing, or a range of sequence numbers and where to go on.\<close>

definition md_ok :: "nr_rlc_entity_am \<Rightarrow> missing_data \<Rightarrow> bool" where
  "md_ok e m \<longleftrightarrow> md_sn_start m = - 1 \<or>
     (rlc_sn_ok (am_sn_modulus e) (md_sn_start m) \<and> rlc_sn_ok (am_sn_modulus e) (md_sn_end m) \<and> am_ptr e (md_next m))"

lemma am_dec_ok: "am_rx_core e \<Longrightarrow> rlc_sn_ok (am_sn_modulus e) x \<Longrightarrow> rlc_sn_ok (am_sn_modulus e) (am_dec e x)"
  using am_rx_coreD(3) [of e] by (simp add: am_dec_def rlc_sn_ok_def)

lemma report_if_ok: "md_ok e m \<Longrightarrow> md_ok e (report_if e sn m)"
  by (simp add: report_if_def md_ok_def nothing_missing_def)

lemma set_end_ok:
  assumes "am_rx_core e" and "rlc_sn_ok (am_sn_modulus e) sn" and p: "am_ptr_at e k (c # cs)"
  shows "md_ok e (set_end_different_sdu e sn so c cs)"
  using am_dec_ok [OF assms(1)] assms(2) am_ptr_sn [OF assms(1) p] am_rx_coreD(7) [OF assms(1)] p
  by (auto simp: set_end_different_sdu_def Let_def md_ok_def am_ptr_def)

definition nm_state :: "nr_rlc_entity_am \<Rightarrow> (missing_data + (nr_rlc_pdu list \<times> int \<times> bool)) c_result \<Rightarrow> bool" where
  "nm_state e s \<longleftrightarrow> (\<exists>m. s = Inr (Inl m) \<and> md_ok e m) \<or> (\<exists>l mx lr k. s = Inr (Inr (l, mx, lr)) \<and> am_ptr_at e k l)"

definition nm_left :: "nr_rlc_entity_am \<Rightarrow> (missing_data + (nr_rlc_pdu list \<times> int \<times> bool)) c_result \<Rightarrow> (int \<times> nat) option" where
  "nm_left e s = (case s of Inr (Inr (c # cs, _, _)) \<Rightarrow> Some (am_window_size e - am_dist e (pdu_sn c), length (c # cs)) | _ \<Rightarrow> None)"

lemma next_pdu_step_ok:
  assumes core: "am_rx_core e" and ord: "am_ord e" and p: "am_ptr_at e k (c # cs)"
  shows "nm_state e (next_pdu_step e c cs mx lr) \<and>
    (\<forall>l mx' lr'. next_pdu_step e c cs mx lr = Inr (Inr (l, mx', lr')) \<longrightarrow> am_ptr_at e k l \<and> length l < length (c # cs) \<or> am_ptr_at e (k + 1) l)"
proof -
  note r = am_rx_coreD [OF core] and sn = am_ptr_sn [OF core p]
  obtain l where l: "get_next_rx_pdu e c cs = Inr l" "l = [] \<or> (l = cs \<and> am_ptr_at e k l) \<or> (\<exists>j. k < j \<and> am_ptr_at e j l) \<or>
      (k = am_window_size e - 1 \<and> am_ptr_at e 0 l)"
    by (rule get_next_rx_pdu_ok [OF core ord p])
  define mx' where "mx' = max mx (pdu_so c + pdu_size c - 1)"
  define lr' where "lr' = (lr \<or> pdu_is_last c)"
  define sn1 where "sn1 = (if lr' then am_inc e (pdu_sn c) else pdu_sn c)"
  define so1 where "so1 = (if lr' then 0 else mx' + 1)"
  have k: "0 \<le> k" "k < am_window_size e" using p by (simp_all add: am_ptr_at_def)
  have inc: "rlc_sn_ok (am_sn_modulus e) (am_inc e (pdu_sn c))" using am_inc_ok [OF core] sn(2) by (simp add: rlc_sn_ok_def)
  have dinc: "am_dist e (am_inc e (pdu_sn c)) = k + 1" using am_dist_inc [OF core sn(2)] sn(3) k r(1) by simp
  have ok1: "rlc_sn_ok (am_sn_modulus e) sn1" using inc sn(2) by (simp add: sn1_def)
  have step: "next_pdu_step e c cs mx lr = (case l of
           [] \<Rightarrow>
             let (sn_start, so_start) = (if pdu_data c = None then (am_inc e (pdu_sn c), 0) else (sn1, so1))
             in Inr (Inl (report_if e sn_start
                  \<lparr>md_sn_start = sn_start, md_so_start = so_start, md_sn_end = am_dec e (am_rx_highest_status e),
                   md_so_end = 0xffff, md_next = []\<rparr>))
         | d # ds \<Rightarrow>
             if pdu_sn d = pdu_sn c \<and> mx' \<ge> pdu_so d - 1 then Inr (Inr (l, mx', lr'))
             else if pdu_sn d = am_inc e (pdu_sn c) \<and> lr' \<and> pdu_is_first d then Inr (Inr (l, 0, False))
             else if pdu_sn d = pdu_sn c
             then Inr (Inl (report_if e (pdu_sn c)
                    \<lparr>md_sn_start = pdu_sn c, md_so_start = mx' + 1, md_sn_end = pdu_sn c, md_so_end = pdu_so d - 1, md_next = l\<rparr>))
             else Inr (Inl (report_if e sn1 (set_end_different_sdu e sn1 so1 d ds))))"
    unfolding next_pdu_step_def l(1) Let_def mx'_def [symmetric] lr'_def [symmetric] sn1_def so1_def c_bind_simps
    by (cases lr'; cases l) simp_all
  show ?thesis
  proof (cases l)
    case Nil
    have "md_ok e (report_if e x \<lparr>md_sn_start = x, md_so_start = y, md_sn_end = am_dec e (am_rx_highest_status e), md_so_end = 0xffff, md_next = []\<rparr>)"
      if "rlc_sn_ok (am_sn_modulus e) x" for x y
      using that am_dec_ok [OF core r(7)] by (intro report_if_ok) (simp add: md_ok_def am_ptr_def)
    then show ?thesis using ok1 inc by (simp add: step Nil nm_state_def)
  next
    case (Cons d ds)
    from l(2) Cons obtain j where j: "am_ptr_at e j (d # ds)" "j = k \<and> ds = tl cs \<and> length (d # ds) < length (c # cs) \<or> k < j \<or> (k = am_window_size e - 1 \<and> j = 0)"
      by fastforce
    note snd = am_ptr_sn [OF core j(1)]
    have same: "j = k" if "pdu_sn d = pdu_sn c" using that snd(3) sn(3) by simp
    have next1: "j = k + 1" if "pdu_sn d = am_inc e (pdu_sn c)" using that snd(3) dinc by simp
    have w: "1 < am_window_size e" by (rule r(2))
    have a: "md_ok e (report_if e (pdu_sn c) \<lparr>md_sn_start = pdu_sn c, md_so_start = mx' + 1, md_sn_end = pdu_sn c, md_so_end = pdu_so d - 1, md_next = d # ds\<rparr>)"
      using j(1) sn(2) by (intro report_if_ok) (auto simp: md_ok_def am_ptr_def)
    have b: "md_ok e (report_if e sn1 (set_end_different_sdu e sn1 so1 d ds))"
      by (intro report_if_ok set_end_ok [OF core ok1 j(1)])
    show ?thesis
      using a b j same next1 w k unfolding step Cons by (auto simp: nm_state_def split: if_splits)
  qed
qed

lemma next_missing_loop_ok:
  assumes core: "am_rx_core e" and ord: "am_ord e" and p: "am_ptr_at e k (c # cs)"
  shows "\<exists>m. next_missing_loop e (c # cs) = Inr m \<and> md_ok e m"
proof -
  let ?b = "\<lambda>s :: (missing_data + (nr_rlc_pdu list \<times> int \<times> bool)) c_result. case s of Inr (Inr _) \<Rightarrow> True | _ \<Rightarrow> False"
  let ?f = "\<lambda>s. case s of Inr (Inr (c # cs, mx, lr)) \<Rightarrow> next_pdu_step e c cs mx lr | _ \<Rightarrow> Inl NullDeref"
  let ?w = "am_window_size e"
  define left where "left = (\<lambda>s. case nm_left e s of Some (a, n) \<Rightarrow> (nat a, n) | None \<Rightarrow> (0, 0 :: nat))"
  have step: "nm_state e (?f s) \<and> (left (?f s), left s) \<in> less_than <*lex*> less_than" if st: "nm_state e s" and b: "?b s" for s
  proof -
    from st b obtain d ds mx lr j where s: "s = Inr (Inr (d # ds, mx, lr))" and pt: "am_ptr_at e j (d # ds)"
      by (auto simp: nm_state_def am_ptr_at_def split: sum.splits) (metis am_ptr_at_def list.exhaust)
    note ok = next_pdu_step_ok [OF core ord pt, of mx lr]
    have left_s: "left s = (nat (?w - j), length (d # ds))"
      using am_ptr_sn [OF core pt] by (simp add: left_def nm_left_def s)
    have jw: "j < ?w" using pt by (simp add: am_ptr_at_def)
    have "(left (?f s), left s) \<in> less_than <*lex*> less_than"
    proof (cases "?b (?f s)")
      case False
      then have "left (?f s) = (0, 0)" by (auto simp: left_def nm_left_def split: sum.splits)
      then show ?thesis using jw left_s by simp
    next
      case True
      with ok obtain l mx' lr' where n: "next_pdu_step e d ds mx lr = Inr (Inr (l, mx', lr'))"
        "am_ptr_at e j l \<and> length l < length (d # ds) \<or> am_ptr_at e (j + 1) l"
        by (auto simp: s split: sum.splits)
      then obtain j' where j': "am_ptr_at e j' l" "j' = j \<and> length l < length (d # ds) \<or> j' = j + 1" by blast
      then obtain a as where l: "l = a # as" by (cases l) (auto simp: am_ptr_at_def)
      have "left (?f s) = (nat (?w - j'), length l)"
        using am_ptr_sn [OF core j'(1) [unfolded l]] by (simp add: left_def nm_left_def s n(1) l)
      then show ?thesis using j'(2) left_s jw by auto
    qed
    with ok show ?thesis by (simp add: s)
  qed
  let ?s0 = "Inr (Inr (c # cs, 0, False))"
  have st0: "nm_state e ?s0" using p by (auto simp: nm_state_def)
  have "{(t, s). (nm_state e s \<and> ?b s) \<and> t = ?f s} \<subseteq> inv_image (less_than <*lex*> less_than) left"
    using step by (auto simp: in_inv_image simp del: in_lex_prod)
  then have "wf {(t, s). (nm_state e s \<and> ?b s) \<and> t = ?f s}"
    by (rule wf_subset [rotated]) (intro wf_inv_image wf_lex_prod wf_less_than)
  then obtain t where t: "while_option ?b ?f ?s0 = Some t"
    using wf_while_option_Some [of "nm_state e" ?b ?f ?s0] step st0 by blast
  have "nm_state e t" by (rule while_option_rule [where P = "nm_state e", OF _ t st0]) (use step in blast)
  moreover have "\<not> ?b t" by (rule while_option_stop [OF t])
  ultimately obtain m where m: "t = Inr (Inl m)" "md_ok e m" by (auto simp: nm_state_def)
  show ?thesis using t m by (simp add: next_missing_loop_def)
qed

lemma next_missing_ok:
  assumes core: "am_rx_core e" and ord: "am_ord e" and p: "am_ptr_at e k (c # cs)"
  shows "\<exists>m. next_missing e c cs b = Inr m \<and> md_ok e m"
  using next_missing_loop_ok [OF core ord p] report_if_ok [OF set_end_ok [OF core am_rx_coreD(5) [OF core] p]]
  by (auto simp: next_missing_def)

subsection \<open>Writing the report\<close>

text \<open>The encoder is at a byte, and the \<open>e1\<close> bit and the last \<open>so_end\<close> are in the part that is written.\<close>

definition se_ok :: "nat \<Rightarrow> status_enc \<Rightarrow> bool" where
  "se_ok n st \<longleftrightarrow> length (enc_buffer (se_enc st)) = n \<and> enc_bit (se_enc st) = 0 \<and> enc_byte (se_enc st) \<le> n \<and>
     se_e1_byte st < enc_byte (se_enc st) \<and> (\<forall>i. se_so_end st = Some i \<longrightarrow> i + 2 \<le> n)"

lemma enc_holds_now:
  "enc_bit enc = 0 \<Longrightarrow> enc_byte enc \<le> length (enc_buffer enc) \<Longrightarrow>
   enc_holds (enc_buffer enc) (bits_of (take (enc_byte enc) (enc_buffer enc))) enc"
  by (simp add: enc_holds_def)

lemma put_fields_aligned:
  assumes "enc_bit enc = 0" and "enc_byte enc + k \<le> length (enc_buffer enc)" and "length (field_bits fs) = 8 * k"
    and "\<forall>(v, n) \<in> set fs. n \<le> 31"
  obtains enc' where "put_fields enc fs = Inr enc'" and "enc_bit enc' = 0" and "enc_byte enc' = enc_byte enc + k"
    and "length (enc_buffer enc') = length (enc_buffer enc)"
proof -
  let ?ws = "bits_of (take (enc_byte enc) (enc_buffer enc))"
  have h: "enc_holds (enc_buffer enc) ?ws enc" using assms(1,2) by (intro enc_holds_now) simp_all
  have l: "length ?ws = 8 * enc_byte enc" using assms(2) by simp
  obtain enc' where e: "put_fields enc fs = Inr enc'" "enc_holds (enc_buffer enc) (?ws @ field_bits fs) enc'"
    by (rule put_fields_holds [OF h]) (use l assms in simp_all)
  have "length (?ws @ field_bits fs) = 8 * (enc_byte enc + k)" using l assms(3) by simp
  note al = enc_holds_aligned [OF e(2) this]
  show thesis by (rule that [OF e(1) al(2,1,4)])
qed

text \<open>The fields of a block of NACK information: the first part, the offsets and the range.\<close>

definition nack_head :: "nr_rlc_entity_am \<Rightarrow> int \<Rightarrow> bool \<Rightarrow> bool \<Rightarrow> (int \<times> nat) list" where
  "nack_head e sn e2 e3 =
     [(sn, nat (am_sn_field_length e)), (0, 1), (of_bool e2, 1), (of_bool e3, 1), (0, if am_sn_field_length e = 18 then 3 else 1)]"

lemma put_nack_fields:
  assumes "e2 \<longleftrightarrow> \<not> (so_start = 0 \<and> so_end = 0xffff)" and "e3 \<longleftrightarrow> sn_start \<noteq> sn_end"
  shows "put_nack e st sn_start so_start sn_end so_end cnt =
     (let (e1_byte, e1_bit) = get_e1_position e (se_enc st)
      in c_bind (set_bit_in (enc_buffer (se_enc st)) (se_e1_byte st) (se_e1_bit st)) (\<lambda>buf.
         c_bind (put_fields ((se_enc st)\<lparr>enc_buffer := buf\<rparr>) (nack_head e sn_start e2 e3)) (\<lambda>enc.
         c_bind (if e2
                 then c_bind (put_fields enc [(so_start, 16)]) (\<lambda>enc.
                      c_bind (put_fields enc [(so_end, 16)]) (\<lambda>enc'. Inr (enc', Some (enc_byte enc))))
                 else Inr (enc, None)) (\<lambda>(enc, so_end_address).
         c_bind (put_fields enc (if e3 then [(cnt, 8)] else [])) (\<lambda>enc.
         Inr \<lparr>se_enc = enc, se_e1_byte = e1_byte, se_e1_bit = e1_bit, se_so_end = so_end_address\<rparr>)))))"
  using assms
  by (cases "get_e1_position e (se_enc st)") (simp add: put_nack_def nack_head_def c_bind_assoc cong: c_bind_cong split: if_split)

lemma put_nack_ok:
  assumes cfg: "am_cfg e" and st: "se_ok n st"
    and room: "int (enc_byte (se_enc st)) + nack_size e sn_start so_start sn_end so_end \<le> int n"
  shows "\<exists>st'. put_nack e st sn_start so_start sn_end so_end cnt = Inr st' \<and> se_ok n st' \<and>
    int (enc_byte (se_enc st')) = int (enc_byte (se_enc st)) + nack_size e sn_start so_start sn_end so_end"
proof -
  let ?enc = "se_enc st"
  define e2 where "e2 \<longleftrightarrow> \<not> (so_start = 0 \<and> so_end = 0xffff)"
  define e3 where "e3 \<longleftrightarrow> sn_start \<noteq> sn_end"
  define h where "h = (if am_sn_field_length e = 18 then 3 else 2 :: nat)"
  have len: "am_sn_field_length e = 12 \<or> am_sn_field_length e = 18" using cfg by (simp add: am_cfg_def)
  have size: "nack_size e sn_start so_start sn_end so_end = int (h + (if e2 then 4 else 0) + (if e3 then 1 else 0))"
    by (simp add: nack_size_def h_def e2_def e3_def Let_def)
  have s: "length (enc_buffer ?enc) = n" "enc_bit ?enc = 0" "se_e1_byte st < n" using st by (simp_all add: se_ok_def)
  obtain buf where buf: "set_bit_in (enc_buffer ?enc) (se_e1_byte st) (se_e1_bit st) = Inr buf" "length buf = n"
    using s by (simp add: set_bit_in_def)
  let ?e0 = "?enc\<lparr>enc_buffer := buf\<rparr>"
  have hl: "length (field_bits (nack_head e sn_start e2 e3)) = 8 * h" "\<forall>(v, n) \<in> set (nack_head e sn_start e2 e3). n \<le> 31"
    using len by (auto simp: nack_head_def h_def)
  obtain en1 where e1: "put_fields ?e0 (nack_head e sn_start e2 e3) = Inr en1" "enc_bit en1 = 0" "enc_byte en1 = enc_byte ?enc + h"
    "length (enc_buffer en1) = n"
    by (rule put_fields_aligned [of ?e0 h "nack_head e sn_start e2 e3"]) (use s buf hl room size in simp_all)
  obtain en2 a where e2': "(if e2
                 then c_bind (put_fields en1 [(so_start, 16)]) (\<lambda>enc.
                      c_bind (put_fields enc [(so_end, 16)]) (\<lambda>enc'. Inr (enc', Some (enc_byte enc))))
                 else Inr (en1, None)) = Inr (en2, a)" "enc_bit en2 = 0" "enc_byte en2 = enc_byte ?enc + h + (if e2 then 4 else 0)"
    "length (enc_buffer en2) = n" "\<forall>i. a = Some i \<longrightarrow> i + 2 \<le> n"
  proof (cases e2)
    case False
    then show thesis using e1 by (intro that [of en1 None]) simp_all
  next
    case True
    obtain x where x: "put_fields en1 [(so_start, 16)] = Inr x" "enc_bit x = 0" "enc_byte x = enc_byte en1 + 2" "length (enc_buffer x) = n"
      by (rule put_fields_aligned [of en1 2 "[(so_start, 16)]"]) (use e1 room size True in simp_all)
    obtain y where y: "put_fields x [(so_end, 16)] = Inr y" "enc_bit y = 0" "enc_byte y = enc_byte x + 2" "length (enc_buffer y) = n"
      by (rule put_fields_aligned [of x 2 "[(so_end, 16)]"]) (use x e1 room size True in simp_all)
    have "enc_byte x + 2 \<le> n" using x(3) e1(3) room size True by simp
    then show thesis using x y e1 True by (intro that [of y "Some (enc_byte x)"]) simp_all
  qed
  let ?r = "if e3 then [(cnt, 8)] else []"
  obtain en3 where e3': "put_fields en2 ?r = Inr en3" "enc_bit en3 = 0" "enc_byte en3 = enc_byte en2 + (if e3 then 1 else 0)"
    "length (enc_buffer en3) = n"
    by (rule put_fields_aligned [of en2 "if e3 then 1 else 0" ?r]) (use e2' room size in simp_all)
  obtain p q where pq: "get_e1_position e ?enc = (p, q)" by force
  have p: "p < enc_byte ?enc + h" using pq len by (auto simp: get_e1_position_def h_def split: if_splits)
  have "put_nack e st sn_start so_start sn_end so_end cnt = Inr \<lparr>se_enc = en3, se_e1_byte = p, se_e1_bit = q, se_so_end = a\<rparr>"
    unfolding put_nack_fields [OF e2_def e3_def] pq Let_def prod.case buf(1) c_bind_simps e1(1) e2'(1) e3'(1) by simp
  moreover have "se_ok n \<lparr>se_enc = en3, se_e1_byte = p, se_e1_bit = q, se_so_end = a\<rparr>"
    using e2' e3' p room size by (simp add: se_ok_def)
  ultimately show ?thesis using e2'(3) e3'(3) size by simp
qed

lemma nack_size_ge: "2 \<le> nack_size e a b c d"
  by (simp add: nack_size_def Let_def)

lemma generate_missing_loop_ok:
  assumes cfg: "am_cfg e"
  shows "se_ok n st \<Longrightarrow> \<exists>ln tr st'. generate_missing_loop e m cnt sn lst st = Inr (ln, tr, st') \<and> se_ok n st' \<and>
    enc_byte (se_enc st) \<le> enc_byte (se_enc st') \<and> (0 < cnt \<longrightarrow> tr \<or> enc_byte (se_enc st) + 2 \<le> enc_byte (se_enc st'))"
proof (induction cnt arbitrary: sn lst st rule: less_induct)
  case (less cnt)
  show ?case
  proof (cases "cnt = 0")
    case True
    then show ?thesis using less.prems by (auto simp: generate_missing_loop.simps)
  next
    case False
    define cur where "cur = min cnt 255"
    define so_start where "so_start = (if sn = md_sn_start m then md_so_start m else 0)"
    define sn_end where "sn_end = (if cur = cnt then md_sn_end m else c_rem (sn + 254) (am_sn_modulus e))"
    define so_end where "so_end = (if cur = cnt then md_so_end m else 0xffff)"
    have pair: "(if cur = cnt then (md_sn_end m, md_so_end m) else (c_rem (sn + 254) (am_sn_modulus e), 0xffff)) = (sn_end, so_end)"
      by (simp add: sn_end_def so_end_def)
    note unf = generate_missing_loop.simps [of e m cnt sn lst st, folded cur_def, folded so_start_def, unfolded Let_def, folded cur_def,
        folded so_start_def, unfolded pair prod.case]
    have n: "length (enc_buffer (se_enc st)) = n" using less.prems by (simp add: se_ok_def)
    show ?thesis
    proof (cases "int (enc_byte (se_enc st)) + nack_size e sn so_start sn_end so_end > int n")
      case True
      then show ?thesis using False less.prems n by (auto simp: unf)
    next
      case F: False
      then obtain st1 where st1: "put_nack e st sn so_start sn_end so_end (int cur) = Inr st1" "se_ok n st1"
        "int (enc_byte (se_enc st1)) = int (enc_byte (se_enc st)) + nack_size e sn so_start sn_end so_end"
        using put_nack_ok [OF cfg less.prems, of sn so_start sn_end so_end "int cur"] by auto
      have "cnt - cur < cnt" using False by (simp add: cur_def)
      from less.IH [OF this st1(2), of "c_rem (sn + int cur) (am_sn_modulus e)" "if sn \<noteq> sn_end then sn + int cur - 1 else sn"]
      show ?thesis using False F n st1 nack_size_ge [of e sn so_start sn_end so_end] by (fastforce simp: unf)
    qed
  qed
qed

lemma missing_count_pos:
  assumes "am_rx_core e" and "rlc_sn_ok (am_sn_modulus e) (md_sn_start m)" and "rlc_sn_ok (am_sn_modulus e) (md_sn_end m)"
  shows "0 < missing_count e m"
proof -
  have "0 \<le> md_sn_end m - md_sn_start m + am_sn_modulus e" using assms(2,3) by (simp add: rlc_sn_ok_def)
  then have "0 \<le> c_rem (md_sn_end m - md_sn_start m + am_sn_modulus e) (am_sn_modulus e)" using am_rx_coreD(3) [OF assms(1)] by simp
  then show ?thesis by (simp add: missing_count_def)
qed

lemma am_core_cfg: "am_rx_core e \<Longrightarrow> am_cfg e"
  by (simp add: am_rx_core_def)

lemma status_so_end_ok:
  assumes st: "se_ok n st"
  obtains st' where "(case se_so_end st of
                    Some i \<Rightarrow>
                      if tr
                      then c_bind (buf_write (enc_buffer (se_enc st)) (int i) [0xff, 0xff]) (\<lambda>buf.
                           Inr (st\<lparr>se_enc := (se_enc st)\<lparr>enc_buffer := buf\<rparr>\<rparr>))
                      else Inr st
                  | None \<Rightarrow> Inr st) = Inr st'" "se_ok n st'" "enc_byte (se_enc st') = enc_byte (se_enc st)"
proof (cases "se_so_end st")
  case (Some i)
  then have "i + 2 \<le> n" "length (enc_buffer (se_enc st)) = n" using st by (auto simp: se_ok_def)
  then show thesis using Some st by (cases tr) (auto simp: buf_write_def se_ok_def intro: that)
qed (use st in \<open>auto intro: that\<close>)

lemma status_loop_ok:
  assumes core: "am_rx_core e" and ord: "am_ord e"
  shows "am_ptr e l \<Longrightarrow> se_ok n st \<Longrightarrow> n < enc_byte (se_enc st) + 2 * k \<Longrightarrow>
    \<exists>ln st'. status_loop k e l b lst st = Inr (ln, st') \<and> se_ok n st'"
proof (induction k arbitrary: l st b lst)
  case 0
  then show ?case by (cases l) (simp_all add: se_ok_def)
next
  case (Suc k)
  show ?case
  proof (cases l)
    case Nil
    then show ?thesis using Suc.prems by simp
  next
    case (Cons c cs)
    then obtain j where "am_ptr_at e j (c # cs)" using Suc.prems(1) by (auto simp: am_ptr_def)
    then obtain m where m: "next_missing e c cs b = Inr m" "md_ok e m" using next_missing_ok [OF core ord] by blast
    show ?thesis
    proof (cases "md_sn_start m = - 1")
      case True
      then show ?thesis using Suc.prems(2) by (simp add: Cons m(1))
    next
      case False
      then have md: "rlc_sn_ok (am_sn_modulus e) (md_sn_start m)" "rlc_sn_ok (am_sn_modulus e) (md_sn_end m)" "am_ptr e (md_next m)"
        using m(2) by (simp_all add: md_ok_def)
      obtain ln tr st1 where g: "generate_missing e m st = Inr (ln, tr, st1)" "se_ok n st1" "enc_byte (se_enc st) \<le> enc_byte (se_enc st1)"
        "tr \<or> enc_byte (se_enc st) + 2 \<le> enc_byte (se_enc st1)"
        using generate_missing_loop_ok [OF am_core_cfg [OF core] Suc.prems(2), of m "missing_count e m" "md_sn_start m" "- 1"]
          missing_count_pos [OF core md(1,2)] by (auto simp: generate_missing_def)
      obtain st2 where st2: "(case se_so_end st1 of
                    Some i \<Rightarrow>
                      if tr
                      then c_bind (buf_write (enc_buffer (se_enc st1)) (int i) [0xff, 0xff]) (\<lambda>buf.
                           Inr (st1\<lparr>se_enc := (se_enc st1)\<lparr>enc_buffer := buf\<rparr>\<rparr>))
                      else Inr st1
                  | None \<Rightarrow> Inr st1) = Inr st2" "se_ok n st2" "enc_byte (se_enc st2) = enc_byte (se_enc st1)"
        by (rule status_so_end_ok [OF g(2), of tr])
      have "am_ptr e (if tr then [] else md_next m)" using md(3) by (simp add: am_ptr_def)
      moreover have "tr \<or> n < enc_byte (se_enc st2) + 2 * k" using g(4) st2(3) Suc.prems(3) by auto
      ultimately have "\<exists>ln' st'. status_loop k e (if tr then [] else md_next m) False (if ln \<noteq> - 1 then ln else lst) st2 = Inr (ln', st') \<and> se_ok n st'"
        using Suc.IH [OF _ st2(2), of "md_next m"] st2(2) by (cases tr) auto
      then show ?thesis using False by (simp add: Cons m(1) g(1) st2(1))
    qed
  qed
qed

lemma get_first_rx_pdu_ok:
  assumes core: "am_rx_core e" and ord: "am_ord e"
  shows "\<exists>l. get_first_rx_pdu e = Inr l \<and> am_ptr e l"
proof -
  note r = am_rx_coreD [OF core] and hs = am_hs_range [OF core ord]
  have d: "am_dist e (am_rx_next e) = 0" by (simp add: am_dist_def)
  have "am_dist e (am_rx_next e) \<le> am_hs e" using d hs(1) by simp
  from search_rx_pdu_ok [OF core r(5) this] obtain j where
    j: "search_rx_pdu e (am_rx_next e) (am_rx_highest_status e) = Inr (am_cells e j)" "0 \<le> j" "j \<le> am_hs e"
      "\<forall>i. 0 \<le> i \<and> i < j \<longrightarrow> am_cells e i = []" unfolding d by blast
  have "j < am_window_size e"
  proof (rule ccontr)
    assume "\<not> j < am_window_size e"
    then have "am_hs e = am_window_size e" "j = am_window_size e" using j(3) hs(2) by simp_all
    then show False using hs(3) j(4) [rule_format, of "am_window_size e - 1"] r(2) by simp
  qed
  then have "am_ptr e (am_cells e j)" using j by (auto simp: am_ptr_def am_ptr_at_def)
  then show ?thesis using j(1) by (simp add: get_first_rx_pdu_def)
qed

lemma length_put_ack_sn [simp]: "length (put_ack_sn len a buf) = length buf"
  by (simp add: put_ack_sn_def)

lemma status_header_ok:
  assumes "3 \<le> length buf"
  obtains enc where "nr_rlc_pdu_encoder_put_bits (nr_rlc_pdu_encoder_init buf) 0 24 = Inr enc" "enc_byte enc = 3" "enc_bit enc = 0"
    "length (enc_buffer enc) = length buf"
proof -
  let ?init = "nr_rlc_pdu_encoder_init buf"
  obtain enc where f: "put_fields ?init [(0, 24)] = Inr enc" "enc_bit enc = 0" "enc_byte enc = enc_byte ?init + 3"
    "length (enc_buffer enc) = length (enc_buffer ?init)"
    by (rule put_fields_aligned [of ?init 3 "[(0, 24)]"]) (use assms in \<open>simp_all add: nr_rlc_pdu_encoder_init_def\<close>)
  then show thesis using that by (cases "nr_rlc_pdu_encoder_put_bits ?init 0 24") (simp_all add: nr_rlc_pdu_encoder_init_def)
qed

lemma generate_status_ok:
  assumes core: "am_rx_core e" and ord: "am_ord e"
  shows "\<exists>n buf' g b t. generate_status e buf = Inr (n, buf', am_stats g (e\<lparr>am_status_triggered := b, am_t_status_prohibit_start := t\<rparr>)) \<and>
    0 \<le> n \<and> n \<le> int (length buf) \<and> length buf' = length buf"
proof (cases "length buf < 3")
  case True
  have "am_stats (\<lambda>x. x) (e\<lparr>am_status_triggered := am_status_triggered e, am_t_status_prohibit_start := am_t_status_prohibit_start e\<rparr>) = e"
    by (simp add: am_stats_def upd_stats_def)
  then have "generate_status e buf = Inr (0, buf, am_stats (\<lambda>x. x)
      (e\<lparr>am_status_triggered := am_status_triggered e, am_t_status_prohibit_start := am_t_status_prohibit_start e\<rparr>))"
    using True by (simp add: generate_status_def)
  then show ?thesis by (intro exI conjI) (assumption, simp_all)
next
  case False
  let ?n = "length buf"
  obtain enc where enc: "nr_rlc_pdu_encoder_put_bits (nr_rlc_pdu_encoder_init buf) 0 24 = Inr enc" "enc_byte enc = 3" "enc_bit enc = 0"
    "length (enc_buffer enc) = ?n"
    by (rule status_header_ok [of buf]) (use False in simp)
  obtain l where l: "get_first_rx_pdu e = Inr l" "am_ptr e l" using get_first_rx_pdu_ok [OF core ord] by blast
  let ?st = "\<lparr>se_enc = enc, se_e1_byte = 2, se_e1_bit = (if am_sn_field_length e = 18 then 1 else 7), se_so_end = None\<rparr>"
  have "se_ok ?n ?st" using enc False by (simp add: se_ok_def)
  moreover have "?n < enc_byte (se_enc ?st) + 2 * ?n" using enc by simp
  ultimately obtain ln st' where s: "status_loop ?n e l True (am_dec e (am_rx_next e)) ?st = Inr (ln, st')" "se_ok ?n st'"
    using status_loop_ok [OF core ord l(2)] by blast
  show ?thesis using False s(2) by (simp add: generate_status_def enc(1) l(1) s(1) Let_def se_ok_def) blast
qed

subsection \<open>The size of a report\<close>

lemma missing_size_loop_ok:
  assumes cfg: "am_cfg e"
  shows "n \<le> maxsize \<Longrightarrow> \<exists>n' rc tr. missing_size_loop e m cnt sn n maxsize rc0 = (n', rc, tr) \<and> n \<le> n' \<and> n' \<le> maxsize \<and> (0 < cnt \<longrightarrow> tr \<or> n + 2 \<le> n')"
proof (induction cnt arbitrary: sn n rc0 rule: less_induct)
  case (less cnt)
  show ?case
  proof (cases "cnt = 0")
    case True
    then show ?thesis using less.prems by (auto simp: missing_size_loop.simps)
  next
    case False
    have len: "am_sn_field_length e = 12 \<or> am_sn_field_length e = 18" using cfg by (simp add: am_cfg_def)
    define cur where "cur = min cnt 255"
    define so_start where "so_start = (if sn = md_sn_start m then md_so_start m else 0)"
    define sn_end where "sn_end = (if cur = cnt then md_sn_end m else c_rem (sn + 254) (am_sn_modulus e))"
    define so_end where "so_end = (if cur = cnt then md_so_end m else 0xffff)"
    have pair: "(if cur = cnt then (md_sn_end m, md_so_end m) else (c_rem (sn + 254) (am_sn_modulus e), 0xffff)) = (sn_end, so_end)"
      by (simp add: sn_end_def so_end_def)
    let ?ns = "nack_size e sn so_start sn_end so_end"
    have sz: "(am_sn_field_length e + 3 + (if am_sn_field_length e = 18 then 3 else 1) + (if so_start = 0 \<and> so_end = 0xffff then 0 else 16 * 2)
        + (if sn = sn_end then 0 else 8)) div 8 = ?ns"
      using len by (auto simp: nack_size_def Let_def)
    note unf = missing_size_loop.simps [of e m cnt sn n maxsize rc0, folded cur_def, folded so_start_def, unfolded Let_def, folded cur_def,
        folded so_start_def, unfolded pair prod.case sz]
    show ?thesis
    proof (cases "n + ?ns > maxsize")
      case True
      then show ?thesis using False less.prems by (auto simp: unf)
    next
      case F: False
      have "cnt - cur < cnt" using False by (simp add: cur_def)
      from less.IH [OF this, of "n + ?ns" "c_rem (sn + int cur) (am_sn_modulus e)" "rc0 + 1"] F
      show ?thesis using False nack_size_ge [of e sn so_start sn_end so_end] by (fastforce simp: unf)
    qed
  qed
qed

lemma status_size_loop_ok:
  assumes core: "am_rx_core e" and ord: "am_ord e"
  shows "am_ptr e l \<Longrightarrow> n \<le> maxsize \<Longrightarrow> maxsize < n + 2 * int k \<Longrightarrow>
    \<exists>n'. status_size_loop k e l nc n maxsize = Inr n' \<and> n \<le> n' \<and> n' \<le> maxsize"
proof (induction k arbitrary: l n nc)
  case 0
  then show ?case by (cases l) simp_all
next
  case (Suc k)
  show ?case
  proof (cases l)
    case Nil
    then show ?thesis using Suc.prems by simp
  next
    case (Cons c cs)
    then obtain j where "am_ptr_at e j (c # cs)" using Suc.prems(1) by (auto simp: am_ptr_def)
    then obtain m where m: "next_missing e c cs (nc = 0) = Inr m" "md_ok e m" using next_missing_ok [OF core ord] by blast
    show ?thesis
    proof (cases "md_sn_start m = - 1")
      case True
      then show ?thesis using Suc.prems(2) by (simp add: Cons m(1))
    next
      case False
      then have md: "rlc_sn_ok (am_sn_modulus e) (md_sn_start m)" "rlc_sn_ok (am_sn_modulus e) (md_sn_end m)" "am_ptr e (md_next m)"
        using m(2) by (simp_all add: md_ok_def)
      obtain n1 rc tr where g: "missing_size_loop e m (missing_count e m) (md_sn_start m) n maxsize 0 = (n1, rc, tr)" "n \<le> n1" "n1 \<le> maxsize"
        "tr \<or> n + 2 \<le> n1"
        using missing_size_loop_ok [OF am_core_cfg [OF core] Suc.prems(2), of m "missing_count e m" "md_sn_start m" 0]
          missing_count_pos [OF core md(1,2)] by auto
      have "\<exists>n'. status_size_loop k e (if tr then [] else md_next m) (nc + rc) n1 maxsize = Inr n' \<and> n1 \<le> n' \<and> n' \<le> maxsize"
        using Suc.IH [OF md(3) g(3), of "nc + rc"] g Suc.prems(3) by (cases tr) auto
      then show ?thesis using False g by (force simp: Cons m(1))
    qed
  qed
qed

lemma status_size_ok:
  assumes core: "am_rx_core e" and ord: "am_ord e"
  shows "\<exists>n. status_size e maxsize = Inr n \<and> 0 \<le> n \<and> n \<le> max 0 maxsize"
proof (cases "maxsize < 3")
  case False
  obtain l where l: "get_first_rx_pdu e = Inr l" "am_ptr e l" using get_first_rx_pdu_ok [OF core ord] by blast
  then show ?thesis using status_size_loop_ok [OF core ord l(2), of 3 maxsize "nat maxsize" 0] False by (force simp: status_size_def)
qed (simp add: status_size_def)

end
