(* ===== verification/Rlc_Am_Link.thy ===== *)
theory Rlc_Am_Link
  imports Rlc_Am_Ops Rlc_Am_Status
begin

text \<open>
  The acknowledged mode entity as one machine: the calls it gets, the three ways in which it can stop,
  and everything that holds in all other runs.
\<close>

datatype am_event =
    AmSdu u64 "byte list" int    \<comment> \<open>\<^verbatim>\<open>recv_sdu\<close>, with the clock of the statistics\<close>
  | AmGrant u64 "byte list"      \<comment> \<open>\<^verbatim>\<open>generate_pdu\<close> into a buffer\<close>
  | AmPdu "byte list"            \<comment> \<open>\<^verbatim>\<open>recv_pdu\<close>\<close>
  | AmTick u64                   \<comment> \<open>\<^verbatim>\<open>set_time\<close>\<close>
  | AmAskStatus int              \<comment> \<open>\<^verbatim>\<open>buffer_status\<close>\<close>
  | AmDiscard int                \<comment> \<open>\<^verbatim>\<open>discard_sdu\<close>\<close>
  | AmReestablish                \<comment> \<open>\<^verbatim>\<open>reestablishment\<close>\<close>

text \<open>What comes out: the callbacks and the PDUs for the peer.\<close>

fun am_step :: "nr_rlc_entity_am \<Rightarrow> am_event \<Rightarrow> (nr_rlc_entity_am \<times> (am_output + byte list) list) c_result" where
  "am_step e (AmSdu now buf sdu_id) = c_bind (nr_rlc_entity_am_recv_sdu now e buf sdu_id) (\<lambda>e. Inr (e, []))"
| "am_step e (AmGrant now buf) =
     c_bind (nr_rlc_entity_am_generate_pdu now e buf) (\<lambda>(n, out, e). Inr (e, if n = 0 then [] else [Inr (take (nat n) out)]))"
| "am_step e (AmPdu buf) = c_bind (nr_rlc_entity_am_recv_pdu e buf) (\<lambda>(e, out). Inr (e, map Inl out))"
| "am_step e (AmTick now) = c_bind (nr_rlc_entity_am_set_time e now) (\<lambda>(e, out). Inr (e, map Inl out))"
| "am_step e (AmAskStatus n) = c_bind (nr_rlc_entity_am_buffer_status e n) (\<lambda>_. Inr (e, []))"
| "am_step e (AmDiscard sdu_id) = c_bind (nr_rlc_entity_am_discard_sdu e sdu_id) (\<lambda>e. Inr (e, []))"
| "am_step e AmReestablish = c_bind (nr_rlc_entity_am_reestablishment e) (\<lambda>e. Inr (e, []))"

text \<open>Where the entity stops: the assertion on the size of an SDU, the endless search, the NULL wait list.\<close>

fun am_stops :: "nr_rlc_entity_am \<Rightarrow> am_event \<Rightarrow> c_fault \<Rightarrow> bool" where
  "am_stops e (AmSdu now buf sdu_id) f \<longleftrightarrow> f = AssertFail \<and> NR_SDU_MAX < int (length buf)"
| "am_stops e (AmPdu buf) f \<longleftrightarrow> f = NoReturn \<and> am_stuck e (am_rx_next e)"
| "am_stops e (AmTick now) f \<longleftrightarrow> f = NullDeref \<and> am_poll_stuck (e\<lparr>am_t_current := now\<rparr>)"
| "am_stops e _ f \<longleftrightarrow> False"

subsection \<open>The invariant of the entity\<close>

definition am_inv :: "nr_rlc_entity_am \<Rightarrow> bool" where
  "am_inv e \<longleftrightarrow> am_rx_inv e \<and> am_ord e \<and> am_tx_inv e \<and> 0 \<le> am_tx_maxsize e"

text \<open>A step of one side leaves the other alone.\<close>

lemma am_rx_part_rx: "am_rx_part e' = am_rx_part e \<Longrightarrow> am_rx_inv e' = am_rx_inv e \<and> am_ord e' = am_ord e \<and> am_tx_maxsize e' = am_tx_maxsize e"
proof -
  assume a: "am_rx_part e' = am_rx_part e"
  then have "am_cells e' = am_cells e" "am_dist e' = am_dist e" by (simp_all add: am_rx_part_def am_cells_def am_dist_def fun_eq_iff)
  with a show ?thesis
    by (simp add: am_rx_part_def am_rx_inv_def am_rx_core_def am_cfg_def am_ord_def am_ord_rx_def am_ord_timer_def)
qed

lemma am_tx_part_tx: "am_tx_part e' = am_tx_part e \<Longrightarrow> am_tx_inv e' = am_tx_inv e \<and> am_tx_maxsize e' = am_tx_maxsize e"
  using am_tx_inv_cong [of e' e] am_tx_part_view [of e' e] by (simp add: am_tx_part_def)

text \<open>The receiver, with the endless search.\<close>

lemma am_store_outcome:
  assumes inv: "am_rx_inv e" and sn: "rlc_sn_ok (am_sn_modulus e) sn" and so: "0 \<le> so" and h: "h \<le> length buffer"
  shows "(\<exists>e' out. am_store_pdu e buffer poll sn so is_first is_last h = Inr (e', out) \<and> am_rx_inv e' \<and> am_tx_part e' = am_tx_part e) \<or>
    (am_stuck e sn \<and> am_store_pdu e buffer poll sn so is_first is_last h = Inl NoReturn)"
proof (cases "am_stuck e sn")
  case False
  then show ?thesis using am_store_total [OF inv sn so h False] by blast
next
  case True
  obtain p where p: "p = nr_rlc_new_pdu sn so is_first is_last (drop h buffer)" by blast
  show ?thesis
  proof (cases rule: am_store_cases [OF inv sn so h p, where poll = poll, case_names discard insert])
    case (discard e')
    then show ?thesis by blast
  next
    case (insert e1)
    have core: "am_rx_core e" "am_rx_core e1" using inv insert(2) by (simp_all add: am_rx_inv_def)
    have cfg: "am_sn_modulus e1 = am_sn_modulus e" "am_window_size e1 = am_window_size e" using insert(9) by (simp_all add: am_tx_part_def)
    have st1: "am_stuck e1 sn" using am_stuck_inserted [OF core(1) insert(8,10) cfg(2) sn insert(6)] True by simp
    have sn1: "rlc_sn_ok (am_sn_modulus e1) sn" "am_dist e1 sn < am_window_size e1" using sn insert(3,7) cfg by simp_all
    show ?thesis
    proof (cases "am_full e1 (am_dist e1 sn)")
      case full: True
      show ?thesis using am_actions_stuck [OF insert(2) sn1 full st1] insert(1) True by simp
    next
      case False
      obtain e' where "am_reception_actions e1 sn = Inr (e', [])" "am_rx_core e'" "am_rx e' = am_rx e1" "am_rx_next e' = am_rx_next e1"
        "am_tx_part e' = am_tx_part e1" by (rule am_actions_not_full [OF core(2) sn1(1) False])
      then show ?thesis using insert(1,2,9) by (simp add: am_rx_inv_def am_cells_def)
    qed
  qed
qed

lemma am_stuck_stats: "am_stuck (am_stats g e) sn = am_stuck e sn"
  by (simp add: am_stuck_def am_stats_def)

lemma am_discard_ord: "am_ord (am_discard_pdu e p n) = am_ord e"
  by (simp add: am_discard_pdu_def)

lemma am_recv_pdu_outcome:
  assumes inv: "am_inv e"
  shows "(\<exists>e' out. nr_rlc_entity_am_recv_pdu e buf = Inr (e', out) \<and> am_inv e') \<or>
    (am_stuck e (am_rx_next e) \<and> nr_rlc_entity_am_recv_pdu e buf = Inl NoReturn)"
proof -
  let ?e = "am_stats (\<lambda>s. s\<lparr>rxpdu_pkts := rxpdu_pkts s + 1, rxpdu_bytes := rxpdu_bytes s + of_nat (length buf)\<rparr>) e"
  have rx: "am_rx_inv ?e" "am_ord ?e" and tx: "am_tx_inv ?e" "am_tx_maxsize ?e = am_tx_maxsize e" "0 \<le> am_tx_maxsize e"
    using inv am_tx_part_tx [of ?e e] by (simp_all add: am_inv_def)
  have disc: "am_inv (am_discard_pdu ?e p n)" for p n
    using rx tx am_tx_part_tx [of "am_discard_pdu ?e p n" ?e] by (simp add: am_inv_def am_discard_ord)
  show ?thesis
  proof (cases buf)
    case Nil
    obtain d where "nr_rlc_pdu_decoder_get_bits (dec_at [] 0) 1 = Inr (- 1, d)" "dec_error d"
      by (rule get_bits_past [of "[]" 0 1]) simp_all
    then have "nr_rlc_entity_am_recv_pdu e buf = Inr (am_discard_pdu ?e False (length buf), [])"
      by (simp add: nr_rlc_entity_am_recv_pdu_def Nil decoder_init_at)
    then show ?thesis using disc by blast
  next
    case (Cons b bs)
    show ?thesis
    proof (cases "bit b 7")
      case False
      obtain e' out where c: "process_control_pdu ?e buf = Inr (e', out)" "am_tx_inv e'" "am_rx_part e' = am_rx_part ?e"
        using process_control_pdu_ok [OF tx(1)] by blast
      have "am_inv e'" using c rx tx am_rx_part_rx [OF c(3)] by (simp add: am_inv_def)
      then show ?thesis using c(1) False by (simp add: nr_rlc_entity_am_recv_pdu_def Cons am_first_bit del: One_nat_def)
    next
      case True
      have cfg: "am_cfg e" using inv by (simp add: am_inv_def am_rx_inv_def am_rx_core_def)
      obtain poll h where d: "am_decode_data (am_sn_field_length e) (dec_at (b # bs) 1) = Inr (poll, h)"
        "am_header_ok (am_sn_field_length e) (length (b # bs)) h"
        "nr_rlc_entity_am_recv_pdu e (b # bs) =
           (let e = am_stats (\<lambda>s. s\<lparr>rxpdu_pkts := rxpdu_pkts s + 1, rxpdu_bytes := rxpdu_bytes s + of_nat (length (b # bs))\<rparr>) e
            in case h of
                 None \<Rightarrow> Inr (am_discard_pdu e poll (length (b # bs)), [])
               | Some (is_first, is_last, sn, so, header) \<Rightarrow>
                   c_bind (am_store_pdu e (b # bs) poll sn so is_first is_last header) (\<lambda>(e, out). Inr (e, map AmDeliver out)))"
        by (rule am_recv_data [OF cfg True])
      show ?thesis
      proof (cases h)
        case None
        then show ?thesis using d(3) disc by (simp add: Cons Let_def)
      next
        case (Some x)
        obtain is_first is_last sn so header where x: "x = (is_first, is_last, sn, so, header)" by (cases x)
        let ?st = "am_store_pdu ?e buf poll sn so is_first is_last header"
        have run: "nr_rlc_entity_am_recv_pdu e buf = c_bind ?st (\<lambda>(e, out). Inr (e, map AmDeliver out))"
          using d(3) by (simp add: Some x Cons Let_def)
        have pre: "rlc_sn_ok (am_sn_modulus ?e) sn" "0 \<le> so" "header \<le> length buf"
          using d(2) cfg by (simp_all add: am_header_ok_def Some x Cons am_cfg_def am_stats_def)
        from am_store_outcome [OF rx(1) pre, where poll = poll and is_first = is_first and is_last = is_last] show ?thesis
        proof (elim disjE exE conjE)
          fix e' out assume st: "?st = Inr (e', out)" "am_rx_inv e'" "am_tx_part e' = am_tx_part ?e"
          have "am_ord e'" by (rule am_store_ord [OF rx(1) pre rx(2) st(1)])
          then have "am_inv e'" using st tx am_tx_part_tx [OF st(3)] by (simp add: am_inv_def)
          then show ?thesis by (simp add: run st(1))
        next
          assume "am_stuck ?e sn" "?st = Inl NoReturn"
          then show ?thesis by (simp add: run am_stuck_stats) (simp add: am_stuck_def)
        qed
      qed
    qed
  qed
qed

text \<open>The other calls.\<close>

lemma am_generate_outcome:
  assumes inv: "am_inv e"
  shows "\<exists>n buf' e'. nr_rlc_entity_am_generate_pdu now e buf = Inr (n, buf', e') \<and> am_inv e' \<and> 0 \<le> n \<and> n \<le> int (length buf) \<and>
    length buf' = length buf"
proof -
  have rx: "am_rx_core e" "am_ord e" and tx: "am_tx_inv e" using inv by (simp_all add: am_inv_def am_rx_inv_def)
  have st: "\<exists>n b e'. (if status_to_report e then generate_status e buf else Inr (0, buf, e)) = Inr (n, b, e') \<and> am_inv e' \<and>
      0 \<le> n \<and> n \<le> int (length buf) \<and> length b = length buf"
  proof (cases "status_to_report e")
    case True
    obtain n b g f t where g: "generate_status e buf = Inr (n, b, am_stats g (e\<lparr>am_status_triggered := f, am_t_status_prohibit_start := t\<rparr>))"
      "0 \<le> n" "n \<le> int (length buf)" "length b = length buf"
      using generate_status_ok [OF rx, of buf] by blast
    let ?e = "am_stats g (e\<lparr>am_status_triggered := f, am_t_status_prohibit_start := t\<rparr>)"
    have "am_rx_part ?e = am_rx_part e" "am_tx_view ?e = am_tx_view e" by (simp_all add: am_rx_part_def am_tx_view_def am_stats_def)
    then have "am_inv ?e" using inv am_rx_part_rx [of ?e e] am_tx_inv_cong [of ?e e] by (simp add: am_inv_def)
    then show ?thesis using g True by auto
  qed (use inv in auto)
  then obtain n b e1 where s: "(if status_to_report e then generate_status e buf else Inr (0, buf, e)) = Inr (n, b, e1)" "am_inv e1"
    "0 \<le> n" "n \<le> int (length buf)" "length b = length buf" by blast
  show ?thesis
  proof (cases "n = 0")
    case False
    then show ?thesis using s by (simp add: nr_rlc_entity_am_generate_pdu_def s(1))
  next
    case True
    have "\<exists>n b' e2. (if am_retransmit_list e1 \<noteq> [] then generate_retx_pdu e1 b else Inr (0, b, e1)) = Inr (n, b', e2) \<and> am_inv e2 \<and>
      0 \<le> n \<and> n \<le> int (length buf) \<and> length b' = length buf"
    proof (cases "am_retransmit_list e1 = []")
      case False
      then obtain n b' e2 where r: "generate_retx_pdu e1 b = Inr (n, b', e2)" "am_tx_inv e2" "am_rx_part e2 = am_rx_part e1" "0 \<le> n"
        "n \<le> int (length b)" "length b' = length b"
        using generate_retx_pdu_ok [of e1 b] s(2) by (auto simp: am_inv_def)
      then have "am_inv e2" using am_rx_part_rx [OF r(3)] s(2) by (simp add: am_inv_def)
      then show ?thesis using r False s(5) by simp
    qed (use s in auto)
    then obtain n2 b2 e2 where r: "(if am_retransmit_list e1 \<noteq> [] then generate_retx_pdu e1 b else Inr (0, b, e1)) = Inr (n2, b2, e2)" "am_inv e2"
      "0 \<le> n2" "n2 \<le> int (length buf)" "length b2 = length buf" by blast
    obtain n3 b3 e3 where t: "am_generate_tx_pdu now e2 b2 = Inr (n3, b3, e3)" "am_tx_inv e3" "am_rx_part e3 = am_rx_part e2" "0 \<le> n3"
      "n3 \<le> int (length b2)" "length b3 = length b2"
      using am_generate_tx_pdu_ok [of e2 now b2] r(2) by (auto simp: am_inv_def)
    have "am_inv e3" using am_rx_part_rx [OF t(3)] t(2) r(2) by (simp add: am_inv_def)
    then show ?thesis using r t s(1) True by (cases "n2 = 0") (simp_all add: nr_rlc_entity_am_generate_pdu_def)
  qed
qed

lemma am_set_time_outcome:
  assumes inv: "am_inv e"
  shows "am_poll_stuck (e\<lparr>am_t_current := now\<rparr>) \<Longrightarrow> nr_rlc_entity_am_set_time e now = Inl NullDeref"
    and "\<not> am_poll_stuck (e\<lparr>am_t_current := now\<rparr>) \<Longrightarrow> \<exists>e' out. nr_rlc_entity_am_set_time e now = Inr (e', out) \<and> am_inv e'"
proof -
  let ?e = "e\<lparr>am_t_current := now\<rparr>"
  have part: "am_rx_part ?e = am_rx_part e" "am_tx_view ?e = am_tx_view e" by (simp_all add: am_rx_part_def am_tx_view_def)
  have inv1: "am_inv ?e" using inv am_rx_part_rx [OF part(1)] am_tx_inv_cong [OF part(2)] by (simp add: am_inv_def)
  then have tx: "am_tx_inv ?e" by (simp add: am_inv_def)
  show "nr_rlc_entity_am_set_time e now = Inl NullDeref" if "am_poll_stuck ?e"
    using check_t_poll_retransmit_ok(2) [OF tx that] by (simp add: nr_rlc_entity_am_set_time_def)
  show "\<exists>e' out. nr_rlc_entity_am_set_time e now = Inr (e', out) \<and> am_inv e'" if ns: "\<not> am_poll_stuck ?e"
  proof -
    obtain e1 out where p: "check_t_poll_retransmit ?e = Inr (e1, out)" "am_tx_inv e1" "am_rx_part e1 = am_rx_part ?e"
      using check_t_poll_retransmit_ok(1) [OF tx ns] by blast
    have inv2: "am_inv e1" using am_rx_part_rx [OF p(3)] p(2) inv1 by (simp add: am_inv_def)
    then have rx: "am_rx_inv e1" "am_ord e1" by (simp_all add: am_inv_def)
    obtain e2 where r: "am_check_t_reassembly e1 = Inr e2" "am_rx_inv e2" "am_ord e2" "am_tx_part e2 = am_tx_part e1"
      by (rule am_check_t_reassembly_ok [OF rx])
    have "am_inv e2" using r am_tx_part_tx [OF r(4)] inv2 by (simp add: am_inv_def)
    then show ?thesis by (simp add: nr_rlc_entity_am_set_time_def p(1) r(1))
  qed
qed

lemma am_empty_rx:
  assumes "am_cfg e" and rm: "rm_ok (am_window_size e) 0 (am_rx e)" "\<forall>sn. rm_at (am_rx e) sn = []"
    and "am_rx_next e = 0" "am_rx_highest_status e = 0" "am_rx_next_highest e = 0" "am_rx_next_status_trigger e = 0"
    "am_t_reassembly_start e = 0"
  shows "am_rx_inv e \<and> am_ord e"
  using assms am_cfgD [OF assms(1)]
  by (simp add: am_rx_inv_def am_rx_core_def am_cells_def rlc_sn_ok_def am_ord_def am_ord_rx_def am_ord_timer_def am_dist_def Let_def)

lemma am_reestablish_outcome:
  assumes inv: "am_inv e"
  shows "\<exists>e'. nr_rlc_entity_am_reestablishment e = Inr e' \<and> am_inv e'"
proof -
  have tx: "am_tx_inv e" "0 \<le> am_tx_maxsize e" and cfg: "am_cfg e" and rm: "rm_ok (am_window_size e) (am_rx_next e) (am_rx e)"
    using inv am_rx_coreD(4) [of e] by (simp_all add: am_inv_def am_rx_inv_def am_rx_core_def)
  obtain e' where c: "am_clear_entity e = Inr e'" "am_tx_inv e'" "am_rx e' = nr_rlc_clear_rx_manager (am_rx e)" "am_rx_next e' = 0"
    "am_rx_highest_status e' = 0" "am_rx_next_highest e' = 0" "am_rx_next_status_trigger e' = 0" "am_t_reassembly_start e' = 0"
    "am_sn_field_length e' = am_sn_field_length e" "am_sn_modulus e' = am_sn_modulus e" "am_window_size e' = am_window_size e"
    "am_tx_maxsize e' = am_tx_maxsize e"
    by (rule am_clear_entity_ok [OF tx])
  have "am_cfg e'" using cfg c by (simp add: am_cfg_def)
  then have "am_rx_inv e' \<and> am_ord e'" using c rm_clear_ok [OF rm] by (intro am_empty_rx) simp_all
  then show ?thesis using c tx by (simp add: nr_rlc_entity_am_reestablishment_def am_inv_def)
qed

lemma new_am_inv:
  assumes "new_nr_rlc_entity_am rx_max tx_max t_poll t_reas t_prohibit poll_pdu poll_byte max_retx len = Inr e" and "0 \<le> tx_max"
  shows "am_inv e"
proof -
  have len: "len = 12 \<or> len = 18" using assms(1) by (auto simp: new_nr_rlc_entity_am_def c_bind_eq_Inr_conv c_check_def split: if_splits)
  have e: "am_sn_field_length e = len" "am_sn_modulus e = 2 ^ nat len" "am_window_size e = 2 ^ nat len div 2" "am_rx e = nr_rlc_new_rx_manager (2 ^ nat (len - 1))"
    "am_rx_next e = 0" "am_rx_highest_status e = 0" "am_rx_next_highest e = 0" "am_rx_next_status_trigger e = 0" "am_t_reassembly_start e = 0"
    "am_tx_list e = []" "am_wait_list e = []" "am_retransmit_list e = []" "am_store e = Map.empty" "am_tx_size e = 0" "am_tx_maxsize e = tx_max * 5"
    "bs_tx_size (bstatus (am_common e)) = 0" "bs_retx_size (bstatus (am_common e)) = 0"
    using assms(1) by (auto simp: new_nr_rlc_entity_am_def c_bind_eq_Inr_conv nr_rlc_entity_init_def)
  have cfg: "am_cfg e" using len e by (simp add: am_cfg_def)
  have "am_window_size e = 2 ^ nat (len - 1)" using len by (auto simp: e)
  then have "rm_ok (am_window_size e) 0 (am_rx e)" "\<forall>sn. rm_at (am_rx e) sn = []" using rm_new_ok [of "2 ^ nat (len - 1)"] by (simp_all add: e(4))
  then have "am_rx_inv e \<and> am_ord e" using e by (intro am_empty_rx [OF cfg]) simp_all
  moreover have "am_tx_inv e" using e assms(2) cfg
    by (simp add: am_tx_inv_def am_mem_ok_def am_segs_def am_bs_ok_def segs_ok_def reach_size_def store_size_def)
  ultimately show ?thesis using e assms(2) by (simp add: am_inv_def)
qed

interpretation am_machine: fault_machine am_step am_inv am_stops
proof
  fix e ev assume inv: "am_inv e"
  then have tx: "am_tx_inv e" and rx: "am_rx_core e" "am_ord e" by (simp_all add: am_inv_def am_rx_inv_def)
  have keep: "am_inv e'" if "am_tx_inv e'" "am_rx_part e' = am_rx_part e" for e'
    using am_rx_part_rx [OF that(2)] that(1) inv by (simp add: am_inv_def)
  show "(\<exists>e' ds. am_step e ev = Inr (e', ds) \<and> am_inv e') \<or> (\<exists>f. am_step e ev = Inl f \<and> am_stops e ev f)"
  proof (cases ev)
    case (AmSdu now buf sdu_id)
    show ?thesis
    proof (cases "int (length buf) \<le> NR_SDU_MAX")
      case True
      then show ?thesis using nr_rlc_entity_am_recv_sdu_ok(1) [OF tx True, of now sdu_id] keep AmSdu by auto
    next
      case False
      then show ?thesis using nr_rlc_entity_am_recv_sdu_ok(2) [OF tx, of buf now sdu_id] AmSdu by simp
    qed
  next
    case (AmGrant now buf)
    then show ?thesis using am_generate_outcome [OF inv, of now buf] by auto
  next
    case (AmPdu buf)
    then show ?thesis using am_recv_pdu_outcome [OF inv, of buf] by auto
  next
    case (AmTick now)
    then show ?thesis using am_set_time_outcome [OF inv, of now] by (cases "am_poll_stuck (e\<lparr>am_t_current := now\<rparr>)") auto
  next
    case (AmAskStatus n)
    then show ?thesis using status_size_ok [OF rx, of n] inv by (auto simp: nr_rlc_entity_am_buffer_status_def)
  next
    case (AmDiscard i)
    then show ?thesis using nr_rlc_entity_am_discard_sdu_ok [OF tx, of i] keep by auto
  next
    case AmReestablish
    then show ?thesis using am_reestablish_outcome [OF inv] by auto
  qed
qed

end
