(* ===== verification/Rlc_Am_Props.thy ===== *)
theory Rlc_Am_Props
  imports Rlc_Am_Link
begin

text \<open>
  The properties of the acknowledged mode: it stops in three known situations only, a data PDU is read back,
  and every SDU is delivered once.
\<close>

subsection \<open>A start state\<close>

text \<open>A new entity of 12 bit sequence numbers, with the receiver and the statistics kept apart for evaluation.\<close>

definition am_start :: "nr_rlc_rx_manager \<Rightarrow> time_average \<Rightarrow> nr_rlc_entity_am" where
  "am_start rx avg =
     \<lparr>am_common = nr_rlc_entity_init NR_RLC_AM avg, am_t_poll_retransmit = 45, am_t_reassembly = 35, am_t_status_prohibit = 0,
      am_poll_pdu = - 1, am_poll_byte = - 1, am_max_retx_threshold = 8, am_sn_field_length = 12, am_sn_modulus = 4096,
      am_window_size = 2048, am_rx_next = 0, am_rx_next_status_trigger = 0, am_rx_highest_status = 0, am_rx_next_highest = 0,
      am_status_triggered = False, am_tx_next = 0, am_tx_next_ack = 0, am_poll_sn = 0, am_pdu_without_poll = 0,
      am_byte_without_poll = 0, am_force_poll = False, am_t_current = 0, am_t_log_buffer_full = 0, am_sdu_rejected = 0,
      am_t_poll_retransmit_start = 0, am_t_reassembly_start = 0, am_t_status_prohibit_start = 0, am_rx = rx, am_rx_size = 0,
      am_rx_maxsize = 500000, am_tx_list = [], am_tx_size = 0, am_tx_maxsize = 500000, am_wait_list = [], am_retransmit_list = [],
      am_store = Map.empty, am_fresh = 0\<rparr>"

lemma am_new_start:
  obtains avg where "new_nr_rlc_entity_am 100000 100000 45 35 0 (- 1) (- 1) 8 12 = Inr (am_start (nr_rlc_new_rx_manager 2048) avg)"
proof -
  obtain avg where "time_average_new 100000 1024 = Inr avg" by (simp add: time_average_new_def)
  then show thesis by (intro that [of avg]) (simp add: new_nr_rlc_entity_am_def am_start_def)
qed

subsection \<open>Every run\<close>

text \<open>C5: Whatever sequence of calls a new acknowledged mode entity gets - SDUs, grants, arbitrary bytes as
  PDUs, clock ticks, requests for the buffer status, discards, re-establishments - it never frees a segment
  twice, never follows a pointer to a freed SDU, never accesses a buffer out of bounds and always returns,
  apart from three situations: an SDU over the maximal size (assertion), a tick when the poll timer has expired
  and nothing waits for an acknowledgment (NULL pointer), and a PDU when the window is full up to its first SDU
  (endless loop). In all other runs the transmit size that the buffer status reports is that of the pending PDUs,
  the size of the status report can be computed, and the transmit buffer stays within its limit.\<close>

theorem rlc_am_safe:
  assumes "new_nr_rlc_entity_am rx_max tx_max t_poll t_reas t_prohibit poll_pdu poll_byte max_retx len = Inr e0" and "0 \<le> tx_max"
  shows "(\<exists>e outs s. run_steps am_step e0 evs = Inr (e, outs) \<and>
      nr_rlc_entity_am_buffer_status e n = Inr s \<and> 0 \<le> bs_status_size s \<and> bs_status_size s \<le> max 0 n \<and>
      bs_tx_size s = (\<Sum>s \<leftarrow> am_tx_list e. am_compute_pdu_header_size e s + as_size s) \<and>
      0 \<le> nr_rlc_entity_am_available_tx_space e) \<or>
    (\<exists>pre ev post e outs f. evs = pre @ ev # post \<and> run_steps am_step e0 pre = Inr (e, outs) \<and> am_stops e ev f \<and>
      run_steps am_step e0 evs = Inl f)"
proof -
  have "am_inv e0" by (rule new_am_inv [OF assms])
  from am_machine.run_cases [OF this, of evs] show ?thesis
  proof (elim disjE exE conjE)
    fix e outs assume run: "run_steps am_step e0 evs = Inr (e, outs)" and inv: "am_inv e"
    then have rx: "am_rx_core e" "am_ord e" and tx: "am_mem_ok e (am_segs e)" "am_bs_ok e"
      by (simp_all add: am_inv_def am_rx_inv_def am_tx_inv_def)
    obtain m where m: "(if status_to_report e then status_size e n else Inr 0) = Inr m" "0 \<le> m" "m \<le> max 0 n"
      using status_size_ok [OF rx, of n] by (cases "status_to_report e") auto
    have "bs_tx_size (bstatus (am_common e)) = (\<Sum>s \<leftarrow> am_tx_list e. am_compute_pdu_header_size e s + as_size s)"
      using tx(2) by (simp add: am_bs_ok_def am_pending_def)
    moreover have "0 \<le> nr_rlc_entity_am_available_tx_space e"
      using tx(1) by (simp add: am_mem_ok_def nr_rlc_entity_am_available_tx_space_def)
    ultimately show ?thesis using run m by (simp add: nr_rlc_entity_am_buffer_status_def)
  qed blast
qed

lemma rlc_am_safe_witness:
  "\<exists>e0. new_nr_rlc_entity_am 100000 100000 45 35 0 (- 1) (- 1) 8 12 = Inr e0 \<and>
     ((\<exists>e outs s. run_steps am_step e0 [AmPdu [128, 0]] = Inr (e, outs) \<and>
        nr_rlc_entity_am_buffer_status e 10 = Inr s \<and> 0 \<le> bs_status_size s \<and> bs_status_size s \<le> max 0 10 \<and>
        bs_tx_size s = (\<Sum>s \<leftarrow> am_tx_list e. am_compute_pdu_header_size e s + as_size s) \<and>
        0 \<le> nr_rlc_entity_am_available_tx_space e) \<or>
      (\<exists>pre ev post e outs f. [AmPdu [128, 0]] = pre @ ev # post \<and> run_steps am_step e0 pre = Inr (e, outs) \<and> am_stops e ev f \<and>
        run_steps am_step e0 [AmPdu [128, 0]] = Inl f))"
proof -
  obtain avg where new: "new_nr_rlc_entity_am 100000 100000 45 35 0 (- 1) (- 1) 8 12 = Inr (am_start (nr_rlc_new_rx_manager 2048) avg)"
    by (rule am_new_start)
  show ?thesis using new rlc_am_safe [OF new, of "[AmPdu [128, 0]]" 10] by simp
qed

subsection \<open>Data PDUs\<close>

text \<open>C19: The receiver of the acknowledged mode reads a data PDU as the sender wrote it: for a segment inside its SDU,
  with a sequence number in range, that fits in the buffer, serializing succeeds, and from the PDU the decoder gets
  the same poll bit, segmentation information, sequence number and offset, and behind the header the bytes of the
  segment.\<close>

theorem rlc_am_pdu_roundtrip:
  assumes len: "am_sn_field_length e = 12 \<or> am_sn_field_length e = 18" and d: "am_sdu e s = Inr d"
    and inside: "0 \<le> as_so s" "0 \<le> as_size s" "as_so s + as_size s \<le> int (length (sdu_data d))"
    and sn: "0 \<le> sdu_sn d" "sdu_sn d < 2 ^ nat (am_sn_field_length e)"
    and so: "as_is_first s \<and> as_so s = 0 \<or> \<not> as_is_first s \<and> 0 < as_so s \<and> as_so s < 2 ^ 16"
    and room: "am_compute_pdu_header_size e s + as_size s \<le> int (length buf)"
  shows "\<exists>n out e' dec h. am_serialize_sdu e s buf poll = Inr (n, out, e') \<and> length out = length buf \<and>
    nr_rlc_pdu_decoder_get_bits (nr_rlc_pdu_decoder_init (take (nat n) out)) 1 = Inr (1, dec) \<and>
    am_decode_data (am_sn_field_length e) dec = Inr (poll, Some (as_is_first s, as_is_last s, sdu_sn d, as_so s, h)) \<and>
    drop h (take (nat n) out) = take (nat (as_size s)) (drop (nat (as_so s)) (sdu_data d))"
proof -
  let ?len = "am_sn_field_length e" and ?n = "am_compute_pdu_header_size e s + as_size s"
  let ?dat = "take (nat (as_size s)) (drop (nat (as_so s)) (sdu_data d))" and ?h = "am_header_size ?len (as_is_first s)"
  obtain hdr e' where l: "am_serialize_sdu e s buf poll = Inr (?n, hdr @ ?dat @ drop (nat ?n) buf, e')"
    "bits_of hdr = field_bits (am_fields ?len poll (as_is_first s) (as_is_last s) (sdu_sn d) (as_so s))"
    by (rule am_serialize_layout [OF len d inside room])
  have "8 * length hdr = 8 * ?h" using l(2) length_am_fields [OF len] by (metis length_bits_of)
  then have h: "length hdr = ?h" "length ?dat = nat (as_size s)" "am_compute_pdu_header_size e s = int ?h"
    using inside by (auto simp: am_compute_header_size)
  have pdu: "take (nat ?n) (hdr @ ?dat @ drop (nat ?n) buf) = hdr @ ?dat"
    using h inside by (simp add: nat_add_distrib)
  have "length (hdr @ ?dat @ drop (nat ?n) buf) = length buf" using h inside room by (simp add: nat_add_distrib)
  moreover have "rlc_sn_ok (2 ^ nat ?len) (sdu_sn d)" using sn by (simp add: rlc_sn_ok_def)
  note rd = am_header_read [OF len l(2) this so, of ?dat]
  ultimately show ?thesis using l(1) rd h by (intro exI conjI) (assumption, assumption, unfold pdu, (blast | simp)+)
qed

lemma rlc_am_pdu_roundtrip_witness:
  "\<forall>rx avg. \<exists>n out e' dec h.
     am_serialize_sdu ((am_start rx avg)\<lparr>am_store := [0 \<mapsto> (seg_sdu (nr_rlc_new_sdu [1, 2, 3] 7))\<lparr>sdu_sn := 5\<rparr>]\<rparr>)
       \<lparr>as_sdu = 0, as_size = 2, as_so = 1, as_is_first = False, as_is_last = True\<rparr> (replicate 10 0) True = Inr (n, out, e') \<and>
     length out = 10 \<and>
     nr_rlc_pdu_decoder_get_bits (nr_rlc_pdu_decoder_init (take (nat n) out)) 1 = Inr (1, dec) \<and>
     am_decode_data 12 dec = Inr (True, Some (False, True, 5, 1, h)) \<and> drop h (take (nat n) out) = [2, 3]"
proof (intro allI)
  fix rx avg
  show "\<exists>n out e' dec h.
     am_serialize_sdu ((am_start rx avg)\<lparr>am_store := [0 \<mapsto> (seg_sdu (nr_rlc_new_sdu [1, 2, 3] 7))\<lparr>sdu_sn := 5\<rparr>]\<rparr>)
       \<lparr>as_sdu = 0, as_size = 2, as_so = 1, as_is_first = False, as_is_last = True\<rparr> (replicate 10 0) True = Inr (n, out, e') \<and>
     length out = 10 \<and>
     nr_rlc_pdu_decoder_get_bits (nr_rlc_pdu_decoder_init (take (nat n) out)) 1 = Inr (1, dec) \<and>
     am_decode_data 12 dec = Inr (True, Some (False, True, 5, 1, h)) \<and> drop h (take (nat n) out) = [2, 3]"
    using rlc_am_pdu_roundtrip [of "(am_start rx avg)\<lparr>am_store := [0 \<mapsto> (seg_sdu (nr_rlc_new_sdu [1, 2, 3] 7))\<lparr>sdu_sn := 5\<rparr>]\<rparr>"
        "\<lparr>as_sdu = 0, as_size = 2, as_so = 1, as_is_first = False, as_is_last = True\<rparr>"
        "(seg_sdu (nr_rlc_new_sdu [1, 2, 3] 7))\<lparr>sdu_sn := 5\<rparr>" "replicate 10 0" True]
    by (simp add: am_sdu_def am_start_def am_compute_pdu_header_size_def nr_rlc_new_sdu_def Let_def)
qed

subsection \<open>Every SDU once\<close>

text \<open>
  A data PDU that carries a segment of the SDU number \<open>n\<close>, and a run of such PDUs in which the sender stays in step
  with the window: \<open>N\<close> counts the SDUs before the window of the receiver.
\<close>

definition am_carries :: "(int \<Rightarrow> byte list) \<Rightarrow> int \<Rightarrow> int \<Rightarrow> byte list \<Rightarrow> bool" where
  "am_carries src len n buf \<longleftrightarrow> buf \<noteq> [] \<and> bit (hd buf) 7 \<and>
     (case am_decode_data len (dec_at buf 1) of
        Inr (_, Some (f, l, sn, so, h)) \<Rightarrow> sn = n mod 2 ^ nat len \<and> segment_of (src n) (nr_rlc_new_pdu sn so f l (drop h buf))
      | _ \<Rightarrow> False)"

fun am_near :: "(int \<Rightarrow> byte list) \<Rightarrow> int \<Rightarrow> nr_rlc_entity_am \<Rightarrow> (int \<times> byte list) list \<Rightarrow> bool" where
  "am_near src N e [] = True"
| "am_near src N e ((n, buf) # evs) \<longleftrightarrow>
     N - am_window_size e \<le> n \<and> n < N + am_window_size e \<and> am_carries src (am_sn_field_length e) n buf \<and>
     (case nr_rlc_entity_am_recv_pdu e buf of
        Inr (e', _) \<Rightarrow> am_near src (N + (am_rx_next e' - am_rx_next e) mod am_sn_modulus e) e' evs
      | Inl _ \<Rightarrow> True)"

lemma am_recv_src:
  assumes src: "am_src_inv src N e" and n: "N - am_window_size e \<le> n" "n < N + am_window_size e"
    and c: "am_carries src (am_sn_field_length e) n buf"
  shows "(\<exists>e' out N'. nr_rlc_entity_am_recv_pdu e buf = Inr (e', map AmDeliver out) \<and> am_recv_result src n N e e' out N') \<or>
    (am_stuck e (am_rx_next e) \<and> nr_rlc_entity_am_recv_pdu e buf = Inl NoReturn)"
proof -
  obtain b bs where buf: "buf = b # bs" and b: "bit b 7" using c by (cases buf) (auto simp: am_carries_def)
  have inv: "am_rx_inv e" using src by (simp add: am_src_inv_def)
  then have cfg: "am_cfg e" by (simp add: am_rx_inv_def am_rx_core_def)
  then have m: "am_sn_modulus e = 2 ^ nat (am_sn_field_length e)" by (simp add: am_cfg_def)
  obtain poll h where d: "am_decode_data (am_sn_field_length e) (dec_at (b # bs) 1) = Inr (poll, h)"
    "am_header_ok (am_sn_field_length e) (length (b # bs)) h"
    "nr_rlc_entity_am_recv_pdu e (b # bs) =
       (let e = am_stats (\<lambda>s. s\<lparr>rxpdu_pkts := rxpdu_pkts s + 1, rxpdu_bytes := rxpdu_bytes s + of_nat (length (b # bs))\<rparr>) e
        in case h of
             None \<Rightarrow> Inr (am_discard_pdu e poll (length (b # bs)), [])
           | Some (is_first, is_last, sn, so, header) \<Rightarrow>
               c_bind (am_store_pdu e (b # bs) poll sn so is_first is_last header) (\<lambda>(e, out). Inr (e, map AmDeliver out)))"
    by (rule am_recv_data [OF cfg b])
  obtain f l sn so k where h: "h = Some (f, l, sn, so, k)" "sn = n mod am_sn_modulus e"
    "segment_of (src n) (nr_rlc_new_pdu sn so f l (drop k buf))"
    using c d(1) by (auto simp: am_carries_def buf m split: option.splits)
  let ?e = "am_stats (\<lambda>s. s\<lparr>rxpdu_pkts := rxpdu_pkts s + 1, rxpdu_bytes := rxpdu_bytes s + of_nat (length buf)\<rparr>) e"
  let ?st = "am_store_pdu ?e buf poll sn so f l k"
  have run: "nr_rlc_entity_am_recv_pdu e buf = c_bind ?st (\<lambda>(e, out). Inr (e, map AmDeliver out))"
    using d(3) by (simp add: h(1) buf Let_def)
  have cfg1: "am_window_size ?e = am_window_size e" "am_sn_modulus ?e = am_sn_modulus e" by (simp_all add: am_stats_def)
  have pre: "0 \<le> so" "k \<le> length buf" "rlc_sn_ok (am_sn_modulus ?e) sn" using d(2) by (simp_all add: am_header_ok_def h buf cfg1 m)
  have n1: "N - am_window_size ?e \<le> n" "n < N + am_window_size ?e" "sn = n mod am_sn_modulus ?e" using n h(2) by (simp_all add: cfg1)
  have "am_src_inv src N ?e" using src by simp
  from am_store_src [OF this n1 pre(1,2) refl h(3), where poll = poll] show ?thesis
  proof (elim disjE exE conjE)
    fix e' out N' assume r: "?st = Inr (e', out)" "am_recv_result src n N ?e e' out N'"
    then have "am_recv_result src n N e e' out N'" by (simp add: am_recv_result_def cfg1)
    then show ?thesis using run r(1) by auto
  next
    assume "am_stuck ?e sn" "?st = Inl NoReturn"
    then show ?thesis by (simp add: run am_stuck_stats) (simp add: am_stuck_def)
  qed
qed

lemma am_near_run:
  assumes "am_src_inv src N e" and "am_near src N e evs"
  shows "(\<exists>e' N' ns. run_steps am_step e (map (\<lambda>(n, buf). AmPdu buf) evs) = Inr (e', map (\<lambda>n. Inl (AmDeliver (src n))) ns) \<and>
      distinct ns \<and> set ns \<subseteq> fst ` set evs \<and> set ns \<inter> am_given e N = {} \<and> am_given e' N' = am_given e N \<union> set ns \<and>
      am_src_inv src N' e' \<and> am_sn_modulus e' = am_sn_modulus e) \<or>
    (\<exists>pre ev post e' outs. evs = pre @ ev # post \<and> run_steps am_step e (map (\<lambda>(n, buf). AmPdu buf) pre) = Inr (e', outs) \<and>
      am_stuck e' (am_rx_next e') \<and> run_steps am_step e (map (\<lambda>(n, buf). AmPdu buf) evs) = Inl NoReturn)"
  using assms
proof (induction evs arbitrary: e N)
  case Nil
  then show ?case by (intro disjI1 exI [of _ e] exI [of _ N] exI [of _ "[]"]) simp
next
  case (Cons x evs)
  obtain n buf where x: "x = (n, buf)" by (cases x)
  note near = Cons.prems(2) [unfolded x am_near.simps]
  have core: "am_rx_core e" using Cons.prems(1) by (simp add: am_src_inv_def am_rx_inv_def)
  note c = am_rx_coreD [OF core]
  have "N - am_window_size e \<le> n" "n < N + am_window_size e" "am_carries src (am_sn_field_length e) n buf" using near by simp_all
  from am_recv_src [OF Cons.prems(1) this] show ?case
  proof (elim disjE exE conjE)
    fix e1 out N1 assume r: "nr_rlc_entity_am_recv_pdu e buf = Inr (e1, map AmDeliver out)" "am_recv_result src n N e e1 out N1"
    then have src1: "am_src_inv src N1 e1" and N1: "N \<le> N1" "N1 \<le> N + am_window_size e" and tx: "am_tx_part e1 = am_tx_part e"
      by (simp_all add: am_recv_result_def)
    have m1: "am_sn_modulus e1 = am_sn_modulus e" "am_window_size e1 = am_window_size e" using tx by (simp_all add: am_tx_part_def)
    have "(am_rx_next e1 - am_rx_next e) mod am_sn_modulus e = (N1 - N) mod am_sn_modulus e"
      using src1 Cons.prems(1) by (simp add: am_src_inv_def m1 mod_diff_eq)
    also have "\<dots> = N1 - N" using N1 c(1,2) by (intro mod_pos_pos_trivial) simp_all
    finally have "am_near src N1 e1 evs" using near r(1) by simp
    define ns1 where "ns1 = (if out = [] then [] else [n])"
    have o: "out = map src ns1" "distinct ns1" "set ns1 \<subseteq> {n}" "set ns1 \<inter> am_given e N = {}" "am_given e1 N1 = am_given e N \<union> set ns1"
      using r(2) by (auto simp: am_recv_result_def ns1_def)
    have st: "am_step e (AmPdu buf) = Inr (e1, map (\<lambda>n. Inl (AmDeliver (src n))) ns1)" using r(1) o(1) by simp
    from Cons.IH [OF src1 \<open>am_near src N1 e1 evs\<close>] show ?thesis
    proof (elim disjE exE conjE)
      fix e' N' ns assume i: "run_steps am_step e1 (map (\<lambda>(n, buf). AmPdu buf) evs) = Inr (e', map (\<lambda>n. Inl (AmDeliver (src n))) ns)"
        "distinct ns" "set ns \<subseteq> fst ` set evs" "set ns \<inter> am_given e1 N1 = {}" "am_given e' N' = am_given e1 N1 \<union> set ns"
        "am_src_inv src N' e'" "am_sn_modulus e' = am_sn_modulus e1"
      have "run_steps am_step e (map (\<lambda>(n, buf). AmPdu buf) (x # evs)) = Inr (e', map (\<lambda>n. Inl (AmDeliver (src n))) (ns1 @ ns))"
        using st i(1) by (simp add: x)
      moreover have "distinct (ns1 @ ns)" "set (ns1 @ ns) \<subseteq> fst ` set (x # evs)" "set (ns1 @ ns) \<inter> am_given e N = {}"
        "am_given e' N' = am_given e N \<union> set (ns1 @ ns)"
        using i o by (auto simp: x)
      ultimately show ?thesis using i(6,7) m1 by (intro disjI1 exI [of _ e'] exI [of _ N'] exI [of _ "ns1 @ ns"]) simp
    next
      fix pre ev post e' outs assume i: "evs = pre @ ev # post" "run_steps am_step e1 (map (\<lambda>(n, buf). AmPdu buf) pre) = Inr (e', outs)"
        "am_stuck e' (am_rx_next e')" "run_steps am_step e1 (map (\<lambda>(n, buf). AmPdu buf) evs) = Inl NoReturn"
      have "x # evs = (x # pre) @ ev # post" "run_steps am_step e (map (\<lambda>(n, buf). AmPdu buf) (x # evs)) = Inl NoReturn"
        "run_steps am_step e (map (\<lambda>(n, buf). AmPdu buf) (x # pre)) = Inr (e', map (\<lambda>n. Inl (AmDeliver (src n))) ns1 @ outs)"
        using i st by (simp_all add: x)
      then show ?thesis using i(3) by blast
    qed
  next
    assume i: "am_stuck e (am_rx_next e)" "nr_rlc_entity_am_recv_pdu e buf = Inl NoReturn"
    have "x # evs = [] @ x # evs" "run_steps am_step e (map (\<lambda>(n, buf). AmPdu buf) []) = Inr (e, [])"
      "run_steps am_step e (map (\<lambda>(n, buf). AmPdu buf) (x # evs)) = Inl NoReturn"
      using i(2) by (simp_all add: x)
    then show ?thesis using i(1) by blast
  qed
qed

text \<open>C4: The acknowledged mode delivers every SDU once and whole. The sender numbers its SDUs from 0 on. Whatever
  segments of them arrive at a new entity, in whatever order, cut in whatever way, lost and repeated, as long as each
  is of an SDU less than a window away from the first one that the receiver misses: what is delivered are SDUs of the
  sender, byte for byte, no SDU twice, and every SDU before the receiving window was delivered. The only
  exception is the endless loop with a full window.\<close>

theorem rlc_am_delivers_once:
  assumes new: "new_nr_rlc_entity_am rx_max tx_max t_poll t_reas t_prohibit poll_pdu poll_byte max_retx len = Inr e0" and "0 \<le> tx_max"
    and src: "\<forall>n. int (length (src n)) \<le> NR_SDU_MAX" and near: "am_near src 0 e0 evs"
  shows "(\<exists>e N ns. run_steps am_step e0 (map (\<lambda>(n, buf). AmPdu buf) evs) = Inr (e, map (\<lambda>n. Inl (AmDeliver (src n))) ns) \<and>
      distinct ns \<and> set ns \<subseteq> fst ` set evs \<and> am_rx_next e = N mod am_sn_modulus e0 \<and> (\<forall>n. 0 \<le> n \<longrightarrow> n < N \<longrightarrow> n \<in> set ns) \<and> 0 \<le> N \<and> N \<notin> set ns) \<or>
    (\<exists>pre ev post e outs. evs = pre @ ev # post \<and> run_steps am_step e0 (map (\<lambda>(n, buf). AmPdu buf) pre) = Inr (e, outs) \<and>
      am_stuck e (am_rx_next e) \<and> run_steps am_step e0 (map (\<lambda>(n, buf). AmPdu buf) evs) = Inl NoReturn)"
proof -
  have inv: "am_rx_inv e0" using new_am_inv [OF assms(1,2)] by (simp add: am_inv_def)
  then have core: "am_rx_core e0" by (simp add: am_rx_inv_def)
  have e0: "am_rx_next e0 = 0" "am_rx e0 = nr_rlc_new_rx_manager (2 ^ nat (len - 1))"
    using new by (auto simp: new_nr_rlc_entity_am_def c_bind_eq_Inr_conv)
  have cells: "am_cells e0 k = []" for k using rm_new_ok [of "2 ^ nat (len - 1)" k] by (simp add: am_cells_def e0)
  have "am_src_inv src 0 e0" using inv src by (simp add: am_src_inv_def e0 cells am_window_ok_def)
  moreover have "am_given e0 0 = {}" by (auto simp: am_given_def cells)
  moreover note am_near_run [OF calculation(1) near]
  ultimately show ?thesis
  proof (elim disjE exE conjE)
    fix e N ns assume r: "run_steps am_step e0 (map (\<lambda>(n, buf). AmPdu buf) evs) = Inr (e, map (\<lambda>n. Inl (AmDeliver (src n))) ns)"
      "distinct ns" "set ns \<subseteq> fst ` set evs" "am_given e N = am_given e0 0 \<union> set ns" "am_src_inv src N e" "am_sn_modulus e = am_sn_modulus e0"
      "am_given e0 0 = {}"
    have N: "am_rx_next e = N mod am_sn_modulus e0" "0 \<le> N" "\<not> cells_processed (am_cells e 0)"
      using r(5,6) by (simp_all add: am_src_inv_def am_rx_inv_def)
    have g: "set ns = am_given e N" using r(4,7) by simp
    have "\<forall>n. 0 \<le> n \<longrightarrow> n < N \<longrightarrow> n \<in> set ns" "N \<notin> set ns" using N unfolding g am_given_def by auto
    then show ?thesis using r N by blast
  qed blast
qed

subsection \<open>The endless loop\<close>

text \<open>A PDU with a whole SDU: 12 bits of sequence number behind the bits of a data PDU with both ends.\<close>

definition am_whole_pdu :: "int \<Rightarrow> byte list \<Rightarrow> byte list" where
  "am_whole_pdu sn d = [of_int (0x80 OR drop_bit 8 sn), of_int (sn AND 0xff)] @ d"

lemma am_whole_bits:
  assumes "0 \<le> sn" "sn < 4096"
  shows "bits_of [of_int (0x80 OR drop_bit 8 sn), of_int (sn AND 0xff)] = field_bits (am_fields 12 False True True sn 0)"
proof -
  have "take_bit 12 sn = sn" using assms by (simp add: take_bit_int_eq_self)
  then have high: "\<not> bit sn n" if "12 \<le> n" for n using that by (metis bit_take_bit_iff not_less)
  have m: "sn AND 0xff = take_bit 8 sn" by (simp add: take_bit_eq_mask mask_eq_exp_minus_1)
  have b: "bit (0x80 :: int) n \<longleftrightarrow> n = 7" for n
    using bit_exp_iff [where 'a = int, of 7 n] by simp
  have l: "rev [0..<8] = [7, 6, 5, 4, 3, 2, 1, 0 :: nat]" "rev [0..<12] = [11, 10, 9, 8, 7, 6, 5, 4, 3, 2, 1, 0 :: nat]"
    by (simp_all add: upt_rec)
  show ?thesis
    unfolding m by (simp add: bits_of_def byte_bits_def am_fields_def num_bits_def l bit_of_int_iff bit_or_iff bit_drop_bit_eq bit_take_bit_iff b high)
qed

lemma am_whole_recv:
  assumes inv: "am_rx_inv e" and len: "am_sn_field_length e = 12" and sn: "0 \<le> sn" "sn < 4096" and k: "am_dist e sn < am_window_size e"
    and free: "am_cells e (am_dist e sn) = []" and d: "d \<noteq> []" "int (length d) \<le> NR_SDU_MAX" "am_rx_size e + int (length d) \<le> am_rx_maxsize e"
  shows "am_stuck e sn \<Longrightarrow> nr_rlc_entity_am_recv_pdu e (am_whole_pdu sn d) = Inl NoReturn"
    and "sn \<noteq> am_rx_next e \<Longrightarrow> sn \<noteq> am_rx_highest_status e \<Longrightarrow>
      \<exists>e' out. nr_rlc_entity_am_recv_pdu e (am_whole_pdu sn d) = Inr (e', out) \<and> am_rx_inv e' \<and> am_tx_part e' = am_tx_part e \<and>
        am_rx_next e' = am_rx_next e \<and> am_rx_highest_status e' = am_rx_highest_status e \<and> am_rx_size e' = am_rx_size e \<and>
        (\<forall>j. 0 \<le> j \<and> j < am_window_size e \<longrightarrow>
           (if j = am_dist e sn then cells_processed (am_cells e' j) else am_cells e' j = am_cells e j))"
proof -
  let ?hdr = "[of_int (0x80 OR drop_bit 8 sn), of_int (sn AND 0xff)] :: byte list"
  let ?buf = "am_whole_pdu sn d"
  have core: "am_rx_core e" and nz: "\<not> cells_processed (am_cells e 0)" using inv by (simp_all add: am_rx_inv_def)
  have cfg: "am_cfg e" using core by (simp add: am_rx_core_def)
  have m: "am_sn_modulus e = 4096" "am_window_size e = 2048" using cfg len by (simp_all add: am_cfg_def)
  have ok: "rlc_sn_ok (2 ^ nat 12) sn" using sn by (simp add: rlc_sn_ok_def)
  have dec: "nr_rlc_pdu_decoder_get_bits (nr_rlc_pdu_decoder_init ?buf) 1 = Inr (1, dec_at ?buf 1)"
    "am_decode_data 12 (dec_at ?buf 1) = Inr (False, Some (True, True, sn, 0, 2))"
    using am_header_read [of 12 ?hdr False True True sn 0 d] am_whole_bits [OF sn] ok by (simp_all add: am_whole_pdu_def am_header_size_def)
  let ?e = "am_stats (\<lambda>s. s\<lparr>rxpdu_pkts := rxpdu_pkts s + 1, rxpdu_bytes := rxpdu_bytes s + of_nat (length ?buf)\<rparr>) e"
  let ?st = "am_store_pdu ?e ?buf False sn 0 True True 2"
  have run: "nr_rlc_entity_am_recv_pdu e ?buf = c_bind ?st (\<lambda>(e, out). Inr (e, map AmDeliver out))"
    unfolding nr_rlc_entity_am_recv_pdu_def Let_def dec(1) by (simp add: am_stats_def len dec(2) [unfolded One_nat_def] dec(1) [unfolded One_nat_def])
  have same: "am_dist ?e = am_dist e" "am_cells ?e = am_cells e" "am_window_size ?e = am_window_size e" "am_sn_modulus ?e = am_sn_modulus e"
    "am_rx_size ?e = am_rx_size e" "am_rx_maxsize ?e = am_rx_maxsize e" "am_rx_next ?e = am_rx_next e" "am_rx_highest_status ?e = am_rx_highest_status e"
    by (simp_all add: am_stats_def)
  define p where "p = nr_rlc_new_pdu sn 0 True True (drop 2 ?buf)"
  have p: "pdu_size p = int (length d)" "pdu_so p = 0" "pdu_is_last p" "pdu_data p = Some d" by (simp_all add: p_def am_whole_pdu_def)
  have inv1: "am_rx_inv ?e" and snm: "rlc_sn_ok (am_sn_modulus ?e) sn" and h2: "2 \<le> length ?buf"
    using inv sn by (simp_all add: same m rlc_sn_ok_def am_whole_pdu_def)
  obtain e1 where ins: "?st = c_bind (am_reception_actions e1 sn) (\<lambda>(e, out). Inr (e, out))" "am_rx_inv e1"
    "\<forall>j. 0 \<le> j \<and> j < am_window_size e \<longrightarrow> am_cells e1 j = am_inserted e (am_dist e sn) p j"
    "am_dist e1 = am_dist e" "am_rx_next e1 = am_rx_next e" "am_tx_part e1 = am_tx_part e" "am_rx_highest_status e1 = am_rx_highest_status e"
    "am_rx_size e1 = am_rx_size e + pdu_size p"
  proof (cases rule: am_store_cases [OF inv1 snm _ h2 p_def, where poll = False, case_names z discard insert])
    case (discard e1)
    then show ?thesis using k free d p by (simp add: same)
  next
    case (insert e1)
    then show ?thesis by (intro that [of e1]) (simp_all add: same am_inserted_def)
  qed simp
  have cfg1: "am_window_size e1 = am_window_size e" "am_sn_modulus e1 = am_sn_modulus e" using ins(6) by (simp_all add: am_tx_part_def)
  have dist: "0 \<le> am_dist e sn" using am_dist_range [OF am_rx_coreD(3) [OF core]] by simp
  have here: "am_cells e1 (am_dist e1 sn) = [p]" using ins(3,4) k dist free by (simp add: am_inserted_def)
  have full: "am_full e1 (am_dist e1 sn)" using p by (simp add: am_full_def here)
  have sn1: "rlc_sn_ok (am_sn_modulus e1) sn" "am_dist e1 sn < am_window_size e1" using snm k by (simp_all add: same cfg1 ins(4))
  have stuck1: "am_stuck e1 sn = am_stuck e sn"
    using am_stuck_inserted [OF core ins(5,7) cfg1(1) _ ins(3)] snm same by simp
  show "nr_rlc_entity_am_recv_pdu e ?buf = Inl NoReturn" if "am_stuck e sn"
    using am_actions_stuck [OF ins(2) sn1 full] that stuck1 by (simp add: run ins(1))
  assume ne: "sn \<noteq> am_rx_next e" "sn \<noteq> am_rx_highest_status e"
  have "\<not> am_stuck e1 sn" using ne ins(5) by (simp add: am_stuck_def)
  then obtain e' out sdu bad n ps c where r: "am_reception_actions e1 sn = Inr (e', out)"
    "am_reassemble_loop [] False (am_rx_size e1) (am_cells e1 (am_dist e1 sn)) = Inr (sdu, bad, n, ps)" "am_rx_core e'" "am_tx_part e' = am_tx_part e1"
    "0 \<le> c" "am_rx_next e' = (am_rx_next e1 + c) mod am_sn_modulus e1" "am_rx_size e' = n"
    "sn \<noteq> am_rx_highest_status e1 \<longrightarrow> am_rx_highest_status e' = am_rx_highest_status e1"
    "\<forall>k. 0 \<le> k \<and> k < c \<longrightarrow> cells_processed (am_marked e1 (am_dist e1 sn) k)"
    "\<forall>k. 0 \<le> k \<and> k < am_window_size e1 \<longrightarrow> am_cells e' k = (if c + k < am_window_size e1 then am_marked e1 (am_dist e1 sn) (c + k) else [])"
    using am_actions_full [OF ins(2) sn1 full] by metis
  have nd: "am_dist e sn \<noteq> 0" using am_dist_0 [OF core] snm ne(1) same by simp
  have nz1: "\<not> cells_processed (am_cells e1 0)" using ins(2) by (simp add: am_rx_inv_def)
  have "\<not> 0 < c" using r(9) [rule_format, of 0] nz1 nd by (auto simp: am_marked_def ins(4))
  then have c0: "c = 0" using r(5) by simp
  have n: "n = am_rx_size e" using r(2) d p by (auto simp: here ins(8) Let_def buf_read_def)
  have "am_rx_next e' = am_rx_next e" using r(6) c0 am_rx_coreD(5) [OF core] by (simp add: ins(5) cfg1 rlc_sn_ok_def)
  moreover have cells: "if j = am_dist e sn then cells_processed (am_cells e' j) else am_cells e' j = am_cells e j"
    if "0 \<le> j" "j < am_window_size e" for j
    using r(10) that c0 ins(3) here by (simp add: cfg1 am_marked_def ins(4) am_inserted_def am_mark_def)
  moreover have "am_rx_inv e'" using r(3) cells [of 0] nd nz am_rx_coreD(2) [OF core] by (simp add: am_rx_inv_def)
  moreover have "nr_rlc_entity_am_recv_pdu e ?buf = Inr (e', map AmDeliver out)" by (simp add: run ins(1) r(1))
  ultimately show "\<exists>e' out. nr_rlc_entity_am_recv_pdu e ?buf = Inr (e', out) \<and> am_rx_inv e' \<and> am_tx_part e' = am_tx_part e \<and>
        am_rx_next e' = am_rx_next e \<and> am_rx_highest_status e' = am_rx_highest_status e \<and> am_rx_size e' = am_rx_size e \<and>
        (\<forall>j. 0 \<le> j \<and> j < am_window_size e \<longrightarrow>
           (if j = am_dist e sn then cells_processed (am_cells e' j) else am_cells e' j = am_cells e j))"
    using r(4,7,8) ins(6,7) n ne(2) by (intro exI [of _ e'] exI [of _ "map AmDeliver out"]) simp
qed

lemma am_whole_run:
  assumes len: "am_sn_field_length e = 12" and inv: "am_rx_inv e" and e: "am_rx_next e = 0" "am_rx_highest_status e = 0"
    and free: "\<forall>j. 0 \<le> j \<and> j < am_window_size e \<longrightarrow> am_cells e j = []"
    and d: "\<forall>sn. d sn \<noteq> [] \<and> int (length (d sn)) \<le> NR_SDU_MAX \<and> am_rx_size e + int (length (d sn)) \<le> am_rx_maxsize e" and k: "int k < 2048"
  shows "\<exists>e' outs. run_steps am_step e (map (\<lambda>sn. AmPdu (am_whole_pdu sn (d sn))) [1..int k]) = Inr (e', outs) \<and> am_rx_inv e' \<and>
    am_tx_part e' = am_tx_part e \<and> am_rx_next e' = 0 \<and> am_rx_highest_status e' = 0 \<and> am_rx_size e' = am_rx_size e \<and>
    (\<forall>j. 0 \<le> j \<and> j < am_window_size e \<longrightarrow> (if 1 \<le> j \<and> j \<le> int k then cells_processed (am_cells e' j) else am_cells e' j = []))"
  using k
proof (induction k)
  case 0
  then show ?case using inv e free by simp
next
  case (Suc k)
  then obtain e1 outs where r: "run_steps am_step e (map (\<lambda>sn. AmPdu (am_whole_pdu sn (d sn))) [1..int k]) = Inr (e1, outs)" "am_rx_inv e1"
    "am_tx_part e1 = am_tx_part e" "am_rx_next e1 = 0" "am_rx_highest_status e1 = 0" "am_rx_size e1 = am_rx_size e"
    "\<forall>j. 0 \<le> j \<and> j < am_window_size e \<longrightarrow> (if 1 \<le> j \<and> j \<le> int k then cells_processed (am_cells e1 j) else am_cells e1 j = [])"
    by force
  let ?sn = "int k + 1"
  have cfg: "am_sn_field_length e1 = 12" "am_window_size e1 = am_window_size e" "am_rx_maxsize e1 = am_rx_maxsize e" "am_sn_modulus e1 = am_sn_modulus e"
    using r(3) len by (simp_all add: am_tx_part_def)
  have m: "am_sn_modulus e = 4096" "am_window_size e = 2048" using inv len by (simp_all add: am_rx_inv_def am_rx_core_def am_cfg_def)
  have dist: "am_dist e1 ?sn = ?sn" using Suc.prems by (simp add: am_dist_def r(4) cfg m)
  have pre: "am_dist e1 ?sn < am_window_size e1" "am_cells e1 (am_dist e1 ?sn) = []"
    using r(7) [rule_format, of ?sn] Suc.prems by (simp_all add: dist cfg m)
  from am_whole_recv(2) [OF r(2) cfg(1) _ _ pre, of "d ?sn"] obtain e2 out2 where
    s: "nr_rlc_entity_am_recv_pdu e1 (am_whole_pdu ?sn (d ?sn)) = Inr (e2, out2)" "am_rx_inv e2" "am_tx_part e2 = am_tx_part e1"
      "am_rx_next e2 = 0" "am_rx_highest_status e2 = 0" "am_rx_size e2 = am_rx_size e1"
      "\<forall>j. 0 \<le> j \<and> j < am_window_size e \<longrightarrow> (if j = ?sn then cells_processed (am_cells e2 j) else am_cells e2 j = am_cells e1 j)"
    using Suc.prems d r(4,5,6) by (auto simp: cfg dist)
  have "[1..int (Suc k)] = [1..int k] @ [?sn]" by (simp add: upto_rec2 add.commute)
  then have "run_steps am_step e (map (\<lambda>sn. AmPdu (am_whole_pdu sn (d sn))) [1..int (Suc k)]) = Inr (e2, outs @ map Inl out2)"
    by (simp add: run_steps_append r(1) s(1))
  moreover have "if 1 \<le> j \<and> j \<le> int (Suc k) then cells_processed (am_cells e2 j) else am_cells e2 j = []" if "0 \<le> j" "j < am_window_size e" for j
    using r(7) [rule_format, of j] s(7) [rule_format, of j] that by (auto split: if_splits)
  ultimately show ?case using s(2-6) r(3,6) by (intro exI [of _ e2] exI [of _ "outs @ map Inl out2"]) simp
qed

text \<open>C20: A concrete run that hangs the receiver of the acknowledged mode. A new entity with 12 bit sequence numbers gets
  the 2047 PDUs of the numbers 1 to 2047, each with a whole SDU of any content (not empty, and no larger than the maximum and the receive buffer), with no call of \<^verbatim>\<open>set_time\<close> in
  between (so that t-Reassembly has not moved \<^verbatim>\<open>rx_highest_status\<close>), and then the PDU of number 0 (the first one
  was lost and is sent again): every slot of the window is then delivered, and the loop that moves
  \<^verbatim>\<open>rx_highest_status\<close> to the first one that is not, never ends. The other calls before return.\<close>

theorem rlc_am_receiver_hangs:
  assumes new: "new_nr_rlc_entity_am rx_max tx_max t_poll t_reas t_prohibit poll_pdu poll_byte max_retx 12 = Inr e0" and "0 \<le> tx_max"
    and d: "\<forall>sn. d sn \<noteq> [] \<and> int (length (d sn)) \<le> NR_SDU_MAX \<and> int (length (d sn)) \<le> rx_max * 5"
  shows "\<exists>e outs. run_steps am_step e0 (map (\<lambda>sn. AmPdu (am_whole_pdu sn (d sn))) [1..2047]) = Inr (e, outs) \<and>
    nr_rlc_entity_am_recv_pdu e (am_whole_pdu 0 (d 0)) = Inl NoReturn"
proof -
  have inv: "am_rx_inv e0" using new_am_inv [OF assms(1,2)] by (simp add: am_inv_def)
  have e0: "am_rx_next e0 = 0" "am_rx_highest_status e0 = 0" "am_rx e0 = nr_rlc_new_rx_manager 2048" "am_sn_field_length e0 = 12" "am_rx_size e0 = 0"
    "am_rx_maxsize e0 = rx_max * 5" "am_window_size e0 = 2048" "am_sn_modulus e0 = 4096"
    using new by (auto simp: new_nr_rlc_entity_am_def c_bind_eq_Inr_conv)
  have cells: "am_cells e0 j = []" for j using rm_new_ok [of 2048 j] by (simp add: am_cells_def e0)
  obtain e outs where r: "run_steps am_step e0 (map (\<lambda>sn. AmPdu (am_whole_pdu sn (d sn))) [1..2047]) = Inr (e, outs)" "am_rx_inv e"
    "am_tx_part e = am_tx_part e0" "am_rx_next e = 0" "am_rx_highest_status e = 0" "am_rx_size e = am_rx_size e0"
    "\<forall>j. 0 \<le> j \<and> j < am_window_size e0 \<longrightarrow> (if 1 \<le> j \<and> j \<le> 2047 then cells_processed (am_cells e j) else am_cells e j = [])"
    using am_whole_run [OF e0(4) inv e0(1,2) _ _, of d 2047] d by (auto simp: cells e0)
  have cfg: "am_sn_field_length e = 12" "am_window_size e = 2048" "am_rx_maxsize e = rx_max * 5"
    using r(3) e0 by (simp_all add: am_tx_part_def)
  have z: "am_dist e 0 = 0" by (simp add: am_dist_def r(4))
  have stuck: "am_stuck e 0" using r(4,5,7) by (simp add: am_stuck_def cfg e0)
  have "am_cells e 0 = []" using r(7) [rule_format, of 0] by (simp add: e0)
  then have "nr_rlc_entity_am_recv_pdu e (am_whole_pdu 0 (d 0)) = Inl NoReturn"
    using am_whole_recv(1) [OF r(2) cfg(1), of 0 "d 0"] stuck d r(6) by (simp add: z cfg e0)
  then show ?thesis using r(1) by blast
qed

lemma rlc_am_receiver_hangs_witness:
  "\<exists>e0 e outs. new_nr_rlc_entity_am 100000 100000 45 35 0 (- 1) (- 1) 8 12 = Inr e0 \<and>
    run_steps am_step e0 (map (\<lambda>sn. AmPdu (am_whole_pdu sn [7])) [1..2047]) = Inr (e, outs) \<and>
    nr_rlc_entity_am_recv_pdu e (am_whole_pdu 0 [7]) = Inl NoReturn"
proof -
  obtain avg where new: "new_nr_rlc_entity_am 100000 100000 45 35 0 (- 1) (- 1) 8 12 = Inr (am_start (nr_rlc_new_rx_manager 2048) avg)"
    by (rule am_new_start)
  show ?thesis using rlc_am_receiver_hangs [OF new, of "\<lambda>_. [7]"] new by (auto simp: NR_SDU_MAX_def)
qed

lemma rlc_am_delivers_once_witness:
  "\<exists>e0. new_nr_rlc_entity_am 100000 100000 45 35 0 (- 1) (- 1) 8 12 = Inr e0 \<and>
    (let src = (\<lambda>n. if n = 0 then [1, 2] else []); evs = [(0, [128, 0, 1, 2])] in
    (\<exists>e N ns. run_steps am_step e0 (map (\<lambda>(n, buf). AmPdu buf) evs) = Inr (e, map (\<lambda>n. Inl (AmDeliver (src n))) ns) \<and>
      distinct ns \<and> set ns \<subseteq> fst ` set evs \<and> am_rx_next e = N mod am_sn_modulus e0 \<and> (\<forall>n. 0 \<le> n \<longrightarrow> n < N \<longrightarrow> n \<in> set ns) \<and> 0 \<le> N \<and> N \<notin> set ns) \<or>
    (\<exists>pre ev post e outs. evs = pre @ ev # post \<and> run_steps am_step e0 (map (\<lambda>(n, buf). AmPdu buf) pre) = Inr (e, outs) \<and>
      am_stuck e (am_rx_next e) \<and> run_steps am_step e0 (map (\<lambda>(n, buf). AmPdu buf) evs) = Inl NoReturn))"
proof -
  obtain avg where new: "new_nr_rlc_entity_am 100000 100000 45 35 0 (- 1) (- 1) 8 12 = Inr (am_start (nr_rlc_new_rx_manager 2048) avg)"
    by (rule am_new_start)
  let ?src = "\<lambda>n :: int. if n = 0 then [1, 2] else [] :: byte list"
  have "am_carries ?src 12 0 [128, 0, 1, 2]" by code_simp
  then have "am_near ?src 0 (am_start (nr_rlc_new_rx_manager 2048) avg) [(0, [128, 0, 1, 2])]"
    by (simp add: am_start_def split: sum.split)
  from rlc_am_delivers_once [OF new _ _ this] show ?thesis using new by (simp add: NR_SDU_MAX_def Let_def)
qed

end
