(* ===== verification/Rlc_Am_Report.thy ===== *)
theory Rlc_Am_Report
  imports Rlc_Am_Props
begin

text \<open>
  More properties of the acknowledged mode: the size that is announced for a status report is the size of the report,
  and two situations that the code handles wrongly.
\<close>

subsection \<open>The size of a status report\<close>

lemma generate_missing_loop_size:
  assumes cfg: "am_cfg e"
  shows "se_ok n st \<Longrightarrow> generate_missing_loop e m cnt sn lst st = Inr (ln, tr, st') \<Longrightarrow>
    \<exists>rc'. missing_size_loop e m cnt sn (int (enc_byte (se_enc st))) (int n) rc = (int (enc_byte (se_enc st')), rc', tr) \<and>
      rc \<le> rc' \<and> (tr \<or> cnt = 0 \<or> rc < rc')"
proof (induction cnt arbitrary: sn lst st rc rule: less_induct)
  case (less cnt)
  show ?case
  proof (cases "cnt = 0")
    case True
    then show ?thesis using less.prems by (simp add: generate_missing_loop.simps missing_size_loop.simps)
  next
    case False
    have len: "am_sn_field_length e = 12 \<or> am_sn_field_length e = 18" using cfg by (simp add: am_cfg_def)
    define cur where "cur = min cnt 255"
    define so_start where "so_start = (if sn = md_sn_start m then md_so_start m else 0)"
    define sn_end where "sn_end = (if cur = cnt then md_sn_end m else c_rem (sn + 254) (am_sn_modulus e))"
    define so_end where "so_end = (if cur = cnt then md_so_end m else 0xffff)"
    define k where "k = int (enc_byte (se_enc st))"
    have pair: "(if cur = cnt then (md_sn_end m, md_so_end m) else (c_rem (sn + 254) (am_sn_modulus e), 0xffff)) = (sn_end, so_end)"
      by (simp add: sn_end_def so_end_def)
    let ?ns = "nack_size e sn so_start sn_end so_end"
    have sz: "(am_sn_field_length e + 3 + (if am_sn_field_length e = 18 then 3 else 1) + (if so_start = 0 \<and> so_end = 0xffff then 0 else 16 * 2)
        + (if sn = sn_end then 0 else 8)) div 8 = ?ns"
      using len by (auto simp: nack_size_def Let_def)
    note gen = generate_missing_loop.simps [of e m cnt sn lst st, folded cur_def, folded so_start_def, unfolded Let_def, folded cur_def,
        folded so_start_def, unfolded pair prod.case]
    note siz = missing_size_loop.simps [of e m cnt sn k "int n" rc, folded cur_def, folded so_start_def, unfolded Let_def, folded cur_def,
        folded so_start_def, unfolded pair prod.case sz]
    have n: "length (enc_buffer (se_enc st)) = n" using less.prems(1) by (simp add: se_ok_def)
    show ?thesis
    proof (cases "k + ?ns > int n")
      case True
      then have "tr" "st' = st" using False less.prems(2) n by (simp_all add: gen flip: k_def)
      then show ?thesis using True False siz by (auto simp flip: k_def)
    next
      case F: False
      then obtain st1 where st1: "put_nack e st sn so_start sn_end so_end (int cur) = Inr st1" "se_ok n st1"
        "int (enc_byte (se_enc st1)) = k + ?ns"
        using put_nack_ok [OF cfg less.prems(1), of sn so_start sn_end so_end "int cur"] by (auto simp: k_def)
      have "cnt - cur < cnt" using False by (simp add: cur_def)
      moreover have "generate_missing_loop e m (cnt - cur) (c_rem (sn + int cur) (am_sn_modulus e))
          (if sn \<noteq> sn_end then sn + int cur - 1 else sn) st1 = Inr (ln, tr, st')"
        using less.prems(2) False F n st1(1) by (simp add: gen flip: k_def)
      moreover note less.IH [OF calculation(1) st1(2) calculation(2), of "rc + 1"]
      ultimately show ?thesis using False F by (auto simp: siz st1(3) simp flip: k_def)
    qed
  qed
qed

lemma status_loop_size:
  assumes core: "am_rx_core e" and ord: "am_ord e"
  shows "am_ptr e l \<Longrightarrow> se_ok n st \<Longrightarrow> status_loop k e l (nc = 0) lst st = Inr (ln, st') \<Longrightarrow> 0 \<le> nc \<Longrightarrow>
    status_size_loop k e l nc (int (enc_byte (se_enc st))) (int n) = Inr (int (enc_byte (se_enc st')))"
proof (induction k arbitrary: l st nc lst)
  case 0
  then show ?case by (cases l) simp_all
next
  case (Suc k)
  show ?case
  proof (cases l)
    case Nil
    then show ?thesis using Suc.prems(3) by simp
  next
    case (Cons c cs)
    then obtain j where "am_ptr_at e j (c # cs)" using Suc.prems(1) by (auto simp: am_ptr_def)
    then obtain m where m: "next_missing e c cs (nc = 0) = Inr m" "md_ok e m" using next_missing_ok [OF core ord] by blast
    show ?thesis
    proof (cases "md_sn_start m = - 1")
      case True
      then show ?thesis using Suc.prems(3) by (simp add: Cons m(1))
    next
      case False
      then have md: "rlc_sn_ok (am_sn_modulus e) (md_sn_start m)" "rlc_sn_ok (am_sn_modulus e) (md_sn_end m)" "am_ptr e (md_next m)"
        using m(2) by (simp_all add: md_ok_def)
      obtain ln1 tr st1 where g: "generate_missing e m st = Inr (ln1, tr, st1)" "se_ok n st1"
        using generate_missing_loop_ok [OF am_core_cfg [OF core] Suc.prems(2), of m "missing_count e m" "md_sn_start m" "- 1"]
        by (auto simp: generate_missing_def)
      obtain rc where rc: "missing_size_loop e m (missing_count e m) (md_sn_start m) (int (enc_byte (se_enc st))) (int n) 0 =
          (int (enc_byte (se_enc st1)), rc, tr)" "0 \<le> rc" "tr \<or> 0 < rc"
        using generate_missing_loop_size [OF am_core_cfg [OF core] Suc.prems(2) g(1) [unfolded generate_missing_def], of 0]
          missing_count_pos [OF core md(1,2)] by auto
      obtain st2 where st2: "(case se_so_end st1 of
                    Some i \<Rightarrow>
                      if tr
                      then c_bind (buf_write (enc_buffer (se_enc st1)) (int i) [0xff, 0xff]) (\<lambda>buf.
                           Inr (st1\<lparr>se_enc := (se_enc st1)\<lparr>enc_buffer := buf\<rparr>\<rparr>))
                      else Inr st1
                  | None \<Rightarrow> Inr st1) = Inr st2" "se_ok n st2" "enc_byte (se_enc st2) = enc_byte (se_enc st1)"
        by (rule status_so_end_ok [OF g(2), of tr])
      have run: "status_loop k e (if tr then [] else md_next m) False (if ln1 \<noteq> - 1 then ln1 else lst) st2 = Inr (ln, st')"
        using Suc.prems(3) False by (simp add: Cons m(1) g(1) st2(1))
      have "status_size_loop k e (if tr then [] else md_next m) (nc + rc) (int (enc_byte (se_enc st1))) (int n) =
          Inr (int (enc_byte (se_enc st')))"
      proof (cases tr)
        case True
        then show ?thesis using run st2(3) by simp
      next
        case F: False
        then have "(nc + rc = 0) = False" using rc Suc.prems(4) by simp
        then show ?thesis using Suc.IH [OF md(3) st2(2), of "nc + rc"] run st2(3) F rc(2) Suc.prems(4) by simp
      qed
      then show ?thesis using False by (simp add: Cons m(1) rc(1))
    qed
  qed
qed

lemma generate_status_size:
  assumes core: "am_rx_core e" and ord: "am_ord e" and r: "generate_status e buf = Inr (n, buf', e')"
  shows "status_size e (int (length buf)) = Inr n"
proof (cases "length buf < 3")
  case True
  then show ?thesis using r by (simp add: generate_status_def status_size_def)
next
  case False
  obtain enc where enc: "nr_rlc_pdu_encoder_put_bits (nr_rlc_pdu_encoder_init buf) 0 24 = Inr enc" "enc_byte enc = 3" "enc_bit enc = 0"
    "length (enc_buffer enc) = length buf"
    by (rule status_header_ok [of buf]) (use False in simp)
  obtain l where l: "get_first_rx_pdu e = Inr l" "am_ptr e l" using get_first_rx_pdu_ok [OF core ord] by blast
  let ?st = "\<lparr>se_enc = enc, se_e1_byte = 2, se_e1_bit = (if am_sn_field_length e = 18 then 1 else 7), se_so_end = None\<rparr>"
  have st: "se_ok (length buf) ?st" using enc False by (simp add: se_ok_def)
  obtain ln st' where s: "status_loop (length buf) e l (0 = (0 :: int)) (am_dec e (am_rx_next e)) ?st = Inr (ln, st')" "n = int (enc_byte (se_enc st'))"
    using r False by (auto simp: generate_status_def enc(1) l(1) Let_def c_bind_eq_Inr_conv)
  from status_loop_size [OF core ord l(2) st s(1)] show ?thesis using False s(2) by (simp add: status_size_def l(1) enc(2))
qed

lemma status_size_ge:
  assumes core: "am_rx_core e" and ord: "am_ord e" and s: "status_size e maxsize = Inr n" and m: "3 \<le> maxsize"
  shows "3 \<le> n"
proof -
  obtain l where l: "get_first_rx_pdu e = Inr l" "am_ptr e l" using get_first_rx_pdu_ok [OF core ord] by blast
  then show ?thesis using status_size_loop_ok [OF core ord l(2), of 3 maxsize "nat maxsize" 0] s m by (auto simp: status_size_def)
qed

text \<open>C18: The size that an acknowledged mode entity announces for its status report is the size of the report that it writes.
  In every state that a new entity reaches, when a report is due, the buffer status for a grant of \<open>n\<close> bytes
  and the PDU that is written in a grant of that size agree: the loops over the missing parts, with and without
  the encoder, take the same decisions.\<close>

theorem rlc_am_status_size_exact:
  assumes new: "new_nr_rlc_entity_am rx_max tx_max t_poll t_reas t_prohibit poll_pdu poll_byte max_retx len = Inr e0" and "0 \<le> tx_max"
    and run: "run_steps am_step e0 evs = Inr (e, outs)" and due: "status_to_report e" and room: "3 \<le> length buf"
  shows "\<exists>s out e'. nr_rlc_entity_am_buffer_status e (int (length buf)) = Inr s \<and> 3 \<le> bs_status_size s \<and>
    nr_rlc_entity_am_generate_pdu now e buf = Inr (bs_status_size s, out, e') \<and> \<not> status_to_report e'"
proof -
  have "am_inv e0" by (rule new_am_inv [OF assms(1,2)])
  then have "am_inv e" using am_machine.run_cases [of e0 evs] run by auto
  then have rx: "am_rx_core e" "am_ord e" by (simp_all add: am_inv_def am_rx_inv_def)
  obtain n out e' where r: "generate_status e buf = Inr (n, out, e')" using generate_status_ok [OF rx, of buf] by blast
  have s: "status_size e (int (length buf)) = Inr n" by (rule generate_status_size [OF rx r])
  have "3 \<le> n" by (rule status_size_ge [OF rx s]) (use room in simp)
  moreover have "\<not> am_status_triggered e'" using r room by (auto simp: generate_status_def Let_def c_bind_eq_Inr_conv am_stats_def)
  ultimately show ?thesis
    using due r s by (simp add: nr_rlc_entity_am_buffer_status_def nr_rlc_entity_am_generate_pdu_def status_to_report_def)
qed

lemma rlc_am_status_size_exact_witness:
  "\<exists>e0 e outs s out e'. new_nr_rlc_entity_am 100000 100000 45 35 0 (- 1) (- 1) 8 12 = Inr e0 \<and>
    run_steps am_step e0 [AmPdu [192, 1, 7, 8]] = Inr (e, outs) \<and> nr_rlc_entity_am_buffer_status e 10 = Inr s \<and> 3 \<le> bs_status_size s \<and>
    nr_rlc_entity_am_generate_pdu 0 e (replicate 10 0) = Inr (bs_status_size s, out, e') \<and> \<not> status_to_report e'"
proof -
  obtain avg where new: "new_nr_rlc_entity_am 100000 100000 45 35 0 (- 1) (- 1) 8 12 = Inr (am_start (nr_rlc_new_rx_manager 2048) avg)"
    by (rule am_new_start)
  have "map_sum id (\<lambda>(e, outs). status_to_report e) (run_steps am_step (am_start (nr_rlc_new_rx_manager 2048) avg) [AmPdu [192, 1, 7, 8]]) = Inr True"
    by code_simp
  then obtain e outs where run: "run_steps am_step (am_start (nr_rlc_new_rx_manager 2048) avg) [AmPdu [192, 1, 7, 8]] = Inr (e, outs)"
    "status_to_report e" by (auto elim!: map_sum_eq_InrE)
  show ?thesis using rlc_am_status_size_exact [OF new _ run(1) run(2), of "replicate 10 0" 0] new run by force
qed

subsection \<open>Control PDUs of a faulty peer\<close>

text \<open>C39: The order of the NACKs of a status report is not checked. \<^verbatim>\<open>process_control_pdu\<close> means to discard a report
  with a NACK that is not greater than the one before it, but the variable of the previous NACK is never set
  in the loop of the checks. Here a new entity sends two SDUs, then gets a report with \<^verbatim>\<open>ACK_SN\<close> 2 and NACKs for
  the numbers 1 and 0 in this order: the report is processed, and SDU 0 is reported as delivered although
  it is reported missing.\<close>

theorem rlc_am_nacks_out_of_order:
  "\<exists>e0 e. new_nr_rlc_entity_am 100000 100000 45 35 0 (- 1) (- 1) 8 12 = Inr e0 \<and>
    run_steps am_step e0 [AmSdu 0 [1, 2] 70, AmSdu 0 [3, 4] 71, AmGrant 0 (replicate 4 0), AmGrant 0 (replicate 4 0), AmPdu [0, 2, 128, 0, 24, 0, 0]] =
      Inr (e, [Inr [128, 0, 1, 2], Inr [192, 1, 3, 4], Inl (AmAcked 70)])"
proof -
  obtain avg where new: "new_nr_rlc_entity_am 100000 100000 45 35 0 (- 1) (- 1) 8 12 = Inr (am_start (nr_rlc_new_rx_manager 2048) avg)"
    by (rule am_new_start)
  have "map_sum id snd (run_steps am_step (am_start rx avg) [AmSdu 0 [1, 2] 70, AmSdu 0 [3, 4] 71, AmGrant 0 (replicate 4 0),
      AmGrant 0 (replicate 4 0), AmPdu [0, 2, 128, 0, 24, 0, 0]]) = Inr [Inr [128, 0, 1, 2], Inr [192, 1, 3, 4], Inl (AmAcked 70)]" for rx
    by code_simp
  then show ?thesis using new by (force elim!: map_sum_eq_InrE)
qed

text \<open>C38: A status report can lose the retransmit list. When it has a NACK for the number of its \<^verbatim>\<open>ACK_SN\<close> that does not overlap the head
  of the retransmit list, and the wait list is empty, the rest of the list is linked behind the new list and then cut off again at the
  end. Here a new entity sends two SDUs, both are reported missing, the first is sent again and reported missing again;
  after the last report the entity holds no segment any more, neither SDU was acknowledged and their bytes stay in
  \<^verbatim>\<open>tx_size\<close>; and when the poll timer expires, \<^verbatim>\<open>check_t_poll_retransmit\<close> follows the NULL pointer of the empty
  wait list.\<close>

theorem rlc_am_retransmissions_lost:
  "\<exists>e0 e outs. new_nr_rlc_entity_am 100000 100000 45 35 0 (- 1) (- 1) 8 12 = Inr e0 \<and>
    run_steps am_step e0 [AmTick 5, AmSdu 0 [1, 2] 70, AmSdu 0 [3, 4] 71, AmGrant 0 (replicate 4 0), AmGrant 0 (replicate 4 0),
      AmPdu [0, 1, 128, 0, 0], AmTick 100, AmPdu [0, 2, 128, 0, 8, 0, 16], AmGrant 0 (replicate 4 0), AmPdu [0, 1, 128, 0, 0],
      AmPdu [0, 0, 128, 0, 4, 0, 5, 0, 6]] = Inr (e, outs) \<and>
    am_tx_list e = [] \<and> am_wait_list e = [] \<and> am_retransmit_list e = [] \<and> am_tx_size e = 4 \<and> (\<forall>i. Inl (AmAcked i) \<notin> set outs) \<and>
    nr_rlc_entity_am_set_time e 200 = Inl NullDeref"
proof -
  obtain avg where new: "new_nr_rlc_entity_am 100000 100000 45 35 0 (- 1) (- 1) 8 12 = Inr (am_start (nr_rlc_new_rx_manager 2048) avg)"
    by (rule am_new_start)
  have "map_sum id (\<lambda>(e, outs). (am_tx_list e, am_wait_list e, am_retransmit_list e, am_tx_size e, outs,
        case nr_rlc_entity_am_set_time e 200 of Inl f \<Rightarrow> Some f | Inr _ \<Rightarrow> None))
      (run_steps am_step (am_start rx avg) [AmTick 5, AmSdu 0 [1, 2] 70, AmSdu 0 [3, 4] 71, AmGrant 0 (replicate 4 0), AmGrant 0 (replicate 4 0),
        AmPdu [0, 1, 128, 0, 0], AmTick 100, AmPdu [0, 2, 128, 0, 8, 0, 16], AmGrant 0 (replicate 4 0), AmPdu [0, 1, 128, 0, 0],
        AmPdu [0, 0, 128, 0, 4, 0, 5, 0, 6]]) =
    Inr ([], [], [], 4, [Inr [128, 0, 1, 2], Inr [192, 1, 3, 4], Inr [192, 0, 1, 2]], Some NullDeref)" for rx
    by code_simp
  then show ?thesis using new by (force elim!: map_sum_eq_InrE split: sum.splits)
qed

end
