(* ===== verification/Rlc_Tm.thy ===== *)
theory Rlc_Tm
  imports Rlc_Sdu
begin

text \<open>
  The transparent mode RLC entity (\<^verbatim>\<open>nr_rlc_entity_tm.c\<close>), the carrier of SRB 0: a queue of SDUs, sent as
  they are when the grant has room, and PDUs handed up as they come. The properties show that the entity
  is a bounded queue of byte strings.
\<close>

record nr_rlc_entity_tm =
  tm_common :: nr_rlc_entity
  tm_t_current :: u64
  tm_t_log_buffer_full :: u64
  tm_sdu_rejected :: int
  tm_tx_list :: "nr_rlc_sdu_segment list"
  tm_tx_size :: int
  tm_tx_maxsize :: int

definition new_nr_rlc_entity_tm :: "int \<Rightarrow> nr_rlc_entity_tm c_result" where
  "new_nr_rlc_entity_tm tx_maxsize =
     c_bind (time_average_new 100000 1024) (\<lambda>avg.
     Inr \<lparr>tm_common = nr_rlc_entity_init NR_RLC_TM avg, tm_t_current = 0, tm_t_log_buffer_full = 0,
          tm_sdu_rejected = 0, tm_tx_list = [], tm_tx_size = 0, tm_tx_maxsize = tx_maxsize\<rparr>)"

definition tm_stats :: "(nr_rlc_statistics \<Rightarrow> nr_rlc_statistics) \<Rightarrow> nr_rlc_entity_tm \<Rightarrow> nr_rlc_entity_tm" where
  "tm_stats f e = e\<lparr>tm_common := upd_stats f (tm_common e)\<rparr>"

lemma tm_stats_frame [simp]:
  "tm_tx_list (tm_stats f e) = tm_tx_list e" "tm_tx_size (tm_stats f e) = tm_tx_size e"
  "tm_tx_maxsize (tm_stats f e) = tm_tx_maxsize e" "bstatus (tm_common (tm_stats f e)) = bstatus (tm_common e)"
  by (simp_all add: tm_stats_def)

definition nr_rlc_entity_tm_recv_pdu :: "nr_rlc_entity_tm \<Rightarrow> byte list \<Rightarrow> nr_rlc_entity_tm \<times> byte list list" where
  "nr_rlc_entity_tm_recv_pdu e buffer =
     (let n = length buffer;
          e = tm_stats (\<lambda>s. s\<lparr>rxpdu_pkts := rxpdu_pkts s + 1, rxpdu_bytes := rxpdu_bytes s + of_nat n\<rparr>) e;
          e = tm_stats (\<lambda>s. s\<lparr>txsdu_pkts := txsdu_pkts s + 1, txsdu_bytes := txsdu_bytes s + of_nat n\<rparr>) e
      in (e, [buffer]))"

definition tm_generate_tx_pdu :: "u64 \<Rightarrow> nr_rlc_entity_tm \<Rightarrow> byte list \<Rightarrow> (int \<times> byte list \<times> nr_rlc_entity_tm) c_result" where
  "tm_generate_tx_pdu now e buffer =
     (case tm_tx_list e of
        [] \<Rightarrow> Inr (0, buffer, e)
      | sdu # rest \<Rightarrow>
          if seg_size sdu > int (length buffer) then Inr (0, buffer, e)
          else c_bind (buf_read (sdu_data (seg_sdu sdu)) 0 (seg_size sdu)) (\<lambda>data.
               c_bind (buf_write buffer 0 data) (\<lambda>buf.
               let e = e\<lparr>tm_tx_list := rest, tm_tx_size := tm_tx_size e - seg_size sdu\<rparr>;
                   e = tm_stats (\<lambda>s. s\<lparr>txpdu_pkts := txpdu_pkts s + 1,
                                      txpdu_bytes := txpdu_bytes s + of_nat (length buffer)\<rparr>) e;
                   e = e\<lparr>tm_common := record_waited_time now (seg_sdu sdu) (tm_common e)\<rparr>;
                   e = e\<lparr>tm_common := add_tx_size (- seg_size sdu) (tm_common e)\<rparr>
               in Inr (seg_size sdu, buf, e))))"

definition nr_rlc_entity_tm_buffer_status :: "nr_rlc_entity_tm \<Rightarrow> nr_rlc_entity_buffer_status" where
  "nr_rlc_entity_tm_buffer_status e =
     \<lparr>bs_status_size = 0, bs_tx_size = bs_tx_size (bstatus (tm_common e)), bs_retx_size = 0\<rparr>"

definition nr_rlc_entity_tm_generate_pdu :: "u64 \<Rightarrow> nr_rlc_entity_tm \<Rightarrow> byte list \<Rightarrow> (int \<times> byte list \<times> nr_rlc_entity_tm) c_result" where
  "nr_rlc_entity_tm_generate_pdu now e buffer = tm_generate_tx_pdu now e buffer"

definition nr_rlc_entity_tm_recv_sdu :: "u64 \<Rightarrow> nr_rlc_entity_tm \<Rightarrow> byte list \<Rightarrow> int \<Rightarrow> nr_rlc_entity_tm c_result" where
  "nr_rlc_entity_tm_recv_sdu now e buffer sdu_id =
     (let n = int (length buffer);
          e = tm_stats (\<lambda>s. s\<lparr>rxsdu_pkts := rxsdu_pkts s + 1, rxsdu_bytes := rxsdu_bytes s + of_int n\<rparr>) e
      in c_bind (c_check ProcessExit (n \<le> NR_SDU_MAX)) (\<lambda>_.
         let e = (if tm_sdu_rejected e \<noteq> 0 \<and> tm_t_current e > tm_t_log_buffer_full e + 1000
                  then e\<lparr>tm_sdu_rejected := 0, tm_t_log_buffer_full := tm_t_current e\<rparr> else e)
         in if tm_tx_size e + n > tm_tx_maxsize e
            then Inr (tm_stats (\<lambda>s. s\<lparr>rxsdu_dd_pkts := rxsdu_dd_pkts s + 1, rxsdu_dd_bytes := rxsdu_dd_bytes s + of_int n\<rparr>)
                        (e\<lparr>tm_sdu_rejected := tm_sdu_rejected e + 1\<rparr>))
            else let sdu = nr_rlc_new_sdu buffer sdu_id;
                     common = add_tx_size (seg_size sdu) (tm_common e);
                     sdu = set_time_of_arrival now common sdu
                 in Inr (e\<lparr>tm_tx_size := tm_tx_size e + n,
                           tm_tx_list := nr_rlc_sdu_segment_list_append (tm_tx_list e) sdu,
                           tm_common := common\<rparr>)))"

definition nr_rlc_entity_tm_set_time :: "nr_rlc_entity_tm \<Rightarrow> u64 \<Rightarrow> nr_rlc_entity_tm" where
  "nr_rlc_entity_tm_set_time e now = e\<lparr>tm_t_current := now\<rparr>"

definition nr_rlc_entity_tm_discard_sdu :: "nr_rlc_entity_tm \<Rightarrow> int \<Rightarrow> nr_rlc_entity_tm" where
  "nr_rlc_entity_tm_discard_sdu e sdu_id = e"

definition tm_clear_entity :: "nr_rlc_entity_tm \<Rightarrow> nr_rlc_entity_tm" where
  "tm_clear_entity e =
     e\<lparr>tm_t_current := 0, tm_t_log_buffer_full := 0, tm_sdu_rejected := 0, tm_tx_list := [], tm_tx_size := 0,
       tm_common := (tm_common e)\<lparr>bstatus := (bstatus (tm_common e))\<lparr>bs_tx_size := 0\<rparr>\<rparr>\<rparr>"

definition nr_rlc_entity_tm_reestablishment :: "nr_rlc_entity_tm \<Rightarrow> nr_rlc_entity_tm" where
  "nr_rlc_entity_tm_reestablishment e = tm_clear_entity e"

definition nr_rlc_entity_tm_available_tx_space :: "nr_rlc_entity_tm \<Rightarrow> int" where
  "nr_rlc_entity_tm_available_tx_space e = tm_tx_maxsize e - tm_tx_size e"

definition nr_rlc_entity_tm_tx_list_occupancy :: "nr_rlc_entity_tm \<Rightarrow> int" where
  "nr_rlc_entity_tm_tx_list_occupancy e = tm_tx_size e"

subsection \<open>A bounded queue\<close>

datatype tm_event =
    TmSdu u64 "byte list" int
  | TmGrant u64 "byte list"
  | TmPdu "byte list"
  | TmTick u64
  | TmDiscard int
  | TmReestablish

datatype tm_output = TmDeliver "byte list" | TmSend "byte list"

fun tm_step :: "nr_rlc_entity_tm \<Rightarrow> tm_event \<Rightarrow> (nr_rlc_entity_tm \<times> tm_output list) c_result" where
  "tm_step e (TmSdu now buf sdu_id) = c_bind (nr_rlc_entity_tm_recv_sdu now e buf sdu_id) (\<lambda>e. Inr (e, []))"
| "tm_step e (TmGrant now buf) =
     c_bind (nr_rlc_entity_tm_generate_pdu now e buf) (\<lambda>(n, out, e). Inr (e, if n = 0 then [] else [TmSend (take (nat n) out)]))"
| "tm_step e (TmPdu buf) = (let (e, ds) = nr_rlc_entity_tm_recv_pdu e buf in Inr (e, map TmDeliver ds))"
| "tm_step e (TmTick now) = Inr (nr_rlc_entity_tm_set_time e now, [])"
| "tm_step e (TmDiscard sdu_id) = Inr (nr_rlc_entity_tm_discard_sdu e sdu_id, [])"
| "tm_step e TmReestablish = Inr (nr_rlc_entity_tm_reestablishment e, [])"

text \<open>
  The specification: a queue of byte strings whose total length is at most \<open>cap\<close>. An SDU that does
  not fit is refused, a grant takes the first one if it has room for it, and re-establishment empties
  the queue.
\<close>

fun queue_step :: "int \<Rightarrow> byte list list \<Rightarrow> tm_event \<Rightarrow> byte list list \<times> tm_output list" where
  "queue_step cap q (TmSdu _ buf _) = (if int (length (concat q @ buf)) > cap then q else q @ [buf], [])"
| "queue_step cap q (TmGrant _ buf) =
     (case q of
        [] \<Rightarrow> ([], [])
      | s # q' \<Rightarrow> if length s > length buf then (q, []) else (q', if s = [] then [] else [TmSend s]))"
| "queue_step cap q (TmPdu buf) = (q, [TmDeliver buf])"
| "queue_step cap q TmReestablish = ([], [])"
| "queue_step cap q _ = (q, [])"

fun queue_run :: "int \<Rightarrow> byte list list \<Rightarrow> tm_event list \<Rightarrow> byte list list \<times> tm_output list" where
  "queue_run cap q [] = (q, [])"
| "queue_run cap q (ev # evs) =
     (let (q1, o1) = queue_step cap q ev; (q2, o2) = queue_run cap q1 evs in (q2, o1 @ o2))"

definition tm_queue :: "nr_rlc_entity_tm \<Rightarrow> byte list list" where
  "tm_queue e = map (\<lambda>s. sdu_data (seg_sdu s)) (tm_tx_list e)"

definition tm_inv :: "nr_rlc_entity_tm \<Rightarrow> bool" where
  "tm_inv e \<longleftrightarrow> (\<forall>s \<in> set (tm_tx_list e). seg_size s = int (length (sdu_data (seg_sdu s)))) \<and>
     tm_tx_size e = int (length (concat (tm_queue e))) \<and>
     bs_tx_size (bstatus (tm_common e)) = int (length (concat (tm_queue e)))"

lemma tm_recv_sdu_refines:
  assumes "tm_inv e" and "int (length buf) \<le> NR_SDU_MAX"
  shows "\<exists>e'. nr_rlc_entity_tm_recv_sdu now e buf sdu_id = Inr e' \<and> tm_inv e' \<and> tm_tx_maxsize e' = tm_tx_maxsize e \<and>
    tm_queue e' = (if int (length (concat (tm_queue e) @ buf)) > tm_tx_maxsize e then tm_queue e else tm_queue e @ [buf])"
proof -
  define e1 where "e1 = tm_stats (\<lambda>s. s\<lparr>rxsdu_pkts := rxsdu_pkts s + 1, rxsdu_bytes := rxsdu_bytes s + of_int (int (length buf))\<rparr>) e"
  define e2 where "e2 = (if tm_sdu_rejected e1 \<noteq> 0 \<and> tm_t_current e1 > tm_t_log_buffer_full e1 + 1000
      then e1\<lparr>tm_sdu_rejected := 0, tm_t_log_buffer_full := tm_t_current e1\<rparr> else e1)"
  have f: "tm_tx_list e2 = tm_tx_list e" "tm_tx_size e2 = tm_tx_size e" "tm_tx_maxsize e2 = tm_tx_maxsize e"
    "bstatus (tm_common e2) = bstatus (tm_common e)" by (simp_all add: e1_def e2_def)
  have q: "tm_queue e2 = tm_queue e" by (simp add: tm_queue_def f)
  have "nr_rlc_entity_tm_recv_sdu now e buf sdu_id =
     (if tm_tx_size e2 + int (length buf) > tm_tx_maxsize e2
      then Inr (tm_stats (\<lambda>s. s\<lparr>rxsdu_dd_pkts := rxsdu_dd_pkts s + 1, rxsdu_dd_bytes := rxsdu_dd_bytes s + of_int (int (length buf))\<rparr>)
                  (e2\<lparr>tm_sdu_rejected := tm_sdu_rejected e2 + 1\<rparr>))
      else let sdu = nr_rlc_new_sdu buf sdu_id; common = add_tx_size (seg_size sdu) (tm_common e2)
           in Inr (e2\<lparr>tm_tx_size := tm_tx_size e2 + int (length buf),
                     tm_tx_list := nr_rlc_sdu_segment_list_append (tm_tx_list e2) (set_time_of_arrival now common sdu),
                     tm_common := common\<rparr>))"
    using assms(2) unfolding nr_rlc_entity_tm_recv_sdu_def Let_def e1_def [symmetric] e2_def [symmetric] by simp
  then show ?thesis
    using assms(1) f q by (auto simp: tm_inv_def tm_queue_def Let_def nr_rlc_new_sdu_def nr_rlc_sdu_segment_list_append_def
        set_time_of_arrival_def)
qed

lemma tm_generate_refines:
  assumes "tm_inv e"
  shows "\<exists>n out e'. nr_rlc_entity_tm_generate_pdu now e buf = Inr (n, out, e') \<and> tm_inv e' \<and> tm_tx_maxsize e' = tm_tx_maxsize e \<and>
    (tm_queue e', if n = 0 then [] else [TmSend (take (nat n) out)]) = queue_step cap (tm_queue e) (TmGrant now buf)"
proof (cases "tm_tx_list e")
  case Nil
  then show ?thesis using assms
    by (simp add: nr_rlc_entity_tm_generate_pdu_def tm_generate_tx_pdu_def tm_queue_def)
next
  case (Cons s rest)
  have s: "seg_size s = int (length (sdu_data (seg_sdu s)))" using assms Cons by (simp add: tm_inv_def)
  show ?thesis
  proof (cases "seg_size s > int (length buf)")
    case True
    then show ?thesis using assms Cons s
      by (simp add: nr_rlc_entity_tm_generate_pdu_def tm_generate_tx_pdu_def tm_queue_def)
  next
    case False
    then have "length (sdu_data (seg_sdu s)) \<le> length buf" using s by simp
    then show ?thesis using assms Cons s False
      by (auto simp: nr_rlc_entity_tm_generate_pdu_def tm_generate_tx_pdu_def tm_queue_def tm_inv_def buf_read_def buf_write_def Let_def)
  qed
qed

fun tm_event_ok :: "tm_event \<Rightarrow> bool" where
  "tm_event_ok (TmSdu _ buf _) \<longleftrightarrow> int (length buf) \<le> NR_SDU_MAX"
| "tm_event_ok _ \<longleftrightarrow> True"

lemma tm_step_refines:
  assumes inv: "tm_inv e" and ok: "tm_event_ok ev"
  shows "\<exists>e' out. tm_step e ev = Inr (e', out) \<and> tm_inv e' \<and> tm_tx_maxsize e' = tm_tx_maxsize e \<and>
    queue_step (tm_tx_maxsize e) (tm_queue e) ev = (tm_queue e', out)"
proof (cases ev)
  case (TmSdu now buf sdu_id)
  with tm_recv_sdu_refines [OF inv, of buf now sdu_id] ok show ?thesis by auto
next
  case (TmGrant now buf)
  with tm_generate_refines [OF inv, of now buf "tm_tx_maxsize e"] show ?thesis by fastforce
qed (use inv in \<open>auto simp: tm_inv_def tm_queue_def nr_rlc_entity_tm_recv_pdu_def Let_def nr_rlc_entity_tm_set_time_def
    nr_rlc_entity_tm_discard_sdu_def nr_rlc_entity_tm_reestablishment_def tm_clear_entity_def\<close>)

lemma tm_run_refines:
  assumes "tm_inv e" and "\<forall>ev \<in> set evs. tm_event_ok ev"
  shows "\<exists>e' out. run_steps tm_step e evs = Inr (e', out) \<and> tm_inv e' \<and>
    queue_run (tm_tx_maxsize e) (tm_queue e) evs = (tm_queue e', out)"
  using assms
proof (induction evs arbitrary: e)
  case (Cons ev evs)
  then obtain e1 o1 where st: "tm_step e ev = Inr (e1, o1)" "tm_inv e1" "tm_tx_maxsize e1 = tm_tx_maxsize e"
    "queue_step (tm_tx_maxsize e) (tm_queue e) ev = (tm_queue e1, o1)"
    using tm_step_refines [of e ev] by auto
  from Cons.IH [OF st(2)] Cons.prems(2) obtain e' o2 where "run_steps tm_step e1 evs = Inr (e', o2)" "tm_inv e'"
    "queue_run (tm_tx_maxsize e) (tm_queue e1) evs = (tm_queue e', o2)" using st(3) by auto
  with st show ?case by simp
qed simp

text \<open>C37: a transparent mode entity is a bounded queue of byte strings. For every sequence of calls it
  never fails, what it sends and hands up is what the queue gives, SDU by SDU and byte by byte, and the
  buffer status is the number of bytes in the queue.
\<close>

theorem rlc_tm_refines_queue:
  assumes "new_nr_rlc_entity_tm tx_maxsize = Inr e0" and "\<forall>ev \<in> set evs. tm_event_ok ev"
  shows "\<exists>e out. run_steps tm_step e0 evs = Inr (e, out) \<and> queue_run tx_maxsize [] evs = (tm_queue e, out) \<and>
    bs_tx_size (nr_rlc_entity_tm_buffer_status e) = int (length (concat (tm_queue e))) \<and>
    nr_rlc_entity_tm_tx_list_occupancy e = int (length (concat (tm_queue e)))"
proof -
  have "tm_inv e0" "tm_tx_maxsize e0 = tx_maxsize" "tm_queue e0 = []"
    using assms(1) by (auto simp: new_nr_rlc_entity_tm_def c_bind_eq_Inr_conv tm_inv_def tm_queue_def nr_rlc_entity_init_def)
  with tm_run_refines [of e0 evs] assms(2) show ?thesis
    by (auto simp: tm_inv_def nr_rlc_entity_tm_buffer_status_def nr_rlc_entity_tm_tx_list_occupancy_def)
qed

theorem rlc_tm_refines_queue_witness:
  "\<exists>e out. run_steps tm_step (projr (new_nr_rlc_entity_tm 5))
         [TmSdu 0 [1, 2, 3] 0, TmSdu 0 [4, 5, 6] 1, TmGrant 0 [0, 0], TmSdu 0 [7] 2, TmGrant 0 [0, 0, 0, 0]] = Inr (e, out) \<and>
     ([[7]], [TmSend [1, 2, 3]]) = (tm_queue e, out) \<and>
     bs_tx_size (nr_rlc_entity_tm_buffer_status e) = int (length (concat (tm_queue e))) \<and>
     nr_rlc_entity_tm_tx_list_occupancy e = int (length (concat (tm_queue e)))"
proof -
  let ?evs = "[TmSdu 0 [1, 2, 3] 0, TmSdu 0 [4, 5, 6] 1, TmGrant 0 [0, 0], TmSdu 0 [7] 2, TmGrant 0 [0, 0, 0, 0]]"
  have new: "new_nr_rlc_entity_tm 5 = Inr (projr (new_nr_rlc_entity_tm 5))" by (simp add: new_nr_rlc_entity_tm_def time_average_new_def)
  have ok: "\<forall>ev \<in> set ?evs. tm_event_ok ev" by (simp add: NR_SDU_MAX_def)
  have "queue_run 5 [] ?evs = ([[7]], [TmSend [1, 2, 3]])" by simp
  from rlc_tm_refines_queue [OF new ok, unfolded this] show ?thesis .
qed

end
