(* ===== verification/Rlc_Entity.thy ===== *)
theory Rlc_Entity
  imports Rlc_Am_Send Rlc_Um Rlc_Tm
begin

text \<open>
  The entities of RLC behind one interface: \<^verbatim>\<open>nr_rlc_entity_t\<close> is a table of function pointers that the three
  constructors of \<^verbatim>\<open>nr_rlc_entity.c\<close> fill with the functions of their mode. Here it is a sum of the three entities,
  and a call through a pointer is a function defined by cases on the mode. What the entity hands to its callbacks is in
  the result: the deliveries of UM and TM are those of \<open>AmDeliver\<close>.
\<close>

datatype rlc_entity = RlcAm nr_rlc_entity_am | RlcUm nr_rlc_entity_um | RlcTm nr_rlc_entity_tm

type_synonym rlc_result = "(rlc_entity \<times> am_output list) c_result"

fun rlc_common :: "rlc_entity \<Rightarrow> nr_rlc_entity" where
  "rlc_common (RlcAm e) = am_common e"
| "rlc_common (RlcUm e) = um_common e"
| "rlc_common (RlcTm e) = tm_common e"

fun rlc_set_common :: "nr_rlc_entity \<Rightarrow> rlc_entity \<Rightarrow> rlc_entity" where
  "rlc_set_common c (RlcAm e) = RlcAm (e\<lparr>am_common := c\<rparr>)"
| "rlc_set_common c (RlcUm e) = RlcUm (e\<lparr>um_common := c\<rparr>)"
| "rlc_set_common c (RlcTm e) = RlcTm (e\<lparr>tm_common := c\<rparr>)"

definition rlc_mode_of :: "rlc_entity \<Rightarrow> nr_rlc_mode" where
  "rlc_mode_of e = mode (stats (rlc_common e))"

fun rlc_recv_pdu :: "rlc_entity \<Rightarrow> byte list \<Rightarrow> rlc_result" where
  "rlc_recv_pdu (RlcAm e) buf = c_bind (nr_rlc_entity_am_recv_pdu e buf) (\<lambda>(e, ups). Inr (RlcAm e, ups))"
| "rlc_recv_pdu (RlcUm e) buf = c_bind (nr_rlc_entity_um_recv_pdu e buf) (\<lambda>(e, ds). Inr (RlcUm e, map AmDeliver ds))"
| "rlc_recv_pdu (RlcTm e) buf = (let (e, ds) = nr_rlc_entity_tm_recv_pdu e buf in Inr (RlcTm e, map AmDeliver ds))"

text \<open>\<open>wall\<close> is the clock that \<^verbatim>\<open>time_average_now\<close> reads.\<close>

fun rlc_recv_sdu :: "u64 \<Rightarrow> rlc_entity \<Rightarrow> byte list \<Rightarrow> int \<Rightarrow> rlc_entity c_result" where
  "rlc_recv_sdu wall (RlcAm e) buf sdu_id = c_bind (nr_rlc_entity_am_recv_sdu wall e buf sdu_id) (\<lambda>e. Inr (RlcAm e))"
| "rlc_recv_sdu wall (RlcUm e) buf sdu_id = c_bind (nr_rlc_entity_um_recv_sdu wall e buf sdu_id) (\<lambda>e. Inr (RlcUm e))"
| "rlc_recv_sdu wall (RlcTm e) buf sdu_id = c_bind (nr_rlc_entity_tm_recv_sdu wall e buf sdu_id) (\<lambda>e. Inr (RlcTm e))"

fun rlc_generate_pdu :: "u64 \<Rightarrow> rlc_entity \<Rightarrow> byte list \<Rightarrow> (int \<times> byte list \<times> rlc_entity) c_result" where
  "rlc_generate_pdu wall (RlcAm e) buf = c_bind (nr_rlc_entity_am_generate_pdu wall e buf) (\<lambda>(n, out, e). Inr (n, out, RlcAm e))"
| "rlc_generate_pdu wall (RlcUm e) buf = c_bind (nr_rlc_entity_um_generate_pdu wall e buf) (\<lambda>(n, out, e). Inr (n, out, RlcUm e))"
| "rlc_generate_pdu wall (RlcTm e) buf = c_bind (nr_rlc_entity_tm_generate_pdu wall e buf) (\<lambda>(n, out, e). Inr (n, out, RlcTm e))"

fun rlc_buffer_status :: "rlc_entity \<Rightarrow> int \<Rightarrow> nr_rlc_entity_buffer_status c_result" where
  "rlc_buffer_status (RlcAm e) maxsize = nr_rlc_entity_am_buffer_status e maxsize"
| "rlc_buffer_status (RlcUm e) maxsize = Inr (nr_rlc_entity_um_buffer_status e)"
| "rlc_buffer_status (RlcTm e) maxsize = Inr (nr_rlc_entity_tm_buffer_status e)"

fun rlc_set_time :: "rlc_entity \<Rightarrow> u64 \<Rightarrow> rlc_result" where
  "rlc_set_time (RlcAm e) now = c_bind (nr_rlc_entity_am_set_time e now) (\<lambda>(e, ups). Inr (RlcAm e, ups))"
| "rlc_set_time (RlcUm e) now = c_bind (nr_rlc_entity_um_set_time e now) (\<lambda>e. Inr (RlcUm e, []))"
| "rlc_set_time (RlcTm e) now = Inr (RlcTm (nr_rlc_entity_tm_set_time e now), [])"

fun rlc_reestablishment :: "rlc_entity \<Rightarrow> rlc_entity c_result" where
  "rlc_reestablishment (RlcAm e) = c_bind (nr_rlc_entity_am_reestablishment e) (\<lambda>e. Inr (RlcAm e))"
| "rlc_reestablishment (RlcUm e) = Inr (RlcUm (nr_rlc_entity_um_reestablishment e))"
| "rlc_reestablishment (RlcTm e) = Inr (RlcTm (nr_rlc_entity_tm_reestablishment e))"

fun rlc_available_tx_space :: "rlc_entity \<Rightarrow> int" where
  "rlc_available_tx_space (RlcAm e) = nr_rlc_entity_am_available_tx_space e"
| "rlc_available_tx_space (RlcUm e) = nr_rlc_entity_um_available_tx_space e"
| "rlc_available_tx_space (RlcTm e) = nr_rlc_entity_tm_available_tx_space e"

fun rlc_tx_list_occupancy :: "rlc_entity \<Rightarrow> int" where
  "rlc_tx_list_occupancy (RlcAm e) = nr_rlc_entity_am_tx_list_occupancy e"
| "rlc_tx_list_occupancy (RlcUm e) = nr_rlc_entity_um_tx_list_occupancy e"
| "rlc_tx_list_occupancy (RlcTm e) = nr_rlc_entity_tm_tx_list_occupancy e"

text \<open>The SDU at the head of the line, which \<^verbatim>\<open>nr_rlc_entity_get_stats\<close> looks for by mode.\<close>

fun rlc_head_of_line :: "rlc_entity \<Rightarrow> nr_rlc_sdu option c_result" where
  "rlc_head_of_line (RlcAm e) =
     (case am_retransmit_list e @ am_tx_list e of [] \<Rightarrow> Inr None | s # _ \<Rightarrow> c_bind (am_sdu e s) (\<lambda>d. Inr (Some d)))"
| "rlc_head_of_line (RlcUm e) = Inr (case um_tx_list e of [] \<Rightarrow> None | s # _ \<Rightarrow> Some (seg_sdu s))"
| "rlc_head_of_line (RlcTm e) = Inr (case tm_tx_list e of [] \<Rightarrow> None | s # _ \<Rightarrow> Some (seg_sdu s))"

definition rlc_get_stats :: "u64 \<Rightarrow> rlc_entity \<Rightarrow> (nr_rlc_statistics \<times> rlc_entity) c_result" where
  "rlc_get_stats wall e =
     c_bind (rlc_head_of_line e) (\<lambda>sdu.
     let (out, c) = nr_rlc_entity_get_stats wall sdu (rlc_common e) in Inr (out, rlc_set_common c e))"

end
