(* ===== verification/Ue_Table.thy ===== *)
theory Ue_Table
  imports L2_Prelude
begin

text \<open>
  Two structures that Layer 2 uses in several places: the table of UEs of a manager, an array of
  pointers searched from the start, and the ring of fixed size that hands work to another thread.
  Each is stated as an interface with the facts its clients need.
\<close>

subsection \<open>The table of UEs\<close>

text \<open>The loop over \<open>ue_list\<close>: the first position with the key, or the length.\<close>

fun ue_index :: "('u \<Rightarrow> 'k) \<Rightarrow> 'u list \<Rightarrow> 'k \<Rightarrow> nat" where
  "ue_index key [] k = 0"
| "ue_index key (u # us) k = (if key u = k then 0 else Suc (ue_index key us k))"

lemma ue_index_le: "ue_index key us k \<le> length us"
  by (induction us) auto

lemma ue_index_found: "ue_index key us k < length us \<Longrightarrow> key (us ! ue_index key us k) = k"
  by (induction us) auto

lemma ue_index_first: "j < ue_index key us k \<Longrightarrow> key (us ! j) \<noteq> k"
proof (induction us arbitrary: j)
  case (Cons u us)
  then show ?case by (cases j) (auto split: if_splits)
qed simp

lemma ue_index_absent: "ue_index key us k = length us \<longleftrightarrow> k \<notin> key ` set us"
  by (induction us) auto

lemma ue_index_present: "k \<in> key ` set us \<Longrightarrow> ue_index key us k < length us"
  using ue_index_absent [of key us k] ue_index_le [of key us k] by linarith

definition ue_find :: "('u \<Rightarrow> 'k) \<Rightarrow> 'u list \<Rightarrow> 'k \<Rightarrow> 'u option" where
  "ue_find key us k = (if ue_index key us k < length us then Some (us ! ue_index key us k) else None)"

lemma ue_find_simps [simp]:
  "ue_find key [] k = None"
  "ue_find key (u # us) k = (if key u = k then Some u else ue_find key us k)"
  by (simp_all add: ue_find_def)

lemma ue_find_append: "ue_find key (us @ vs) k = (case ue_find key us k of Some u \<Rightarrow> Some u | None \<Rightarrow> ue_find key vs k)"
  by (induction us) auto

lemma ue_find_remove:
  assumes "distinct (map key us)" and "i < length us"
  shows "ue_find key (take i us @ drop (Suc i) us) k = (if k = key (us ! i) then None else ue_find key us k)"
  using assms
proof (induction us arbitrary: i)
  case (Cons u us)
  have none: "key u = k \<Longrightarrow> ue_find key us k = None" using Cons.prems(1) ue_index_absent [of key us k]
    by (auto simp: ue_find_def)
  show ?case
  proof (cases i)
    case 0
    with none show ?thesis by auto
  next
    case (Suc j)
    with Cons show ?thesis by auto
  qed
qed simp

lemma ue_find_update:
  assumes "distinct (map key us)" and "i < length us" and "key v = key (us ! i)"
  shows "ue_find key (us[i := v]) k = (if k = key v then Some v else ue_find key us k)"
  using assms
proof (induction us arbitrary: i)
  case (Cons u us)
  show ?case
  proof (cases i)
    case (Suc j)
    with Cons.prems have "key u \<noteq> key v" by (auto simp: image_iff)
    with Suc Cons show ?thesis by auto
  qed (use Cons.prems in auto)
qed simp

lemma distinct_take_drop: "distinct xs \<Longrightarrow> distinct (take n xs @ drop (Suc n) xs)"
proof (induction xs arbitrary: n)
  case (Cons x xs)
  then show ?case by (cases n) (auto dest: in_set_takeD in_set_dropD)
qed simp

text \<open>
  The interface of a manager's table: \<open>get\<close> returns the position of the entry of a key, which it makes
  when there is none, and \<open>remove\<close> takes the entry out and closes the gap.
\<close>

locale ue_table =
  fixes key :: "'u \<Rightarrow> 'k"
    and fresh :: "'k \<Rightarrow> 'u"
    and get :: "'u list \<Rightarrow> 'k \<Rightarrow> 'u list \<times> nat"
    and remove :: "'u list \<Rightarrow> 'k \<Rightarrow> 'u list"
  assumes key_fresh: "key (fresh k) = k"
    and get_eq: "get us k = (if ue_index key us k < length us then us else us @ [fresh k], ue_index key us k)"
    and remove_eq: "remove us k = take (ue_index key us k) us @ drop (Suc (ue_index key us k)) us"
begin

lemma get_distinct: "distinct (map key us) \<Longrightarrow> distinct (map key (fst (get us k)))"
  using ue_index_absent [of key us k] ue_index_le [of key us k] by (auto simp: get_eq key_fresh)

lemma get_position:
  shows "snd (get us k) < length (fst (get us k))" and "key (fst (get us k) ! snd (get us k)) = k"
  using ue_index_found [of key us k] ue_index_le [of key us k]
  by (auto simp: get_eq key_fresh nth_append not_less)

lemma get_find: "ue_find key (fst (get us k)) k' = (if k' = k \<and> ue_find key us k = None then Some (fresh k) else ue_find key us k')"
  using ue_index_absent [of key us k] ue_index_le [of key us k]
  by (auto simp: get_eq ue_find_append key_fresh ue_find_def [of key us k] split: option.splits)

lemma get_entry: "fst (get us k) ! snd (get us k) = (case ue_find key us k of Some u \<Rightarrow> u | None \<Rightarrow> fresh k)"
  using ue_index_le [of key us k] by (auto simp: get_eq ue_find_def nth_append)

lemma get_update_find:
  assumes "distinct (map key us)" and "key v = k"
  shows "ue_find key ((fst (get us k))[snd (get us k) := v]) k' = (if k' = k then Some v else ue_find key us k')"
  using ue_find_update [OF get_distinct [OF assms(1), of k] get_position(1) [of us k], of v k'] get_position(2) [of us k]
    get_find [of us k k'] assms(2) by auto

lemma get_update_distinct:
  assumes "distinct (map key us)" and "key v = k"
  shows "distinct (map key ((fst (get us k))[snd (get us k) := v]))"
proof -
  have "map key ((fst (get us k))[snd (get us k) := v]) = map key (fst (get us k))"
    using get_position [of us k] assms(2) by (simp add: map_update list_update_same_conv)
  then show ?thesis using get_distinct [OF assms(1)] by simp
qed

lemma remove_distinct: "distinct (map key us) \<Longrightarrow> distinct (map key (remove us k))"
  using distinct_take_drop [of "map key us" "ue_index key us k"] by (simp add: remove_eq take_map drop_map)

lemma remove_find:
  assumes "distinct (map key us)"
  shows "ue_find key (remove us k) k' = (if k' = k then None else ue_find key us k')"
proof (cases "ue_index key us k < length us")
  case True
  with ue_find_remove [OF assms True] ue_index_found [OF True] show ?thesis by (simp add: remove_eq)
next
  case False
  then have "remove us k = us" using ue_index_le [of key us k] by (simp add: remove_eq)
  with False show ?thesis by (auto simp: ue_find_def)
qed

end

subsection \<open>The ring between two threads\<close>

record 'a ring =
  ring_q :: "'a list"
  ring_start :: nat
  ring_length :: nat

text \<open>The items in the ring, oldest first.\<close>

definition ring_items :: "'a ring \<Rightarrow> 'a list" where
  "ring_items r = map (\<lambda>i. ring_q r ! ((ring_start r + i) mod length (ring_q r))) [0..<ring_length r]"

definition ring_ok :: "nat \<Rightarrow> 'a ring \<Rightarrow> bool" where
  "ring_ok n r \<longleftrightarrow> length (ring_q r) = n \<and> ring_start r < n \<and> ring_length r \<le> n"

text \<open>The code of both queues, for a ring of \<open>n\<close> slots; \<open>None\<close> is where the caller waits.\<close>

definition ring_put :: "nat \<Rightarrow> 'a ring \<Rightarrow> 'a \<Rightarrow> 'a ring option" where
  "ring_put n r x =
     (if ring_length r = n then None
      else let i = (ring_start r + ring_length r) mod n
           in Some (r\<lparr>ring_length := ring_length r + 1, ring_q := (ring_q r)[i := x]\<rparr>))"

definition ring_peek :: "'a ring \<Rightarrow> nat option" where
  "ring_peek r = (if ring_length r = 0 then None else Some (ring_start r))"

definition ring_slot :: "'a ring \<Rightarrow> nat \<Rightarrow> 'a" where
  "ring_slot r i = ring_q r ! i"

definition ring_pop :: "nat \<Rightarrow> 'a ring \<Rightarrow> 'a ring" where
  "ring_pop n r = r\<lparr>ring_length := ring_length r - 1, ring_start := (ring_start r + 1) mod n\<rparr>"

lemma ring_mod_inj:
  assumes "j < k" and "k < n"
  shows "(s + j) mod n \<noteq> (s + k) mod (n :: nat)"
proof
  assume "(s + j) mod n = (s + k) mod n"
  then have "n dvd (s + k) - (s + j)" using assms(1) by (metis add_le_cancel_left less_imp_le mod_eq_dvd_iff_nat)
  then show False using assms by (auto dest: dvd_imp_le)
qed

lemma ring_put_items:
  assumes "ring_ok n r" and "ring_put n r x = Some r'"
  shows "ring_ok n r' \<and> ring_items r' = ring_items r @ [x]"
proof -
  let ?i = "(ring_start r + ring_length r) mod n"
  have r': "r' = r\<lparr>ring_length := ring_length r + 1, ring_q := (ring_q r)[?i := x]\<rparr>" and less: "ring_length r < n"
    using assms by (auto simp: ring_put_def ring_ok_def Let_def split: if_splits)
  have "?i \<noteq> (ring_start r + k) mod n" if "k < ring_length r" for k
    using ring_mod_inj [OF that less, of "ring_start r"] by simp
  with assms(1) less show ?thesis
    by (auto simp: r' ring_items_def ring_ok_def)
qed

lemma ring_pop_items:
  assumes "ring_ok n r" and "ring_items r \<noteq> []"
  shows "ring_ok n (ring_pop n r) \<and> ring_items (ring_pop n r) = tl (ring_items r)"
proof -
  have pos: "0 < ring_length r" using assms(2) by (simp add: ring_items_def)
  then obtain m where m: "ring_length r = Suc m" by (cases "ring_length r") auto
  have "((ring_start r + 1) mod n + k) mod n = (ring_start r + Suc k) mod n" for k
    by (simp add: mod_add_left_eq)
  then have "ring_items (ring_pop n r) = map (\<lambda>i. ring_q r ! ((ring_start r + Suc i) mod n)) [0..<m]"
    using assms(1) by (simp add: ring_items_def ring_pop_def ring_ok_def m)
  also have "\<dots> = map (\<lambda>i. ring_q r ! ((ring_start r + i) mod n)) (map Suc [0..<m])" by simp
  also have "\<dots> = tl (ring_items r)"
    using assms(1) unfolding map_Suc_upt by (simp add: ring_items_def ring_ok_def m upt_conv_Cons map_tl [symmetric] del: upt_Suc)
  finally show ?thesis using assms(1) by (auto simp: ring_ok_def ring_pop_def)
qed

text \<open>The two threads: the consumer is waiting, has read the position of the oldest item, or has worked on it.\<close>

datatype ring_phase = Idle | Got nat | Worked nat

datatype 'a ring_event = Put 'a | Peek | Work | Drop

fun puts :: "'a ring_event list \<Rightarrow> 'a list" where
  "puts [] = []"
| "puts (Put x # evs) = x # puts evs"
| "puts (_ # evs) = puts evs"

lemma puts_append: "puts (as @ bs) = puts as @ puts bs"
  by (induction as rule: puts.induct) auto

fun thread_step ::
  "('r \<Rightarrow> 'a \<Rightarrow> 'r option) \<Rightarrow> ('r \<Rightarrow> nat option) \<Rightarrow> ('r \<Rightarrow> nat \<Rightarrow> 'a) \<Rightarrow> ('r \<Rightarrow> 'r)
     \<Rightarrow> 'r \<times> ring_phase \<times> 'a list \<Rightarrow> 'a ring_event \<Rightarrow> ('r \<times> ring_phase \<times> 'a list) option" where
  "thread_step put peek slot pop (r, ph, out) (Put x) = (case put r x of None \<Rightarrow> None | Some r' \<Rightarrow> Some (r', ph, out))"
| "thread_step put peek slot pop (r, Idle, out) Peek = (case peek r of None \<Rightarrow> None | Some i \<Rightarrow> Some (r, Got i, out))"
| "thread_step put peek slot pop (r, Got i, out) Work = Some (r, Worked i, out @ [slot r i])"
| "thread_step put peek slot pop (r, Worked i, out) Drop = Some (pop r, Idle, out)"
| "thread_step put peek slot pop _ _ = None"

fun threads ::
  "('r \<Rightarrow> 'a \<Rightarrow> 'r option) \<Rightarrow> ('r \<Rightarrow> nat option) \<Rightarrow> ('r \<Rightarrow> nat \<Rightarrow> 'a) \<Rightarrow> ('r \<Rightarrow> 'r)
     \<Rightarrow> 'r \<times> ring_phase \<times> 'a list \<Rightarrow> 'a ring_event list \<Rightarrow> ('r \<times> ring_phase \<times> 'a list) option" where
  "threads put peek slot pop st [] = Some st"
| "threads put peek slot pop st (ev # evs) =
     (case thread_step put peek slot pop st ev of None \<Rightarrow> None | Some st' \<Rightarrow> threads put peek slot pop st' evs)"

text \<open>
  The interface: a producer puts an item while there is room; a consumer reads the position of the
  oldest item, works on that slot without holding the lock, and then takes the item out. In
  between the producer may run.
\<close>

locale ring_queue =
  fixes put :: "'r \<Rightarrow> 'a \<Rightarrow> 'r option" and peek :: "'r \<Rightarrow> nat option" and slot :: "'r \<Rightarrow> nat \<Rightarrow> 'a"
    and drop_oldest :: "'r \<Rightarrow> 'r" and items :: "'r \<Rightarrow> 'a list" and ok :: "'r \<Rightarrow> bool"
  assumes put_items: "ok r \<Longrightarrow> put r x = Some r' \<Longrightarrow> ok r' \<and> items r' = items r @ [x]"
    and peek_none: "ok r \<Longrightarrow> peek r = None \<longleftrightarrow> items r = []"
    and peek_slot: "ok r \<Longrightarrow> peek r = Some i \<Longrightarrow> slot r i = hd (items r)"
    and put_slot: "ok r \<Longrightarrow> peek r = Some i \<Longrightarrow> put r x = Some r' \<Longrightarrow> peek r' = Some i"
    and drop_items: "ok r \<Longrightarrow> items r \<noteq> [] \<Longrightarrow> ok (drop_oldest r) \<and> items (drop_oldest r) = tl (items r)"
begin

definition consistent :: "'a list \<Rightarrow> 'r \<times> ring_phase \<times> 'a list \<Rightarrow> bool" where
  "consistent sent st \<longleftrightarrow> (case st of (r, ph, out) \<Rightarrow> ok r \<and>
     (case ph of Idle \<Rightarrow> sent = out @ items r
      | Got i \<Rightarrow> peek r = Some i \<and> sent = out @ items r
      | Worked i \<Rightarrow> peek r = Some i \<and> sent = out @ tl (items r)))"

lemma thread_step_consistent:
  assumes "consistent sent st" and "thread_step put peek slot drop_oldest st ev = Some st'"
  shows "consistent (sent @ puts [ev]) st'"
proof -
  obtain r ph out where st: "st = (r, ph, out)" by (cases st)
  then have ok: "ok r" using assms(1) by (simp add: consistent_def)
  have ne: "items r \<noteq> []" if "peek r = Some i" for i using peek_none [OF ok] that by auto
  show ?thesis
  proof (cases ev)
    case (Put x)
    with assms(2) st obtain r' where r': "put r x = Some r'" "st' = (r', ph, out)" by (auto split: option.splits)
    with assms(1) st Put put_items [OF ok r'(1)] put_slot [OF ok _ r'(1)] ne show ?thesis
      by (cases ph) (auto simp: consistent_def)
  next
    case Peek
    with assms st show ?thesis by (cases ph) (auto simp: consistent_def split: option.splits)
  next
    case Work
    with assms st obtain i where i: "ph = Got i" by (cases ph) auto
    with assms st Work peek_slot [OF ok] ne show ?thesis by (auto simp: consistent_def)
  next
    case Drop
    with assms st obtain i where i: "ph = Worked i" by (cases ph) auto
    with assms st Drop drop_items [OF ok] ne show ?thesis by (auto simp: consistent_def)
  qed
qed

theorem threads_consistent:
  assumes "consistent sent st" and "threads put peek slot drop_oldest st evs = Some st'"
  shows "consistent (sent @ puts evs) st'"
  using assms
proof (induction evs arbitrary: sent st)
  case (Cons ev evs)
  then obtain st1 where "thread_step put peek slot drop_oldest st ev = Some st1" "threads put peek slot drop_oldest st1 evs = Some st'" by (auto split: option.splits)
  with Cons.IH thread_step_consistent [OF Cons.prems(1)] show ?case
    using puts_append [of "[ev]" evs] by fastforce
qed simp

end

interpretation ring: ring_queue "ring_put n" ring_peek ring_slot "ring_pop n" ring_items "ring_ok n"
proof unfold_locales
  fix r r' :: "'a ring" and x i
  assume ok: "ring_ok n r"
  show "ring_put n r x = Some r' \<Longrightarrow> ring_ok n r' \<and> ring_items r' = ring_items r @ [x]"
    by (rule ring_put_items [OF ok])
  show "ring_peek r = None \<longleftrightarrow> ring_items r = []"
    by (simp add: ring_peek_def ring_items_def)
  show "ring_peek r = Some i \<Longrightarrow> ring_slot r i = hd (ring_items r)"
    using ok by (auto simp: ring_peek_def ring_items_def ring_slot_def ring_ok_def hd_map upt_conv_Cons split: if_splits)
  show "ring_peek r = Some i \<Longrightarrow> ring_put n r x = Some r' \<Longrightarrow> ring_peek r' = Some i"
    by (auto simp: ring_peek_def ring_put_def Let_def split: if_splits)
  show "ring_items r \<noteq> [] \<Longrightarrow> ring_ok n (ring_pop n r) \<and> ring_items (ring_pop n r) = tl (ring_items r)"
    by (rule ring_pop_items [OF ok])
qed

end
