(* ===== verification/Rlc_Ue_Manager.thy ===== *)
theory Rlc_Ue_Manager
  imports Rlc_Entity Ue_Table
begin

text \<open>
  The UE manager of RLC (\<^verbatim>\<open>nr_rlc_ue_manager.c\<close>). The array of pointers \<open>ue_list\<close> and \<open>ue_count\<close> are one list, a
  pointer to a UE is its position, a NULL entity is \<open>None\<close>. Mutexes only order the calls.
\<close>

text \<open>\<^verbatim>\<open>MAX_DRBS_PER_UE\<close> of the sources.\<close>

definition RLC_MAX_DRBS :: nat where "RLC_MAX_DRBS = 32"

datatype nr_rlc_op_mode = NR_RLC_OP_MODE_SPLIT_GNB | NR_RLC_OP_MODE_MONO_GNB | NR_RLC_OP_MODE_UE

datatype nr_lcid_rb = NR_LCID_NONE | NR_LCID_SRB int | NR_LCID_DRB int

text \<open>SRB 0 comes with its \<^verbatim>\<open>deliver_sdu_data\<close>, of which \<^verbatim>\<open>ue_id\<close> matters here. A handler of radio link failures is a number.\<close>

record nr_rlc_ue =
  rlc_ue_id :: int
  rlc_srb0 :: "(rlc_entity \<times> int) option"
  rlc_srb :: "rlc_entity option list"   \<comment> \<open>3 pointers\<close>
  rlc_drb :: "rlc_entity option list"   \<comment> \<open>32 pointers, \<^verbatim>\<open>MAX_DRBS_PER_UE\<close>\<close>
  lcid2rb :: "nr_lcid_rb list"          \<comment> \<open>32 entries\<close>
  rlf_handler :: "nat option"

record nr_rlc_ue_manager =
  rlc_ue_list :: "nr_rlc_ue list"
  rlc_op_mode :: nr_rlc_op_mode

definition new_nr_rlc_ue_manager :: "nr_rlc_op_mode \<Rightarrow> nr_rlc_ue_manager" where
  "new_nr_rlc_ue_manager md = \<lparr>rlc_ue_list = [], rlc_op_mode = md\<rparr>"

definition nr_rlc_manager_rlc_is_split :: "nr_rlc_ue_manager \<Rightarrow> bool" where
  "nr_rlc_manager_rlc_is_split m \<longleftrightarrow> rlc_op_mode m = NR_RLC_OP_MODE_SPLIT_GNB"

definition nr_rlc_manager_get_gnb_flag :: "nr_rlc_ue_manager \<Rightarrow> bool" where
  "nr_rlc_manager_get_gnb_flag m \<longleftrightarrow> rlc_op_mode m \<noteq> NR_RLC_OP_MODE_UE"

text \<open>A UE after \<^verbatim>\<open>calloc\<close>.\<close>

definition empty_rlc_ue :: "int \<Rightarrow> nr_rlc_ue" where
  "empty_rlc_ue k =
     \<lparr>rlc_ue_id = k, rlc_srb0 = None, rlc_srb = replicate 3 None, rlc_drb = replicate RLC_MAX_DRBS None,
      lcid2rb = replicate 32 NR_LCID_NONE, rlf_handler = None\<rparr>"

definition rlc_list_get :: "nr_rlc_ue list \<Rightarrow> int \<Rightarrow> nr_rlc_ue list \<times> nat" where
  "rlc_list_get us k =
     (let i = ue_index rlc_ue_id us k
      in if i < length us then (us, i) else (us @ [empty_rlc_ue k], length us))"

definition nr_rlc_manager_get_ue :: "nr_rlc_ue_manager \<Rightarrow> int \<Rightarrow> nr_rlc_ue_manager \<times> nat" where
  "nr_rlc_manager_get_ue m k = (let (us, i) = rlc_list_get (rlc_ue_list m) k in (m\<lparr>rlc_ue_list := us\<rparr>, i))"

definition rlc_list_remove :: "nr_rlc_ue list \<Rightarrow> int \<Rightarrow> nr_rlc_ue list" where
  "rlc_list_remove us k =
     (let i = ue_index rlc_ue_id us k in if i = length us then us else take i us @ drop (i + 1) us)"

text \<open>The entities that \<^verbatim>\<open>remove_ue\<close> deletes: all of them.\<close>

definition rlc_deleted :: "nr_rlc_ue \<Rightarrow> rlc_entity list" where
  "rlc_deleted u =
     (case rlc_srb0 u of None \<Rightarrow> [] | Some (e, _) \<Rightarrow> [e]) @ List.map_filter id (rlc_srb u) @ List.map_filter id (rlc_drb u)"

definition nr_rlc_manager_remove_ue :: "nr_rlc_ue_manager \<Rightarrow> int \<Rightarrow> nr_rlc_ue_manager \<times> rlc_entity list" where
  "nr_rlc_manager_remove_ue m k =
     (m\<lparr>rlc_ue_list := rlc_list_remove (rlc_ue_list m) k\<rparr>,
      case ue_find rlc_ue_id (rlc_ue_list m) k of None \<Rightarrow> [] | Some u \<Rightarrow> rlc_deleted u)"

text \<open>The identity of SRB 0 comes with \<open>data\<close>, the UE in \<^verbatim>\<open>deliver_sdu_data\<close>.\<close>

definition nr_rlc_ue_add_srb_rlc_entity :: "nr_rlc_ue \<Rightarrow> int \<Rightarrow> rlc_entity \<Rightarrow> int \<Rightarrow> nr_rlc_ue c_result" where
  "nr_rlc_ue_add_srb_rlc_entity u srb_id e data =
     (if srb_id < 0 \<or> srb_id > 3 then Inl ProcessExit
      else if srb_id = 0 then (if rlc_srb0 u \<noteq> None then Inl ProcessExit else Inr (u\<lparr>rlc_srb0 := Some (e, data)\<rparr>))
      else let j = nat (srb_id - 1)
      in if rlc_srb u ! j \<noteq> None then Inl ProcessExit else Inr (u\<lparr>rlc_srb := (rlc_srb u)[j := Some e]\<rparr>))"

definition nr_rlc_ue_add_drb_rlc_entity :: "nr_rlc_ue \<Rightarrow> int \<Rightarrow> rlc_entity \<Rightarrow> nr_rlc_ue c_result" where
  "nr_rlc_ue_add_drb_rlc_entity u drb_id e =
     (if drb_id < 1 \<or> drb_id > int RLC_MAX_DRBS then Inl ProcessExit
      else let j = nat (drb_id - 1)
      in if rlc_drb u ! j \<noteq> None then Inl ProcessExit else Inr (u\<lparr>rlc_drb := (rlc_drb u)[j := Some e]\<rparr>))"

interpretation rlc_ues: ue_table rlc_ue_id empty_rlc_ue rlc_list_get rlc_list_remove
proof unfold_locales
  show "rlc_ue_id (empty_rlc_ue k) = k" for k by (simp add: empty_rlc_ue_def)
  show "rlc_list_get us k =
      (if ue_index rlc_ue_id us k < length us then us else us @ [empty_rlc_ue k], ue_index rlc_ue_id us k)" for us k
    using ue_index_le [of rlc_ue_id us k] by (auto simp: rlc_list_get_def Let_def)
  show "rlc_list_remove us k = take (ue_index rlc_ue_id us k) us @ drop (Suc (ue_index rlc_ue_id us k)) us" for us k
    by (simp add: rlc_list_remove_def Let_def)
qed

end
