(* ===== verification/Asn1_Tables.thy ===== *)
theory Asn1_Tables
  imports L2_Prelude
begin

text \<open>
  The values of the enumerated fields of TS 38.331 (\<^verbatim>\<open>nr_rlc_configuration.h\<close>, \<^verbatim>\<open>nr_pdcp_configuration.h\<close>) and
  the functions that the macro \<^verbatim>\<open>ENCODE_DECODE\<close> makes of each table (\<^verbatim>\<open>asn1_utils.c\<close> of RLC and of PDCP). A code
  is an index in the table; -1 stands for infinity.
\<close>

text \<open>The bodies of the macro.\<close>

definition decode_value :: "int list \<Rightarrow> int \<Rightarrow> int c_result" where
  "decode_value tab v = (if 0 \<le> v \<and> v < int (length tab) then Inr (tab ! nat v) else Inl AssertFail)"

fun encode_from :: "int list \<Rightarrow> int \<Rightarrow> int \<Rightarrow> int c_result" where
  "encode_from [] ret v = Inl AssertFail"
| "encode_from (x # xs) ret v = (if x = v then Inr ret else encode_from xs (ret + 1) v)"

definition encode_value :: "int list \<Rightarrow> int \<Rightarrow> int c_result" where
  "encode_value tab v = encode_from tab 0 v"

definition VALUES_NR_RLC_T_POLL_RETRANSMIT :: "int list" where
  "VALUES_NR_RLC_T_POLL_RETRANSMIT =
     [5, 10, 15, 20, 25, 30, 35, 40, 45, 50, 55, 60, 65, 70, 75, 80, 85, 90, 95, 100, 105, 110, 115, 120, 125, 130, 135, 140,
      145, 150, 155, 160, 165, 170, 175, 180, 185, 190, 195, 200, 205, 210, 215, 220, 225, 230, 235, 240, 245, 250, 300, 350,
      400, 450, 500, 800, 1000, 2000, 4000, 1, 2, 4]"

definition VALUES_NR_RLC_T_REASSEMBLY :: "int list" where
  "VALUES_NR_RLC_T_REASSEMBLY =
     [0, 5, 10, 15, 20, 25, 30, 35, 40, 45, 50, 55, 60, 65, 70, 75, 80, 85, 90, 95, 100, 110, 120, 130, 140, 150, 160, 170,
      180, 190, 200]"

definition VALUES_NR_RLC_T_STATUS_PROHIBIT :: "int list" where
  "VALUES_NR_RLC_T_STATUS_PROHIBIT =
     [0, 5, 10, 15, 20, 25, 30, 35, 40, 45, 50, 55, 60, 65, 70, 75, 80, 85, 90, 95, 100, 105, 110, 115, 120, 125, 130, 135,
      140, 145, 150, 155, 160, 165, 170, 175, 180, 185, 190, 195, 200, 205, 210, 215, 220, 225, 230, 235, 240, 245, 250, 300,
      350, 400, 450, 500, 800, 1000, 1200, 1600, 2000, 2400]"

definition VALUES_NR_RLC_POLL_PDU :: "int list" where
  "VALUES_NR_RLC_POLL_PDU =
     [4, 8, 16, 32, 64, 128, 256, 512, 1024, 2048, 4096, 6144, 8192, 12288, 16384, 20480, 24576, 28672, 32768, 40960, 49152,
      57344, 65536, -1]"

definition VALUES_NR_RLC_POLL_BYTE :: "int list" where
  "VALUES_NR_RLC_POLL_BYTE =
     [1024 * 1, 1024 * 2, 1024 * 5, 1024 * 8, 1024 * 10, 1024 * 15, 1024 * 25, 1024 * 50, 1024 * 75, 1024 * 100, 1024 * 125,
      1024 * 250, 1024 * 375, 1024 * 500, 1024 * 750, 1024 * 1000, 1024 * 1250, 1024 * 1500, 1024 * 2000, 1024 * 3000,
      1024 * 4000, 1024 * 4500, 1024 * 5000, 1024 * 5500, 1024 * 6000, 1024 * 6500, 1024 * 7000, 1024 * 7500,
      1024 * 1024 * 8, 1024 * 1024 * 9, 1024 * 1024 * 10, 1024 * 1024 * 11, 1024 * 1024 * 12, 1024 * 1024 * 13,
      1024 * 1024 * 14, 1024 * 1024 * 15, 1024 * 1024 * 16, 1024 * 1024 * 17, 1024 * 1024 * 18, 1024 * 1024 * 20,
      1024 * 1024 * 25, 1024 * 1024 * 30, 1024 * 1024 * 40, -1]"

definition VALUES_NR_RLC_MAX_RETX_THRESHOLD :: "int list" where
  "VALUES_NR_RLC_MAX_RETX_THRESHOLD = [1, 2, 3, 4, 6, 8, 16, 32]"

definition VALUES_NR_RLC_SN_FIELD_LENGTH_AM :: "int list" where
  "VALUES_NR_RLC_SN_FIELD_LENGTH_AM = [12, 18]"

definition VALUES_NR_RLC_SN_FIELD_LENGTH_UM :: "int list" where
  "VALUES_NR_RLC_SN_FIELD_LENGTH_UM = [6, 12]"

definition VALUES_NR_PDCP_SN_SIZE :: "int list" where
  "VALUES_NR_PDCP_SN_SIZE = [12, 18]"

definition VALUES_NR_PDCP_T_REORDERING :: "int list" where
  "VALUES_NR_PDCP_T_REORDERING =
     [0, 1, 2, 4, 5, 8, 10, 15, 20, 30, 40, 50, 60, 80, 100, 120, 140, 160, 180, 200, 220, 240, 260, 280, 300, 500, 750, 1000,
      1250, 1500, 1750, 2000, 2250, 2500, 2750, 3000, -1]"

definition VALUES_NR_PDCP_DISCARD_TIMER :: "int list" where
  "VALUES_NR_PDCP_DISCARD_TIMER = [10, 20, 30, 40, 50, 60, 75, 100, 150, 200, 250, 300, 500, 750, 1500, -1]"

definition decode_t_reassembly :: "int \<Rightarrow> int c_result" where
  "decode_t_reassembly = decode_value VALUES_NR_RLC_T_REASSEMBLY"
definition decode_t_status_prohibit :: "int \<Rightarrow> int c_result" where
  "decode_t_status_prohibit = decode_value VALUES_NR_RLC_T_STATUS_PROHIBIT"
definition decode_t_poll_retransmit :: "int \<Rightarrow> int c_result" where
  "decode_t_poll_retransmit = decode_value VALUES_NR_RLC_T_POLL_RETRANSMIT"
definition decode_poll_pdu :: "int \<Rightarrow> int c_result" where
  "decode_poll_pdu = decode_value VALUES_NR_RLC_POLL_PDU"
definition decode_poll_byte :: "int \<Rightarrow> int c_result" where
  "decode_poll_byte = decode_value VALUES_NR_RLC_POLL_BYTE"
definition decode_max_retx_threshold :: "int \<Rightarrow> int c_result" where
  "decode_max_retx_threshold = decode_value VALUES_NR_RLC_MAX_RETX_THRESHOLD"
definition decode_sn_field_length_am :: "int \<Rightarrow> int c_result" where
  "decode_sn_field_length_am = decode_value VALUES_NR_RLC_SN_FIELD_LENGTH_AM"
definition decode_sn_field_length_um :: "int \<Rightarrow> int c_result" where
  "decode_sn_field_length_um = decode_value VALUES_NR_RLC_SN_FIELD_LENGTH_UM"
definition decode_t_reordering :: "int \<Rightarrow> int c_result" where
  "decode_t_reordering = decode_value VALUES_NR_PDCP_T_REORDERING"
definition decode_sn_size_ul :: "int \<Rightarrow> int c_result" where
  "decode_sn_size_ul = decode_value VALUES_NR_PDCP_SN_SIZE"
definition decode_sn_size_dl :: "int \<Rightarrow> int c_result" where
  "decode_sn_size_dl = decode_value VALUES_NR_PDCP_SN_SIZE"
definition decode_discard_timer :: "int \<Rightarrow> int c_result" where
  "decode_discard_timer = decode_value VALUES_NR_PDCP_DISCARD_TIMER"

definition encode_t_reassembly :: "int \<Rightarrow> int c_result" where
  "encode_t_reassembly = encode_value VALUES_NR_RLC_T_REASSEMBLY"
definition encode_t_status_prohibit :: "int \<Rightarrow> int c_result" where
  "encode_t_status_prohibit = encode_value VALUES_NR_RLC_T_STATUS_PROHIBIT"
definition encode_t_poll_retransmit :: "int \<Rightarrow> int c_result" where
  "encode_t_poll_retransmit = encode_value VALUES_NR_RLC_T_POLL_RETRANSMIT"
definition encode_poll_pdu :: "int \<Rightarrow> int c_result" where
  "encode_poll_pdu = encode_value VALUES_NR_RLC_POLL_PDU"
definition encode_poll_byte :: "int \<Rightarrow> int c_result" where
  "encode_poll_byte = encode_value VALUES_NR_RLC_POLL_BYTE"
definition encode_max_retx_threshold :: "int \<Rightarrow> int c_result" where
  "encode_max_retx_threshold = encode_value VALUES_NR_RLC_MAX_RETX_THRESHOLD"
definition encode_sn_field_length_am :: "int \<Rightarrow> int c_result" where
  "encode_sn_field_length_am = encode_value VALUES_NR_RLC_SN_FIELD_LENGTH_AM"
definition encode_sn_field_length_um :: "int \<Rightarrow> int c_result" where
  "encode_sn_field_length_um = encode_value VALUES_NR_RLC_SN_FIELD_LENGTH_UM"
definition encode_t_reordering :: "int \<Rightarrow> int c_result" where
  "encode_t_reordering = encode_value VALUES_NR_PDCP_T_REORDERING"
definition encode_sn_size_ul :: "int \<Rightarrow> int c_result" where
  "encode_sn_size_ul = encode_value VALUES_NR_PDCP_SN_SIZE"
definition encode_sn_size_dl :: "int \<Rightarrow> int c_result" where
  "encode_sn_size_dl = encode_value VALUES_NR_PDCP_SN_SIZE"
definition encode_discard_timer :: "int \<Rightarrow> int c_result" where
  "encode_discard_timer = encode_value VALUES_NR_PDCP_DISCARD_TIMER"

subsection \<open>Codes and values\<close>

lemma encode_from_at: "encode_from tab n v = Inr i \<Longrightarrow> n \<le> i \<and> i < n + int (length tab) \<and> tab ! nat (i - n) = v"
proof (induction tab arbitrary: n)
  case (Cons x xs)
  show ?case
  proof (cases "x = v")
    case False
    with Cons have "n + 1 \<le> i \<and> i < n + 1 + int (length xs) \<and> xs ! nat (i - (n + 1)) = v" by simp
    moreover from this have "nat (i - n) = Suc (nat (i - (n + 1)))" by linarith
    ultimately show ?thesis by simp
  qed (use Cons.prems in auto)
qed simp

lemma encode_from_nth:
  "distinct tab \<Longrightarrow> j < length tab \<Longrightarrow> encode_from tab n (tab ! j) = Inr (n + int j)"
proof (induction tab arbitrary: n j)
  case (Cons x xs)
  then show ?case by (cases j) auto
qed simp

lemma encode_from_total: "(\<exists>i. encode_from tab n v = Inr i) \<longleftrightarrow> v \<in> set tab"
  by (induction tab arbitrary: n) auto

definition codec :: "int list \<Rightarrow> (int \<Rightarrow> int c_result) \<Rightarrow> (int \<Rightarrow> int c_result) \<Rightarrow> bool" where
  "codec tab enc dec \<longleftrightarrow> (\<forall>v i. enc v = Inr i \<longleftrightarrow> dec i = Inr v) \<and> (\<forall>v. (\<exists>i. enc v = Inr i) \<longleftrightarrow> v \<in> set tab) \<and>
     (\<forall>i. (\<exists>v. dec i = Inr v) \<longleftrightarrow> 0 \<le> i \<and> i < int (length tab)) \<and>
     (\<forall>x. (enc x = Inl AssertFail \<or> (\<exists>y. enc x = Inr y)) \<and> (dec x = Inl AssertFail \<or> (\<exists>y. dec x = Inr y)))"

lemma encode_from_Inl: "encode_from tab n v = Inl f \<Longrightarrow> f = AssertFail"
  by (induction tab arbitrary: n) (auto split: if_splits)

lemma codec_values:
  assumes "distinct tab"
  shows "codec tab (encode_value tab) (decode_value tab)"
proof -
  have "encode_value tab v = Inr i \<longleftrightarrow> decode_value tab i = Inr v" for v i
  proof
    assume "encode_value tab v = Inr i"
    with encode_from_at [of tab 0 v i] show "decode_value tab i = Inr v" by (simp add: encode_value_def decode_value_def)
  next
    assume "decode_value tab i = Inr v"
    then have "0 \<le> i" "nat i < length tab" "tab ! nat i = v" by (auto simp: decode_value_def split: if_splits)
    with encode_from_nth [OF assms, of "nat i" 0] show "encode_value tab v = Inr i" by (auto simp: encode_value_def)
  qed
  moreover have "encode_value tab x = Inl AssertFail \<or> (\<exists>y. encode_value tab x = Inr y)" for x
    by (cases "encode_value tab x") (auto simp: encode_value_def dest: encode_from_Inl)
  ultimately show ?thesis
    using encode_from_total [of tab 0] by (auto simp: codec_def encode_value_def decode_value_def)
qed

text \<open>The codes of the ASN.1 fields and their values are in one-to-one correspondence for every one of the twelve tables
  of RLC and PDCP: encoding a value gives a code exactly when decoding the code gives the value, the values that
  can be encoded are those of the table, the codes that can be decoded are its indices, and anything else stops the process.\<close>

theorem asn1_codes_roundtrip:
  "codec VALUES_NR_RLC_T_REASSEMBLY encode_t_reassembly decode_t_reassembly \<and>
   codec VALUES_NR_RLC_T_STATUS_PROHIBIT encode_t_status_prohibit decode_t_status_prohibit \<and>
   codec VALUES_NR_RLC_T_POLL_RETRANSMIT encode_t_poll_retransmit decode_t_poll_retransmit \<and>
   codec VALUES_NR_RLC_POLL_PDU encode_poll_pdu decode_poll_pdu \<and>
   codec VALUES_NR_RLC_POLL_BYTE encode_poll_byte decode_poll_byte \<and>
   codec VALUES_NR_RLC_MAX_RETX_THRESHOLD encode_max_retx_threshold decode_max_retx_threshold \<and>
   codec VALUES_NR_RLC_SN_FIELD_LENGTH_AM encode_sn_field_length_am decode_sn_field_length_am \<and>
   codec VALUES_NR_RLC_SN_FIELD_LENGTH_UM encode_sn_field_length_um decode_sn_field_length_um \<and>
   codec VALUES_NR_PDCP_T_REORDERING encode_t_reordering decode_t_reordering \<and>
   codec VALUES_NR_PDCP_SN_SIZE encode_sn_size_ul decode_sn_size_ul \<and>
   codec VALUES_NR_PDCP_SN_SIZE encode_sn_size_dl decode_sn_size_dl \<and>
   codec VALUES_NR_PDCP_DISCARD_TIMER encode_discard_timer decode_discard_timer"
proof -
  have d: "distinct VALUES_NR_RLC_T_REASSEMBLY" "distinct VALUES_NR_RLC_T_STATUS_PROHIBIT" "distinct VALUES_NR_RLC_T_POLL_RETRANSMIT"
    "distinct VALUES_NR_RLC_POLL_PDU" "distinct VALUES_NR_RLC_POLL_BYTE" "distinct VALUES_NR_RLC_MAX_RETX_THRESHOLD"
    "distinct VALUES_NR_RLC_SN_FIELD_LENGTH_AM" "distinct VALUES_NR_RLC_SN_FIELD_LENGTH_UM" "distinct VALUES_NR_PDCP_T_REORDERING"
    "distinct VALUES_NR_PDCP_SN_SIZE" "distinct VALUES_NR_PDCP_DISCARD_TIMER" by code_simp+
  show ?thesis
    unfolding encode_t_reassembly_def decode_t_reassembly_def encode_t_status_prohibit_def decode_t_status_prohibit_def
      encode_t_poll_retransmit_def decode_t_poll_retransmit_def encode_poll_pdu_def decode_poll_pdu_def encode_poll_byte_def
      decode_poll_byte_def encode_max_retx_threshold_def decode_max_retx_threshold_def encode_sn_field_length_am_def
      decode_sn_field_length_am_def encode_sn_field_length_um_def decode_sn_field_length_um_def encode_t_reordering_def
      decode_t_reordering_def encode_sn_size_ul_def decode_sn_size_ul_def encode_sn_size_dl_def decode_sn_size_dl_def
      encode_discard_timer_def decode_discard_timer_def
    by (intro conjI codec_values d)
qed

end
