(* ===== verification/Hash_Table.thy ===== *)
theory Hash_Table
  imports L2_Prelude
begin

text \<open>
  The hash table of the common utilities (\<^verbatim>\<open>common/utils/ds/hashtable.c\<close>): an array of buckets, each a
  linked list of keys with a data pointer. A pointer that may be NULL is an option; the result carries the
  data that \<^verbatim>\<open>freefunc\<close> is called on. The last part states what a table of keys promises its clients and shows
  that the code provides it.
\<close>

datatype hashtable_rc =
    HASH_TABLE_OK
  | HASH_TABLE_INSERT_OVERWRITTEN_DATA
  | HASH_TABLE_KEY_NOT_EXISTS
  | HASH_TABLE_KEY_ALREADY_EXISTS
  | HASH_TABLE_BAD_PARAMETER_HASHTABLE
  | HASH_TABLE_SYSTEM_ERROR

type_synonym 'a hash_node = "u64 \<times> 'a option"   \<comment> \<open>\<^verbatim>\<open>key\<close> and \<^verbatim>\<open>data\<close>; the list is the chain of \<^verbatim>\<open>next\<close>\<close>

record 'a hash_table =
  hash_size :: nat
  hash_nodes :: "'a hash_node list list"
  hash_func :: "u64 \<Rightarrow> u64"

definition def_hashfunc :: "u64 \<Rightarrow> u64" where
  "def_hashfunc k = k"

definition hashtable_create :: "nat \<Rightarrow> (u64 \<Rightarrow> u64) option \<Rightarrow> 'a hash_table" where
  "hashtable_create n f =
     \<lparr>hash_size = n, hash_nodes = replicate n [], hash_func = (case f of Some g \<Rightarrow> g | None \<Rightarrow> def_hashfunc)\<rparr>"

definition hashtable_destroy :: "'a hash_table option \<Rightarrow> hashtable_rc \<times> 'a hash_table option \<times> 'a list" where
  "hashtable_destroy t =
     (case t of None \<Rightarrow> (HASH_TABLE_BAD_PARAMETER_HASHTABLE, None, [])
      | Some h \<Rightarrow> (HASH_TABLE_OK, None, List.map_filter snd (concat (hash_nodes h))))"

text \<open>The remainder of the hash modulo the size; a table of size 0 divides by zero.\<close>

definition hash_bucket :: "'a hash_table \<Rightarrow> u64 \<Rightarrow> nat c_result" where
  "hash_bucket h k =
     c_bind (c_check DivZero (hash_size h \<noteq> 0)) (\<lambda>_. Inr (unat (hash_func h k) mod hash_size h))"

text \<open>The walk along a chain: the nodes before the one with the key, and the nodes from it on.\<close>

fun find_node :: "u64 \<Rightarrow> 'a hash_node list \<Rightarrow> 'a hash_node list \<times> 'a hash_node list" where
  "find_node k [] = ([], [])"
| "find_node k (n # ns) = (if fst n = k then ([], n # ns) else (let (pre, post) = find_node k ns in (n # pre, post)))"

definition hashtable_is_key_exists :: "'a hash_table option \<Rightarrow> u64 \<Rightarrow> hashtable_rc c_result" where
  "hashtable_is_key_exists t k =
     (case t of None \<Rightarrow> Inr HASH_TABLE_BAD_PARAMETER_HASHTABLE
      | Some h \<Rightarrow> c_bind (hash_bucket h k) (\<lambda>i.
          case snd (find_node k (hash_nodes h ! i)) of
            [] \<Rightarrow> Inr HASH_TABLE_KEY_NOT_EXISTS
          | _ \<Rightarrow> Inr HASH_TABLE_OK))"

definition put_bucket :: "'a hash_table \<Rightarrow> nat \<Rightarrow> 'a hash_node list \<Rightarrow> 'a hash_table" where
  "put_bucket h i ns = h\<lparr>hash_nodes := (hash_nodes h)[i := ns]\<rparr>"

definition hashtable_insert ::
  "'a hash_table option \<Rightarrow> u64 \<Rightarrow> 'a option \<Rightarrow> (hashtable_rc \<times> 'a hash_table option \<times> 'a option) c_result" where
  "hashtable_insert t k d =
     (case t of None \<Rightarrow> Inr (HASH_TABLE_BAD_PARAMETER_HASHTABLE, None, None)
      | Some h \<Rightarrow> c_bind (hash_bucket h k) (\<lambda>i.
          case find_node k (hash_nodes h ! i) of
            (pre, n # post) \<Rightarrow>
              Inr (HASH_TABLE_INSERT_OVERWRITTEN_DATA, Some (put_bucket h i (pre @ (fst n, d) # post)), snd n)
          | (pre, []) \<Rightarrow> Inr (HASH_TABLE_OK, Some (put_bucket h i ((k, d) # hash_nodes h ! i)), None)))"

definition hashtable_remove ::
  "'a hash_table option \<Rightarrow> u64 \<Rightarrow> (hashtable_rc \<times> 'a hash_table option \<times> 'a option) c_result" where
  "hashtable_remove t k =
     (case t of None \<Rightarrow> Inr (HASH_TABLE_BAD_PARAMETER_HASHTABLE, None, None)
      | Some h \<Rightarrow> c_bind (hash_bucket h k) (\<lambda>i.
          case find_node k (hash_nodes h ! i) of
            (pre, n # post) \<Rightarrow> Inr (HASH_TABLE_OK, Some (put_bucket h i (pre @ post)), snd n)
          | (pre, []) \<Rightarrow> Inr (HASH_TABLE_KEY_NOT_EXISTS, Some h, None)))"

definition hashtable_get :: "'a hash_table option \<Rightarrow> u64 \<Rightarrow> (hashtable_rc \<times> 'a option) c_result" where
  "hashtable_get t k =
     (case t of None \<Rightarrow> Inr (HASH_TABLE_BAD_PARAMETER_HASHTABLE, None)
      | Some h \<Rightarrow> c_bind (hash_bucket h k) (\<lambda>i.
          case snd (find_node k (hash_nodes h ! i)) of
            [] \<Rightarrow> Inr (HASH_TABLE_KEY_NOT_EXISTS, None)
          | n # _ \<Rightarrow> Inr (HASH_TABLE_OK, snd n)))"

subsection \<open>The iterator\<close>

record 'a hash_table_iterator =
  it_index :: nat
  it_node :: "'a hash_node list"
  it_table :: "'a hash_table"

definition hashtable_get_iterator :: "'a hash_table \<Rightarrow> 'a hash_table_iterator c_result" where
  "hashtable_get_iterator h =
     c_bind (c_check OutOfBounds (hash_nodes h \<noteq> [])) (\<lambda>_. Inr \<lparr>it_index = 0, it_node = hash_nodes h ! 0, it_table = h\<rparr>)"

text \<open>The loop over the empty buckets: the index grows up to the size.\<close>

function iterator_seek :: "'a hash_table_iterator \<Rightarrow> 'a hash_table_iterator" where
  "iterator_seek it =
     (if it_node it \<noteq> [] then it
      else let it = it\<lparr>it_index := it_index it + 1\<rparr>
           in if hash_size (it_table it) \<le> it_index it then it
              else iterator_seek (it\<lparr>it_node := hash_nodes (it_table it) ! it_index it\<rparr>))"
  by pat_completeness auto
termination
  by (relation "measure (\<lambda>it. hash_size (it_table it) - it_index it)") auto

declare iterator_seek.simps [simp del]

definition hashtable_iterator_getnext :: "'a hash_table_iterator \<Rightarrow> 'a hash_table_iterator \<times> 'a option option" where
  "hashtable_iterator_getnext it =
     (let it = iterator_seek it
      in case it_node it of [] \<Rightarrow> (it, None) | n # ns \<Rightarrow> (it\<lparr>it_node := ns\<rparr>, Some (snd n)))"

subsection \<open>The interface of a table of keys\<close>

text \<open>
  What the clients of a table rely on: the calls never go wrong on a table in good state, and they answer and
  change it as if it was the map \<open>view\<close>.
\<close>

locale key_table =
  fixes ok :: "'t \<Rightarrow> bool" and view :: "'t \<Rightarrow> 'k \<Rightarrow> 'd option"
    and has_key :: "'t \<Rightarrow> 'k \<Rightarrow> hashtable_rc c_result" and get :: "'t \<Rightarrow> 'k \<Rightarrow> (hashtable_rc \<times> 'd) c_result"
    and put :: "'t \<Rightarrow> 'k \<Rightarrow> 'd \<Rightarrow> (hashtable_rc \<times> 't \<times> 'd) c_result"
    and del :: "'t \<Rightarrow> 'k \<Rightarrow> (hashtable_rc \<times> 't \<times> 'd) c_result"
  assumes has_key_law: "ok t \<Longrightarrow> has_key t k = Inr (if view t k = None then HASH_TABLE_KEY_NOT_EXISTS else HASH_TABLE_OK)"
    and get_law: "ok t \<Longrightarrow> view t k = Some d \<Longrightarrow> get t k = Inr (HASH_TABLE_OK, d)"
    and get_absent: "ok t \<Longrightarrow> view t k = None \<Longrightarrow> \<exists>d. get t k = Inr (HASH_TABLE_KEY_NOT_EXISTS, d)"
    and put_law: "ok t \<Longrightarrow> \<exists>t' f. put t k d =
          Inr (if view t k = None then HASH_TABLE_OK else HASH_TABLE_INSERT_OVERWRITTEN_DATA, t', f) \<and>
          ok t' \<and> view t' = (view t)(k \<mapsto> d)"
    and del_law: "ok t \<Longrightarrow> \<exists>t' f. del t k =
          Inr (if view t k = None then HASH_TABLE_KEY_NOT_EXISTS else HASH_TABLE_OK, t', f) \<and>
          ok t' \<and> view t' = (view t)(k := None)"
begin

lemma put_new:
  assumes "ok t" and "view t k = None"
  obtains t' f where "put t k d = Inr (HASH_TABLE_OK, t', f)" and "ok t'" and "view t' = (view t)(k \<mapsto> d)"
  using put_law [OF assms(1), of k d] assms(2) by auto

lemma del_old:
  assumes "ok t" and "view t k \<noteq> None"
  obtains t' f where "del t k = Inr (HASH_TABLE_OK, t', f)" and "ok t'" and "view t' = (view t)(k := None)"
  using del_law [OF assms(1), of k] assms(2) by auto

lemma put_after_del:
  assumes "ok t" and "view t k \<noteq> None"
  obtains t1 f t' f' where "del t k = Inr (HASH_TABLE_OK, t1, f)" and "put t1 k d = Inr (HASH_TABLE_OK, t', f')"
    and "ok t'" and "view t' = (view t)(k \<mapsto> d)"
proof -
  obtain t1 f where 1: "del t k = Inr (HASH_TABLE_OK, t1, f)" "ok t1" "view t1 = (view t)(k := None)"
    by (rule del_old [OF assms])
  from 1(2) obtain t' f' where "put t1 k d = Inr (HASH_TABLE_OK, t', f')" "ok t'" "view t' = (view t1)(k \<mapsto> d)"
    by (rule put_new [where k = k and d = d]) (simp add: 1(3))
  with 1 that show thesis by (simp add: fun_upd_upd)
qed

end

subsection \<open>The code provides it\<close>

definition bucket_of :: "'a hash_table \<Rightarrow> u64 \<Rightarrow> nat" where
  "bucket_of h k = unat (hash_func h k) mod hash_size h"

text \<open>A table in good state: no bucket has a key twice or a key of another bucket.\<close>

definition hash_ok :: "'a hash_table \<Rightarrow> bool" where
  "hash_ok h \<longleftrightarrow> hash_size h \<noteq> 0 \<and> length (hash_nodes h) = hash_size h \<and>
     (\<forall>i < hash_size h. distinct (map fst (hash_nodes h ! i)) \<and> (\<forall>n \<in> set (hash_nodes h ! i). bucket_of h (fst n) = i))"

definition hash_view :: "'a hash_table \<Rightarrow> u64 \<Rightarrow> 'a option option" where
  "hash_view h k = map_of (hash_nodes h ! bucket_of h k) k"

lemma find_node_append: "find_node k ns = (pre, post) \<Longrightarrow> ns = pre @ post"
  by (induction ns arbitrary: pre) (auto split: if_splits prod.splits)

lemma find_node_pre: "find_node k ns = (pre, post) \<Longrightarrow> k \<notin> fst ` set pre"
  by (induction ns arbitrary: pre) (auto split: if_splits prod.splits)

lemma find_node_post: "find_node k ns = (pre, n # post) \<Longrightarrow> fst n = k"
  by (induction ns arbitrary: pre) (auto split: if_splits prod.splits)

lemma find_node_map_of: "find_node k ns = (pre, post) \<Longrightarrow> map_of ns k = (case post of [] \<Rightarrow> None | n # _ \<Rightarrow> Some (snd n))"
  by (induction ns arbitrary: pre) (auto split: if_splits prod.splits list.splits)

lemma bucket_of_less: "hash_ok h \<Longrightarrow> bucket_of h k < hash_size h"
  by (simp add: hash_ok_def bucket_of_def)

lemma hash_bucket_eq: "hash_ok h \<Longrightarrow> hash_bucket h k = Inr (bucket_of h k)"
  by (simp add: hash_ok_def hash_bucket_def bucket_of_def)

lemma put_bucket_ok:
  assumes "hash_ok h" and "distinct (map fst ns)" and "\<And>n. n \<in> set ns \<Longrightarrow> bucket_of h (fst n) = bucket_of h k"
  shows "hash_ok (put_bucket h (bucket_of h k) ns)" (is "hash_ok ?h")
    and "hash_view (put_bucket h (bucket_of h k) ns) k' = (if bucket_of h k' = bucket_of h k then map_of ns k' else hash_view h k')"
proof -
  have f: "hash_size ?h = hash_size h" "bucket_of ?h k' = bucket_of h k'"
    "hash_nodes ?h = (hash_nodes h)[bucket_of h k := ns]" for k'
    by (simp_all add: put_bucket_def bucket_of_def)
  show "hash_ok ?h"
    using assms bucket_of_less [OF assms(1), of k] unfolding hash_ok_def f by (auto simp: nth_list_update)
  show "hash_view ?h k' = (if bucket_of h k' = bucket_of h k then map_of ns k' else hash_view h k')"
    using assms(1) bucket_of_less [OF assms(1), of k] unfolding hash_view_def f by (auto simp: hash_ok_def)
qed

lemma hash_bucketD:
  assumes "hash_ok h"
  shows "distinct (map fst (hash_nodes h ! bucket_of h k))"
    and "\<And>n. n \<in> set (hash_nodes h ! bucket_of h k) \<Longrightarrow> bucket_of h (fst n) = bucket_of h k"
  using assms bucket_of_less [OF assms, of k] by (auto simp: hash_ok_def)

text \<open>The table behind a pointer.\<close>

definition table_ok :: "'a hash_table option \<Rightarrow> bool" where
  "table_ok t \<longleftrightarrow> (case t of None \<Rightarrow> False | Some h \<Rightarrow> hash_ok h)"

definition table_view :: "'a hash_table option \<Rightarrow> u64 \<Rightarrow> 'a option option" where
  "table_view t k = (case t of None \<Rightarrow> None | Some h \<Rightarrow> hash_view h k)"

lemma table_view_Some [simp]: "table_view (Some h) = hash_view h"
  by (simp add: table_view_def fun_eq_iff)

lemma hashtable_insert_ok:
  assumes "hash_ok h"
  shows "\<exists>t' f. hashtable_insert (Some h) k d =
      Inr (if hash_view h k = None then HASH_TABLE_OK else HASH_TABLE_INSERT_OVERWRITTEN_DATA, t', f) \<and>
      table_ok t' \<and> table_view t' = (hash_view h)(k \<mapsto> d)"
proof -
  let ?i = "bucket_of h k" let ?ns = "hash_nodes h ! ?i"
  obtain pre post where fn: "find_node k ?ns = (pre, post)" by fastforce
  note ns = find_node_append [OF fn] and pre = find_node_pre [OF fn] and mo = find_node_map_of [OF fn]
  note d = hash_bucketD [OF assms, where k = k]
  have none: "map_of pre k = None" using pre by (simp add: map_of_eq_None_iff)
  show ?thesis
  proof (cases post)
    case Nil
    then have dist: "distinct (map fst ((k, d) # ?ns))" using d(1) pre ns by auto
    have "bucket_of h (fst n) = ?i" if "n \<in> set ((k, d) # ?ns)" for n using d(2) [of n] that by auto
    note p = put_bucket_ok [OF assms dist this]
    from p(2) have "hash_view (put_bucket h ?i ((k, d) # ?ns)) = (hash_view h)(k \<mapsto> d)"
      by (auto simp: hash_view_def fun_eq_iff)
    with p(1) fn Nil mo show ?thesis
      by (simp add: hashtable_insert_def hash_bucket_eq [OF assms] table_ok_def hash_view_def [of h k] del: fun_upd_apply)
  next
    case (Cons n rest)
    have k: "fst n = k" by (rule find_node_post) (use fn Cons in simp)
    let ?l = "pre @ (fst n, d) # rest"
    have dist: "distinct (map fst ?l)" using d(1) ns Cons by simp
    have "bucket_of h (fst n) = ?i" if "n \<in> set ?l" for n using d(2) that ns Cons k by fastforce
    note p = put_bucket_ok [OF assms dist this]
    have "map_of ?l k' = (if k' = k then Some d else map_of ?ns k')" for k'
      using none k by (auto simp: ns Cons map_add_def split: option.splits)
    with p(2) have "hash_view (put_bucket h ?i ?l) = (hash_view h)(k \<mapsto> d)" by (auto simp: hash_view_def fun_eq_iff)
    with p(1) fn Cons mo show ?thesis
      by (simp add: hashtable_insert_def hash_bucket_eq [OF assms] table_ok_def hash_view_def [of h k] del: fun_upd_apply)
  qed
qed

lemma hashtable_remove_ok:
  assumes "hash_ok h"
  shows "\<exists>t' f. hashtable_remove (Some h) k =
      Inr (if hash_view h k = None then HASH_TABLE_KEY_NOT_EXISTS else HASH_TABLE_OK, t', f) \<and>
      table_ok t' \<and> table_view t' = (hash_view h)(k := None)"
proof -
  let ?i = "bucket_of h k" let ?ns = "hash_nodes h ! ?i"
  obtain pre post where fn: "find_node k ?ns = (pre, post)" by fastforce
  note ns = find_node_append [OF fn] and pre = find_node_pre [OF fn] and mo = find_node_map_of [OF fn]
  note d = hash_bucketD [OF assms, where k = k]
  have none: "map_of pre k = None" using pre by (simp add: map_of_eq_None_iff)
  show ?thesis
  proof (cases post)
    case Nil
    with mo have "hash_view h = (hash_view h)(k := None)" by (auto simp: hash_view_def fun_eq_iff)
    with fn mo assms Nil show ?thesis
      by (simp add: hashtable_remove_def hash_bucket_eq [OF assms] table_ok_def hash_view_def [of h k] del: fun_upd_apply)
  next
    case (Cons n rest)
    have k: "fst n = k" by (rule find_node_post) (use fn Cons in simp)
    have "k \<notin> fst ` set rest" using d(1) ns Cons k by auto
    then have nr: "map_of rest k = None" by (simp add: map_of_eq_None_iff)
    have dist: "distinct (map fst (pre @ rest))" using d(1) ns Cons by simp
    have "bucket_of h (fst n) = ?i" if "n \<in> set (pre @ rest)" for n using d(2) that ns Cons by fastforce
    note p = put_bucket_ok [OF assms dist this]
    have "map_of (pre @ rest) k' = (if k' = k then None else map_of ?ns k')" for k'
      using none k nr by (auto simp: ns Cons map_add_def split: option.splits)
    with p(2) have "hash_view (put_bucket h ?i (pre @ rest)) = (hash_view h)(k := None)" by (auto simp: hash_view_def fun_eq_iff)
    with p(1) fn Cons mo show ?thesis
      by (simp add: hashtable_remove_def hash_bucket_eq [OF assms] table_ok_def hash_view_def [of h k] del: fun_upd_apply)
  qed
qed

interpretation hashtable: key_table table_ok table_view hashtable_is_key_exists hashtable_get hashtable_insert hashtable_remove
proof unfold_locales
  fix t :: "'a hash_table option" and k d
  assume "table_ok t"
  then obtain h where t: "t = Some h" and h: "hash_ok h" by (cases t) (auto simp: table_ok_def)
  obtain pre post where fn: "find_node k (hash_nodes h ! bucket_of h k) = (pre, post)" by fastforce
  note v = find_node_map_of [OF fn]
  show "hashtable_is_key_exists t k = Inr (if table_view t k = None then HASH_TABLE_KEY_NOT_EXISTS else HASH_TABLE_OK)"
    using fn v by (simp add: t hashtable_is_key_exists_def hash_bucket_eq [OF h] hash_view_def split: list.splits)
  show "table_view t k = Some d \<Longrightarrow> hashtable_get t k = Inr (HASH_TABLE_OK, d)"
    using fn v by (cases post) (simp_all add: t hashtable_get_def hash_bucket_eq [OF h] hash_view_def)
  show "table_view t k = None \<Longrightarrow> \<exists>d. hashtable_get t k = Inr (HASH_TABLE_KEY_NOT_EXISTS, d)"
    using fn v by (simp add: t hashtable_get_def hash_bucket_eq [OF h] hash_view_def split: list.splits)
  show "\<exists>t' f. hashtable_insert t k d =
          Inr (if table_view t k = None then HASH_TABLE_OK else HASH_TABLE_INSERT_OVERWRITTEN_DATA, t', f) \<and>
          table_ok t' \<and> table_view t' = (table_view t)(k \<mapsto> d)"
    using hashtable_insert_ok [OF h, of k d] by (simp add: t)
  show "\<exists>t' f. hashtable_remove t k =
          Inr (if table_view t k = None then HASH_TABLE_KEY_NOT_EXISTS else HASH_TABLE_OK, t', f) \<and>
          table_ok t' \<and> table_view t' = (table_view t)(k := None)"
    using hashtable_remove_ok [OF h, of k] by (simp add: t)
qed

lemma hashtable_create_ok: "n \<noteq> 0 \<Longrightarrow> table_ok (Some (hashtable_create n f)) \<and> table_view (Some (hashtable_create n f)) = Map.empty"
  by (auto simp: table_ok_def table_view_def hash_ok_def hash_view_def hashtable_create_def bucket_of_def fun_eq_iff)

subsection \<open>The iterator visits every node once\<close>

definition it_rest :: "'a hash_table_iterator \<Rightarrow> 'a hash_node list" where
  "it_rest it = it_node it @ concat (drop (it_index it + 1) (hash_nodes (it_table it)))"

lemma iterator_seek_rest:
  "length (hash_nodes (it_table it)) = hash_size (it_table it) \<Longrightarrow>
   it_rest (iterator_seek it) = it_rest it \<and> (it_node (iterator_seek it) = [] \<longrightarrow> it_rest it = []) \<and>
   it_table (iterator_seek it) = it_table it"
proof (induction it rule: iterator_seek.induct)
  case (1 it)
  let ?it = "it\<lparr>it_index := it_index it + 1\<rparr>"
  let ?ns = "hash_nodes (it_table it)"
  show ?case
  proof (cases "it_node it = [] \<and> it_index it + 1 < hash_size (it_table it)")
    case True
    have e: "iterator_seek it = iterator_seek (?it\<lparr>it_node := ?ns ! (it_index it + 1)\<rparr>)"
      using True by (subst iterator_seek.simps) (simp add: Let_def)
    have "drop (it_index it + 1) ?ns = ?ns ! (it_index it + 1) # drop (it_index it + 2) ?ns"
      using True "1.prems" by (simp add: Cons_nth_drop_Suc)
    then have "it_rest (?it\<lparr>it_node := ?ns ! (it_index it + 1)\<rparr>) = it_rest it" using True by (simp add: it_rest_def)
    with "1.IH" [OF _ refl] True "1.prems" show ?thesis unfolding e by simp
  next
    case False
    then have e: "iterator_seek it = (if it_node it \<noteq> [] then it else ?it)"
      by (subst iterator_seek.simps) (auto simp: Let_def)
    from False "1.prems" show ?thesis unfolding e by (auto simp: it_rest_def)
  qed
qed

lemma iterator_getnext_rest:
  assumes "length (hash_nodes (it_table it)) = hash_size (it_table it)"
  shows "it_rest it = [] \<Longrightarrow> snd (hashtable_iterator_getnext it) = None"
    and "it_rest it = n # ns \<Longrightarrow> \<exists>it'. hashtable_iterator_getnext it = (it', Some (snd n)) \<and> it_rest it' = ns \<and> it_table it' = it_table it"
  using iterator_seek_rest [OF assms]
  by (auto simp del: concat_eq_Nil_conv simp: hashtable_iterator_getnext_def Let_def it_rest_def split: list.splits)

fun iterate :: "nat \<Rightarrow> 'a hash_table_iterator \<Rightarrow> 'a option list" where
  "iterate 0 it = []"
| "iterate (Suc n) it = (case hashtable_iterator_getnext it of (_, None) \<Rightarrow> [] | (it', Some d) \<Rightarrow> d # iterate n it')"

lemma iterate_all:
  "length (hash_nodes (it_table it)) = hash_size (it_table it) \<Longrightarrow> length (it_rest it) \<le> n \<Longrightarrow> iterate n it = map snd (it_rest it)"
proof (induction n arbitrary: it)
  case (Suc n)
  show ?case
  proof (cases "it_rest it")
    case Nil
    with iterator_getnext_rest(1) [OF Suc.prems(1)] show ?thesis by (auto split: prod.splits)
  next
    case (Cons m ms)
    with iterator_getnext_rest(2) [OF Suc.prems(1) Cons] Suc show ?thesis by auto
  qed
qed simp

end
