(* ===== verification/F1ap_Ids.thy ===== *)
theory F1ap_Ids
  imports Hash_Table
begin

text \<open>
  The secondary identities of UEs (\<^verbatim>\<open>openair2/F1AP/f1ap_ids.c\<close>): the CU and the DU each keep a hash table from
  their identity of a UE to its data, with the identity that the other side uses. A mutex orders the calls.
  The property shows that the two hash tables are two finite maps.
\<close>

record f1_ue_data =
  secondary_ue :: u32
  e1_assoc_id :: int
  du_assoc_id :: int

definition get_hashtable_data :: "f1_ue_data hash_table option \<Rightarrow> u64 \<Rightarrow> f1_ue_data c_result" where
  "get_hashtable_data ht ue_id =
     c_bind (hashtable_get ht ue_id) (\<lambda>(ret, data).
       case data of Some d \<Rightarrow> c_bind (c_check AssertFail (ret = HASH_TABLE_OK)) (\<lambda>_. Inr d) | None \<Rightarrow> Inl AssertFail)"

definition add_hashtable_data ::
  "f1_ue_data hash_table option \<Rightarrow> u64 \<Rightarrow> f1_ue_data \<Rightarrow> (f1_ue_data hash_table option \<times> bool) c_result" where
  "add_hashtable_data ht ue_id data =
     c_bind (hashtable_insert ht ue_id (Some data)) (\<lambda>(ret, ht, _). Inr (ht, ret = HASH_TABLE_OK))"

text \<open>The body that the functions of the CU and of the DU share, on their own table.\<close>

definition init_f1_ue_data :: "f1_ue_data hash_table option \<Rightarrow> f1_ue_data hash_table option c_result" where
  "init_f1_ue_data ht = c_bind (c_check AssertFail (ht = None)) (\<lambda>_. Inr (Some (hashtable_create 1319 None)))"

definition add_f1_ue_data ::
  "f1_ue_data hash_table option \<Rightarrow> u32 \<Rightarrow> f1_ue_data \<Rightarrow> (f1_ue_data hash_table option \<times> bool) c_result" where
  "add_f1_ue_data ht ue_id data =
     c_bind (c_check AssertFail (ht \<noteq> None)) (\<lambda>_.
     c_bind (hashtable_is_key_exists ht (ucast ue_id)) (\<lambda>ret.
     if ret = HASH_TABLE_OK then Inr (ht, False) else add_hashtable_data ht (ucast ue_id) data))"

definition exists_f1_ue_data :: "f1_ue_data hash_table option \<Rightarrow> u32 \<Rightarrow> bool c_result" where
  "exists_f1_ue_data ht ue_id =
     c_bind (c_check AssertFail (ht \<noteq> None)) (\<lambda>_.
     c_bind (hashtable_is_key_exists ht (ucast ue_id)) (\<lambda>ret. Inr (ret = HASH_TABLE_OK)))"

definition get_f1_ue_data :: "f1_ue_data hash_table option \<Rightarrow> u32 \<Rightarrow> f1_ue_data c_result" where
  "get_f1_ue_data ht ue_id = c_bind (c_check AssertFail (ht \<noteq> None)) (\<lambda>_. get_hashtable_data ht (ucast ue_id))"

definition remove_f1_ue_data :: "f1_ue_data hash_table option \<Rightarrow> u32 \<Rightarrow> (f1_ue_data hash_table option \<times> bool) c_result" where
  "remove_f1_ue_data ht ue_id =
     c_bind (c_check AssertFail (ht \<noteq> None)) (\<lambda>_.
     c_bind (hashtable_remove ht (ucast ue_id)) (\<lambda>(ret, ht, _). Inr (ht, ret = HASH_TABLE_OK)))"

record f1_ids =
  cu2du_ue_mapping :: "f1_ue_data hash_table option"
  du2cu_ue_mapping :: "f1_ue_data hash_table option"

definition cu_init_f1_ue_data :: "f1_ids \<Rightarrow> f1_ids c_result" where
  "cu_init_f1_ue_data s = c_bind (init_f1_ue_data (cu2du_ue_mapping s)) (\<lambda>ht. Inr (s\<lparr>cu2du_ue_mapping := ht\<rparr>))"

definition cu_add_f1_ue_data :: "f1_ids \<Rightarrow> u32 \<Rightarrow> f1_ue_data \<Rightarrow> (f1_ids \<times> bool) c_result" where
  "cu_add_f1_ue_data s ue_id data =
     c_bind (add_f1_ue_data (cu2du_ue_mapping s) ue_id data) (\<lambda>(ht, ret). Inr (s\<lparr>cu2du_ue_mapping := ht\<rparr>, ret))"

definition cu_exists_f1_ue_data :: "f1_ids \<Rightarrow> u32 \<Rightarrow> bool c_result" where
  "cu_exists_f1_ue_data s ue_id = exists_f1_ue_data (cu2du_ue_mapping s) ue_id"

definition cu_update_f1_ue_data :: "f1_ids \<Rightarrow> u32 \<Rightarrow> f1_ue_data \<Rightarrow> (f1_ids \<times> bool) c_result" where
  "cu_update_f1_ue_data s ue_id data =
     c_bind (c_check AssertFail (cu2du_ue_mapping s \<noteq> None)) (\<lambda>_.
     c_bind (hashtable_remove (cu2du_ue_mapping s) (ucast ue_id)) (\<lambda>(retrm, ht, _).
     c_bind (c_check AssertFail (retrm = HASH_TABLE_OK)) (\<lambda>_.
     c_bind (add_hashtable_data ht (ucast ue_id) data) (\<lambda>(ht, ret). Inr (s\<lparr>cu2du_ue_mapping := ht\<rparr>, ret)))))"

definition cu_get_f1_ue_data :: "f1_ids \<Rightarrow> u32 \<Rightarrow> f1_ue_data c_result" where
  "cu_get_f1_ue_data s ue_id = get_f1_ue_data (cu2du_ue_mapping s) ue_id"

definition cu_remove_f1_ue_data :: "f1_ids \<Rightarrow> u32 \<Rightarrow> (f1_ids \<times> bool) c_result" where
  "cu_remove_f1_ue_data s ue_id =
     c_bind (remove_f1_ue_data (cu2du_ue_mapping s) ue_id) (\<lambda>(ht, ret). Inr (s\<lparr>cu2du_ue_mapping := ht\<rparr>, ret))"

definition du_init_f1_ue_data :: "f1_ids \<Rightarrow> f1_ids c_result" where
  "du_init_f1_ue_data s = c_bind (init_f1_ue_data (du2cu_ue_mapping s)) (\<lambda>ht. Inr (s\<lparr>du2cu_ue_mapping := ht\<rparr>))"

definition du_add_f1_ue_data :: "f1_ids \<Rightarrow> u32 \<Rightarrow> f1_ue_data \<Rightarrow> (f1_ids \<times> bool) c_result" where
  "du_add_f1_ue_data s ue_id data =
     c_bind (add_f1_ue_data (du2cu_ue_mapping s) ue_id data) (\<lambda>(ht, ret). Inr (s\<lparr>du2cu_ue_mapping := ht\<rparr>, ret))"

definition du_exists_f1_ue_data :: "f1_ids \<Rightarrow> u32 \<Rightarrow> bool c_result" where
  "du_exists_f1_ue_data s ue_id = exists_f1_ue_data (du2cu_ue_mapping s) ue_id"

definition du_get_f1_ue_data :: "f1_ids \<Rightarrow> u32 \<Rightarrow> f1_ue_data c_result" where
  "du_get_f1_ue_data s ue_id = get_f1_ue_data (du2cu_ue_mapping s) ue_id"

definition du_remove_f1_ue_data :: "f1_ids \<Rightarrow> u32 \<Rightarrow> (f1_ids \<times> bool) c_result" where
  "du_remove_f1_ue_data s ue_id =
     c_bind (remove_f1_ue_data (du2cu_ue_mapping s) ue_id) (\<lambda>(ht, ret). Inr (s\<lparr>du2cu_ue_mapping := ht\<rparr>, ret))"

subsection \<open>Two finite maps\<close>

datatype f1_call =
    CuAdd u32 f1_ue_data | CuExists u32 | CuUpdate u32 f1_ue_data | CuGet u32 | CuRemove u32
  | DuAdd u32 f1_ue_data | DuExists u32 | DuGet u32 | DuRemove u32

datatype f1_ret = RetBool bool | RetData f1_ue_data

definition ret_bool :: "('s \<times> bool) c_result \<Rightarrow> ('s \<times> f1_ret list) c_result" where
  "ret_bool r = c_bind r (\<lambda>(s, b). Inr (s, [RetBool b]))"

fun f1_step :: "f1_ids \<Rightarrow> f1_call \<Rightarrow> (f1_ids \<times> f1_ret list) c_result" where
  "f1_step s (CuAdd k d) = ret_bool (cu_add_f1_ue_data s k d)"
| "f1_step s (CuExists k) = c_bind (cu_exists_f1_ue_data s k) (\<lambda>b. Inr (s, [RetBool b]))"
| "f1_step s (CuUpdate k d) = ret_bool (cu_update_f1_ue_data s k d)"
| "f1_step s (CuGet k) = c_bind (cu_get_f1_ue_data s k) (\<lambda>d. Inr (s, [RetData d]))"
| "f1_step s (CuRemove k) = ret_bool (cu_remove_f1_ue_data s k)"
| "f1_step s (DuAdd k d) = ret_bool (du_add_f1_ue_data s k d)"
| "f1_step s (DuExists k) = c_bind (du_exists_f1_ue_data s k) (\<lambda>b. Inr (s, [RetBool b]))"
| "f1_step s (DuGet k) = c_bind (du_get_f1_ue_data s k) (\<lambda>d. Inr (s, [RetData d]))"
| "f1_step s (DuRemove k) = ret_bool (du_remove_f1_ue_data s k)"

text \<open>The specification: one map of the CU and one of the DU.\<close>

type_synonym f1_maps = "(u32 \<rightharpoonup> f1_ue_data) \<times> (u32 \<rightharpoonup> f1_ue_data)"

definition spec_get :: "f1_maps \<Rightarrow> f1_ue_data option \<Rightarrow> (f1_maps \<times> f1_ret list) c_result" where
  "spec_get m x = (case x of None \<Rightarrow> Inl AssertFail | Some d \<Rightarrow> Inr (m, [RetData d]))"

fun f1_spec :: "f1_maps \<Rightarrow> f1_call \<Rightarrow> (f1_maps \<times> f1_ret list) c_result" where
  "f1_spec (c, d) (CuAdd k x) = Inr (if c k = None then (c(k \<mapsto> x), d) else (c, d), [RetBool (c k = None)])"
| "f1_spec (c, d) (CuExists k) = Inr ((c, d), [RetBool (c k \<noteq> None)])"
| "f1_spec (c, d) (CuUpdate k x) = (if c k = None then Inl AssertFail else Inr ((c(k \<mapsto> x), d), [RetBool True]))"
| "f1_spec (c, d) (CuGet k) = spec_get (c, d) (c k)"
| "f1_spec (c, d) (CuRemove k) = Inr ((c(k := None), d), [RetBool (c k \<noteq> None)])"
| "f1_spec (c, d) (DuAdd k x) = Inr (if d k = None then (c, d(k \<mapsto> x)) else (c, d), [RetBool (d k = None)])"
| "f1_spec (c, d) (DuExists k) = Inr ((c, d), [RetBool (d k \<noteq> None)])"
| "f1_spec (c, d) (DuGet k) = spec_get (c, d) (d k)"
| "f1_spec (c, d) (DuRemove k) = Inr ((c, d(k := None)), [RetBool (d k \<noteq> None)])"

text \<open>A hash table that stands for a map of 32-bit identities.\<close>

definition stands_for :: "f1_ue_data hash_table option \<Rightarrow> (u32 \<rightharpoonup> f1_ue_data) \<Rightarrow> bool" where
  "stands_for ht m \<longleftrightarrow> table_ok ht \<and> (\<forall>k. table_view ht (ucast k) = map_option Some (m k))"

lemma ucast_u32_inj [simp]: "(ucast (a :: u32) :: u64) = ucast b \<longleftrightarrow> a = b"
proof
  assume "(ucast a :: u64) = ucast b"
  then have "uint (ucast a :: u64) = uint (ucast b :: u64)" by (rule arg_cong)
  then have "uint a = uint b" by (simp add: uint_up_ucast is_up)
  then show "a = b" by (simp add: word_uint_eq_iff)
qed simp

lemma stands_for_ok:
  assumes "stands_for ht m"
  shows "table_ok ht" and "ht \<noteq> None" and "table_view ht (ucast k) = map_option Some (m k)"
  using assms by (auto simp: stands_for_def table_ok_def split: option.splits)

lemma stands_for_upd:
  assumes "stands_for ht m" and "table_ok ht'" and "table_view ht' = (table_view ht)(ucast k := map_option Some x)"
  shows "stands_for ht' (m(k := x))"
  using assms by (auto simp: stands_for_def)

lemma add_ue_data_ok:
  assumes "stands_for ht m"
  shows "m k = None \<Longrightarrow> \<exists>ht'. add_f1_ue_data ht k d = Inr (ht', True) \<and> stands_for ht' (m(k \<mapsto> d))"
    and "m k \<noteq> None \<Longrightarrow> add_f1_ue_data ht k d = Inr (ht, False)"
proof -
  note ok = stands_for_ok [OF assms]
  show "add_f1_ue_data ht k d = Inr (ht, False)" if "m k \<noteq> None"
    using that ok by (auto simp: add_f1_ue_data_def hashtable.has_key_law)
  assume m: "m k = None"
  then have v: "table_view ht (ucast k) = None" using ok(3) by simp
  obtain ht' f where "hashtable_insert ht (ucast k) (Some d) = Inr (HASH_TABLE_OK, ht', f)" "table_ok ht'"
    "table_view ht' = (table_view ht)(ucast k \<mapsto> Some d)" by (rule hashtable.put_new [OF ok(1) v])
  with m ok v show "\<exists>ht'. add_f1_ue_data ht k d = Inr (ht', True) \<and> stands_for ht' (m(k \<mapsto> d))"
    using stands_for_upd [OF assms, of ht' k "Some d"]
    by (auto simp: add_f1_ue_data_def hashtable.has_key_law add_hashtable_data_def)
qed

lemma exists_ue_data_ok: "stands_for ht m \<Longrightarrow> exists_f1_ue_data ht k = Inr (m k \<noteq> None)"
  using stands_for_ok [of ht m] by (auto simp: exists_f1_ue_data_def hashtable.has_key_law)

lemma get_ue_data_ok:
  assumes "stands_for ht m"
  shows "get_f1_ue_data ht k = (case m k of None \<Rightarrow> Inl AssertFail | Some d \<Rightarrow> Inr d)"
proof (cases "m k")
  case None
  with stands_for_ok [OF assms] hashtable.get_absent [of ht "ucast k"] show ?thesis
    by (auto simp: get_f1_ue_data_def get_hashtable_data_def split: option.splits)
next
  case (Some d)
  with stands_for_ok [OF assms] hashtable.get_law [of ht "ucast k" "Some d"] show ?thesis
    by (auto simp: get_f1_ue_data_def get_hashtable_data_def)
qed

lemma remove_ue_data_ok:
  assumes "stands_for ht m"
  shows "\<exists>ht'. remove_f1_ue_data ht k = Inr (ht', m k \<noteq> None) \<and> stands_for ht' (m(k := None))"
proof -
  note ok = stands_for_ok [OF assms]
  obtain ht' f where "hashtable_remove ht (ucast k) =
      Inr (if table_view ht (ucast k) = None then HASH_TABLE_KEY_NOT_EXISTS else HASH_TABLE_OK, ht', f)" "table_ok ht'"
      "table_view ht' = (table_view ht)(ucast k := None)" using hashtable.del_law [OF ok(1)] by blast
  with ok stands_for_upd [OF assms, of ht' k None] show ?thesis by (auto simp: remove_f1_ue_data_def)
qed

lemma update_ue_data_ok:
  assumes "stands_for (cu2du_ue_mapping s) m"
  shows "m k = None \<Longrightarrow> cu_update_f1_ue_data s k d = Inl AssertFail"
    and "m k \<noteq> None \<Longrightarrow> \<exists>ht. cu_update_f1_ue_data s k d = Inr (s\<lparr>cu2du_ue_mapping := ht\<rparr>, True) \<and> stands_for ht (m(k \<mapsto> d))"
proof -
  note ok = stands_for_ok [OF assms]
  show "cu_update_f1_ue_data s k d = Inl AssertFail" if "m k = None"
    using that ok hashtable.del_law [OF ok(1), of "ucast k"] by (auto simp: cu_update_f1_ue_data_def)
  assume "m k \<noteq> None"
  then have v: "table_view (cu2du_ue_mapping s) (ucast k) \<noteq> None" using ok(3) by simp
  show "\<exists>ht. cu_update_f1_ue_data s k d = Inr (s\<lparr>cu2du_ue_mapping := ht\<rparr>, True) \<and> stands_for ht (m(k \<mapsto> d))"
    by (rule hashtable.put_after_del [OF ok(1) v, of "Some d"])
      (use ok stands_for_upd [OF assms, of _ k "Some d"] in \<open>auto simp: cu_update_f1_ue_data_def add_hashtable_data_def\<close>)
qed

definition ids_rel :: "f1_ids \<Rightarrow> f1_maps \<Rightarrow> bool" where
  "ids_rel s m \<longleftrightarrow> stands_for (cu2du_ue_mapping s) (fst m) \<and> stands_for (du2cu_ue_mapping s) (snd m)"

interpretation f1_ids: simulation f1_step f1_spec ids_rel
proof unfold_locales
  fix s m call
  assume "ids_rel s m"
  then obtain c d where m: "m = (c, d)" and c: "stands_for (cu2du_ue_mapping s) c" and d: "stands_for (du2cu_ue_mapping s) d"
    by (cases m) (auto simp: ids_rel_def)
  show "c_rel (\<lambda>(s', ds) (a', ds'). ids_rel s' a' \<and> ds = ds') (f1_step s call) (f1_spec m call)"
  proof (cases call)
    case (CuAdd k x)
    with add_ue_data_ok [OF c, of k x] c d show ?thesis
      by (cases "c k") (auto simp: m ret_bool_def cu_add_f1_ue_data_def ids_rel_def)
  next
    case (CuUpdate k x)
    with update_ue_data_ok [OF c, of k x] c d show ?thesis
      by (cases "c k") (auto simp: m ret_bool_def ids_rel_def)
  next
    case (CuRemove k)
    with remove_ue_data_ok [OF c, of k] d show ?thesis
      by (auto simp: m ret_bool_def cu_remove_f1_ue_data_def ids_rel_def)
  next
    case (DuAdd k x)
    with add_ue_data_ok [OF d, of k x] c d show ?thesis
      by (cases "d k") (auto simp: m ret_bool_def du_add_f1_ue_data_def ids_rel_def)
  next
    case (DuRemove k)
    with remove_ue_data_ok [OF d, of k] c show ?thesis
      by (auto simp: m ret_bool_def du_remove_f1_ue_data_def ids_rel_def)
  qed (use c d in \<open>auto simp: m ids_rel_def spec_get_def cu_exists_f1_ue_data_def du_exists_f1_ue_data_def
        cu_get_f1_ue_data_def du_get_f1_ue_data_def exists_ue_data_ok get_ue_data_ok split: option.splits\<close>)
qed

definition f1_ids_init :: "f1_ids c_result" where
  "f1_ids_init = c_bind (cu_init_f1_ue_data \<lparr>cu2du_ue_mapping = None, du2cu_ue_mapping = None\<rparr>) du_init_f1_ue_data"

text \<open>C15: the two hash tables of the F1 identities are two finite maps: whatever the calls, in whatever order, on the tables
  that the two initialisations make, their results are those of maps from identities to data, and the calls that
  end the process are those that get or update an identity that is not in the map. The hash of an identity, the
  chains of the buckets and the order of the insertions never show.\<close>

theorem f1_ids_refine_maps:
  "map_sum id snd (c_bind f1_ids_init (\<lambda>s. run_steps f1_step s calls)) =
   map_sum id snd (run_steps f1_spec (Map.empty, Map.empty) calls)"
proof -
  have "stands_for (Some (hashtable_create 1319 None)) Map.empty"
    using hashtable_create_ok [of 1319 None] by (auto simp: stands_for_def fun_eq_iff)
  then obtain s where s: "f1_ids_init = Inr s" "ids_rel s (Map.empty, Map.empty)"
    by (auto simp: f1_ids_init_def cu_init_f1_ue_data_def du_init_f1_ue_data_def init_f1_ue_data_def ids_rel_def)
  from f1_ids.run_outputs [OF s(2), of calls] show ?thesis unfolding s(1) c_bind_simps .
qed

end
