(* ===== verification/Rlc_Api.thy ===== *)
theory Rlc_Api
  imports Rlc_Ue_Manager Asn1_Tables F1ap_Ids
begin

text \<open>
  The interface of RLC to MAC, PDCP and RRC (\<^verbatim>\<open>nr_rlc_oai_api.c\<close>). Every call finds the UE, then the entity of the
  bearer, and calls a function of the entity; \<open>now\<close> is \<^verbatim>\<open>nr_rlc_current_time\<close> and \<open>wall\<close> the clock of the
  statistics. What the callbacks of an entity do is a list of messages to the other layers, in order. The ASN.1
  structures are records and datatypes of the fields that are read. Traces and log lines are left out.
\<close>

record rlc_env =
  env_f1_ids :: f1_ids       \<comment> \<open>the identities that \<^verbatim>\<open>du_get_f1_ue_data\<close> reads\<close>
  env_f1_inst :: bool        \<comment> \<open>\<^verbatim>\<open>getCxt(0)\<close> is not NULL\<close>
  env_wall :: u64
  env_now :: u64

definition nr_rlc_ms_tick :: "rlc_env \<Rightarrow> rlc_env" where
  "nr_rlc_ms_tick env = env\<lparr>env_now := env_now env + 1\<rparr>"

subsection \<open>Bearers of a UE\<close>

text \<open>A pointer to an entity of a UE is the place of the UE that holds it.\<close>

datatype rb_pos = Srb0 | Srb nat | Drb nat

fun rb_entity :: "nr_rlc_ue \<Rightarrow> rb_pos \<Rightarrow> rlc_entity option" where
  "rb_entity u Srb0 = map_option fst (rlc_srb0 u)"
| "rb_entity u (Srb j) = (if j < length (rlc_srb u) then rlc_srb u ! j else None)"
| "rb_entity u (Drb j) = (if j < length (rlc_drb u) then rlc_drb u ! j else None)"

fun rb_update :: "nr_rlc_ue \<Rightarrow> rb_pos \<Rightarrow> rlc_entity \<Rightarrow> nr_rlc_ue" where
  "rb_update u Srb0 e = u\<lparr>rlc_srb0 := map_option (\<lambda>(_, d). (e, d)) (rlc_srb0 u)\<rparr>"
| "rb_update u (Srb j) e = u\<lparr>rlc_srb := (rlc_srb u)[j := Some e]\<rparr>"
| "rb_update u (Drb j) e = u\<lparr>rlc_drb := (rlc_drb u)[j := Some e]\<rparr>"

fun rb_clear :: "nr_rlc_ue \<Rightarrow> rb_pos \<Rightarrow> nr_rlc_ue" where
  "rb_clear u Srb0 = u\<lparr>rlc_srb0 := None\<rparr>"
| "rb_clear u (Srb j) = u\<lparr>rlc_srb := (rlc_srb u)[j := None]\<rparr>"
| "rb_clear u (Drb j) = u\<lparr>rlc_drb := (rlc_drb u)[j := None]\<rparr>"

definition put_rlc_ue :: "nr_rlc_ue_manager \<Rightarrow> nat \<Rightarrow> nr_rlc_ue \<Rightarrow> nr_rlc_ue_manager" where
  "put_rlc_ue m i u = m\<lparr>rlc_ue_list := (rlc_ue_list m)[i := u]\<rparr>"

text \<open>The place that an entry of \<open>lcid2rb\<close> names, and the pointer there.\<close>

definition pos_of_lcid :: "nr_rlc_ue \<Rightarrow> nat \<Rightarrow> rb_pos option c_result" where
  "pos_of_lcid u ch =
     (if 32 < ch then Inl OutOfBounds
      else case lcid2rb u ! (ch - 1) of
        NR_LCID_NONE \<Rightarrow> Inr None
      | NR_LCID_SRB n \<Rightarrow> if n \<le> 0 then Inl AssertFail else if 3 < n then Inl OutOfBounds else Inr (Some (Srb (nat (n - 1))))
      | NR_LCID_DRB n \<Rightarrow> if n \<le> 0 \<or> int RLC_MAX_DRBS < n then Inl OutOfBounds else Inr (Some (Drb (nat (n - 1)))))"

text \<open>\<open>None\<close> is the NULL pointer; otherwise the place of the entity.\<close>

definition get_rlc_entity_from_lcid :: "nr_rlc_ue \<Rightarrow> nat \<Rightarrow> rb_pos option c_result" where
  "get_rlc_entity_from_lcid u ch =
     (if ch = 0 then Inr (if rb_entity u Srb0 = None then None else Some Srb0)
      else c_bind (pos_of_lcid u ch) (\<lambda>p. Inr (case p of None \<Rightarrow> None | Some p \<Rightarrow> if rb_entity u p = None then None else Some p)))"

definition release_rlc_entity_from_lcid :: "nr_rlc_ue \<Rightarrow> nat \<Rightarrow> nr_rlc_ue c_result" where
  "release_rlc_entity_from_lcid u ch =
     c_bind (c_check AssertFail (ch \<noteq> 0)) (\<lambda>_.
     c_bind (pos_of_lcid u ch) (\<lambda>p.
     case p of None \<Rightarrow> Inr u | Some p \<Rightarrow> if rb_entity u p = None then Inr u else Inr (rb_clear u p)))"

fun find_lcid :: "(nr_lcid_rb \<Rightarrow> bool) \<Rightarrow> nat \<Rightarrow> nr_lcid_rb list \<Rightarrow> nat" where
  "find_lcid p i [] = 0"
| "find_lcid p i (x # xs) = (if p x then i else find_lcid p (i + 1) xs)"

definition nr_rlc_get_lcid_from_rb :: "nr_rlc_ue_manager \<Rightarrow> int \<Rightarrow> bool \<Rightarrow> int \<Rightarrow> nr_rlc_ue_manager \<times> nat" where
  "nr_rlc_get_lcid_from_rb m k is_srb rb =
     (let (m1, i) = nr_rlc_manager_get_ue m k
      in (m1, find_lcid (\<lambda>x. x = (if is_srb then NR_LCID_SRB rb else NR_LCID_DRB rb)) 1 (lcid2rb (rlc_ue_list m1 ! i))))"

definition nr_rlc_release_entity :: "nr_rlc_ue_manager \<Rightarrow> int \<Rightarrow> nat \<Rightarrow> nr_rlc_ue_manager c_result" where
  "nr_rlc_release_entity m k ch =
     (let (m1, i) = nr_rlc_manager_get_ue m k; u = rlc_ue_list m1 ! i
      in if ch = 0 then Inr (put_rlc_ue m1 i (rb_clear u Srb0))
         else c_bind (release_rlc_entity_from_lcid u ch) (\<lambda>u. Inr (put_rlc_ue m1 i u)))"

subsection \<open>What the callbacks do\<close>

datatype rlc_message =
    F1apUlRrc u64 int nat "byte list"          \<comment> \<open>CU identity, DU identity, SRB: to the F1 task\<close>
  | GtpuSend int nat "byte list"               \<comment> \<open>identity, DRB: \<^verbatim>\<open>gtpv1uSendDirect\<close>\<close>
  | PdcpDataInd u64 bool bool nat "byte list"  \<comment> \<open>identity, gNB, SRB or DRB, its number: \<^verbatim>\<open>nr_pdcp_data_ind\<close>\<close>
  | InitialUlRrc int "byte list"               \<comment> \<open>\<^verbatim>\<open>send_initial_ul_rrc_message\<close>\<close>
  | RadioLinkFailure nat int                   \<comment> \<open>the handler is called with the UE\<close>

text \<open>
  \<^verbatim>\<open>deliver_sdu\<close>, and \<^verbatim>\<open>deliver_sdu_srb0\<close> for SRB 0. The loops over the pointers find the place where the
  calling entity is.
\<close>

definition deliver_sdu :: "rlc_env \<Rightarrow> nr_rlc_ue_manager \<Rightarrow> nr_rlc_ue \<Rightarrow> bool \<Rightarrow> nat \<Rightarrow> byte list \<Rightarrow> rlc_message c_result" where
  "deliver_sdu env m u is_srb rb_id buf =
     (let is_gnb = nr_rlc_manager_get_gnb_flag m
      in c_bind (if is_gnb
                 then c_bind (du_get_f1_ue_data (env_f1_ids env) (word_of_int (rlc_ue_id u))) (\<lambda>d. Inr (ucast (secondary_ue d)))
                 else Inr (word_of_int (rlc_ue_id u))) (\<lambda>rntiMaybeUEid.
         if is_gnb \<and> nr_rlc_manager_rlc_is_split m
         then if is_srb then Inr (F1apUlRrc rntiMaybeUEid (rlc_ue_id u) rb_id buf)
              else c_bind (c_check AssertFail (env_f1_inst env)) (\<lambda>_. Inr (GtpuSend (rlc_ue_id u) rb_id buf))
         else Inr (PdcpDataInd rntiMaybeUEid is_gnb is_srb rb_id buf)))"

text \<open>The entity that calls back is an SRB at 0 or 1 or a DRB, otherwise the process ends.\<close>

fun found_srb12_or_drb :: "rb_pos \<Rightarrow> unit c_result" where
  "found_srb12_or_drb (Srb j) = c_check ProcessExit (j < 2)"
| "found_srb12_or_drb (Drb j) = Inr ()"
| "found_srb12_or_drb Srb0 = Inl ProcessExit"

definition successful_delivery :: "rb_pos \<Rightarrow> unit c_result" where
  "successful_delivery p = found_srb12_or_drb p"

definition max_retx_reached :: "nr_rlc_ue \<Rightarrow> rb_pos \<Rightarrow> rlc_message list c_result" where
  "max_retx_reached u p =
     c_bind (found_srb12_or_drb p) (\<lambda>_. Inr (case rlf_handler u of Some h \<Rightarrow> [RadioLinkFailure h (rlc_ue_id u)] | None \<Rightarrow> []))"

fun rlc_callback :: "rlc_env \<Rightarrow> nr_rlc_ue_manager \<Rightarrow> nr_rlc_ue \<Rightarrow> rb_pos \<Rightarrow> am_output \<Rightarrow> rlc_message list c_result" where
  "rlc_callback env m u Srb0 (AmDeliver buf) = Inr (case rlc_srb0 u of Some (_, d) \<Rightarrow> [InitialUlRrc d buf] | None \<Rightarrow> [])"
| "rlc_callback env m u (Srb j) (AmDeliver buf) = c_bind (deliver_sdu env m u True (j + 1) buf) (\<lambda>x. Inr [x])"
| "rlc_callback env m u (Drb j) (AmDeliver buf) = c_bind (deliver_sdu env m u False (j + 1) buf) (\<lambda>x. Inr [x])"
| "rlc_callback env m u p (AmAcked _) = c_bind (successful_delivery p) (\<lambda>_. Inr [])"
| "rlc_callback env m u p AmMaxRetx = max_retx_reached u p"

fun rlc_callbacks :: "rlc_env \<Rightarrow> nr_rlc_ue_manager \<Rightarrow> nr_rlc_ue \<Rightarrow> rb_pos \<Rightarrow> am_output list \<Rightarrow> rlc_message list c_result" where
  "rlc_callbacks env m u p [] = Inr []"
| "rlc_callbacks env m u p (x # xs) =
     c_bind (rlc_callback env m u p x) (\<lambda>a. c_bind (rlc_callbacks env m u p xs) (\<lambda>b. Inr (a @ b)))"

subsection \<open>Calls on an entity\<close>

text \<open>A function of the entity at a place of the UE at a position; its callbacks follow.\<close>

definition on_entity ::
  "rlc_env \<Rightarrow> nr_rlc_ue_manager \<Rightarrow> nat \<Rightarrow> rb_pos \<Rightarrow> (rlc_entity \<Rightarrow> ('a \<times> rlc_entity \<times> am_output list) c_result)
     \<Rightarrow> (nr_rlc_ue_manager \<times> rlc_message list \<times> 'a) c_result" where
  "on_entity env m i p f =
     (let u = rlc_ue_list m ! i
      in case rb_entity u p of
           None \<Rightarrow> Inl NullDeref
         | Some e \<Rightarrow> c_bind (f e) (\<lambda>(x, e', ups).
             c_bind (rlc_callbacks env m u p ups) (\<lambda>msgs. Inr (put_rlc_ue m i (rb_update u p e'), msgs, x))))"

text \<open>\<^verbatim>\<open>set_time\<close> with the current time, and then a function of the entity.\<close>

definition timed :: "u64 \<Rightarrow> (rlc_entity \<Rightarrow> ('a \<times> rlc_entity \<times> am_output list) c_result)
    \<Rightarrow> rlc_entity \<Rightarrow> ('a \<times> rlc_entity \<times> am_output list) c_result" where
  "timed now f e =
     c_bind (rlc_set_time e now) (\<lambda>(e, ups1). c_bind (f e) (\<lambda>(x, e, ups2). Inr (x, e, ups1 @ ups2)))"

text \<open>The PDUs of a transport block, in order.\<close>

definition recv_pdu_call :: "byte list \<Rightarrow> rlc_entity \<Rightarrow> (unit \<times> rlc_entity \<times> am_output list) c_result" where
  "recv_pdu_call buf e = c_bind (rlc_recv_pdu e buf) (\<lambda>(e, ups). Inr ((), e, ups))"

fun data_ind_loop ::
  "rlc_env \<Rightarrow> nr_rlc_ue_manager \<Rightarrow> nat \<Rightarrow> (nat \<times> byte list) list \<Rightarrow> (nr_rlc_ue_manager \<times> rlc_message list) c_result" where
  "data_ind_loop env m i [] = Inr (m, [])"
| "data_ind_loop env m i ((ch, buf) # data) =
     c_bind (get_rlc_entity_from_lcid (rlc_ue_list m ! i) ch) (\<lambda>rb.
     c_bind (case rb of None \<Rightarrow> Inr (m, [], ()) | Some p \<Rightarrow> on_entity env m i p (timed (env_now env) (recv_pdu_call buf))) (\<lambda>(m, msgs, _).
     c_bind (data_ind_loop env m i data) (\<lambda>(m, msgs'). Inr (m, msgs @ msgs'))))"

definition nr_mac_rlc_data_ind ::
  "rlc_env \<Rightarrow> nr_rlc_ue_manager \<Rightarrow> int \<Rightarrow> (nat \<times> byte list) list \<Rightarrow> (nr_rlc_ue_manager \<times> rlc_message list) c_result" where
  "nr_mac_rlc_data_ind env m k data = (let (m1, i) = nr_rlc_manager_get_ue m k in data_ind_loop env m1 i data)"

text \<open>
  The loop that fills a transport block: 3 bytes are left in front of each PDU. \<open>n\<close> is what is left of
  \<^verbatim>\<open>pdu_siz_len\<close>; a size is never negative.
\<close>

fun multi_data_loop :: "u64 \<Rightarrow> nat \<Rightarrow> byte list \<Rightarrow> rlc_entity \<Rightarrow> (int list \<times> byte list \<times> rlc_entity) c_result" where
  "multi_data_loop wall 0 buf e = Inr ([], buf, e)"
| "multi_data_loop wall (Suc n) buf e =
     (if length buf \<le> 3 then Inr ([], buf, e)
      else c_bind (rlc_generate_pdu wall e (drop 3 buf)) (\<lambda>(size, out, e).
           if size = 0 then Inr ([], take 3 buf @ out, e)
           else c_bind (multi_data_loop wall n (drop (nat size) out) e) (\<lambda>(sizes, rest, e).
                Inr (size # sizes, take 3 buf @ take (nat size) out @ rest, e))))"

definition multi_data_call :: "rlc_env \<Rightarrow> nat \<Rightarrow> byte list \<Rightarrow> rlc_entity \<Rightarrow> ((int list \<times> byte list) \<times> rlc_entity \<times> am_output list) c_result" where
  "multi_data_call env n buf e = c_bind (multi_data_loop (env_wall env) n buf e) (\<lambda>(sizes, out, e). Inr ((sizes, out), e, []))"

text \<open>The result is what is in \<^verbatim>\<open>pdu_siz\<close>, whose length is returned, and the buffer.\<close>

definition nr_mac_rlc_multi_data_req ::
  "rlc_env \<Rightarrow> nr_rlc_ue_manager \<Rightarrow> int \<Rightarrow> nat \<Rightarrow> byte list \<Rightarrow> int
     \<Rightarrow> (nr_rlc_ue_manager \<times> rlc_message list \<times> (int list \<times> byte list)) c_result" where
  "nr_mac_rlc_multi_data_req env m k ch buf pdu_siz_len =
     (let (m1, i) = nr_rlc_manager_get_ue m k
      in c_bind (get_rlc_entity_from_lcid (rlc_ue_list m1 ! i) ch) (\<lambda>rb.
         case rb of
           None \<Rightarrow> Inr (m1, [], ([], buf))
         | Some p \<Rightarrow> on_entity env m1 i p (timed (env_now env) (multi_data_call env (nat pdu_siz_len) buf))))"

definition nr_mac_rlc_data_req ::
  "rlc_env \<Rightarrow> nr_rlc_ue_manager \<Rightarrow> int \<Rightarrow> nat \<Rightarrow> byte list \<Rightarrow> (nr_rlc_ue_manager \<times> rlc_message list \<times> (int \<times> byte list)) c_result" where
  "nr_mac_rlc_data_req env m k ch buf =
     (let (m1, i) = nr_rlc_manager_get_ue m k
      in c_bind (get_rlc_entity_from_lcid (rlc_ue_list m1 ! i) ch) (\<lambda>rb.
         case rb of
           None \<Rightarrow> Inr (m1, [], (0, buf))
         | Some p \<Rightarrow> on_entity env m1 i p (timed (env_now env) (\<lambda>e.
             c_bind (rlc_generate_pdu (env_wall env) e buf) (\<lambda>(size, out, e). Inr ((size, out), e, []))))))"

text \<open>The bytes in the buffer, the only field of the answer that is not 0.\<close>

definition status_call :: "rlc_entity \<Rightarrow> (int \<times> rlc_entity \<times> am_output list) c_result" where
  "status_call e =
     c_bind (rlc_buffer_status e (1000 * 1000)) (\<lambda>b. Inr (bs_status_size b + bs_retx_size b + bs_tx_size b, e, []))"

fun status_ind_loop ::
  "rlc_env \<Rightarrow> nr_rlc_ue_manager \<Rightarrow> nat \<Rightarrow> nat list \<Rightarrow> (nr_rlc_ue_manager \<times> rlc_message list \<times> int list) c_result" where
  "status_ind_loop env m i [] = Inr (m, [], [])"
| "status_ind_loop env m i (ch # chs) =
     c_bind (get_rlc_entity_from_lcid (rlc_ue_list m ! i) ch) (\<lambda>rb.
     c_bind (case rb of None \<Rightarrow> Inr (m, [], 0) | Some p \<Rightarrow> on_entity env m i p (timed (env_now env) status_call)) (\<lambda>(m, msgs, x).
     c_bind (status_ind_loop env m i chs) (\<lambda>(m, msgs', xs). Inr (m, msgs @ msgs', x # xs))))"

definition nr_mac_rlc_status_ind ::
  "rlc_env \<Rightarrow> nr_rlc_ue_manager \<Rightarrow> int \<Rightarrow> nat list \<Rightarrow> (nr_rlc_ue_manager \<times> rlc_message list \<times> int list) c_result" where
  "nr_mac_rlc_status_ind env m k chs = (let (m1, i) = nr_rlc_manager_get_ue m k in status_ind_loop env m1 i chs)"

text \<open>The bearer that PDCP names: SRB 1 and 2 only, and every DRB.\<close>

definition rb_of_pdcp :: "bool \<Rightarrow> int \<Rightarrow> rb_pos option" where
  "rb_of_pdcp srb_flag rb =
     (if srb_flag then (if 1 \<le> rb \<and> rb \<le> 2 then Some (Srb (nat (rb - 1))) else None)
      else if 1 \<le> rb \<and> rb \<le> int RLC_MAX_DRBS then Some (Drb (nat (rb - 1))) else None)"

definition recv_sdu_call :: "rlc_env \<Rightarrow> byte list \<Rightarrow> int \<Rightarrow> rlc_entity \<Rightarrow> (unit \<times> rlc_entity \<times> am_output list) c_result" where
  "recv_sdu_call env buf mui e = c_bind (rlc_recv_sdu (env_wall env) e buf mui) (\<lambda>e. Inr ((), e, []))"

definition nr_rlc_data_req ::
  "rlc_env \<Rightarrow> nr_rlc_ue_manager \<Rightarrow> int \<Rightarrow> bool \<Rightarrow> int \<Rightarrow> int \<Rightarrow> byte list
     \<Rightarrow> (nr_rlc_ue_manager \<times> rlc_message list \<times> unit) c_result" where
  "nr_rlc_data_req env m k srb_flag rb mui sdu =
     (let (m1, i) = nr_rlc_manager_get_ue m k
      in case rb_of_pdcp srb_flag rb of
           Some p \<Rightarrow> if rb_entity (rlc_ue_list m1 ! i) p = None then Inr (m1, [], ())
                     else on_entity env m1 i p (timed (env_now env) (recv_sdu_call env sdu mui))
         | None \<Rightarrow> Inr (m1, [], ()))"

definition nr_rlc_srb_recv_sdu ::
  "rlc_env \<Rightarrow> nr_rlc_ue_manager \<Rightarrow> int \<Rightarrow> nat \<Rightarrow> byte list \<Rightarrow> (nr_rlc_ue_manager \<times> rlc_message list \<times> unit) c_result" where
  "nr_rlc_srb_recv_sdu env m k ch buf =
     (let (m1, i) = nr_rlc_manager_get_ue m k; p = (if ch = 0 then Srb0 else Srb (ch - 1))
      in if 3 < ch then Inl OutOfBounds
         else c_bind (c_check AssertFail (rb_entity (rlc_ue_list m1 ! i) p \<noteq> None)) (\<lambda>_.
              on_entity env m1 i p (timed (env_now env) (recv_sdu_call env buf (- 1)))))"

definition nr_rlc_get_available_tx_space :: "nr_rlc_ue_manager \<Rightarrow> int \<Rightarrow> nat \<Rightarrow> (nr_rlc_ue_manager \<times> int) c_result" where
  "nr_rlc_get_available_tx_space m k ch =
     (let (m1, i) = nr_rlc_manager_get_ue m k; u = rlc_ue_list m1 ! i
      in c_bind (get_rlc_entity_from_lcid u ch) (\<lambda>rb. Inr (m1, case rb of None \<Rightarrow> - 1
           | Some p \<Rightarrow> (case rb_entity u p of Some e \<Rightarrow> rlc_available_tx_space e | None \<Rightarrow> - 1))))"

definition nr_rlc_tx_list_occupancy :: "nr_rlc_ue_manager \<Rightarrow> int \<Rightarrow> nat \<Rightarrow> (nr_rlc_ue_manager \<times> int) c_result" where
  "nr_rlc_tx_list_occupancy m k ch =
     (let (m1, i) = nr_rlc_manager_get_ue m k; u = rlc_ue_list m1 ! i
      in c_bind (get_rlc_entity_from_lcid u ch) (\<lambda>rb. Inr (m1, case rb of None \<Rightarrow> 0
           | Some p \<Rightarrow> (case rb_entity u p of Some e \<Rightarrow> rlc_tx_list_occupancy e | None \<Rightarrow> 0))))"

end
