(* ===== verification/Rlc_Api_Config.thy ===== *)
theory Rlc_Api_Config
  imports Rlc_Api
begin

text \<open>
  The calls of \<^verbatim>\<open>nr_rlc_oai_api.c\<close> by which RRC and MAC set up, change, re-establish and watch the entities of RLC.
\<close>

definition RLC_TX_MAXSIZE :: int where "RLC_TX_MAXSIZE = 10000000"
definition RLC_RX_MAXSIZE :: int where "RLC_RX_MAXSIZE = 10000000"

subsection \<open>The fields of the ASN.1 structures\<close>

record nr_ul_am_rlc =
  ul_am_sn_FieldLength :: "int option"
  t_PollRetransmit :: int
  pollPDU :: int
  pollByte :: int
  maxRetxThreshold :: int

record nr_dl_am_rlc =
  dl_am_sn_FieldLength :: "int option"
  dl_am_t_Reassembly :: int
  t_StatusProhibit :: int

record nr_dl_um_rlc =
  dl_um_sn_FieldLength :: "int option"
  dl_um_t_Reassembly :: int

datatype nr_rlc_config =
    RlcConfigAm nr_ul_am_rlc nr_dl_am_rlc
  | RlcConfigUmBi "int option" nr_dl_um_rlc   \<comment> \<open>the length of the uplink, which has nothing else\<close>
  | RlcConfigOther                            \<comment> \<open>one of the unidirectional choices, or none\<close>

datatype served_radio_bearer = ServedSrb int | ServedDrb int

record nr_rlc_bearer_config =
  rlc_Config :: "nr_rlc_config option"
  servedRadioBearer :: "served_radio_bearer option"
  logicalChannelIdentity :: int

text \<open>What the configuration of an AM entity decodes to.\<close>

record am_parameters =
  p_t_poll_retransmit :: int
  p_t_reassembly :: int
  p_t_status_prohibit :: int
  p_poll_pdu :: int
  p_poll_byte :: int
  p_max_retx_threshold :: int

definition decode_am_parameters :: "nr_ul_am_rlc \<Rightarrow> nr_dl_am_rlc \<Rightarrow> am_parameters c_result" where
  "decode_am_parameters ul dl =
     c_bind (decode_t_reassembly (dl_am_t_Reassembly dl)) (\<lambda>t_reassembly.
     c_bind (decode_t_status_prohibit (t_StatusProhibit dl)) (\<lambda>t_status_prohibit.
     c_bind (decode_t_poll_retransmit (t_PollRetransmit ul)) (\<lambda>t_poll_retransmit.
     c_bind (decode_poll_pdu (pollPDU ul)) (\<lambda>poll_pdu.
     c_bind (decode_poll_byte (pollByte ul)) (\<lambda>poll_byte.
     c_bind (decode_max_retx_threshold (maxRetxThreshold ul)) (\<lambda>max_retx_threshold.
     Inr \<lparr>p_t_poll_retransmit = t_poll_retransmit, p_t_reassembly = t_reassembly, p_t_status_prohibit = t_status_prohibit,
          p_poll_pdu = poll_pdu, p_poll_byte = poll_byte, p_max_retx_threshold = max_retx_threshold\<rparr>))))))"

text \<open>The default values of 9.2.1 of TS 38.331.\<close>

definition default_am_parameters :: am_parameters where
  "default_am_parameters =
     \<lparr>p_t_poll_retransmit = 45, p_t_reassembly = 35, p_t_status_prohibit = 0, p_poll_pdu = - 1, p_poll_byte = - 1,
      p_max_retx_threshold = 8\<rparr>"

definition new_am :: "am_parameters \<Rightarrow> int \<Rightarrow> rlc_entity c_result" where
  "new_am p sn_field_length =
     c_bind (new_nr_rlc_entity_am RLC_RX_MAXSIZE RLC_TX_MAXSIZE (p_t_poll_retransmit p) (p_t_reassembly p)
               (p_t_status_prohibit p) (p_poll_pdu p) (p_poll_byte p) (p_max_retx_threshold p) sn_field_length)
       (\<lambda>e. Inr (RlcAm e))"

definition reconfigure_am :: "nr_rlc_entity_am \<Rightarrow> am_parameters \<Rightarrow> int option \<Rightarrow> nr_rlc_entity_am" where
  "reconfigure_am e p sn =
     nr_rlc_entity_am_reconfigure e (p_t_poll_retransmit p) (p_t_reassembly p) (p_t_status_prohibit p) (p_poll_pdu p)
       (p_poll_byte p) (p_max_retx_threshold p) sn"

text \<open>Two lengths that a new bearer needs, and that have to be the same.\<close>

definition same_sn_length :: "(int \<Rightarrow> int c_result) \<Rightarrow> int option \<Rightarrow> int option \<Rightarrow> int c_result" where
  "same_sn_length decode dl ul =
     c_bind (deref dl) (\<lambda>d. c_bind (deref ul) (\<lambda>u. if d \<noteq> u then Inl ProcessExit else decode d))"

text \<open>Two lengths that a reconfiguration may have: both or none.\<close>

definition optional_sn_length :: "(int \<Rightarrow> int c_result) \<Rightarrow> int option \<Rightarrow> int option \<Rightarrow> int option c_result" where
  "optional_sn_length decode dl ul =
     (case (dl, ul) of
        (Some d, Some u) \<Rightarrow> c_bind (c_check AssertFail (d = u)) (\<lambda>_. c_bind (decode d) (\<lambda>n. Inr (Some n)))
      | (None, None) \<Rightarrow> Inr None
      | _ \<Rightarrow> Inl AssertFail)"

subsection \<open>Adding bearers\<close>

text \<open>The entry of the logical channel, made before the entity is looked at.\<close>

definition set_lcid2rb :: "nr_rlc_ue \<Rightarrow> int \<Rightarrow> nr_lcid_rb \<Rightarrow> nr_rlc_ue c_result" where
  "set_lcid2rb u lcid x =
     (let local_id = lcid - 1
      in if local_id < 0 \<or> 32 \<le> local_id then Inl OutOfBounds else Inr (u\<lparr>lcid2rb := (lcid2rb u)[nat local_id := x]\<rparr>))"

definition nr_rlc_add_srb :: "nr_rlc_ue_manager \<Rightarrow> int \<Rightarrow> int \<Rightarrow> nr_rlc_bearer_config \<Rightarrow> nr_rlc_ue_manager c_result" where
  "nr_rlc_add_srb m k srb_id cfg =
     c_bind (c_check AssertFail (0 < srb_id \<and> srb_id < 4)) (\<lambda>_.
     c_bind (case rlc_Config cfg of
               Some (RlcConfigAm ul dl) \<Rightarrow>
                 c_bind (decode_am_parameters ul dl) (\<lambda>p.
                 c_bind (same_sn_length decode_sn_field_length_am (dl_am_sn_FieldLength dl) (ul_am_sn_FieldLength ul)) (\<lambda>n.
                 Inr (p, n)))
             | _ \<Rightarrow> Inr (default_am_parameters, 12)) (\<lambda>(p, sn_field_length).
     let (m1, i) = nr_rlc_manager_get_ue m k; u = rlc_ue_list m1 ! i
     in case servedRadioBearer cfg of
          Some (ServedSrb n) \<Rightarrow>
            c_bind (set_lcid2rb u (logicalChannelIdentity cfg) (NR_LCID_SRB n)) (\<lambda>u.
            if rlc_srb u ! nat (srb_id - 1) \<noteq> None then Inr (put_rlc_ue m1 i u)
            else c_bind (new_am p sn_field_length) (\<lambda>e.
                 c_bind (nr_rlc_ue_add_srb_rlc_entity u srb_id e 0) (\<lambda>u. Inr (put_rlc_ue m1 i u))))
        | _ \<Rightarrow> Inl AssertFail))"

text \<open>The common part of \<^verbatim>\<open>add_drb_am\<close> and \<^verbatim>\<open>add_drb_um\<close> after the configuration is read.\<close>

definition add_drb_entity ::
  "nr_rlc_ue_manager \<Rightarrow> int \<Rightarrow> int \<Rightarrow> nr_rlc_bearer_config \<Rightarrow> rlc_entity c_result \<Rightarrow> nr_rlc_ue_manager c_result" where
  "add_drb_entity m k drb_id cfg new_entity =
     (let (m1, i) = nr_rlc_manager_get_ue m k; u = rlc_ue_list m1 ! i
      in case servedRadioBearer cfg of
           Some (ServedDrb n) \<Rightarrow>
             c_bind (set_lcid2rb u (logicalChannelIdentity cfg) (NR_LCID_DRB n)) (\<lambda>u.
             if rlc_drb u ! nat (drb_id - 1) \<noteq> None then Inr (put_rlc_ue m1 i u)
             else c_bind new_entity (\<lambda>e.
                  c_bind (nr_rlc_ue_add_drb_rlc_entity u drb_id e) (\<lambda>u. Inr (put_rlc_ue m1 i u))))
         | _ \<Rightarrow> Inl AssertFail)"

definition add_drb_am :: "nr_rlc_ue_manager \<Rightarrow> int \<Rightarrow> int \<Rightarrow> nr_rlc_bearer_config \<Rightarrow> nr_rlc_ue_manager c_result" where
  "add_drb_am m k drb_id cfg =
     c_bind (c_check AssertFail (0 < drb_id \<and> drb_id \<le> int RLC_MAX_DRBS)) (\<lambda>_.
     c_bind (deref (rlc_Config cfg)) (\<lambda>r.
     case r of
       RlcConfigAm ul dl \<Rightarrow>
         c_bind (decode_am_parameters ul dl) (\<lambda>p.
         c_bind (same_sn_length decode_sn_field_length_am (dl_am_sn_FieldLength dl) (ul_am_sn_FieldLength ul)) (\<lambda>n.
         add_drb_entity m k drb_id cfg (new_am p n)))
     | _ \<Rightarrow> Inl ProcessExit))"

definition add_drb_um :: "nr_rlc_ue_manager \<Rightarrow> int \<Rightarrow> int \<Rightarrow> nr_rlc_bearer_config \<Rightarrow> nr_rlc_ue_manager c_result" where
  "add_drb_um m k drb_id cfg =
     c_bind (c_check AssertFail (0 < drb_id \<and> drb_id \<le> int RLC_MAX_DRBS)) (\<lambda>_.
     c_bind (deref (rlc_Config cfg)) (\<lambda>r.
     case r of
       RlcConfigUmBi ul dl \<Rightarrow>
         c_bind (decode_t_reassembly (dl_um_t_Reassembly dl)) (\<lambda>t_reassembly.
         c_bind (same_sn_length decode_sn_field_length_um (dl_um_sn_FieldLength dl) ul) (\<lambda>n.
         add_drb_entity m k drb_id cfg
           (c_bind (new_nr_rlc_entity_um RLC_RX_MAXSIZE RLC_TX_MAXSIZE t_reassembly n) (\<lambda>e. Inr (RlcUm e)))))
     | _ \<Rightarrow> Inl ProcessExit))"

definition nr_rlc_add_drb :: "nr_rlc_ue_manager \<Rightarrow> int \<Rightarrow> int \<Rightarrow> nr_rlc_bearer_config \<Rightarrow> nr_rlc_ue_manager c_result" where
  "nr_rlc_add_drb m k drb_id cfg =
     c_bind (deref (rlc_Config cfg)) (\<lambda>r.
     case r of
       RlcConfigAm _ _ \<Rightarrow> add_drb_am m k drb_id cfg
     | RlcConfigUmBi _ _ \<Rightarrow> add_drb_um m k drb_id cfg
     | RlcConfigOther \<Rightarrow> Inl ProcessExit)"

definition nr_rlc_activate_srb0 :: "nr_rlc_ue_manager \<Rightarrow> int \<Rightarrow> (nr_rlc_ue_manager \<times> bool) c_result" where
  "nr_rlc_activate_srb0 m k =
     (let (m1, i) = nr_rlc_manager_get_ue m k; u = rlc_ue_list m1 ! i
      in if rlc_srb0 u \<noteq> None then Inr (m1, False)
         else c_bind (new_nr_rlc_entity_tm 10000) (\<lambda>e.
              c_bind (nr_rlc_ue_add_srb_rlc_entity u 0 (RlcTm e) k) (\<lambda>u. Inr (put_rlc_ue m1 i u, True))))"

subsection \<open>Changing bearers\<close>

definition nr_rlc_remove_ue :: "nr_rlc_ue_manager \<Rightarrow> int \<Rightarrow> nr_rlc_ue_manager" where
  "nr_rlc_remove_ue m k = fst (nr_rlc_manager_remove_ue m k)"

definition nr_rlc_set_rlf_handler :: "nr_rlc_ue_manager \<Rightarrow> int \<Rightarrow> nat option \<Rightarrow> nr_rlc_ue_manager" where
  "nr_rlc_set_rlf_handler m k h =
     (let (m1, i) = nr_rlc_manager_get_ue m k in put_rlc_ue m1 i ((rlc_ue_list m1 ! i)\<lparr>rlf_handler := h\<rparr>))"

text \<open>A change of the entity at a place; the pointer there is not NULL.\<close>

definition change_entity :: "nr_rlc_ue \<Rightarrow> rb_pos \<Rightarrow> (rlc_entity \<Rightarrow> rlc_entity c_result) \<Rightarrow> nr_rlc_ue c_result" where
  "change_entity u p f = c_bind (deref (rb_entity u p)) (\<lambda>e. c_bind (f e) (\<lambda>e'. Inr (rb_update u p e')))"

definition nr_rlc_reestablish_entity :: "nr_rlc_ue_manager \<Rightarrow> int \<Rightarrow> nat \<Rightarrow> nr_rlc_ue_manager c_result" where
  "nr_rlc_reestablish_entity m k lc_id =
     (let (m1, i) = nr_rlc_manager_get_ue m k; u = rlc_ue_list m1 ! i
      in c_bind (get_rlc_entity_from_lcid u lc_id) (\<lambda>rb.
         case rb of
           Some p \<Rightarrow> c_bind (change_entity u p rlc_reestablishment) (\<lambda>u. Inr (put_rlc_ue m1 i u))
         | None \<Rightarrow> Inr m1))"

text \<open>\<^verbatim>\<open>update_id\<close> finds the UE or makes it: the test for NULL never fails.\<close>

definition nr_rlc_update_id :: "nr_rlc_ue_manager \<Rightarrow> int \<Rightarrow> int \<Rightarrow> nr_rlc_ue_manager c_result" where
  "nr_rlc_update_id m from_id to_id =
     (let (m1, i) = nr_rlc_manager_get_ue m from_id;
          u = (rlc_ue_list m1 ! i)\<lparr>rlc_ue_id := to_id\<rparr>
      in if rb_entity u (Srb 0) = None then Inr (put_rlc_ue m1 i u)
         else c_bind (change_entity u (Srb 0) rlc_reestablishment) (\<lambda>u. Inr (put_rlc_ue m1 i u)))"

definition nr_rlc_test_trigger_reestablishment :: "nr_rlc_ue_manager \<Rightarrow> int \<Rightarrow> nr_rlc_ue_manager c_result" where
  "nr_rlc_test_trigger_reestablishment m k =
     (let (m1, i) = nr_rlc_manager_get_ue m k; u = rlc_ue_list m1 ! i
      in c_bind (change_entity u (Srb 0) rlc_reestablishment) (\<lambda>u.
         c_bind (if rb_entity u (Drb 0) = None then Inr u else change_entity u (Drb 0) rlc_reestablishment) (\<lambda>u.
         Inr (put_rlc_ue m1 i u))))"

text \<open>The functions of the mode are called on what the statistics call an AM or a UM entity.\<close>

fun reconfigure_as :: "nr_rlc_config option \<Rightarrow> rlc_entity \<Rightarrow> rlc_entity c_result" where
  "reconfigure_as None (RlcAm e) = Inr (RlcAm (reconfigure_am e default_am_parameters (Some 12)))"
| "reconfigure_as None _ = Inl AssertFail"
| "reconfigure_as (Some (RlcConfigAm ul dl)) (RlcAm e) =
     c_bind (decode_am_parameters ul dl) (\<lambda>p.
     c_bind (optional_sn_length decode_sn_field_length_am (dl_am_sn_FieldLength dl) (ul_am_sn_FieldLength ul)) (\<lambda>sn.
     Inr (RlcAm (reconfigure_am e p sn))))"
| "reconfigure_as (Some (RlcConfigUmBi ul dl)) (RlcUm e) =
     c_bind (decode_t_reassembly (dl_um_t_Reassembly dl)) (\<lambda>t_reassembly.
     c_bind (optional_sn_length decode_sn_field_length_um (dl_um_sn_FieldLength dl) ul) (\<lambda>sn.
     Inr (RlcUm (nr_rlc_entity_um_reconfigure e t_reassembly sn))))"
| "reconfigure_as (Some _) _ = Inl AssertFail"

definition nr_rlc_reconfigure_entity :: "nr_rlc_ue_manager \<Rightarrow> int \<Rightarrow> nat \<Rightarrow> nr_rlc_config option \<Rightarrow> nr_rlc_ue_manager c_result" where
  "nr_rlc_reconfigure_entity m k lc_id cfg =
     (let (m1, i) = nr_rlc_manager_get_ue m k; u = rlc_ue_list m1 ! i
      in c_bind (get_rlc_entity_from_lcid u lc_id) (\<lambda>rb.
         c_bind (deref rb) (\<lambda>p.
         c_bind (change_entity u p (reconfigure_as cfg)) (\<lambda>u. Inr (put_rlc_ue m1 i u)))))"

subsection \<open>Statistics\<close>

definition nr_rlc_activate_avg_time_to_tx :: "nr_rlc_ue_manager \<Rightarrow> int \<Rightarrow> nat \<Rightarrow> bool \<Rightarrow> nr_rlc_ue_manager c_result" where
  "nr_rlc_activate_avg_time_to_tx m k ch is_on =
     (let (m1, i) = nr_rlc_manager_get_ue m k; u = rlc_ue_list m1 ! i;
          rb = (if 1 \<le> ch \<and> ch \<le> 3 then Some (Srb (ch - 1)) else if 4 \<le> ch \<and> ch \<le> 8 then Some (Drb (ch - 4)) else None)
      in case rb of
           None \<Rightarrow> Inr m1
         | Some p \<Rightarrow> if rb_entity u p = None then Inr m1
             else c_bind (change_entity u p (\<lambda>e. let c = rlc_common e in
                    Inr (rlc_set_common (c\<lparr>avg_time_is_on := is_on, avg_time_to_tx := time_average_reset (avg_time_to_tx c)\<rparr>) e)))
                  (\<lambda>u. Inr (put_rlc_ue m1 i u)))"

text \<open>SRB 1 and 2 and DRB 1 to 5 only. The occupancies are those of the buffer status, as 32-bit words.\<close>

definition stats_call :: "u64 \<Rightarrow> rlc_entity \<Rightarrow> (nr_rlc_statistics \<times> rlc_entity) c_result" where
  "stats_call wall e =
     c_bind (rlc_get_stats wall e) (\<lambda>(out, e).
     c_bind (rlc_buffer_status e (256 * 1000)) (\<lambda>b.
     Inr (out\<lparr>rxbuf_occ_bytes := word_of_int (bs_status_size b), txbuf_occ_bytes := word_of_int (bs_tx_size b + bs_retx_size b)\<rparr>, e)))"

definition nr_rlc_get_statistics ::
  "u64 \<Rightarrow> nr_rlc_ue_manager \<Rightarrow> int \<Rightarrow> bool \<Rightarrow> int \<Rightarrow> (nr_rlc_ue_manager \<times> nr_rlc_statistics option) c_result" where
  "nr_rlc_get_statistics wall m k srb_flag rb_id =
     (let (m1, i) = nr_rlc_manager_get_ue m k; u = rlc_ue_list m1 ! i;
          rb = (if srb_flag then (if 1 \<le> rb_id \<and> rb_id \<le> 2 then rb_entity u (Srb (nat (rb_id - 1))) else None)
                else if 1 \<le> rb_id \<and> rb_id \<le> 5 then rb_entity u (Drb (nat (rb_id - 1))) else None);
          p = (if srb_flag then Srb (nat (rb_id - 1)) else Drb (nat (rb_id - 1)))
      in case rb of
           None \<Rightarrow> Inr (m1, None)
         | Some e \<Rightarrow> c_bind (stats_call wall e) (\<lambda>(out, e). Inr (put_rlc_ue m1 i (rb_update u p e), Some out)))"

subsection \<open>Initialisation\<close>

record rlc_module =
  inited :: bool
  inited_ue :: bool
  the_manager :: "nr_rlc_ue_manager option"

definition nr_rlc_module_init :: "rlc_module \<Rightarrow> nr_rlc_op_mode \<Rightarrow> rlc_module c_result" where
  "nr_rlc_module_init s md =
     (let gnb_flag = (md \<noteq> NR_RLC_OP_MODE_UE)
      in if gnb_flag \<and> inited s then Inl ProcessExit
         else if \<not> gnb_flag \<and> inited_ue s then Inl ProcessExit
         else Inr (s\<lparr>inited := inited s \<or> gnb_flag, inited_ue := inited_ue s \<or> \<not> gnb_flag,
                     the_manager := Some (new_nr_rlc_ue_manager md)\<rparr>))"

end
