(* ===== verification/Rlc_Room.thy ===== *)
theory Rlc_Room
  imports Rlc_Entity
begin

text \<open>
  What an entity of RLC writes for a grant fits it, whatever its state: every write goes through an encoder that
  does not leave its buffer, and every copy is checked.
\<close>

definition enc_fits :: "nat \<Rightarrow> nr_rlc_pdu_encoder \<Rightarrow> bool" where
  "enc_fits n enc \<longleftrightarrow> length (enc_buffer enc) = n \<and> enc_byte enc \<le> n"

lemma put_bit_fits: "put_bit enc b = Inr enc' \<Longrightarrow> enc_fits n enc \<Longrightarrow> enc_fits n enc'"
  by (auto simp: put_bit_def enc_fits_def c_bind_eq_Inr_conv c_check_def Let_def split: if_splits)

lemma put_bits_list_fits: "put_bits_list enc bs = Inr enc' \<Longrightarrow> enc_fits n enc \<Longrightarrow> enc_fits n enc'"
  by (induction bs arbitrary: enc) (auto simp: c_bind_eq_Inr_conv dest: put_bit_fits)

lemma put_bits_fits: "nr_rlc_pdu_encoder_put_bits enc v c = Inr enc' \<Longrightarrow> enc_fits n enc \<Longrightarrow> enc_fits n enc'"
  by (auto simp: nr_rlc_pdu_encoder_put_bits_def c_bind_eq_Inr_conv dest: put_bits_list_fits)

lemma init_fits: "enc_fits (length buf) (nr_rlc_pdu_encoder_init buf)"
  by (simp add: enc_fits_def nr_rlc_pdu_encoder_init_def)

lemma buf_write_length: "buf_write dst off src = Inr out \<Longrightarrow> length out = length dst \<and> 0 \<le> off \<and> off + int (length src) \<le> int (length dst)"
  by (auto simp: buf_write_def split: if_splits)

lemma buf_read_length: "buf_read src off n = Inr d \<Longrightarrow> 0 \<le> n \<and> int (length d) = n"
  by (auto simp: buf_read_def split: if_splits)

text \<open>The outcome of a call for a grant of a size.\<close>

definition pdu_fits :: "nat \<Rightarrow> (int \<times> byte list \<times> 'e) c_result \<Rightarrow> bool" where
  "pdu_fits len r \<longleftrightarrow> (case r of Inl _ \<Rightarrow> True | Inr (n, out, _) \<Rightarrow> 0 \<le> n \<and> n \<le> int len \<and> length out = len)"

lemma pdu_fits_simps [simp]:
  "pdu_fits len (Inl f)" "pdu_fits len (Inr (n, out, e)) \<longleftrightarrow> 0 \<le> n \<and> n \<le> int len \<and> length out = len"
  by (simp_all add: pdu_fits_def)

lemma pdu_fits_bind: "(\<And>x. m = Inr x \<Longrightarrow> pdu_fits len (f x)) \<Longrightarrow> pdu_fits len (c_bind m f)"
  by (cases m) auto

lemma pdu_fits_map:
  "pdu_fits len m \<Longrightarrow> (\<And>n out e. 0 \<le> n \<Longrightarrow> n \<le> int len \<Longrightarrow> length out = len \<Longrightarrow> pdu_fits len (f (n, out, e))) \<Longrightarrow> pdu_fits len (c_bind m f)"
  by (cases m) auto

lemma pdu_fitsD: "pdu_fits len (Inr (n, out, e)) \<Longrightarrow> 0 \<le> n \<and> n \<le> int len \<and> length out = len"
  by simp

subsection \<open>Transparent and unacknowledged mode\<close>

lemma tm_generate_fits: "pdu_fits (length buf) (nr_rlc_entity_tm_generate_pdu now e buf)"
proof (cases "tm_tx_list e")
  case (Cons s ss)
  then show ?thesis
    by (auto simp: nr_rlc_entity_tm_generate_pdu_def tm_generate_tx_pdu_def Let_def intro!: pdu_fits_bind
        dest!: buf_read_length buf_write_length)
qed (simp add: nr_rlc_entity_tm_generate_pdu_def tm_generate_tx_pdu_def)

lemma um_serialize_fits:
  assumes "um_serialize_sdu e s buf = Inr (n, out)"
  shows "0 \<le> n \<and> n \<le> int (length buf) \<and> length out = length buf"
proof -
  obtain enc data where enc: "enc_fits (length buf) enc" and data: "0 \<le> seg_size s" "int (length data) = seg_size s"
    and w: "buf_write (enc_buffer enc) (int (enc_byte enc)) data = Inr out" and n: "n = int (enc_byte enc) + seg_size s"
    using assms init_fits [of buf]
    by (auto simp: um_serialize_sdu_def c_bind_eq_Inr_conv split: if_splits dest!: buf_read_length; blast dest: put_bits_fits)
  from buf_write_length [OF w] enc data show ?thesis unfolding n enc_fits_def by auto
qed

lemma um_send_fits: "pdu_fits (length buf) (um_send_segment now e s b buf)"
  by (auto simp: um_send_segment_def Let_def split: prod.splits bool.splits option.splits list.splits
      intro!: pdu_fits_bind dest!: um_serialize_fits)

lemma um_generate_fits: "pdu_fits (length buf) (nr_rlc_entity_um_generate_pdu now e buf)"
  by (auto simp: nr_rlc_entity_um_generate_pdu_def um_generate_tx_pdu_def Let_def um_send_fits
      split: list.splits prod.splits option.splits)

subsection \<open>Acknowledged mode\<close>

lemma include_poll_length: "include_poll e buf = Inr (e', out) \<Longrightarrow> length out = length buf"
  by (auto simp: include_poll_def c_bind_eq_Inr_conv Let_def split: list.splits if_splits)

text \<open>The rules that follow the encoder through a function.\<close>

lemma fits_put:
  assumes "enc_fits len enc" and "\<And>enc'. enc_fits len enc' \<Longrightarrow> pdu_fits len (f enc')"
  shows "pdu_fits len (c_bind (nr_rlc_pdu_encoder_put_bits enc v c) f)"
  using assms put_bits_fits by (auto intro!: pdu_fits_bind)

lemma fits_put_if:
  assumes "enc_fits len enc" and "\<And>enc'. enc_fits len enc' \<Longrightarrow> pdu_fits len (f enc')"
  shows "pdu_fits len (c_bind (if b then nr_rlc_pdu_encoder_put_bits enc v c else Inr enc) f)"
  using fits_put [OF assms] assms by simp

lemma am_serialize_end:
  assumes "buf_read src so n = Inr data" and "buf_write (enc_buffer enc) (int (enc_byte enc)) data = Inr out" and "enc_fits len enc"
  shows "pdu_fits len (c_bind (if p then include_poll e out else Inr (e, out)) (\<lambda>(e, buffer). Inr (int (enc_byte enc) + n, buffer, e)))"
  using buf_read_length [OF assms(1)] buf_write_length [OF assms(2)] assms(3)
  by (auto simp: enc_fits_def intro!: pdu_fits_bind dest!: include_poll_length split: if_splits)

lemma am_serialize_fits: "pdu_fits (length buf) (am_serialize_sdu e s buf p)"
  unfolding am_serialize_sdu_def
  apply (rule pdu_fits_bind)
  apply (rule fits_put [OF init_fits])
  apply ((rule fits_put | rule fits_put_if), assumption)+
  apply (rule pdu_fits_bind)
  apply (rule pdu_fits_bind)
  apply (rule am_serialize_end; assumption)
  done

lemma pdu_fits_record:
  "pdu_fits len m \<Longrightarrow> pdu_fits len (c_bind m (\<lambda>(n, out, e). Inr (n, out, g n e)))"
  by (rule pdu_fits_map) auto

lemma generate_retx_fits: "pdu_fits (length buf) (generate_retx_pdu e buf)"
  unfolding generate_retx_pdu_def
  by (auto simp: Let_def split: list.split prod.split intro!: pdu_fits_bind [of _ _ "\<lambda>(s, e). F s e" for F] pdu_fits_bind [of "put_in_wait_list e s" for e s]
      pdu_fits_record am_serialize_fits)

lemma am_generate_tx_fits: "pdu_fits (length buf) (am_generate_tx_pdu now e buf)"
  unfolding am_generate_tx_pdu_def
  by (auto simp: Let_def split: list.split prod.split intro!: pdu_fits_bind [of _ _ "\<lambda>(s, e). F s e" for F]
      pdu_fits_bind [of "am_assign_sn e s" for e s] pdu_fits_bind [of "put_in_wait_list e s" for e s]
      pdu_fits_map [OF am_serialize_fits] pdu_fits_bind [of "am_sdu e s" for e s])

definition se_fits :: "nat \<Rightarrow> status_enc \<Rightarrow> bool" where
  "se_fits len st \<longleftrightarrow> enc_fits len (se_enc st)"

lemma set_bit_in_length: "set_bit_in buf i b = Inr out \<Longrightarrow> length out = length buf"
  by (auto simp: set_bit_in_def c_bind_eq_Inr_conv)

lemma put_nack_fits:
  assumes "put_nack e st a b c d n = Inr st'" and "se_fits len st"
  shows "se_fits len st'"
  using assms unfolding se_fits_def put_nack_def
  by (auto simp: Let_def c_bind_eq_Inr_conv split: if_splits prod.splits dest!: set_bit_in_length)
    (auto simp: enc_fits_def dest!: put_bits_fits [where n = len])

lemma generate_missing_loop_fits:
  "generate_missing_loop e m cnt sn ln st = Inr (ln', t, st') \<Longrightarrow> se_fits len st \<Longrightarrow> se_fits len st'"
proof (induction e m cnt sn ln st rule: generate_missing_loop.induct)
  case (1 e m cnt sn ln st)
  show ?case
  proof (cases "cnt = 0")
    case True
    with "1.prems" show ?thesis by (simp add: generate_missing_loop.simps)
  next
    case False
    define c so se soe where "c = min cnt 255" and "so = (if sn = md_sn_start m then md_so_start m else 0)"
      and "se = (if c = cnt then md_sn_end m else c_rem (sn + 254) (am_sn_modulus e))"
      and "soe = (if c = cnt then md_so_end m else 0xffff)"
    have p: "(if c = cnt then (md_sn_end m, md_so_end m) else (c_rem (sn + 254) (am_sn_modulus e), 0xffff)) = (se, soe)"
      by (simp add: se_def soe_def)
    note eq = generate_missing_loop.simps [of e m cnt sn ln st, folded c_def so_def, unfolded Let_def, unfolded p]
    note IH = "1.IH" [OF False, folded c_def so_def, unfolded Let_def, unfolded p, OF refl refl refl p [symmetric]]
    show ?thesis
    proof (cases "int (enc_byte (se_enc st)) + nack_size e sn so se soe > int (length (enc_buffer (se_enc st)))")
      case True
      with "1.prems" False show ?thesis unfolding eq by simp
    next
      case room: False
      with "1.prems"(1) False obtain st1 where st1: "put_nack e st sn so se soe (int c) = Inr st1"
        and r: "generate_missing_loop e m (cnt - c) (c_rem (sn + int c) (am_sn_modulus e))
            (if sn \<noteq> se then sn + int c - 1 else sn) st1 = Inr (ln', t, st')"
        unfolding eq by (auto simp: c_bind_eq_Inr_conv)
      show ?thesis by (rule IH [OF room st1 r put_nack_fits [OF st1 "1.prems"(2)]])
    qed
  qed
qed

text \<open>The mark of a report that was cut.\<close>

definition mark_end :: "bool \<Rightarrow> status_enc \<Rightarrow> status_enc c_result" where
  "mark_end tr st =
     (case se_so_end st of
        Some i \<Rightarrow> if tr then c_bind (buf_write (enc_buffer (se_enc st)) (int i) [0xff, 0xff]) (\<lambda>buf.
                       Inr (st\<lparr>se_enc := (se_enc st)\<lparr>enc_buffer := buf\<rparr>\<rparr>)) else Inr st
      | None \<Rightarrow> Inr st)"

lemma mark_end_fits: "mark_end tr st = Inr st' \<Longrightarrow> se_fits len st \<Longrightarrow> se_fits len st'"
  by (auto simp: mark_end_def se_fits_def enc_fits_def c_bind_eq_Inr_conv split: option.splits if_splits dest!: buf_write_length)

lemma status_loop_fits:
  "status_loop k e l b lst st = Inr (ln, st') \<Longrightarrow> se_fits len st \<Longrightarrow> se_fits len st'"
proof (induction k arbitrary: l b lst st)
  case 0
  then show ?case by (cases l) auto
next
  case (Suc k)
  show ?case
  proof (cases l)
    case Nil
    with Suc.prems show ?thesis by simp
  next
    case (Cons c cs)
    with Suc.prems(1) obtain m where r: "(if md_sn_start m = - 1 then Inr (lst, st)
        else c_bind (generate_missing e m st) (\<lambda>(ln1, tr, st).
          c_bind (mark_end tr st) (\<lambda>st. status_loop k e (if tr then [] else md_next m) False (if ln1 \<noteq> - 1 then ln1 else lst) st))) = Inr (ln, st')"
      by (auto simp: c_bind_eq_Inr_conv mark_end_def cong: if_cong)
    show ?thesis
    proof (cases "md_sn_start m = - 1")
      case False
      with r obtain ln1 tr st1 st2 where g: "generate_missing e m st = Inr (ln1, tr, st1)" and w: "mark_end tr st1 = Inr st2"
        and l: "status_loop k e (if tr then [] else md_next m) False (if ln1 \<noteq> - 1 then ln1 else lst) st2 = Inr (ln, st')"
        by (auto simp: c_bind_eq_Inr_conv split del: if_split)
      have "se_fits len st1" by (rule generate_missing_loop_fits [OF g [unfolded generate_missing_def] Suc.prems(2)])
      with w have "se_fits len st2" by (rule mark_end_fits)
      then show ?thesis by (rule Suc.IH [OF l])
    qed (use r Suc.prems(2) in simp)
  qed
qed

lemma generate_status_fits: "pdu_fits (length buf) (generate_status e buf)"
proof (cases "length buf < 3")
  case False
  have "pdu_fits (length buf) (Inr (int (enc_byte (se_enc st)), put_ack_sn a b (enc_buffer (se_enc st)), g))" if "se_fits (length buf) st"
    for st a b and g :: nr_rlc_entity_am
    using that by (auto simp: se_fits_def enc_fits_def put_ack_sn_def)
  with False show ?thesis
    unfolding generate_status_def
    by (auto simp: Let_def se_fits_def intro!: fits_put [OF init_fits] pdu_fits_bind [of "get_first_rx_pdu e" for e]
        pdu_fits_bind [of "status_loop k e l b n st" for k e l b n st] dest!: status_loop_fits [where len = "length buf"])
qed (simp add: generate_status_def)

lemma am_generate_fits: "pdu_fits (length buf) (nr_rlc_entity_am_generate_pdu now e buf)"
proof -
  have tx: "pdu_fits len (am_generate_tx_pdu now e b)" if "length b = len" for len e b
    using am_generate_tx_fits [of b now e] that by simp
  have re: "pdu_fits len (if am_retransmit_list e \<noteq> [] then generate_retx_pdu e b else Inr (0, b, e))" if "length b = len" for len e b
    using generate_retx_fits [of b e] that by auto
  have st: "pdu_fits (length buf) (if status_to_report e then generate_status e buf else Inr (0, buf, e))"
    by (simp add: generate_status_fits)
  show ?thesis
    unfolding nr_rlc_entity_am_generate_pdu_def
  proof (rule pdu_fits_map [OF st])
    fix n :: int and out :: "byte list" and e1
    assume n: "0 \<le> n" "n \<le> int (length buf)" "length out = length buf"
    have "pdu_fits (length buf) (c_bind (if am_retransmit_list e1 \<noteq> [] then generate_retx_pdu e1 out else Inr (0, out, e1))
        (\<lambda>(ret, buf, e). if ret \<noteq> 0 then Inr (ret, buf, e) else am_generate_tx_pdu now e buf))"
      by (rule pdu_fits_map [OF re [OF n(3)]]) (auto intro: tx)
    with n show "pdu_fits (length buf) (case (n, out, e1) of (ret, buf, e) \<Rightarrow> if ret \<noteq> 0 then Inr (ret, buf, e)
        else c_bind (if am_retransmit_list e \<noteq> [] then generate_retx_pdu e buf else Inr (0, buf, e))
          (\<lambda>(ret, buf, e). if ret \<noteq> 0 then Inr (ret, buf, e) else am_generate_tx_pdu now e buf))" by simp
  qed
qed

text \<open>Every mode.\<close>

lemma rlc_generate_fits: "pdu_fits (length buf) (rlc_generate_pdu wall e buf)"
  by (cases e) (auto intro!: pdu_fits_map [OF am_generate_fits] pdu_fits_map [OF um_generate_fits] pdu_fits_map [OF tm_generate_fits])

end
