(* ===== verification/Rlc_Api_Props.thy ===== *)
theory Rlc_Api_Props
  imports Rlc_Api_Config Rlc_Room
begin

text \<open>
  Properties of the interface of RLC: what a call does to the table of UEs and bearers, and to which bearer the
  PDUs of a transport block go.
\<close>

subsection \<open>A transport block\<close>

lemma multi_data_loop_fits:
  "multi_data_loop wall n buf e = Inr (sizes, out, e') \<Longrightarrow>
   length sizes \<le> n \<and> (\<forall>s \<in> set sizes. 0 < s) \<and> (\<Sum>s\<leftarrow>sizes. 3 + s) \<le> int (length buf) \<and> length out = length buf"
proof (induction n arbitrary: buf e sizes out)
  case (Suc n)
  show ?case
  proof (cases "length buf \<le> 3")
    case True
    with Suc.prems show ?thesis by simp
  next
    case False
    with Suc.prems obtain size w e1 where g: "rlc_generate_pdu wall e (drop 3 buf) = Inr (size, w, e1)"
      and r: "(if size = 0 then Inr ([], take 3 buf @ w, e1)
         else c_bind (multi_data_loop wall n (drop (nat size) w) e1) (\<lambda>(sizes, rest, e).
              Inr (size # sizes, take 3 buf @ take (nat size) w @ rest, e))) = Inr (sizes, out, e')"
      by (auto simp: c_bind_eq_Inr_conv split del: if_split)
    have f: "0 \<le> size" "size \<le> int (length buf) - 3" "length w = length buf - 3"
      using rlc_generate_fits [of "drop 3 buf" wall e] False by (auto simp: g)
    show ?thesis
    proof (cases "size = 0")
      case True
      with r f False show ?thesis by auto
    next
      case pos: False
      with r obtain ss rest where l: "multi_data_loop wall n (drop (nat size) w) e1 = Inr (ss, rest, e')"
        and o: "sizes = size # ss" "out = take 3 buf @ take (nat size) w @ rest"
        by (auto simp: c_bind_eq_Inr_conv)
      from Suc.IH [OF l] f pos False show ?thesis by (auto simp: o)
    qed
  qed
qed simp

lemma on_entityE:
  assumes "on_entity env m i p f = Inr (m', msgs, x)"
  obtains e e' ups where "rb_entity (rlc_ue_list m ! i) p = Some e" and "f e = Inr (x, e', ups)"
    and "rlc_callbacks env m (rlc_ue_list m ! i) p ups = Inr msgs"
    and "m' = put_rlc_ue m i (rb_update (rlc_ue_list m ! i) p e')"
  using assms by (auto simp: on_entity_def Let_def c_bind_eq_Inr_conv split: option.splits)

text \<open>C17: filling a transport block never leaves it, whatever the bearer and whatever the state of its entity: at most
  the number of PDUs that there is room for in the array of sizes is made, every PDU has at least one byte, the
  PDUs with the 3 bytes in front of each fit the block, and the block keeps its size.\<close>

theorem rlc_multi_data_fits:
  assumes "nr_mac_rlc_multi_data_req env m k ch buf n = Inr (m', msgs, (sizes, out))"
  shows "length sizes \<le> nat n \<and> (\<forall>s \<in> set sizes. 0 < s) \<and> (\<Sum>s\<leftarrow>sizes. 3 + s) \<le> int (length buf) \<and> length out = length buf"
proof -
  obtain m1 i where g: "nr_rlc_manager_get_ue m k = (m1, i)" by fastforce
  from assms g obtain rb where rb: "get_rlc_entity_from_lcid (rlc_ue_list m1 ! i) ch = Inr rb"
    by (auto simp: nr_mac_rlc_multi_data_req_def c_bind_eq_Inr_conv)
  show ?thesis
  proof (cases rb)
    case None
    with assms g rb show ?thesis by (auto simp: nr_mac_rlc_multi_data_req_def)
  next
    case (Some p)
    with assms g rb have "on_entity env m1 i p (timed (env_now env) (multi_data_call env (nat n) buf)) = Inr (m', msgs, (sizes, out))"
      by (simp add: nr_mac_rlc_multi_data_req_def)
    then obtain e0 e' ups where "timed (env_now env) (multi_data_call env (nat n) buf) e0 = Inr ((sizes, out), e', ups)"
      by (rule on_entityE)
    then obtain e1 e2 where "multi_data_loop (env_wall env) (nat n) buf e1 = Inr (sizes, out, e2)"
      by (auto simp: timed_def multi_data_call_def c_bind_eq_Inr_conv)
    then show ?thesis by (rule multi_data_loop_fits)
  qed
qed

subsection \<open>Entities keep their mode\<close>

fun same_kind :: "rlc_entity \<Rightarrow> rlc_entity \<Rightarrow> bool" where
  "same_kind (RlcAm _) (RlcAm _) = True"
| "same_kind (RlcUm _) (RlcUm _) = True"
| "same_kind (RlcTm _) (RlcTm _) = True"
| "same_kind _ _ = False"

lemma same_kind_refl [simp]: "same_kind e e"
  by (cases e) auto

lemma same_kind_trans: "same_kind e f \<Longrightarrow> same_kind f g \<Longrightarrow> same_kind e g"
  by (cases e; cases f; cases g) auto

lemma entity_calls_kind:
  "rlc_recv_pdu e b = Inr (e', ups) \<Longrightarrow> same_kind e e'"
  "rlc_recv_sdu w e b n = Inr e' \<Longrightarrow> same_kind e e'"
  "rlc_generate_pdu w e b = Inr (sz, out, e') \<Longrightarrow> same_kind e e'"
  "rlc_set_time e now = Inr (e', ups) \<Longrightarrow> same_kind e e'"
  "rlc_reestablishment e = Inr e' \<Longrightarrow> same_kind e e'"
  "same_kind e (rlc_set_common c e)"
  by (cases e; force simp: c_bind_eq_Inr_conv Let_def split: prod.splits)+

lemma reconfigure_kind: "reconfigure_as cfg e = Inr e' \<Longrightarrow> same_kind e e'"
  by (induction cfg e rule: reconfigure_as.induct) (auto simp: c_bind_eq_Inr_conv)

lemma multi_data_kind: "multi_data_loop w n buf e = Inr (ss, out, e') \<Longrightarrow> same_kind e e'"
proof (induction n arbitrary: buf e ss out)
  case (Suc n)
  then show ?case
    by (auto simp: c_bind_eq_Inr_conv split: if_splits) (blast intro: same_kind_trans entity_calls_kind(3))+
qed simp

text \<open>A call on an entity that keeps its mode.\<close>

definition keeps_kind :: "(rlc_entity \<Rightarrow> ('a \<times> rlc_entity \<times> am_output list) c_result) \<Rightarrow> bool" where
  "keeps_kind f \<longleftrightarrow> (\<forall>e x e' ups. f e = Inr (x, e', ups) \<longrightarrow> same_kind e e')"

lemma keeps_kind_calls:
  "keeps_kind (recv_pdu_call buf)" "keeps_kind status_call" "keeps_kind (recv_sdu_call env buf mui)"
  "keeps_kind (multi_data_call env n buf)"
  "keeps_kind (\<lambda>e. c_bind (rlc_generate_pdu w e buf) (\<lambda>(size, out, e). Inr ((size, out), e, [])))"
  by (auto simp: keeps_kind_def recv_pdu_call_def status_call_def recv_sdu_call_def multi_data_call_def c_bind_eq_Inr_conv
      intro: entity_calls_kind multi_data_kind)

lemma keeps_kind_timed: "keeps_kind f \<Longrightarrow> keeps_kind (timed now f)"
  by (fastforce simp: keeps_kind_def timed_def c_bind_eq_Inr_conv intro: same_kind_trans entity_calls_kind(4))

subsection \<open>The table of UEs\<close>

fun is_am :: "rlc_entity \<Rightarrow> bool" where
  "is_am (RlcAm _) = True"
| "is_am _ = False"

fun is_tm :: "rlc_entity \<Rightarrow> bool" where
  "is_tm (RlcTm _) = True"
| "is_tm _ = False"

fun kind_ok :: "rb_pos \<Rightarrow> rlc_entity \<Rightarrow> bool" where
  "kind_ok Srb0 e = is_tm e"
| "kind_ok (Srb _) e = is_am e"
| "kind_ok (Drb _) e = (\<not> is_tm e)"

lemma kind_ok_same: "kind_ok p e \<Longrightarrow> same_kind e e' \<Longrightarrow> kind_ok p e'"
  by (cases p; cases e; cases e') auto

fun valid_rb :: "nr_lcid_rb \<Rightarrow> bool" where
  "valid_rb NR_LCID_NONE = True"
| "valid_rb (NR_LCID_SRB n) = (1 \<le> n \<and> n \<le> 3)"
| "valid_rb (NR_LCID_DRB n) = (1 \<le> n \<and> n \<le> 32)"

fun on_some :: "('a \<Rightarrow> bool) \<Rightarrow> 'a option \<Rightarrow> bool" where
  "on_some P None = True"
| "on_some P (Some x) = P x"

definition rlc_ue_ok :: "nr_rlc_ue \<Rightarrow> bool" where
  "rlc_ue_ok u \<longleftrightarrow> length (rlc_srb u) = 3 \<and> length (rlc_drb u) = 32 \<and> length (lcid2rb u) = 32 \<and>
     list_all valid_rb (lcid2rb u) \<and> on_some (\<lambda>x. is_tm (fst x)) (rlc_srb0 u) \<and>
     list_all (on_some is_am) (rlc_srb u) \<and> list_all (on_some (\<lambda>e. \<not> is_tm e)) (rlc_drb u)"

definition rlc_mgr_ok :: "nr_rlc_ue_manager \<Rightarrow> bool" where
  "rlc_mgr_ok m \<longleftrightarrow> distinct (map rlc_ue_id (rlc_ue_list m)) \<and> list_all rlc_ue_ok (rlc_ue_list m)"

text \<open>The pointer to an entity, by UE and place.\<close>

definition rlc_bearer :: "nr_rlc_ue_manager \<Rightarrow> int \<Rightarrow> rb_pos \<Rightarrow> rlc_entity option" where
  "rlc_bearer m k p = (case ue_find rlc_ue_id (rlc_ue_list m) k of None \<Rightarrow> None | Some u \<Rightarrow> rb_entity u p)"

lemma empty_rlc_ue_ok: "rlc_ue_ok (empty_rlc_ue k)"
  by (simp add: rlc_ue_ok_def empty_rlc_ue_def RLC_MAX_DRBS_def list_all_length)

lemma rb_entity_kind:
  assumes "rlc_ue_ok u" and "rb_entity u p = Some e"
  shows "kind_ok p e"
proof (cases p)
  case Srb0
  with assms show ?thesis by (auto simp: rlc_ue_ok_def)
next
  case (Srb j)
  with assms(2) have "Some e \<in> set (rlc_srb u)" by (auto split: if_splits simp: in_set_conv_nth)
  with assms(1) Srb show ?thesis by (force simp: rlc_ue_ok_def list_all_iff)
next
  case (Drb j)
  with assms(2) have "Some e \<in> set (rlc_drb u)" by (auto split: if_splits simp: in_set_conv_nth)
  with assms(1) Drb show ?thesis by (force simp: rlc_ue_ok_def list_all_iff)
qed

lemma list_all_update: "list_all P xs \<Longrightarrow> P y \<Longrightarrow> list_all P (xs[i := y])"
  using set_update_subset_insert [of xs i y] by (auto simp: list_all_iff)

lemma rb_update_ok: "rlc_ue_ok u \<Longrightarrow> kind_ok p e' \<Longrightarrow> rlc_ue_ok (rb_update u p e')"
  by (cases p; cases "rlc_srb0 u") (auto simp: rlc_ue_ok_def intro!: list_all_update)

lemma rb_clear_ok: "rlc_ue_ok u \<Longrightarrow> rlc_ue_ok (rb_clear u p)"
  by (cases p) (auto simp: rlc_ue_ok_def intro!: list_all_update)

lemma rb_update_frame [simp]:
  "rlc_ue_id (rb_update u p e) = rlc_ue_id u" "lcid2rb (rb_update u p e) = lcid2rb u" "rlf_handler (rb_update u p e) = rlf_handler u"
  "rlc_ue_id (rb_clear u p) = rlc_ue_id u" "lcid2rb (rb_clear u p) = lcid2rb u"
  by (cases p; simp)+

lemma rb_entity_update: "rb_entity u p = Some e \<Longrightarrow> rb_entity (rb_update u p e') q = (if q = p then Some e' else rb_entity u q)"
  by (cases p; cases q) (auto split: if_splits)

text \<open>A UE that a call finds or makes.\<close>

lemma rlc_get_ue:
  assumes "rlc_mgr_ok m" and "nr_rlc_manager_get_ue m k = (m1, i)"
  shows "rlc_mgr_ok m1" and "i < length (rlc_ue_list m1)" and "rlc_ue_ok (rlc_ue_list m1 ! i)" and "rlc_ue_id (rlc_ue_list m1 ! i) = k"
    and "rlc_bearer m1 k' p = rlc_bearer m k' p" and "rb_entity (rlc_ue_list m1 ! i) p = rlc_bearer m k p"
    and "rlc_op_mode m1 = rlc_op_mode m"
proof -
  have e: "rlc_ue_list m1 = fst (rlc_list_get (rlc_ue_list m) k)" "i = snd (rlc_list_get (rlc_ue_list m) k)" "rlc_op_mode m1 = rlc_op_mode m"
    using assms(2) by (auto simp: nr_rlc_manager_get_ue_def split: prod.splits)
  then show "rlc_op_mode m1 = rlc_op_mode m" by simp
  have "set (rlc_ue_list m1) \<subseteq> insert (empty_rlc_ue k) (set (rlc_ue_list m))"
    by (auto simp: e rlc_list_get_def Let_def)
  then show ok: "rlc_mgr_ok m1"
    using assms(1) rlc_ues.get_distinct [of "rlc_ue_list m" k] empty_rlc_ue_ok by (auto simp: rlc_mgr_ok_def e list_all_iff)
  show i: "i < length (rlc_ue_list m1)" and "rlc_ue_id (rlc_ue_list m1 ! i) = k"
    using rlc_ues.get_position [of "rlc_ue_list m" k] by (simp_all add: e)
  show "rlc_ue_ok (rlc_ue_list m1 ! i)" using ok i by (simp add: rlc_mgr_ok_def list_all_length)
  have none: "rb_entity (empty_rlc_ue k) p = None"
    by (cases p) (auto simp: empty_rlc_ue_def RLC_MAX_DRBS_def)
  show "rlc_bearer m1 k' p = rlc_bearer m k' p"
    using rlc_ues.get_find [of "rlc_ue_list m" k k'] by (auto simp: rlc_bearer_def e none)
  show "rb_entity (rlc_ue_list m1 ! i) p = rlc_bearer m k p"
    using rlc_ues.get_entry [of "rlc_ue_list m" k] by (auto simp: rlc_bearer_def e none split: option.splits)
qed

lemma put_rlc_ue_ok:
  assumes "rlc_mgr_ok m" and "i < length (rlc_ue_list m)" and "rlc_ue_ok u" and "rlc_ue_id u = rlc_ue_id (rlc_ue_list m ! i)"
  shows "rlc_mgr_ok (put_rlc_ue m i u)"
    and "rlc_bearer (put_rlc_ue m i u) k p = (if k = rlc_ue_id u then rb_entity u p else rlc_bearer m k p)"
    and "rlc_op_mode (put_rlc_ue m i u) = rlc_op_mode m"
proof -
  have "map rlc_ue_id ((rlc_ue_list m)[i := u]) = map rlc_ue_id (rlc_ue_list m)"
    using assms(2,4) by (simp add: map_update list_update_same_conv)
  then show "rlc_mgr_ok (put_rlc_ue m i u)"
    using assms(1,3) set_update_subset_insert [of "rlc_ue_list m" i u] by (auto simp: rlc_mgr_ok_def put_rlc_ue_def list_all_iff)
  show "rlc_bearer (put_rlc_ue m i u) k p = (if k = rlc_ue_id u then rb_entity u p else rlc_bearer m k p)"
    using ue_find_update [OF _ assms(2), of rlc_ue_id u k] assms(1,4) by (auto simp: rlc_bearer_def put_rlc_ue_def rlc_mgr_ok_def)
qed (simp add: put_rlc_ue_def)

subsection \<open>Where the PDUs of a transport block go\<close>

fun message_from :: "rlc_message \<Rightarrow> rb_pos option" where
  "message_from (F1apUlRrc _ _ n _) = Some (Srb (n - 1))"
| "message_from (GtpuSend _ n _) = Some (Drb (n - 1))"
| "message_from (PdcpDataInd _ _ is_srb n _) = Some (if is_srb then Srb (n - 1) else Drb (n - 1))"
| "message_from (InitialUlRrc _ _) = Some Srb0"
| "message_from (RadioLinkFailure _ _) = None"

definition messages_of :: "rb_pos \<Rightarrow> rlc_message list \<Rightarrow> rlc_message list" where
  "messages_of p msgs = filter (\<lambda>y. message_from y = Some p) msgs"

lemma messages_of_append: "messages_of p (as @ bs) = messages_of p as @ messages_of p bs"
  by (simp add: messages_of_def)

lemma deliver_from: "deliver_sdu env m u is_srb n buf = Inr y \<Longrightarrow> message_from y = Some (if is_srb then Srb (n - 1) else Drb (n - 1))"
  by (auto simp: deliver_sdu_def Let_def c_bind_eq_Inr_conv split: if_splits)

lemma callback_from:
  assumes "rlc_callback env m u p x = Inr msgs" and "y \<in> set msgs"
  shows "message_from y = Some p \<or> message_from y = None"
proof (cases x)
  case (AmDeliver buf)
  with assms show ?thesis
    by (cases p) (auto simp: c_bind_eq_Inr_conv dest: deliver_from split: option.splits)
qed (use assms in \<open>cases p; auto simp: c_bind_eq_Inr_conv max_retx_reached_def split: option.splits\<close>)+

lemma callbacks_from:
  assumes "rlc_callbacks env m u p xs = Inr msgs" and "q \<noteq> p"
  shows "messages_of q msgs = []"
  using assms(1)
proof (induction xs arbitrary: msgs)
  case (Cons x xs)
  then obtain a b where ab: "rlc_callback env m u p x = Inr a" "rlc_callbacks env m u p xs = Inr b" "msgs = a @ b"
    by (auto simp: c_bind_eq_Inr_conv)
  have "messages_of q a = []"
    using assms(2) by (auto simp: messages_of_def filter_empty_conv dest!: callback_from [OF ab(1)])
  with Cons.IH [OF ab(2)] ab(3) show ?case by (simp add: messages_of_append)
qed (simp add: messages_of_def)

lemma callbacks_append:
  "rlc_callbacks env m u p (xs @ ys) = c_bind (rlc_callbacks env m u p xs) (\<lambda>a. c_bind (rlc_callbacks env m u p ys) (\<lambda>b. Inr (a @ b)))"
proof (induction xs)
  case Nil
  show ?case by (cases "rlc_callbacks env m u p ys") auto
next
  case (Cons x xs)
  show ?case
    by (cases "rlc_callback env m u p x"; cases "rlc_callbacks env m u p xs"; cases "rlc_callbacks env m u p ys")
      (simp_all add: Cons.IH)
qed

text \<open>What the calls on the entities of a UE leave alone.\<close>

definition ue_frame :: "nr_rlc_ue \<Rightarrow> nr_rlc_ue \<Rightarrow> bool" where
  "ue_frame u v \<longleftrightarrow> rlc_ue_id v = rlc_ue_id u \<and> lcid2rb v = lcid2rb u \<and> rlf_handler v = rlf_handler u \<and>
     map_option snd (rlc_srb0 v) = map_option snd (rlc_srb0 u) \<and> (\<forall>p. rb_entity v p = None \<longleftrightarrow> rb_entity u p = None)"

lemma ue_frame_refl: "ue_frame u u"
  by (simp add: ue_frame_def)

lemma ue_frame_trans: "ue_frame u v \<Longrightarrow> ue_frame v w \<Longrightarrow> ue_frame u w"
  by (simp add: ue_frame_def)

lemma ue_frame_update: "rb_entity u p = Some e \<Longrightarrow> ue_frame u (rb_update u p e')"
  by (auto simp: ue_frame_def rb_entity_update) (cases p; auto simp: option.map_comp comp_def split_beta)

lemma ue_frame_lcid: "ue_frame u v \<Longrightarrow> get_rlc_entity_from_lcid v ch = get_rlc_entity_from_lcid u ch"
  unfolding get_rlc_entity_from_lcid_def pos_of_lcid_def
  by (auto simp: ue_frame_def split: option.splits nr_lcid_rb.splits cong: option.case_cong)

lemma ue_frame_callback:
  assumes "ue_frame u v" and "rlc_op_mode m' = rlc_op_mode m"
  shows "rlc_callback env m' v p x = rlc_callback env m u p x"
proof -
  have id: "rlc_ue_id v = rlc_ue_id u" using assms(1) by (simp add: ue_frame_def)
  have d: "deliver_sdu env m' v is_srb n buf = deliver_sdu env m u is_srb n buf" for is_srb n buf
    unfolding deliver_sdu_def id using assms(2) by (simp add: nr_rlc_manager_get_gnb_flag_def nr_rlc_manager_rlc_is_split_def)
  have h: "rlf_handler v = rlf_handler u" and s0: "map_option snd (rlc_srb0 v) = map_option snd (rlc_srb0 u)"
    using assms(1) by (simp_all add: ue_frame_def)
  have z: "rlc_callback env m' v Srb0 (AmDeliver buf) = rlc_callback env m u Srb0 (AmDeliver buf)" for buf
    using s0 by (cases "rlc_srb0 u"; cases "rlc_srb0 v") (auto simp: split_beta)
  have "max_retx_reached v p = max_retx_reached u p" unfolding max_retx_reached_def h id by (rule refl)
  with z d show ?thesis by (cases p; cases x) simp_all
qed

lemma ue_frame_callbacks: "ue_frame u v \<Longrightarrow> rlc_op_mode m' = rlc_op_mode m \<Longrightarrow> rlc_callbacks env m' v p xs = rlc_callbacks env m u p xs"
  by (induction xs) (simp_all add: ue_frame_callback)

definition recv_step :: "u64 \<Rightarrow> rlc_entity \<Rightarrow> byte list \<Rightarrow> (rlc_entity \<times> am_output list) c_result" where
  "recv_step now e buf = c_bind (timed now (recv_pdu_call buf) e) (\<lambda>(_, e, ups). Inr (e, ups))"

text \<open>The PDUs of a transport block for the entity at a place.\<close>

definition pdus_for :: "nr_rlc_ue \<Rightarrow> rb_pos \<Rightarrow> (nat \<times> byte list) list \<Rightarrow> byte list list" where
  "pdus_for u p data = map snd (filter (\<lambda>d. get_rlc_entity_from_lcid u (fst d) = Inr (Some p)) data)"

lemma rlc_get_entity_NoneD: "get_rlc_entity_from_lcid u ch = Inr (Some p) \<Longrightarrow> rb_entity u p \<noteq> None"
  by (auto simp: get_rlc_entity_from_lcid_def c_bind_eq_Inr_conv split: if_splits option.splits)

lemma pdus_for_frame: "ue_frame u v \<Longrightarrow> pdus_for v p data = pdus_for u p data"
  by (simp add: pdus_for_def ue_frame_lcid)

lemma put_rlc_ue_simps [simp]:
  "put_rlc_ue (put_rlc_ue m i a) i b = put_rlc_ue m i b" "put_rlc_ue m i (rlc_ue_list m ! i) = m"
  "i < length (rlc_ue_list m) \<Longrightarrow> rlc_ue_list (put_rlc_ue m i a) ! i = a" "length (rlc_ue_list (put_rlc_ue m i a)) = length (rlc_ue_list m)"
  "rlc_op_mode (put_rlc_ue m i a) = rlc_op_mode m"
  by (simp_all add: put_rlc_ue_def)

text \<open>The entity at a place has taken its PDUs, and its messages are in the list.\<close>

definition took :: "rlc_env \<Rightarrow> nr_rlc_ue_manager \<Rightarrow> nr_rlc_ue \<Rightarrow> nr_rlc_ue \<Rightarrow> (nat \<times> byte list) list \<Rightarrow> rlc_message list \<Rightarrow> rb_pos \<Rightarrow> bool" where
  "took env m u v data msgs p \<longleftrightarrow>
     (case rb_entity u p of
        None \<Rightarrow> rb_entity v p = None \<and> messages_of p msgs = []
      | Some e \<Rightarrow> \<exists>e' ups out. run_steps (recv_step (env_now env)) e (pdus_for u p data) = Inr (e', ups) \<and> rb_entity v p = Some e' \<and>
                   rlc_callbacks env m u p ups = Inr out \<and> messages_of p msgs = messages_of p out)"

lemma took_skip:
  assumes "took env m u v data msgs p" and "get_rlc_entity_from_lcid u ch \<noteq> Inr (Some p)"
  shows "took env m u v ((ch, buf) # data) msgs p"
  using assms by (auto simp: took_def pdus_for_def split: option.splits)

lemma took_step:
  assumes e: "rb_entity u p = Some e" and st: "timed (env_now env) (recv_pdu_call buf) e = Inr (x, e1, ups)"
    and cb: "rlc_callbacks env m u p ups = Inr msgs1" and rs: "get_rlc_entity_from_lcid u ch = Inr (Some p)"
    and t: "took env m (rb_update u p e1) v data msgs2 q"
  shows "took env m u v ((ch, buf) # data) (msgs1 @ msgs2) q"
proof -
  note fr = ue_frame_update [OF e, of e1]
  note pf = pdus_for_frame [OF fr] and cf = ue_frame_callbacks [OF fr refl, of env m]
  have rs': "recv_step (env_now env) e buf = Inr (e1, ups)" using st by (simp add: recv_step_def)
  show ?thesis
  proof (cases "q = p")
    case True
    with t e obtain e' ups2 out where r: "run_steps (recv_step (env_now env)) e1 (pdus_for u p data) = Inr (e', ups2)"
      "rb_entity v p = Some e'" "rlc_callbacks env m u p ups2 = Inr out" "messages_of p msgs2 = messages_of p out"
      by (auto simp: took_def rb_entity_update pf cf)
    then have "run_steps (recv_step (env_now env)) e (pdus_for u p ((ch, buf) # data)) = Inr (e', ups @ ups2)"
      using rs rs' by (simp add: pdus_for_def)
    moreover have "rlc_callbacks env m u p (ups @ ups2) = Inr (msgs1 @ out)" using cb r(3) by (simp add: callbacks_append)
    ultimately show ?thesis using True e r(2,4) by (auto simp: took_def messages_of_append)
  next
    case False
    have m0: "messages_of q msgs1 = []" by (rule callbacks_from [OF cb False])
    have pd: "pdus_for u q ((ch, buf) # data) = pdus_for u q data" using rs False by (simp add: pdus_for_def)
    show ?thesis
      using t unfolding took_def
      by (cases "rb_entity u q") (simp_all add: rb_entity_update [OF e] False pf cf messages_of_append m0 pd)
  qed
qed

lemma data_ind_loop_took:
  assumes "i < length (rlc_ue_list m)" and "rlc_ue_ok (rlc_ue_list m ! i)" and "data_ind_loop env m i data = Inr (m', msgs)"
  shows "\<exists>v. m' = put_rlc_ue m i v \<and> rlc_ue_ok v \<and> ue_frame (rlc_ue_list m ! i) v \<and> (\<forall>p. took env m (rlc_ue_list m ! i) v data msgs p)"
  using assms
proof (induction data arbitrary: m msgs)
  case Nil
  then have "\<forall>p. took env m (rlc_ue_list m ! i) (rlc_ue_list m ! i) [] msgs p"
    by (auto simp: took_def messages_of_def pdus_for_def split: option.splits)
  with Nil show ?case by (intro exI [of _ "rlc_ue_list m ! i"]) (simp add: ue_frame_refl)
next
  case (Cons d data)
  obtain ch buf where d: "d = (ch, buf)" by (cases d)
  let ?u = "rlc_ue_list m ! i"
  from Cons.prems(3) d obtain rb m1 msgs1 msgs2 where rb: "get_rlc_entity_from_lcid ?u ch = Inr rb"
    and c: "(case rb of None \<Rightarrow> Inr (m, [], ()) | Some p \<Rightarrow> on_entity env m i p (timed (env_now env) (recv_pdu_call buf))) = Inr (m1, msgs1, ())"
    and l: "data_ind_loop env m1 i data = Inr (m', msgs2)" and msgs: "msgs = msgs1 @ msgs2"
    by (auto simp: c_bind_eq_Inr_conv)
  show ?case
  proof (cases rb)
    case None
    with c have m1: "m1 = m" "msgs1 = []" by auto
    from Cons.IH [OF Cons.prems(1,2) l [unfolded m1(1)]] obtain v where v: "m' = put_rlc_ue m i v" "rlc_ue_ok v" "ue_frame ?u v"
      "\<And>p. took env m ?u v data msgs2 p" by blast
    have "took env m ?u v (d # data) msgs p" for p
      using took_skip [OF v(4), of ch] rb None by (simp add: d msgs m1)
    with v show ?thesis by blast
  next
    case (Some p)
    with c have "on_entity env m i p (timed (env_now env) (recv_pdu_call buf)) = Inr (m1, msgs1, ())" by simp
    then obtain e e1 ups where e: "rb_entity ?u p = Some e" and st: "timed (env_now env) (recv_pdu_call buf) e = Inr ((), e1, ups)"
      and cb: "rlc_callbacks env m ?u p ups = Inr msgs1" and m1: "m1 = put_rlc_ue m i (rb_update ?u p e1)" by (rule on_entityE)
    have "same_kind e e1"
      using keeps_kind_timed [OF keeps_kind_calls(1)] st unfolding keeps_kind_def by blast
    then have "kind_ok p e1" by (rule kind_ok_same [OF rb_entity_kind [OF Cons.prems(2) e]])
    then have ok: "rlc_ue_ok (rb_update ?u p e1)" by (rule rb_update_ok [OF Cons.prems(2)])
    have i: "i < length (rlc_ue_list m1)" "rlc_ue_list m1 ! i = rb_update ?u p e1" using Cons.prems(1) by (simp_all add: m1)
    have ok1: "rlc_ue_ok (rlc_ue_list m1 ! i)" using ok by (simp only: i(2))
    from Cons.IH [OF i(1) ok1 l, unfolded i(2)] obtain v where v1: "m' = put_rlc_ue m1 i v"
      and v: "rlc_ue_ok v" "ue_frame (rb_update ?u p e1) v" "\<And>q. took env m1 (rb_update ?u p e1) v data msgs2 q" by blast
    have v0: "m' = put_rlc_ue m i v" by (simp add: v1 m1)
    have same: "took env m1 = took env m"
      using ue_frame_callbacks [OF ue_frame_refl, of m1 m env] by (auto simp: took_def fun_eq_iff m1 split: option.splits)
    have "took env m ?u v (d # data) msgs q" for q
      using took_step [OF e st cb _ v(3) [unfolded same]] rb Some by (simp add: d msgs)
    with v0 v(1) ue_frame_trans [OF ue_frame_update [OF e] v(2)] show ?thesis by blast
  qed
qed

end
