(* ===== verification/Rlc_Api_Claims.thy ===== *)
theory Rlc_Api_Claims
  imports Rlc_Api_Props
begin

text \<open>
  What the interface of RLC promises: a transport block reaches the bearers it names and no others, and a bearer that
  was added is found again from its logical channel and from its identity.
\<close>

subsection \<open>The UE of an identity\<close>

definition rlc_ue_at :: "nr_rlc_ue_manager \<Rightarrow> int \<Rightarrow> nr_rlc_ue" where
  "rlc_ue_at m k = (case ue_find rlc_ue_id (rlc_ue_list m) k of None \<Rightarrow> empty_rlc_ue k | Some u \<Rightarrow> u)"

lemma rlc_get_ue_at:
  assumes "nr_rlc_manager_get_ue m k = (m1, i)"
  shows "rlc_ue_list m1 ! i = rlc_ue_at m k" and "rlc_ue_at m1 k' = rlc_ue_at m k'"
proof -
  have e: "rlc_ue_list m1 = fst (rlc_list_get (rlc_ue_list m) k)" "i = snd (rlc_list_get (rlc_ue_list m) k)"
    using assms by (auto simp: nr_rlc_manager_get_ue_def split: prod.splits)
  show "rlc_ue_list m1 ! i = rlc_ue_at m k"
    using rlc_ues.get_entry [of "rlc_ue_list m" k] by (simp add: e rlc_ue_at_def)
  show "rlc_ue_at m1 k' = rlc_ue_at m k'"
    using rlc_ues.get_find [of "rlc_ue_list m" k k'] by (auto simp: e rlc_ue_at_def)
qed

lemma rlc_ue_at_id: "rlc_ue_id (rlc_ue_at m k) = k"
  using ue_index_found [of rlc_ue_id "rlc_ue_list m" k] rlc_ues.key_fresh [of k] by (auto simp: rlc_ue_at_def ue_find_def)

lemma put_rlc_ue_at:
  assumes "rlc_mgr_ok m" and "i < length (rlc_ue_list m)" and "rlc_ue_id u = rlc_ue_id (rlc_ue_list m ! i)"
  shows "rlc_ue_at (put_rlc_ue m i u) k = (if k = rlc_ue_id u then u else rlc_ue_at m k)"
  using ue_find_update [OF _ assms(2), of rlc_ue_id u k] assms(1,3) by (auto simp: rlc_ue_at_def put_rlc_ue_def rlc_mgr_ok_def)

text \<open>The pattern of every call: find or make the UE, change it, put it back.\<close>

lemma rlc_ue_changed:
  assumes "rlc_mgr_ok m" and "nr_rlc_manager_get_ue m k = (m1, i)" and "rlc_ue_ok u" and "rlc_ue_id u = k"
  shows "rlc_mgr_ok (put_rlc_ue m1 i u)" and "rlc_ue_at (put_rlc_ue m1 i u) k' = (if k' = k then u else rlc_ue_at m k')"
proof -
  note g = rlc_get_ue [OF assms(1,2)]
  show "rlc_mgr_ok (put_rlc_ue m1 i u)" by (rule put_rlc_ue_ok [OF g(1,2) assms(3)]) (simp add: g(4) assms(4))
  show "rlc_ue_at (put_rlc_ue m1 i u) k' = (if k' = k then u else rlc_ue_at m k')"
    using put_rlc_ue_at [OF g(1,2), of u k'] rlc_get_ue_at(2) [OF assms(2), of k'] g(4) assms(4) by simp
qed

subsection \<open>A transport block reaches its bearers\<close>

text \<open>C6: the demultiplexing of a transport block. The table of UEs stays well formed; the bearers of every other UE
  are untouched; and the entity at each place of the UE has taken exactly the PDUs whose logical channel leads to that
  place, in the order they have in the block, as if it were alone: the entity afterwards is that of this run, and the
  messages from that place are those of the callbacks of this run. A place without an entity sends nothing.\<close>

theorem rlc_data_ind_demux:
  assumes "rlc_mgr_ok m" and "nr_mac_rlc_data_ind env m k data = Inr (m', msgs)"
  shows "rlc_mgr_ok m' \<and> (\<forall>k'. k' \<noteq> k \<longrightarrow> rlc_ue_at m' k' = rlc_ue_at m k') \<and>
    (\<forall>p. took env m (rlc_ue_at m k) (rlc_ue_at m' k) data msgs p)"
proof -
  obtain m1 i where g: "nr_rlc_manager_get_ue m k = (m1, i)" by fastforce
  note ok = rlc_get_ue [OF assms(1) g] and at = rlc_get_ue_at [OF g]
  from assms(2) g have "data_ind_loop env m1 i data = Inr (m', msgs)" by (simp add: nr_mac_rlc_data_ind_def)
  from data_ind_loop_took [OF ok(2,3) this] obtain v where v: "m' = put_rlc_ue m1 i v" "rlc_ue_ok v" "ue_frame (rlc_ue_at m k) v"
    "\<And>p. took env m1 (rlc_ue_at m k) v data msgs p" by (auto simp: at(1))
  have "rlc_ue_id v = k" using v(3) by (simp add: ue_frame_def rlc_ue_at_id)
  note c = rlc_ue_changed [OF assms(1) g v(2) this]
  have same: "took env m1 = took env m"
    using ue_frame_callbacks [OF ue_frame_refl ok(7), of env] by (auto simp: took_def fun_eq_iff split: option.splits)
  from v(4) c show ?thesis by (simp add: v(1) same)
qed

text \<open>A UE with SRB 0 and a DRB in UM with 6-bit numbers on logical channel 4.\<close>

definition um_bearer :: nr_rlc_bearer_config where
  "um_bearer =
     \<lparr>rlc_Config = Some (RlcConfigUmBi (Some 0) \<lparr>dl_um_sn_FieldLength = Some 0, dl_um_t_Reassembly = 8\<rparr>),
      servedRadioBearer = Some (ServedDrb 1), logicalChannelIdentity = 4\<rparr>"

definition two_bearers :: "nr_rlc_ue_manager c_result" where
  "two_bearers =
     c_bind (nr_rlc_activate_srb0 (new_nr_rlc_ue_manager NR_RLC_OP_MODE_UE) 7) (\<lambda>(m, _). nr_rlc_add_drb m 7 1 um_bearer)"

definition still_env :: rlc_env where
  "still_env = \<lparr>env_f1_ids = \<lparr>cu2du_ue_mapping = None, du2cu_ue_mapping = None\<rparr>, env_f1_inst = False, env_wall = 0, env_now = 1\<rparr>"

definition small_block :: "(nat \<times> byte list) list" where
  "small_block = [(4, [0, 8]), (0, [9]), (5, [7]), (4, [0, 6])]"

lemma rlc_data_ind_demux_witness:
  "\<exists>m m'. two_bearers = Inr m \<and> nr_mac_rlc_data_ind still_env m 7 small_block =
       Inr (m', [PdcpDataInd 7 False False 1 [8], InitialUlRrc 7 [9], PdcpDataInd 7 False False 1 [6]]) \<and>
     took still_env m (rlc_ue_at m 7) (rlc_ue_at m' 7) small_block
       [PdcpDataInd 7 False False 1 [8], InitialUlRrc 7 [9], PdcpDataInd 7 False False 1 [6]] (Drb 0)"
proof -
  have "map_sum id rlc_mgr_ok two_bearers = Inr True" by code_simp
  then obtain m where m: "two_bearers = Inr m" "rlc_mgr_ok m" by (auto elim!: map_sum_eq_InrE)
  have "map_sum id snd (c_bind two_bearers (\<lambda>m. nr_mac_rlc_data_ind still_env m 7 small_block)) =
      Inr [PdcpDataInd 7 False False 1 [8], InitialUlRrc 7 [9], PdcpDataInd 7 False False 1 [6]]" by code_simp
  then obtain m' where m': "nr_mac_rlc_data_ind still_env m 7 small_block =
      Inr (m', [PdcpDataInd 7 False False 1 [8], InitialUlRrc 7 [9], PdcpDataInd 7 False False 1 [6]])"
    by (auto simp: m(1) elim!: map_sum_eq_InrE)
  from rlc_data_ind_demux [OF m(2) m'] m m' show ?thesis by blast
qed

text \<open>Two SDUs of one and two bytes, and a transport block of 16 bytes.\<close>

lemma rlc_multi_data_fits_witness:
  "\<exists>m m' out. c_bind two_bearers (\<lambda>m. c_bind (nr_rlc_data_req still_env m 7 False 1 0 [8]) (\<lambda>(m, _, _).
        nr_rlc_data_req still_env m 7 False 1 1 [9, 9])) = Inr (m, [], ()) \<and>
     nr_mac_rlc_multi_data_req still_env m 7 4 (replicate 16 0) 10 = Inr (m', [], ([2, 3], out)) \<and> length out = 16"
proof -
  let ?s = "c_bind two_bearers (\<lambda>m. c_bind (nr_rlc_data_req still_env m 7 False 1 0 [8]) (\<lambda>(m, _, _).
        nr_rlc_data_req still_env m 7 False 1 1 [9, 9]))"
  have "map_sum id (\<lambda>(m, msgs, _). msgs) ?s = Inr []" by code_simp
  then obtain m where m: "?s = Inr (m, [], ())" by (auto elim!: map_sum_eq_InrE)
  have "map_sum id (\<lambda>(_, msgs, sizes, out). (msgs, sizes))
      (c_bind ?s (\<lambda>(m, _, _). nr_mac_rlc_multi_data_req still_env m 7 4 (replicate 16 0) 10)) = Inr ([], [2, 3])" by code_simp
  then obtain m' out where r: "nr_mac_rlc_multi_data_req still_env m 7 4 (replicate 16 0) 10 = Inr (m', [], ([2, 3], out))"
    by (auto simp: m elim!: map_sum_eq_InrE)
  from m r rlc_multi_data_fits [OF r] show ?thesis by auto
qed

subsection \<open>Logical channels\<close>

lemma pos_of_lcid_total:
  assumes "rlc_ue_ok u" and "0 < ch" and "ch \<le> 32"
  shows "\<exists>p. pos_of_lcid u ch = Inr p"
proof -
  have "valid_rb (lcid2rb u ! (ch - 1))" using assms by (auto simp: rlc_ue_ok_def list_all_length)
  then show ?thesis using assms by (auto simp: pos_of_lcid_def RLC_MAX_DRBS_def split: nr_lcid_rb.splits)
qed

lemma rlc_lcid_total: "rlc_ue_ok u \<Longrightarrow> ch \<le> 32 \<Longrightarrow> \<exists>rb. get_rlc_entity_from_lcid u ch = Inr rb"
  using pos_of_lcid_total [of u ch] by (cases "ch = 0") (auto simp: get_rlc_entity_from_lcid_def)

lemma find_lcid_le: "j < length xs \<Longrightarrow> P (xs ! j) \<Longrightarrow> \<exists>j' \<le> j. find_lcid P i xs = i + j' \<and> P (xs ! j')"
proof (induction xs arbitrary: i j)
  case (Cons x xs)
  show ?case
  proof (cases "P x")
    case False
    with Cons.prems obtain j0 where j: "j = Suc j0" "j0 < length xs" "P (xs ! j0)" by (cases j) auto
    from Cons.IH [OF j(2,3), of "i + 1"] obtain j' where "j' \<le> j0" "find_lcid P (i + 1) xs = i + 1 + j'" "P (xs ! j')" by blast
    with False j show ?thesis by (intro exI [of _ "Suc j'"]) simp
  qed (simp add: exI [of _ 0])
qed simp

text \<open>What adding a bearer at a place does to the UE: the entry of the logical channel, and the entity when there was none.\<close>

definition rlc_added :: "nr_rlc_ue \<Rightarrow> int \<Rightarrow> nr_lcid_rb \<Rightarrow> rb_pos \<Rightarrow> nr_rlc_ue \<Rightarrow> bool" where
  "rlc_added u lcid x p u' \<longleftrightarrow> 1 \<le> lcid \<and> lcid \<le> 32 \<and>
     (let u1 = u\<lparr>lcid2rb := (lcid2rb u)[nat (lcid - 1) := x]\<rparr>
      in if rb_entity u p \<noteq> None then u' = u1 else \<exists>e. kind_ok p e \<and> u' = rb_update u1 p e)"

fun in_range :: "rb_pos \<Rightarrow> bool" where
  "in_range Srb0 = False"
| "in_range (Srb j) = (j < 3)"
| "in_range (Drb j) = (j < 32)"

lemma set_lcid2rb_Inr:
  "set_lcid2rb u lcid x = Inr u' \<longleftrightarrow> 1 \<le> lcid \<and> lcid \<le> 32 \<and> u' = u\<lparr>lcid2rb := (lcid2rb u)[nat (lcid - 1) := x]\<rparr>"
  by (auto simp: set_lcid2rb_def Let_def)

lemma add_drb_entity_added:
  assumes "add_drb_entity m k n cfg new = Inr m'" and "nr_rlc_manager_get_ue m k = (m1, i)" and "rlc_ue_ok (rlc_ue_list m1 ! i)"
    and "\<And>e. new = Inr e \<Longrightarrow> \<not> is_tm e" and "0 < n" "n \<le> 32"
  shows "\<exists>b u'. servedRadioBearer cfg = Some (ServedDrb b) \<and> m' = put_rlc_ue m1 i u' \<and>
     rlc_added (rlc_ue_list m1 ! i) (logicalChannelIdentity cfg) (NR_LCID_DRB b) (Drb (nat (n - 1))) u'"
proof -
  from assms(1,2) obtain b u where b: "servedRadioBearer cfg = Some (ServedDrb b)"
    and u: "set_lcid2rb (rlc_ue_list m1 ! i) (logicalChannelIdentity cfg) (NR_LCID_DRB b) = Inr u"
    and r: "(if rlc_drb u ! nat (n - 1) \<noteq> None then Inr (put_rlc_ue m1 i u)
             else c_bind new (\<lambda>e. c_bind (nr_rlc_ue_add_drb_rlc_entity u n e) (\<lambda>u. Inr (put_rlc_ue m1 i u)))) = Inr m'"
    by (auto simp: add_drb_entity_def c_bind_eq_Inr_conv split: option.splits served_radio_bearer.splits)
  have l: "length (rlc_drb (rlc_ue_list m1 ! i)) = 32" using assms(3) by (simp add: rlc_ue_ok_def)
  from r u l assms(4-6) show ?thesis
    by (auto simp: b rlc_added_def set_lcid2rb_Inr nr_rlc_ue_add_drb_rlc_entity_def RLC_MAX_DRBS_def c_bind_eq_Inr_conv Let_def
        split: if_splits)
qed

lemma add_drb_added:
  assumes "nr_rlc_add_drb m k n cfg = Inr m'" and "nr_rlc_manager_get_ue m k = (m1, i)" and "rlc_ue_ok (rlc_ue_list m1 ! i)"
  shows "1 \<le> n \<and> n \<le> 32 \<and> (\<exists>b u'. servedRadioBearer cfg = Some (ServedDrb b) \<and> m' = put_rlc_ue m1 i u' \<and>
     rlc_added (rlc_ue_list m1 ! i) (logicalChannelIdentity cfg) (NR_LCID_DRB b) (Drb (nat (n - 1))) u')"
proof -
  have "\<exists>new. add_drb_entity m k n cfg new = Inr m' \<and> (\<forall>e. new = Inr e \<longrightarrow> \<not> is_tm e) \<and> 1 \<le> n \<and> n \<le> 32"
    using assms(1)
    by (auto simp: nr_rlc_add_drb_def add_drb_am_def add_drb_um_def c_bind_eq_Inr_conv RLC_MAX_DRBS_def new_am_def c_check_def
        split: nr_rlc_config.splits if_splits) (rule exI, rule conjI, assumption, auto simp: c_bind_eq_Inr_conv)+
  then obtain new where n: "add_drb_entity m k n cfg new = Inr m'" "\<And>e. new = Inr e \<Longrightarrow> \<not> is_tm e" "1 \<le> n" "n \<le> 32" by blast
  from add_drb_entity_added [OF n(1) assms(2,3) n(2)] n(3,4) show ?thesis by auto
qed

lemma add_srb_added:
  assumes "nr_rlc_add_srb m k n cfg = Inr m'" and "nr_rlc_manager_get_ue m k = (m1, i)" and "rlc_ue_ok (rlc_ue_list m1 ! i)"
  shows "1 \<le> n \<and> n \<le> 3 \<and> (\<exists>b u'. servedRadioBearer cfg = Some (ServedSrb b) \<and> m' = put_rlc_ue m1 i u' \<and>
     rlc_added (rlc_ue_list m1 ! i) (logicalChannelIdentity cfg) (NR_LCID_SRB b) (Srb (nat (n - 1))) u')"
proof -
  obtain pp pf where pn: "1 \<le> n" "n \<le> 3" "(case servedRadioBearer cfg of
          Some (ServedSrb b) \<Rightarrow>
            c_bind (set_lcid2rb (rlc_ue_list m1 ! i) (logicalChannelIdentity cfg) (NR_LCID_SRB b)) (\<lambda>u.
            if rlc_srb u ! nat (n - 1) \<noteq> None then Inr (put_rlc_ue m1 i u)
            else c_bind (new_am pp pf) (\<lambda>e.
                 c_bind (nr_rlc_ue_add_srb_rlc_entity u n e 0) (\<lambda>u. Inr (put_rlc_ue m1 i u))))
        | _ \<Rightarrow> Inl AssertFail) = Inr m'"
    using assms(1,2) by (auto simp: nr_rlc_add_srb_def c_bind_eq_Inr_conv c_check_def Let_def split: if_splits)
  then obtain b u where b: "servedRadioBearer cfg = Some (ServedSrb b)"
    and u: "set_lcid2rb (rlc_ue_list m1 ! i) (logicalChannelIdentity cfg) (NR_LCID_SRB b) = Inr u"
    and r: "(if rlc_srb u ! nat (n - 1) \<noteq> None then Inr (put_rlc_ue m1 i u)
            else c_bind (new_am pp pf) (\<lambda>e.
                 c_bind (nr_rlc_ue_add_srb_rlc_entity u n e 0) (\<lambda>u. Inr (put_rlc_ue m1 i u)))) = Inr m'"
    by (auto simp: c_bind_eq_Inr_conv split: option.splits served_radio_bearer.splits)
  have l: "length (rlc_srb (rlc_ue_list m1 ! i)) = 3" using assms(3) by (simp add: rlc_ue_ok_def)
  have a: "new_am x y = Inr e \<Longrightarrow> is_am e" for x y e by (auto simp: new_am_def c_bind_eq_Inr_conv)
  from r u l pn(1,2) show ?thesis
    by (auto simp: b rlc_added_def set_lcid2rb_Inr nr_rlc_ue_add_srb_rlc_entity_def c_bind_eq_Inr_conv Let_def dest: a split: if_splits)
qed

lemma lcid_entry_frame [simp]:
  "rb_entity (u\<lparr>lcid2rb := xs\<rparr>) p = rb_entity u p" "rlc_ue_id (u\<lparr>lcid2rb := xs\<rparr>) = rlc_ue_id u"
  by (cases p; simp)+

lemma rlc_addedD:
  assumes "rlc_ue_ok u" and "rlc_added u lcid x p u'" and "in_range p" and "valid_rb x"
  shows "rlc_ue_ok u'" and "rlc_ue_id u' = rlc_ue_id u" and "lcid2rb u' = (lcid2rb u)[nat (lcid - 1) := x]"
    and "rb_entity u' q = rb_entity u q \<or> q = p \<and> rb_entity u p = None" and "rb_entity u' p \<noteq> None"
proof -
  define u1 where "u1 = u\<lparr>lcid2rb := (lcid2rb u)[nat (lcid - 1) := x]\<rparr>"
  have ok1: "rlc_ue_ok u1" using assms(1,4) by (auto simp: u1_def rlc_ue_ok_def intro!: list_all_update)
  have len: "length (rlc_srb u1) = 3" "length (rlc_drb u1) = 32" using ok1 by (simp_all add: rlc_ue_ok_def)
  have upd: "rb_entity (rb_update u1 p e) q = (if q = p then Some e else rb_entity u1 q)" for e q
    using assms(3) len by (cases p; cases q) auto
  from assms(2) have c: "u' = u1 \<and> rb_entity u p \<noteq> None \<or> (\<exists>e. kind_ok p e \<and> u' = rb_update u1 p e) \<and> rb_entity u p = None"
    by (auto simp: rlc_added_def u1_def [symmetric] Let_def split: if_splits)
  show "rlc_ue_ok u'" using c ok1 rb_update_ok by blast
  show "rlc_ue_id u' = rlc_ue_id u" "lcid2rb u' = (lcid2rb u)[nat (lcid - 1) := x]" using c by (auto simp: u1_def)
  have "rb_entity u1 q = rb_entity u q" for q by (simp add: u1_def)
  then show "rb_entity u' q = rb_entity u q \<or> q = p \<and> rb_entity u p = None" "rb_entity u' p \<noteq> None" using c upd by (auto split: if_splits)
qed

text \<open>Both kinds of bearer at once.\<close>

definition rb_place :: "bool \<Rightarrow> int \<Rightarrow> rb_pos" where
  "rb_place is_srb n = (if is_srb then Srb (nat (n - 1)) else Drb (nat (n - 1)))"

lemma rlc_add_bearer:
  assumes "rlc_mgr_ok m" and "(if is_srb then nr_rlc_add_srb m k n cfg else nr_rlc_add_drb m k n cfg) = Inr m'"
    and "servedRadioBearer cfg = Some (if is_srb then ServedSrb b else ServedDrb b)"
    and "valid_rb (if is_srb then NR_LCID_SRB b else NR_LCID_DRB b)"
  shows "rlc_mgr_ok m' \<and> (\<forall>k'. k' \<noteq> k \<longrightarrow> rlc_ue_at m' k' = rlc_ue_at m k') \<and>
     1 \<le> n \<and> n \<le> (if is_srb then 3 else 32) \<and>
     rlc_added (rlc_ue_at m k) (logicalChannelIdentity cfg) (if is_srb then NR_LCID_SRB b else NR_LCID_DRB b) (rb_place is_srb n) (rlc_ue_at m' k)"
proof -
  obtain m1 i where g: "nr_rlc_manager_get_ue m k = (m1, i)" by fastforce
  note ok = rlc_get_ue [OF assms(1) g] and at = rlc_get_ue_at [OF g]
  from assms(2,3) add_srb_added [OF _ g ok(3)] add_drb_added [OF _ g ok(3)]
  obtain u' where u: "1 \<le> n" "n \<le> (if is_srb then 3 else 32)" "m' = put_rlc_ue m1 i u'"
    "rlc_added (rlc_ue_at m k) (logicalChannelIdentity cfg) (if is_srb then NR_LCID_SRB b else NR_LCID_DRB b) (rb_place is_srb n) u'"
    by (cases is_srb) (fastforce simp: at(1) rb_place_def)+
  have r: "in_range (rb_place is_srb n)" using u(1,2) by (auto simp: rb_place_def split: if_splits)
  note d = rlc_addedD [OF ok(3) [unfolded at(1)] u(4) r assms(4)]
  have "rlc_ue_id u' = k" using d(2) by (simp add: rlc_ue_at_id)
  with rlc_ue_changed [OF assms(1) g d(1)] u show ?thesis by auto
qed

text \<open>C16: a bearer that RRC adds is found again. When the addition of SRB or DRB \<open>n\<close> on a logical channel succeeds, the
  channel is in range and leads to the entity of that bearer; in the table of logical channels of the UE this entry alone
  is written; the entities of the other bearers of the UE and the other UEs are untouched, and an entity that was there stays
  as it is; and the search for a channel by the identity of the bearer returns a channel that is not above this one and leads
  to the same entity.\<close>

theorem rlc_added_bearer_found:
  assumes "rlc_mgr_ok m" and "(if is_srb then nr_rlc_add_srb m k n cfg else nr_rlc_add_drb m k n cfg) = Inr m'"
    and "servedRadioBearer cfg = Some (if is_srb then ServedSrb n else ServedDrb n)" and "logicalChannelIdentity cfg = int ch"
  shows "1 \<le> ch \<and> ch \<le> 32 \<and> get_rlc_entity_from_lcid (rlc_ue_at m' k) ch = Inr (Some (rb_place is_srb n)) \<and>
    lcid2rb (rlc_ue_at m' k) = (lcid2rb (rlc_ue_at m k))[ch - 1 := if is_srb then NR_LCID_SRB n else NR_LCID_DRB n] \<and>
    (\<forall>p. p \<noteq> rb_place is_srb n \<or> rb_entity (rlc_ue_at m k) p \<noteq> None \<longrightarrow> rb_entity (rlc_ue_at m' k) p = rb_entity (rlc_ue_at m k) p) \<and>
    (\<forall>k'. k' \<noteq> k \<longrightarrow> rlc_ue_at m' k' = rlc_ue_at m k') \<and>
    (\<exists>c. snd (nr_rlc_get_lcid_from_rb m' k is_srb n) = c \<and> 1 \<le> c \<and> c \<le> ch \<and>
       get_rlc_entity_from_lcid (rlc_ue_at m' k) c = Inr (Some (rb_place is_srb n)))"
proof -
  let ?x = "if is_srb then NR_LCID_SRB n else NR_LCID_DRB n" and ?u = "rlc_ue_at m k" and ?v = "rlc_ue_at m' k"
  let ?p = "rb_place is_srb n"
  have n: "1 \<le> n \<and> n \<le> (if is_srb then 3 else 32)"
  proof -
    obtain m1 i where g: "nr_rlc_manager_get_ue m k = (m1, i)" by fastforce
    from assms(2) add_srb_added [OF _ g rlc_get_ue(3) [OF assms(1) g]] add_drb_added [OF _ g rlc_get_ue(3) [OF assms(1) g]]
    show ?thesis by (cases is_srb) auto
  qed
  then have v: "valid_rb ?x" and r: "in_range ?p" by (auto simp: rb_place_def)
  note a = rlc_add_bearer [OF assms(1-3) v]
  have uok: "rlc_ue_ok ?u"
    using assms(1) empty_rlc_ue_ok
    by (auto simp: rlc_ue_at_def rlc_mgr_ok_def list_all_length ue_find_def split: option.splits if_splits)
  from a have added: "rlc_added ?u (logicalChannelIdentity cfg) ?x ?p ?v" by blast
  note d = rlc_addedD [OF uok added r v]
  have ch: "1 \<le> ch" "ch \<le> 32" using added assms(4) by (auto simp: rlc_added_def)
  have len: "length (lcid2rb ?v) = 32" using d(1) by (simp add: rlc_ue_ok_def)
  have entry: "lcid2rb ?v ! (ch - 1) = ?x"
    using d(3) uok assms(4) ch by (simp add: rlc_ue_ok_def nat_diff_distrib)
  have leads: "get_rlc_entity_from_lcid ?v c = Inr (Some ?p)" if "1 \<le> c" "c \<le> 32" "lcid2rb ?v ! (c - 1) = ?x" for c
    using that d(5) n by (auto simp: get_rlc_entity_from_lcid_def pos_of_lcid_def rb_place_def RLC_MAX_DRBS_def split: if_splits)
  obtain m2 i2 where g2: "nr_rlc_manager_get_ue m' k = (m2, i2)" by fastforce
  have "ch - 1 < length (lcid2rb ?v)" using ch len by simp
  from find_lcid_le [of "ch - 1" "lcid2rb ?v" "\<lambda>x. x = ?x" 1, OF this entry] obtain j where j: "j \<le> ch - 1"
    "find_lcid (\<lambda>x. x = ?x) 1 (lcid2rb ?v) = 1 + j" "lcid2rb ?v ! j = ?x" by blast
  have "snd (nr_rlc_get_lcid_from_rb m' k is_srb n) = 1 + j"
    using j(2) rlc_get_ue_at(1) [OF g2] by (simp add: nr_rlc_get_lcid_from_rb_def g2)
  moreover have "get_rlc_entity_from_lcid ?v (1 + j) = Inr (Some ?p)" using leads [of "1 + j"] j ch by simp
  moreover have "1 + j \<le> ch" using j(1) ch by simp
  moreover have "lcid2rb ?v = (lcid2rb ?u)[ch - 1 := ?x]" using d(3) assms(4) ch by (simp add: nat_diff_distrib)
  moreover have "rb_entity ?v p = rb_entity ?u p" if "p \<noteq> ?p \<or> rb_entity ?u p \<noteq> None" for p using that d(4) by auto
  ultimately show ?thesis using leads [OF ch entry] ch a by simp
qed

lemma rlc_added_bearer_found_witness:
  "\<exists>m'. nr_rlc_add_drb (new_nr_rlc_ue_manager NR_RLC_OP_MODE_UE) 7 1 um_bearer = Inr m' \<and>
     get_rlc_entity_from_lcid (rlc_ue_at m' 7) 4 = Inr (Some (Drb 0)) \<and>
     lcid2rb (rlc_ue_at m' 7) = (lcid2rb (rlc_ue_at (new_nr_rlc_ue_manager NR_RLC_OP_MODE_UE) 7))[3 := NR_LCID_DRB 1] \<and>
     snd (nr_rlc_get_lcid_from_rb m' 7 False 1) \<in> {1..4}"
proof -
  have "map_sum id (\<lambda>_. ()) (nr_rlc_add_drb (new_nr_rlc_ue_manager NR_RLC_OP_MODE_UE) 7 1 um_bearer) = Inr ()" by code_simp
  then obtain m' where m': "nr_rlc_add_drb (new_nr_rlc_ue_manager NR_RLC_OP_MODE_UE) 7 1 um_bearer = Inr m'"
    by (auto elim!: map_sum_eq_InrE)
  have ok: "rlc_mgr_ok (new_nr_rlc_ue_manager NR_RLC_OP_MODE_UE)" by code_simp
  have "servedRadioBearer um_bearer = Some (if False then ServedSrb 1 else ServedDrb 1)" "logicalChannelIdentity um_bearer = int 4"
    by (simp_all add: um_bearer_def)
  from rlc_added_bearer_found [of _ False, OF ok _ this] m' show ?thesis by (auto simp: rb_place_def)
qed

end
