(* ===== verification/Rlc_Api_Invariant.thy ===== *)
theory Rlc_Api_Invariant
  imports Rlc_Api_Claims
begin

text \<open>
  The table of UEs and bearers of RLC stays well formed whatever the calls of MAC, PDCP and RRC are.
\<close>

subsection \<open>The table stays well formed\<close>

text \<open>
  The calls of the interface. For a UE that comes back the DU makes the calls \<open>RemoveUe\<close> and \<open>UpdateId\<close>
  (\<^verbatim>\<open>mac_rrc_dl_handler.c\<close>), with the lock released in between.
\<close>

datatype rlc_call =
    DataInd int "(nat \<times> byte list) list"
  | MultiDataReq int nat "byte list" int
  | MacDataReq int nat "byte list"
  | StatusInd int "nat list"
  | RlcDataReq int bool int int "byte list"
  | SrbRecvSdu int nat "byte list"
  | TxSpace int nat
  | Occupancy int nat
  | LcidFromRb int bool int
  | ReleaseEntity int nat
  | AddSrb int int nr_rlc_bearer_config
  | AddDrb int int nr_rlc_bearer_config
  | ActivateSrb0 int
  | RemoveUe int
  | SetRlfHandler int "nat option"
  | ReestablishEntity int nat
  | UpdateId int int
  | TriggerReestablishment int
  | ReconfigureEntity int nat "nr_rlc_config option"
  | ActivateAvg int nat bool
  | GetStatistics int bool int

fun silent :: "nr_rlc_ue_manager c_result \<Rightarrow> (nr_rlc_ue_manager \<times> rlc_message list) c_result" where
  "silent (Inl f) = Inl f"
| "silent (Inr m) = Inr (m, [])"

fun with_messages :: "(nr_rlc_ue_manager \<times> rlc_message list \<times> 'a) c_result \<Rightarrow> (nr_rlc_ue_manager \<times> rlc_message list) c_result" where
  "with_messages (Inl f) = Inl f"
| "with_messages (Inr (m, msgs, _)) = Inr (m, msgs)"

fun rlc_step :: "nr_rlc_ue_manager \<Rightarrow> rlc_env \<times> rlc_call \<Rightarrow> (nr_rlc_ue_manager \<times> rlc_message list) c_result" where
  "rlc_step m (env, DataInd k data) = nr_mac_rlc_data_ind env m k data"
| "rlc_step m (env, MultiDataReq k ch buf n) = with_messages (nr_mac_rlc_multi_data_req env m k ch buf n)"
| "rlc_step m (env, MacDataReq k ch buf) = with_messages (nr_mac_rlc_data_req env m k ch buf)"
| "rlc_step m (env, StatusInd k chs) = with_messages (nr_mac_rlc_status_ind env m k chs)"
| "rlc_step m (env, RlcDataReq k srb rb mui sdu) = with_messages (nr_rlc_data_req env m k srb rb mui sdu)"
| "rlc_step m (env, SrbRecvSdu k ch buf) = with_messages (nr_rlc_srb_recv_sdu env m k ch buf)"
| "rlc_step m (env, TxSpace k ch) = silent (map_sum id fst (nr_rlc_get_available_tx_space m k ch))"
| "rlc_step m (env, Occupancy k ch) = silent (map_sum id fst (nr_rlc_tx_list_occupancy m k ch))"
| "rlc_step m (env, LcidFromRb k srb rb) = silent (Inr (fst (nr_rlc_get_lcid_from_rb m k srb rb)))"
| "rlc_step m (env, ReleaseEntity k ch) = silent (nr_rlc_release_entity m k ch)"
| "rlc_step m (env, AddSrb k n cfg) = silent (nr_rlc_add_srb m k n cfg)"
| "rlc_step m (env, AddDrb k n cfg) = silent (nr_rlc_add_drb m k n cfg)"
| "rlc_step m (env, ActivateSrb0 k) = silent (map_sum id fst (nr_rlc_activate_srb0 m k))"
| "rlc_step m (env, RemoveUe k) = silent (Inr (nr_rlc_remove_ue m k))"
| "rlc_step m (env, SetRlfHandler k h) = silent (Inr (nr_rlc_set_rlf_handler m k h))"
| "rlc_step m (env, ReestablishEntity k ch) = silent (nr_rlc_reestablish_entity m k ch)"
| "rlc_step m (env, UpdateId from_id to_id) =
     silent (nr_rlc_update_id m from_id to_id)"
| "rlc_step m (env, TriggerReestablishment k) = silent (nr_rlc_test_trigger_reestablishment m k)"
| "rlc_step m (env, ReconfigureEntity k ch cfg) = silent (nr_rlc_reconfigure_entity m k ch cfg)"
| "rlc_step m (env, ActivateAvg k ch is_on) = silent (nr_rlc_activate_avg_time_to_tx m k ch is_on)"
| "rlc_step m (env, GetStatistics k srb rb) = silent (map_sum id fst (nr_rlc_get_statistics (env_wall env) m k srb rb))"

subsection \<open>What the calls share\<close>

lemma on_entity_ok:
  assumes "on_entity env m i p f = Inr (m', msgs, x)" and "rlc_mgr_ok m" and "i < length (rlc_ue_list m)" and "keeps_kind f"
  shows "rlc_mgr_ok m' \<and> length (rlc_ue_list m') = length (rlc_ue_list m)"
proof -
  from assms(1) obtain e e' ups where e: "rb_entity (rlc_ue_list m ! i) p = Some e" and f: "f e = Inr (x, e', ups)"
    and m': "m' = put_rlc_ue m i (rb_update (rlc_ue_list m ! i) p e')" by (rule on_entityE)
  have u: "rlc_ue_ok (rlc_ue_list m ! i)" using assms(2,3) by (simp add: rlc_mgr_ok_def list_all_length)
  have "same_kind e e'" using assms(4) f unfolding keeps_kind_def by blast
  then have "rlc_ue_ok (rb_update (rlc_ue_list m ! i) p e')"
    by (intro rb_update_ok [OF u] kind_ok_same [OF rb_entity_kind [OF u e]])
  from put_rlc_ue_ok(1) [OF assms(2,3) this] show ?thesis by (simp add: m')
qed

lemma change_entity_ok:
  assumes "change_entity u p f = Inr u'" and "rlc_ue_ok u" and "\<And>e e'. f e = Inr e' \<Longrightarrow> same_kind e e'"
  shows "rlc_ue_ok u' \<and> rlc_ue_id u' = rlc_ue_id u"
proof -
  from assms(1) obtain e e' where e: "rb_entity u p = Some e" "f e = Inr e'" "u' = rb_update u p e'"
    by (auto simp: change_entity_def c_bind_eq_Inr_conv deref_def split: option.splits)
  show ?thesis
    by (simp add: e(3) rb_update_ok [OF assms(2) kind_ok_same [OF rb_entity_kind [OF assms(2) e(1)] assms(3) [OF e(2)]]])
qed

text \<open>A call that finds or makes the UE and then changes only it.\<close>

lemma changed_ue_ok:
  assumes "rlc_mgr_ok m" and "nr_rlc_manager_get_ue m k = (m1, i)"
    and "rlc_ue_ok (rlc_ue_list m1 ! i) \<Longrightarrow> rlc_ue_ok u \<and> rlc_ue_id u = rlc_ue_id (rlc_ue_list m1 ! i)"
  shows "rlc_mgr_ok (put_rlc_ue m1 i u)"
proof -
  note g = rlc_get_ue [OF assms(1,2)]
  show ?thesis using put_rlc_ue_ok(1) [OF g(1,2)] assms(3) [OF g(3)] by auto
qed

lemma recv_sdu_kind: "keeps_kind (timed now (recv_sdu_call env buf mui))"
  by (rule keeps_kind_timed [OF keeps_kind_calls(3)])

lemma rlc_status_loop_ok:
  "status_ind_loop env m i chs = Inr (m', msgs, xs) \<Longrightarrow> rlc_mgr_ok m \<Longrightarrow> i < length (rlc_ue_list m) \<Longrightarrow> rlc_mgr_ok m'"
proof (induction chs arbitrary: m msgs xs)
  case (Cons ch chs)
  from Cons.prems(1) obtain rb m1 a b c d where c1: "(case rb of None \<Rightarrow> Inr (m, [], 0) | Some p \<Rightarrow>
      on_entity env m i p (timed (env_now env) status_call)) = Inr (m1, a, b)"
    and l: "status_ind_loop env m1 i chs = Inr (m', c, d)" by (auto simp: c_bind_eq_Inr_conv)
  have "rlc_mgr_ok m1 \<and> length (rlc_ue_list m1) = length (rlc_ue_list m)"
    using c1 on_entity_ok [OF _ Cons.prems(2,3) keeps_kind_timed [OF keeps_kind_calls(2)]] Cons.prems(2)
    by (auto split: option.splits)
  with Cons.IH [OF l] Cons.prems(3) show ?case by simp
qed simp

text \<open>The calls of the data path.\<close>

lemma data_calls_ok:
  assumes "rlc_mgr_ok m"
  shows "nr_mac_rlc_data_ind env m k data = Inr (m', msgs) \<Longrightarrow> rlc_mgr_ok m'"
    and "nr_mac_rlc_multi_data_req env m k ch buf n = Inr (m', msgs, x) \<Longrightarrow> rlc_mgr_ok m'"
    and "nr_mac_rlc_data_req env m k ch buf = Inr (m', msgs, y) \<Longrightarrow> rlc_mgr_ok m'"
    and "nr_mac_rlc_status_ind env m k chs = Inr (m', msgs, z) \<Longrightarrow> rlc_mgr_ok m'"
    and "nr_rlc_data_req env m k srb rb mui buf = Inr (m', msgs, w) \<Longrightarrow> rlc_mgr_ok m'"
    and "nr_rlc_srb_recv_sdu env m k ch buf = Inr (m', msgs, w) \<Longrightarrow> rlc_mgr_ok m'"
proof -
  obtain m1 i where g: "nr_rlc_manager_get_ue m k = (m1, i)" by fastforce
  note ok = rlc_get_ue [OF assms g]
  note on = on_entity_ok [OF _ ok(1,2), THEN conjunct1]
  note on2 = on [OF _ keeps_kind_timed [OF keeps_kind_calls(4)]] and on3 = on [OF _ keeps_kind_timed [OF keeps_kind_calls(5)]]
    and on5 = on [OF _ recv_sdu_kind]
  show "nr_mac_rlc_data_ind env m k data = Inr (m', msgs) \<Longrightarrow> rlc_mgr_ok m'"
    using data_ind_loop_took [OF ok(2,3), of env data m' msgs] put_rlc_ue_ok(1) [OF ok(1,2)]
    by (auto simp: nr_mac_rlc_data_ind_def g ue_frame_def)
  show "nr_mac_rlc_multi_data_req env m k ch buf n = Inr (m', msgs, x) \<Longrightarrow> rlc_mgr_ok m'"
    using ok(1) on2 by (cases x) (auto simp: nr_mac_rlc_multi_data_req_def g c_bind_eq_Inr_conv split: option.splits)
  show "nr_mac_rlc_data_req env m k ch buf = Inr (m', msgs, y) \<Longrightarrow> rlc_mgr_ok m'"
    using ok(1) on3 by (cases y) (auto simp: nr_mac_rlc_data_req_def g c_bind_eq_Inr_conv split: option.splits)
  show "nr_mac_rlc_status_ind env m k chs = Inr (m', msgs, z) \<Longrightarrow> rlc_mgr_ok m'"
    using rlc_status_loop_ok [OF _ ok(1,2)] by (auto simp: nr_mac_rlc_status_ind_def g)
  show "nr_rlc_data_req env m k srb rb mui buf = Inr (m', msgs, w) \<Longrightarrow> rlc_mgr_ok m'"
    using ok(1) on5 by (auto simp: nr_rlc_data_req_def g split: option.splits if_splits)
  show "nr_rlc_srb_recv_sdu env m k ch buf = Inr (m', msgs, w) \<Longrightarrow> rlc_mgr_ok m'"
    using on5 by (auto simp: nr_rlc_srb_recv_sdu_def g c_bind_eq_Inr_conv Let_def split: if_splits)
qed

text \<open>The calls that only look.\<close>

lemma look_calls_ok:
  assumes "rlc_mgr_ok m"
  shows "nr_rlc_get_available_tx_space m k ch = Inr (m', x) \<Longrightarrow> rlc_mgr_ok m'"
    and "nr_rlc_tx_list_occupancy m k ch = Inr (m', x) \<Longrightarrow> rlc_mgr_ok m'"
    and "rlc_mgr_ok (fst (nr_rlc_get_lcid_from_rb m k srb n))"
proof -
  obtain m1 i where g: "nr_rlc_manager_get_ue m k = (m1, i)" by fastforce
  note ok = rlc_get_ue(1) [OF assms g]
  show "nr_rlc_get_available_tx_space m k ch = Inr (m', x) \<Longrightarrow> rlc_mgr_ok m'"
    using ok by (auto simp: nr_rlc_get_available_tx_space_def g c_bind_eq_Inr_conv Let_def)
  show "nr_rlc_tx_list_occupancy m k ch = Inr (m', x) \<Longrightarrow> rlc_mgr_ok m'"
    using ok by (auto simp: nr_rlc_tx_list_occupancy_def g c_bind_eq_Inr_conv Let_def)
  show "rlc_mgr_ok (fst (nr_rlc_get_lcid_from_rb m k srb n))"
    using ok by (simp add: nr_rlc_get_lcid_from_rb_def g)
qed

text \<open>The calls that change the entity of a bearer, or its pointer.\<close>

lemma rb_clear_id: "rlc_ue_ok u \<Longrightarrow> rlc_ue_ok (rb_clear u p) \<and> rlc_ue_id (rb_clear u p) = rlc_ue_id u"
  by (simp add: rb_clear_ok)

lemma release_from_lcid_ok:
  "release_rlc_entity_from_lcid u ch = Inr u' \<Longrightarrow> rlc_ue_ok u \<Longrightarrow> rlc_ue_ok u' \<and> rlc_ue_id u' = rlc_ue_id u"
  by (auto simp: release_rlc_entity_from_lcid_def c_bind_eq_Inr_conv rb_clear_ok split: option.splits if_splits)

lemma rlc_release_ok: "nr_rlc_release_entity m k ch = Inr m' \<Longrightarrow> rlc_mgr_ok m \<Longrightarrow> rlc_mgr_ok m'"
proof -
  assume a: "nr_rlc_release_entity m k ch = Inr m'" "rlc_mgr_ok m"
  obtain m1 i where g: "nr_rlc_manager_get_ue m k = (m1, i)" by fastforce
  show ?thesis
  proof (cases "ch = 0")
    case True
    with a(1) g have m': "m' = put_rlc_ue m1 i (rb_clear (rlc_ue_list m1 ! i) Srb0)" by (simp add: nr_rlc_release_entity_def)
    show ?thesis unfolding m' by (rule changed_ue_ok [OF a(2) g rb_clear_id])
  next
    case False
    with a(1) g obtain u where u: "release_rlc_entity_from_lcid (rlc_ue_list m1 ! i) ch = Inr u" "m' = put_rlc_ue m1 i u"
      by (auto simp: nr_rlc_release_entity_def c_bind_eq_Inr_conv)
    from changed_ue_ok [OF a(2) g release_from_lcid_ok [OF u(1)]] show ?thesis by (simp add: u(2))
  qed
qed

lemma keep_or_change:
  assumes "rlc_mgr_ok m" and "nr_rlc_manager_get_ue m k = (m1, i)" and "\<And>e e'. f e = Inr e' \<Longrightarrow> same_kind e e'"
    and "m' = m1 \<or> (\<exists>p u. change_entity (rlc_ue_list m1 ! i) p f = Inr u \<and> m' = put_rlc_ue m1 i u)"
  shows "rlc_mgr_ok m'"
  using assms(4)
proof (elim disjE exE conjE)
  assume "m' = m1"
  with rlc_get_ue(1) [OF assms(1,2)] show ?thesis by simp
next
  fix p u
  assume c: "change_entity (rlc_ue_list m1 ! i) p f = Inr u" "m' = put_rlc_ue m1 i u"
  show ?thesis unfolding c(2) by (rule changed_ue_ok [OF assms(1,2) change_entity_ok [OF c(1) _ assms(3)]])
qed

lemma change_calls_ok:
  assumes "rlc_mgr_ok m"
  shows "nr_rlc_reestablish_entity m k ch = Inr m' \<Longrightarrow> rlc_mgr_ok m'"
    and "nr_rlc_reconfigure_entity m k ch cfg = Inr m' \<Longrightarrow> rlc_mgr_ok m'"
    and "nr_rlc_activate_avg_time_to_tx m k ch is_on = Inr m' \<Longrightarrow> rlc_mgr_ok m'"
proof -
  obtain m1 i where g: "nr_rlc_manager_get_ue m k = (m1, i)" by fastforce
  show "nr_rlc_reestablish_entity m k ch = Inr m' \<Longrightarrow> rlc_mgr_ok m'"
    by (rule keep_or_change [OF assms g entity_calls_kind(5)])
      (auto simp: nr_rlc_reestablish_entity_def g c_bind_eq_Inr_conv Let_def split: option.splits)
  show "nr_rlc_reconfigure_entity m k ch cfg = Inr m' \<Longrightarrow> rlc_mgr_ok m'"
    by (rule keep_or_change [OF assms g reconfigure_kind])
      (auto simp: nr_rlc_reconfigure_entity_def g c_bind_eq_Inr_conv Let_def)
  let ?f = "\<lambda>e. let c = rlc_common e in
      Inr (rlc_set_common (c\<lparr>avg_time_is_on := is_on, avg_time_to_tx := time_average_reset (avg_time_to_tx c)\<rparr>) e)"
  have k: "?f e = Inr e' \<Longrightarrow> same_kind e e'" for e e' using entity_calls_kind(6) by (auto simp: Let_def)
  show "nr_rlc_activate_avg_time_to_tx m k ch is_on = Inr m' \<Longrightarrow> rlc_mgr_ok m'"
    by (rule keep_or_change [where f = ?f, OF assms g k])
      (auto simp: nr_rlc_activate_avg_time_to_tx_def g c_bind_eq_Inr_conv Let_def split: option.splits if_splits)
qed

lemma trigger_ok:
  assumes "nr_rlc_test_trigger_reestablishment m k = Inr m'" and "rlc_mgr_ok m"
  shows "rlc_mgr_ok m'"
proof -
  obtain m1 i where g: "nr_rlc_manager_get_ue m k = (m1, i)" by fastforce
  from assms(1) g obtain u v where u: "change_entity (rlc_ue_list m1 ! i) (Srb 0) rlc_reestablishment = Inr u"
    and v: "v = u \<or> change_entity u (Drb 0) rlc_reestablishment = Inr v" and m': "m' = put_rlc_ue m1 i v"
    by (auto simp: nr_rlc_test_trigger_reestablishment_def c_bind_eq_Inr_conv split: if_splits)
  have "rlc_ue_ok (rlc_ue_list m1 ! i) \<Longrightarrow> rlc_ue_ok v \<and> rlc_ue_id v = rlc_ue_id (rlc_ue_list m1 ! i)"
    using change_entity_ok [OF u _ entity_calls_kind(5)] v change_entity_ok [of u "Drb 0" rlc_reestablishment v, OF _ _ entity_calls_kind(5)]
    by auto
  from changed_ue_ok [OF assms(2) g this] show ?thesis by (simp add: m')
qed

lemma get_stats_kind: "rlc_get_stats wall e = Inr (out, e') \<Longrightarrow> same_kind e e'"
proof -
  assume "rlc_get_stats wall e = Inr (out, e')"
  then obtain sdu where "(let (out, c) = nr_rlc_entity_get_stats wall sdu (rlc_common e) in Inr (out, rlc_set_common c e)) = (Inr (out, e') :: _ c_result)"
    by (auto simp: rlc_get_stats_def c_bind_eq_Inr_conv)
  then show ?thesis using entity_calls_kind(6) [of e] by (cases "nr_rlc_entity_get_stats wall sdu (rlc_common e)") auto
qed

lemma statistics_ok:
  assumes "nr_rlc_get_statistics wall m k srb n = Inr (m', out)" and "rlc_mgr_ok m"
  shows "rlc_mgr_ok m'"
proof -
  obtain m1 i where g: "nr_rlc_manager_get_ue m k = (m1, i)" by fastforce
  note ok = rlc_get_ue [OF assms(2) g]
  define u p where "u = rlc_ue_list m1 ! i" and "p = (if srb then Srb (nat (n - 1)) else Drb (nat (n - 1)))"
  define rb where "rb = (if srb then (if 1 \<le> n \<and> n \<le> 2 then rb_entity u (Srb (nat (n - 1))) else None)
                else if 1 \<le> n \<and> n \<le> 5 then rb_entity u (Drb (nat (n - 1))) else None)"
  have rb: "rb = Some e \<Longrightarrow> rb_entity u p = Some e" for e by (auto simp: rb_def p_def split: if_splits)
  from assms(1) have r: "(case rb of None \<Rightarrow> Inr (m1, None)
      | Some e \<Rightarrow> c_bind (stats_call wall e) (\<lambda>(out, e). Inr (put_rlc_ue m1 i (rb_update u p e), Some out))) = Inr (m', out)"
    by (simp only: nr_rlc_get_statistics_def g Let_def prod.case rb_def p_def u_def)
  consider "m' = m1" | e x e' where "rb_entity u p = Some e" "stats_call wall e = Inr (x, e')" "m' = put_rlc_ue m1 i (rb_update u p e')"
  proof (cases rb)
    case (Some e)
    with r obtain x e' where "stats_call wall e = Inr (x, e')" "m' = put_rlc_ue m1 i (rb_update u p e')"
      by (auto simp: c_bind_eq_Inr_conv)
    with rb [OF Some] show ?thesis by (rule that(2))
  qed (use r that(1) in simp)
  then show ?thesis
  proof cases
    case 2
    have "same_kind e e'" using 2(2) get_stats_kind by (auto simp: stats_call_def c_bind_eq_Inr_conv)
    then have "rlc_ue_ok (rb_update u p e')"
      using ok(3) rb_update_ok kind_ok_same rb_entity_kind 2(1) unfolding u_def by blast
    then show ?thesis unfolding 2(3) by (intro changed_ue_ok [OF assms(2) g]) (simp add: u_def)
  qed (simp add: ok(1))
qed

text \<open>The calls that make, remove and rename UEs.\<close>

lemma rlc_remove_ok: "rlc_mgr_ok m \<Longrightarrow> rlc_mgr_ok (nr_rlc_remove_ue m k)"
  using rlc_ues.remove_distinct [of "rlc_ue_list m" k]
  by (auto simp: rlc_mgr_ok_def nr_rlc_remove_ue_def nr_rlc_manager_remove_ue_def rlc_ues.remove_eq list_all_iff
      dest: in_set_takeD in_set_dropD)

lemma set_handler_ok: "rlc_mgr_ok m \<Longrightarrow> rlc_mgr_ok (nr_rlc_set_rlf_handler m k h)"
proof -
  assume m: "rlc_mgr_ok m"
  obtain m1 i where g: "nr_rlc_manager_get_ue m k = (m1, i)" by fastforce
  have "rlc_ue_ok u \<Longrightarrow> rlc_ue_ok (u\<lparr>rlf_handler := h\<rparr>) \<and> rlc_ue_id (u\<lparr>rlf_handler := h\<rparr>) = rlc_ue_id u" for u
    by (simp add: rlc_ue_ok_def)
  from changed_ue_ok [OF m g this] show ?thesis by (simp add: nr_rlc_set_rlf_handler_def g)
qed

lemma activate_srb0_ok:
  assumes "nr_rlc_activate_srb0 m k = Inr (m', b)" and "rlc_mgr_ok m"
  shows "rlc_mgr_ok m'"
proof -
  obtain m1 i where g: "nr_rlc_manager_get_ue m k = (m1, i)" by fastforce
  from assms(1) g consider "m' = m1" | e where "m' = put_rlc_ue m1 i ((rlc_ue_list m1 ! i)\<lparr>rlc_srb0 := Some (RlcTm e, k)\<rparr>)"
    by (auto simp: nr_rlc_activate_srb0_def nr_rlc_ue_add_srb_rlc_entity_def c_bind_eq_Inr_conv Let_def split: if_splits)
  then show ?thesis
  proof cases
    case 2
    have "rlc_ue_ok u \<Longrightarrow> rlc_ue_ok (u\<lparr>rlc_srb0 := Some (RlcTm e, k)\<rparr>) \<and> rlc_ue_id (u\<lparr>rlc_srb0 := Some (RlcTm e, k)\<rparr>) = rlc_ue_id u" for u
      by (simp add: rlc_ue_ok_def)
    from changed_ue_ok [OF assms(2) g this] show ?thesis by (simp add: 2)
  qed (simp add: rlc_get_ue(1) [OF assms(2) g])
qed

text \<open>An identity that a UE may take: no other UE has it.\<close>

definition rlc_id_free :: "nr_rlc_ue_manager \<Rightarrow> int \<Rightarrow> int \<Rightarrow> bool" where
  "rlc_id_free m from_id to_id \<longleftrightarrow> to_id = from_id \<or> to_id \<notin> rlc_ue_id ` set (rlc_ue_list m)"

lemma update_id_ok:
  assumes "nr_rlc_update_id m from_id to_id = Inr m'" and "rlc_mgr_ok m" and "rlc_id_free m from_id to_id"
  shows "rlc_mgr_ok m'"
proof -
  obtain m1 i where g: "nr_rlc_manager_get_ue m from_id = (m1, i)" by fastforce
  note ok = rlc_get_ue [OF assms(2) g]
  define u where "u = (rlc_ue_list m1 ! i)\<lparr>rlc_ue_id := to_id\<rparr>"
  have u: "rlc_ue_ok u" "rlc_ue_id u = to_id" using ok(3) by (simp_all add: u_def rlc_ue_ok_def)
  from assms(1) g have "\<exists>v. m' = put_rlc_ue m1 i v \<and> (v = u \<or> change_entity u (Srb 0) rlc_reestablishment = Inr v)"
    by (auto simp: nr_rlc_update_id_def u_def Let_def c_bind_eq_Inr_conv split: if_splits)
  then obtain v where v: "m' = put_rlc_ue m1 i v" "v = u \<or> change_entity u (Srb 0) rlc_reestablishment = Inr v" by blast
  then have vk: "rlc_ue_ok v" "rlc_ue_id v = to_id" using u change_entity_ok [of u "Srb 0" rlc_reestablishment v, OF _ u(1) entity_calls_kind(5)] by auto
  have e: "rlc_ue_list m1 = fst (rlc_list_get (rlc_ue_list m) from_id)" using g by (auto simp: nr_rlc_manager_get_ue_def split: prod.splits)
  have fresh: "to_id \<notin> rlc_ue_id ` set (rlc_ue_list m1) \<or> to_id = from_id"
    using assms(3) by (auto simp: e rlc_list_get_def Let_def empty_rlc_ue_def rlc_id_free_def)
  have "distinct ((map rlc_ue_id (rlc_ue_list m1))[i := to_id])"
  proof (cases "to_id = from_id")
    case True
    then have "(map rlc_ue_id (rlc_ue_list m1))[i := to_id] = map rlc_ue_id (rlc_ue_list m1)"
      using ok(2,4) by (simp add: list_update_same_conv)
    then show ?thesis using ok(1) by (simp add: rlc_mgr_ok_def)
  next
    case False
    with fresh ok(1) show ?thesis by (intro distinct_list_update) (auto simp: rlc_mgr_ok_def)
  qed
  then show ?thesis
    using ok(1) vk set_update_subset_insert [of "rlc_ue_list m1" i v]
    by (auto simp: v(1) rlc_mgr_ok_def put_rlc_ue_def map_update list_all_iff)
qed

subsection \<open>Every call\<close>

text \<open>The identities in the configuration of a bearer are in the range that ASN.1 gives them.\<close>

fun call_ok :: "rlc_call \<Rightarrow> bool" where
  "call_ok (AddSrb k n cfg) = (case servedRadioBearer cfg of Some (ServedSrb b) \<Rightarrow> 1 \<le> b \<and> b \<le> 3 | _ \<Rightarrow> True)"
| "call_ok (AddDrb k n cfg) = (case servedRadioBearer cfg of Some (ServedDrb b) \<Rightarrow> 1 \<le> b \<and> b \<le> 32 | _ \<Rightarrow> True)"
| "call_ok _ = True"

lemma add_calls_ok:
  assumes "rlc_mgr_ok m"
  shows "nr_rlc_add_srb m k n cfg = Inr m' \<Longrightarrow> call_ok (AddSrb k n cfg) \<Longrightarrow> rlc_mgr_ok m'"
    and "nr_rlc_add_drb m k n cfg = Inr m' \<Longrightarrow> call_ok (AddDrb k n cfg) \<Longrightarrow> rlc_mgr_ok m'"
proof -
  obtain m1 i where g: "nr_rlc_manager_get_ue m k = (m1, i)" by fastforce
  note ok = rlc_get_ue(3) [OF assms g]
  show "rlc_mgr_ok m'" if "nr_rlc_add_srb m k n cfg = Inr m'" "call_ok (AddSrb k n cfg)"
  proof -
    from add_srb_added [OF that(1) g ok] obtain b where "servedRadioBearer cfg = Some (if True then ServedSrb b else ServedDrb b)" by auto
    with rlc_add_bearer [of m True, OF assms, of k n cfg m' b] that show ?thesis by simp
  qed
  show "rlc_mgr_ok m'" if "nr_rlc_add_drb m k n cfg = Inr m'" "call_ok (AddDrb k n cfg)"
  proof -
    from add_drb_added [OF that(1) g ok] obtain b where "servedRadioBearer cfg = Some (if False then ServedSrb b else ServedDrb b)" by auto
    with rlc_add_bearer [of m False, OF assms, of k n cfg m' b] that show ?thesis by simp
  qed
qed

text \<open>The condition on a call in a state, and on a run: an identity that is given to a UE is not that of another UE.\<close>

fun call_fresh :: "nr_rlc_ue_manager \<Rightarrow> rlc_call \<Rightarrow> bool" where
  "call_fresh m (UpdateId from_id to_id) = rlc_id_free m from_id to_id"
| "call_fresh m _ = True"

fun run_fresh :: "nr_rlc_ue_manager \<Rightarrow> (rlc_env \<times> rlc_call) list \<Rightarrow> bool" where
  "run_fresh m [] = True"
| "run_fresh m (ev # evs) =
     (call_fresh m (snd ev) \<and> (case rlc_step m ev of Inl _ \<Rightarrow> True | Inr (m', _) \<Rightarrow> run_fresh m' evs))"

lemma silent_Inr: "silent r = Inr (m', msgs) \<longleftrightarrow> r = Inr m' \<and> msgs = []"
  by (cases r) auto

lemma with_messages_Inr: "with_messages r = Inr (m', msgs) \<longleftrightarrow> (\<exists>x. r = Inr (m', msgs, x))"
  by (cases r) auto

lemma map_sum_fst_Inr: "map_sum id fst r = Inr a \<longleftrightarrow> (\<exists>b. r = Inr (a, b))"
  by (cases r) auto

lemmas rlc_calls_ok = data_calls_ok look_calls_ok rlc_release_ok change_calls_ok trigger_ok statistics_ok rlc_remove_ok set_handler_ok
  activate_srb0_ok add_calls_ok update_id_ok

lemma rlc_step_ok:
  assumes "rlc_step m ev = Inr (m', msgs)" and "call_ok (snd ev)" and "call_fresh m (snd ev)" and "rlc_mgr_ok m"
  shows "rlc_mgr_ok m'"
proof -
  obtain env c where ev: "ev = (env, c)" by (cases ev)
  from assms show ?thesis
    unfolding ev
    by (cases c)
      (auto simp only: rlc_step.simps call_fresh.simps silent_Inr with_messages_Inr map_sum_fst_Inr snd_conv sum.inject
        dest: rlc_calls_ok intro: rlc_calls_ok)
qed

lemma rlc_run_ok:
  "run_steps rlc_step m calls = Inr (m', msgs) \<Longrightarrow> list_all (\<lambda>x. call_ok (snd x)) calls \<Longrightarrow> run_fresh m calls \<Longrightarrow> rlc_mgr_ok m \<Longrightarrow>
   rlc_mgr_ok m'"
proof (induction calls arbitrary: m msgs)
  case (Cons ev evs)
  from Cons.prems(1) obtain m1 ds1 ds2 where "rlc_step m ev = Inr (m1, ds1)" "run_steps rlc_step m1 evs = Inr (m', ds2)"
    by (rule run_steps_ConsE)
  with Cons rlc_step_ok show ?case by auto
qed simp

text \<open>C7: the table of UEs and bearers of RLC is well formed after every sequence of calls of MAC, PDCP and RRC that
  does not stop the process, whatever the PDUs are and whatever the arguments, as long as the configuration of an added
  bearer names an SRB from 1 to 3 or a DRB from 1 to 32 and \<^verbatim>\<open>nr_rlc_update_id\<close> gives no UE the identity of another one: no two UEs have the same identity, every UE has its 3 and 32 pointers and 32 logical
  channels, SRB 0 is served by a TM entity, the other SRBs by AM entities and the DRBs by AM or UM entities, and the
  search for the entity of a logical channel up to 32 never fails.\<close>

theorem rlc_manager_invariant:
  assumes "run_steps rlc_step (new_nr_rlc_ue_manager md) calls = Inr (m, msgs)" and "list_all (\<lambda>x. call_ok (snd x)) calls"
    and "run_fresh (new_nr_rlc_ue_manager md) calls"
  shows "rlc_mgr_ok m \<and> (\<forall>k ch. ch \<le> 32 \<longrightarrow> (\<exists>rb. get_rlc_entity_from_lcid (rlc_ue_at m k) ch = Inr rb)) \<and>
    (\<forall>k p e. rlc_bearer m k p = Some e \<longrightarrow> kind_ok p e)"
proof -
  have new: "rlc_mgr_ok (new_nr_rlc_ue_manager md)" by (simp add: rlc_mgr_ok_def new_nr_rlc_ue_manager_def)
  note ok = rlc_run_ok [OF assms new]
  have u: "rlc_ue_ok (rlc_ue_at m k)" for k
    using ok empty_rlc_ue_ok by (auto simp: rlc_ue_at_def rlc_mgr_ok_def list_all_length ue_find_def split: option.splits if_splits)
  have "kind_ok p e" if "rlc_bearer m k p = Some e" for k p e
    using rb_entity_kind [OF u [of k]] that by (auto simp: rlc_bearer_def rlc_ue_at_def split: option.splits)
  with ok rlc_lcid_total [OF u] show ?thesis by blast
qed

lemma rlc_manager_invariant_witness:
  "\<exists>m. run_steps rlc_step (new_nr_rlc_ue_manager NR_RLC_OP_MODE_UE) [(still_env, ActivateSrb0 7), (still_env, AddDrb 7 1 um_bearer),
       (still_env, DataInd 7 small_block), (still_env, RlcDataReq 7 False 1 0 [8]), (still_env, RemoveUe 8), (still_env, UpdateId 7 8)] =
     Inr (m, [PdcpDataInd 7 False False 1 [8], InitialUlRrc 7 [9], PdcpDataInd 7 False False 1 [6]]) \<and> rlc_mgr_ok m"
proof -
  let ?calls = "[(still_env, ActivateSrb0 7), (still_env, AddDrb 7 1 um_bearer), (still_env, DataInd 7 small_block),
       (still_env, RlcDataReq 7 False 1 0 [8]), (still_env, RemoveUe 8), (still_env, UpdateId 7 8)]"
  have "map_sum id snd (run_steps rlc_step (new_nr_rlc_ue_manager NR_RLC_OP_MODE_UE) ?calls) =
      Inr [PdcpDataInd 7 False False 1 [8], InitialUlRrc 7 [9], PdcpDataInd 7 False False 1 [6]]" by code_simp
  then obtain m where m: "run_steps rlc_step (new_nr_rlc_ue_manager NR_RLC_OP_MODE_UE) ?calls =
      Inr (m, [PdcpDataInd 7 False False 1 [8], InitialUlRrc 7 [9], PdcpDataInd 7 False False 1 [6]])"
    by (elim map_sum_eq_InrE) (metis prod.collapse)
  have "list_all (\<lambda>x. call_ok (snd x)) ?calls" by (simp add: um_bearer_def)
  moreover have "run_fresh (new_nr_rlc_ue_manager NR_RLC_OP_MODE_UE) ?calls" by code_simp
  ultimately show ?thesis using rlc_manager_invariant [OF m] m by blast
qed

text \<open>
  Without that condition two UEs can have one identity: between the two calls that the DU makes for a UE that comes
  back, a call of MAC for the identity that was removed makes the UE again.
\<close>

lemma rlc_update_id_twice:
  "map_sum id (\<lambda>(m, msgs). map rlc_ue_id (rlc_ue_list m))
     (run_steps rlc_step (new_nr_rlc_ue_manager NR_RLC_OP_MODE_MONO_GNB)
       [(still_env, ActivateSrb0 7), (still_env, ActivateSrb0 8), (still_env, RemoveUe 8), (still_env, StatusInd 8 [4]),
        (still_env, UpdateId 7 8)]) = Inr [8, 8]"
  by code_simp

end
