(* ===== verification/Sdap.thy ===== *)
theory Sdap
  imports Ue_Table
begin

text \<open>
  SDAP (\<^verbatim>\<open>nr_sdap_entity.c\<close> and \<^verbatim>\<open>nr_sdap.c\<close>): the entities of the PDU sessions, the rules that map a QoS flow to a
  data radio bearer, the header of one byte, and the end markers of the UE. The list of entities and the list of
  TUN interfaces are the state; a pointer to an entity is its position in the list. What is handed to PDCP, to GTP-U
  and to the TUN device is returned.
\<close>

subsection \<open>Headers\<close>

text \<open>The bit fields, from the low bits on; a value that is stored in a field is cut to its width.\<close>

record nr_sdap_dl_hdr =
  dl_QFI :: int
  dl_RQI :: bool
  dl_RDI :: bool

record nr_sdap_ul_hdr =
  ul_QFI :: int
  ul_R :: bool
  ul_DC :: bool

definition sdap_hdr_byte :: "int \<Rightarrow> bool \<Rightarrow> bool \<Rightarrow> byte" where
  "sdap_hdr_byte qfi b6 b7 = word_of_int (qfi AND 0x3F) OR (if b6 then 0x40 else 0) OR (if b7 then 0x80 else 0)"

definition dl_hdr_byte :: "nr_sdap_dl_hdr \<Rightarrow> byte" where
  "dl_hdr_byte h = sdap_hdr_byte (dl_QFI h) (dl_RQI h) (dl_RDI h)"

definition ul_hdr_byte :: "nr_sdap_ul_hdr \<Rightarrow> byte" where
  "ul_hdr_byte h = sdap_hdr_byte (ul_QFI h) (ul_R h) (ul_DC h)"

definition sdap_hdr_qfi :: "byte \<Rightarrow> int" where
  "sdap_hdr_qfi b = uint (b AND 0x3F)"

definition dl_hdr_of :: "byte \<Rightarrow> nr_sdap_dl_hdr" where
  "dl_hdr_of b = \<lparr>dl_QFI = sdap_hdr_qfi b, dl_RQI = bit b 6, dl_RDI = bit b 7\<rparr>"

definition ul_hdr_of :: "byte \<Rightarrow> nr_sdap_ul_hdr" where
  "ul_hdr_of b = \<lparr>ul_QFI = sdap_hdr_qfi b, ul_R = bit b 6, ul_DC = bit b 7\<rparr>"

subsection \<open>Entities\<close>

definition SDAP_MAX_QFI :: int where "SDAP_MAX_QFI = 64"
definition SDAP_MAX_NUM_OF_ENTITIES :: nat where "SDAP_MAX_NUM_OF_ENTITIES = 32 * 40"
definition SDAP_MAX_DRBS :: int where "SDAP_MAX_DRBS = 32"

definition SDAP_UL_TX :: int where "SDAP_UL_TX = 1"
definition SDAP_UL_RX :: int where "SDAP_UL_RX = 2"
definition SDAP_DL_TX :: int where "SDAP_DL_TX = 4"
definition SDAP_DL_RX :: int where "SDAP_DL_RX = 8"

definition has_role :: "int \<Rightarrow> int \<Rightarrow> bool" where
  "has_role r x \<longleftrightarrow> r AND x \<noteq> 0"

text \<open>A rule; \<open>drb_of\<close> is 0 where there is none.\<close>

record qfi2drb =
  drb_of :: int
  entity_role :: int

record nr_sdap_entity =
  se_ue_id :: u64
  se_default_drb :: int
  se_is_gnb :: bool
  se_enable_sdap :: bool
  se_pdusession_id :: int
  se_sock :: int            \<comment> \<open>\<^verbatim>\<open>pdusession_sock\<close>\<close>
  se_stop_thread :: bool
  se_qfi :: int
  se_table :: "qfi2drb list"

text \<open>\<^verbatim>\<open>sdap_config_t\<close>: the arrays are cut to their counts.\<close>

record sdap_config_t =
  cfg_pdusession_id :: int
  cfg_drb_id :: int
  cfg_role :: int
  cfg_defaultDRB :: bool
  cfg_to_add :: "int list"
  cfg_to_release :: "int list"

datatype sdap_output =
    SdapToPdcp u64 int "byte list"             \<comment> \<open>\<^verbatim>\<open>nr_pdcp_data_req_drb\<close>: the UE, the DRB and the PDU\<close>
  | SdapToGtp u64 int "int option" "byte list" \<comment> \<open>\<^verbatim>\<open>gtpv1uSendDirect\<close>: the UE, the session and the QFI, if marked\<close>
  | SdapToTun int "byte list"                  \<comment> \<open>the write to the TUN socket\<close>

text \<open>An access to the table of rules.\<close>

definition rule_at :: "nr_sdap_entity \<Rightarrow> int \<Rightarrow> qfi2drb c_result" where
  "rule_at e qfi = (if 0 \<le> qfi \<and> qfi < int (length (se_table e)) then Inr (se_table e ! nat qfi) else Inl OutOfBounds)"

definition put_rule :: "nr_sdap_entity \<Rightarrow> int \<Rightarrow> qfi2drb \<Rightarrow> nr_sdap_entity c_result" where
  "put_rule e qfi r =
     (if 0 \<le> qfi \<and> qfi < int (length (se_table e)) then Inr (e\<lparr>se_table := (se_table e)[nat qfi := r]\<rparr>) else Inl OutOfBounds)"

subsection \<open>Rules\<close>

definition nr_sdap_qfi2drb_map_add :: "nr_sdap_entity \<Rightarrow> int \<Rightarrow> int \<Rightarrow> int \<Rightarrow> nr_sdap_entity c_result" where
  "nr_sdap_qfi2drb_map_add e qfi drb_id role = put_rule e qfi \<lparr>drb_of = drb_id, entity_role = role\<rparr>"

definition nr_sdap_qfi2drb_map_del :: "nr_sdap_entity \<Rightarrow> int \<Rightarrow> nr_sdap_entity c_result" where
  "nr_sdap_qfi2drb_map_del e qfi = put_rule e qfi \<lparr>drb_of = 0, entity_role = 0\<rparr>"

definition nr_sdap_qfi2drb :: "nr_sdap_entity \<Rightarrow> int \<Rightarrow> int c_result" where
  "nr_sdap_qfi2drb e qfi =
     c_bind (rule_at e qfi) (\<lambda>r.
     Inr (if drb_of r \<noteq> 0 then drb_of r else if se_default_drb e \<noteq> 0 then se_default_drb e else 0))"

definition nr_sdap_construct_ctrl_pdu :: "int \<Rightarrow> nr_sdap_ul_hdr" where
  "nr_sdap_construct_ctrl_pdu qfi = \<lparr>ul_QFI = qfi AND 0x3F, ul_R = False, ul_DC = False\<rparr>"

datatype sdap_ctrl_map = SDAP_CTRL_PDU_MAP_DEF_DRB | SDAP_CTRL_PDU_MAP_RULE_DRB

definition nr_sdap_map_ctrl_pdu :: "nr_sdap_entity \<Rightarrow> sdap_ctrl_map \<Rightarrow> int \<Rightarrow> int c_result" where
  "nr_sdap_map_ctrl_pdu e map_type dl_qfi =
     (case map_type of
        SDAP_CTRL_PDU_MAP_DEF_DRB \<Rightarrow> Inr (se_default_drb e)
      | SDAP_CTRL_PDU_MAP_RULE_DRB \<Rightarrow> nr_sdap_qfi2drb e dl_qfi)"

definition nr_pdcp_submit_sdap_ctrl_pdu :: "u64 \<Rightarrow> int \<Rightarrow> nr_sdap_ul_hdr \<Rightarrow> sdap_output" where
  "nr_pdcp_submit_sdap_ctrl_pdu ue drb h = SdapToPdcp ue drb [ul_hdr_byte h]"

definition nr_sdap_submit_ctrl_pdu :: "u64 \<Rightarrow> int \<Rightarrow> nr_sdap_ul_hdr \<Rightarrow> sdap_output list" where
  "nr_sdap_submit_ctrl_pdu ue drb h = (if drb \<noteq> 0 then [nr_pdcp_submit_sdap_ctrl_pdu ue drb h] else [])"

text \<open>The three calls that send an end marker.\<close>

definition send_end_marker :: "nr_sdap_entity \<Rightarrow> u64 \<Rightarrow> sdap_ctrl_map \<Rightarrow> int \<Rightarrow> sdap_output list c_result" where
  "send_end_marker e ue map_type qfi =
     c_bind (nr_sdap_map_ctrl_pdu e map_type qfi) (\<lambda>drb.
     Inr (nr_sdap_submit_ctrl_pdu ue drb (nr_sdap_construct_ctrl_pdu qfi)))"

subsection \<open>Data\<close>

text \<open>
  \<^verbatim>\<open>nr_sdap_tx_entity\<close>: the request to PDCP, whose result is the result of the call; \<open>None\<close> where it returns false
  before. The buffer is not NULL.
\<close>

definition nr_sdap_tx_entity :: "nr_sdap_entity \<Rightarrow> u64 \<Rightarrow> byte list \<Rightarrow> int \<Rightarrow> bool \<Rightarrow> sdap_output option c_result" where
  "nr_sdap_tx_entity e ctxt_ue sdu_buffer qfi rqi =
     c_bind (nr_sdap_qfi2drb e qfi) (\<lambda>drb_id.
     if drb_id = 0 then Inr None
     else c_bind (rule_at e qfi) (\<lambda>r.
       let sdap_ul_tx = has_role (entity_role r) SDAP_UL_TX;
           sdap_dl_tx = has_role (entity_role r) SDAP_DL_TX
       in if \<not> sdap_ul_tx \<and> \<not> sdap_dl_tx then Inr (Some (SdapToPdcp ctxt_ue drb_id sdu_buffer))
          else if length sdu_buffer = 0 \<or> length sdu_buffer > 8999 then Inr None
          else if sdap_dl_tx
          then Inr (Some (SdapToPdcp ctxt_ue drb_id (dl_hdr_byte \<lparr>dl_QFI = qfi AND 0x3F, dl_RQI = rqi, dl_RDI = False\<rparr> # sdu_buffer)))
          else Inr (Some (SdapToPdcp ctxt_ue drb_id (ul_hdr_byte \<lparr>ul_QFI = qfi AND 0x3F, ul_R = False, ul_DC = rqi\<rparr> # sdu_buffer)))))"

text \<open>The reflective mapping of a DL PDU that comes on the bearer \<open>pdcp_entity\<close>.\<close>

definition reflective_mapping :: "nr_sdap_entity \<Rightarrow> u64 \<Rightarrow> int \<Rightarrow> int \<Rightarrow> (nr_sdap_entity \<times> sdap_output list) c_result" where
  "reflective_mapping e ue pdcp_entity qfi =
     c_bind (rule_at e qfi) (\<lambda>r.
     c_bind (if drb_of r = 0 \<and> se_default_drb e \<noteq> 0 then send_end_marker e ue SDAP_CTRL_PDU_MAP_DEF_DRB qfi else Inr []) (\<lambda>out1.
     c_bind (if pdcp_entity \<noteq> drb_of r then send_end_marker e ue SDAP_CTRL_PDU_MAP_RULE_DRB qfi else Inr []) (\<lambda>out2.
     c_bind (put_rule e qfi (r\<lparr>drb_of := pdcp_entity\<rparr>)) (\<lambda>e. Inr (e, out1 @ out2)))))"

text \<open>What the gNB and the UE do with a PDU; \<open>ul_rx\<close> and \<open>dl_rx\<close> are the roles of its rule.\<close>

definition sdap_rx_gnb :: "bool \<Rightarrow> int \<Rightarrow> int \<Rightarrow> u64 \<Rightarrow> byte list \<Rightarrow> sdap_output list c_result" where
  "sdap_rx_gnb ul_rx qfi pdusession_id ue buf =
     (if ul_rx
      then c_bind (c_check AssertFail (0 \<le> qfi \<and> qfi < SDAP_MAX_QFI)) (\<lambda>_.
           c_bind (rd buf 0) (\<lambda>b.
           c_bind (c_check AssertFail (ul_QFI (ul_hdr_of b) = qfi)) (\<lambda>_.
           Inr [SdapToGtp ue pdusession_id (Some qfi) (drop 1 buf)])))
      else c_bind (c_check AssertFail (qfi = - 1)) (\<lambda>_. Inr [SdapToGtp ue pdusession_id None buf]))"

definition sdap_rx_ue :: "nr_sdap_entity \<Rightarrow> bool \<Rightarrow> int \<Rightarrow> u64 \<Rightarrow> byte list \<Rightarrow> (nr_sdap_entity \<times> sdap_output list) c_result" where
  "sdap_rx_ue e dl_rx pdcp_entity ue buf =
     c_bind (if dl_rx
             then c_bind (rd buf 0) (\<lambda>b.
                  c_bind (if dl_RDI (dl_hdr_of b) then reflective_mapping e ue pdcp_entity (dl_QFI (dl_hdr_of b)) else Inr (e, []))
                    (\<lambda>(e, out). Inr (e, out, 1)))
             else Inr (e, [], 0)) (\<lambda>(e, out, offset).
     Inr (e, out @ (if se_sock e < 0 then [] else [SdapToTun (se_sock e) (drop offset buf)])))"

definition nr_sdap_rx_entity ::
  "nr_sdap_entity \<Rightarrow> int \<Rightarrow> bool \<Rightarrow> int \<Rightarrow> u64 \<Rightarrow> byte list \<Rightarrow> (nr_sdap_entity \<times> sdap_output list) c_result" where
  "nr_sdap_rx_entity e pdcp_entity is_gnb pdusession_id ue buf =
     c_bind (if se_enable_sdap e
             then c_bind (rd buf 0) (\<lambda>b.
                  let qfi = sdap_hdr_qfi b
                  in if qfi \<ge> SDAP_MAX_QFI then Inr None
                     else c_bind (rule_at e qfi) (\<lambda>r. Inr (if drb_of r = 0 then None else Some (qfi, entity_role r))))
             else Inr (Some (- 1, 0))) (\<lambda>x.
     case x of
       None \<Rightarrow> Inr (e, [])
     | Some (qfi, role) \<Rightarrow>
         if is_gnb then c_bind (sdap_rx_gnb (has_role role SDAP_UL_RX) qfi pdusession_id ue buf) (\<lambda>out. Inr (e, out))
         else sdap_rx_ue e (has_role role SDAP_DL_RX) pdcp_entity ue buf)"

subsection \<open>Configuration of an entity\<close>

text \<open>A QFI of the configuration is read in an \<^verbatim>\<open>uint8_t\<close>.\<close>

fun nr_sdap_ue_control_pdu_config :: "nr_sdap_entity \<Rightarrow> u64 \<Rightarrow> int \<Rightarrow> int list \<Rightarrow> sdap_output list c_result" where
  "nr_sdap_ue_control_pdu_config e ue drb [] = Inr []"
| "nr_sdap_ue_control_pdu_config e ue drb (x # xs) =
     (let qfi = x mod 256
      in c_bind (if se_default_drb e \<noteq> 0
                 then c_bind (rule_at e qfi) (\<lambda>r. if drb_of r = 0 then send_end_marker e ue SDAP_CTRL_PDU_MAP_DEF_DRB qfi else Inr [])
                 else Inr []) (\<lambda>out1.
         c_bind (rule_at e qfi) (\<lambda>r.
         c_bind (if drb_of r \<noteq> drb \<and> has_role (entity_role r) SDAP_UL_TX then send_end_marker e ue SDAP_CTRL_PDU_MAP_RULE_DRB qfi else Inr []) (\<lambda>out2.
         c_bind (nr_sdap_ue_control_pdu_config e ue drb xs) (\<lambda>out3. Inr (out1 @ out2 @ out3))))))"

fun nr_sdap_add_qos_flows_to_drb :: "nr_sdap_entity \<Rightarrow> int \<Rightarrow> int \<Rightarrow> int list \<Rightarrow> nr_sdap_entity c_result" where
  "nr_sdap_add_qos_flows_to_drb e drb role [] = Inr e"
| "nr_sdap_add_qos_flows_to_drb e drb role (x # xs) =
     (let qfi = x mod 256
      in c_bind (if qfi < SDAP_MAX_QFI \<and> drb > 0 \<and> drb \<le> SDAP_MAX_DRBS then nr_sdap_qfi2drb_map_add e qfi drb role else Inr e) (\<lambda>e.
         nr_sdap_add_qos_flows_to_drb e drb role xs))"

fun nr_sdap_rm_qos_flows_from_drb :: "nr_sdap_entity \<Rightarrow> int list \<Rightarrow> nr_sdap_entity c_result" where
  "nr_sdap_rm_qos_flows_from_drb e [] = Inr e"
| "nr_sdap_rm_qos_flows_from_drb e (x # xs) =
     c_bind (nr_sdap_qfi2drb_map_del e (x mod 256)) (\<lambda>e. nr_sdap_rm_qos_flows_from_drb e xs)"

definition nr_sdap_qfi2drb_map_update :: "nr_sdap_entity \<Rightarrow> sdap_config_t \<Rightarrow> (nr_sdap_entity \<times> sdap_output list) c_result" where
  "nr_sdap_qfi2drb_map_update e sdap =
     c_bind (c_check AssertFail (se_enable_sdap e \<or> (\<forall>r \<in> set (se_table e). drb_of r \<noteq> 0 \<longrightarrow> drb_of r = cfg_drb_id sdap))) (\<lambda>_.
     c_bind (if \<not> se_is_gnb e then nr_sdap_ue_control_pdu_config e (se_ue_id e) (cfg_drb_id sdap) (cfg_to_add sdap) else Inr []) (\<lambda>out.
     c_bind (nr_sdap_add_qos_flows_to_drb e (cfg_drb_id sdap) (cfg_role sdap mod 256) (cfg_to_add sdap)) (\<lambda>e.
     c_bind (nr_sdap_rm_qos_flows_from_drb e (cfg_to_release sdap)) (\<lambda>e. Inr (e, out)))))"

end
