(* ===== verification/Sdap_List.thy ===== *)
theory Sdap_List
  imports Sdap
begin

text \<open>
  The entities of all PDU sessions and their TUN interfaces: the calls of RRC, PDCP, GTP-U and NAS. The sockets that the
  operating system returns and the mode without a core network are arguments; names and addresses of interfaces, and the
  start and stop of threads, are not part of the state.
\<close>

record sdap_tun_iface =
  if_ue_id :: u64
  if_pdusession_id :: int
  if_sock :: int
  if_qfi :: int

record sdap_info =
  sdap_entities :: "nr_sdap_entity list"
  sdap_tuns :: "sdap_tun_iface list"

record sdap_env =
  env_nos1 :: bool
  env_dup :: "int \<Rightarrow> int"                  \<comment> \<open>\<^verbatim>\<open>dup\<close> of a socket, negative on failure\<close>
  env_tuntap_alloc :: "u64 \<Rightarrow> int \<Rightarrow> int"  \<comment> \<open>the socket of a new interface\<close>

subsection \<open>TUN interfaces\<close>

fun sdap_tun_iface_lookup :: "sdap_tun_iface list \<Rightarrow> u64 \<Rightarrow> int \<Rightarrow> nat option" where
  "sdap_tun_iface_lookup [] ue ps = None"
| "sdap_tun_iface_lookup (t # ts) ue ps =
     (if if_ue_id t = ue \<and> if_pdusession_id t = ps then Some 0 else map_option Suc (sdap_tun_iface_lookup ts ue ps))"

definition nr_sdap_tun_store_qfi :: "sdap_tun_iface list \<Rightarrow> u64 \<Rightarrow> int \<Rightarrow> int \<Rightarrow> sdap_tun_iface list c_result" where
  "nr_sdap_tun_store_qfi ts ue ps qfi =
     c_bind (c_check AssertFail (qfi < SDAP_MAX_QFI)) (\<lambda>_.
     Inr (case sdap_tun_iface_lookup ts ue ps of None \<Rightarrow> ts | Some i \<Rightarrow> ts[i := (ts ! i)\<lparr>if_qfi := qfi\<rparr>]))"

definition nr_sdap_tun_attach :: "sdap_env \<Rightarrow> sdap_tun_iface list \<Rightarrow> nr_sdap_entity \<Rightarrow> nr_sdap_entity" where
  "nr_sdap_tun_attach env ts e =
     (if se_sock e \<ge> 0 then e
      else case sdap_tun_iface_lookup ts (se_ue_id e) (se_pdusession_id e) of
        None \<Rightarrow> e
      | Some i \<Rightarrow>
          let t = ts ! i;
              e = (if \<not> se_is_gnb e \<and> if_qfi t \<ge> 0 \<and> if_qfi t < SDAP_MAX_QFI then e\<lparr>se_qfi := if_qfi t\<rparr> else e);
              d = env_dup env (if_sock t);
              e = e\<lparr>se_sock := d\<rparr>
          in if d < 0 then e else e\<lparr>se_stop_thread := False\<rparr>)"

definition nr_sdap_tun_detach :: "sdap_tun_iface list \<Rightarrow> nr_sdap_entity \<Rightarrow> sdap_tun_iface list \<times> nr_sdap_entity" where
  "nr_sdap_tun_detach ts e =
     ((if \<not> se_is_gnb e
       then case sdap_tun_iface_lookup ts (se_ue_id e) (se_pdusession_id e) of
              Some i \<Rightarrow> if se_qfi e \<ge> 0 \<and> se_qfi e < SDAP_MAX_QFI then ts[i := (ts ! i)\<lparr>if_qfi := se_qfi e\<rparr>] else ts
            | None \<Rightarrow> ts
       else ts),
      if se_sock e < 0 then e else e\<lparr>se_stop_thread := True, se_sock := - 1\<rparr>)"

definition nr_sdap_tun_destroy :: "sdap_tun_iface list \<Rightarrow> u64 \<Rightarrow> int \<Rightarrow> sdap_tun_iface list" where
  "nr_sdap_tun_destroy ts ue ps =
     (case sdap_tun_iface_lookup ts ue ps of None \<Rightarrow> ts | Some i \<Rightarrow> take i ts @ drop (Suc i) ts)"

definition remove_ip_if :: "sdap_tun_iface list \<Rightarrow> nr_sdap_entity \<Rightarrow> sdap_tun_iface list" where
  "remove_ip_if ts e =
     (let (ts, e) = nr_sdap_tun_detach ts e
      in if \<not> se_is_gnb e then ts else nr_sdap_tun_destroy ts (se_ue_id e) (se_pdusession_id e))"

subsection \<open>The list of entities\<close>

text \<open>The loop stops at the last entity.\<close>

fun nr_sdap_get_entity :: "nr_sdap_entity list \<Rightarrow> u64 \<Rightarrow> int \<Rightarrow> nat option" where
  "nr_sdap_get_entity [] ue ps = None"
| "nr_sdap_get_entity (e # es) ue ps =
     (if (se_ue_id e \<noteq> ue \<or> se_pdusession_id e \<noteq> ps) \<and> es \<noteq> [] then map_option Suc (nr_sdap_get_entity es ue ps)
      else if se_ue_id e = ue \<and> se_pdusession_id e = ps then Some 0 else None)"

definition put_entity :: "sdap_info \<Rightarrow> nat \<Rightarrow> nr_sdap_entity \<Rightarrow> sdap_info" where
  "put_entity s i e = s\<lparr>sdap_entities := (sdap_entities s)[i := e]\<rparr>"

definition sdap_tun_iface_register :: "sdap_info \<Rightarrow> u64 \<Rightarrow> int \<Rightarrow> int \<Rightarrow> sdap_info c_result" where
  "sdap_tun_iface_register s ue ps sock =
     c_bind (c_check AssertFail (sdap_tun_iface_lookup (sdap_tuns s) ue ps = None)) (\<lambda>_.
     let qfi = (case nr_sdap_get_entity (sdap_entities s) ue ps of
                  None \<Rightarrow> - 1
                | Some i \<Rightarrow> let e = sdap_entities s ! i
                           in if \<not> se_is_gnb e \<and> se_qfi e \<ge> 0 \<and> se_qfi e < SDAP_MAX_QFI then se_qfi e else - 1)
     in Inr (s\<lparr>sdap_tuns := \<lparr>if_ue_id = ue, if_pdusession_id = ps, if_sock = sock, if_qfi = qfi\<rparr> # sdap_tuns s\<rparr>))"

text \<open>\<^verbatim>\<open>start_sdap_tun_gnb_first_ue_default_pdu_session\<close> and \<^verbatim>\<open>start_sdap_tun_ue\<close>, for the two sides.\<close>

definition start_sdap_tun :: "sdap_env \<Rightarrow> bool \<Rightarrow> sdap_info \<Rightarrow> u64 \<Rightarrow> int \<Rightarrow> sdap_info c_result" where
  "start_sdap_tun env gnb s ue ps =
     (case nr_sdap_get_entity (sdap_entities s) ue ps of
        None \<Rightarrow> Inl AssertFail
      | Some i \<Rightarrow>
          c_bind (c_check AssertFail (se_is_gnb (sdap_entities s ! i) = gnb)) (\<lambda>_.
          c_bind (sdap_tun_iface_register s ue ps (env_tuntap_alloc env ue ps)) (\<lambda>s.
          Inr (put_entity s i (nr_sdap_tun_attach env (sdap_tuns s) (sdap_entities s ! i))))))"

text \<open>\<^verbatim>\<open>create_ue_ip_if\<close> and \<^verbatim>\<open>create_ue_eth_if\<close> differ in the configuration of the device only.\<close>

definition create_ue_if :: "sdap_env \<Rightarrow> sdap_info \<Rightarrow> u64 \<Rightarrow> int \<Rightarrow> sdap_info c_result" where
  "create_ue_if env s ue ps =
     (if sdap_tun_iface_lookup (sdap_tuns s) ue ps = None then start_sdap_tun env False s ue ps
      else case nr_sdap_get_entity (sdap_entities s) ue ps of
             None \<Rightarrow> Inr s
           | Some i \<Rightarrow> Inr (put_entity s i (nr_sdap_tun_attach env (sdap_tuns s) (sdap_entities s ! i))))"

definition nr_sdap_add_entity :: "sdap_env \<Rightarrow> bool \<Rightarrow> sdap_info \<Rightarrow> u64 \<Rightarrow> sdap_config_t \<Rightarrow> sdap_info c_result" where
  "nr_sdap_add_entity env is_gnb s ue sdap =
     (let e = \<lparr>se_ue_id = ue, se_default_drb = (if cfg_defaultDRB sdap then cfg_drb_id sdap else 0), se_is_gnb = is_gnb,
               se_enable_sdap = (cfg_role sdap \<noteq> 0), se_pdusession_id = cfg_pdusession_id sdap, se_sock = - 1,
               se_stop_thread = False, se_qfi = 0, se_table = replicate (nat SDAP_MAX_QFI) \<lparr>drb_of = 0, entity_role = 0\<rparr>\<rparr>
      in c_bind (c_check AssertFail (se_enable_sdap e \<or> length (cfg_to_add sdap) \<le> 1)) (\<lambda>_.
         c_bind (nr_sdap_add_qos_flows_to_drb e (cfg_drb_id sdap) (cfg_role sdap mod 256) (cfg_to_add sdap)) (\<lambda>e.
         let s = s\<lparr>sdap_entities := e # sdap_entities s\<rparr>
         in c_bind (if env_nos1 env \<and> is_gnb then start_sdap_tun env True s ue (se_pdusession_id e) else Inr s) (\<lambda>s.
            Inr (if is_gnb then s else put_entity s 0 (nr_sdap_tun_attach env (sdap_tuns s) (sdap_entities s ! 0)))))))"

definition nr_sdap_addmod_entity ::
  "sdap_env \<Rightarrow> bool \<Rightarrow> sdap_info \<Rightarrow> u64 \<Rightarrow> sdap_config_t \<Rightarrow> (sdap_info \<times> sdap_output list) c_result" where
  "nr_sdap_addmod_entity env is_gnb s ue sdap =
     (case nr_sdap_get_entity (sdap_entities s) ue (cfg_pdusession_id sdap) of
        Some i \<Rightarrow> c_bind (nr_sdap_qfi2drb_map_update (sdap_entities s ! i) sdap) (\<lambda>(e, out). Inr (put_entity s i e, out))
      | None \<Rightarrow> c_bind (nr_sdap_add_entity env is_gnb s ue sdap) (\<lambda>s. Inr (s, [])))"

definition nr_sdap_release_drb :: "sdap_info \<Rightarrow> u64 \<Rightarrow> int \<Rightarrow> int \<Rightarrow> sdap_info" where
  "nr_sdap_release_drb s ue drb_id ps =
     (case nr_sdap_get_entity (sdap_entities s) ue ps of
        None \<Rightarrow> s
      | Some i \<Rightarrow>
          let e = sdap_entities s ! i
          in put_entity s i (e\<lparr>se_table := map (\<lambda>r. if drb_of r = drb_id then r\<lparr>drb_of := 0\<rparr> else r) (se_table e)\<rparr>))"

text \<open>
  \<^verbatim>\<open>nr_sdap_entity_update_qos_flows\<close>: the QFIs are bytes; the array of the QFIs to add has \<open>SDAP_MAX_QFI\<close> elements and
  their number is kept in a byte.
\<close>

definition qfis_to_release :: "nr_sdap_entity \<Rightarrow> int \<Rightarrow> int list \<Rightarrow> int list" where
  "qfis_to_release e drb_id qfis =
     filter (\<lambda>q. drb_of (se_table e ! nat q) = drb_id \<and> q \<notin> set qfis) [0..SDAP_MAX_QFI - 1]"

definition nr_sdap_entity_update_qos_flows ::
  "sdap_info \<Rightarrow> u64 \<Rightarrow> int \<Rightarrow> int \<Rightarrow> int list \<Rightarrow> (sdap_info \<times> sdap_output list) c_result" where
  "nr_sdap_entity_update_qos_flows s ue ps drb_id qfis =
     (case nr_sdap_get_entity (sdap_entities s) ue ps of
        None \<Rightarrow> Inr (s, [])
      | Some i \<Rightarrow>
          let e = sdap_entities s ! i;
              role = (if se_enable_sdap e then if se_is_gnb e then SDAP_UL_RX OR SDAP_DL_TX else SDAP_UL_TX OR SDAP_DL_RX else 0)
          in c_bind (c_check OutOfBounds (int (length qfis) \<le> SDAP_MAX_QFI)) (\<lambda>_.
             c_bind (nr_sdap_qfi2drb_map_update e
                \<lparr>cfg_pdusession_id = ps, cfg_drb_id = drb_id, cfg_role = role, cfg_defaultDRB = (se_default_drb e = drb_id),
                 cfg_to_add = qfis, cfg_to_release = qfis_to_release e drb_id qfis\<rparr>) (\<lambda>(e, out).
             Inr (put_entity s i e, out))))"

text \<open>
  \<^verbatim>\<open>nr_sdap_delete_entity\<close> counts at most \<open>SDAP_MAX_NUM_OF_ENTITIES\<close> steps; an empty list is followed, unless the session is out
  of range as well.
\<close>

fun sdap_delete_loop :: "nat \<Rightarrow> nr_sdap_entity list \<Rightarrow> u64 \<Rightarrow> int \<Rightarrow> (nr_sdap_entity \<times> nr_sdap_entity list) option" where
  "sdap_delete_loop k [] ue ps = None"
| "sdap_delete_loop k (e # es) ue ps =
     (if se_ue_id e = ue \<and> se_pdusession_id e = ps then Some (e, es)
      else if es \<noteq> [] \<and> 0 < k then map_option (map_prod id ((#) e)) (sdap_delete_loop (k - 1) es ue ps) else None)"

definition nr_sdap_delete_entity :: "sdap_info \<Rightarrow> u64 \<Rightarrow> int \<Rightarrow> (sdap_info \<times> bool) c_result" where
  "nr_sdap_delete_entity s ue ps =
     (if sdap_entities s = [] \<and> (ps < 0 \<or> ps > 256) then Inr (s, False)
      else if sdap_entities s = [] then Inl NullDeref
      else case sdap_delete_loop SDAP_MAX_NUM_OF_ENTITIES (sdap_entities s) ue ps of
             None \<Rightarrow> Inr (s, False)
           | Some (e, es) \<Rightarrow> Inr (\<lparr>sdap_entities = es, sdap_tuns = remove_ip_if (sdap_tuns s) e\<rparr>, True))"

fun sdap_delete_heads ::
  "sdap_tun_iface list \<Rightarrow> nr_sdap_entity list \<Rightarrow> u64 \<Rightarrow> sdap_tun_iface list \<times> nr_sdap_entity list \<times> bool" where
  "sdap_delete_heads ts [] ue = (ts, [], False)"
| "sdap_delete_heads ts (e # es) ue =
     (if se_ue_id e = ue then let (ts, es, _) = sdap_delete_heads (remove_ip_if ts e) es ue in (ts, es, True)
      else (ts, e # es, False))"

fun sdap_delete_others ::
  "sdap_tun_iface list \<Rightarrow> nr_sdap_entity list \<Rightarrow> u64 \<Rightarrow> sdap_tun_iface list \<times> nr_sdap_entity list \<times> bool" where
  "sdap_delete_others ts [] ue = (ts, [], False)"
| "sdap_delete_others ts (e # es) ue =
     (if se_ue_id e \<noteq> ue then let (ts, es, b) = sdap_delete_others ts es ue in (ts, e # es, b)
      else let (ts, es, _) = sdap_delete_others (remove_ip_if ts e) es ue in (ts, es, True))"

definition nr_sdap_delete_ue_entities :: "sdap_info \<Rightarrow> u64 \<Rightarrow> sdap_info \<times> bool" where
  "nr_sdap_delete_ue_entities s ue =
     (if sdap_entities s = [] \<and> ue * (ue - 65536) > 0 then (s, False)
      else let (ts, es, b1) = sdap_delete_heads (sdap_tuns s) (sdap_entities s) ue;
               (ts, es, b2) = sdap_delete_others ts es ue
           in (\<lparr>sdap_entities = es, sdap_tuns = ts\<rparr>, b1 \<or> b2))"

subsection \<open>Configuration by RRC\<close>

text \<open>The fields of \<^verbatim>\<open>NR_SDAP_Config_t\<close>; an optional list is an \<open>option\<close>. A count is kept in a byte.\<close>

record nr_sdap_config_ie =
  ie_pdu_Session :: int
  ie_sdap_HeaderUL :: bool
  ie_sdap_HeaderDL :: bool
  ie_defaultDRB :: bool
  ie_mappedQoS_FlowsToAdd :: "int list option"
  ie_mappedQoS_FlowsToRelease :: "int list option"

definition get_sdap_role :: "bool \<Rightarrow> nr_sdap_config_ie \<Rightarrow> int" where
  "get_sdap_role is_gnb c =
     (if ie_sdap_HeaderUL c then if is_gnb then SDAP_UL_RX else SDAP_UL_TX else 0) OR
     (if ie_sdap_HeaderDL c then if is_gnb then SDAP_DL_TX else SDAP_DL_RX else 0)"

definition config_qfis :: "int list option \<Rightarrow> int list c_result" where
  "config_qfis l =
     (case l of None \<Rightarrow> Inr []
      | Some xs \<Rightarrow> let n = length xs mod 256
                  in c_bind (c_check AssertFail (int n \<le> SDAP_MAX_QFI)) (\<lambda>_. Inr (take n xs)))"

definition nr_sdap_get_config :: "bool \<Rightarrow> nr_sdap_config_ie \<Rightarrow> int \<Rightarrow> sdap_config_t c_result" where
  "nr_sdap_get_config is_gnb c drb_id =
     c_bind (config_qfis (ie_mappedQoS_FlowsToAdd c)) (\<lambda>add.
     c_bind (config_qfis (ie_mappedQoS_FlowsToRelease c)) (\<lambda>release.
     Inr \<lparr>cfg_pdusession_id = ie_pdu_Session c, cfg_drb_id = drb_id, cfg_role = get_sdap_role is_gnb c,
          cfg_defaultDRB = ie_defaultDRB c, cfg_to_add = add, cfg_to_release = release\<rparr>))"

definition nr_reconfigure_sdap_entity ::
  "sdap_info \<Rightarrow> nr_sdap_config_ie \<Rightarrow> u64 \<Rightarrow> int \<Rightarrow> int \<Rightarrow> (sdap_info \<times> sdap_output list) c_result" where
  "nr_reconfigure_sdap_entity s c ue ps drb_id =
     (case nr_sdap_get_entity (sdap_entities s) ue ps of
        None \<Rightarrow> Inr (s, [])
      | Some i \<Rightarrow>
          c_bind (nr_sdap_get_config False c drb_id) (\<lambda>sdap.
          c_bind (nr_sdap_qfi2drb_map_update (sdap_entities s ! i) sdap) (\<lambda>(e, out). Inr (put_entity s i e, out))))"

definition set_qfi :: "sdap_info \<Rightarrow> int \<Rightarrow> int \<Rightarrow> u64 \<Rightarrow> sdap_info c_result" where
  "set_qfi s qfi ps ue =
     c_bind (c_check AssertFail (qfi < SDAP_MAX_QFI)) (\<lambda>_.
     case nr_sdap_get_entity (sdap_entities s) ue ps of
       None \<Rightarrow> Inl AssertFail
     | Some i \<Rightarrow>
         let s = put_entity s i ((sdap_entities s ! i)\<lparr>se_qfi := qfi\<rparr>)
         in c_bind (nr_sdap_tun_store_qfi (sdap_tuns s) ue ps qfi) (\<lambda>ts. Inr (s\<lparr>sdap_tuns := ts\<rparr>)))"

subsection \<open>Data\<close>

definition sdap_data_req :: "sdap_info \<Rightarrow> u64 \<Rightarrow> u64 \<Rightarrow> byte list \<Rightarrow> int \<Rightarrow> bool \<Rightarrow> int \<Rightarrow> sdap_output option c_result" where
  "sdap_data_req s ctxt_ue ue sdu qfi rqi ps =
     (case nr_sdap_get_entity (sdap_entities s) ue ps of
        None \<Rightarrow> Inr None
      | Some i \<Rightarrow> nr_sdap_tx_entity (sdap_entities s ! i) ctxt_ue sdu qfi rqi)"

definition sdap_data_ind ::
  "sdap_info \<Rightarrow> int \<Rightarrow> bool \<Rightarrow> int \<Rightarrow> u64 \<Rightarrow> byte list \<Rightarrow> (sdap_info \<times> sdap_output list) c_result" where
  "sdap_data_ind s pdcp_entity is_gnb ps ue buf =
     (case nr_sdap_get_entity (sdap_entities s) ue ps of
        None \<Rightarrow> Inr (s, [])
      | Some i \<Rightarrow>
          c_bind (nr_sdap_rx_entity (sdap_entities s ! i) pdcp_entity is_gnb ps ue buf) (\<lambda>(e, out). Inr (put_entity s i e, out)))"

text \<open>The body of the loop of \<^verbatim>\<open>sdap_tun_read_thread\<close>, for what was read from the socket.\<close>

definition sdap_tun_read :: "nr_sdap_entity \<Rightarrow> byte list \<Rightarrow> sdap_output option c_result" where
  "sdap_tun_read e sdu =
     (if \<not> se_is_gnb e \<and> se_enable_sdap e \<and> (se_qfi e < 0 \<or> se_qfi e \<ge> SDAP_MAX_QFI) then Inr None
      else nr_sdap_tx_entity e (se_ue_id e) sdu (se_qfi e mod 256) (\<not> se_is_gnb e))"

end
