(* ===== verification/Sdap_Props.thy ===== *)
theory Sdap_Props
  imports Sdap_List
begin

text \<open>
  What SDAP guarantees: the header is read as it was written, the list of entities stays well formed under every
  call, a change of the QoS flows of a bearer sets exactly these rules, and where the code stops.
\<close>

subsection \<open>Headers\<close>

lemma sdap_hdr_bits:
  "bit (sdap_hdr_byte q b6 b7) n \<longleftrightarrow> (n < 6 \<and> bit q n) \<or> (n = 6 \<and> b6) \<or> (n = 7 \<and> b7)"
proof -
  have c: "bit (0x3F :: int) n \<longleftrightarrow> n < 6" using bit_mask_iff [of 6 n, where 'a = int] by (simp add: mask_eq_exp_minus_1)
  have d: "bit (0x40 :: int) n \<longleftrightarrow> n = 6" using bit_exp_iff [of 6 n, where 'a = int] by simp
  have e: "bit (0x80 :: int) n \<longleftrightarrow> n = 7" using bit_exp_iff [of 7 n, where 'a = int] by simp
  show ?thesis
    unfolding sdap_hdr_byte_def bit_or_iff bit_word_of_int_iff bit_and_iff c by (cases b6; cases b7) (auto simp: d e)
qed

lemma sdap_hdr_qfi_eq: "sdap_hdr_qfi b = take_bit 6 (uint b)"
proof -
  have "bit (63 :: byte) n \<longleftrightarrow> n < 6" for n using bit_mask_iff [of 6 n, where 'a = "8 word"] by (auto simp: mask_eq_exp_minus_1)
  then show ?thesis by (intro bit_eqI) (auto simp: sdap_hdr_qfi_def bit_uint_iff bit_and_iff bit_take_bit_iff)
qed

lemma sdap_hdr_qfi_range: "0 \<le> sdap_hdr_qfi b" "sdap_hdr_qfi b < 64"
  using take_bit_int_less_exp [of 6 "uint b"] by (simp_all add: sdap_hdr_qfi_eq)

lemma sdap_hdr_qfi_byte:
  assumes "0 \<le> q" and "q < 64"
  shows "sdap_hdr_qfi (sdap_hdr_byte (q AND 63) b6 b7) = q"
proof -
  have m: "bit (63 :: int) n \<longleftrightarrow> n < 6" for n using bit_mask_iff [of 6 n, where 'a = int] by (simp add: mask_eq_exp_minus_1)
  have q: "take_bit 6 q = q" using assms by (simp add: take_bit_int_eq_self)
  have "sdap_hdr_qfi (sdap_hdr_byte (q AND 63) b6 b7) = take_bit 6 q"
    by (rule bit_eqI) (auto simp: sdap_hdr_qfi_eq bit_uint_iff bit_and_iff sdap_hdr_bits bit_take_bit_iff m)
  then show ?thesis using q by simp
qed

lemma sdap_hdr_flags [simp]: "bit (sdap_hdr_byte q b6 b7) 6 = b6" "bit (sdap_hdr_byte q b6 b7) 7 = b7"
  by (simp_all add: sdap_hdr_bits)

subsection \<open>Entities and rules\<close>

definition sdap_entity_ok :: "nr_sdap_entity \<Rightarrow> bool" where
  "sdap_entity_ok e \<longleftrightarrow> length (se_table e) = 64 \<and> 0 \<le> se_qfi e \<and> se_qfi e < SDAP_MAX_QFI \<and>
     (se_enable_sdap e \<or> (\<exists>d. \<forall>r \<in> set (se_table e). drb_of r = 0 \<or> drb_of r = d))"

abbreviation sdap_key :: "nr_sdap_entity \<Rightarrow> u64 \<times> int" where
  "sdap_key e \<equiv> (se_ue_id e, se_pdusession_id e)"

definition sdap_ok :: "sdap_info \<Rightarrow> bool" where
  "sdap_ok s \<longleftrightarrow> distinct (map sdap_key (sdap_entities s)) \<and> (\<forall>e \<in> set (sdap_entities s). sdap_entity_ok e)"

lemma get_entity_eq:
  "nr_sdap_get_entity es ue ps =
     (if ue_index sdap_key es (ue, ps) < length es then Some (ue_index sdap_key es (ue, ps)) else None)"
  by (induction es) auto

lemma get_entity_SomeD:
  assumes "nr_sdap_get_entity es ue ps = Some i"
  shows "i < length es" "sdap_key (es ! i) = (ue, ps)"
  using assms ue_index_found [of sdap_key es "(ue, ps)"] by (auto simp: get_entity_eq split: if_splits)

lemma get_entity_NoneD: "nr_sdap_get_entity es ue ps = None \<Longrightarrow> (ue, ps) \<notin> sdap_key ` set es"
  using ue_index_absent [of sdap_key es "(ue, ps)"] ue_index_le [of sdap_key es "(ue, ps)"] by (auto simp: get_entity_eq split: if_splits)

lemma put_entity_ok:
  assumes ok: "sdap_ok s" and i: "i < length (sdap_entities s)"
    and e: "sdap_key e = sdap_key (sdap_entities s ! i)" "sdap_entity_ok e"
  shows "sdap_ok (put_entity s i e)"
proof -
  have "map sdap_key ((sdap_entities s)[i := e]) = map sdap_key (sdap_entities s)"
    using i e(1) by (simp add: map_update list_update_same_conv)
  then show ?thesis using ok e(2) set_update_subset_insert [of "sdap_entities s" i e]
    by (auto simp: sdap_ok_def put_entity_def)
qed

text \<open>The rules of an entity as a map.\<close>

definition sdap_rule :: "nr_sdap_entity \<Rightarrow> int \<Rightarrow> qfi2drb" where
  "sdap_rule e q = se_table e ! nat q"

definition same_entity :: "nr_sdap_entity \<Rightarrow> nr_sdap_entity \<Rightarrow> bool" where
  "same_entity e' e \<longleftrightarrow> (\<exists>t. e' = e\<lparr>se_table := t\<rparr> \<and> length t = length (se_table e))"

lemma same_entity_refl [simp]: "same_entity e e"
  by (auto simp: same_entity_def intro: exI [of _ "se_table e"])

lemma same_entity_trans: "same_entity e2 e1 \<Longrightarrow> same_entity e1 e \<Longrightarrow> same_entity e2 e"
  by (auto simp: same_entity_def)

lemma same_entityD:
  assumes "same_entity e' e"
  shows "sdap_key e' = sdap_key e" "length (se_table e') = length (se_table e)" "se_enable_sdap e' = se_enable_sdap e"
    "se_is_gnb e' = se_is_gnb e" "se_default_drb e' = se_default_drb e" "se_sock e' = se_sock e" "se_qfi e' = se_qfi e"
  using assms by (auto simp: same_entity_def)

lemma rule_at_eq: "length (se_table e) = 64 \<Longrightarrow> 0 \<le> q \<Longrightarrow> rule_at e q = (if q < 64 then Inr (sdap_rule e q) else Inl OutOfBounds)"
  by (simp add: rule_at_def sdap_rule_def)

lemma put_rule_eq:
  assumes "length (se_table e) = 64" and "0 \<le> q" and "q < 64"
  obtains e' where "put_rule e q r = Inr e'" "same_entity e' e" "\<And>p. 0 \<le> p \<Longrightarrow> p < 64 \<Longrightarrow> sdap_rule e' p = (if p = q then r else sdap_rule e p)"
proof -
  let ?e = "e\<lparr>se_table := (se_table e)[nat q := r]\<rparr>"
  have r: "sdap_rule ?e p = (if p = q then r else sdap_rule e p)" if "0 \<le> p" "p < 64" for p
    using assms that by (auto simp: sdap_rule_def nth_list_update)
  show thesis by (rule that [of ?e, OF _ _ r]) (use assms in \<open>auto simp: put_rule_def same_entity_def\<close>)
qed

lemma add_qos_flows_ok:
  assumes "length (se_table e) = 64"
  shows "\<exists>e'. nr_sdap_add_qos_flows_to_drb e drb role xs = Inr e' \<and> same_entity e' e \<and>
    (\<forall>p. 0 \<le> p \<longrightarrow> p < 64 \<longrightarrow> sdap_rule e' p =
       (if p \<in> (\<lambda>x. x mod 256) ` set xs \<and> 0 < drb \<and> drb \<le> SDAP_MAX_DRBS then \<lparr>drb_of = drb, entity_role = role\<rparr> else sdap_rule e p))"
  using assms
proof (induction xs arbitrary: e)
  case (Cons x xs)
  let ?q = "x mod 256"
  have q: "0 \<le> ?q" by simp
  show ?case
  proof (cases "?q < SDAP_MAX_QFI \<and> drb > 0 \<and> drb \<le> SDAP_MAX_DRBS")
    case True
    then have "?q < 64" by (simp add: SDAP_MAX_QFI_def)
    from put_rule_eq [OF Cons.prems q this] obtain e1 where e1: "put_rule e ?q \<lparr>drb_of = drb, entity_role = role\<rparr> = Inr e1"
      "same_entity e1 e" "\<And>p. 0 \<le> p \<Longrightarrow> p < 64 \<Longrightarrow> sdap_rule e1 p = (if p = ?q then \<lparr>drb_of = drb, entity_role = role\<rparr> else sdap_rule e p)"
      by metis
    have "length (se_table e1) = 64" using same_entityD(2) [OF e1(2)] Cons.prems by simp
    from Cons.IH [OF this] obtain e2 where e2: "nr_sdap_add_qos_flows_to_drb e1 drb role xs = Inr e2" "same_entity e2 e1"
      "\<forall>p. 0 \<le> p \<longrightarrow> p < 64 \<longrightarrow> sdap_rule e2 p =
         (if p \<in> (\<lambda>x. x mod 256) ` set xs \<and> 0 < drb \<and> drb \<le> SDAP_MAX_DRBS then \<lparr>drb_of = drb, entity_role = role\<rparr> else sdap_rule e1 p)"
      by blast
    show ?thesis using True e1(1) e2(1) same_entity_trans [OF e2(2) e1(2)] e1(3) e2(3)
      by (intro exI [of _ e2]) (simp add: nr_sdap_qfi2drb_map_add_def Let_def)
  next
    case False
    from Cons.IH [OF Cons.prems] obtain e2 where e2: "nr_sdap_add_qos_flows_to_drb e drb role xs = Inr e2" "same_entity e2 e"
      "\<forall>p. 0 \<le> p \<longrightarrow> p < 64 \<longrightarrow> sdap_rule e2 p =
         (if p \<in> (\<lambda>x. x mod 256) ` set xs \<and> 0 < drb \<and> drb \<le> SDAP_MAX_DRBS then \<lparr>drb_of = drb, entity_role = role\<rparr> else sdap_rule e p)"
      by blast
    show ?thesis using False e2 by (intro exI [of _ e2]) (auto simp: Let_def SDAP_MAX_QFI_def)
  qed
qed simp

lemma rm_qos_flows_ok:
  assumes "length (se_table e) = 64"
  shows "(\<exists>e'. nr_sdap_rm_qos_flows_from_drb e xs = Inr e' \<and> same_entity e' e \<and> (\<forall>x \<in> set xs. x mod 256 < 64) \<and>
      (\<forall>p. 0 \<le> p \<longrightarrow> p < 64 \<longrightarrow> sdap_rule e' p =
         (if p \<in> (\<lambda>x. x mod 256) ` set xs then \<lparr>drb_of = 0, entity_role = 0\<rparr> else sdap_rule e p))) \<or>
    (nr_sdap_rm_qos_flows_from_drb e xs = Inl OutOfBounds \<and> (\<exists>x \<in> set xs. 64 \<le> x mod 256))"
  using assms
proof (induction xs arbitrary: e)
  case (Cons x xs)
  let ?q = "x mod 256"
  have q: "0 \<le> ?q" by simp
  show ?case
  proof (cases "?q < 64")
    case True
    from put_rule_eq [OF Cons.prems q True] obtain e1 where e1: "put_rule e ?q \<lparr>drb_of = 0, entity_role = 0\<rparr> = Inr e1"
      "same_entity e1 e" "\<And>p. 0 \<le> p \<Longrightarrow> p < 64 \<Longrightarrow> sdap_rule e1 p = (if p = ?q then \<lparr>drb_of = 0, entity_role = 0\<rparr> else sdap_rule e p)"
      by metis
    have run: "nr_sdap_rm_qos_flows_from_drb e (x # xs) = nr_sdap_rm_qos_flows_from_drb e1 xs"
      using e1(1) by (simp add: nr_sdap_qfi2drb_map_del_def)
    have "length (se_table e1) = 64" using same_entityD(2) [OF e1(2)] Cons.prems by simp
    from Cons.IH [OF this] show ?thesis
    proof (elim disjE exE conjE)
      fix e2 assume e2: "nr_sdap_rm_qos_flows_from_drb e1 xs = Inr e2" "same_entity e2 e1" "\<forall>x \<in> set xs. x mod 256 < 64"
        "\<forall>p. 0 \<le> p \<longrightarrow> p < 64 \<longrightarrow> sdap_rule e2 p = (if p \<in> (\<lambda>x. x mod 256) ` set xs then \<lparr>drb_of = 0, entity_role = 0\<rparr> else sdap_rule e1 p)"
      show ?thesis using True e1(3) e2 same_entity_trans [OF e2(2) e1(2)] unfolding run
        by (intro disjI1 exI [of _ e2]) simp
    next
      assume "nr_sdap_rm_qos_flows_from_drb e1 xs = Inl OutOfBounds" "\<exists>x \<in> set xs. 64 \<le> x mod 256"
      then show ?thesis unfolding run by auto
    qed
  next
    case False
    then show ?thesis using Cons.prems by (auto simp: nr_sdap_qfi2drb_map_del_def put_rule_def)
  qed
qed simp

lemma control_pdu_config_ok:
  assumes len: "length (se_table e) = 64"
  shows "(\<exists>out. nr_sdap_ue_control_pdu_config e ue drb xs = Inr out \<and> (\<forall>x \<in> set xs. x mod 256 < 64)) \<or>
    (nr_sdap_ue_control_pdu_config e ue drb xs = Inl OutOfBounds \<and> (\<exists>x \<in> set xs. 64 \<le> x mod 256))"
proof (induction xs)
  case (Cons x xs)
  let ?q = "x mod 256"
  have q: "0 \<le> ?q" by simp
  show ?case
  proof (cases "?q < 64")
    case True
    then have "\<exists>out. send_end_marker e ue t ?q = Inr out" for t
      by (cases t) (simp_all add: send_end_marker_def nr_sdap_map_ctrl_pdu_def nr_sdap_qfi2drb_def rule_at_eq [OF len q])
    then obtain o1 o2 where o: "send_end_marker e ue SDAP_CTRL_PDU_MAP_DEF_DRB ?q = Inr o1"
      "send_end_marker e ue SDAP_CTRL_PDU_MAP_RULE_DRB ?q = Inr o2" by metis
    show ?thesis using Cons.IH True by (auto simp: o rule_at_eq [OF len q] Let_def)
  next
    case False
    then show ?thesis by (auto simp: rule_at_eq [OF len q] Let_def)
  qed
qed simp

text \<open>A change of the configuration, and where it stops.\<close>

definition map_update_stops :: "nr_sdap_entity \<Rightarrow> sdap_config_t \<Rightarrow> c_fault \<Rightarrow> bool" where
  "map_update_stops e sdap f \<longleftrightarrow>
     (f = AssertFail \<and> \<not> se_enable_sdap e \<and> (\<exists>r \<in> set (se_table e). drb_of r \<noteq> 0 \<and> drb_of r \<noteq> cfg_drb_id sdap)) \<or>
     (f = OutOfBounds \<and> ((\<not> se_is_gnb e \<and> (\<exists>x \<in> set (cfg_to_add sdap). 64 \<le> x mod 256)) \<or> (\<exists>x \<in> set (cfg_to_release sdap). 64 \<le> x mod 256)))"

definition updated_rule :: "nr_sdap_entity \<Rightarrow> sdap_config_t \<Rightarrow> int \<Rightarrow> qfi2drb" where
  "updated_rule e sdap q =
     (if q \<in> (\<lambda>x. x mod 256) ` set (cfg_to_release sdap) then \<lparr>drb_of = 0, entity_role = 0\<rparr>
      else if q \<in> (\<lambda>x. x mod 256) ` set (cfg_to_add sdap) \<and> 0 < cfg_drb_id sdap \<and> cfg_drb_id sdap \<le> SDAP_MAX_DRBS
      then \<lparr>drb_of = cfg_drb_id sdap, entity_role = cfg_role sdap mod 256\<rparr> else sdap_rule e q)"

lemma set_table:
  assumes "length (se_table e) = 64"
  shows "set (se_table e) = sdap_rule e ` {0..<64}"
proof -
  have "{0..<64 :: int} = int ` {0..<64}" by (simp add: image_int_atLeastLessThan)
  then show ?thesis using assms by (auto simp: sdap_rule_def set_conv_nth image_image)
qed

lemma entity_ok_same:
  assumes "sdap_entity_ok e" and "same_entity e' e"
    and "\<not> se_enable_sdap e \<Longrightarrow> \<exists>d. \<forall>q. 0 \<le> q \<longrightarrow> q < 64 \<longrightarrow> drb_of (sdap_rule e' q) = 0 \<or> drb_of (sdap_rule e' q) = d"
  shows "sdap_entity_ok e'"
proof -
  note same = same_entityD [OF assms(2)]
  have len: "length (se_table e') = 64" using assms(1) same(2) by (simp add: sdap_entity_ok_def)
  have "se_enable_sdap e' \<or> (\<exists>d. \<forall>r \<in> set (se_table e'). drb_of r = 0 \<or> drb_of r = d)"
  proof (cases "se_enable_sdap e")
    case False
    then obtain d where "\<forall>q. 0 \<le> q \<longrightarrow> q < 64 \<longrightarrow> drb_of (sdap_rule e' q) = 0 \<or> drb_of (sdap_rule e' q) = d" using assms(3) by blast
    then have "\<forall>r \<in> set (se_table e'). drb_of r = 0 \<or> drb_of r = d" by (simp add: set_table [OF len])
    then show ?thesis by blast
  qed (simp add: same(3))
  then show ?thesis using assms(1) len same(7) by (simp add: sdap_entity_ok_def)
qed

lemma map_update_ok:
  assumes ok: "sdap_entity_ok e"
  shows "(\<exists>e' out. nr_sdap_qfi2drb_map_update e sdap = Inr (e', out) \<and> same_entity e' e \<and> sdap_entity_ok e' \<and> (se_is_gnb e \<longrightarrow> out = []) \<and>
      (\<forall>q. 0 \<le> q \<longrightarrow> q < 64 \<longrightarrow> sdap_rule e' q = updated_rule e sdap q)) \<or>
    (\<exists>f. nr_sdap_qfi2drb_map_update e sdap = Inl f \<and> map_update_stops e sdap f)"
proof -
  have len: "length (se_table e) = 64" using ok by (simp add: sdap_entity_ok_def)
  let ?ctl = "if \<not> se_is_gnb e then nr_sdap_ue_control_pdu_config e (se_ue_id e) (cfg_drb_id sdap) (cfg_to_add sdap) else Inr []"
  show ?thesis
  proof (cases "se_enable_sdap e \<or> (\<forall>r \<in> set (se_table e). drb_of r \<noteq> 0 \<longrightarrow> drb_of r = cfg_drb_id sdap)")
    case single: True
    have ctl: "(\<exists>out. ?ctl = Inr out \<and> (se_is_gnb e \<longrightarrow> out = [])) \<or>
        (?ctl = Inl OutOfBounds \<and> \<not> se_is_gnb e \<and> (\<exists>x \<in> set (cfg_to_add sdap). 64 \<le> x mod 256))"
      using control_pdu_config_ok [OF len, of "se_ue_id e" "cfg_drb_id sdap" "cfg_to_add sdap"] by auto
    obtain e1 where e1: "nr_sdap_add_qos_flows_to_drb e (cfg_drb_id sdap) (cfg_role sdap mod 256) (cfg_to_add sdap) = Inr e1" "same_entity e1 e"
      "\<forall>p. 0 \<le> p \<longrightarrow> p < 64 \<longrightarrow> sdap_rule e1 p = (if p \<in> (\<lambda>x. x mod 256) ` set (cfg_to_add sdap) \<and> 0 < cfg_drb_id sdap \<and>
          cfg_drb_id sdap \<le> SDAP_MAX_DRBS then \<lparr>drb_of = cfg_drb_id sdap, entity_role = cfg_role sdap mod 256\<rparr> else sdap_rule e p)"
      using add_qos_flows_ok [OF len] by blast
    have len1: "length (se_table e1) = 64" using same_entityD(2) [OF e1(2)] len by simp
    from ctl rm_qos_flows_ok [OF len1, of "cfg_to_release sdap"] show ?thesis
    proof (elim disjE exE conjE)
      fix out e2 assume c: "?ctl = Inr out" "se_is_gnb e \<longrightarrow> out = []"
        and e2: "nr_sdap_rm_qos_flows_from_drb e1 (cfg_to_release sdap) = Inr e2" "same_entity e2 e1"
          "\<forall>p. 0 \<le> p \<longrightarrow> p < 64 \<longrightarrow> sdap_rule e2 p =
             (if p \<in> (\<lambda>x. x mod 256) ` set (cfg_to_release sdap) then \<lparr>drb_of = 0, entity_role = 0\<rparr> else sdap_rule e1 p)"
      have same: "same_entity e2 e" by (rule same_entity_trans [OF e2(2) e1(2)])
      have rule: "\<forall>q. 0 \<le> q \<longrightarrow> q < 64 \<longrightarrow> sdap_rule e2 q = updated_rule e sdap q" using e2(3) e1(3) by (simp add: updated_rule_def)
      have "sdap_entity_ok e2"
      proof (rule entity_ok_same [OF ok same])
        assume "\<not> se_enable_sdap e"
        then have "drb_of (sdap_rule e q) = 0 \<or> drb_of (sdap_rule e q) = cfg_drb_id sdap" if "0 \<le> q" "q < 64" for q
          using single that by (auto simp: set_table [OF len])
        then show "\<exists>d. \<forall>q. 0 \<le> q \<longrightarrow> q < 64 \<longrightarrow> drb_of (sdap_rule e2 q) = 0 \<or> drb_of (sdap_rule e2 q) = d"
          using rule by (intro exI [of _ "cfg_drb_id sdap"]) (auto simp: updated_rule_def)
      qed
      then show ?thesis using single c e1(1) e2(1) same rule by (auto simp: nr_sdap_qfi2drb_map_update_def)
    qed (use single e1(1) in \<open>auto simp: nr_sdap_qfi2drb_map_update_def map_update_stops_def\<close>)
  next
    case False
    then show ?thesis by (auto simp: nr_sdap_qfi2drb_map_update_def map_update_stops_def)
  qed
qed

subsection \<open>Data\<close>

lemma tx_entity_ok:
  assumes len: "length (se_table e) = 64" and q: "0 \<le> qfi"
  shows "if qfi < 64 then \<exists>o'. nr_sdap_tx_entity e ue sdu qfi rqi = Inr o' else nr_sdap_tx_entity e ue sdu qfi rqi = Inl OutOfBounds"
  by (auto simp: nr_sdap_tx_entity_def nr_sdap_qfi2drb_def rule_at_eq [OF len q] Let_def)

definition rx_stops :: "nr_sdap_entity \<Rightarrow> bool \<Rightarrow> byte list \<Rightarrow> c_fault \<Rightarrow> bool" where
  "rx_stops e is_gnb buf f \<longleftrightarrow> se_enable_sdap e \<and>
     ((f = OutOfBounds \<and> buf = []) \<or>
      (f = AssertFail \<and> is_gnb \<and> buf \<noteq> [] \<and> drb_of (sdap_rule e (sdap_hdr_qfi (hd buf))) \<noteq> 0 \<and>
       \<not> has_role (entity_role (sdap_rule e (sdap_hdr_qfi (hd buf)))) SDAP_UL_RX))"

lemma reflective_mapping_ok:
  assumes len: "length (se_table e) = 64" and q: "0 \<le> qfi" "qfi < 64"
  shows "\<exists>e' out. reflective_mapping e ue drb qfi = Inr (e', out) \<and> same_entity e' e"
proof -
  have "\<exists>out. send_end_marker e ue t qfi = Inr out" for t
    using q by (cases t) (simp_all add: send_end_marker_def nr_sdap_map_ctrl_pdu_def nr_sdap_qfi2drb_def rule_at_eq [OF len q(1)])
  then obtain o1 o2 where o: "send_end_marker e ue SDAP_CTRL_PDU_MAP_DEF_DRB qfi = Inr o1"
    "send_end_marker e ue SDAP_CTRL_PDU_MAP_RULE_DRB qfi = Inr o2" by metis
  obtain e' where "put_rule e qfi ((sdap_rule e qfi)\<lparr>drb_of := drb\<rparr>) = Inr e'" "same_entity e' e"
    using put_rule_eq [OF len q] by metis
  then show ?thesis using q by (simp add: reflective_mapping_def rule_at_eq [OF len q(1)] o)
qed

lemma rx_entity_ok:
  assumes ok: "sdap_entity_ok e"
  shows "(\<exists>e' out. nr_sdap_rx_entity e drb is_gnb ps ue buf = Inr (e', out) \<and> same_entity e' e \<and> sdap_entity_ok e') \<or>
    (\<exists>f. nr_sdap_rx_entity e drb is_gnb ps ue buf = Inl f \<and> rx_stops e is_gnb buf f)"
proof -
  have len: "length (se_table e) = 64" using ok by (simp add: sdap_entity_ok_def)
  show ?thesis
  proof (cases "se_enable_sdap e \<and> buf \<noteq> []")
    case True
    then obtain b bs where b: "buf = b # bs" by (cases buf) auto
    note q = sdap_hdr_qfi_range [of b]
    have ok': "same_entity e' e \<Longrightarrow> sdap_entity_ok e'" for e' using True by (intro entity_ok_same [OF ok]) auto
    have "\<exists>e' out. sdap_rx_ue e dl drb ue buf = Inr (e', out) \<and> same_entity e' e" for dl
      using reflective_mapping_ok [OF len q, of ue drb] by (auto simp: sdap_rx_ue_def b dl_hdr_of_def)
    then show ?thesis using True q ok ok'
      by (auto simp: nr_sdap_rx_entity_def b rule_at_eq [OF len q(1)] rx_stops_def sdap_rx_gnb_def ul_hdr_of_def SDAP_MAX_QFI_def Let_def)
        (metis same_entity_refl)+
  next
    case False
    then show ?thesis using ok by (auto simp: nr_sdap_rx_entity_def rx_stops_def sdap_rx_gnb_def sdap_rx_ue_def has_role_def)
  qed
qed

end
