(* ===== verification/Sdap_Machine.thy ===== *)
theory Sdap_Machine
  imports Sdap_Props
begin

text \<open>
  SDAP as one machine: the calls of all its users, the invariant of the lists and the situations in which a call stops
  the process.
\<close>

datatype sdap_event =
    SdAddMod bool u64 sdap_config_t           \<comment> \<open>\<^verbatim>\<open>nr_sdap_addmod_entity\<close>\<close>
  | SdReconfigure nr_sdap_config_ie u64 int int \<comment> \<open>\<^verbatim>\<open>nr_reconfigure_sdap_entity\<close>\<close>
  | SdReq u64 u64 "byte list" int bool int    \<comment> \<open>\<^verbatim>\<open>sdap_data_req\<close>\<close>
  | SdInd int bool int u64 "byte list"        \<comment> \<open>\<^verbatim>\<open>sdap_data_ind\<close>\<close>
  | SdTunRead u64 int "byte list"             \<comment> \<open>a packet that the thread of an entity reads\<close>
  | SdReleaseDrb u64 int int                  \<comment> \<open>\<^verbatim>\<open>nr_sdap_release_drb\<close>\<close>
  | SdUpdateQos u64 int int "int list"        \<comment> \<open>\<^verbatim>\<open>nr_sdap_entity_update_qos_flows\<close>\<close>
  | SdDelete u64 int                          \<comment> \<open>\<^verbatim>\<open>nr_sdap_delete_entity\<close>\<close>
  | SdDeleteUe u64                            \<comment> \<open>\<^verbatim>\<open>nr_sdap_delete_ue_entities\<close>\<close>
  | SdSetQfi int int u64                      \<comment> \<open>\<^verbatim>\<open>set_qfi\<close>\<close>
  | SdCreateIf u64 int                        \<comment> \<open>\<^verbatim>\<open>create_ue_ip_if\<close> or \<^verbatim>\<open>create_ue_eth_if\<close>\<close>

definition opt_output :: "sdap_info \<Rightarrow> sdap_output option c_result \<Rightarrow> (sdap_info \<times> sdap_output list) c_result" where
  "opt_output s r = c_bind r (\<lambda>x. Inr (s, case x of None \<Rightarrow> [] | Some y \<Rightarrow> [y]))"

text \<open>A QFI argument is an \<^verbatim>\<open>uint8_t\<close>.\<close>

fun sdap_step :: "sdap_env \<Rightarrow> sdap_info \<Rightarrow> sdap_event \<Rightarrow> (sdap_info \<times> sdap_output list) c_result" where
  "sdap_step env s (SdAddMod gnb ue cfg) = nr_sdap_addmod_entity env gnb s ue cfg"
| "sdap_step env s (SdReconfigure c ue ps drb) = nr_reconfigure_sdap_entity s c ue ps drb"
| "sdap_step env s (SdReq ctxt_ue ue sdu qfi rqi ps) = opt_output s (sdap_data_req s ctxt_ue ue sdu (qfi mod 256) rqi ps)"
| "sdap_step env s (SdInd drb gnb ps ue buf) = sdap_data_ind s drb gnb ps ue buf"
| "sdap_step env s (SdTunRead ue ps sdu) =
     (case nr_sdap_get_entity (sdap_entities s) ue ps of
        None \<Rightarrow> Inr (s, [])
      | Some i \<Rightarrow> if se_sock (sdap_entities s ! i) < 0 then Inr (s, []) else opt_output s (sdap_tun_read (sdap_entities s ! i) sdu))"
| "sdap_step env s (SdReleaseDrb ue drb ps) = Inr (nr_sdap_release_drb s ue drb ps, [])"
| "sdap_step env s (SdUpdateQos ue ps drb qfis) = nr_sdap_entity_update_qos_flows s ue ps drb (map (\<lambda>x. x mod 256) qfis)"
| "sdap_step env s (SdDelete ue ps) = c_bind (nr_sdap_delete_entity s ue ps) (\<lambda>(s, _). Inr (s, []))"
| "sdap_step env s (SdDeleteUe ue) = Inr (fst (nr_sdap_delete_ue_entities s ue), [])"
| "sdap_step env s (SdSetQfi qfi ps ue) = c_bind (set_qfi s (qfi mod 256) ps ue) (\<lambda>s. Inr (s, []))"
| "sdap_step env s (SdCreateIf ue ps) = c_bind (create_ue_if env s ue ps) (\<lambda>s. Inr (s, []))"

definition too_many :: "int list option \<Rightarrow> bool" where
  "too_many l \<longleftrightarrow> (case l of None \<Rightarrow> False | Some xs \<Rightarrow> 64 < length xs mod 256)"

definition entity_of :: "sdap_info \<Rightarrow> u64 \<Rightarrow> int \<Rightarrow> nr_sdap_entity option" where
  "entity_of s ue ps = map_option ((!) (sdap_entities s)) (nr_sdap_get_entity (sdap_entities s) ue ps)"

text \<open>Where a call stops the process or leaves a buffer.\<close>

fun sdap_stops :: "sdap_env \<Rightarrow> sdap_info \<Rightarrow> sdap_event \<Rightarrow> c_fault \<Rightarrow> bool" where
  "sdap_stops env s (SdAddMod gnb ue cfg) f \<longleftrightarrow>
     (case entity_of s ue (cfg_pdusession_id cfg) of
        Some e \<Rightarrow> map_update_stops e cfg f
      | None \<Rightarrow> f = AssertFail \<and> (cfg_role cfg = 0 \<and> 1 < length (cfg_to_add cfg) \<or>
          env_nos1 env \<and> gnb \<and> sdap_tun_iface_lookup (sdap_tuns s) ue (cfg_pdusession_id cfg) \<noteq> None))"
| "sdap_stops env s (SdReconfigure c ue ps drb) f \<longleftrightarrow>
     (\<exists>e. entity_of s ue ps = Some e \<and>
        (f = AssertFail \<and> (too_many (ie_mappedQoS_FlowsToAdd c) \<or> too_many (ie_mappedQoS_FlowsToRelease c)) \<or>
         (\<exists>cfg. nr_sdap_get_config False c drb = Inr cfg \<and> map_update_stops e cfg f)))"
| "sdap_stops env s (SdReq ctxt_ue ue sdu qfi rqi ps) f \<longleftrightarrow> f = OutOfBounds \<and> 64 \<le> qfi mod 256"
| "sdap_stops env s (SdInd drb gnb ps ue buf) f \<longleftrightarrow> (\<exists>e. entity_of s ue ps = Some e \<and> rx_stops e gnb buf f)"
| "sdap_stops env s (SdUpdateQos ue ps drb qfis) f \<longleftrightarrow>
     (\<exists>e. entity_of s ue ps = Some e \<and>
        (f = OutOfBounds \<and> (64 < length qfis \<or> (\<not> se_is_gnb e \<and> (\<exists>x \<in> set qfis. 64 \<le> x mod 256))) \<or>
         f = AssertFail \<and> \<not> se_enable_sdap e \<and> (\<exists>r \<in> set (se_table e). drb_of r \<noteq> 0 \<and> drb_of r \<noteq> drb)))"
| "sdap_stops env s (SdDelete ue ps) f \<longleftrightarrow> f = NullDeref \<and> sdap_entities s = [] \<and> 0 \<le> ps \<and> ps \<le> 256"
| "sdap_stops env s (SdSetQfi qfi ps ue) f \<longleftrightarrow> f = AssertFail \<and> (64 \<le> qfi mod 256 \<or> entity_of s ue ps = None)"
| "sdap_stops env s (SdCreateIf ue ps) f \<longleftrightarrow> f = AssertFail \<and> sdap_tun_iface_lookup (sdap_tuns s) ue ps = None \<and>
     (case entity_of s ue ps of None \<Rightarrow> True | Some e \<Rightarrow> se_is_gnb e)"
| "sdap_stops env s _ f \<longleftrightarrow> False"

lemma entity_cases:
  assumes ok: "sdap_ok s"
  obtains "nr_sdap_get_entity (sdap_entities s) ue ps = None" "entity_of s ue ps = None"
    | i where "nr_sdap_get_entity (sdap_entities s) ue ps = Some i" "i < length (sdap_entities s)"
      "entity_of s ue ps = Some (sdap_entities s ! i)" "sdap_entity_ok (sdap_entities s ! i)" "sdap_key (sdap_entities s ! i) = (ue, ps)"
proof (cases "nr_sdap_get_entity (sdap_entities s) ue ps")
  case None
  then show thesis using that(1) by (simp add: entity_of_def)
next
  case (Some i)
  note get_entity_SomeD [OF this]
  moreover have "sdap_entity_ok (sdap_entities s ! i)" using ok calculation(1) by (simp add: sdap_ok_def)
  ultimately show thesis using Some that(2) [of i] by (simp add: entity_of_def)
qed

text \<open>An update through the pointer to an entity.\<close>

lemma put_same_ok:
  assumes "sdap_ok s" and "i < length (sdap_entities s)" and "same_entity e (sdap_entities s ! i)" and "sdap_entity_ok e"
  shows "sdap_ok (put_entity s i e)"
  using assms(1,2) same_entityD(1) [OF assms(3)] assms(4) by (rule put_entity_ok)

lemma tun_attach_ok:
  assumes "sdap_entity_ok e"
  shows "sdap_entity_ok (nr_sdap_tun_attach env ts e)" and "sdap_key (nr_sdap_tun_attach env ts e) = sdap_key e"
  using assms by (auto simp: nr_sdap_tun_attach_def sdap_entity_ok_def Let_def split: option.split)

lemma sdap_ok_tuns [simp]: "sdap_ok (s\<lparr>sdap_tuns := ts\<rparr>) = sdap_ok s"
  by (simp add: sdap_ok_def)

lemma put_attach_ok:
  assumes "sdap_ok s" and "i < length (sdap_entities s)"
  shows "sdap_ok (put_entity s i (nr_sdap_tun_attach env ts (sdap_entities s ! i)))"
proof -
  have "sdap_entity_ok (sdap_entities s ! i)" using assms by (simp add: sdap_ok_def)
  from tun_attach_ok [OF this] show ?thesis by (intro put_entity_ok [OF assms])
qed

lemma start_sdap_tun_ok:
  assumes ok: "sdap_ok s"
  shows "(\<exists>s'. start_sdap_tun env gnb s ue ps = Inr s' \<and> sdap_ok s' \<and> length (sdap_entities s') = length (sdap_entities s)) \<or>
    (start_sdap_tun env gnb s ue ps = Inl AssertFail \<and> (sdap_tun_iface_lookup (sdap_tuns s) ue ps \<noteq> None \<or>
       (case entity_of s ue ps of None \<Rightarrow> True | Some e \<Rightarrow> se_is_gnb e \<noteq> gnb)))"
proof (rule entity_cases [OF ok, of ue ps])
  fix i assume i: "nr_sdap_get_entity (sdap_entities s) ue ps = Some i" "i < length (sdap_entities s)" "entity_of s ue ps = Some (sdap_entities s ! i)"
  show ?thesis
  proof (cases "se_is_gnb (sdap_entities s ! i) = gnb \<and> sdap_tun_iface_lookup (sdap_tuns s) ue ps = None")
    case True
    obtain ts where reg: "sdap_tun_iface_register s ue ps (env_tuntap_alloc env ue ps) = Inr (s\<lparr>sdap_tuns := ts\<rparr>)"
      using True by (simp add: sdap_tun_iface_register_def Let_def)
    have "sdap_ok (put_entity (s\<lparr>sdap_tuns := ts\<rparr>) i (nr_sdap_tun_attach env ts (sdap_entities (s\<lparr>sdap_tuns := ts\<rparr>) ! i)))"
      using ok i(2) by (intro put_attach_ok) simp_all
    then show ?thesis using True by (auto simp: start_sdap_tun_def i(1) reg put_entity_def)
  next
    case False
    then show ?thesis using i by (cases "se_is_gnb (sdap_entities s ! i) = gnb") (auto simp: start_sdap_tun_def sdap_tun_iface_register_def)
  qed
qed (simp add: start_sdap_tun_def)

lemma add_entity_ok:
  assumes ok: "sdap_ok s" and new: "(ue, cfg_pdusession_id cfg) \<notin> sdap_key ` set (sdap_entities s)"
  shows "(\<exists>s'. nr_sdap_add_entity env gnb s ue cfg = Inr s' \<and> sdap_ok s') \<or>
    (nr_sdap_add_entity env gnb s ue cfg = Inl AssertFail \<and> (cfg_role cfg = 0 \<and> 1 < length (cfg_to_add cfg) \<or>
       env_nos1 env \<and> gnb \<and> sdap_tun_iface_lookup (sdap_tuns s) ue (cfg_pdusession_id cfg) \<noteq> None))"
proof -
  define e0 where "e0 = \<lparr>se_ue_id = ue, se_default_drb = (if cfg_defaultDRB cfg then cfg_drb_id cfg else 0), se_is_gnb = gnb,
     se_enable_sdap = (cfg_role cfg \<noteq> 0), se_pdusession_id = cfg_pdusession_id cfg, se_sock = - 1,
     se_stop_thread = False, se_qfi = 0, se_table = replicate (nat SDAP_MAX_QFI) \<lparr>drb_of = 0, entity_role = 0\<rparr>\<rparr>"
  have len: "length (se_table e0) = 64" by (simp add: e0_def SDAP_MAX_QFI_def)
  obtain e1 where e1: "nr_sdap_add_qos_flows_to_drb e0 (cfg_drb_id cfg) (cfg_role cfg mod 256) (cfg_to_add cfg) = Inr e1" "same_entity e1 e0"
    "\<forall>p. 0 \<le> p \<longrightarrow> p < 64 \<longrightarrow> sdap_rule e1 p = (if p \<in> (\<lambda>x. x mod 256) ` set (cfg_to_add cfg) \<and> 0 < cfg_drb_id cfg \<and>
       cfg_drb_id cfg \<le> SDAP_MAX_DRBS then \<lparr>drb_of = cfg_drb_id cfg, entity_role = cfg_role cfg mod 256\<rparr> else sdap_rule e0 p)"
    using add_qos_flows_ok [OF len] by blast
  have zero: "sdap_rule e0 p = \<lparr>drb_of = 0, entity_role = 0\<rparr>" if "0 \<le> p" "p < 64" for p
    using that by (simp add: sdap_rule_def e0_def SDAP_MAX_QFI_def)
  have "sdap_entity_ok e0" by (auto simp: sdap_entity_ok_def e0_def SDAP_MAX_QFI_def)
  then have ok1: "sdap_entity_ok e1"
    by (rule entity_ok_same [OF _ e1(2)]) (use e1(3) zero in \<open>auto intro!: exI [of _ "cfg_drb_id cfg"]\<close>)
  have key: "sdap_key e1 = (ue, cfg_pdusession_id cfg)" "se_is_gnb e1 = gnb" using same_entityD [OF e1(2)] by (simp_all add: e0_def)
  let ?s = "s\<lparr>sdap_entities := e1 # sdap_entities s\<rparr>"
  have s1: "sdap_ok ?s" using ok ok1 key new by (auto simp: sdap_ok_def)
  have get: "entity_of ?s ue (cfg_pdusession_id cfg) = Some e1" using key by (simp add: entity_of_def)
  have run: "nr_sdap_add_entity env gnb s ue cfg =
    c_bind (c_check AssertFail (cfg_role cfg \<noteq> 0 \<or> length (cfg_to_add cfg) \<le> 1)) (\<lambda>_.
    c_bind (if env_nos1 env \<and> gnb then start_sdap_tun env True ?s ue (cfg_pdusession_id cfg) else Inr ?s) (\<lambda>s.
    Inr (if gnb then s else put_entity s 0 (nr_sdap_tun_attach env (sdap_tuns s) (sdap_entities s ! 0)))))"
    using key by (simp add: nr_sdap_add_entity_def Let_def e1(1) flip: e0_def) (simp add: e0_def)
  show ?thesis
  proof (cases "cfg_role cfg \<noteq> 0 \<or> length (cfg_to_add cfg) \<le> 1")
    case True
    have "sdap_ok (put_entity ?s 0 (nr_sdap_tun_attach env (sdap_tuns s) (sdap_entities ?s ! 0)))"
      by (rule put_attach_ok [OF s1]) simp
    moreover have "(\<exists>s'. start_sdap_tun env True ?s ue (cfg_pdusession_id cfg) = Inr s' \<and> sdap_ok s') \<or>
      (start_sdap_tun env True ?s ue (cfg_pdusession_id cfg) = Inl AssertFail \<and>
        (sdap_tun_iface_lookup (sdap_tuns s) ue (cfg_pdusession_id cfg) \<noteq> None \<or> \<not> gnb))"
      using start_sdap_tun_ok [OF s1, of env True ue "cfg_pdusession_id cfg"] get key(2) by auto
    ultimately show ?thesis unfolding run using True s1 by (cases "env_nos1 env \<and> gnb"; cases gnb) (simp_all, elim disjE exE conjE, simp_all)
  next
    case False
    then show ?thesis by (simp add: run)
  qed
qed

subsection \<open>Deletion\<close>

lemma delete_loop_SomeD:
  "sdap_delete_loop k es ue ps = Some (e, es') \<Longrightarrow> \<exists>as bs. es = as @ e # bs \<and> es' = as @ bs \<and> sdap_key e = (ue, ps)"
proof (induction k es ue ps arbitrary: es' rule: sdap_delete_loop.induct)
  case (2 k c cs ue ps)
  show ?case
  proof (cases "sdap_key c = (ue, ps)")
    case True
    then show ?thesis using 2(2) by (intro exI [of _ "[]"] exI [of _ cs]) auto
  next
    case False
    then obtain cs' where r: "sdap_delete_loop (k - 1) cs ue ps = Some (e, cs')" "es' = c # cs'" "cs \<noteq> []" "0 < k"
      using 2(2) by (auto split: if_splits)
    obtain as bs where "cs = as @ e # bs" "cs' = as @ bs" "sdap_key e = (ue, ps)"
      using 2(1) [OF _ _ r(1)] False r(3,4) by auto
    then show ?thesis using r(2) by (intro exI [of _ "c # as"] exI [of _ bs]) simp
  qed
qed simp

lemma delete_heads_eq: "fst (snd (sdap_delete_heads ts es ue)) = dropWhile (\<lambda>e. se_ue_id e = ue) es"
  by (induction ts es ue rule: sdap_delete_heads.induct) (simp_all add: case_prod_beta)

lemma delete_others_eq: "fst (snd (sdap_delete_others ts es ue)) = filter (\<lambda>e. se_ue_id e \<noteq> ue) es"
  by (induction ts es ue rule: sdap_delete_others.induct) (simp_all add: case_prod_beta)

lemma filter_dropWhile: "filter (\<lambda>x. \<not> P x) (dropWhile P xs) = filter (\<lambda>x. \<not> P x) xs"
  by (induction xs) auto

lemma delete_ue_entities_eq:
  "sdap_entities (fst (nr_sdap_delete_ue_entities s ue)) = filter (\<lambda>e. se_ue_id e \<noteq> ue) (sdap_entities s)"
  by (simp add: nr_sdap_delete_ue_entities_def case_prod_beta Let_def delete_others_eq delete_heads_eq filter_dropWhile)

lemma sdap_ok_sub:
  assumes "sdap_ok s" and "distinct (map sdap_key es)" and "set es \<subseteq> set (sdap_entities s)" and "sdap_entities s' = es"
  shows "sdap_ok s'"
  using assms by (auto simp: sdap_ok_def)

subsection \<open>One step\<close>

lemma config_qfis_cases:
  "(\<exists>xs. config_qfis l = Inr xs) \<or> (config_qfis l = Inl AssertFail \<and> too_many l)"
  by (cases l) (auto simp: config_qfis_def too_many_def SDAP_MAX_QFI_def c_check_def Let_def)

lemma get_config_cases:
  "(\<exists>cfg. nr_sdap_get_config gnb c drb = Inr cfg) \<or>
   (nr_sdap_get_config gnb c drb = Inl AssertFail \<and> (too_many (ie_mappedQoS_FlowsToAdd c) \<or> too_many (ie_mappedQoS_FlowsToRelease c)))"
  using config_qfis_cases [of "ie_mappedQoS_FlowsToAdd c"] config_qfis_cases [of "ie_mappedQoS_FlowsToRelease c"]
  by (auto simp: nr_sdap_get_config_def)

lemma release_drb_ok:
  assumes ok: "sdap_ok s"
  shows "sdap_ok (nr_sdap_release_drb s ue drb ps)"
proof (rule entity_cases [OF ok, of ue ps])
  fix i assume i: "nr_sdap_get_entity (sdap_entities s) ue ps = Some i" "i < length (sdap_entities s)" "sdap_entity_ok (sdap_entities s ! i)"
  let ?e = "(sdap_entities s ! i)\<lparr>se_table := map (\<lambda>r. if drb_of r = drb then r\<lparr>drb_of := 0\<rparr> else r) (se_table (sdap_entities s ! i))\<rparr>"
  have "same_entity ?e (sdap_entities s ! i)" by (auto simp: same_entity_def)
  moreover have "sdap_entity_ok ?e" using i(3) by (fastforce simp: sdap_entity_ok_def)
  ultimately show ?thesis using put_same_ok [OF ok i(2)] i(1) by (simp add: nr_sdap_release_drb_def Let_def)
qed (use ok in \<open>simp add: nr_sdap_release_drb_def\<close>)

lemma qfis_to_release_range: "x \<in> set (qfis_to_release e drb qfis) \<Longrightarrow> 0 \<le> x \<and> x < 64"
  by (simp add: qfis_to_release_def SDAP_MAX_QFI_def)

lemma update_qos_ok:
  assumes ok: "sdap_ok s"
  shows "(\<exists>s' out. sdap_step env s (SdUpdateQos ue ps drb qfis) = Inr (s', out) \<and> sdap_ok s') \<or>
    (\<exists>f. sdap_step env s (SdUpdateQos ue ps drb qfis) = Inl f \<and> sdap_stops env s (SdUpdateQos ue ps drb qfis) f)"
proof (rule entity_cases [OF ok, of ue ps])
  fix i assume i: "nr_sdap_get_entity (sdap_entities s) ue ps = Some i" "i < length (sdap_entities s)" "sdap_entity_ok (sdap_entities s ! i)"
    "entity_of s ue ps = Some (sdap_entities s ! i)"
  let ?e = "sdap_entities s ! i" and ?q = "map (\<lambda>x. x mod 256) qfis"
  define cfg where "cfg = \<lparr>cfg_pdusession_id = ps, cfg_drb_id = drb,
    cfg_role = (if se_enable_sdap ?e then if se_is_gnb ?e then SDAP_UL_RX OR SDAP_DL_TX else SDAP_UL_TX OR SDAP_DL_RX else 0),
    cfg_defaultDRB = (se_default_drb ?e = drb), cfg_to_add = ?q, cfg_to_release = qfis_to_release ?e drb ?q\<rparr>"
  have run: "sdap_step env s (SdUpdateQos ue ps drb qfis) =
    c_bind (c_check OutOfBounds (int (length qfis) \<le> SDAP_MAX_QFI)) (\<lambda>_.
    c_bind (nr_sdap_qfi2drb_map_update ?e cfg) (\<lambda>(e, out). Inr (put_entity s i e, out)))"
    by (simp add: nr_sdap_entity_update_qos_flows_def i(1) cfg_def Let_def)
  have stops: "sdap_stops env s (SdUpdateQos ue ps drb qfis) f" if "map_update_stops ?e cfg f" for f
    using that i(4) qfis_to_release_range [of _ ?e drb ?q] by (fastforce simp: map_update_stops_def cfg_def)
  show ?thesis
  proof (cases "int (length qfis) \<le> SDAP_MAX_QFI")
    case True
    from map_update_ok [OF i(3), of cfg] show ?thesis
      using True put_same_ok [OF ok i(2)] stops unfolding run by auto
  next
    case False
    then show ?thesis using i(4) unfolding run by (simp add: SDAP_MAX_QFI_def)
  qed
qed (use ok in \<open>simp add: nr_sdap_entity_update_qos_flows_def\<close>)

lemma set_qfi_ok:
  assumes ok: "sdap_ok s"
  shows "(\<exists>s'. set_qfi s (qfi mod 256) ps ue = Inr s' \<and> sdap_ok s') \<or>
    (set_qfi s (qfi mod 256) ps ue = Inl AssertFail \<and> (64 \<le> qfi mod 256 \<or> entity_of s ue ps = None))"
proof (cases "qfi mod 256 < SDAP_MAX_QFI")
  case True
  show ?thesis
  proof (rule entity_cases [OF ok, of ue ps])
    fix i assume i: "nr_sdap_get_entity (sdap_entities s) ue ps = Some i" "i < length (sdap_entities s)" "sdap_entity_ok (sdap_entities s ! i)"
    have "sdap_ok (put_entity s i ((sdap_entities s ! i)\<lparr>se_qfi := qfi mod 256\<rparr>))"
      using i True by (intro put_entity_ok [OF ok]) (auto simp: sdap_entity_ok_def)
    then show ?thesis using True i(1) by (simp add: set_qfi_def nr_sdap_tun_store_qfi_def Let_def)
  qed (use True in \<open>simp add: set_qfi_def\<close>)
qed (simp add: set_qfi_def SDAP_MAX_QFI_def)

lemma create_if_ok:
  assumes ok: "sdap_ok s"
  shows "(\<exists>s'. create_ue_if env s ue ps = Inr s' \<and> sdap_ok s') \<or>
    (create_ue_if env s ue ps = Inl AssertFail \<and> sdap_tun_iface_lookup (sdap_tuns s) ue ps = None \<and>
       (case entity_of s ue ps of None \<Rightarrow> True | Some e \<Rightarrow> se_is_gnb e))"
proof (cases "sdap_tun_iface_lookup (sdap_tuns s) ue ps = None")
  case True
  then show ?thesis using start_sdap_tun_ok [OF ok, of env False ue ps] by (auto simp: create_ue_if_def split: option.splits)
next
  case False
  then show ?thesis using ok put_attach_ok [OF ok] by (rule_tac entity_cases [OF ok, of ue ps]) (auto simp: create_ue_if_def)
qed

lemma delete_entity_ok:
  assumes ok: "sdap_ok s"
  shows "(\<exists>s' b. nr_sdap_delete_entity s ue ps = Inr (s', b) \<and> sdap_ok s') \<or>
    (nr_sdap_delete_entity s ue ps = Inl NullDeref \<and> sdap_entities s = [] \<and> 0 \<le> ps \<and> ps \<le> 256)"
proof (cases "sdap_delete_loop SDAP_MAX_NUM_OF_ENTITIES (sdap_entities s) ue ps")
  case None
  then show ?thesis using ok by (auto simp: nr_sdap_delete_entity_def)
next
  case (Some r)
  then obtain e es where r: "r = (e, es)" by (cases r)
  with Some have d: "sdap_delete_loop SDAP_MAX_NUM_OF_ENTITIES (sdap_entities s) ue ps = Some (e, es)" by simp
  obtain as bs where es: "sdap_entities s = as @ e # bs" "es = as @ bs" using delete_loop_SomeD [OF d] by blast
  have "sdap_ok \<lparr>sdap_entities = es, sdap_tuns = remove_ip_if (sdap_tuns s) e\<rparr>"
    using ok es by (auto simp: sdap_ok_def)
  then show ?thesis using d es by (auto simp: nr_sdap_delete_entity_def)
qed

theorem sdap_step_cases:
  assumes ok: "sdap_ok s"
  shows "(\<exists>s' out. sdap_step env s ev = Inr (s', out) \<and> sdap_ok s') \<or> (\<exists>f. sdap_step env s ev = Inl f \<and> sdap_stops env s ev f)"
proof (cases ev)
  case (SdAddMod gnb ue cfg)
  show ?thesis
  proof (rule entity_cases [OF ok, of ue "cfg_pdusession_id cfg"])
    assume n: "nr_sdap_get_entity (sdap_entities s) ue (cfg_pdusession_id cfg) = None" "entity_of s ue (cfg_pdusession_id cfg) = None"
    show ?thesis using add_entity_ok [OF ok get_entity_NoneD [OF n(1)], of env gnb] n
      by (auto simp: SdAddMod nr_sdap_addmod_entity_def)
  next
    fix i assume i: "nr_sdap_get_entity (sdap_entities s) ue (cfg_pdusession_id cfg) = Some i" "i < length (sdap_entities s)"
      "entity_of s ue (cfg_pdusession_id cfg) = Some (sdap_entities s ! i)" "sdap_entity_ok (sdap_entities s ! i)"
    show ?thesis using map_update_ok [OF i(4), of cfg] put_same_ok [OF ok i(2)] i(1,3)
      by (auto simp: SdAddMod nr_sdap_addmod_entity_def)
  qed
next
  case (SdReconfigure c ue ps drb)
  show ?thesis
  proof (rule entity_cases [OF ok, of ue ps])
    fix i assume i: "nr_sdap_get_entity (sdap_entities s) ue ps = Some i" "i < length (sdap_entities s)"
      "entity_of s ue ps = Some (sdap_entities s ! i)" "sdap_entity_ok (sdap_entities s ! i)"
    from get_config_cases [of False c drb] show ?thesis
    proof (elim disjE exE conjE)
      fix cfg assume "nr_sdap_get_config False c drb = Inr cfg"
      then show ?thesis using map_update_ok [OF i(4), of cfg] put_same_ok [OF ok i(2)] i(1,3)
        by (auto simp: SdReconfigure nr_reconfigure_sdap_entity_def)
    qed (use i(1,3) in \<open>simp_all add: SdReconfigure nr_reconfigure_sdap_entity_def\<close>)
  qed (use ok in \<open>simp add: SdReconfigure nr_reconfigure_sdap_entity_def\<close>)
next
  case (SdReq ctxt_ue ue sdu qfi rqi ps)
  show ?thesis
  proof (rule entity_cases [OF ok, of ue ps])
    fix i assume i: "nr_sdap_get_entity (sdap_entities s) ue ps = Some i" "sdap_entity_ok (sdap_entities s ! i)"
    then show ?thesis using ok tx_entity_ok [of "sdap_entities s ! i" "qfi mod 256" ctxt_ue sdu rqi]
      by (auto simp: SdReq sdap_data_req_def opt_output_def sdap_entity_ok_def split: if_splits)
  qed (use ok in \<open>simp add: SdReq sdap_data_req_def opt_output_def\<close>)
next
  case (SdInd drb gnb ps ue buf)
  show ?thesis
  proof (rule entity_cases [OF ok, of ue ps])
    fix i assume i: "nr_sdap_get_entity (sdap_entities s) ue ps = Some i" "i < length (sdap_entities s)"
      "entity_of s ue ps = Some (sdap_entities s ! i)" "sdap_entity_ok (sdap_entities s ! i)"
    show ?thesis using rx_entity_ok [OF i(4), of drb gnb ps ue buf] put_same_ok [OF ok i(2)] i(1,3)
      by (auto simp: SdInd sdap_data_ind_def)
  qed (use ok in \<open>simp add: SdInd sdap_data_ind_def\<close>)
next
  case (SdTunRead ue ps sdu)
  show ?thesis
  proof (rule entity_cases [OF ok, of ue ps])
    fix i assume i: "nr_sdap_get_entity (sdap_entities s) ue ps = Some i" "sdap_entity_ok (sdap_entities s ! i)"
    let ?e = "sdap_entities s ! i"
    have "0 \<le> se_qfi ?e mod 256" "se_qfi ?e mod 256 < 64" "length (se_table ?e) = 64" using i(2) by (auto simp: sdap_entity_ok_def SDAP_MAX_QFI_def)
    then obtain o' where "nr_sdap_tx_entity ?e (se_ue_id ?e) sdu (se_qfi ?e mod 256) (\<not> se_is_gnb ?e) = Inr o'"
      using tx_entity_ok [of ?e "se_qfi ?e mod 256" "se_ue_id ?e" sdu "\<not> se_is_gnb ?e"] by auto
    then show ?thesis using ok i(1) by (auto simp: SdTunRead sdap_tun_read_def opt_output_def)
  qed (use ok in \<open>simp add: SdTunRead\<close>)
next
  case (SdDeleteUe ue)
  have "sdap_ok (fst (nr_sdap_delete_ue_entities s ue))"
    by (rule sdap_ok_sub [OF ok _ _ delete_ue_entities_eq]) (use ok in \<open>auto simp: sdap_ok_def distinct_map inj_on_def\<close>)
  then show ?thesis by (simp add: SdDeleteUe)
next
  case (SdReleaseDrb ue drb ps)
  then show ?thesis using release_drb_ok [OF ok] by simp
next
  case (SdUpdateQos ue ps drb qfis)
  then show ?thesis using update_qos_ok [OF ok] by blast
next
  case (SdDelete ue ps)
  then show ?thesis using delete_entity_ok [OF ok, of ue ps] by auto
next
  case (SdSetQfi qfi ps ue)
  then show ?thesis using set_qfi_ok [OF ok, of qfi ps ue] by auto
next
  case (SdCreateIf ue ps)
  then show ?thesis using create_if_ok [OF ok, of env ue ps] by auto
qed

interpretation sdap_machine: fault_machine "sdap_step env" sdap_ok "sdap_stops env"
  by unfold_locales (rule sdap_step_cases)

end
