(* ===== verification/Sdap_Claims.thy ===== *)
theory Sdap_Claims
  imports Sdap_Machine
begin

text \<open>
  The properties of SDAP: its lists stay well formed under any calls, an update of the QoS flows of a bearer is exact, and a
  bearer with a header in one direction only stops the gNB.
\<close>

subsection \<open>Well-formed lists\<close>

text \<open>C11: Whatever calls SDAP gets, from the empty state on, its data stay well formed: no two entities have the same UE and
  session, every table has an entry for each of the 64 QoS flows, the QFI of an entity is in range, and an entity without headers
  maps to one bearer at most. The calls that end the process instead are those described by \<open>sdap_stops\<close>: assertions
  on the configuration, a QFI outside the table, an empty PDU where a header is expected, a deletion when there is no
  entity, and a PDU on a bearer with a header in the other direction only.\<close>

theorem sdap_well_formed:
  "(\<exists>s outs. run_steps (sdap_step env) \<lparr>sdap_entities = [], sdap_tuns = []\<rparr> evs = Inr (s, outs) \<and>
      distinct (map (\<lambda>e. (se_ue_id e, se_pdusession_id e)) (sdap_entities s)) \<and>
      (\<forall>e \<in> set (sdap_entities s). length (se_table e) = 64 \<and> se_qfi e \<in> {0..<64} \<and>
         (se_enable_sdap e \<or> (\<exists>d. drb_of ` set (se_table e) \<subseteq> {0, d})))) \<or>
   (\<exists>pre ev post s outs f. evs = pre @ ev # post \<and>
      run_steps (sdap_step env) \<lparr>sdap_entities = [], sdap_tuns = []\<rparr> pre = Inr (s, outs) \<and> sdap_stops env s ev f \<and>
      run_steps (sdap_step env) \<lparr>sdap_entities = [], sdap_tuns = []\<rparr> evs = Inl f)"
proof -
  have "sdap_ok \<lparr>sdap_entities = [], sdap_tuns = []\<rparr>" by (simp add: sdap_ok_def)
  from sdap_machine.run_cases [OF this, of env evs] show ?thesis
  proof (elim disjE exE conjE)
    fix s outs assume r: "run_steps (sdap_step env) \<lparr>sdap_entities = [], sdap_tuns = []\<rparr> evs = Inr (s, outs)" and ok: "sdap_ok s"
    have "length (se_table e) = 64 \<and> se_qfi e \<in> {0..<64} \<and> (se_enable_sdap e \<or> (\<exists>d. drb_of ` set (se_table e) \<subseteq> {0, d}))"
      if "sdap_entity_ok e" for e
      using that by (auto simp: sdap_entity_ok_def SDAP_MAX_QFI_def image_subset_iff)
    then show ?thesis using r ok by (auto simp: sdap_ok_def)
  qed blast
qed

definition quiet_env :: sdap_env where
  "quiet_env = \<lparr>env_nos1 = False, env_dup = id, env_tuntap_alloc = \<lambda>_ _. 4\<rparr>"

definition session1_events :: "sdap_event list" where
  "session1_events =
     [SdAddMod True 7 (projr (nr_sdap_get_config True
        \<lparr>ie_pdu_Session = 1, ie_sdap_HeaderUL = True, ie_sdap_HeaderDL = True, ie_defaultDRB = True,
         ie_mappedQoS_FlowsToAdd = Some [5], ie_mappedQoS_FlowsToRelease = None\<rparr> 3)),
      SdUpdateQos 7 1 4 [5, 6], SdReq 7 0 [0x45, 0] 1 False 6]"

theorem sdap_well_formed_witness:
  "\<exists>s outs. run_steps (sdap_step quiet_env) \<lparr>sdap_entities = [], sdap_tuns = []\<rparr> session1_events = Inr (s, outs) \<and>
     length (sdap_entities s) = 1 \<and> length (se_table (sdap_entities s ! 0)) = 64"
proof -
  let ?r = "run_steps (sdap_step quiet_env) \<lparr>sdap_entities = [], sdap_tuns = []\<rparr> session1_events"
  obtain s outs where r: "?r = Inr (s, outs)"
    by (rule that [of "fst (projr ?r)" "snd (projr ?r)"]) code_simp
  have "map_sum id (\<lambda>(s, _). length (sdap_entities s)) ?r = Inr 1" by code_simp
  with r have one: "length (sdap_entities s) = 1" by simp
  from sdap_well_formed [of quiet_env session1_events] r have "\<forall>e \<in> set (sdap_entities s). length (se_table e) = 64" by auto
  with r one show ?thesis by (metis nth_mem zero_less_one)
qed

subsection \<open>Updates of the QoS flows\<close>

lemma entity_of_find:
  "entity_of s ue ps = ue_find sdap_key (sdap_entities s) (ue, ps)"
  by (simp add: entity_of_def get_entity_eq ue_find_def)

lemma entity_of_put:
  assumes "sdap_ok s" and "i < length (sdap_entities s)" and "sdap_key e = sdap_key (sdap_entities s ! i)"
  shows "entity_of (put_entity s i e) ue ps = (if sdap_key e = (ue, ps) then Some e else entity_of s ue ps)"
proof -
  have "distinct (map sdap_key (sdap_entities s))" using assms(1) by (simp add: sdap_ok_def)
  from ue_find_update [OF this assms(2,3), of "(ue, ps)"] show ?thesis
    unfolding entity_of_find by (simp add: put_entity_def eq_commute [of "(ue, ps)"])
qed

text \<open>C12: An update of the QoS flows of a bearer replaces the mapping of this bearer and nothing else. After
  \<^verbatim>\<open>nr_sdap_entity_update_qos_flows\<close> with a list of valid QFIs, exactly these flows are mapped to the bearer, with the role
  of the entity; flows that were mapped to it and are not in the list are not mapped any more; the rules of other bearers
  and the other entities are as before, and a gNB sends no end marker.\<close>

theorem sdap_update_qos_exact:
  assumes ok: "sdap_ok s" and e: "entity_of s ue ps = Some e" and drb: "1 \<le> drb" "drb \<le> 32"
    and qfis: "length qfis \<le> 64" "\<forall>x \<in> set qfis. 0 \<le> x \<and> x < 64"
    and single: "se_enable_sdap e \<or> drb_of ` set (se_table e) \<subseteq> {0, drb}"
  shows "\<exists>s' out e'. nr_sdap_entity_update_qos_flows s ue ps drb qfis = Inr (s', out) \<and> entity_of s' ue ps = Some e' \<and>
    (\<forall>q. 0 \<le> q \<longrightarrow> q < 64 \<longrightarrow> sdap_rule e' q =
       (if q \<in> set qfis
        then \<lparr>drb_of = drb, entity_role = (if \<not> se_enable_sdap e then 0 else if se_is_gnb e then SDAP_UL_RX OR SDAP_DL_TX else SDAP_UL_TX OR SDAP_DL_RX)\<rparr>
        else if drb_of (sdap_rule e q) = drb then \<lparr>drb_of = 0, entity_role = 0\<rparr> else sdap_rule e q)) \<and>
    (\<forall>ue2 ps2. (ue2, ps2) \<noteq> (ue, ps) \<longrightarrow> entity_of s' ue2 ps2 = entity_of s ue2 ps2) \<and> (se_is_gnb e \<longrightarrow> out = [])"
proof (rule entity_cases [OF ok, of ue ps])
  fix i assume i: "nr_sdap_get_entity (sdap_entities s) ue ps = Some i" "i < length (sdap_entities s)"
    "entity_of s ue ps = Some (sdap_entities s ! i)" "sdap_entity_ok (sdap_entities s ! i)" "sdap_key (sdap_entities s ! i) = (ue, ps)"
  then have ei: "sdap_entities s ! i = e" using e by simp
  let ?role = "if se_enable_sdap e then if se_is_gnb e then SDAP_UL_RX OR SDAP_DL_TX else SDAP_UL_TX OR SDAP_DL_RX else 0"
  have role: "?role mod 256 = (if \<not> se_enable_sdap e then 0 else if se_is_gnb e then SDAP_UL_RX OR SDAP_DL_TX else SDAP_UL_TX OR SDAP_DL_RX)"
    by (simp add: SDAP_UL_RX_def SDAP_DL_TX_def SDAP_UL_TX_def SDAP_DL_RX_def)
  define cfg where "cfg = \<lparr>cfg_pdusession_id = ps, cfg_drb_id = drb, cfg_role = ?role,
    cfg_defaultDRB = (se_default_drb e = drb), cfg_to_add = qfis, cfg_to_release = qfis_to_release e drb qfis\<rparr>"
  have m: "(\<lambda>x. x mod 256) ` set qfis = set qfis" "(\<lambda>x. x mod 256) ` set (qfis_to_release e drb qfis) = set (qfis_to_release e drb qfis)"
    using qfis(2) qfis_to_release_range [of _ e drb qfis] by (force simp: image_iff)+
  have "\<not> map_update_stops e cfg f" for f
    using single qfis(2) qfis_to_release_range [of _ e drb qfis] by (fastforce simp: map_update_stops_def cfg_def)
  then obtain e' out where u: "nr_sdap_qfi2drb_map_update e cfg = Inr (e', out)" "same_entity e' e" "se_is_gnb e \<longrightarrow> out = []"
    "\<forall>q. 0 \<le> q \<longrightarrow> q < 64 \<longrightarrow> sdap_rule e' q = updated_rule e cfg q"
    using map_update_ok [OF i(4), of cfg] unfolding ei by blast
  have key: "sdap_key e' = sdap_key (sdap_entities s ! i)" using same_entityD(1) [OF u(2)] ei by simp
  note get = entity_of_put [OF ok i(2) key]
  have "nr_sdap_entity_update_qos_flows s ue ps drb qfis = Inr (put_entity s i e', out)"
    using qfis(1) u(1) by (simp add: nr_sdap_entity_update_qos_flows_def i(1) ei Let_def SDAP_MAX_QFI_def flip: cfg_def)
  moreover have "sdap_rule e' q = (if q \<in> set qfis then \<lparr>drb_of = drb, entity_role = ?role mod 256\<rparr>
      else if drb_of (sdap_rule e q) = drb then \<lparr>drb_of = 0, entity_role = 0\<rparr> else sdap_rule e q)" if "0 \<le> q" "q < 64" for q
    using u(4) that drb unfolding updated_rule_def by (auto simp: cfg_def m qfis_to_release_def SDAP_MAX_QFI_def SDAP_MAX_DRBS_def sdap_rule_def)
  ultimately show ?thesis unfolding role using get key i(5) u(3) by auto
qed (use e in simp)

lemma sdap_update_qos_exact_witness:
  "let s = \<lparr>sdap_entities = [\<lparr>se_ue_id = 7, se_default_drb = 0, se_is_gnb = True, se_enable_sdap = True, se_pdusession_id = 1, se_sock = - 1,
       se_stop_thread = False, se_qfi = 0, se_table = (replicate 64 \<lparr>drb_of = 0, entity_role = 0\<rparr>)[5 := \<lparr>drb_of = 3, entity_role = 6\<rparr>]\<rparr>],
       sdap_tuns = []\<rparr>
   in \<exists>s' out e'. nr_sdap_entity_update_qos_flows s 7 1 3 [6, 9] = Inr (s', out) \<and> entity_of s' 7 1 = Some e' \<and> out = [] \<and>
     sdap_rule e' 5 = \<lparr>drb_of = 0, entity_role = 0\<rparr> \<and> sdap_rule e' 9 = \<lparr>drb_of = 3, entity_role = 6\<rparr>"
proof -
  define e where "e = \<lparr>se_ue_id = 7, se_default_drb = 0, se_is_gnb = True, se_enable_sdap = True, se_pdusession_id = 1, se_sock = - 1,
    se_stop_thread = False, se_qfi = 0, se_table = (replicate 64 \<lparr>drb_of = 0, entity_role = 0\<rparr>)[5 := \<lparr>drb_of = 3, entity_role = 6\<rparr>]\<rparr>"
  let ?s = "\<lparr>sdap_entities = [e], sdap_tuns = []\<rparr>"
  have ok: "sdap_ok ?s" by (simp add: sdap_ok_def sdap_entity_ok_def e_def SDAP_MAX_QFI_def)
  have e: "entity_of ?s 7 1 = Some e" by (simp add: entity_of_def e_def)
  have r: "sdap_rule e 5 = \<lparr>drb_of = 3, entity_role = 6\<rparr>" "se_is_gnb e" "se_enable_sdap e" by (simp_all add: sdap_rule_def e_def)
  from sdap_update_qos_exact [OF ok e, of 3 "[6, 9]"] obtain s' out e' where
    u: "nr_sdap_entity_update_qos_flows ?s 7 1 3 [6, 9] = Inr (s', out)" "entity_of s' 7 1 = Some e'" "out = []"
      "\<forall>q. 0 \<le> q \<longrightarrow> q < 64 \<longrightarrow> sdap_rule e' q =
       (if q \<in> {6, 9} then \<lparr>drb_of = 3, entity_role = SDAP_UL_RX OR SDAP_DL_TX\<rparr>
        else if drb_of (sdap_rule e q) = 3 then \<lparr>drb_of = 0, entity_role = 0\<rparr> else sdap_rule e q)" using r by auto
  then have "sdap_rule e' 5 = \<lparr>drb_of = 0, entity_role = 0\<rparr>" "sdap_rule e' 9 = \<lparr>drb_of = 3, entity_role = 6\<rparr>"
    using r(1) by (simp_all add: SDAP_UL_RX_def SDAP_DL_TX_def)
  then show ?thesis unfolding Let_def e_def [symmetric] using u(1-3) by blast
qed

subsection \<open>A header in one direction\<close>

text \<open>C40: A bearer with an SDAP header in the downlink only stops the gNB. The configuration has \<^verbatim>\<open>sdap-HeaderDL\<close> present and
  \<^verbatim>\<open>sdap-HeaderUL\<close> absent, so the UE sends its packets without a header; but the gNB reads a QFI from the first byte as
  soon as the entity has any header, and when this number is the one of a mapped flow, the assertion that no QFI was
  read fails.\<close>

theorem sdap_header_downlink_only:
  assumes ok: "sdap_ok s" and new: "entity_of s ue (ie_pdu_Session c) = None" and env: "\<not> env_nos1 env"
    and c: "ie_sdap_HeaderDL c" "\<not> ie_sdap_HeaderUL c" and cfg: "nr_sdap_get_config True c drb = Inr cfg"
    and drb: "1 \<le> drb" "drb \<le> 32" and q: "sdap_hdr_qfi b \<in> set (cfg_to_add cfg)"
  shows "\<exists>s'. nr_sdap_addmod_entity env True s ue cfg = Inr (s', []) \<and>
    sdap_data_ind s' drb True (ie_pdu_Session c) ue (b # rest) = Inl AssertFail"
proof -
  have f: "cfg_pdusession_id cfg = ie_pdu_Session c" "cfg_drb_id cfg = drb" "cfg_role cfg = SDAP_DL_TX"
    using cfg c by (auto simp: nr_sdap_get_config_def c_bind_eq_Inr_conv get_sdap_role_def)
  define e0 where "e0 = \<lparr>se_ue_id = ue, se_default_drb = (if cfg_defaultDRB cfg then cfg_drb_id cfg else 0), se_is_gnb = True,
     se_enable_sdap = (cfg_role cfg \<noteq> 0), se_pdusession_id = cfg_pdusession_id cfg, se_sock = - 1,
     se_stop_thread = False, se_qfi = 0, se_table = replicate (nat SDAP_MAX_QFI) \<lparr>drb_of = 0, entity_role = 0\<rparr>\<rparr>"
  have len: "length (se_table e0) = 64" by (simp add: e0_def SDAP_MAX_QFI_def)
  have q': "sdap_hdr_qfi b \<in> (\<lambda>x. x mod 256) ` set (cfg_to_add cfg)" using q sdap_hdr_qfi_range [of b] by (force simp: image_iff)
  obtain e1 where e1: "nr_sdap_add_qos_flows_to_drb e0 drb (cfg_role cfg mod 256) (cfg_to_add cfg) = Inr e1" "same_entity e1 e0"
    "sdap_rule e1 (sdap_hdr_qfi b) = \<lparr>drb_of = drb, entity_role = SDAP_DL_TX\<rparr>"
    using add_qos_flows_ok [OF len, of drb "cfg_role cfg mod 256" "cfg_to_add cfg"] drb q' sdap_hdr_qfi_range [of b]
    by (auto simp: SDAP_MAX_DRBS_def f(3) SDAP_DL_TX_def)
  let ?s = "s\<lparr>sdap_entities := e1 # sdap_entities s\<rparr>"
  have same: "se_ue_id e1 = ue" "se_pdusession_id e1 = ie_pdu_Session c" "se_enable_sdap e1" "length (se_table e1) = 64"
    using same_entityD [OF e1(2)] len by (simp_all add: e0_def f SDAP_DL_TX_def)
  have none: "nr_sdap_get_entity (sdap_entities s) ue (ie_pdu_Session c) = None" using new by (simp add: entity_of_def)
  have "nr_sdap_addmod_entity env True s ue cfg = Inr (?s, [])"
    using e1(1) env by (cases "cfg_defaultDRB cfg")
      (simp_all add: nr_sdap_addmod_entity_def none f nr_sdap_add_entity_def Let_def SDAP_DL_TX_def e0_def)
  moreover have "sdap_data_ind ?s drb True (ie_pdu_Session c) ue (b # rest) = Inl AssertFail"
    using sdap_hdr_qfi_range [of b] drb
    by (simp add: sdap_data_ind_def same nr_sdap_rx_entity_def rule_at_eq [OF same(4) sdap_hdr_qfi_range(1)] e1(3) sdap_rx_gnb_def
        has_role_def SDAP_DL_TX_def SDAP_UL_RX_def SDAP_MAX_QFI_def Let_def)
  ultimately show ?thesis by blast
qed

lemma sdap_header_downlink_only_witness:
  "let c = \<lparr>ie_pdu_Session = 1, ie_sdap_HeaderUL = False, ie_sdap_HeaderDL = True, ie_defaultDRB = False,
       ie_mappedQoS_FlowsToAdd = Some [5], ie_mappedQoS_FlowsToRelease = None\<rparr>
   in \<exists>cfg s'. nr_sdap_get_config True c 3 = Inr cfg \<and>
     nr_sdap_addmod_entity \<lparr>env_nos1 = False, env_dup = id, env_tuntap_alloc = \<lambda>_ _. 4\<rparr> True \<lparr>sdap_entities = [], sdap_tuns = []\<rparr> 7 cfg = Inr (s', []) \<and>
     sdap_data_ind s' 3 True 1 7 [0x45, 0, 0, 20] = Inl AssertFail"
proof -
  define c where "c = \<lparr>ie_pdu_Session = 1, ie_sdap_HeaderUL = False, ie_sdap_HeaderDL = True, ie_defaultDRB = False,
    ie_mappedQoS_FlowsToAdd = Some [5], ie_mappedQoS_FlowsToRelease = None\<rparr>"
  obtain cfg where cfg: "nr_sdap_get_config True c 3 = Inr cfg" "cfg_to_add cfg = [5]"
    by (simp add: nr_sdap_get_config_def config_qfis_def c_def SDAP_MAX_QFI_def)
  have c: "ie_pdu_Session c = 1" "ie_sdap_HeaderDL c" "\<not> ie_sdap_HeaderUL c" by (simp_all add: c_def)
  have q: "sdap_hdr_qfi 0x45 = 5" by (simp add: sdap_hdr_qfi_def)
  have start: "sdap_ok \<lparr>sdap_entities = [], sdap_tuns = []\<rparr>" "entity_of \<lparr>sdap_entities = [], sdap_tuns = []\<rparr> 7 (ie_pdu_Session c) = None"
    by (simp_all add: sdap_ok_def entity_of_def)
  have "\<exists>s'. nr_sdap_addmod_entity \<lparr>env_nos1 = False, env_dup = id, env_tuntap_alloc = \<lambda>_ _. 4\<rparr> True \<lparr>sdap_entities = [], sdap_tuns = []\<rparr> 7 cfg = Inr (s', []) \<and>
      sdap_data_ind s' 3 True (ie_pdu_Session c) 7 [0x45, 0, 0, 20] = Inl AssertFail"
    by (rule sdap_header_downlink_only [OF start _ c(2,3) cfg(1)]) (simp_all add: q cfg(2))
  then show ?thesis unfolding Let_def c_def [symmetric] using cfg(1) c(1) by auto
qed

end
