(* ===== verification/Pdcp_Sdu.thy ===== *)
theory Pdcp_Sdu
  imports L2_Prelude
begin

text \<open>
  The reordering buffer of a PDCP entity: \<^verbatim>\<open>nr_pdcp_sdu_t\<close> and its singly linked list, ordered by
  COUNT (\<^verbatim>\<open>nr_pdcp_sdu.c\<close>, \<^verbatim>\<open>nr_pdcp_integrity_data.h\<close>). The linked list is a HOL list, the
  \<open>next\<close> pointer of a cell is its tail, and the \<open>size\<close> of an SDU is the length of its buffer.
\<close>

record nr_pdcp_integrity_data =
  mi_count :: u32
  mi_mac :: "byte list"
  mi_header_size :: byte
  mi_header :: "byte list"

record nr_pdcp_sdu =
  sdu_count :: u32
  sdu_buffer :: "byte list"
  sdu_msg_integrity :: nr_pdcp_integrity_data

definition nr_pdcp_new_sdu :: "u32 \<Rightarrow> byte list \<Rightarrow> nr_pdcp_integrity_data \<Rightarrow> nr_pdcp_sdu" where
  "nr_pdcp_new_sdu count buffer msg_integrity =
     \<lparr>sdu_count = count, sdu_buffer = buffer, sdu_msg_integrity = msg_integrity\<rparr>"

abbreviation sdu_size :: "nr_pdcp_sdu \<Rightarrow> int" where
  "sdu_size s \<equiv> int (length (sdu_buffer s))"

fun nr_pdcp_sdu_list_add :: "nr_pdcp_sdu list \<Rightarrow> nr_pdcp_sdu \<Rightarrow> nr_pdcp_sdu list" where
  "nr_pdcp_sdu_list_add [] sdu = [sdu]"
| "nr_pdcp_sdu_list_add (cur # l) sdu =
     (if sdu_count sdu < sdu_count cur then sdu # cur # l
      else cur # nr_pdcp_sdu_list_add l sdu)"

fun nr_pdcp_sdu_in_list :: "nr_pdcp_sdu list \<Rightarrow> u32 \<Rightarrow> bool" where
  "nr_pdcp_sdu_in_list [] count = False"
| "nr_pdcp_sdu_in_list (x # l) count =
     (if sdu_count x = count then True else nr_pdcp_sdu_in_list l count)"

abbreviation counts_of :: "nr_pdcp_sdu list \<Rightarrow> u32 list" where
  "counts_of \<equiv> map sdu_count"

lemma nr_pdcp_new_sdu_simps [simp]:
  "sdu_count (nr_pdcp_new_sdu c b m) = c"
  "sdu_buffer (nr_pdcp_new_sdu c b m) = b"
  "sdu_msg_integrity (nr_pdcp_new_sdu c b m) = m"
  by (simp_all add: nr_pdcp_new_sdu_def)

lemma nr_pdcp_sdu_in_list_iff: "nr_pdcp_sdu_in_list l count \<longleftrightarrow> count \<in> sdu_count ` set l"
  by (induction l) auto

lemma nr_pdcp_sdu_list_add_eq:
  "nr_pdcp_sdu_list_add l sdu = insert_before (\<lambda>c. sdu_count sdu < sdu_count c) sdu l"
  by (induction l) auto

interpretation sdu_list: ordered_list sdu_count nr_pdcp_sdu_list_add "\<lambda>_ _. True"
  by unfold_locales (simp add: nr_pdcp_sdu_list_add_eq)

lemma sorted_wrt_count_map:
  "sorted_wrt (\<lambda>a b. sdu_count a < sdu_count b) l \<longleftrightarrow> sorted_wrt (<) (counts_of l)"
  by (simp add: sorted_wrt_map)

lemma strict_list_add:
  assumes "sorted_wrt (<) (counts_of l)" and "\<not> nr_pdcp_sdu_in_list l (sdu_count sdu)"
  shows "sorted_wrt (<) (counts_of (nr_pdcp_sdu_list_add l sdu))"
  using assms sdu_list.strict_ins [of l sdu]
  by (simp add: sorted_wrt_count_map [symmetric] nr_pdcp_sdu_in_list_iff)

lemmas set_list_add [simp] = sdu_list.set_ins [OF TrueI]

end
