(* ===== verification/Pdcp_Entity.thy ===== *)
theory Pdcp_Entity
  imports Pdcp_Sdu Secu
begin

text \<open>
  The NR PDCP entity (\<^verbatim>\<open>nr_pdcp_entity.c\<close>, \<^verbatim>\<open>nr_pdcp_entity.h\<close>): its state and every operation of
  its function table. A function pointer is the name of the function it points to. A call of \<open>deliver_sdu\<close>
  is an element of the list of SDUs an operation returns, in the order of the calls.
\<close>

definition SHORT_SN_SIZE :: nat where "SHORT_SN_SIZE = 12"
definition LONG_SN_SIZE :: nat where "LONG_SN_SIZE = 18"
definition SHORT_PDCP_HEADER_SIZE :: nat where "SHORT_PDCP_HEADER_SIZE = 2"
definition LONG_PDCP_HEADER_SIZE :: nat where "LONG_PDCP_HEADER_SIZE = 3"
definition PDCP_INTEGRITY_SIZE :: nat where "PDCP_INTEGRITY_SIZE = 4"

lemmas pdcp_sizes [simp] = SHORT_SN_SIZE_def LONG_SN_SIZE_def SHORT_PDCP_HEADER_SIZE_def
  LONG_PDCP_HEADER_SIZE_def PDCP_INTEGRITY_SIZE_def

datatype nr_pdcp_entity_type = NR_PDCP_DRB_AM | NR_PDCP_DRB_UM | NR_PDCP_SRB

record nr_pdcp_entity_security_keys_and_algos =
  integrity_algorithm :: int
  ciphering_algorithm :: int
  integrity_key :: "byte list"
  ciphering_key :: "byte list"

record nr_pdcp_count =
  pc_sn :: u32
  pc_hfn :: u32

record nr_pdcp_statistics =
  txpdu_pkts :: u32
  txpdu_bytes :: u32
  txpdu_sn :: u32
  rxpdu_pkts :: u32
  rxpdu_bytes :: u32
  rxpdu_sn :: u32
  rxpdu_oo_pkts :: u32
  rxpdu_oo_bytes :: u32
  rxpdu_dd_pkts :: u32
  rxpdu_dd_bytes :: u32
  rxpdu_ro_count :: u32
  txsdu_pkts :: u32
  txsdu_bytes :: u32
  rxsdu_pkts :: u32
  rxsdu_bytes :: u32
  st_mode :: byte

datatype cipher_fn = Nea1 | Nea2
datatype integrity_fn = Nia1 | Nia2

text \<open>
  A security context is the key it was made from: \<^verbatim>\<open>nea1_init\<close>, \<^verbatim>\<open>nia1_init\<close> and \<^verbatim>\<open>nia2_init\<close> copy
  the key (\<open>CtxCopy\<close>), \<^verbatim>\<open>nea2_init\<close> returns the pointer to the key inside the entity (\<open>CtxKeyPtr\<close>), so
  that it follows every later change of that key. \<open>None\<close> is a NULL pointer or a context that was freed.
\<close>

datatype sec_ctx = CtxCopy "byte list" | CtxKeyPtr

record nr_pdcp_entity =
  entity_type :: nr_pdcp_entity_type
  rb_id :: int
  pdusession_id :: int
  has_sdap_rx :: bool
  has_sdap_tx :: bool
  sn_size :: nat
  t_reordering :: int
  discard_timer :: int
  sn_max :: int
  window_size :: int
  tx_next :: u32
  rx_next :: u32
  rx_deliv :: u32
  rx_reord :: u32
  t_current :: u64
  t_reordering_start :: u64
  has_ciphering :: bool
  has_integrity :: bool
  security_keys_and_algos :: nr_pdcp_entity_security_keys_and_algos
  security_context :: "sec_ctx option"
  cipher :: "cipher_fn option"
  decipher :: "cipher_fn option"
  free_security :: "cipher_fn option"
  integrity_context :: "sec_ctx option"
  integrity :: "integrity_fn option"
  free_integrity :: "integrity_fn option"
  is_gnb :: bool
  rx_list :: "nr_pdcp_sdu list"
  rx_size :: int
  rx_maxsize :: int
  stats :: nr_pdcp_statistics
  entity_suspended :: bool

subsection \<open>Security functions\<close>

text \<open>
  The wrappers of PDCP (\<^verbatim>\<open>nr_pdcp_security_nea1.c\<close>, \<^verbatim>\<open>nr_pdcp_security_nea2.c\<close>,
  \<^verbatim>\<open>nr_pdcp_integrity_nia1.c\<close>, \<^verbatim>\<open>nr_pdcp_integrity_nia2.c\<close>). The context of NEA1 and NIA1 is a
  \<^verbatim>\<open>nas_stream_cipher_t\<close> whose other fields each call overwrites.
\<close>

definition stream_ctx :: "byte list \<Rightarrow> byte list \<Rightarrow> int \<Rightarrow> u32 \<Rightarrow> int \<Rightarrow> nas_stream_cipher_t" where
  "stream_ctx ctx buffer bearer count direction =
     \<lparr>nsc_context = ctx, nsc_count = count, nsc_bearer = word_of_int (bearer - 1),
      nsc_direction = word_of_int direction, nsc_message = buffer, nsc_blength = length buffer * 8\<rparr>"

definition nr_pdcp_security_nea1_cipher ::
  "crypto \<Rightarrow> byte list \<Rightarrow> byte list \<Rightarrow> int \<Rightarrow> u32 \<Rightarrow> int \<Rightarrow> byte list c_result" where
  "nr_pdcp_security_nea1_cipher cr ctx buffer bearer count direction =
     stream_compute_encrypt cr 1 (stream_ctx ctx buffer bearer count direction)"

definition nr_pdcp_security_nea2_cipher ::
  "crypto \<Rightarrow> byte list \<Rightarrow> byte list \<Rightarrow> int \<Rightarrow> u32 \<Rightarrow> int \<Rightarrow> byte list c_result" where
  "nr_pdcp_security_nea2_cipher cr ctx buffer bearer count direction =
     c_bind (c_check AssertFail (0 < length buffer)) (\<lambda>_.
     c_bind (c_check AssertFail (bearer > -1 \<and> bearer < 32)) (\<lambda>_.
     c_bind (c_check AssertFail (direction > -1 \<and> direction < 2)) (\<lambda>_.
     aes_128_ctr cr ctx (iv16 count (bearer - 1) direction) buffer (length buffer))))"

definition nr_pdcp_integrity_nia1_integrity ::
  "crypto \<Rightarrow> byte list \<Rightarrow> byte list \<Rightarrow> int \<Rightarrow> u32 \<Rightarrow> int \<Rightarrow> byte list c_result" where
  "nr_pdcp_integrity_nia1_integrity cr ctx buffer bearer count direction =
     stream_compute_integrity cr 1 (stream_ctx ctx buffer bearer count direction) [0, 0, 0, 0]"

definition nr_pdcp_integrity_nia2_integrity ::
  "crypto \<Rightarrow> byte list \<Rightarrow> byte list \<Rightarrow> int \<Rightarrow> u32 \<Rightarrow> int \<Rightarrow> byte list c_result" where
  "nr_pdcp_integrity_nia2_integrity cr ctx buffer bearer count direction =
     c_bind (c_check AssertFail (bearer > 0 \<and> bearer < 33)) (\<lambda>_.
     Inr (take 4 (cipher_aes_128_cbc_cmac cr ctx (iv8 count (bearer - 1) direction) buffer)))"

text \<open>A call through the function pointers of the entity, on its context.\<close>

definition ctx_key :: "sec_ctx \<Rightarrow> byte list \<Rightarrow> byte list" where
  "ctx_key ctx stored = (case ctx of CtxCopy k \<Rightarrow> k | CtxKeyPtr \<Rightarrow> stored)"

definition call_cipher ::
  "crypto \<Rightarrow> nr_pdcp_entity \<Rightarrow> cipher_fn option \<Rightarrow> byte list \<Rightarrow> int \<Rightarrow> u32 \<Rightarrow> int \<Rightarrow> byte list c_result" where
  "call_cipher cr e f buffer bearer count direction =
     (case f of None \<Rightarrow> Inl NullDeref
      | Some fn \<Rightarrow>
          (case security_context e of None \<Rightarrow> Inl NullDeref
           | Some ctx \<Rightarrow>
               (let k = ctx_key ctx (ciphering_key (security_keys_and_algos e)) in
                case fn of
                  Nea1 \<Rightarrow> nr_pdcp_security_nea1_cipher cr k buffer bearer count direction
                | Nea2 \<Rightarrow> nr_pdcp_security_nea2_cipher cr k buffer bearer count direction)))"

definition call_integrity ::
  "crypto \<Rightarrow> nr_pdcp_entity \<Rightarrow> byte list \<Rightarrow> int \<Rightarrow> u32 \<Rightarrow> int \<Rightarrow> byte list c_result" where
  "call_integrity cr e buffer bearer count direction =
     (case integrity e of None \<Rightarrow> Inl NullDeref
      | Some fn \<Rightarrow>
          (case integrity_context e of None \<Rightarrow> Inl NullDeref
           | Some ctx \<Rightarrow>
               (let k = ctx_key ctx (integrity_key (security_keys_and_algos e)) in
                case fn of
                  Nia1 \<Rightarrow> nr_pdcp_integrity_nia1_integrity cr k buffer bearer count direction
                | Nia2 \<Rightarrow> nr_pdcp_integrity_nia2_integrity cr k buffer bearer count direction)))"

subsection \<open>Delivery loops\<close>

text \<open>The body of every delivery loop: unlink the head \<open>cur\<close>, account for it, free it.\<close>

definition deliver_head :: "nr_pdcp_entity \<Rightarrow> nr_pdcp_sdu \<Rightarrow> nr_pdcp_sdu list \<Rightarrow> nr_pdcp_entity" where
  "deliver_head e cur rest =
     e\<lparr>rx_list := rest, rx_size := rx_size e - sdu_size cur,
       stats := (stats e)\<lparr>txsdu_pkts := txsdu_pkts (stats e) + 1,
                          txsdu_bytes := txsdu_bytes (stats e) + of_int (sdu_size cur)\<rparr>\<rparr>"

lemma rx_list_deliver_head [simp]: "rx_list (deliver_head e cur rest) = rest"
  by (simp add: deliver_head_def)

text \<open>Deliver up to a discontinuity or the end of the list.\<close>

function deliver_contiguous ::
  "nr_pdcp_entity \<Rightarrow> u32 \<Rightarrow> nr_pdcp_entity \<times> nr_pdcp_sdu list \<times> u32" where
  "deliver_contiguous e count =
     (case rx_list e of
        [] \<Rightarrow> (e, [], count)
      | cur # rest \<Rightarrow>
          (if count = sdu_count cur
           then let (e', ds, c) = deliver_contiguous (deliver_head e cur rest) (count + 1)
                in (e', cur # ds, c)
           else (e, [], count)))"
  by pat_completeness auto
termination
  by (relation "measure (\<lambda>(e, count). length (rx_list e))") auto

declare deliver_contiguous.simps [simp del]

text \<open>Deliver while the head is below \<open>rx_reord\<close>.\<close>

function deliver_below :: "nr_pdcp_entity \<Rightarrow> u32 \<Rightarrow> nr_pdcp_entity \<times> nr_pdcp_sdu list" where
  "deliver_below e reord =
     (case rx_list e of
        [] \<Rightarrow> (e, [])
      | cur # rest \<Rightarrow>
          (if sdu_count cur < reord
           then let (e', ds) = deliver_below (deliver_head e cur rest) reord in (e', cur # ds)
           else (e, [])))"
  by pat_completeness auto
termination
  by (relation "measure (\<lambda>(e, reord). length (rx_list e))") auto

declare deliver_below.simps [simp del]

function deliver_all_sdus :: "nr_pdcp_entity \<Rightarrow> nr_pdcp_entity \<times> nr_pdcp_sdu list" where
  "deliver_all_sdus e =
     (case rx_list e of
        [] \<Rightarrow> (e, [])
      | cur # rest \<Rightarrow>
          let (e', ds) = deliver_all_sdus (deliver_head e cur rest) in (e', cur # ds))"
  by pat_completeness auto
termination
  by (relation "measure (\<lambda>e. length (rx_list e))") auto

declare deliver_all_sdus.simps [simp del]

subsection \<open>Receiving a PDU\<close>

text \<open>\<open>D/C\<close> bit and sequence number of a data PDU: the SN and the size of the header.\<close>

definition pdcp_rcvd_sn :: "nr_pdcp_entity \<Rightarrow> byte list \<Rightarrow> (int \<times> nat) c_result" where
  "pdcp_rcvd_sn e buffer =
     (if sn_size e = SHORT_SN_SIZE then
        c_bind (rd buffer 0) (\<lambda>b0.
        c_bind (rd buffer 1) (\<lambda>b1.
        Inr (push_bit 8 (uint b0 AND 0xf) OR uint b1, SHORT_PDCP_HEADER_SIZE)))
      else
        c_bind (rd buffer 0) (\<lambda>b0.
        c_bind (rd buffer 1) (\<lambda>b1.
        c_bind (rd buffer 2) (\<lambda>b2.
        Inr (push_bit 16 (uint b0 AND 0x3) OR push_bit 8 (uint b1) OR uint b2, LONG_PDCP_HEADER_SIZE)))))"

text \<open>The COUNT of a received SN, relative to \<open>rx_deliv\<close>.\<close>

definition pdcp_rcvd_count :: "nr_pdcp_entity \<Rightarrow> int \<Rightarrow> u32" where
  "pdcp_rcvd_count e rcvd_sn =
     (let rx_deliv_sn = uint (rx_deliv e AND word_of_int (sn_max e));
          rx_deliv_hfn = drop_bit (sn_size e) (rx_deliv e);
          rcvd_hfn = (if rcvd_sn < rx_deliv_sn - window_size e then rx_deliv_hfn + 1
                      else if rcvd_sn \<ge> rx_deliv_sn + window_size e then rx_deliv_hfn - 1
                      else rx_deliv_hfn)
      in push_bit (sn_size e) rcvd_hfn OR word_of_int rcvd_sn)"

definition rx_discard :: "nr_pdcp_entity \<Rightarrow> int \<Rightarrow> nr_pdcp_entity" where
  "rx_discard e n =
     e\<lparr>stats := (stats e)\<lparr>rxpdu_dd_pkts := rxpdu_dd_pkts (stats e) + 1,
                          rxpdu_dd_bytes := rxpdu_dd_bytes (stats e) + of_int n\<rparr>\<rparr>"

definition integrity_size :: "nr_pdcp_entity \<Rightarrow> nat" where
  "integrity_size e =
     (if has_integrity e \<or> entity_type e = NR_PDCP_SRB then PDCP_INTEGRITY_SIZE else 0)"

definition pdcp_msg_integrity ::
  "nr_pdcp_entity \<Rightarrow> u32 \<Rightarrow> byte list \<Rightarrow> nat \<Rightarrow> nr_pdcp_integrity_data" where
  "pdcp_msg_integrity e rcvd_count buffer header_size =
     (if has_integrity e \<or> entity_type e = NR_PDCP_SRB
      then \<lparr>mi_count = rcvd_count, mi_mac = take 4 (drop (length buffer - 4) buffer),
            mi_header_size = of_nat header_size,
            mi_header = take header_size buffer @ replicate (3 - header_size) 0\<rparr>
      else \<lparr>mi_count = 0, mi_mac = replicate 4 0, mi_header_size = 0, mi_header = replicate 3 0\<rparr>)"

text \<open>Store an SDU that was not seen before, and advance \<open>rx_next\<close>.\<close>

definition rx_store :: "nr_pdcp_entity \<Rightarrow> nr_pdcp_sdu \<Rightarrow> int \<Rightarrow> nr_pdcp_entity" where
  "rx_store e sdu n =
     (let rcvd_count = sdu_count sdu;
          e1 = e\<lparr>rx_list := nr_pdcp_sdu_list_add (rx_list e) sdu, rx_size := rx_size e + n\<rparr>
      in if rcvd_count \<ge> rx_next e1 then e1\<lparr>rx_next := rcvd_count + 1\<rparr> else e1)"

definition rx_deliver :: "nr_pdcp_entity \<Rightarrow> u32 \<Rightarrow> nr_pdcp_entity \<times> nr_pdcp_sdu list" where
  "rx_deliver e rcvd_count =
     (if rcvd_count = rx_deliv e
      then let (e', ds, count) = deliver_contiguous e (rx_deliv e) in (e'\<lparr>rx_deliv := count\<rparr>, ds)
      else (e, []))"

definition rx_timer :: "nr_pdcp_entity \<Rightarrow> nr_pdcp_entity" where
  "rx_timer e =
     (let e1 = (if t_reordering_start e \<noteq> 0 \<and> rx_deliv e \<ge> rx_reord e
                then e\<lparr>t_reordering_start := 0\<rparr> else e)
      in if t_reordering_start e1 = 0 \<and> rx_deliv e1 < rx_next e1
         then e1\<lparr>rx_reord := rx_next e1, t_reordering_start := t_current e1\<rparr>
         else e1)"

definition rx_dir :: "nr_pdcp_entity \<Rightarrow> int" where
  "rx_dir e = (if is_gnb e then 0 else 1)"

definition tx_dir :: "nr_pdcp_entity \<Rightarrow> int" where
  "tx_dir e = (if is_gnb e then 1 else 0)"

text \<open>Decipher the payload in place, from byte \<open>off\<close> on.\<close>

definition rx_decipher ::
  "crypto \<Rightarrow> nr_pdcp_entity \<Rightarrow> byte list \<Rightarrow> nat \<Rightarrow> u32 \<Rightarrow> byte list c_result" where
  "rx_decipher cr e buffer off rcvd_count =
     (if has_ciphering e
      then c_bind (call_cipher cr e (decipher e) (drop off buffer) (rb_id e) rcvd_count (rx_dir e))
             (\<lambda>p. Inr (take off buffer @ p))
      else Inr buffer)"

text \<open>Whether the MAC-I at the end of the deciphered PDU is the expected one.\<close>

definition rx_integrity_ok :: "crypto \<Rightarrow> nr_pdcp_entity \<Rightarrow> byte list \<Rightarrow> u32 \<Rightarrow> bool c_result" where
  "rx_integrity_ok cr e buffer rcvd_count =
     (if has_integrity e
      then let n = length buffer - integrity_size e in
           c_bind (call_integrity cr e (take n buffer) (rb_id e) rcvd_count (rx_dir e))
             (\<lambda>mac. Inr (mac = drop n buffer))
      else Inr True)"

text \<open>Take in an SDU that is new: store it, deliver what is now in sequence, manage t-Reordering.\<close>

definition rx_accept :: "nr_pdcp_entity \<Rightarrow> nr_pdcp_sdu \<Rightarrow> int \<Rightarrow> nr_pdcp_entity \<times> nr_pdcp_sdu list" where
  "rx_accept e sdu n =
     (let (e4, ds) = rx_deliver (rx_store e sdu n) (sdu_count sdu) in (rx_timer e4, ds))"

text \<open>A data PDU whose header has been read.\<close>

definition rx_data_pdu ::
  "crypto \<Rightarrow> nr_pdcp_entity \<Rightarrow> byte list \<Rightarrow> int \<Rightarrow> nat
     \<Rightarrow> (nr_pdcp_entity \<times> nr_pdcp_sdu list) c_result" where
  "rx_data_pdu cr e buffer rcvd_sn header_size =
     (let size = int (length buffer);
          sdap_header_size = (if has_sdap_rx e then 1 else 0)
      in if size < int (header_size + sdap_header_size + integrity_size e + 1)
      then Inr (rx_discard e size, [])
      else
        let rcvd_count = pdcp_rcvd_count e rcvd_sn;
            msg_integrity = pdcp_msg_integrity e rcvd_count buffer header_size
        in c_bind (rx_decipher cr e buffer (header_size + sdap_header_size) rcvd_count) (\<lambda>clear.
           c_bind (rx_integrity_ok cr e clear rcvd_count) (\<lambda>ok.
           if \<not> ok then Inr (rx_discard e size, [])
           else if rcvd_count < rx_deliv e \<or> nr_pdcp_sdu_in_list (rx_list e) rcvd_count
           then Inr (rx_discard e size, [])
           else Inr (rx_accept e
                  (nr_pdcp_new_sdu rcvd_count
                     (take (length clear - header_size - integrity_size e) (drop header_size clear))
                     msg_integrity)
                  (size - int header_size)))))"

definition nr_pdcp_entity_recv_pdu ::
  "crypto \<Rightarrow> nr_pdcp_entity \<Rightarrow> byte list \<Rightarrow> (nr_pdcp_entity \<times> nr_pdcp_sdu list) c_result" where
  "nr_pdcp_entity_recv_pdu cr e buffer0 =
     (let size = int (length buffer0) in
      if entity_suspended e then Inr (e, [])
      else if size < 1 then Inr (e, [])
      else
        let buffer = (if entity_type e \<noteq> NR_PDCP_SRB \<and> buffer0 ! 0 AND 0x80 = 0
                      then buffer0[0 := buffer0 ! 0 OR 128] else buffer0);
            e1 = e\<lparr>stats := (stats e)\<lparr>rxpdu_pkts := rxpdu_pkts (stats e) + 1,
                                        rxpdu_bytes := rxpdu_bytes (stats e) + of_int size\<rparr>\<rparr>
        in c_bind (pdcp_rcvd_sn e1 buffer) (\<lambda>(rcvd_sn, header_size).
           rx_data_pdu cr (e1\<lparr>stats := (stats e1)\<lparr>rxpdu_sn := of_int rcvd_sn\<rparr>\<rparr>)
             buffer rcvd_sn header_size))"

subsection \<open>Sending an SDU\<close>

definition nr_max_pdcp_pdu_size :: "int \<Rightarrow> int" where
  "nr_max_pdcp_pdu_size n = n + int LONG_PDCP_HEADER_SIZE + int PDCP_INTEGRITY_SIZE"

definition pdcp_tx_header :: "nr_pdcp_entity \<Rightarrow> int \<Rightarrow> byte list" where
  "pdcp_tx_header e sn =
     (let dc_bit = (if entity_type e = NR_PDCP_DRB_AM \<or> entity_type e = NR_PDCP_DRB_UM then 0x80 else 0)
      in if sn_size e = SHORT_SN_SIZE
         then [word_of_int (dc_bit OR (drop_bit 8 sn AND 0xf)), word_of_int (sn AND 0xff)]
         else [word_of_int (dc_bit OR (drop_bit 16 sn AND 0x3)), word_of_int (drop_bit 8 sn AND 0xff),
               word_of_int (sn AND 0xff)])"

definition tx_mac :: "crypto \<Rightarrow> nr_pdcp_entity \<Rightarrow> byte list \<Rightarrow> u32 \<Rightarrow> byte list c_result" where
  "tx_mac cr e msg count =
     (if has_integrity e then call_integrity cr e msg (rb_id e) count (tx_dir e)
      else if integrity_size e = PDCP_INTEGRITY_SIZE then Inr (replicate PDCP_INTEGRITY_SIZE 0)
      else Inr [])"

definition tx_cipher ::
  "crypto \<Rightarrow> nr_pdcp_entity \<Rightarrow> byte list \<Rightarrow> nat \<Rightarrow> u32 \<Rightarrow> byte list c_result" where
  "tx_cipher cr e buf off count =
     (if has_ciphering e
      then c_bind (c_check OutOfBounds (off \<le> length buf)) (\<lambda>_.
           c_bind (call_cipher cr e (cipher e) (drop off buf) (rb_id e) count (tx_dir e))
             (\<lambda>p. Inr (take off buf @ p)))
      else Inr buf)"

text \<open>
  The result is \<open>None\<close> where the code returns -1, else the bytes written to \<open>pdu_buffer\<close>; their
  number is the value the code returns. The argument \<open>sdu_id\<close> is not used by the code.
\<close>

definition nr_pdcp_entity_process_sdu ::
  "crypto \<Rightarrow> nr_pdcp_entity \<Rightarrow> byte list \<Rightarrow> int \<Rightarrow> int
     \<Rightarrow> (nr_pdcp_entity \<times> byte list option) c_result" where
  "nr_pdcp_entity_process_sdu cr e buffer sdu_id pdu_max_size =
     (let size = int (length buffer) in
      c_bind (c_check AssertFail (nr_max_pdcp_pdu_size size \<le> pdu_max_size)) (\<lambda>_.
      if entity_suspended e then Inr (e, None)
      else
        let e1 = e\<lparr>stats := (stats e)\<lparr>rxsdu_pkts := rxsdu_pkts (stats e) + 1,
                                       rxsdu_bytes := rxsdu_bytes (stats e) + of_int size\<rparr>\<rparr>;
            count = tx_next e1;
            sn = uint (tx_next e1 AND word_of_int (sn_max e1));
            sdap_header_size = (if has_sdap_tx e1 then 1 else 0);
            header = pdcp_tx_header e1 sn;
            header_size = length header
        in c_bind (tx_mac cr e1 (header @ buffer) count) (\<lambda>mac.
           c_bind (tx_cipher cr e1 (header @ buffer @ mac) (header_size + sdap_header_size) count) (\<lambda>pdu.
           let n = of_int (int header_size + size + int (integrity_size e1)) in
           Inr (e1\<lparr>tx_next := tx_next e1 + 1,
                   stats := (stats e1)\<lparr>txpdu_pkts := txpdu_pkts (stats e1) + 1,
                                       txpdu_bytes := txpdu_bytes (stats e1) + n,
                                       txpdu_sn := of_int sn\<rparr>\<rparr>, Some pdu)))))"

definition nr_pdcp_entity_check_integrity ::
  "crypto \<Rightarrow> nr_pdcp_entity \<Rightarrow> byte list \<Rightarrow> nr_pdcp_integrity_data \<Rightarrow> bool c_result" where
  "nr_pdcp_entity_check_integrity cr e buffer mi =
     (if \<not> has_integrity e then Inr False
      else c_bind (call_integrity cr e (take (unat (mi_header_size mi)) (mi_header mi) @ buffer)
                     (rb_id e) (mi_count mi) (rx_dir e))
             (\<lambda>mac. Inr (mac = mi_mac mi)))"

subsection \<open>Security configuration\<close>

definition free_ctx :: "cipher_fn option \<Rightarrow> sec_ctx option \<Rightarrow> sec_ctx option" where
  "free_ctx f ctx = (case f of Some Nea1 \<Rightarrow> None | _ \<Rightarrow> ctx)"

definition free_int_ctx :: "integrity_fn option \<Rightarrow> sec_ctx option \<Rightarrow> sec_ctx option" where
  "free_int_ctx f ctx = (case f of Some _ \<Rightarrow> None | None \<Rightarrow> ctx)"

definition store_algos ::
  "nr_pdcp_entity_security_keys_and_algos \<Rightarrow> nr_pdcp_entity_security_keys_and_algos
     \<Rightarrow> nr_pdcp_entity_security_keys_and_algos" where
  "store_algos p s =
     (let s1 = (if integrity_algorithm p \<noteq> -1
                then s\<lparr>integrity_algorithm := integrity_algorithm p, integrity_key := integrity_key p\<rparr>
                else s)
      in if ciphering_algorithm p \<noteq> -1
         then s1\<lparr>ciphering_algorithm := ciphering_algorithm p, ciphering_key := ciphering_key p\<rparr>
         else s1)"

definition set_integrity_algo :: "int \<Rightarrow> nr_pdcp_entity \<Rightarrow> nr_pdcp_entity c_result" where
  "set_integrity_algo alg e =
     (if alg = -1 then Inr e
      else let freed = e\<lparr>integrity_context := free_int_ctx (free_integrity e) (integrity_context e)\<rparr>;
               ctx = Some (CtxCopy (integrity_key (security_keys_and_algos e)))
      in if alg = 0 then Inr (freed\<lparr>has_integrity := False, free_integrity := None\<rparr>)
      else if alg = 2 then Inr (freed\<lparr>has_integrity := True, integrity_context := ctx,
                                       integrity := Some Nia2, free_integrity := Some Nia2\<rparr>)
      else if alg = 1 then Inr (freed\<lparr>has_integrity := True, integrity_context := ctx,
                                       integrity := Some Nia1, free_integrity := Some Nia1\<rparr>)
      else Inl ProcessExit)"

definition set_ciphering_algo :: "int \<Rightarrow> nr_pdcp_entity \<Rightarrow> nr_pdcp_entity c_result" where
  "set_ciphering_algo alg e =
     (if alg = -1 then Inr e
      else let freed = e\<lparr>security_context := free_ctx (free_security e) (security_context e)\<rparr>
      in if alg = 0 then Inr (freed\<lparr>has_ciphering := False, free_security := None\<rparr>)
      else if alg = 2 then Inr (freed\<lparr>has_ciphering := True, security_context := Some CtxKeyPtr,
                                       cipher := Some Nea2, decipher := Some Nea2,
                                       free_security := Some Nea2\<rparr>)
      else if alg = 1 then Inr (freed\<lparr>has_ciphering := True,
                                       security_context :=
                                         Some (CtxCopy (ciphering_key (security_keys_and_algos e))),
                                       cipher := Some Nea1, decipher := Some Nea1,
                                       free_security := Some Nea1\<rparr>)
      else Inl ProcessExit)"

definition nr_pdcp_entity_set_security ::
  "nr_pdcp_entity \<Rightarrow> nr_pdcp_entity_security_keys_and_algos \<Rightarrow> nr_pdcp_entity c_result" where
  "nr_pdcp_entity_set_security e p =
     c_bind (set_integrity_algo (integrity_algorithm p)
               (e\<lparr>security_keys_and_algos := store_algos p (security_keys_and_algos e)\<rparr>))
       (set_ciphering_algo (ciphering_algorithm p))"

subsection \<open>Time, suspension, re-establishment, release\<close>

definition check_t_reordering :: "nr_pdcp_entity \<Rightarrow> nr_pdcp_entity \<times> nr_pdcp_sdu list" where
  "check_t_reordering e =
     (if t_reordering e = -1 then (e, [])
      else if t_reordering_start e = 0
              \<or> t_current e \<le> t_reordering_start e + of_int (t_reordering e) then (e, [])
      else
        let e1 = e\<lparr>t_reordering_start := 0\<rparr>;
            (e2, ds1) = deliver_below e1 (rx_reord e1);
            (e3, ds2, count) = deliver_contiguous e2 (rx_reord e2);
            e4 = e3\<lparr>rx_deliv := count\<rparr>;
            e5 = (if rx_deliv e4 < rx_next e4
                  then e4\<lparr>rx_reord := rx_next e4, t_reordering_start := t_current e4\<rparr> else e4)
        in (e5, ds1 @ ds2))"

definition nr_pdcp_entity_set_time :: "nr_pdcp_entity \<Rightarrow> u64 \<Rightarrow> nr_pdcp_entity \<times> nr_pdcp_sdu list" where
  "nr_pdcp_entity_set_time e now = check_t_reordering (e\<lparr>t_current := now\<rparr>)"

definition nr_pdcp_entity_suspend :: "nr_pdcp_entity \<Rightarrow> nr_pdcp_entity \<times> nr_pdcp_sdu list" where
  "nr_pdcp_entity_suspend e =
     (let e1 = e\<lparr>tx_next := 0\<rparr>;
          (e2, ds) = (if t_reordering_start e1 \<noteq> 0
                      then deliver_all_sdus (e1\<lparr>t_reordering_start := 0\<rparr>) else (e1, []))
      in (e2\<lparr>rx_next := 0, rx_deliv := 0, entity_suspended := True\<rparr>, ds))"

fun free_list_stats :: "nr_pdcp_sdu list \<Rightarrow> nr_pdcp_statistics \<Rightarrow> nr_pdcp_statistics" where
  "free_list_stats [] st = st"
| "free_list_stats (cur # l) st =
     free_list_stats l (st\<lparr>rxpdu_dd_pkts := rxpdu_dd_pkts st + 1,
                           rxpdu_dd_bytes := rxpdu_dd_bytes st + of_int (sdu_size cur)\<rparr>)"

definition free_rx_list :: "nr_pdcp_entity \<Rightarrow> nr_pdcp_entity" where
  "free_rx_list e = e\<lparr>stats := free_list_stats (rx_list e) (stats e), rx_list := [], rx_size := 0\<rparr>"

definition nr_pdcp_entity_reestablish_drb_am ::
  "nr_pdcp_entity \<Rightarrow> nr_pdcp_entity_security_keys_and_algos
     \<Rightarrow> (nr_pdcp_entity \<times> nr_pdcp_sdu list) c_result" where
  "nr_pdcp_entity_reestablish_drb_am e p =
     c_bind (nr_pdcp_entity_set_security e p) (\<lambda>e1. Inr (e1\<lparr>entity_suspended := False\<rparr>, []))"

definition nr_pdcp_entity_reestablish_drb_um ::
  "nr_pdcp_entity \<Rightarrow> nr_pdcp_entity_security_keys_and_algos
     \<Rightarrow> (nr_pdcp_entity \<times> nr_pdcp_sdu list) c_result" where
  "nr_pdcp_entity_reestablish_drb_um e p =
     (let e1 = e\<lparr>tx_next := 0\<rparr>;
          (e2, ds) = (if t_reordering_start e1 \<noteq> 0 then deliver_all_sdus e1 else (e1, []));
          e3 = e2\<lparr>t_reordering_start := 0, rx_next := 0, rx_deliv := 0\<rparr>
      in c_bind (nr_pdcp_entity_set_security e3 p) (\<lambda>e4. Inr (e4\<lparr>entity_suspended := False\<rparr>, ds)))"

definition nr_pdcp_entity_reestablish_srb ::
  "nr_pdcp_entity \<Rightarrow> nr_pdcp_entity_security_keys_and_algos
     \<Rightarrow> (nr_pdcp_entity \<times> nr_pdcp_sdu list) c_result" where
  "nr_pdcp_entity_reestablish_srb e p =
     (let e1 = free_rx_list (e\<lparr>tx_next := 0\<rparr>);
          e2 = e1\<lparr>t_reordering_start := 0, rx_next := 0, rx_deliv := 0\<rparr>
      in c_bind (nr_pdcp_entity_set_security e2 p) (\<lambda>e3. Inr (e3\<lparr>entity_suspended := False\<rparr>, [])))"

text \<open>The function pointer \<open>reestablish_entity\<close>, set from the type of the entity.\<close>

definition reestablish_entity ::
  "nr_pdcp_entity \<Rightarrow> nr_pdcp_entity_security_keys_and_algos
     \<Rightarrow> (nr_pdcp_entity \<times> nr_pdcp_sdu list) c_result" where
  "reestablish_entity e =
     (case entity_type e of
        NR_PDCP_DRB_AM \<Rightarrow> nr_pdcp_entity_reestablish_drb_am e
      | NR_PDCP_DRB_UM \<Rightarrow> nr_pdcp_entity_reestablish_drb_um e
      | NR_PDCP_SRB \<Rightarrow> nr_pdcp_entity_reestablish_srb e)"

definition nr_pdcp_entity_release :: "nr_pdcp_entity \<Rightarrow> nr_pdcp_entity \<times> nr_pdcp_sdu list" where
  "nr_pdcp_entity_release e = deliver_all_sdus e"

text \<open>The entity as it is when \<^verbatim>\<open>nr_pdcp_entity_delete\<close> hands it to \<^verbatim>\<open>free\<close>.\<close>

definition nr_pdcp_entity_delete :: "nr_pdcp_entity \<Rightarrow> nr_pdcp_entity" where
  "nr_pdcp_entity_delete e =
     (let e1 = free_rx_list e
      in e1\<lparr>security_context := free_ctx (free_security e1) (security_context e1),
            integrity_context := free_int_ctx (free_integrity e1) (integrity_context e1)\<rparr>)"

subsection \<open>COUNT and statistics accessors\<close>

definition nr_pdcp_entity_get_stats :: "nr_pdcp_entity \<Rightarrow> nr_pdcp_statistics" where
  "nr_pdcp_entity_get_stats e = stats e"

definition count_of_word :: "nr_pdcp_entity \<Rightarrow> u32 \<Rightarrow> nr_pdcp_count" where
  "count_of_word e w = \<lparr>pc_sn = w AND word_of_int (sn_max e), pc_hfn = drop_bit (sn_size e) w\<rparr>"

definition nr_pdcp_entity_get_count_dl :: "nr_pdcp_entity \<Rightarrow> nr_pdcp_count" where
  "nr_pdcp_entity_get_count_dl e = count_of_word e (rx_deliv e)"

definition nr_pdcp_entity_get_count_ul :: "nr_pdcp_entity \<Rightarrow> nr_pdcp_count" where
  "nr_pdcp_entity_get_count_ul e = count_of_word e (tx_next e)"

definition word_of_count :: "nat \<Rightarrow> nr_pdcp_count \<Rightarrow> u32" where
  "word_of_count n c = push_bit n (pc_hfn c) OR (pc_sn c AND (push_bit n 1 - 1))"

definition nr_pdcp_entity_set_count_dl :: "nr_pdcp_entity \<Rightarrow> nr_pdcp_count \<Rightarrow> nat \<Rightarrow> nr_pdcp_entity" where
  "nr_pdcp_entity_set_count_dl e c n = e\<lparr>rx_next := word_of_count n c + 1, rx_deliv := word_of_count n c\<rparr>"

definition nr_pdcp_entity_set_count_ul :: "nr_pdcp_entity \<Rightarrow> nr_pdcp_count \<Rightarrow> nat \<Rightarrow> nr_pdcp_entity" where
  "nr_pdcp_entity_set_count_ul e c n = e\<lparr>tx_next := word_of_count n c\<rparr>"

subsection \<open>Construction\<close>

definition zero_stats :: nr_pdcp_statistics where
  "zero_stats =
     \<lparr>txpdu_pkts = 0, txpdu_bytes = 0, txpdu_sn = 0, rxpdu_pkts = 0, rxpdu_bytes = 0, rxpdu_sn = 0,
      rxpdu_oo_pkts = 0, rxpdu_oo_bytes = 0, rxpdu_dd_pkts = 0, rxpdu_dd_bytes = 0, rxpdu_ro_count = 0,
      txsdu_pkts = 0, txsdu_bytes = 0, rxsdu_pkts = 0, rxsdu_bytes = 0, st_mode = 0\<rparr>"

definition new_nr_pdcp_entity ::
  "nr_pdcp_entity_type \<Rightarrow> bool \<Rightarrow> int \<Rightarrow> int \<Rightarrow> bool \<Rightarrow> bool \<Rightarrow> nat \<Rightarrow> int \<Rightarrow> int
     \<Rightarrow> nr_pdcp_entity_security_keys_and_algos \<Rightarrow> nr_pdcp_entity c_result" where
  "new_nr_pdcp_entity type gnb rb pdusession sdap_rx sdap_tx sn_bits t_reord discard params =
     nr_pdcp_entity_set_security
       \<lparr>entity_type = type, rb_id = rb, pdusession_id = pdusession,
        has_sdap_rx = sdap_rx, has_sdap_tx = sdap_tx, sn_size = sn_bits,
        t_reordering = t_reord, discard_timer = discard,
        sn_max = push_bit sn_bits 1 - 1, window_size = push_bit (sn_bits - 1) 1,
        tx_next = 0, rx_next = 0, rx_deliv = 0, rx_reord = 0, t_current = 0, t_reordering_start = 0,
        has_ciphering = False, has_integrity = False,
        security_keys_and_algos =
          \<lparr>integrity_algorithm = 0, ciphering_algorithm = 0,
           integrity_key = replicate 16 0, ciphering_key = replicate 16 0\<rparr>,
        security_context = None, cipher = None, decipher = None, free_security = None,
        integrity_context = None, integrity = None, free_integrity = None,
        is_gnb = gnb, rx_list = [], rx_size = 0, rx_maxsize = 0, stats = zero_stats,
        entity_suspended = False\<rparr>
       params"

end
