(* ===== verification/Pdcp_Count.thy ===== *)
theory Pdcp_Count
  imports Pdcp_Entity
begin

text \<open>
  Headers and COUNT values of PDCP data PDUs: what the receiver reads from a header is what the
  sender wrote, and the COUNT it infers from the sequence number is the COUNT of the sender
  whenever that COUNT lies in the window around \<open>rx_deliv\<close>.
\<close>

lemma int_masks: "(0x3 :: int) = mask 2" "(0xf :: int) = mask 4" "(0xff :: int) = mask 8"
  by (simp_all add: mask_eq_exp_minus_1)

lemma short_header_bits:
  assumes "0 \<le> sn" and "sn < 4096" and "dc = push_bit 7 (of_bool d)"
  shows "push_bit 8 (uint (word_of_int (dc OR (drop_bit 8 sn AND 0xf)) :: byte) AND 0xf)
         OR uint (word_of_int (sn AND 0xff) :: byte) = (sn :: int)"
proof -
  have sn: "take_bit 12 sn = sn" using assms by (simp add: take_bit_int_eq_self)
  have "push_bit 8 (uint (word_of_int (dc OR (drop_bit 8 sn AND 0xf)) :: byte) AND 0xf)
         OR uint (word_of_int (sn AND 0xff) :: byte) = take_bit 12 sn"
    unfolding int_masks assms(3)
    by (rule bit_eqI) (auto simp: bit_simps uint_word_of_int_eq)
  with sn show ?thesis by simp
qed

lemma long_header_bits:
  assumes "0 \<le> sn" and "sn < 262144" and "dc = push_bit 7 (of_bool d)"
  shows "push_bit 16 (uint (word_of_int (dc OR (drop_bit 16 sn AND 0x3)) :: byte) AND 0x3)
         OR push_bit 8 (uint (word_of_int (drop_bit 8 sn AND 0xff) :: byte))
         OR uint (word_of_int (sn AND 0xff) :: byte) = (sn :: int)"
proof -
  have sn: "take_bit 18 sn = sn" using assms by (simp add: take_bit_int_eq_self)
  have "push_bit 16 (uint (word_of_int (dc OR (drop_bit 16 sn AND 0x3)) :: byte) AND 0x3)
         OR push_bit 8 (uint (word_of_int (drop_bit 8 sn AND 0xff) :: byte))
         OR uint (word_of_int (sn AND 0xff) :: byte) = take_bit 18 sn"
    unfolding int_masks assms(3)
    by (rule bit_eqI, case_tac "n < 16") (auto simp: bit_simps uint_word_of_int_eq)
  with sn show ?thesis by simp
qed

text \<open>A configuration as \<^verbatim>\<open>new_nr_pdcp_entity\<close> makes it for one of the two SN sizes.\<close>

definition pdcp_config :: "nr_pdcp_entity \<Rightarrow> bool" where
  "pdcp_config e \<longleftrightarrow>
     (sn_size e = SHORT_SN_SIZE \<or> sn_size e = LONG_SN_SIZE) \<and>
     sn_max e = 2 ^ sn_size e - 1 \<and> window_size e = 2 ^ (sn_size e - 1)"

definition sn_of :: "nr_pdcp_entity \<Rightarrow> u32 \<Rightarrow> int" where
  "sn_of e c = uint (c AND word_of_int (sn_max e))"

lemma pdcp_config_cases:
  assumes "pdcp_config e"
  obtains "sn_size e = 12" "sn_max e = 4095" "window_size e = 2048"
  | "sn_size e = 18" "sn_max e = 262143" "window_size e = 131072"
  using assms by (auto simp: pdcp_config_def)

lemma sn_mask:
  assumes "pdcp_config e"
  shows "word_of_int (sn_max e) = (mask (sn_size e) :: u32)"
  using assms by (cases rule: pdcp_config_cases) (simp_all add: mask_eq_exp_minus_1)

lemma sn_of_eq:
  assumes "pdcp_config e"
  shows "sn_of e c = int (unat c mod 2 ^ sn_size e)"
proof -
  have "uint (c AND mask (sn_size e)) = take_bit (sn_size e) (uint c)"
    by (simp only: take_bit_eq_mask [symmetric] unsigned_take_bit_eq)
  then have "uint (c AND mask (sn_size e)) = uint c mod 2 ^ sn_size e"
    by (simp add: take_bit_eq_mod)
  then show ?thesis by (simp add: sn_of_def sn_mask [OF assms] zmod_int)
qed

lemma sn_of_bounds:
  assumes "pdcp_config e"
  shows "0 \<le> sn_of e c" and "sn_of e c < 2 ^ sn_size e"
  by (simp_all add: sn_of_eq [OF assms])

lemma count_recompose:
  assumes "pdcp_config e"
  shows "push_bit (sn_size e) (drop_bit (sn_size e) c) OR word_of_int (sn_of e c) = c"
proof -
  have "push_bit n (drop_bit n c) OR (c AND mask n) = c" for n
    by (rule bit_word_eqI) (auto simp: bit_simps)
  then show ?thesis by (simp add: sn_of_def sn_mask [OF assms])
qed

lemma hfn_inc: "b + 1 = a" if "unat a = unat b + 1" for a b :: u32
  using that unsigned_less [of a, where 'a = nat] by (simp add: word_unat_eq_iff unat_word_ariths)

lemma hfn_dec: "b - 1 = a" if "unat b = unat a + 1" for a b :: u32
  using hfn_inc [OF that] by auto

lemma hfn_infer:
  assumes "pdcp_config e"
    and "unat (rx_deliv e) \<le> unat c + nat (window_size e)"
    and "unat c < unat (rx_deliv e) + nat (window_size e)"
  shows "(if sn_of e c < sn_of e (rx_deliv e) - window_size e
          then drop_bit (sn_size e) (rx_deliv e) + 1
          else if sn_of e c \<ge> sn_of e (rx_deliv e) + window_size e
          then drop_bit (sn_size e) (rx_deliv e) - 1
          else drop_bit (sn_size e) (rx_deliv e)) = drop_bit (sn_size e) c"
proof -
  let ?N = "2 ^ sn_size e :: nat"
  let ?d = "unat (rx_deliv e)"
  have hfn: "unat (drop_bit (sn_size e) w) = unat w div ?N" for w :: u32
    by (subst unat_drop_bit_eq) (simp add: drop_bit_eq_div)
  obtain ch cs where c: "unat c = ch * ?N + cs" "cs < ?N"
      and c': "sn_of e c = int cs" "unat (drop_bit (sn_size e) c) = ch"
    by (metis div_mult_mod_eq hfn mod_less_divisor sn_of_eq [OF assms(1)] zero_less_numeral zero_less_power)
  obtain dh ds where d: "?d = dh * ?N + ds" "ds < ?N"
      and d': "sn_of e (rx_deliv e) = int ds" "unat (drop_bit (sn_size e) (rx_deliv e)) = dh"
    by (metis div_mult_mod_eq hfn mod_less_divisor sn_of_eq [OF assms(1)] zero_less_numeral zero_less_power)
  have "(if int cs < int ds - window_size e then ch = dh + 1
         else if int cs \<ge> int ds + window_size e then dh = ch + 1 else ch = dh)"
    using assms(1)
    by (cases rule: pdcp_config_cases) (use assms(2,3) c d in auto)
  moreover have "ch = dh + 1 \<Longrightarrow> drop_bit (sn_size e) (rx_deliv e) + 1 = drop_bit (sn_size e) c"
    by (rule hfn_inc) (simp add: c' d')
  moreover have "dh = ch + 1 \<Longrightarrow> drop_bit (sn_size e) (rx_deliv e) - 1 = drop_bit (sn_size e) c"
    by (rule hfn_dec) (simp add: c' d')
  moreover have "ch = dh \<Longrightarrow> drop_bit (sn_size e) (rx_deliv e) = drop_bit (sn_size e) c"
    using c'(2) d'(2) word_unat_eq_iff by blast
  ultimately show ?thesis
    unfolding c'(1) d'(1) by presburger
qed

lemma pdcp_rcvd_count_alt:
  "pdcp_rcvd_count e sn =
     push_bit (sn_size e)
       (if sn < sn_of e (rx_deliv e) - window_size e then drop_bit (sn_size e) (rx_deliv e) + 1
        else if sn \<ge> sn_of e (rx_deliv e) + window_size e then drop_bit (sn_size e) (rx_deliv e) - 1
        else drop_bit (sn_size e) (rx_deliv e)) OR word_of_int sn"
  by (simp only: pdcp_rcvd_count_def Let_def sn_of_def)

lemma rcvd_count_correct:
  assumes "pdcp_config e"
    and "unat (rx_deliv e) \<le> unat c + nat (window_size e)"
    and "unat c < unat (rx_deliv e) + nat (window_size e)"
  shows "pdcp_rcvd_count e (sn_of e c) = c"
  by (simp only: pdcp_rcvd_count_alt hfn_infer [OF assms] count_recompose [OF assms(1)])

end
