(* ===== verification/Pdcp_Rx.thy ===== *)
theory Pdcp_Rx
  imports Pdcp_Count
begin

text \<open>
  The receiving side of a PDCP entity: closed forms of the delivery loops, the invariant of the
  reordering buffer, and that every operation keeps it and delivers in the order of COUNT.
\<close>

subsection \<open>The delivery loops as list functions\<close>

fun run :: "u32 \<Rightarrow> nr_pdcp_sdu list \<Rightarrow> nr_pdcp_sdu list" where
  "run c [] = []"
| "run c (x # xs) = (if c = sdu_count x then x # run (c + 1) xs else [])"

definition sizes :: "nr_pdcp_sdu list \<Rightarrow> int" where
  "sizes ds = (\<Sum>s \<leftarrow> ds. sdu_size s)"

lemma sizes_simps [simp]: "sizes [] = 0" "sizes (x # xs) = sdu_size x + sizes xs"
  by (simp_all add: sizes_def)

definition delivered_state :: "nr_pdcp_entity \<Rightarrow> nr_pdcp_sdu list \<Rightarrow> nr_pdcp_entity" where
  "delivered_state e ds =
     e\<lparr>rx_list := drop (length ds) (rx_list e), rx_size := rx_size e - sizes ds,
       stats := (stats e)\<lparr>txsdu_pkts := txsdu_pkts (stats e) + of_nat (length ds),
                          txsdu_bytes := txsdu_bytes (stats e) + of_int (sizes ds)\<rparr>\<rparr>"

lemma delivered_state_Nil [simp]: "delivered_state e [] = e"
  by (simp add: delivered_state_def)

lemma delivered_state_head:
  "rx_list e = cur # rest \<Longrightarrow> delivered_state (deliver_head e cur rest) ds = delivered_state e (cur # ds)"
  by (simp add: delivered_state_def deliver_head_def algebra_simps)

lemma deliver_contiguous_eq:
  "deliver_contiguous e c =
     (let ds = run c (rx_list e) in (delivered_state e ds, ds, c + of_nat (length ds)))"
proof (induction "rx_list e" arbitrary: e c)
  case Nil
  then show ?case by (simp add: deliver_contiguous.simps [of e] split: list.splits)
next
  case (Cons x xs)
  then have "rx_list (deliver_head e x xs) = xs" by simp
  from Cons.hyps(1) [OF this [symmetric], of "c + 1"] Cons.hyps(2) [symmetric] show ?case
    by (auto simp: deliver_contiguous.simps [of e] delivered_state_head Let_def algebra_simps)
qed

lemma deliver_below_eq:
  "deliver_below e r =
     (let ds = takeWhile (\<lambda>s. sdu_count s < r) (rx_list e) in (delivered_state e ds, ds))"
proof (induction "rx_list e" arbitrary: e)
  case Nil
  then show ?case by (simp add: deliver_below.simps [of e] split: list.splits)
next
  case (Cons x xs)
  then have "rx_list (deliver_head e x xs) = xs" by simp
  from Cons.hyps(1) [OF this [symmetric]] Cons.hyps(2) [symmetric] show ?case
    by (simp add: deliver_below.simps [of e] delivered_state_head Let_def)
qed

lemma deliver_all_sdus_eq: "deliver_all_sdus e = (delivered_state e (rx_list e), rx_list e)"
proof (induction "rx_list e" arbitrary: e)
  case Nil
  then show ?case by (simp add: deliver_all_sdus.simps [of e] split: list.splits)
next
  case (Cons x xs)
  then have "rx_list (deliver_head e x xs) = xs" by simp
  from Cons.hyps(1) [OF this [symmetric]] Cons.hyps(2) [symmetric] show ?case
    by (simp add: deliver_all_sdus.simps [of e] delivered_state_head Let_def)
qed

lemma delivered_state_frame [simp]:
  "rx_next (delivered_state e ds) = rx_next e" "rx_deliv (delivered_state e ds) = rx_deliv e"
  "rx_reord (delivered_state e ds) = rx_reord e" "tx_next (delivered_state e ds) = tx_next e"
  "t_current (delivered_state e ds) = t_current e"
  "t_reordering_start (delivered_state e ds) = t_reordering_start e"
  "rx_list (delivered_state e ds) = drop (length ds) (rx_list e)"
  "rx_size (delivered_state e ds) = rx_size e - sizes ds"
  "entity_suspended (delivered_state e ds) = entity_suspended e"
  by (simp_all add: delivered_state_def)

subsection \<open>A maximal run of consecutive COUNT values\<close>

abbreviation strict :: "nr_pdcp_sdu list \<Rightarrow> bool" where
  "strict l \<equiv> sorted_wrt (<) (counts_of l)"

lemma unat_inc: "c < N \<Longrightarrow> unat (c + 1) = unat c + 1" for c N :: u32
  using unsigned_less [of N, where 'a = nat]
  by (simp add: word_less_nat_alt unat_word_ariths)

lemma inc_le: "c < N \<Longrightarrow> c + 1 \<le> N" for c N :: u32
  using unat_inc [of c N] by (simp add: word_le_nat_alt word_less_nat_alt)

lemma inc_le_iff: "c < N \<Longrightarrow> c + 1 \<le> d \<longleftrightarrow> c < d" for c N d :: u32
  using unat_inc [of c N] by (simp add: word_le_nat_alt word_less_nat_alt) linarith

lemma run_prefix: "run c l @ drop (length (run c l)) l = l"
  by (induction l arbitrary: c) auto

lemma run_spec:
  assumes "strict l" and "\<forall>s \<in> set l. c \<le> sdu_count s \<and> sdu_count s < N" and "c \<le> N"
  shows "unat (c + of_nat (length (run c l))) = unat c + length (run c l) \<and>
         c + of_nat (length (run c l)) \<le> N \<and>
         (\<forall>s \<in> set (drop (length (run c l)) l). c + of_nat (length (run c l)) < sdu_count s)"
  using assms
proof (induction l arbitrary: c)
  case Nil
  then show ?case by simp
next
  case (Cons x xs)
  show ?case
  proof (cases "c = sdu_count x")
    case True
    with Cons.prems have "c < N" and "strict xs"
      and "\<forall>s \<in> set xs. c < sdu_count s \<and> sdu_count s < N" by auto
    then have ge: "\<forall>s \<in> set xs. c + 1 \<le> sdu_count s \<and> sdu_count s < N" and le: "c + 1 \<le> N"
      by (auto simp: inc_le_iff [of c N] inc_le)
    from Cons.IH [OF \<open>strict xs\<close> ge le] unat_inc [OF \<open>c < N\<close>] True show ?thesis
      by (simp add: add.assoc)
  next
    case False
    with Cons.prems have "\<forall>s \<in> set (x # xs). c < sdu_count s" by fastforce
    with False Cons.prems show ?thesis by simp
  qed
qed

lemma run_counts: "counts_of (run c l) = map (\<lambda>i. c + of_nat i) [0..<length (run c l)]"
proof (induction l arbitrary: c)
  case (Cons x xs)
  then show ?case
    by (auto simp: upt_conv_Cons map_Suc_upt [symmetric] simp del: upt_Suc)
qed simp

subsection \<open>The invariant\<close>

definition rx_inv :: "nr_pdcp_entity \<Rightarrow> bool" where
  "rx_inv e \<longleftrightarrow>
     strict (rx_list e) \<and>
     (\<forall>s \<in> set (rx_list e). rx_deliv e < sdu_count s \<and> sdu_count s < rx_next e) \<and>
     rx_deliv e \<le> rx_next e \<and>
     (t_reordering_start e \<noteq> 0 \<longrightarrow> rx_deliv e < rx_reord e \<and> rx_reord e \<le> rx_next e)"

text \<open>
  What a step from \<open>e\<close> to \<open>e'\<close> that delivers \<open>ds\<close> does to the order: the COUNTs of \<open>ds\<close> increase
  strictly, and lie between the old and the new \<open>rx_deliv\<close>.
\<close>

definition in_order :: "nr_pdcp_entity \<Rightarrow> nr_pdcp_entity \<Rightarrow> nr_pdcp_sdu list \<Rightarrow> bool" where
  "in_order e e' ds \<longleftrightarrow>
     strict ds \<and> (\<forall>s \<in> set ds. rx_deliv e \<le> sdu_count s \<and> sdu_count s < rx_deliv e') \<and>
     rx_deliv e \<le> rx_deliv e'"

lemma strict_append:
  "strict (a @ b) \<longleftrightarrow> strict a \<and> strict b \<and> (\<forall>x \<in> set a. \<forall>y \<in> set b. sdu_count x < sdu_count y)"
  by (simp add: sorted_wrt_append)

lemma strict_run: "strict l \<Longrightarrow> strict (run c l)" "strict l \<Longrightarrow> strict (drop n l)"
  by (metis run_prefix strict_append, simp add: drop_map [symmetric])

lemma run_below:
  assumes "strict l" and "\<forall>s \<in> set l. c \<le> sdu_count s \<and> sdu_count s < N" and "c \<le> N"
    and "s \<in> set (run c l)"
  shows "c \<le> sdu_count s" and "sdu_count s < c + of_nat (length (run c l))"
proof -
  from assms(4) have "sdu_count s \<in> set (counts_of (run c l))" by simp
  then obtain i where i: "i < length (run c l)" "sdu_count s = c + of_nat i"
    unfolding run_counts by auto
  have u: "unat (c + of_nat (length (run c l))) = unat c + length (run c l)"
    using run_spec [OF assms(1-3)] by blast
  then have "unat c + length (run c l) < 2 ^ 32"
    using unsigned_less [of "c + of_nat (length (run c l)) :: u32", where 'a = nat] by simp
  with i have "unat (sdu_count s) = unat c + i"
    by (simp add: unat_word_ariths unat_of_nat)
  with u i show "c \<le> sdu_count s" and "sdu_count s < c + of_nat (length (run c l))"
    by (simp_all add: word_le_nat_alt word_less_nat_alt)
qed

subsection \<open>Storing, delivering and the timer\<close>

lemma rx_store_facts:
  "rx_list (rx_store e sdu n) = nr_pdcp_sdu_list_add (rx_list e) sdu"
  "rx_next (rx_store e sdu n) = (if rx_next e \<le> sdu_count sdu then sdu_count sdu + 1 else rx_next e)"
  "rx_deliv (rx_store e sdu n) = rx_deliv e" "rx_reord (rx_store e sdu n) = rx_reord e"
  "t_reordering_start (rx_store e sdu n) = t_reordering_start e"
  "t_current (rx_store e sdu n) = t_current e"
  by (simp_all add: rx_store_def Let_def)

lemma less_inc: "c \<noteq> -1 \<Longrightarrow> c < c + 1" for c :: u32
proof -
  assume "c \<noteq> -1"
  then have "c < -1" by (simp add: order.not_eq_order_implies_strict)
  from unat_inc [OF this] show "c < c + 1" by (simp add: word_less_nat_alt)
qed

text \<open>The state between storing and delivering: the head may be \<open>rx_deliv\<close> itself.\<close>

definition rx_weak :: "nr_pdcp_entity \<Rightarrow> bool" where
  "rx_weak e \<longleftrightarrow>
     strict (rx_list e) \<and>
     (\<forall>s \<in> set (rx_list e). rx_deliv e \<le> sdu_count s \<and> sdu_count s < rx_next e) \<and>
     rx_deliv e \<le> rx_next e"

lemma rx_inv_weak: "rx_inv e \<Longrightarrow> rx_weak e"
  by (auto simp: rx_inv_def rx_weak_def)

lemma rx_store_weak:
  assumes "rx_inv e" and "rx_deliv e \<le> sdu_count sdu" and "\<not> nr_pdcp_sdu_in_list (rx_list e) (sdu_count sdu)"
    and "sdu_count sdu \<noteq> -1"
  shows "rx_weak (rx_store e sdu n)"
proof -
  from assms(1) have e: "strict (rx_list e)"
    "\<forall>s \<in> set (rx_list e). rx_deliv e < sdu_count s \<and> sdu_count s < rx_next e" "rx_deliv e \<le> rx_next e"
    by (simp_all add: rx_inv_def)
  have nx: "sdu_count sdu < sdu_count sdu + 1" using assms(4) by (rule less_inc)
  then show ?thesis
    using e assms(2,3) strict_list_add [OF e(1), of sdu]
    by (force simp: rx_weak_def rx_store_facts)
qed

text \<open>Delivering the maximal run from \<open>c\<close>, where nothing in the list is below \<open>c\<close>.\<close>

lemma deliver_run:
  assumes "strict (rx_list e)" and "\<forall>s \<in> set (rx_list e). c \<le> sdu_count s \<and> sdu_count s < rx_next e"
    and "c \<le> rx_next e" and "deliver_contiguous e c = (e', ds, c')"
  shows "strict (rx_list e')" and "\<forall>s \<in> set (rx_list e'). c' < sdu_count s \<and> sdu_count s < rx_next e"
    and "c' \<le> rx_next e" and "c \<le> c'" and "strict ds"
    and "\<forall>s \<in> set ds. c \<le> sdu_count s \<and> sdu_count s < c'"
    and "rx_list e = ds @ rx_list e'"
    and "e' = delivered_state e ds"
proof -
  let ?ds = "run c (rx_list e)"
  have eq: "ds = ?ds" "e' = delivered_state e ds" "c' = c + of_nat (length ds)"
    using assms(4) by (auto simp: deliver_contiguous_eq Let_def)
  show "e' = delivered_state e ds" by (fact eq)
  show app: "rx_list e = ds @ rx_list e'"
    using run_prefix [of c "rx_list e"] by (simp add: eq)
  note spec = run_spec [OF assms(1-3)]
  from app have sub: "set (rx_list e') \<subseteq> set (rx_list e)" by auto
  show "strict (rx_list e')" "strict ds"
    using assms(1) unfolding app strict_append by blast+
  show "\<forall>s \<in> set (rx_list e'). c' < sdu_count s \<and> sdu_count s < rx_next e"
    using spec assms(2) sub by (auto simp: eq)
  show "c' \<le> rx_next e" using spec by (simp add: eq)
  show "c \<le> c'" using spec by (simp add: eq word_le_nat_alt)
  show "\<forall>s \<in> set ds. c \<le> sdu_count s \<and> sdu_count s < c'"
    using run_below [OF assms(1-3)] by (simp add: eq)
qed

lemma rx_deliver_step:
  assumes "rx_weak e" and "rx_deliver e c = (e', ds)"
    and "rx_list e \<noteq> [] \<and> sdu_count (hd (rx_list e)) = rx_deliv e \<longrightarrow> c = rx_deliv e"
  shows "strict (rx_list e')" and "\<forall>s \<in> set (rx_list e'). rx_deliv e' < sdu_count s \<and> sdu_count s < rx_next e'"
    and "rx_deliv e' \<le> rx_next e'" and "in_order e e' ds" and "rx_list e = ds @ rx_list e'"
    and "rx_next e' = rx_next e" and "rx_reord e' = rx_reord e"
    and "t_reordering_start e' = t_reordering_start e" and "t_current e' = t_current e"
proof -
  have w: "strict (rx_list e)" "\<forall>s \<in> set (rx_list e). rx_deliv e \<le> sdu_count s \<and> sdu_count s < rx_next e"
    "rx_deliv e \<le> rx_next e"
    using assms(1) by (simp_all add: rx_weak_def)
  have "strict (rx_list e') \<and>
      (\<forall>s \<in> set (rx_list e'). rx_deliv e' < sdu_count s \<and> sdu_count s < rx_next e') \<and>
      rx_deliv e' \<le> rx_next e' \<and> in_order e e' ds \<and> rx_list e = ds @ rx_list e' \<and>
      rx_next e' = rx_next e \<and> rx_reord e' = rx_reord e \<and>
      t_reordering_start e' = t_reordering_start e \<and> t_current e' = t_current e"
  proof (cases "c = rx_deliv e")
    case True
    obtain f fs c' where f: "deliver_contiguous e (rx_deliv e) = (f, fs, c')"
      using prod_cases3 by blast
    with True assms(2) have eq: "e' = f\<lparr>rx_deliv := c'\<rparr>" "ds = fs" by (simp_all add: rx_deliver_def)
    note r = deliver_run [OF w f]
    have fr: "rx_next f = rx_next e" "rx_reord f = rx_reord e"
      "t_reordering_start f = t_reordering_start e" "t_current f = t_current e"
      by (simp_all add: r(8))
    from r(1-6) show ?thesis by (simp add: eq in_order_def fr r(7))
  next
    case False
    with assms(2) have eq: "e' = e" "ds = []" by (simp_all add: rx_deliver_def)
    have "\<forall>s \<in> set (rx_list e). rx_deliv e < sdu_count s"
    proof (cases "rx_list e")
      case (Cons x xs)
      with False assms(3) have "sdu_count x \<noteq> rx_deliv e" by auto
      with Cons w(1,2) show ?thesis by fastforce
    qed simp
    with w show ?thesis by (simp add: eq in_order_def)
  qed
  then show "strict (rx_list e')" and "\<forall>s \<in> set (rx_list e'). rx_deliv e' < sdu_count s \<and> sdu_count s < rx_next e'"
    and "rx_deliv e' \<le> rx_next e'" and "in_order e e' ds" and "rx_list e = ds @ rx_list e'"
    and "rx_next e' = rx_next e" and "rx_reord e' = rx_reord e"
    and "t_reordering_start e' = t_reordering_start e" and "t_current e' = t_current e"
    by blast+
qed

lemma rx_timer_facts:
  "rx_list (rx_timer e) = rx_list e" "rx_next (rx_timer e) = rx_next e" "rx_deliv (rx_timer e) = rx_deliv e"
  "t_current (rx_timer e) = t_current e" "rx_size (rx_timer e) = rx_size e" "stats (rx_timer e) = stats e"
  "tx_next (rx_timer e) = tx_next e"
  by (simp_all add: rx_timer_def Let_def)

lemma rx_timer_inv:
  assumes "strict (rx_list e)" and "\<forall>s \<in> set (rx_list e). rx_deliv e < sdu_count s \<and> sdu_count s < rx_next e"
    and "rx_deliv e \<le> rx_next e" and "t_reordering_start e \<noteq> 0 \<longrightarrow> rx_reord e \<le> rx_next e"
  shows "rx_inv (rx_timer e)"
  using assms by (auto simp: rx_inv_def rx_timer_def Let_def not_le)

text \<open>With the clock running, the timer runs exactly when something is missing.\<close>

lemma rx_timer_runs:
  assumes "t_current e \<noteq> 0" and "rx_deliv e \<le> rx_next e"
    and "t_reordering_start e \<noteq> 0 \<longrightarrow> rx_reord e \<le> rx_next e"
  shows "t_reordering_start (rx_timer e) \<noteq> 0 \<longleftrightarrow> rx_deliv e < rx_next e"
  using assms by (auto simp: rx_timer_def Let_def not_le)

lemma accept_step:
  assumes "rx_inv e" and "rx_deliv e \<le> sdu_count sdu"
    and "\<not> nr_pdcp_sdu_in_list (rx_list e) (sdu_count sdu)" and "sdu_count sdu \<noteq> -1"
    and "rx_accept e sdu n = (e', ds)"
  shows "rx_inv e'" and "in_order e e' ds"
    and "nr_pdcp_sdu_list_add (rx_list e) sdu = ds @ rx_list e'"
    and "rx_next e' = (if rx_next e \<le> sdu_count sdu then sdu_count sdu + 1 else rx_next e)"
    and "t_current e \<noteq> 0 \<Longrightarrow> t_reordering_start e' \<noteq> 0 \<longleftrightarrow> rx_deliv e' < rx_next e'"
proof -
  let ?s = "rx_store e sdu n"
  obtain e4 where e4: "rx_deliver ?s (sdu_count sdu) = (e4, ds)" and e': "e' = rx_timer e4"
    using assms(5) by (auto simp: rx_accept_def split: prod.splits)
  have gt: "\<forall>s \<in> set (rx_list e). rx_deliv e < sdu_count s"
    using assms(1) by (simp add: rx_inv_def)
  have hd: "rx_list ?s \<noteq> [] \<and> sdu_count (hd (rx_list ?s)) = rx_deliv ?s \<longrightarrow> sdu_count sdu = rx_deliv ?s"
  proof
    assume *: "rx_list ?s \<noteq> [] \<and> sdu_count (hd (rx_list ?s)) = rx_deliv ?s"
    then have "hd (rx_list ?s) \<in> insert sdu (set (rx_list e))"
      using hd_in_set [of "rx_list ?s"] by (simp add: rx_store_facts)
    with * gt show "sdu_count sdu = rx_deliv ?s" by (auto simp: rx_store_facts)
  qed
  note w = rx_store_weak [OF assms(1-4), of n]
  note r = rx_deliver_step [OF w e4 hd]
  have mono: "rx_next e \<le> rx_next ?s"
    using less_inc [OF assms(4)] by (auto simp: rx_store_facts)
  have re: "t_reordering_start e4 \<noteq> 0 \<longrightarrow> rx_reord e4 \<le> rx_next e4"
    using assms(1) mono by (auto simp: r(6-8) rx_store_facts rx_inv_def)
  show "rx_inv e'" unfolding e' by (rule rx_timer_inv) (use r re in blast)+
  show "in_order e e' ds"
    using r(4) by (simp add: in_order_def e' rx_timer_facts rx_store_facts)
  show "nr_pdcp_sdu_list_add (rx_list e) sdu = ds @ rx_list e'"
    using r(5) by (simp add: e' rx_timer_facts rx_store_facts)
  show "rx_next e' = (if rx_next e \<le> sdu_count sdu then sdu_count sdu + 1 else rx_next e)"
    by (simp add: e' rx_timer_facts r(6) rx_store_facts)
  show "t_reordering_start e' \<noteq> 0 \<longleftrightarrow> rx_deliv e' < rx_next e'" if "t_current e \<noteq> 0"
    using rx_timer_runs [of e4] that r(3) re by (simp add: e' rx_timer_facts r(9) rx_store_facts)
qed

lemma rx_inv_stats [simp]: "rx_inv (e\<lparr>stats := st\<rparr>) = rx_inv e"
  by (simp add: rx_inv_def)

text \<open>A PDU is either dropped, with only the statistics changed, or accepted.\<close>

lemma rx_data_pdu_cases:
  assumes "rx_data_pdu cr e buffer sn hs = Inr (e', ds)"
  shows "(\<exists>st. e' = e\<lparr>stats := st\<rparr> \<and> ds = []) \<or>
         (\<exists>sdu n. rx_accept e sdu n = (e', ds) \<and> rx_deliv e \<le> sdu_count sdu \<and>
                  \<not> nr_pdcp_sdu_in_list (rx_list e) (sdu_count sdu))"
proof -
  note a = assms [unfolded rx_data_pdu_def Let_def]
  show ?thesis
    using a
    by (simp add: c_bind_eq_Inr_conv not_less rx_discard_def split: if_splits)
      (metis nr_pdcp_new_sdu_simps(1))+
qed

lemma recv_pdu_cases:
  assumes "nr_pdcp_entity_recv_pdu cr e buffer = Inr (e', ds)"
  obtains (dropped) st where "e' = e\<lparr>stats := st\<rparr>" and "ds = []"
  | (accepted) st sdu n where "rx_accept (e\<lparr>stats := st\<rparr>) sdu n = (e', ds)"
      and "rx_deliv e \<le> sdu_count sdu" and "\<not> nr_pdcp_sdu_in_list (rx_list e) (sdu_count sdu)"
proof (cases "e' = e \<and> ds = []")
  case True
  then show ?thesis using dropped [of "stats e"] by simp
next
  case False
  with assms obtain st buf sn hs where "rx_data_pdu cr (e\<lparr>stats := st\<rparr>) buf sn hs = Inr (e', ds)"
    unfolding nr_pdcp_entity_recv_pdu_def Let_def
    by (auto simp: c_bind_eq_Inr_conv split: if_splits)
  from rx_data_pdu_cases [OF this] show ?thesis
    using that by auto
qed

subsection \<open>Expiry of t-Reordering\<close>

definition t_reordering_expired :: "nr_pdcp_entity \<Rightarrow> bool" where
  "t_reordering_expired e \<longleftrightarrow>
     t_reordering e \<noteq> -1 \<and> t_reordering_start e \<noteq> 0 \<and>
     t_reordering_start e + of_int (t_reordering e) < t_current e"

lemma check_t_reordering_idle: "\<not> t_reordering_expired e \<Longrightarrow> check_t_reordering e = (e, [])"
  by (auto simp: check_t_reordering_def t_reordering_expired_def)

lemma below_split:
  fixes r :: u32 and l :: "nr_pdcp_sdu list"
  assumes "strict l"
  defines "ds \<equiv> takeWhile (\<lambda>s. sdu_count s < r) l" and "rest \<equiv> dropWhile (\<lambda>s. sdu_count s < r) l"
  shows "l = ds @ rest" and "drop (length ds) l = rest" and "strict ds" and "strict rest"
    and "\<forall>x \<in> set ds. sdu_count x < r" and "\<forall>y \<in> set rest. r \<le> sdu_count y"
proof -
  show app: "l = ds @ rest" by (simp add: ds_def rest_def)
  show "drop (length ds) l = rest" by (simp add: ds_def rest_def dropWhile_eq_drop)
  show "strict ds" "strict rest" using assms(1) unfolding app strict_append by blast+
  then show "\<forall>y \<in> set rest. r \<le> sdu_count y"
  proof (cases rest)
    case (Cons x xs)
    then have "\<not> sdu_count x < r" by (metis dropWhile_eq_Cons_conv rest_def)
    with \<open>strict rest\<close> Cons show ?thesis by fastforce
  qed simp
  show "\<forall>x \<in> set ds. sdu_count x < r" by (auto simp: ds_def dest: set_takeWhileD)
qed

lemma check_t_reordering_step:
  assumes "rx_inv e" and "t_reordering_expired e" and "check_t_reordering e = (e', ds)"
  shows "rx_inv e'" and "in_order e e' ds" and "rx_list e = ds @ rx_list e'"
    and "rx_reord e \<le> rx_deliv e'" and "rx_next e' = rx_next e"
    and "t_reordering_start e' = (if rx_deliv e' < rx_next e' then t_current e' else 0)"
    and "t_current e' = t_current e"
proof -
  let ?e1 = "e\<lparr>t_reordering_start := 0\<rparr>" and ?r = "rx_reord e"
  define ds1 where "ds1 = takeWhile (\<lambda>s. sdu_count s < ?r) (rx_list e)"
  define e2 where "e2 = delivered_state ?e1 ds1"
  obtain e3 ds2 c where e3: "deliver_contiguous e2 ?r = (e3, ds2, c)" using prod_cases3 by blast
  have e': "e' = (let e4 = e3\<lparr>rx_deliv := c\<rparr> in
               if rx_deliv e4 < rx_next e4
               then e4\<lparr>rx_reord := rx_next e4, t_reordering_start := t_current e4\<rparr> else e4)"
    and ds: "ds = ds1 @ ds2"
    using assms(2,3) e3
    by (auto simp: check_t_reordering_def t_reordering_expired_def deliver_below_eq Let_def not_le
        ds1_def e2_def split: if_splits)
  have inv: "strict (rx_list e)" "\<forall>s \<in> set (rx_list e). rx_deliv e < sdu_count s \<and> sdu_count s < rx_next e"
      "rx_deliv e < ?r" "?r \<le> rx_next e"
    using assms(1,2) by (auto simp: rx_inv_def t_reordering_expired_def)
  note b = below_split [OF inv(1), where r = ?r, folded ds1_def]
  have l2: "rx_list e2 = dropWhile (\<lambda>s. sdu_count s < ?r) (rx_list e)" "rx_next e2 = rx_next e"
    using b(2) by (simp_all add: e2_def)
  note app = b(1) [folded l2(1)]
  have p1: "\<forall>s \<in> set (rx_list e2). ?r \<le> sdu_count s \<and> sdu_count s < rx_next e2"
    unfolding l2 using b(6) inv(2) by (auto dest: set_dropWhileD)
  note r = deliver_run [OF b(4) [folded l2(1)] p1 inv(4) [folded l2(2)] e3]
  have fr: "rx_next e3 = rx_next e" "t_reordering_start e3 = 0" "t_current e3 = t_current e"
    by (simp_all add: r(8) e2_def)
  have st: "rx_list e' = rx_list e3" "rx_deliv e' = c" "rx_next e' = rx_next e" "t_current e' = t_current e"
    by (simp_all add: e' Let_def fr)
  show "rx_list e = ds @ rx_list e'" using app r(7) by (simp add: st ds)
  show "rx_reord e \<le> rx_deliv e'" using r(4) by (simp add: st)
  show "rx_next e' = rx_next e" "t_current e' = t_current e" by (fact st)+
  show "t_reordering_start e' = (if rx_deliv e' < rx_next e' then t_current e' else 0)"
    by (simp add: e' Let_def fr)
  show "rx_inv e'"
    using r(1-3) by (auto simp: rx_inv_def e' Let_def fr l2(2))
  have d1: "rx_deliv e < sdu_count s \<and> sdu_count s < ?r" if "s \<in> set ds1" for s
    using that inv(2) b(5) by (auto simp: ds1_def dest: set_takeWhileD)
  have d2: "?r \<le> sdu_count s \<and> sdu_count s < c" if "s \<in> set ds2" for s
    using that r(6) by blast
  have "rx_deliv e \<le> sdu_count s \<and> sdu_count s < c" if "s \<in> set (ds1 @ ds2)" for s
    using that d1 [of s] d2 [of s] r(4) inv(3) by (auto intro: order.strict_trans2 order.trans less_imp_le)
  moreover have "\<forall>x \<in> set ds1. \<forall>y \<in> set ds2. sdu_count x < sdu_count y"
    using d1 d2 order.strict_trans2 by blast
  moreover have "rx_deliv e \<le> c" using inv(3) r(4) by simp
  ultimately show "in_order e e' ds"
    unfolding in_order_def st ds strict_append using b(3) r(5) by blast
qed

end
