(* ===== verification/Pdcp_Order.thy ===== *)
theory Pdcp_Order
  imports Pdcp_Rx
begin

text \<open>
  Runs of a PDCP entity between two resets: PDUs from RLC, clock ticks and SDUs to send, in any
  order. Whatever arrives, SDUs go up in the order of COUNT and each at most once; t-Reordering
  runs exactly while something is missing, and its expiry moves the window past the gap.
\<close>

datatype pdcp_event =
    RecvPdu "byte list"
  | SetTime u64
  | ProcessSdu "byte list"

fun pdcp_step :: "crypto \<Rightarrow> nr_pdcp_entity \<Rightarrow> pdcp_event \<Rightarrow> (nr_pdcp_entity \<times> nr_pdcp_sdu list) c_result" where
  "pdcp_step cr e (RecvPdu buffer) = nr_pdcp_entity_recv_pdu cr e buffer"
| "pdcp_step cr e (SetTime now) = Inr (nr_pdcp_entity_set_time e now)"
| "pdcp_step cr e (ProcessSdu buffer) =
     c_bind (nr_pdcp_entity_process_sdu cr e buffer 0 (nr_max_pdcp_pdu_size (int (length buffer))))
       (\<lambda>(e', _). Inr (e', []))"

lemma process_sdu_frame:
  assumes "nr_pdcp_entity_process_sdu cr e buffer i m = Inr (e', r)"
  shows "\<exists>tn st. e' = e\<lparr>tx_next := tn, stats := st\<rparr>"
proof -
  have self: "\<exists>tn st. e = e\<lparr>tx_next := tn, stats := st\<rparr>"
    by (rule exI [of _ "tx_next e"], rule exI [of _ "stats e"]) simp
  show ?thesis
    using assms self
    by (auto simp: nr_pdcp_entity_process_sdu_def Let_def c_bind_eq_Inr_conv split: if_splits)
qed

lemma rx_inv_frame [simp]:
  "rx_inv (e\<lparr>tx_next := tn\<rparr>) = rx_inv e" "rx_inv (e\<lparr>t_current := now\<rparr>) = rx_inv e"
  by (simp_all add: rx_inv_def)

lemma in_order_refl: "rx_deliv e' = rx_deliv e \<Longrightarrow> in_order e e' []"
  by (simp add: in_order_def)

text \<open>Nothing in the reordering buffer is lost: an SDU that leaves it is delivered.\<close>

lemma rx_accept_conserve:
  assumes "rx_accept e sdu n = (e', ds)"
  shows "nr_pdcp_sdu_list_add (rx_list e) sdu = ds @ rx_list e'"
  using assms run_prefix
  by (auto simp: rx_accept_def rx_deliver_def deliver_contiguous_eq rx_timer_facts rx_store_facts Let_def
      split: if_splits)

lemma check_t_reordering_conserve:
  assumes "check_t_reordering e = (e', ds)"
  shows "rx_list e = ds @ rx_list e'"
proof -
  have "takeWhile P l @ run c (drop (length (takeWhile P l)) l)
        @ drop (length (run c (drop (length (takeWhile P l)) l))) (drop (length (takeWhile P l)) l) = l"
    for P c l
    using run_prefix [of c "drop (length (takeWhile P l)) l"]
    by (simp add: dropWhile_eq_drop [symmetric])
  then show ?thesis
    using assms
    by (auto simp: check_t_reordering_def deliver_below_eq deliver_contiguous_eq Let_def add.commute
        split: if_splits)
qed

lemma pdcp_step_conserve:
  assumes "pdcp_step cr e ev = Inr (e', ds)"
  shows "set (rx_list e) \<subseteq> set (rx_list e') \<union> set ds"
proof (cases ev)
  case (RecvPdu buffer)
  with assms have "nr_pdcp_entity_recv_pdu cr e buffer = Inr (e', ds)" by simp
  then show ?thesis
  proof (cases rule: recv_pdu_cases)
    case (accepted st sdu n)
    from arg_cong [OF rx_accept_conserve [OF accepted(1)], of set] show ?thesis by auto
  qed auto
next
  case (SetTime now)
  with assms have "check_t_reordering (e\<lparr>t_current := now\<rparr>) = (e', ds)"
    by (simp add: nr_pdcp_entity_set_time_def)
  from arg_cong [OF check_t_reordering_conserve [OF this], of set] show ?thesis by auto
next
  case (ProcessSdu buffer)
  with assms show ?thesis
    by (auto simp: c_bind_eq_Inr_conv dest!: process_sdu_frame)
qed

subsection \<open>Order of the deliveries\<close>

text \<open>
  What the order of the deliveries rests on. Unlike \<open>rx_inv\<close> it says nothing of \<open>rx_next\<close>, which wraps around as soon as a
  PDU with the last COUNT value is received; a PDU with a sequence number of the upper half of the space is given that
  value by an entity that has received nothing yet.
\<close>

definition rx_sound :: "nr_pdcp_entity \<Rightarrow> bool" where
  "rx_sound e \<longleftrightarrow>
     strict (rx_list e) \<and> (\<forall>s \<in> set (rx_list e). rx_deliv e < sdu_count s) \<and>
     (t_reordering_start e \<noteq> 0 \<longrightarrow> rx_deliv e < rx_reord e)"

lemma rx_inv_sound: "rx_inv e \<Longrightarrow> rx_sound e"
  by (simp add: rx_inv_def rx_sound_def)

lemma rx_sound_frame [simp]:
  "rx_sound (e\<lparr>tx_next := tn\<rparr>) = rx_sound e" "rx_sound (e\<lparr>t_current := now\<rparr>) = rx_sound e"
  "rx_sound (e\<lparr>stats := st\<rparr>) = rx_sound e"
  by (simp_all add: rx_sound_def)

lemma run_sound:
  assumes "strict l" and "\<forall>s \<in> set l. c \<le> sdu_count s" and "\<forall>s \<in> set (run c l). sdu_count s \<noteq> -1"
  shows "c \<le> c + of_nat (length (run c l)) \<and>
         (\<forall>s \<in> set (run c l). c \<le> sdu_count s \<and> sdu_count s < c + of_nat (length (run c l))) \<and>
         (\<forall>s \<in> set (drop (length (run c l)) l). c + of_nat (length (run c l)) < sdu_count s)"
  using assms
proof (induction l arbitrary: c)
  case (Cons x xs)
  show ?case
  proof (cases "c = sdu_count x")
    case True
    with Cons.prems have c: "c < c + 1" and "strict xs" and above: "\<forall>s \<in> set xs. c < sdu_count s"
      by (auto intro: less_inc)
    moreover have "\<forall>s \<in> set xs. c + 1 \<le> sdu_count s" using above inc_le by blast
    moreover have "\<forall>s \<in> set (run (c + 1) xs). sdu_count s \<noteq> -1" using Cons.prems(3) True by simp
    ultimately have "c + 1 \<le> c + 1 + of_nat (length (run (c + 1) xs)) \<and>
         (\<forall>s \<in> set (run (c + 1) xs). c + 1 \<le> sdu_count s \<and> sdu_count s < c + 1 + of_nat (length (run (c + 1) xs))) \<and>
         (\<forall>s \<in> set (drop (length (run (c + 1) xs)) xs). c + 1 + of_nat (length (run (c + 1) xs)) < sdu_count s)"
      using Cons.IH by blast
    with True c show ?thesis by (auto simp: add.assoc intro: order.strict_trans2 order.strict_implies_order order.trans)
  next
    case False
    with Cons.prems have "\<forall>s \<in> set (x # xs). c < sdu_count s" by fastforce
    with False show ?thesis by simp
  qed
qed simp

text \<open>Delivery of the run from \<open>c\<close> on, and what the timer does afterwards.\<close>

lemma deliver_sound:
  assumes "strict (rx_list e)" and "\<forall>s \<in> set (rx_list e). c \<le> sdu_count s"
    and "deliver_contiguous e c = (e', ds, c')" and "\<forall>s \<in> set ds. sdu_count s \<noteq> -1"
  shows "strict (rx_list e')" and "\<forall>s \<in> set (rx_list e'). c' < sdu_count s" and "c \<le> c'" and "strict ds"
    and "\<forall>s \<in> set ds. c \<le> sdu_count s \<and> sdu_count s < c'" and "e' = delivered_state e ds"
proof -
  have eq: "ds = run c (rx_list e)" "e' = delivered_state e ds" "c' = c + of_nat (length ds)"
    using assms(3) by (auto simp: deliver_contiguous_eq Let_def)
  show "e' = delivered_state e ds" by (fact eq)
  show "strict (rx_list e')" "strict ds" using strict_run assms(1) by (simp_all add: eq)
  note r = run_sound [OF assms(1,2) assms(4) [unfolded eq(1)], folded eq(1)]
  show "\<forall>s \<in> set (rx_list e'). c' < sdu_count s" "c \<le> c'" "\<forall>s \<in> set ds. c \<le> sdu_count s \<and> sdu_count s < c'"
    using r by (simp_all add: eq(2,3))
qed

lemma rx_timer_sound:
  "strict (rx_list e) \<Longrightarrow> \<forall>s \<in> set (rx_list e). rx_deliv e < sdu_count s \<Longrightarrow> rx_sound (rx_timer e)"
  by (auto simp: rx_sound_def rx_timer_def Let_def not_le)

lemma accept_sound:
  assumes "rx_sound e" and "rx_deliv e \<le> sdu_count sdu" and "\<not> nr_pdcp_sdu_in_list (rx_list e) (sdu_count sdu)"
    and "rx_accept e sdu n = (e', ds)" and "\<forall>s \<in> set ds. sdu_count s \<noteq> -1"
  shows "rx_sound e' \<and> in_order e e' ds"
proof -
  let ?s = "rx_store e sdu n"
  obtain e4 where e4: "rx_deliver ?s (sdu_count sdu) = (e4, ds)" and e': "e' = rx_timer e4"
    using assms(4) by (auto simp: rx_accept_def split: prod.splits)
  have st: "strict (rx_list ?s)" "set (rx_list ?s) = insert sdu (set (rx_list e))" "rx_deliv ?s = rx_deliv e"
    using assms(1,3) strict_list_add [of "rx_list e" sdu] by (simp_all add: rx_store_facts rx_sound_def)
  have above: "\<forall>s \<in> set (rx_list e). rx_deliv e < sdu_count s" using assms(1) by (simp add: rx_sound_def)
  show ?thesis
  proof (cases "sdu_count sdu = rx_deliv e")
    case True
    obtain f c where f: "deliver_contiguous ?s (rx_deliv e) = (f, ds, c)" "e4 = f\<lparr>rx_deliv := c\<rparr>"
      using e4 True st(3) by (auto simp: rx_deliver_def split: prod.splits)
    have "\<forall>s \<in> set (rx_list ?s). rx_deliv e \<le> sdu_count s" using st(2) above True by auto
    note r = deliver_sound [OF st(1) this f(1) assms(5)]
    have "rx_sound (rx_timer e4)" by (rule rx_timer_sound) (use r(1,2) f(2) in simp_all)
    then show ?thesis using r(3-5) by (simp add: e' f(2) in_order_def rx_timer_facts)
  next
    case False
    then have "e4 = ?s" "ds = []" using e4 st(3) by (auto simp: rx_deliver_def)
    moreover have "\<forall>s \<in> set (rx_list ?s). rx_deliv ?s < sdu_count s"
      using st(2,3) above False assms(2) by auto
    ultimately show ?thesis using rx_timer_sound [OF st(1)] st(3) by (simp add: e' in_order_def rx_timer_facts)
  qed
qed

lemma check_t_reordering_sound:
  assumes "rx_sound e" and "check_t_reordering e = (e', ds)" and "\<forall>s \<in> set ds. sdu_count s \<noteq> -1"
  shows "rx_sound e' \<and> in_order e e' ds"
proof (cases "t_reordering_expired e")
  case False
  with assms(1,2) show ?thesis by (auto simp: check_t_reordering_idle intro: in_order_refl)
next
  case True
  let ?e1 = "e\<lparr>t_reordering_start := 0\<rparr>" and ?r = "rx_reord e"
  define ds1 where "ds1 = takeWhile (\<lambda>s. sdu_count s < ?r) (rx_list e)"
  define e2 where "e2 = delivered_state ?e1 ds1"
  obtain e3 ds2 c where e3: "deliver_contiguous e2 ?r = (e3, ds2, c)" using prod_cases3 by blast
  have e': "e' = (let e4 = e3\<lparr>rx_deliv := c\<rparr> in
               if rx_deliv e4 < rx_next e4
               then e4\<lparr>rx_reord := rx_next e4, t_reordering_start := t_current e4\<rparr> else e4)"
    and ds: "ds = ds1 @ ds2"
    using assms(2) True e3
    by (auto simp: check_t_reordering_def t_reordering_expired_def deliver_below_eq Let_def not_le
        ds1_def e2_def split: if_splits)
  have inv: "strict (rx_list e)" "\<forall>s \<in> set (rx_list e). rx_deliv e < sdu_count s" "rx_deliv e < ?r"
    using assms(1) True by (auto simp: rx_sound_def t_reordering_expired_def)
  note b = below_split [OF inv(1), where r = ?r, folded ds1_def]
  have l2: "rx_list e2 = dropWhile (\<lambda>s. sdu_count s < ?r) (rx_list e)" using b(2) by (simp add: e2_def)
  have "\<forall>s \<in> set ds2. sdu_count s \<noteq> -1" using assms(3) by (simp add: ds)
  note r = deliver_sound [OF b(4) [folded l2] b(6) [folded l2] e3 this]
  have fr: "rx_next e3 = rx_next e" "t_reordering_start e3 = 0" by (simp_all add: r(6) e2_def)
  have "rx_sound e'" using r(1,2) by (auto simp: rx_sound_def e' Let_def fr)
  moreover have st: "rx_deliv e' = c" by (simp add: e' Let_def)
  have d1: "rx_deliv e < sdu_count s \<and> sdu_count s < ?r" if "s \<in> set ds1" for s
    using that inv(2) b(5) by (auto simp: ds1_def dest: set_takeWhileD)
  have d2: "?r \<le> sdu_count s \<and> sdu_count s < c" if "s \<in> set ds2" for s
    using that r(5) by blast
  have "rx_deliv e \<le> sdu_count s \<and> sdu_count s < c" if "s \<in> set (ds1 @ ds2)" for s
    using that d1 [of s] d2 [of s] r(3) inv(3) by (auto intro: order.strict_trans2 order.trans less_imp_le)
  moreover have "\<forall>x \<in> set ds1. \<forall>y \<in> set ds2. sdu_count x < sdu_count y"
    using d1 d2 order.strict_trans2 by blast
  moreover have "rx_deliv e \<le> c" using inv(3) r(3) by simp
  ultimately show ?thesis
    unfolding in_order_def st ds strict_append using b(3) r(4) by blast
qed

lemma pdcp_step_order:
  assumes "rx_sound e" and "pdcp_step cr e ev = Inr (e', ds)" and "\<forall>s \<in> set ds. sdu_count s \<noteq> -1"
  shows "rx_sound e' \<and> in_order e e' ds"
proof (cases ev)
  case (RecvPdu buffer)
  with assms(2) have "nr_pdcp_entity_recv_pdu cr e buffer = Inr (e', ds)" by simp
  then show ?thesis
  proof (cases rule: recv_pdu_cases)
    case (dropped st)
    with assms(1) show ?thesis by (auto intro: in_order_refl)
  next
    case (accepted st sdu n)
    with assms(1,3) accept_sound [of "e\<lparr>stats := st\<rparr>" sdu n e' ds] show ?thesis by (simp add: in_order_def)
  qed
next
  case (SetTime now)
  with assms(2) have "check_t_reordering (e\<lparr>t_current := now\<rparr>) = (e', ds)"
    by (simp add: nr_pdcp_entity_set_time_def)
  from check_t_reordering_sound [OF _ this assms(3)] assms(1) show ?thesis by (simp add: in_order_def)
next
  case (ProcessSdu buffer)
  with assms(1,2) show ?thesis
    by (auto simp: c_bind_eq_Inr_conv intro: in_order_refl dest!: process_sdu_frame)
qed

interpretation pdcp_rx: counted_receiver "pdcp_step cr" rx_sound rx_deliv sdu_count "\<lambda>e. set (rx_list e)"
  "\<lambda>s. sdu_count s = -1"
proof unfold_locales
  fix e ev e' ds
  assume st: "pdcp_step cr e ev = Inr (e', ds)"
  then show "set (rx_list e) \<subseteq> set (rx_list e') \<union> set ds" by (rule pdcp_step_conserve)
  assume "rx_sound e" and "\<forall>d \<in> set ds. sdu_count d \<noteq> -1"
  with pdcp_step_order [OF _ st] show "rx_sound e' \<and> sorted_wrt (<) (counts_of ds) \<and>
       (\<forall>d\<in>set ds. rx_deliv e \<le> sdu_count d \<and> sdu_count d < rx_deliv e') \<and> rx_deliv e \<le> rx_deliv e'"
    by (auto simp: in_order_def)
qed

subsection \<open>Properties\<close>

definition no_security :: nr_pdcp_entity_security_keys_and_algos where
  "no_security = \<lparr>integrity_algorithm = 0, ciphering_algorithm = 0,
                  integrity_key = replicate 16 0, ciphering_key = replicate 16 0\<rparr>"

definition drb12 :: nr_pdcp_entity where
  "drb12 = projr (new_nr_pdcp_entity NR_PDCP_DRB_UM True 1 1 False False 12 100 (-1) no_security)"

definition two_swapped :: "nr_pdcp_entity \<times> nr_pdcp_sdu list" where
  "two_swapped = projr (run_steps (pdcp_step pad_crypto) drb12
     [SetTime 1, RecvPdu [0x8f, 0xff, 9], RecvPdu [0x80, 1, 7], RecvPdu [0x80, 0, 5]])"

text \<open>C9: in any run of received PDUs, clock ticks and sent SDUs, from a reordering buffer that is in order and above \<open>rx_deliv\<close>
  (as it is in a new entity), that does not hand up an SDU with the last
  COUNT value (2^32 - 1, after which the counter wraps around), the SDUs handed up have strictly
  increasing COUNT values (so no SDU is delivered twice or out of order), each between the old and
  the new \<open>rx_deliv\<close>; what the reordering buffer holds stays in order, above \<open>rx_deliv\<close>, and an SDU leaves the
  buffer only to be handed up. PDUs with the last COUNT value may be received and stored.\<close>

theorem pdcp_in_order_delivery:
  assumes "run_steps (pdcp_step cr) e evs = Inr (e', ds)" and "rx_sound e"
    and "\<forall>s \<in> set ds. sdu_count s \<noteq> -1"
  shows "sorted_wrt (<) (map sdu_count ds) \<and>
         (\<forall>s \<in> set ds. rx_deliv e \<le> sdu_count s \<and> sdu_count s < rx_deliv e') \<and> rx_sound e' \<and>
         set (rx_list e) \<subseteq> set (rx_list e') \<union> set ds"
  using pdcp_rx.run_order [OF assms] pdcp_rx.run_held [OF assms(1)] by blast

theorem pdcp_in_order_delivery_witness:
  "map sdu_buffer (snd two_swapped) = [[5], [7]] \<and> sorted_wrt (<) (map sdu_count (snd two_swapped)) \<and>
   rx_sound (fst two_swapped) \<and> map sdu_count (rx_list (fst two_swapped)) = [0xffffffff]"
proof -
  have 1: "run_steps (pdcp_step pad_crypto) drb12
     [SetTime 1, RecvPdu [0x8f, 0xff, 9], RecvPdu [0x80, 1, 7], RecvPdu [0x80, 0, 5]] = Inr (fst two_swapped, snd two_swapped)"
    by code_simp
  have 2: "rx_sound drb12" by code_simp
  have 3: "\<forall>s \<in> set (snd two_swapped). sdu_count s \<noteq> -1" by code_simp
  have 4: "map sdu_buffer (snd two_swapped) = [[5], [7]]" by code_simp
  have 5: "map sdu_count (rx_list (fst two_swapped)) = [0xffffffff]" by code_simp
  show ?thesis using pdcp_in_order_delivery [OF 1 2 3] 4 5 by blast
qed

subsection \<open>The clock and t-Reordering\<close>

text \<open>The clock runs, and t-Reordering runs exactly while an SDU below \<open>rx_next\<close> is missing.\<close>

definition timer_inv :: "nr_pdcp_entity \<Rightarrow> bool" where
  "timer_inv e \<longleftrightarrow> t_current e \<noteq> 0 \<and> (t_reordering_start e \<noteq> 0 \<longleftrightarrow> rx_deliv e < rx_next e)"

fun ticks :: "pdcp_event \<Rightarrow> bool" where
  "ticks (SetTime now) = (now \<noteq> 0)"
| "ticks _ = True"

lemma rx_accept_time: "rx_accept e sdu n = (e', ds) \<Longrightarrow> t_current e' = t_current e"
  by (auto simp: rx_accept_def rx_deliver_def deliver_contiguous_eq rx_timer_facts rx_store_facts Let_def
      split: if_splits)

lemma timer_inv_frame [simp]:
  "timer_inv (e\<lparr>stats := st\<rparr>) = timer_inv e" "timer_inv (e\<lparr>tx_next := tn\<rparr>) = timer_inv e"
  by (simp_all add: timer_inv_def)

lemma pdcp_step_timer:
  assumes "rx_inv e" and "timer_inv e" and "pdcp_step cr e ev = Inr (e', ds)" and "ticks ev"
    and "\<forall>s \<in> set (rx_list e') \<union> set ds. sdu_count s \<noteq> -1"
  shows "timer_inv e'"
proof (cases ev)
  case (RecvPdu buffer)
  with assms(3) have "nr_pdcp_entity_recv_pdu cr e buffer = Inr (e', ds)" by simp
  then show ?thesis
  proof (cases rule: recv_pdu_cases)
    case (dropped st)
    with assms(2) show ?thesis by simp
  next
    case (accepted st sdu n)
    have "sdu \<in> set (rx_list e') \<union> set ds"
      using arg_cong [OF rx_accept_conserve [OF accepted(1)], of set] by auto
    with assms(5) have "sdu_count sdu \<noteq> -1" by blast
    with assms(1,2) accepted accept_step(5) [of "e\<lparr>stats := st\<rparr>" sdu n e' ds] rx_accept_time [OF accepted(1)]
    show ?thesis by (simp add: timer_inv_def)
  qed
next
  case (SetTime now)
  let ?e = "e\<lparr>t_current := now\<rparr>"
  from SetTime assms(3) have s: "check_t_reordering ?e = (e', ds)"
    by (simp add: nr_pdcp_entity_set_time_def)
  from SetTime assms(4) have "now \<noteq> 0" by simp
  show ?thesis
  proof (cases "t_reordering_expired ?e")
    case True
    with check_t_reordering_step(6,7) [OF _ True s] assms(1) \<open>now \<noteq> 0\<close> show ?thesis
      by (simp add: timer_inv_def)
  next
    case False
    with s assms(2) \<open>now \<noteq> 0\<close> show ?thesis
      by (auto simp: check_t_reordering_idle timer_inv_def)
  qed
next
  case (ProcessSdu buffer)
  with assms(2,3) show ?thesis
    by (auto simp: c_bind_eq_Inr_conv dest!: process_sdu_frame)
qed

text \<open>C14: liveness of reordering. When the clock is set to a time past the start of t-Reordering plus
  its duration, every stored SDU below \<open>rx_reord\<close> is handed up in that call, and \<open>rx_deliv\<close> moves from
  below \<open>rx_reord\<close> to at least \<open>rx_reord\<close>: a missing PDU never blocks the ones behind it for longer.\<close>

theorem pdcp_gap_is_skipped:
  assumes "rx_inv e" and "t_reordering_start e \<noteq> 0" and "t_reordering e \<noteq> -1"
    and "t_reordering_start e + of_int (t_reordering e) < now"
    and "nr_pdcp_entity_set_time e now = (e', ds)"
  shows "rx_deliv e < rx_reord e \<and> rx_reord e \<le> rx_deliv e' \<and>
         {s \<in> set (rx_list e). sdu_count s < rx_reord e} \<subseteq> set ds \<and> rx_inv e'"
proof -
  let ?e = "e\<lparr>t_current := now\<rparr>"
  have s: "check_t_reordering ?e = (e', ds)" using assms(5) by (simp add: nr_pdcp_entity_set_time_def)
  have x: "t_reordering_expired ?e" using assms(2-4) by (simp add: t_reordering_expired_def)
  have i: "rx_inv ?e" using assms(1) by simp
  note r = check_t_reordering_step [OF i x s]
  have "\<forall>s \<in> set (rx_list e'). rx_reord e < sdu_count s"
    using r(1,4) by (auto simp: rx_inv_def)
  then have "{s \<in> set (rx_list e). sdu_count s < rx_reord e} \<subseteq> set ds"
    using arg_cong [OF r(3), of set] by auto
  then show ?thesis using r(1,4) assms(1,2) by (simp add: rx_inv_def)
qed

definition drb12_gap :: nr_pdcp_entity where
  "drb12_gap = fst (projr (run_steps (pdcp_step pad_crypto) drb12 [SetTime 1, RecvPdu [0x80, 1, 7]]))"

theorem pdcp_gap_is_skipped_witness:
  "rx_deliv drb12_gap < rx_reord drb12_gap \<and>
   map sdu_buffer (snd (nr_pdcp_entity_set_time drb12_gap 102)) = [[7]]"
proof -
  have 1: "rx_inv drb12_gap" by code_simp
  have 2: "t_reordering_start drb12_gap \<noteq> 0" "t_reordering drb12_gap \<noteq> -1" by code_simp+
  have 3: "t_reordering_start drb12_gap + of_int (t_reordering drb12_gap) < 102" by code_simp
  have 4: "nr_pdcp_entity_set_time drb12_gap 102 =
      (fst (nr_pdcp_entity_set_time drb12_gap 102), snd (nr_pdcp_entity_set_time drb12_gap 102))" by simp
  have 5: "map sdu_buffer (snd (nr_pdcp_entity_set_time drb12_gap 102)) = [[7]]" by code_simp
  show ?thesis using pdcp_gap_is_skipped [OF 1 2 3 4] 5 by blast
qed

end
