(* ===== verification/Pdcp_Control.thy ===== *)
theory Pdcp_Control
  imports Pdcp_Order
begin

text \<open>
  Configuration and control of a PDCP entity: construction, security, suspension, re-establishment,
  release, and which calls can fault.
\<close>

subsection \<open>Security contexts\<close>

text \<open>
  Where ciphering (integrity) is on, the function pointers are set and agree, the context is live,
  and the key it uses is the key the entity stores. A context to free is live.
\<close>

definition cipher_inv :: "nr_pdcp_entity \<Rightarrow> bool" where
  "cipher_inv e \<longleftrightarrow>
     (has_ciphering e \<longrightarrow> cipher e \<noteq> None \<and> decipher e = cipher e \<and> free_security e = cipher e) \<and>
     (free_security e \<noteq> None \<longrightarrow>
        (\<exists>ctx. security_context e = Some ctx \<and>
               ctx_key ctx (ciphering_key (security_keys_and_algos e)) = ciphering_key (security_keys_and_algos e)))"

definition integrity_inv :: "nr_pdcp_entity \<Rightarrow> bool" where
  "integrity_inv e \<longleftrightarrow>
     (has_integrity e \<longrightarrow> integrity e \<noteq> None \<and> free_integrity e = integrity e) \<and>
     (free_integrity e \<noteq> None \<longrightarrow>
        (\<exists>ctx. integrity_context e = Some ctx \<and>
               ctx_key ctx (integrity_key (security_keys_and_algos e)) = integrity_key (security_keys_and_algos e)))"

definition sec_inv :: "nr_pdcp_entity \<Rightarrow> bool" where
  "sec_inv e \<longleftrightarrow> cipher_inv e \<and> integrity_inv e"

lemma sec_inv_code [code]:
  "cipher_inv e \<longleftrightarrow>
     (has_ciphering e \<longrightarrow> cipher e \<noteq> None \<and> decipher e = cipher e \<and> free_security e = cipher e) \<and>
     (free_security e \<noteq> None \<longrightarrow>
        (case security_context e of None \<Rightarrow> False
         | Some ctx \<Rightarrow> ctx_key ctx (ciphering_key (security_keys_and_algos e)) = ciphering_key (security_keys_and_algos e)))"
  "integrity_inv e \<longleftrightarrow>
     (has_integrity e \<longrightarrow> integrity e \<noteq> None \<and> free_integrity e = integrity e) \<and>
     (free_integrity e \<noteq> None \<longrightarrow>
        (case integrity_context e of None \<Rightarrow> False
         | Some ctx \<Rightarrow> ctx_key ctx (integrity_key (security_keys_and_algos e)) = integrity_key (security_keys_and_algos e)))"
  by (auto simp: cipher_inv_def integrity_inv_def split: option.splits)

text \<open>The part of an entity that security configuration writes.\<close>

lemma set_integrity_algo_keeps:
  assumes "set_integrity_algo alg e = Inr e'"
  shows "security_keys_and_algos e' = security_keys_and_algos e" and "has_ciphering e' = has_ciphering e"
    and "cipher e' = cipher e" and "decipher e' = decipher e" and "free_security e' = free_security e"
    and "security_context e' = security_context e"
  using assms by (auto simp: set_integrity_algo_def Let_def split: if_splits)

lemma set_ciphering_algo_keeps:
  assumes "set_ciphering_algo alg e = Inr e'"
  shows "security_keys_and_algos e' = security_keys_and_algos e" and "has_integrity e' = has_integrity e"
    and "integrity e' = integrity e" and "free_integrity e' = free_integrity e"
    and "integrity_context e' = integrity_context e"
  using assms by (auto simp: set_ciphering_algo_def Let_def split: if_splits)

lemma set_integrity_algo_inv:
  assumes "set_integrity_algo alg e = Inr e'" and "alg = -1 \<Longrightarrow> integrity_inv e"
  shows "integrity_inv e'"
  using assms
  by (auto simp: set_integrity_algo_def integrity_inv_def Let_def ctx_key_def split: if_splits)

lemma set_ciphering_algo_inv:
  assumes "set_ciphering_algo alg e = Inr e'" and "alg = -1 \<Longrightarrow> cipher_inv e"
  shows "cipher_inv e'"
  using assms
  by (auto simp: set_ciphering_algo_def cipher_inv_def Let_def ctx_key_def split: if_splits)

lemma store_algos_keeps:
  "integrity_algorithm p = -1 \<Longrightarrow> integrity_key (store_algos p s) = integrity_key s"
  "ciphering_algorithm p = -1 \<Longrightarrow> ciphering_key (store_algos p s) = ciphering_key s"
  by (simp_all add: store_algos_def Let_def)

lemma set_security_frame:
  assumes "nr_pdcp_entity_set_security e p = Inr e'"
  shows "rx_list e' = rx_list e" "rx_next e' = rx_next e" "rx_deliv e' = rx_deliv e" "rx_reord e' = rx_reord e"
    "t_current e' = t_current e" "t_reordering_start e' = t_reordering_start e" "tx_next e' = tx_next e"
    "sn_size e' = sn_size e" "sn_max e' = sn_max e" "window_size e' = window_size e"
    "entity_suspended e' = entity_suspended e" "rb_id e' = rb_id e" "is_gnb e' = is_gnb e"
    "entity_type e' = entity_type e" "has_sdap_rx e' = has_sdap_rx e" "has_sdap_tx e' = has_sdap_tx e"
    "security_keys_and_algos e' = store_algos p (security_keys_and_algos e)"
  using assms
  by (auto simp: nr_pdcp_entity_set_security_def c_bind_eq_Inr_conv set_integrity_algo_def
      set_ciphering_algo_def Let_def split: if_splits)

lemma set_security_inv:
  assumes "nr_pdcp_entity_set_security e p = Inr e'" and "sec_inv e"
  shows "sec_inv e'"
proof -
  let ?e0 = "e\<lparr>security_keys_and_algos := store_algos p (security_keys_and_algos e)\<rparr>"
  obtain e1 where e1: "set_integrity_algo (integrity_algorithm p) ?e0 = Inr e1"
    and e2: "set_ciphering_algo (ciphering_algorithm p) e1 = Inr e'"
    using assms(1) by (auto simp: nr_pdcp_entity_set_security_def c_bind_eq_Inr_conv)
  note k1 = set_integrity_algo_keeps [OF e1] and k2 = set_ciphering_algo_keeps [OF e2]
  have "integrity_inv e1"
    using e1 by (rule set_integrity_algo_inv)
      (use assms(2) in \<open>simp add: sec_inv_def integrity_inv_def store_algos_keeps\<close>)
  then have "integrity_inv e'" by (simp add: integrity_inv_def k2)
  moreover have "cipher_inv e'"
    using e2 by (rule set_ciphering_algo_inv)
      (use assms(2) in \<open>simp add: sec_inv_def cipher_inv_def k1 store_algos_keeps\<close>)
  ultimately show ?thesis by (simp add: sec_inv_def)
qed

text \<open>A sequence of reconfigurations.\<close>

fun reconfigure :: "nr_pdcp_entity \<Rightarrow> nr_pdcp_entity_security_keys_and_algos list \<Rightarrow> nr_pdcp_entity c_result" where
  "reconfigure e [] = Inr e"
| "reconfigure e (p # ps) = c_bind (nr_pdcp_entity_set_security e p) (\<lambda>e1. reconfigure e1 ps)"

lemma reconfigure_inv: "reconfigure e ps = Inr e' \<Longrightarrow> sec_inv e \<Longrightarrow> sec_inv e'"
  by (induction ps arbitrary: e) (auto simp: c_bind_eq_Inr_conv dest: set_security_inv)

lemma new_entity_inv:
  assumes "new_nr_pdcp_entity ty gnb rb ps srx stx n tr dt p = Inr e"
  shows "sec_inv e" and "rx_inv e" and "n = 12 \<or> n = 18 \<Longrightarrow> pdcp_config e"
proof -
  note a = assms [unfolded new_nr_pdcp_entity_def]
  show "sec_inv e"
    by (rule set_security_inv [OF a]) (simp add: sec_inv_def cipher_inv_def integrity_inv_def)
  show "rx_inv e" by (simp add: rx_inv_def set_security_frame [OF a])
  show "pdcp_config e" if "n = 12 \<or> n = 18"
    using that by (auto simp: pdcp_config_def set_security_frame [OF a])
qed

text \<open>C24: security contexts stay consistent. From construction on, through any sequence of accepted
  reconfigurations (each with new, absent or kept algorithms), an entity that ciphers or checks
  integrity has its function pointers set, never a freed context, and uses the very key it stores;
  no context is freed twice.\<close>

theorem pdcp_security_consistent:
  assumes "new_nr_pdcp_entity ty gnb rb ps srx stx n tr dt p = Inr e" and "reconfigure e params = Inr e'"
  shows "sec_inv e'"
  using reconfigure_inv [OF assms(2)] new_entity_inv(1) [OF assms(1)] by blast

definition nia2_nea2 :: nr_pdcp_entity_security_keys_and_algos where
  "nia2_nea2 = \<lparr>integrity_algorithm = 2, ciphering_algorithm = 2,
                integrity_key = replicate 16 1, ciphering_key = replicate 16 2\<rparr>"

definition nia1_keep :: nr_pdcp_entity_security_keys_and_algos where
  "nia1_keep = \<lparr>integrity_algorithm = 1, ciphering_algorithm = -1,
                integrity_key = replicate 16 3, ciphering_key = replicate 16 4\<rparr>"

definition rekeyed :: nr_pdcp_entity where
  "rekeyed = projr (reconfigure drb12 [nia2_nea2, nia1_keep])"

theorem pdcp_security_consistent_witness:
  "sec_inv rekeyed \<and> has_ciphering rekeyed \<and> integrity rekeyed = Some Nia1 \<and>
   ciphering_key (security_keys_and_algos rekeyed) = replicate 16 2"
proof -
  have 1: "new_nr_pdcp_entity NR_PDCP_DRB_UM True 1 1 False False 12 100 (-1) no_security = Inr drb12"
    by code_simp
  have 2: "reconfigure drb12 [nia2_nea2, nia1_keep] = Inr rekeyed" by code_simp
  have 3: "has_ciphering rekeyed \<and> integrity rekeyed = Some Nia1 \<and>
     ciphering_key (security_keys_and_algos rekeyed) = replicate 16 2" by code_simp
  show ?thesis using pdcp_security_consistent [OF 1 2] 3 by blast
qed

subsection \<open>Which calls can fault\<close>

lemma call_cipher_ok:
  assumes "crypto_ok cr" and "cipher_inv e" and "has_ciphering e" and "f = cipher e" and "0 < length buffer"
    and "0 \<le> bearer" and "bearer < 32 \<or> cipher e \<noteq> Some Nea2" and "d = 0 \<or> d = 1"
  shows "\<exists>p. call_cipher cr e f buffer bearer count d = Inr p \<and> length p = length buffer"
  using assms
  by (auto simp: cipher_inv_def call_cipher_def nr_pdcp_security_nea1_cipher_def stream_compute_encrypt_def
      nas_stream_encrypt_eea1_def stream_ctx_def nr_pdcp_security_nea2_cipher_def aes_128_ctr_def
      aes_ctr_facts Let_def split: cipher_fn.splits)

lemma call_integrity_ok:
  assumes "integrity_inv e" and "has_integrity e" and "0 < bearer" and "bearer < 33" and "buffer \<noteq> []"
  shows "\<exists>m. call_integrity cr e buffer bearer count d = Inr m"
  using assms
  by (auto simp: integrity_inv_def call_integrity_def nr_pdcp_integrity_nia1_integrity_def
      stream_compute_integrity_def nas_stream_encrypt_eia1_def stream_ctx_def snow3g_integrity_def
      integrity_spec nr_pdcp_integrity_nia2_integrity_def Let_def split: integrity_fn.splits)

lemma dir_values: "rx_dir e = 0 \<or> rx_dir e = 1" "tx_dir e = 0 \<or> tx_dir e = 1"
  by (simp_all add: rx_dir_def tx_dir_def)

text \<open>The assertion of NEA2 on the identity of the bearer, which stops the process for DRB 32.\<close>

definition nea2_refuses :: "nr_pdcp_entity \<Rightarrow> bool" where
  "nea2_refuses e \<longleftrightarrow> has_ciphering e \<and> cipher e = Some Nea2 \<and> rb_id e = 32"

lemma call_cipher_32:
  assumes "cipher_inv e" and "nea2_refuses e" and "0 < length buffer"
  shows "call_cipher cr e (cipher e) buffer (rb_id e) count d = Inl AssertFail"
  using assms
  by (auto simp: cipher_inv_def nea2_refuses_def call_cipher_def nr_pdcp_security_nea2_cipher_def)

lemma rx_data_pdu_outcome:
  fixes e :: nr_pdcp_entity and buffer :: "byte list" and hs :: nat
  assumes "crypto_ok cr" and "sec_inv e" and "1 \<le> rb_id e" and "rb_id e \<le> 32" and "0 < hs"
  defines "big \<equiv> hs + (if has_sdap_rx e then 1 else 0) + integrity_size e + 1 \<le> length buffer"
  shows "if nea2_refuses e \<and> big then rx_data_pdu cr e buffer sn hs = Inl AssertFail
         else \<exists>r. rx_data_pdu cr e buffer sn hs = Inr r"
proof (cases big)
  case False
  then show ?thesis by (simp add: rx_data_pdu_def Let_def big_def)
next
  case True
  let ?off = "hs + (if has_sdap_rx e then 1 else 0)" and ?c = "pdcp_rcvd_count e sn"
  have off: "?off < length buffer" using True by (simp add: big_def)
  have dec: "rx_decipher cr e buffer ?off ?c =
      (if has_ciphering e then c_bind (call_cipher cr e (cipher e) (drop ?off buffer) (rb_id e) ?c (rx_dir e)) (\<lambda>p. Inr (take ?off buffer @ p))
       else Inr buffer)"
    using assms(2) off by (auto simp: rx_decipher_def sec_inv_def cipher_inv_def)
  show ?thesis
  proof (cases "nea2_refuses e")
    case r: True
    then have "rx_decipher cr e buffer ?off ?c = Inl AssertFail"
      using call_cipher_32 [of e "drop ?off buffer"] assms(2) off unfolding dec by (simp add: nea2_refuses_def sec_inv_def)
    then show ?thesis using True r by (simp add: rx_data_pdu_def Let_def big_def)
  next
    case r: False
    have "\<exists>clear. rx_decipher cr e buffer ?off ?c = Inr clear \<and> length clear = length buffer"
      using call_cipher_ok [of cr e "cipher e" "drop ?off buffer" "rb_id e" "rx_dir e" ?c] dir_values(1) [of e] assms off r
      unfolding dec by (auto simp: sec_inv_def nea2_refuses_def)
    then obtain clear where c: "rx_decipher cr e buffer ?off ?c = Inr clear" "length clear = length buffer" by blast
    have "take (length clear - integrity_size e) clear \<noteq> []" using True assms(5) c(2) by (auto simp: big_def)
    then obtain ok where ok: "rx_integrity_ok cr e clear ?c = Inr ok"
      using call_integrity_ok [of e "rb_id e" "take (length clear - integrity_size e) clear" cr ?c "rx_dir e"] assms
      by (cases "has_integrity e") (auto simp: rx_integrity_ok_def sec_inv_def Let_def)
    from True r c ok show ?thesis by (simp add: rx_data_pdu_def Let_def big_def)
  qed
qed

lemma sec_inv_stats [simp]: "sec_inv (e\<lparr>stats := st\<rparr>) = sec_inv e"
  by (simp add: sec_inv_def cipher_inv_def integrity_inv_def)

definition sn_header_size :: "nr_pdcp_entity \<Rightarrow> nat" where
  "sn_header_size e = (if sn_size e = SHORT_SN_SIZE then SHORT_PDCP_HEADER_SIZE else LONG_PDCP_HEADER_SIZE)"

lemma rcvd_sn_outcome:
  "if sn_header_size e \<le> length buffer then \<exists>sn. pdcp_rcvd_sn e buffer = Inr (sn, sn_header_size e)
   else buffer \<noteq> [] \<longrightarrow> pdcp_rcvd_sn e buffer = Inl OutOfBounds"
  by (auto simp: pdcp_rcvd_sn_def sn_header_size_def rd_def not_le)

text \<open>C25: what \<^verbatim>\<open>nr_pdcp_entity_recv_pdu\<close> does with any bytes, for any bearer from 1 to 32 with consistent security
  contexts. It returns, with two exceptions: a PDU that is shorter than the header is read past its end, because the sequence
  number is read before the size is checked; and with NEA2 every PDU of DRB 32 that is long enough to be deciphered stops
  the process at the assertion that the bearer is below 32. A suspended entity ignores its PDUs.\<close>

theorem pdcp_recv_outcome:
  assumes "crypto_ok cr" and "sec_inv e" and "1 \<le> rb_id e" and "rb_id e \<le> 32"
  shows "if entity_suspended e \<or> buffer = [] then nr_pdcp_entity_recv_pdu cr e buffer = Inr (e, [])
     else if length buffer < sn_header_size e then nr_pdcp_entity_recv_pdu cr e buffer = Inl OutOfBounds
     else if nea2_refuses e \<and> sn_header_size e + (if has_sdap_rx e then 1 else 0) + integrity_size e + 1 \<le> length buffer
     then nr_pdcp_entity_recv_pdu cr e buffer = Inl AssertFail
     else \<exists>e' ds. nr_pdcp_entity_recv_pdu cr e buffer = Inr (e', ds)"
proof (cases "entity_suspended e \<or> buffer = []")
  case True
  then show ?thesis by (auto simp: nr_pdcp_entity_recv_pdu_def)
next
  case False
  define b where "b = (if entity_type e \<noteq> NR_PDCP_SRB \<and> buffer ! 0 AND 0x80 = 0 then buffer[0 := buffer ! 0 OR 128] else buffer)"
  define e1 where "e1 = e\<lparr>stats := (stats e)\<lparr>rxpdu_pkts := rxpdu_pkts (stats e) + 1,
                                   rxpdu_bytes := rxpdu_bytes (stats e) + of_int (int (length buffer))\<rparr>\<rparr>"
  have run: "nr_pdcp_entity_recv_pdu cr e buffer = c_bind (pdcp_rcvd_sn e1 b) (\<lambda>(sn, hs).
      rx_data_pdu cr (e1\<lparr>stats := (stats e1)\<lparr>rxpdu_sn := of_int sn\<rparr>\<rparr>) b sn hs)"
    using False by (cases buffer) (simp_all add: nr_pdcp_entity_recv_pdu_def b_def e1_def Let_def)
  have len: "length b = length buffer" "sn_header_size e1 = sn_header_size e" "b \<noteq> []"
    using False by (auto simp: b_def e1_def sn_header_size_def)
  have pos: "0 < sn_header_size e" by (simp add: sn_header_size_def)
  show ?thesis
  proof (cases "length buffer < sn_header_size e")
    case short: True
    then show ?thesis using rcvd_sn_outcome [of e1 b] False run len by (auto split: if_splits)
  next
    case long: False
    then obtain sn where sn: "pdcp_rcvd_sn e1 b = Inr (sn, sn_header_size e)"
      using rcvd_sn_outcome [of e1 b] len by (auto split: if_splits)
    let ?e2 = "e1\<lparr>stats := (stats e1)\<lparr>rxpdu_sn := of_int sn\<rparr>\<rparr>"
    have e2: "sec_inv ?e2" "rb_id ?e2 = rb_id e" "has_sdap_rx ?e2 = has_sdap_rx e" "integrity_size ?e2 = integrity_size e"
      "nea2_refuses ?e2 = nea2_refuses e"
      using assms(2) by (simp_all add: e1_def integrity_size_def nea2_refuses_def)
    have go: "nr_pdcp_entity_recv_pdu cr e buffer = rx_data_pdu cr ?e2 b sn (sn_header_size e)" by (simp add: run sn)
    have "1 \<le> rb_id ?e2" "rb_id ?e2 \<le> 32" using assms(3,4) e2(2) by simp_all
    note o = rx_data_pdu_outcome [OF assms(1) e2(1) this pos, of b sn, unfolded e2(3-5) len(1)]
    show ?thesis using False long o unfolding go by (auto split: if_splits)
  qed
qed

text \<open>A DRB 32 with NEA2, and a DRB 1.\<close>

definition drb32 :: nr_pdcp_entity where
  "drb32 = projr (new_nr_pdcp_entity NR_PDCP_DRB_UM True 32 1 False False 12 100 (-1) nia2_nea2)"

theorem pdcp_recv_outcome_witness:
  "(\<exists>e' ds. nr_pdcp_entity_recv_pdu pad_crypto drb12 [0x80, 0, 1] = Inr (e', ds)) \<and>
   nr_pdcp_entity_recv_pdu pad_crypto drb12 [0x80] = Inl OutOfBounds \<and>
   nr_pdcp_entity_recv_pdu pad_crypto drb32 [0x80, 0, 1, 2, 3, 4, 5] = Inl AssertFail"
proof -
  have 1: "new_nr_pdcp_entity NR_PDCP_DRB_UM True 1 1 False False 12 100 (-1) no_security = Inr drb12"
    "new_nr_pdcp_entity NR_PDCP_DRB_UM True 32 1 False False 12 100 (-1) nia2_nea2 = Inr drb32" by code_simp+
  have 2: "rb_id drb12 = 1" "rb_id drb32 = 32" "\<not> entity_suspended drb12" "\<not> entity_suspended drb32"
    "sn_header_size drb12 = 2" "sn_header_size drb32 = 2" "\<not> nea2_refuses drb12" "nea2_refuses drb32"
    "integrity_size drb32 = 4" "\<not> has_sdap_rx drb32" by code_simp+
  note s = new_entity_inv(1) [OF 1(1)] new_entity_inv(1) [OF 1(2)]
  show ?thesis
    using pdcp_recv_outcome [OF pad_crypto_ok s(1), of "[0x80, 0, 1]"] pdcp_recv_outcome [OF pad_crypto_ok s(1), of "[0x80]"]
      pdcp_recv_outcome [OF pad_crypto_ok s(2), of "[0x80, 0, 1, 2, 3, 4, 5]"] by (simp add: 2)
qed

subsection \<open>Suspension and re-establishment\<close>













lemma sec_inv_drb12: "sec_inv drb12"
  by (rule new_entity_inv(1) [of NR_PDCP_DRB_UM True 1 1 False False 12 100 "-1" no_security], code_simp)




end
