(* ===== verification/Pdcp_Link.thy ===== *)
theory Pdcp_Link
  imports Pdcp_Control Pdcp_Count
begin

text \<open>
  Two PDCP entities with the same configuration at the two ends of a bearer: what one sends, the
  other recovers. The header, the COUNT, the ciphering and the MAC-I of \<^verbatim>\<open>process_sdu\<close> are undone by
  \<^verbatim>\<open>recv_pdu\<close>, and PDUs that arrive in any order, some of them more than once, within the
  receive window come out as the SDUs that were sent, in the order they were sent.
\<close>

subsection \<open>Sent and received header\<close>

lemma tx_header_length: "pdcp_config e \<Longrightarrow> length (pdcp_tx_header e sn) = (if sn_size e = 12 then 2 else 3)"
  by (simp add: pdcp_tx_header_def Let_def)

lemma dc_bit_push: "(if b then 0x80 else 0) = (push_bit 7 (of_bool b) :: int)"
  by simp

lemma dc_bit_set:
  fixes x :: int
  shows "(word_of_int (128 OR x) :: byte) AND 128 \<noteq> 0"
proof -
  have "bit ((word_of_int (128 OR x) :: byte) AND 128) 7" by (simp add: bit_simps)
  then show ?thesis by (metis bit_0_eq bot_apply bot_bool_def)
qed

lemma header_roundtrip:
  assumes "pdcp_config e" and "0 \<le> sn" and "sn < 2 ^ sn_size e" and "sn_size r = sn_size e"
  shows "pdcp_rcvd_sn r (pdcp_tx_header e sn @ rest) = Inr (sn, length (pdcp_tx_header e sn))"
  using assms(1)
proof (cases rule: pdcp_config_cases)
  case 1
  with assms show ?thesis
    using short_header_bits [of sn _ "entity_type e = NR_PDCP_DRB_AM \<or> entity_type e = NR_PDCP_DRB_UM"]
    by (simp add: pdcp_rcvd_sn_def pdcp_tx_header_def Let_def dc_bit_push)
next
  case 2
  with assms show ?thesis
    using long_header_bits [of sn _ "entity_type e = NR_PDCP_DRB_AM \<or> entity_type e = NR_PDCP_DRB_UM"]
    by (simp add: pdcp_rcvd_sn_def pdcp_tx_header_def Let_def dc_bit_push)
qed

subsection \<open>Peers\<close>

text \<open>The two ends of a bearer: the same configuration and keys, opposite sides of the link.\<close>

definition peers :: "nr_pdcp_entity \<Rightarrow> nr_pdcp_entity \<Rightarrow> bool" where
  "peers t r \<longleftrightarrow>
     pdcp_config t \<and> pdcp_config r \<and> sec_inv t \<and> sec_inv r \<and>
     entity_type t = entity_type r \<and> rb_id t = rb_id r \<and> 1 \<le> rb_id t \<and> rb_id t < 32 \<and>
     sn_size t = sn_size r \<and> has_sdap_tx t = has_sdap_rx r \<and> is_gnb t \<noteq> is_gnb r \<and>
     has_ciphering t = has_ciphering r \<and> has_integrity t = has_integrity r \<and>
     (has_ciphering t \<longrightarrow> cipher t = cipher r) \<and> (has_integrity t \<longrightarrow> integrity t = integrity r) \<and>
     ciphering_key (security_keys_and_algos t) = ciphering_key (security_keys_and_algos r) \<and>
     integrity_key (security_keys_and_algos t) = integrity_key (security_keys_and_algos r) \<and>
     \<not> entity_suspended t \<and> \<not> entity_suspended r"

lemma peers_cipher:
  assumes "peers t r" and "has_ciphering t"
  shows "call_cipher cr r (decipher r) b (rb_id r) c (rx_dir r) = call_cipher cr t (cipher t) b (rb_id t) c (tx_dir t)"
  using assms
  by (auto simp: peers_def sec_inv_def cipher_inv_def call_cipher_def rx_dir_def tx_dir_def)

lemma peers_integrity:
  assumes "peers t r" and "has_integrity t"
  shows "call_integrity cr r b (rb_id r) c (rx_dir r) = call_integrity cr t b (rb_id t) c (tx_dir t)"
  using assms
  by (auto simp: peers_def sec_inv_def integrity_inv_def call_integrity_def rx_dir_def tx_dir_def)

lemma nea1_eq: "nr_pdcp_security_nea1_cipher cr k m b c d =
    Inr (snow3g_ciphering c (uint (word_of_int (b - 1) :: byte)) (uint (word_of_int d :: byte)) k m)"
  by (simp add: nr_pdcp_security_nea1_cipher_def stream_compute_encrypt_def stream_ctx_def
      nas_stream_encrypt_eea1_def Let_def)

lemma nea2_twice:
  assumes "crypto_ok cr" and "nr_pdcp_security_nea2_cipher cr k m b c d = Inr p"
  shows "nr_pdcp_security_nea2_cipher cr k p b c d = Inr m \<and> length p = length m"
proof -
  have chk: "0 < length m" "bearer_ok" "dir_ok" "p = evp_aes_128_ctr cr k (iv16 c (b - 1) d) m"
    if "bearer_ok = (b > -1 \<and> b < 32)" "dir_ok = (d > -1 \<and> d < 2)" for bearer_ok dir_ok
    using assms(2) that
    by (auto simp: nr_pdcp_security_nea2_cipher_def aes_128_ctr_def Let_def c_bind_eq_Inr_conv c_check_def
        split: if_splits)
  note chk = chk [OF refl refl]
  then show ?thesis
    using aes_ctr_facts [OF assms(1)]
    by (simp add: nr_pdcp_security_nea2_cipher_def aes_128_ctr_def Let_def)
qed

lemma call_cipher_twice:
  assumes "crypto_ok cr" and "call_cipher cr e f m b c d = Inr p"
  shows "call_cipher cr e f p b c d = Inr m \<and> length p = length m"
proof -
  obtain fn ctx where f: "f = Some fn" "security_context e = Some ctx"
    using assms(2) by (auto simp: call_cipher_def split: option.splits)
  let ?k = "ctx_key ctx (ciphering_key (security_keys_and_algos e))"
  show ?thesis
  proof (cases fn)
    case Nea1
    with assms(2) f show ?thesis by (auto simp: call_cipher_def nea1_eq snow3g_twice)
  next
    case Nea2
    with assms(2) f have "nr_pdcp_security_nea2_cipher cr ?k m b c d = Inr p" by (simp add: call_cipher_def)
    from nea2_twice [OF assms(1) this] Nea2 f show ?thesis by (simp add: call_cipher_def)
  qed
qed

lemma uia2_length: "length (uia2 c f d k m) = 4"
  by (simp add: uia2_def Let_def)

lemma nia1_length: "nr_pdcp_integrity_nia1_integrity cr k m b c d = Inr mac \<Longrightarrow> length mac = 4"
proof (cases "m = []")
  case True
  then show "nr_pdcp_integrity_nia1_integrity cr k m b c d = Inr mac \<Longrightarrow> ?thesis"
    by (simp add: nr_pdcp_integrity_nia1_integrity_def stream_compute_integrity_def stream_ctx_def
        nas_stream_encrypt_eia1_def snow3g_integrity_def snow3g_integrity_fresh_def GET64_def Let_def)
next
  case False
  then show "nr_pdcp_integrity_nia1_integrity cr k m b c d = Inr mac \<Longrightarrow> ?thesis"
    by (auto simp: nr_pdcp_integrity_nia1_integrity_def stream_compute_integrity_def stream_ctx_def
        nas_stream_encrypt_eia1_def snow3g_integrity_def integrity_spec uia2_length Let_def)
qed

lemma nia2_length:
  "crypto_ok cr \<Longrightarrow> nr_pdcp_integrity_nia2_integrity cr k m b c d = Inr mac \<Longrightarrow> length mac = 4"
  by (auto simp: nr_pdcp_integrity_nia2_integrity_def cipher_aes_128_cbc_cmac_def cmac_length c_bind_eq_Inr_conv)

lemma call_integrity_length:
  assumes "crypto_ok cr" and "call_integrity cr e m b c d = Inr mac"
  shows "length mac = 4"
  using assms(2)
  by (auto simp: call_integrity_def Let_def split: option.splits integrity_fn.splits
      dest: nia1_length nia2_length [OF assms(1)])

subsection \<open>One PDU\<close>

lemma calls_frame [stat_frame]:
  "call_cipher cr (e\<lparr>stats := st\<rparr>) = call_cipher cr e"
  "call_integrity cr (e\<lparr>stats := st\<rparr>) = call_integrity cr e"
  by (simp_all add: fun_eq_iff call_cipher_def call_integrity_def split: option.split)

lemma stats_frame [stat_frame]:
  "pdcp_tx_header (e\<lparr>stats := st\<rparr>) = pdcp_tx_header e"
  "tx_mac cr (e\<lparr>stats := st\<rparr>) = tx_mac cr e" "tx_cipher cr (e\<lparr>stats := st\<rparr>) = tx_cipher cr e"
  "integrity_size (e\<lparr>stats := st\<rparr>) = integrity_size e"
  "pdcp_rcvd_sn (e\<lparr>stats := st\<rparr>) = pdcp_rcvd_sn e" "pdcp_rcvd_count (e\<lparr>stats := st\<rparr>) = pdcp_rcvd_count e"
  "rx_decipher cr (e\<lparr>stats := st\<rparr>) = rx_decipher cr e"
  "rx_integrity_ok cr (e\<lparr>stats := st\<rparr>) = rx_integrity_ok cr e"
  "pdcp_msg_integrity (e\<lparr>stats := st\<rparr>) = pdcp_msg_integrity e"
  by (simp_all add: fun_eq_iff pdcp_tx_header_def tx_mac_def tx_cipher_def integrity_size_def pdcp_rcvd_sn_def
      pdcp_rcvd_count_def rx_decipher_def rx_integrity_ok_def pdcp_msg_integrity_def calls_frame
      rx_dir_def tx_dir_def Let_def)

definition tx_offset :: "nr_pdcp_entity \<Rightarrow> byte list \<Rightarrow> nat" where
  "tx_offset t hdr = length hdr + (if has_sdap_tx t then 1 else 0)"

lemma process_sdu_sent:
  assumes "nr_pdcp_entity_process_sdu cr t buf i m = Inr (t', Some pdu)"
  obtains mac st where
    "tx_mac cr t (pdcp_tx_header t (sn_of t (tx_next t)) @ buf) (tx_next t) = Inr mac"
    "tx_cipher cr t (pdcp_tx_header t (sn_of t (tx_next t)) @ buf @ mac)
       (tx_offset t (pdcp_tx_header t (sn_of t (tx_next t)))) (tx_next t) = Inr pdu"
    "t' = t\<lparr>tx_next := tx_next t + 1, stats := st\<rparr>"
  using assms
  by (auto simp: nr_pdcp_entity_process_sdu_def Let_def c_bind_eq_Inr_conv stat_frame sn_of_def tx_offset_def
      split: if_splits)

lemma peers_integrity_size: "peers t r \<Longrightarrow> integrity_size r = integrity_size t"
  by (simp add: peers_def integrity_size_def)

lemma tx_mac_length:
  assumes "crypto_ok cr" and "tx_mac cr t m c = Inr mac"
  shows "length mac = integrity_size t"
proof (cases "has_integrity t")
  case True
  with assms(2) have "call_integrity cr t m (rb_id t) c (tx_dir t) = Inr mac" by (simp add: tx_mac_def)
  from call_integrity_length [OF assms(1) this] True show ?thesis by (simp add: integrity_size_def)
next
  case False
  with assms(2) show ?thesis
    by (cases "entity_type t = NR_PDCP_SRB") (auto simp: tx_mac_def integrity_size_def)
qed

lemma decipher_sent:
  assumes "crypto_ok cr" and "peers t r" and "tx_cipher cr t clear off c = Inr pdu" and "off \<le> length clear"
  shows "rx_decipher cr r pdu off c = Inr clear" and "length pdu = length clear" and "take off pdu = take off clear"
proof -
  have "rx_decipher cr r pdu off c = Inr clear \<and> length pdu = length clear \<and> take off pdu = take off clear"
  proof (cases "has_ciphering t")
    case True
    with assms(3,4) obtain p where p: "call_cipher cr t (cipher t) (drop off clear) (rb_id t) c (tx_dir t) = Inr p"
      "pdu = take off clear @ p"
      by (auto simp: tx_cipher_def c_bind_eq_Inr_conv)
    from call_cipher_twice [OF assms(1) p(1)] peers_cipher [OF assms(2) True] p(2) True assms(2,4)
    show ?thesis by (simp add: rx_decipher_def peers_def)
  next
    case False
    with assms(2,3) show ?thesis by (simp add: tx_cipher_def rx_decipher_def peers_def)
  qed
  then show "rx_decipher cr r pdu off c = Inr clear" and "length pdu = length clear" and "take off pdu = take off clear"
    by simp_all
qed

lemma integrity_sent:
  assumes "crypto_ok cr" and "peers t r" and "tx_mac cr t m c = Inr mac"
  shows "rx_integrity_ok cr r (m @ mac) c = Inr True"
  using assms tx_mac_length [OF assms(1,3)] peers_integrity [OF assms(2)] peers_integrity_size [OF assms(2)]
  by (auto simp: rx_integrity_ok_def tx_mac_def Let_def peers_def)

lemma dc_bit_kept:
  assumes "pdcp_config t" and "entity_type t \<noteq> NR_PDCP_SRB"
  shows "(pdcp_tx_header t sn @ rest) ! 0 AND 0x80 \<noteq> 0"
  using assms(2) dc_bit_set
  by (cases "entity_type t") (auto simp: pdcp_tx_header_def Let_def simp del: of_int_or_eq)

text \<open>What a receiver does with a data PDU whose COUNT, clear text and MAC-I are as sent.\<close>

lemma rx_data_sent:
  assumes "crypto_ok cr" and "peers t r" and "tx_mac cr t (hdr @ buf) c = Inr mac"
    and "tx_cipher cr t (hdr @ buf @ mac) (tx_offset t hdr) c = Inr pdu"
    and "(if has_sdap_tx t then 1 else 0) < length buf" and "pdcp_rcvd_count r sn = c"
  shows "\<exists>st mi n. rx_data_pdu cr r pdu sn (length hdr) =
     Inr (if c < rx_deliv r \<or> nr_pdcp_sdu_in_list (rx_list r) c then (r\<lparr>stats := st\<rparr>, [])
          else rx_accept r (nr_pdcp_new_sdu c buf mi) n)"
proof -
  have sdap: "has_sdap_tx t = has_sdap_rx r" using assms(2) by (simp add: peers_def)
  have mac: "length mac = integrity_size r"
    using tx_mac_length [OF assms(1,3)] peers_integrity_size [OF assms(2)] by simp
  have "tx_offset t hdr \<le> length (hdr @ buf @ mac)" using assms(5) by (auto simp: tx_offset_def)
  note d = decipher_sent [OF assms(1,2,4) this]
  have i: "rx_integrity_ok cr r (hdr @ buf @ mac) c = Inr True"
    using integrity_sent [OF assms(1,2,3)] by simp
  have big: "\<not> int (length pdu) < int (length hdr + (if has_sdap_rx r then 1 else 0) + integrity_size r + 1)"
    using d(2) mac assms(5) by (auto simp: sdap split: if_splits)
  have "rx_decipher cr r pdu (length hdr + (if has_sdap_rx r then 1 else 0)) c = Inr (hdr @ buf @ mac)"
    using d(1) by (simp add: tx_offset_def sdap)
  then have "rx_data_pdu cr r pdu sn (length hdr) =
     Inr (if c < rx_deliv r \<or> nr_pdcp_sdu_in_list (rx_list r) c then (rx_discard r (int (length pdu)), [])
          else rx_accept r (nr_pdcp_new_sdu c buf (pdcp_msg_integrity r c pdu (length hdr)))
                 (int (length pdu) - int (length hdr)))"
    unfolding rx_data_pdu_def Let_def assms(6) using big i mac by simp
  then show ?thesis unfolding rx_discard_def by auto
qed

definition in_window :: "nr_pdcp_entity \<Rightarrow> u32 \<Rightarrow> bool" where
  "in_window r c \<longleftrightarrow> unat (rx_deliv r) \<le> unat c + nat (window_size r) \<and>
                   unat c < unat (rx_deliv r) + nat (window_size r)"

lemma peers_stats: "peers t (r\<lparr>stats := st\<rparr>) = peers t r"
  by (simp add: peers_def pdcp_config_def)

lemma sent_prefix:
  assumes "take off pdu = take off (hdr @ rest)" and "length hdr \<le> off"
  shows "\<exists>tl. pdu = hdr @ tl"
proof -
  have "pdu = take off (hdr @ rest) @ drop off pdu" by (metis append_take_drop_id assms(1))
  then show ?thesis using assms(2) by (metis append.assoc take_all_iff take_append)
qed

lemma recv_sent:
  assumes "crypto_ok cr" and "peers t r" and "nr_pdcp_entity_process_sdu cr t buf i m = Inr (t', Some pdu)"
    and "(if has_sdap_tx t then 1 else 0) < length buf" and "in_window r (tx_next t)"
  shows "\<exists>st st' mi n. nr_pdcp_entity_recv_pdu cr r pdu =
     Inr (if tx_next t < rx_deliv r \<or> nr_pdcp_sdu_in_list (rx_list r) (tx_next t) then (r\<lparr>stats := st\<rparr>, [])
          else rx_accept (r\<lparr>stats := st'\<rparr>) (nr_pdcp_new_sdu (tx_next t) buf mi) n)"
proof -
  let ?c = "tx_next t" and ?sn = "sn_of t (tx_next t)"
  let ?hdr = "pdcp_tx_header t ?sn"
  have cfg: "pdcp_config t" "pdcp_config r" "sn_size r = sn_size t" "entity_type r = entity_type t"
    "\<not> entity_suspended r" using assms(2) by (simp_all add: peers_def)
  obtain mac where mac: "tx_mac cr t (?hdr @ buf) ?c = Inr mac"
    and enc: "tx_cipher cr t (?hdr @ buf @ mac) (tx_offset t ?hdr) ?c = Inr pdu"
    using assms(3) by (rule process_sdu_sent)
  have off: "tx_offset t ?hdr \<le> length (?hdr @ buf @ mac)" using assms(4) by (auto simp: tx_offset_def)
  obtain rest where pdu: "pdu = ?hdr @ rest"
    using sent_prefix [OF decipher_sent(3) [OF assms(1,2) enc off]] by (auto simp: tx_offset_def)
  have sn: "pdcp_rcvd_sn r pdu = Inr (?sn, length ?hdr)"
    unfolding pdu by (rule header_roundtrip [OF cfg(1) sn_of_bounds [OF cfg(1)] cfg(3)])
  have "sn_of r ?c = ?sn" using sn_of_eq [OF cfg(1)] sn_of_eq [OF cfg(2)] cfg(3) by simp
  then have count: "pdcp_rcvd_count r ?sn = ?c"
    using rcvd_count_correct [OF cfg(2), of ?c] assms(5) by (simp add: in_window_def)
  have "pdu \<noteq> []" using tx_header_length [OF cfg(1), of ?sn] by (auto simp: pdu split: if_splits)
  moreover have "\<not> (entity_type r \<noteq> NR_PDCP_SRB \<and> pdu ! 0 AND 0x80 = 0)"
    using dc_bit_kept [OF cfg(1)] cfg(4) by (auto simp: pdu)
  ultimately obtain st where
    r: "nr_pdcp_entity_recv_pdu cr r pdu = rx_data_pdu cr (r\<lparr>stats := st\<rparr>) pdu ?sn (length ?hdr)"
    using cfg(5) sn by (simp add: nr_pdcp_entity_recv_pdu_def Let_def stat_frame)
  have p: "peers t (r\<lparr>stats := st\<rparr>)" using assms(2) by (simp add: peers_stats)
  have c: "pdcp_rcvd_count (r\<lparr>stats := st\<rparr>) ?sn = ?c" using count by (simp add: stat_frame)
  obtain st2 mi n where eq: "rx_data_pdu cr (r\<lparr>stats := st\<rparr>) pdu ?sn (length ?hdr) =
     Inr (if ?c < rx_deliv (r\<lparr>stats := st\<rparr>) \<or> nr_pdcp_sdu_in_list (rx_list (r\<lparr>stats := st\<rparr>)) ?c
          then (r\<lparr>stats := st, stats := st2\<rparr>, [])
          else rx_accept (r\<lparr>stats := st\<rparr>) (nr_pdcp_new_sdu ?c buf mi) n)"
    using rx_data_sent [OF assms(1) p mac enc assms(4) c] by blast
  show ?thesis
    by (rule exI [of _ st2], rule exI [of _ st], rule exI [of _ mi], rule exI [of _ n]) (simp add: r eq)
qed

text \<open>What accepting an SDU does to the buffer: with the next number expected, the SDU and the run that follows go up.\<close>

lemma accept_sent:
  assumes "rx_accept r s n = (r', ds)"
  shows "ds @ rx_list r' = nr_pdcp_sdu_list_add (rx_list r) s"
    and "ds = (if sdu_count s = rx_deliv r then run (rx_deliv r) (nr_pdcp_sdu_list_add (rx_list r) s) else [])"
    and "rx_deliv r' = rx_deliv r + of_nat (length ds)"
  using rx_accept_conserve [OF assms] assms
  by (auto simp: rx_accept_def rx_deliver_def deliver_contiguous_eq rx_timer_facts rx_store_facts Let_def
      split: if_splits)

lemma run_added:
  assumes "rx_sound r" and "sdu_count s = rx_deliv r"
  shows "run (rx_deliv r) (nr_pdcp_sdu_list_add (rx_list r) s) = s # run (rx_deliv r + 1) (rx_list r)"
proof -
  have "\<forall>x \<in> set (rx_list r). rx_deliv r < sdu_count x" using assms(1) by (simp add: rx_sound_def)
  then have "nr_pdcp_sdu_list_add (rx_list r) s = s # rx_list r"
    using assms(2) by (cases "rx_list r") (auto simp: nr_pdcp_sdu_list_add_eq)
  with assms(2) show ?thesis by simp
qed

text \<open>C3: one PDU end to end: an SDU (of at least one byte behind its SDAP header, if it has one) that one entity sends comes out at its peer, wherever the receiver's window
  stands. When the COUNT of the SDU is less than the window away from \<open>rx_deliv\<close>, below or above, also across a
  change of the HFN, the PDU that \<^verbatim>\<open>process_sdu\<close> makes is accepted by \<^verbatim>\<open>recv_pdu\<close> of the peer (the header and the COUNT
  are recovered, the ciphering undone, the MAC-I matches, with NEA0/1/2 and NIA0/1/2 alike): a COUNT that is
  delivered or stored already changes nothing; one above \<open>rx_deliv\<close> is stored with its bytes; and the one expected is
  handed up at once, byte for byte, followed by the stored SDUs with the numbers that follow.\<close>

theorem pdcp_sdu_roundtrip:
  assumes "crypto_ok cr" and "peers t r" and "nr_pdcp_entity_process_sdu cr t buf i m = Inr (t', Some pdu)"
    and "(if has_sdap_tx t then 1 else 0) < length buf" and "in_window r (tx_next t)" and "rx_sound r"
  shows "\<exists>r' ds. nr_pdcp_entity_recv_pdu cr r pdu = Inr (r', ds) \<and>
    (if tx_next t < rx_deliv r \<or> nr_pdcp_sdu_in_list (rx_list r) (tx_next t)
     then ds = [] \<and> rx_list r' = rx_list r \<and> rx_deliv r' = rx_deliv r
     else \<exists>s. sdu_buffer s = buf \<and> sdu_count s = tx_next t \<and>
       ds = (if tx_next t = rx_deliv r then s # run (rx_deliv r + 1) (rx_list r) else []) \<and>
       ds @ rx_list r' = nr_pdcp_sdu_list_add (rx_list r) s \<and> rx_deliv r' = rx_deliv r + of_nat (length ds))"
proof -
  from recv_sent [OF assms(1-5)] obtain st st' mi n where
    r: "nr_pdcp_entity_recv_pdu cr r pdu = Inr (if tx_next t < rx_deliv r \<or> nr_pdcp_sdu_in_list (rx_list r) (tx_next t)
          then (r\<lparr>stats := st\<rparr>, []) else rx_accept (r\<lparr>stats := st'\<rparr>) (nr_pdcp_new_sdu (tx_next t) buf mi) n)" by blast
  let ?s = "nr_pdcp_new_sdu (tx_next t) buf mi"
  obtain r' ds where a: "rx_accept (r\<lparr>stats := st'\<rparr>) ?s n = (r', ds)" by fastforce
  note f = accept_sent [OF a]
  have s: "sdu_buffer ?s = buf" "sdu_count ?s = tx_next t" by simp_all
  show ?thesis
  proof (cases "tx_next t < rx_deliv r \<or> nr_pdcp_sdu_in_list (rx_list r) (tx_next t)")
    case False
    have "ds = (if tx_next t = rx_deliv r then ?s # run (rx_deliv r + 1) (rx_list r) else [])"
      using f(2) run_added [OF assms(6), of ?s] by simp
    then show ?thesis
      using r False a f(1,3) s by (intro exI [of _ r'] exI [of _ ds]) (auto intro!: exI [of _ ?s])
  qed (simp add: r)
qed

subsection \<open>A burst of PDUs\<close>

fun send_all :: "crypto \<Rightarrow> nr_pdcp_entity \<Rightarrow> byte list list \<Rightarrow> (nr_pdcp_entity \<times> byte list list) c_result" where
  "send_all cr t [] = Inr (t, [])"
| "send_all cr t (b # bs) =
     c_bind (nr_pdcp_entity_process_sdu cr t b 0 (nr_max_pdcp_pdu_size (int (length b)))) (\<lambda>(t1, p).
     c_bind (send_all cr t1 bs) (\<lambda>(t2, ps). Inr (t2, (case p of None \<Rightarrow> ps | Some x \<Rightarrow> x # ps))))"

definition sendable :: "nr_pdcp_entity \<Rightarrow> byte list \<Rightarrow> bool" where
  "sendable t b \<longleftrightarrow> (if has_sdap_tx t then 1 else 0) < length b"

lemma tx_mac_total:
  assumes "peers t r" and "msg \<noteq> []"
  shows "\<exists>mac. tx_mac cr t msg c = Inr mac"
  using assms call_integrity_ok [of t "rb_id t" msg cr c "tx_dir t"]
  by (auto simp: tx_mac_def peers_def sec_inv_def)

lemma tx_cipher_total:
  assumes "crypto_ok cr" and "peers t r" and "off < length buf"
  shows "\<exists>p. tx_cipher cr t buf off c = Inr p"
proof (cases "has_ciphering t")
  case True
  with assms obtain p where "call_cipher cr t (cipher t) (drop off buf) (rb_id t) c (tx_dir t) = Inr p"
    using call_cipher_ok [of cr t "cipher t" "drop off buf" "rb_id t" "tx_dir t" c] dir_values(2) [of t]
    by (auto simp: peers_def sec_inv_def)
  with True assms(3) show ?thesis by (simp add: tx_cipher_def)
qed (simp add: tx_cipher_def)

lemma process_sdu_total:
  assumes "crypto_ok cr" and "peers t r" and "sendable t b"
  shows "\<exists>t' pdu. nr_pdcp_entity_process_sdu cr t b i (nr_max_pdcp_pdu_size (int (length b))) = Inr (t', Some pdu)"
proof -
  let ?hdr = "pdcp_tx_header t (sn_of t (tx_next t))" and ?c = "tx_next t"
  have "?hdr @ b \<noteq> []" using assms(3) by (auto simp: sendable_def split: if_splits)
  then obtain mac where mac: "tx_mac cr t (?hdr @ b) ?c = Inr mac" using tx_mac_total [OF assms(2)] by blast
  have "length ?hdr + (if has_sdap_tx t then 1 else 0) < length (?hdr @ b @ mac)"
    using assms(3) by (auto simp: sendable_def)
  then obtain p where "tx_cipher cr t (?hdr @ b @ mac) (length ?hdr + (if has_sdap_tx t then 1 else 0)) ?c = Inr p"
    using tx_cipher_total [OF assms(1,2)] by blast
  with mac assms(2) show ?thesis
    by (simp add: nr_pdcp_entity_process_sdu_def Let_def stat_frame sn_of_def peers_def)
qed

lemma peers_tx [simp]: "peers (t\<lparr>tx_next := c, stats := st\<rparr>) r = peers t r"
  by (simp add: peers_def pdcp_config_def sec_inv_def cipher_inv_def integrity_inv_def)

text \<open>The PDU at position \<open>i\<close> of a burst is one \<^verbatim>\<open>process_sdu\<close> made with COUNT \<open>tx_next + i\<close>.\<close>

definition made_by :: "crypto \<Rightarrow> nr_pdcp_entity \<Rightarrow> nat \<Rightarrow> byte list \<Rightarrow> byte list \<Rightarrow> bool" where
  "made_by cr t i b pdu \<longleftrightarrow>
     (\<exists>st m t'. nr_pdcp_entity_process_sdu cr (t\<lparr>tx_next := tx_next t + of_nat i, stats := st\<rparr>) b 0 m
                = Inr (t', Some pdu))"

lemma made_by_shift:
  "made_by cr (t\<lparr>tx_next := tx_next t + 1, stats := st\<rparr>) i b pdu = made_by cr t (Suc i) b pdu"
  by (simp add: made_by_def ac_simps)

lemma send_all_sent:
  assumes "crypto_ok cr" and "peers t r" and "\<forall>b \<in> set bs. sendable t b"
  shows "\<exists>t' pdus. send_all cr t bs = Inr (t', pdus) \<and> length pdus = length bs \<and>
           (\<forall>i < length bs. made_by cr t i (bs ! i) (pdus ! i))"
  using assms(2,3)
proof (induction bs arbitrary: t)
  case (Cons b bs)
  obtain t1 pdu where p: "nr_pdcp_entity_process_sdu cr t b 0 (nr_max_pdcp_pdu_size (int (length b))) = Inr (t1, Some pdu)"
    using process_sdu_total [OF assms(1) Cons.prems(1)] Cons.prems(2) by fastforce
  then obtain st where t1: "t1 = t\<lparr>tx_next := tx_next t + 1, stats := st\<rparr>" by (rule process_sdu_sent)
  have "made_by cr t 0 b pdu" using p unfolding made_by_def by (intro exI [of _ "stats t"]) auto
  moreover obtain t2 pdus where "send_all cr t1 bs = Inr (t2, pdus)" "length pdus = length bs"
     "\<forall>i < length bs. made_by cr t1 i (bs ! i) (pdus ! i)"
    using Cons.IH [of t1] Cons.prems by (auto simp: t1 sendable_def)
  ultimately show ?case using p by (auto simp: t1 made_by_shift less_Suc_eq_0_disj)
qed simp

text \<open>The sizes of the PDUs of a burst.\<close>

lemma made_by_length:
  assumes "crypto_ok cr" and "peers t r" and "made_by cr t i b pdu" and "sendable t b"
  shows "b \<noteq> [] \<and> pdu \<noteq> [] \<and> length pdu \<le> length b + 7"
proof -
  obtain st m t' where s: "nr_pdcp_entity_process_sdu cr (t\<lparr>tx_next := tx_next t + of_nat i, stats := st\<rparr>) b 0 m = Inr (t', Some pdu)"
    using assms(3) by (auto simp: made_by_def)
  define u where "u = t\<lparr>tx_next := tx_next t + of_nat i, stats := st\<rparr>"
  have p: "peers u r" using assms(2) by (simp add: u_def)
  then have cfg: "pdcp_config u" by (simp add: peers_def)
  let ?hdr = "pdcp_tx_header u (sn_of u (tx_next u))"
  obtain mac where m: "tx_mac cr u (?hdr @ b) (tx_next u) = Inr mac"
    "tx_cipher cr u (?hdr @ b @ mac) (tx_offset u ?hdr) (tx_next u) = Inr pdu"
    using s unfolding u_def [symmetric] by (rule process_sdu_sent)
  have b: "(if has_sdap_tx u then 1 else 0) < length b" using assms(4) by (simp add: sendable_def u_def)
  then have off: "tx_offset u ?hdr \<le> length (?hdr @ b @ mac)" by (auto simp: tx_offset_def)
  have "length pdu = length ?hdr + length b + length mac" using decipher_sent(2) [OF assms(1) p m(2) off] by simp
  moreover have "length ?hdr = (if sn_size u = 12 then 2 else 3)" by (rule tx_header_length [OF cfg])
  moreover have "length mac \<le> 4" using tx_mac_length [OF assms(1) m(1)] by (simp add: integrity_size_def)
  ultimately show ?thesis using b by (auto split: if_splits)
qed

lemma send_all_bytes:
  assumes cr: "crypto_ok cr" and p: "peers t r" and b: "\<forall>b \<in> set bs. sendable t b" and s: "send_all cr t bs = Inr (t', pdus)"
  shows "length pdus = length bs" "\<forall>pdu \<in> set pdus. pdu \<noteq> [] \<and> (\<exists>b \<in> set bs. length pdu \<le> length b + 7)"
    "(\<Sum>s \<leftarrow> pdus. length s) \<le> (\<Sum>s \<leftarrow> bs. length s) + 7 * length bs"
proof -
  from send_all_sent [OF cr p b] s have made: "length pdus = length bs" "\<forall>i < length bs. made_by cr t i (bs ! i) (pdus ! i)" by auto
  then have l: "pdus ! i \<noteq> [] \<and> length (pdus ! i) \<le> length (bs ! i) + 7" if "i < length bs" for i
    using made_by_length [OF cr p, of i "bs ! i" "pdus ! i"] b that by simp
  show "length pdus = length bs" by (rule made(1))
  show "\<forall>pdu \<in> set pdus. pdu \<noteq> [] \<and> (\<exists>b \<in> set bs. length pdu \<le> length b + 7)"
    using l made(1) by (metis in_set_conv_nth)
  have "list_all2 (\<lambda>pdu b. length pdu \<le> length b + 7) pdus bs" using l made(1) by (simp add: list_all2_conv_all_nth)
  then show "(\<Sum>s \<leftarrow> pdus. length s) \<le> (\<Sum>s \<leftarrow> bs. length s) + 7 * length bs"
    by (induction pdus bs rule: list_all2_induct) auto
qed

lemma accept_contiguous:
  assumes "rx_accept r sdu n = (r', ds)"
  shows "rx_deliv r' = rx_deliv r + of_nat (length ds)"
    and "counts_of ds = map (\<lambda>k. rx_deliv r + of_nat k) [0..<length ds]"
  using assms run_counts
  by (auto simp: rx_accept_def rx_deliver_def deliver_contiguous_eq rx_timer_facts rx_store_facts Let_def
      split: if_splits)

lemma peers_accept:
  assumes "rx_accept r sdu n = (r', ds)"
  shows "peers t r' = peers t r"
proof -
  have "peers t (rx_timer e) = peers t e" for e
    by (simp add: rx_timer_def Let_def peers_def pdcp_config_def sec_inv_def cipher_inv_def integrity_inv_def)
  moreover have "peers t (rx_store r sdu n) = peers t r"
    by (simp add: rx_store_def Let_def peers_def pdcp_config_def sec_inv_def cipher_inv_def integrity_inv_def)
  moreover have "peers t ((delivered_state e l)\<lparr>rx_deliv := c\<rparr>) = peers t e" for e l c
    by (simp add: delivered_state_def peers_def pdcp_config_def sec_inv_def cipher_inv_def integrity_inv_def)
  ultimately show ?thesis
    using assms
    by (auto simp: rx_accept_def rx_deliver_def deliver_contiguous_eq Let_def split: if_splits)
qed

text \<open>
  The receiver against the burst: \<open>m\<close> SDUs are delivered, those held belong to the burst, and every
  position in \<open>R\<close>, the set of arrivals, is delivered or held.
\<close>

definition tracks :: "u32 \<Rightarrow> byte list list \<Rightarrow> nat set \<Rightarrow> nr_pdcp_entity \<Rightarrow> nat \<Rightarrow> bool" where
  "tracks c0 bs R r m \<longleftrightarrow>
     rx_inv r \<and> R \<subseteq> {..<length bs} \<and> m \<le> length bs \<and> rx_deliv r = c0 + of_nat m \<and>
     (\<forall>s \<in> set (rx_list r). \<exists>i < length bs. sdu_count s = c0 + of_nat i \<and> sdu_buffer s = bs ! i) \<and>
     (\<forall>i \<in> R. i < m \<or> c0 + of_nat i \<in> sdu_count ` set (rx_list r))"

definition small_burst :: "u32 \<Rightarrow> nat \<Rightarrow> bool" where
  "small_burst c0 n \<longleftrightarrow> unat c0 + n < 2 ^ 32 \<and> n \<le> 2 ^ 17"

lemma burst_count:
  assumes "small_burst c0 n" and "i \<le> n"
  shows "unat (c0 + of_nat i) = unat c0 + i"
proof -
  have "unat (of_nat i :: u32) = i" using assms by (simp add: small_burst_def unat_of_nat)
  then show ?thesis using assms by (subst unat_plus_simple [THEN iffD1])
    (simp_all add: word_le_nat_alt unat_word_ariths small_burst_def)
qed

lemma burst_inj:
  assumes "i < 2 ^ 32" and "j < 2 ^ 32" and "c0 + of_nat i = (c0 + of_nat j :: u32)"
  shows "i = j"
proof -
  have "unat (of_nat i :: u32) = unat (of_nat j :: u32)" using assms(3) by simp
  then show ?thesis using assms(1,2) by (simp add: unat_of_nat)
qed

lemma held_few:
  assumes "strict l" and "\<forall>s \<in> set l. \<exists>i < n. sdu_count s = c0 + of_nat i"
  shows "length l \<le> n"
proof -
  have "distinct (counts_of l)" using assms(1) by (simp add: strict_sorted_iff)
  then have "length l = card (sdu_count ` set l)" by (metis distinct_card length_map set_map)
  also have "\<dots> \<le> card ((\<lambda>i. c0 + of_nat i) ` {..<n})" using assms(2) by (intro card_mono) auto
  also have "\<dots> \<le> n" using card_image_le [of "{..<n}"] by auto
  finally show ?thesis .
qed

lemma tracks_delivered:
  assumes "small_burst c0 (length bs)" and "length ds \<le> length bs" and "m \<le> length bs"
    and "counts_of ds = map (\<lambda>k. c0 + of_nat m + of_nat k) [0..<length ds]"
    and "\<forall>s \<in> set ds. \<exists>j < length bs. sdu_count s = c0 + of_nat j \<and> sdu_buffer s = bs ! j"
    and "k < length ds"
  shows "m + k < length bs" and "sdu_buffer (ds ! k) = bs ! (m + k)"
proof -
  obtain j where j: "j < length bs" "sdu_count (ds ! k) = c0 + of_nat j" "sdu_buffer (ds ! k) = bs ! j"
    using assms(5,6) by (meson nth_mem)
  have "sdu_count (ds ! k) = c0 + of_nat (m + k)"
    using arg_cong [OF assms(4), of "\<lambda>l. l ! k"] assms(6) by (simp add: add.assoc)
  moreover have "m + k < 2 ^ 32" "j < 2 ^ 32" using assms j(1) by (simp_all add: small_burst_def)
  ultimately have "m + k = j" using burst_inj [of "m + k" j c0] j(2) by simp
  with j show "m + k < length bs" "sdu_buffer (ds ! k) = bs ! (m + k)" by simp_all
qed

lemma tracks_accept:
  assumes "small_burst c0 (length bs)" and "tracks c0 bs R r m" and "i < length bs" and "m \<le> i"
    and "\<not> nr_pdcp_sdu_in_list (rx_list r) (c0 + of_nat i)"
    and acc: "rx_accept r (nr_pdcp_new_sdu (c0 + of_nat i) (bs ! i) mi) n = (r', ds)"
  shows "tracks c0 bs (insert i R) r' (m + length ds)" and "map sdu_buffer ds = take (length ds) (drop m bs)"
proof -
  let ?sdu = "nr_pdcp_new_sdu (c0 + of_nat i) (bs ! i) mi"
  note t = assms(2) [unfolded tracks_def]
  have ui: "unat (c0 + of_nat i) = unat c0 + i" "unat (c0 + of_nat m) = unat c0 + m"
    using burst_count [OF assms(1)] assms(3,4) by simp_all
  have "rx_deliv r \<le> sdu_count ?sdu" using t ui assms(4) by (simp add: word_le_nat_alt)
  moreover have "sdu_count ?sdu \<noteq> -1"
  proof
    assume "sdu_count ?sdu = -1"
    with ui(1) have "unat c0 + i = unat (-1 :: u32)" by simp
    with assms(1,3) show False by (simp add: small_burst_def unsigned_minus_1_eq_mask mask_eq_exp_minus_1)
  qed
  ultimately have inv: "rx_inv r'" and app: "nr_pdcp_sdu_list_add (rx_list r) ?sdu = ds @ rx_list r'"
    using accept_step(1,3) [OF _ _ _ _ acc] t assms(5) by simp_all
  have sets: "set ds \<union> set (rx_list r') = insert ?sdu (set (rx_list r))"
    using arg_cong [OF app, of set] by simp
  have own: "\<exists>j < length bs. sdu_count ?sdu = c0 + of_nat j \<and> sdu_buffer ?sdu = bs ! j"
    by (rule exI [of _ i]) (use assms(3) in simp)
  have all: "\<forall>s \<in> set ds \<union> set (rx_list r'). \<exists>j < length bs. sdu_count s = c0 + of_nat j \<and> sdu_buffer s = bs ! j"
    unfolding sets using t own by blast
  have "strict (ds @ rx_list r')"
    unfolding app [symmetric] using strict_list_add [of "rx_list r" ?sdu] t assms(5) by (simp add: rx_inv_def)
  then have few: "length ds \<le> length bs"
    using held_few [of "ds @ rx_list r'" "length bs" c0] all by fastforce
  have cnt: "counts_of ds = map (\<lambda>k. c0 + of_nat m + of_nat k) [0..<length ds]"
    using accept_contiguous(2) [OF acc] t by simp
  have mb: "m \<le> length bs" using t by simp
  note d = tracks_delivered [OF assms(1) few mb cnt ballI [OF bspec [OF all UnI1]]]
  have fin: "m + length ds \<le> length bs"
    using d(1) [of "length ds - 1"] mb by (cases ds) auto
  show "map sdu_buffer ds = take (length ds) (drop m bs)"
    using d(2) fin by (intro nth_equalityI) auto
  have "c0 + of_nat k \<in> sdu_count ` set (rx_list r')"
    if k: "k \<in> insert i R" and big: "\<not> k < m + length ds" for k
  proof -
    have "c0 + of_nat k \<in> sdu_count ` (set ds \<union> set (rx_list r'))"
      unfolding sets using k big t by auto
    moreover have "c0 + of_nat k \<notin> sdu_count ` set ds"
    proof
      assume "c0 + of_nat k \<in> sdu_count ` set ds"
      then obtain q where q: "q < length ds" "sdu_count (ds ! q) = c0 + of_nat k" by (metis imageE in_set_conv_nth)
      have "c0 + of_nat (m + q) = c0 + of_nat k"
        using arg_cong [OF cnt, of "\<lambda>l. l ! q"] q by (simp add: add.assoc)
      moreover have "m + q < length bs" "k < length bs" using d(1) q(1) k t assms(3) by auto
      ultimately show False
        using burst_inj [of "m + q" k c0] big q(1) assms(1) by (simp add: small_burst_def)
    qed
    ultimately show ?thesis by blast
  qed
  with inv fin all accept_contiguous(1) [OF acc] t assms(3) show "tracks c0 bs (insert i R) r' (m + length ds)"
    by (auto simp: tracks_def add.assoc)
qed

lemma tracks_window:
  assumes "small_burst c0 (length bs)" and "tracks c0 bs R r m" and "int (length bs) \<le> window_size r" and "i < length bs"
  shows "in_window r (c0 + of_nat i)"
proof -
  have "rx_deliv r = c0 + of_nat m" "m \<le> length bs" using assms(2) by (simp_all add: tracks_def)
  then have "unat (rx_deliv r) = unat c0 + m" using burst_count [OF assms(1)] by simp
  moreover have "unat (c0 + of_nat i) = unat c0 + i" using burst_count [OF assms(1)] assms(4) by simp
  ultimately show ?thesis using assms(3,4) \<open>m \<le> length bs\<close> by (simp add: in_window_def) linarith
qed

lemma tracks_stats: "tracks c0 bs R (r\<lparr>stats := st\<rparr>) m = tracks c0 bs R r m"
  by (simp add: tracks_def)

lemma tracks_again:
  assumes "small_burst c0 (length bs)" and "tracks c0 bs R r m" and "i < length bs"
    and "c0 + of_nat i < rx_deliv r \<or> nr_pdcp_sdu_in_list (rx_list r) (c0 + of_nat i)"
  shows "tracks c0 bs (insert i R) r m"
proof -
  have d: "rx_deliv r = c0 + of_nat m" "m \<le> length bs" using assms(2) by (simp_all add: tracks_def)
  then have "c0 + of_nat i < rx_deliv r \<longleftrightarrow> i < m"
    using burst_count [OF assms(1), of i] burst_count [OF assms(1), of m] assms(3) by (simp add: word_less_nat_alt)
  with assms(2-4) show ?thesis by (auto simp: tracks_def nr_pdcp_sdu_in_list_iff)
qed

lemma tracks_recv:
  assumes "crypto_ok cr" and "peers t r" and "small_burst (tx_next t) (length bs)"
    and "tracks (tx_next t) bs R r m" and "int (length bs) \<le> window_size r"
    and "i < length bs" and "sendable t (bs ! i)" and "made_by cr t i (bs ! i) pdu"
  shows "\<exists>r' ds. nr_pdcp_entity_recv_pdu cr r pdu = Inr (r', ds) \<and> peers t r' \<and>
           tracks (tx_next t) bs (insert i R) r' (m + length ds) \<and> map sdu_buffer ds = take (length ds) (drop m bs)"
proof -
  let ?c = "tx_next t + of_nat i"
  obtain st0 mx t' where p: "nr_pdcp_entity_process_sdu cr (t\<lparr>tx_next := ?c, stats := st0\<rparr>) (bs ! i) 0 mx = Inr (t', Some pdu)"
    using assms(8) by (auto simp: made_by_def)
  have w: "in_window r ?c" by (rule tracks_window [OF assms(3-6)])
  obtain st st' mi n where r: "nr_pdcp_entity_recv_pdu cr r pdu =
     Inr (if ?c < rx_deliv r \<or> nr_pdcp_sdu_in_list (rx_list r) ?c then (r\<lparr>stats := st\<rparr>, [])
          else rx_accept (r\<lparr>stats := st'\<rparr>) (nr_pdcp_new_sdu ?c (bs ! i) mi) n)"
    using recv_sent [OF assms(1) _ p] assms(2,7) w by (fastforce simp: sendable_def)
  show ?thesis
  proof (cases "?c < rx_deliv r \<or> nr_pdcp_sdu_in_list (rx_list r) ?c")
    case True
    with r assms(2) tracks_again [OF assms(3,4,6) True] show ?thesis
      by (simp add: peers_stats tracks_stats)
  next
    case False
    obtain r' ds where acc: "rx_accept (r\<lparr>stats := st'\<rparr>) (nr_pdcp_new_sdu ?c (bs ! i) mi) n = (r', ds)" by fastforce
    have tr: "tracks (tx_next t) bs R (r\<lparr>stats := st'\<rparr>) m" using assms(4) by (simp add: tracks_stats)
    have "rx_deliv r = tx_next t + of_nat m" "m \<le> length bs" using assms(4) by (simp_all add: tracks_def)
    then have "m \<le> i"
      using False burst_count [OF assms(3), of i] burst_count [OF assms(3), of m] assms(6)
      by (simp add: word_less_nat_alt)
    from tracks_accept [OF assms(3) tr assms(6) this _ acc] False r acc peers_accept [OF acc] assms(2)
    show ?thesis by (simp add: peers_stats)
  qed
qed

lemma tracks_run:
  assumes "crypto_ok cr" and "small_burst (tx_next t) (length bs)"
    and "\<forall>i < length bs. sendable t (bs ! i) \<and> made_by cr t i (bs ! i) (pdus ! i)"
  shows "peers t r \<Longrightarrow> int (length bs) \<le> window_size t \<Longrightarrow> tracks (tx_next t) bs R r m \<Longrightarrow> set arr \<subseteq> {..<length bs} \<Longrightarrow>
    \<exists>r' ds. run_steps (nr_pdcp_entity_recv_pdu cr) r (map ((!) pdus) arr) = Inr (r', ds) \<and>
      tracks (tx_next t) bs (R \<union> set arr) r' (m + length ds) \<and> map sdu_buffer ds = take (length ds) (drop m bs)"
proof (induction arr arbitrary: r R m)
  case (Cons i arr)
  have win: "int (length bs) \<le> window_size r" using Cons.prems(1,2) by (auto simp: peers_def pdcp_config_def)
  have i: "i < length bs" using Cons.prems(4) by simp
  then have s: "sendable t (bs ! i)" "made_by cr t i (bs ! i) (pdus ! i)" using assms(3) by simp_all
  obtain r1 ds1 where 1: "nr_pdcp_entity_recv_pdu cr r (pdus ! i) = Inr (r1, ds1)" "peers t r1"
      "tracks (tx_next t) bs (insert i R) r1 (m + length ds1)" "map sdu_buffer ds1 = take (length ds1) (drop m bs)"
    using tracks_recv [OF assms(1) Cons.prems(1) assms(2) Cons.prems(3) win i s] by blast
  obtain r2 ds2 where 2: "run_steps (nr_pdcp_entity_recv_pdu cr) r1 (map ((!) pdus) arr) = Inr (r2, ds2)"
      "tracks (tx_next t) bs (insert i R \<union> set arr) r2 (m + length ds1 + length ds2)"
      "map sdu_buffer ds2 = take (length ds2) (drop (m + length ds1) bs)"
    using Cons.IH [OF 1(2) Cons.prems(2) 1(3)] Cons.prems(4) by auto
  have "map sdu_buffer (ds1 @ ds2) = take (length (ds1 @ ds2)) (drop m bs)"
    by (simp add: 1(4) 2(3) take_add add.commute)
  moreover have "tracks (tx_next t) bs (R \<union> set (i # arr)) r2 (m + length (ds1 @ ds2))"
    using 2(2) by (simp add: add.assoc)
  moreover have "run_steps (nr_pdcp_entity_recv_pdu cr) r (map ((!) pdus) (i # arr)) = Inr (r2, ds1 @ ds2)"
    using 1(1) 2(1) by simp
  ultimately show ?case by blast
qed simp

definition uplink_ue :: nr_pdcp_entity where
  "uplink_ue = projr (new_nr_pdcp_entity NR_PDCP_DRB_AM False 3 1 False True 18 100 (-1) nia2_nea2)"

definition uplink_gnb :: nr_pdcp_entity where
  "uplink_gnb = projr (new_nr_pdcp_entity NR_PDCP_DRB_AM True 3 1 True False 18 100 (-1) nia2_nea2)"

lemma uplink_peers: "peers uplink_ue uplink_gnb"
  by (simp add: peers_def pdcp_config_def uplink_ue_def uplink_gnb_def new_nr_pdcp_entity_def nia2_nea2_def
      nr_pdcp_entity_set_security_def set_integrity_algo_def set_ciphering_algo_def sec_inv_def cipher_inv_def
      integrity_inv_def store_algos_def free_ctx_def free_int_ctx_def ctx_key_def Let_def)

lemma uplink_start:
  "tx_next uplink_ue = 0" "rx_deliv uplink_gnb = 0" "rx_list uplink_gnb = []" "rx_inv uplink_gnb"
  "has_sdap_tx uplink_ue" "window_size uplink_ue = 131072" "has_ciphering uplink_ue" "has_integrity uplink_ue"
  by code_simp+

text \<open>The sender is past a change of the HFN, the receiver just before it, and holds nothing.\<close>

definition late_ue :: nr_pdcp_entity where "late_ue = uplink_ue\<lparr>tx_next := 262144\<rparr>"
definition late_gnb :: nr_pdcp_entity where "late_gnb = uplink_gnb\<lparr>rx_next := 262143, rx_deliv := 262143\<rparr>"

definition late_sent :: "(nr_pdcp_entity \<times> byte list option) c_result" where
  "late_sent = nr_pdcp_entity_process_sdu pad_crypto late_ue [9, 8, 7] 0 100"

lemma peers_counters: "peers (t\<lparr>tx_next := n\<rparr>) (r\<lparr>rx_next := a, rx_deliv := b\<rparr>) = peers t r"
  by (simp add: peers_def pdcp_config_def sec_inv_def cipher_inv_def integrity_inv_def)

lemma late_peers: "peers late_ue late_gnb"
  by (simp add: late_ue_def late_gnb_def peers_counters uplink_peers)

theorem pdcp_sdu_roundtrip_witness:
  "\<exists>t' pdu r' s. late_sent = Inr (t', Some pdu) \<and> pdu \<noteq> [9, 8, 7] \<and>
     nr_pdcp_entity_recv_pdu pad_crypto late_gnb pdu = Inr (r', []) \<and> rx_list r' = [s] \<and> sdu_buffer s = [9, 8, 7] \<and>
     sdu_count s = 262144"
proof -
  obtain t' pdu where p: "late_sent = Inr (t', Some pdu)" "pdu \<noteq> [9, 8, 7]"
    by (rule that [of "fst (projr late_sent)" "the (snd (projr late_sent))"]) code_simp+
  have e: "tx_next late_ue = 262144" "rx_deliv late_gnb = 262143" "rx_list late_gnb = []" "window_size late_gnb = 131072"
    by code_simp+
  have w: "in_window late_gnb (tx_next late_ue)" by (simp add: in_window_def e)
  have l: "(if has_sdap_tx late_ue then 1 else 0) < length [9 :: byte, 8, 7]" by simp
  have snd: "rx_sound late_gnb" by code_simp
  from pdcp_sdu_roundtrip [OF pad_crypto_ok late_peers p(1) [unfolded late_sent_def] l w snd] obtain r' ds where
    r: "nr_pdcp_entity_recv_pdu pad_crypto late_gnb pdu = Inr (r', ds)" and
    c: "if tx_next late_ue < rx_deliv late_gnb \<or> nr_pdcp_sdu_in_list (rx_list late_gnb) (tx_next late_ue)
     then ds = [] \<and> rx_list r' = rx_list late_gnb \<and> rx_deliv r' = rx_deliv late_gnb
     else \<exists>s. sdu_buffer s = [9, 8, 7] \<and> sdu_count s = tx_next late_ue \<and>
       ds = (if tx_next late_ue = rx_deliv late_gnb then s # run (rx_deliv late_gnb + 1) (rx_list late_gnb) else []) \<and>
       ds @ rx_list r' = nr_pdcp_sdu_list_add (rx_list late_gnb) s \<and> rx_deliv r' = rx_deliv late_gnb + of_nat (length ds)" by blast
  have "\<not> (tx_next late_ue < rx_deliv late_gnb \<or> nr_pdcp_sdu_in_list (rx_list late_gnb) (tx_next late_ue))"
    by (simp add: e nr_pdcp_sdu_in_list_iff)
  with c obtain s where "sdu_buffer s = [9, 8, 7]" "sdu_count s = tx_next late_ue" "ds = []" "rx_list r' = [s]"
    by (auto simp: e nr_pdcp_sdu_list_add_eq)
  with p r e(1) show ?thesis by metis
qed

lemma burst_any_order:
  assumes "crypto_ok cr" and "peers t r" and "rx_inv r" and "rx_list r = []" and "rx_deliv r = tx_next t"
    and "\<forall>b \<in> set bs. sendable t b" and "int (length bs) \<le> window_size t"
    and "unat (tx_next t) + length bs < 2 ^ 32" and "set arr = {..<length bs}"
  shows "\<exists>t' pdus r' ds. send_all cr t bs = Inr (t', pdus) \<and>
     run_steps (nr_pdcp_entity_recv_pdu cr) r (map ((!) pdus) arr) = Inr (r', ds) \<and> map sdu_buffer ds = bs"
proof -
  have "pdcp_config t" using assms(2) by (simp add: peers_def)
  then have small: "small_burst (tx_next t) (length bs)"
    using assms(7,8) by (cases rule: pdcp_config_cases) (simp_all add: small_burst_def)
  obtain t' pdus where s: "send_all cr t bs = Inr (t', pdus)"
      "\<forall>i < length bs. made_by cr t i (bs ! i) (pdus ! i)"
    using send_all_sent [OF assms(1,2,6)] by blast
  have tr: "tracks (tx_next t) bs {} r 0" using assms(3-5) by (simp add: tracks_def)
  have "\<forall>i < length bs. sendable t (bs ! i) \<and> made_by cr t i (bs ! i) (pdus ! i)" using s(2) assms(6) by simp
  from tracks_run [OF assms(1) small this assms(2,7) tr, of arr] obtain r' ds where
    r: "run_steps (nr_pdcp_entity_recv_pdu cr) r (map ((!) pdus) arr) = Inr (r', ds)"
      "tracks (tx_next t) bs {..<length bs} r' (length ds)" "map sdu_buffer ds = take (length ds) bs"
    using assms(9) by auto
  have "\<not> length ds < length bs"
  proof
    assume "length ds < length bs"
    then have "tx_next t + of_nat (length ds) \<in> sdu_count ` set (rx_list r')"
      using r(2) by (fastforce simp: tracks_def)
    with r(2) show False by (auto simp: tracks_def rx_inv_def)
  qed
  then have "map sdu_buffer ds = bs" using r(2,3) by (simp add: tracks_def)
  with s r show ?thesis by blast
qed

text \<open>C2: a bearer end to end, with any loss of order: a burst of SDUs of at most a receive window is sent,
  the PDUs arrive in any order and any number of times each, at least once. Nothing faults, and the
  peer hands up exactly the SDUs that were sent, each once, in the order they were sent, whichever
  ciphering and integrity algorithms the two ends share.\<close>

theorem pdcp_burst_any_order:
  assumes "crypto_ok cr" and "peers t r" and "rx_inv r" and "rx_list r = []" and "rx_deliv r = tx_next t"
    and "\<forall>b \<in> set bs. sendable t b" and "int (length bs) \<le> window_size t"
    and "unat (tx_next t) + length bs < 2 ^ 32" and "set arr = {..<length bs}"
  shows "\<exists>t' pdus r' ds. send_all cr t bs = Inr (t', pdus) \<and>
     run_steps (nr_pdcp_entity_recv_pdu cr) r (map ((!) pdus) arr) = Inr (r', ds) \<and> map sdu_buffer ds = bs"
  by (rule burst_any_order [OF assms])

theorem pdcp_burst_any_order_witness:
  "\<exists>t' pdus r' ds. send_all pad_crypto uplink_ue [[1, 2], [3, 4, 5], [6, 7]] = Inr (t', pdus) \<and>
     run_steps (nr_pdcp_entity_recv_pdu pad_crypto) uplink_gnb (map ((!) pdus) [2, 0, 2, 1]) = Inr (r', ds) \<and>
     map sdu_buffer ds = [[1, 2], [3, 4, 5], [6, 7]]"
proof (rule pdcp_burst_any_order [OF pad_crypto_ok uplink_peers uplink_start(4,3)])
  show "set [2, 0, 2, 1] = {..<length [[1, 2], [3, 4, 5], [6, 7 :: byte]]}" by (auto simp: lessThan_Suc)
qed (simp_all add: uplink_start sendable_def)

subsection \<open>The size of the reordering buffer\<close>

text \<open>The counter of buffered bytes drifts: with a MAC-I (integrity active, or an SRB) each PDU that is
  received and delivered in order leaves \<^verbatim>\<open>rx_size\<close> four bytes higher, because the MAC-I is counted when
  the SDU is stored and not when it is delivered; without a MAC-I it returns to its value.\<close>

theorem pdcp_rx_size_drift:
  assumes "rx_list r = []" and "sdu_count sdu = rx_deliv r" and "n = sdu_size sdu + int (integrity_size r)"
  shows "rx_size (fst (rx_accept r sdu n)) = rx_size r + (if has_integrity r \<or> entity_type r = NR_PDCP_SRB then 4 else 0)"
  using assms
  by (simp add: rx_accept_def rx_deliver_def deliver_contiguous_eq rx_timer_facts rx_store_def integrity_size_def Let_def)

theorem pdcp_rx_size_drift_witness:
  "rx_size (fst (rx_accept uplink_gnb (nr_pdcp_new_sdu 0 [1, 2, 3] (pdcp_msg_integrity uplink_gnb 0 [] 0)) 7)) =
   rx_size uplink_gnb + 4"
proof -
  have "has_integrity uplink_gnb" "integrity_size uplink_gnb = 4" by code_simp+
  then show ?thesis
    using pdcp_rx_size_drift [OF uplink_start(3), of "nr_pdcp_new_sdu 0 [1, 2, 3] (pdcp_msg_integrity uplink_gnb 0 [] 0)" 7]
    by (simp add: uplink_start)
qed

end
