(* ===== verification/L2_Stack.thy ===== *)
theory L2_Stack
  imports Sdap_Machine Pdcp_Link Rlc_Um_Link
begin

text \<open>
  Layer 2 end to end: SDAP, PDCP and the unacknowledged mode of RLC on both sides of the air interface.
\<close>

subsection \<open>SDAP over PDCP\<close>

text \<open>The entities of one session at the sender and the receiver: the QoS flow \<open>q\<close> is mapped on both sides, with headers.\<close>

definition sdap_peers :: "int \<Rightarrow> nr_sdap_entity \<Rightarrow> nr_sdap_entity \<Rightarrow> bool" where
  "sdap_peers q et er \<longleftrightarrow>
     sdap_entity_ok et \<and> sdap_entity_ok er \<and> 0 \<le> q \<and> q < 64 \<and> se_is_gnb et \<noteq> se_is_gnb er \<and> se_enable_sdap er \<and>
     drb_of (sdap_rule et q) \<noteq> 0 \<and> drb_of (sdap_rule er q) \<noteq> 0 \<and>
     (if se_is_gnb et
      then has_role (entity_role (sdap_rule et q)) SDAP_DL_TX \<and> has_role (entity_role (sdap_rule er q)) SDAP_DL_RX \<and> 0 \<le> se_sock er
      else has_role (entity_role (sdap_rule et q)) SDAP_UL_TX \<and> \<not> has_role (entity_role (sdap_rule et q)) SDAP_DL_TX \<and>
           has_role (entity_role (sdap_rule er q)) SDAP_UL_RX)"

text \<open>What comes out at the receiver for a packet: the TUN device of a UE, or the tunnel of the gNB with the QFI.\<close>

definition sdap_delivers :: "nr_sdap_entity \<Rightarrow> int \<Rightarrow> int \<Rightarrow> u64 \<Rightarrow> byte list \<Rightarrow> sdap_output" where
  "sdap_delivers er q ps ue sdu = (if se_is_gnb er then SdapToGtp ue ps (Some q) sdu else SdapToTun (se_sock er) sdu)"

lemma sdap_header_roundtrip:
  assumes p: "sdap_peers q et er" and sdu: "sdu \<noteq> []" "length sdu \<le> 8999"
  obtains h where "nr_sdap_tx_entity et ue sdu q rqi = Inr (Some (SdapToPdcp ue (drb_of (sdap_rule et q)) (h # sdu)))"
    "\<And>drb ps ue'. nr_sdap_rx_entity er drb (se_is_gnb er) ps ue' (h # sdu) = Inr (er, [sdap_delivers er q ps ue' sdu])"
proof -
  have len: "length (se_table et) = 64" "length (se_table er) = 64" and q: "0 \<le> q" "q < 64"
    using p by (simp_all add: sdap_peers_def sdap_entity_ok_def)
  let ?h = "if se_is_gnb et then sdap_hdr_byte (q AND 63) rqi False else sdap_hdr_byte (q AND 63) False rqi"
  have h: "sdap_hdr_qfi ?h = q" "se_is_gnb et \<Longrightarrow> \<not> bit ?h 7" using sdap_hdr_qfi_byte [OF q] by auto
  show thesis
  proof (rule that [of ?h])
    show "nr_sdap_tx_entity et ue sdu q rqi = Inr (Some (SdapToPdcp ue (drb_of (sdap_rule et q)) (?h # sdu)))"
      using p q sdu by (auto simp: nr_sdap_tx_entity_def nr_sdap_qfi2drb_def rule_at_eq [OF len(1) q(1)] sdap_peers_def
          dl_hdr_byte_def ul_hdr_byte_def Let_def split: if_splits)
    show "nr_sdap_rx_entity er drb (se_is_gnb er) ps ue' (?h # sdu) = Inr (er, [sdap_delivers er q ps ue' sdu])" for drb ps ue'
      using p q h by (auto simp: nr_sdap_rx_entity_def rule_at_eq [OF len(2) q(1)] sdap_peers_def SDAP_MAX_QFI_def sdap_rx_gnb_def
          sdap_rx_ue_def ul_hdr_of_def dl_hdr_of_def sdap_delivers_def Let_def)
  qed
qed

subsection \<open>The whole stack\<close>

text \<open>C1: packets that enter Layer 2 on one side of the air interface leave it on the other. A burst of packets of a QoS
  flow, each of 1 to 8999 bytes and at most a PDCP receive window of them, with the counters of the two sides in step, goes through SDAP (the rule of the flow and the header), PDCP (header,
  MAC-I and ciphering, whichever algorithms are configured) and the unacknowledged mode of RLC. The grants of the MAC may
  have any size but one: none has two bytes while the sequence numbers have 12 bits (such a grant loses an SDU). When there
  were at least as many grants of five bytes or more, among any others, as there are bytes to send, RLC, PDCP and SDAP of the
  peer hand up exactly the packets, in the order they were sent: a UE to its TUN device, a gNB to the tunnel of the session
  with the QFI of the flow.\<close>

theorem l2_stack_delivers:
  assumes cr: "crypto_ok cr" and p: "peers t r" "has_sdap_tx t" "rx_inv r" "rx_list r = []" "rx_deliv r = tx_next t"
    and sd: "sdap_peers q et er"
    and rlc: "new_nr_rlc_entity_um rxm txm tr len = Inr tx0" "new_nr_rlc_entity_um rxm' txm' tr' len = Inr rx0"
    and bounds: "0 \<le> rxm" "0 \<le> txm'" "NR_SDU_MAX \<le> rxm'" "int (total_bytes packets + 8 * length packets) \<le> txm"
    and packets: "\<forall>s \<in> set packets. s \<noteq> [] \<and> length s \<le> 8999"
    and window: "int (length packets) \<le> window_size t" "unat (tx_next t) + length packets < 2 ^ 32"
    and grants: "\<forall>g \<in> set grants. um_lossless_grant len g" "total_bytes packets + 8 * length packets \<le> um_moving grants"
  shows "\<exists>reqs t' pdus tx1 tx rx ds r' sdus.
    map (\<lambda>s. nr_sdap_tx_entity et ue s q rqi) packets = map (\<lambda>x. Inr (Some (SdapToPdcp ue (drb_of (sdap_rule et q)) x))) reqs \<and>
    send_all cr t reqs = Inr (t', pdus) \<and> um_submit now tx0 pdus = Inr tx1 \<and> um_link now tx1 rx0 grants = Inr (tx, rx, ds) \<and>
    run_steps (nr_pdcp_entity_recv_pdu cr) r ds = Inr (r', sdus) \<and>
    map (\<lambda>s. nr_sdap_rx_entity er drb (se_is_gnb er) sid ue' (sdu_buffer s)) sdus =
      map (\<lambda>s. Inr (er, [sdap_delivers er q sid ue' s])) packets"
proof -
  have "\<forall>s \<in> set packets. \<exists>h. nr_sdap_tx_entity et ue s q rqi = Inr (Some (SdapToPdcp ue (drb_of (sdap_rule et q)) (h # s))) \<and>
      nr_sdap_rx_entity er drb (se_is_gnb er) sid ue' (h # s) = Inr (er, [sdap_delivers er q sid ue' s])"
    using packets sdap_header_roundtrip [OF sd] by metis
  then obtain h where h: "nr_sdap_tx_entity et ue s q rqi = Inr (Some (SdapToPdcp ue (drb_of (sdap_rule et q)) (h s # s)))"
    "nr_sdap_rx_entity er drb (se_is_gnb er) sid ue' (h s # s) = Inr (er, [sdap_delivers er q sid ue' s])" if "s \<in> set packets" for s
    by metis
  define reqs where "reqs = map (\<lambda>s. h s # s) packets"
  have bytes: "(\<Sum>s \<leftarrow> reqs. length s) = total_bytes packets + length packets" "length reqs = length packets"
    by (simp_all add: reqs_def total_bytes_def sum_list_Suc o_def)
  have ok: "\<forall>b \<in> set reqs. sendable t b" using packets p(2) by (auto simp: reqs_def sendable_def)
  have "set [0..<length reqs] = {..<length reqs}" by auto
  from burst_any_order [OF cr p(1,3,4,5) ok _ _ this] window bytes(2) obtain t' pdus r' sdus where
    b: "send_all cr t reqs = Inr (t', pdus)" "run_steps (nr_pdcp_entity_recv_pdu cr) r (map ((!) pdus) [0..<length reqs]) = Inr (r', sdus)"
      "map sdu_buffer sdus = reqs" by auto
  note pdus = send_all_bytes [OF cr p(1) ok b(1)]
  have all: "map ((!) pdus) [0..<length reqs] = pdus" using map_nth [of pdus] pdus(1) by simp
  have total: "total_bytes pdus \<le> total_bytes packets + 8 * length packets" using pdus(3) bytes by (simp add: total_bytes_def)
  have each: "\<forall>s \<in> set pdus. s \<noteq> [] \<and> int (length s) \<le> NR_SDU_MAX"
    using pdus(2) packets by (fastforce simp: reqs_def NR_SDU_MAX_def)
  obtain tx1 tx rx ds where l: "um_submit now tx0 pdus = Inr tx1" "um_link now tx1 rx0 grants = Inr (tx, rx, ds)" "ds = pdus"
    using um_link_all [OF rlc bounds(1-3) each _ grants(1), of now] total bounds(4) grants(2) by auto
  have "map (\<lambda>s. nr_sdap_rx_entity er drb (se_is_gnb er) sid ue' (sdu_buffer s)) sdus =
      map (nr_sdap_rx_entity er drb (se_is_gnb er) sid ue') (map sdu_buffer sdus)" by simp
  also have "\<dots> = map (\<lambda>s. Inr (er, [sdap_delivers er q sid ue' s])) packets"
    unfolding b(3) by (simp add: reqs_def h)
  finally have up: "map (\<lambda>s. nr_sdap_rx_entity er drb (se_is_gnb er) sid ue' (sdu_buffer s)) sdus = \<dots>" .
  have down: "map (\<lambda>s. nr_sdap_tx_entity et ue s q rqi) packets = map (\<lambda>x. Inr (Some (SdapToPdcp ue (drb_of (sdap_rule et q)) x))) reqs"
    by (simp add: reqs_def h)
  have run: "run_steps (nr_pdcp_entity_recv_pdu cr) r ds = Inr (r', sdus)" using b(2) l(3) all by simp
  show ?thesis using down b(1) l(1,2) run up by blast
qed

text \<open>An entity that maps the QoS flow 5 to the DRB 3.\<close>

definition flow5_entity :: "bool \<Rightarrow> int \<Rightarrow> nr_sdap_entity" where
  "flow5_entity gnb role =
     \<lparr>se_ue_id = 7, se_default_drb = 0, se_is_gnb = gnb, se_enable_sdap = True, se_pdusession_id = 1, se_sock = (if gnb then - 1 else 4),
      se_stop_thread = False, se_qfi = 5, se_table = (replicate 64 \<lparr>drb_of = 0, entity_role = 0\<rparr>)[5 := \<lparr>drb_of = 3, entity_role = role\<rparr>]\<rparr>"

lemma flow5_peers: "sdap_peers 5 (flow5_entity False SDAP_UL_TX) (flow5_entity True SDAP_UL_RX)"
  by (simp add: sdap_peers_def sdap_entity_ok_def flow5_entity_def sdap_rule_def has_role_def SDAP_MAX_QFI_def
      SDAP_UL_TX_def SDAP_UL_RX_def SDAP_DL_TX_def)

lemma l2_stack_delivers_witness:
  "\<exists>reqs t' pdus tx1 tx rx ds r' sdus.
    map (\<lambda>s. nr_sdap_tx_entity (flow5_entity False SDAP_UL_TX) 7 s 5 True) [[1, 2], [3]] = map (\<lambda>x. Inr (Some (SdapToPdcp 7 3 x))) reqs \<and>
    send_all pad_crypto uplink_ue reqs = Inr (t', pdus) \<and>
    um_submit 0 (projr (new_nr_rlc_entity_um 100 100 35 12)) pdus = Inr tx1 \<and>
    um_link 0 tx1 (projr (new_nr_rlc_entity_um 100000 100 35 12)) ([0] # [0, 0, 0] # replicate 19 [0, 0, 0, 0, 0]) = Inr (tx, rx, ds) \<and>
    run_steps (nr_pdcp_entity_recv_pdu pad_crypto) uplink_gnb ds = Inr (r', sdus) \<and>
    map (\<lambda>s. nr_sdap_rx_entity (flow5_entity True SDAP_UL_RX) 3 True 1 7 (sdu_buffer s)) sdus =
      [Inr (flow5_entity True SDAP_UL_RX, [SdapToGtp 7 1 (Some 5) [1, 2]]), Inr (flow5_entity True SDAP_UL_RX, [SdapToGtp 7 1 (Some 5) [3]])]"
proof -
  have d: "drb_of (sdap_rule (flow5_entity False SDAP_UL_TX) 5) = 3" "se_is_gnb (flow5_entity True SDAP_UL_RX)" by code_simp+
  have start: "rx_deliv uplink_gnb = tx_next uplink_ue" by (simp add: uplink_start)
  have rlc: "new_nr_rlc_entity_um 100 100 35 12 = Inr (projr (new_nr_rlc_entity_um 100 100 35 12))"
    "new_nr_rlc_entity_um 100000 100 35 12 = Inr (projr (new_nr_rlc_entity_um 100000 100 35 12))" by (rule new_um_projr, simp)+
  note l2_stack_delivers [OF pad_crypto_ok uplink_peers uplink_start(5,4,3) start flow5_peers rlc, where packets = "[[1, 2], [3]]"
      and grants = "[0] # [0, 0, 0] # replicate 19 [0, 0, 0, 0, 0]" and rqi = True and ue = 7 and now = 0 and drb = 3 and sid = 1 and ue' = 7]
  then show ?thesis unfolding d by (simp add: uplink_start NR_SDU_MAX_def total_bytes_def sdap_delivers_def d(2) um_lossless_grant_def)
qed

end
