(* ===== verification/Pdcp_Ue_Manager.thy ===== *)
theory Pdcp_Ue_Manager
  imports Pdcp_Control Ue_Table
begin

text \<open>
  The UE manager of PDCP (\<^verbatim>\<open>nr_pdcp_ue_manager.c\<close>) and its timer thread (\<^verbatim>\<open>nr_pdcp_timer_thread.c\<close>).
  The array of pointers \<open>ue_list\<close> and \<open>ue_count\<close> are one list; a pointer to a UE is its position in
  the list. A NULL entity is \<open>None\<close>. The mutexes only order calls and are not part of the state.
\<close>

definition MAX_DRBS_PER_UE :: nat where "MAX_DRBS_PER_UE = 32"

record nr_pdcp_ue =
  ue_id :: u64
  srb :: "nr_pdcp_entity option list"   \<comment> \<open>3 pointers\<close>
  drb :: "nr_pdcp_entity option list"   \<comment> \<open>\<open>MAX_DRBS_PER_UE\<close> pointers\<close>

record nr_pdcp_ue_manager =
  ue_list :: "nr_pdcp_ue list"
  enb_flag :: int

definition new_nr_pdcp_ue_manager :: "int \<Rightarrow> nr_pdcp_ue_manager" where
  "new_nr_pdcp_ue_manager flag = \<lparr>ue_list = [], enb_flag = flag\<rparr>"

definition nr_pdcp_manager_get_enb_flag :: "nr_pdcp_ue_manager \<Rightarrow> int" where
  "nr_pdcp_manager_get_enb_flag m = enb_flag m"

definition empty_ue :: "u64 \<Rightarrow> nr_pdcp_ue" where
  "empty_ue k = \<lparr>ue_id = k, srb = replicate 3 None, drb = replicate MAX_DRBS_PER_UE None\<rparr>"

definition ue_list_get :: "nr_pdcp_ue list \<Rightarrow> u64 \<Rightarrow> nr_pdcp_ue list \<times> nat" where
  "ue_list_get us k =
     (let i = ue_index ue_id us k
      in if i < length us then (us, i) else (us @ [empty_ue k], length us))"

definition nr_pdcp_manager_get_ue :: "nr_pdcp_ue_manager \<Rightarrow> u64 \<Rightarrow> nr_pdcp_ue_manager \<times> nat" where
  "nr_pdcp_manager_get_ue m k = (let (us, i) = ue_list_get (ue_list m) k in (m\<lparr>ue_list := us\<rparr>, i))"

text \<open>The entities that \<^verbatim>\<open>remove_ue\<close> deletes: SRBs at 0 and 1, DRBs at 0 to 4.\<close>

definition deleted_entities :: "nr_pdcp_ue \<Rightarrow> nr_pdcp_entity list" where
  "deleted_entities u =
     map nr_pdcp_entity_delete (List.map_filter id (take 2 (srb u)) @ List.map_filter id (take 5 (drb u)))"

definition ue_list_remove :: "nr_pdcp_ue list \<Rightarrow> u64 \<Rightarrow> nr_pdcp_ue list" where
  "ue_list_remove us k =
     (let i = ue_index ue_id us k in if i = length us then us else take i us @ drop (i + 1) us)"

definition nr_pdcp_manager_remove_ue ::
  "nr_pdcp_ue_manager \<Rightarrow> u64 \<Rightarrow> nr_pdcp_ue_manager \<times> nr_pdcp_entity list" where
  "nr_pdcp_manager_remove_ue m k =
     (m\<lparr>ue_list := ue_list_remove (ue_list m) k\<rparr>,
      case ue_find ue_id (ue_list m) k of None \<Rightarrow> [] | Some u \<Rightarrow> deleted_entities u)"

definition nr_pdcp_ue_add_srb_pdcp_entity ::
  "nr_pdcp_ue \<Rightarrow> int \<Rightarrow> nr_pdcp_entity \<Rightarrow> nr_pdcp_ue c_result" where
  "nr_pdcp_ue_add_srb_pdcp_entity u srb_id e =
     (if srb_id < 1 \<or> srb_id > 2 then Inl ProcessExit
      else let j = nat (srb_id - 1)
      in if srb u ! j \<noteq> None then Inl ProcessExit else Inr (u\<lparr>srb := (srb u)[j := Some e]\<rparr>))"

definition nr_pdcp_ue_add_drb_pdcp_entity ::
  "nr_pdcp_ue \<Rightarrow> int \<Rightarrow> nr_pdcp_entity \<Rightarrow> nr_pdcp_ue c_result" where
  "nr_pdcp_ue_add_drb_pdcp_entity u drb_id e =
     (if drb_id < 1 \<or> drb_id > int MAX_DRBS_PER_UE then Inl ProcessExit
      else let j = nat (drb_id - 1)
      in if drb u ! j \<noteq> None then Inl ProcessExit else Inr (u\<lparr>drb := (drb u)[j := Some e]\<rparr>))"

definition nr_pdcp_manager_get_ue_list :: "nr_pdcp_ue_manager \<Rightarrow> nr_pdcp_ue list" where
  "nr_pdcp_manager_get_ue_list m = ue_list m"

definition nr_pdcp_manager_get_ue_count :: "nr_pdcp_ue_manager \<Rightarrow> nat" where
  "nr_pdcp_manager_get_ue_count m = length (ue_list m)"

definition nr_pdcp_get_first_ue_id :: "nr_pdcp_ue_manager \<Rightarrow> u64 option" where
  "nr_pdcp_get_first_ue_id m = (case ue_list m of [] \<Rightarrow> None | u # _ \<Rightarrow> Some (ue_id u))"

interpretation pdcp_ues: ue_table ue_id empty_ue ue_list_get ue_list_remove
proof unfold_locales
  show "ue_id (empty_ue k) = k" for k by (simp add: empty_ue_def)
  show "ue_list_get us k = (if ue_index ue_id us k < length us then us else us @ [empty_ue k], ue_index ue_id us k)"
    for us k
    using ue_index_le [of ue_id us k] by (auto simp: ue_list_get_def Let_def)
  show "ue_list_remove us k = take (ue_index ue_id us k) us @ drop (Suc (ue_index ue_id us k)) us" for us k
    by (simp add: ue_list_remove_def Let_def)
qed

subsection \<open>The timer thread\<close>

text \<open>One pass of the loop of \<^verbatim>\<open>nr_pdcp_timer_thread\<close>: every SRB at 0 and 1 and every DRB at 0 to 4.\<close>

definition tick_entity :: "u64 \<Rightarrow> nr_pdcp_entity option \<Rightarrow> nr_pdcp_entity option \<times> nr_pdcp_sdu list" where
  "tick_entity now x =
     (case x of None \<Rightarrow> (None, [])
      | Some e \<Rightarrow> (let (e', ds) = nr_pdcp_entity_set_time e now in (Some e', ds)))"

definition tick_first :: "nat \<Rightarrow> u64 \<Rightarrow> nr_pdcp_entity option list \<Rightarrow> nr_pdcp_entity option list \<times> nr_pdcp_sdu list" where
  "tick_first n now es =
     (let rs = map (tick_entity now) (take n es) in (map fst rs @ drop n es, concat (map snd rs)))"

definition tick_ue :: "u64 \<Rightarrow> nr_pdcp_ue \<Rightarrow> nr_pdcp_ue \<times> nr_pdcp_sdu list" where
  "tick_ue now u =
     (let (srbs, ds1) = tick_first 2 now (srb u);
          (drbs, ds2) = tick_first 5 now (drb u)
      in (u\<lparr>srb := srbs, drb := drbs\<rparr>, ds1 @ ds2))"

definition nr_pdcp_timer_pass :: "u64 \<Rightarrow> nr_pdcp_ue_manager \<Rightarrow> nr_pdcp_ue_manager \<times> nr_pdcp_sdu list" where
  "nr_pdcp_timer_pass now m =
     (let rs = map (tick_ue now) (nr_pdcp_manager_get_ue_list m)
      in (m\<lparr>ue_list := map fst rs\<rparr>, concat (map snd rs)))"

text \<open>\<^verbatim>\<open>nr_pdcp_ms_tick\<close> advances \<open>timer_thread_curtime\<close>; the thread then sees a new value.\<close>

definition nr_pdcp_ms_tick :: "u64 \<Rightarrow> u64" where
  "nr_pdcp_ms_tick curtime = curtime + 1"

end
