(* ===== verification/Pdcp_Api.thy ===== *)
theory Pdcp_Api
  imports Pdcp_Ue_Manager Pdcp_Count Asn1_Tables
begin

text \<open>
  The interface of PDCP to the rest of the stack (\<^verbatim>\<open>nr_pdcp_oai_api.c\<close>): requests on the bearers of a
  UE, and the two queues with their threads. The state is the UE manager. The result of a call is
  the manager, what the call returns, and the SDUs it hands up. \<open>None\<close> as a result is the case where
  the bearer does not exist. The decoders of \<^verbatim>\<open>asn1_utils.c\<close> are those of
  \<open>Asn1_Tables\<close>. What the callbacks send to SDAP, F1AP, GTP and RRC is in \<open>Pdcp_Deliver\<close>.
\<close>

subsection \<open>Bearers of a UE\<close>

definition nr_pdcp_get_rb :: "nr_pdcp_ue \<Rightarrow> int \<Rightarrow> bool \<Rightarrow> nr_pdcp_entity option" where
  "nr_pdcp_get_rb u rb srb_flag =
     (if srb_flag then (if rb < 1 \<or> rb > 2 then None else srb u ! nat (rb - 1))
      else (if rb < 1 \<or> rb > int MAX_DRBS_PER_UE then None else drb u ! nat (rb - 1)))"

text \<open>The write through the pointer that \<^verbatim>\<open>nr_pdcp_get_rb\<close> returned.\<close>

definition put_rb :: "nr_pdcp_ue \<Rightarrow> int \<Rightarrow> bool \<Rightarrow> nr_pdcp_entity option \<Rightarrow> nr_pdcp_ue" where
  "put_rb u rb srb_flag x =
     (if srb_flag then u\<lparr>srb := (srb u)[nat (rb - 1) := x]\<rparr>
      else u\<lparr>drb := (drb u)[nat (rb - 1) := x]\<rparr>)"

definition put_ue :: "nr_pdcp_ue_manager \<Rightarrow> nat \<Rightarrow> nr_pdcp_ue \<Rightarrow> nr_pdcp_ue_manager" where
  "put_ue m i u = m\<lparr>ue_list := (ue_list m)[i := u]\<rparr>"

text \<open>The frame of every call on a bearer: get the UE, get the bearer, work on it.\<close>

definition on_rb ::
  "nr_pdcp_ue_manager \<Rightarrow> u64 \<Rightarrow> int \<Rightarrow> bool \<Rightarrow> (nr_pdcp_entity \<Rightarrow> (nr_pdcp_entity \<times> 'a) c_result)
     \<Rightarrow> (nr_pdcp_ue_manager \<times> 'a option) c_result" where
  "on_rb m k rb srb_flag f =
     (let (m1, i) = nr_pdcp_manager_get_ue m k; u = ue_list m1 ! i
      in case nr_pdcp_get_rb u rb srb_flag of
           None \<Rightarrow> Inr (m1, None)
         | Some e \<Rightarrow> c_bind (f e) (\<lambda>(e', x). Inr (put_ue m1 i (put_rb u rb srb_flag (Some e')), Some x)))"

record protocol_ctxt =
  module_id :: int
  instance_id :: int
  eNB_index :: int
  brOption :: int
  rntiMaybeUEid :: u64

subsection \<open>Data\<close>

definition do_pdcp_data_ind ::
  "crypto \<Rightarrow> nr_pdcp_ue_manager \<Rightarrow> protocol_ctxt \<Rightarrow> bool \<Rightarrow> int \<Rightarrow> byte list
     \<Rightarrow> (nr_pdcp_ue_manager \<times> nr_pdcp_sdu list option) c_result" where
  "do_pdcp_data_ind cr m ctxt srb_flag rb buffer =
     (if module_id ctxt \<noteq> 0 \<or> instance_id ctxt \<noteq> 0 \<or> eNB_index ctxt \<noteq> 0 \<or> brOption ctxt \<noteq> 0 then Inl ProcessExit
      else on_rb m (rntiMaybeUEid ctxt) rb srb_flag (\<lambda>e. nr_pdcp_entity_recv_pdu cr e buffer))"

text \<open>
  The PDU is what the callback \<open>deliver_pdu_cb\<close> gets; \<open>Some None\<close> is the suspended entity. The
  \<open>deliver_pdu\<close> of an entity is NULL exactly when \<^verbatim>\<open>add_srb\<close> made it.
\<close>

definition nr_pdcp_data_req_srb ::
  "crypto \<Rightarrow> nr_pdcp_ue_manager \<Rightarrow> u64 \<Rightarrow> int \<Rightarrow> int \<Rightarrow> byte list
     \<Rightarrow> (nr_pdcp_ue_manager \<times> byte list option option) c_result" where
  "nr_pdcp_data_req_srb cr m k rb mui buffer =
     on_rb m k rb True (\<lambda>e.
       c_bind (nr_pdcp_entity_process_sdu cr e buffer mui (nr_max_pdcp_pdu_size (int (length buffer))))
         (\<lambda>(e', pdu). case pdu of None \<Rightarrow> Inr (e', None)
            | Some p \<Rightarrow> c_bind (c_check AssertFail (entity_type e' = NR_PDCP_SRB)) (\<lambda>_. Inr (e', Some p))))"

definition nr_pdcp_data_req_drb ::
  "crypto \<Rightarrow> nr_pdcp_ue_manager \<Rightarrow> protocol_ctxt \<Rightarrow> bool \<Rightarrow> int \<Rightarrow> int \<Rightarrow> byte list
     \<Rightarrow> (nr_pdcp_ue_manager \<times> byte list option option) c_result" where
  "nr_pdcp_data_req_drb cr m ctxt srb_flag rb mui buffer =
     c_bind (c_check AssertFail (\<not> srb_flag)) (\<lambda>_.
     if module_id ctxt \<noteq> 0 \<or> instance_id ctxt \<noteq> 0 \<or> eNB_index ctxt \<noteq> 0 then Inl ProcessExit
     else on_rb m (rntiMaybeUEid ctxt) rb False (\<lambda>e.
       nr_pdcp_entity_process_sdu cr e buffer mui (nr_max_pdcp_pdu_size (int (length buffer)))))"

definition nr_pdcp_check_integrity_srb ::
  "crypto \<Rightarrow> nr_pdcp_ue_manager \<Rightarrow> u64 \<Rightarrow> int \<Rightarrow> byte list \<Rightarrow> nr_pdcp_integrity_data
     \<Rightarrow> (nr_pdcp_ue_manager \<times> bool) c_result" where
  "nr_pdcp_check_integrity_srb cr m k srb_id msg mi =
     c_bind (on_rb m k srb_id True (\<lambda>e.
               c_bind (nr_pdcp_entity_check_integrity cr e msg mi) (\<lambda>b. Inr (e, b))))
       (\<lambda>(m', r). Inr (m', case r of None \<Rightarrow> False | Some b \<Rightarrow> b))"

subsection \<open>Configuration\<close>

text \<open>An entry of the list of SRBs to add: the identity and the optional t-Reordering.\<close>

definition add_srb ::
  "nr_pdcp_ue_manager \<Rightarrow> bool \<Rightarrow> u64 \<Rightarrow> int \<times> int option
     \<Rightarrow> nr_pdcp_entity_security_keys_and_algos \<Rightarrow> nr_pdcp_ue_manager c_result" where
  "add_srb m gnb k s security_parameters =
     (let (srb_id, t_Reord) = s
      in c_bind (case t_Reord of None \<Rightarrow> Inr (- 1) | Some t \<Rightarrow> decode_t_reordering t) (\<lambda>t_Reordering.
         let (m1, i) = nr_pdcp_manager_get_ue m k;
             u = ue_list m1 ! i
         in if nr_pdcp_get_rb u srb_id True \<noteq> None then Inr m1
            else c_bind (new_nr_pdcp_entity NR_PDCP_SRB gnb srb_id 0 False False SHORT_SN_SIZE t_Reordering (-1)
                           security_parameters) (\<lambda>e.
                 c_bind (nr_pdcp_ue_add_srb_pdcp_entity u srb_id e) (\<lambda>u'. Inr (put_ue m1 i u')))))"

fun nr_pdcp_add_srbs ::
  "nr_pdcp_ue_manager \<Rightarrow> bool \<Rightarrow> u64 \<Rightarrow> (int \<times> int option) list
     \<Rightarrow> nr_pdcp_entity_security_keys_and_algos \<Rightarrow> nr_pdcp_ue_manager c_result" where
  "nr_pdcp_add_srbs m gnb k [] p = Inr m"
| "nr_pdcp_add_srbs m gnb k (s # ss) p =
     c_bind (add_srb m gnb k s p) (\<lambda>m'. nr_pdcp_add_srbs m' gnb k ss p)"

text \<open>The fields of \<^verbatim>\<open>NR_PDCP_Config_t\<close> that are used; an optional element is an \<open>option\<close>.\<close>

record pdcp_drb_config =
  pdcp_SN_SizeUL :: "int option"
  pdcp_SN_SizeDL :: "int option"
  discardTimer :: "int option"
  integrityProtection :: bool

record pdcp_config_ie =
  drb_config :: "pdcp_drb_config option"
  t_Reordering_ie :: "int option"
  cipheringDisabled :: bool

record sdap_config =
  sdap_drb_id :: int
  sdap_pdusession_id :: int
  sdap_role :: int

definition nr_pdcp_add_drb ::
  "nr_pdcp_ue_manager \<Rightarrow> bool \<Rightarrow> u64 \<Rightarrow> pdcp_config_ie \<Rightarrow> sdap_config
     \<Rightarrow> nr_pdcp_entity_security_keys_and_algos \<Rightarrow> nr_pdcp_ue_manager c_result" where
  "nr_pdcp_add_drb m gnb k pdcp sdap p =
     (case drb_config pdcp of None \<Rightarrow> Inr m
      | Some d \<Rightarrow>
        c_bind (deref (pdcp_SN_SizeUL d)) (\<lambda>ul. c_bind (decode_sn_size_ul ul) (\<lambda>sn_size_ul.
        c_bind (deref (pdcp_SN_SizeDL d)) (\<lambda>dl. c_bind (decode_sn_size_dl dl) (\<lambda>sn_size_dl.
        c_bind (deref (discardTimer d)) (\<lambda>disc. c_bind (decode_discard_timer disc) (\<lambda>discard.
        c_bind (case t_Reordering_ie pdcp of None \<Rightarrow> Inr (- 1) | Some t \<Rightarrow> decode_t_reordering t) (\<lambda>t_reord.
        let actual = p\<lparr>ciphering_algorithm := if cipheringDisabled pdcp then 0 else ciphering_algorithm p,
                       integrity_algorithm := if integrityProtection d then integrity_algorithm p else 0\<rparr>;
            (m1, i) = nr_pdcp_manager_get_ue m k;
            u = ue_list m1 ! i
        in if nr_pdcp_get_rb u (sdap_drb_id sdap) False \<noteq> None then Inr m1
           else if sn_size_ul \<noteq> sn_size_dl then Inl ProcessExit
           else c_bind (new_nr_pdcp_entity NR_PDCP_DRB_AM gnb (sdap_drb_id sdap) (sdap_pdusession_id sdap)
                          (sdap_role sdap AND (2 OR 8) \<noteq> 0) (sdap_role sdap AND (1 OR 4) \<noteq> 0)
                          (nat sn_size_dl) t_reord discard actual) (\<lambda>e.
                c_bind (nr_pdcp_ue_add_drb_pdcp_entity u (sdap_drb_id sdap) e) (\<lambda>u'.
                Inr (put_ue m1 i u')))))))))))"

definition nr_pdcp_get_drb_ids_for_pdusession ::
  "nr_pdcp_ue_manager \<Rightarrow> u64 \<Rightarrow> int \<Rightarrow> nr_pdcp_ue_manager \<times> int list" where
  "nr_pdcp_get_drb_ids_for_pdusession m k ps =
     (let (m1, i) = nr_pdcp_manager_get_ue m k
      in (m1, map rb_id (filter (\<lambda>e. pdusession_id e = ps) (List.map_filter id (drb (ue_list m1 ! i))))))"

definition nr_pdcp_remove_UE :: "nr_pdcp_ue_manager \<Rightarrow> u64 \<Rightarrow> nr_pdcp_ue_manager" where
  "nr_pdcp_remove_UE m k = fst (nr_pdcp_manager_remove_ue m k)"

definition nr_pdcp_config_set_security ::
  "nr_pdcp_ue_manager \<Rightarrow> u64 \<Rightarrow> int \<Rightarrow> bool \<Rightarrow> nr_pdcp_entity_security_keys_and_algos
     \<Rightarrow> (nr_pdcp_ue_manager \<times> unit option) c_result" where
  "nr_pdcp_config_set_security m k rb is_srb p =
     on_rb m k rb is_srb (\<lambda>e. c_bind (nr_pdcp_entity_set_security e p) (\<lambda>e'. Inr (e', ())))"

definition nr_pdcp_suspend_srb ::
  "nr_pdcp_ue_manager \<Rightarrow> u64 \<Rightarrow> int \<Rightarrow> (nr_pdcp_ue_manager \<times> nr_pdcp_sdu list option) c_result" where
  "nr_pdcp_suspend_srb m k srb_id = on_rb m k srb_id True (\<lambda>e. Inr (nr_pdcp_entity_suspend e))"

definition nr_pdcp_suspend_drb ::
  "nr_pdcp_ue_manager \<Rightarrow> u64 \<Rightarrow> int \<Rightarrow> (nr_pdcp_ue_manager \<times> nr_pdcp_sdu list option) c_result" where
  "nr_pdcp_suspend_drb m k drb_id = on_rb m k drb_id False (\<lambda>e. Inr (nr_pdcp_entity_suspend e))"

definition nr_pdcp_reconfigure_srb ::
  "nr_pdcp_ue_manager \<Rightarrow> u64 \<Rightarrow> int \<Rightarrow> int \<Rightarrow> (nr_pdcp_ue_manager \<times> unit option) c_result" where
  "nr_pdcp_reconfigure_srb m k srb_id t =
     on_rb m k srb_id True (\<lambda>e.
       c_bind (decode_t_reordering t) (\<lambda>decoded_t_reordering. Inr (e\<lparr>t_reordering := decoded_t_reordering\<rparr>, ())))"

text \<open>The reconfiguration of an entity from an optional configuration.\<close>

definition reconfigure_entity ::
  "pdcp_config_ie option \<Rightarrow> nr_pdcp_entity \<Rightarrow> nr_pdcp_entity c_result" where
  "reconfigure_entity cfg e =
     (case cfg of None \<Rightarrow> Inr e
      | Some c \<Rightarrow>
        c_bind (case t_Reordering_ie c of Some t \<Rightarrow> decode_t_reordering t | None \<Rightarrow> Inr (- 1)) (\<lambda>t.
        let e = e\<lparr>t_reordering := t\<rparr>
        in case drb_config c of None \<Rightarrow> Inr e
           | Some d \<Rightarrow>
             c_bind (case discardTimer d of None \<Rightarrow> Inr e
                     | Some x \<Rightarrow> c_bind (decode_discard_timer x) (\<lambda>v. Inr (e\<lparr>discard_timer := v\<rparr>))) (\<lambda>e.
             c_bind (case pdcp_SN_SizeUL d of None \<Rightarrow> Inr (e, False)
                     | Some x \<Rightarrow> c_bind (decode_sn_size_ul x) (\<lambda>v. Inr (e\<lparr>sn_size := nat v\<rparr>, True))) (\<lambda>(e, size_set).
             case pdcp_SN_SizeDL d of None \<Rightarrow> Inr e
             | Some x \<Rightarrow> c_bind (decode_sn_size_dl x) (\<lambda>v.
                 c_bind (c_check AssertFail (\<not> size_set \<or> nat v = sn_size e)) (\<lambda>_. Inr (e\<lparr>sn_size := nat v\<rparr>)))))))"

definition nr_pdcp_reconfigure_drb ::
  "nr_pdcp_ue_manager \<Rightarrow> u64 \<Rightarrow> int \<Rightarrow> pdcp_config_ie option
     \<Rightarrow> (nr_pdcp_ue_manager \<times> unit option) c_result" where
  "nr_pdcp_reconfigure_drb m k drb_id cfg =
     on_rb m k drb_id False (\<lambda>e. c_bind (reconfigure_entity cfg e) (\<lambda>e'. Inr (e', ())))"

text \<open>The release calls index the arrays without a check of the identity.\<close>

definition nr_pdcp_release_srb :: "nr_pdcp_ue_manager \<Rightarrow> u64 \<Rightarrow> int \<Rightarrow> nr_pdcp_ue_manager c_result" where
  "nr_pdcp_release_srb m k srb_id =
     (let (m1, i) = nr_pdcp_manager_get_ue m k; u = ue_list m1 ! i
      in if srb_id < 1 \<or> srb_id > int (length (srb u)) then Inl OutOfBounds
         else if srb u ! nat (srb_id - 1) \<noteq> None then Inr (put_ue m1 i (put_rb u srb_id True None))
         else Inr m1)"

text \<open>With the PDU session of the call of \<^verbatim>\<open>nr_sdap_release_drb\<close>, which is the first thing that a release does.\<close>

definition nr_pdcp_release_drb ::
  "nr_pdcp_ue_manager \<Rightarrow> u64 \<Rightarrow> int \<Rightarrow> (nr_pdcp_ue_manager \<times> int option \<times> nr_pdcp_sdu list) c_result" where
  "nr_pdcp_release_drb m k drb_id =
     (let (m1, i) = nr_pdcp_manager_get_ue m k; u = ue_list m1 ! i
      in if drb_id < 1 \<or> drb_id > int (length (drb u)) then Inl OutOfBounds
         else case drb u ! nat (drb_id - 1) of
                Some e \<Rightarrow> Inr (put_ue m1 i (put_rb u drb_id False None), Some (pdusession_id e), snd (nr_pdcp_entity_release e))
              | None \<Rightarrow> Inr (m1, None, []))"

definition nr_pdcp_reestablishment ::
  "nr_pdcp_ue_manager \<Rightarrow> u64 \<Rightarrow> int \<Rightarrow> bool \<Rightarrow> nr_pdcp_entity_security_keys_and_algos
     \<Rightarrow> (nr_pdcp_ue_manager \<times> nr_pdcp_sdu list option) c_result" where
  "nr_pdcp_reestablishment m k rb srb_flag p = on_rb m k rb srb_flag (\<lambda>e. reestablish_entity e p)"

definition nr_pdcp_get_statistics ::
  "nr_pdcp_ue_manager \<Rightarrow> u64 \<Rightarrow> bool \<Rightarrow> int \<Rightarrow> (nr_pdcp_ue_manager \<times> nr_pdcp_statistics option) c_result" where
  "nr_pdcp_get_statistics m k srb_flag rb =
     on_rb m k rb srb_flag (\<lambda>e. Inr (e, nr_pdcp_entity_get_stats e))"

definition nr_pdcp_get_num_ues :: "nr_pdcp_ue_manager \<Rightarrow> nat \<Rightarrow> nat \<times> u64 list" where
  "nr_pdcp_get_num_ues m len =
     (nr_pdcp_manager_get_ue_count m, map ue_id (take len (nr_pdcp_manager_get_ue_list m)))"

definition nr_pdcp_count_update ::
  "nr_pdcp_ue_manager \<Rightarrow> u64 \<Rightarrow> int \<Rightarrow> nr_pdcp_count \<Rightarrow> nr_pdcp_count \<Rightarrow> nat
     \<Rightarrow> (nr_pdcp_ue_manager \<times> unit option) c_result" where
  "nr_pdcp_count_update m k drb_id dl ul n =
     on_rb m k drb_id False (\<lambda>e. Inr (nr_pdcp_entity_set_count_ul (nr_pdcp_entity_set_count_dl e dl n) ul n, ()))"

definition nr_pdcp_get_drb_count_values ::
  "nr_pdcp_ue_manager \<Rightarrow> u64 \<Rightarrow> int \<Rightarrow> (nr_pdcp_ue_manager \<times> (nr_pdcp_count \<times> nr_pdcp_count) option) c_result" where
  "nr_pdcp_get_drb_count_values m k rb =
     on_rb m k rb False (\<lambda>e. Inr (e, (nr_pdcp_entity_get_count_ul e, nr_pdcp_entity_get_count_dl e)))"

subsection \<open>The two queues\<close>

definition RLC_DATA_REQ_QUEUE_SIZE :: nat where "RLC_DATA_REQ_QUEUE_SIZE = 10000"
definition PDCP_DATA_IND_QUEUE_SIZE :: nat where "PDCP_DATA_IND_QUEUE_SIZE = 10000"

record rlc_data_req_queue_item =
  rq_ctxt :: protocol_ctxt
  rq_srb_flag :: bool
  rq_rb_id :: int
  rq_mui :: int
  rq_confirm :: int
  rq_sdu :: "byte list"

record pdcp_data_ind_queue_item =
  pi_ctxt :: protocol_ctxt
  pi_srb_flag :: bool
  pi_rb_id :: int
  pi_sdu :: "byte list"

definition enqueue_rlc_data_req ::
  "rlc_data_req_queue_item ring \<Rightarrow> rlc_data_req_queue_item \<Rightarrow> rlc_data_req_queue_item ring option" where
  "enqueue_rlc_data_req = ring_put RLC_DATA_REQ_QUEUE_SIZE"

definition enqueue_pdcp_data_ind ::
  "pdcp_data_ind_queue_item ring \<Rightarrow> pdcp_data_ind_queue_item \<Rightarrow> pdcp_data_ind_queue_item ring option" where
  "enqueue_pdcp_data_ind = ring_put PDCP_DATA_IND_QUEUE_SIZE"

text \<open>
  The loops of \<^verbatim>\<open>rlc_data_req_thread\<close> and \<^verbatim>\<open>pdcp_data_ind_thread\<close> against the threads that enqueue: the
  position of the oldest item is read under the lock, the item is handled without it, and then the
  item is taken out under the lock. What is handled is the third component.
\<close>

definition rlc_data_req_thread ::
  "rlc_data_req_queue_item ring \<times> ring_phase \<times> rlc_data_req_queue_item list \<Rightarrow> rlc_data_req_queue_item ring_event list
     \<Rightarrow> (rlc_data_req_queue_item ring \<times> ring_phase \<times> rlc_data_req_queue_item list) option" where
  "rlc_data_req_thread = threads enqueue_rlc_data_req ring_peek ring_slot (ring_pop RLC_DATA_REQ_QUEUE_SIZE)"

definition pdcp_data_ind_thread ::
  "pdcp_data_ind_queue_item ring \<times> ring_phase \<times> pdcp_data_ind_queue_item list \<Rightarrow> pdcp_data_ind_queue_item ring_event list
     \<Rightarrow> (pdcp_data_ind_queue_item ring \<times> ring_phase \<times> pdcp_data_ind_queue_item list) option" where
  "pdcp_data_ind_thread = threads enqueue_pdcp_data_ind ring_peek ring_slot (ring_pop PDCP_DATA_IND_QUEUE_SIZE)"

text \<open>C22: the queues between PDCP and RLC lose, repeat and reorder nothing, whatever the interleaving:
  in any run of enqueues and of the steps of the worker thread from an empty queue of 10000 slots,
  what the worker has handled, then what is in the queue, is what was enqueued, in that order; and
  an item being handled without the lock is never overwritten.\<close>

theorem pdcp_queues_fifo:
  assumes "ring_ok 10000 q" and "ring_items q = []" and "ring_ok 10000 pq" and "ring_items pq = []"
    and "rlc_data_req_thread (q, Idle, []) evs = Some (q', ph, out)"
    and "pdcp_data_ind_thread (pq, Idle, []) evs2 = Some (pq', ph2, out2)"
  shows "puts evs = out @ (case ph of Worked _ \<Rightarrow> tl (ring_items q') | _ \<Rightarrow> ring_items q') \<and>
         puts evs2 = out2 @ (case ph2 of Worked _ \<Rightarrow> tl (ring_items pq') | _ \<Rightarrow> ring_items pq')"
proof -
  have "ring.consistent 10000 [] (q, Idle, [])" "ring.consistent 10000 [] (pq, Idle, [])"
    using assms(1-4) by (simp_all add: ring.consistent_def)
  then have "ring.consistent 10000 ([] @ puts evs) (q', ph, out)" "ring.consistent 10000 ([] @ puts evs2) (pq', ph2, out2)"
    using assms(5,6)
    by (auto simp: rlc_data_req_thread_def enqueue_rlc_data_req_def RLC_DATA_REQ_QUEUE_SIZE_def
        pdcp_data_ind_thread_def enqueue_pdcp_data_ind_def PDCP_DATA_IND_QUEUE_SIZE_def
        intro: ring.threads_consistent simp del: append_Nil)
  then show ?thesis by (auto simp: ring.consistent_def split: ring_phase.splits)
qed

definition any_ctxt :: protocol_ctxt where
  "any_ctxt = \<lparr>module_id = 0, instance_id = 0, eNB_index = 0, brOption = 0, rntiMaybeUEid = 7\<rparr>"

definition rq :: "byte list \<Rightarrow> rlc_data_req_queue_item" where
  "rq b = \<lparr>rq_ctxt = any_ctxt, rq_srb_flag = False, rq_rb_id = 1, rq_mui = 0, rq_confirm = 0, rq_sdu = b\<rparr>"

definition pi :: "byte list \<Rightarrow> pdcp_data_ind_queue_item" where
  "pi b = \<lparr>pi_ctxt = any_ctxt, pi_srb_flag = False, pi_rb_id = 1, pi_sdu = b\<rparr>"

theorem pdcp_queues_fifo_witness:
  "\<exists>q' pq'. rlc_data_req_thread (\<lparr>ring_q = replicate 10000 (rq []), ring_start = 9999, ring_length = 0\<rparr>, Idle, [])
       [Put (rq [1]), Peek, Put (rq [2]), Work, Drop] = Some (q', Idle, [rq [1]]) \<and> ring_items q' = [rq [2]] \<and>
     pdcp_data_ind_thread (\<lparr>ring_q = replicate 10000 (pi []), ring_start = 0, ring_length = 0\<rparr>, Idle, [])
       [Put (pi [3]), Peek, Work] = Some (pq', Worked 0, [pi [3]])"
proof -
  let ?q = "\<lparr>ring_q = replicate 10000 (rq []), ring_start = 9999, ring_length = 0\<rparr>"
  let ?pq = "\<lparr>ring_q = replicate 10000 (pi []), ring_start = 0, ring_length = 0\<rparr>"
  obtain q' where 1: "rlc_data_req_thread (?q, Idle, []) [Put (rq [1]), Peek, Put (rq [2]), Work, Drop] = Some (q', Idle, [rq [1]])"
    by (simp add: rlc_data_req_thread_def enqueue_rlc_data_req_def RLC_DATA_REQ_QUEUE_SIZE_def ring_put_def
        ring_peek_def ring_slot_def ring_pop_def nth_list_update)
  obtain pq' where 2: "pdcp_data_ind_thread (?pq, Idle, []) [Put (pi [3]), Peek, Work] = Some (pq', Worked 0, [pi [3]])"
    by (simp add: pdcp_data_ind_thread_def enqueue_pdcp_data_ind_def PDCP_DATA_IND_QUEUE_SIZE_def ring_put_def
        ring_peek_def ring_slot_def ring_pop_def nth_list_update)
  have "ring_ok 10000 ?q" "ring_items ?q = []" "ring_ok 10000 ?pq" "ring_items ?pq = []"
    by (simp_all add: ring_ok_def ring_items_def)
  from pdcp_queues_fifo [OF this 1 2] show ?thesis using 1 2 by (intro exI [of _ q'] exI [of _ pq']) simp
qed

subsection \<open>The invariant of the manager\<close>

text \<open>The identity of an entity and the consistency of its security, which no call may change.\<close>

definition keeps :: "nr_pdcp_entity \<Rightarrow> nr_pdcp_entity \<Rightarrow> bool" where
  "keeps e e' \<longleftrightarrow> entity_type e' = entity_type e \<and> rb_id e' = rb_id e \<and> (sec_inv e \<longrightarrow> sec_inv e')"

lemma keeps_refl [simp]: "keeps e e"
  by (simp add: keeps_def)

lemma keeps_trans: "keeps e f \<Longrightarrow> keeps f g \<Longrightarrow> keeps e g"
  by (simp add: keeps_def)

lemma keeps_updates [simp]:
  "keeps e (f\<lparr>stats := st\<rparr>) = keeps e f" "keeps e (f\<lparr>tx_next := c\<rparr>) = keeps e f"
  "keeps e (f\<lparr>rx_next := c\<rparr>) = keeps e f" "keeps e (f\<lparr>rx_deliv := c\<rparr>) = keeps e f"
  "keeps e (f\<lparr>rx_reord := c\<rparr>) = keeps e f" "keeps e (f\<lparr>rx_list := l\<rparr>) = keeps e f"
  "keeps e (f\<lparr>rx_size := n\<rparr>) = keeps e f" "keeps e (f\<lparr>t_current := t\<rparr>) = keeps e f"
  "keeps e (f\<lparr>t_reordering_start := t\<rparr>) = keeps e f" "keeps e (f\<lparr>t_reordering := r\<rparr>) = keeps e f"
  "keeps e (f\<lparr>discard_timer := r\<rparr>) = keeps e f" "keeps e (f\<lparr>sn_size := k\<rparr>) = keeps e f"
  "keeps e (f\<lparr>entity_suspended := b\<rparr>) = keeps e f"
  by (simp_all add: keeps_def sec_inv_def cipher_inv_def integrity_inv_def)

lemma keeps_delivered [simp]: "keeps e (delivered_state f ds) = keeps e f"
  by (simp add: delivered_state_def)

lemma keeps_rx_timer [simp]: "keeps e (rx_timer f) = keeps e f"
  by (simp add: rx_timer_def Let_def)

lemma keeps_rx_store [simp]: "keeps e (rx_store f sdu n) = keeps e f"
  by (simp add: rx_store_def Let_def)

lemma keeps_set_security:
  assumes "nr_pdcp_entity_set_security e p = Inr e'"
  shows "keeps e e'"
  using set_security_frame [OF assms] set_security_inv [OF assms] by (simp add: keeps_def)

lemma keeps_recv:
  assumes "nr_pdcp_entity_recv_pdu cr e b = Inr (e', ds)"
  shows "keeps e e'"
  using assms
proof (cases rule: recv_pdu_cases)
  case (accepted st sdu n)
  then show ?thesis
    by (auto simp: rx_accept_def rx_deliver_def deliver_contiguous_eq Let_def split: if_splits)
qed simp

lemma keeps_process:
  assumes "nr_pdcp_entity_process_sdu cr e b i m = Inr (e', r)"
  shows "keeps e e'"
  using process_sdu_frame [OF assms] by auto

lemma keeps_suspend: "nr_pdcp_entity_suspend e = (e', ds) \<Longrightarrow> keeps e e'"
  by (auto simp: nr_pdcp_entity_suspend_def deliver_all_sdus_eq Let_def split: if_splits)

lemma keeps_secured:
  assumes "nr_pdcp_entity_set_security g p = Inr f" and "keeps e g"
  shows "keeps e f"
  using keeps_trans [OF assms(2) keeps_set_security [OF assms(1)]] .

lemma keeps_reestablish:
  assumes "reestablish_entity e p = Inr (e', ds)"
  shows "keeps e e'"
  using assms
  by (cases "entity_type e"; cases "t_reordering_start e = 0")
    (auto simp: reestablish_entity_def nr_pdcp_entity_reestablish_drb_am_def
      nr_pdcp_entity_reestablish_drb_um_def nr_pdcp_entity_reestablish_srb_def c_bind_eq_Inr_conv
      free_rx_list_def deliver_all_sdus_eq Let_def, (erule keeps_secured, simp)+)

lemma reconfigure_fields:
  assumes "reconfigure_entity cfg e = Inr e'"
  shows "e' = e\<lparr>t_reordering := t_reordering e', discard_timer := discard_timer e', sn_size := sn_size e'\<rparr>"
proof (cases cfg)
  case None
  with assms show ?thesis by (simp add: reconfigure_entity_def)
next
  case (Some c)
  show ?thesis
  proof (cases "drb_config c")
    case None
    with assms Some show ?thesis by (auto simp: reconfigure_entity_def c_bind_eq_Inr_conv Let_def)
  next
    case d: (Some d)
    show ?thesis
      using assms unfolding reconfigure_entity_def Some d Let_def option.case c_bind_eq_Inr_conv
      by (cases "discardTimer d"; cases "pdcp_SN_SizeUL d"; cases "pdcp_SN_SizeDL d") (auto simp: c_bind_eq_Inr_conv)
  qed
qed

lemma reconfigure_size:
  assumes "reconfigure_entity (Some c) e = Inr e'" and "drb_config c = Some d" and "pdcp_SN_SizeDL d = Some x"
    and "decode_sn_size_dl x = Inr v"
  shows "sn_size e' = nat v"
  using assms by (auto simp: reconfigure_entity_def c_bind_eq_Inr_conv Let_def)

lemma keeps_reconfigure:
  assumes "reconfigure_entity cfg e = Inr e'"
  shows "keeps e e'"
  by (subst reconfigure_fields [OF assms]) simp

definition entity_at :: "nr_pdcp_entity_type \<Rightarrow> nat \<Rightarrow> nr_pdcp_entity option \<Rightarrow> bool" where
  "entity_at ty j x \<longleftrightarrow> (case x of None \<Rightarrow> True
     | Some e \<Rightarrow> entity_type e = ty \<and> rb_id e = int j + 1 \<and> sec_inv e)"

definition ue_ok :: "nr_pdcp_ue \<Rightarrow> bool" where
  "ue_ok u \<longleftrightarrow> length (srb u) = 3 \<and> length (drb u) = MAX_DRBS_PER_UE \<and> srb u ! 2 = None \<and>
     (\<forall>j < 2. entity_at NR_PDCP_SRB j (srb u ! j)) \<and>
     (\<forall>j < MAX_DRBS_PER_UE. entity_at NR_PDCP_DRB_AM j (drb u ! j))"

definition mgr_ok :: "nr_pdcp_ue_manager \<Rightarrow> bool" where
  "mgr_ok m \<longleftrightarrow> distinct (map ue_id (ue_list m)) \<and> (\<forall>u \<in> set (ue_list m). ue_ok u)"

lemma empty_ue_ok: "ue_ok (empty_ue k)"
  by (simp add: ue_ok_def empty_ue_def entity_at_def MAX_DRBS_PER_UE_def)

lemma get_ue_ok:
  assumes "mgr_ok m" and "nr_pdcp_manager_get_ue m k = (m1, i)"
  shows "mgr_ok m1" and "i < length (ue_list m1)" and "ue_ok (ue_list m1 ! i)" and "ue_id (ue_list m1 ! i) = k"
proof -
  have e: "ue_list m1 = fst (ue_list_get (ue_list m) k)" "i = snd (ue_list_get (ue_list m) k)"
    using assms(2) by (auto simp: nr_pdcp_manager_get_ue_def split: prod.splits)
  have "set (ue_list m1) \<subseteq> insert (empty_ue k) (set (ue_list m))"
    by (auto simp: e ue_list_get_def Let_def)
  then show ok: "mgr_ok m1"
    using assms(1) pdcp_ues.get_distinct [of "ue_list m" k] empty_ue_ok by (auto simp: mgr_ok_def e)
  show i: "i < length (ue_list m1)" and "ue_id (ue_list m1 ! i) = k"
    using pdcp_ues.get_position [of "ue_list m" k] by (simp_all add: e)
  show "ue_ok (ue_list m1 ! i)" using ok i by (simp add: mgr_ok_def)
qed

lemma put_ue_ok:
  assumes "mgr_ok m" and "i < length (ue_list m)" and "ue_ok u" and "ue_id u = ue_id (ue_list m ! i)"
  shows "mgr_ok (put_ue m i u)"
proof -
  have "map ue_id ((ue_list m)[i := u]) = map ue_id (ue_list m)"
    using assms(2,4) by (simp add: map_update list_update_same_conv)
  then show ?thesis
    using assms(1,3) set_update_subset_insert [of "ue_list m" i u] by (auto simp: mgr_ok_def put_ue_def)
qed

lemma put_rb_ok:
  assumes "ue_ok u" and "nr_pdcp_get_rb u rb flag = Some e" and "keeps e e'"
  shows "ue_ok (put_rb u rb flag (Some e'))" and "ue_id (put_rb u rb flag (Some e')) = ue_id u"
proof -
  have "ue_ok (put_rb u rb flag (Some e'))"
    using assms
    by (cases flag)
      (auto simp: ue_ok_def put_rb_def nr_pdcp_get_rb_def entity_at_def keeps_def nth_list_update
        split: if_splits option.splits)
  then show "ue_ok (put_rb u rb flag (Some e'))" "ue_id (put_rb u rb flag (Some e')) = ue_id u"
    by (simp_all add: put_rb_def)
qed

lemma on_rb_ok:
  assumes "mgr_ok m" and "on_rb m k rb flag f = Inr (m', x)" and "\<And>e e' y. f e = Inr (e', y) \<Longrightarrow> keeps e e'"
  shows "mgr_ok m'"
proof -
  obtain m1 i where g: "nr_pdcp_manager_get_ue m k = (m1, i)" by fastforce
  note ok = get_ue_ok [OF assms(1) g]
  show ?thesis
  proof (cases "nr_pdcp_get_rb (ue_list m1 ! i) rb flag")
    case None
    with assms(2) g ok show ?thesis by (auto simp: on_rb_def)
  next
    case (Some e)
    with assms(2) g obtain e' y where e': "f e = Inr (e', y)"
      "m' = put_ue m1 i (put_rb (ue_list m1 ! i) rb flag (Some e'))"
      by (auto simp: on_rb_def c_bind_eq_Inr_conv)
    note p = put_rb_ok [OF ok(3) Some assms(3) [OF e'(1)]]
    show ?thesis unfolding e'(2) by (rule put_ue_ok [OF ok(1,2) p])
  qed
qed

datatype api_call =
    DataInd protocol_ctxt bool int "byte list"
  | DataReqSrb u64 int int "byte list"
  | DataReqDrb protocol_ctxt bool int int "byte list"
  | CheckIntegrity u64 int "byte list" nr_pdcp_integrity_data
  | AddSrbs bool u64 "(int \<times> int option) list" nr_pdcp_entity_security_keys_and_algos
  | AddDrb bool u64 pdcp_config_ie sdap_config nr_pdcp_entity_security_keys_and_algos
  | RemoveUE u64
  | SetSecurity u64 int bool nr_pdcp_entity_security_keys_and_algos
  | SuspendSrb u64 int
  | SuspendDrb u64 int
  | ReconfigureSrb u64 int int
  | ReconfigureDrb u64 int "pdcp_config_ie option"
  | ReleaseSrb u64 int
  | ReleaseDrb u64 int
  | Reestablish u64 int bool nr_pdcp_entity_security_keys_and_algos
  | CountUpdate u64 int nr_pdcp_count nr_pdcp_count nat
  | TimerPass u64

definition drop_result :: "('m \<times> 'a) c_result \<Rightarrow> 'm c_result" where
  "drop_result r = c_bind r (\<lambda>(m, _). Inr m)"

fun api_step :: "crypto \<Rightarrow> nr_pdcp_ue_manager \<Rightarrow> api_call \<Rightarrow> nr_pdcp_ue_manager c_result" where
  "api_step cr m (DataInd ctxt flag rb b) = drop_result (do_pdcp_data_ind cr m ctxt flag rb b)"
| "api_step cr m (DataReqSrb k rb mui b) = drop_result (nr_pdcp_data_req_srb cr m k rb mui b)"
| "api_step cr m (DataReqDrb ctxt flag rb mui b) = drop_result (nr_pdcp_data_req_drb cr m ctxt flag rb mui b)"
| "api_step cr m (CheckIntegrity k rb b mi) = drop_result (nr_pdcp_check_integrity_srb cr m k rb b mi)"
| "api_step cr m (AddSrbs gnb k ss p) = nr_pdcp_add_srbs m gnb k ss p"
| "api_step cr m (AddDrb gnb k pdcp sdap p) = nr_pdcp_add_drb m gnb k pdcp sdap p"
| "api_step cr m (RemoveUE k) = Inr (nr_pdcp_remove_UE m k)"
| "api_step cr m (SetSecurity k rb flag p) = drop_result (nr_pdcp_config_set_security m k rb flag p)"
| "api_step cr m (SuspendSrb k rb) = drop_result (nr_pdcp_suspend_srb m k rb)"
| "api_step cr m (SuspendDrb k rb) = drop_result (nr_pdcp_suspend_drb m k rb)"
| "api_step cr m (ReconfigureSrb k rb t) = drop_result (nr_pdcp_reconfigure_srb m k rb t)"
| "api_step cr m (ReconfigureDrb k rb c) = drop_result (nr_pdcp_reconfigure_drb m k rb c)"
| "api_step cr m (ReleaseSrb k rb) = nr_pdcp_release_srb m k rb"
| "api_step cr m (ReleaseDrb k rb) = drop_result (nr_pdcp_release_drb m k rb)"
| "api_step cr m (Reestablish k rb flag p) = drop_result (nr_pdcp_reestablishment m k rb flag p)"
| "api_step cr m (CountUpdate k rb dl ul n) = drop_result (nr_pdcp_count_update m k rb dl ul n)"
| "api_step cr m (TimerPass now) = Inr (fst (nr_pdcp_timer_pass now m))"

lemma drop_result_Inr: "drop_result r = Inr m' \<longleftrightarrow> (\<exists>x. r = Inr (m', x))"
  by (cases r) (auto simp: drop_result_def split: prod.splits)

lemma new_entity_at:
  assumes "new_nr_pdcp_entity ty gnb rb ps srx stx n tr dt p = Inr e" and "rb = int j + 1"
  shows "entity_at ty j (Some e)"
  using new_entity_inv(1) [OF assms(1)] set_security_frame [OF assms(1) [unfolded new_nr_pdcp_entity_def]] assms(2)
  by (simp add: entity_at_def)

lemma add_srb_ok:
  assumes "mgr_ok m" and "add_srb m gnb k s p = Inr m'"
  shows "mgr_ok m'"
proof -
  obtain m1 i where g: "nr_pdcp_manager_get_ue m k = (m1, i)" by fastforce
  obtain n t where s: "s = (n, t)" by (cases s)
  note ok = get_ue_ok [OF assms(1) g]
  show ?thesis
  proof (cases "nr_pdcp_get_rb (ue_list m1 ! i) n True")
    case (Some e)
    with assms(2) g ok s show ?thesis by (auto simp: add_srb_def c_bind_eq_Inr_conv)
  next
    case None
    with assms(2) g s obtain tr e u' where
      e: "new_nr_pdcp_entity NR_PDCP_SRB gnb n 0 False False 12 tr (-1) p = Inr e"
      and u': "nr_pdcp_ue_add_srb_pdcp_entity (ue_list m1 ! i) n e = Inr u'" and m': "m' = put_ue m1 i u'"
      by (auto simp: add_srb_def c_bind_eq_Inr_conv Let_def)
    then have n: "n = 1 \<or> n = 2" by (auto simp: nr_pdcp_ue_add_srb_pdcp_entity_def split: if_splits)
    have "entity_at NR_PDCP_SRB (nat (n - 1)) (Some e)" by (rule new_entity_at [OF e]) (use n in auto)
    with u' n ok(3) have "ue_ok u' \<and> ue_id u' = ue_id (ue_list m1 ! i)"
      by (auto simp: nr_pdcp_ue_add_srb_pdcp_entity_def ue_ok_def nth_list_update Let_def split: if_splits)
    then show ?thesis unfolding m' by (intro put_ue_ok [OF ok(1,2)]) auto
  qed
qed

lemma add_srbs_ok: "mgr_ok m \<Longrightarrow> nr_pdcp_add_srbs m gnb k ss p = Inr m' \<Longrightarrow> mgr_ok m'"
  by (induction ss arbitrary: m) (auto simp: c_bind_eq_Inr_conv dest: add_srb_ok)

lemma add_drb_ok:
  assumes "mgr_ok m" and "nr_pdcp_add_drb m gnb k pdcp sdap p = Inr m'"
  shows "mgr_ok m'"
proof (cases "drb_config pdcp")
  case None
  with assms show ?thesis by (simp add: nr_pdcp_add_drb_def)
next
  case (Some d)
  obtain m1 i where g: "nr_pdcp_manager_get_ue m k = (m1, i)" by fastforce
  let ?n = "sdap_drb_id sdap"
  note ok = get_ue_ok [OF assms(1) g]
  show ?thesis
  proof (cases "m' = m1")
    case True
    with ok show ?thesis by simp
  next
    case False
    with assms(2) Some g obtain srx stx sz tr dt q e u' where
      e: "new_nr_pdcp_entity NR_PDCP_DRB_AM gnb ?n (sdap_pdusession_id sdap) srx stx sz tr dt q = Inr e"
      and u': "nr_pdcp_ue_add_drb_pdcp_entity (ue_list m1 ! i) ?n e = Inr u'" and m': "m' = put_ue m1 i u'"
      by (auto simp: nr_pdcp_add_drb_def c_bind_eq_Inr_conv Let_def split: option.splits if_splits)
    then have n: "1 \<le> ?n" "?n \<le> int MAX_DRBS_PER_UE"
      by (auto simp: nr_pdcp_ue_add_drb_pdcp_entity_def split: if_splits)
    have "entity_at NR_PDCP_DRB_AM (nat (?n - 1)) (Some e)" by (rule new_entity_at [OF e]) (use n in auto)
    with u' n ok(3) have "ue_ok u' \<and> ue_id u' = ue_id (ue_list m1 ! i)"
      by (auto simp: nr_pdcp_ue_add_drb_pdcp_entity_def ue_ok_def nth_list_update Let_def split: if_splits)
    then show ?thesis unfolding m' by (intro put_ue_ok [OF ok(1,2)]) auto
  qed
qed

lemma nth_update_if: "j < length l \<Longrightarrow> l[i := x] ! j = (if i = j then x else l ! j)"
  by (cases "i < length l") auto

lemma clear_rb_ok: "ue_ok u \<Longrightarrow> 1 \<le> rb \<Longrightarrow> ue_ok (put_rb u rb flag None) \<and> ue_id (put_rb u rb flag None) = ue_id u"
  by (cases flag) (auto simp: ue_ok_def put_rb_def entity_at_def nth_update_if)

lemma release_ok:
  assumes "mgr_ok m"
  shows "nr_pdcp_release_srb m k rb = Inr m' \<Longrightarrow> mgr_ok m'"
    and "nr_pdcp_release_drb m k rb = Inr (m', ds) \<Longrightarrow> mgr_ok m'"
proof -
  obtain m1 i where g: "nr_pdcp_manager_get_ue m k = (m1, i)" by fastforce
  note ok = get_ue_ok [OF assms g]
  have p: "mgr_ok (put_ue m1 i (put_rb (ue_list m1 ! i) rb flag None))" if "1 \<le> rb" for flag
    using put_ue_ok [OF ok(1,2)] clear_rb_ok [OF ok(3) that] by simp
  show "nr_pdcp_release_srb m k rb = Inr m' \<Longrightarrow> mgr_ok m'"
    using p ok(1) by (auto simp: nr_pdcp_release_srb_def g Let_def split: if_splits)
  show "nr_pdcp_release_drb m k rb = Inr (m', ds) \<Longrightarrow> mgr_ok m'"
    using p ok(1) by (auto simp: nr_pdcp_release_drb_def g Let_def split: if_splits option.splits)
qed

lemma remove_ue_ok: "mgr_ok m \<Longrightarrow> mgr_ok (nr_pdcp_remove_UE m k)"
  using pdcp_ues.remove_distinct [of "ue_list m" k]
  by (auto simp: mgr_ok_def nr_pdcp_remove_UE_def nr_pdcp_manager_remove_ue_def pdcp_ues.remove_eq
      dest: in_set_takeD in_set_dropD)

lemma keeps_set_time: "keeps e (fst (nr_pdcp_entity_set_time e now))"
  by (auto simp: nr_pdcp_entity_set_time_def check_t_reordering_def deliver_below_eq deliver_contiguous_eq Let_def)

lemma tick_entity_at: "entity_at ty j x \<Longrightarrow> entity_at ty j (fst (tick_entity now x))"
  using keeps_set_time by (auto simp: entity_at_def tick_entity_def keeps_def split_beta split: option.splits)

lemma tick_first_nth:
  assumes "j < length es"
  shows "fst (tick_first n now es) ! j = (if j < n then fst (tick_entity now (es ! j)) else es ! j)"
  using assms by (auto simp: tick_first_def Let_def nth_append min_def)

lemma tick_first_length [simp]: "length (fst (tick_first n now es)) = length es"
  by (simp add: tick_first_def Let_def)

lemma tick_ue_eq: "fst (tick_ue now u) = u\<lparr>srb := fst (tick_first 2 now (srb u)), drb := fst (tick_first 5 now (drb u))\<rparr>"
  by (simp add: tick_ue_def split_beta Let_def)

lemma tick_ue_ok: "ue_ok u \<Longrightarrow> ue_ok (fst (tick_ue now u)) \<and> ue_id (fst (tick_ue now u)) = ue_id u"
  by (auto simp: tick_ue_eq ue_ok_def tick_first_nth tick_entity_at MAX_DRBS_PER_UE_def)

lemma timer_pass_ok: "mgr_ok m \<Longrightarrow> mgr_ok (fst (nr_pdcp_timer_pass now m))"
proof -
  assume ok: "mgr_ok m"
  then have "map (\<lambda>u. ue_id (fst (tick_ue now u))) (ue_list m) = map ue_id (ue_list m)"
    using tick_ue_ok by (auto simp: mgr_ok_def)
  then have "distinct (map (\<lambda>u. ue_id (fst (tick_ue now u))) (ue_list m))" using ok by (metis mgr_ok_def)
  with ok tick_ue_ok show ?thesis
    by (auto simp: mgr_ok_def nr_pdcp_timer_pass_def nr_pdcp_manager_get_ue_list_def Let_def comp_def)
qed

lemma api_step_ok:
  assumes "mgr_ok m" and "api_step cr m call = Inr m'"
  shows "mgr_ok m'"
proof (cases call)
  case (DataInd ctxt flag rb b)
  with assms show ?thesis
    by (auto simp: drop_result_Inr do_pdcp_data_ind_def split: if_splits intro: keeps_recv elim!: on_rb_ok)
next
  case (DataReqSrb k rb mui b)
  with assms(2) obtain x where "nr_pdcp_data_req_srb cr m k rb mui b = Inr (m', x)" by (auto simp: drop_result_Inr)
  then show ?thesis unfolding nr_pdcp_data_req_srb_def
    by (rule on_rb_ok [OF assms(1)])
      (auto simp: c_bind_eq_Inr_conv split: option.splits intro: keeps_process)
next
  case (DataReqDrb ctxt flag rb mui b)
  with assms show ?thesis
    by (auto simp: drop_result_Inr nr_pdcp_data_req_drb_def c_bind_eq_Inr_conv split: if_splits
        intro: keeps_process elim!: on_rb_ok)
next
  case (CheckIntegrity k rb b mi)
  with assms show ?thesis
    by (auto simp: drop_result_Inr nr_pdcp_check_integrity_srb_def c_bind_eq_Inr_conv elim!: on_rb_ok)
next
  case (SetSecurity k rb flag p)
  with assms show ?thesis
    by (auto simp: drop_result_Inr nr_pdcp_config_set_security_def c_bind_eq_Inr_conv
        intro: keeps_set_security elim!: on_rb_ok)
next
  case (SuspendSrb k rb)
  with assms show ?thesis
    by (auto simp: drop_result_Inr nr_pdcp_suspend_srb_def intro: keeps_suspend elim!: on_rb_ok)
next
  case (SuspendDrb k rb)
  with assms show ?thesis
    by (auto simp: drop_result_Inr nr_pdcp_suspend_drb_def intro: keeps_suspend elim!: on_rb_ok)
next
  case (ReconfigureSrb k rb t)
  with assms show ?thesis
    by (auto simp: drop_result_Inr nr_pdcp_reconfigure_srb_def c_bind_eq_Inr_conv elim!: on_rb_ok)
next
  case (ReconfigureDrb k rb c)
  with assms show ?thesis
    by (auto simp: drop_result_Inr nr_pdcp_reconfigure_drb_def c_bind_eq_Inr_conv
        intro: keeps_reconfigure elim!: on_rb_ok)
next
  case (Reestablish k rb flag p)
  with assms show ?thesis
    by (auto simp: drop_result_Inr nr_pdcp_reestablishment_def intro: keeps_reestablish elim!: on_rb_ok)
next
  case (CountUpdate k rb dl ul n)
  with assms show ?thesis
    by (auto simp: drop_result_Inr nr_pdcp_count_update_def nr_pdcp_entity_set_count_ul_def
        nr_pdcp_entity_set_count_dl_def elim!: on_rb_ok)
next
  case (AddSrbs gnb k ss p)
  with assms(2) show ?thesis by (auto intro: add_srbs_ok [OF assms(1)])
next
  case (AddDrb gnb k pdcp sdap p)
  with assms(2) show ?thesis by (auto intro: add_drb_ok [OF assms(1)])
next
  case (RemoveUE k)
  with assms show ?thesis by (auto intro: remove_ue_ok)
next
  case (ReleaseSrb k rb)
  with assms(2) show ?thesis by (auto intro: release_ok(1) [OF assms(1)])
next
  case (ReleaseDrb k rb)
  with assms(2) show ?thesis by (auto simp: drop_result_Inr intro: release_ok(2) [OF assms(1)])
next
  case (TimerPass now)
  with assms show ?thesis by (auto intro: timer_pass_ok)
qed

fun api_run :: "crypto \<Rightarrow> nr_pdcp_ue_manager \<Rightarrow> api_call list \<Rightarrow> nr_pdcp_ue_manager c_result" where
  "api_run cr m [] = Inr m"
| "api_run cr m (c # cs) = c_bind (api_step cr m c) (\<lambda>m'. api_run cr m' cs)"

lemma api_run_ok: "mgr_ok m \<Longrightarrow> api_run cr m calls = Inr m' \<Longrightarrow> mgr_ok m'"
proof (induction calls arbitrary: m)
  case (Cons c cs)
  then obtain m1 where "api_step cr m c = Inr m1" "api_run cr m1 cs = Inr m'"
    by (auto simp: c_bind_eq_Inr_conv)
  with Cons.IH api_step_ok [OF Cons.prems(1)] show ?case by blast
qed simp

text \<open>C21: the manager of PDCP stays consistent over every sequence of calls of its interface (data in both
  directions, adding, releasing, reconfiguring, suspending and re-establishing bearers, removing UEs,
  key changes, COUNT updates, timer passes): UE identities are unique, an SRB pointer holds an SRB
  entity and a DRB pointer a DRB entity with the identity of its position, the third SRB pointer is
  never used, and every entity has consistent security contexts.\<close>

theorem pdcp_manager_invariant:
  assumes "api_run cr (new_nr_pdcp_ue_manager flag) calls = Inr m"
  shows "mgr_ok m"
  by (rule api_run_ok [OF _ assms]) (simp add: mgr_ok_def new_nr_pdcp_ue_manager_def)

definition drb_ie :: "int \<Rightarrow> pdcp_config_ie" where
  "drb_ie n = \<lparr>drb_config = Some \<lparr>pdcp_SN_SizeUL = Some n, pdcp_SN_SizeDL = Some n, discardTimer = Some 0,
                                 integrityProtection = True\<rparr>,
              t_Reordering_ie = Some 14, cipheringDisabled = False\<rparr>"

definition sdap_ie :: "int \<Rightarrow> sdap_config" where
  "sdap_ie n = \<lparr>sdap_drb_id = n, sdap_pdusession_id = 1, sdap_role = 0\<rparr>"

definition setup_calls :: "api_call list" where
  "setup_calls =
     [AddSrbs True 7 [(1, None), (2, Some 11)] nia2_nea2, AddDrb True 7 (drb_ie 0) (sdap_ie 1) nia2_nea2,
      AddDrb True 7 (drb_ie 0) (sdap_ie 6) nia2_nea2, TimerPass 1, DataInd any_ctxt False 1 [0x80, 0, 1, 2, 3, 4, 5],
      DataReqDrb any_ctxt False 6 0 [1, 2, 3], SuspendDrb 7 1, Reestablish 7 1 False nia2_nea2, ReleaseSrb 7 2]"

definition setup_mgr :: nr_pdcp_ue_manager where
  "setup_mgr = projr (api_run pad_crypto (new_nr_pdcp_ue_manager 1) setup_calls)"

theorem pdcp_manager_invariant_witness: "mgr_ok setup_mgr \<and> length (ue_list setup_mgr) = 1"
proof -
  have 1: "api_run pad_crypto (new_nr_pdcp_ue_manager 1) setup_calls = Inr setup_mgr" by code_simp
  have 2: "length (ue_list setup_mgr) = 1" by code_simp
  show ?thesis using pdcp_manager_invariant [OF 1] 2 by blast
qed

text \<open>The timer thread reaches SRB 1 and 2 and DRB 1 to 5 only: one pass sets the clock of those, and
  leaves every DRB from 6 to 32, which the manager accepts, exactly as it was, so that their
  t-Reordering never expires; removing the UE does not delete those entities either.\<close>

theorem pdcp_timer_skips_drbs:
  assumes "ue_ok u" and "u' = fst (tick_ue now u)"
  shows "(\<forall>j < 2. srb u' ! j = map_option (\<lambda>e. fst (nr_pdcp_entity_set_time e now)) (srb u ! j)) \<and>
         (\<forall>j < 5. drb u' ! j = map_option (\<lambda>e. fst (nr_pdcp_entity_set_time e now)) (drb u ! j)) \<and>
         (\<forall>j. 5 \<le> j \<and> j < 32 \<longrightarrow> drb u' ! j = drb u ! j) \<and>
         length (deleted_entities u) \<le> 7"
proof -
  have t: "fst (tick_entity now x) = map_option (\<lambda>e. fst (nr_pdcp_entity_set_time e now)) x" for x
    by (auto simp: tick_entity_def split_beta split: option.splits)
  have len: "length (List.map_filter id xs) \<le> length xs" for xs :: "nr_pdcp_entity option list"
    by (simp add: List.map_filter_def)
  have "length (deleted_entities u) \<le> 7"
    using len [of "take 2 (srb u)"] len [of "take 5 (drb u)"] by (simp add: deleted_entities_def)
  with assms show ?thesis
    by (auto simp: tick_ue_eq tick_first_nth ue_ok_def MAX_DRBS_PER_UE_def t)
qed

theorem pdcp_timer_skips_drbs_witness:
  "map_option t_current (drb (fst (tick_ue 500 (ue_list setup_mgr ! 0))) ! 0) = Some 500 \<and>
   map_option t_current (drb (fst (tick_ue 500 (ue_list setup_mgr ! 0))) ! 5) = Some 0"
proof -
  let ?u = "ue_list setup_mgr ! 0"
  have 1: "ue_ok ?u" by code_simp
  have 2: "map_option (\<lambda>e. t_current (fst (nr_pdcp_entity_set_time e 500))) (drb ?u ! 0) = Some 500"
    "map_option t_current (drb ?u ! 5) = Some 0" by code_simp+
  note r = pdcp_timer_skips_drbs [OF 1 refl, of 500]
  have "drb (fst (tick_ue 500 ?u)) ! 5 = drb ?u ! 5" using r by simp
  moreover have "drb (fst (tick_ue 500 ?u)) ! 0 = map_option (\<lambda>e. fst (nr_pdcp_entity_set_time e 500)) (drb ?u ! 0)"
    using r by simp
  ultimately show ?thesis using 2 by (simp add: option.map_comp comp_def)
qed

subsection \<open>Bearers are independent\<close>

definition bearer :: "nr_pdcp_ue_manager \<Rightarrow> u64 \<Rightarrow> int \<Rightarrow> bool \<Rightarrow> nr_pdcp_entity option" where
  "bearer m k rb flag =
     (case ue_find ue_id (ue_list m) k of None \<Rightarrow> None | Some u \<Rightarrow> nr_pdcp_get_rb u rb flag)"

lemma no_bearer_empty: "nr_pdcp_get_rb (empty_ue k) rb flag = None"
  by (auto simp: nr_pdcp_get_rb_def empty_ue_def MAX_DRBS_PER_UE_def nth_Cons')

lemma get_ue_bearer:
  assumes "nr_pdcp_manager_get_ue m k = (m1, i)"
  shows "bearer m1 k' rb flag = bearer m k' rb flag" and "nr_pdcp_get_rb (ue_list m1 ! i) rb flag = bearer m k rb flag"
proof -
  have e: "ue_list m1 = fst (ue_list_get (ue_list m) k)" "i = snd (ue_list_get (ue_list m) k)"
    using assms by (auto simp: nr_pdcp_manager_get_ue_def split: prod.splits)
  show "bearer m1 k' rb flag = bearer m k' rb flag"
    using pdcp_ues.get_find [of "ue_list m" k k'] by (auto simp: bearer_def e no_bearer_empty)
  show "nr_pdcp_get_rb (ue_list m1 ! i) rb flag = bearer m k rb flag"
    using pdcp_ues.get_entry [of "ue_list m" k] by (auto simp: bearer_def e no_bearer_empty split: option.splits)
qed

lemma get_put_rb:
  assumes "ue_ok u" and "nr_pdcp_get_rb u rb flag = Some e"
  shows "nr_pdcp_get_rb (put_rb u rb flag (Some e')) rb' flag' = (if rb' = rb \<and> flag' = flag then Some e' else nr_pdcp_get_rb u rb' flag')"
  using assms
  by (cases flag; cases flag') (auto simp: ue_ok_def nr_pdcp_get_rb_def put_rb_def nth_update_if split: if_splits)

lemma on_rb_bearer:
  assumes "mgr_ok m" and "on_rb m k rb flag f = Inr (m', r)"
  obtains "r = None" and "bearer m k rb flag = None" and "\<And>k' rb' flag'. bearer m' k' rb' flag' = bearer m k' rb' flag'"
  | e e' y where "r = Some y" and "bearer m k rb flag = Some e" and "f e = Inr (e', y)"
    and "\<And>k' rb' flag'. bearer m' k' rb' flag' =
           (if k' = k \<and> rb' = rb \<and> flag' = flag then Some e' else bearer m k' rb' flag')"
proof -
  obtain m1 i where g: "nr_pdcp_manager_get_ue m k = (m1, i)" by fastforce
  note ok = get_ue_ok [OF assms(1) g] and b = get_ue_bearer [OF g]
  show thesis
  proof (cases "bearer m k rb flag")
    case None
    with assms(2) g b(2) [of rb flag] have "m' = m1" "r = None" by (auto simp: on_rb_def)
    with None b(1) that(1) show thesis by blast
  next
    case (Some e)
    with assms(2) g b(2) [of rb flag] obtain e' y where e': "f e = Inr (e', y)" "r = Some y"
      and m': "m' = put_ue m1 i (put_rb (ue_list m1 ! i) rb flag (Some e'))"
      by (auto simp: on_rb_def c_bind_eq_Inr_conv)
    let ?u = "put_rb (ue_list m1 ! i) rb flag (Some e')"
    have id: "ue_id ?u = k" using ok(4) by (simp add: put_rb_def)
    have "ue_find ue_id (ue_list m') k' = (if k' = k then Some ?u else ue_find ue_id (ue_list m1) k')" for k'
      using ue_find_update [OF _ ok(2), of ue_id ?u k'] ok(1,4) id by (auto simp: m' put_ue_def mgr_ok_def)
    moreover have "nr_pdcp_get_rb (ue_list m1 ! i) rb flag = Some e" using b(2) Some by simp
    ultimately have "bearer m' k' rb' flag' = (if k' = k \<and> rb' = rb \<and> flag' = flag then Some e' else bearer m k' rb' flag')"
      for k' rb' flag'
      using get_put_rb [OF ok(3), of rb flag e e' rb' flag'] b(1) [of k' rb' flag'] b(2) [of rb' flag']
      by (auto simp: bearer_def)
    then show thesis by (rule that(2) [OF e'(2) Some e'(1)])
  qed
qed

text \<open>C23: bearers are isolated: a PDU that arrives for one bearer of one UE changes no other bearer of that UE
  and no bearer of another UE; for a bearer that does not exist it changes none at all. The bearer it
  is for becomes what \<^verbatim>\<open>recv_pdu\<close> makes of it.\<close>

theorem pdcp_data_ind_isolated:
  assumes "mgr_ok m" and "do_pdcp_data_ind cr m ctxt flag rb b = Inr (m', r)"
  shows "(\<forall>k' rb' flag'. (k', rb', flag') \<noteq> (rntiMaybeUEid ctxt, rb, flag) \<longrightarrow> bearer m' k' rb' flag' = bearer m k' rb' flag') \<and>
     (case bearer m (rntiMaybeUEid ctxt) rb flag of
        None \<Rightarrow> r = None \<and> bearer m' (rntiMaybeUEid ctxt) rb flag = None
      | Some e \<Rightarrow> \<exists>e' ds. nr_pdcp_entity_recv_pdu cr e b = Inr (e', ds) \<and> r = Some ds \<and>
                         bearer m' (rntiMaybeUEid ctxt) rb flag = Some e')"
proof -
  have "on_rb m (rntiMaybeUEid ctxt) rb flag (\<lambda>e. nr_pdcp_entity_recv_pdu cr e b) = Inr (m', r)"
    using assms(2) by (auto simp: do_pdcp_data_ind_def split: if_splits)
  then show ?thesis by (rule on_rb_bearer [OF assms(1)]) auto
qed

lemma setup_mgr_ok: "mgr_ok setup_mgr" by code_simp

definition data_ind_result :: "nr_pdcp_ue_manager \<times> nr_pdcp_sdu list option" where
  "data_ind_result = projr (do_pdcp_data_ind pad_crypto setup_mgr any_ctxt False 6 [0x80, 0, 91, 88, 93, 93, 93, 93])"

theorem pdcp_data_ind_isolated_witness:
  "bearer (fst data_ind_result) 7 1 False = bearer setup_mgr 7 1 False \<and>
   map_option rx_deliv (bearer setup_mgr 7 6 False) = Some 0 \<and>
   map_option (map sdu_buffer) (snd data_ind_result) = Some [[1, 2]] \<and>
   map_option rx_deliv (bearer (fst data_ind_result) 7 6 False) = Some 1"
proof -
  have 1: "do_pdcp_data_ind pad_crypto setup_mgr any_ctxt False 6 [0x80, 0, 91, 88, 93, 93, 93, 93] =
     Inr (fst data_ind_result, snd data_ind_result)" by code_simp
  have 2: "rntiMaybeUEid any_ctxt = 7" "map_option rx_deliv (bearer setup_mgr 7 6 False) = Some 0"
    "map_option (map sdu_buffer) (snd data_ind_result) = Some [[1, 2]]"
    "map_option rx_deliv (bearer (fst data_ind_result) 7 6 False) = Some 1" by code_simp+
  show ?thesis using pdcp_data_ind_isolated [OF setup_mgr_ok 1] 2 by simp
qed

subsection \<open>COUNT values and reconfiguration\<close>

lemma small_take_bit:
  fixes w :: u32
  assumes "unat w < 2 ^ n"
  shows "take_bit n w = w"
proof -
  have "unat (take_bit n w) = take_bit n (unat w)" by (simp add: unsigned_take_bit_eq)
  also have "\<dots> = unat w" using assms by (simp add: take_bit_nat_eq_self)
  finally show ?thesis by (simp add: word_unat_eq_iff)
qed

lemma word_of_count_split:
  assumes "n \<le> 32" and "unat (pc_sn c) < 2 ^ n" and "unat (pc_hfn c) < 2 ^ (32 - n)"
  shows "drop_bit n (word_of_count n c) = pc_hfn c" and "word_of_count n c AND mask n = pc_sn c"
proof -
  have m: "push_bit n 1 - 1 = (mask n :: u32)" by (simp add: mask_eq_exp_minus_1 push_bit_eq_mult)
  have w: "word_of_count n c = push_bit n (take_bit (32 - n) (pc_hfn c)) OR take_bit n (pc_sn c)"
    by (simp only: word_of_count_def small_take_bit [OF assms(3)] m take_bit_eq_mask [of n])
  have "drop_bit n (word_of_count n c) = take_bit (32 - n) (pc_hfn c)"
    unfolding w using assms(1) by (intro bit_word_eqI) (auto simp: bit_simps)
  then show "drop_bit n (word_of_count n c) = pc_hfn c" by (simp add: small_take_bit [OF assms(3)])
  have "word_of_count n c AND mask n = take_bit n (pc_sn c)"
    unfolding w by (intro bit_word_eqI) (auto simp: bit_simps)
  then show "word_of_count n c AND mask n = pc_sn c" by (simp add: small_take_bit [OF assms(2)])
qed

definition count_ok :: "nat \<Rightarrow> nr_pdcp_count \<Rightarrow> bool" where
  "count_ok n c \<longleftrightarrow> unat (pc_sn c) < 2 ^ n \<and> unat (pc_hfn c) < 2 ^ (32 - n)"

lemma count_roundtrip:
  assumes "pdcp_config e" and "count_ok (sn_size e) c"
  shows "count_of_word e (word_of_count (sn_size e) c) = c"
proof -
  have "sn_size e \<le> 32" using assms(1) by (cases rule: pdcp_config_cases) simp_all
  with assms word_of_count_split [of "sn_size e" c] show ?thesis
    by (simp add: count_of_word_def sn_mask count_ok_def)
qed

text \<open>C32: the COUNT values that are given to a bearer (handover, recovery) are read back as they were: after
  \<^verbatim>\<open>nr_pdcp_count_update\<close> with the SN size of the DRB, \<^verbatim>\<open>nr_pdcp_get_drb_count_values\<close> returns the same
  SN and HFN under the same names. Inside the entity the code keeps them the way that \<^verbatim>\<open>set_count_ul\<close> and
  \<^verbatim>\<open>set_count_dl\<close> are written, and not the way that their comments say: these name \<^verbatim>\<open>tx_next\<close> for
  the downlink and \<^verbatim>\<open>rx_next\<close> for the uplink, as it is in a gNB, while the code puts the COUNT of the uplink in
  \<^verbatim>\<open>tx_next\<close>, that of the downlink in \<^verbatim>\<open>rx_deliv\<close> and the one behind it in \<^verbatim>\<open>rx_next\<close>.\<close>

theorem pdcp_count_roundtrip:
  assumes "mgr_ok m" and "bearer m k rb False = Some e" and "pdcp_config e"
    and "count_ok (sn_size e) dl" and "count_ok (sn_size e) ul"
    and "nr_pdcp_count_update m k rb dl ul (sn_size e) = Inr (m1, r1)"
    and "nr_pdcp_get_drb_count_values m1 k rb = Inr (m2, r2)"
  shows "r2 = Some (ul, dl) \<and> (\<exists>e'. bearer m1 k rb False = Some e' \<and>
           tx_next e' = word_of_count (sn_size e) ul \<and> rx_deliv e' = word_of_count (sn_size e) dl \<and>
           rx_next e' = word_of_count (sn_size e) dl + 1)"
proof -
  let ?n = "sn_size e"
  let ?e = "nr_pdcp_entity_set_count_ul (nr_pdcp_entity_set_count_dl e dl ?n) ul ?n"
  note upd = assms(6) [unfolded nr_pdcp_count_update_def] and get = assms(7) [unfolded nr_pdcp_get_drb_count_values_def]
  have e: "pdcp_config ?e" "sn_size ?e = ?n" "tx_next ?e = word_of_count ?n ul" "rx_deliv ?e = word_of_count ?n dl"
    "rx_next ?e = word_of_count ?n dl + 1"
    using assms(3) by (simp_all add: nr_pdcp_entity_set_count_ul_def nr_pdcp_entity_set_count_dl_def pdcp_config_def)
  have b1: "bearer m1 k rb False = Some ?e"
    by (rule on_rb_bearer [OF assms(1) upd]) (use assms(2) in auto)
  have ok1: "mgr_ok m1"
    by (rule on_rb_ok [OF assms(1) upd]) (auto simp: nr_pdcp_entity_set_count_ul_def nr_pdcp_entity_set_count_dl_def)
  have "r2 = Some (nr_pdcp_entity_get_count_ul ?e, nr_pdcp_entity_get_count_dl ?e)"
    by (rule on_rb_bearer [OF ok1 get]) (use b1 in auto)
  with e assms(3-5) count_roundtrip [OF e(1)] b1 show ?thesis
    by (simp add: nr_pdcp_entity_get_count_ul_def nr_pdcp_entity_get_count_dl_def)
qed

definition drb6 :: nr_pdcp_entity where "drb6 = the (bearer setup_mgr 7 6 False)"

definition count_result :: "nr_pdcp_ue_manager \<times> unit option" where
  "count_result = projr (nr_pdcp_count_update setup_mgr 7 6 \<lparr>pc_sn = 5, pc_hfn = 2\<rparr> \<lparr>pc_sn = 4095, pc_hfn = 9\<rparr> 12)"

theorem pdcp_count_roundtrip_witness:
  "\<exists>m2. nr_pdcp_get_drb_count_values (fst count_result) 7 6 =
     Inr (m2, Some (\<lparr>pc_sn = 4095, pc_hfn = 9\<rparr>, \<lparr>pc_sn = 5, pc_hfn = 2\<rparr>))"
proof -
  have 1: "bearer setup_mgr 7 6 False = Some drb6" by code_simp
  have 2: "pdcp_config drb6" "sn_size drb6 = 12" by code_simp+
  have 3: "count_ok (sn_size drb6) \<lparr>pc_sn = 5, pc_hfn = 2\<rparr>" "count_ok (sn_size drb6) \<lparr>pc_sn = 4095, pc_hfn = 9\<rparr>"
    by (simp_all add: 2 count_ok_def)
  have 4: "nr_pdcp_count_update setup_mgr 7 6 \<lparr>pc_sn = 5, pc_hfn = 2\<rparr> \<lparr>pc_sn = 4095, pc_hfn = 9\<rparr> (sn_size drb6)
     = Inr (fst count_result, snd count_result)" unfolding 2(2) by code_simp
  obtain m2 r2 where 5: "nr_pdcp_get_drb_count_values (fst count_result) 7 6 = Inr (m2, r2)"
    by (rule that [of "fst (projr (nr_pdcp_get_drb_count_values (fst count_result) 7 6))"
          "snd (projr (nr_pdcp_get_drb_count_values (fst count_result) 7 6))"]) code_simp
  from pdcp_count_roundtrip [OF setup_mgr_ok 1 2(1) 3 4 5] 5 show ?thesis by simp
qed

text \<open>reconfiguring the SN size of a DRB leaves the entity inconsistent: \<^verbatim>\<open>nr_pdcp_reconfigure_drb\<close> sets
  \<^verbatim>\<open>sn_size\<close> but not \<^verbatim>\<open>sn_max\<close> and \<^verbatim>\<open>window_size\<close>, so that the SN mask and the window stay those of
  the old size.\<close>

theorem pdcp_reconfigure_sn_size:
  assumes "pdcp_config e" and "drb_config c = Some d" and "pdcp_SN_SizeDL d = Some x"
    and "decode_sn_size_dl x = Inr (int n)" and "n \<noteq> sn_size e" and "reconfigure_entity (Some c) e = Inr e'"
  shows "sn_size e' = n \<and> sn_max e' = 2 ^ sn_size e - 1 \<and> window_size e' = 2 ^ (sn_size e - 1) \<and> \<not> pdcp_config e'"
proof -
  have "sn_max e' = sn_max e" "window_size e' = window_size e" by (subst reconfigure_fields [OF assms(6)], simp)+
  with reconfigure_size [OF assms(6,2,3,4)] have e': "sn_size e' = n \<and> sn_max e' = sn_max e \<and> window_size e' = window_size e" by simp
  with assms(1,5) show ?thesis by (auto simp: pdcp_config_def)
qed

theorem pdcp_reconfigure_sn_size_witness:
  "\<exists>e'. reconfigure_entity (Some (drb_ie 1)) drb6 = Inr e' \<and> sn_size e' = 18 \<and> sn_max e' = 4095"
proof -
  have 1: "pdcp_config drb6" "sn_size drb6 = 12" by code_simp+
  obtain e' where 2: "reconfigure_entity (Some (drb_ie 1)) drb6 = Inr e'"
    by (rule that [of "projr (reconfigure_entity (Some (drb_ie 1)) drb6)"]) code_simp
  have 3: "drb_config (drb_ie 1) = Some \<lparr>pdcp_SN_SizeUL = Some 1, pdcp_SN_SizeDL = Some 1, discardTimer = Some 0,
      integrityProtection = True\<rparr>" by (simp add: drb_ie_def)
  have 4: "decode_sn_size_dl 1 = Inr (int 18)" by (simp add: decode_sn_size_dl_def decode_value_def VALUES_NR_PDCP_SN_SIZE_def)
  from pdcp_reconfigure_sn_size [OF 1(1) 3 _ 4 _ 2] 2 show ?thesis by (simp add: 1)
qed

end
