(* ===== verification/Pdcp_Deliver.thy ===== *)
theory Pdcp_Deliver
  imports Pdcp_Api F1ap_Ids
begin

text \<open>
  The callbacks of PDCP in \<^verbatim>\<open>nr_pdcp_oai_api.c\<close>: what a PDU or an SDU of an entity becomes for the other layers.
  A message to another layer is a value; where the source fills a structure of that layer, the message has the
  fields that are set. The start of PDCP, which decides once which of its threads run, is at the end.
\<close>

record pdcp_env =
  pe_f1_ids :: f1_ids    \<comment> \<open>the identities that \<^verbatim>\<open>cu_get_f1_ue_data\<close> reads\<close>
  pe_is_cu :: bool       \<comment> \<open>\<^verbatim>\<open>NODE_IS_CU(node_type)\<close>\<close>
  pe_f1_inst :: bool     \<comment> \<open>\<^verbatim>\<open>getCxt(0)\<close> is not NULL\<close>
  pe_tun :: bool         \<comment> \<open>\<^verbatim>\<open>IS_SOFTMODEM_NOS1 || UE_NAS_USE_TUN\<close>\<close>

datatype pdcp_message =
    RlcDataReq rlc_data_req_queue_item             \<comment> \<open>\<^verbatim>\<open>enqueue_rlc_data_req\<close>\<close>
  | GtpuNru u64 int "byte list"                    \<comment> \<open>\<^verbatim>\<open>gtpv1uSendDirectWithNRUSeqNum\<close>\<close>
  | SdapDataInd int bool int u64 "byte list"       \<comment> \<open>\<^verbatim>\<open>sdap_data_ind\<close>\<close>
  | RrcUl u64 u32 int int "byte list"              \<comment> \<open>to the RRC of a gNB: CU and DU identity, association, SRB\<close>
  | RrcDcch u64 int "byte list" nr_pdcp_integrity_data \<comment> \<open>to the RRC of a UE\<close>

subsection \<open>PDUs\<close>

text \<open>A context with the identity only; \<^verbatim>\<open>enb_flag\<close> matters for traces alone.\<close>

definition ctxt_of :: "u64 \<Rightarrow> protocol_ctxt" where
  "ctxt_of k = \<lparr>module_id = 0, instance_id = 0, eNB_index = 0, brOption = 0, rntiMaybeUEid = k\<rparr>"

definition rlc_item :: "u64 \<Rightarrow> bool \<Rightarrow> int \<Rightarrow> int \<Rightarrow> byte list \<Rightarrow> pdcp_message" where
  "rlc_item k srb_flag rb mui buf =
     RlcDataReq \<lparr>rq_ctxt = ctxt_of k, rq_srb_flag = srb_flag, rq_rb_id = rb, rq_mui = mui, rq_confirm = 0, rq_sdu = buf\<rparr>"

definition deliver_pdu_drb_ue :: "u64 \<Rightarrow> int \<Rightarrow> byte list \<Rightarrow> int \<Rightarrow> pdcp_message c_result" where
  "deliver_pdu_drb_ue uid rb buf sdu_id = Inr (rlc_item uid False rb sdu_id buf)"

definition deliver_pdu_drb_gnb :: "pdcp_env \<Rightarrow> u64 \<Rightarrow> int \<Rightarrow> byte list \<Rightarrow> int \<Rightarrow> pdcp_message c_result" where
  "deliver_pdu_drb_gnb env uid rb buf sdu_id =
     c_bind (cu_get_f1_ue_data (pe_f1_ids env) (ucast uid)) (\<lambda>ue_data.
     if pe_is_cu env then c_bind (c_check AssertFail (pe_f1_inst env)) (\<lambda>_. Inr (GtpuNru uid rb buf))
     else Inr (rlc_item (ucast (secondary_ue ue_data)) False rb sdu_id buf))"

text \<open>The \<^verbatim>\<open>deliver_pdu\<close> that \<^verbatim>\<open>nr_pdcp_add_drb\<close> gives the entity, called with \<^verbatim>\<open>NULL\<close> as \<^verbatim>\<open>deliver_pdu_data\<close>.\<close>

definition deliver_pdu_drb :: "pdcp_env \<Rightarrow> nr_pdcp_entity \<Rightarrow> u64 \<Rightarrow> int \<Rightarrow> byte list \<Rightarrow> int \<Rightarrow> pdcp_message c_result" where
  "deliver_pdu_drb env e uid rb buf sdu_id =
     (if is_gnb e then deliver_pdu_drb_gnb env uid rb buf sdu_id else deliver_pdu_drb_ue uid rb buf sdu_id)"

definition deliver_pdu_srb_rlc :: "u64 \<Rightarrow> int \<Rightarrow> byte list \<Rightarrow> int \<Rightarrow> pdcp_message" where
  "deliver_pdu_srb_rlc uid srb_id buf sdu_id = rlc_item uid True srb_id sdu_id buf"

subsection \<open>SDUs\<close>

text \<open>The entity at place \<open>j\<close> of the DRBs calls back, which the loop over the pointers finds.\<close>

definition deliver_sdu_drb :: "pdcp_env \<Rightarrow> nr_pdcp_ue \<Rightarrow> nat \<Rightarrow> nr_pdcp_entity \<Rightarrow> nr_pdcp_sdu \<Rightarrow> pdcp_message" where
  "deliver_sdu_drb env u j e s =
     (if pe_tun env then SdapDataInd (rb_id e) False (pdusession_id e) (ue_id u) (sdu_buffer s)
      else SdapDataInd (int j + 1) (is_gnb e) (pdusession_id e) (ue_id u) (sdu_buffer s))"

definition deliver_sdu_srb :: "pdcp_env \<Rightarrow> nr_pdcp_ue \<Rightarrow> nat \<Rightarrow> nr_pdcp_entity \<Rightarrow> nr_pdcp_sdu \<Rightarrow> pdcp_message c_result" where
  "deliver_sdu_srb env u j e s =
     (if is_gnb e
      then c_bind (cu_get_f1_ue_data (pe_f1_ids env) (ucast (ue_id u))) (\<lambda>ue_data.
           Inr (RrcUl (ue_id u) (secondary_ue ue_data) (du_assoc_id ue_data) (int j + 1) (sdu_buffer s)))
      else Inr (RrcDcch (ue_id u) (int j + 1) (sdu_buffer s) (sdu_msg_integrity s)))"

subsection \<open>PDUs from below\<close>

text \<open>The item that \<^verbatim>\<open>nr_pdcp_data_ind\<close> enqueues, and what the worker does with it.\<close>

definition nr_pdcp_data_ind :: "protocol_ctxt \<Rightarrow> bool \<Rightarrow> int \<Rightarrow> byte list \<Rightarrow> pdcp_data_ind_queue_item" where
  "nr_pdcp_data_ind ctxt srb_flag rb buf = \<lparr>pi_ctxt = ctxt, pi_srb_flag = srb_flag, pi_rb_id = rb, pi_sdu = buf\<rparr>"

definition cu_f1u_data_req :: "protocol_ctxt \<Rightarrow> bool \<Rightarrow> int \<Rightarrow> byte list \<Rightarrow> pdcp_data_ind_queue_item" where
  "cu_f1u_data_req ctxt srb_flag rb buf = nr_pdcp_data_ind (ctxt\<lparr>instance_id := 0\<rparr>) srb_flag rb buf"

definition pdcp_data_ind_work ::
  "crypto \<Rightarrow> nr_pdcp_ue_manager \<Rightarrow> pdcp_data_ind_queue_item \<Rightarrow> (nr_pdcp_ue_manager \<times> nr_pdcp_sdu list option) c_result" where
  "pdcp_data_ind_work cr m item = do_pdcp_data_ind cr m (pi_ctxt item) (pi_srb_flag item) (pi_rb_id item) (pi_sdu item)"

subsection \<open>The start of PDCP\<close>

record pdcp_layer =
  pdcp_initialized :: bool
  pdcp_manager :: "nr_pdcp_ue_manager option"
  rlc_queue_runs :: bool
  data_ind_queue_runs :: bool
  timer_runs :: bool

text \<open>\<open>no_rrc\<close> is \<^verbatim>\<open>RC.nrrrc == NULL\<close>. The flag of the manager is 1. A second call does nothing.\<close>

definition nr_pdcp_layer_init :: "bool \<Rightarrow> bool \<Rightarrow> pdcp_layer \<Rightarrow> pdcp_layer" where
  "nr_pdcp_layer_init no_rrc is_cu l =
     (if pdcp_initialized l then l
      else l\<lparr>pdcp_initialized := True, pdcp_manager := Some (new_nr_pdcp_ue_manager 1),
             rlc_queue_runs := rlc_queue_runs l \<or> no_rrc \<or> \<not> is_cu, data_ind_queue_runs := True, timer_runs := True\<rparr>)"

end
