(* ===== verification/L2_Plane.thy ===== *)
theory L2_Plane
  imports Pdcp_Deliver Rlc_Api_Claims
begin

text \<open>
  Where the user planes of PDCP and RLC meet in a gNB without split: the requests of PDCP go through the queue to the
  interface of RLC, the SDUs of RLC through the other queue to PDCP, and each side translates its own identity of a UE
  into that of the other side with the tables of F1.
\<close>

subsection \<open>The two directions\<close>

text \<open>What the thread of the queue does with a request; the identity is an \<^verbatim>\<open>int\<close> of 32 bits there.\<close>

definition rlc_data_req_work ::
  "rlc_env \<Rightarrow> nr_rlc_ue_manager \<Rightarrow> rlc_data_req_queue_item \<Rightarrow> (nr_rlc_ue_manager \<times> rlc_message list \<times> unit) c_result" where
  "rlc_data_req_work env m item =
     nr_rlc_data_req env m (sint (ucast (rntiMaybeUEid (rq_ctxt item)) :: 32 word)) (rq_srb_flag item) (rq_rb_id item)
       (rq_mui item) (rq_sdu item)"

text \<open>What RLC hands to PDCP: the context has the identity only.\<close>

fun rlc_to_pdcp :: "rlc_message \<Rightarrow> pdcp_data_ind_queue_item option" where
  "rlc_to_pdcp (PdcpDataInd k gnb srb_flag rb buf) = Some (nr_pdcp_data_ind (ctxt_of k) srb_flag (int rb) buf)"
| "rlc_to_pdcp _ = None"

subsection \<open>Identities\<close>

lemma sint_small: "unat (d :: u32) < 2 ^ 31 \<Longrightarrow> sint d = uint d"
proof -
  assume "unat d < 2 ^ 31"
  then have "int (unat d) < int (2 ^ 31)" by (simp only: of_nat_less_iff)
  then have "uint d < 2 ^ 31" by simp
  moreover have "- (2 ^ 31) \<le> uint d" by (rule order_trans [OF _ uint_ge_0]) simp
  ultimately have e: "signed_take_bit 31 (uint d) = uint d" by (intro signed_take_bit_int_eq_self)
  have l: "LENGTH(32) - Suc 0 = 31" by simp
  show ?thesis unfolding sint_uint [of d] l by (rule e)
qed

lemma ucast_u64_u32 [simp]: "(ucast (ucast (k :: u32) :: u64) :: u32) = k"
  by (simp add: ucast_up_ucast_id is_up)

lemma on_entity_at:
  assumes "rlc_mgr_ok m" and "nr_rlc_manager_get_ue m d = (m1, i)" and "rb_entity (rlc_ue_at m d) p = Some e"
    and "on_entity env m1 i p f = Inr (m', msgs, x)"
  shows "\<exists>e' ups. f e = Inr (x, e', ups) \<and> rlc_callbacks env m (rlc_ue_at m d) p ups = Inr msgs \<and>
    (\<forall>k' q. rb_entity (rlc_ue_at m' k') q = (if k' = d \<and> q = p then Some e' else rb_entity (rlc_ue_at m k') q))"
proof -
  note g = rlc_get_ue [OF assms(1,2)] and at = rlc_get_ue_at [OF assms(2)]
  from assms(3,4) at(1) obtain e' ups where f: "f e = Inr (x, e', ups)"
    and cb: "rlc_callbacks env m1 (rlc_ue_at m d) p ups = Inr msgs" and m': "m' = put_rlc_ue m1 i (rb_update (rlc_ue_at m d) p e')"
    by (auto elim!: on_entityE)
  have id: "rlc_ue_id (rb_update (rlc_ue_at m d) p e') = rlc_ue_id (rlc_ue_list m1 ! i)" by (simp add: at(1))
  have "rlc_ue_at m' k' = (if k' = d then rb_update (rlc_ue_at m d) p e' else rlc_ue_at m k')" for k'
    using put_rlc_ue_at [OF g(1,2) id, of k'] at(2) [of k'] g(4) id by (simp add: m')
  with f cb ue_frame_callbacks [OF ue_frame_refl g(7), of env] rb_entity_update [OF assms(3)] show ?thesis by auto
qed

text \<open>C8: the two layers of a gNB without split name the same UE and the same bearer. When the CU table of F1 leads from
  the identity of PDCP to that of RLC and the DU table leads back, a PDU that PDCP makes for DRB \<open>rb\<close> of its UE becomes
  a request that gives it to the entity of DRB \<open>rb\<close> of the UE of RLC and changes no other entity; and an SDU that this
  entity delivers becomes a PDU for DRB \<open>rb\<close> of the UE of PDCP.\<close>

theorem gnb_layers_meet:
  assumes "cu_get_f1_ue_data ids k = Inr c" and "du_get_f1_ue_data ids (secondary_ue c) = Inr u" and "secondary_ue u = k"
    and "unat (secondary_ue c) < 2 ^ 31" and "pe_f1_ids pe = ids" and "\<not> pe_is_cu pe"
    and "env_f1_ids env = ids" and "rlc_op_mode m = NR_RLC_OP_MODE_MONO_GNB" and "rlc_mgr_ok m"
    and "1 \<le> rb" and "rb \<le> 32" and "rb_entity (rlc_ue_at m (uint (secondary_ue c))) (Drb (nat (rb - 1))) = Some e"
  shows "(\<exists>item. deliver_pdu_drb_gnb pe (ucast k) rb pdu mui = Inr (RlcDataReq item) \<and>
     (\<forall>m' msgs. rlc_data_req_work env m item = Inr (m', msgs, ()) \<longrightarrow>
        (\<exists>e' ups. timed (env_now env) (recv_sdu_call env pdu mui) e = Inr ((), e', ups) \<and>
           (\<forall>k' q. rb_entity (rlc_ue_at m' k') q =
              (if k' = uint (secondary_ue c) \<and> q = Drb (nat (rb - 1)) then Some e' else rb_entity (rlc_ue_at m k') q))))) \<and>
    (\<exists>msg item. rlc_callback env m (rlc_ue_at m (uint (secondary_ue c))) (Drb (nat (rb - 1))) (AmDeliver sdu) = Inr [msg] \<and>
       rlc_to_pdcp msg = Some item \<and>
       (\<forall>cr pm. pdcp_data_ind_work cr pm item = on_rb pm (ucast k) rb False (\<lambda>e. nr_pdcp_entity_recv_pdu cr e sdu)))"
proof -
  let ?d = "uint (secondary_ue c)" and ?p = "Drb (nat (rb - 1))"
  obtain item where item: "deliver_pdu_drb_gnb pe (ucast k) rb pdu mui = Inr (RlcDataReq item)"
    and i: "item = \<lparr>rq_ctxt = ctxt_of (ucast (secondary_ue c)), rq_srb_flag = False, rq_rb_id = rb, rq_mui = mui, rq_confirm = 0, rq_sdu = pdu\<rparr>"
    using assms(1,5,6) by (simp add: deliver_pdu_drb_gnb_def rlc_item_def)
  obtain m1 j where g: "nr_rlc_manager_get_ue m ?d = (m1, j)" by fastforce
  have w: "rlc_data_req_work env m item = on_entity env m1 j ?p (timed (env_now env) (recv_sdu_call env pdu mui))"
    using assms(10-12) g rlc_get_ue_at(1) [OF g]
    by (simp add: rlc_data_req_work_def i ctxt_of_def sint_small [OF assms(4)] nr_rlc_data_req_def rb_of_pdcp_def RLC_MAX_DRBS_def del: rb_entity.simps)
  have "\<exists>e' ups. timed (env_now env) (recv_sdu_call env pdu mui) e = Inr ((), e', ups) \<and>
      (\<forall>k' q. rb_entity (rlc_ue_at m' k') q = (if k' = ?d \<and> q = ?p then Some e' else rb_entity (rlc_ue_at m k') q))"
    if "rlc_data_req_work env m item = Inr (m', msgs, ())" for m' msgs
    using on_entity_at [OF assms(9) g assms(12) that [unfolded w]] by blast
  then have down: "\<forall>m' msgs. rlc_data_req_work env m item = Inr (m', msgs, ()) \<longrightarrow>
      (\<exists>e' ups. timed (env_now env) (recv_sdu_call env pdu mui) e = Inr ((), e', ups) \<and>
      (\<forall>k' q. rb_entity (rlc_ue_at m' k') q = (if k' = ?d \<and> q = ?p then Some e' else rb_entity (rlc_ue_at m k') q)))"
    by blast
  have up: "rlc_callback env m (rlc_ue_at m ?d) ?p (AmDeliver sdu) = Inr [PdcpDataInd (ucast k) True False (nat rb) sdu]"
    using assms(2,3,7,8,10)
    by (simp add: deliver_sdu_def rlc_ue_at_id nr_rlc_manager_get_gnb_flag_def nr_rlc_manager_rlc_is_split_def nat_diff_distrib)
  have work: "pdcp_data_ind_work cr pm (nr_pdcp_data_ind (ctxt_of (ucast k)) False (int (nat rb)) sdu) =
      on_rb pm (ucast k) rb False (\<lambda>e. nr_pdcp_entity_recv_pdu cr e sdu)" for cr pm
    using assms(10) by (simp add: pdcp_data_ind_work_def nr_pdcp_data_ind_def do_pdcp_data_ind_def ctxt_of_def)
  show ?thesis
  proof (rule conjI, goal_cases)
    case 1
    show ?case by (rule exI [of _ item]) (rule conjI [OF item down])
  next
    case 2
    show ?case by (intro exI conjI, rule up, rule rlc_to_pdcp.simps(1), intro allI, rule work)
  qed
qed

text \<open>A gNB without split: UE 7 of PDCP is UE 9 of RLC.\<close>

definition mono_ids :: f1_ids where
  "mono_ids =
     \<lparr>cu2du_ue_mapping = Some \<lparr>hash_size = 1, hash_nodes = [[(7, Some \<lparr>secondary_ue = 9, e1_assoc_id = 0, du_assoc_id = 0\<rparr>)]], hash_func = def_hashfunc\<rparr>,
      du2cu_ue_mapping = Some \<lparr>hash_size = 1, hash_nodes = [[(9, Some \<lparr>secondary_ue = 7, e1_assoc_id = 0, du_assoc_id = 0\<rparr>)]], hash_func = def_hashfunc\<rparr>\<rparr>"

definition mono_pdcp :: pdcp_env where
  "mono_pdcp = \<lparr>pe_f1_ids = mono_ids, pe_is_cu = False, pe_f1_inst = False, pe_tun = False\<rparr>"

definition mono_rlc :: rlc_env where
  "mono_rlc = \<lparr>env_f1_ids = mono_ids, env_f1_inst = False, env_wall = 0, env_now = 1\<rparr>"

lemma gnb_layers_meet_witness:
  "\<exists>m item msg item2. nr_rlc_add_drb (new_nr_rlc_ue_manager NR_RLC_OP_MODE_MONO_GNB) 9 1 um_bearer = Inr m \<and>
     deliver_pdu_drb_gnb mono_pdcp 7 1 [5, 6] 3 = Inr (RlcDataReq item) \<and>
     rlc_callback mono_rlc m (rlc_ue_at m 9) (Drb 0) (AmDeliver [8]) = Inr [msg] \<and> rlc_to_pdcp msg = Some item2 \<and>
     pdcp_data_ind_work pad_crypto (new_nr_pdcp_ue_manager 1) item2 =
       on_rb (new_nr_pdcp_ue_manager 1) 7 1 False (\<lambda>e. nr_pdcp_entity_recv_pdu pad_crypto e [8])"
proof -
  let ?r = "nr_rlc_add_drb (new_nr_rlc_ue_manager NR_RLC_OP_MODE_MONO_GNB) 9 1 um_bearer"
  have "map_sum id (\<lambda>m. (rlc_op_mode m = NR_RLC_OP_MODE_MONO_GNB, rlc_mgr_ok m, rb_entity (rlc_ue_at m 9) (Drb 0) = None)) ?r =
      Inr (True, True, False)" by code_simp
  then obtain m where m: "?r = Inr m" "rlc_op_mode m = NR_RLC_OP_MODE_MONO_GNB" "rlc_mgr_ok m" "rb_entity (rlc_ue_at m 9) (Drb 0) \<noteq> None"
    by (auto elim!: map_sum_eq_InrE)
  then obtain e where e: "rb_entity (rlc_ue_at m 9) (Drb 0) = Some e" by blast
  define c u where "c = \<lparr>secondary_ue = 9, e1_assoc_id = 0, du_assoc_id = 0\<rparr>" and "u = \<lparr>secondary_ue = 7, e1_assoc_id = 0, du_assoc_id = 0\<rparr>"
  have 1: "cu_get_f1_ue_data mono_ids 7 = Inr c" unfolding c_def by code_simp
  have 2: "du_get_f1_ue_data mono_ids (secondary_ue c) = Inr u" unfolding c_def u_def by code_simp
  have 3: "secondary_ue u = 7" "unat (secondary_ue c) < 2 ^ 31" by (simp_all add: u_def c_def)
  have 4: "pe_f1_ids mono_pdcp = mono_ids" "\<not> pe_is_cu mono_pdcp" "env_f1_ids mono_rlc = mono_ids"
    by (simp_all add: mono_pdcp_def mono_rlc_def)
  have 5: "rb_entity (rlc_ue_at m (uint (secondary_ue c))) (Drb (nat (1 - 1))) = Some e" using e by (simp add: c_def)
  have "(1 :: int) \<le> 1" "(1 :: int) \<le> 32" by simp_all
  from gnb_layers_meet [OF 1 2 3 4 m(2,3) this 5, of "[5, 6]" 3 "[8]"] m(1) show ?thesis by (simp add: c_def) blast
qed

end
