(* ===== verification/Spec2Isabelle.thy ===== *)
theory Spec2Isabelle
  imports Secu_Contexts Rlc_Um_Props Rlc_Am_Report Rlc_Api_Invariant Sdap_Claims L2_Stack L2_Plane
begin

text \<open>
  A verification development for the Layer 2 user plane of the 5G stack in \<^verbatim>\<open>src/openairinterface5g\<close>: SDAP, PDCP and
  RLC, with the stream security functions and the utilities they stand on.

  \<^bold>\<open>The program.\<close> A packet of the core network enters SDAP (\<^verbatim>\<open>openair2/SDAP/nr_sdap\<close>), which looks up the radio bearer of
  its QoS flow and puts a header of one byte in front. PDCP (\<^verbatim>\<open>openair2/LAYER2/nr_pdcp\<close>) numbers the packet, protects it
  with the functions of \<^verbatim>\<open>openair3/SECU\<close> and queues it for RLC (\<^verbatim>\<open>openair2/LAYER2/nr_rlc\<close>). An entity of RLC keeps it
  until MAC grants room in a transport block, and cuts it to the grant. On the other side RLC puts the segments together,
  PDCP removes the protection and restores the order, and SDAP hands the packet on. A thread of PDCP carries requests to
  RLC and another one carries received PDUs from RLC to PDCP; a third one drives the PDCP timers. Every layer has a table
  of UEs. In a gNB that is cut by the F1 interface, CU and DU name a UE differently; the tables of
  \<^verbatim>\<open>openair2/F1AP/f1ap_ids.c\<close>, hash tables of \<^verbatim>\<open>common/utils/ds/hashtable.c\<close>, translate between the two.

  \<^bold>\<open>Conventions.\<close> A structure is a record with the fields of the source, a structure with a \<^verbatim>\<open>type\<close> tag or a table of
  function pointers is a datatype, and a linked list or an array of pointers is a list, in which a pointer is a position.
  Counters that wrap have their width (\<open>u8\<close> to \<open>u64\<close> are words); an \<^verbatim>\<open>int\<close> that cannot reach its bounds is an \<open>int\<close>. A
  function of the source is a function from the old state to the new state and the result, in \<open>'a c_result\<close>, the sum of a
  result with the ways in which C code goes wrong: an assertion or \<^verbatim>\<open>exit\<close>, a NULL or freed pointer, an access outside a
  buffer, and a loop that does not end. Callbacks return what they are called with, in the order of the calls. Mutexes and
  condition variables order the calls and are not part of a state: the theorems quantify over the sequence of calls.

  \<^bold>\<open>Shared theories.\<close>
    \<^item> \<open>L2_Prelude\<close>: integer types, \<open>c_result\<close>, insertion in an ordered linked list, arithmetic modulo a power of two, and
      the locales \<open>ordered_list\<close> (what an insertion promises), \<open>safe_machine\<close> (runs that never fail), \<open>fault_machine\<close>
      (runs that fail in described situations only), \<open>simulation\<close> (refinement of an abstract machine) and
      \<open>counted_receiver\<close> (deliveries with increasing numbers, and nothing lost, unless one of them is the last number).
    \<^item> \<open>Ue_Table\<close>: the search in an array of UEs and the ring of the two PDCP queues, with the locales
      \<open>ue_table\<close> and \<open>ring_queue\<close>. \<open>Time_Stat\<close>: \<^verbatim>\<open>common/utils/time_stat.c\<close>.
    \<^item> \<open>Hash_Table\<close>, \<open>F1ap_Ids\<close>: the hash table, with the locale \<open>key_table\<close>, and the two tables of identities on it, which
      refine two finite maps.
    \<^item> \<open>Asn1_Tables\<close>: the value tables and the functions that the macro of \<^verbatim>\<open>asn1_utils.c\<close> makes of them.

  \<^bold>\<open>Security.\<close>
    \<^item> \<open>Snow3g_Tables\<close>, \<open>Snow3g\<close>, \<open>Snow3g_Props\<close>: \<^verbatim>\<open>snow3g.c\<close>. The register in a double buffer is the register of the
      specification; the multiplication by tables is the bitwise product; the MAC is the polynomial of UIA2.
    \<^item> \<open>Secu\<close>: \<^verbatim>\<open>secu_defs.c\<close> and the files \<^verbatim>\<open>nas_stream_*\<close>: ciphering and integrity of a message with each algorithm.
      Ciphering twice is the identity. \<open>Secu_Contexts\<close>: the contexts of the algorithms and the container of NAS, which is
      made with the contexts of its algorithms and can be deleted.

  \<^bold>\<open>PDCP.\<close>
    \<^item> \<open>Pdcp_Sdu\<close>, \<open>Pdcp_Entity\<close>: the reordering list, and the entity with all its operations (\<^verbatim>\<open>nr_pdcp_sdu.c\<close>,
      \<^verbatim>\<open>nr_pdcp_entity.c\<close>, the four files of security wrappers).
    \<^item> \<open>Pdcp_Count\<close>: headers, and the COUNT inferred from a sequence number. \<open>Pdcp_Rx\<close>: closed forms of the delivery loops
      and the invariant of the receiver. \<open>Pdcp_Order\<close>: runs of an entity; deliveries in the order of COUNT, at most once,
      and the timer passes a gap; the order holds until an SDU with the last COUNT value is handed up, after which the
      counter starts again. \<open>Pdcp_Control\<close>: configuration, suspension, re-establishment, and exactly which PDUs stop the
      receiver. \<open>Pdcp_Link\<close>: two entities joined; what the receiver does with one PDU, wherever its window stands, and a
      burst that arrives in any order, with repetitions, comes out as it was sent.
    \<^item> \<open>Pdcp_Ue_Manager\<close>: \<^verbatim>\<open>nr_pdcp_ue_manager.c\<close> and \<^verbatim>\<open>nr_pdcp_timer_thread.c\<close>. \<open>Pdcp_Api\<close>: the calls of
      \<^verbatim>\<open>nr_pdcp_oai_api.c\<close> and its two queues; the table keeps its invariant, a call touches its own UE only, the queues
      are FIFO. \<open>Pdcp_Deliver\<close>: the callbacks of the same file, the thread bodies and the start.

  \<^bold>\<open>RLC.\<close>
    \<^item> \<open>Rlc_Pdu\<close>, \<open>Rlc_Sdu\<close>: received segments, the bit encoder and decoder (\<^verbatim>\<open>nr_rlc_pdu.c\<close>), SDUs and their counters
      (\<^verbatim>\<open>nr_rlc_sdu.c\<close>).
    \<^item> \<open>Rlc_Tm\<close>: \<^verbatim>\<open>nr_rlc_entity_tm.c\<close>, which refines a bounded queue.
    \<^item> \<open>Rlc_Um\<close> is \<^verbatim>\<open>nr_rlc_entity_um.c\<close>. \<open>Rlc_Um_Rx\<close> and \<open>Rlc_Um_Safe\<close> show that no input makes the receiver fail and
      that it delivers sent SDUs only, while no number is used again under a stored segment; \<open>Rlc_Um_Tx\<close> has the layout of a
      PDU and the exact buffer status; \<open>Rlc_Um_Link\<close> has the runs of an entity, and two entities joined, for grants of all
      sizes but the one that loses an SDU; \<open>Rlc_Um_Props\<close> has properties of single operations.
    \<^item> \<open>Rlc_Am\<close> and \<open>Rlc_Am_Send\<close> are \<^verbatim>\<open>nr_rlc_entity_am.c\<close>, on the window of \<open>Rlc_Rx_Manager\<close>
      (\<^verbatim>\<open>nr_rlc_rx_manager.c\<close>). The segments of the three transmit lists share SDUs, so the SDUs are in a store of
      addresses, and a freed address is not in it. \<open>Rlc_Am_Rx\<close>, \<open>Rlc_Am_Recv\<close>, \<open>Rlc_Am_Order\<close> and \<open>Rlc_Am_Status\<close>: the
      receiver, the order of its numbers and the status reports. \<open>Rlc_Am_Store\<close>, \<open>Rlc_Am_Tx\<close>, \<open>Rlc_Am_Emit\<close> and
      \<open>Rlc_Am_Ops\<close>: the reference counts, so that no operation touches a freed SDU, and the layout of a PDU. \<open>Rlc_Am_Link\<close>
      is the entity as one machine, with the three situations in which it stops. \<open>Rlc_Am_Props\<close> and \<open>Rlc_Am_Report\<close> have
      the properties.
    \<^item> \<open>Rlc_Entity\<close>: \<^verbatim>\<open>nr_rlc_entity.c\<close>, a sum of the three modes. \<open>Rlc_Room\<close>: what any of them writes fits the grant.
    \<^item> \<open>Rlc_Ue_Manager\<close>, \<open>Rlc_Api\<close>, \<open>Rlc_Api_Config\<close>: \<^verbatim>\<open>nr_rlc_ue_manager.c\<close> and \<^verbatim>\<open>nr_rlc_oai_api.c\<close>. \<open>Rlc_Api_Props\<close>,
      \<open>Rlc_Api_Claims\<close> and \<open>Rlc_Api_Invariant\<close>: a transport block reaches exactly the bearers it names, the PDUs of a
      grant fit it, a bearer is found where it was added, and the table stays well formed under all calls that give no
      UE the identity of another one.

  \<^bold>\<open>SDAP.\<close> \<open>Sdap\<close> and \<open>Sdap_List\<close> are \<^verbatim>\<open>nr_sdap_entity.c\<close> and \<^verbatim>\<open>nr_sdap.c\<close>; \<open>Sdap_Props\<close> has the lemmas, \<open>Sdap_Machine\<close> the
  calls as one machine with the situations in which it stops, \<open>Sdap_Claims\<close> the properties.

  \<^bold>\<open>Across layers.\<close> \<open>L2_Stack\<close> composes SDAP, PDCP and RLC on both sides of the air: what one side is given, the other
  side hands on. \<open>L2_Plane\<close> composes the interfaces of PDCP and RLC in a gNB through the queues and the identities of F1.

  \<^bold>\<open>Interfaces.\<close> The laws of the locales are shown for the code by \<open>sdu_list\<close> and \<open>rlc_rx_order\<close> (\<open>ordered_list\<close>),
  \<open>um_src\<close> (\<open>safe_machine\<close>), \<open>am_machine\<close> and \<open>sdap_machine\<close> (\<open>fault_machine\<close>), \<open>f1_ids\<close> (\<open>simulation\<close>), \<open>pdcp_rx\<close>
  (\<open>counted_receiver\<close>), \<open>pdcp_ues\<close> and \<open>rlc_ues\<close> (\<open>ue_table\<close>), \<open>ring\<close> (\<open>ring_queue\<close>) and \<open>hashtable\<close> (\<open>key_table\<close>).

  \<^bold>\<open>Parameters.\<close> The AES primitives of OpenSSL are the record \<open>crypto\<close>; where a round trip needs more than their type, the
  hypothesis says what the CTR mode is documented to do. Clocks are arguments of the calls. \<open>pdcp_env\<close>, \<open>rlc_env\<close> and
  the environment of SDAP have what a call reads of the rest of the process: the kind of node, whether an interface is up,
  the tables of identities, the sockets that the operating system returns.

  \<^bold>\<open>Loops.\<close> Loops over lists are structural recursions. The loops that the code does not bound are while combinators whose
  missing result is the fault \<open>NoReturn\<close>: the search for the first undelivered SDU ends in the unacknowledged mode after
  at most a window of steps in every reachable state, and in the acknowledged mode it does not end on a window that is delivered completely,
  which is a property of its own. Where a recursion carries a bound, the bound is above what the loop can use: one step
  for each byte of a status PDU and one for its end, one step for each segment of the wait list and the retransmit list
  in the treatment of a NACK, and one step for each byte of the grant when a status report is written. The loop that
  fills a transport block and the deletion of SDAP entities have the limits of the code, \<^verbatim>\<open>pdu_siz_len\<close> and
  \<^verbatim>\<open>SDAP_MAX_NUM_OF_ENTITIES\<close>.

  \<^bold>\<open>Not modelled.\<close>
    \<^item> MAC, PHY, RRC and NAS (\<^verbatim>\<open>openair1\<close>, the rest of \<^verbatim>\<open>openair2\<close> and \<^verbatim>\<open>openair3\<close>): schedulers bound to the physical layer,
      signal processing with vector intrinsics, and message handling over structures that the ASN.1 compiler generates at
      build time. RRC, MAC and GTP-U appear as callers and as receivers of messages.
    \<^item> The LTE stack, and the simulators and tests.
    \<^item> FlexRIC (\<^verbatim>\<open>src/flexric\<close>): its codecs are generated or copy C structures with the layout that the compiler chooses, and
      its agents are event loops over SCTP and threads.
    \<^item> In the modelled files: log lines and traces, the names and addresses of network devices, allocation failures, the
      E1 variant of a PDCP that is built for a separate CU-UP, and the strings of the configuration file.
\<close>

end
